(* ===== verification/Prelude.thy ===== *)
theory Prelude
  imports Main "HOL-Library.Word" "HOL-Library.Monad_Syntax"
begin

text \<open>
  Shared vocabulary of the development.

  \<^item> Machine integers are words of the width the Rust source gives them; \<open>usize\<close> is 32 bits wide
    on every target of the firmware (Cortex-M, Xtensa, RISC-V), and lengths that cannot reach
    that width are natural numbers.
  \<^item> A computation that can panic has type \<open>'a outcome\<close>: \<open>None\<close> is the panic, \<open>Some\<close> a normal
    return.  Out-of-range indexing and slicing are outcomes.
  \<^item> \<open>Result<T, E>\<close> is \<open>'e + 't\<close> with \<open>Inl\<close> the error.
  \<^item> Byte-order conversion, saturating addition and ceiling division follow the Rust standard
    library.
\<close>

unbundle bit_operations_syntax

type_synonym u8 = "8 word"
type_synonym u16 = "16 word"
type_synonym u32 = "32 word"
type_synonym u64 = "64 word"
type_synonym bytes = "u8 list"
type_synonym 'a outcome = "'a option"

named_theorems length_rules \<open>lengths of what the operations write\<close>
named_theorems wf_rules \<open>every operation keeps the well-formedness of its state\<close>
named_theorems field_rules \<open>state fields an operation leaves alone\<close>

definition idx :: "'a list \<Rightarrow> nat \<Rightarrow> 'a outcome" where
  "idx xs i = (if i < length xs then Some (xs ! i) else None)"

definition slice :: "'a list \<Rightarrow> nat \<Rightarrow> nat \<Rightarrow> 'a list outcome" where
  "slice xs a b = (if a \<le> b \<and> b \<le> length xs then Some (take (b - a) (drop a xs)) else None)"

definition copy_at :: "'a list \<Rightarrow> nat \<Rightarrow> 'a list \<Rightarrow> 'a list outcome" where
  "copy_at buf i xs =
     (if i + length xs \<le> length buf
      then Some (take i buf @ xs @ drop (i + length xs) buf) else None)"

definition get_opt :: "'a list \<Rightarrow> nat \<Rightarrow> 'a option" where
  "get_opt xs i = (if i < length xs then Some (xs ! i) else None)"

definition to_le_bytes32 :: "u32 \<Rightarrow> bytes" where
  "to_le_bytes32 w =
     [ucast w, ucast (drop_bit 8 w), ucast (drop_bit 16 w), ucast (drop_bit 24 w)]"

definition from_le_bytes32 :: "u8 \<Rightarrow> u8 \<Rightarrow> u8 \<Rightarrow> u8 \<Rightarrow> u32" where
  "from_le_bytes32 a b c d =
     ucast a OR push_bit 8 (ucast b) OR push_bit 16 (ucast c) OR push_bit 24 (ucast d)"

definition from_le_bytes16 :: "u8 \<Rightarrow> u8 \<Rightarrow> u16" where
  "from_le_bytes16 a b = ucast a OR push_bit 8 (ucast b)"

definition saturating_add32 :: "u32 \<Rightarrow> u32 \<Rightarrow> u32" where
  "saturating_add32 a b = (if unat a + unat b < 2 ^ 32 then a + b else 0xFFFFFFFF)"

definition saturating_add8 :: "u8 \<Rightarrow> u8 \<Rightarrow> u8" where
  "saturating_add8 a b = (if unat a + unat b < 2 ^ 8 then a + b else 0xFF)"

definition div_ceil_nat :: "nat \<Rightarrow> nat \<Rightarrow> nat" where
  "div_ceil_nat a b = (if a mod b = 0 then a div b else a div b + 1)"

definition xor_fold :: "bytes \<Rightarrow> u8" where
  "xor_fold xs = foldl (XOR) 0 xs"

lemma idx_eq_Some [simp]: "idx xs i = Some x \<longleftrightarrow> i < length xs \<and> xs ! i = x"
  by (auto simp: idx_def)

lemma idx_eq_None [simp]: "idx xs i = None \<longleftrightarrow> length xs \<le> i"
  by (auto simp: idx_def)

lemma slice_eq_Some:
  "slice xs a b = Some ys \<longleftrightarrow> a \<le> b \<and> b \<le> length xs \<and> ys = take (b - a) (drop a xs)"
  by (auto simp: slice_def)

lemma slice_prefix: "n \<le> length xs \<Longrightarrow> slice xs 0 n = Some (take n xs)"
  by (simp add: slice_def)

lemma length_slice [length_rules]: "slice xs a b = Some ys \<Longrightarrow> length ys = b - a"
  by (auto simp: slice_def split: if_splits)

lemma length_copy_at [length_rules]: "copy_at buf i xs = Some buf' \<Longrightarrow> length buf' = length buf"
  by (auto simp: copy_at_def split: if_splits)

lemma copy_at_0: "length xs \<le> length buf \<Longrightarrow> copy_at buf 0 xs = Some (xs @ drop (length xs) buf)"
  by (simp add: copy_at_def)

lemma take_of_append: "n = length xs \<Longrightarrow> take n (xs @ ys) = xs"
  by simp

lemma copy_at_fill:
  "length xs \<le> k \<Longrightarrow>
     copy_at (h @ replicate k z) (length h) xs = Some (h @ xs @ replicate (k - length xs) z)"
  by (simp add: copy_at_def)

lemma length_to_le_bytes32 [simp, length_rules]: "length (to_le_bytes32 w) = 4"
  by (simp add: to_le_bytes32_def)

lemma le_bytes32_roundtrip:
  "from_le_bytes32 (ucast w) (ucast (drop_bit 8 w)) (ucast (drop_bit 16 w)) (ucast (drop_bit 24 w))
     = (w :: u32)"
proof (rule bit_word_eqI)
  fix n assume "n < LENGTH(32)"
  then have n: "n < 32" by simp
  then consider "n < 8" | "8 \<le> n" "n < 16" | "16 \<le> n" "n < 24" | "24 \<le> n" "n < 32"
    by linarith
  then show "bit (from_le_bytes32 (ucast w) (ucast (drop_bit 8 w)) (ucast (drop_bit 16 w))
      (ucast (drop_bit 24 w))) n = bit w n"
    by cases (auto simp: from_le_bytes32_def bit_or_iff bit_push_bit_iff bit_ucast_iff
        bit_drop_bit_eq)
qed

lemma xor_eq_0_u8: "a XOR b = 0 \<longleftrightarrow> a = (b :: u8)"
proof
  assume "a XOR b = 0"
  then have "(a XOR b) XOR b = 0 XOR b" by (rule arg_cong)
  then show "a = b" by (simp add: xor.assoc)
qed simp

lemma xor_fold_Nil [simp]: "xor_fold [] = 0"
  by (simp add: xor_fold_def)

lemma xor_fold_snoc [simp]: "xor_fold (xs @ [x]) = xor_fold xs XOR x"
  by (simp add: xor_fold_def)

lemma xor_fold_snoc_self: "xor_fold (xs @ [xor_fold xs]) = 0"
  by simp

lemma unat_u32_le: "unat (a :: u32) \<le> 4294967295"
proof -
  have "unat a < 2 ^ LENGTH(32)" by (rule unsigned_less)
  then show ?thesis by simp
qed

lemma saturating_add32_mono: "a \<le> b \<Longrightarrow> saturating_add32 a 1 \<le> saturating_add32 b 1"
  by (auto simp: saturating_add32_def word_le_nat_alt unat_word_ariths)

lemma saturating_add32_ge: "a \<le> saturating_add32 a b"
  using unat_u32_le [of a]
  by (auto simp: saturating_add32_def word_le_nat_alt unat_word_ariths)

lemma saturating_add32_code [code]:
  "saturating_add32 a b = (let s = a + b in if s < a then 0xFFFFFFFF else s)"
  using unat_u32_le [of a] unat_u32_le [of b]
  by (auto simp: saturating_add32_def Let_def word_less_nat_alt unat_word_ariths mod_if)

lemma div_ceil_nat_alt: "0 < b \<Longrightarrow> div_ceil_nat a b = (a + b - 1) div b"
proof -
  assume b: "0 < b"
  have a: "a = b * (a div b) + a mod b" by simp
  have r: "a mod b < b" using b by simp
  have "(a + b - 1) div b = a div b + (a mod b + b - 1) div b"
  proof -
    have "a + b - 1 = (a mod b + b - 1) + b * (a div b)" using a b by linarith
    then show ?thesis using b by (simp only: div_mult_self2)
  qed
  moreover have "(a mod b + b - 1) div b = (if a mod b = 0 then 0 else 1)"
  proof (cases "a mod b = 0")
    case True
    with b show ?thesis by simp
  next
    case False
    then have "a mod b + b - 1 = b + (a mod b - 1)" by simp
    moreover have "(b + (a mod b - 1)) div b = 1" using r b by (simp add: div_add_self1 less_imp_diff_less)
    ultimately show ?thesis using False by (simp only: if_False)
  qed
  ultimately show ?thesis by (simp add: div_ceil_nat_def)
qed

lemma div_ceil_nat_least: "0 < b \<Longrightarrow> a \<le> div_ceil_nat a b * b"
proof -
  assume b: "0 < b"
  have "a = a div b * b + a mod b" by simp
  moreover have "a mod b < b" using b by simp
  ultimately have "a \<le> (a div b + 1) * b" by (metis add_mono_thms_linordered_semiring(2) add_mult_distrib less_imp_le mult_1)
  moreover have "a mod b = 0 \<Longrightarrow> a = a div b * b" by auto
  ultimately show ?thesis by (auto simp: div_ceil_nat_def)
qed

lemma div_ceil_nat_mono: "0 < b \<Longrightarrow> a \<le> a' \<Longrightarrow> div_ceil_nat a b \<le> div_ceil_nat a' b"
  by (simp add: div_ceil_nat_alt div_le_mono)

end
