(* ===== verification/Ccid_Types.thy ===== *)
theory Ccid_Types
  imports Prelude
begin

text \<open>
  The CCID Rev 1.1 vocabulary of crates/ccid-protocol: message types, status and error bytes
  (types.rs), the ten-byte message header with its parser and builder, the slot states, and the
  \<open>bStatus\<close> encoding (status.rs).
\<close>

section \<open>Constants\<close>

abbreviation (input) PC_TO_RDR_ICC_POWER_ON :: u8 where "PC_TO_RDR_ICC_POWER_ON \<equiv> 0x62"
abbreviation (input) PC_TO_RDR_ICC_POWER_OFF :: u8 where "PC_TO_RDR_ICC_POWER_OFF \<equiv> 0x63"
abbreviation (input) PC_TO_RDR_GET_SLOT_STATUS :: u8 where "PC_TO_RDR_GET_SLOT_STATUS \<equiv> 0x65"
abbreviation (input) PC_TO_RDR_XFR_BLOCK :: u8 where "PC_TO_RDR_XFR_BLOCK \<equiv> 0x6F"
abbreviation (input) PC_TO_RDR_GET_PARAMETERS :: u8 where "PC_TO_RDR_GET_PARAMETERS \<equiv> 0x6C"
abbreviation (input) PC_TO_RDR_SET_PARAMETERS :: u8 where "PC_TO_RDR_SET_PARAMETERS \<equiv> 0x61"
abbreviation (input) PC_TO_RDR_SECURE :: u8 where "PC_TO_RDR_SECURE \<equiv> 0x69"
abbreviation (input) PC_TO_RDR_T0_APDU :: u8 where "PC_TO_RDR_T0_APDU \<equiv> 0x6A"
abbreviation (input) PC_TO_RDR_ESCAPE :: u8 where "PC_TO_RDR_ESCAPE \<equiv> 0x6B"
abbreviation (input) PC_TO_RDR_RESET_PARAMETERS :: u8 where "PC_TO_RDR_RESET_PARAMETERS \<equiv> 0x6D"
abbreviation (input) PC_TO_RDR_ICC_CLOCK :: u8 where "PC_TO_RDR_ICC_CLOCK \<equiv> 0x6E"
abbreviation (input) PC_TO_RDR_MECHANICAL :: u8 where "PC_TO_RDR_MECHANICAL \<equiv> 0x71"
abbreviation (input) PC_TO_RDR_ABORT :: u8 where "PC_TO_RDR_ABORT \<equiv> 0x72"
abbreviation (input) PC_TO_RDR_SET_DATA_RATE_AND_CLOCK_FREQ :: u8 where
  "PC_TO_RDR_SET_DATA_RATE_AND_CLOCK_FREQ \<equiv> 0x73"

abbreviation (input) RDR_TO_PC_DATABLOCK :: u8 where "RDR_TO_PC_DATABLOCK \<equiv> 0x80"
abbreviation (input) RDR_TO_PC_SLOTSTATUS :: u8 where "RDR_TO_PC_SLOTSTATUS \<equiv> 0x81"
abbreviation (input) RDR_TO_PC_PARAMETERS :: u8 where "RDR_TO_PC_PARAMETERS \<equiv> 0x82"
abbreviation (input) RDR_TO_PC_ESCAPE :: u8 where "RDR_TO_PC_ESCAPE \<equiv> 0x83"
abbreviation (input) RDR_TO_PC_DATA_RATE_AND_CLOCK_FREQ :: u8 where
  "RDR_TO_PC_DATA_RATE_AND_CLOCK_FREQ \<equiv> 0x84"
abbreviation (input) RDR_TO_PC_NOTIFY_SLOT_CHANGE :: u8 where "RDR_TO_PC_NOTIFY_SLOT_CHANGE \<equiv> 0x50"

abbreviation (input) CCID_HEADER_SIZE :: nat where "CCID_HEADER_SIZE \<equiv> 10"
abbreviation (input) MAX_CCID_MESSAGE_LENGTH :: nat where "MAX_CCID_MESSAGE_LENGTH \<equiv> 271"

abbreviation (input) ICC_STATUS_PRESENT_ACTIVE :: u8 where "ICC_STATUS_PRESENT_ACTIVE \<equiv> 0"
abbreviation (input) ICC_STATUS_PRESENT_INACTIVE :: u8 where "ICC_STATUS_PRESENT_INACTIVE \<equiv> 1"
abbreviation (input) ICC_STATUS_NO_ICC :: u8 where "ICC_STATUS_NO_ICC \<equiv> 2"

abbreviation (input) COMMAND_STATUS_NO_ERROR :: u8 where "COMMAND_STATUS_NO_ERROR \<equiv> 0"
abbreviation (input) COMMAND_STATUS_FAILED :: u8 where "COMMAND_STATUS_FAILED \<equiv> 1"
abbreviation (input) COMMAND_STATUS_TIME_EXTENSION :: u8 where "COMMAND_STATUS_TIME_EXTENSION \<equiv> 2"

abbreviation (input) CCID_ERR_CMD_NOT_SUPPORTED :: u8 where "CCID_ERR_CMD_NOT_SUPPORTED \<equiv> 0"
abbreviation (input) CCID_ERR_CMD_SLOT_BUSY :: u8 where "CCID_ERR_CMD_SLOT_BUSY \<equiv> 0xE0"
abbreviation (input) CCID_ERR_PIN_CANCELLED :: u8 where "CCID_ERR_PIN_CANCELLED \<equiv> 0xEF"
abbreviation (input) CCID_ERR_PIN_TIMEOUT :: u8 where "CCID_ERR_PIN_TIMEOUT \<equiv> 0xF0"
abbreviation (input) CCID_ERR_CARD_TIMEOUT :: u8 where "CCID_ERR_CARD_TIMEOUT \<equiv> 0xF0"
abbreviation (input) CCID_ERR_HW_ERROR :: u8 where "CCID_ERR_HW_ERROR \<equiv> 0xFB"
abbreviation (input) CCID_ERR_XFR_OVERRUN :: u8 where "CCID_ERR_XFR_OVERRUN \<equiv> 0xFC"
abbreviation (input) CCID_ERR_XFR_PARITY_ERROR :: u8 where "CCID_ERR_XFR_PARITY_ERROR \<equiv> 0xFD"
abbreviation (input) CCID_ERR_ICC_MUTE :: u8 where "CCID_ERR_ICC_MUTE \<equiv> 0xFE"
abbreviation (input) CCID_ERR_CMD_ABORTED :: u8 where "CCID_ERR_CMD_ABORTED \<equiv> 0xFF"

abbreviation (input) CARD_ABSENT :: u8 where "CARD_ABSENT \<equiv> 2"
abbreviation (input) CARD_PRESENT :: u8 where "CARD_PRESENT \<equiv> 3"

definition DEFAULT_T0_PARAMS :: bytes where
  "DEFAULT_T0_PARAMS = [0x11, 0x00, 0x00, 0x00, 0x00]"

definition DEFAULT_T1_PARAMS :: bytes where
  "DEFAULT_T1_PARAMS = [0x11, 0x00, 0x00, 0x03, 0x00, 0x20, 0x00]"

section \<open>Slot state and message header\<close>

datatype slot_state = Absent | PresentInactive | PresentActive

fun icc_status :: "slot_state \<Rightarrow> u8" where
  "icc_status PresentActive = ICC_STATUS_PRESENT_ACTIVE"
| "icc_status PresentInactive = ICC_STATUS_PRESENT_INACTIVE"
| "icc_status Absent = ICC_STATUS_NO_ICC"

record ccid_header =
  message_type :: u8
  dw_length :: u32
  slot :: u8
  seq :: u8
  specific :: "u8 \<times> u8 \<times> u8"

definition specific0 :: "ccid_header \<Rightarrow> u8" where
  "specific0 h = fst (specific h)"

definition header_parse :: "bytes \<Rightarrow> ccid_header option" where
  "header_parse bs =
     (if length bs < CCID_HEADER_SIZE then None
      else Some \<lparr>message_type = bs ! 0,
                 dw_length = from_le_bytes32 (bs ! 1) (bs ! 2) (bs ! 3) (bs ! 4),
                 slot = bs ! 5, seq = bs ! 6,
                 specific = (bs ! 7, bs ! 8, bs ! 9)\<rparr>)"

definition header_build :: "u8 \<Rightarrow> u32 \<Rightarrow> u8 \<Rightarrow> u8 \<Rightarrow> u8 \<Rightarrow> u8 \<Rightarrow> u8 \<Rightarrow> bytes" where
  "header_build msg_type len sl sq status err spec =
     [msg_type] @ to_le_bytes32 len @ [sl, sq, status, err, spec]"

section \<open>The status byte\<close>

definition build_bstatus :: "u8 \<Rightarrow> u8 \<Rightarrow> u8" where
  "build_bstatus cmd_status icc = push_bit 6 (cmd_status AND 3) OR (icc AND 3)"

definition slot_status_ok :: "u8 \<Rightarrow> u8" where
  "slot_status_ok icc = build_bstatus COMMAND_STATUS_NO_ERROR icc"

definition slot_status_failed :: "u8 \<Rightarrow> u8" where
  "slot_status_failed icc = build_bstatus COMMAND_STATUS_FAILED icc"

definition slot_status_time_ext :: "u8 \<Rightarrow> u8" where
  "slot_status_time_ext icc = build_bstatus COMMAND_STATUS_TIME_EXTENSION icc"

definition failed_status :: "u8 \<Rightarrow> bool" where
  "failed_status st \<longleftrightarrow> st AND push_bit 6 COMMAND_STATUS_FAILED \<noteq> 0"

section \<open>Lemmas\<close>

lemma length_header_build [simp, length_rules]:
  "length (header_build mt len sl sq st err sp) = CCID_HEADER_SIZE"
  by (simp add: header_build_def)

lemma header_build_nth:
  "header_build mt len sl sq st err sp ! 0 = mt"
  "header_build mt len sl sq st err sp ! 5 = sl"
  "header_build mt len sl sq st err sp ! 6 = sq"
  "header_build mt len sl sq st err sp ! 7 = st"
  "header_build mt len sl sq st err sp ! 8 = err"
  "header_build mt len sl sq st err sp ! 9 = sp"
  by (simp_all add: header_build_def to_le_bytes32_def)

lemma header_parse_build:
  "header_parse (header_build mt len sl sq st err sp @ rest) =
     Some \<lparr>message_type = mt, dw_length = len, slot = sl, seq = sq, specific = (st, err, sp)\<rparr>"
  by (simp add: header_parse_def header_build_def to_le_bytes32_def le_bytes32_roundtrip)

lemma header_parse_None: "header_parse bs = None \<longleftrightarrow> length bs < CCID_HEADER_SIZE"
  by (simp add: header_parse_def)

lemma build_bstatus_ok [simp]: "build_bstatus COMMAND_STATUS_NO_ERROR (icc_status s) = icc_status s"
  by (cases s) (simp_all add: build_bstatus_def)

lemma build_bstatus_failed:
  "failed_status (build_bstatus COMMAND_STATUS_FAILED icc)"
  "\<not> failed_status (build_bstatus COMMAND_STATUS_NO_ERROR icc)"
proof -
  have "bit (build_bstatus 1 icc AND 64) 6"
    by (simp add: build_bstatus_def bit_and_iff bit_or_iff bit_push_bit_iff)
  then show "failed_status (build_bstatus COMMAND_STATUS_FAILED icc)"
    by (auto simp: failed_status_def)
  have "build_bstatus 0 icc AND 64 = 0"
    by (simp add: build_bstatus_def and.assoc)
  then show "\<not> failed_status (build_bstatus COMMAND_STATUS_NO_ERROR icc)"
    by (simp add: failed_status_def)
qed

end
