(* ===== verification/Atr.thy ===== *)
theory Atr
  imports Ccid_Types
begin

text \<open>
  ATR parsing and the ISO 7816-3 timing arithmetic of crates/ccid-protocol/src/atr.rs.  The
  parser is the source's loop over the interface characters; the timing functions keep the 64-bit
  arithmetic of the source.  An abstract description of an ATR (a list of interface-character
  levels) and its encoder state what the parser has to recover.
\<close>

section \<open>ATR parameters\<close>

record atr_params =
  ap_fi :: u16
  ap_di :: u8
  ap_ta1 :: u8
  ap_protocol :: u8
  ap_guard_time_n :: u8
  ap_ifsc :: u8
  ap_bwi :: u8
  ap_cwi :: u8
  ap_edc_type :: u8
  ap_has_ta1 :: bool

definition atr_params_default :: atr_params where
  "atr_params_default =
     \<lparr>ap_fi = 372, ap_di = 1, ap_ta1 = 0, ap_protocol = 0, ap_guard_time_n = 0, ap_ifsc = 32,
      ap_bwi = 4, ap_cwi = 13, ap_edc_type = 0, ap_has_ta1 = False\<rparr>"

definition fi_from_ta1_high :: "u8 \<Rightarrow> u16" where
  "fi_from_ta1_high nibble =
     (let FI_TABLE = [372, 372, 558, 744, 1116, 1488, 1860, 0,
                      0, 512, 768, 1024, 1536, 2048, 0, 0]
      in case get_opt FI_TABLE (unat nibble) of Some x \<Rightarrow> x | None \<Rightarrow> 372)"

definition di_from_ta1_low :: "u8 \<Rightarrow> u8" where
  "di_from_ta1_low nibble =
     (let DI_TABLE = [0, 1, 2, 4, 8, 16, 32, 64, 12, 20, 0, 0, 0, 0, 0, 0];
          x = (case get_opt DI_TABLE (unat nibble) of Some x \<Rightarrow> x | None \<Rightarrow> 1)
      in if x = 0 then 1 else x)"

section \<open>The interface-character loop\<close>

text \<open>
  One iteration of the loop reads TA, TB and TC of a level, each only when its presence bit is
  set; \<open>Inl\<close> is the \<open>break\<close> taken when the ATR ends early, \<open>Inr\<close> carries the next index.
\<close>

definition atr_ta :: "bytes \<Rightarrow> u8 \<Rightarrow> u8 \<Rightarrow> u8 \<Rightarrow> nat \<Rightarrow> atr_params \<Rightarrow> atr_params + nat \<times> atr_params" where
  "atr_ta atr y level td_protocol i p =
     (if y AND 1 = 0 then Inr (i, p)
      else if length atr \<le> i then Inl p
      else let ta = atr ! i in
        Inr (i + 1,
          if level = 1 then
            p\<lparr>ap_ta1 := ta, ap_has_ta1 := True, ap_fi := fi_from_ta1_high (drop_bit 4 ta),
              ap_di := di_from_ta1_low (ta AND 0x0F)\<rparr>
          else if 3 \<le> level \<and> td_protocol = 1 then p\<lparr>ap_ifsc := ta\<rparr>
          else p))"

definition atr_tb :: "bytes \<Rightarrow> u8 \<Rightarrow> u8 \<Rightarrow> u8 \<Rightarrow> nat \<Rightarrow> atr_params \<Rightarrow> atr_params + nat \<times> atr_params" where
  "atr_tb atr y level td_protocol i p =
     (if y AND 2 = 0 then Inr (i, p)
      else if length atr \<le> i then Inl p
      else let tb = atr ! i in
        Inr (i + 1,
          if 2 \<le> level \<and> td_protocol = 1
          then p\<lparr>ap_bwi := drop_bit 4 tb AND 0x0F, ap_cwi := tb AND 0x0F\<rparr>
          else p))"

definition atr_tc :: "bytes \<Rightarrow> u8 \<Rightarrow> u8 \<Rightarrow> u8 \<Rightarrow> nat \<Rightarrow> atr_params \<Rightarrow> atr_params + nat \<times> atr_params" where
  "atr_tc atr y level td_protocol i p =
     (if y AND 4 = 0 then Inr (i, p)
      else if length atr \<le> i then Inl p
      else let tc = atr ! i in
        Inr (i + 1,
          if level = 1 then p\<lparr>ap_guard_time_n := tc\<rparr>
          else if td_protocol = 1 then p\<lparr>ap_edc_type := tc AND 1\<rparr>
          else p))"

definition atr_td_step :: "u8 \<Rightarrow> u8 \<Rightarrow> atr_params \<Rightarrow> atr_params" where
  "atr_td_step level td_protocol p = (if level = 1 then p\<lparr>ap_protocol := td_protocol\<rparr> else p)"

lemma atr_step_index:
  "atr_ta atr y l t i p = Inr (j, q) \<Longrightarrow> i \<le> j"
  "atr_tb atr y l t i p = Inr (j, q) \<Longrightarrow> i \<le> j"
  "atr_tc atr y l t i p = Inr (j, q) \<Longrightarrow> i \<le> j"
  by (auto simp: atr_ta_def atr_tb_def atr_tc_def Let_def split: if_splits)

function parse_levels :: "bytes \<Rightarrow> u8 \<Rightarrow> nat \<Rightarrow> u8 \<Rightarrow> u8 \<Rightarrow> atr_params \<Rightarrow> atr_params" where
  "parse_levels atr y i level td_protocol p =
     (case atr_ta atr y level td_protocol i p of
        Inl p \<Rightarrow> p
      | Inr (i, p) \<Rightarrow>
     (case atr_tb atr y level td_protocol i p of
        Inl p \<Rightarrow> p
      | Inr (i, p) \<Rightarrow>
     (case atr_tc atr y level td_protocol i p of
        Inl p \<Rightarrow> p
      | Inr (i, p) \<Rightarrow>
        if y AND 8 = 0 then p
        else if length atr \<le> i then p
        else
          if level = 255 then atr_td_step level (atr ! i AND 0x0F) p
          else parse_levels atr (drop_bit 4 (atr ! i) AND 0x0F) (i + 1) (level + 1)
                 (atr ! i AND 0x0F) (atr_td_step level (atr ! i AND 0x0F) p))))"
  by pat_completeness auto
termination
  by (relation "measure (\<lambda>(atr, y, i, level, t, p). length atr - i)")
     (auto dest!: atr_step_index)

declare parse_levels.simps [simp del]

definition parse_atr :: "bytes \<Rightarrow> atr_params" where
  "parse_atr atr =
     (if length atr < 2 then atr_params_default
      else parse_levels atr (drop_bit 4 (atr ! 1) AND 0x0F) 2 1 0 atr_params_default)"

definition verify_atr_tck :: "bytes \<Rightarrow> u8 \<Rightarrow> bool" where
  "verify_atr_tck atr protocol =
     (if protocol \<noteq> 1 then True
      else if length atr < 3 then True
      else xor_fold (take (length atr - 2) (drop 1 atr)) = atr ! (length atr - 1))"

section \<open>Waiting times\<close>

definition div_ceil64 :: "u64 \<Rightarrow> u64 \<Rightarrow> u64" where
  "div_ceil64 a b = (if a mod b = 0 then a div b else a div b + 1)"

definition cap_u32 :: "u64 \<Rightarrow> u32" where
  "cap_u32 ms = ucast (min ms 0xFFFFFFFF)"

definition t1_bwt_ms :: "u8 \<Rightarrow> u32 \<Rightarrow> u32" where
  "t1_bwt_ms bwi baud =
     (if baud = 0 then 5000
      else let bwt_etu = 11 + push_bit (unat (bwi AND 0x0F)) 1 * 960 :: u64
           in cap_u32 (div_ceil64 (bwt_etu * 1000) (ucast baud)))"

abbreviation (input) T1_FIRST_BYTE_FLOOR_MS :: u32 where "T1_FIRST_BYTE_FLOOR_MS \<equiv> 500"
abbreviation (input) T1_FIRST_BYTE_MAX_MS :: u32 where "T1_FIRST_BYTE_MAX_MS \<equiv> 5000"
abbreviation (input) T1_INTER_BYTE_FLOOR_MS :: u32 where "T1_INTER_BYTE_FLOOR_MS \<equiv> 50"

definition clamp32 :: "u32 \<Rightarrow> u32 \<Rightarrow> u32 \<Rightarrow> u32" where
  "clamp32 x lo hi = (if x < lo then lo else if x > hi then hi else x)"

definition t1_first_byte_timeout_ms :: "u8 \<Rightarrow> u32 \<Rightarrow> u32" where
  "t1_first_byte_timeout_ms bwi baud =
     clamp32 (t1_bwt_ms bwi baud) T1_FIRST_BYTE_FLOOR_MS T1_FIRST_BYTE_MAX_MS"

definition t1_cwt_ms :: "u8 \<Rightarrow> u32 \<Rightarrow> u32" where
  "t1_cwt_ms cwi baud =
     (if baud = 0 then T1_INTER_BYTE_FLOOR_MS
      else let cwt_etu = push_bit (unat (cwi AND 0x0F)) 1 + 11 :: u64
           in cap_u32 (div_ceil64 (cwt_etu * 1000) (ucast baud)))"

definition t1_inter_byte_timeout_ms :: "u8 \<Rightarrow> u32 \<Rightarrow> u32" where
  "t1_inter_byte_timeout_ms cwi baud =
     clamp32 (t1_cwt_ms cwi baud) T1_INTER_BYTE_FLOOR_MS T1_FIRST_BYTE_MAX_MS"

definition t1_exchange_wire_time_ms :: "u32 \<Rightarrow> u32 \<Rightarrow> u32 \<Rightarrow> u16 \<Rightarrow> u8 \<Rightarrow> u32 \<Rightarrow> u32" where
  "t1_exchange_wire_time_ms tx_chars rx_chars char_half_etu fi di card_clk_hz =
     (if di = 0 \<or> card_clk_hz = 0 \<or> fi = 0 then 0xFFFFFFFF
      else
        let half_etu_total =
              ucast (saturating_add32 tx_chars rx_chars) * ucast char_half_etu :: u64;
            micros = half_etu_total * ucast fi * 1000000 div (2 * ucast di * ucast card_clk_hz)
        in cap_u32 (div_ceil64 micros 1000))"

definition t0_wwt_ms :: "u8 \<Rightarrow> u32 \<Rightarrow> u32" where
  "t0_wwt_ms wi baud =
     (if baud = 0 then 5000
      else let wi64 = (if wi = 0 then 10 else ucast wi) :: u64;
               wwt_etu = wi64 * 960
           in cap_u32 (div_ceil64 (wwt_etu * 1000) (ucast baud)))"

definition t1_bwi_cwi_ifsc :: "bytes \<Rightarrow> u8 \<times> u8 \<times> u8" where
  "t1_bwi_cwi_ifsc raw = (drop_bit 4 (raw ! 3), raw ! 3 AND 0x0F, raw ! 5)"

definition t1_tb3 :: "u8 \<Rightarrow> u8 \<Rightarrow> u8" where
  "t1_tb3 bwi cwi = push_bit 4 bwi OR (cwi AND 0x0F)"

section \<open>T=0 procedure bytes and card activation\<close>

datatype procedure_byte = Null | AckAll | AckOne | PbStatus u8 | Unexpected u8

definition classify_t0_procedure_byte :: "u8 \<Rightarrow> u8 \<Rightarrow> procedure_byte" where
  "classify_t0_procedure_byte ins pb =
     (if pb = 0x60 then Null
      else if pb = ins then AckAll
      else if pb = ins XOR 0xFF then AckOne
      else if (0x60 \<le> pb \<and> pb \<le> 0x6F) \<or> (0x90 \<le> pb \<and> pb \<le> 0x9F) then PbStatus pb
      else Unexpected pb)"

datatype activation_step = AssertReset | EnablePower | EnableClock | ReleaseReset

definition activation_plan :: "activation_step list" where
  "activation_plan = [AssertReset, EnablePower, EnableClock, ReleaseReset]"

section \<open>What an ATR says\<close>

text \<open>
  The specification side: an ATR carries a first level of interface characters and further
  levels, each announced by a TD character that names a protocol \<open>T\<close>.  \<open>encode_atr\<close> lays it out
  on the wire (ISO 7816-3 section 8.2), \<open>atr_meaning\<close> says which reader parameters it stands for.
\<close>

record atr_level =
  lv_ta :: "u8 option"
  lv_tb :: "u8 option"
  lv_tc :: "u8 option"

definition presence_bits :: "atr_level \<Rightarrow> bool \<Rightarrow> u8" where
  "presence_bits lv next_td =
     (if lv_ta lv = None then 0 else 1) OR (if lv_tb lv = None then 0 else 2) OR
     (if lv_tc lv = None then 0 else 4) OR (if next_td then 8 else 0)"

definition opt_byte :: "u8 option \<Rightarrow> bytes" where
  "opt_byte x = (case x of None \<Rightarrow> [] | Some b \<Rightarrow> [b])"

definition level_bytes :: "atr_level \<Rightarrow> bytes" where
  "level_bytes lv = opt_byte (lv_ta lv) @ opt_byte (lv_tb lv) @ opt_byte (lv_tc lv)"

fun encode_levels :: "atr_level \<Rightarrow> (u8 \<times> atr_level) list \<Rightarrow> bytes" where
  "encode_levels lv [] = level_bytes lv"
| "encode_levels lv ((t, lv') # rest) =
     level_bytes lv @ [push_bit 4 (presence_bits lv' (rest \<noteq> [])) OR t] @ encode_levels lv' rest"

definition encode_atr :: "u8 \<Rightarrow> u8 \<Rightarrow> atr_level \<Rightarrow> (u8 \<times> atr_level) list \<Rightarrow> bytes \<Rightarrow> bytes" where
  "encode_atr ts k lv rest tail =
     [ts, push_bit 4 (presence_bits lv (rest \<noteq> [])) OR k] @ encode_levels lv rest @ tail"

definition ta_meaning :: "nat \<Rightarrow> u8 \<Rightarrow> u8 option \<Rightarrow> atr_params \<Rightarrow> atr_params" where
  "ta_meaning n t ta p =
     (case ta of None \<Rightarrow> p
      | Some ta \<Rightarrow>
          if n = 1 then
            p\<lparr>ap_ta1 := ta, ap_has_ta1 := True, ap_fi := fi_from_ta1_high (drop_bit 4 ta),
              ap_di := di_from_ta1_low (ta AND 0x0F)\<rparr>
          else if 3 \<le> n \<and> t = 1 then p\<lparr>ap_ifsc := ta\<rparr> else p)"

definition tb_meaning :: "nat \<Rightarrow> u8 \<Rightarrow> u8 option \<Rightarrow> atr_params \<Rightarrow> atr_params" where
  "tb_meaning n t tb p =
     (case tb of None \<Rightarrow> p
      | Some tb \<Rightarrow>
          if 2 \<le> n \<and> t = 1
          then p\<lparr>ap_bwi := drop_bit 4 tb AND 0x0F, ap_cwi := tb AND 0x0F\<rparr> else p)"

definition tc_meaning :: "nat \<Rightarrow> u8 \<Rightarrow> u8 option \<Rightarrow> atr_params \<Rightarrow> atr_params" where
  "tc_meaning n t tc p =
     (case tc of None \<Rightarrow> p
      | Some tc \<Rightarrow>
          if n = 1 then p\<lparr>ap_guard_time_n := tc\<rparr>
          else if t = 1 then p\<lparr>ap_edc_type := tc AND 1\<rparr> else p)"

definition level_meaning :: "nat \<Rightarrow> u8 \<Rightarrow> atr_level \<Rightarrow> atr_params \<Rightarrow> atr_params" where
  "level_meaning n t lv p =
     tc_meaning n t (lv_tc lv) (tb_meaning n t (lv_tb lv) (ta_meaning n t (lv_ta lv) p))"

fun levels_meaning :: "nat \<Rightarrow> u8 \<Rightarrow> atr_level \<Rightarrow> (u8 \<times> atr_level) list \<Rightarrow> atr_params \<Rightarrow> atr_params" where
  "levels_meaning n t lv [] p = level_meaning n t lv p"
| "levels_meaning n t lv ((t', lv') # rest) p =
     (let p = level_meaning n t lv p;
          p = (if n = 1 then p\<lparr>ap_protocol := t'\<rparr> else p)
      in levels_meaning (n + 1) t' lv' rest p)"

definition atr_meaning :: "atr_level \<Rightarrow> (u8 \<times> atr_level) list \<Rightarrow> atr_params" where
  "atr_meaning lv rest = levels_meaning 1 0 lv rest atr_params_default"

definition atr_params_ok :: "atr_params \<Rightarrow> bool" where
  "atr_params_ok p \<longleftrightarrow>
     ap_di p \<noteq> 0 \<and> ap_protocol p < 16 \<and> ap_bwi p < 16 \<and> ap_cwi p < 16 \<and> ap_edc_type p \<le> 1"

section \<open>Nibbles\<close>

lemma bit_lt_16: "w < (16 :: u8) \<Longrightarrow> bit w n \<Longrightarrow> n < 4"
proof -
  assume lt: "w < 16" and b: "bit w n"
  have "unat w < 2 ^ 4" using lt by (simp add: word_less_nat_alt)
  then have "take_bit 4 (unat w) = unat w" by (rule take_bit_nat_eq_self)
  moreover have "bit (unat w) n" using b by (simp add: bit_unsigned_iff)
  ultimately have "bit (take_bit 4 (unat w)) n" by simp
  then show "n < 4" by (simp add: bit_take_bit_iff)
qed

lemma mask_16: "(0x0F :: u8) = mask 4"
  by (simp add: mask_numeral)

lemma nibble_high: "y < 16 \<Longrightarrow> t < 16 \<Longrightarrow> drop_bit 4 (push_bit 4 y OR t) AND 0x0F = (y :: u8)"
  by (rule bit_word_eqI)
     (auto simp: mask_16 bit_simps dest: bit_lt_16)

lemma nibble_low: "t < 16 \<Longrightarrow> (push_bit 4 y OR t) AND 0x0F = (t :: u8)"
  by (rule bit_word_eqI)
     (auto simp: mask_16 bit_simps dest: bit_lt_16)

lemma and_nibble_lt: "(x AND 0x0F) < (16 :: u8)"
proof -
  have "x AND 0x0F \<le> (0x0F :: u8)" by (rule word_and_le1)
  then show ?thesis by (rule order.strict_trans1) simp
qed

lemma and_1_le: "(x AND 1) \<le> (1 :: u8)"
  by (rule word_and_le1)

lemma presence_bits_lt: "presence_bits lv m < 16"
  by (simp add: presence_bits_def split: if_split)

lemma presence_bits_test:
  "presence_bits lv m AND 1 = 0 \<longleftrightarrow> lv_ta lv = None"
  "presence_bits lv m AND 2 = 0 \<longleftrightarrow> lv_tb lv = None"
  "presence_bits lv m AND 4 = 0 \<longleftrightarrow> lv_tc lv = None"
  "presence_bits lv m AND 8 = 0 \<longleftrightarrow> \<not> m"
  by (simp_all add: presence_bits_def split: if_split)

section \<open>The parser recovers what the ATR says\<close>

lemma nth_of_drop: "drop i xs = y # ys \<Longrightarrow> i < length xs \<and> xs ! i = y \<and> drop (Suc i) xs = ys"
  by (metis Cons_nth_drop_Suc drop_eq_Nil leI list.distinct(1) list.inject)

lemma drop_opt_byte:
  assumes "drop i xs = opt_byte x @ ys"
  shows "drop (i + length (opt_byte x)) xs = ys"
    and "x = Some b \<Longrightarrow> i < length xs \<and> xs ! i = b"
  using assms by (auto simp: opt_byte_def dest: nth_of_drop split: option.splits)

lemma level_tests:
  fixes level :: u8
  assumes "unat level = n"
  shows "level = 1 \<longleftrightarrow> n = 1" "2 \<le> level \<longleftrightarrow> 2 \<le> n" "3 \<le> level \<longleftrightarrow> 3 \<le> n"
  using assms by (simp_all add: word_le_nat_alt word_unat_eq_iff)

lemma ta_read:
  assumes "drop i atr = opt_byte ta @ xs" and "y AND 1 = 0 \<longleftrightarrow> ta = None" and "unat level = n"
  shows "atr_ta atr y level t i p = Inr (i + length (opt_byte ta), ta_meaning n t ta p)"
  using assms drop_opt_byte(2) [OF assms(1)] level_tests [OF assms(3)]
  by (cases ta) (auto simp: atr_ta_def ta_meaning_def opt_byte_def)

lemma tb_read:
  assumes "drop i atr = opt_byte tb @ xs" and "y AND 2 = 0 \<longleftrightarrow> tb = None" and "unat level = n"
  shows "atr_tb atr y level t i p = Inr (i + length (opt_byte tb), tb_meaning n t tb p)"
  using assms drop_opt_byte(2) [OF assms(1)] level_tests [OF assms(3)]
  by (cases tb) (auto simp: atr_tb_def tb_meaning_def opt_byte_def)

lemma tc_read:
  assumes "drop i atr = opt_byte tc @ xs" and "y AND 4 = 0 \<longleftrightarrow> tc = None" and "unat level = n"
  shows "atr_tc atr y level t i p = Inr (i + length (opt_byte tc), tc_meaning n t tc p)"
  using assms drop_opt_byte(2) [OF assms(1)] level_tests [OF assms(3)]
  by (cases tc) (auto simp: atr_tc_def tc_meaning_def opt_byte_def)

lemma level_reads:
  assumes "drop i atr = level_bytes lv @ xs" and n: "unat level = n"
  obtains i1 p1 i2 p2 where
    "atr_ta atr (presence_bits lv m) level t i p = Inr (i1, p1)"
    "atr_tb atr (presence_bits lv m) level t i1 p1 = Inr (i2, p2)"
    "atr_tc atr (presence_bits lv m) level t i2 p2
       = Inr (i + length (level_bytes lv), level_meaning n t lv p)"
    "drop (i + length (level_bytes lv)) atr = xs"
proof -
  have a: "drop i atr = opt_byte (lv_ta lv) @ opt_byte (lv_tb lv) @ opt_byte (lv_tc lv) @ xs"
    using assms(1) by (simp add: level_bytes_def)
  note b = drop_opt_byte(1) [OF a]
  note c = drop_opt_byte(1) [OF b]
  show thesis
    by (rule that [OF ta_read [OF a presence_bits_test(1) n] tb_read [OF b presence_bits_test(2) n]])
       (use tc_read [OF c presence_bits_test(3) n] drop_opt_byte(1) [OF c]
         in \<open>simp_all add: level_meaning_def level_bytes_def add.assoc\<close>)
qed

lemma parse_levels_encode:
  assumes "list_all (\<lambda>(t, _). t < 16) rest" and "n + length rest \<le> 255" and "1 \<le> n"
    and "unat level = n" and "drop i atr = encode_levels lv rest @ tail"
  shows "parse_levels atr (presence_bits lv (rest \<noteq> [])) i level t p = levels_meaning n t lv rest p"
  using assms
proof (induction rest arbitrary: n level i lv t p)
  case Nil
  obtain i1 p1 i2 p2 where steps:
    "atr_ta atr (presence_bits lv False) level t i p = Inr (i1, p1)"
    "atr_tb atr (presence_bits lv False) level t i1 p1 = Inr (i2, p2)"
    "atr_tc atr (presence_bits lv False) level t i2 p2
       = Inr (i + length (level_bytes lv), level_meaning n t lv p)"
    using Nil.prems by (auto intro: level_reads [of i atr lv tail level n False t p])
  show ?case
    by (subst parse_levels.simps) (simp add: steps presence_bits_test)
next
  case (Cons tl rest)
  obtain t' lv' where tl: "tl = (t', lv')" by (cases tl)
  let ?td = "push_bit 4 (presence_bits lv' (rest \<noteq> [])) OR t'"
  have t': "t' < 16" and rest: "list_all (\<lambda>(t, _). t < 16) rest"
    using Cons.prems(1) by (auto simp: tl)
  obtain i1 p1 i2 p2 where steps:
    "atr_ta atr (presence_bits lv True) level t i p = Inr (i1, p1)"
    "atr_tb atr (presence_bits lv True) level t i1 p1 = Inr (i2, p2)"
    "atr_tc atr (presence_bits lv True) level t i2 p2
       = Inr (i + length (level_bytes lv), level_meaning n t lv p)"
    "drop (i + length (level_bytes lv)) atr = ?td # encode_levels lv' rest @ tail"
    using Cons.prems
    by (auto simp: tl
        intro: level_reads [of i atr lv "?td # encode_levels lv' rest @ tail" level n True t p])
  let ?j = "i + length (level_bytes lv)"
  have j: "?j < length atr" "atr ! ?j = ?td" "drop (Suc ?j) atr = encode_levels lv' rest @ tail"
    using nth_of_drop [OF steps(4)] by auto
  have n: "n + 1 + length rest \<le> 255" using Cons.prems(2) by (simp add: tl)
  have l255: "level \<noteq> 255" and l1: "unat (level + 1) = n + 1"
    using n Cons.prems(4) by (auto simp: unat_word_ariths)
  have nib: "drop_bit 4 (atr ! ?j) AND 0x0F = presence_bits lv' (rest \<noteq> [])"
    "atr ! ?j AND 0x0F = t'"
    unfolding j(2) by (rule nibble_high [OF presence_bits_lt t'], rule nibble_low [OF t'])
  have lv1: "level = 1 \<longleftrightarrow> n = 1" using Cons.prems(4) by (simp add: word_unat_eq_iff)
  have "parse_levels atr (presence_bits lv True) i level t p
      = parse_levels atr (presence_bits lv' (rest \<noteq> [])) (Suc ?j) (level + 1) t'
          (atr_td_step level t' (level_meaning n t lv p))"
    using j(1) l255 by (subst parse_levels.simps) (simp add: steps(1-3) presence_bits_test nib)
  also have "\<dots> = levels_meaning (n + 1) t' lv' rest (atr_td_step level t' (level_meaning n t lv p))"
    using Cons.IH [OF rest n _ l1 j(3)] by simp
  finally show ?case by (simp add: tl atr_td_step_def lv1)
qed

section \<open>Every parse is in range\<close>

lemma di_from_ta1_low_pos: "di_from_ta1_low x \<noteq> 0"
  by (simp add: di_from_ta1_low_def Let_def)

lemma atr_params_default_ok: "atr_params_ok atr_params_default"
  by (simp add: atr_params_ok_def atr_params_default_def)

lemma atr_steps_ok:
  assumes "atr_params_ok p"
  shows "case atr_ta atr y l t i p of Inl q \<Rightarrow> atr_params_ok q | Inr (j, q) \<Rightarrow> atr_params_ok q"
    and "case atr_tb atr y l t i p of Inl q \<Rightarrow> atr_params_ok q | Inr (j, q) \<Rightarrow> atr_params_ok q"
    and "case atr_tc atr y l t i p of Inl q \<Rightarrow> atr_params_ok q | Inr (j, q) \<Rightarrow> atr_params_ok q"
    and "atr_params_ok (atr_td_step l (x AND 0x0F) p)"
  using assms
  by (auto simp: atr_params_ok_def atr_ta_def atr_tb_def atr_tc_def atr_td_step_def Let_def
      di_from_ta1_low_pos and_nibble_lt and_1_le)

lemma parse_levels_ok: "atr_params_ok p \<Longrightarrow> atr_params_ok (parse_levels atr y i level t p)"
proof (induction atr y i level t p rule: parse_levels.induct)
  case (1 atr y i level t p)
  show ?case
  proof (cases "atr_ta atr y level t i p")
    case (Inl q)
    then show ?thesis
      using atr_steps_ok(1) [OF 1(2), of atr y level t i] by (subst parse_levels.simps) simp
  next
    case a: (Inr r)
    obtain i1 p1 where r: "r = (i1, p1)" by (cases r)
    have p1: "atr_params_ok p1" using atr_steps_ok(1) [OF 1(2), of atr y level t i] a r by simp
    show ?thesis
    proof (cases "atr_tb atr y level t i1 p1")
      case (Inl q)
      then show ?thesis
        using atr_steps_ok(2) [OF p1, of atr y level t i1] a r by (subst parse_levels.simps) simp
    next
      case b: (Inr r2)
      obtain i2 p2 where r2: "r2 = (i2, p2)" by (cases r2)
      have p2: "atr_params_ok p2" using atr_steps_ok(2) [OF p1, of atr y level t i1] b r2 by simp
      show ?thesis
      proof (cases "atr_tc atr y level t i2 p2")
        case (Inl q)
        then show ?thesis
          using atr_steps_ok(3) [OF p2, of atr y level t i2] a b r r2
          by (subst parse_levels.simps) simp
      next
        case c: (Inr r3)
        obtain i3 p3 where r3: "r3 = (i3, p3)" by (cases r3)
        have p3: "atr_params_ok p3" using atr_steps_ok(3) [OF p2, of atr y level t i2] c r3 by simp
        note td = atr_steps_ok(4) [OF p3, of level "atr ! i3"]
        show ?thesis
          using p3 td 1(1) [OF a r [symmetric] b r2 [symmetric] c r3 [symmetric] _ _ _ td] a b c r r2 r3
          by (subst parse_levels.simps) auto
      qed
    qed
  qed
qed

section \<open>The 64-bit arithmetic is exact\<close>

lemma unat_div_ceil64:
  assumes "b \<noteq> 0" shows "unat (div_ceil64 a b) = div_ceil_nat (unat a) (unat b)"
proof -
  have b: "0 < unat b" using assms by (simp add: unat_gt_0)
  have z: "a mod b = 0 \<longleftrightarrow> unat a mod unat b = 0"
    by (simp add: word_unat_eq_iff unat_mod_distrib)
  have "unat a div unat b + 1 < 2 ^ 64" if "unat a mod unat b \<noteq> 0"
  proof -
    have "unat b \<noteq> 1" using that by auto
    with b have "2 \<le> unat b" by linarith
    then have "unat a div unat b \<le> unat a div 2" by (simp add: div_le_mono2)
    moreover have "unat a < 2 ^ LENGTH(64)" by (rule unsigned_less)
    ultimately show ?thesis by simp
  qed
  then show ?thesis
    using z by (auto simp: div_ceil64_def div_ceil_nat_def unat_div_distrib unat_word_ariths)
qed

lemma unat_cap_u32: "unat (cap_u32 ms) = min (unat ms) 4294967295"
proof -
  have "unat (ucast (min ms 0xFFFFFFFF) :: u32) = unat (min ms 0xFFFFFFFF)"
    by (auto simp: unsigned_ucast_eq take_bit_nat_eq_self_iff min_def word_le_nat_alt)
  then show ?thesis by (auto simp: cap_u32_def min_def word_le_nat_alt)
qed

lemma unat_clamp32:
  "unat (clamp32 x lo hi) =
     (if unat x < unat lo then unat lo else if unat x > unat hi then unat hi else unat x)"
  by (simp add: clamp32_def word_less_nat_alt)

lemma nibble_exponent: "unat (x AND (0x0F :: u8)) < 16"
  using and_nibble_lt [of x] by (simp add: word_less_nat_alt)

lemma small_exponent_cases:
  "k < (16 :: nat) \<Longrightarrow> k \<in> {0, 1, 2, 3, 4, 5, 6, 7, 8, 9, 10, 11, 12, 13, 14, 15}"
  by simp presburger

lemma unat_bwt_etu: "k < 16 \<Longrightarrow> unat ((11 + push_bit k 1 * 960) * 1000 :: u64) = (11 + 2 ^ k * 960) * 1000"
  by (drule small_exponent_cases) (elim insertE emptyE; simp)

lemma unat_cwt_etu: "k < 16 \<Longrightarrow> unat ((push_bit k 1 + 11) * 1000 :: u64) = (2 ^ k + 11) * 1000"
  by (drule small_exponent_cases) (elim insertE emptyE; simp)

lemma ucast_baud: "unat (ucast (baud :: u32) :: u64) = unat baud" "ucast baud = (0 :: u64) \<longleftrightarrow> baud = 0"
proof -
  have "unat baud < 2 ^ LENGTH(32)" by (rule unsigned_less)
  then show *: "unat (ucast (baud :: u32) :: u64) = unat baud"
    by (simp add: unsigned_ucast_eq take_bit_nat_eq_self_iff)
  then show "ucast baud = (0 :: u64) \<longleftrightarrow> baud = 0"
    by (simp add: word_unat_eq_iff)
qed

lemma t1_bwt_ms_exact:
  assumes "baud \<noteq> 0"
  shows "unat (t1_bwt_ms bwi baud) =
    min (div_ceil_nat ((11 + 2 ^ unat (bwi AND 0x0F) * 960) * 1000) (unat baud)) 4294967295"
  by (simp only: t1_bwt_ms_def Let_def assms if_False unat_cap_u32 unat_div_ceil64 ucast_baud
      unat_bwt_etu nibble_exponent not_False_eq_True)

lemma t1_cwt_ms_exact:
  assumes "baud \<noteq> 0"
  shows "unat (t1_cwt_ms cwi baud) =
    min (div_ceil_nat ((2 ^ unat (cwi AND 0x0F) + 11) * 1000) (unat baud)) 4294967295"
  by (simp only: t1_cwt_ms_def Let_def assms if_False unat_cap_u32 unat_div_ceil64 ucast_baud
      unat_cwt_etu nibble_exponent not_False_eq_True)

lemma covers_window:
  assumes "0 < b" and "x = min (div_ceil_nat a b) 4294967295" and "x \<le> 5000" and "x \<le> y"
  shows "a \<le> y * b"
proof -
  have "x = div_ceil_nat a b" using assms(2,3) by (simp add: min_def split: if_splits)
  then have "a \<le> x * b" using div_ceil_nat_least [OF assms(1)] by simp
  also have "x * b \<le> y * b" using assms(4) by (rule mult_le_mono1)
  finally show ?thesis .
qed

section \<open>Properties\<close>

lemma parse_atr_ok: "atr_params_ok (parse_atr atr)"
  by (simp add: parse_atr_def atr_params_default_ok parse_levels_ok)

text \<open>C34: For every ATR laid out as ISO 7816-3 section 8.2 prescribes (any first level of interface
  characters, up to 253 further levels announced by TD characters, any historical bytes and check
  byte behind them), \<open>parse_atr\<close> recovers exactly the parameters the interface characters stand
  for: TA1 as Fi/Di, TC1 as guard time, the first TD as protocol, and BWI/CWI, IFSC and EDC from
  the levels that announce T=1.\<close>

theorem parse_atr_correct:
  assumes "k < 16" and "list_all (\<lambda>(t, _). t < 16) rest" and "length rest \<le> 253"
  shows "parse_atr (encode_atr ts k lv rest tail) = atr_meaning lv rest"
proof -
  let ?atr = "encode_atr ts k lv rest tail"
  have y: "drop_bit 4 (?atr ! 1) AND 0x0F = presence_bits lv (rest \<noteq> [])"
    using nibble_high [OF presence_bits_lt assms(1)] by (simp add: encode_atr_def del: drop_bit_or)
  have "parse_levels ?atr (presence_bits lv (rest \<noteq> [])) 2 1 0 atr_params_default
      = levels_meaning 1 0 lv rest atr_params_default"
    by (rule parse_levels_encode [where tail = tail])
       (use assms in \<open>simp_all add: encode_atr_def\<close>)
  then show ?thesis
    by (simp only: parse_atr_def y atr_meaning_def) (simp add: encode_atr_def)
qed

theorem parse_atr_correct_witness:
  "parse_atr [0x3B, 0x95, 0x18, 0x81, 0xB1, 0xFE, 0x45, 0x01, 0x4A, 0x43]
     = atr_meaning \<lparr>lv_ta = Some 0x18, lv_tb = None, lv_tc = None\<rparr>
         [(1, \<lparr>lv_ta = None, lv_tb = None, lv_tc = None\<rparr>),
          (1, \<lparr>lv_ta = Some 0xFE, lv_tb = Some 0x45, lv_tc = None\<rparr>),
          (1, \<lparr>lv_ta = None, lv_tb = None, lv_tc = None\<rparr>)]
   \<and> ap_ifsc (parse_atr [0x3B, 0x95, 0x18, 0x81, 0xB1, 0xFE, 0x45, 0x01, 0x4A, 0x43]) = 0xFE"
proof -
  let ?e = "\<lparr>lv_ta = None, lv_tb = None, lv_tc = None\<rparr>"
  let ?rest = "[(1, ?e), (1, \<lparr>lv_ta = Some 0xFE, lv_tb = Some 0x45, lv_tc = None\<rparr>), (1, ?e)]"
  let ?lv = "\<lparr>lv_ta = Some 0x18, lv_tb = None, lv_tc = None\<rparr>"
  have "parse_atr (encode_atr 0x3B 5 ?lv ?rest [0x4A, 0x43]) = atr_meaning ?lv ?rest"
    by (rule parse_atr_correct) simp_all
  moreover have "encode_atr 0x3B 5 ?lv ?rest [0x4A, 0x43]
      = [0x3B, 0x95, 0x18, 0x81, 0xB1, 0xFE, 0x45, 0x01, 0x4A, 0x43]"
    by (simp add: encode_atr_def presence_bits_def level_bytes_def opt_byte_def)
  moreover have "ap_ifsc (atr_meaning ?lv ?rest) = 0xFE"
    by (simp add: atr_meaning_def level_meaning_def ta_meaning_def tb_meaning_def tc_meaning_def)
  ultimately show ?thesis by simp
qed

text \<open>Whatever bytes a card answers, \<open>parse_atr\<close> yields parameters every consumer can divide by
  and pack: Di is never zero, the protocol, BWI and CWI fit a nibble and the EDC type a bit.\<close>

theorem parse_atr_in_range: "atr_params_ok (parse_atr atr)"
  by (rule parse_atr_ok)

text \<open>The reader's T=1 patience honours the windows it advertises.  At any baud rate, whenever the
  block waiting time BWT = (11 + 960 * 2^BWI) etu fits under the five second ceiling, the
  first-byte timeout lasts at least BWT of wire time, and likewise the inter-byte timeout lasts at
  least CWT = (2^CWI + 11) etu; both timeouts stay between their floors and the ceiling.\<close>

theorem t1_timeouts_cover_windows:
  assumes "baud \<noteq> 0"
  shows "(t1_bwt_ms bwi baud \<le> T1_FIRST_BYTE_MAX_MS \<longrightarrow>
      (11 + 2 ^ unat (bwi AND 0x0F) * 960) * 1000
        \<le> unat (t1_first_byte_timeout_ms bwi baud) * unat baud) \<and>
    (t1_cwt_ms cwi baud \<le> T1_FIRST_BYTE_MAX_MS \<longrightarrow>
      (2 ^ unat (cwi AND 0x0F) + 11) * 1000
        \<le> unat (t1_inter_byte_timeout_ms cwi baud) * unat baud) \<and>
    unat (t1_first_byte_timeout_ms bwi baud) \<in> {500..5000} \<and>
    unat (t1_inter_byte_timeout_ms cwi baud) \<in> {50..5000}"
proof (intro conjI impI)
  have b: "0 < unat baud" using assms by (simp add: unat_gt_0)
  show "(11 + 2 ^ unat (bwi AND 0x0F) * 960) * 1000
        \<le> unat (t1_first_byte_timeout_ms bwi baud) * unat baud"
    if "t1_bwt_ms bwi baud \<le> T1_FIRST_BYTE_MAX_MS"
    using that by (intro covers_window [OF b t1_bwt_ms_exact [OF assms]])
       (auto simp: t1_first_byte_timeout_ms_def unat_clamp32 word_le_nat_alt)
  show "(2 ^ unat (cwi AND 0x0F) + 11) * 1000
        \<le> unat (t1_inter_byte_timeout_ms cwi baud) * unat baud"
    if "t1_cwt_ms cwi baud \<le> T1_FIRST_BYTE_MAX_MS"
    using that by (intro covers_window [OF b t1_cwt_ms_exact [OF assms]])
       (auto simp: t1_inter_byte_timeout_ms_def unat_clamp32 word_le_nat_alt)
qed (simp_all add: t1_first_byte_timeout_ms_def t1_inter_byte_timeout_ms_def unat_clamp32)

theorem t1_timeouts_cover_windows_witness:
  "t1_bwt_ms 4 10752 = 1430 \<and>
   (11 + 2 ^ unat ((4 :: u8) AND 0x0F) * 960) * 1000
     \<le> unat (t1_first_byte_timeout_ms 4 10752) * unat (10752 :: u32)"
proof -
  have v: "t1_bwt_ms 4 10752 = 1430"
    by (simp add: t1_bwt_ms_def div_ceil64_def cap_u32_def)
  show ?thesis
    using v t1_timeouts_cover_windows [of 10752 4] by simp
qed

end
