(* ===== verification/Codec.thy ===== *)
theory Codec
  imports Prelude
begin

text \<open>
  Fixed-size little-endian records.  \<open>put_u32\<close> and \<open>read_u32\<close> are the
  \<open>copy_from_slice(&w.to_le_bytes())\<close> and \<open>u32::from_le_bytes\<close> accesses the counters of the
  firmware are built from; the locale \<open>le_codec\<close> is the contract between a record's
  \<open>to_bytes\<close>/\<open>from_bytes\<close> pair and the escape commands that carry it to the host.
\<close>

definition put_u32 :: "nat \<Rightarrow> u32 \<Rightarrow> bytes \<Rightarrow> bytes" where
  "put_u32 off w buf = take off buf @ to_le_bytes32 w @ drop (off + 4) buf"

definition read_u32 :: "bytes \<Rightarrow> nat \<Rightarrow> u32" where
  "read_u32 buf off =
     from_le_bytes32 (buf ! off) (buf ! (off + 1)) (buf ! (off + 2)) (buf ! (off + 3))"

lemma length_put_u32 [simp, length_rules]:
  "off + 4 \<le> length buf \<Longrightarrow> length (put_u32 off w buf) = length buf"
  by (simp add: put_u32_def)

lemma nth_put_u32_other:
  "off + 4 \<le> length buf \<Longrightarrow> i < length buf \<Longrightarrow> i < off \<or> off + 4 \<le> i \<Longrightarrow> put_u32 off w buf ! i = buf ! i"
  by (auto simp: put_u32_def nth_append)

lemma nth_put_u32_same:
  "off + 4 \<le> length buf \<Longrightarrow> j < 4 \<Longrightarrow> put_u32 off w buf ! (off + j) = to_le_bytes32 w ! j"
  by (simp add: put_u32_def nth_append)

lemma read_put_same: "off + 4 \<le> length buf \<Longrightarrow> read_u32 (put_u32 off w buf) off = w"
  using nth_put_u32_same [of off buf 0 w] nth_put_u32_same [of off buf 1 w]
    nth_put_u32_same [of off buf 2 w] nth_put_u32_same [of off buf 3 w]
  by (simp add: read_u32_def to_le_bytes32_def le_bytes32_roundtrip)

lemma read_put_other:
  "off + 4 \<le> length buf \<Longrightarrow> off' + 4 \<le> length buf \<Longrightarrow> off' + 4 \<le> off \<or> off + 4 \<le> off' \<Longrightarrow>
     read_u32 (put_u32 off w buf) off' = read_u32 buf off'"
  by (auto simp: read_u32_def nth_put_u32_other)

lemma drop_put_u32: "off + 4 \<le> n \<Longrightarrow> n \<le> length buf \<Longrightarrow> drop n (put_u32 off w buf) = drop n buf"
  by (simp add: put_u32_def)

lemmas put_rules = read_put_same read_put_other drop_put_u32

lemma read_u32_append: "off + 4 \<le> length xs \<Longrightarrow> read_u32 (xs @ ys) off = read_u32 xs off"
  by (simp add: read_u32_def nth_append)

locale le_codec =
  fixes size :: nat
    and to_bytes :: "'a \<Rightarrow> bytes \<Rightarrow> bytes \<times> nat"
    and from_bytes :: "bytes \<Rightarrow> 'a option"
  assumes to_bytes_short: "length buf < size \<Longrightarrow> to_bytes x buf = (buf, 0)"
    and to_bytes_count: "size \<le> length buf \<Longrightarrow> snd (to_bytes x buf) = size"
    and to_bytes_length: "length (fst (to_bytes x buf)) = length buf"
    and to_bytes_tail: "drop size (fst (to_bytes x buf)) = drop size buf"
    and from_to: "size \<le> length buf \<Longrightarrow> from_bytes (fst (to_bytes x buf)) = Some x"
    and from_short: "length buf < size \<Longrightarrow> from_bytes buf = None"
    and from_long: "size \<le> length buf \<Longrightarrow> from_bytes buf \<noteq> None"
    and from_prefix: "size \<le> length buf \<Longrightarrow> from_bytes (take size buf) = from_bytes buf"
begin

lemma from_None_iff: "from_bytes buf = None \<longleftrightarrow> length buf < size"
  using from_short [of buf] from_long [of buf] by (cases "length buf < size") auto

lemma payload_roundtrip:
  "size \<le> length buf \<Longrightarrow> from_bytes (take size (fst (to_bytes x buf))) = Some x"
  using from_prefix [of "fst (to_bytes x buf)"] from_to [of buf x] to_bytes_length [of x buf]
  by simp

lemma to_bytes_inj:
  assumes "size \<le> length buf" and "fst (to_bytes x buf) = fst (to_bytes y buf)"
  shows "x = y"
proof -
  have "Some x = from_bytes (fst (to_bytes x buf))" by (rule from_to [OF assms(1), symmetric])
  also have "\<dots> = from_bytes (fst (to_bytes y buf))" by (simp only: assms(2))
  also have "\<dots> = Some y" by (rule from_to [OF assms(1)])
  finally show ?thesis by simp
qed

lemma exact_buffer:
  "length buf = size \<Longrightarrow> from_bytes (fst (to_bytes x buf)) = Some x \<and> length (fst (to_bytes x buf)) = size"
  by (simp add: from_to to_bytes_length)

end

end
