(* ===== verification/Diagnostics.thy ===== *)
theory Diagnostics
  imports Codec
begin

text \<open>
  The runtime counters of crates/ccid-core/src/diagnostics.rs (Escape 0xD0) and the turnaround
  statistics of crates/ccid-service/src/turnaround.rs (Escape 0xD2), with their wire formats.
\<close>

section \<open>Diagnostics counters\<close>

record diagnostics =
  apdu_tx_count :: u32
  apdu_rx_count :: u32
  nak_count :: u32
  error_count :: u32
  reinit_count :: u32
  card_present :: bool
  uptime_ticks :: u32

abbreviation (input) DIAGNOSTICS_SIZE :: nat where "DIAGNOSTICS_SIZE \<equiv> 28"

definition diagnostics_new :: diagnostics where
  "diagnostics_new =
     \<lparr>apdu_tx_count = 0, apdu_rx_count = 0, nak_count = 0, error_count = 0, reinit_count = 0,
      card_present = False, uptime_ticks = 0\<rparr>"

definition diagnostics_to_bytes :: "diagnostics \<Rightarrow> bytes \<Rightarrow> bytes \<times> nat" where
  "diagnostics_to_bytes d buf =
     (if length buf < DIAGNOSTICS_SIZE then (buf, 0)
      else
        let card_present_u32 = (if card_present d then 1 else 0);
            buf = put_u32 0 (apdu_tx_count d) buf;
            buf = put_u32 4 (apdu_rx_count d) buf;
            buf = put_u32 8 (nak_count d) buf;
            buf = put_u32 12 (error_count d) buf;
            buf = put_u32 16 (reinit_count d) buf;
            buf = put_u32 20 card_present_u32 buf;
            buf = put_u32 24 (uptime_ticks d) buf
        in (buf, DIAGNOSTICS_SIZE))"

definition diagnostics_from_bytes :: "bytes \<Rightarrow> diagnostics option" where
  "diagnostics_from_bytes buf =
     (if length buf < DIAGNOSTICS_SIZE then None
      else Some
        \<lparr>apdu_tx_count = read_u32 buf 0, apdu_rx_count = read_u32 buf 4,
         nak_count = read_u32 buf 8, error_count = read_u32 buf 12,
         reinit_count = read_u32 buf 16, card_present = (read_u32 buf 20 \<noteq> 0),
         uptime_ticks = read_u32 buf 24\<rparr>)"

section \<open>Turnaround statistics\<close>

record turnaround_stats =
  last_turnaround_us :: u32
  max_turnaround_us :: u32
  last_card_exchange_us :: u32
  max_card_exchange_us :: u32
  last_exchange_blocks :: u32
  last_exchange_wtx_replies :: u32
  last_exchange_recoveries :: u32
  last_exchange_max_transceive_us :: u32

abbreviation (input) TURNAROUND_SIZE :: nat where "TURNAROUND_SIZE \<equiv> 32"

definition turnaround_new :: turnaround_stats where
  "turnaround_new =
     \<lparr>last_turnaround_us = 0, max_turnaround_us = 0, last_card_exchange_us = 0,
      max_card_exchange_us = 0, last_exchange_blocks = 0, last_exchange_wtx_replies = 0,
      last_exchange_recoveries = 0, last_exchange_max_transceive_us = 0\<rparr>"

definition record_turnaround_us :: "u32 \<Rightarrow> turnaround_stats \<Rightarrow> turnaround_stats" where
  "record_turnaround_us us t =
     t\<lparr>last_turnaround_us := us, max_turnaround_us := max (max_turnaround_us t) us\<rparr>"

definition record_card_exchange_us :: "u32 \<Rightarrow> turnaround_stats \<Rightarrow> turnaround_stats" where
  "record_card_exchange_us us t =
     t\<lparr>last_card_exchange_us := us, max_card_exchange_us := max (max_card_exchange_us t) us\<rparr>"

definition record_exchange_decomposition ::
    "u32 \<Rightarrow> u32 \<Rightarrow> u32 \<Rightarrow> u32 \<Rightarrow> turnaround_stats \<Rightarrow> turnaround_stats" where
  "record_exchange_decomposition blocks wtx_replies recoveries max_transceive_us t =
     t\<lparr>last_exchange_blocks := blocks, last_exchange_wtx_replies := wtx_replies,
       last_exchange_recoveries := recoveries,
       last_exchange_max_transceive_us := max_transceive_us\<rparr>"

datatype outgoing_block_kind = IBlock | RBlock | SBlock

definition outgoing_block_from_pcb :: "u8 \<Rightarrow> outgoing_block_kind option" where
  "outgoing_block_from_pcb pcb =
     (let b = drop_bit 6 pcb
      in if b = 0 then Some IBlock else if b = 2 then Some RBlock
         else if b = 3 then Some SBlock else None)"

definition turnaround_to_bytes :: "turnaround_stats \<Rightarrow> bytes \<Rightarrow> bytes \<times> nat" where
  "turnaround_to_bytes t buf =
     (if length buf < TURNAROUND_SIZE then (buf, 0)
      else
        let buf = put_u32 0 (last_turnaround_us t) buf;
            buf = put_u32 4 (max_turnaround_us t) buf;
            buf = put_u32 8 (last_card_exchange_us t) buf;
            buf = put_u32 12 (max_card_exchange_us t) buf;
            buf = put_u32 16 (last_exchange_blocks t) buf;
            buf = put_u32 20 (last_exchange_wtx_replies t) buf;
            buf = put_u32 24 (last_exchange_recoveries t) buf;
            buf = put_u32 28 (last_exchange_max_transceive_us t) buf
        in (buf, TURNAROUND_SIZE))"

definition turnaround_from_bytes :: "bytes \<Rightarrow> turnaround_stats option" where
  "turnaround_from_bytes buf =
     (if length buf < TURNAROUND_SIZE then None
      else Some
        \<lparr>last_turnaround_us = read_u32 buf 0, max_turnaround_us = read_u32 buf 4,
         last_card_exchange_us = read_u32 buf 8, max_card_exchange_us = read_u32 buf 12,
         last_exchange_blocks = read_u32 buf 16, last_exchange_wtx_replies = read_u32 buf 20,
         last_exchange_recoveries = read_u32 buf 24,
         last_exchange_max_transceive_us = read_u32 buf 28\<rparr>)"

section \<open>Both wire formats meet the codec contract\<close>

lemma read_u32_take: "off + 4 \<le> n \<Longrightarrow> read_u32 (take n buf) off = read_u32 buf off"
  by (simp add: read_u32_def)

interpretation diag: le_codec DIAGNOSTICS_SIZE diagnostics_to_bytes diagnostics_from_bytes
  by unfold_locales
    (auto simp: diagnostics_to_bytes_def diagnostics_from_bytes_def Let_def put_rules read_u32_take)

interpretation turn: le_codec TURNAROUND_SIZE turnaround_to_bytes turnaround_from_bytes
  by unfold_locales
    (auto simp: turnaround_to_bytes_def turnaround_from_bytes_def Let_def put_rules read_u32_take)

lemma turnaround_max_dominates:
  "max_turnaround_us t \<le> max_turnaround_us (record_turnaround_us us t)"
  "last_turnaround_us (record_turnaround_us us t) \<le> max_turnaround_us (record_turnaround_us us t)"
  by (simp_all add: record_turnaround_us_def)

section \<open>Properties\<close>

text \<open>The Escape 0xD0 wire format is lossless: serialising the counters into any buffer of at
  least 28 bytes and parsing the first 28 bytes on the host gives the counters back, two different
  counter sets never share a wire image, and a buffer that is too short is left untouched.\<close>

theorem diagnostics_wire_lossless:
  "(if DIAGNOSTICS_SIZE \<le> length buf
    then diagnostics_from_bytes (take DIAGNOSTICS_SIZE (fst (diagnostics_to_bytes d buf))) = Some d
       \<and> (fst (diagnostics_to_bytes d buf) = fst (diagnostics_to_bytes d' buf) \<longleftrightarrow> d = d')
    else diagnostics_to_bytes d buf = (buf, 0))"
  using diag.payload_roundtrip [of buf d] diag.to_bytes_inj [of buf d d']
    diag.to_bytes_short [of buf d]
  by auto

text \<open>The Escape 0xD2 wire format is lossless in the same sense, over its 32 bytes.\<close>

theorem turnaround_wire_lossless:
  "(if TURNAROUND_SIZE \<le> length buf
    then turnaround_from_bytes (take TURNAROUND_SIZE (fst (turnaround_to_bytes t buf))) = Some t
       \<and> (fst (turnaround_to_bytes t buf) = fst (turnaround_to_bytes t' buf) \<longleftrightarrow> t = t')
    else turnaround_to_bytes t buf = (buf, 0))"
  using turn.payload_roundtrip [of buf t] turn.to_bytes_inj [of buf t t']
    turn.to_bytes_short [of buf t]
  by auto

end
