(* ===== verification/Response.thy ===== *)
theory Response
  imports Ccid_Types
begin

text \<open>
  The response writers, PPS recogniser and parameter defaults of crates/ccid-core/src/lib.rs.  A
  writer takes the caller's buffer and returns it with the message in front, together with the
  number of bytes written; a buffer that is too small is returned unchanged with count 0.
\<close>

definition write_message ::
    "u8 \<Rightarrow> u8 \<Rightarrow> u8 \<Rightarrow> u8 \<Rightarrow> u8 \<Rightarrow> u8 \<Rightarrow> bytes \<Rightarrow> bytes \<Rightarrow> bytes \<times> nat" where
  "write_message msg_type sl sq status err spec payload buf =
     (let total_len = CCID_HEADER_SIZE + length payload
      in if length buf < total_len then (buf, 0)
         else
           let header = header_build msg_type (word_of_nat (length payload)) sl sq status err spec
           in (header @ payload @ drop total_len buf, total_len))"

definition write_slot_status :: "u8 \<Rightarrow> u8 \<Rightarrow> u8 \<Rightarrow> u8 \<Rightarrow> u8 \<Rightarrow> u8 \<Rightarrow> bytes \<Rightarrow> bytes \<times> nat" where
  "write_slot_status sl sq icc cmd_status err clock_status buf =
     write_message RDR_TO_PC_SLOTSTATUS sl sq (build_bstatus cmd_status icc) err clock_status [] buf"

definition write_data_block ::
    "u8 \<Rightarrow> u8 \<Rightarrow> u8 \<Rightarrow> u8 \<Rightarrow> u8 \<Rightarrow> u8 \<Rightarrow> bytes \<Rightarrow> bytes \<Rightarrow> bytes \<times> nat" where
  "write_data_block sl sq icc cmd_status err chain_parameter data buf =
     write_message RDR_TO_PC_DATABLOCK sl sq (build_bstatus cmd_status icc) err chain_parameter
       data buf"

definition write_parameters_msg ::
    "u8 \<Rightarrow> u8 \<Rightarrow> u8 \<Rightarrow> u8 \<Rightarrow> u8 \<Rightarrow> u8 \<Rightarrow> bytes \<Rightarrow> bytes \<Rightarrow> bytes \<times> nat" where
  "write_parameters_msg sl sq icc cmd_status err protocol params buf =
     write_message RDR_TO_PC_PARAMETERS sl sq (build_bstatus cmd_status icc) err protocol params buf"

definition is_pps_request :: "bytes \<Rightarrow> bool" where
  "is_pps_request apdu =
     (if \<not> (3 \<le> length apdu \<and> length apdu \<le> 5) then False
      else if apdu ! 0 \<noteq> 0xFF then False
      else let pps0 = apdu ! 1 in pps0 AND 0xE0 = 0 \<and> pps0 \<noteq> 0)"

definition build_pps_response :: "u8 \<Rightarrow> u8 \<Rightarrow> bytes \<Rightarrow> bytes \<Rightarrow> bytes \<times> nat" where
  "build_pps_response sl sq pps_data buf =
     write_data_block sl sq ICC_STATUS_PRESENT_ACTIVE COMMAND_STATUS_NO_ERROR 0 0 pps_data buf"

definition default_params :: "u8 \<Rightarrow> bytes" where
  "default_params protocol =
     (if protocol = 0 then DEFAULT_T0_PARAMS
      else if protocol = 1 then DEFAULT_T1_PARAMS
      else DEFAULT_T1_PARAMS)"

definition validate_params_length :: "u8 \<Rightarrow> u32 \<Rightarrow> bool" where
  "validate_params_length protocol len =
     (if protocol = 0 then len = 5 else if protocol = 1 then len = 7 else False)"

section \<open>What a written message looks like\<close>

lemma write_message_fits:
  "CCID_HEADER_SIZE + length payload \<le> length buf \<Longrightarrow>
     write_message mt sl sq st err sp payload buf =
       (header_build mt (word_of_nat (length payload)) sl sq st err sp @ payload
          @ drop (CCID_HEADER_SIZE + length payload) buf,
        CCID_HEADER_SIZE + length payload)"
  by (simp add: write_message_def Let_def)

lemma write_message_short:
  "length buf < CCID_HEADER_SIZE + length payload \<Longrightarrow>
     write_message mt sl sq st err sp payload buf = (buf, 0)"
  by (simp add: write_message_def)

lemma length_write_message [simp, length_rules]:
  "length (fst (write_message mt sl sq st err sp payload buf)) = length buf"
  by (simp add: write_message_def Let_def)

lemma snd_write_message:
  "snd (write_message mt sl sq st err sp payload buf) =
     (if CCID_HEADER_SIZE + length payload \<le> length buf
      then CCID_HEADER_SIZE + length payload else 0)"
  by (simp add: write_message_def Let_def)

lemma write_message_le [simp]: "snd (write_message mt sl sq st err sp payload buf) \<le> length buf"
  by (simp add: snd_write_message)

lemmas writer_defs = write_slot_status_def write_data_block_def write_parameters_msg_def
  build_pps_response_def

lemma length_writers [simp, length_rules]:
  "length (fst (write_slot_status sl sq icc cmd err clk buf)) = length buf"
  "length (fst (write_data_block sl sq icc cmd err chain data buf)) = length buf"
  "length (fst (write_parameters_msg sl sq icc cmd err p params buf)) = length buf"
  by (simp_all add: writer_defs)

lemma snd_writers [simp]:
  "snd (write_slot_status sl sq icc cmd err clk buf) \<le> length buf"
  "snd (write_data_block sl sq icc cmd err chain data buf) \<le> length buf"
  by (simp_all add: writer_defs)

definition message_at :: "bytes \<Rightarrow> nat \<Rightarrow> u8 \<Rightarrow> u8 \<Rightarrow> u8 \<Rightarrow> u8 \<Rightarrow> u8 \<Rightarrow> u8 \<Rightarrow> bytes \<Rightarrow> bool" where
  "message_at buf n mt sl sq st err sp payload \<longleftrightarrow>
     n = CCID_HEADER_SIZE + length payload \<and> n \<le> length buf \<and>
     take n buf = header_build mt (word_of_nat (length payload)) sl sq st err sp @ payload"

lemma write_message_at:
  "CCID_HEADER_SIZE + length payload \<le> length buf \<Longrightarrow>
     write_message mt sl sq st err sp payload buf = (buf', n) \<Longrightarrow>
     message_at buf' n mt sl sq st err sp payload"
  by (auto simp: write_message_fits message_at_def)

lemma message_at_header:
  assumes "message_at buf n mt sl sq st err sp payload" and "length payload < 2 ^ 32"
  shows "header_parse buf = Some \<lparr>message_type = mt, dw_length = word_of_nat (length payload),
           slot = sl, seq = sq, specific = (st, err, sp)\<rparr>"
    and "take (unat (word_of_nat (length payload) :: u32)) (drop CCID_HEADER_SIZE buf) = payload"
proof -
  let ?h = "header_build mt (word_of_nat (length payload)) sl sq st err sp"
  have t: "take n buf = ?h @ payload" using assms(1) unfolding message_at_def by blast
  have "take n buf @ drop n buf = ?h @ payload @ drop n buf" by (simp only: t append.assoc)
  then have buf: "buf = ?h @ payload @ drop n buf" by (simp only: append_take_drop_id)
  show "header_parse buf = Some \<lparr>message_type = mt, dw_length = word_of_nat (length payload),
           slot = sl, seq = sq, specific = (st, err, sp)\<rparr>"
    by (subst buf) (rule header_parse_build)
  have l: "unat (word_of_nat (length payload) :: u32) = length payload"
    using assms(2) by (simp add: unsigned_of_nat take_bit_nat_eq_self_iff)
  show "take (unat (word_of_nat (length payload) :: u32)) (drop CCID_HEADER_SIZE buf) = payload"
    by (subst buf) (simp add: l)
qed

lemma message_at_nth:
  assumes "message_at buf n mt sl sq st err sp payload"
  shows "buf ! 0 = mt" "buf ! 5 = sl" "buf ! 6 = sq" "buf ! 7 = st" "buf ! 8 = err" "buf ! 9 = sp"
    and "7 < n"
proof -
  have n: "10 \<le> n" using assms by (simp add: message_at_def)
  let ?h = "header_build mt (word_of_nat (length payload)) sl sq st err sp"
  have t: "take n buf = ?h @ payload" using assms unfolding message_at_def by blast
  have "buf ! i = ?h ! i" if "i < 10" for i
  proof -
    have "buf ! i = take n buf ! i" using n that by simp
    also have "\<dots> = ?h ! i" using that by (simp add: t nth_append)
    finally show ?thesis .
  qed
  then show "buf ! 0 = mt" "buf ! 5 = sl" "buf ! 6 = sq" "buf ! 7 = st" "buf ! 8 = err" "buf ! 9 = sp"
    by (simp_all add: header_build_nth)
  show "7 < n" using n by simp
qed

text \<open>A response written into a buffer that has room is exactly what the host reads back: the
  ten-byte header parses to the message type, payload length, slot, sequence number, status, error
  and specific byte that were passed in, the declared number of bytes behind it is the payload, and
  the rest of the buffer is untouched; without room nothing is written.\<close>

theorem write_message_roundtrip:
  assumes "length payload < 2 ^ 32" and "write_message mt sl sq st err sp payload buf = (buf', n)"
  shows "(if CCID_HEADER_SIZE + length payload \<le> length buf
          then header_parse buf' = Some \<lparr>message_type = mt, dw_length = word_of_nat (length payload),
                 slot = sl, seq = sq, specific = (st, err, sp)\<rparr>
             \<and> take (unat (word_of_nat (length payload) :: u32)) (drop CCID_HEADER_SIZE buf') = payload
             \<and> drop n buf' = drop n buf \<and> length buf' = length buf
          else buf' = buf \<and> n = 0)"
proof (cases "CCID_HEADER_SIZE + length payload \<le> length buf")
  case True
  note at = write_message_at [OF True assms(2)]
  have "drop n buf' = drop n buf" "length buf' = length buf"
    using assms(2) True by (auto simp: write_message_fits)
  with True message_at_header [OF at assms(1)] show ?thesis by simp
next
  case False
  with assms(2) show ?thesis by (simp add: write_message_short)
qed

theorem write_message_roundtrip_witness:
  "header_parse (fst (write_message 0x80 0 7 0 0 0 [0x90, 0] (replicate 12 0))) =
     Some \<lparr>message_type = 0x80, dw_length = 2, slot = 0, seq = 7, specific = (0, 0, 0)\<rparr>"
proof -
  let ?r = "write_message 0x80 0 7 0 0 0 [0x90, 0] (replicate 12 0)"
  have r: "?r = (fst ?r, snd ?r)" by simp
  show ?thesis using write_message_roundtrip [OF _ r] by simp
qed

end
