(* ===== verification/Secure.thy ===== *)
theory Secure
  imports Ccid_Types
begin

text \<open>
  The PC_to_RDR_Secure structures of crates/ccid-core/src/secure.rs: the parsers of the PIN verify
  and PIN modify data blocks, the digit buffer filled by the PIN pad, and the builders of the
  VERIFY and CHANGE REFERENCE DATA commands.  A parser or builder that can index out of range
  returns an outcome.  Arithmetic wraps as in the release profile of the workspace.
\<close>

section \<open>PIN sessions\<close>

datatype pin_result = PinSuccess | PinCancelled | PinTimeout | PinInvalidLength

record pin_verify_params =
  pv_timeout_secs :: u8
  pv_min_len :: u8
  pv_max_len :: u8
  pv_format :: u8
  pv_validation :: u8
  pv_apdu_template :: bytes
  pv_template_len :: nat
  pv_pin_type :: u8
  pv_time_slot :: u16
  pv_message_index :: u8
  pv_pin_block_string :: u8
  pv_pin_length_format :: u8
  pv_number_message :: u8
  pv_lang_id :: u16
  pv_teo_prologue :: u8

definition pin_verify_default :: pin_verify_params where
  "pin_verify_default =
     \<lparr>pv_timeout_secs = 30, pv_min_len = 6, pv_max_len = 8, pv_format = 0x82,
      pv_validation = 0x02, pv_apdu_template = [0x00, 0x20, 0x00, 0x81, 0x08],
      pv_template_len = 5, pv_pin_type = 0x81, pv_time_slot = 100, pv_message_index = 0,
      pv_pin_block_string = 0x08, pv_pin_length_format = 0x00, pv_number_message = 0x01,
      pv_lang_id = 0x0409, pv_teo_prologue = 0x00\<rparr>"

definition pin_verify_parse :: "bytes \<Rightarrow> pin_verify_params option" where
  "pin_verify_parse data =
     (if length data < 14 + 4 then None
      else
        let max_len = data ! 4; min_len = data ! 5;
            cla = data ! 14; ins = data ! 15; p1 = data ! 16; p2 = data ! 17
        in Some
          \<lparr>pv_timeout_secs = data ! 0, pv_min_len = min_len, pv_max_len = max_len,
           pv_format = data ! 1, pv_validation = data ! 6,
           pv_apdu_template = [cla, ins, p1, p2, max_len], pv_template_len = 5,
           pv_pin_type = p2, pv_time_slot = 100, pv_message_index = data ! 10,
           pv_pin_block_string = data ! 2, pv_pin_length_format = data ! 3,
           pv_number_message = data ! 7, pv_lang_id = from_le_bytes16 (data ! 8) (data ! 9),
           pv_teo_prologue = data ! 11\<rparr>)"

definition verify_is_user_pin :: "pin_verify_params \<Rightarrow> bool" where
  "verify_is_user_pin p \<longleftrightarrow> pv_pin_type p = 0x81"

definition verify_is_admin_pin :: "pin_verify_params \<Rightarrow> bool" where
  "verify_is_admin_pin p \<longleftrightarrow> pv_pin_type p = 0x83"

record pin_modify_params =
  pm_timeout_secs :: u8
  pm_min_len :: u8
  pm_max_len :: u8
  pm_format :: u8
  pm_validation :: u8
  pm_old_pin_offset :: u8
  pm_new_pin_offset :: u8
  pm_apdu_template :: bytes
  pm_template_len :: nat
  pm_pin_type :: u8
  pm_time_slot :: u16
  pm_msg_index_old :: u8
  pm_msg_index_new :: u8
  pm_msg_index_confirm :: u8

definition pin_modify_default :: pin_modify_params where
  "pin_modify_default =
     \<lparr>pm_timeout_secs = 30, pm_min_len = 6, pm_max_len = 8, pm_format = 0x82,
      pm_validation = 0x02, pm_old_pin_offset = 5, pm_new_pin_offset = 13,
      pm_apdu_template = [0x00, 0x24, 0x00, 0x81, 0x10], pm_template_len = 5,
      pm_pin_type = 0x81, pm_time_slot = 100, pm_msg_index_old = 0, pm_msg_index_new = 1,
      pm_msg_index_confirm = 2\<rparr>"

text \<open>
  The result is \<open>None\<close> when the parser panics, \<open>Some None\<close> when it rejects the block.  \<open>data[13]\<close>
  is read with an index expression, the fields behind it with \<open>data.get(..)?\<close>.
\<close>

definition pin_modify_parse :: "bytes \<Rightarrow> pin_modify_params option outcome" where
  "pin_modify_parse data =
     (if length data < 11 then Some None
      else
        let max_len = data ! 6; min_len = data ! 7; number_message = data ! 10 in
        case idx data 13 of
          None \<Rightarrow> None
        | Some msg_index_old \<Rightarrow>
            Some
             (case (if number_message \<noteq> 0 then map_option (\<lambda>v. (v, 15)) (get_opt data 14)
                    else Some (1, 14 :: nat)) of
                None \<Rightarrow> None
              | Some (msg_index_new, i) \<Rightarrow>
             (case (if 3 \<le> number_message then map_option (\<lambda>v. (v, i + 1)) (get_opt data i)
                    else Some (2, i)) of
                None \<Rightarrow> None
              | Some (msg_index_confirm, i) \<Rightarrow>
             (case (get_opt data i, get_opt data (i + 3), get_opt data (i + 4),
                    get_opt data (i + 5), get_opt data (i + 6)) of
                (Some teo, Some cla, Some ins, Some p1, Some p2) \<Rightarrow>
                  Some
                    \<lparr>pm_timeout_secs = data ! 0, pm_min_len = min_len, pm_max_len = max_len,
                     pm_format = data ! 1, pm_validation = data ! 9,
                     pm_old_pin_offset = data ! 4, pm_new_pin_offset = data ! 5,
                     pm_apdu_template = [cla, ins, p1, p2, max_len * 2], pm_template_len = 5,
                     pm_pin_type = p2, pm_time_slot = 100, pm_msg_index_old = msg_index_old,
                     pm_msg_index_new = msg_index_new,
                     pm_msg_index_confirm = msg_index_confirm\<rparr>
              | _ \<Rightarrow> None))))"

definition modify_is_user_pin :: "pin_modify_params \<Rightarrow> bool" where
  "modify_is_user_pin p \<longleftrightarrow> pm_pin_type p = 0x81"

definition modify_is_admin_pin :: "pin_modify_params \<Rightarrow> bool" where
  "modify_is_admin_pin p \<longleftrightarrow> pm_pin_type p = 0x83"

datatype secure_state =
    SecureIdle
  | WaitingForPinVerify u8 pin_verify_params
  | WaitingForPinModify u8 pin_modify_params

section \<open>The digit buffer\<close>

record pin_buffer =
  pb_digits :: bytes
  pb_len :: nat
  pb_max_len :: nat

definition pin_new :: "nat \<Rightarrow> pin_buffer" where
  "pin_new max_len = \<lparr>pb_digits = replicate 16 0, pb_len = 0, pb_max_len = min max_len 16\<rparr>"

definition pin_push :: "u8 \<Rightarrow> pin_buffer \<Rightarrow> bool \<times> pin_buffer" where
  "pin_push digit b =
     (if pb_max_len b \<le> pb_len b then (False, b)
      else if digit > 9 then (False, b)
      else (True, b\<lparr>pb_digits := (pb_digits b)[pb_len b := digit], pb_len := pb_len b + 1\<rparr>))"

definition pin_pop :: "pin_buffer \<Rightarrow> bool \<times> pin_buffer" where
  "pin_pop b = (if pb_len b = 0 then (False, b) else (True, b\<lparr>pb_len := pb_len b - 1\<rparr>))"

definition pin_clear :: "pin_buffer \<Rightarrow> pin_buffer" where
  "pin_clear b = b\<lparr>pb_digits := map (\<lambda>_. 0) (pb_digits b), pb_len := 0\<rparr>"

definition pin_has_minimum :: "pin_buffer \<Rightarrow> nat \<Rightarrow> bool" where
  "pin_has_minimum b m \<longleftrightarrow> m \<le> pb_len b"

definition pin_to_ascii :: "pin_buffer \<Rightarrow> bytes" where
  "pin_to_ascii b =
     map (\<lambda>d. d + 0x30) (take (pb_len b) (pb_digits b)) @ replicate (16 - pb_len b) 0"

definition pin_to_mask :: "pin_buffer \<Rightarrow> bytes" where
  "pin_to_mask b = replicate (min (pb_len b) 16) 0x2A @ replicate (16 - pb_len b) 0"

definition pin_drop :: "pin_buffer \<Rightarrow> pin_buffer" where
  "pin_drop b = b\<lparr>pb_digits := map (\<lambda>_. 0) (pb_digits b)\<rparr>"

section \<open>APDU builders\<close>

datatype apdu_error = PinTooShort | PinTooLong | InvalidPinLength | InvalidPinCharacter

definition is_ascii_digit :: "u8 \<Rightarrow> bool" where
  "is_ascii_digit c \<longleftrightarrow> 0x30 \<le> c \<and> c \<le> 0x39"

record verify_builder =
  vb_cla :: u8
  vb_p1 :: u8
  vb_p2 :: u8

definition verify_from_template :: "u8 \<Rightarrow> u8 \<Rightarrow> u8 \<Rightarrow> verify_builder" where
  "verify_from_template cla p1 p2 = \<lparr>vb_cla = cla, vb_p1 = p1, vb_p2 = p2\<rparr>"

definition verify_user_pin :: verify_builder where
  "verify_user_pin = \<lparr>vb_cla = 0x00, vb_p1 = 0x00, vb_p2 = 0x81\<rparr>"

definition verify_admin_pin :: verify_builder where
  "verify_admin_pin = \<lparr>vb_cla = 0x00, vb_p1 = 0x00, vb_p2 = 0x83\<rparr>"

definition verify_build :: "verify_builder \<Rightarrow> bytes \<Rightarrow> (apdu_error + bytes) outcome" where
  "verify_build vb pin_ascii =
     (let pin_len = length pin_ascii in
      if pin_ascii = [] then Some (Inl PinTooShort)
      else if vb_p2 vb = 0x83 \<and> pin_len \<noteq> 8 then Some (Inl InvalidPinLength)
      else if vb_p2 vb = 0x81 \<and> (pin_len < 6 \<or> pin_len > 8) then Some (Inl InvalidPinLength)
      else if \<not> list_all is_ascii_digit pin_ascii then Some (Inl InvalidPinCharacter)
      else do {
        apdu \<leftarrow> copy_at
          ([vb_cla vb, 0x20, vb_p1 vb, vb_p2 vb, word_of_nat pin_len] @ replicate 8 0) 5 pin_ascii;
        Some (Inr (take (5 + pin_len) apdu @ replicate (13 - (5 + pin_len)) 0))
      })"

definition verify_build_from_digits :: "verify_builder \<Rightarrow> bytes \<Rightarrow> (apdu_error + bytes) outcome" where
  "verify_build_from_digits vb digits =
     (let ds = take 8 digits in
      if \<not> list_all (\<lambda>d. d \<le> 9) ds then Some (Inl InvalidPinCharacter)
      else verify_build vb (map (\<lambda>d. d + 0x30) ds))"

definition verify_apdu_len :: "nat \<Rightarrow> nat" where
  "verify_apdu_len pin_len = 5 + pin_len"

record modify_builder =
  mb_cla :: u8
  mb_p1 :: u8
  mb_p2 :: u8
  mb_old_pin_offset :: nat
  mb_new_pin_offset :: nat

definition modify_from_template :: "u8 \<Rightarrow> u8 \<Rightarrow> u8 \<Rightarrow> nat \<Rightarrow> nat \<Rightarrow> modify_builder" where
  "modify_from_template cla p1 p2 old_off new_off =
     \<lparr>mb_cla = cla, mb_p1 = p1, mb_p2 = p2, mb_old_pin_offset = old_off,
      mb_new_pin_offset = new_off\<rparr>"

definition modify_user_pin :: modify_builder where
  "modify_user_pin =
     \<lparr>mb_cla = 0x00, mb_p1 = 0x00, mb_p2 = 0x81, mb_old_pin_offset = 5, mb_new_pin_offset = 13\<rparr>"

definition modify_admin_pin :: modify_builder where
  "modify_admin_pin =
     \<lparr>mb_cla = 0x00, mb_p1 = 0x00, mb_p2 = 0x83, mb_old_pin_offset = 5, mb_new_pin_offset = 13\<rparr>"

definition modify_build :: "modify_builder \<Rightarrow> bytes \<Rightarrow> bytes \<Rightarrow> (apdu_error + bytes) outcome" where
  "modify_build mb old_pin new_pin =
     (let ol = length old_pin; nl = length new_pin in
      if old_pin = [] \<or> new_pin = [] then Some (Inl PinTooShort)
      else if mb_p2 mb = 0x83 \<and> (ol \<noteq> 8 \<or> nl \<noteq> 8) then Some (Inl InvalidPinLength)
      else if mb_p2 mb = 0x81 \<and> (ol < 6 \<or> ol > 8 \<or> nl < 6 \<or> nl > 8)
        then Some (Inl InvalidPinLength)
      else if \<not> list_all is_ascii_digit (old_pin @ new_pin) then Some (Inl InvalidPinCharacter)
      else do {
        apdu \<leftarrow> copy_at
          ([mb_cla mb, 0x24, mb_p1 mb, mb_p2 mb, word_of_nat (ol + nl)] @ replicate 16 0) 5 old_pin;
        apdu \<leftarrow> copy_at apdu (5 + ol) new_pin;
        Some (Inr apdu)
      })"

definition modify_apdu_len :: "nat \<Rightarrow> nat \<Rightarrow> nat" where
  "modify_apdu_len old_len new_len = 5 + old_len + new_len"

section \<open>The digit buffer refines a bounded stack of digits\<close>

definition pin_buffer_ok :: "pin_buffer \<Rightarrow> bool" where
  "pin_buffer_ok b \<longleftrightarrow>
     length (pb_digits b) = 16 \<and> pb_len b \<le> pb_max_len b \<and> pb_max_len b \<le> 16 \<and>
     list_all (\<lambda>d. d \<le> 9) (take (pb_len b) (pb_digits b))"

definition pin_abs :: "pin_buffer \<Rightarrow> bytes" where
  "pin_abs b = take (pb_len b) (pb_digits b)"

lemma pin_new_ok [wf_rules]: "pin_buffer_ok (pin_new m)"
  by (simp add: pin_buffer_ok_def pin_new_def)

lemma pin_push_refines:
  assumes "pin_buffer_ok b"
  shows "pin_buffer_ok (snd (pin_push d b))"
    and "pin_push d b = (r, b') \<Longrightarrow>
      r = (length (pin_abs b) < pb_max_len b \<and> d \<le> 9) \<and>
      pin_abs b' = (if r then pin_abs b @ [d] else pin_abs b)"
  using assms
  by (auto simp: pin_buffer_ok_def pin_push_def pin_abs_def take_Suc_conv_app_nth not_less
      split: if_splits)

lemma pin_pop_refines:
  assumes "pin_buffer_ok b"
  shows "pin_buffer_ok (snd (pin_pop b))"
    and "pin_pop b = (r, b') \<Longrightarrow> r = (pin_abs b \<noteq> []) \<and> pin_abs b' = butlast (pin_abs b)"
proof -
  show "pin_buffer_ok (snd (pin_pop b))"
    using assms by (auto simp: pin_buffer_ok_def pin_pop_def list_all_length)
  show "pin_pop b = (r, b') \<Longrightarrow> r = (pin_abs b \<noteq> []) \<and> pin_abs b' = butlast (pin_abs b)"
    using assms
    by (auto simp: pin_pop_def pin_abs_def pin_buffer_ok_def butlast_take split: if_splits)
qed

lemma pin_clear_ok [wf_rules]: "pin_buffer_ok b \<Longrightarrow> pin_buffer_ok (pin_clear b)"
  by (simp add: pin_buffer_ok_def pin_clear_def)

lemma pin_to_ascii_prefix:
  "pin_buffer_ok b \<Longrightarrow> take (pb_len b) (pin_to_ascii b) = map (\<lambda>d. d + 0x30) (pin_abs b)"
  "pin_buffer_ok b \<Longrightarrow> length (pin_to_ascii b) = 16"
  by (auto simp: pin_to_ascii_def pin_abs_def pin_buffer_ok_def)

lemma ascii_of_digit: "d \<le> 9 \<Longrightarrow> is_ascii_digit (d + 0x30)"
proof -
  assume "d \<le> 9"
  then have "unat d \<le> 9" by (simp add: word_le_nat_alt)
  then show ?thesis by (simp add: is_ascii_digit_def word_le_nat_alt unat_word_ariths)
qed

lemma pin_ascii_digits:
  "pin_buffer_ok b \<Longrightarrow> list_all is_ascii_digit (take (pb_len b) (pin_to_ascii b))"
  by (auto simp: pin_to_ascii_prefix pin_abs_def pin_buffer_ok_def list_all_iff ascii_of_digit)

lemma length_pin_abs: "pin_buffer_ok b \<Longrightarrow> length (pin_abs b) = pb_len b"
  by (simp add: pin_abs_def pin_buffer_ok_def)

section \<open>Builders\<close>

definition verify_accepts :: "verify_builder \<Rightarrow> bytes \<Rightarrow> bool" where
  "verify_accepts vb pin \<longleftrightarrow>
     list_all is_ascii_digit pin \<and>
     (if vb_p2 vb = 0x83 then length pin = 8
      else if vb_p2 vb = 0x81 then length pin \<in> {6..8}
      else pin \<noteq> [])"

definition modify_accepts :: "modify_builder \<Rightarrow> bytes \<Rightarrow> bytes \<Rightarrow> bool" where
  "modify_accepts mb old new \<longleftrightarrow>
     list_all is_ascii_digit (old @ new) \<and>
     (if mb_p2 mb = 0x83 then length old = 8 \<and> length new = 8
      else if mb_p2 mb = 0x81 then length old \<in> {6..8} \<and> length new \<in> {6..8}
      else old \<noteq> [] \<and> new \<noteq> [])"

lemma verify_image:
  fixes pin :: bytes
  assumes "length h = 5"
  shows "copy_at (h @ replicate 8 0) 5 pin =
           (if length pin \<le> 8 then Some (h @ pin @ replicate (8 - length pin) 0) else None)"
  using assms copy_at_fill [of pin 8 h 0] by (auto simp: copy_at_def)

lemma modify_image:
  fixes old :: bytes
  assumes "length h = 5"
  shows "do { apdu \<leftarrow> copy_at (h @ replicate 16 0) 5 old; copy_at apdu (5 + length old) new } =
           (if length old + length new \<le> 16
            then Some (h @ old @ new @ replicate (16 - (length old + length new)) 0) else None)"
proof (cases "length old \<le> 16")
  case True
  then have "copy_at (h @ replicate 16 0) 5 old = Some ((h @ old) @ replicate (16 - length old) 0)"
    using assms copy_at_fill [of old 16 h 0] by simp
  moreover have "copy_at ((h @ old) @ replicate (16 - length old) 0) (5 + length old) new =
      (if length old + length new \<le> 16
       then Some (h @ old @ new @ replicate (16 - (length old + length new)) 0) else None)"
    using True assms copy_at_fill [of new "16 - length old" "h @ old" 0] by (auto simp: copy_at_def)
  ultimately show ?thesis by simp
next
  case False
  with assms show ?thesis by (simp add: copy_at_def)
qed

lemma verify_build_cases:
  "verify_build vb pin =
     (if verify_accepts vb pin
      then if length pin \<le> 8
           then Some (Inr ([vb_cla vb, 0x20, vb_p1 vb, vb_p2 vb, word_of_nat (length pin)] @ pin
                             @ replicate (8 - length pin) 0))
           else None
      else Some (Inl (if pin = [] then PinTooShort
                      else if list_all is_ascii_digit pin then InvalidPinLength
                      else if vb_p2 vb = 0x83 \<and> length pin \<noteq> 8
                              \<or> vb_p2 vb = 0x81 \<and> length pin \<notin> {6..8} then InvalidPinLength
                      else InvalidPinCharacter)))"
proof -
  let ?h = "[vb_cla vb, 0x20, vb_p1 vb, vb_p2 vb, word_of_nat (length pin)]"
  have im: "copy_at (?h @ replicate 8 0) 5 pin =
      (if length pin \<le> 8 then Some (?h @ pin @ replicate (8 - length pin) 0) else None)"
    by (rule verify_image) simp
  have tk: "take (5 + length pin) (?h @ pin @ r) = ?h @ pin" for r
    using take_of_append [of "5 + length pin" "?h @ pin" r] by simp
  show ?thesis
    unfolding verify_build_def Let_def im
    by (auto simp del: append_Cons append_Nil append_assoc simp add: tk verify_accepts_def)
qed

lemma modify_build_cases:
  "modify_build mb old new =
     (if modify_accepts mb old new
      then if length old + length new \<le> 16
           then Some (Inr ([mb_cla mb, 0x24, mb_p1 mb, mb_p2 mb, word_of_nat (length old + length new)]
                             @ old @ new @ replicate (16 - (length old + length new)) 0))
           else None
      else Some (Inl (if old = [] \<or> new = [] then PinTooShort
                      else if list_all is_ascii_digit (old @ new) then InvalidPinLength
                      else if mb_p2 mb = 0x83 \<and> (length old \<noteq> 8 \<or> length new \<noteq> 8)
                              \<or> mb_p2 mb = 0x81 \<and> (length old \<notin> {6..8} \<or> length new \<notin> {6..8})
                      then InvalidPinLength
                      else InvalidPinCharacter)))"
proof -
  let ?h = "[mb_cla mb, 0x24, mb_p1 mb, mb_p2 mb, word_of_nat (length old + length new)]"
  have im: "do { apdu \<leftarrow> copy_at (?h @ replicate 16 0) 5 old;
                 apdu \<leftarrow> copy_at apdu (5 + length old) new; Some (Inr apdu) } =
      (if length old + length new \<le> 16
       then Some (Inr (?h @ old @ new @ replicate (16 - (length old + length new)) 0)) else None)"
    using modify_image [of ?h old new] by (simp add: Option.bind_assoc [symmetric] del: Option.bind_assoc)
  show ?thesis
    unfolding modify_build_def Let_def im
    by (auto simp add: modify_accepts_def)
qed

lemma verify_build_Some_iff:
  "verify_build vb pin = Some (Inr apdu) \<longleftrightarrow>
     verify_accepts vb pin \<and> length pin \<le> 8 \<and>
     apdu = [vb_cla vb, 0x20, vb_p1 vb, vb_p2 vb, word_of_nat (length pin)] @ pin
              @ replicate (8 - length pin) 0"
  by (auto simp: verify_build_cases)

lemma verify_build_None_iff:
  "verify_build vb pin = None \<longleftrightarrow>
     list_all is_ascii_digit pin \<and> 8 < length pin \<and> vb_p2 vb \<noteq> 0x81 \<and> vb_p2 vb \<noteq> 0x83"
  by (auto simp: verify_build_cases verify_accepts_def)

lemma modify_build_Some_iff:
  "modify_build mb old new = Some (Inr apdu) \<longleftrightarrow>
     modify_accepts mb old new \<and> length old + length new \<le> 16 \<and>
     apdu = [mb_cla mb, 0x24, mb_p1 mb, mb_p2 mb, word_of_nat (length old + length new)]
              @ old @ new @ replicate (16 - (length old + length new)) 0"
  by (auto simp: modify_build_cases)

lemma modify_build_None_iff:
  "modify_build mb old new = None \<longleftrightarrow>
     modify_accepts mb old new \<and> 16 < length old + length new \<and> mb_p2 mb \<noteq> 0x81 \<and> mb_p2 mb \<noteq> 0x83"
  by (auto simp: modify_build_cases modify_accepts_def)

lemma three_parts:
  assumes "length h = 5"
  shows "apdu = h @ pin @ z \<longleftrightarrow>
    take 5 apdu = h \<and> take (length pin) (drop 5 apdu) = pin \<and> drop (5 + length pin) apdu = z"
proof -
  have "apdu = take 5 apdu @ take (length pin) (drop 5 apdu) @ drop (length pin) (drop 5 apdu)"
    by (simp only: append_take_drop_id)
  with assms show ?thesis by (auto simp: add.commute)
qed

lemma take4_drop:
  "off + 4 \<le> length xs \<Longrightarrow>
     take 4 (drop off xs) = [xs ! off, xs ! (off + 1), xs ! (off + 2), xs ! (off + 3)]"
  by (simp add: take_Suc_conv_app_nth numeral_eq_Suc)

lemma modify_build_ignores_offsets:
  "modify_build (mb\<lparr>mb_old_pin_offset := a, mb_new_pin_offset := b\<rparr>) old new = modify_build mb old new"
  by (simp add: modify_build_def Let_def cong: if_cong)

lemma verify_build_length: "verify_build vb pin = Some (Inr apdu) \<Longrightarrow> length apdu = 13"
  by (auto simp: verify_build_cases split: if_splits)

lemma modify_build_length: "modify_build mb old new = Some (Inr apdu) \<Longrightarrow> length apdu = 21"
  by (auto simp: modify_build_cases split: if_splits)

section \<open>PIN entry as a sequence of key presses\<close>

datatype pin_key = KeyDigit u8 | KeyBackspace | KeyClear

fun pin_press :: "pin_buffer \<Rightarrow> pin_key \<Rightarrow> pin_buffer" where
  "pin_press b (KeyDigit d) = snd (pin_push d b)"
| "pin_press b KeyBackspace = snd (pin_pop b)"
| "pin_press b KeyClear = pin_clear b"

fun stack_press :: "nat \<Rightarrow> bytes \<Rightarrow> pin_key \<Rightarrow> bytes" where
  "stack_press m ds (KeyDigit d) = (if length ds < m \<and> d \<le> 9 then ds @ [d] else ds)"
| "stack_press m ds KeyBackspace = butlast ds"
| "stack_press m ds KeyClear = []"

lemma pin_press_refines:
  assumes "pin_buffer_ok b"
  shows "pin_buffer_ok (pin_press b k) \<and> pb_max_len (pin_press b k) = pb_max_len b \<and>
         pin_abs (pin_press b k) = stack_press (pb_max_len b) (pin_abs b) k"
proof (cases k)
  case (KeyDigit d)
  obtain r b' where p: "pin_push d b = (r, b')" by fastforce
  have "pb_max_len b' = pb_max_len b" using p by (auto simp: pin_push_def split: if_splits)
  with pin_push_refines [OF assms, of d] p KeyDigit show ?thesis by auto
next
  case KeyBackspace
  obtain r b' where p: "pin_pop b = (r, b')" by fastforce
  have "pb_max_len b' = pb_max_len b" using p by (auto simp: pin_pop_def split: if_splits)
  with pin_pop_refines [OF assms] p KeyBackspace show ?thesis by auto
next
  case KeyClear
  with assms show ?thesis by (simp add: pin_clear_ok) (simp add: pin_clear_def pin_abs_def)
qed

lemma pin_presses_refine:
  assumes "pin_buffer_ok b"
  shows "pin_buffer_ok (foldl pin_press b ks) \<and>
         pin_abs (foldl pin_press b ks) = foldl (stack_press (pb_max_len b)) (pin_abs b) ks"
  using assms
proof (induction ks arbitrary: b)
  case (Cons k ks)
  from pin_press_refines [OF Cons.prems, of k] Cons.IH [of "pin_press b k"] show ?case by auto
qed simp

text \<open>C35: Whatever keys are pressed, the digit buffer holds exactly what a bounded stack of digits
  holds (at most 16, and at most the configured maximum), its length counter stays within the
  array, and its ASCII image is the characters of those digits padded with zeros.\<close>

theorem pin_entry_refines_stack:
  "pin_buffer_ok (foldl pin_press (pin_new m) ks) \<and>
   pin_abs (foldl pin_press (pin_new m) ks) = foldl (stack_press (min m 16)) [] ks \<and>
   pin_to_ascii (foldl pin_press (pin_new m) ks) =
     map (\<lambda>d. d + 0x30) (pin_abs (foldl pin_press (pin_new m) ks))
       @ replicate (16 - length (pin_abs (foldl pin_press (pin_new m) ks))) 0"
proof -
  let ?b = "foldl pin_press (pin_new m) ks"
  have ok: "pin_buffer_ok ?b" and abs: "pin_abs ?b = foldl (stack_press (min m 16)) [] ks"
    using pin_presses_refine [OF pin_new_ok, of m ks] by (simp_all add: pin_abs_def pin_new_def)
  moreover have "pin_to_ascii ?b = map (\<lambda>d. d + 0x30) (pin_abs ?b)
      @ replicate (16 - length (pin_abs ?b)) 0"
    using length_pin_abs [OF ok] by (simp add: pin_to_ascii_def pin_abs_def)
  ultimately show ?thesis by blast
qed

text \<open>The VERIFY builder.  It answers an APDU exactly for PINs of ASCII digits whose length the
  reference byte allows (8 for the admin PIN, 6 to 8 for the user PIN, 1 to 8 otherwise), and the
  APDU is the case-3 command whose Lc is the PIN length and whose data field is the PIN.  It panics
  exactly when an all-digit PIN longer than eight characters meets a reference byte other than
  0x81 and 0x83, for which no length is checked.\<close>

theorem verify_build_correct:
  "(verify_build vb pin = Some (Inr apdu) \<longleftrightarrow>
      verify_accepts vb pin \<and> length pin \<le> 8 \<and> length apdu = 13 \<and>
      take 5 apdu = [vb_cla vb, 0x20, vb_p1 vb, vb_p2 vb, word_of_nat (length pin)] \<and>
      take (length pin) (drop 5 apdu) = pin \<and> drop (5 + length pin) apdu = replicate (8 - length pin) 0)
   \<and> (verify_build vb pin = None \<longleftrightarrow>
        list_all is_ascii_digit pin \<and> 8 < length pin \<and> vb_p2 vb \<noteq> 0x81 \<and> vb_p2 vb \<noteq> 0x83)"
proof -
  let ?h = "[vb_cla vb, 0x20, vb_p1 vb, vb_p2 vb, word_of_nat (length pin)]"
  let ?z = "replicate (8 - length pin) 0 :: bytes"
  have "apdu = ?h @ pin @ ?z \<longleftrightarrow>
      take 5 apdu = ?h \<and> take (length pin) (drop 5 apdu) = pin \<and> drop (5 + length pin) apdu = ?z"
    by (rule three_parts) simp
  moreover have "length pin \<le> 8 \<Longrightarrow> length (?h @ pin @ ?z) = 13" by simp
  ultimately show ?thesis unfolding verify_build_Some_iff verify_build_None_iff by blast
qed

text \<open>The CHANGE REFERENCE DATA builder.  An accepted pair of PINs yields the APDU with Lc the
  sum of both lengths and the old PIN directly followed by the new one, whatever insertion
  offsets the builder holds; the builder panics exactly when both PINs are accepted and together
  exceed the sixteen bytes of the data field.\<close>

theorem modify_build_correct:
  "(modify_build mb old new = Some (Inr apdu) \<longleftrightarrow>
      modify_accepts mb old new \<and> length old + length new \<le> 16 \<and>
      apdu = [mb_cla mb, 0x24, mb_p1 mb, mb_p2 mb, word_of_nat (length old + length new)]
               @ old @ new @ replicate (16 - (length old + length new)) 0)
   \<and> (modify_build mb old new = None \<longleftrightarrow>
        modify_accepts mb old new \<and> 16 < length old + length new
          \<and> mb_p2 mb \<noteq> 0x81 \<and> mb_p2 mb \<noteq> 0x83)
   \<and> modify_build mb old new = modify_build (mb\<lparr>mb_old_pin_offset := o', mb_new_pin_offset := n'\<rparr>) old new"
  by (simp only: modify_build_Some_iff modify_build_None_iff modify_build_ignores_offsets simp_thms)

text \<open>The PIN-modify parser panics on exactly the block lengths 11, 12 and 13, which pass its
  length test and make it read the byte at index 13; a block it accepts has at least 21 bytes, and
  the command template is the four bytes that follow the TeoPrologue.\<close>

theorem pin_modify_parse_total:
  "(pin_modify_parse data = None \<longleftrightarrow> length data \<in> {11..13}) \<and>
   (case pin_modify_parse data of Some (Some p) \<Rightarrow>
      21 \<le> length data \<and> pm_template_len p = length (pm_apdu_template p) \<and>
      (let off = (if data ! 10 = 0 then 17 else if data ! 10 < 3 then 18 else 19)
       in take 4 (pm_apdu_template p) = take 4 (drop off data) \<and> off + 4 \<le> length data)
    | _ \<Rightarrow> True)"
proof -
  consider "length data < 11" | "length data \<in> {11..13}" | "14 \<le> length data" by fastforce
  then show ?thesis
  proof cases
    case 3
    then show ?thesis
      by (auto simp: pin_modify_parse_def Let_def idx_def get_opt_def take4_drop not_le not_less
          split: if_splits option.splits)
  qed (auto simp: pin_modify_parse_def Let_def idx_def)
qed

end
