(* ===== verification/Driver.thy ===== *)
theory Driver
  imports Prelude
begin

text \<open>
  The card-interface traits (crates/card-interface/src/lib.rs): what the CCID handler asks of a
  slot driver.  A driver is a state of type \<open>'d\<close> and a record of operations; an operation with a
  \<open>&mut [u8]\<close> argument returns the buffer it was given, possibly rewritten, and its \<open>Result\<close>.

  The locale \<open>slot_driver\<close> holds the part of the trait contract the handler core relies on: buffers
  keep their length (they are slices), a returned count fits the buffer it describes, and a cached
  UID leaves room for the two status bytes appended to it.
\<close>

record presence_state =
  present :: bool

datatype xfr_error_kind = Parity | Overrun | Timeout | Mute | Hardware | Unclassified

record ('d, 'e) driver_ops =
  d_power_on :: "'d \<Rightarrow> bytes \<Rightarrow> ('e + nat) \<times> bytes \<times> 'd"
  d_power_off :: "'d \<Rightarrow> 'd"
  d_is_card_present :: "'d \<Rightarrow> bool \<times> 'd"
  d_transmit_apdu :: "'d \<Rightarrow> bytes \<Rightarrow> bytes \<Rightarrow> ('e + nat) \<times> bytes \<times> 'd"
  d_xfr_error_class :: "'d \<Rightarrow> 'e \<Rightarrow> xfr_error_kind"
  d_reinit_count :: "'d \<Rightarrow> u32"
  d_poll_card_presence :: "'d \<Rightarrow> presence_state \<times> 'd"
  d_session_active :: "'d \<Rightarrow> bool"
  d_card_uid :: "'d \<Rightarrow> bytes option"

locale slot_driver =
  fixes ops :: "('d, 'e) driver_ops"
    and d_inv :: "'d \<Rightarrow> bool"
  assumes power_on_length:
      "d_inv d \<Longrightarrow> d_power_on ops d buf = (r, buf', d') \<Longrightarrow> length buf' = length buf"
    and power_on_count:
      "d_inv d \<Longrightarrow> d_power_on ops d buf = (Inr n, buf', d') \<Longrightarrow> n \<le> length buf"
    and transmit_length:
      "d_inv d \<Longrightarrow> d_transmit_apdu ops d cmd buf = (r, buf', d') \<Longrightarrow> length buf' = length buf"
    and transmit_count:
      "d_inv d \<Longrightarrow> d_transmit_apdu ops d cmd buf = (Inr n, buf', d') \<Longrightarrow> n \<le> length buf"
    and uid_room: "d_inv d \<Longrightarrow> d_card_uid ops d = Some uid \<Longrightarrow> length uid \<le> 269"
    and inv_power_on: "d_inv d \<Longrightarrow> d_power_on ops d buf = (r, buf', d') \<Longrightarrow> d_inv d'"
    and inv_power_off: "d_inv d \<Longrightarrow> d_inv (d_power_off ops d)"
    and inv_is_present: "d_inv d \<Longrightarrow> d_is_card_present ops d = (b, d') \<Longrightarrow> d_inv d'"
    and inv_transmit: "d_inv d \<Longrightarrow> d_transmit_apdu ops d cmd buf = (r, buf', d') \<Longrightarrow> d_inv d'"
    and inv_poll: "d_inv d \<Longrightarrow> d_poll_card_presence ops d = (p, d') \<Longrightarrow> d_inv d'"

end
