(* ===== verification/Handler.thy ===== *)
theory Handler
  imports Atr Diagnostics Response Secure Driver
begin

text \<open>
  The CCID message handler core of crates/ccid-core/src/handler.rs (\<open>CcidHandlerCore\<close>): its state,
  one definition per handler, and the dispatcher \<open>process_command\<close>.  Every definition takes the
  reader profile \<open>P\<close> (the source's type parameter) and, where the source calls the driver, the
  driver operations.  A handler gets the caller's response buffer and returns the new state, the
  buffer and the number of bytes written, or \<open>None\<close> when the source panics.
\<close>

section \<open>Profiles and state\<close>

record profile =
  CONTACT :: bool
  PSEUDO_APDUS :: bool

definition SerialNfcProfile :: profile where
  "SerialNfcProfile = \<lparr>CONTACT = False, PSEUDO_APDUS = True\<rparr>"

definition ContactProfile :: profile where
  "ContactProfile = \<lparr>CONTACT = True, PSEUDO_APDUS = False\<rparr>"

abbreviation (input) ICC_NOT_ACTIVE :: u8 where "ICC_NOT_ACTIVE \<equiv> 0x05"

fun xfr_failure_b_error :: "xfr_error_kind \<Rightarrow> u8" where
  "xfr_failure_b_error Parity = CCID_ERR_XFR_PARITY_ERROR"
| "xfr_failure_b_error Overrun = CCID_ERR_XFR_OVERRUN"
| "xfr_failure_b_error Timeout = CCID_ERR_CARD_TIMEOUT"
| "xfr_failure_b_error Mute = CCID_ERR_ICC_MUTE"
| "xfr_failure_b_error Hardware = CCID_ERR_HW_ERROR"
| "xfr_failure_b_error Unclassified = CCID_ERR_CARD_TIMEOUT"

record contact_wire_timing =
  cw_fi :: u16
  cw_di :: u8
  cw_guard_time_n :: u8
  cw_protocol :: u8

record 'd handler =
  h_nfc :: 'd
  h_slot_state :: slot_state
  h_presence_state :: presence_state
  h_tx_buf :: bytes
  h_sync_notifications :: bool
  h_diagnostic_snapshot_requested :: bool
  h_current_protocol :: u8
  h_diagnostics :: diagnostics
  h_firmware_version :: bytes
  h_card_reset_event :: bool
  h_parameters_accepted_event :: bool
  h_pin_pad :: bool
  h_secure_state :: secure_state
  h_host_params :: "(u8 \<times> bytes) option"
  h_atr_params :: atr_params
  h_diagnostics_fold :: "('d \<Rightarrow> diagnostics \<Rightarrow> diagnostics) option"

type_synonym 'd reply = "('d handler \<times> bytes \<times> nat) outcome"

definition with_profile :: "profile \<Rightarrow> ('d, 'e) driver_ops \<Rightarrow> 'd \<Rightarrow> bytes \<Rightarrow> bool \<Rightarrow> 'd handler" where
  "with_profile P ops nfc firmware_version pin_pad =
     \<lparr>h_nfc = nfc, h_slot_state = Absent, h_presence_state = \<lparr>present = False\<rparr>,
      h_tx_buf = replicate 271 0, h_sync_notifications = False,
      h_diagnostic_snapshot_requested = False,
      h_current_protocol = (if CONTACT P then 0 else 1),
      h_diagnostics = diagnostics_new\<lparr>reinit_count := d_reinit_count ops nfc\<rparr>,
      h_firmware_version = firmware_version, h_card_reset_event = False,
      h_parameters_accepted_event = False, h_pin_pad = pin_pad, h_secure_state = SecureIdle,
      h_host_params = None, h_atr_params = atr_params_default, h_diagnostics_fold = None\<rparr>"

definition handler_new :: "('d, 'e) driver_ops \<Rightarrow> 'd \<Rightarrow> bytes \<Rightarrow> 'd handler" where
  "handler_new ops nfc firmware_version = with_profile SerialNfcProfile ops nfc firmware_version False"

definition with_diagnostics_fold ::
    "('d \<Rightarrow> diagnostics \<Rightarrow> diagnostics) \<Rightarrow> 'd handler \<Rightarrow> 'd handler" where
  "with_diagnostics_fold fold_fn h = h\<lparr>h_diagnostics_fold := Some fold_fn\<rparr>"

section \<open>Events, timing and PIN-session accessors\<close>

definition take_snapshot_request :: "'d handler \<Rightarrow> bool \<times> 'd handler" where
  "take_snapshot_request h =
     (h_diagnostic_snapshot_requested h, h\<lparr>h_diagnostic_snapshot_requested := False\<rparr>)"

definition take_card_reset :: "'d handler \<Rightarrow> bool \<times> 'd handler" where
  "take_card_reset h = (h_card_reset_event h, h\<lparr>h_card_reset_event := False\<rparr>)"

definition take_parameters_accepted :: "'d handler \<Rightarrow> bool \<times> 'd handler" where
  "take_parameters_accepted h =
     (h_parameters_accepted_event h, h\<lparr>h_parameters_accepted_event := False\<rparr>)"

definition applied_t1_timing :: "'d handler \<Rightarrow> (u8 \<times> u8 \<times> u8) option" where
  "applied_t1_timing h =
     (case h_host_params h of
        None \<Rightarrow> None
      | Some (proto, raw) \<Rightarrow>
          if proto \<noteq> 1 \<or> h_current_protocol h \<noteq> 1 then None
          else Some (t1_bwi_cwi_ifsc raw))"

definition accepted_contact_timing :: "'d handler \<Rightarrow> contact_wire_timing option" where
  "accepted_contact_timing h =
     (case h_host_params h of
        None \<Rightarrow> None
      | Some (proto, raw) \<Rightarrow>
          Some \<lparr>cw_fi = fi_from_ta1_high (drop_bit 4 (raw ! 0)),
                cw_di = di_from_ta1_low (raw ! 0 AND 0x0F),
                cw_guard_time_n = raw ! 2, cw_protocol = proto\<rparr>)"

definition is_pin_entry_active :: "'d handler \<Rightarrow> bool" where
  "is_pin_entry_active h = (case h_secure_state h of SecureIdle \<Rightarrow> False | _ \<Rightarrow> True)"

definition is_pin_verify_active :: "'d handler \<Rightarrow> bool" where
  "is_pin_verify_active h = (case h_secure_state h of WaitingForPinVerify _ _ \<Rightarrow> True | _ \<Rightarrow> False)"

definition is_pin_modify_active :: "'d handler \<Rightarrow> bool" where
  "is_pin_modify_active h = (case h_secure_state h of WaitingForPinModify _ _ \<Rightarrow> True | _ \<Rightarrow> False)"

definition take_secure_params :: "'d handler \<Rightarrow> (u8 \<times> pin_verify_params) option \<times> 'd handler" where
  "take_secure_params h =
     (case h_secure_state h of
        WaitingForPinVerify sq params \<Rightarrow> (Some (sq, params), h\<lparr>h_secure_state := SecureIdle\<rparr>)
      | _ \<Rightarrow> (None, h\<lparr>h_secure_state := SecureIdle\<rparr>))"

definition take_secure_modify_params ::
    "'d handler \<Rightarrow> (u8 \<times> pin_modify_params) option \<times> 'd handler" where
  "take_secure_modify_params h =
     (case h_secure_state h of
        WaitingForPinModify sq params \<Rightarrow> (Some (sq, params), h\<lparr>h_secure_state := SecureIdle\<rparr>)
      | _ \<Rightarrow> (None, h\<lparr>h_secure_state := SecureIdle\<rparr>))"

definition cancel_secure :: "'d handler \<Rightarrow> 'd handler" where
  "cancel_secure h = h\<lparr>h_secure_state := SecureIdle\<rparr>"

definition refresh_diagnostics :: "('d, 'e) driver_ops \<Rightarrow> u32 \<Rightarrow> 'd handler \<Rightarrow> 'd handler" where
  "refresh_diagnostics ops ticks h =
     h\<lparr>h_diagnostics := (h_diagnostics h)\<lparr>uptime_ticks := ticks,
                                         reinit_count := d_reinit_count ops (h_nfc h)\<rparr>\<rparr>"

definition record_nak :: "'d handler \<Rightarrow> 'd handler" where
  "record_nak h =
     h\<lparr>h_diagnostics := (h_diagnostics h)\<lparr>nak_count := saturating_add32 (nak_count (h_diagnostics h)) 1\<rparr>\<rparr>"

definition record_protocol_error :: "'d handler \<Rightarrow> 'd handler" where
  "record_protocol_error h =
     h\<lparr>h_diagnostics := (h_diagnostics h)\<lparr>error_count := saturating_add32 (error_count (h_diagnostics h)) 1\<rparr>\<rparr>"

definition set_current_protocol :: "u8 \<Rightarrow> 'd handler \<Rightarrow> 'd handler" where
  "set_current_protocol protocol h = h\<lparr>h_current_protocol := protocol\<rparr>"

definition current_icc_status :: "'d handler \<Rightarrow> u8" where
  "current_icc_status h = icc_status (h_slot_state h)"

section \<open>The counted card transfer\<close>

text \<open>
  \<open>count_transmit\<close> borrows the diagnostics and the driver separately; \<open>transmit_counted\<close> lends it the
  handler's own.
\<close>

definition count_transmit ::
    "('d, 'e) driver_ops \<Rightarrow> diagnostics \<Rightarrow> 'd \<Rightarrow> bytes \<Rightarrow> bytes
       \<Rightarrow> ('e + nat) \<times> bytes \<times> diagnostics \<times> 'd" where
  "count_transmit ops diag nfc command response =
     (let diag = diag\<lparr>apdu_tx_count := saturating_add32 (apdu_tx_count diag) 1\<rparr>;
          (result, response, nfc) = d_transmit_apdu ops nfc command response;
          diag = (case result of
                    Inr _ \<Rightarrow> diag\<lparr>apdu_rx_count := saturating_add32 (apdu_rx_count diag) 1\<rparr>
                  | Inl _ \<Rightarrow> diag)
      in (result, response, diag, nfc))"

definition transmit_counted ::
    "('d, 'e) driver_ops \<Rightarrow> bytes \<Rightarrow> bytes \<Rightarrow> 'd handler \<Rightarrow> ('e + nat) \<times> bytes \<times> 'd handler" where
  "transmit_counted ops command response h =
     (let (result, response, diag, nfc) = count_transmit ops (h_diagnostics h) (h_nfc h) command response
      in (result, response, h\<lparr>h_diagnostics := diag, h_nfc := nfc\<rparr>))"

section \<open>Response helpers\<close>

definition reply :: "'d handler \<Rightarrow> bytes \<times> nat \<Rightarrow> 'd reply" where
  "reply h w = Some (h, fst w, snd w)"

text \<open>\<open>slot_status h hdr icc st err out\<close> and \<open>data_block h hdr st err data out\<close> answer with the slot
  and sequence number of the request.\<close>

definition slot_status :: "'d handler \<Rightarrow> ccid_header \<Rightarrow> u8 \<Rightarrow> u8 \<Rightarrow> u8 \<Rightarrow> bytes \<Rightarrow> 'd reply" where
  "slot_status h hdr icc cmd_status err out =
     reply h (write_slot_status (slot hdr) (seq hdr) icc cmd_status err 0 out)"

definition message :: "'d handler \<Rightarrow> ccid_header \<Rightarrow> u8 \<Rightarrow> u8 \<Rightarrow> u8 \<Rightarrow> u8 \<Rightarrow> bytes \<Rightarrow> bytes \<Rightarrow> 'd reply" where
  "message h hdr mt status err spec data out =
     reply h (write_message mt (slot hdr) (seq hdr) status err spec data out)"

section \<open>Power and slot status\<close>

definition handle_power_on_contact ::
    "('d, 'e) driver_ops \<Rightarrow> 'd handler \<Rightarrow> ccid_header \<Rightarrow> bytes \<Rightarrow> 'd reply" where
  "handle_power_on_contact ops h hdr out =
     (if dw_length hdr \<noteq> 0 then
        slot_status h hdr (current_icc_status h) COMMAND_STATUS_FAILED CCID_ERR_CMD_NOT_SUPPORTED out
      else
        let (pres, nfc) = d_is_card_present ops (h_nfc h);
            h = h\<lparr>h_nfc := nfc\<rparr>;
            power_select = specific0 hdr
        in
        if \<not> pres then
          slot_status h hdr ICC_STATUS_NO_ICC COMMAND_STATUS_FAILED CCID_ERR_ICC_MUTE out
        else if power_select = 0x02 \<or> power_select = 0x03 then
          slot_status h hdr ICC_STATUS_PRESENT_INACTIVE COMMAND_STATUS_FAILED
            CCID_ERR_CMD_NOT_SUPPORTED out
        else
          let (result, tx_buf, nfc) = d_power_on ops (h_nfc h) (h_tx_buf h);
              h = h\<lparr>h_nfc := nfc, h_tx_buf := tx_buf\<rparr>
          in case result of
               Inr atr_len \<Rightarrow> do {
                 atr \<leftarrow> slice tx_buf 0 atr_len;
                 let p = parse_atr atr;
                 let h = h\<lparr>h_presence_state := \<lparr>present = True\<rparr>, h_slot_state := PresentActive,
                           h_atr_params := p, h_current_protocol := ap_protocol p,
                           h_host_params := None, h_card_reset_event := True\<rparr>;
                 message h hdr RDR_TO_PC_DATABLOCK
                   (build_bstatus COMMAND_STATUS_NO_ERROR (icc_status PresentActive)) 0 0 atr out
               }
             | Inl e \<Rightarrow>
                 slot_status (h\<lparr>h_slot_state := PresentInactive\<rparr>) hdr ICC_STATUS_PRESENT_INACTIVE
                   COMMAND_STATUS_FAILED CCID_ERR_ICC_MUTE out)"

definition handle_power_on ::
    "profile \<Rightarrow> ('d, 'e) driver_ops \<Rightarrow> 'd handler \<Rightarrow> ccid_header \<Rightarrow> bytes \<Rightarrow> 'd reply" where
  "handle_power_on P ops h hdr out =
     (if CONTACT P then handle_power_on_contact ops h hdr out
      else if \<not> present (h_presence_state h) then
        slot_status h hdr ICC_STATUS_NO_ICC COMMAND_STATUS_FAILED CCID_ERR_CMD_NOT_SUPPORTED out
      else
        let (result, tx_buf, nfc) = d_power_on ops (h_nfc h) (h_tx_buf h);
            h = h\<lparr>h_nfc := nfc, h_tx_buf := tx_buf\<rparr>
        in case result of
             Inr atr_len \<Rightarrow> do {
               let h = h\<lparr>h_presence_state := \<lparr>present = True\<rparr>, h_slot_state := PresentActive,
                         h_card_reset_event := True\<rparr>;
               atr \<leftarrow> slice tx_buf 0 atr_len;
               message h hdr RDR_TO_PC_DATABLOCK
                 (build_bstatus COMMAND_STATUS_NO_ERROR (icc_status PresentActive)) 0 0 atr out
             }
           | Inl e \<Rightarrow>
               let h = h\<lparr>h_slot_state := PresentInactive\<rparr>
               in slot_status h hdr (current_icc_status h) COMMAND_STATUS_FAILED CCID_ERR_HW_ERROR out)"

definition handle_power_off ::
    "profile \<Rightarrow> ('d, 'e) driver_ops \<Rightarrow> 'd handler \<Rightarrow> ccid_header \<Rightarrow> bytes \<Rightarrow> 'd reply" where
  "handle_power_off P ops h hdr out =
     (let h = h\<lparr>h_nfc := d_power_off ops (h_nfc h), h_slot_state := PresentInactive\<rparr>;
          h = (if CONTACT P then h\<lparr>h_current_protocol := 0\<rparr> else h)
      in slot_status h hdr (current_icc_status h) COMMAND_STATUS_NO_ERROR 0 out)"

definition handle_get_slot_status :: "'d handler \<Rightarrow> ccid_header \<Rightarrow> bytes \<Rightarrow> 'd reply" where
  "handle_get_slot_status h hdr out =
     slot_status h hdr (current_icc_status h) COMMAND_STATUS_NO_ERROR 0 out"

section \<open>APDU transfer\<close>

definition write_sw :: "'d handler \<Rightarrow> ccid_header \<Rightarrow> bytes \<Rightarrow> bytes \<Rightarrow> 'd reply" where
  "write_sw h hdr sw out =
     message h hdr RDR_TO_PC_DATABLOCK
       (build_bstatus COMMAND_STATUS_NO_ERROR (icc_status PresentActive)) 0 0 sw out"

definition answer_get_uid ::
    "('d, 'e) driver_ops \<Rightarrow> 'd handler \<Rightarrow> ccid_header \<Rightarrow> bytes \<Rightarrow> 'd reply" where
  "answer_get_uid ops h hdr out =
     (case d_card_uid ops (h_nfc h) of
        None \<Rightarrow> write_sw h hdr [0x63, 0x00] out
      | Some uid \<Rightarrow> do {
          let uid_len = length uid;
          tx \<leftarrow> copy_at (h_tx_buf h) 0 uid;
          _ \<leftarrow> idx tx uid_len;
          let tx = tx[uid_len := 0x90];
          _ \<leftarrow> idx tx (uid_len + 1);
          let tx = tx[uid_len + 1 := 0x00];
          data \<leftarrow> slice tx 0 (uid_len + 2);
          message (h\<lparr>h_tx_buf := tx\<rparr>) hdr RDR_TO_PC_DATABLOCK
            (build_bstatus COMMAND_STATUS_NO_ERROR (icc_status PresentActive)) 0 0 data out
        })"

definition apdu_pipeline ::
    "profile \<Rightarrow> ('d, 'e) driver_ops \<Rightarrow> 'd handler \<Rightarrow> ccid_header \<Rightarrow> bytes \<Rightarrow> bytes \<Rightarrow> 'd reply" where
  "apdu_pipeline P ops h hdr apdu out =
     (if is_pps_request apdu then
        message h hdr RDR_TO_PC_DATABLOCK
          (build_bstatus COMMAND_STATUS_NO_ERROR (icc_status PresentActive)) 0 0 apdu out
      else if PSEUDO_APDUS P \<and> get_opt apdu 0 = Some 0xFF \<and> 4 \<le> length apdu then
        (if apdu ! 1 = 0xCA \<and> apdu ! 2 = 0 \<and> apdu ! 3 = 0 then answer_get_uid ops h hdr out
         else if apdu ! 1 = 0xCA then write_sw h hdr [0x6A, 0x86] out
         else write_sw h hdr [0x63, 0x00] out)
      else
        let (result, tx_buf, diag, nfc) =
              count_transmit ops (h_diagnostics h) (h_nfc h) apdu (h_tx_buf h);
            h = h\<lparr>h_nfc := nfc, h_tx_buf := tx_buf, h_diagnostics := diag\<rparr>
        in case result of
             Inr resp_len \<Rightarrow> do {
               data \<leftarrow> slice tx_buf 0 resp_len;
               message h hdr RDR_TO_PC_DATABLOCK
                 (build_bstatus COMMAND_STATUS_NO_ERROR (icc_status PresentActive)) 0 0 data out
             }
           | Inl e \<Rightarrow>
               let b_error = xfr_failure_b_error (d_xfr_error_class ops (h_nfc h) e);
                   h = h\<lparr>h_slot_state := PresentInactive\<rparr>
               in message h hdr RDR_TO_PC_DATABLOCK
                    (build_bstatus COMMAND_STATUS_FAILED (current_icc_status h)) b_error 0 [] out)"

definition handle_xfr_block_contact ::
    "('d, 'e) driver_ops \<Rightarrow> 'd handler \<Rightarrow> ccid_header \<Rightarrow> bytes \<Rightarrow> bytes \<Rightarrow> 'd reply" where
  "handle_xfr_block_contact ops h hdr apdu out =
     (if h_slot_state h \<noteq> PresentActive then
        slot_status h hdr (current_icc_status h) COMMAND_STATUS_FAILED CCID_ERR_ICC_MUTE out
      else if 261 < length apdu then
        slot_status h hdr ICC_STATUS_PRESENT_ACTIVE COMMAND_STATUS_FAILED 0x07 out
      else if is_pps_request apdu then
        message h hdr RDR_TO_PC_DATABLOCK
          (build_bstatus COMMAND_STATUS_NO_ERROR ICC_STATUS_PRESENT_ACTIVE) 0 0 apdu out
      else
        let (result, tx_buf, diag, nfc) =
              count_transmit ops (h_diagnostics h) (h_nfc h) apdu (h_tx_buf h);
            h = h\<lparr>h_nfc := nfc, h_tx_buf := tx_buf, h_diagnostics := diag\<rparr>
        in case result of
             Inr resp_len \<Rightarrow> do {
               data \<leftarrow> slice tx_buf 0 resp_len;
               message h hdr RDR_TO_PC_DATABLOCK
                 (build_bstatus COMMAND_STATUS_NO_ERROR ICC_STATUS_PRESENT_ACTIVE) 0 0 data out
             }
           | Inl e \<Rightarrow>
               let b_error = xfr_failure_b_error (d_xfr_error_class ops (h_nfc h) e)
               in reply h (write_data_block (slot hdr) (seq hdr) ICC_STATUS_PRESENT_ACTIVE
                    COMMAND_STATUS_FAILED b_error 0 [] out))"

definition handle_xfr_block ::
    "profile \<Rightarrow> ('d, 'e) driver_ops \<Rightarrow> 'd handler \<Rightarrow> ccid_header \<Rightarrow> bytes \<Rightarrow> bytes \<Rightarrow> 'd reply" where
  "handle_xfr_block P ops h hdr apdu out =
     (if CONTACT P then handle_xfr_block_contact ops h hdr apdu out
      else if h_slot_state h \<noteq> PresentActive then
        message h hdr RDR_TO_PC_DATABLOCK
          (build_bstatus COMMAND_STATUS_FAILED (current_icc_status h)) ICC_NOT_ACTIVE 0 [] out
      else apdu_pipeline P ops h hdr apdu out)"

section \<open>Parameters\<close>

definition parameter_payload :: "profile \<Rightarrow> 'd handler \<Rightarrow> bytes \<times> nat \<times> u8" where
  "parameter_payload P h =
     (let proto_now = h_current_protocol h in
      if \<not> CONTACT P then
        (case h_host_params h of
           Some (proto, raw) \<Rightarrow>
             if proto = proto_now \<and> proto = 1 then (raw, 7, proto)
             else let defaults = default_params proto_now; len = min (length defaults) 7
                  in (take len defaults @ replicate (7 - len) 0, len, proto_now)
         | None \<Rightarrow> let defaults = default_params proto_now; len = min (length defaults) 7
                   in (take len defaults @ replicate (7 - len) 0, len, proto_now))
      else
        let p = h_atr_params h;
            first = (if ap_has_ta1 p then ap_ta1 p else 0x11);
            derived =
              (if proto_now = 1
               then ([first, push_bit 4 (ap_edc_type p AND 1), ap_guard_time_n p,
                      push_bit 4 (ap_bwi p) OR (ap_cwi p AND 0x0F), 0, min (ap_ifsc p) 254, 0],
                     7, proto_now)
               else ([first, 0, ap_guard_time_n p, 0, 0, 0, 0], 5, proto_now))
        in case h_host_params h of
             Some (proto, raw) \<Rightarrow>
               if proto = proto_now then (raw, if proto = 1 then 7 else 5, proto) else derived
           | None \<Rightarrow> derived)"

definition write_parameters :: "profile \<Rightarrow> 'd handler \<Rightarrow> ccid_header \<Rightarrow> bytes \<Rightarrow> 'd reply" where
  "write_parameters P h hdr out =
     (let (payload, len, protocol) = parameter_payload P h in do {
        data \<leftarrow> slice payload 0 len;
        message h hdr RDR_TO_PC_PARAMETERS
          (build_bstatus COMMAND_STATUS_NO_ERROR (current_icc_status h)) 0 protocol data out
      })"

definition contact_params_valid :: "u8 \<Rightarrow> u8 \<Rightarrow> bytes \<Rightarrow> bool" where
  "contact_params_valid requested implied raw \<longleftrightarrow>
     requested = implied \<and>
     (if requested = 1
      then raw ! 1 AND NOT 0x01 = 0 \<and> 16 \<le> raw ! 5 \<and> raw ! 5 \<le> 254 \<and> raw ! 6 = 0
      else raw ! 1 AND NOT 0x80 = 0)"

definition apply_host_params :: "u8 \<Rightarrow> bytes \<Rightarrow> atr_params \<Rightarrow> atr_params" where
  "apply_host_params requested raw p =
     (let p = p\<lparr>ap_has_ta1 := True, ap_ta1 := raw ! 0,
                ap_fi := fi_from_ta1_high (drop_bit 4 (raw ! 0)),
                ap_di := di_from_ta1_low (raw ! 0 AND 0x0F), ap_guard_time_n := raw ! 2\<rparr>
      in if requested = 1 then
           let (bwi, cwi, ifsc) = t1_bwi_cwi_ifsc raw
           in p\<lparr>ap_bwi := bwi, ap_cwi := cwi, ap_edc_type := raw ! 1 AND 1, ap_ifsc := ifsc\<rparr>
         else p)"

definition handle_set_parameters_contact ::
    "profile \<Rightarrow> 'd handler \<Rightarrow> ccid_header \<Rightarrow> bytes \<Rightarrow> bytes \<Rightarrow> 'd reply" where
  "handle_set_parameters_contact P h hdr payload out =
     (let data_len = unat (dw_length hdr) in
      if data_len \<noteq> 5 \<and> data_len \<noteq> 7 then
        slot_status h hdr (current_icc_status h) COMMAND_STATUS_FAILED 0x07 out
      else
        let length_implied_protocol = (if data_len = 5 then 0 else 1);
            copy_len = min (min data_len 7) (length payload);
            raw = take copy_len payload @ replicate (7 - copy_len) 0;
            requested = specific0 hdr
        in if \<not> contact_params_valid requested length_implied_protocol raw then
             message h hdr RDR_TO_PC_PARAMETERS
               (build_bstatus COMMAND_STATUS_FAILED (current_icc_status h)) 0x08 0 [] out
           else
             write_parameters P
               (h\<lparr>h_current_protocol := requested, h_host_params := Some (requested, raw),
                  h_parameters_accepted_event := True,
                  h_atr_params := apply_host_params requested raw (h_atr_params h)\<rparr>) hdr out)"

definition handle_set_parameters ::
    "profile \<Rightarrow> 'd handler \<Rightarrow> ccid_header \<Rightarrow> bytes \<Rightarrow> bytes \<Rightarrow> 'd reply" where
  "handle_set_parameters P h hdr payload out =
     (if CONTACT P then handle_set_parameters_contact P h hdr payload out
      else if 1 < specific0 hdr then
        slot_status h hdr (current_icc_status h) COMMAND_STATUS_FAILED CCID_ERR_CMD_NOT_SUPPORTED out
      else
        let h = h\<lparr>h_current_protocol := specific0 hdr\<rparr>;
            h = (if specific0 hdr = 1 \<and> dw_length hdr = 7 \<and> 7 \<le> length payload
                 then h\<lparr>h_host_params := Some (1, take 7 payload)\<rparr> else h);
            h = h\<lparr>h_parameters_accepted_event := True\<rparr>
        in write_parameters P h hdr out)"

definition handle_reset_parameters :: "profile \<Rightarrow> 'd handler \<Rightarrow> ccid_header \<Rightarrow> bytes \<Rightarrow> 'd reply" where
  "handle_reset_parameters P h hdr out =
     (if CONTACT P then
        write_parameters P
          (h\<lparr>h_atr_params := atr_params_default, h_current_protocol := 0, h_host_params := None,
             h_parameters_accepted_event := True\<rparr>) hdr out
      else
        write_parameters P (h\<lparr>h_current_protocol := 1, h_parameters_accepted_event := True\<rparr>) hdr out)"

section \<open>Escape and Secure\<close>

definition escape_answer :: "'d handler \<Rightarrow> ccid_header \<Rightarrow> u8 \<Rightarrow> bytes \<Rightarrow> bytes \<Rightarrow> 'd reply" where
  "escape_answer h hdr cmd_status data out =
     message h hdr RDR_TO_PC_ESCAPE (build_bstatus cmd_status (current_icc_status h)) 0 0 data out"

definition handle_escape ::
    "profile \<Rightarrow> 'd handler \<Rightarrow> ccid_header \<Rightarrow> bytes \<Rightarrow> bytes \<Rightarrow> 'd reply" where
  "handle_escape P h hdr payload out =
     (if get_opt payload 0 = Some 0xD0 then
        let diag = h_diagnostics h;
            diag = (case h_diagnostics_fold h of Some f \<Rightarrow> f (h_nfc h) diag | None \<Rightarrow> diag);
            diag_buf = fst (diagnostics_to_bytes diag (replicate DIAGNOSTICS_SIZE 0))
        in escape_answer h hdr COMMAND_STATUS_NO_ERROR diag_buf out
      else if \<not> CONTACT P \<and> get_opt payload 0 = Some 0xD1 then
        escape_answer (h\<lparr>h_diagnostic_snapshot_requested := True\<rparr>) hdr COMMAND_STATUS_NO_ERROR
          [0xD1] out
      else if \<not> CONTACT P \<and> get_opt payload 0 = Some 0x02 then
        escape_answer h hdr COMMAND_STATUS_NO_ERROR (h_firmware_version h) out
      else if \<not> CONTACT P \<and> 3 \<le> length payload \<and> take 3 payload = [0x01, 0x01, 0x01] then
        escape_answer (h\<lparr>h_sync_notifications := True\<rparr>) hdr COMMAND_STATUS_NO_ERROR
          [0x01, 0x01, 0x01] out
      else if payload = [0x1F, 0x02] then
        escape_answer h hdr COMMAND_STATUS_FAILED [] out
      else escape_answer h hdr COMMAND_STATUS_FAILED [] out)"

definition secure_not_supported :: "profile \<Rightarrow> 'd handler \<Rightarrow> ccid_header \<Rightarrow> bytes \<Rightarrow> 'd reply" where
  "secure_not_supported P h hdr out =
     (if CONTACT P then
        message h hdr RDR_TO_PC_DATABLOCK
          (build_bstatus COMMAND_STATUS_FAILED (current_icc_status h)) CCID_ERR_CMD_NOT_SUPPORTED 0 [] out
      else
        slot_status h hdr (current_icc_status h) COMMAND_STATUS_FAILED CCID_ERR_CMD_NOT_SUPPORTED out)"

definition handle_secure ::
    "profile \<Rightarrow> 'd handler \<Rightarrow> ccid_header \<Rightarrow> bytes \<Rightarrow> bytes \<Rightarrow> 'd reply" where
  "handle_secure P h hdr payload out =
     (if \<not> h_pin_pad h then secure_not_supported P h hdr out
      else if h_slot_state h \<noteq> PresentActive then
        message h hdr RDR_TO_PC_DATABLOCK
          (build_bstatus COMMAND_STATUS_FAILED (current_icc_status h)) CCID_ERR_CMD_SLOT_BUSY 0 [] out
      else case payload of
          [] \<Rightarrow> secure_not_supported P h hdr out
        | pin_operation # pin_data \<Rightarrow>
            if pin_operation = 0x00 then
              (case pin_verify_parse pin_data of
                 Some params \<Rightarrow>
                   Some (h\<lparr>h_secure_state := WaitingForPinVerify (seq hdr) params\<rparr>, out, 0)
               | None \<Rightarrow> secure_not_supported P h hdr out)
            else if pin_operation = 0x01 then do {
              parsed \<leftarrow> pin_modify_parse pin_data;
              (case parsed of
                 Some params \<Rightarrow>
                   Some (h\<lparr>h_secure_state := WaitingForPinModify (seq hdr) params\<rparr>, out, 0)
               | None \<Rightarrow> secure_not_supported P h hdr out)
            }
            else secure_not_supported P h hdr out)"

section \<open>Completing a PIN session\<close>

fun pin_outcome :: "pin_result \<Rightarrow> bytes option \<Rightarrow> u8 \<times> u8 \<times> bytes" where
  "pin_outcome PinSuccess resp =
     (COMMAND_STATUS_NO_ERROR, 0, case resp of Some r \<Rightarrow> r | None \<Rightarrow> [])"
| "pin_outcome PinCancelled resp = (COMMAND_STATUS_FAILED, CCID_ERR_PIN_CANCELLED, [])"
| "pin_outcome PinTimeout resp = (COMMAND_STATUS_FAILED, CCID_ERR_PIN_TIMEOUT, [])"
| "pin_outcome PinInvalidLength resp = (COMMAND_STATUS_FAILED, CCID_ERR_CMD_ABORTED, [])"

definition complete_pin_entry ::
    "'d handler \<Rightarrow> u8 \<Rightarrow> pin_result \<Rightarrow> bytes option \<Rightarrow> bytes \<Rightarrow> 'd reply" where
  "complete_pin_entry h sq result apdu_response out =
     (let (cmd_status, err, data) = pin_outcome result apdu_response;
          w = write_message RDR_TO_PC_DATABLOCK 0 sq
                (build_bstatus cmd_status (current_icc_status h)) err 0 data out
      in reply (h\<lparr>h_secure_state := SecureIdle\<rparr>) w)"

definition transmit_pin_apdu ::
    "('d, 'e) driver_ops \<Rightarrow> 'd handler \<Rightarrow> u8 \<Rightarrow> bytes \<Rightarrow> bytes \<Rightarrow> 'd reply" where
  "transmit_pin_apdu ops h sq apdu out =
     (case transmit_counted ops apdu (replicate 261 0) h of
        (Inr resp_len, card_resp, h) \<Rightarrow> do {
          r \<leftarrow> slice card_resp 0 resp_len;
          complete_pin_entry h sq PinSuccess (Some r) out
        }
      | (Inl e, card_resp, h) \<Rightarrow> complete_pin_entry h sq PinCancelled None out)"

definition complete_pin_verify_exchange ::
    "('d, 'e) driver_ops \<Rightarrow> 'd handler \<Rightarrow> u8 \<Rightarrow> pin_result \<Rightarrow> pin_buffer \<Rightarrow> pin_verify_params
       \<Rightarrow> bytes \<Rightarrow> 'd reply" where
  "complete_pin_verify_exchange ops h sq result buffer params out =
     (if result = PinSuccess then do {
        let pin_len = pb_len buffer;
        let builder = verify_from_template (pv_apdu_template params ! 0) (pv_apdu_template params ! 2)
                        (pv_apdu_template params ! 3);
        pin \<leftarrow> slice (pin_to_ascii buffer) 0 pin_len;
        built \<leftarrow> verify_build builder pin;
        (case built of
           Inr apdu \<Rightarrow> do { cmd \<leftarrow> slice apdu 0 (5 + pin_len); transmit_pin_apdu ops h sq cmd out }
         | Inl _ \<Rightarrow> complete_pin_entry h sq PinInvalidLength None out)
      }
      else complete_pin_entry h sq result None out)"

definition complete_pin_modify_exchange ::
    "('d, 'e) driver_ops \<Rightarrow> 'd handler \<Rightarrow> u8 \<Rightarrow> pin_result \<Rightarrow> pin_buffer \<Rightarrow> pin_buffer
       \<Rightarrow> pin_modify_params \<Rightarrow> bytes \<Rightarrow> 'd reply" where
  "complete_pin_modify_exchange ops h sq result old_buffer new_buffer params out =
     (if result = PinSuccess then do {
        let old_len = pb_len old_buffer;
        let new_len = pb_len new_buffer;
        let builder = modify_from_template (pm_apdu_template params ! 0) (pm_apdu_template params ! 2)
                        (pm_apdu_template params ! 3) (unat (pm_old_pin_offset params))
                        (unat (pm_new_pin_offset params));
        old_pin \<leftarrow> slice (pin_to_ascii old_buffer) 0 old_len;
        new_pin \<leftarrow> slice (pin_to_ascii new_buffer) 0 new_len;
        built \<leftarrow> modify_build builder old_pin new_pin;
        (case built of
           Inr apdu \<Rightarrow> do {
             cmd \<leftarrow> slice apdu 0 (5 + old_len + new_len);
             transmit_pin_apdu ops h sq cmd out
           }
         | Inl _ \<Rightarrow> complete_pin_entry h sq PinInvalidLength None out)
      }
      else complete_pin_entry h sq result None out)"

section \<open>Dispatch and presence polling\<close>

definition dispatch ::
    "profile \<Rightarrow> ('d, 'e) driver_ops \<Rightarrow> 'd handler \<Rightarrow> ccid_header \<Rightarrow> bytes \<Rightarrow> bytes \<Rightarrow> 'd reply" where
  "dispatch P ops h hdr payload out =
     (let mt = message_type hdr in
      if mt = PC_TO_RDR_ICC_POWER_ON then handle_power_on P ops h hdr out
      else if mt = PC_TO_RDR_ICC_POWER_OFF then handle_power_off P ops h hdr out
      else if mt = PC_TO_RDR_GET_SLOT_STATUS then handle_get_slot_status h hdr out
      else if mt = PC_TO_RDR_XFR_BLOCK then handle_xfr_block P ops h hdr payload out
      else if mt = PC_TO_RDR_GET_PARAMETERS then write_parameters P h hdr out
      else if mt = PC_TO_RDR_SET_PARAMETERS then handle_set_parameters P h hdr payload out
      else if mt = PC_TO_RDR_RESET_PARAMETERS then handle_reset_parameters P h hdr out
      else if mt = PC_TO_RDR_ESCAPE then handle_escape P h hdr payload out
      else if mt = PC_TO_RDR_SECURE then handle_secure P h hdr payload out
      else if mt = PC_TO_RDR_ABORT \<and> CONTACT P then
        slot_status h hdr (current_icc_status h) COMMAND_STATUS_NO_ERROR 0 out
      else
        slot_status h hdr (current_icc_status h) COMMAND_STATUS_FAILED CCID_ERR_CMD_NOT_SUPPORTED out)"

text \<open>\<open>CCID_HEADER_SIZE + payload_len\<close> is a 32-bit sum and wraps in a release build.\<close>

definition process_command ::
    "profile \<Rightarrow> ('d, 'e) driver_ops \<Rightarrow> 'd handler \<Rightarrow> bytes \<Rightarrow> bytes \<Rightarrow> 'd reply" where
  "process_command P ops h ccid_msg out =
     (case header_parse ccid_msg of
        None \<Rightarrow> Some (h, out, 0)
      | Some hdr \<Rightarrow>
          let frame_end = unat (word_of_nat CCID_HEADER_SIZE + dw_length hdr) in
          if length ccid_msg < frame_end then
            let h = record_protocol_error h
            in slot_status h hdr (current_icc_status h) COMMAND_STATUS_FAILED
                 CCID_ERR_CMD_NOT_SUPPORTED out
          else do {
            payload \<leftarrow> slice ccid_msg CCID_HEADER_SIZE frame_end;
            (h, out, len) \<leftarrow> dispatch P ops h hdr payload out;
            Some (if 7 < len \<and> failed_status (out ! 7) then record_protocol_error h else h, out, len)
          })"

definition check_card_change ::
    "profile \<Rightarrow> ('d, 'e) driver_ops \<Rightarrow> 'd handler \<Rightarrow> bool option \<times> 'd handler" where
  "check_card_change P ops h =
     (if d_session_active ops (h_nfc h) then
        (None, h\<lparr>h_presence_state := \<lparr>present = True\<rparr>, h_slot_state := PresentActive,
                 h_diagnostics := (h_diagnostics h)\<lparr>card_present := True\<rparr>\<rparr>)
      else
        let (presence, nfc) = d_poll_card_presence ops (h_nfc h);
            h = h\<lparr>h_nfc := nfc,
                  h_diagnostics := (h_diagnostics h)\<lparr>card_present := present presence,
                                                     reinit_count := d_reinit_count ops nfc\<rparr>\<rparr>
        in
        if \<not> CONTACT P \<and> h_slot_state h = PresentActive \<and> present presence then
          (Some True, h\<lparr>h_slot_state := PresentInactive, h_presence_state := presence,
                        h_card_reset_event := True\<rparr>)
        else if present presence \<noteq> present (h_presence_state h) then
          let h = h\<lparr>h_presence_state := presence\<rparr>;
              h = (if present presence then h\<lparr>h_slot_state := PresentInactive\<rparr>
                   else
                     let h = (if CONTACT P
                              then h\<lparr>h_nfc := d_power_off ops (h_nfc h), h_secure_state := SecureIdle\<rparr>
                              else h)
                     in h\<lparr>h_slot_state := Absent\<rparr>)
          in (Some (present presence), h)
        else (None, h))"

end
