(* ===== verification/Nfc.thy ===== *)
theory Nfc
  imports Driver Diagnostics
begin

text \<open>
  The NFC driver layer of crates/ccid-service/src/nfc.rs: the \<open>NfcDriver\<close> trait as a record of
  operations, the adapter that presents such a driver to the handler core and stamps the
  card-exchange statistics, and the scripted driver the repository tests with.  The platform clock
  \<open>now_us\<close> is a parameter of the adapter.

  The locale \<open>nfc_driver\<close> states the trait contract; the adapter turns every driver that meets it
  into a \<open>slot_driver\<close>, which is a sublocale statement.
\<close>

section \<open>Status vocabulary\<close>

datatype nfc_error = NotInitialized | NoCard | CommunicationError | NfcTimeout | BufferOverflow

datatype frontend_health = Healthy | Degraded | Unavailable

datatype frontend_error_kind =
  FeNone | FeNotInitialized | FeBus | FeTimeout | FeProtocol | FeNoCard | FeBufferOverflow

fun frontend_error_of :: "nfc_error \<Rightarrow> frontend_error_kind" where
  "frontend_error_of NotInitialized = FeNotInitialized"
| "frontend_error_of NoCard = FeNoCard"
| "frontend_error_of CommunicationError = FeBus"
| "frontend_error_of NfcTimeout = FeTimeout"
| "frontend_error_of BufferOverflow = FeBufferOverflow"

record frontend_status =
  fs_health :: frontend_health
  fs_last_error :: frontend_error_kind
  fs_init_attempts :: u32
  fs_reinit_count :: u32
  fs_bus_errors :: u32
  fs_presence_polls :: u32

definition frontend_status_ok :: frontend_status where
  "frontend_status_ok =
     \<lparr>fs_health = Healthy, fs_last_error = FeNone, fs_init_attempts = 0, fs_reinit_count = 0,
      fs_bus_errors = 0, fs_presence_polls = 0\<rparr>"

section \<open>The driver trait\<close>

record ('d, 'e) nfc_ops =
  n_init :: "'d \<Rightarrow> ('e + unit) \<times> 'd"
  n_poll_maintenance :: "u64 \<Rightarrow> 'd \<Rightarrow> 'd"
  n_init_recovering :: "'d \<Rightarrow> ('e + unit) \<times> 'd"
  n_is_card_present :: "'d \<Rightarrow> bool \<times> 'd"
  n_poll_card_presence :: "'d \<Rightarrow> presence_state \<times> 'd"
  n_session_active :: "'d \<Rightarrow> bool"
  n_presence_poll_detects_removal :: "'d \<Rightarrow> bool"
  n_exchange_decomposition :: "'d \<Rightarrow> (u32 \<times> u32 \<times> u32 \<times> u32) option"
  n_i2c_timing_probe :: "u32 \<Rightarrow> 'd \<Rightarrow> u32 option \<times> 'd"
  n_configured_fwt_ms :: "'d \<Rightarrow> u32"
  n_timer_registers :: "'d \<Rightarrow> bytes option \<times> 'd"
  n_power_on :: "'d \<Rightarrow> bytes \<Rightarrow> ('e + nat) \<times> bytes \<times> 'd"
  n_power_off :: "'d \<Rightarrow> 'd"
  n_transmit_apdu :: "'d \<Rightarrow> bytes \<Rightarrow> bytes \<Rightarrow> ('e + nat) \<times> bytes \<times> 'd"
  n_card_uid :: "'d \<Rightarrow> bytes option"
  n_reinit_count :: "'d \<Rightarrow> u32"
  n_wtx_counters :: "'d \<Rightarrow> (u32 \<times> u32) option"
  n_frontend_status :: "'d \<Rightarrow> frontend_status"
  n_frontend_self_test :: "'d \<Rightarrow> (frontend_error_kind + unit) \<times> 'd"

text \<open>\<open>trait_defaults\<close> fills in the provided methods of the trait for a driver that only supplies the
  required ones.\<close>

definition trait_defaults ::
    "('d \<Rightarrow> ('e + unit) \<times> 'd) \<Rightarrow> ('d \<Rightarrow> bool \<times> 'd)
     \<Rightarrow> ('d \<Rightarrow> bytes \<Rightarrow> ('e + nat) \<times> bytes \<times> 'd) \<Rightarrow> ('d \<Rightarrow> 'd)
     \<Rightarrow> ('d \<Rightarrow> bytes \<Rightarrow> bytes \<Rightarrow> ('e + nat) \<times> bytes \<times> 'd)
     \<Rightarrow> ('d \<Rightarrow> frontend_status) \<Rightarrow> ('d \<Rightarrow> (frontend_error_kind + unit) \<times> 'd) \<Rightarrow> ('d, 'e) nfc_ops" where
  "trait_defaults init is_present power_on power_off transmit status self_test =
     \<lparr>n_init = init,
      n_poll_maintenance = (\<lambda>_ d. d),
      n_init_recovering = init,
      n_is_card_present = is_present,
      n_poll_card_presence = (\<lambda>d. let (p, d) = is_present d in (\<lparr>present = p\<rparr>, d)),
      n_session_active = (\<lambda>_. False),
      n_presence_poll_detects_removal = (\<lambda>_. False),
      n_exchange_decomposition = (\<lambda>_. None),
      n_i2c_timing_probe = (\<lambda>_ d. (None, d)),
      n_configured_fwt_ms = (\<lambda>_. 0),
      n_timer_registers = (\<lambda>d. (None, d)),
      n_power_on = power_on,
      n_power_off = power_off,
      n_transmit_apdu = transmit,
      n_card_uid = (\<lambda>_. None),
      n_reinit_count = (\<lambda>_. 0),
      n_wtx_counters = (\<lambda>_. None),
      n_frontend_status = status,
      n_frontend_self_test = self_test\<rparr>"

locale nfc_driver =
  fixes nops :: "('d, 'e) nfc_ops"
    and n_inv :: "'d \<Rightarrow> bool"
  assumes n_power_on_length:
      "n_inv d \<Longrightarrow> n_power_on nops d buf = (r, buf', d') \<Longrightarrow> length buf' = length buf \<and> n_inv d'"
    and n_power_on_count:
      "n_inv d \<Longrightarrow> n_power_on nops d buf = (Inr n, buf', d') \<Longrightarrow> n \<le> length buf"
    and n_transmit_length:
      "n_inv d \<Longrightarrow> n_transmit_apdu nops d cmd buf = (r, buf', d') \<Longrightarrow> length buf' = length buf \<and> n_inv d'"
    and n_transmit_count:
      "n_inv d \<Longrightarrow> n_transmit_apdu nops d cmd buf = (Inr n, buf', d') \<Longrightarrow> n \<le> length buf"
    and n_uid_room: "n_inv d \<Longrightarrow> n_card_uid nops d = Some uid \<Longrightarrow> length uid \<le> 269"
    and n_inv_power_off: "n_inv d \<Longrightarrow> n_inv (n_power_off nops d)"
    and n_inv_is_present: "n_inv d \<Longrightarrow> n_is_card_present nops d = (b, d') \<Longrightarrow> n_inv d'"
    and n_inv_poll: "n_inv d \<Longrightarrow> n_poll_card_presence nops d = (p, d') \<Longrightarrow> n_inv d'"
    and n_inv_init: "n_inv d \<Longrightarrow> n_init nops d = (ri, d') \<Longrightarrow> n_inv d'"
    and n_inv_init_recovering: "n_inv d \<Longrightarrow> n_init_recovering nops d = (ri, d') \<Longrightarrow> n_inv d'"

section \<open>The adapter to the handler core\<close>

record 'd card_adapter =
  ca_driver :: 'd
  ca_stats :: turnaround_stats

definition adapter_new :: "'d \<Rightarrow> 'd card_adapter" where
  "adapter_new d = \<lparr>ca_driver = d, ca_stats = turnaround_new\<rparr>"

definition clamp_elapsed :: "int \<Rightarrow> u32" where
  "clamp_elapsed us = word_of_int (min (max us 0) 0xFFFFFFFF)"

definition adapter_power_on ::
    "('d, 'e) nfc_ops \<Rightarrow> 'd card_adapter \<Rightarrow> bytes \<Rightarrow> ('e + nat) \<times> bytes \<times> 'd card_adapter" where
  "adapter_power_on nops a buf =
     (let (r, buf, d) = n_power_on nops (ca_driver a) buf in (r, buf, a\<lparr>ca_driver := d\<rparr>))"

definition adapter_transmit_apdu ::
    "('d, 'e) nfc_ops \<Rightarrow> ('d \<Rightarrow> int) \<Rightarrow> 'd card_adapter \<Rightarrow> bytes \<Rightarrow> bytes
       \<Rightarrow> ('e + nat) \<times> bytes \<times> 'd card_adapter" where
  "adapter_transmit_apdu nops now_us a command response =
     (let started_us = now_us (ca_driver a);
          (result, response, d) = n_transmit_apdu nops (ca_driver a) command response;
          elapsed_us = clamp_elapsed (now_us d - started_us);
          stats = record_card_exchange_us elapsed_us (ca_stats a);
          stats = (case n_exchange_decomposition nops d of
                     Some (blocks, wtx, recoveries, max_us) \<Rightarrow>
                       record_exchange_decomposition blocks wtx recoveries max_us stats
                   | None \<Rightarrow> stats)
      in (result, response, a\<lparr>ca_driver := d, ca_stats := stats\<rparr>))"

definition adapter_ops ::
    "('d, 'e) nfc_ops \<Rightarrow> ('d \<Rightarrow> int) \<Rightarrow> ('d card_adapter, 'e) driver_ops" where
  "adapter_ops nops now_us =
     \<lparr>d_power_on = adapter_power_on nops,
      d_power_off = (\<lambda>a. a\<lparr>ca_driver := n_power_off nops (ca_driver a)\<rparr>),
      d_is_card_present =
        (\<lambda>a. let (b, d) = n_is_card_present nops (ca_driver a) in (b, a\<lparr>ca_driver := d\<rparr>)),
      d_transmit_apdu = adapter_transmit_apdu nops now_us,
      d_xfr_error_class = (\<lambda>_ _. Unclassified),
      d_reinit_count = (\<lambda>a. n_reinit_count nops (ca_driver a)),
      d_poll_card_presence =
        (\<lambda>a. let (p, d) = n_poll_card_presence nops (ca_driver a) in (p, a\<lparr>ca_driver := d\<rparr>)),
      d_session_active = (\<lambda>a. n_session_active nops (ca_driver a)),
      d_card_uid = (\<lambda>a. n_card_uid nops (ca_driver a))\<rparr>"

lemmas adapter_defs = adapter_ops_def adapter_power_on_def adapter_transmit_apdu_def

lemma adapter_slot_driver:
  assumes "nfc_driver nops n_inv"
  shows "slot_driver (adapter_ops nops now_us) (\<lambda>a. n_inv (ca_driver a))"
proof -
  have laws: "nfc_driver nops n_inv" by (fact assms)
  show ?thesis
    by unfold_locales
      (auto simp: adapter_defs Let_def split: prod.splits
         dest: nfc_driver.n_power_on_length [OF laws] nfc_driver.n_power_on_count [OF laws]
           nfc_driver.n_transmit_length [OF laws] nfc_driver.n_transmit_count [OF laws]
           nfc_driver.n_uid_room [OF laws] nfc_driver.n_inv_power_off [OF laws]
           nfc_driver.n_inv_is_present [OF laws] nfc_driver.n_inv_poll [OF laws])
qed

sublocale nfc_driver \<subseteq> adapted: slot_driver "adapter_ops nops now_us" "\<lambda>a. n_inv (ca_driver a)"
  for now_us
  by (rule adapter_slot_driver) unfold_locales

section \<open>The scripted driver\<close>

record mock_nfc =
  m_card_present :: bool
  m_atr :: bytes
  m_apdu_response :: bytes
  m_initialized :: bool
  m_session_active :: bool
  m_uid :: bytes
  m_poll_count :: u32
  m_last_apdu :: bytes
  m_wtx :: "(u32 \<times> u32) option"
  m_timer_regs :: "bytes option"
  m_stall_probe :: "(u32 \<Rightarrow> unit) option"
  m_frontend_status :: frontend_status
  m_self_test_result :: "frontend_error_kind + unit"

definition mock_new :: "bool \<Rightarrow> bytes \<Rightarrow> bytes \<Rightarrow> mock_nfc" where
  "mock_new pres atr apdu_response =
     \<lparr>m_card_present = pres, m_atr = atr, m_apdu_response = apdu_response, m_initialized = False,
      m_session_active = False, m_uid = [], m_poll_count = 0, m_last_apdu = [], m_wtx = None,
      m_timer_regs = None, m_stall_probe = None,
      m_frontend_status = frontend_status_ok\<lparr>fs_health := Healthy\<rparr>,
      m_self_test_result = Inr ()\<rparr>"

definition mock_set_card_present :: "bool \<Rightarrow> mock_nfc \<Rightarrow> mock_nfc" where
  "mock_set_card_present b m =
     (let m = m\<lparr>m_card_present := b\<rparr> in if \<not> b then m\<lparr>m_session_active := False\<rparr> else m)"

definition mock_set_session_active :: "bool \<Rightarrow> mock_nfc \<Rightarrow> mock_nfc" where
  "mock_set_session_active b m = m\<lparr>m_session_active := b\<rparr>"

definition mock_set_uid :: "bytes \<Rightarrow> mock_nfc \<Rightarrow> mock_nfc" where
  "mock_set_uid uid m = m\<lparr>m_uid := uid\<rparr>"

definition mock_init :: "mock_nfc \<Rightarrow> (nfc_error + unit) \<times> mock_nfc" where
  "mock_init m = (Inr (), m\<lparr>m_initialized := True\<rparr>)"

definition mock_is_card_present :: "mock_nfc \<Rightarrow> bool \<times> mock_nfc" where
  "mock_is_card_present m = (m_card_present m, m\<lparr>m_poll_count := m_poll_count m + 1\<rparr>)"

definition mock_poll_card_presence :: "mock_nfc \<Rightarrow> presence_state \<times> mock_nfc" where
  "mock_poll_card_presence m =
     (let (p, m) = mock_is_card_present m;
          m = (if \<not> p then m\<lparr>m_session_active := False\<rparr> else m)
      in (\<lparr>present = p\<rparr>, m))"

definition mock_power_on :: "mock_nfc \<Rightarrow> bytes \<Rightarrow> (nfc_error + nat) \<times> bytes \<times> mock_nfc" where
  "mock_power_on m buf =
     (if \<not> m_card_present m then (Inl NoCard, buf, m\<lparr>m_session_active := False\<rparr>)
      else if length buf < length (m_atr m) then (Inl BufferOverflow, buf, m)
      else (Inr (length (m_atr m)), m_atr m @ drop (length (m_atr m)) buf,
            m\<lparr>m_session_active := True\<rparr>))"

definition mock_power_off :: "mock_nfc \<Rightarrow> mock_nfc" where
  "mock_power_off m = m\<lparr>m_session_active := False\<rparr>"

definition mock_transmit_apdu ::
    "mock_nfc \<Rightarrow> bytes \<Rightarrow> bytes \<Rightarrow> (nfc_error + nat) \<times> bytes \<times> mock_nfc" where
  "mock_transmit_apdu m command response =
     (if \<not> m_card_present m then (Inl NoCard, response, m\<lparr>m_session_active := False\<rparr>)
      else if \<not> m_session_active m then (Inl NotInitialized, response, m)
      else
        let m = m\<lparr>m_last_apdu := command\<rparr> in
        if length response < length (m_apdu_response m) then (Inl BufferOverflow, response, m)
        else (Inr (length (m_apdu_response m)),
              m_apdu_response m @ drop (length (m_apdu_response m)) response, m))"

definition mock_frontend_status :: "mock_nfc \<Rightarrow> frontend_status" where
  "mock_frontend_status m = (m_frontend_status m)\<lparr>fs_presence_polls := m_poll_count m\<rparr>"

definition mock_ops :: "(mock_nfc, nfc_error) nfc_ops" where
  "mock_ops =
     (trait_defaults mock_init mock_is_card_present mock_power_on mock_power_off mock_transmit_apdu
        mock_frontend_status (\<lambda>m. (m_self_test_result m, m)))
     \<lparr>n_poll_card_presence := mock_poll_card_presence,
      n_session_active := m_session_active,
      n_card_uid := (\<lambda>m. if m_uid m = [] then None else Some (m_uid m)),
      n_wtx_counters := m_wtx,
      n_timer_registers := (\<lambda>m. (m_timer_regs m, m))\<rparr>"

definition mock_ok :: "mock_nfc \<Rightarrow> bool" where
  "mock_ok m \<longleftrightarrow> length (m_uid m) \<le> 269 \<and> (case m_timer_regs m of None \<Rightarrow> True | Some r \<Rightarrow> length r = 4)"

lemmas mock_defs = mock_ops_def trait_defaults_def mock_init_def mock_is_card_present_def
  mock_poll_card_presence_def mock_power_on_def mock_power_off_def mock_transmit_apdu_def

interpretation mock: nfc_driver mock_ops mock_ok
  by unfold_locales (auto simp: mock_defs mock_ok_def Let_def split: if_splits)

end
