(* ===== verification/Frontend.thy ===== *)
theory Frontend
  imports Nfc
begin

text \<open>
  Frontend fault isolation (crates/ccid-service/src/frontend.rs): the retrying wrapper, the
  stand-in for a controller that could not be constructed, and the two-armed dispatcher.  Each
  wrapper maps a record of driver operations to a record of driver operations, and keeps the
  driver contract.
\<close>

section \<open>RetryFrontend\<close>

record 'd retry_frontend =
  rf_inner :: 'd
  rf_degraded :: bool

definition retry_healthy :: "'d \<Rightarrow> 'd retry_frontend" where
  "retry_healthy d = \<lparr>rf_inner = d, rf_degraded = False\<rparr>"

definition retry_degraded :: "'d \<Rightarrow> 'd retry_frontend" where
  "retry_degraded d = \<lparr>rf_inner = d, rf_degraded = True\<rparr>"

definition retry_init ::
    "('d, 'e) nfc_ops \<Rightarrow> 'd retry_frontend \<Rightarrow> ('e + unit) \<times> 'd retry_frontend" where
  "retry_init nops f =
     (let (result, d) = n_init_recovering nops (rf_inner f)
      in (result, \<lparr>rf_inner = d, rf_degraded = (case result of Inl _ \<Rightarrow> True | Inr _ \<Rightarrow> False)\<rparr>))"

definition retry_poll_card_presence ::
    "('d, 'e) nfc_ops \<Rightarrow> 'd retry_frontend \<Rightarrow> presence_state \<times> 'd retry_frontend" where
  "retry_poll_card_presence nops f =
     (let f = (if rf_degraded f then
                 (case n_init_recovering nops (rf_inner f) of
                    (Inr _, d) \<Rightarrow> \<lparr>rf_inner = d, rf_degraded = False\<rparr>
                  | (Inl _, d) \<Rightarrow> f\<lparr>rf_inner := d\<rparr>)
               else f)
      in if rf_degraded f then (\<lparr>present = False\<rparr>, f)
         else let (p, d) = n_poll_card_presence nops (rf_inner f) in (p, f\<lparr>rf_inner := d\<rparr>))"

definition retry_is_card_present ::
    "('d, 'e) nfc_ops \<Rightarrow> 'd retry_frontend \<Rightarrow> bool \<times> 'd retry_frontend" where
  "retry_is_card_present nops f =
     (let (p, f) = retry_poll_card_presence nops f in (present p, f))"

definition retry_frontend_status ::
    "('d, 'e) nfc_ops \<Rightarrow> 'd retry_frontend \<Rightarrow> frontend_status" where
  "retry_frontend_status nops f =
     (let status = n_frontend_status nops (rf_inner f) in
      if fs_health status \<noteq> Unavailable
      then status\<lparr>fs_health := (if rf_degraded f then Degraded else Healthy)\<rparr>
      else status)"

definition retry_ops :: "('d, 'e) nfc_ops \<Rightarrow> ('d retry_frontend, 'e) nfc_ops" where
  "retry_ops nops =
     \<lparr>n_init = retry_init nops,
      n_poll_maintenance = (\<lambda>now f. f\<lparr>rf_inner := n_poll_maintenance nops now (rf_inner f)\<rparr>),
      n_init_recovering = retry_init nops,
      n_is_card_present = retry_is_card_present nops,
      n_poll_card_presence = retry_poll_card_presence nops,
      n_session_active = (\<lambda>f. \<not> rf_degraded f \<and> n_session_active nops (rf_inner f)),
      n_presence_poll_detects_removal =
        (\<lambda>f. \<not> rf_degraded f \<and> n_presence_poll_detects_removal nops (rf_inner f)),
      n_exchange_decomposition =
        (\<lambda>f. if rf_degraded f then None else n_exchange_decomposition nops (rf_inner f)),
      n_i2c_timing_probe =
        (\<lambda>reads f. if rf_degraded f then (None, f)
                   else let (r, d) = n_i2c_timing_probe nops reads (rf_inner f)
                        in (r, f\<lparr>rf_inner := d\<rparr>)),
      n_configured_fwt_ms =
        (\<lambda>f. if rf_degraded f then 0 else n_configured_fwt_ms nops (rf_inner f)),
      n_timer_registers =
        (\<lambda>f. if rf_degraded f then (None, f)
             else let (r, d) = n_timer_registers nops (rf_inner f) in (r, f\<lparr>rf_inner := d\<rparr>)),
      n_power_on =
        (\<lambda>f buf. let (r, buf, d) = n_power_on nops (rf_inner f) buf in (r, buf, f\<lparr>rf_inner := d\<rparr>)),
      n_power_off = (\<lambda>f. f\<lparr>rf_inner := n_power_off nops (rf_inner f)\<rparr>),
      n_transmit_apdu =
        (\<lambda>f cmd buf. let (r, buf, d) = n_transmit_apdu nops (rf_inner f) cmd buf
                     in (r, buf, f\<lparr>rf_inner := d\<rparr>)),
      n_card_uid = (\<lambda>f. if rf_degraded f then None else n_card_uid nops (rf_inner f)),
      n_reinit_count = (\<lambda>f. n_reinit_count nops (rf_inner f)),
      n_wtx_counters = (\<lambda>f. if rf_degraded f then None else n_wtx_counters nops (rf_inner f)),
      n_frontend_status = retry_frontend_status nops,
      n_frontend_self_test =
        (\<lambda>f. let (r, d) = n_frontend_self_test nops (rf_inner f) in (r, f\<lparr>rf_inner := d\<rparr>))\<rparr>"

section \<open>UnavailableNfcDriver\<close>

datatype unavailable_nfc = UnavailableNfcDriver

definition unavailable_ops :: "(unavailable_nfc, nfc_error) nfc_ops" where
  "unavailable_ops =
     (trait_defaults (\<lambda>d. (Inl NotInitialized, d)) (\<lambda>d. (False, d))
        (\<lambda>d buf. (Inl NotInitialized, buf, d)) (\<lambda>d. d) (\<lambda>d cmd buf. (Inl NotInitialized, buf, d))
        (\<lambda>_. frontend_status_ok\<lparr>fs_health := Unavailable, fs_last_error := FeNotInitialized\<rparr>)
        (\<lambda>d. (Inl FeNotInitialized, d)))
     \<lparr>n_poll_card_presence := (\<lambda>d. (\<lparr>present = False\<rparr>, d))\<rparr>"

section \<open>EitherFrontend\<close>

datatype ('a, 'b) either_frontend = Primary 'a | Fallback 'b

text \<open>\<open>on_either\<close> is the source's two-armed match: run the method of the live arm and put the arm's
  new state back.\<close>

fun on_either ::
    "('a \<Rightarrow> 'r \<times> 'a) \<Rightarrow> ('b \<Rightarrow> 'r \<times> 'b) \<Rightarrow> ('a, 'b) either_frontend \<Rightarrow> 'r \<times> ('a, 'b) either_frontend" where
  "on_either f g (Primary a) = (let (r, a) = f a in (r, Primary a))"
| "on_either f g (Fallback b) = (let (r, b) = g b in (r, Fallback b))"

definition on_either3 ::
    "('a \<Rightarrow> 'r \<times> 's \<times> 'a) \<Rightarrow> ('b \<Rightarrow> 'r \<times> 's \<times> 'b) \<Rightarrow> ('a, 'b) either_frontend
       \<Rightarrow> 'r \<times> 's \<times> ('a, 'b) either_frontend" where
  "on_either3 f g e =
     (let ((r, s), e) =
        on_either (\<lambda>a. let (r, s, a) = f a in ((r, s), a)) (\<lambda>b. let (r, s, b) = g b in ((r, s), b)) e
      in (r, s, e))"

definition either_ops ::
    "('a, 'e) nfc_ops \<Rightarrow> ('b, 'e) nfc_ops \<Rightarrow> (('a, 'b) either_frontend, 'e) nfc_ops" where
  "either_ops A B =
     \<lparr>n_init = on_either (n_init A) (n_init B),
      n_poll_maintenance =
        (\<lambda>now. map_either_frontend (n_poll_maintenance A now) (n_poll_maintenance B now)),
      n_init_recovering = on_either (n_init A) (n_init B),
      n_is_card_present = on_either (n_is_card_present A) (n_is_card_present B),
      n_poll_card_presence = on_either (n_poll_card_presence A) (n_poll_card_presence B),
      n_session_active = case_either_frontend (n_session_active A) (n_session_active B),
      n_presence_poll_detects_removal =
        case_either_frontend (n_presence_poll_detects_removal A) (n_presence_poll_detects_removal B),
      n_exchange_decomposition =
        case_either_frontend (n_exchange_decomposition A) (n_exchange_decomposition B),
      n_i2c_timing_probe =
        (\<lambda>reads. on_either (n_i2c_timing_probe A reads) (n_i2c_timing_probe B reads)),
      n_configured_fwt_ms = case_either_frontend (n_configured_fwt_ms A) (n_configured_fwt_ms B),
      n_timer_registers = on_either (n_timer_registers A) (n_timer_registers B),
      n_power_on = (\<lambda>e buf. on_either3 (\<lambda>a. n_power_on A a buf) (\<lambda>b. n_power_on B b buf) e),
      n_power_off = map_either_frontend (n_power_off A) (n_power_off B),
      n_transmit_apdu =
        (\<lambda>e cmd buf. on_either3 (\<lambda>a. n_transmit_apdu A a cmd buf) (\<lambda>b. n_transmit_apdu B b cmd buf) e),
      n_card_uid = case_either_frontend (n_card_uid A) (n_card_uid B),
      n_reinit_count = case_either_frontend (n_reinit_count A) (n_reinit_count B),
      n_wtx_counters = case_either_frontend (n_wtx_counters A) (n_wtx_counters B),
      n_frontend_status = case_either_frontend (n_frontend_status A) (n_frontend_status B),
      n_frontend_self_test = on_either (n_frontend_self_test A) (n_frontend_self_test B)\<rparr>"

section \<open>The wrappers keep the driver contract\<close>

context nfc_driver
begin

lemma retry_poll_inv:
  assumes "n_inv (rf_inner f)" and "retry_poll_card_presence nops f = (p, f')"
  shows "n_inv (rf_inner f')"
proof -
  obtain r d where i: "n_init_recovering nops (rf_inner f) = (r, d)" by fastforce
  have "n_inv d" using n_inv_init_recovering [OF assms(1) i] .
  with assms i show ?thesis
    by (auto simp: retry_poll_card_presence_def Let_def split: prod.splits if_splits sum.splits
        dest: n_inv_poll)
qed

end

lemma retry_nfc_driver:
  assumes "nfc_driver nops n_inv"
  shows "nfc_driver (retry_ops nops) (\<lambda>f. n_inv (rf_inner f))"
  by unfold_locales
    (auto simp: retry_ops_def retry_init_def retry_is_card_present_def
         Let_def split: prod.splits if_splits sum.splits
       dest: nfc_driver.n_power_on_length [OF assms] nfc_driver.n_power_on_count [OF assms]
         nfc_driver.n_transmit_length [OF assms] nfc_driver.n_transmit_count [OF assms]
         nfc_driver.n_uid_room [OF assms] nfc_driver.n_inv_power_off [OF assms]
         nfc_driver.n_inv_is_present [OF assms] nfc_driver.n_inv_poll [OF assms]
         nfc_driver.n_inv_init [OF assms] nfc_driver.n_inv_init_recovering [OF assms] nfc_driver.retry_poll_inv [OF assms])

lemma either_nfc_driver:
  assumes a: "nfc_driver A invA" and b: "nfc_driver B invB"
  shows "nfc_driver (either_ops A B) (case_either_frontend invA invB)"
  by unfold_locales
    (auto simp: either_ops_def on_either3_def Let_def
       split: prod.splits either_frontend.splits
       elim!: on_either.elims
       dest: nfc_driver.n_power_on_length [OF a] nfc_driver.n_power_on_count [OF a]
         nfc_driver.n_transmit_length [OF a] nfc_driver.n_transmit_count [OF a]
         nfc_driver.n_uid_room [OF a] nfc_driver.n_inv_power_off [OF a]
         nfc_driver.n_inv_is_present [OF a] nfc_driver.n_inv_poll [OF a] nfc_driver.n_inv_init [OF a]
         nfc_driver.n_power_on_length [OF b] nfc_driver.n_power_on_count [OF b]
         nfc_driver.n_transmit_length [OF b] nfc_driver.n_transmit_count [OF b]
         nfc_driver.n_uid_room [OF b] nfc_driver.n_inv_power_off [OF b]
         nfc_driver.n_inv_is_present [OF b] nfc_driver.n_inv_poll [OF b] nfc_driver.n_inv_init [OF b])

interpretation unavailable: nfc_driver unavailable_ops "\<lambda>_. True"
  by unfold_locales (auto simp: unavailable_ops_def trait_defaults_def)

interpretation retry_mock: nfc_driver "retry_ops mock_ops" "\<lambda>f. mock_ok (rf_inner f)"
  by (rule retry_nfc_driver) unfold_locales

interpretation either_mock: nfc_driver
  "either_ops (retry_ops mock_ops) unavailable_ops"
  "case_either_frontend (\<lambda>f. mock_ok (rf_inner f)) (\<lambda>_. True)"
  by (rule either_nfc_driver) unfold_locales

section \<open>Front ends with probes\<close>

text \<open>The wrapper of the handler core also calls the probe and self-test methods; the contract it
  relies on extends the driver contract by their laws.\<close>

locale nfc_frontend = nfc_driver +
  assumes n_inv_timer: "n_inv d \<Longrightarrow> n_timer_registers nops d = (regs, d') \<Longrightarrow> n_inv d'"
    and n_timer_length: "n_inv d \<Longrightarrow> n_timer_registers nops d = (Some r4, d') \<Longrightarrow> length r4 = 4"
    and n_inv_probe: "n_inv d \<Longrightarrow> n_i2c_timing_probe nops reads d = (us, d') \<Longrightarrow> n_inv d'"
    and n_inv_self_test: "n_inv d \<Longrightarrow> n_frontend_self_test nops d = (st, d') \<Longrightarrow> n_inv d'"

interpretation mock_probe: nfc_frontend mock_ops mock_ok
  by unfold_locales (auto simp: mock_defs mock_ok_def)

interpretation unavailable_probe: nfc_frontend unavailable_ops "\<lambda>_. True"
  by unfold_locales (auto simp: unavailable_ops_def trait_defaults_def)

lemma retry_nfc_frontend:
  assumes a: "nfc_frontend nops n_inv"
  shows "nfc_frontend (retry_ops nops) (\<lambda>f. n_inv (rf_inner f))"
  by (intro nfc_frontend.intro nfc_frontend_axioms.intro
        retry_nfc_driver [OF nfc_frontend.axioms(1) [OF a]])
     (auto simp: retry_ops_def Let_def split: prod.splits if_splits
       dest: nfc_frontend.n_inv_timer [OF a] nfc_frontend.n_timer_length [OF a]
         nfc_frontend.n_inv_probe [OF a] nfc_frontend.n_inv_self_test [OF a])

lemma either_nfc_frontend:
  assumes a: "nfc_frontend A invA" and b: "nfc_frontend B invB"
  shows "nfc_frontend (either_ops A B) (case_either_frontend invA invB)"
  by (intro nfc_frontend.intro nfc_frontend_axioms.intro
        either_nfc_driver [OF nfc_frontend.axioms(1) [OF a] nfc_frontend.axioms(1) [OF b]])
     (auto simp: either_ops_def Let_def split: prod.splits either_frontend.splits elim!: on_either.elims
       dest: nfc_frontend.n_inv_timer [OF a] nfc_frontend.n_timer_length [OF a]
         nfc_frontend.n_inv_probe [OF a] nfc_frontend.n_inv_self_test [OF a]
         nfc_frontend.n_inv_timer [OF b] nfc_frontend.n_timer_length [OF b]
         nfc_frontend.n_inv_probe [OF b] nfc_frontend.n_inv_self_test [OF b])

interpretation either_probe: nfc_frontend
  "either_ops (retry_ops mock_ops) unavailable_ops"
  "case_either_frontend (\<lambda>f. mock_ok (rf_inner f)) (\<lambda>_. True)"
  by (intro either_nfc_frontend retry_nfc_frontend mock_probe.nfc_frontend_axioms
        unavailable_probe.nfc_frontend_axioms)

end
