(* ===== verification/Handler_Facts.thy ===== *)
theory Handler_Facts
  imports Handler Frontend
begin

text \<open>
  What the handler core guarantees for every slot driver that meets the contract \<open>slot_driver\<close>: the
  invariant of its state, when it can panic, that every answer is a well-formed message for the
  request, and what each command does.
\<close>

section \<open>The invariant\<close>

definition host_params_ok :: "(u8 \<times> bytes) option \<Rightarrow> bool" where
  "host_params_ok hp = (case hp of None \<Rightarrow> True | Some (p, raw) \<Rightarrow> p \<le> 1 \<and> length raw = 7)"

definition secure_ok :: "bool \<Rightarrow> secure_state \<Rightarrow> bool" where
  "secure_ok pin_pad s =
     (case s of
        SecureIdle \<Rightarrow> True
      | WaitingForPinVerify _ p \<Rightarrow> pin_pad \<and> length (pv_apdu_template p) = 5
      | WaitingForPinModify _ p \<Rightarrow> pin_pad \<and> length (pm_apdu_template p) = 5)"

definition counters_ok :: "diagnostics \<Rightarrow> bool" where
  "counters_ok d \<longleftrightarrow> apdu_rx_count d \<le> apdu_tx_count d"

definition protocol_ok :: "profile \<Rightarrow> u8 \<Rightarrow> bool" where
  "protocol_ok P p \<longleftrightarrow> (if CONTACT P then p < 16 else p \<le> 1)"

definition handler_ok :: "profile \<Rightarrow> ('d \<Rightarrow> bool) \<Rightarrow> 'd handler \<Rightarrow> bool" where
  "handler_ok P d_inv h \<longleftrightarrow>
     d_inv (h_nfc h) \<and> length (h_tx_buf h) = 271 \<and> host_params_ok (h_host_params h) \<and>
     atr_params_ok (h_atr_params h) \<and> counters_ok (h_diagnostics h) \<and>
     secure_ok (h_pin_pad h) (h_secure_state h) \<and> protocol_ok P (h_current_protocol h) \<and>
     length (h_firmware_version h) \<le> 261"

text \<open>\<open>answers_request hdr out n\<close>: the first \<open>n\<close> bytes of \<open>out\<close> are one CCID message that carries the
  slot and sequence number of the request and declares its own length.\<close>

definition answers_request :: "ccid_header \<Rightarrow> bytes \<Rightarrow> nat \<Rightarrow> bool" where
  "answers_request hdr out n \<longleftrightarrow>
     n \<le> length out \<and>
     (case header_parse out of
        None \<Rightarrow> False
      | Some rh \<Rightarrow> slot rh = slot hdr \<and> seq rh = seq hdr \<and> n = CCID_HEADER_SIZE + unat (dw_length rh))"

definition good_reply ::
    "profile \<Rightarrow> ('d \<Rightarrow> bool) \<Rightarrow> ccid_header \<Rightarrow> bytes \<Rightarrow> 'd reply \<Rightarrow> bool" where
  "good_reply P d_inv hdr out r =
     (case r of
        None \<Rightarrow> False
      | Some (h, out', n) \<Rightarrow>
          handler_ok P d_inv h \<and> length out' = length out \<and>
          (if n = 0 then out' = out \<and> length out < 281 else answers_request hdr out' n))"

lemma message_at_answers:
  assumes "message_at out n mt (slot hdr) (seq hdr) st err sp data" and "length data < 2 ^ 32"
  shows "answers_request hdr out n"
proof -
  have "unat (word_of_nat (length data) :: u32) = length data"
    using assms(2) by (simp add: unsigned_of_nat take_bit_nat_eq_self_iff)
  with assms(1) message_at_header(1) [OF assms] show ?thesis
    unfolding answers_request_def by (simp add: message_at_def)
qed

lemma message_good:
  assumes "handler_ok P d_inv h" and "length data \<le> 271"
  shows "good_reply P d_inv hdr out (message h hdr mt st err sp data out)"
proof (cases "CCID_HEADER_SIZE + length data \<le> length out")
  case True
  obtain out' n where w: "write_message mt (slot hdr) (seq hdr) st err sp data out = (out', n)"
    by fastforce
  have "length out' = length out" using w length_write_message by (metis fst_conv)
  moreover have "n \<noteq> 0" using w True by (auto simp: write_message_fits)
  moreover have "answers_request hdr out' n"
    using write_message_at [OF True w] assms(2) by (auto intro: message_at_answers)
  ultimately show ?thesis using assms(1) w by (simp add: good_reply_def message_def reply_def)
next
  case False
  with assms show ?thesis by (simp add: good_reply_def message_def reply_def write_message_short)
qed

lemma slot_status_message:
  "slot_status h hdr icc st err out =
     message h hdr RDR_TO_PC_SLOTSTATUS (build_bstatus st icc) err 0 [] out"
  by (simp add: slot_status_def message_def write_slot_status_def)

lemma data_block_message:
  "reply h (write_data_block (slot hdr) (seq hdr) icc st err 0 data out) =
     message h hdr RDR_TO_PC_DATABLOCK (build_bstatus st icc) err 0 data out"
  by (simp add: message_def write_data_block_def)

lemma slot_status_good:
  "handler_ok P d_inv h \<Longrightarrow> good_reply P d_inv hdr out (slot_status h hdr icc st err out)"
  by (simp add: slot_status_message message_good)

lemma escape_answer_good:
  "handler_ok P d_inv h \<Longrightarrow> length data \<le> 271 \<Longrightarrow>
     good_reply P d_inv hdr out (escape_answer h hdr st data out)"
  by (simp add: escape_answer_def message_good)

lemma secure_not_supported_good:
  "handler_ok P d_inv h \<Longrightarrow> good_reply P d_inv hdr out (secure_not_supported P h hdr out)"
  by (simp add: secure_not_supported_def slot_status_good message_good)

lemmas reply_good = message_good slot_status_good escape_answer_good secure_not_supported_good

section \<open>Parameters keep the invariant\<close>

lemma apply_host_params_ok:
  "atr_params_ok p \<Longrightarrow> atr_params_ok (apply_host_params requested raw p)"
proof -
  have "drop_bit 4 x < (16 :: u8)" for x
  proof -
    have "unat x < 2 ^ LENGTH(8)" by (rule unsigned_less)
    then have "unat (drop_bit 4 x) < 16" by (simp add: drop_bit_eq_div unat_div_distrib)
    then show ?thesis by (simp add: word_less_nat_alt)
  qed
  then show "atr_params_ok p \<Longrightarrow> atr_params_ok (apply_host_params requested raw p)"
    by (simp add: atr_params_ok_def apply_host_params_def t1_bwi_cwi_ifsc_def Let_def
        di_from_ta1_low_pos and_nibble_lt and_1_le)
qed

lemma parameter_payload_length:
  assumes "host_params_ok (h_host_params h)" and "parameter_payload P h = (payload, len, proto)"
  shows "length payload = 7 \<and> len \<le> 7"
  using assms
  by (auto simp: parameter_payload_def host_params_ok_def Let_def default_params_def
      DEFAULT_T0_PARAMS_def DEFAULT_T1_PARAMS_def split: if_splits option.splits prod.splits)

lemma write_parameters_good:
  assumes "handler_ok P d_inv h"
  shows "good_reply P d_inv hdr out (write_parameters P h hdr out)"
proof -
  obtain payload len proto where p: "parameter_payload P h = (payload, len, proto)"
    using prod_cases3 by blast
  have "length payload = 7" "len \<le> 7"
    using parameter_payload_length [OF _ p] assms by (auto simp: handler_ok_def)
  with assms p show ?thesis by (simp add: write_parameters_def slice_prefix message_good)
qed

lemma accepted_params_ok:
  assumes "handler_ok P d_inv h" and "CONTACT P" and "contact_params_valid r i raw" and "i \<le> 1"
    and "length raw = 7"
  shows "handler_ok P d_inv
    (h\<lparr>h_current_protocol := r, h_host_params := Some (r, raw), h_parameters_accepted_event := True,
       h_atr_params := apply_host_params r raw (h_atr_params h)\<rparr>)"
proof -
  have "r \<le> 1" using assms by (simp add: contact_params_valid_def)
  moreover have "r < 16" using \<open>r \<le> 1\<close> by (rule order.strict_trans1) simp
  ultimately show ?thesis using assms
    by (simp add: handler_ok_def host_params_ok_def protocol_ok_def apply_host_params_ok)
qed

lemma set_parameters_contact_good:
  assumes "handler_ok P d_inv h" and "CONTACT P"
  shows "good_reply P d_inv hdr out (handle_set_parameters_contact P h hdr payload out)"
  unfolding handle_set_parameters_contact_def Let_def
  using assms by (auto intro!: reply_good write_parameters_good accepted_params_ok)

lemma set_parameters_good:
  assumes "handler_ok P d_inv h"
  shows "good_reply P d_inv hdr out (handle_set_parameters P h hdr payload out)"
  using assms
  by (auto simp: handle_set_parameters_def Let_def set_parameters_contact_good not_less
      intro!: reply_good write_parameters_good)
     (auto simp: handler_ok_def host_params_ok_def protocol_ok_def)

lemma reset_parameters_good:
  "handler_ok P d_inv h \<Longrightarrow> good_reply P d_inv hdr out (handle_reset_parameters P h hdr out)"
  by (auto simp: handle_reset_parameters_def intro!: write_parameters_good)
     (auto simp: handler_ok_def host_params_ok_def protocol_ok_def atr_params_default_ok)

section \<open>Escape and Secure keep the invariant\<close>

lemma length_diagnostics_to_bytes: "length (fst (diagnostics_to_bytes d (replicate 28 0))) = 28"
  by (simp add: diagnostics_to_bytes_def Let_def length_rules)

lemma escape_good:
  "handler_ok P d_inv h \<Longrightarrow> good_reply P d_inv hdr out (handle_escape P h hdr payload out)"
  by (auto simp: handle_escape_def Let_def length_diagnostics_to_bytes intro!: reply_good)
     (auto simp: handler_ok_def)

lemma pin_parsers_template:
  "pin_verify_parse d = Some p \<Longrightarrow> length (pv_apdu_template p) = 5"
  "pin_modify_parse d = Some (Some q) \<Longrightarrow> length (pm_apdu_template q) = 5"
  by (auto simp: pin_verify_parse_def pin_modify_parse_def Let_def
      split: if_splits option.splits)

lemma pin_modify_parse_panics: "pin_modify_parse data = None \<longleftrightarrow> length data \<in> {11..13}"
  by (auto simp: pin_modify_parse_def Let_def idx_def)

definition secure_panics :: "'d handler \<Rightarrow> bytes \<Rightarrow> bool" where
  "secure_panics h payload \<longleftrightarrow>
     h_pin_pad h \<and> h_slot_state h = PresentActive \<and> get_opt payload 0 = Some 0x01
       \<and> length payload \<in> {12..14}"

text \<open>The request opens a PIN session, with the parameters it carries: the one case without an answer.\<close>

definition opens_pin_session :: "'d handler \<Rightarrow> ccid_header \<Rightarrow> bytes \<Rightarrow> 'd handler \<Rightarrow> bool" where
  "opens_pin_session h hdr payload h' \<longleftrightarrow>
     message_type hdr = PC_TO_RDR_SECURE \<and> h_pin_pad h \<and> h_slot_state h = PresentActive \<and>
     (case payload of
        [] \<Rightarrow> False
      | pin_operation # pin_data \<Rightarrow>
          pin_operation = 0x00 \<and> (\<exists>params. pin_verify_parse pin_data = Some params \<and>
            h' = h\<lparr>h_secure_state := WaitingForPinVerify (seq hdr) params\<rparr>) \<or>
          pin_operation = 0x01 \<and> (\<exists>params. pin_modify_parse pin_data = Some (Some params) \<and>
            h' = h\<lparr>h_secure_state := WaitingForPinModify (seq hdr) params\<rparr>))"

definition good_dispatch ::
    "profile \<Rightarrow> ('d \<Rightarrow> bool) \<Rightarrow> 'd handler \<Rightarrow> ccid_header \<Rightarrow> bytes \<Rightarrow> bytes \<Rightarrow> 'd reply \<Rightarrow> bool" where
  "good_dispatch P d_inv h hdr payload out r \<longleftrightarrow>
     good_reply P d_inv hdr out r \<or>
     (\<exists>h'. r = Some (h', out, 0) \<and> handler_ok P d_inv h' \<and> opens_pin_session h hdr payload h')"

lemma good_dispatchI: "good_reply P d_inv hdr out r \<Longrightarrow> good_dispatch P d_inv h hdr payload out r"
  by (simp add: good_dispatch_def)

lemma secure_good:
  assumes "handler_ok P d_inv h" and "message_type hdr = PC_TO_RDR_SECURE"
  shows "if secure_panics h payload then handle_secure P h hdr payload out = None
         else good_dispatch P d_inv h hdr payload out (handle_secure P h hdr payload out)"
proof (cases "h_pin_pad h \<and> h_slot_state h = PresentActive")
  case False
  with assms show ?thesis
    by (auto simp: secure_panics_def handle_secure_def intro!: good_dispatchI reply_good)
next
  case active: True
  show ?thesis
  proof (cases payload)
    case Nil
    with active assms show ?thesis
      by (auto simp: secure_panics_def handle_secure_def get_opt_def intro!: good_dispatchI reply_good)
  next
    case (Cons op data)
    have arm: "good_dispatch P d_inv h hdr pl out (Some (h\<lparr>h_secure_state := s\<rparr>, out, 0))"
      if "secure_ok True s" "opens_pin_session h hdr pl (h\<lparr>h_secure_state := s\<rparr>)" for s pl
      using assms that active by (auto simp: good_dispatch_def handler_ok_def)
    have panics: "secure_panics h payload \<longleftrightarrow> op = 1 \<and> pin_modify_parse data = None"
      using active Cons by (auto simp: secure_panics_def get_opt_def pin_modify_parse_panics)
    consider "op = 0" | "op = 1" | "op \<noteq> 0" "op \<noteq> 1" by blast
    then show ?thesis
    proof cases
      case 1
      with active Cons assms panics show ?thesis
        by (auto simp: handle_secure_def secure_ok_def opens_pin_session_def split: option.split
            intro!: arm intro: good_dispatchI [OF secure_not_supported_good] dest: pin_parsers_template)
    next
      case 2
      with active Cons assms panics show ?thesis
        by (cases "pin_modify_parse data")
          (auto simp: handle_secure_def secure_ok_def opens_pin_session_def split: option.split
            intro!: arm intro: good_dispatchI [OF secure_not_supported_good] dest: pin_parsers_template)
    next
      case 3
      with active Cons assms panics show ?thesis
        by (auto simp: handle_secure_def intro!: good_dispatchI reply_good)
    qed
  qed
qed

lemma secure_ok_Idle [simp]: "secure_ok b SecureIdle"
  by (simp add: secure_ok_def)

section \<open>Card operations keep the invariant\<close>

lemma slice_tx: "n \<le> length buf \<Longrightarrow> slice buf 0 n = Some (take n buf)"
  by (rule slice_prefix)

context slot_driver
begin

lemma count_transmit_ok:
  assumes "d_inv nfc" and "counters_ok diag"
    and "count_transmit ops diag nfc cmd buf = (r, buf', diag', nfc')"
  shows "d_inv nfc' \<and> counters_ok diag' \<and> length buf' = length buf"
    and "r = Inr n \<Longrightarrow> n \<le> length buf"
proof -
  obtain r1 b1 n1 where t: "d_transmit_apdu ops nfc cmd buf = (r1, b1, n1)" using prod_cases3 by blast
  have "counters_ok diag'"
    using assms(2,3) t saturating_add32_ge saturating_add32_mono
    by (auto simp: count_transmit_def counters_ok_def Let_def split: sum.splits
        intro: order_trans)
  then show "d_inv nfc' \<and> counters_ok diag' \<and> length buf' = length buf"
    using assms t by (auto simp: count_transmit_def Let_def inv_transmit dest: transmit_length)
  show "r = Inr n \<Longrightarrow> n \<le> length buf"
    using assms t by (auto simp: count_transmit_def Let_def dest: transmit_count)
qed

lemma relayed_ok:
  assumes "handler_ok P d_inv h"
    and "count_transmit ops (h_diagnostics h) (h_nfc h) cmd (h_tx_buf h) = (r, buf', diag', nfc')"
  shows "handler_ok P d_inv (h\<lparr>h_nfc := nfc', h_tx_buf := buf', h_diagnostics := diag'\<rparr>)"
    and "handler_ok P d_inv
      (h\<lparr>h_nfc := nfc', h_tx_buf := buf', h_diagnostics := diag', h_slot_state := PresentInactive\<rparr>)"
    and "r = Inr n \<Longrightarrow> n \<le> 271 \<and> slice buf' 0 n = Some (take n buf')"
  using assms count_transmit_ok [OF _ _ assms(2)] by (auto simp: handler_ok_def slice_prefix)

lemma power_on_result:
  assumes "d_inv nfc" and "length buf = 271" and "d_power_on ops nfc buf = (r, tx, nfc')"
  shows "d_inv nfc'" and "length tx = 271"
    and "r = Inr n \<Longrightarrow> n \<le> 271 \<and> slice tx 0 n = Some (take n tx)"
proof -
  show "d_inv nfc'" and l: "length tx = 271"
    using assms inv_power_on power_on_length [OF assms(1,3)] by auto
  show "n \<le> 271 \<and> slice tx 0 n = Some (take n tx)" if "r = Inr n"
    using power_on_count [of nfc buf n tx nfc'] assms that l by (simp add: slice_prefix)
qed

lemma power_on_contact_good:
  assumes "handler_ok P d_inv h" and "CONTACT P"
  shows "good_reply P d_inv hdr out (handle_power_on_contact ops h hdr out)"
proof -
  obtain b nfc where c: "d_is_card_present ops (h_nfc h) = (b, nfc)" by fastforce
  obtain r tx nfc' where p: "d_power_on ops nfc (h_tx_buf h) = (r, tx, nfc')"
    using prod_cases3 by blast
  have h: "d_inv nfc" "length (h_tx_buf h) = 271"
    using assms(1) c inv_is_present by (auto simp: handler_ok_def)
  note res = power_on_result [OF h p]
  have ok: "handler_ok P d_inv (h\<lparr>h_nfc := nfc\<rparr>)"
    "handler_ok P d_inv (h\<lparr>h_nfc := nfc', h_tx_buf := tx, h_slot_state := PresentInactive\<rparr>)"
    "handler_ok P d_inv (h\<lparr>h_nfc := nfc', h_tx_buf := tx, h_presence_state := ps,
        h_slot_state := PresentActive, h_atr_params := parse_atr atr,
        h_current_protocol := ap_protocol (parse_atr atr), h_host_params := None,
        h_card_reset_event := True\<rparr>)" for ps atr
    using assms h res parse_atr_ok [of atr]
    by (auto simp: handler_ok_def protocol_ok_def host_params_ok_def atr_params_ok_def)
  show ?thesis
  proof (cases r)
    case (Inr n)
    with ok res assms c p show ?thesis
      by (auto simp: handle_power_on_contact_def Let_def intro!: reply_good)
  next
    case (Inl e)
    with ok res assms c p show ?thesis
      by (auto simp: handle_power_on_contact_def Let_def intro!: reply_good)
  qed
qed

lemma power_on_good:
  assumes "handler_ok P d_inv h"
  shows "good_reply P d_inv hdr out (handle_power_on P ops h hdr out)"
proof (cases "CONTACT P")
  case True
  with assms show ?thesis by (simp add: handle_power_on_def power_on_contact_good)
next
  case False
  obtain r tx nfc' where p: "d_power_on ops (h_nfc h) (h_tx_buf h) = (r, tx, nfc')"
    using prod_cases3 by blast
  note res = power_on_result [OF _ _ p]
  have ok: "handler_ok P d_inv (h\<lparr>h_nfc := nfc', h_tx_buf := tx, h_slot_state := PresentInactive\<rparr>)"
    "handler_ok P d_inv (h\<lparr>h_nfc := nfc', h_tx_buf := tx, h_presence_state := ps,
        h_slot_state := PresentActive, h_card_reset_event := True\<rparr>)" for ps
    using assms res by (auto simp: handler_ok_def)
  have "r = Inr n \<Longrightarrow> n \<le> 271 \<and> slice tx 0 n = Some (take n tx)" for n
    using assms res by (auto simp: handler_ok_def)
  with ok assms p False show ?thesis
    by (cases r) (auto simp: handle_power_on_def Let_def intro!: reply_good)
qed

lemma power_off_good:
  assumes "handler_ok P d_inv h"
  shows "good_reply P d_inv hdr out (handle_power_off P ops h hdr out)"
  unfolding handle_power_off_def Let_def
  by (rule slot_status_good) (use assms in \<open>auto simp: handler_ok_def protocol_ok_def inv_power_off\<close>)

lemma answer_get_uid_good:
  assumes "handler_ok P d_inv h"
  shows "good_reply P d_inv hdr out (answer_get_uid ops h hdr out)"
proof (cases "d_card_uid ops (h_nfc h)")
  case None
  with assms show ?thesis by (simp add: answer_get_uid_def write_sw_def message_good)
next
  case (Some uid)
  have l: "length uid \<le> 269" "length (h_tx_buf h) = 271"
    using assms Some uid_room by (auto simp: handler_ok_def)
  let ?tx = "uid @ drop (length uid) (h_tx_buf h)"
  have len: "length ?tx = 271" using l by simp
  have "copy_at (h_tx_buf h) 0 uid = Some ?tx" using l by (simp add: copy_at_0)
  moreover have "handler_ok P d_inv (h\<lparr>h_tx_buf := ?tx[length uid := a, length uid + 1 := b]\<rparr>)" for a b
    using assms len by (simp add: handler_ok_def)
  ultimately show ?thesis using Some l
    by (simp add: answer_get_uid_def slice_prefix message_good Let_def idx_def)
qed

lemma apdu_pipeline_good:
  assumes "handler_ok P d_inv h"
  shows "good_reply P d_inv hdr out (apdu_pipeline P ops h hdr apdu out)"
proof -
  obtain r buf' diag' nfc' where
    t: "count_transmit ops (h_diagnostics h) (h_nfc h) apdu (h_tx_buf h) = (r, buf', diag', nfc')"
    using prod_cases4 by blast
  note rel = relayed_ok [OF assms t]
  have "is_pps_request apdu \<Longrightarrow> length apdu \<le> 271" by (auto simp: is_pps_request_def split: if_splits)
  with rel assms t show ?thesis
    by (cases r)
      (auto simp: apdu_pipeline_def Let_def write_sw_def answer_get_uid_good intro!: reply_good)
qed

lemma xfr_block_good:
  assumes "handler_ok P d_inv h"
  shows "good_reply P d_inv hdr out (handle_xfr_block P ops h hdr apdu out)"
proof -
  obtain r buf' diag' nfc' where
    t: "count_transmit ops (h_diagnostics h) (h_nfc h) apdu (h_tx_buf h) = (r, buf', diag', nfc')"
    using prod_cases4 by blast
  note rel = relayed_ok [OF assms t]
  have "good_reply P d_inv hdr out (handle_xfr_block_contact ops h hdr apdu out)"
    using rel assms t
    by (cases r)
      (auto simp: handle_xfr_block_contact_def Let_def data_block_message intro!: reply_good)
  with assms show ?thesis
    by (auto simp: handle_xfr_block_def apdu_pipeline_good intro!: reply_good)
qed

lemma dispatch_good:
  assumes "handler_ok P d_inv h"
  shows "if message_type hdr = PC_TO_RDR_SECURE \<and> secure_panics h payload
         then dispatch P ops h hdr payload out = None
         else good_dispatch P d_inv h hdr payload out (dispatch P ops h hdr payload out)"
  using assms secure_good [OF assms, of hdr payload out]
  by (simp add: dispatch_def Let_def power_on_good power_off_good xfr_block_good
      set_parameters_good reset_parameters_good escape_good slot_status_good
      write_parameters_good handle_get_slot_status_def good_dispatchI)

end

section \<open>The dispatcher\<close>

abbreviation (input) frame_payload :: "ccid_header \<Rightarrow> bytes \<Rightarrow> bytes" where
  "frame_payload hdr msg \<equiv> take (unat (dw_length hdr)) (drop CCID_HEADER_SIZE msg)"

definition command_panics :: "'d handler \<Rightarrow> bytes \<Rightarrow> bool" where
  "command_panics h msg =
     (case header_parse msg of
        None \<Rightarrow> False
      | Some hdr \<Rightarrow>
          2 ^ 32 \<le> CCID_HEADER_SIZE + unat (dw_length hdr) \<or>
          CCID_HEADER_SIZE + unat (dw_length hdr) \<le> length msg
            \<and> message_type hdr = PC_TO_RDR_SECURE \<and> secure_panics h (frame_payload hdr msg))"

definition good_answer ::
    "profile \<Rightarrow> ('d \<Rightarrow> bool) \<Rightarrow> 'd handler \<Rightarrow> bytes \<Rightarrow> bytes \<Rightarrow> 'd reply \<Rightarrow> bool" where
  "good_answer P d_inv h msg out r =
     (case header_parse msg of
        None \<Rightarrow> r = Some (h, out, 0)
      | Some hdr \<Rightarrow> good_dispatch P d_inv h hdr (frame_payload hdr msg) out r)"

lemma record_protocol_error_ok [wf_rules]:
  "handler_ok P d_inv h \<Longrightarrow> handler_ok P d_inv (record_protocol_error h)"
  by (simp add: record_protocol_error_def handler_ok_def counters_ok_def)

lemma record_protocol_error_icc: "current_icc_status (record_protocol_error h) = current_icc_status h"
  by (simp add: current_icc_status_def record_protocol_error_def)

lemma frame_end_overflow:
  fixes w :: u32
  assumes "2 ^ 32 \<le> CCID_HEADER_SIZE + unat w"
  shows "unat (10 + w) < 10"
proof -
  have "unat (10 + w) = (10 + unat w) mod 2 ^ 32" by (simp add: unat_word_ariths)
  also have "\<dots> = 10 + unat w - 2 ^ 32" using assms unat_u32_le [of w] by (simp add: mod_if)
  finally show ?thesis using unat_u32_le [of w] by simp
qed

lemma header_parse_length: "header_parse msg = Some hdr \<Longrightarrow> 10 \<le> length msg"
  using header_parse_None [of msg] by (metis not_less option.discI)

lemma process_command_overflow:
  assumes "header_parse msg = Some hdr" and "2 ^ 32 \<le> CCID_HEADER_SIZE + unat (dw_length hdr)"
  shows "process_command P ops h msg out = None"
  using assms frame_end_overflow [OF assms(2)] header_parse_length [OF assms(1)]
  by (simp add: process_command_def slice_def Let_def)

lemma process_command_in_range:
  assumes "header_parse msg = Some hdr" and "CCID_HEADER_SIZE + unat (dw_length hdr) < 2 ^ 32"
  shows "process_command P ops h msg out =
    (if length msg < CCID_HEADER_SIZE + unat (dw_length hdr)
     then slot_status (record_protocol_error h) hdr (current_icc_status h) COMMAND_STATUS_FAILED
            CCID_ERR_CMD_NOT_SUPPORTED out
     else do {
       (h, out, len) \<leftarrow> dispatch P ops h hdr (frame_payload hdr msg) out;
       Some (if 7 < len \<and> failed_status (out ! 7) then record_protocol_error h else h, out, len)
     })"
proof -
  have "unat (10 + dw_length hdr) = 10 + unat (dw_length hdr)"
    using assms(2) by (simp add: unat_word_ariths)
  with assms show ?thesis
    by (auto simp: process_command_def Let_def slice_def record_protocol_error_icc)
qed

lemma is_pin_entry_active_error:
  "is_pin_entry_active (record_protocol_error h) = is_pin_entry_active h"
  by (simp add: is_pin_entry_active_def record_protocol_error_def)

context slot_driver
begin

lemma process_command_good:
  assumes "handler_ok P d_inv h"
  shows "if command_panics h msg then process_command P ops h msg out = None
         else good_answer P d_inv h msg out (process_command P ops h msg out)"
proof (cases "header_parse msg")
  case None
  then show ?thesis by (simp add: command_panics_def good_answer_def process_command_def)
next
  case (Some hdr)
  show ?thesis
  proof (cases "CCID_HEADER_SIZE + unat (dw_length hdr) < 2 ^ 32")
    case False
    with Some show ?thesis by (simp add: command_panics_def process_command_overflow)
  next
    case True
    note eq = process_command_in_range [OF Some True, of P ops h out]
    show ?thesis
    proof (cases "length msg < CCID_HEADER_SIZE + unat (dw_length hdr)")
      case short: True
      with Some True eq assms show ?thesis
        by (simp add: command_panics_def good_answer_def good_dispatchI slot_status_good record_protocol_error_ok)
    next
      case False
      note d = dispatch_good [OF assms, of hdr "frame_payload hdr msg" out]
      show ?thesis
      proof (cases "dispatch P ops h hdr (frame_payload hdr msg) out")
        case None
        with d Some True False eq show ?thesis
          by (auto simp: command_panics_def good_dispatch_def good_reply_def split: if_splits)
      next
        case r: (Some r)
        obtain h' out' n where [simp]: "r = (h', out', n)" using prod_cases3 by blast
        have "good_dispatch P d_inv h hdr (frame_payload hdr msg) out (Some (h', out', n))"
          and np: "\<not> (message_type hdr = PC_TO_RDR_SECURE \<and> secure_panics h (frame_payload hdr msg))"
          using d r by (auto split: if_splits)
        then have "good_dispatch P d_inv h hdr (frame_payload hdr msg) out
            (Some (if 7 < n \<and> b then record_protocol_error h' else h', out', n))" for b
          by (auto simp: good_dispatch_def good_reply_def record_protocol_error_ok)
        with np Some True False eq r show ?thesis
          by (simp add: command_panics_def good_answer_def)
      qed
    qed
  qed
qed

lemma check_card_change_ok:
  assumes "handler_ok P d_inv h" and "check_card_change P ops h = (ev, h')"
  shows "handler_ok P d_inv h'"
proof -
  obtain p nfc where q: "d_poll_card_presence ops (h_nfc h) = (p, nfc)" by fastforce
  have "d_inv nfc" using assms(1) q inv_poll by (auto simp: handler_ok_def)
  with assms q show ?thesis
    by (auto simp: check_card_change_def Let_def handler_ok_def counters_ok_def inv_power_off
        split: if_splits)
qed

lemma transmit_counted_ok:
  assumes "handler_ok P d_inv h" and "transmit_counted ops cmd buf h = (r, buf', h')"
  shows "handler_ok P d_inv h'" and "length buf' = length buf" and "r = Inr n \<Longrightarrow> n \<le> length buf"
proof -
  obtain r1 b1 d1 n1 where c: "count_transmit ops (h_diagnostics h) (h_nfc h) cmd buf = (r1, b1, d1, n1)"
    using prod_cases4 by blast
  have i: "d_inv (h_nfc h)" "counters_ok (h_diagnostics h)" using assms(1) by (auto simp: handler_ok_def)
  note ok = count_transmit_ok [OF i c]
  show "handler_ok P d_inv h'" "length buf' = length buf" "r = Inr n \<Longrightarrow> n \<le> length buf"
    using assms ok c by (auto simp: transmit_counted_def handler_ok_def)
qed

lemma transmit_pin_apdu_ok:
  assumes "handler_ok P d_inv h"
  shows "\<exists>h' out' n. transmit_pin_apdu ops h sq cmd out = Some (h', out', n) \<and> handler_ok P d_inv h'"
proof -
  obtain r buf h1 where t: "transmit_counted ops cmd (replicate 261 0) h = (r, buf, h1)"
    using prod_cases3 by blast
  note ok = transmit_counted_ok [OF assms t]
  have idle: "handler_ok P d_inv (h1\<lparr>h_secure_state := SecureIdle\<rparr>)"
    using ok(1) by (simp add: handler_ok_def)
  have "r = Inr n \<Longrightarrow> slice buf 0 n = Some (take n buf)" for n
    using ok(2,3) by (simp add: slice_prefix)
  with t idle show ?thesis
    by (cases r) (simp_all add: transmit_pin_apdu_def complete_pin_entry_def reply_def)
qed

end

lemma complete_pin_entry_ok:
  assumes "handler_ok P d_inv h" and "complete_pin_entry h sq res resp out = Some (h', out', n)"
  shows "handler_ok P d_inv h'"
  using assms by (auto simp: complete_pin_entry_def reply_def handler_ok_def split: prod.splits)

section \<open>PIN exchanges\<close>

lemma verify_exchange_cases:
  fixes buffer :: pin_buffer and params :: pin_verify_params
  defines "vb \<equiv> verify_from_template (pv_apdu_template params ! 0) (pv_apdu_template params ! 2)
                  (pv_apdu_template params ! 3)"
    and "pin \<equiv> map (\<lambda>d. d + 0x30) (pin_abs buffer)"
  assumes "pin_buffer_ok buffer"
  shows "complete_pin_verify_exchange ops h sq PinSuccess buffer params out =
    (if \<not> verify_accepts vb pin then complete_pin_entry h sq PinInvalidLength None out
     else if length pin \<le> 8
     then transmit_pin_apdu ops h sq
            ([vb_cla vb, 0x20, vb_p1 vb, vb_p2 vb, word_of_nat (length pin)] @ pin) out
     else None)"
proof -
  have len: "length pin = pb_len buffer" "pb_len buffer \<le> 16"
    using assms length_pin_abs by (auto simp: pin_buffer_ok_def)
  have "slice (pin_to_ascii buffer) 0 (pb_len buffer) = Some pin"
    using assms len by (simp add: slice_prefix pin_to_ascii_prefix)
  moreover have "slice (hd @ pin @ z) 0 (5 + pb_len buffer) = Some (hd @ pin)" if "length hd = 5" for hd z
    using len that take_of_append [of "5 + pb_len buffer" "hd @ pin" z] by (simp add: slice_def)
  ultimately show ?thesis
    unfolding complete_pin_verify_exchange_def vb_def [symmetric]
    using len by (auto simp: verify_build_cases Let_def simp del: append_Cons)
qed

lemma modify_exchange_cases:
  fixes old_buffer new_buffer :: pin_buffer and params :: pin_modify_params
  defines "mb \<equiv> modify_from_template (pm_apdu_template params ! 0) (pm_apdu_template params ! 2)
                  (pm_apdu_template params ! 3) (unat (pm_old_pin_offset params))
                  (unat (pm_new_pin_offset params))"
    and "old \<equiv> map (\<lambda>d. d + 0x30) (pin_abs old_buffer)"
    and "new \<equiv> map (\<lambda>d. d + 0x30) (pin_abs new_buffer)"
  assumes "pin_buffer_ok old_buffer" and "pin_buffer_ok new_buffer"
  shows "complete_pin_modify_exchange ops h sq PinSuccess old_buffer new_buffer params out =
    (if \<not> modify_accepts mb old new then complete_pin_entry h sq PinInvalidLength None out
     else if length old + length new \<le> 16
     then transmit_pin_apdu ops h sq
            ([mb_cla mb, 0x24, mb_p1 mb, mb_p2 mb, word_of_nat (length old + length new)] @ old @ new) out
     else None)"
proof -
  have len: "length old = pb_len old_buffer" "pb_len old_buffer \<le> 16"
    "length new = pb_len new_buffer" "pb_len new_buffer \<le> 16"
    using assms length_pin_abs by (auto simp: pin_buffer_ok_def)
  have "slice (pin_to_ascii old_buffer) 0 (pb_len old_buffer) = Some old"
    "slice (pin_to_ascii new_buffer) 0 (pb_len new_buffer) = Some new"
    using assms len by (simp_all add: slice_prefix pin_to_ascii_prefix)
  moreover have "slice (hd @ old @ new @ z) 0 (5 + pb_len old_buffer + pb_len new_buffer)
      = Some (hd @ old @ new)" if "length hd = 5" for hd z
    using len that take_of_append [of "5 + pb_len old_buffer + pb_len new_buffer" "hd @ old @ new" z]
    by (simp add: slice_def)
  ultimately show ?thesis
    unfolding complete_pin_modify_exchange_def mb_def [symmetric]
    using len by (auto simp: modify_build_cases Let_def simp del: append_Cons)
qed

end
