(* ===== verification/Handler_Props.thy ===== *)
theory Handler_Props
  imports Handler_Facts
begin

text \<open>
  The properties of the handler core.  The driver is any implementation of the \<open>slot_driver\<close>
  contract; the witnesses run the repository's scripted driver behind the card adapter.
\<close>

section \<open>Reachable states\<close>

inductive handler_reach ::
    "profile \<Rightarrow> ('d, 'e) driver_ops \<Rightarrow> ('d \<Rightarrow> bool) \<Rightarrow> 'd handler \<Rightarrow> bool"
  for P :: profile and ops :: "('d, 'e) driver_ops" and d_inv :: "'d \<Rightarrow> bool" where
  start: "d_inv d \<Longrightarrow> length fw \<le> 261 \<Longrightarrow> handler_reach P ops d_inv (with_profile P ops d fw pin_pad)"
| fold: "handler_reach P ops d_inv h \<Longrightarrow> handler_reach P ops d_inv (with_diagnostics_fold f h)"
| command: "handler_reach P ops d_inv h \<Longrightarrow> process_command P ops h msg out = Some (h', out', n)
    \<Longrightarrow> handler_reach P ops d_inv h'"
| poll: "handler_reach P ops d_inv h \<Longrightarrow> check_card_change P ops h = (ev, h')
    \<Longrightarrow> handler_reach P ops d_inv h'"
| pin_verify: "handler_reach P ops d_inv h \<Longrightarrow> take_secure_params h = (Some (sq, vp), h1)
    \<Longrightarrow> pin_buffer_ok b \<Longrightarrow> complete_pin_verify_exchange ops h1 sq res b vp out = Some (h', out', n)
    \<Longrightarrow> handler_reach P ops d_inv h'"
| pin_modify: "handler_reach P ops d_inv h \<Longrightarrow> take_secure_modify_params h = (Some (sq, mp), h1)
    \<Longrightarrow> pin_buffer_ok b \<Longrightarrow> pin_buffer_ok b'
    \<Longrightarrow> complete_pin_modify_exchange ops h1 sq res b b' mp out = Some (h', out', n)
    \<Longrightarrow> handler_reach P ops d_inv h'"
| cancel: "handler_reach P ops d_inv h \<Longrightarrow> handler_reach P ops d_inv (cancel_secure h)"
| snapshot: "handler_reach P ops d_inv h \<Longrightarrow> handler_reach P ops d_inv (snd (take_snapshot_request h))"
| reset: "handler_reach P ops d_inv h \<Longrightarrow> handler_reach P ops d_inv (snd (take_card_reset h))"
| params: "handler_reach P ops d_inv h \<Longrightarrow> handler_reach P ops d_inv (snd (take_parameters_accepted h))"
| refresh: "handler_reach P ops d_inv h \<Longrightarrow> handler_reach P ops d_inv (refresh_diagnostics ops ticks h)"
| nak: "handler_reach P ops d_inv h \<Longrightarrow> handler_reach P ops d_inv (record_nak h)"
| driver: "handler_reach P ops d_inv h \<Longrightarrow> d_inv d \<Longrightarrow> handler_reach P ops d_inv (h\<lparr>h_nfc := d\<rparr>)"

lemma with_profile_ok:
  "d_inv d \<Longrightarrow> length fw \<le> 261 \<Longrightarrow> handler_ok P d_inv (with_profile P ops d fw pin_pad)"
  by (simp add: handler_ok_def with_profile_def host_params_ok_def atr_params_default_ok
      counters_ok_def diagnostics_new_def protocol_ok_def)

lemma take_secure_ok:
  assumes "handler_ok P d_inv h"
  shows "handler_ok P d_inv (snd (take_secure_params h))"
    and "handler_ok P d_inv (snd (take_secure_modify_params h))"
  using assms
  by (auto simp: take_secure_params_def take_secure_modify_params_def handler_ok_def
      split: secure_state.split)

lemma bookkeeping_ok [wf_rules]:
  assumes "handler_ok P d_inv h"
  shows "handler_ok P d_inv (cancel_secure h)" "handler_ok P d_inv (snd (take_snapshot_request h))"
    "handler_ok P d_inv (snd (take_card_reset h))"
    "handler_ok P d_inv (snd (take_parameters_accepted h))"
    "handler_ok P d_inv (refresh_diagnostics ops ticks h)" "handler_ok P d_inv (record_nak h)"
    "handler_ok P d_inv (with_diagnostics_fold f h)"
  using assms
  by (simp_all add: handler_ok_def counters_ok_def cancel_secure_def take_snapshot_request_def
      take_card_reset_def take_parameters_accepted_def refresh_diagnostics_def record_nak_def
      with_diagnostics_fold_def)

context slot_driver
begin

lemma command_ok:
  assumes "handler_ok P d_inv h" and "process_command P ops h msg out = Some (h', out', n)"
  shows "handler_ok P d_inv h'"
  using process_command_good [OF assms(1), of msg out] assms
  by (auto simp: good_answer_def good_dispatch_def good_reply_def split: if_splits option.splits)

lemma pin_apdu_keeps:
  assumes "handler_ok P d_inv h" and "transmit_pin_apdu ops h sq cmd out = Some (h', out', n)"
  shows "handler_ok P d_inv h'"
  using transmit_pin_apdu_ok [OF assms(1), of sq cmd out] assms(2) by auto

lemma pin_verify_ok:
  assumes "handler_ok P d_inv h" and "pin_buffer_ok b"
    and "complete_pin_verify_exchange ops h sq res b vp out = Some (h', out', n)"
  shows "handler_ok P d_inv h'"
proof (cases "res = PinSuccess")
  case True
  with assms show ?thesis
    by (auto simp: verify_exchange_cases [OF assms(2)] split: if_splits
        dest: complete_pin_entry_ok pin_apdu_keeps)
next
  case False
  with assms show ?thesis
    by (auto simp: complete_pin_verify_exchange_def dest: complete_pin_entry_ok)
qed

lemma pin_modify_ok:
  assumes "handler_ok P d_inv h" and "pin_buffer_ok b" and "pin_buffer_ok b'"
    and "complete_pin_modify_exchange ops h sq res b b' mp out = Some (h', out', n)"
  shows "handler_ok P d_inv h'"
proof (cases "res = PinSuccess")
  case True
  with assms show ?thesis
    by (auto simp: modify_exchange_cases [OF assms(2,3)] split: if_splits
        dest: complete_pin_entry_ok pin_apdu_keeps)
next
  case False
  with assms show ?thesis
    by (auto simp: complete_pin_modify_exchange_def dest: complete_pin_entry_ok)
qed

lemma reach_ok: "handler_reach P ops d_inv h \<Longrightarrow> handler_ok P d_inv h"
proof (induction rule: handler_reach.induct)
  case (pin_verify h sq vp h1 b res out h' out' n)
  then show ?case using take_secure_ok(1) [OF pin_verify.IH] pin_verify_ok by (metis snd_conv)
next
  case (pin_modify h sq mp h1 b b' res out h' out' n)
  then show ?case using take_secure_ok(2) [OF pin_modify.IH] pin_modify_ok by (metis snd_conv)
next
  case (driver h d)
  then show ?case by (simp add: handler_ok_def)
qed (auto intro: with_profile_ok wf_rules command_ok check_card_change_ok)

end

section \<open>A concrete reader for the witnesses\<close>

abbreviation mock_card :: "bool \<Rightarrow> mock_nfc card_adapter" where
  "mock_card pres \<equiv> adapter_new (mock_new pres [0x3B, 0x80, 0x80, 0x01, 0x01] [0x90, 0x00])"

abbreviation mock_slot_ops :: "(mock_nfc card_adapter, nfc_error) driver_ops" where
  "mock_slot_ops \<equiv> adapter_ops mock_ops (\<lambda>_. 0)"

abbreviation mock_slot_ok :: "mock_nfc card_adapter \<Rightarrow> bool" where
  "mock_slot_ok a \<equiv> mock_ok (ca_driver a)"

lemma mock_slot_driver: "slot_driver mock_slot_ops mock_slot_ok"
  by (rule mock.adapted.slot_driver_axioms)

lemma mock_card_ok: "mock_slot_ok (mock_card b)"
  by (simp add: adapter_new_def mock_new_def mock_ok_def)

lemma mock_reader_ok:
  "handler_ok P mock_slot_ok (with_profile P mock_slot_ops (mock_card b) [] pin_pad)"
  by (rule with_profile_ok) (simp_all add: mock_card_ok)

abbreviation active_reader :: "profile \<Rightarrow> bool \<Rightarrow> mock_nfc card_adapter handler" where
  "active_reader P pin_pad \<equiv>
     (with_profile P mock_slot_ops
        ((mock_card True)\<lparr>ca_driver := (ca_driver (mock_card True))\<lparr>m_session_active := True\<rparr>\<rparr>) []
        pin_pad)\<lparr>h_slot_state := PresentActive, h_presence_state := \<lparr>present = True\<rparr>\<rparr>"

lemma active_reader_ok: "handler_ok P mock_slot_ok (active_reader P pin_pad)"
  using mock_reader_ok [of P True pin_pad]
  by (simp add: handler_ok_def with_profile_def adapter_new_def mock_new_def mock_ok_def
      counters_ok_def)

section \<open>The dispatcher\<close>

text \<open>C3: The dispatcher panics on exactly two kinds of input, in every state that satisfies the
  invariant and for every driver that meets its contract: a declared length within ten bytes of
  2^32, whose frame end wraps around, and a PIN-modify request of 12 to 14 payload bytes on a
  pin-pad reader with an active card.  Every other byte string is processed to an answer.\<close>

theorem process_command_panics_iff:
  assumes "slot_driver ops d_inv" and "handler_ok P d_inv h"
  shows "process_command P ops h msg out = None \<longleftrightarrow> command_panics h msg"
  using slot_driver.process_command_good [OF assms, of msg out]
  by (auto simp: good_answer_def good_dispatch_def good_reply_def split: if_splits option.splits)

theorem process_command_panics_iff_witness:
  "process_command ContactProfile mock_slot_ops
     (with_profile ContactProfile mock_slot_ops (mock_card True) [] False)
     [0x65, 0, 0, 0, 0, 0, 7, 0, 0, 0] (replicate 20 0) \<noteq> None"
  using process_command_panics_iff [OF mock_slot_driver mock_reader_ok,
      of ContactProfile True False "[0x65, 0, 0, 0, 0, 0, 7, 0, 0, 0]" "replicate 20 0"]
  by (simp add: command_panics_def header_parse_def from_le_bytes32_def)

text \<open>C1: Every request that does not panic is answered well-formedly.  Input too short for a header
  changes nothing.  Otherwise the response buffer keeps its length and holds one message with the
  slot and sequence number of the request, whose declared length is the number of bytes reported;
  with a response buffer of at least 281 bytes the answer is missing only when the request is a Secure
  command that opens a PIN session on a pin-pad reader with an active card: then the session carries the
  parameters and the sequence number of the request, nothing else of the handler changes and the buffer
  is untouched.  The invariant holds again afterwards.\<close>

theorem process_command_answers:
  assumes "slot_driver ops d_inv" and "handler_ok P d_inv h"
    and "process_command P ops h msg out = Some (h', out', n)"
  shows "(case header_parse msg of
            None \<Rightarrow> h' = h \<and> out' = out \<and> n = 0
          | Some hdr \<Rightarrow>
              handler_ok P d_inv h' \<and> length out' = length out \<and>
              (if n = 0
               then out' = out \<and> (length out < 281 \<or> opens_pin_session h hdr (frame_payload hdr msg) h')
               else answers_request hdr out' n))"
  using slot_driver.process_command_good [OF assms(1,2), of msg out] assms(3)
  by (auto simp: good_answer_def good_dispatch_def good_reply_def split: if_splits option.splits)

theorem process_command_answers_witness:
  "answers_request \<lparr>message_type = 0x62, dw_length = 0, slot = 0, seq = 7, specific = (0, 0, 0)\<rparr>
     (fst (snd (the (process_command ContactProfile mock_slot_ops
       (with_profile ContactProfile mock_slot_ops (mock_card True) [] False)
       [0x62, 0, 0, 0, 0, 0, 7, 0, 0, 0] (replicate 300 0))))) 15"
proof -
  let ?m = "[0x62, 0, 0, 0, 0, 0, 7, 0, 0, 0] :: bytes"
  let ?R = "process_command ContactProfile mock_slot_ops
       (with_profile ContactProfile mock_slot_ops (mock_card True) [] False) ?m (replicate 300 0)"
  have n: "map_option (snd \<circ> snd) ?R = Some 15" by code_simp
  then obtain h' out' where r: "?R = Some (h', out', 15)" by auto
  have "header_parse ?m =
      Some \<lparr>message_type = 0x62, dw_length = 0, slot = 0, seq = 7, specific = (0, 0, 0)\<rparr>"
    by code_simp
  with process_command_answers [OF mock_slot_driver mock_reader_ok r] r show ?thesis by simp
qed

text \<open>C2: Every state the handler can reach from construction, by commands, presence polls, PIN
  completions, event consumption and driver changes in any order, satisfies the invariant: the
  staging buffer keeps its 271 bytes, stored host parameters are seven bytes for protocol 0 or 1,
  no more card answers are counted than card transfers, a PIN session is armed only on a pin-pad
  reader, and the active protocol is one the profile knows.\<close>

theorem handler_reach_invariant:
  assumes "slot_driver ops d_inv" and "handler_reach P ops d_inv h"
  shows "handler_ok P d_inv h"
  by (rule slot_driver.reach_ok [OF assms])

theorem handler_reach_invariant_witness:
  "handler_ok SerialNfcProfile mock_slot_ok
     (record_nak (with_profile SerialNfcProfile mock_slot_ops (mock_card True) [0x31] False))"
  by (rule handler_reach_invariant [OF mock_slot_driver])
    (rule handler_reach.nak, rule handler_reach.start, simp_all add: mock_card_ok)

section \<open>Error accounting\<close>

lemma reply_defs: "message h hdr mt st err sp data out = Some (h', out', n) \<Longrightarrow> h' = h"
  "slot_status h hdr icc st err out = Some (h', out', n) \<Longrightarrow> h' = h"
  "escape_answer h hdr st data out = Some (h', out', n) \<Longrightarrow> h' = h"
  "secure_not_supported P h hdr out = Some (h', out', n) \<Longrightarrow> h' = h"
  "write_sw h hdr data out = Some (h', out', n) \<Longrightarrow> h' = h"
  "write_parameters P h hdr out = Some (h', out', n) \<Longrightarrow> h' = h"
  by (auto simp: message_def reply_def slot_status_def escape_answer_def secure_not_supported_def
      write_sw_def write_parameters_def Let_def split: if_splits prod.splits bind_splits)

lemma count_transmit_errors:
  "count_transmit ops diag nfc cmd buf = (r, buf', diag', nfc') \<Longrightarrow>
     error_count diag' = error_count diag"
  by (auto simp: count_transmit_def Let_def split: prod.splits sum.splits)

lemma power_on_errors:
  "handle_power_on P ops h hdr out = Some (h', out', n) \<Longrightarrow> h_diagnostics h' = h_diagnostics h"
  by (auto simp: handle_power_on_def handle_power_on_contact_def Let_def
      split: if_splits prod.splits sum.splits bind_splits dest!: reply_defs)

lemma xfr_errors:
  assumes "handle_xfr_block P ops h hdr apdu out = Some (h', out', n)"
  shows "error_count (h_diagnostics h') = error_count (h_diagnostics h)"
proof -
  have "apdu_pipeline P ops h hdr apdu out = Some (h', out', n) \<Longrightarrow> ?thesis"
    by (auto simp: apdu_pipeline_def answer_get_uid_def Let_def count_transmit_errors
        split: if_splits prod.splits sum.splits bind_splits option.splits dest!: reply_defs)
  moreover have "handle_xfr_block_contact ops h hdr apdu out = Some (h', out', n) \<Longrightarrow> ?thesis"
    by (auto simp: handle_xfr_block_contact_def Let_def count_transmit_errors data_block_message
        split: if_splits prod.splits sum.splits bind_splits option.splits dest!: reply_defs)
  ultimately show ?thesis
    using assms by (auto simp: handle_xfr_block_def split: if_splits dest!: reply_defs)
qed

lemma params_errors:
  "handle_set_parameters P h hdr payload out = Some (h', out', n) \<Longrightarrow> h_diagnostics h' = h_diagnostics h"
  "handle_reset_parameters P h hdr out = Some (h', out', n) \<Longrightarrow> h_diagnostics h' = h_diagnostics h"
  by (auto simp: handle_set_parameters_def handle_set_parameters_contact_def
      handle_reset_parameters_def Let_def split: if_splits dest!: reply_defs)

lemma escape_secure_errors:
  "handle_escape P h hdr payload out = Some (h', out', n) \<Longrightarrow> h_diagnostics h' = h_diagnostics h"
  "handle_secure P h hdr payload out = Some (h', out', n) \<Longrightarrow> h_diagnostics h' = h_diagnostics h"
  by (auto simp: handle_escape_def handle_secure_def Let_def
      split: if_splits option.splits list.splits bind_splits dest!: reply_defs)

lemma dispatch_errors:
  "dispatch P ops h hdr payload out = Some (h', out', n) \<Longrightarrow>
     error_count (h_diagnostics h') = error_count (h_diagnostics h)"
  unfolding dispatch_def Let_def
  by (simp split: if_splits add: power_on_errors params_errors escape_secure_errors xfr_errors)
    (auto simp: handle_power_off_def handle_get_slot_status_def Let_def split: if_splits
      dest!: reply_defs)

text \<open>The error counter of Escape 0xD0 advances by one (saturating) for exactly those requests
  whose answer carries the FAILED command status, truncated frames included, and never
  otherwise.\<close>

theorem process_command_counts_failures:
  assumes "10 \<le> length out" and "process_command P ops h msg out = Some (h', out', n)"
  shows "error_count (h_diagnostics h') =
    (if 7 < n \<and> failed_status (out' ! 7) then saturating_add32 (error_count (h_diagnostics h)) 1
     else error_count (h_diagnostics h))"
proof (cases "header_parse msg")
  case None
  with assms(2) show ?thesis by (simp add: process_command_def)
next
  case (Some hdr)
  have rng: "CCID_HEADER_SIZE + unat (dw_length hdr) < 2 ^ 32"
  proof (rule ccontr)
    assume "\<not> ?thesis"
    with process_command_overflow [OF Some, of P ops h out] assms(2) show False by simp
  qed
  note eq = process_command_in_range [OF Some rng, of P ops h out]
  show ?thesis
  proof (cases "length msg < CCID_HEADER_SIZE + unat (dw_length hdr)")
    case True
    with eq assms have w: "write_message 0x81 (slot hdr) (seq hdr)
        (build_bstatus 1 (current_icc_status h)) 0 0 [] out = (out', n)"
      and h': "h' = record_protocol_error h"
      by (auto simp: slot_status_message message_def reply_def)
    have "message_at out' n 0x81 (slot hdr) (seq hdr) (build_bstatus 1 (current_icc_status h)) 0 0 []"
      using write_message_at [OF _ w] assms(1) by simp
    then have "out' ! 7 = build_bstatus 1 (current_icc_status h)" "7 < n"
      by (rule message_at_nth)+
    then show ?thesis
      using h' build_bstatus_failed(1) by (simp add: record_protocol_error_def)
  next
    case False
    with eq assms(2) show ?thesis
      by (auto simp: record_protocol_error_def split: bind_splits dest!: dispatch_errors)
  qed
qed

theorem process_command_counts_failures_witness:
  "error_count (h_diagnostics (fst (the (process_command SerialNfcProfile mock_slot_ops
     (with_profile SerialNfcProfile mock_slot_ops (mock_card False) [] False)
     [0x62, 0, 0, 0, 0, 0, 7, 0, 0, 0] (replicate 20 0))))) = 1"
proof -
  let ?m = "[0x62, 0, 0, 0, 0, 0, 7, 0, 0, 0] :: bytes"
  let ?h = "with_profile SerialNfcProfile mock_slot_ops (mock_card False) [] False"
  let ?R = "process_command SerialNfcProfile mock_slot_ops ?h ?m (replicate 20 0)"
  have n: "map_option (\<lambda>r. (snd (snd r), failed_status (fst (snd r) ! 7))) ?R = Some (10, True)"
    by code_simp
  then obtain h' out' where r: "?R = Some (h', out', 10)" and f: "failed_status (out' ! 7)" by auto
  have "error_count (h_diagnostics ?h) = 0"
    by (simp add: with_profile_def diagnostics_new_def)
  with process_command_counts_failures [OF _ r] r f show ?thesis by (simp add: saturating_add32_def)
qed

end
