(* ===== verification/Handler_Commands.thy ===== *)
theory Handler_Commands
  imports Handler_Props
begin

text \<open>
  What the individual commands of the handler core do: APDU relay, local answers, the parameter
  commands, power-off, card removal, the PIN exchanges, and the reader that runs on the stand-in
  driver.
\<close>

section \<open>Messages in a large enough buffer\<close>

lemma message_written:
  assumes "message h hdr mt st err sp data out = Some (h', out', n)"
    and "length data \<le> 271" and "281 \<le> length out"
  shows "h' = h \<and> message_at out' n mt (slot hdr) (seq hdr) st err sp data"
  using assms write_message_at [of data out mt "slot hdr" "seq hdr" st err sp out' n]
  by (auto simp: message_def reply_def)

section \<open>APDU relay\<close>

definition reaches_card :: "profile \<Rightarrow> bytes \<Rightarrow> bool" where
  "reaches_card P apdu \<longleftrightarrow>
     \<not> is_pps_request apdu \<and>
     (if CONTACT P then length apdu \<le> 261
      else \<not> (PSEUDO_APDUS P \<and> 4 \<le> length apdu \<and> apdu ! 0 = 0xFF))"

lemma xfr_block_relay_form:
  assumes "h_slot_state h = PresentActive" and "reaches_card P apdu"
    and "count_transmit ops (h_diagnostics h) (h_nfc h) apdu (h_tx_buf h) = (r, buf, diag, nfc)"
  shows "handle_xfr_block P ops h hdr apdu out =
    (let h = h\<lparr>h_nfc := nfc, h_tx_buf := buf, h_diagnostics := diag\<rparr> in
     case r of
       Inr k \<Rightarrow> do { data \<leftarrow> slice buf 0 k; message h hdr RDR_TO_PC_DATABLOCK 0 0 0 data out }
     | Inl e \<Rightarrow>
         let h = (if CONTACT P then h else h\<lparr>h_slot_state := PresentInactive\<rparr>)
         in message h hdr RDR_TO_PC_DATABLOCK
              (build_bstatus COMMAND_STATUS_FAILED (current_icc_status h))
              (xfr_failure_b_error (d_xfr_error_class ops nfc e)) 0 [] out)"
  using assms
  by (auto simp: handle_xfr_block_def handle_xfr_block_contact_def apdu_pipeline_def reaches_card_def
      Let_def data_block_message current_icc_status_def build_bstatus_def get_opt_def
      split: sum.split if_splits)



lemma pps_short: "is_pps_request apdu \<Longrightarrow> length apdu \<le> 271"
  by (auto simp: is_pps_request_def split: if_splits)

lemma get_uid_apdu:
  assumes "take 4 apdu = [0xFF, 0xCA, 0, 0 :: u8]"
  shows "\<not> is_pps_request apdu \<and> 4 \<le> length apdu \<and> apdu ! 0 = 0xFF \<and> apdu ! 1 = 0xCA
            \<and> apdu ! 2 = 0 \<and> apdu ! 3 = 0"
proof -
  obtain rest where "apdu = [0xFF, 0xCA, 0, 0] @ rest"
    using append_take_drop_id [of 4 apdu] assms by metis
  then show ?thesis by (simp add: is_pps_request_def)
qed

lemma two_status_bytes:
  assumes "length uid + 2 \<le> length tx"
  shows "(uid @ drop (length uid) tx)[length uid := a, Suc (length uid) := b]
           = uid @ [a, b] @ drop (length uid + 2) tx"
proof -
  let ?n = "length uid"
  have r: "drop ?n tx = tx ! ?n # tx ! Suc ?n # drop (?n + 2) tx"
    using assms by (simp add: Cons_nth_drop_Suc)
  with r show ?thesis by (simp add: list_update_append)
qed

context slot_driver
begin

lemma get_uid_answer:
  assumes "handler_ok P d_inv h" and "d_card_uid ops (h_nfc h) = Some uid"
  shows "\<exists>tx. answer_get_uid ops h hdr out =
    message (h\<lparr>h_tx_buf := tx\<rparr>) hdr RDR_TO_PC_DATABLOCK 0 0 0 (uid @ [0x90, 0x00]) out"
proof -
  have l: "length uid + 2 \<le> length (h_tx_buf h)"
    using assms uid_room by (auto simp: handler_ok_def)
  then show ?thesis using assms(2)
    by (intro exI [of _ "uid @ [0x90, 0x00] @ drop (length uid + 2) (h_tx_buf h)"])
      (simp add: answer_get_uid_def copy_at_0 idx_def Let_def two_status_bytes slice_def build_bstatus_def)
qed

lemma get_uid_local:
  assumes "handler_ok P d_inv h" and "281 \<le> length out"
    and "answer_get_uid ops h hdr out = Some (h', out', n)"
  shows "h_nfc h' = h_nfc h \<and> h_diagnostics h' = h_diagnostics h \<and> h_slot_state h' = h_slot_state h \<and>
    message_at out' n RDR_TO_PC_DATABLOCK (slot hdr) (seq hdr) 0 0 0
      (case d_card_uid ops (h_nfc h) of Some uid \<Rightarrow> uid @ [0x90, 0x00] | None \<Rightarrow> [0x63, 0x00])"
proof (cases "d_card_uid ops (h_nfc h)")
  case None
  with assms(3) have "message h hdr 0x80 0 0 0 [0x63, 0x00] out = Some (h', out', n)"
    by (simp add: answer_get_uid_def write_sw_def build_bstatus_def)
  from message_written [OF this _ assms(2)] None show ?thesis by simp
next
  case (Some u)
  with get_uid_answer [OF assms(1) Some, of hdr out] assms(3) obtain tx where
    m: "message (h\<lparr>h_tx_buf := tx\<rparr>) hdr 0x80 0 0 0 (u @ [0x90, 0x00]) out = Some (h', out', n)"
    by auto
  have "length (u @ [0x90, 0x00]) \<le> 271"
    using uid_room [OF _ Some] assms(1) by (simp add: handler_ok_def)
  from message_written [OF m this assms(2)] Some show ?thesis by simp
qed

lemma pseudo_apdu_local:
  assumes "handler_ok P d_inv h" and "281 \<le> length out" and "\<not> CONTACT P"
    and "h_slot_state h = PresentActive" and "\<not> reaches_card P apdu" and "\<not> is_pps_request apdu"
    and "handle_xfr_block P ops h hdr apdu out = Some (h', out', n)"
  shows "h_nfc h' = h_nfc h \<and> h_diagnostics h' = h_diagnostics h \<and> h_slot_state h' = h_slot_state h \<and>
    (take 4 apdu = [0xFF, 0xCA, 0, 0] \<longrightarrow>
       message_at out' n RDR_TO_PC_DATABLOCK (slot hdr) (seq hdr) 0 0 0
         (case d_card_uid ops (h_nfc h) of Some uid \<Rightarrow> uid @ [0x90, 0x00] | None \<Rightarrow> [0x63, 0x00]))"
proof -
  have "PSEUDO_APDUS P" "4 \<le> length apdu" "get_opt apdu 0 = Some 0xFF"
    using assms(3-6) by (auto simp: reaches_card_def get_opt_def)
  then have eq: "(if apdu ! 1 = 0xCA \<and> apdu ! 2 = 0 \<and> apdu ! 3 = 0 then answer_get_uid ops h hdr out
       else write_sw h hdr (if apdu ! 1 = 0xCA then [0x6A, 0x86] else [0x63, 0x00]) out)
      = Some (h', out', n)"
    using assms(3-7) by (auto simp: handle_xfr_block_def apdu_pipeline_def split: if_splits)
  show ?thesis
  proof (cases "apdu ! 1 = 0xCA \<and> apdu ! 2 = 0 \<and> apdu ! 3 = 0")
    case True
    with eq get_uid_local [OF assms(1,2)] show ?thesis by simp
  next
    case False
    then have "take 4 apdu \<noteq> [0xFF, 0xCA, 0, 0]" using get_uid_apdu by blast
    moreover have "h' = h" using eq False reply_defs(5) by metis
    ultimately show ?thesis by simp
  qed
qed

end

text \<open>Commands the reader answers itself never touch the card: unless the slot is active and the
  command is one to relay, a transfer leaves the driver state, every counter and the slot state as
  they were.  On an active contactless slot GET UID answers the cached UID followed by 90 00, or
  63 00 when none is known.\<close>

theorem xfr_block_local:
  assumes "slot_driver ops d_inv" and "handler_ok P d_inv h" and "281 \<le> length out"
    and "\<not> (h_slot_state h = PresentActive \<and> reaches_card P apdu)"
    and "handle_xfr_block P ops h hdr apdu out = Some (h', out', n)"
  shows "h_nfc h' = h_nfc h \<and> h_diagnostics h' = h_diagnostics h \<and> h_slot_state h' = h_slot_state h \<and>
    (if h_slot_state h = PresentActive \<and> P = SerialNfcProfile \<and> take 4 apdu = [0xFF, 0xCA, 0, 0]
     then message_at out' n RDR_TO_PC_DATABLOCK (slot hdr) (seq hdr) 0 0 0
            (case d_card_uid ops (h_nfc h) of Some uid \<Rightarrow> uid @ [0x90, 0x00] | None \<Rightarrow> [0x63, 0x00])
     else if h_slot_state h = PresentActive \<and> length apdu \<le> 261 \<and> is_pps_request apdu
     then message_at out' n RDR_TO_PC_DATABLOCK (slot hdr) (seq hdr) 0 0 0 apdu
     else True)"
proof (cases "h_slot_state h = PresentActive")
  case False
  with assms(5) show ?thesis
    by (auto simp: handle_xfr_block_def handle_xfr_block_contact_def split: if_splits
        dest!: reply_defs)
next
  case active: True
  consider "CONTACT P" | "\<not> CONTACT P" "is_pps_request apdu" | "\<not> CONTACT P" "\<not> is_pps_request apdu"
    by blast
  then show ?thesis
  proof cases
    case 1
    then have "P \<noteq> SerialNfcProfile" by (auto simp: SerialNfcProfile_def)
    with 1 active assms(4,5) show ?thesis
      by (auto simp: handle_xfr_block_def handle_xfr_block_contact_def reaches_card_def
          build_bstatus_def split: if_splits
          dest!: reply_defs(2) dest: message_written [OF _ _ assms(3)])
  next
    case 2
    with active assms(5) get_uid_apdu [of apdu] show ?thesis
      by (auto simp: handle_xfr_block_def apdu_pipeline_def build_bstatus_def
          dest!: message_written [OF _ pps_short assms(3)])
  next
    case 3
    have "\<not> reaches_card P apdu" using active assms(4) by blast
    from slot_driver.pseudo_apdu_local [OF assms(1-3) 3(1) active this 3(2) assms(5)] 3 show ?thesis
      by auto
  qed
qed

theorem xfr_block_local_witness:
  "\<exists>h' out' n.
     handle_xfr_block SerialNfcProfile mock_slot_ops (active_reader SerialNfcProfile False)
       \<lparr>message_type = 0x6F, dw_length = 5, slot = 0, seq = 9, specific = (0, 0, 0)\<rparr>
       [0xFF, 0xCA, 0, 0, 0] (replicate 300 0) = Some (h', out', n) \<and>
     message_at out' n 0x80 0 9 0 0 0 [0x63, 0x00]"
proof -
  let ?h = "active_reader SerialNfcProfile False"
  let ?hdr = "\<lparr>message_type = 0x6F, dw_length = 5, slot = 0, seq = 9, specific = (0, 0, 0)\<rparr>"
  note ok = active_reader_ok [of SerialNfcProfile False]
  obtain h' out' n where r: "handle_xfr_block SerialNfcProfile mock_slot_ops ?h ?hdr
      [0xFF, 0xCA, 0, 0, 0] (replicate 300 0) = Some (h', out', n)"
    using slot_driver.xfr_block_good [OF mock_slot_driver ok,
        of ?hdr "replicate 300 0" "[0xFF, 0xCA, 0, 0, 0]"]
    by (auto simp: good_reply_def split: option.splits)
  have l: "\<not> (h_slot_state ?h = PresentActive \<and> reaches_card SerialNfcProfile [0xFF, 0xCA, 0, 0, 0])"
    by (simp add: reaches_card_def SerialNfcProfile_def)
  have u: "d_card_uid mock_slot_ops (h_nfc ?h) = None"
    by (simp add: adapter_ops_def mock_ops_def with_profile_def adapter_new_def mock_new_def)
  show ?thesis using xfr_block_local [OF mock_slot_driver ok _ l r] r u by simp
qed

section \<open>Parameters\<close>

definition contact_set_accepted :: "ccid_header \<Rightarrow> bytes \<Rightarrow> bool" where
  "contact_set_accepted hdr payload \<longleftrightarrow>
     (length payload = 5 \<or> length payload = 7) \<and>
     contact_params_valid (specific0 hdr) (if length payload = 5 then 0 else 1)
       (payload @ replicate (7 - length payload) 0)"

lemma set_parameters_contact_cases:
  assumes "CONTACT P" and "length payload = unat (dw_length hdr)"
  shows "handle_set_parameters P h hdr payload out =
    (if contact_set_accepted hdr payload then
       let raw = payload @ replicate (7 - length payload) 0
       in write_parameters P
            (h\<lparr>h_current_protocol := specific0 hdr, h_host_params := Some (specific0 hdr, raw),
               h_parameters_accepted_event := True,
               h_atr_params := apply_host_params (specific0 hdr) raw (h_atr_params h)\<rparr>) hdr out
     else if length payload = 5 \<or> length payload = 7
     then message h hdr RDR_TO_PC_PARAMETERS
            (build_bstatus COMMAND_STATUS_FAILED (current_icc_status h)) 0x08 0 [] out
     else slot_status h hdr (current_icc_status h) COMMAND_STATUS_FAILED 0x07 out)"
  using assms
  by (auto simp: handle_set_parameters_def handle_set_parameters_contact_def contact_set_accepted_def
      Let_def)

lemma accepted_protocol_length:
  "contact_set_accepted hdr payload \<Longrightarrow>
     (if specific0 hdr = 1 then 7 else 5) = length payload"
  by (auto simp: contact_set_accepted_def contact_params_valid_def split: if_splits)

lemma failed_message_status:
  assumes "message h hdr mt (build_bstatus COMMAND_STATUS_FAILED icc) err sp [] out = Some (h', out', n)"
    and "281 \<le> length out"
  shows "h' = h \<and> failed_status (out' ! 7)"
  using message_written [OF assms(1) _ assms(2)] message_at_nth(4) build_bstatus_failed(1) by auto

text \<open>SetParameters on a contact reader either accepts or changes nothing.  When it accepts, the
  next GetParameters, whatever request carries it, returns the bytes the host sent and the
  protocol it asked for, and the wire timing handed to the USART is computed from those bytes;
  when it refuses, the state is unchanged and the answer is FAILED.\<close>

theorem set_parameters_echo:
  assumes "CONTACT P" and "length payload = unat (dw_length hdr)" and "281 \<le> length out"
    and "281 \<le> length out2" and "\<not> h_parameters_accepted_event h"
    and "handle_set_parameters P h hdr payload out = Some (h1, out1, n1)"
    and "write_parameters P h1 hdr2 out2 = Some (h2, out2', n2)"
  shows "if h_parameters_accepted_event h1
         then message_at out2' n2 RDR_TO_PC_PARAMETERS (slot hdr2) (seq hdr2)
                (icc_status (h_slot_state h)) 0 (specific0 hdr) payload \<and>
              accepted_contact_timing h1 =
                Some \<lparr>cw_fi = fi_from_ta1_high (drop_bit 4 (payload ! 0)),
                      cw_di = di_from_ta1_low (payload ! 0 AND 0x0F),
                      cw_guard_time_n = payload ! 2, cw_protocol = specific0 hdr\<rparr>
         else h1 = h \<and> failed_status (out1 ! 7)"
proof (cases "contact_set_accepted hdr payload")
  case False
  with assms(6) have "h1 = h \<and> failed_status (out1 ! 7)"
    by (auto simp: set_parameters_contact_cases [OF assms(1,2)] slot_status_message split: if_splits
        dest!: failed_message_status [OF _ assms(3)])
  with assms(5) show ?thesis by simp
next
  case True
  define raw where "raw = payload @ replicate (7 - length payload) 0"
  have h1: "h1 = h\<lparr>h_current_protocol := specific0 hdr, h_host_params := Some (specific0 hdr, raw),
      h_parameters_accepted_event := True,
      h_atr_params := apply_host_params (specific0 hdr) raw (h_atr_params h)\<rparr>"
    using assms(6) True
    by (auto simp: set_parameters_contact_cases [OF assms(1,2)] raw_def Let_def dest!: reply_defs(6))
  have len: "5 \<le> length payload" "length payload \<le> 7"
    using True by (auto simp: contact_set_accepted_def)
  have "parameter_payload P h1 = (raw, length payload, specific0 hdr)"
    using assms(1) h1 accepted_protocol_length [OF True]
    by (simp add: parameter_payload_def Let_def)
  moreover have "slice raw 0 (length payload) = Some payload"
    using len by (simp add: slice_def raw_def)
  ultimately have "message h1 hdr2 RDR_TO_PC_PARAMETERS
      (build_bstatus COMMAND_STATUS_NO_ERROR (current_icc_status h1)) 0 (specific0 hdr) payload out2
      = Some (h2, out2', n2)"
    using assms(7) by (simp add: write_parameters_def)
  from message_written [OF this _ assms(4)] len h1 show ?thesis
    by (auto simp: accepted_contact_timing_def current_icc_status_def raw_def nth_append)
qed

abbreviation set_t0_request :: ccid_header where
  "set_t0_request \<equiv> \<lparr>message_type = 0x61, dw_length = 5, slot = 0, seq = 1, specific = (0, 0, 0)\<rparr>"

theorem set_parameters_echo_witness:
  "\<exists>h1 out1 n1 h2 out2 n2.
     handle_set_parameters ContactProfile (active_reader ContactProfile False) set_t0_request
       [0x18, 0, 2, 10, 0] (replicate 300 0) = Some (h1, out1, n1) \<and>
     write_parameters ContactProfile h1 set_t0_request (replicate 300 0) = Some (h2, out2, n2) \<and>
     message_at out2 n2 0x82 0 1 0 0 0 [0x18, 0, 2, 10, 0]"
proof -
  let ?h = "active_reader ContactProfile False"
  note ok = active_reader_ok [of ContactProfile False]
  obtain h1 out1 n1 where r: "handle_set_parameters ContactProfile ?h set_t0_request
      [0x18, 0, 2, 10, 0] (replicate 300 0) = Some (h1, out1, n1)" and ok1: "handler_ok ContactProfile mock_slot_ok h1"
    using set_parameters_good [OF ok, of set_t0_request "replicate 300 0" "[0x18, 0, 2, 10, 0]"]
    by (auto simp: good_reply_def split: option.splits)
  obtain h2 out2 n2 where g: "write_parameters ContactProfile h1 set_t0_request (replicate 300 0)
      = Some (h2, out2, n2)"
    using write_parameters_good [OF ok1, of set_t0_request "replicate 300 0"]
    by (auto simp: good_reply_def split: option.splits)
  have "contact_set_accepted set_t0_request [0x18, 0, 2, 10, 0]"
    by (simp add: contact_set_accepted_def contact_params_valid_def specific0_def)
  then have "h_parameters_accepted_event h1"
    using r by (auto simp: set_parameters_contact_cases ContactProfile_def Let_def dest!: reply_defs(6))
  then show ?thesis
    using set_parameters_echo [OF _ _ _ _ _ r g] r g
    by (simp add: ContactProfile_def with_profile_def specific0_def)
qed

text \<open>GetParameters and SetParameters disagree on the checksum bit.  For a T=1 card with CRC whose
  parameters come from its ATR, GetParameters reports bmTCCKST1 = 0x10, and SetParameters refuses
  that very structure, because it only admits bit 0.\<close>

theorem get_parameters_crc_not_settable:
  assumes "CONTACT P" and "h_host_params h = None" and "h_current_protocol h = 1"
    and "ap_edc_type (h_atr_params h) = 1"
  shows "\<exists>raw. parameter_payload P h = (raw, 7, 1) \<and> raw ! 1 = 0x10 \<and> \<not> contact_params_valid 1 1 raw"
  using assms by (auto simp: parameter_payload_def Let_def contact_params_valid_def)

theorem get_parameters_crc_not_settable_witness:
  "\<exists>raw. parameter_payload ContactProfile
     ((active_reader ContactProfile False)\<lparr>h_current_protocol := 1,
        h_atr_params := atr_params_default\<lparr>ap_edc_type := 1\<rparr>\<rparr>) = (raw, 7, 1) \<and>
     \<not> contact_params_valid 1 1 raw"
  using get_parameters_crc_not_settable [of ContactProfile
      "(active_reader ContactProfile False)\<lparr>h_current_protocol := 1,
        h_atr_params := atr_params_default\<lparr>ap_edc_type := 1\<rparr>\<rparr>"]
  by (auto simp: ContactProfile_def with_profile_def)

section \<open>Power-off and presence\<close>

text \<open>After IccPowerOff on an empty slot the reader claims a card.  Whatever the profile, the
  command leaves the slot state present-inactive, and as long as the driver keeps reporting no
  card, presence polls neither report a change nor correct it, so GetSlotStatus goes on answering
  present-inactive.\<close>

theorem power_off_empty_slot_claims_card:
  assumes "\<not> present (h_presence_state h)" and "handle_power_off P ops h hdr out = Some (h1, out1, n)"
    and "\<not> d_session_active ops (h_nfc h1)"
    and "d_poll_card_presence ops (h_nfc h1) = (\<lparr>present = False\<rparr>, nfc)"
    and "check_card_change P ops h1 = (ev, h2)"
  shows "ev = None \<and> h_slot_state h2 = PresentInactive \<and> \<not> present (h_presence_state h2)"
proof -
  have "h_slot_state h1 = PresentInactive" "\<not> present (h_presence_state h1)"
    using assms(1,2) by (auto simp: handle_power_off_def Let_def dest!: reply_defs split: if_splits)
  with assms(3-5) show ?thesis by (auto simp: check_card_change_def Let_def)
qed

abbreviation get_status_request :: ccid_header where
  "get_status_request \<equiv> \<lparr>message_type = 0x65, dw_length = 0, slot = 0, seq = 0, specific = (0, 0, 0)\<rparr>"

theorem power_off_empty_slot_claims_card_witness:
  "h_slot_state (snd (check_card_change SerialNfcProfile mock_slot_ops
     (fst (the (handle_power_off SerialNfcProfile mock_slot_ops
        (with_profile SerialNfcProfile mock_slot_ops (mock_card False) [] False)
        get_status_request (replicate 20 0)))))) = PresentInactive"
proof -
  let ?h = "with_profile SerialNfcProfile mock_slot_ops (mock_card False) [] False"
  obtain h1 out1 n where r: "handle_power_off SerialNfcProfile mock_slot_ops ?h get_status_request
      (replicate 20 0) = Some (h1, out1, n)"
    using slot_driver.power_off_good [OF mock_slot_driver mock_reader_ok,
        of SerialNfcProfile get_status_request "replicate 20 0" False False]
    by (auto simp: good_reply_def split: option.splits)
  have d: "ca_driver (h_nfc h1) = mock_power_off (ca_driver (mock_card False))"
    using r by (auto simp: handle_power_off_def Let_def with_profile_def adapter_ops_def mock_ops_def
        trait_defaults_def SerialNfcProfile_def dest!: reply_defs)
  obtain ev h2 where c: "check_card_change SerialNfcProfile mock_slot_ops h1 = (ev, h2)" by fastforce
  have s: "\<not> d_session_active mock_slot_ops (h_nfc h1)"
    and q: "fst (d_poll_card_presence mock_slot_ops (h_nfc h1)) = \<lparr>present = False\<rparr>"
    using d by (simp_all add: adapter_ops_def mock_defs adapter_new_def mock_new_def)
  from q have q': "d_poll_card_presence mock_slot_ops (h_nfc h1) =
      (\<lparr>present = False\<rparr>, snd (d_poll_card_presence mock_slot_ops (h_nfc h1)))"
    by (metis prod.collapse)
  have "\<not> present (h_presence_state ?h)" by (simp add: with_profile_def)
  from power_off_empty_slot_claims_card [OF this r s q' c] r c show ?thesis by simp
qed

text \<open>Card movement.  A poll that finds no open session reports an event exactly when the presence
  flips, or when a contactless reader believed the card active; the event tells the polled
  presence, and the slot state then agrees with it: absent without a card, inactive with one.
  Removal on a contact reader also powers the driver off and drops an armed PIN session.\<close>

theorem check_card_change_correct:
  assumes "\<not> d_session_active ops (h_nfc h)" and "d_poll_card_presence ops (h_nfc h) = (p, nfc)"
    and "check_card_change P ops h = (ev, h')"
  shows "(ev \<noteq> None \<longleftrightarrow> present p \<noteq> present (h_presence_state h) \<or>
            (\<not> CONTACT P \<and> h_slot_state h = PresentActive \<and> present p)) \<and>
    card_present (h_diagnostics h') = present p \<and>
    (case ev of
       None \<Rightarrow> h_slot_state h' = h_slot_state h \<and> h_presence_state h' = h_presence_state h
     | Some b \<Rightarrow> b = present p \<and> h_presence_state h' = p \<and>
         h_slot_state h' = (if b then PresentInactive else Absent) \<and>
         (if CONTACT P \<and> \<not> b
          then h_nfc h' = d_power_off ops nfc \<and> h_secure_state h' = SecureIdle
          else h_nfc h' = nfc \<and> h_secure_state h' = h_secure_state h))"
  using assms by (auto simp: check_card_change_def Let_def split: if_splits)

theorem check_card_change_correct_witness:
  "\<exists>h'. check_card_change SerialNfcProfile mock_slot_ops
          (with_profile SerialNfcProfile mock_slot_ops (mock_card True) [] False) = (Some True, h') \<and>
        h_slot_state h' = PresentInactive"
proof -
  let ?h = "with_profile SerialNfcProfile mock_slot_ops (mock_card True) [] False"
  obtain p nfc where q: "d_poll_card_presence mock_slot_ops (h_nfc ?h) = (p, nfc)" by fastforce
  obtain ev h' where c: "check_card_change SerialNfcProfile mock_slot_ops ?h = (ev, h')" by fastforce
  have p: "present p" and s: "\<not> d_session_active mock_slot_ops (h_nfc ?h)"
    and b: "\<not> present (h_presence_state ?h)"
    using q by (auto simp: adapter_ops_def mock_defs with_profile_def adapter_new_def mock_new_def)
  from check_card_change_correct [OF s q c] p b c show ?thesis by (auto split: option.splits)
qed

end
