(* ===== verification/Handler_Pin.thy ===== *)
theory Handler_Pin
  imports Handler_Commands
begin

text \<open>
  The PIN exchanges of the handler core, from the digits in the buffer to the APDU the card sees
  and the answer the host gets, and the reader that serves on the stand-in driver.
\<close>

section \<open>Completing a PIN session\<close>

lemma complete_pin_entry_written:
  assumes "complete_pin_entry h sq res resp out = Some (h', out', n)"
    and "pin_outcome res resp = (st, err, data)" and "CCID_HEADER_SIZE + length data \<le> length out"
  shows "h' = h\<lparr>h_secure_state := SecureIdle\<rparr> \<and>
    message_at out' n RDR_TO_PC_DATABLOCK 0 sq (build_bstatus st (current_icc_status h)) err 0 data"
  using assms write_message_at [of data out "0x80" 0 sq "build_bstatus st (current_icc_status h)" err 0 out' n]
  by (auto simp: complete_pin_entry_def reply_def)

definition pin_answer ::
    "('d, 'e) driver_ops \<Rightarrow> 'd handler \<Rightarrow> u8 \<Rightarrow> bytes \<Rightarrow> 'd handler \<Rightarrow> bytes \<Rightarrow> nat \<Rightarrow> bool" where
  "pin_answer ops h sq apdu h' out' n =
     (case d_transmit_apdu ops (h_nfc h) apdu (replicate 261 0) of
        (Inr k, buf, nfc) \<Rightarrow>
          h_nfc h' = nfc \<and>
          message_at out' n RDR_TO_PC_DATABLOCK 0 sq (slot_status_ok (icc_status (h_slot_state h))) 0 0
            (take k buf)
      | (Inl e, buf, nfc) \<Rightarrow>
          h_nfc h' = nfc \<and>
          message_at out' n RDR_TO_PC_DATABLOCK 0 sq (slot_status_failed (icc_status (h_slot_state h)))
            CCID_ERR_PIN_CANCELLED 0 [])"

definition pin_rejected :: "'d handler \<Rightarrow> u8 \<Rightarrow> 'd handler \<Rightarrow> bytes \<Rightarrow> nat \<Rightarrow> bool" where
  "pin_rejected h sq h' out' n \<longleftrightarrow>
     h_nfc h' = h_nfc h \<and>
     message_at out' n RDR_TO_PC_DATABLOCK 0 sq (slot_status_failed (icc_status (h_slot_state h)))
       CCID_ERR_CMD_ABORTED 0 []"

lemma complete_rejected:
  assumes "complete_pin_entry h sq PinInvalidLength None out = Some (h', out', n)" and "CCID_HEADER_SIZE \<le> length out"
  shows "h_secure_state h' = SecureIdle \<and> pin_rejected h sq h' out' n"
  using complete_pin_entry_written [OF assms(1)] assms(2)
  by (auto simp: pin_rejected_def slot_status_failed_def current_icc_status_def)

lemma pin_apdu_answered:
  assumes t: "d_transmit_apdu ops (h_nfc h) apdu (replicate 261 0) = (r, buf, nfc)" and "length buf = 261" and "271 \<le> length out"
    and "transmit_pin_apdu ops h sq apdu out = Some (h', out', n)"
  shows "h_secure_state h' = SecureIdle \<and> pin_answer ops h sq apdu h' out' n"
proof -
  define h1 where "h1 = snd (snd (transmit_counted ops apdu (replicate 261 0) h))"
  have c: "transmit_counted ops apdu (replicate 261 0) h = (r, buf, h1)"
    and h1: "h_nfc h1 = nfc" "h_slot_state h1 = h_slot_state h"
    using t by (auto simp: transmit_counted_def count_transmit_def Let_def h1_def split: prod.splits)
  show ?thesis
  proof (cases r)
    case (Inr k)
    with assms(4) c have k: "k \<le> 261" and e: "complete_pin_entry h1 sq PinSuccess (Some (take k buf)) out = Some (h', out', n)"
      by (auto simp: transmit_pin_apdu_def slice_eq_Some assms(2) split: bind_splits)
    from complete_pin_entry_written [OF e] k assms(2,3) h1 t Inr show ?thesis
      by (simp add: pin_answer_def slot_status_ok_def current_icc_status_def)
  next
    case (Inl e)
    then have e: "complete_pin_entry h1 sq PinCancelled None out = Some (h', out', n)"
      using assms(4) c by (simp add: transmit_pin_apdu_def)
    from complete_pin_entry_written [OF e] assms(3) h1 t Inl show ?thesis
      by (simp add: pin_answer_def slot_status_failed_def current_icc_status_def)
  qed
qed

context slot_driver
begin

lemma transmit_pin_apdu_answer:
  assumes "handler_ok P d_inv h" and "271 \<le> length out"
    and "transmit_pin_apdu ops h sq apdu out = Some (h', out', n)"
  shows "h_secure_state h' = SecureIdle \<and> pin_answer ops h sq apdu h' out' n"
proof -
  obtain r buf nfc where t: "d_transmit_apdu ops (h_nfc h) apdu (replicate 261 0) = (r, buf, nfc)"
    using prod_cases3 by blast
  have "length buf = 261" using transmit_length [OF _ t] assms(1) by (simp add: handler_ok_def)
  from pin_apdu_answered [OF t this assms(2,3)] show ?thesis .
qed

end

text \<open>PIN verification end to end.  With a digit buffer filled by the pin pad the exchange panics
  only for a PIN of more than eight digits under a reference byte other than 0x81 and 0x83.  A PIN
  the builder accepts reaches the card as the VERIFY command of the host's template with exactly
  the entered digits, and the card's answer is the payload sent to the host; a card failure is
  answered PIN-cancelled.  A refused PIN never reaches the card and is answered command-aborted.
  Either way the PIN session is over.\<close>

theorem pin_verify_exchange_correct:
  assumes "slot_driver ops d_inv" and "handler_ok P d_inv h" and "pin_buffer_ok buffer"
    and "271 \<le> length out"
    and "vb = verify_from_template (pv_apdu_template params ! 0) (pv_apdu_template params ! 2)
                (pv_apdu_template params ! 3)"
    and "pin = map (\<lambda>d. d + 0x30) (pin_abs buffer)"
  shows "case complete_pin_verify_exchange ops h sq PinSuccess buffer params out of
      None \<Rightarrow> 8 < length pin \<and> vb_p2 vb \<noteq> 0x81 \<and> vb_p2 vb \<noteq> 0x83
    | Some (h', out', n) \<Rightarrow>
        h_secure_state h' = SecureIdle \<and>
        (if verify_accepts vb pin
         then length pin \<le> 8 \<and>
              pin_answer ops h sq
                ([vb_cla vb, 0x20, vb_p1 vb, vb_p2 vb, word_of_nat (length pin)] @ pin) h' out' n
         else pin_rejected h sq h' out' n)"
proof -
  note eq = verify_exchange_cases [OF assms(3), of ops h sq params out, folded assms(5,6)]
  have pol: "verify_accepts vb pin \<Longrightarrow> \<not> length pin \<le> 8 \<Longrightarrow> vb_p2 vb \<noteq> 0x81 \<and> vb_p2 vb \<noteq> 0x83"
    by (auto simp: verify_accepts_def split: if_splits)
  have sent: "\<exists>r. transmit_pin_apdu ops h sq apdu out = Some r" for apdu
    using slot_driver.transmit_pin_apdu_ok [OF assms(1,2)] by blast
  have rej: "\<exists>r. complete_pin_entry h sq PinInvalidLength None out = Some r"
    by (simp add: complete_pin_entry_def reply_def)
  consider "\<not> verify_accepts vb pin" | "verify_accepts vb pin" "length pin \<le> 8"
    | "verify_accepts vb pin" "\<not> length pin \<le> 8" by blast
  then show ?thesis
  proof cases
    case 1
    obtain h' out' n where "complete_pin_entry h sq PinInvalidLength None out = Some (h', out', n)"
      using rej by auto
    with 1 eq complete_rejected [OF this] assms(4) show ?thesis by simp
  next
    case 2
    with eq sent show ?thesis
      by (auto split: option.splits dest!: slot_driver.transmit_pin_apdu_answer [OF assms(1,2,4)])
  next
    case 3
    with eq pol show ?thesis by auto
  qed
qed

abbreviation six_digits :: pin_buffer where
  "six_digits \<equiv> foldl pin_press (pin_new 8) (map KeyDigit [1, 2, 3, 4, 5, 6])"

lemma six_digits_ok: "pin_buffer_ok six_digits" "pin_abs six_digits = [1, 2, 3, 4, 5, 6]"
  using pin_presses_refine [OF pin_new_ok, of 8 "map KeyDigit [1, 2, 3, 4, 5, 6]"]
  by (simp_all add: pin_new_def pin_abs_def)

theorem pin_verify_exchange_correct_witness:
  "\<exists>h' out' n.
     complete_pin_verify_exchange mock_slot_ops (active_reader ContactProfile True) 4 PinSuccess
       six_digits pin_verify_default (replicate 300 0) = Some (h', out', n) \<and>
     m_last_apdu (ca_driver (h_nfc h')) = [0x00, 0x20, 0x00, 0x81, 6, 0x31, 0x32, 0x33, 0x34, 0x35, 0x36] \<and>
     message_at out' n 0x80 0 4 0 0 0 [0x90, 0x00]"
proof -
  let ?vb = "verify_from_template 0 0 0x81"
  let ?pin = "[0x31, 0x32, 0x33, 0x34, 0x35, 0x36] :: bytes"
  let ?R = "complete_pin_verify_exchange mock_slot_ops (active_reader ContactProfile True) 4 PinSuccess
      six_digits pin_verify_default (replicate 300 0)"
  have v: "?vb = verify_from_template (pv_apdu_template pin_verify_default ! 0)
      (pv_apdu_template pin_verify_default ! 2) (pv_apdu_template pin_verify_default ! 3)"
    by (simp add: pin_verify_default_def)
  have p: "?pin = map (\<lambda>d. d + 0x30) (pin_abs six_digits)" by (simp only: six_digits_ok) simp
  have a: "verify_accepts ?vb ?pin"
    by (simp add: verify_accepts_def verify_from_template_def is_ascii_digit_def)
  note exchange = pin_verify_exchange_correct [OF mock_slot_driver active_reader_ok [of ContactProfile True]
      six_digits_ok(1) _ v p, of "replicate 300 0" 4]
  then obtain h' out' n where r: "?R = Some (h', out', n)"
    by (auto split: option.splits)
  with exchange a show ?thesis
    by (auto simp: pin_answer_def verify_from_template_def adapter_ops_def adapter_transmit_apdu_def
        mock_defs with_profile_def adapter_new_def mock_new_def slot_status_ok_def build_bstatus_def)
qed

text \<open>PIN change end to end.  Accepted old and new PINs reach the card as one CHANGE REFERENCE DATA
  command of the host's template, old digits directly before new digits; refused ones never reach
  the card.  The exchange panics only when the PINs exceed sixteen digits together under a
  reference byte other than 0x81 and 0x83.\<close>

theorem pin_modify_exchange_correct:
  assumes "slot_driver ops d_inv" and "handler_ok P d_inv h" and "pin_buffer_ok old_buffer"
    and "pin_buffer_ok new_buffer" and "271 \<le> length out"
    and "mb = modify_from_template (pm_apdu_template params ! 0) (pm_apdu_template params ! 2)
                (pm_apdu_template params ! 3) (unat (pm_old_pin_offset params))
                (unat (pm_new_pin_offset params))"
    and "old = map (\<lambda>d. d + 0x30) (pin_abs old_buffer)"
    and "new = map (\<lambda>d. d + 0x30) (pin_abs new_buffer)"
  shows "case complete_pin_modify_exchange ops h sq PinSuccess old_buffer new_buffer params out of
      None \<Rightarrow> 16 < length old + length new \<and> mb_p2 mb \<noteq> 0x81 \<and> mb_p2 mb \<noteq> 0x83
    | Some (h', out', n) \<Rightarrow>
        h_secure_state h' = SecureIdle \<and>
        (if modify_accepts mb old new
         then length old + length new \<le> 16 \<and>
              pin_answer ops h sq
                ([mb_cla mb, 0x24, mb_p1 mb, mb_p2 mb, word_of_nat (length old + length new)] @ old @ new)
                h' out' n
         else pin_rejected h sq h' out' n)"
proof -
  note eq = modify_exchange_cases [OF assms(3,4), of ops h sq params out, folded assms(6-8)]
  have pol: "modify_accepts mb old new \<Longrightarrow> \<not> length old + length new \<le> 16 \<Longrightarrow>
      mb_p2 mb \<noteq> 0x81 \<and> mb_p2 mb \<noteq> 0x83"
    by (auto simp: modify_accepts_def split: if_splits)
  have sent: "\<exists>r. transmit_pin_apdu ops h sq apdu out = Some r" for apdu
    using slot_driver.transmit_pin_apdu_ok [OF assms(1,2)] by blast
  have rej: "\<exists>r. complete_pin_entry h sq PinInvalidLength None out = Some r"
    by (simp add: complete_pin_entry_def reply_def)
  consider "\<not> modify_accepts mb old new" | "modify_accepts mb old new" "length old + length new \<le> 16"
    | "modify_accepts mb old new" "\<not> length old + length new \<le> 16" by blast
  then show ?thesis
  proof cases
    case 1
    obtain h' out' n where "complete_pin_entry h sq PinInvalidLength None out = Some (h', out', n)"
      using rej by auto
    with 1 eq complete_rejected [OF this] assms(5) show ?thesis by simp
  next
    case 2
    with eq sent show ?thesis
      by (auto split: option.splits dest!: slot_driver.transmit_pin_apdu_answer [OF assms(1,2,5)])
  next
    case 3
    with eq pol show ?thesis by auto
  qed
qed

theorem pin_modify_exchange_correct_witness:
  "\<exists>h' out' n.
     complete_pin_modify_exchange mock_slot_ops (active_reader ContactProfile True) 4 PinSuccess
       six_digits six_digits pin_modify_default (replicate 300 0) = Some (h', out', n) \<and>
     m_last_apdu (ca_driver (h_nfc h')) = [0x00, 0x24, 0x00, 0x81, 12, 0x31, 0x32, 0x33, 0x34, 0x35, 0x36,
       0x31, 0x32, 0x33, 0x34, 0x35, 0x36]"
proof -
  let ?mb = "modify_from_template 0 0 0x81 5 13"
  let ?pin = "[0x31, 0x32, 0x33, 0x34, 0x35, 0x36] :: bytes"
  let ?R = "complete_pin_modify_exchange mock_slot_ops (active_reader ContactProfile True) 4 PinSuccess
      six_digits six_digits pin_modify_default (replicate 300 0)"
  have v: "?mb = modify_from_template (pm_apdu_template pin_modify_default ! 0)
      (pm_apdu_template pin_modify_default ! 2) (pm_apdu_template pin_modify_default ! 3)
      (unat (pm_old_pin_offset pin_modify_default)) (unat (pm_new_pin_offset pin_modify_default))"
    by (simp add: pin_modify_default_def)
  have p: "?pin = map (\<lambda>d. d + 0x30) (pin_abs six_digits)" by (simp only: six_digits_ok) simp
  have a: "modify_accepts ?mb ?pin ?pin"
    by (simp add: modify_accepts_def modify_from_template_def is_ascii_digit_def)
  note exchange = pin_modify_exchange_correct [OF mock_slot_driver active_reader_ok [of ContactProfile True]
      six_digits_ok(1) six_digits_ok(1) _ v p p, of "replicate 300 0" 4]
  then obtain h' out' n where r: "?R = Some (h', out', n)"
    by (auto split: option.splits)
  with exchange a show ?thesis
    by (auto simp: pin_answer_def modify_from_template_def adapter_ops_def adapter_transmit_apdu_def
        mock_defs with_profile_def adapter_new_def mock_new_def slot_status_ok_def build_bstatus_def)
qed

section \<open>The reader on the stand-in driver\<close>

abbreviation standin_ops :: "(unavailable_nfc card_adapter, nfc_error) driver_ops" where
  "standin_ops \<equiv> adapter_ops unavailable_ops (\<lambda>_. 0)"

lemmas standin_defs = adapter_ops_def adapter_power_on_def adapter_transmit_apdu_def
  unavailable_ops_def trait_defaults_def

text \<open>\<open>quiet_slot\<close>: no card was ever seen and none is active.\<close>

definition quiet_slot :: "'d handler \<Rightarrow> bool" where
  "quiet_slot h \<longleftrightarrow> \<not> present (h_presence_state h) \<and> h_slot_state h \<noteq> PresentActive
                    \<and> h_secure_state h = SecureIdle"

lemma quiet_slot_updates [simp]:
  "quiet_slot (record_protocol_error h) = quiet_slot h"
  "quiet_slot (with_diagnostics_fold f h) = quiet_slot h"
  "quiet_slot (snd (take_snapshot_request h)) = quiet_slot h"
  "quiet_slot (snd (take_card_reset h)) = quiet_slot h"
  "quiet_slot (snd (take_parameters_accepted h)) = quiet_slot h"
  "quiet_slot (refresh_diagnostics ops ticks h) = quiet_slot h"
  "quiet_slot (record_nak h) = quiet_slot h"
  "quiet_slot (h\<lparr>h_nfc := d\<rparr>) = quiet_slot h"
  "quiet_slot h \<Longrightarrow> quiet_slot (cancel_secure h)"
  by (simp_all add: quiet_slot_def record_protocol_error_def with_diagnostics_fold_def
      take_snapshot_request_def take_card_reset_def take_parameters_accepted_def
      refresh_diagnostics_def record_nak_def cancel_secure_def)

lemma standin_power_on:
  assumes "quiet_slot h"
  shows "\<exists>icc err. handle_power_on P standin_ops h hdr out =
    slot_status h hdr icc COMMAND_STATUS_FAILED err out"
  using assms
  by (auto simp: handle_power_on_def handle_power_on_contact_def quiet_slot_def standin_defs)

lemma quiet_xfr:
  assumes "quiet_slot h"
  shows "\<exists>mt icc err. handle_xfr_block P ops h hdr apdu out =
    message h hdr mt (build_bstatus COMMAND_STATUS_FAILED icc) err 0 [] out"
  using assms
  by (auto simp: handle_xfr_block_def handle_xfr_block_contact_def quiet_slot_def slot_status_message)

lemma quiet_secure:
  assumes "quiet_slot h"
  shows "\<exists>mt icc err. handle_secure P h hdr payload out =
    message h hdr mt (build_bstatus COMMAND_STATUS_FAILED icc) err 0 [] out"
  using assms
  by (auto simp: handle_secure_def secure_not_supported_def quiet_slot_def slot_status_message)

lemma quiet_params:
  "quiet_slot h \<Longrightarrow> handle_set_parameters P h hdr payload out = Some (h', out', n) \<Longrightarrow> quiet_slot h'"
  "quiet_slot h \<Longrightarrow> handle_reset_parameters P h hdr out = Some (h', out', n) \<Longrightarrow> quiet_slot h'"
  "quiet_slot h \<Longrightarrow> handle_escape P h hdr payload out = Some (h', out', n) \<Longrightarrow> quiet_slot h'"
  by (auto simp: handle_set_parameters_def handle_set_parameters_contact_def quiet_slot_def
      handle_reset_parameters_def handle_escape_def Let_def split: if_splits dest!: reply_defs)

lemma quiet_power_off:
  "quiet_slot h \<Longrightarrow> handle_power_off P ops h hdr out = Some (h', out', n) \<Longrightarrow> quiet_slot h'"
  by (auto simp: handle_power_off_def quiet_slot_def Let_def split: if_splits dest!: reply_defs)

lemma quiet_dispatch:
  assumes "quiet_slot h" and "dispatch P standin_ops h hdr payload out = Some (h', out', n)"
  shows "quiet_slot h'"
proof -
  have "handle_power_on P standin_ops h hdr out = Some (h', out', n) \<Longrightarrow> h' = h"
    "handle_xfr_block P standin_ops h hdr payload out = Some (h', out', n) \<Longrightarrow> h' = h"
    "handle_secure P h hdr payload out = Some (h', out', n) \<Longrightarrow> h' = h"
    using standin_power_on [OF assms(1)] quiet_xfr [OF assms(1)] quiet_secure [OF assms(1)] reply_defs(1,2)
    by metis+
  with assms show ?thesis
    by (auto simp: dispatch_def Let_def handle_get_slot_status_def split: if_splits
        dest: quiet_params quiet_power_off dest!: reply_defs)
qed

lemma quiet_command:
  assumes "quiet_slot h" and "process_command P standin_ops h msg out = Some (h', out', n)"
  shows "quiet_slot h'"
  using assms
  by (auto simp: process_command_def Let_def split: option.splits if_splits bind_splits
      dest!: reply_defs dest: quiet_dispatch)

lemma quiet_poll:
  assumes "quiet_slot h" and "check_card_change P standin_ops h = (ev, h')"
  shows "quiet_slot h'"
  using assms by (auto simp: check_card_change_def Let_def standin_defs quiet_slot_def split: if_splits)

lemma standin_quiet: "handler_reach P standin_ops d_inv h \<Longrightarrow> quiet_slot h"
proof (induction rule: handler_reach.induct)
  case (start d fw pin_pad)
  then show ?case by (simp add: quiet_slot_def with_profile_def)
next
  case (pin_verify h sq vp h1 b res out h' out' n)
  then show ?case by (simp add: quiet_slot_def take_secure_params_def)
next
  case (pin_modify h sq mp h1 b b' res out h' out' n)
  then show ?case by (simp add: quiet_slot_def take_secure_modify_params_def)
qed (auto intro: quiet_command quiet_poll)

text \<open>The reader survives a dead frontend.  When the controller could not be constructed and the
  stand-in driver serves, then in every reachable state IccPowerOn, XfrBlock and Secure are
  answered, with the FAILED status, GetSlotStatus is answered without it, and the slot never
  becomes active.\<close>

theorem standin_reader_fails_cleanly:
  assumes "handler_reach P standin_ops d_inv h" and "281 \<le> length out"
    and "dispatch P standin_ops h hdr payload out = Some (h', out', n)"
  shows "h_slot_state h' \<noteq> PresentActive \<and>
    (message_type hdr \<in> {PC_TO_RDR_ICC_POWER_ON, PC_TO_RDR_XFR_BLOCK, PC_TO_RDR_SECURE} \<longrightarrow>
       0 < n \<and> failed_status (out' ! 7)) \<and>
    (message_type hdr = PC_TO_RDR_GET_SLOT_STATUS \<longrightarrow> 0 < n \<and> \<not> failed_status (out' ! 7))"
proof -
  note q = standin_quiet [OF assms(1)]
  have failed: "0 < n \<and> failed_status (out' ! 7)"
    if "message h hdr mt (build_bstatus COMMAND_STATUS_FAILED icc) err 0 [] out = Some (h', out', n)"
    for mt icc err
    using message_written [OF that _ assms(2)] message_at_nth(4,7) build_bstatus_failed(1) by fastforce
  have ok: "0 < n \<and> \<not> failed_status (out' ! 7)"
    if "message h hdr mt (build_bstatus COMMAND_STATUS_NO_ERROR icc) err 0 [] out = Some (h', out', n)"
    for mt icc err
    using message_written [OF that _ assms(2)] message_at_nth(4,7) build_bstatus_failed(2) by fastforce
  have "message_type hdr \<in> {0x62, 0x6F, 0x69} \<Longrightarrow> 0 < n \<and> failed_status (out' ! 7)"
    using assms(3) standin_power_on [OF q, of P hdr out] quiet_xfr [OF q, of P standin_ops hdr payload out]
      quiet_secure [OF q, of P hdr payload out] failed
    by (auto simp: dispatch_def slot_status_message)
  moreover have "message_type hdr = 0x65 \<Longrightarrow> 0 < n \<and> \<not> failed_status (out' ! 7)"
    using assms(3) ok by (auto simp: dispatch_def handle_get_slot_status_def slot_status_message)
  moreover have "h_slot_state h' \<noteq> PresentActive"
    using quiet_dispatch [OF q assms(3)] by (simp add: quiet_slot_def)
  ultimately show ?thesis by blast
qed

theorem standin_reader_fails_cleanly_witness:
  "\<exists>h' out' n.
     dispatch SerialNfcProfile standin_ops
       (with_profile SerialNfcProfile standin_ops (adapter_new UnavailableNfcDriver) [] False)
       \<lparr>message_type = 0x62, dw_length = 0, slot = 0, seq = 1, specific = (0, 0, 0)\<rparr> []
       (replicate 300 0) = Some (h', out', n) \<and> failed_status (out' ! 7)"
proof -
  let ?h = "with_profile SerialNfcProfile standin_ops (adapter_new UnavailableNfcDriver) [] False"
  let ?hdr = "\<lparr>message_type = 0x62, dw_length = 0, slot = 0, seq = 1, specific = (0, 0, 0)\<rparr>"
  have r: "handler_reach SerialNfcProfile standin_ops (\<lambda>_. True) ?h"
    by (rule handler_reach.start) simp_all
  have drv: "slot_driver standin_ops (\<lambda>_. True)" by (rule unavailable.adapted.slot_driver_axioms)
  have ok: "handler_ok SerialNfcProfile (\<lambda>_. True) ?h" by (rule with_profile_ok) simp_all
  from slot_driver.dispatch_good [OF drv ok, of ?hdr "[]" "replicate 300 0"]
  obtain h' out' n where d: "dispatch SerialNfcProfile standin_ops ?h ?hdr [] (replicate 300 0)
      = Some (h', out', n)"
    by (auto simp: good_dispatch_def good_reply_def split: option.splits)
  from standin_reader_fails_cleanly [OF r _ d] d show ?thesis by simp
qed

end
