(* ===== verification/Heapless.thy ===== *)
theory Heapless
  imports Prelude
begin

text \<open>
  The bounded vector of the third-party \<open>heapless\<close> crate, a parameter of the definitions that use it.
  The contents of a vector are a list.  \<open>heapless_ok\<close> is what the crate documents: \<open>push\<close> and
  \<open>extend_from_slice\<close> append when the result fits the capacity, \<open>remove\<close> takes an element out and
  shifts the rest.  What they do beyond the capacity is left open.  \<open>heapless_list\<close> is one
  implementation that meets this.
\<close>

record heapless =
  hv_push :: "nat \<Rightarrow> bytes \<Rightarrow> u8 \<Rightarrow> bytes"
  hv_extend_from_slice :: "nat \<Rightarrow> bytes \<Rightarrow> bytes \<Rightarrow> bytes"
  hv_remove :: "bytes \<Rightarrow> nat \<Rightarrow> bytes"

definition heapless_ok :: "heapless \<Rightarrow> bool" where
  "heapless_ok hv \<longleftrightarrow>
     (\<forall>cap xs x. length xs < cap \<longrightarrow> hv_push hv cap xs x = xs @ [x]) \<and>
     (\<forall>cap xs ys. length xs + length ys \<le> cap \<longrightarrow> hv_extend_from_slice hv cap xs ys = xs @ ys) \<and>
     (\<forall>xs i. i < length xs \<longrightarrow> hv_remove hv xs i = take i xs @ drop (Suc i) xs)"

definition heapless_list :: heapless where
  "heapless_list = \<lparr>hv_push = (\<lambda>cap xs x. if length xs < cap then xs @ [x] else xs),
     hv_extend_from_slice = (\<lambda>cap xs ys. if length xs + length ys \<le> cap then xs @ ys else xs),
     hv_remove = (\<lambda>xs i. take i xs @ drop (Suc i) xs)\<rparr>"

lemma heapless_list_ok: "heapless_ok heapless_list"
  by (simp add: heapless_ok_def heapless_list_def)

lemma hv_push_ok: "heapless_ok hv \<Longrightarrow> length xs < cap \<Longrightarrow> hv_push hv cap xs x = xs @ [x]"
  by (simp add: heapless_ok_def)

lemma hv_extend_ok: "heapless_ok hv \<Longrightarrow> length ys \<le> cap \<Longrightarrow> hv_extend_from_slice hv cap [] ys = ys"
  by (simp add: heapless_ok_def)

lemma hv_extend_append:
  "heapless_ok hv \<Longrightarrow> length xs + length ys \<le> cap \<Longrightarrow> hv_extend_from_slice hv cap xs ys = xs @ ys"
  by (simp add: heapless_ok_def)

lemma hv_remove_front:
  "heapless_ok hv \<Longrightarrow> n \<le> length xs \<Longrightarrow> ((\<lambda>v. hv_remove hv v 0) ^^ n) xs = drop n xs"
proof (induction n)
  case (Suc n)
  then have "hv_remove hv (drop n xs) 0 = drop (Suc n) xs"
    by (simp add: heapless_ok_def drop_Suc [symmetric] add.commute)
  with Suc show ?case by simp
qed simp

end
