(* ===== verification/T1.thy ===== *)
theory T1
  imports Atr Heapless
begin

text \<open>
  The T=1 block endpoint of crates/ccid-service/src/t1.rs: the reader terminates the host's T=1
  protocol, answers supervisory blocks itself, assembles chained I-blocks into APDUs and returns
  card responses as chains of I-blocks.
\<close>

section \<open>Blocks\<close>

abbreviation (input) MAX_IFSC :: nat where "MAX_IFSC \<equiv> 254"
abbreviation (input) MAX_RELAY :: nat where "MAX_RELAY \<equiv> 512"
abbreviation (input) BLOCK_CAP :: nat where "BLOCK_CAP \<equiv> 520"
abbreviation (input) DEFAULT_HOST_IFSD :: nat where "DEFAULT_HOST_IFSD \<equiv> 32"
abbreviation (input) ATR_TB3_BWI :: u8 where "ATR_TB3_BWI \<equiv> 4"
abbreviation (input) HOST_DEFAULT_BAUD :: u32 where "HOST_DEFAULT_BAUD \<equiv> 10752"
abbreviation (input) WTX_TURNAROUND_MS :: u32 where "WTX_TURNAROUND_MS \<equiv> 100"

datatype skind = Resync | Ifs | Abort | Wtx

datatype pcb = PcbI u8 bool u8 | PcbR u8 u8 | PcbS skind bool

definition parse_pcb :: "u8 \<Rightarrow> pcb option" where
  "parse_pcb b =
     (if b AND 0x80 = 0 then
        Some (PcbI (drop_bit 6 b AND 1) (b AND 0x20 \<noteq> 0) (drop_bit 4 b AND 1))
      else if b AND 0x80 = 0x80 then
        (if b AND 0xC0 = 0x80 then Some (PcbR (drop_bit 4 b AND 1) (b AND 0x03))
         else
           let response = (b AND 0x20 \<noteq> 0); k = b AND 0x03 in
           if k = 0 then Some (PcbS Resync response)
           else if k = 1 then Some (PcbS Ifs response)
           else if k = 2 then Some (PcbS Abort response)
           else if k = 3 then Some (PcbS Wtx response)
           else None)
      else None)"

definition t1_lrc :: "bytes \<Rightarrow> u8" where
  "t1_lrc bs = foldl (\<lambda>a b. a XOR b) 0 bs"

definition block :: "heapless \<Rightarrow> u8 \<Rightarrow> bytes \<Rightarrow> bytes" where
  "block hv pcb info =
     (let v = hv_extend_from_slice hv BLOCK_CAP [] [0x00, pcb, word_of_nat (length info)];
          v = hv_extend_from_slice hv BLOCK_CAP v info;
          checksum = t1_lrc v
      in hv_push hv BLOCK_CAP v checksum)"

definition i_pcb :: "u8 \<Rightarrow> bool \<Rightarrow> u8 \<Rightarrow> u8" where
  "i_pcb ns m nr = push_bit 6 ns OR push_bit 5 (if m then 1 else 0) OR push_bit 4 nr"

definition r_pcb :: "u8 \<Rightarrow> u8 \<Rightarrow> u8" where
  "r_pcb nr err = 0x80 OR push_bit 4 nr OR err"

fun s_base :: "skind \<Rightarrow> u8" where
  "s_base Resync = 0xC0"
| "s_base Ifs = 0xC1"
| "s_base Abort = 0xC2"
| "s_base Wtx = 0xC3"

definition s_pcb :: "skind \<Rightarrow> bool \<Rightarrow> u8" where
  "s_pcb kind response = s_base kind OR push_bit 5 (if response then 1 else 0)"

section \<open>The endpoint\<close>

datatype feed_result = Immediate bytes | Apdu bytes

record t1_endpoint =
  te_ns :: u8
  te_host_ns :: u8
  te_send_ifsc :: nat
  te_host_ifsd :: nat
  te_recv_chain :: bytes
  te_send_chain :: bytes
  te_last_sent :: "bytes option"
  te_wtx_pending :: bool
  te_host_bwi :: u8
  te_retry_ns :: "u8 option"
  te_retry_first_frame :: "bytes option"

definition endpoint_new :: t1_endpoint where
  "endpoint_new =
     \<lparr>te_ns = 0, te_host_ns = 0, te_send_ifsc = 32, te_host_ifsd = DEFAULT_HOST_IFSD,
      te_recv_chain = [], te_send_chain = [], te_last_sent = None, te_wtx_pending = False,
      te_host_bwi = ATR_TB3_BWI, te_retry_ns = None, te_retry_first_frame = None\<rparr>"

definition set_host_timing :: "u8 \<Rightarrow> u8 \<Rightarrow> t1_endpoint \<Rightarrow> t1_endpoint" where
  "set_host_timing bwi ifsc t =
     t\<lparr>te_host_bwi := bwi, te_host_ifsd := min (max (unat ifsc) 16) MAX_IFSC\<rparr>"

definition endpoint_reset :: "t1_endpoint \<Rightarrow> t1_endpoint" where
  "endpoint_reset t = endpoint_new"

definition bad_block :: "heapless \<Rightarrow> t1_endpoint \<Rightarrow> feed_result \<times> t1_endpoint" where
  "bad_block hv t = (Immediate (block hv (r_pcb (te_host_ns t) 1) []), t)"

definition take_next_chain_block :: "heapless \<Rightarrow> t1_endpoint \<Rightarrow> bytes option \<times> t1_endpoint" where
  "take_next_chain_block hv t =
     (if te_send_chain t = [] then (None, t)
      else
        let chunk = min (te_send_ifsc t) (length (te_send_chain t));
            m = chunk < length (te_send_chain t);
            info = hv_extend_from_slice hv MAX_RELAY [] (take chunk (te_send_chain t));
            rest = ((\<lambda>v. hv_remove hv v 0) ^^ chunk) (te_send_chain t);
            b = block hv (i_pcb (te_ns t) m (te_host_ns t)) info;
            t = t\<lparr>te_send_chain := rest\<rparr>;
            t = (if \<not> m then t\<lparr>te_ns := te_ns t XOR 1\<rparr> else t)
        in (Some b, t\<lparr>te_last_sent := Some b\<rparr>))"

definition final_empty_block :: "heapless \<Rightarrow> t1_endpoint \<Rightarrow> bytes \<times> t1_endpoint" where
  "final_empty_block hv t =
     (let b = block hv (i_pcb (te_ns t) False (te_host_ns t)) []
      in (b, t\<lparr>te_ns := te_ns t XOR 1, te_last_sent := Some b\<rparr>))"

definition cache_retry_answer :: "bytes \<Rightarrow> t1_endpoint \<Rightarrow> t1_endpoint" where
  "cache_retry_answer frame t =
     t\<lparr>te_retry_ns := Some (te_host_ns t XOR 1), te_retry_first_frame := Some frame\<rparr>"

definition on_s_request :: "heapless \<Rightarrow> skind \<Rightarrow> bytes \<Rightarrow> t1_endpoint \<Rightarrow> feed_result \<times> t1_endpoint" where
  "on_s_request hv kind info t =
     (case kind of
        Resync \<Rightarrow>
          let rsp = block hv (s_pcb Resync True) []
          in (Immediate rsp,
              t\<lparr>te_ns := 0, te_host_ns := 0, te_recv_chain := [], te_send_chain := [],
                te_wtx_pending := False, te_retry_ns := None, te_retry_first_frame := None,
                te_last_sent := Some rsp\<rparr>)
      | Ifs \<Rightarrow>
          let new_ifs = (case info of x # _ \<Rightarrow> unat x | [] \<Rightarrow> 32);
              rsp = block hv (s_pcb Ifs True) info
          in (Immediate rsp, t\<lparr>te_send_ifsc := min new_ifs MAX_IFSC, te_last_sent := Some rsp\<rparr>)
      | Abort \<Rightarrow>
          let rsp = block hv (s_pcb Abort True) info
          in (Immediate rsp, t\<lparr>te_recv_chain := [], te_last_sent := Some rsp\<rparr>)
      | Wtx \<Rightarrow>
          let rsp = block hv (s_pcb Wtx True) info
          in (Immediate rsp, t\<lparr>te_last_sent := Some rsp\<rparr>))"

definition on_s_response :: "heapless \<Rightarrow> skind \<Rightarrow> bytes \<Rightarrow> t1_endpoint \<Rightarrow> feed_result \<times> t1_endpoint" where
  "on_s_response hv kind info t =
     (if kind = Wtx \<and> te_wtx_pending t then
        let t = t\<lparr>te_wtx_pending := False\<rparr>
        in case take_next_chain_block hv t of
             (Some b, t) \<Rightarrow> (Immediate b, t\<lparr>te_retry_first_frame := Some b\<rparr>)
           | (None, t) \<Rightarrow> bad_block hv t
      else case te_last_sent t of
             Some sent \<Rightarrow> (Immediate sent, t)
           | None \<Rightarrow> bad_block hv t)"

definition on_r_block :: "heapless \<Rightarrow> t1_endpoint \<Rightarrow> feed_result \<times> t1_endpoint" where
  "on_r_block hv t =
     (case (te_wtx_pending t, te_last_sent t) of
        (True, Some sent) \<Rightarrow> (Immediate sent, t)
      | _ \<Rightarrow>
          (case take_next_chain_block hv t of
             (Some rest, t) \<Rightarrow> (Immediate rest, t)
           | (None, t) \<Rightarrow>
               (case te_last_sent t of
                  Some sent \<Rightarrow> (Immediate sent, t)
                | None \<Rightarrow> bad_block hv t)))"

definition on_i_block :: "heapless \<Rightarrow> u8 \<Rightarrow> bool \<Rightarrow> bytes \<Rightarrow> t1_endpoint \<Rightarrow> feed_result \<times> t1_endpoint" where
  "on_i_block hv ns m info t =
     (if ns \<noteq> te_host_ns t then
        (if Some ns = te_retry_ns t \<and> m then (Immediate (block hv (r_pcb ns 0) []), t)
         else case (Some ns = te_retry_ns t, te_retry_first_frame t) of
                (True, Some frame) \<Rightarrow> (Immediate frame, t)
              | _ \<Rightarrow> (Immediate (block hv (r_pcb (te_host_ns t) 0) []), t))
      else if te_host_ifsd t < length info then bad_block hv t
      else if MAX_RELAY < length (te_recv_chain t) + length info then bad_block hv t
      else
        let t = t\<lparr>te_recv_chain := hv_extend_from_slice hv MAX_RELAY (te_recv_chain t) info\<rparr> in
        if m then (Immediate (block hv (r_pcb ns 0) []), t)
        else (Apdu (te_recv_chain t), t\<lparr>te_host_ns := te_host_ns t XOR 1, te_recv_chain := []\<rparr>))"

definition t1_feed :: "heapless \<Rightarrow> bytes \<Rightarrow> t1_endpoint \<Rightarrow> feed_result \<times> t1_endpoint" where
  "t1_feed hv bs t =
     (if length bs < 4 then bad_block hv t
      else
        let len = unat (bs ! 2); inf_end = 3 + len in
        if length bs \<noteq> inf_end + 1 \<or> MAX_IFSC < len then bad_block hv t
        else if t1_lrc (take inf_end bs) \<noteq> bs ! inf_end then bad_block hv t
        else
          let info = take len (drop 3 bs) in
          case parse_pcb (bs ! 1) of
            Some (PcbS kind response) \<Rightarrow>
              if response then on_s_response hv kind info t else on_s_request hv kind info t
          | Some (PcbR _ _) \<Rightarrow> on_r_block hv t
          | Some (PcbI ns m _) \<Rightarrow> on_i_block hv ns m info t
          | None \<Rightarrow> bad_block hv t)"

text \<open>\<open>u32::div_ceil\<close> panics on a zero divisor; the sum \<open>took_ms + WTX_TURNAROUND_MS\<close> wraps.\<close>

definition card_response :: "heapless \<Rightarrow> bytes \<Rightarrow> u32 \<Rightarrow> t1_endpoint \<Rightarrow> (bytes \<times> t1_endpoint) outcome" where
  "card_response hv rsp took_ms t =
     (let cap = min (length rsp) MAX_RELAY;
          t = t\<lparr>te_send_chain := hv_extend_from_slice hv MAX_RELAY [] (take cap rsp)\<rparr>;
          bwt = t1_bwt_ms (te_host_bwi t) HOST_DEFAULT_BAUD;
          need = took_ms + WTX_TURNAROUND_MS
      in
      if need > bwt then
        (if bwt = 0 then None
         else
           let q = (if need mod bwt = 0 then need div bwt else need div bwt + 1);
               m = ucast (clamp32 q 2 59) :: u8;
               wtx = block hv (s_pcb Wtx False) [m];
               t = t\<lparr>te_wtx_pending := True, te_last_sent := Some wtx\<rparr>
           in Some (wtx, cache_retry_answer wtx t))
      else
        let (first, t) = (case take_next_chain_block hv t of
                            (Some b, t) \<Rightarrow> (b, t)
                          | (None, t) \<Rightarrow> final_empty_block hv t)
        in Some (first, cache_retry_answer first t))"

definition is_s_block_request :: "bytes \<Rightarrow> bool" where
  "is_s_block_request bs =
     (if length bs < 4 then False
      else let pcb = bs ! 1 in pcb AND 0xC0 = 0xC0 \<and> pcb AND 0x10 = 0)"

section \<open>Well-formed blocks\<close>

definition wf_block :: "bytes \<Rightarrow> bool" where
  "wf_block b \<longleftrightarrow>
     4 \<le> length b \<and> b ! 0 = 0 \<and> unat (b ! 2) \<le> MAX_IFSC \<and> length b = unat (b ! 2) + 4 \<and>
     xor_fold b = 0"

definition block_inf :: "bytes \<Rightarrow> bytes" where
  "block_inf b = take (unat (b ! 2)) (drop 3 b)"

definition plain_block :: "u8 \<Rightarrow> bytes \<Rightarrow> bytes" where
  "plain_block pcb info =
     [0x00, pcb, word_of_nat (length info)] @ info
       @ [xor_fold ([0x00, pcb, word_of_nat (length info)] @ info)]"

lemma t1_lrc_xor: "t1_lrc bs = xor_fold bs"
  by (simp add: t1_lrc_def xor_fold_def)

lemma block_plain: "heapless_ok hv \<Longrightarrow> length info \<le> 512 \<Longrightarrow> block hv pcb info = plain_block pcb info"
  by (simp add: block_def plain_block_def hv_extend_append hv_push_ok t1_lrc_xor Let_def)

lemma unat_len: "n \<le> 254 \<Longrightarrow> unat (word_of_nat n :: u8) = n"
  by (simp add: unsigned_of_nat take_bit_nat_eq_self_iff)

lemma plain_block_wf: "length info \<le> 254 \<Longrightarrow> wf_block (plain_block pcb info)"
proof -
  assume l: "length info \<le> 254"
  let ?h = "[0x00, pcb, word_of_nat (length info)] @ info"
  have "xor_fold (plain_block pcb info) = 0"
    using xor_fold_snoc_self [of ?h] by (simp add: plain_block_def)
  with l show ?thesis by (simp add: wf_block_def plain_block_def unat_len)
qed

lemma plain_block_parts:
  assumes "length info \<le> 254"
  shows "plain_block pcb info ! 1 = pcb" and "block_inf (plain_block pcb info) = info"
  using assms by (simp_all add: plain_block_def block_inf_def unat_len)

lemma wf_blockE:
  assumes "wf_block b"
  shows "b = plain_block (b ! 1) (block_inf b)" and "length (block_inf b) \<le> 254"
proof -
  have l: "4 \<le> length b" "b ! 0 = 0" "unat (b ! 2) \<le> 254" "length b = unat (b ! 2) + 4"
    and x: "xor_fold b = 0"
    using assms by (auto simp: wf_block_def)
  let ?n = "unat (b ! 2)"
  have len: "length (block_inf b) = ?n" using l by (simp add: block_inf_def)
  then show "length (block_inf b) \<le> 254" using l by simp
  have "take 3 b = [0x00, b ! 1, b ! 2]"
    using l by (simp add: take_Suc_conv_app_nth numeral_3_eq_3 numeral_2_eq_2)
  then have b3: "b = [0x00, b ! 1, b ! 2] @ drop 3 b" by (metis append_take_drop_id)
  have "drop 3 b = block_inf b @ [last b]"
  proof -
    have "length (drop 3 b) = ?n + 1" using l by simp
    then have "drop 3 b = take ?n (drop 3 b) @ [drop 3 b ! ?n]" by (metis add.commute lessI plus_1_eq_Suc take_Suc_conv_app_nth take_all_iff le_refl)
    moreover have "drop 3 b ! ?n = last b"
    proof -
      have "b \<noteq> []" using l by auto
      then have "last b = b ! (3 + ?n)" using l by (simp add: last_conv_nth add.commute)
      then show ?thesis using l by simp
    qed
    ultimately show ?thesis by (simp add: block_inf_def)
  qed
  with b3 have b: "b = ([0x00, b ! 1, b ! 2] @ block_inf b) @ [last b]" by simp
  then have "xor_fold ([0x00, b ! 1, b ! 2] @ block_inf b) XOR last b = 0"
    using x by (metis xor_fold_snoc)
  then have "last b = xor_fold ([0x00, b ! 1, b ! 2] @ block_inf b)" by (metis xor_eq_0_u8)
  moreover have "b ! 2 = word_of_nat (length (block_inf b))" using len by simp
  ultimately show "b = plain_block (b ! 1) (block_inf b)"
    using b by (simp add: plain_block_def)
qed

end
