(* ===== verification/Ccid_Handler.thy ===== *)
theory Ccid_Handler
  imports Handler Frontend T1
begin

text \<open>
  The CCID handler of the serial readers (\<open>crates/ccid-service/src/ccid_handler.rs\<close>): the handler core
  behind a card adapter, the T=1 endpoint that XfrBlock is routed through once the host has set
  parameters, and the escapes that only this wrapper answers.

  The drivers' operations and the clock are parameters, as in the theory \<open>Nfc\<close>: the clock reads the
  driver's state, since only driver calls take time.  The card-presence sink is a function the
  firmware installs; the model returns the value pushed to it.
\<close>

section \<open>Constants\<close>

definition FIRMWARE_VERSION :: bytes where
  "FIRMWARE_VERSION = map of_char ''GemPC Twin ESP32 1.0'' @ [0]"

abbreviation (input) ESCAPE_SET_BAUD :: u8 where "ESCAPE_SET_BAUD \<equiv> 0x05"

definition BAUD_TABLE :: "(u8 \<times> u32) list" where
  "BAUD_TABLE = [(0x00, 115200), (0x01, 230400), (0x02, 460800), (0x03, 576000), (0x04, 921600),
     (0x05, 1000000), (0x06, 1500000), (0x07, 2000000), (0x08, 3000000)]"

definition baud_from_code :: "u8 \<Rightarrow> u32 option" where
  "baud_from_code code = map_option snd (find (\<lambda>(c, _). c = code) BAUD_TABLE)"

definition CARD_TIMEOUT_SW :: bytes where
  "CARD_TIMEOUT_SW = [0x64, 0x00]"

section \<open>State\<close>

record 'd ccid_handler =
  ch_core :: "'d card_adapter handler"
  ch_t1 :: t1_endpoint
  ch_t1_armed :: bool
  ch_last_frontend_health :: "frontend_health option"
  ch_baud_escape_enabled :: bool
  ch_pending_baud_change :: "u32 option"

type_synonym 'd ch_reply = "('d ccid_handler \<times> bytes \<times> nat) outcome"

abbreviation (input) ch_driver :: "'d ccid_handler \<Rightarrow> 'd" where
  "ch_driver ch \<equiv> ca_driver (h_nfc (ch_core ch))"

definition ch_new :: "('d, 'e) nfc_ops \<Rightarrow> ('d \<Rightarrow> int) \<Rightarrow> 'd \<Rightarrow> 'd ccid_handler" where
  "ch_new nops now_us nfc =
     \<lparr>ch_core = handler_new (adapter_ops nops now_us) (adapter_new nfc) FIRMWARE_VERSION,
      ch_t1 = endpoint_new, ch_t1_armed = False, ch_last_frontend_health = None,
      ch_baud_escape_enabled = False, ch_pending_baud_change = None\<rparr>"

definition enable_baud_escape :: "'d ccid_handler \<Rightarrow> 'd ccid_handler" where
  "enable_baud_escape ch = ch\<lparr>ch_baud_escape_enabled := True\<rparr>"

definition take_baud_change :: "'d ccid_handler \<Rightarrow> u32 option \<times> 'd ccid_handler" where
  "take_baud_change ch = (ch_pending_baud_change ch, ch\<lparr>ch_pending_baud_change := None\<rparr>)"

definition ch_set_driver :: "'d \<Rightarrow> 'd ccid_handler \<Rightarrow> 'd ccid_handler" where
  "ch_set_driver d ch = ch\<lparr>ch_core := (ch_core ch)\<lparr>h_nfc := (h_nfc (ch_core ch))\<lparr>ca_driver := d\<rparr>\<rparr>\<rparr>"

definition ch_record_turnaround_us :: "u32 \<Rightarrow> 'd ccid_handler \<Rightarrow> 'd ccid_handler" where
  "ch_record_turnaround_us us ch =
     (let a = h_nfc (ch_core ch)
      in ch\<lparr>ch_core := (ch_core ch)\<lparr>h_nfc := a\<lparr>ca_stats := record_turnaround_us us (ca_stats a)\<rparr>\<rparr>\<rparr>)"

definition ch_take_snapshot_request :: "'d ccid_handler \<Rightarrow> bool \<times> 'd ccid_handler" where
  "ch_take_snapshot_request ch =
     (let (b, core) = take_snapshot_request (ch_core ch) in (b, ch\<lparr>ch_core := core\<rparr>))"

definition ch_frontend_status :: "('d, 'e) nfc_ops \<Rightarrow> 'd ccid_handler \<Rightarrow> frontend_status" where
  "ch_frontend_status nops ch = n_frontend_status nops (ch_driver ch)"

definition ch_frontend_self_test ::
    "('d, 'e) nfc_ops \<Rightarrow> 'd ccid_handler \<Rightarrow> (frontend_error_kind + unit) \<times> 'd ccid_handler" where
  "ch_frontend_self_test nops ch =
     (let (r, d) = n_frontend_self_test nops (ch_driver ch) in (r, ch_set_driver d ch))"

definition ch_refresh_diagnostics ::
    "('d, 'e) nfc_ops \<Rightarrow> ('d \<Rightarrow> int) \<Rightarrow> u32 \<Rightarrow> 'd ccid_handler \<Rightarrow> 'd ccid_handler" where
  "ch_refresh_diagnostics nops now_us ticks ch =
     (let ch = ch\<lparr>ch_core := refresh_diagnostics (adapter_ops nops now_us) ticks (ch_core ch)\<rparr>;
          status = ch_frontend_status nops ch
      in if ch_last_frontend_health ch \<noteq> Some (fs_health status)
         then ch\<lparr>ch_last_frontend_health := Some (fs_health status)\<rparr> else ch)"

definition ch_record_nak :: "'d ccid_handler \<Rightarrow> 'd ccid_handler" where
  "ch_record_nak ch = ch\<lparr>ch_core := record_nak (ch_core ch)\<rparr>"

definition ch_set_current_protocol :: "u8 \<Rightarrow> 'd ccid_handler \<Rightarrow> 'd ccid_handler" where
  "ch_set_current_protocol protocol ch = ch\<lparr>ch_core := set_current_protocol protocol (ch_core ch)\<rparr>"

section \<open>Events of the core\<close>

definition disarm_on_reset :: "'d ccid_handler \<Rightarrow> 'd ccid_handler" where
  "disarm_on_reset ch =
     (let (reset, core) = take_card_reset (ch_core ch);
          ch = ch\<lparr>ch_core := core\<rparr>
      in if reset then ch\<lparr>ch_t1 := endpoint_reset (ch_t1 ch), ch_t1_armed := False\<rparr> else ch)"

definition arm_on_parameters :: "'d ccid_handler \<Rightarrow> 'd ccid_handler" where
  "arm_on_parameters ch =
     (let (accepted, core) = take_parameters_accepted (ch_core ch);
          ch = ch\<lparr>ch_core := core\<rparr>
      in if accepted then
           let t1 = endpoint_reset (ch_t1 ch);
               t1 = (case applied_t1_timing core of
                       Some (bwi, _, ifsc) \<Rightarrow> set_host_timing bwi ifsc t1
                     | None \<Rightarrow> t1)
           in ch\<lparr>ch_t1_armed := True, ch_t1 := t1\<rparr>
         else ch)"

text \<open>The presence poll returns the event of the core, the presence pushed to the sink, and the new
  state.\<close>

definition ch_check_card_change ::
    "('d, 'e) nfc_ops \<Rightarrow> ('d \<Rightarrow> int) \<Rightarrow> 'd ccid_handler \<Rightarrow> bool option \<times> bool \<times> 'd ccid_handler" where
  "ch_check_card_change nops now_us ch =
     (let (changed, core) = check_card_change SerialNfcProfile (adapter_ops nops now_us) (ch_core ch);
          ch = disarm_on_reset (ch\<lparr>ch_core := core\<rparr>)
      in (changed, card_present (h_diagnostics (ch_core ch)), ch))"

section \<open>The T=1 route\<close>

definition ch_message ::
    "'d ccid_handler \<Rightarrow> ccid_header \<Rightarrow> u8 \<Rightarrow> u8 \<Rightarrow> u8 \<Rightarrow> u8 \<Rightarrow> bytes \<Rightarrow> bytes \<Rightarrow> 'd ch_reply" where
  "ch_message ch hdr mt status err spec data out =
     (let (out, n) = write_message mt (slot hdr) (seq hdr) status err spec data out in Some (ch, out, n))"

definition ch_icc_status :: "'d ccid_handler \<Rightarrow> u8" where
  "ch_icc_status ch = icc_status (h_slot_state (ch_core ch))"

definition account_failed_status :: "'d ch_reply \<Rightarrow> 'd ch_reply" where
  "account_failed_status r = do {
     (ch, out, len) \<leftarrow> r;
     Some (if 7 < len \<and> out ! 7 AND 0x40 \<noteq> 0
           then ch\<lparr>ch_core := record_protocol_error (ch_core ch)\<rparr> else ch, out, len)
   }"

definition elapsed_ms_since :: "int \<Rightarrow> int \<Rightarrow> u32" where
  "elapsed_ms_since now started_us = word_of_int (max ((now - started_us) div 1000) 0)"

definition relay_apdu ::
    "heapless \<Rightarrow> ('d, 'e) nfc_ops \<Rightarrow> ('d \<Rightarrow> int) \<Rightarrow> 'd ccid_handler \<Rightarrow> ccid_header \<Rightarrow> bytes \<Rightarrow> bytes
       \<Rightarrow> 'd ch_reply" where
  "relay_apdu hv nops now_us ch hdr card_apdu out = do {
     apdu_buf \<leftarrow> copy_at (replicate MAX_RELAY 0) 0 card_apdu;
     apdu \<leftarrow> slice apdu_buf 0 (length card_apdu);
     let started_us = now_us (ch_driver ch);
     (core, scratch, n) \<leftarrow>
       apdu_pipeline SerialNfcProfile (adapter_ops nops now_us) (ch_core ch) hdr apdu (replicate 271 0);
     let took = elapsed_ms_since (now_us (ca_driver (h_nfc core))) started_us;
     payload \<leftarrow> (if failed_status (scratch ! 7) then Some CARD_TIMEOUT_SW
                 else slice scratch (min 10 n) n);
     (blocks, t1) \<leftarrow> card_response hv payload took (ch_t1 ch);
     ch_message (ch\<lparr>ch_core := core, ch_t1 := t1\<rparr>) hdr RDR_TO_PC_DATABLOCK
       (build_bstatus COMMAND_STATUS_NO_ERROR (icc_status PresentActive)) 0 0 blocks out
   }"

definition route_block ::
    "heapless \<Rightarrow> ('d, 'e) nfc_ops \<Rightarrow> ('d \<Rightarrow> int) \<Rightarrow> 'd ccid_handler \<Rightarrow> ccid_header \<Rightarrow> bytes \<Rightarrow> bytes
       \<Rightarrow> 'd ch_reply" where
  "route_block hv nops now_us ch hdr apdu out =
     (if h_slot_state (ch_core ch) \<noteq> PresentActive then
        account_failed_status
          (ch_message ch hdr RDR_TO_PC_DATABLOCK (build_bstatus COMMAND_STATUS_FAILED (ch_icc_status ch))
             ICC_NOT_ACTIVE 0 [] out)
      else
        case t1_feed hv apdu (ch_t1 ch) of
          (Immediate bs, t1) \<Rightarrow>
            ch_message (ch\<lparr>ch_t1 := t1\<rparr>) hdr RDR_TO_PC_DATABLOCK
              (build_bstatus COMMAND_STATUS_NO_ERROR (icc_status PresentActive)) 0 0 bs out
        | (Apdu card_apdu, t1) \<Rightarrow> relay_apdu hv nops now_us (ch\<lparr>ch_t1 := t1\<rparr>) hdr card_apdu out)"

definition xfr_via_t1 ::
    "heapless \<Rightarrow> ('d, 'e) nfc_ops \<Rightarrow> ('d \<Rightarrow> int) \<Rightarrow> 'd ccid_handler \<Rightarrow> ccid_header \<Rightarrow> bytes \<Rightarrow> bytes
       \<Rightarrow> 'd ch_reply" where
  "xfr_via_t1 hv nops now_us ch hdr ccid_msg out =
     (let frame_end = unat (word_of_nat CCID_HEADER_SIZE + dw_length hdr) in
      if length ccid_msg < frame_end then
        let ch = ch\<lparr>ch_core := record_protocol_error (ch_core ch)\<rparr>;
            (out, n) = write_slot_status (slot hdr) (seq hdr) (ch_icc_status ch) COMMAND_STATUS_FAILED
                         CCID_ERR_CMD_NOT_SUPPORTED 0 out
        in Some (ch, out, n)
      else do {
        apdu \<leftarrow> slice ccid_msg CCID_HEADER_SIZE frame_end;
        if is_s_block_request apdu then
          (case t1_feed hv apdu (ch_t1 ch) of
             (Immediate bs, t1) \<Rightarrow>
               let ch = ch\<lparr>ch_t1 := t1\<rparr> in
               account_failed_status
                 (ch_message ch hdr RDR_TO_PC_DATABLOCK
                    (build_bstatus COMMAND_STATUS_NO_ERROR (ch_icc_status ch)) 0 0 bs out)
           | (Apdu _, t1) \<Rightarrow> route_block hv nops now_us (ch\<lparr>ch_t1 := t1\<rparr>) hdr apdu out)
        else route_block hv nops now_us ch hdr apdu out
      })"

section \<open>Escapes of the wrapper\<close>

definition escape_turnaround :: "'d ccid_handler \<Rightarrow> ccid_header \<Rightarrow> bytes \<Rightarrow> 'd ch_reply" where
  "escape_turnaround ch hdr out =
     (let buf = fst (turnaround_to_bytes (ca_stats (h_nfc (ch_core ch))) (replicate TURNAROUND_SIZE 0))
      in ch_message ch hdr RDR_TO_PC_ESCAPE
           (build_bstatus COMMAND_STATUS_NO_ERROR (ch_icc_status ch)) 0 0 buf out)"

definition escape_wtx :: "u32 \<Rightarrow> u32 \<Rightarrow> 'd ccid_handler \<Rightarrow> ccid_header \<Rightarrow> bytes \<Rightarrow> 'd ch_reply" where
  "escape_wtx last_ex lifetime ch hdr out =
     ch_message ch hdr RDR_TO_PC_ESCAPE (build_bstatus COMMAND_STATUS_NO_ERROR (ch_icc_status ch)) 0 0
       (to_le_bytes32 last_ex @ to_le_bytes32 lifetime) out"

definition escape_i2c_probe ::
    "('d, 'e) nfc_ops \<Rightarrow> 'd ccid_handler \<Rightarrow> ccid_header \<Rightarrow> bytes \<Rightarrow> bytes \<Rightarrow> 'd ch_reply" where
  "escape_i2c_probe nops ch hdr ccid_msg out =
     (let reads = (case get_opt ccid_msg (CCID_HEADER_SIZE + 1) of Some b \<Rightarrow> ucast b | None \<Rightarrow> 0) :: u32;
          (regs, d) = n_timer_registers nops (ch_driver ch);
          (probe, d) = n_i2c_timing_probe nops reads d;
          ch = ch_set_driver d ch;
          (took_us, fwt_ms) = (case probe of
                                 Some us \<Rightarrow> (us, n_configured_fwt_ms nops d)
                               | None \<Rightarrow> (0xFFFFFFFF, 0));
          payload = to_le_bytes32 took_us @ to_le_bytes32 reads @ to_le_bytes32 fwt_ms;
          payload = (case regs of Some r \<Rightarrow> payload @ r | None \<Rightarrow> payload);
          cmd_status = (if took_us = 0xFFFFFFFF then COMMAND_STATUS_FAILED else COMMAND_STATUS_NO_ERROR);
          b_error = (if took_us = 0xFFFFFFFF then CCID_ERR_CMD_NOT_SUPPORTED else 0)
      in ch_message ch hdr RDR_TO_PC_ESCAPE (build_bstatus cmd_status (ch_icc_status ch)) b_error 0
           payload out)"

definition escape_set_baud :: "'d ccid_handler \<Rightarrow> ccid_header \<Rightarrow> bytes \<Rightarrow> bytes \<Rightarrow> 'd ch_reply" where
  "escape_set_baud ch hdr ccid_msg out =
     (let code = get_opt ccid_msg (CCID_HEADER_SIZE + 1);
          accepted = (if dw_length hdr = 2 then Option.bind code baud_from_code else None)
      in case accepted of
           Some baud \<Rightarrow>
             let ch = ch\<lparr>ch_pending_baud_change := Some baud\<rparr>;
                 payload = [ESCAPE_SET_BAUD, case code of Some c \<Rightarrow> c | None \<Rightarrow> 0] @ to_le_bytes32 baud
             in ch_message ch hdr RDR_TO_PC_ESCAPE
                  (build_bstatus COMMAND_STATUS_NO_ERROR (ch_icc_status ch)) 0 0 payload out
         | None \<Rightarrow>
             ch_message ch hdr RDR_TO_PC_ESCAPE
               (build_bstatus COMMAND_STATUS_FAILED (ch_icc_status ch)) 0 CCID_ERR_CMD_NOT_SUPPORTED [] out)"

section \<open>Dispatch\<close>

definition delegate ::
    "('d, 'e) nfc_ops \<Rightarrow> ('d \<Rightarrow> int) \<Rightarrow> 'd ccid_handler \<Rightarrow> bytes \<Rightarrow> bytes \<Rightarrow> 'd ch_reply" where
  "delegate nops now_us ch ccid_msg out = do {
     (core, out, len) \<leftarrow>
       process_command SerialNfcProfile (adapter_ops nops now_us) (ch_core ch) ccid_msg out;
     Some (disarm_on_reset (arm_on_parameters (ch\<lparr>ch_core := core\<rparr>)), out, len)
   }"

definition ch_process_command ::
    "heapless \<Rightarrow> ('d, 'e) nfc_ops \<Rightarrow> ('d \<Rightarrow> int) \<Rightarrow> 'd ccid_handler \<Rightarrow> bytes \<Rightarrow> bytes \<Rightarrow> 'd ch_reply" where
  "ch_process_command hv nops now_us ch ccid_msg out =
     (case header_parse ccid_msg of
        None \<Rightarrow> delegate nops now_us ch ccid_msg out
      | Some hdr \<Rightarrow>
          let mt = message_type hdr; first = get_opt ccid_msg CCID_HEADER_SIZE in
          if mt = PC_TO_RDR_XFR_BLOCK \<and> ch_t1_armed ch \<and> h_current_protocol (ch_core ch) = 1 then
            xfr_via_t1 hv nops now_us ch hdr ccid_msg out
          else if mt = PC_TO_RDR_ESCAPE \<and> dw_length hdr = 1 \<and> first = Some 0xD2 then
            escape_turnaround ch hdr out
          else
            (case (if mt = PC_TO_RDR_ESCAPE \<and> dw_length hdr = 1 \<and> first = Some 0xD4
                   then n_wtx_counters nops (ch_driver ch) else None) of
               Some (last_ex, lifetime) \<Rightarrow> escape_wtx last_ex lifetime ch hdr out
             | None \<Rightarrow>
                 if mt = PC_TO_RDR_ESCAPE \<and> dw_length hdr = 2 \<and> first = Some 0xD3 then
                   escape_i2c_probe nops ch hdr ccid_msg out
                 else if mt = PC_TO_RDR_ESCAPE \<and> ch_baud_escape_enabled ch \<and> first = Some ESCAPE_SET_BAUD then
                   escape_set_baud ch hdr ccid_msg out
                 else delegate nops now_us ch ccid_msg out))"

end
