(* ===== verification/Framing.thy ===== *)
theory Framing
  imports Ccid_Types Heapless "HOL-Library.Sublist"
begin

text \<open>
  The GemPC serial framing of crates/ccid-transport-serial/src/lib.rs: the byte-wise frame parser and
  the frame builders.  The bounded vector of the \<open>heapless\<close> crate is the parameter \<open>hv\<close>.  Indexing and slicing that can go out of range make \<open>feed\<close> an outcome.
\<close>

section \<open>Frames\<close>

abbreviation (input) SYNC :: u8 where "SYNC \<equiv> 0x03"
abbreviation (input) CTRL_ACK :: u8 where "CTRL_ACK \<equiv> 0x06"
abbreviation (input) CTRL_NAK :: u8 where "CTRL_NAK \<equiv> 0x15"
abbreviation (input) MAX_CCID_BYTES :: nat where "MAX_CCID_BYTES \<equiv> 271"
abbreviation (input) MAX_CCID_PAYLOAD :: nat where "MAX_CCID_PAYLOAD \<equiv> 261"
abbreviation (input) MAX_FRAME_BYTES :: nat where "MAX_FRAME_BYTES \<equiv> 274"

datatype frame_error = InvalidLrc | InvalidCtrl | Overflow | NakReceived

datatype frame_event = Command bytes | FrameErr frame_error

datatype parser_state = WaitSync | WaitCtrl | ReadHeader nat | ReadPayload nat | CheckLrc

record frame_parser =
  fp_state :: parser_state
  fp_frame :: bytes
  fp_received_frame :: bytes
  fp_ccid_bytes :: bytes
  fp_payload_len :: nat

definition calculate_lrc :: "bytes \<Rightarrow> u8" where
  "calculate_lrc frame = foldl (\<lambda>acc b. acc XOR b) 0 frame"

definition build_response_frame :: "bytes \<Rightarrow> bytes \<Rightarrow> (bytes \<times> nat) outcome" where
  "build_response_frame ccid_response buf =
     (let total_len = 2 + length ccid_response + 1 in
      if \<not> length ccid_response \<le> MAX_CCID_BYTES then None
      else if \<not> total_len \<le> length buf then None
      else do {
        let buf = buf[0 := SYNC, 1 := CTRL_ACK];
        buf \<leftarrow> copy_at buf 2 ccid_response;
        let buf = buf[total_len - 1 := calculate_lrc (take (total_len - 1) buf)];
        Some (buf, total_len)
      })"

definition build_nak_frame :: "bytes \<Rightarrow> (bytes \<times> nat) outcome" where
  "build_nak_frame buf =
     (if \<not> 3 \<le> length buf then None
      else let buf = buf[0 := SYNC, 1 := CTRL_NAK];
               buf = buf[2 := calculate_lrc (take 2 buf)]
           in Some (buf, 3))"

definition build_slot_change_notification :: "bool \<Rightarrow> bytes \<Rightarrow> (bytes \<times> nat) outcome" where
  "build_slot_change_notification pres buf =
     (if \<not> 2 \<le> length buf then None
      else Some (buf[0 := RDR_TO_PC_NOTIFY_SLOT_CHANGE,
                     1 := (if pres then CARD_PRESENT else CARD_ABSENT)], 2))"

section \<open>The parser\<close>

definition parser_new :: frame_parser where
  "parser_new = \<lparr>fp_state = WaitSync, fp_frame = [], fp_received_frame = [], fp_ccid_bytes = [],
                 fp_payload_len = 0\<rparr>"

definition push_frame_byte :: "heapless \<Rightarrow> u8 \<Rightarrow> frame_parser \<Rightarrow> frame_parser" where
  "push_frame_byte hv b p = p\<lparr>fp_frame := hv_push hv MAX_FRAME_BYTES (fp_frame p) b\<rparr>"

definition push_frame_and_ccid_byte :: "heapless \<Rightarrow> u8 \<Rightarrow> frame_parser \<Rightarrow> frame_parser" where
  "push_frame_and_ccid_byte hv b p =
     (let p = push_frame_byte hv b p
      in p\<lparr>fp_ccid_bytes := hv_push hv MAX_CCID_BYTES (fp_ccid_bytes p) b\<rparr>)"

definition reset_state :: "frame_parser \<Rightarrow> frame_parser" where
  "reset_state p = p\<lparr>fp_state := WaitSync, fp_frame := [], fp_ccid_bytes := [], fp_payload_len := 0\<rparr>"

definition parser_reset :: "frame_parser \<Rightarrow> frame_parser" where
  "parser_reset p = reset_state (p\<lparr>fp_received_frame := []\<rparr>)"

definition start_frame :: "heapless \<Rightarrow> u8 \<Rightarrow> frame_parser \<Rightarrow> frame_parser" where
  "start_frame hv sync p =
     (let p = p\<lparr>fp_frame := [], fp_ccid_bytes := [], fp_payload_len := 0\<rparr>;
          p = push_frame_byte hv sync p
      in p\<lparr>fp_received_frame := []\<rparr>)"

definition snapshot_received_frame :: "heapless \<Rightarrow> frame_parser \<Rightarrow> frame_parser" where
  "snapshot_received_frame hv p =
     p\<lparr>fp_received_frame := hv_extend_from_slice hv MAX_FRAME_BYTES [] (fp_frame p)\<rparr>"

definition finish_with_command :: "heapless \<Rightarrow> frame_parser \<Rightarrow> frame_event option \<times> frame_parser" where
  "finish_with_command hv p =
     (let p = snapshot_received_frame hv p; ccid_bytes = fp_ccid_bytes p
      in (Some (Command ccid_bytes), reset_state p))"

definition finish_with_error ::
    "heapless \<Rightarrow> frame_error \<Rightarrow> frame_parser \<Rightarrow> frame_event option \<times> frame_parser" where
  "finish_with_error hv e p = (Some (FrameErr e), reset_state (snapshot_received_frame hv p))"

definition feed :: "heapless \<Rightarrow> frame_parser \<Rightarrow> u8 \<Rightarrow> (frame_event option \<times> frame_parser) outcome" where
  "feed hv p b =
     (case fp_state p of
        WaitSync \<Rightarrow>
          if b = RDR_TO_PC_NOTIFY_SLOT_CHANGE then Some (None, parser_reset p)
          else if b = SYNC then Some (None, (start_frame hv b p)\<lparr>fp_state := WaitCtrl\<rparr>)
          else Some (None, p)
      | WaitCtrl \<Rightarrow>
          if b = SYNC then Some (None, start_frame hv b (p\<lparr>fp_frame := []\<rparr>))
          else
            let p = push_frame_byte hv b p in
            if b = CTRL_ACK then Some (None, p\<lparr>fp_state := ReadHeader 0\<rparr>)
            else if b = CTRL_NAK then Some (finish_with_error hv NakReceived p)
            else Some (finish_with_error hv InvalidCtrl p)
      | ReadHeader read \<Rightarrow>
          let p = push_frame_and_ccid_byte hv b p; next_read = read + 1 in
          if next_read = CCID_HEADER_SIZE then do {
            b1 \<leftarrow> idx (fp_ccid_bytes p) 1;
            b2 \<leftarrow> idx (fp_ccid_bytes p) 2;
            b3 \<leftarrow> idx (fp_ccid_bytes p) 3;
            b4 \<leftarrow> idx (fp_ccid_bytes p) 4;
            let p = p\<lparr>fp_payload_len := unat (from_le_bytes32 b1 b2 b3 b4)\<rparr>;
            if MAX_CCID_PAYLOAD < fp_payload_len p then Some (finish_with_error hv Overflow p)
            else Some (None, p\<lparr>fp_state := (if fp_payload_len p = 0 then CheckLrc
                                            else ReadPayload (fp_payload_len p))\<rparr>)
          }
          else Some (None, p\<lparr>fp_state := ReadHeader next_read\<rparr>)
      | ReadPayload remaining \<Rightarrow>
          let p = push_frame_and_ccid_byte hv b p in
          Some (None, p\<lparr>fp_state := (if remaining = 1 then CheckLrc else ReadPayload (remaining - 1))\<rparr>)
      | CheckLrc \<Rightarrow>
          let p = push_frame_byte hv b p in do {
            body \<leftarrow> (if fp_frame p = [] then None else slice (fp_frame p) 0 (length (fp_frame p) - 1));
            if b = calculate_lrc body then Some (finish_with_command hv p)
            else Some (finish_with_error hv InvalidLrc p)
          })"

definition received_frame_bytes :: "frame_parser \<Rightarrow> bytes" where
  "received_frame_bytes p = (if fp_received_frame p = [] then fp_frame p else fp_received_frame p)"

definition mid_frame :: "frame_parser \<Rightarrow> bool" where
  "mid_frame p = (case fp_state p of WaitSync \<Rightarrow> False | _ \<Rightarrow> True)"

text \<open>A run of the parser over a byte stream, with the events it emits in order.\<close>

fun feed_all :: "heapless \<Rightarrow> frame_parser \<Rightarrow> bytes \<Rightarrow> (frame_event list \<times> frame_parser) outcome" where
  "feed_all hv p [] = Some ([], p)"
| "feed_all hv p (b # bs) = do {
     (ev, p) \<leftarrow> feed hv p b;
     (evs, p) \<leftarrow> feed_all hv p bs;
     Some ((case ev of None \<Rightarrow> evs | Some e \<Rightarrow> e # evs), p)
   }"

section \<open>Well-formed commands and their frames\<close>

definition declared_len :: "bytes \<Rightarrow> nat" where
  "declared_len c = unat (from_le_bytes32 (c ! 1) (c ! 2) (c ! 3) (c ! 4))"

definition wf_command :: "bytes \<Rightarrow> bool" where
  "wf_command c \<longleftrightarrow> CCID_HEADER_SIZE \<le> length c \<and> length c \<le> MAX_CCID_BYTES
                    \<and> declared_len c = length c - CCID_HEADER_SIZE"

definition frame_bytes :: "bytes \<Rightarrow> bytes" where
  "frame_bytes c = [SYNC, CTRL_ACK] @ c @ [calculate_lrc ([SYNC, CTRL_ACK] @ c)]"

definition parser_ok :: "frame_parser \<Rightarrow> bool" where
  "parser_ok p \<longleftrightarrow>
     (case fp_state p of
        WaitSync \<Rightarrow> fp_frame p = [] \<and> fp_ccid_bytes p = []
      | WaitCtrl \<Rightarrow> fp_frame p = [SYNC] \<and> fp_ccid_bytes p = []
      | ReadHeader k \<Rightarrow> k < CCID_HEADER_SIZE \<and> length (fp_ccid_bytes p) = k \<and>
          fp_frame p = [SYNC, CTRL_ACK] @ fp_ccid_bytes p
      | ReadPayload r \<Rightarrow> 0 < r \<and> CCID_HEADER_SIZE \<le> length (fp_ccid_bytes p) \<and>
          length (fp_ccid_bytes p) + r = CCID_HEADER_SIZE + fp_payload_len p \<and>
          fp_payload_len p \<le> MAX_CCID_PAYLOAD \<and> fp_payload_len p = declared_len (fp_ccid_bytes p) \<and>
          fp_frame p = [SYNC, CTRL_ACK] @ fp_ccid_bytes p
      | CheckLrc \<Rightarrow> length (fp_ccid_bytes p) = CCID_HEADER_SIZE + fp_payload_len p \<and>
          fp_payload_len p \<le> MAX_CCID_PAYLOAD \<and> fp_payload_len p = declared_len (fp_ccid_bytes p) \<and>
          fp_frame p = [SYNC, CTRL_ACK] @ fp_ccid_bytes p)"

lemma calculate_lrc_xor: "calculate_lrc xs = xor_fold xs"
  by (simp add: calculate_lrc_def xor_fold_def)

lemmas parser_defs = push_frame_byte_def push_frame_and_ccid_byte_def reset_state_def
  parser_reset_def start_frame_def snapshot_received_frame_def finish_with_command_def
  finish_with_error_def

lemma declared_len_append: "5 \<le> length c \<Longrightarrow> declared_len (c @ xs) = declared_len c"
  by (simp add: declared_len_def nth_append)

text \<open>One step of the parser: it never panics, keeps its invariant, and an event ends the frame.\<close>

definition step_spec :: "frame_parser \<Rightarrow> u8 \<Rightarrow> frame_event option \<Rightarrow> frame_parser \<Rightarrow> bool" where
  "step_spec p b ev p' \<longleftrightarrow>
     parser_ok p' \<and> (fp_frame p' = [] \<or> fp_frame p' = [b] \<or> fp_frame p' = fp_frame p @ [b]) \<and>
     (case ev of
        Some (Command c) \<Rightarrow> wf_command c \<and> fp_frame p @ [b] = frame_bytes c
      | _ \<Rightarrow> True) \<and>
     (ev \<noteq> None \<longrightarrow> fp_state p' = WaitSync \<and> received_frame_bytes p' = fp_frame p @ [b])"

lemma feed_wait_sync:
  assumes "heapless_ok hv" "parser_ok p" "fp_state p = WaitSync"
  shows "\<exists>ev p'. feed hv p b = Some (ev, p') \<and> step_spec p b ev p'"
  using assms by (auto simp: feed_def parser_defs step_spec_def parser_ok_def hv_push_ok)

lemma feed_wait_ctrl:
  assumes "heapless_ok hv" "parser_ok p" "fp_state p = WaitCtrl"
  shows "\<exists>ev p'. feed hv p b = Some (ev, p') \<and> step_spec p b ev p'"
  using assms
  by (auto simp: feed_def parser_defs step_spec_def parser_ok_def hv_push_ok hv_extend_ok Let_def
      received_frame_bytes_def)

lemma feed_header:
  assumes "heapless_ok hv" "parser_ok p" "fp_state p = ReadHeader k"
  shows "\<exists>ev p'. feed hv p b = Some (ev, p') \<and> step_spec p b ev p'"
proof -
  have p: "k < 10" "length (fp_ccid_bytes p) = k" "fp_frame p = [SYNC, CTRL_ACK] @ fp_ccid_bytes p"
    using assms(2,3) by (auto simp: parser_ok_def)
  show ?thesis
  proof (cases "k = 9")
    case True
    with assms p show ?thesis
      by (auto simp: feed_def parser_defs step_spec_def parser_ok_def hv_push_ok hv_extend_ok Let_def
          received_frame_bytes_def idx_def declared_len_def)
  next
    case False
    with assms p show ?thesis
      by (auto simp: feed_def parser_defs step_spec_def parser_ok_def hv_push_ok Let_def)
  qed
qed

lemma feed_payload:
  assumes "heapless_ok hv" "parser_ok p" "fp_state p = ReadPayload r"
  shows "\<exists>ev p'. feed hv p b = Some (ev, p') \<and> step_spec p b ev p'"
  using assms
  by (auto simp: feed_def parser_defs step_spec_def parser_ok_def hv_push_ok Let_def
      declared_len_append)

lemma feed_check:
  assumes "heapless_ok hv" "parser_ok p" "fp_state p = CheckLrc"
  shows "feed hv p b =
    (if b = calculate_lrc (fp_frame p) then Some (finish_with_command hv (push_frame_byte hv b p))
     else Some (finish_with_error hv InvalidLrc (push_frame_byte hv b p)))"
proof -
  have "length (fp_frame p) < 274" using assms(2,3) by (auto simp: parser_ok_def)
  with assms(1) have "hv_push hv 274 (fp_frame p) b = fp_frame p @ [b]" by (rule hv_push_ok)
  with assms(3) show ?thesis by (auto simp: feed_def push_frame_byte_def slice_def)
qed

lemma feed_check_step:
  assumes "heapless_ok hv" "parser_ok p" "fp_state p = CheckLrc"
  shows "\<exists>ev p'. feed hv p b = Some (ev, p') \<and> step_spec p b ev p'"
  using assms
  by (auto simp: feed_check parser_defs step_spec_def parser_ok_def hv_push_ok hv_extend_ok
      received_frame_bytes_def wf_command_def frame_bytes_def Let_def)

lemma feed_step:
  assumes "heapless_ok hv" "parser_ok p"
  shows "\<exists>ev p'. feed hv p b = Some (ev, p') \<and> step_spec p b ev p'"
  using feed_wait_sync [OF assms] feed_wait_ctrl [OF assms] feed_header [OF assms]
    feed_payload [OF assms] feed_check_step [OF assms]
  by (cases "fp_state p") blast+

section \<open>Runs\<close>

lemma feed_all_append:
  "feed_all hv p (xs @ ys) = do {
     (evs, p) \<leftarrow> feed_all hv p xs;
     (evs', p) \<leftarrow> feed_all hv p ys;
     Some (evs @ evs', p)
   }"
proof (induction xs arbitrary: p)
  case (Cons b xs)
  show ?case
  proof (cases "feed hv p b")
    case None
    then show ?thesis by simp
  next
    case (Some r)
    obtain ev p1 where r: "r = (ev, p1)" by fastforce
    show ?thesis
      by (cases "feed_all hv p1 xs") (auto simp: Some r Cons.IH split: option.split bind_split)
  qed
qed (auto split: bind_split)

lemma feed_all_sound:
  assumes "heapless_ok hv" and "parser_ok p" and "suffix (fp_frame p) seen"
  shows "\<exists>evs p'. feed_all hv p bs = Some (evs, p') \<and> parser_ok p' \<and>
           (\<forall>c. Command c \<in> set evs \<longrightarrow> wf_command c \<and> sublist (frame_bytes c) (seen @ bs))"
  using assms(2,3)
proof (induction bs arbitrary: p seen)
  case (Cons b bs)
  obtain ev p1 where s: "feed hv p b = Some (ev, p1)" "step_spec p b ev p1"
    using feed_step [OF assms(1) Cons.prems(1)] by blast
  have "suffix (fp_frame p1) (seen @ [b])"
    using s(2) Cons.prems(2) by (auto simp: step_spec_def suffix_def)
  moreover have "parser_ok p1" using s(2) by (simp add: step_spec_def)
  ultimately obtain evs p' where r: "feed_all hv p1 bs = Some (evs, p')" "parser_ok p'"
    "\<And>c. Command c \<in> set evs \<Longrightarrow> wf_command c \<and> sublist (frame_bytes c) ((seen @ [b]) @ bs)"
    using Cons.IH [of p1 "seen @ [b]"] by blast
  have "wf_command c \<and> sublist (frame_bytes c) (seen @ b # bs)" if "ev = Some (Command c)" for c
  proof -
    have "wf_command c" "suffix (frame_bytes c) (seen @ [b])"
      using s(2) that Cons.prems(2) by (auto simp: step_spec_def suffix_def)
    moreover have "suffix (frame_bytes c) (seen @ [b]) \<Longrightarrow> sublist (frame_bytes c) ((seen @ [b]) @ bs)"
      by (metis append.assoc sublist_def suffix_def)
    ultimately show ?thesis by simp
  qed
  with s(1) r show ?case by (auto split: option.splits)
qed simp

lemma feed_header_bytes:
  assumes "heapless_ok hv" and "parser_ok p" and "fp_state p = ReadHeader k" and "k + length hs < 10"
  shows "feed_all hv p hs = Some ([], p\<lparr>fp_state := ReadHeader (k + length hs),
           fp_frame := fp_frame p @ hs, fp_ccid_bytes := fp_ccid_bytes p @ hs\<rparr>)"
  using assms(2-4)
proof (induction hs arbitrary: p k)
  case (Cons h hs)
  let ?p = "p\<lparr>fp_state := ReadHeader (k + 1), fp_frame := fp_frame p @ [h],
              fp_ccid_bytes := fp_ccid_bytes p @ [h]\<rparr>"
  have "feed hv p h = Some (None, ?p)" "parser_ok ?p"
    using assms(1) Cons.prems by (auto simp: feed_def parser_defs parser_ok_def hv_push_ok Let_def)
  with Cons.IH [of ?p "k + 1"] Cons.prems show ?case by simp
qed simp

lemma feed_payload_bytes:
  assumes "heapless_ok hv" and "parser_ok p" and "fp_state p = ReadPayload (length ps)"
  shows "feed_all hv p ps = Some ([], p\<lparr>fp_state := CheckLrc, fp_frame := fp_frame p @ ps,
           fp_ccid_bytes := fp_ccid_bytes p @ ps\<rparr>)"
  using assms(2,3)
proof (induction ps arbitrary: p)
  case Nil
  then show ?case by (simp add: parser_ok_def)
next
  case (Cons b bs)
  let ?s = "if bs = [] then CheckLrc else ReadPayload (length bs)"
  let ?p = "p\<lparr>fp_state := ?s, fp_frame := fp_frame p @ [b], fp_ccid_bytes := fp_ccid_bytes p @ [b]\<rparr>"
  have f: "feed hv p b = Some (None, ?p)"
    using assms(1) Cons.prems by (auto simp: feed_def parser_defs parser_ok_def hv_push_ok Let_def)
  show ?case
  proof (cases bs)
    case Nil
    with f show ?thesis by simp
  next
    case (Cons c cs)
    have "parser_ok ?p" using feed_step [OF assms(1) Cons.prems(1), of b] f
      by (simp add: step_spec_def)
    with f Cons Cons.IH [of ?p] show ?thesis by simp
  qed
qed

lemma feed_whole_header:
  assumes "heapless_ok hv" and "parser_ok p" and "fp_state p = ReadHeader 0" and "length hs = 10"
    and "declared_len hs = n"
  shows "\<exists>p'. feed_all hv p hs = Some (if 261 < n then [FrameErr Overflow] else [], p') \<and> parser_ok p' \<and>
    (if 261 < n then fp_state p' = WaitSync
     else fp_state p' = (if n = 0 then CheckLrc else ReadPayload n) \<and> fp_ccid_bytes p' = hs)"
proof -
  have hs: "hs = take 9 hs @ [hs ! 9]" using assms(4) id_take_nth_drop [of 9 hs] by simp
  let ?h = "take 9 hs"
  define p1 where "p1 = p\<lparr>fp_state := ReadHeader 9, fp_frame := fp_frame p @ ?h,
      fp_ccid_bytes := fp_ccid_bytes p @ ?h\<rparr>"
  have s1: "feed_all hv p ?h = Some ([], p1)"
    using feed_header_bytes [OF assms(1-3), of ?h] assms(4) by (simp add: p1_def)
  have p: "fp_ccid_bytes p = []" "fp_frame p = [SYNC, CTRL_ACK]"
    using assms(2,3) by (auto simp: parser_ok_def)
  have ok1: "parser_ok p1" using p assms(4) by (simp add: p1_def parser_ok_def)
  have decl: "declared_len (?h @ [hs ! 9]) = n" using assms(5) hs by simp
  obtain ev p2 where f: "feed hv p1 (hs ! 9) = Some (ev, p2)" and ok2: "parser_ok p2"
    using feed_step [OF assms(1) ok1, of "hs ! 9"] unfolding step_spec_def by blast
  have ev: "ev = (if 261 < n then Some (FrameErr Overflow) else None) \<and>
      (if 261 < n then fp_state p2 = WaitSync
       else fp_state p2 = (if n = 0 then CheckLrc else ReadPayload n) \<and> fp_ccid_bytes p2 = ?h @ [hs ! 9])"
    using f assms(1,4) p decl
    by (auto simp: feed_def parser_defs hv_push_ok Let_def p1_def idx_def declared_len_def
        split: if_splits)
  have "feed_all hv p (?h @ [hs ! 9]) = Some (case ev of None \<Rightarrow> [] | Some e \<Rightarrow> [e], p2)"
    by (simp only: feed_all_append s1 Option.bind.bind_lunit case_prod_conv) (simp add: f)
  then have "feed_all hv p hs = Some (case ev of None \<Rightarrow> [] | Some e \<Rightarrow> [e], p2)"
    by (simp only: hs [symmetric])
  with ev ok2 hs show ?thesis by auto
qed

lemma feed_command_body:
  assumes "heapless_ok hv" and "parser_ok p" and "fp_state p = ReadHeader 0" and "wf_command c"
  shows "\<exists>p'. feed_all hv p c = Some ([], p') \<and> parser_ok p' \<and> fp_state p' = CheckLrc \<and> fp_ccid_bytes p' = c"
proof -
  have len: "10 \<le> length c" "length c \<le> 271" "declared_len c = length c - 10"
    using assms(4) by (auto simp: wf_command_def)
  have "declared_len (take 10 c @ drop 10 c) = declared_len (take 10 c)"
    using len by (intro declared_len_append) simp
  then have "declared_len (take 10 c) = length (drop 10 c)" using len by simp
  from feed_whole_header [OF assms(1-3) _ this] len obtain p1 where
    s1: "feed_all hv p (take 10 c) = Some ([], p1)" and ok1: "parser_ok p1"
    and st: "fp_state p1 = (if drop 10 c = [] then CheckLrc else ReadPayload (length (drop 10 c)))"
    and cb: "fp_ccid_bytes p1 = take 10 c"
    by (auto split: if_splits)
  show ?thesis
  proof (cases "drop 10 c = []")
    case True
    then have "take 10 c = c" by simp
    with s1 ok1 st cb True show ?thesis by auto
  next
    case False
    then have "fp_state p1 = ReadPayload (length (drop 10 c))" using st by simp
    from feed_payload_bytes [OF assms(1) ok1 this]
    have s2: "feed_all hv p1 (drop 10 c) = Some ([], p1\<lparr>fp_state := CheckLrc,
        fp_frame := fp_frame p1 @ drop 10 c, fp_ccid_bytes := c\<rparr>)" (is "_ = Some ([], ?p2)")
      using cb by simp
    have "parser_ok ?p2"
      using feed_all_sound [OF assms(1) ok1, of "fp_frame p1" "drop 10 c"] s2 by auto
    moreover have "feed_all hv p (take 10 c @ drop 10 c) = Some ([], ?p2)"
      using s1 s2 by (simp only: feed_all_append) simp
    ultimately show ?thesis by auto
  qed
qed

lemma feed_frame_body:
  assumes "heapless_ok hv" and "parser_ok p" and "fp_state p = WaitSync" and "wf_command c"
  shows "\<exists>p'. feed_all hv p ([SYNC, CTRL_ACK] @ c) = Some ([], p') \<and> parser_ok p' \<and> fp_state p' = CheckLrc \<and>
    fp_ccid_bytes p' = c \<and> fp_frame p' = [SYNC, CTRL_ACK] @ c"
proof -
  define p1 where "p1 = p\<lparr>fp_state := ReadHeader 0, fp_frame := [SYNC, CTRL_ACK], fp_ccid_bytes := [],
      fp_payload_len := 0, fp_received_frame := []\<rparr>"
  have s1: "feed_all hv p [SYNC, CTRL_ACK] = Some ([], p1)"
    using assms(1-3) by (simp add: feed_def parser_defs hv_push_ok Let_def p1_def)
  have ok1: "parser_ok p1" "fp_state p1 = ReadHeader 0" by (simp_all add: p1_def parser_ok_def)
  obtain p2 where s2: "feed_all hv p1 c = Some ([], p2)" "parser_ok p2" "fp_state p2 = CheckLrc"
    "fp_ccid_bytes p2 = c"
    using feed_command_body [OF assms(1) ok1 assms(4)] by blast
  then have "fp_frame p2 = [SYNC, CTRL_ACK] @ c" by (auto simp: parser_ok_def)
  with s1 s2 show ?thesis by (simp only: feed_all_append) simp
qed

lemma feed_frame_last:
  assumes "heapless_ok hv" and "parser_ok p" and "fp_state p = CheckLrc"
  shows "\<exists>p'. feed hv p x =
      Some (Some (if x = calculate_lrc (fp_frame p) then Command (fp_ccid_bytes p) else FrameErr InvalidLrc), p') \<and>
    parser_ok p' \<and> fp_state p' = WaitSync \<and> received_frame_bytes p' = fp_frame p @ [x]"
proof -
  obtain ev p' where f: "feed hv p x = Some (ev, p')" and st: "step_spec p x ev p'"
    using feed_step [OF assms(1,2)] by blast
  have "ev = Some (if x = calculate_lrc (fp_frame p) then Command (fp_ccid_bytes p) else FrameErr InvalidLrc)"
    using f feed_check [OF assms(1-3)]
    by (auto simp: finish_with_command_def finish_with_error_def snapshot_received_frame_def
        push_frame_byte_def split: if_splits)
  with f st show ?thesis by (auto simp: step_spec_def)
qed

lemma feed_frame:
  assumes "heapless_ok hv" and "parser_ok p" and "fp_state p = WaitSync" and "wf_command c"
  shows "\<exists>p'. feed_all hv p ([SYNC, CTRL_ACK] @ c @ [x]) =
      Some ([if x = calculate_lrc ([SYNC, CTRL_ACK] @ c) then Command c else FrameErr InvalidLrc], p') \<and>
    parser_ok p' \<and> fp_state p' = WaitSync"
proof -
  obtain p2 where s2: "feed_all hv p ([SYNC, CTRL_ACK] @ c) = Some ([], p2)" "parser_ok p2"
    "fp_state p2 = CheckLrc" "fp_ccid_bytes p2 = c" "fp_frame p2 = [SYNC, CTRL_ACK] @ c"
    using feed_frame_body [OF assms] by blast
  from feed_frame_last [OF assms(1) s2(2,3), of x] s2 obtain p3 where
    f: "feed hv p2 x = Some (Some (if x = calculate_lrc ([SYNC, CTRL_ACK] @ c) then Command c
          else FrameErr InvalidLrc), p3)" "parser_ok p3" "fp_state p3 = WaitSync"
    by auto
  have "feed_all hv p (([SYNC, CTRL_ACK] @ c) @ [x]) =
      Some ([if x = calculate_lrc ([SYNC, CTRL_ACK] @ c) then Command c else FrameErr InvalidLrc], p3)"
    by (subst feed_all_append) (simp only: s2(1) Option.bind.bind_lunit case_prod_conv, simp add: f(1))
  with f show ?thesis by auto
qed

lemma feed_frames:
  assumes "heapless_ok hv" and "parser_ok p" and "fp_state p = WaitSync" and "list_all wf_command cs"
  shows "\<exists>p'. feed_all hv p (concat (map frame_bytes cs)) = Some (map Command cs, p') \<and>
    parser_ok p' \<and> fp_state p' = WaitSync"
  using assms(2-4)
proof (induction cs arbitrary: p)
  case (Cons c cs)
  have "wf_command c" using Cons.prems(3) by simp
  from feed_frame [OF assms(1) Cons.prems(1,2) this, of "calculate_lrc ([SYNC, CTRL_ACK] @ c)"]
  obtain p1 where
    s: "feed_all hv p (frame_bytes c) = Some ([Command c], p1)" "parser_ok p1" "fp_state p1 = WaitSync"
    unfolding frame_bytes_def by auto
  with Cons.IH [of p1] Cons.prems(3) show ?case by (auto simp: feed_all_append)
qed simp

lemma build_response_frame_bytes:
  assumes "length c \<le> 271" and "length c + 3 \<le> length buf"
  shows "build_response_frame c buf = Some (frame_bytes c @ drop (length c + 3) buf, length c + 3)"
proof -
  obtain b0 b1 rest where buf: "buf = b0 # b1 # rest"
    using assms(2) by (cases buf; cases "tl buf") auto
  define z where "z = drop (length c) rest"
  have "z = rest ! length c # drop (length c + 1) rest"
    using assms(2) buf by (simp add: z_def Cons_nth_drop_Suc)
  moreover have "copy_at (SYNC # CTRL_ACK # rest) 2 c = Some ([SYNC, CTRL_ACK] @ c @ z)"
    using assms(2) buf by (simp add: copy_at_def z_def)
  ultimately show ?thesis
    using assms buf
    by (simp add: build_response_frame_def Let_def frame_bytes_def list_update_append
        take_of_append [of "length c" c] numeral_3_eq_3)
qed

section \<open>Properties\<close>

text \<open>C31: What the frame builder emits, the parser reads back.  Into any buffer with room for it the
  builder writes the frame of any message of at most 271 bytes in front of the untouched rest of the
  buffer, and a stream that consists of the frames of any number of well-formed messages makes an idle
  parser report exactly these messages in order and be idle again.\<close>

theorem frame_stream_roundtrip:
  assumes "heapless_ok hv" and "parser_ok p" and "\<not> mid_frame p" and "list_all wf_command cs"
  shows "(\<forall>m out. length m \<le> MAX_CCID_BYTES \<and> length m + 3 \<le> length out \<longrightarrow>
       build_response_frame m out = Some (frame_bytes m @ drop (length m + 3) out, length m + 3)) \<and>
    (\<exists>p'. feed_all hv p (concat (map frame_bytes cs)) = Some (map Command cs, p') \<and> \<not> mid_frame p')"
proof -
  have idle: "fp_state q = WaitSync \<longleftrightarrow> \<not> mid_frame q" for q
    by (simp add: mid_frame_def split: parser_state.split)
  have "\<exists>p'. feed_all hv p (concat (map frame_bytes cs)) = Some (map Command cs, p') \<and> \<not> mid_frame p'"
    using feed_frames [OF assms(1,2) _ assms(4)] assms(3) idle by blast
  then show ?thesis by (simp add: build_response_frame_bytes)
qed

theorem frame_stream_roundtrip_witness:
  "\<exists>p'. feed_all heapless_list parser_new
     (frame_bytes [0x65, 0, 0, 0, 0, 0, 1, 0, 0, 0] @ frame_bytes [0x6B, 1, 0, 0, 0, 0, 2, 0, 0, 0, 0xD0])
     = Some ([Command [0x65, 0, 0, 0, 0, 0, 1, 0, 0, 0],
              Command [0x6B, 1, 0, 0, 0, 0, 2, 0, 0, 0, 0xD0]], p')"
  using frame_stream_roundtrip [OF heapless_list_ok, of parser_new
      "[[0x65, 0, 0, 0, 0, 0, 1, 0, 0, 0], [0x6B, 1, 0, 0, 0, 0, 2, 0, 0, 0, 0xD0]]"]
  by (auto simp: parser_new_def parser_ok_def mid_frame_def wf_command_def declared_len_def
      from_le_bytes32_def)

text \<open>The parser never panics and never invents a command.  Fed any byte stream from start-up, it
  returns, keeps its invariant (so its vectors never overflow), and every command it reports is
  well-formed (its declared length is its real length, at most 261 payload bytes) and its complete
  frame, checksum included, occurs in the stream.\<close>

theorem parser_total_and_sound:
  assumes "heapless_ok hv"
  shows "\<exists>evs p. feed_all hv parser_new stream = Some (evs, p) \<and> parser_ok p \<and>
    list_all (\<lambda>e. case e of Command c \<Rightarrow> wf_command c \<and> sublist (frame_bytes c) stream | _ \<Rightarrow> True) evs"
proof -
  have "parser_ok parser_new" by (simp add: parser_new_def parser_ok_def)
  from feed_all_sound [OF assms this, of "[]" stream] show ?thesis
    by (fastforce simp: parser_new_def list_all_iff split: frame_event.split)
qed

theorem parser_total_and_sound_witness:
  "\<exists>evs p. feed_all heapless_list parser_new [0x03, 0x03, 0x50, 0xFF] = Some (evs, p) \<and> parser_ok p"
  using parser_total_and_sound [OF heapless_list_ok, of "[0x03, 0x03, 0x50, 0xFF]"] by blast

text \<open>Damaged frames are reported and do not desynchronise.  From an idle parser, a frame whose
  checksum byte is wrong yields one invalid-checksum error and no command, whatever the command;
  a header that declares more than 261 payload bytes yields one overflow error at its last header
  byte; a NAK yields its error; each time the parser is idle again.\<close>

theorem damaged_frames_rejected:
  assumes "heapless_ok hv" and "parser_ok p" and "fp_state p = WaitSync"
  shows "(wf_command c \<longrightarrow> x \<noteq> calculate_lrc ([SYNC, CTRL_ACK] @ c) \<longrightarrow>
      (\<exists>p'. feed_all hv p ([SYNC, CTRL_ACK] @ c @ [x]) = Some ([FrameErr InvalidLrc], p') \<and> fp_state p' = WaitSync)) \<and>
    (length hs = 10 \<longrightarrow> 261 < declared_len hs \<longrightarrow>
      (\<exists>p'. feed_all hv p ([SYNC, CTRL_ACK] @ hs) = Some ([FrameErr Overflow], p') \<and> fp_state p' = WaitSync)) \<and>
    (\<exists>p'. feed_all hv p [SYNC, CTRL_NAK] = Some ([FrameErr NakReceived], p') \<and> fp_state p' = WaitSync)"
proof -
  define p1 where "p1 = p\<lparr>fp_state := ReadHeader 0, fp_frame := [SYNC, CTRL_ACK], fp_ccid_bytes := [],
      fp_payload_len := 0, fp_received_frame := []\<rparr>"
  have s1: "feed_all hv p [SYNC, CTRL_ACK] = Some ([], p1)"
    using assms by (simp add: feed_def parser_defs hv_push_ok Let_def p1_def)
  have ok1: "parser_ok p1" "fp_state p1 = ReadHeader 0" by (simp_all add: p1_def parser_ok_def)
  have "\<exists>p'. feed_all hv p ([SYNC, CTRL_ACK] @ hs) = Some ([FrameErr Overflow], p') \<and> fp_state p' = WaitSync"
    if "length hs = 10" "261 < declared_len hs"
    using feed_whole_header [OF assms(1) ok1 that(1) refl] that s1
    by (auto simp only: feed_all_append) auto
  moreover have "\<exists>p'. feed_all hv p [SYNC, CTRL_NAK] = Some ([FrameErr NakReceived], p') \<and> fp_state p' = WaitSync"
    using assms by (auto simp: feed_def parser_defs hv_push_ok Let_def)
  moreover have "\<exists>p'. feed_all hv p ([SYNC, CTRL_ACK] @ c @ [x]) = Some ([FrameErr InvalidLrc], p') \<and> fp_state p' = WaitSync"
    if "wf_command c" "x \<noteq> calculate_lrc ([SYNC, CTRL_ACK] @ c)"
    using feed_frame [OF assms that(1), of x] that(2) by auto
  ultimately show ?thesis by blast
qed

theorem damaged_frames_rejected_witness:
  "\<exists>p'. feed_all heapless_list parser_new ([0x03, 0x06] @ [0x65, 0, 0, 0, 0, 0, 1, 0, 0, 0] @ [0x00])
     = Some ([FrameErr InvalidLrc], p')"
proof -
  have "parser_ok parser_new" "fp_state parser_new = WaitSync"
    by (simp_all add: parser_new_def parser_ok_def)
  moreover have "wf_command [0x65, 0, 0, 0, 0, 0, 1, 0, 0, 0]"
    by (simp add: wf_command_def declared_len_def from_le_bytes32_def)
  moreover have "0 \<noteq> calculate_lrc ([0x03, 0x06] @ [0x65, 0, 0, 0, 0, 0, 1, 0, 0, 0])"
    by (simp add: calculate_lrc_def)
  ultimately show ?thesis using damaged_frames_rejected [OF heapless_list_ok] by blast
qed

end
