(* ===== verification/Serial_Server.thy ===== *)
theory Serial_Server
  imports Ccid_Handler Framing
begin

text \<open>
  The serial serving core (\<open>crates/ccid-service/src/ccid_serial_server.rs\<close>): bytes from the host go in
  one at a time with the tick of their arrival, complete frames are echoed and answered, damaged
  ones are answered with a NAK or dropped, card presence is polled at most once per interval, and an
  answer that would reach the host after its read window is dropped.

  The time-extension bridge is a set of global variables in the source; here it is one record, kept
  with the server.  Its hook is called by the driver from inside a card exchange.  How often that
  happens is up to the driver, so \<open>feed_byte\<close> takes the number of calls as an argument and returns the
  frames the hook wrote.
\<close>

section \<open>Time extension\<close>

abbreviation (input) MAX_CCID_RESPONSE_SIZE :: nat where "MAX_CCID_RESPONSE_SIZE \<equiv> 271"
abbreviation (input) MAX_FRAME_SIZE :: nat where "MAX_FRAME_SIZE \<equiv> 274"
abbreviation (input) BWT_UNIT_MULTIPLIER :: u8 where "BWT_UNIT_MULTIPLIER \<equiv> 2"
abbreviation (input) FRAME_SIZE :: nat where "FRAME_SIZE \<equiv> 13"

record time_extension =
  tx_armed :: bool
  tx_seq :: u8
  tx_icc :: u8
  tx_echo_flushed :: bool
  tx_extensions_written :: u8
  tx_writer :: bool
  tx_echo_len :: nat
  tx_echo :: bytes

definition time_extension_new :: time_extension where
  "time_extension_new =
     \<lparr>tx_armed = False, tx_seq = 0, tx_icc = 0, tx_echo_flushed = False, tx_extensions_written = 0,
      tx_writer = False, tx_echo_len = 0, tx_echo = replicate MAX_FRAME_SIZE 0\<rparr>"

definition register_writer :: "time_extension \<Rightarrow> time_extension" where
  "register_writer x = x\<lparr>tx_writer := True\<rparr>"

definition arm :: "u8 \<Rightarrow> u8 \<Rightarrow> bytes \<Rightarrow> time_extension \<Rightarrow> time_extension" where
  "arm sq icc ech x =
     (let n = min (length ech) (length (tx_echo x))
      in x\<lparr>tx_seq := sq, tx_icc := icc, tx_echo_flushed := False, tx_extensions_written := 0,
           tx_echo := take n ech @ drop n (tx_echo x), tx_echo_len := n, tx_armed := True\<rparr>)"

definition disarm_and_take_emitted :: "time_extension \<Rightarrow> u8 \<times> time_extension" where
  "disarm_and_take_emitted x =
     (tx_extensions_written x,
      x\<lparr>tx_armed := False, tx_echo_flushed := False, tx_extensions_written := 0\<rparr>)"

definition build_frame :: "u8 \<Rightarrow> u8 \<Rightarrow> bytes" where
  "build_frame sq icc =
     (let out = [SYNC, CTRL_ACK, RDR_TO_PC_DATABLOCK, 0, 0, 0, 0, 0, sq, 0x80 OR (icc AND 0x07),
                 BWT_UNIT_MULTIPLIER, 0, 0]
      in out[FRAME_SIZE - 1 := calculate_lrc (take (FRAME_SIZE - 1) out)])"

text \<open>One call of the hook: the frames it writes, and the bridge afterwards.\<close>

definition stall_hook :: "time_extension \<Rightarrow> bytes list \<times> time_extension" where
  "stall_hook x =
     (if \<not> tx_armed x then ([], x)
      else if \<not> tx_writer x then ([], x)
      else
        let ech = (if tx_echo_flushed x then [] else [take (tx_echo_len x) (tx_echo x)])
        in (ech @ [build_frame (tx_seq x) (tx_icc x)],
            x\<lparr>tx_echo_flushed := True, tx_extensions_written := tx_extensions_written x + 1\<rparr>))"

fun stall_hooks :: "nat \<Rightarrow> time_extension \<Rightarrow> bytes list \<times> time_extension" where
  "stall_hooks 0 x = ([], x)"
| "stall_hooks (Suc k) x =
     (let (ws, x) = stall_hook x; (ws', x) = stall_hooks k x in (ws @ ws', x))"

section \<open>Response windows\<close>

abbreviation (input) RESPONSE_WINDOW_MS :: u32 where "RESPONSE_WINDOW_MS \<equiv> 2500"
abbreviation (input) XFR_BLOCK_RESPONSE_WINDOW_MS :: u32 where "XFR_BLOCK_RESPONSE_WINDOW_MS \<equiv> 7500"
abbreviation (input) ICC_POWER_ON_RESPONSE_WINDOW_MS :: u32 where
  "ICC_POWER_ON_RESPONSE_WINDOW_MS \<equiv> 59500"

definition response_window_ticks :: "u32 \<Rightarrow> u32" where
  "response_window_ticks tick_hz = RESPONSE_WINDOW_MS * tick_hz div 1000"

definition xfr_block_response_window_ticks :: "u32 \<Rightarrow> u32" where
  "xfr_block_response_window_ticks tick_hz = XFR_BLOCK_RESPONSE_WINDOW_MS * tick_hz div 1000"

definition icc_power_on_response_window_ticks :: "u32 \<Rightarrow> u32" where
  "icc_power_on_response_window_ticks tick_hz = ICC_POWER_ON_RESPONSE_WINDOW_MS * tick_hz div 1000"

record response_windows =
  rw_tight :: u32
  rw_xfr_block :: u32
  rw_power_on :: u32

definition from_tick_hz :: "u32 \<Rightarrow> response_windows" where
  "from_tick_hz tick_hz =
     (let tight = response_window_ticks tick_hz;
          xfr_block = xfr_block_response_window_ticks tick_hz;
          power_on = icc_power_on_response_window_ticks tick_hz
      in \<lparr>rw_tight = (if tight < 1 then 1 else tight),
          rw_xfr_block = (if xfr_block < 1 then 1 else xfr_block),
          rw_power_on = (if power_on < 1 then 1 else power_on)\<rparr>)"

section \<open>The server\<close>

datatype serve_action = Respond | Nak | NoAction

record serve_config =
  nak_on_error :: bool
  notify_slot_change :: bool
  inline_poll :: bool

definition serve_config_default :: serve_config where
  "serve_config_default = \<lparr>nak_on_error = False, notify_slot_change = False, inline_poll = True\<rparr>"

record 'd serial_server =
  ss_handler :: "'d ccid_handler"
  ss_parser :: frame_parser
  ss_config :: serve_config
  ss_pending_notify :: "bool option"
  ss_echo_buf :: bytes
  ss_notify_buf :: bytes
  ss_notify_len :: nat
  ss_nak_buf :: bytes
  ss_last_byte_tick :: u32
  ss_echo_len :: nat
  ss_ccid_resp_buf :: bytes
  ss_resp_buf :: bytes
  ss_resp_len :: nat
  ss_poll_interval_ticks :: u32
  ss_windows :: response_windows
  ss_active_deadline_ticks :: u32
  ss_last_poll_tick :: u32
  ss_frame_done_tick :: u32
  ss_late_drop_count :: u32
  ss_ext :: time_extension

definition server_with_config ::
    "'d ccid_handler \<Rightarrow> u32 \<Rightarrow> response_windows \<Rightarrow> u32 \<Rightarrow> serve_config \<Rightarrow> time_extension \<Rightarrow> 'd serial_server" where
  "server_with_config handler poll_interval_ticks windows now_ticks config ext =
     (let windows = \<lparr>rw_tight = max (rw_tight windows) 1, rw_xfr_block = max (rw_xfr_block windows) 1,
                     rw_power_on = max (rw_power_on windows) 1\<rparr>
      in \<lparr>ss_handler = handler, ss_parser = parser_new, ss_config = config, ss_pending_notify = None,
          ss_echo_buf = replicate MAX_FRAME_SIZE 0, ss_notify_buf = [0, 0], ss_notify_len = 0,
          ss_nak_buf = [0, 0, 0], ss_last_byte_tick = now_ticks, ss_echo_len = 0,
          ss_ccid_resp_buf = replicate MAX_CCID_RESPONSE_SIZE 0, ss_resp_buf = replicate MAX_FRAME_SIZE 0,
          ss_resp_len = 0, ss_poll_interval_ticks = max poll_interval_ticks 1, ss_windows = windows,
          ss_active_deadline_ticks = rw_tight windows, ss_last_poll_tick = now_ticks,
          ss_frame_done_tick = now_ticks, ss_late_drop_count = 0, ss_ext = ext\<rparr>)"

definition server_new ::
    "'d ccid_handler \<Rightarrow> u32 \<Rightarrow> response_windows \<Rightarrow> u32 \<Rightarrow> time_extension \<Rightarrow> 'd serial_server" where
  "server_new handler poll_interval_ticks windows now_ticks ext =
     server_with_config handler poll_interval_ticks windows now_ticks serve_config_default ext"

definition server_take_snapshot_request :: "'d serial_server \<Rightarrow> bool \<times> 'd serial_server" where
  "server_take_snapshot_request s =
     (let (b, ch) = ch_take_snapshot_request (ss_handler s) in (b, s\<lparr>ss_handler := ch\<rparr>))"

definition poll_due :: "u32 \<Rightarrow> 'd serial_server \<Rightarrow> bool \<times> 'd serial_server" where
  "poll_due now_ticks s =
     (if ss_poll_interval_ticks s \<le> now_ticks - ss_last_poll_tick s
      then (True, s\<lparr>ss_last_poll_tick := now_ticks\<rparr>) else (False, s))"

definition extend_response_deadline :: "u32 \<Rightarrow> 'd serial_server \<Rightarrow> 'd serial_server" where
  "extend_response_deadline extra_ticks s =
     s\<lparr>ss_frame_done_tick := ss_frame_done_tick s + extra_ticks\<rparr>"

definition refresh_host_deadline :: "u32 \<Rightarrow> 'd serial_server \<Rightarrow> 'd serial_server" where
  "refresh_host_deadline now_ticks s = s\<lparr>ss_frame_done_tick := now_ticks\<rparr>"

abbreviation (input) INTER_BYTE_STALL_TICKS :: u32 where "INTER_BYTE_STALL_TICKS \<equiv> 10"

definition presence_poll ::
    "('d, 'e) nfc_ops \<Rightarrow> ('d \<Rightarrow> int) \<Rightarrow> u32 \<Rightarrow> 'd serial_server \<Rightarrow> bool option \<times> 'd serial_server" where
  "presence_poll nops now_us now_ticks s =
     (let ch = ch_refresh_diagnostics nops now_us now_ticks (ss_handler s);
          (changed, pushed, ch) = ch_check_card_change nops now_us ch
      in (changed, s\<lparr>ss_handler := ch\<rparr>))"

text \<open>The part of \<open>feed_byte\<close> before dispatch: for GetSlotStatus, the transition observed earlier or by a
  fresh poll becomes the notification.\<close>

definition slot_notification ::
    "('d, 'e) nfc_ops \<Rightarrow> ('d \<Rightarrow> int) \<Rightarrow> bytes \<Rightarrow> u32 \<Rightarrow> 'd serial_server \<Rightarrow> 'd serial_server outcome" where
  "slot_notification nops now_us ccid_bytes now_ticks s =
     (let s = s\<lparr>ss_notify_len := 0\<rparr> in
      if get_opt ccid_bytes 0 = Some PC_TO_RDR_GET_SLOT_STATUS then
        let stale = ss_pending_notify s;
            s = s\<lparr>ss_pending_notify := None\<rparr>;
            (due, s) = (if inline_poll (ss_config s) then poll_due now_ticks s else (False, s));
            (fresh, s) = (if due then presence_poll nops now_us now_ticks s else (None, s))
        in case (case fresh of Some p \<Rightarrow> Some p | None \<Rightarrow> stale) of
             Some pres \<Rightarrow>
               if notify_slot_change (ss_config s) then do {
                 (buf, n) \<leftarrow> build_slot_change_notification pres (ss_notify_buf s);
                 Some (s\<lparr>ss_notify_buf := buf, ss_notify_len := n\<rparr>)
               }
               else Some s
           | None \<Rightarrow> Some s
      else Some s)"

text \<open>Dispatch with the time-extension bridge armed for XfrBlock; \<open>stalls\<close> is the number of hook calls
  the driver makes meanwhile.\<close>

definition dispatch_extended ::
    "heapless \<Rightarrow> ('d, 'e) nfc_ops \<Rightarrow> ('d \<Rightarrow> int) \<Rightarrow> nat \<Rightarrow> bytes \<Rightarrow> 'd serial_server
       \<Rightarrow> (bytes list \<times> nat \<times> 'd serial_server) outcome" where
  "dispatch_extended hv nops now_us stalls ccid_bytes s =
     (let armed = tx_writer (ss_ext s) \<and> get_opt ccid_bytes 0 = Some PC_TO_RDR_XFR_BLOCK in do {
        ech \<leftarrow> slice (ss_echo_buf s) 0 (ss_echo_len s);
        let ext = (if armed
                   then arm (case get_opt ccid_bytes 6 of Some b \<Rightarrow> b | None \<Rightarrow> 0)
                          (ch_icc_status (ss_handler s)) ech (ss_ext s)
                   else ss_ext s);
        let (writes, ext) = stall_hooks stalls ext;
        (ch, buf, resp_len) \<leftarrow>
          ch_process_command hv nops now_us (ss_handler s) ccid_bytes (ss_ccid_resp_buf s);
        let s = s\<lparr>ss_handler := ch, ss_ccid_resp_buf := buf\<rparr>;
        let (emitted, ext) = (if armed then disarm_and_take_emitted ext else (0, ext));
        let s = s\<lparr>ss_ext := ext\<rparr>;
        let s = (if 0 < emitted
                 then extend_response_deadline (ss_active_deadline_ticks s * ucast emitted)
                        (s\<lparr>ss_echo_len := 0\<rparr>)
                 else s);
        Some (writes, resp_len, s)
      })"

definition serve_command ::
    "heapless \<Rightarrow> ('d, 'e) nfc_ops \<Rightarrow> ('d \<Rightarrow> int) \<Rightarrow> nat \<Rightarrow> bytes \<Rightarrow> u32 \<Rightarrow> 'd serial_server
       \<Rightarrow> (serve_action \<times> bytes list \<times> 'd serial_server) outcome" where
  "serve_command hv nops now_us stalls ccid_bytes now_ticks s = do {
     let s = s\<lparr>ss_frame_done_tick := now_ticks,
               ss_active_deadline_ticks :=
                 (if get_opt ccid_bytes 0 = Some PC_TO_RDR_XFR_BLOCK then rw_xfr_block (ss_windows s)
                  else if get_opt ccid_bytes 0 = Some PC_TO_RDR_ICC_POWER_ON then rw_power_on (ss_windows s)
                  else rw_tight (ss_windows s))\<rparr>;
     let frame = received_frame_bytes (ss_parser s);
     echo_buf \<leftarrow> copy_at (ss_echo_buf s) 0 frame;
     s \<leftarrow> slot_notification nops now_us ccid_bytes now_ticks
           (s\<lparr>ss_echo_len := length frame, ss_echo_buf := echo_buf\<rparr>);
     let s = s\<lparr>ss_handler := ch_refresh_diagnostics nops now_us now_ticks (ss_handler s)\<rparr>;
     (writes, resp_len, s) \<leftarrow> dispatch_extended hv nops now_us stalls ccid_bytes s;
     msg \<leftarrow> slice (ss_ccid_resp_buf s) 0 resp_len;
     (buf, n) \<leftarrow> build_response_frame msg (ss_resp_buf s);
     Some (Respond, writes, s\<lparr>ss_resp_buf := buf, ss_resp_len := n\<rparr>)
   }"

definition feed_byte ::
    "heapless \<Rightarrow> ('d, 'e) nfc_ops \<Rightarrow> ('d \<Rightarrow> int) \<Rightarrow> nat \<Rightarrow> u8 \<Rightarrow> u32 \<Rightarrow> 'd serial_server
       \<Rightarrow> (serve_action \<times> bytes list \<times> 'd serial_server) outcome" where
  "feed_byte hv nops now_us stalls b now_ticks s = do {
     let gap = now_ticks - ss_last_byte_tick s;
     let s = s\<lparr>ss_last_byte_tick := now_ticks\<rparr>;
     let s = (if INTER_BYTE_STALL_TICKS < gap then s\<lparr>ss_parser := parser_reset (ss_parser s)\<rparr> else s);
     (event, parser) \<leftarrow> feed hv (ss_parser s) b;
     let s = s\<lparr>ss_parser := parser\<rparr>;
     (case event of
        Some (Command ccid_bytes) \<Rightarrow> serve_command hv nops now_us stalls ccid_bytes now_ticks s
      | Some (FrameErr _) \<Rightarrow>
          if nak_on_error (ss_config s) then do {
            (buf, n) \<leftarrow> build_nak_frame (ss_nak_buf s);
            Some (Nak, [], s\<lparr>ss_handler := ch_record_nak (ss_handler s), ss_nak_buf := buf\<rparr>)
          }
          else Some (NoAction, [], s)
      | None \<Rightarrow> Some (NoAction, [], s))
   }"

definition poll_if_due ::
    "('d, 'e) nfc_ops \<Rightarrow> ('d \<Rightarrow> int) \<Rightarrow> u32 \<Rightarrow> 'd serial_server \<Rightarrow> bool \<times> 'd serial_server" where
  "poll_if_due nops now_us now_ticks s =
     (let s = (if mid_frame (ss_parser s) \<and> INTER_BYTE_STALL_TICKS < now_ticks - ss_last_byte_tick s
               then s\<lparr>ss_parser := parser_reset (ss_parser s)\<rparr> else s);
          (due, s) = poll_due now_ticks s
      in if due then
           let (changed, pushed, ch) = ch_check_card_change nops now_us (ss_handler s)
           in (True, s\<lparr>ss_handler := ch\<rparr>)
         else (False, s))"

definition server_echo :: "'d serial_server \<Rightarrow> bytes" where
  "server_echo s = take (ss_echo_len s) (ss_echo_buf s)"

definition server_response :: "'d serial_server \<Rightarrow> bytes" where
  "server_response s = take (ss_resp_len s) (ss_resp_buf s)"

definition server_notify :: "'d serial_server \<Rightarrow> bytes" where
  "server_notify s = take (ss_notify_len s) (ss_notify_buf s)"

definition poll_and_stash ::
    "('d, 'e) nfc_ops \<Rightarrow> ('d \<Rightarrow> int) \<Rightarrow> u32 \<Rightarrow> 'd serial_server \<Rightarrow> bool \<times> 'd serial_server" where
  "poll_and_stash nops now_us now_ticks s =
     (let (due, s) = poll_due now_ticks s in
      if due then
        let (changed, s) = presence_poll nops now_us now_ticks s;
            s = (case changed of Some pres \<Rightarrow> s\<lparr>ss_pending_notify := Some pres\<rparr> | None \<Rightarrow> s)
        in (True, s)
      else (False, s))"

definition on_read_idle ::
    "('d, 'e) nfc_ops \<Rightarrow> ('d \<Rightarrow> int) \<Rightarrow> u32 \<Rightarrow> 'd serial_server \<Rightarrow> bool \<times> 'd serial_server" where
  "on_read_idle nops now_us now_ticks s =
     poll_and_stash nops now_us now_ticks (s\<lparr>ss_parser := parser_reset (ss_parser s)\<rparr>)"

definition poll_if_due_after_response ::
    "('d, 'e) nfc_ops \<Rightarrow> ('d \<Rightarrow> int) \<Rightarrow> u32 \<Rightarrow> 'd serial_server \<Rightarrow> bool \<times> 'd serial_server" where
  "poll_if_due_after_response = poll_and_stash"

definition response_expired :: "u32 \<Rightarrow> 'd serial_server \<Rightarrow> bool" where
  "response_expired now_ticks s \<longleftrightarrow> ss_active_deadline_ticks s < now_ticks - ss_frame_done_tick s"

definition response_deadline_tick :: "'d serial_server \<Rightarrow> u32" where
  "response_deadline_tick s = ss_frame_done_tick s + ss_active_deadline_ticks s"

definition record_late_response :: "'d serial_server \<Rightarrow> 'd serial_server" where
  "record_late_response s =
     (let s = s\<lparr>ss_echo_len := 0, ss_notify_len := 0, ss_resp_len := 0,
                ss_late_drop_count := ss_late_drop_count s + 1\<rparr>;
          ch = snd (take_baud_change (snd (ch_take_snapshot_request (ss_handler s))))
      in s\<lparr>ss_handler := ch\<rparr>)"

end
