(* ===== verification/Handler_Room.thy ===== *)
theory Handler_Room
  imports Handler_Facts
begin

text \<open>
  When an answer is missing for want of room.  The response buffer of the readers has 271 bytes: a header and 261
  bytes of data.  Every answer fits it, except one whose data the driver delivers longer than that.
\<close>

section \<open>Answers of the handler itself\<close>

lemma message_nonzero:
  "length out = 271 \<Longrightarrow> message h hdr mt st err sp data out = Some (h', out', n) \<Longrightarrow> length data \<le> 261 \<Longrightarrow> 0 < n"
  by (auto simp: message_def reply_def write_message_fits)

lemma slot_status_nonzero: "length out = 271 \<Longrightarrow> slot_status h hdr icc st err out = Some (h', out', n) \<Longrightarrow> 0 < n"
  by (auto simp: slot_status_message dest: message_nonzero)

lemma not_supported_nonzero: "length out = 271 \<Longrightarrow> secure_not_supported P h hdr out = Some (h', out', n) \<Longrightarrow> 0 < n"
  by (auto simp: secure_not_supported_def split: if_splits dest: message_nonzero slot_status_nonzero)

lemma parameters_nonzero:
  assumes "length out = 271" "host_params_ok (h_host_params h)" "write_parameters P h hdr out = Some (h', out', n)"
  shows "0 < n"
proof -
  obtain payload len proto where p: "parameter_payload P h = (payload, len, proto)" using prod_cases3 by blast
  have "length payload = 7 \<and> len \<le> 7" by (rule parameter_payload_length [OF assms(2) p])
  with assms(1,3) p show ?thesis
    by (auto simp: write_parameters_def slice_prefix dest!: message_nonzero)
qed

lemma diagnostics_28: "length (fst (diagnostics_to_bytes d (replicate 28 0))) = 28"
  by (simp add: diagnostics_to_bytes_def Let_def put_rules)

lemma escape_nonzero:
  "length out = 271 \<Longrightarrow> length (h_firmware_version h) \<le> 261 \<Longrightarrow>
     handle_escape P h hdr payload out = Some (h', out', n) \<Longrightarrow> 0 < n"
  by (auto simp: handle_escape_def escape_answer_def diagnostics_28 Let_def split: if_splits dest!: message_nonzero)

lemma secure_nonzero:
  "length out = 271 \<Longrightarrow> message_type hdr = PC_TO_RDR_SECURE \<Longrightarrow> handle_secure P h hdr payload out = Some (h', out', n) \<Longrightarrow>
     0 < n \<or> opens_pin_session h hdr payload h'"
  by (auto simp: handle_secure_def opens_pin_session_def Let_def split: if_splits option.splits list.splits bind_splits
      dest: message_nonzero not_supported_nonzero)

lemma set_parameters_nonzero:
  assumes "length out = 271" "host_params_ok (h_host_params h)" "handle_set_parameters P h hdr payload out = Some (h', out', n)"
  shows "0 < n"
proof -
  have ok: "host_params_ok (Some (q, raw))" if "contact_params_valid q i raw" "i \<le> 1" "length raw = 7" for q i raw
    using that by (auto simp: contact_params_valid_def host_params_ok_def)
  have t1: "host_params_ok (Some (1, take 7 payload))" if "7 \<le> length payload"
    using that by (simp add: host_params_ok_def)
  from assms show ?thesis
    by (auto simp: handle_set_parameters_def handle_set_parameters_contact_def Let_def split: if_splits
        dest: slot_status_nonzero message_nonzero elim!: parameters_nonzero [rotated 2] intro!: ok t1)
qed

lemma reset_parameters_nonzero:
  "length out = 271 \<Longrightarrow> host_params_ok (h_host_params h) \<Longrightarrow> handle_reset_parameters P h hdr out = Some (h', out', n) \<Longrightarrow> 0 < n"
  by (auto simp: handle_reset_parameters_def host_params_ok_def split: if_splits elim!: parameters_nonzero [rotated 2])

lemma slice_length: "slice xs a b = Some ys \<Longrightarrow> length ys = b - a"
  by (auto simp: slice_eq_Some)

section \<open>Data of the driver\<close>

definition exceeds :: "nat \<Rightarrow> ('e + nat) \<Rightarrow> bool" where
  "exceeds k r \<longleftrightarrow> (case r of Inl _ \<Rightarrow> False | Inr n \<Rightarrow> k < n)"

lemma exceeds_simps [simp]: "\<not> exceeds k (Inl e)" "exceeds k (Inr n) \<longleftrightarrow> k < n"
  by (simp_all add: exceeds_def)

text \<open>What the driver returns for this command leaves no room for the header: an ATR or an answer of more than 261
  bytes, or a UID that with its status word has more.\<close>

definition overlong_data :: "profile \<Rightarrow> ('d, 'e) driver_ops \<Rightarrow> 'd handler \<Rightarrow> ccid_header \<Rightarrow> bytes \<Rightarrow> bool" where
  "overlong_data P ops h hdr payload \<longleftrightarrow>
     (if message_type hdr = PC_TO_RDR_ICC_POWER_ON then
        exceeds 261 (fst (d_power_on ops (if CONTACT P then snd (d_is_card_present ops (h_nfc h)) else h_nfc h) (h_tx_buf h)))
      else
        message_type hdr = PC_TO_RDR_XFR_BLOCK \<and> h_slot_state h = PresentActive \<and>
        (exceeds 261 (fst (d_transmit_apdu ops (h_nfc h) payload (h_tx_buf h))) \<or>
         (case d_card_uid ops (h_nfc h) of None \<Rightarrow> False | Some uid \<Rightarrow> 259 < length uid)))"

lemma power_on_nonzero:
  assumes "length out = 271" "handle_power_on P ops h hdr out = Some (h', out', n)" "message_type hdr = PC_TO_RDR_ICC_POWER_ON"
  shows "0 < n \<or> overlong_data P ops h hdr payload"
  using assms
  by (auto simp: handle_power_on_def handle_power_on_contact_def overlong_data_def Let_def not_less
      split: if_splits prod.splits sum.splits bind_splits dest!: slice_length
      dest: message_nonzero [OF assms(1)] slot_status_nonzero [OF assms(1)])

lemma xfr_nonzero:
  assumes "length out = 271" "handle_xfr_block P ops h hdr apdu out = Some (h', out', n)" "length apdu \<le> 261"
    "message_type hdr = PC_TO_RDR_XFR_BLOCK"
  shows "0 < n \<or> overlong_data P ops h hdr apdu"
  using assms
  by (auto simp: handle_xfr_block_def handle_xfr_block_contact_def apdu_pipeline_def answer_get_uid_def write_sw_def
      count_transmit_def data_block_message overlong_data_def Let_def not_less
      split: if_splits prod.splits sum.splits bind_splits option.splits dest!: slice_length
      dest: message_nonzero [OF assms(1)] slot_status_nonzero [OF assms(1)])

lemma command_nonzero:
  assumes "length out = 271" "handler_ok P d_inv h" "process_command P ops h msg out = Some (h', out', n)"
    "header_parse msg = Some hdr" "length msg \<le> 271"
  shows "0 < n \<or> opens_pin_session h hdr (frame_payload hdr msg) h' \<or> overlong_data P ops h hdr (frame_payload hdr msg)"
proof (cases "CCID_HEADER_SIZE + unat (dw_length hdr) < 2 ^ 32")
  case False
  with process_command_overflow [OF assms(4), of P ops h out] assms(3) show ?thesis by simp
next
  case True
  let ?p = "frame_payload hdr msg"
  have ok: "host_params_ok (h_host_params h)" "length (h_firmware_version h) \<le> 261" "length ?p \<le> 261"
    using assms(2,5) by (simp_all add: handler_ok_def)
  have d: "0 < k \<or> opens_pin_session h hdr ?p g \<or> overlong_data P ops h hdr ?p"
    if "dispatch P ops h hdr ?p out = Some (g, o', k)" for g o' k
    using that ok power_on_nonzero [OF assms(1), of P ops h hdr g o' k ?p] xfr_nonzero [OF assms(1), of P ops h hdr ?p g o' k]
      parameters_nonzero [OF assms(1) ok(1), of P hdr g o' k] escape_nonzero [OF assms(1) ok(2), of P hdr ?p g o' k]
      set_parameters_nonzero [OF assms(1) ok(1), of P hdr ?p g o' k] reset_parameters_nonzero [OF assms(1) ok(1), of P hdr g o' k]
      secure_nonzero [OF assms(1), of hdr P h ?p g o' k]
    by (auto simp: dispatch_def handle_power_off_def handle_get_slot_status_def Let_def split: if_splits
        dest: slot_status_nonzero [OF assms(1)])
  from assms(3) show ?thesis
    unfolding process_command_in_range [OF assms(4) True]
    by (auto split: if_splits bind_splits dest: d slot_status_nonzero [OF assms(1)])
qed

end
