(* ===== verification/T1_Props.thy ===== *)
theory T1_Props
  imports T1
begin

text \<open>
  Properties of the T=1 endpoint: every state it reaches is consistent and everything it sends is a
  well-formed block; host chains are assembled and card responses delivered without loss; lost
  answers are replayed without a second card exchange; and where the recovery rules of the
  endpoint do not recover.
\<close>

section \<open>Control bytes\<close>

lemma u8_le_1: "(w :: u8) \<le> 1 \<Longrightarrow> w = 0 \<or> w = 1"
proof -
  assume "w \<le> 1"
  then have "unat w = 0 \<or> unat w = 1" by (auto simp: word_le_nat_alt)
  then show ?thesis by (auto simp: word_unat_eq_iff)
qed

lemma xor_1_le: "(w :: u8) \<le> 1 \<Longrightarrow> w XOR 1 \<le> 1"
  by (auto dest!: u8_le_1)

lemma parse_i_pcb: "ns \<le> 1 \<Longrightarrow> nr \<le> 1 \<Longrightarrow> parse_pcb (i_pcb ns m nr) = Some (PcbI ns m nr)"
  by (cases m) (auto simp: parse_pcb_def i_pcb_def dest!: u8_le_1)

lemma parse_r_pcb: "nr \<le> 1 \<Longrightarrow> err \<in> {0, 1, 2, 3} \<Longrightarrow> parse_pcb (r_pcb nr err) = Some (PcbR nr err)"
  by (auto simp: parse_pcb_def r_pcb_def dest!: u8_le_1)

lemma parse_s_pcb: "parse_pcb (s_pcb kind response) = Some (PcbS kind response)"
  by (cases kind; cases response) (simp_all add: parse_pcb_def s_pcb_def)

section \<open>The invariant\<close>

definition opt_wf :: "bytes option \<Rightarrow> bool" where
  "opt_wf x = (case x of None \<Rightarrow> True | Some b \<Rightarrow> wf_block b)"

definition endpoint_ok :: "t1_endpoint \<Rightarrow> bool" where
  "endpoint_ok t \<longleftrightarrow>
     te_ns t \<le> 1 \<and> te_host_ns t \<le> 1 \<and> te_send_ifsc t \<le> 254 \<and>
     16 \<le> te_host_ifsd t \<and> te_host_ifsd t \<le> 254 \<and>
     length (te_recv_chain t) \<le> 512 \<and> length (te_send_chain t) \<le> 512 \<and>
     opt_wf (te_last_sent t) \<and> opt_wf (te_retry_first_frame t)"

definition result_ok :: "feed_result \<Rightarrow> bool" where
  "result_ok r = (case r of Immediate b \<Rightarrow> wf_block b | Apdu a \<Rightarrow> length a \<le> 512)"

definition step_ok :: "feed_result \<times> t1_endpoint \<Rightarrow> bool" where
  "step_ok s \<longleftrightarrow> result_ok (fst s) \<and> endpoint_ok (snd s)"

lemma block_wf: "heapless_ok hv \<Longrightarrow> length info \<le> 254 \<Longrightarrow> wf_block (block hv pcb info)"
  by (simp add: block_plain plain_block_wf)

lemma bad_block_ok: "heapless_ok hv \<Longrightarrow> endpoint_ok t \<Longrightarrow> step_ok (bad_block hv t)"
  by (simp add: bad_block_def step_ok_def result_ok_def block_wf)

lemma next_chain_block:
  assumes "heapless_ok hv" and "endpoint_ok t" and "te_send_chain t \<noteq> []"
  shows "take_next_chain_block hv t =
    (let chunk = take (te_send_ifsc t) (te_send_chain t);
         rest = drop (te_send_ifsc t) (te_send_chain t);
         b = plain_block (i_pcb (te_ns t) (rest \<noteq> []) (te_host_ns t)) chunk
     in (Some b, t\<lparr>te_send_chain := rest, te_ns := (if rest = [] then te_ns t XOR 1 else te_ns t),
                   te_last_sent := Some b\<rparr>))"
proof -
  let ?s = "te_send_chain t" and ?k = "te_send_ifsc t"
  have l: "length ?s \<le> 512" using assms(2) by (simp add: endpoint_ok_def)
  have "hv_extend_from_slice hv 512 [] (take (min ?k (length ?s)) ?s) = take ?k ?s"
    using assms(1) l by (subst hv_extend_ok) (simp_all add: min_def)
  moreover have "((\<lambda>v. hv_remove hv v 0) ^^ min ?k (length ?s)) ?s = drop ?k ?s"
    using assms(1) by (subst hv_remove_front) (simp_all add: min_def)
  moreover have "block hv pcb (take ?k ?s) = plain_block pcb (take ?k ?s)" for pcb
    using assms(1) l by (simp add: block_plain)
  moreover have "min ?k (length ?s) < length ?s \<longleftrightarrow> drop ?k ?s \<noteq> []" by auto
  ultimately show ?thesis
    using assms(3) unfolding take_next_chain_block_def Let_def by auto
qed

lemma next_chain_block_ok:
  assumes "heapless_ok hv" and "endpoint_ok t" and "take_next_chain_block hv t = (r, t')"
  shows "endpoint_ok t' \<and> opt_wf r"
proof (cases "te_send_chain t = []")
  case True
  with assms show ?thesis by (auto simp: take_next_chain_block_def opt_wf_def)
next
  case False
  have "length (take (te_send_ifsc t) (te_send_chain t)) \<le> 254"
    using assms(2) by (auto simp: endpoint_ok_def)
  then have "wf_block (plain_block p (take (te_send_ifsc t) (te_send_chain t)))" for p
    by (rule plain_block_wf)
  with assms(2,3) next_chain_block [OF assms(1,2) False] show ?thesis
    by (auto simp: endpoint_ok_def opt_wf_def Let_def xor_1_le)
qed

lemma s_request_ok:
  assumes "heapless_ok hv" and "endpoint_ok t" and "length info \<le> 254"
  shows "step_ok (on_s_request hv kind info t)"
  using assms
  by (cases kind)
    (auto simp: on_s_request_def Let_def step_ok_def result_ok_def endpoint_ok_def opt_wf_def block_wf)

lemma sent_ok: "endpoint_ok t \<Longrightarrow> te_last_sent t = Some b \<Longrightarrow> step_ok (Immediate b, t)"
  by (simp add: step_ok_def result_ok_def endpoint_ok_def opt_wf_def)

lemma s_response_ok:
  assumes "heapless_ok hv" and "endpoint_ok t"
  shows "step_ok (on_s_response hv kind info t)"
proof -
  let ?t = "t\<lparr>te_wtx_pending := False\<rparr>"
  have ok: "endpoint_ok ?t" using assms(2) by (simp add: endpoint_ok_def)
  obtain r t' where n: "take_next_chain_block hv ?t = (r, t')" by fastforce
  have t': "endpoint_ok t'" "opt_wf r" using next_chain_block_ok [OF assms(1) ok n] by auto
  then have "r = Some b \<Longrightarrow> step_ok (Immediate b, t'\<lparr>te_retry_first_frame := Some b\<rparr>)" for b
    by (simp add: step_ok_def result_ok_def endpoint_ok_def opt_wf_def)
  with n t' assms show ?thesis
    by (auto simp: on_s_response_def Let_def bad_block_ok sent_ok split: option.split)
qed

lemma r_block_ok:
  assumes "heapless_ok hv" and "endpoint_ok t"
  shows "step_ok (on_r_block hv t)"
proof -
  obtain r t' where n: "take_next_chain_block hv t = (r, t')" by fastforce
  have t': "endpoint_ok t'" "opt_wf r" using next_chain_block_ok [OF assms n] by auto
  then have "r = Some b \<Longrightarrow> step_ok (Immediate b, t')" for b
    by (simp add: step_ok_def result_ok_def opt_wf_def)
  with n t' assms show ?thesis
    by (auto simp: on_r_block_def bad_block_ok sent_ok split: option.split bool.split)
qed

lemma i_block_ok:
  assumes "heapless_ok hv" and "endpoint_ok t"
  shows "step_ok (on_i_block hv ns m info t)"
proof -
  have "opt_wf (te_retry_first_frame t)" using assms(2) by (simp add: endpoint_ok_def)
  with assms show ?thesis
    by (auto simp: on_i_block_def Let_def bad_block_ok hv_extend_append xor_1_le step_ok_def result_ok_def
        block_wf endpoint_ok_def opt_wf_def bad_block_def split: option.split bool.split)
qed

definition block_intact :: "bytes \<Rightarrow> bool" where
  "block_intact b \<longleftrightarrow>
     4 \<le> length b \<and> unat (b ! 2) \<le> 254 \<and> length b = unat (b ! 2) + 4 \<and> xor_fold b = 0"

definition react :: "heapless \<Rightarrow> u8 \<Rightarrow> bytes \<Rightarrow> t1_endpoint \<Rightarrow> feed_result \<times> t1_endpoint" where
  "react hv pcb info t =
     (case parse_pcb pcb of
        Some (PcbS kind response) \<Rightarrow>
          if response then on_s_response hv kind info t else on_s_request hv kind info t
      | Some (PcbR _ _) \<Rightarrow> on_r_block hv t
      | Some (PcbI ns m _) \<Rightarrow> on_i_block hv ns m info t
      | None \<Rightarrow> bad_block hv t)"

lemma feed_cases:
  "t1_feed hv bs t = (if block_intact bs then react hv (bs ! 1) (block_inf bs) t else bad_block hv t)"
proof (cases "4 \<le> length bs \<and> unat (bs ! 2) \<le> 254 \<and> length bs = unat (bs ! 2) + 4")
  case False
  then show ?thesis by (auto simp: t1_feed_def block_intact_def Let_def)
next
  case True
  let ?n = "3 + unat (bs ! 2)"
  have n: "?n < length bs" "length bs = Suc ?n" using True by auto
  then have "bs = take ?n bs @ [bs ! ?n]" by (metis le_refl take_Suc_conv_app_nth take_all_iff)
  then have "xor_fold bs = xor_fold (take ?n bs) XOR bs ! ?n" by (metis xor_fold_snoc)
  then have "xor_fold bs = 0 \<longleftrightarrow> t1_lrc (take ?n bs) = bs ! ?n"
    by (simp add: t1_lrc_xor xor_eq_0_u8)
  with True n show ?thesis
    by (auto simp: t1_feed_def block_intact_def Let_def react_def block_inf_def)
qed

lemma react_ok:
  assumes "heapless_ok hv" and "endpoint_ok t" and "length info \<le> 254"
  shows "step_ok (react hv pcb info t)"
  using assms
  by (auto simp: react_def s_request_ok s_response_ok r_block_ok i_block_ok bad_block_ok
      split: option.split pcb.split)

lemma feed_ok:
  assumes "heapless_ok hv" and "endpoint_ok t"
  shows "step_ok (t1_feed hv bs t)"
proof -
  have "length (block_inf bs) \<le> 254" if "block_intact bs"
    using that by (auto simp: block_intact_def block_inf_def)
  with assms show ?thesis by (simp add: feed_cases react_ok bad_block_ok)
qed

lemma feed_plain:
  "length info \<le> 254 \<Longrightarrow> t1_feed hv (plain_block pcb info) t = react hv pcb info t"
  using plain_block_wf [of info pcb] plain_block_parts [of info pcb]
  by (simp add: feed_cases block_intact_def wf_block_def)

section \<open>Card responses\<close>

lemma bwt_pos: "0 < unat (t1_bwt_ms bwi 10752)"
proof -
  let ?a = "(11 + 2 ^ unat (bwi AND 0x0F) * 960) * 1000 :: nat"
  have "?a \<le> div_ceil_nat ?a 10752 * 10752" by (rule div_ceil_nat_least) simp
  then have "0 < div_ceil_nat ?a 10752" by (cases "div_ceil_nat ?a 10752") auto
  then show ?thesis by (simp add: t1_bwt_ms_exact)
qed

abbreviation (input) host_bwt :: "t1_endpoint \<Rightarrow> u32" where
  "host_bwt t \<equiv> t1_bwt_ms (te_host_bwi t) 10752"

definition wtx_needed :: "u32 \<Rightarrow> t1_endpoint \<Rightarrow> bool" where
  "wtx_needed took_ms t \<longleftrightarrow> host_bwt t < took_ms + 100"

definition wtx_size :: "u32 \<Rightarrow> u32 \<Rightarrow> u8" where
  "wtx_size need bwt = ucast (clamp32 (if need mod bwt = 0 then need div bwt else need div bwt + 1) 2 59)"

lemma card_response_cases:
  assumes "heapless_ok hv" and "length rsp \<le> 512"
  shows "card_response hv rsp took_ms t =
    (let t1 = t\<lparr>te_send_chain := rsp\<rparr> in
     if wtx_needed took_ms t then
       let w = block hv (s_pcb Wtx False) [wtx_size (took_ms + 100) (host_bwt t)]
       in Some (w, cache_retry_answer w (t1\<lparr>te_wtx_pending := True, te_last_sent := Some w\<rparr>))
     else
       let (first, t2) = (case take_next_chain_block hv t1 of
                            (Some b, t) \<Rightarrow> (b, t) | (None, t) \<Rightarrow> final_empty_block hv t)
       in Some (first, cache_retry_answer first t2))"
proof -
  have "t1_bwt_ms b 10752 \<noteq> 0" for b using bwt_pos [of b] by auto
  moreover have "hv_extend_from_slice hv 512 [] (take (min (length rsp) 512) rsp) = rsp"
    using assms by (simp add: hv_extend_ok)
  ultimately show ?thesis
    by (simp add: card_response_def Let_def wtx_needed_def wtx_size_def)
qed

lemma card_response_truncates:
  "card_response hv rsp took_ms t = card_response hv (take 512 rsp) took_ms t"
  by (simp add: card_response_def min.commute)

lemma card_response_ok:
  assumes "heapless_ok hv" and "endpoint_ok t"
  shows "\<exists>b t'. card_response hv rsp took_ms t = Some (b, t') \<and> wf_block b \<and> endpoint_ok t'"
proof -
  let ?r = "take 512 rsp" and ?t = "t\<lparr>te_send_chain := take 512 rsp\<rparr>"
  have ok: "endpoint_ok ?t" using assms(2) by (simp add: endpoint_ok_def)
  obtain r t' where n: "take_next_chain_block hv ?t = (r, t')" by fastforce
  note t' = next_chain_block_ok [OF assms(1) ok n]
  have wf: "wf_block (block hv p [])" "wf_block (block hv p [m])" for p m
    using assms(1) by (simp_all add: block_wf)
  have "card_response hv ?r took_ms t =
    (if wtx_needed took_ms t then
       let w = block hv (s_pcb Wtx False) [wtx_size (took_ms + 100) (host_bwt t)]
       in Some (w, cache_retry_answer w (?t\<lparr>te_wtx_pending := True, te_last_sent := Some w\<rparr>))
     else
       let (first, t2) = (case r of Some b \<Rightarrow> (b, t') | None \<Rightarrow> final_empty_block hv t')
       in Some (first, cache_retry_answer first t2))"
    using card_response_cases [OF assms(1), of ?r took_ms t] n
    by (auto simp: Let_def split: option.split)
  then show ?thesis
    using ok t' wf
    by (subst card_response_truncates)
      (auto simp: Let_def cache_retry_answer_def final_empty_block_def endpoint_ok_def opt_wf_def xor_1_le
        split: option.splits)
qed

section \<open>Reachable endpoints\<close>

inductive t1_reach :: "heapless \<Rightarrow> t1_endpoint \<Rightarrow> bool" for hv :: heapless where
  new: "t1_reach hv endpoint_new"
| timing: "t1_reach hv t \<Longrightarrow> t1_reach hv (set_host_timing bwi ifsc t)"
| reset: "t1_reach hv t \<Longrightarrow> t1_reach hv (endpoint_reset t)"
| host: "t1_reach hv t \<Longrightarrow> t1_feed hv bs t = (r, t') \<Longrightarrow> t1_reach hv t'"
| card: "t1_reach hv t \<Longrightarrow> card_response hv rsp took_ms t = Some (b, t') \<Longrightarrow> t1_reach hv t'"

lemma endpoint_new_ok: "endpoint_ok endpoint_new"
  by (simp add: endpoint_ok_def endpoint_new_def opt_wf_def)

lemma t1_reach_ok:
  assumes "heapless_ok hv" and "t1_reach hv t"
  shows "endpoint_ok t"
  using assms(2)
proof induction
  case (host t bs r t')
  then show ?case using feed_ok [OF assms(1) host.IH, of bs] by (simp add: step_ok_def)
next
  case (card t rsp took_ms b t')
  then show ?case using card_response_ok [OF assms(1) card.IH, of rsp took_ms] by auto
next
  case (timing t bwi ifsc)
  then show ?case by (auto simp: set_host_timing_def endpoint_ok_def)
qed (simp_all add: endpoint_new_ok endpoint_reset_def)

text \<open>C28: The endpoint never emits a malformed block.  In every reachable state, whatever bytes the
  host sends, the immediate answer is a well-formed T=1 block (NAD 0, at most 254 information
  bytes, exact length, checksum zero) and an assembled APDU fits the relay buffer; framing a card
  response, of any length and after any delay, never panics and yields a well-formed block.\<close>

theorem t1_outputs_well_formed:
  assumes "heapless_ok hv" and "t1_reach hv t"
  shows "(case t1_feed hv bs t of
            (Immediate b, t') \<Rightarrow> wf_block b
          | (Apdu a, t') \<Rightarrow> length a \<le> 512) \<and>
         (\<exists>b t'. card_response hv rsp took_ms t = Some (b, t') \<and> wf_block b)"
  using feed_ok [OF assms(1) t1_reach_ok [OF assms], of bs]
    card_response_ok [OF assms(1) t1_reach_ok [OF assms], of rsp took_ms]
  by (auto simp: step_ok_def result_ok_def split: prod.splits feed_result.splits)

theorem t1_outputs_well_formed_witness:
  "\<exists>b t'. card_response heapless_list [0x90, 0x00] 20 endpoint_new = Some (b, t') \<and> wf_block b"
  using t1_outputs_well_formed [OF heapless_list_ok t1_reach.new] by blast

section \<open>Host chains\<close>

fun chain_blocks :: "u8 \<Rightarrow> u8 \<Rightarrow> bytes list \<Rightarrow> bytes list" where
  "chain_blocks ns nr [] = []"
| "chain_blocks ns nr [c] = [plain_block (i_pcb ns False nr) c]"
| "chain_blocks ns nr (c # d # cs) = plain_block (i_pcb ns True nr) c # chain_blocks ns nr (d # cs)"

fun feed_blocks :: "heapless \<Rightarrow> bytes list \<Rightarrow> t1_endpoint \<Rightarrow> feed_result list \<times> t1_endpoint" where
  "feed_blocks hv [] t = ([], t)"
| "feed_blocks hv (b # bs) t =
     (let (r, t) = t1_feed hv b t; (rs, t) = feed_blocks hv bs t in (r # rs, t))"

lemma feed_i_block:
  assumes "heapless_ok hv" and "ns = te_host_ns t" and "ns \<le> 1" and "nr \<le> 1"
    and "length c \<le> te_host_ifsd t" and "te_host_ifsd t \<le> 254"
    and "length (te_recv_chain t) + length c \<le> 512"
  shows "t1_feed hv (plain_block (i_pcb ns m nr) c) t =
    (if m then (Immediate (plain_block (r_pcb ns 0) []), t\<lparr>te_recv_chain := te_recv_chain t @ c\<rparr>)
     else (Apdu (te_recv_chain t @ c), t\<lparr>te_host_ns := ns XOR 1, te_recv_chain := []\<rparr>))"
  using assms
  by (simp add: feed_plain react_def parse_i_pcb on_i_block_def hv_extend_append block_plain Let_def)

lemma feed_chain:
  assumes "heapless_ok hv" and "ns = te_host_ns t" and "ns \<le> 1" and "nr \<le> 1" and "cs \<noteq> []"
    and "list_all (\<lambda>c. length c \<le> te_host_ifsd t) cs" and "te_host_ifsd t \<le> 254"
    and "length (te_recv_chain t) + length (concat cs) \<le> 512"
  shows "feed_blocks hv (chain_blocks ns nr cs) t =
    (replicate (length cs - 1) (Immediate (plain_block (r_pcb ns 0) [])) @ [Apdu (te_recv_chain t @ concat cs)],
     t\<lparr>te_host_ns := ns XOR 1, te_recv_chain := []\<rparr>)"
  using assms(2-)
proof (induction ns nr cs arbitrary: t rule: chain_blocks.induct)
  case (2 ns nr c)
  then show ?case using feed_i_block [OF assms(1) 2(1-3), of c False] by simp
next
  case (3 ns nr c d cs)
  let ?t = "t\<lparr>te_recv_chain := te_recv_chain t @ c\<rparr>"
  have "t1_feed hv (plain_block (i_pcb ns True nr) c) t = (Immediate (plain_block (r_pcb ns 0) []), ?t)"
    using feed_i_block [OF assms(1) 3(2-4), of c True] 3 by simp
  moreover have "feed_blocks hv (chain_blocks ns nr (d # cs)) ?t =
      (replicate (length (d # cs) - 1) (Immediate (plain_block (r_pcb ns 0) [])) @
         [Apdu (te_recv_chain ?t @ concat (d # cs))], ?t\<lparr>te_host_ns := ns XOR 1, te_recv_chain := []\<rparr>)"
    using 3 by (intro 3(1)) auto
  ultimately show ?case by simp
qed simp

text \<open>C29: Host chains are assembled without loss.  When the host sends an APDU cut into any non-empty
  sequence of pieces, each within the agreed block size and 512 bytes in total, as a chain of
  I-blocks with the expected sequence number, every block but the last is acknowledged with
  R(N(S)), the last yields exactly the concatenation of the pieces, and the expected sequence
  number toggles.\<close>

theorem t1_chain_assembled:
  assumes "heapless_ok hv" and "t1_reach hv t" and "te_recv_chain t = []" and "nr \<le> 1" and "cs \<noteq> []"
    and "list_all (\<lambda>c. length c \<le> te_host_ifsd t) cs" and "length (concat cs) \<le> 512"
  shows "feed_blocks hv (chain_blocks (te_host_ns t) nr cs) t =
    (replicate (length cs - 1) (Immediate (plain_block (r_pcb (te_host_ns t) 0) [])) @ [Apdu (concat cs)],
     t\<lparr>te_host_ns := te_host_ns t XOR 1, te_recv_chain := []\<rparr>)"
proof -
  have "te_host_ns t \<le> 1" "te_host_ifsd t \<le> 254"
    using t1_reach_ok [OF assms(1,2)] by (simp_all add: endpoint_ok_def)
  with feed_chain [OF assms(1) refl _ assms(4,5,6)] assms(3,7) show ?thesis by simp
qed

theorem t1_chain_assembled_witness:
  "fst (feed_blocks heapless_list (chain_blocks 0 0 [[0x00, 0xA4], [0x04, 0x00]]) endpoint_new) =
     [Immediate (plain_block (r_pcb 0 0) []), Apdu [0x00, 0xA4, 0x04, 0x00]]"
  using t1_chain_assembled [OF heapless_list_ok t1_reach.new, of 0 "[[0x00, 0xA4], [0x04, 0x00]]"]
  by (simp add: endpoint_new_def)

section \<open>Delivering a card response\<close>

text \<open>The host's side of a response chain: read the information field of a block and, while its M bit
  is set, acknowledge it with an R-block and read the next one.  Every round costs one unit of
  fuel; a run that returns \<open>None\<close> got something else than an I-block or did not finish.\<close>

fun host_collect :: "heapless \<Rightarrow> nat \<Rightarrow> bytes \<Rightarrow> t1_endpoint \<Rightarrow> (bytes \<times> t1_endpoint) option" where
  "host_collect hv 0 b t = None"
| "host_collect hv (Suc fuel) b t =
     (case parse_pcb (b ! 1) of
        Some (PcbI ns m nr) \<Rightarrow>
          if \<not> m then Some (block_inf b, t)
          else (case t1_feed hv (plain_block (r_pcb ns 0) []) t of
                  (Immediate b', t') \<Rightarrow>
                    map_option (\<lambda>(rest, t''). (block_inf b @ rest, t'')) (host_collect hv fuel b' t')
                | _ \<Rightarrow> None)
      | _ \<Rightarrow> None)"

lemma collect_rest:
  assumes "heapless_ok hv" and "endpoint_ok u" and "0 < te_send_ifsc u" and "\<not> te_wtx_pending u"
    and "parse_pcb (b ! 1) = Some (PcbI ns (te_send_chain u \<noteq> []) nr)" and "ns \<le> 1"
    and "length (te_send_chain u) < fuel"
  shows "\<exists>u2. host_collect hv fuel b u = Some (block_inf b @ te_send_chain u, u2) \<and> te_send_chain u2 = [] \<and>
           te_ns u2 = (if te_send_chain u = [] then te_ns u else te_ns u XOR 1)"
  using assms(2-)
proof (induction fuel arbitrary: u b ns nr)
  case (Suc fuel)
  show ?case
  proof (cases "te_send_chain u = []")
    case True
    with Suc.prems(4) show ?thesis by simp
  next
    case False
    let ?c = "take (te_send_ifsc u) (te_send_chain u)" and ?r = "drop (te_send_ifsc u) (te_send_chain u)"
    define b' where "b' = plain_block (i_pcb (te_ns u) (?r \<noteq> []) (te_host_ns u)) ?c"
    define u' where "u' = u\<lparr>te_send_chain := ?r, te_ns := (if ?r = [] then te_ns u XOR 1 else te_ns u),
                    te_last_sent := Some b'\<rparr>"
    have n: "take_next_chain_block hv u = (Some b', u')"
      using next_chain_block [OF assms(1) Suc.prems(1) False] by (simp add: Let_def b'_def u'_def)
    have ok': "endpoint_ok u'" using next_chain_block_ok [OF assms(1) Suc.prems(1) n] by simp
    have bits: "te_ns u \<le> 1" "te_host_ns u \<le> 1" and len: "length ?c \<le> 254"
      using Suc.prems(1) by (auto simp: endpoint_ok_def)
    have p: "parse_pcb (b' ! 1) = Some (PcbI (te_ns u) (te_send_chain u' \<noteq> []) (te_host_ns u))"
      and i: "block_inf b' = ?c"
      unfolding b'_def u'_def using plain_block_parts [OF len] parse_i_pcb [OF bits] by simp_all
    have "t1_feed hv (plain_block (r_pcb ns 0) []) u = (Immediate b', u')"
      using n Suc.prems(3,5) by (simp add: feed_plain react_def parse_r_pcb on_r_block_def)
    moreover have "length (te_send_chain u') < fuel"
    proof -
      have "length (te_send_chain u) - te_send_ifsc u < length (te_send_chain u)"
        using False Suc.prems(2) by (intro diff_less) simp_all
      then show ?thesis using Suc.prems(6) by (simp add: u'_def)
    qed
    with Suc.IH [OF ok' _ _ p bits(1)] Suc.prems(2,3) obtain u2 where
      "host_collect hv fuel b' u' = Some (?c @ te_send_chain u', u2)" "te_send_chain u2 = []"
      "te_ns u2 = (if te_send_chain u' = [] then te_ns u' else te_ns u' XOR 1)"
      using i by (auto simp: u'_def)
    ultimately show ?thesis using Suc.prems(4) False by (auto simp: u'_def)
  qed
qed simp

lemma chain_collected:
  assumes "heapless_ok hv" and "endpoint_ok t" and "0 < te_send_ifsc t" and "\<not> te_wtx_pending t"
    and "te_send_chain t \<noteq> []"
  shows "\<exists>b t1. take_next_chain_block hv t = (Some b, t1) \<and>
    (\<forall>x y. opt_wf y \<longrightarrow>
       (\<exists>t2. host_collect hv (length (te_send_chain t) + 1) b
               (t1\<lparr>te_retry_ns := x, te_retry_first_frame := y\<rparr>) = Some (te_send_chain t, t2) \<and>
             te_ns t2 = te_ns t XOR 1))"
proof -
  let ?c = "take (te_send_ifsc t) (te_send_chain t)" and ?r = "drop (te_send_ifsc t) (te_send_chain t)"
  define b where "b = plain_block (i_pcb (te_ns t) (?r \<noteq> []) (te_host_ns t)) ?c"
  define t1 where "t1 = t\<lparr>te_send_chain := ?r, te_ns := (if ?r = [] then te_ns t XOR 1 else te_ns t),
                  te_last_sent := Some b\<rparr>"
  have n: "take_next_chain_block hv t = (Some b, t1)"
    using next_chain_block [OF assms(1,2,5)] by (simp add: Let_def b_def t1_def)
  have bits: "te_ns t \<le> 1" "te_host_ns t \<le> 1" and len: "length ?c \<le> 254"
    using assms(2) by (auto simp: endpoint_ok_def)
  have p: "parse_pcb (b ! 1) = Some (PcbI (te_ns t) (?r \<noteq> []) (te_host_ns t))" and i: "block_inf b = ?c"
    unfolding b_def using plain_block_parts [OF len] parse_i_pcb [OF bits] by simp_all
  have "\<exists>t2. host_collect hv (length (te_send_chain t) + 1) b
               (t1\<lparr>te_retry_ns := x, te_retry_first_frame := y\<rparr>) = Some (te_send_chain t, t2) \<and>
             te_ns t2 = te_ns t XOR 1" if "opt_wf y" for x y
  proof -
    let ?u = "t1\<lparr>te_retry_ns := x, te_retry_first_frame := y\<rparr>"
    have ok: "endpoint_ok ?u" using next_chain_block_ok [OF assms(1,2) n] that by (simp add: endpoint_ok_def)
    have u: "te_send_chain ?u = ?r" "0 < te_send_ifsc ?u" "\<not> te_wtx_pending ?u"
      using assms(3,4) by (simp_all add: t1_def)
    have p': "parse_pcb (b ! 1) = Some (PcbI (te_ns t) (te_send_chain ?u \<noteq> []) (te_host_ns t))"
      using p u(1) by simp
    have "length (te_send_chain ?u) < length (te_send_chain t) + 1" using u(1) by simp
    from collect_rest [OF assms(1) ok u(2,3) p' bits(1) this] obtain u2 where
      "host_collect hv (length (te_send_chain t) + 1) b ?u = Some (?c @ ?r, u2)"
      "te_ns u2 = (if ?r = [] then te_ns ?u else te_ns ?u XOR 1)"
      unfolding u(1) i by blast
    moreover have "te_ns ?u = (if ?r = [] then te_ns t XOR 1 else te_ns t)" by (simp add: t1_def)
    ultimately show ?thesis by (intro exI [of _ u2]) (simp del: host_collect.simps)
  qed
  with n show ?thesis by blast
qed

lemma nil_block: "plain_block p [] ! Suc 0 = p" "block_inf (plain_block p []) = []"
  using plain_block_parts [of "[]" p] by simp_all

lemma response_collected:
  assumes "heapless_ok hv" and "endpoint_ok t" and "0 < te_send_ifsc t" and "\<not> te_wtx_pending t"
    and "length rsp \<le> 512" and "\<not> wtx_needed took_ms t"
  shows "\<exists>b t1 t2. card_response hv rsp took_ms t = Some (b, t1) \<and>
    host_collect hv (length rsp + 1) b t1 = Some (rsp, t2) \<and> te_ns t2 = te_ns t XOR 1"
proof (cases "rsp = []")
  case True
  have bits: "te_ns t \<le> 1" "te_host_ns t \<le> 1" using assms(2) by (simp_all add: endpoint_ok_def)
  from True assms(1) card_response_cases [OF assms(1,5), of took_ms t] assms(6) show ?thesis
    by (simp add: take_next_chain_block_def final_empty_block_def Let_def block_plain nil_block
        parse_i_pcb [OF bits] cache_retry_answer_def)
next
  case False
  let ?t = "t\<lparr>te_send_chain := rsp\<rparr>"
  have ok: "endpoint_ok ?t" using assms(2,5) by (simp add: endpoint_ok_def)
  obtain b t1 where n: "take_next_chain_block hv ?t = (Some b, t1)"
    and c: "\<And>x y. opt_wf y \<Longrightarrow> \<exists>t2. host_collect hv (length rsp + 1) b
      (t1\<lparr>te_retry_ns := x, te_retry_first_frame := y\<rparr>) = Some (rsp, t2) \<and> te_ns t2 = te_ns t XOR 1"
    using chain_collected [OF assms(1) ok] assms(3,4) False by auto
  have "wf_block b" using next_chain_block_ok [OF assms(1) ok n] by (simp add: opt_wf_def)
  with c [of "Some b"] have "\<exists>t2. host_collect hv (length rsp + 1) b (cache_retry_answer b t1) = Some (rsp, t2)
      \<and> te_ns t2 = te_ns t XOR 1"
    by (simp add: cache_retry_answer_def opt_wf_def)
  moreover have "card_response hv rsp took_ms t = Some (b, cache_retry_answer b t1)"
    using card_response_cases [OF assms(1,5), of took_ms t] n assms(6) by (simp add: Let_def)
  ultimately show ?thesis by blast
qed

lemma wtx_granted:
  assumes "heapless_ok hv" and "endpoint_ok t" and "0 < te_send_ifsc t" and "rsp \<noteq> []"
    and "length rsp \<le> 512" and "wtx_needed took_ms t"
  shows "\<exists>w t1 b t2 t3. card_response hv rsp took_ms t = Some (w, t1) \<and>
    w = plain_block (s_pcb Wtx False) [wtx_size (took_ms + 100) (host_bwt t)] \<and>
    t1_feed hv (plain_block (s_pcb Wtx True) (block_inf w)) t1 = (Immediate b, t2) \<and>
    host_collect hv (length rsp + 1) b t2 = Some (rsp, t3) \<and> te_ns t3 = te_ns t XOR 1"
proof -
  define m where "m = wtx_size (took_ms + 100) (host_bwt t)"
  define w where "w = plain_block (s_pcb Wtx False) [m]"
  define t1 where "t1 = cache_retry_answer w (t\<lparr>te_send_chain := rsp, te_wtx_pending := True,
      te_last_sent := Some w\<rparr>)"
  have cr: "card_response hv rsp took_ms t = Some (w, t1)"
    using card_response_cases [OF assms(1,5), of took_ms t] assms(1,6)
    by (simp add: Let_def block_plain w_def m_def t1_def)
  have wf: "wf_block w" unfolding w_def by (rule plain_block_wf) simp
  have inf: "block_inf w = [m]" unfolding w_def by (rule plain_block_parts(2)) simp
  let ?t = "t1\<lparr>te_wtx_pending := False\<rparr>"
  have ok: "endpoint_ok ?t"
    using assms(2,5) wf by (simp add: endpoint_ok_def t1_def cache_retry_answer_def opt_wf_def)
  obtain b t2 where n: "take_next_chain_block hv ?t = (Some b, t2)"
    and c: "\<And>x y. opt_wf y \<Longrightarrow> \<exists>t3. host_collect hv (length rsp + 1) b
      (t2\<lparr>te_retry_ns := x, te_retry_first_frame := y\<rparr>) = Some (rsp, t3) \<and> te_ns t3 = te_ns t XOR 1"
    using chain_collected [OF assms(1) ok] assms(3,4) by (auto simp: t1_def cache_retry_answer_def)
  have "wf_block b" using next_chain_block_ok [OF assms(1) ok n] by (simp add: opt_wf_def)
  with c [of "Some b" "te_retry_ns t2"] obtain t3 where
    "host_collect hv (length rsp + 1) b (t2\<lparr>te_retry_first_frame := Some b\<rparr>) = Some (rsp, t3)"
    "te_ns t3 = te_ns t XOR 1"
    by (auto simp: opt_wf_def)
  moreover have "t1_feed hv (plain_block (s_pcb Wtx True) (block_inf w)) t1 =
      (Immediate b, t2\<lparr>te_retry_first_frame := Some b\<rparr>)"
    using n by (simp add: inf feed_plain react_def parse_s_pcb on_s_response_def t1_def
        cache_retry_answer_def)
  ultimately show ?thesis using cr w_def m_def by blast
qed

text \<open>C30: A card response is delivered complete.  From any reachable state with a positive block size
  and no time extension outstanding, the host that acknowledges every block of the answer chain
  collects exactly the response, of 1 to 512 bytes, after finitely many blocks, and the send
  sequence number toggles once.  When the card was slow, the answer is S(WTX request m) instead,
  and granting it delivers the same response.\<close>

theorem t1_response_delivered:
  assumes "heapless_ok hv" and "t1_reach hv t" and "0 < te_send_ifsc t" and "\<not> te_wtx_pending t"
    and "rsp \<noteq> []" and "length rsp \<le> 512"
  shows "if wtx_needed took_ms t
    then \<exists>w t1 b t2 t3. card_response hv rsp took_ms t = Some (w, t1) \<and>
           w = plain_block (s_pcb Wtx False) [wtx_size (took_ms + 100) (host_bwt t)] \<and>
           t1_feed hv (plain_block (s_pcb Wtx True) (block_inf w)) t1 = (Immediate b, t2) \<and>
           host_collect hv (length rsp + 1) b t2 = Some (rsp, t3) \<and> te_ns t3 = te_ns t XOR 1
    else \<exists>b t1 t2. card_response hv rsp took_ms t = Some (b, t1) \<and>
           host_collect hv (length rsp + 1) b t1 = Some (rsp, t2) \<and> te_ns t2 = te_ns t XOR 1"
  using wtx_granted [OF assms(1) t1_reach_ok [OF assms(1,2)] assms(3,5,6)]
    response_collected [OF assms(1) t1_reach_ok [OF assms(1,2)] assms(3,4,6)]
  by presburger

theorem t1_response_delivered_witness:
  "\<exists>b t1 t2. card_response heapless_list [0x6F, 0x00, 0x90, 0x00] 20 endpoint_new = Some (b, t1) \<and>
     host_collect heapless_list 5 b t1 = Some ([0x6F, 0x00, 0x90, 0x00], t2)"
proof -
  have "\<not> wtx_needed 20 endpoint_new"
    by (simp add: wtx_needed_def endpoint_new_def word_less_nat_alt t1_bwt_ms_exact div_ceil_nat_def)
  then show ?thesis
    using t1_response_delivered [OF heapless_list_ok t1_reach.new, of "[0x6F, 0x00, 0x90, 0x00]" 20]
    by (auto simp: endpoint_new_def numeral_eq_Suc simp del: host_collect.simps)
qed

text \<open>The time extension covers the delay.  The multiplier the endpoint requests lies between 2
  and 59, and unless the delay exceeds 59 block waiting times, the extended window of that many
  block waiting times covers the measured card time plus the 100 ms turnaround margin.\<close>

theorem wtx_covers_delay:
  assumes "unat took_ms + 100 < 2 ^ 32" and "wtx_needed took_ms t"
  shows "unat (wtx_size (took_ms + 100) (host_bwt t)) \<in> {2..59} \<and>
    (unat took_ms + 100 \<le> 59 * unat (host_bwt t) \<longrightarrow>
       unat took_ms + 100 \<le> unat (wtx_size (took_ms + 100) (host_bwt t)) * unat (host_bwt t))"
proof -
  let ?w = "host_bwt t" and ?need = "took_ms + 100"
  define q where "q = (if ?need mod ?w = 0 then ?need div ?w else ?need div ?w + 1)"
  have w: "0 < unat ?w" by (rule bwt_pos)
  have n: "unat ?need = unat took_ms + 100" using assms(1) by (simp add: unat_word_ariths)
  have z: "?need mod ?w = 0 \<longleftrightarrow> unat ?need mod unat ?w = 0"
    by (simp add: word_unat_eq_iff unat_mod_distrib)
  have "unat ?need div unat ?w + 1 < 2 ^ 32" if "unat ?need mod unat ?w \<noteq> 0"
  proof -
    have "2 \<le> unat ?w" using that w by (cases "unat ?w = 1") auto
    then have "unat ?need div unat ?w \<le> unat ?need div 2" by (simp add: div_le_mono2)
    then show ?thesis using unat_u32_le [of ?need] by simp
  qed
  then have q: "unat q = div_ceil_nat (unat ?need) (unat ?w)"
    using z by (auto simp: q_def div_ceil_nat_def unat_div_distrib unat_word_ariths)
  have "unat (wtx_size ?need ?w) = unat (clamp32 q 2 59)"
  proof -
    have "unat (clamp32 q 2 59) \<le> 59" by (simp add: unat_clamp32)
    then show ?thesis
      unfolding wtx_size_def q_def [symmetric]
      by (simp add: unsigned_ucast_eq take_bit_nat_eq_self_iff)
  qed
  then have m: "unat (wtx_size ?need ?w) = (if unat q < 2 then 2 else if 59 < unat q then 59 else unat q)"
    by (simp add: unat_clamp32)
  have cover: "unat ?need \<le> unat q * unat ?w" using div_ceil_nat_least [OF w] q by simp
  have "unat q \<le> 59" if "unat ?need \<le> 59 * unat ?w"
    using div_ceil_nat_mono [OF w that] q w by (simp add: div_ceil_nat_def)
  moreover have "unat ?need \<le> 2 * unat ?w" if "unat q < 2"
    using cover mult_le_mono1 [OF less_imp_le [OF that], of "unat ?w"] by (rule order_trans)
  ultimately show ?thesis using m cover n by auto
qed

theorem wtx_covers_delay_witness:
  "unat (wtx_size (5000 + 100) (host_bwt endpoint_new)) \<in> {2..59}"
  using wtx_covers_delay [of 5000 endpoint_new]
  by (simp add: wtx_needed_def endpoint_new_def word_less_nat_alt t1_bwt_ms_exact div_ceil_nat_def)

section \<open>Recovery\<close>

text \<open>A lost answer is replayed, never re-executed.  Once a card response was framed, a
  retransmission of the host's last block (its old sequence number, no chaining) is answered with
  the first frame of that response and leaves the endpoint unchanged, so no second APDU reaches
  the card, however often the host repeats it.\<close>

theorem t1_retry_idempotent:
  assumes "heapless_ok hv" and "t1_reach hv t" and "card_response hv rsp took_ms t = Some (b, t1)"
    and "nr \<le> 1" and "length info \<le> 254"
  shows "t1_feed hv (plain_block (i_pcb (te_host_ns t1 XOR 1) False nr) info) t1 = (Immediate b, t1) \<and>
    feed_blocks hv (replicate k (plain_block (i_pcb (te_host_ns t1 XOR 1) False nr) info)) t1 =
      (replicate k (Immediate b), t1)"
proof -
  have "t1_reach hv t1" using assms(2,3) by (rule t1_reach.card)
  then have h: "te_host_ns t1 \<le> 1" using t1_reach_ok [OF assms(1)] by (simp add: endpoint_ok_def)
  have c: "te_retry_ns t1 = Some (te_host_ns t1 XOR 1)" "te_retry_first_frame t1 = Some b"
    using assms(3) by (auto simp: card_response_def Let_def cache_retry_answer_def split: if_splits prod.splits)
  have ne: "te_host_ns t1 XOR 1 \<noteq> te_host_ns t1" using u8_le_1 [OF h] by auto
  have one: "t1_feed hv (plain_block (i_pcb (te_host_ns t1 XOR 1) False nr) info) t1 = (Immediate b, t1)"
    using c ne assms(4,5) xor_1_le [OF h]
    by (simp add: feed_plain react_def parse_i_pcb on_i_block_def)
  moreover have "feed_blocks hv (replicate k (plain_block (i_pcb (te_host_ns t1 XOR 1) False nr) info)) t1 =
      (replicate k (Immediate b), t1)"
    by (induction k) (simp_all add: one)
  ultimately show ?thesis ..
qed

theorem t1_retry_idempotent_witness:
  "\<exists>b t1. card_response heapless_list [0x90, 0x00] 20 endpoint_new = Some (b, t1) \<and>
     t1_feed heapless_list (plain_block (i_pcb (te_host_ns t1 XOR 1) False 0) [0x00, 0xA4]) t1
       = (Immediate b, t1)"
proof -
  obtain b t1 where c: "card_response heapless_list [0x90, 0x00] 20 endpoint_new = Some (b, t1)"
    using card_response_ok [OF heapless_list_ok endpoint_new_ok] by blast
  then show ?thesis
    using t1_retry_idempotent [OF heapless_list_ok t1_reach.new c, of 0 "[0x00, 0xA4]"] by auto
qed

text \<open>Damaged blocks change nothing.  Any byte string that is not an intact block (wrong length
  field, more than 254 information bytes, wrong checksum) is answered with an R-block demanding
  retransmission and leaves the endpoint exactly as it was.\<close>

theorem t1_damaged_block_rejected:
  assumes "heapless_ok hv" and "\<not> block_intact bs"
  shows "t1_feed hv bs t = (Immediate (plain_block (r_pcb (te_host_ns t) 1) []), t)"
  using assms by (simp add: feed_cases bad_block_def block_plain)

theorem t1_damaged_block_rejected_witness:
  "t1_feed heapless_list [0x00, 0x00, 0x01, 0xA4, 0x00] endpoint_new =
     (Immediate (plain_block (r_pcb 0 1) []), endpoint_new)"
proof -
  have "\<not> block_intact [0x00, 0x00, 0x01, 0xA4, 0x00]" by (simp add: block_intact_def xor_fold_def)
  from t1_damaged_block_rejected [OF heapless_list_ok this, of endpoint_new] show ?thesis
    by (simp add: endpoint_new_def)
qed

text \<open>A negative acknowledgement loses a block.  While an answer chain is in flight the endpoint
  reacts to every R-block alike, whatever sequence number and error code it carries: it moves on
  to the next block.  So a host that reports a checksum error for a chained block never gets that
  block again, and collecting the chain then yields the response with that block missing.\<close>

theorem t1_nak_loses_block:
  assumes "heapless_ok hv" and "t1_reach hv t" and "0 < te_send_ifsc t" and "\<not> te_wtx_pending t"
    and "te_send_ifsc t < length (te_send_chain t)" and "nr \<le> 1" and "err \<in> {0, 1, 2, 3}"
    and "take_next_chain_block hv t = (Some lost, t1)"
  shows "\<exists>b t2 t3. t1_feed hv (plain_block (r_pcb nr err) []) t1 = (Immediate b, t2) \<and>
    host_collect hv (length (te_send_chain t) + 1) b t2 = Some (drop (te_send_ifsc t) (te_send_chain t), t3)"
proof -
  note ok = t1_reach_ok [OF assms(1,2)]
  let ?r = "drop (te_send_ifsc t) (te_send_chain t)"
  have "te_send_chain t \<noteq> []" using assms(5) by auto
  from next_chain_block [OF assms(1) ok this] assms(5,8)
  have t1: "t1 = t\<lparr>te_send_chain := ?r, te_last_sent := Some lost\<rparr>" by (auto simp: Let_def)
  have ok1: "endpoint_ok t1" using next_chain_block_ok [OF assms(1) ok assms(8)] by simp
  have ne: "te_send_chain t1 \<noteq> []" "te_send_chain t1 = ?r" "0 < te_send_ifsc t1" "\<not> te_wtx_pending t1"
    using t1 assms(3-5) by auto
  let ?r2 = "drop (te_send_ifsc t1) ?r" and ?c = "take (te_send_ifsc t1) ?r"
  define b where "b = plain_block (i_pcb (te_ns t1) (?r2 \<noteq> []) (te_host_ns t1)) ?c"
  obtain t2 where n: "take_next_chain_block hv t1 = (Some b, t2)" and s2: "te_send_chain t2 = ?r2"
    and f2: "te_send_ifsc t2 = te_send_ifsc t1" "te_wtx_pending t2 = te_wtx_pending t1"
    using next_chain_block [OF assms(1) ok1 ne(1)] ne(2) by (auto simp: Let_def b_def)
  have fd: "t1_feed hv (plain_block (r_pcb nr err) []) t1 = (Immediate b, t2)"
    using n ne(4) assms(6,7) by (simp add: feed_plain react_def parse_r_pcb on_r_block_def)
  have ok2: "endpoint_ok t2" using next_chain_block_ok [OF assms(1) ok1 n] by simp
  have bits: "te_ns t1 \<le> 1" "te_host_ns t1 \<le> 1" and len: "length ?c \<le> 254"
    using ok1 by (auto simp: endpoint_ok_def)
  have p: "parse_pcb (b ! 1) = Some (PcbI (te_ns t1) (te_send_chain t2 \<noteq> []) (te_host_ns t1))"
    and i: "block_inf b = ?c"
    unfolding b_def s2 using plain_block_parts [OF len] parse_i_pcb [OF bits] by simp_all
  have "0 < te_send_ifsc t2" "\<not> te_wtx_pending t2" "length (te_send_chain t2) < length (te_send_chain t) + 1"
    using f2 ne s2 by auto
  from collect_rest [OF assms(1) ok2 this(1,2) p bits(1) this(3)] i s2 fd show ?thesis
    by (metis append_take_drop_id)
qed

theorem t1_nak_loses_block_witness:
  "\<exists>b0 t lost t1 b t2 t3. card_response heapless_list (replicate 40 1 @ replicate 40 2) 20 endpoint_new = Some (b0, t) \<and>
     take_next_chain_block heapless_list t = (Some lost, t1) \<and>
     t1_feed heapless_list (plain_block (r_pcb 0 1) []) t1 = (Immediate b, t2) \<and>
     host_collect heapless_list 49 b t2 = Some (replicate 16 2, t3)"
proof -
  let ?rsp = "replicate 40 1 @ replicate 40 2 :: bytes"
  let ?t0 = "endpoint_new\<lparr>te_send_chain := ?rsp\<rparr>"
  have "\<not> wtx_needed 20 endpoint_new"
    by (simp add: wtx_needed_def endpoint_new_def word_less_nat_alt t1_bwt_ms_exact div_ceil_nat_def)
  moreover have ok: "endpoint_ok ?t0" using endpoint_new_ok by (simp add: endpoint_ok_def)
  ultimately obtain b0 t where c: "card_response heapless_list ?rsp 20 endpoint_new = Some (b0, t)"
    and t: "te_send_chain t = replicate 8 1 @ replicate 40 2" "te_send_ifsc t = 32" "\<not> te_wtx_pending t"
    using card_response_cases [OF heapless_list_ok, of ?rsp 20 endpoint_new]
      next_chain_block [OF heapless_list_ok ok]
    by (auto simp: Let_def cache_retry_answer_def endpoint_new_def)
  have r: "t1_reach heapless_list t" using t1_reach.new c by (rule t1_reach.card)
  have "te_send_chain t \<noteq> []" using t by simp
  from next_chain_block [OF heapless_list_ok t1_reach_ok [OF heapless_list_ok r] this]
  obtain lost t1 where n: "take_next_chain_block heapless_list t = (Some lost, t1)" by (simp add: Let_def)
  have "te_send_ifsc t < length (te_send_chain t)" "0 < te_send_ifsc t" using t by simp_all
  from t1_nak_loses_block [OF heapless_list_ok r this(2) t(3) this(1) _ _ n, of 0 1] t c n
  show ?thesis by (auto simp del: host_collect.simps simp: numeral_eq_Suc)
qed

lemma collect_stalls:
  assumes "heapless_ok hv" and "endpoint_ok u" and "te_send_ifsc u = 0" and "\<not> te_wtx_pending u"
    and "te_send_chain u \<noteq> []" and "parse_pcb (b ! 1) = Some (PcbI ns True nr)" and "ns \<le> 1"
  shows "host_collect hv fuel b u = None"
  using assms(2-)
proof (induction fuel arbitrary: u b ns nr)
  case (Suc fuel)
  define b' where "b' = plain_block (i_pcb (te_ns u) True (te_host_ns u)) []"
  define u' where "u' = u\<lparr>te_last_sent := Some b'\<rparr>"
  have n: "take_next_chain_block hv u = (Some b', u')"
    using next_chain_block [OF assms(1) Suc.prems(1,4)] Suc.prems(2,4) by (simp add: Let_def b'_def u'_def)
  have ok': "endpoint_ok u'" using next_chain_block_ok [OF assms(1) Suc.prems(1) n] by simp
  have bits: "te_ns u \<le> 1" "te_host_ns u \<le> 1" using Suc.prems(1) by (simp_all add: endpoint_ok_def)
  have p: "parse_pcb (b' ! 1) = Some (PcbI (te_ns u) True (te_host_ns u))"
    unfolding b'_def by (simp add: nil_block parse_i_pcb [OF bits])
  have "t1_feed hv (plain_block (r_pcb ns 0) []) u = (Immediate b', u')"
    using n Suc.prems(3,6) by (simp add: feed_plain react_def parse_r_pcb on_r_block_def)
  moreover have "host_collect hv fuel b' u' = None"
    using Suc.IH [OF ok' _ _ _ p bits(1)] Suc.prems(2-4) by (simp add: u'_def)
  ultimately show ?case using Suc.prems(5) by simp
qed simp

text \<open>S(IFS 0) makes the endpoint useless.  The endpoint accepts the request and confirms it, and
  from then on every non-empty response is sent as an endless chain of empty blocks with the M bit
  set: however many blocks the host acknowledges, it never collects the response.\<close>

theorem t1_ifs_zero_stalls:
  assumes "heapless_ok hv" and "t1_reach hv t" and "\<not> te_wtx_pending t"
    and "t1_feed hv (plain_block (s_pcb Ifs False) [0]) t = (r, t1)"
    and "rsp \<noteq> []" and "length rsp \<le> 512" and "\<not> wtx_needed took_ms t1"
  shows "r = Immediate (plain_block (s_pcb Ifs True) [0]) \<and>
    (\<exists>b t2. card_response hv rsp took_ms t1 = Some (b, t2) \<and> (\<forall>fuel. host_collect hv fuel b t2 = None))"
proof -
  have r: "r = Immediate (plain_block (s_pcb Ifs True) [0])"
    and t1: "te_send_ifsc t1 = 0" "\<not> te_wtx_pending t1"
    using assms(1,3,4) by (auto simp: feed_plain react_def parse_s_pcb on_s_request_def Let_def block_plain)
  have ok1: "endpoint_ok t1" using t1_reach_ok [OF assms(1) t1_reach.host [OF assms(2,4)]] .
  let ?u = "t1\<lparr>te_send_chain := rsp\<rparr>"
  have oku: "endpoint_ok ?u" using ok1 assms(6) by (simp add: endpoint_ok_def)
  define b where "b = plain_block (i_pcb (te_ns t1) True (te_host_ns t1)) []"
  define t2 where "t2 = cache_retry_answer b (?u\<lparr>te_last_sent := Some b\<rparr>)"
  have n: "take_next_chain_block hv ?u = (Some b, ?u\<lparr>te_last_sent := Some b\<rparr>)"
    using next_chain_block [OF assms(1) oku] assms(5) t1 by (simp add: Let_def b_def)
  have c: "card_response hv rsp took_ms t1 = Some (b, t2)"
    using card_response_cases [OF assms(1,6), of took_ms t1] n assms(7) by (simp add: Let_def t2_def)
  have wf: "wf_block b" unfolding b_def by (rule plain_block_wf) simp
  have bits: "te_ns t1 \<le> 1" "te_host_ns t1 \<le> 1" using ok1 by (simp_all add: endpoint_ok_def)
  have p: "parse_pcb (b ! 1) = Some (PcbI (te_ns t1) True (te_host_ns t1))"
    unfolding b_def by (simp add: nil_block parse_i_pcb [OF bits])
  have "endpoint_ok t2" using oku wf by (simp add: endpoint_ok_def t2_def cache_retry_answer_def opt_wf_def)
  from collect_stalls [OF assms(1) this _ _ _ p bits(1)] t1 assms(5)
  have "host_collect hv fuel b t2 = None" for fuel by (simp add: t2_def cache_retry_answer_def)
  with r c show ?thesis by blast
qed

theorem t1_ifs_zero_stalls_witness:
  "\<exists>t1 b t2. card_response heapless_list [0x90, 0x00] 20 t1 = Some (b, t2) \<and>
     (\<forall>fuel. host_collect heapless_list fuel b t2 = None)"
proof -
  let ?req = "plain_block (s_pcb Ifs False) [0]"
  obtain r t1 where f: "t1_feed heapless_list ?req endpoint_new = (r, t1)" by fastforce
  have "te_host_bwi t1 = 4"
    using f by (auto simp: feed_plain react_def parse_s_pcb on_s_request_def Let_def endpoint_new_def)
  then have "\<not> wtx_needed 20 t1"
    by (simp add: wtx_needed_def word_less_nat_alt t1_bwt_ms_exact div_ceil_nat_def)
  from t1_ifs_zero_stalls [OF heapless_list_ok t1_reach.new _ f _ _ this, of "[0x90, 0x00]"]
  show ?thesis by (auto simp: endpoint_new_def)
qed

text \<open>The test that lets supervisory requests through without an active card does not tell
  requests from responses: it holds of every S-block of every kind, because it looks at bit 0x10
  while the response bit is 0x20; it never holds of I-blocks and R-blocks.\<close>

theorem s_block_request_test_ignores_response_bit:
  assumes "length info \<le> 254" and "ns \<le> 1" and "nr \<le> 1" and "err \<in> {0, 1, 2, 3}"
  shows "is_s_block_request (plain_block (s_pcb kind response) info) \<and>
    \<not> is_s_block_request (plain_block (i_pcb ns m nr) info) \<and>
    \<not> is_s_block_request (plain_block (r_pcb nr err) info)"
proof -
  have l: "\<not> length (plain_block p info) < 4" "plain_block p info ! Suc 0 = p" for p
    using plain_block_parts(1) [OF assms(1), of p] by (simp_all add: plain_block_def)
  have "s_pcb kind response AND 0xC0 = 0xC0 \<and> s_pcb kind response AND 0x10 = 0"
    by (cases kind; cases response) (simp_all add: s_pcb_def)
  moreover have "i_pcb ns m nr AND 0xC0 \<noteq> 0xC0"
    using u8_le_1 [OF assms(2)] u8_le_1 [OF assms(3)] by (cases m) (auto simp: i_pcb_def)
  moreover have "r_pcb nr err AND 0xC0 \<noteq> 0xC0"
    using u8_le_1 [OF assms(3)] assms(4) by (auto simp: r_pcb_def)
  ultimately show ?thesis by (simp add: is_s_block_request_def Let_def l)
qed

theorem s_block_request_test_ignores_response_bit_witness:
  "is_s_block_request (plain_block (s_pcb Wtx True) [1])"
  using s_block_request_test_ignores_response_bit [of "[1]" 0 0 0 Wtx True False] by simp

end
