(* ===== verification/Ccid_Handler_Facts.thy ===== *)
theory Ccid_Handler_Facts
  imports Ccid_Handler Handler_Room T1_Props
begin

text \<open>
  The invariant of the serial handler and its preservation: the core is consistent, the endpoint is
  consistent, every event of the core has been consumed, and the T=1 timing the endpoint runs on is
  the one the host was told.
\<close>

section \<open>What a command leaves alone in the core\<close>

definition session_kept :: "'d handler \<Rightarrow> 'd handler \<Rightarrow> bool" where
  "session_kept h h' \<longleftrightarrow>
     h_pin_pad h' = h_pin_pad h \<and>
     h_card_reset_event h' = h_card_reset_event h \<and>
     h_parameters_accepted_event h' = h_parameters_accepted_event h \<and>
     h_host_params h' = h_host_params h \<and> h_current_protocol h' = h_current_protocol h"

lemma session_kept_refl [simp]: "session_kept h h"
  by (simp add: session_kept_def)

lemma message_state: "message h hdr mt st err sp data out = Some (h', out', n) \<Longrightarrow> h' = h"
  by (simp add: message_def reply_def)

lemma slot_status_state: "slot_status h hdr icc st err out = Some (h', out', n) \<Longrightarrow> h' = h"
  by (simp add: slot_status_def reply_def)

lemma write_parameters_state: "write_parameters P h hdr out = Some (h', out', n) \<Longrightarrow> h' = h"
  by (auto simp: write_parameters_def split: prod.splits bind_splits dest: message_state)

lemmas reply_state = message_state slot_status_state write_parameters_state

lemma answer_get_uid_kept: "answer_get_uid ops h hdr out = Some (h', out', n) \<Longrightarrow> session_kept h h'"
  by (auto simp: answer_get_uid_def write_sw_def Let_def session_kept_def split: option.splits bind_splits
      dest!: reply_state)

lemma apdu_pipeline_kept:
  "apdu_pipeline P ops h hdr apdu out = Some (h', out', n) \<Longrightarrow> session_kept h h'"
  by (auto simp: apdu_pipeline_def write_sw_def Let_def session_kept_def
      split: prod.splits sum.splits if_splits bind_splits
      dest!: reply_state answer_get_uid_kept)


text \<open>On the contactless profile the negotiated parameters change only together with the event that
  announces them.\<close>

definition params_announced :: "'d handler \<Rightarrow> 'd handler \<Rightarrow> bool" where
  "params_announced h h' \<longleftrightarrow>
     h_pin_pad h' = h_pin_pad h \<and>
     (h_parameters_accepted_event h' \<or>
        h_host_params h' = h_host_params h \<and> h_current_protocol h' = h_current_protocol h)"

lemma kept_announced: "session_kept h h' \<Longrightarrow> params_announced h h'"
  by (simp add: session_kept_def params_announced_def)

lemma announced_refl [simp]: "params_announced h h"
  by (simp add: params_announced_def)

lemma power_announced:
  "handle_power_on SerialNfcProfile ops h hdr out = Some (h', out', n) \<Longrightarrow> params_announced h h'"
  "handle_power_off SerialNfcProfile ops h hdr out = Some (h', out', n) \<Longrightarrow> params_announced h h'"
  by (auto simp: handle_power_on_def handle_power_off_def SerialNfcProfile_def Let_def params_announced_def
      split: prod.splits sum.splits if_splits bind_splits dest!: reply_state)

lemma xfr_announced:
  "handle_xfr_block SerialNfcProfile ops h hdr apdu out = Some (h', out', n) \<Longrightarrow> params_announced h h'"
  by (auto simp: handle_xfr_block_def SerialNfcProfile_def split: if_splits
      dest!: reply_state intro: kept_announced dest: apdu_pipeline_kept)

lemma parameters_announced:
  "handle_set_parameters SerialNfcProfile h hdr payload out = Some (h', out', n) \<Longrightarrow> params_announced h h'"
  "handle_reset_parameters SerialNfcProfile h hdr out = Some (h', out', n) \<Longrightarrow> params_announced h h'"
  by (auto simp: handle_set_parameters_def handle_reset_parameters_def SerialNfcProfile_def Let_def
      params_announced_def split: if_splits dest!: reply_state)

lemma escape_secure_announced:
  "handle_escape SerialNfcProfile h hdr payload out = Some (h', out', n) \<Longrightarrow> params_announced h h'"
  "handle_secure SerialNfcProfile h hdr payload out = Some (h', out', n) \<Longrightarrow> params_announced h h'"
  by (auto simp: handle_escape_def escape_answer_def handle_secure_def secure_not_supported_def
      SerialNfcProfile_def Let_def params_announced_def
      split: if_splits option.splits list.splits bind_splits dest!: reply_state)

lemma dispatch_announced:
  "dispatch SerialNfcProfile ops h hdr payload out = Some (h', out', n) \<Longrightarrow> params_announced h h'"
  by (auto simp: dispatch_def Let_def handle_get_slot_status_def split: if_splits
      dest: power_announced xfr_announced parameters_announced escape_secure_announced
      dest!: reply_state intro: kept_announced)

lemma announced_error:
  "params_announced h (record_protocol_error h') = params_announced h h'"
  "params_announced (record_protocol_error h) h' = params_announced h h'"
  by (simp_all add: params_announced_def record_protocol_error_def)

lemma process_command_announced:
  "process_command SerialNfcProfile ops h msg out = Some (h', out', n) \<Longrightarrow> params_announced h h'"
  by (auto simp: process_command_def Let_def announced_error
      split: option.splits if_splits bind_splits prod.splits
      dest!: reply_state dest: dispatch_announced intro: kept_announced)

lemma check_card_change_kept:
  assumes "check_card_change SerialNfcProfile ops h = (ev, h')"
  shows "h_pin_pad h' = h_pin_pad h \<and> h_host_params h' = h_host_params h \<and>
    h_current_protocol h' = h_current_protocol h \<and>
    h_parameters_accepted_event h' = h_parameters_accepted_event h"
  using assms
  by (auto simp: check_card_change_def SerialNfcProfile_def Let_def split: prod.splits if_splits)

section \<open>What the endpoint leaves alone\<close>

definition timing_kept :: "t1_endpoint \<Rightarrow> t1_endpoint \<Rightarrow> bool" where
  "timing_kept t t' \<longleftrightarrow> te_host_bwi t' = te_host_bwi t \<and> te_host_ifsd t' = te_host_ifsd t"

lemma next_chain_timing: "take_next_chain_block hv t = (r, t') \<Longrightarrow> timing_kept t t'"
  by (auto simp: take_next_chain_block_def Let_def timing_kept_def split: if_splits)

lemma feed_timing: "t1_feed hv bs t = (r, t') \<Longrightarrow> timing_kept t t'"
  by (auto simp: t1_feed_def Let_def bad_block_def on_s_request_def on_s_response_def on_r_block_def
      on_i_block_def timing_kept_def
      split: if_splits option.splits pcb.splits skind.splits prod.splits bool.splits
      dest!: next_chain_timing)

lemma card_response_timing: "card_response hv rsp took_ms t = Some (b, t') \<Longrightarrow> timing_kept t t'"
  by (auto simp: card_response_def Let_def final_empty_block_def cache_retry_answer_def timing_kept_def
      split: if_splits option.splits prod.splits dest!: next_chain_timing)


section \<open>The invariant\<close>

text \<open>\<open>host_timing core\<close> is the block waiting integer and the largest block the endpoint accepts, as
  negotiated; without a negotiated set the defaults of the ATR.\<close>

definition host_timing :: "'d handler \<Rightarrow> u8 \<times> nat" where
  "host_timing core =
     (case applied_t1_timing core of
        Some (bwi, cwi, ifsc) \<Rightarrow> (bwi, min (max (unat ifsc) 16) 254)
      | None \<Rightarrow> (ATR_TB3_BWI, DEFAULT_HOST_IFSD))"

definition timing_agrees :: "'d ccid_handler \<Rightarrow> bool" where
  "timing_agrees ch \<longleftrightarrow>
     (ch_t1_armed ch \<longrightarrow> (te_host_bwi (ch_t1 ch), te_host_ifsd (ch_t1 ch)) = host_timing (ch_core ch))"

definition wrapper_ok :: "heapless \<Rightarrow> ('d \<Rightarrow> bool) \<Rightarrow> 'd ccid_handler \<Rightarrow> bool" where
  "wrapper_ok hv n_inv ch \<longleftrightarrow>
     handler_ok SerialNfcProfile (\<lambda>a. n_inv (ca_driver a)) (ch_core ch) \<and> t1_reach hv (ch_t1 ch) \<and>
     \<not> h_pin_pad (ch_core ch) \<and> \<not> h_card_reset_event (ch_core ch) \<and>
     \<not> h_parameters_accepted_event (ch_core ch) \<and> timing_agrees ch"

definition good_answer_to ::
    "heapless \<Rightarrow> ('d \<Rightarrow> bool) \<Rightarrow> ccid_header \<Rightarrow> bytes \<Rightarrow> 'd ch_reply \<Rightarrow> bool" where
  "good_answer_to hv n_inv hdr out r =
     (case r of
        None \<Rightarrow> False
      | Some (ch, out', n) \<Rightarrow>
          wrapper_ok hv n_inv ch \<and> length out' = length out \<and>
          (if n = 0 then out' = out \<and> length out < 281 else answers_request hdr out' n))"

lemma wrapper_okD:
  assumes "wrapper_ok hv n_inv ch"
  shows "handler_ok SerialNfcProfile (\<lambda>a. n_inv (ca_driver a)) (ch_core ch)" "t1_reach hv (ch_t1 ch)"
    "n_inv (ch_driver ch)"
  using assms by (auto simp: wrapper_ok_def handler_ok_def)

lemma host_timing_cong:
  "h_host_params h' = h_host_params h \<Longrightarrow> h_current_protocol h' = h_current_protocol h \<Longrightarrow>
     host_timing h' = host_timing h"
  by (auto simp: host_timing_def applied_t1_timing_def split: option.split)

lemma wrapper_ok_update:
  assumes "wrapper_ok hv n_inv ch" and "session_kept (ch_core ch) core" and "timing_kept (ch_t1 ch) t"
    and "handler_ok SerialNfcProfile (\<lambda>a. n_inv (ca_driver a)) core" and "t1_reach hv t"
  shows "wrapper_ok hv n_inv (ch\<lparr>ch_core := core, ch_t1 := t\<rparr>)"
  using assms host_timing_cong [of core "ch_core ch"]
  by (auto simp: wrapper_ok_def session_kept_def timing_kept_def timing_agrees_def)

lemma timing_kept_refl [simp]: "timing_kept t t"
  by (simp add: timing_kept_def)

lemma wrapper_ok_core:
  assumes "wrapper_ok hv n_inv ch" and "session_kept (ch_core ch) core"
    and "handler_ok SerialNfcProfile (\<lambda>a. n_inv (ca_driver a)) core"
  shows "wrapper_ok hv n_inv (ch\<lparr>ch_core := core\<rparr>)"
  using wrapper_ok_update [OF assms(1,2) timing_kept_refl assms(3) wrapper_okD(2) [OF assms(1)]] by simp

lemma wrapper_ok_t1:
  assumes "wrapper_ok hv n_inv ch" and "timing_kept (ch_t1 ch) t" and "t1_reach hv t"
  shows "wrapper_ok hv n_inv (ch\<lparr>ch_t1 := t\<rparr>)"
  using wrapper_ok_update [OF assms(1) session_kept_refl assms(2) wrapper_okD(1) [OF assms(1)] assms(3)] by simp

lemma feed_kept:
  assumes "heapless_ok hv" and "wrapper_ok hv n_inv ch" and "t1_feed hv bs (ch_t1 ch) = (r, t)"
  shows "wrapper_ok hv n_inv (ch\<lparr>ch_t1 := t\<rparr>)" and "result_ok r"
  using wrapper_ok_t1 [OF assms(2) feed_timing [OF assms(3)]
      t1_reach.host [OF wrapper_okD(2) [OF assms(2)] assms(3)]]
    feed_ok [OF assms(1) t1_reach_ok [OF assms(1) wrapper_okD(2) [OF assms(2)]], of bs] assms(3)
  by (auto simp: step_ok_def)

lemma protocol_error_kept:
  "wrapper_ok hv n_inv ch \<Longrightarrow> wrapper_ok hv n_inv (ch\<lparr>ch_core := record_protocol_error (ch_core ch)\<rparr>)"
  by (rule wrapper_ok_core)
    (auto simp: session_kept_def record_protocol_error_ok dest: wrapper_okD,
     simp_all add: record_protocol_error_def)

section \<open>Answers\<close>

lemma write_message_answers:
  assumes "write_message mt (slot hdr) (seq hdr) st err sp data out = (out', n)" and "length data \<le> 271"
  shows "length out' = length out \<and>
    (if n = 0 then out' = out \<and> length out < 281 else answers_request hdr out' n)"
proof (cases "CCID_HEADER_SIZE + length data \<le> length out")
  case True
  then have "n \<noteq> 0" using assms(1) by (auto simp: write_message_fits)
  moreover have "length out' = length out" using assms(1) length_write_message by (metis fst_conv)
  moreover have "answers_request hdr out' n"
    using write_message_at [OF True assms(1)] assms(2) by (auto intro: message_at_answers)
  ultimately show ?thesis by simp
next
  case False
  with assms show ?thesis by (auto simp: write_message_short)
qed

lemma ch_message_good:
  assumes "wrapper_ok hv n_inv ch" and "length data \<le> 271"
  shows "good_answer_to hv n_inv hdr out (ch_message ch hdr mt st err sp data out)"
proof -
  obtain out' n where w: "write_message mt (slot hdr) (seq hdr) st err sp data out = (out', n)" by fastforce
  with write_message_answers [OF w assms(2)] assms(1) show ?thesis
    by (simp add: ch_message_def good_answer_to_def)
qed

lemma ch_written_good:
  assumes "wrapper_ok hv n_inv ch" and "length data \<le> 271"
  shows "good_answer_to hv n_inv hdr out
    (Some (ch, write_message mt (slot hdr) (seq hdr) st err sp data out))"
  using ch_message_good [OF assms, of hdr out mt st err sp] by (simp add: ch_message_def split: prod.splits)

lemma account_good:
  assumes "good_answer_to hv n_inv hdr out r"
  shows "good_answer_to hv n_inv hdr out (account_failed_status r)"
  using assms
  by (auto simp: account_failed_status_def good_answer_to_def protocol_error_kept split: option.splits)

text \<open>A reply that is not silent.\<close>

definition answered :: "'d ch_reply \<Rightarrow> bool" where
  "answered r = (case r of None \<Rightarrow> True | Some (_, _, n) \<Rightarrow> 0 < n)"

lemma answered_rules [simp]:
  "length out = 271 \<Longrightarrow> length data \<le> 261 \<Longrightarrow> answered (ch_message ch hdr mt st err sp data out)"
  "answered (account_failed_status r) = answered r" "answered None"
  by (auto simp: answered_def ch_message_def account_failed_status_def write_message_fits split: option.split prod.split)

lemma wf_block_length: "wf_block b \<Longrightarrow> length b \<le> 258"
  by (simp add: wf_block_def)

lemma copy_slice_id:
  "length xs \<le> 512 \<Longrightarrow>
     copy_at (replicate 512 0) 0 xs = Some (xs @ replicate (512 - length xs) 0) \<and>
     slice (xs @ replicate (512 - length xs) 0) 0 (length xs) = Some xs"
  by (simp add: copy_at_def slice_def)


section \<open>Every path keeps the invariant and answers\<close>

definition relay_payload :: "bytes \<Rightarrow> nat \<Rightarrow> bytes" where
  "relay_payload scratch n =
     (if failed_status (scratch ! 7) then CARD_TIMEOUT_SW else take (n - min 10 n) (drop (min 10 n) scratch))"

lemma slice_message:
  assumes "CCID_HEADER_SIZE + unat (dw_length hdr) < 2 ^ 32"
  shows "unat (word_of_nat CCID_HEADER_SIZE + dw_length hdr) = CCID_HEADER_SIZE + unat (dw_length hdr)"
    and "CCID_HEADER_SIZE + unat (dw_length hdr) \<le> length msg \<Longrightarrow>
      slice msg CCID_HEADER_SIZE (CCID_HEADER_SIZE + unat (dw_length hdr)) = Some (frame_payload hdr msg)"
  using assms by (simp_all add: unat_word_ariths slice_def)

context nfc_frontend
begin

lemma core_driver: "slot_driver (adapter_ops nops now_us) (\<lambda>a. n_inv (ca_driver a))"
  by (rule adapted.slot_driver_axioms)

lemma pipeline_result:
  assumes "wrapper_ok hv n_inv ch"
  obtains core scratch n where
    "apdu_pipeline SerialNfcProfile (adapter_ops nops now_us) (ch_core ch) hdr apdu (replicate 271 0)
       = Some (core, scratch, n)"
    "handler_ok SerialNfcProfile (\<lambda>a. n_inv (ca_driver a)) core" "session_kept (ch_core ch) core"
    "length scratch = 271" "n \<le> 271"
proof -
  let ?r = "apdu_pipeline SerialNfcProfile (adapter_ops nops now_us) (ch_core ch) hdr apdu (replicate 271 0)"
  have "good_reply SerialNfcProfile (\<lambda>a. n_inv (ca_driver a)) hdr (replicate 271 0) ?r"
    using slot_driver.apdu_pipeline_good [OF core_driver wrapper_okD(1) [OF assms]] .
  then obtain core scratch n where r: "?r = Some (core, scratch, n)"
    and "handler_ok SerialNfcProfile (\<lambda>a. n_inv (ca_driver a)) core" "length scratch = 271"
    and "n = 0 \<or> answers_request hdr scratch n"
    by (auto simp: good_reply_def split: option.splits if_splits)
  moreover from this have "n \<le> 271" by (auto simp: answers_request_def)
  ultimately show thesis using that apdu_pipeline_kept [OF r] by blast
qed

lemma relay_form:
  assumes "wrapper_ok hv n_inv ch" and "length card_apdu \<le> 512"
    and "apdu_pipeline SerialNfcProfile (adapter_ops nops now_us) (ch_core ch) hdr card_apdu (replicate 271 0)
       = Some (core, scratch, n)"
  shows "relay_apdu hv nops now_us ch hdr card_apdu out = do {
     (blocks, t1) \<leftarrow> card_response hv (relay_payload scratch n)
        (elapsed_ms_since (now_us (ca_driver (h_nfc core))) (now_us (ch_driver ch))) (ch_t1 ch);
     ch_message (ch\<lparr>ch_core := core, ch_t1 := t1\<rparr>) hdr RDR_TO_PC_DATABLOCK 0 0 0 blocks out
   }"
proof -
  from pipeline_result [OF assms(1), of now_us hdr card_apdu] assms(3)
  have l: "length scratch = 271" "n \<le> 271" by (metis option.inject prod.inject)+
  then have "(if failed_status (scratch ! 7) then Some CARD_TIMEOUT_SW else slice scratch (min 10 n) n)
      = Some (relay_payload scratch n)"
    by (simp add: relay_payload_def slice_def)
  with assms(3) copy_slice_id [OF assms(2)] show ?thesis
    by (simp add: relay_apdu_def Let_def build_bstatus_def)
qed

lemma relay_good:
  assumes "heapless_ok hv" and "wrapper_ok hv n_inv ch" and "length card_apdu \<le> 512"
  shows "good_answer_to hv n_inv hdr out (relay_apdu hv nops now_us ch hdr card_apdu out)"
proof -
  from pipeline_result [OF assms(2)] obtain core scratch n where
    r: "apdu_pipeline SerialNfcProfile (adapter_ops nops now_us) (ch_core ch) hdr card_apdu (replicate 271 0)
       = Some (core, scratch, n)"
    and core: "handler_ok SerialNfcProfile (\<lambda>a. n_inv (ca_driver a)) core" "session_kept (ch_core ch) core"
    by blast
  let ?took = "elapsed_ms_since (now_us (ca_driver (h_nfc core))) (now_us (ch_driver ch))"
  obtain b t where c: "card_response hv (relay_payload scratch n) ?took (ch_t1 ch) = Some (b, t)"
    and b: "wf_block b"
    using card_response_ok [OF assms(1) t1_reach_ok [OF assms(1) wrapper_okD(2) [OF assms(2)]]] by blast
  have "wrapper_ok hv n_inv (ch\<lparr>ch_core := core, ch_t1 := t\<rparr>)"
    using wrapper_ok_update [OF assms(2) core(2) card_response_timing [OF c] core(1)
      t1_reach.card [OF wrapper_okD(2) [OF assms(2)] c]] .
  then show ?thesis
    using relay_form [OF assms(2,3) r, of out] c wf_block_length [OF b]
    by (simp add: ch_message_good)
qed

lemma route_good:
  assumes "heapless_ok hv" and "wrapper_ok hv n_inv ch"
  shows "good_answer_to hv n_inv hdr out (route_block hv nops now_us ch hdr apdu out)"
proof -
  obtain r t where f: "t1_feed hv apdu (ch_t1 ch) = (r, t)" by fastforce
  note k = feed_kept [OF assms f]
  have "r = Immediate b \<Longrightarrow> length b \<le> 271" for b
    using k(2) wf_block_length [of b] by (simp add: result_ok_def)
  moreover have "r = Apdu a \<Longrightarrow> length a \<le> 512" for a using k(2) by (simp add: result_ok_def)
  ultimately show ?thesis
    using f k(1) assms
    by (auto simp: route_block_def account_good ch_message_good relay_good split: feed_result.split)
qed

lemma xfr_good:
  assumes "heapless_ok hv" and "wrapper_ok hv n_inv ch"
    and "CCID_HEADER_SIZE + unat (dw_length hdr) < 2 ^ 32"
  shows "good_answer_to hv n_inv hdr out (xfr_via_t1 hv nops now_us ch hdr msg out)"
proof -
  let ?apdu = "frame_payload hdr msg"
  obtain r t where f: "t1_feed hv ?apdu (ch_t1 ch) = (r, t)" by fastforce
  note k = feed_kept [OF assms(1,2) f]
  have "r = Immediate b \<Longrightarrow> length b \<le> 271" for b
    using k(2) wf_block_length [of b] by (simp add: result_ok_def)
  then show ?thesis
    using f k(1) assms slice_message(1) [OF assms(3)] slice_message(2) [OF assms(3), of msg]
    by (auto simp: xfr_via_t1_def Let_def account_good ch_message_good route_good
        write_slot_status_def ch_written_good protocol_error_kept
        split: feed_result.split)
qed


lemma set_driver_kept:
  assumes "wrapper_ok hv n_inv ch" and "n_inv d"
  shows "wrapper_ok hv n_inv (ch_set_driver d ch)"
  unfolding ch_set_driver_def
  by (rule wrapper_ok_core [OF assms(1)])
    (use assms wrapper_okD(1) [OF assms(1)] in \<open>auto simp: session_kept_def handler_ok_def\<close>)

lemma probe_good:
  assumes "wrapper_ok hv n_inv ch"
  shows "good_answer_to hv n_inv hdr out (escape_i2c_probe nops ch hdr msg out)"
proof -
  obtain regs d1 where t: "n_timer_registers nops (ch_driver ch) = (regs, d1)" by fastforce
  have d1: "n_inv d1" using n_inv_timer [OF wrapper_okD(3) [OF assms] t] .
  have regs: "regs = Some r \<Longrightarrow> length r = 4" for r
    using n_timer_length [OF wrapper_okD(3) [OF assms]] t by simp
  have "n_inv d2" if "n_i2c_timing_probe nops reads d1 = (p, d2)" for reads p d2
    using n_inv_probe [OF d1 that] .
  with t regs show ?thesis
    by (auto simp: escape_i2c_probe_def Let_def intro!: ch_message_good set_driver_kept [OF assms]
        split: prod.splits option.splits)
qed

lemma wrapper_escapes_good:
  assumes "wrapper_ok hv n_inv ch"
  shows "good_answer_to hv n_inv hdr out (escape_turnaround ch hdr out)"
    and "good_answer_to hv n_inv hdr out (escape_wtx a b ch hdr out)"
    and "good_answer_to hv n_inv hdr out (escape_set_baud ch hdr msg out)"
proof -
  have "wrapper_ok hv n_inv (ch\<lparr>ch_pending_baud_change := x\<rparr>)" for x
    using assms by (simp add: wrapper_ok_def timing_agrees_def)
  then show "good_answer_to hv n_inv hdr out (escape_set_baud ch hdr msg out)"
    using assms by (auto simp: escape_set_baud_def Let_def intro!: ch_message_good split: option.split)
qed (use assms in \<open>simp_all add: escape_turnaround_def escape_wtx_def ch_message_good Let_def
       turnaround_to_bytes_def\<close>)

end


section \<open>Delegated commands and polls\<close>

lemma armed_timing:
  assumes "ch' = arm_on_parameters (ch\<lparr>ch_core := core\<rparr>)"
    and "handler_ok SerialNfcProfile d_inv core" and "\<not> h_pin_pad core"
    and "timing_agrees ch" and "t1_reach hv (ch_t1 ch)" and "params_announced (ch_core ch) core"
  shows "handler_ok SerialNfcProfile d_inv (ch_core ch') \<and> \<not> h_pin_pad (ch_core ch') \<and>
    \<not> h_parameters_accepted_event (ch_core ch') \<and> t1_reach hv (ch_t1 ch') \<and> timing_agrees ch'"
proof -
  let ?core = "core\<lparr>h_parameters_accepted_event := False\<rparr>"
  have core: "handler_ok SerialNfcProfile d_inv ?core" using assms(2) by (simp add: handler_ok_def)
  have app: "applied_t1_timing ?core = applied_t1_timing core"
    by (auto simp: applied_t1_timing_def split: option.split)
  have new: "t1_reach hv (set_host_timing bwi ifsc endpoint_new)" for bwi ifsc
    by (intro t1_reach.timing t1_reach.new)
  have dflt: "te_host_bwi endpoint_new = ATR_TB3_BWI" "te_host_ifsd endpoint_new = DEFAULT_HOST_IFSD"
    by (simp_all add: endpoint_new_def)
  show ?thesis
  proof (cases "h_parameters_accepted_event core")
    case True
    with assms(1) core assms(3) dflt new t1_reach.new [of hv] show ?thesis
      by (auto simp: arm_on_parameters_def take_parameters_accepted_def Let_def endpoint_reset_def
          timing_agrees_def host_timing_def app set_host_timing_def 
          split: option.splits)
  next
    case False
    then have "host_timing ?core = host_timing (ch_core ch)"
      using assms(6) by (intro host_timing_cong) (auto simp: params_announced_def)
    with False assms core show ?thesis
      by (auto simp: arm_on_parameters_def take_parameters_accepted_def timing_agrees_def)
  qed
qed

lemma disarm_ok:
  assumes "handler_ok SerialNfcProfile (\<lambda>a. n_inv (ca_driver a)) (ch_core ch)" and "\<not> h_pin_pad (ch_core ch)"
    and "\<not> h_parameters_accepted_event (ch_core ch)" and "t1_reach hv (ch_t1 ch)" and "timing_agrees ch"
  shows "wrapper_ok hv n_inv (disarm_on_reset ch)"
proof -
  let ?core = "(ch_core ch)\<lparr>h_card_reset_event := False\<rparr>"
  have "handler_ok SerialNfcProfile (\<lambda>a. n_inv (ca_driver a)) ?core" using assms(1) by (simp add: handler_ok_def)
  moreover have "host_timing ?core = host_timing (ch_core ch)" by (rule host_timing_cong) simp_all
  ultimately show ?thesis
    using assms(2-) t1_reach.new [of hv]
    by (auto simp: disarm_on_reset_def take_card_reset_def Let_def wrapper_ok_def timing_agrees_def
        endpoint_reset_def)
qed

lemma delegated_ok:
  assumes "wrapper_ok hv n_inv ch" and "handler_ok SerialNfcProfile (\<lambda>a. n_inv (ca_driver a)) core"
    and "params_announced (ch_core ch) core"
  shows "wrapper_ok hv n_inv (disarm_on_reset (arm_on_parameters (ch\<lparr>ch_core := core\<rparr>)))"
proof -
  have "\<not> h_pin_pad core" "timing_agrees ch" "t1_reach hv (ch_t1 ch)"
    using assms(1,3) by (auto simp: wrapper_ok_def params_announced_def)
  from armed_timing [OF refl assms(2) this assms(3)] show ?thesis by (intro disarm_ok) auto
qed

definition wrapper_panics :: "'d ccid_handler \<Rightarrow> bytes \<Rightarrow> bool" where
  "wrapper_panics ch msg =
     (case header_parse msg of
        None \<Rightarrow> False
      | Some hdr \<Rightarrow>
          2 ^ 32 \<le> CCID_HEADER_SIZE + unat (dw_length hdr) \<and>
          \<not> (message_type hdr = PC_TO_RDR_ESCAPE \<and> ch_baud_escape_enabled ch \<and>
             get_opt msg CCID_HEADER_SIZE = Some ESCAPE_SET_BAUD))"

context nfc_frontend
begin

lemma delegate_good:
  assumes "wrapper_ok hv n_inv ch"
  shows "case header_parse msg of
           None \<Rightarrow> \<exists>ch'. delegate nops now_us ch msg out = Some (ch', out, 0) \<and> wrapper_ok hv n_inv ch'
         | Some hdr \<Rightarrow>
             if 2 ^ 32 \<le> CCID_HEADER_SIZE + unat (dw_length hdr)
             then delegate nops now_us ch msg out = None
             else good_answer_to hv n_inv hdr out (delegate nops now_us ch msg out)"
proof -
  note ok = wrapper_okD(1) [OF assms]
  have pp: "\<not> h_pin_pad (ch_core ch)" using assms by (simp add: wrapper_ok_def)
  let ?r = "process_command SerialNfcProfile (adapter_ops nops now_us) (ch_core ch) msg out"
  have panic: "command_panics (ch_core ch) msg \<longleftrightarrow>
      (case header_parse msg of None \<Rightarrow> False
       | Some hdr \<Rightarrow> 2 ^ 32 \<le> CCID_HEADER_SIZE + unat (dw_length hdr))"
    using pp by (auto simp: command_panics_def secure_panics_def split: option.split)
  note good = slot_driver.process_command_good [OF core_driver ok, of msg now_us out]
  show ?thesis
  proof (cases ?r)
    case None
    with good panic show ?thesis
      by (auto simp: delegate_def good_answer_def good_dispatch_def good_reply_def split: option.splits if_splits)
  next
    case (Some r)
    obtain core out' n where [simp]: "r = (core, out', n)" using prod_cases3 by blast
    note ann = process_command_announced [OF Some [unfolded \<open>r = _\<close>]]
    have "handler_ok SerialNfcProfile (\<lambda>a. n_inv (ca_driver a)) core"
      using good Some ok by (auto simp: good_answer_def good_dispatch_def good_reply_def split: option.splits if_splits)
    then show ?thesis
      using good Some panic pp delegated_ok [OF assms _ ann]
      by (auto simp: delegate_def good_answer_def good_dispatch_def good_reply_def good_answer_to_def opens_pin_session_def
          split: option.splits if_splits)
  qed
qed

lemma ch_process_command_good:
  assumes "heapless_ok hv" and "wrapper_ok hv n_inv ch"
  shows "if wrapper_panics ch msg then ch_process_command hv nops now_us ch msg out = None
    else case header_parse msg of
           None \<Rightarrow> \<exists>ch'. ch_process_command hv nops now_us ch msg out = Some (ch', out, 0) \<and> wrapper_ok hv n_inv ch'
         | Some hdr \<Rightarrow> good_answer_to hv n_inv hdr out (ch_process_command hv nops now_us ch msg out)"
proof (cases "header_parse msg")
  case None
  with delegate_good [OF assms(2), where msg = msg and now_us = now_us and out = out] show ?thesis
    by (simp add: ch_process_command_def wrapper_panics_def)
next
  case (Some hdr)
  note d = delegate_good [OF assms(2), where msg = msg and now_us = now_us and out = out]
  show ?thesis
  proof (cases "CCID_HEADER_SIZE + unat (dw_length hdr) < 2 ^ 32")
    case True
    then show ?thesis
      using Some d xfr_good [OF assms True] wrapper_escapes_good [OF assms(2)] probe_good [OF assms(2)]
      by (auto simp: ch_process_command_def wrapper_panics_def Let_def split: option.split)
  next
    case False
    then have "dw_length hdr \<noteq> 1" "dw_length hdr \<noteq> 2" by auto
    moreover have "xfr_via_t1 hv nops now_us ch hdr msg out = None"
      using Some False frame_end_overflow [of "dw_length hdr"] header_parse_length [OF Some]
      by (simp add: xfr_via_t1_def slice_def Let_def)
    ultimately show ?thesis
      using Some d False wrapper_escapes_good(3) [OF assms(2), of hdr out msg]
      by (auto simp: ch_process_command_def wrapper_panics_def Let_def)
  qed
qed

text \<open>In the reader's own buffers an answer is missing only when the driver's data leaves no room for the header.\<close>

lemma relay_answered:
  assumes "heapless_ok hv" and "wrapper_ok hv n_inv ch" and "length card_apdu \<le> 512" and "length out = 271"
  shows "answered (relay_apdu hv nops now_us ch hdr card_apdu out)"
proof -
  from pipeline_result [OF assms(2)] obtain core scratch k where
    r: "apdu_pipeline SerialNfcProfile (adapter_ops nops now_us) (ch_core ch) hdr card_apdu (replicate 271 0)
       = Some (core, scratch, k)"
    by blast
  obtain b t where "card_response hv (relay_payload scratch k)
      (elapsed_ms_since (now_us (ca_driver (h_nfc core))) (now_us (ch_driver ch))) (ch_t1 ch) = Some (b, t)"
    and b: "wf_block b"
    using card_response_ok [OF assms(1) t1_reach_ok [OF assms(1) wrapper_okD(2) [OF assms(2)]]] by blast
  with relay_form [OF assms(2,3) r, of out] wf_block_length [OF b] assms(4) show ?thesis by simp
qed

lemma route_answered:
  assumes "heapless_ok hv" and "wrapper_ok hv n_inv ch" and "length out = 271"
  shows "answered (route_block hv nops now_us ch hdr apdu out)"
proof -
  obtain r t where f: "t1_feed hv apdu (ch_t1 ch) = (r, t)" by fastforce
  note k = feed_kept [OF assms(1,2) f]
  have "r = Immediate b \<Longrightarrow> length b \<le> 261" for b
    using k(2) wf_block_length [of b] by (simp add: result_ok_def)
  moreover have "r = Apdu a \<Longrightarrow> length a \<le> 512" for a using k(2) by (simp add: result_ok_def)
  ultimately show ?thesis
    using f assms(3) relay_answered [OF assms(1) k(1) _ assms(3)] by (simp add: route_block_def split: feed_result.split)
qed

lemma xfr_via_t1_answered:
  assumes "heapless_ok hv" and "wrapper_ok hv n_inv ch" and "length out = 271"
  shows "answered (xfr_via_t1 hv nops now_us ch hdr msg out)"
proof (cases "slice msg CCID_HEADER_SIZE (unat (word_of_nat CCID_HEADER_SIZE + dw_length hdr))")
  case None
  with assms(3) show ?thesis by (simp add: xfr_via_t1_def answered_def write_slot_status_def write_message_fits Let_def)
next
  case (Some apdu)
  obtain r t where f: "t1_feed hv apdu (ch_t1 ch) = (r, t)" by fastforce
  note k = feed_kept [OF assms(1,2) f]
  have "r = Immediate b \<Longrightarrow> length b \<le> 261" for b
    using k(2) wf_block_length [of b] by (simp add: result_ok_def)
  with Some f assms(3) route_answered [OF assms] route_answered [OF assms(1) k(1) assms(3)] show ?thesis
    by (simp add: xfr_via_t1_def Let_def split: feed_result.split)
       (simp add: answered_def write_slot_status_def write_message_fits)
qed

lemma probe_answered:
  assumes "wrapper_ok hv n_inv ch" and "length out = 271"
  shows "answered (escape_i2c_probe nops ch hdr msg out)"
proof -
  have "length r = 4" if "n_timer_registers nops (ch_driver ch) = (Some r, d)" for r d
    using n_timer_length [OF wrapper_okD(3) [OF assms(1)] that] .
  with assms(2) show ?thesis
    by (auto simp: escape_i2c_probe_def Let_def split: prod.split option.split)
qed

lemma ch_command_room:
  assumes "heapless_ok hv" and "wrapper_ok hv n_inv ch" and "length out = 271" and "length msg \<le> 271"
    and "header_parse msg = Some hdr" and "ch_process_command hv nops now_us ch msg out = Some (ch', out', 0)"
  shows "overlong_data SerialNfcProfile (adapter_ops nops now_us) (ch_core ch) hdr (frame_payload hdr msg)"
proof -
  have pp: "\<not> h_pin_pad (ch_core ch)" using assms(2) by (simp add: wrapper_ok_def)
  have q: "answered (escape_turnaround ch hdr out)" "answered (escape_wtx a b ch hdr out)" "answered (escape_set_baud ch hdr msg out)" for a b
    using assms(3) by (simp_all add: escape_turnaround_def escape_wtx_def escape_set_baud_def turnaround_to_bytes_def Let_def put_rules
        split: option.split)
  have "\<not> answered (ch_process_command hv nops now_us ch msg out)" using assms(6) by (simp add: answered_def)
  then have "ch_process_command hv nops now_us ch msg out = delegate nops now_us ch msg out"
    using assms(5) q xfr_via_t1_answered [OF assms(1-3)] probe_answered [OF assms(2,3)]
    by (auto simp: ch_process_command_def Let_def split: if_splits option.splits)
  then obtain core where "process_command SerialNfcProfile (adapter_ops nops now_us) (ch_core ch) msg out = Some (core, out', 0)"
    using assms(6) by (auto simp: delegate_def split: bind_splits)
  from command_nonzero [OF assms(3) wrapper_okD(1) [OF assms(2)] this assms(5,4)] pp show ?thesis
    by (simp add: opens_pin_session_def)
qed

end

end
