(* ===== verification/Ccid_Handler_Props.thy ===== *)
theory Ccid_Handler_Props
  imports Ccid_Handler_Facts Handler_Commands
begin

text \<open>
  Properties of the serial handler: it answers every command, its T=1 session never disagrees with
  what the host negotiated, an APDU sent over T=1 reaches the card once and its answer reaches the
  host, and a card reset returns the reader to the state the host's first probe expects.
\<close>

section \<open>Reachable handlers\<close>

inductive ch_reach ::
    "heapless \<Rightarrow> ('d, 'e) nfc_ops \<Rightarrow> ('d \<Rightarrow> int) \<Rightarrow> ('d \<Rightarrow> bool) \<Rightarrow> 'd ccid_handler \<Rightarrow> bool"
  for hv nops now_us n_inv where
  new: "n_inv d \<Longrightarrow> ch_reach hv nops now_us n_inv (ch_new nops now_us d)"
| command: "ch_reach hv nops now_us n_inv ch \<Longrightarrow>
     ch_process_command hv nops now_us ch msg out = Some (ch', out', n) \<Longrightarrow>
     ch_reach hv nops now_us n_inv ch'"
| poll: "ch_reach hv nops now_us n_inv ch \<Longrightarrow> ch_check_card_change nops now_us ch = (ev, pushed, ch') \<Longrightarrow>
     ch_reach hv nops now_us n_inv ch'"
| refresh: "ch_reach hv nops now_us n_inv ch \<Longrightarrow>
     ch_reach hv nops now_us n_inv (ch_refresh_diagnostics nops now_us ticks ch)"
| turnaround: "ch_reach hv nops now_us n_inv ch \<Longrightarrow>
     ch_reach hv nops now_us n_inv (ch_record_turnaround_us us ch)"
| nak: "ch_reach hv nops now_us n_inv ch \<Longrightarrow> ch_reach hv nops now_us n_inv (ch_record_nak ch)"
| snapshot: "ch_reach hv nops now_us n_inv ch \<Longrightarrow> ch_take_snapshot_request ch = (b, ch') \<Longrightarrow>
     ch_reach hv nops now_us n_inv ch'"
| self_test: "ch_reach hv nops now_us n_inv ch \<Longrightarrow> ch_frontend_self_test nops ch = (r, ch') \<Longrightarrow>
     ch_reach hv nops now_us n_inv ch'"
| enable_baud: "ch_reach hv nops now_us n_inv ch \<Longrightarrow> ch_reach hv nops now_us n_inv (enable_baud_escape ch)"
| take_baud: "ch_reach hv nops now_us n_inv ch \<Longrightarrow> take_baud_change ch = (x, ch') \<Longrightarrow>
     ch_reach hv nops now_us n_inv ch'"

lemma diagnostics_kept:
  assumes "wrapper_ok hv n_inv ch" and "counters_ok d"
  shows "wrapper_ok hv n_inv (ch\<lparr>ch_core := (ch_core ch)\<lparr>h_diagnostics := d\<rparr>\<rparr>)"
  by (rule wrapper_ok_core [OF assms(1)])
    (use assms wrapper_okD(1) [OF assms(1)] in \<open>auto simp: session_kept_def handler_ok_def\<close>)

lemma housekeeping_ok:
  assumes "wrapper_ok hv n_inv ch"
  shows "wrapper_ok hv n_inv (ch_refresh_diagnostics nops now_us ticks ch)"
    and "wrapper_ok hv n_inv (ch_record_turnaround_us us ch)"
    and "wrapper_ok hv n_inv (ch_record_nak ch)"
    and "ch_take_snapshot_request ch = (b, ch') \<Longrightarrow> wrapper_ok hv n_inv ch'"
    and "wrapper_ok hv n_inv (enable_baud_escape ch)"
    and "take_baud_change ch = (x, ch') \<Longrightarrow> wrapper_ok hv n_inv ch'"
proof -
  note h = wrapper_okD(1) [OF assms]
  have c: "counters_ok (h_diagnostics (ch_core ch))" using h by (simp add: handler_ok_def)
  have free: "wrapper_ok hv n_inv (ch\<lparr>ch_last_frontend_health := a\<rparr>)" if "wrapper_ok hv n_inv ch"
    for a and ch :: "'a ccid_handler"
    using that by (simp add: wrapper_ok_def timing_agrees_def)
  have "wrapper_ok hv n_inv
      (ch\<lparr>ch_core := refresh_diagnostics (adapter_ops nops now_us) ticks (ch_core ch)\<rparr>)"
    using diagnostics_kept [OF assms] c by (simp add: refresh_diagnostics_def counters_ok_def)
  then show "wrapper_ok hv n_inv (ch_refresh_diagnostics nops now_us ticks ch)"
    by (simp add: ch_refresh_diagnostics_def Let_def free)
  show "wrapper_ok hv n_inv (ch_record_nak ch)"
    using diagnostics_kept [OF assms] c by (simp add: ch_record_nak_def record_nak_def counters_ok_def)
  show "wrapper_ok hv n_inv (ch_record_turnaround_us us ch)"
    unfolding ch_record_turnaround_us_def Let_def
    by (rule wrapper_ok_core [OF assms]) (use h in \<open>auto simp: session_kept_def handler_ok_def\<close>)
  show "wrapper_ok hv n_inv ch'" if "ch_take_snapshot_request ch = (b, ch')"
  proof -
    have "ch' = ch\<lparr>ch_core := (ch_core ch)\<lparr>h_diagnostic_snapshot_requested := False\<rparr>\<rparr>"
      using that by (simp add: ch_take_snapshot_request_def take_snapshot_request_def)
    then show ?thesis
      using h by (auto intro!: wrapper_ok_core [OF assms] simp: session_kept_def handler_ok_def)
  qed
  show "wrapper_ok hv n_inv (enable_baud_escape ch)"
    using assms by (simp add: enable_baud_escape_def wrapper_ok_def timing_agrees_def)
  show "wrapper_ok hv n_inv ch'" if "take_baud_change ch = (x, ch')"
    using that assms by (auto simp: take_baud_change_def wrapper_ok_def timing_agrees_def)
qed

context nfc_frontend
begin

lemma poll_ok:
  assumes "wrapper_ok hv n_inv ch" and "ch_check_card_change nops now_us ch = (ev, pushed, ch')"
  shows "wrapper_ok hv n_inv ch'"
proof -
  obtain ev' core where c: "check_card_change SerialNfcProfile (adapter_ops nops now_us) (ch_core ch)
      = (ev', core)" by fastforce
  have "handler_ok SerialNfcProfile (\<lambda>a. n_inv (ca_driver a)) core"
    using slot_driver.check_card_change_ok [OF core_driver wrapper_okD(1) [OF assms(1)] c] .
  moreover note k = check_card_change_kept [OF c]
  moreover have "timing_agrees (ch\<lparr>ch_core := core\<rparr>)"
    using assms(1) k host_timing_cong [of core "ch_core ch"] by (auto simp: wrapper_ok_def timing_agrees_def)
  ultimately have "wrapper_ok hv n_inv (disarm_on_reset (ch\<lparr>ch_core := core\<rparr>))"
    using assms(1) by (intro disarm_ok) (auto simp: wrapper_ok_def)
  then show ?thesis using assms(2) c by (simp add: ch_check_card_change_def Let_def)
qed

lemma self_test_ok:
  assumes "wrapper_ok hv n_inv ch" and "ch_frontend_self_test nops ch = (r, ch')"
  shows "wrapper_ok hv n_inv ch'"
  using assms set_driver_kept [OF assms(1)] n_inv_self_test [OF wrapper_okD(3) [OF assms(1)]]
  by (auto simp: ch_frontend_self_test_def split: prod.splits)

lemma new_ok:
  assumes "n_inv d"
  shows "wrapper_ok hv n_inv (ch_new nops now_us d)"
  using assms t1_reach.new [of hv]
  by (simp add: ch_new_def wrapper_ok_def handler_new_def with_profile_def SerialNfcProfile_def
      handler_ok_def host_params_ok_def atr_params_default_ok counters_ok_def diagnostics_new_def
      protocol_ok_def FIRMWARE_VERSION_def timing_agrees_def adapter_new_def)

lemma ch_reach_ok:
  assumes "heapless_ok hv" and "ch_reach hv nops now_us n_inv ch"
  shows "wrapper_ok hv n_inv ch"
  using assms(2)
proof induction
  case (command ch msg out ch' out' n)
  then show ?case
    using ch_process_command_good [OF assms(1) command.IH, where msg = msg and now_us = now_us and out = out]
    by (auto simp: good_answer_to_def split: if_splits option.splits)
qed (auto intro: new_ok poll_ok self_test_ok housekeeping_ok)

end


section \<open>Answers\<close>

lemma ch_message_written:
  assumes "length data \<le> 271" and "281 \<le> length out"
  shows "\<exists>out' n. ch_message ch hdr mt st err sp data out = Some (ch, out', n) \<and>
    message_at out' n mt (slot hdr) (seq hdr) st err sp data"
  using assms write_message_at [of data out mt "slot hdr" "seq hdr" st err sp]
  by (cases "write_message mt (slot hdr) (seq hdr) st err sp data out") (auto simp: ch_message_def)

text \<open>\<open>block_answer hdr r\<close>: a DataBlock without error whose payload is one well-formed T=1 block.\<close>

definition block_answer :: "ccid_header \<Rightarrow> 'd ch_reply \<Rightarrow> bool" where
  "block_answer hdr r \<longleftrightarrow>
     (\<exists>ch out n b. r = Some (ch, out, n) \<and> wf_block b \<and>
        message_at out n RDR_TO_PC_DATABLOCK (slot hdr) (seq hdr) 0 0 0 b)"

lemma block_answer_message:
  assumes "wf_block b" and "281 \<le> length out"
  shows "block_answer hdr (ch_message ch hdr RDR_TO_PC_DATABLOCK 0 0 0 b out)"
proof -
  have "length b \<le> 271" using wf_block_length [OF assms(1)] by simp
  from ch_message_written [OF this assms(2), of ch hdr RDR_TO_PC_DATABLOCK 0 0 0] assms(1) show ?thesis
    by (auto simp: block_answer_def)
qed

lemma account_block:
  assumes "block_answer hdr r"
  shows "block_answer hdr (account_failed_status r)"
  using assms by (auto simp: block_answer_def account_failed_status_def)

context nfc_frontend
begin

lemma relay_block:
  assumes "heapless_ok hv" and "wrapper_ok hv n_inv ch" and "length card_apdu \<le> 512" and "281 \<le> length out"
  shows "block_answer hdr (relay_apdu hv nops now_us ch hdr card_apdu out)"
proof -
  from pipeline_result [OF assms(2)] obtain core scratch n where
    r: "apdu_pipeline SerialNfcProfile (adapter_ops nops now_us) (ch_core ch) hdr card_apdu (replicate 271 0)
       = Some (core, scratch, n)"
    by blast
  let ?took = "elapsed_ms_since (now_us (ca_driver (h_nfc core))) (now_us (ch_driver ch))"
  obtain b t where "card_response hv (relay_payload scratch n) ?took (ch_t1 ch) = Some (b, t)" "wf_block b"
    using card_response_ok [OF assms(1) t1_reach_ok [OF assms(1) wrapper_okD(2) [OF assms(2)]]] by blast
  then show ?thesis
    using relay_form [OF assms(2,3) r, of out] assms(4) by (simp add: block_answer_message)
qed

lemma route_active:
  assumes "heapless_ok hv" and "wrapper_ok hv n_inv ch" and "h_slot_state (ch_core ch) = PresentActive"
    and "281 \<le> length out"
  shows "block_answer hdr (route_block hv nops now_us ch hdr apdu out)"
proof -
  obtain r t where f: "t1_feed hv apdu (ch_t1 ch) = (r, t)" by fastforce
  note k = feed_kept [OF assms(1,2) f]
  then show ?thesis
    using f assms
    by (cases r)
      (simp_all add: route_block_def result_ok_def build_bstatus_def block_answer_message relay_block)
qed

lemma xfr_active:
  assumes "heapless_ok hv" and "wrapper_ok hv n_inv ch" and "h_slot_state (ch_core ch) = PresentActive"
    and "281 \<le> length out"
    and "CCID_HEADER_SIZE + unat (dw_length hdr) \<le> length msg"
    and "CCID_HEADER_SIZE + unat (dw_length hdr) < 2 ^ 32"
  shows "block_answer hdr (xfr_via_t1 hv nops now_us ch hdr msg out)"
proof -
  let ?apdu = "frame_payload hdr msg"
  obtain r t where f: "t1_feed hv ?apdu (ch_t1 ch) = (r, t)" by fastforce
  note k = feed_kept [OF assms(1,2) f]
  have "r = Immediate b \<Longrightarrow> block_answer hdr (ch_message (ch\<lparr>ch_t1 := t\<rparr>) hdr 0x80 0 0 0 b out)" for b
    using k(2) assms(4) by (simp add: result_ok_def block_answer_message)
  then show ?thesis
    using f assms(3,5) slice_message(1) [OF assms(6)] slice_message(2) [OF assms(6) assms(5)]
      route_active [OF assms(1,2,3,4)] route_active [OF assms(1) k(1) _ assms(4)]
    by (cases r) (auto simp: xfr_via_t1_def Let_def account_block build_bstatus_def ch_icc_status_def)
qed

end

text \<open>The serial reader answers every command.  In every reachable state, with any driver that
  honours its contract, a command panics the handler exactly when its declared length overflows
  32 bits (and it is not a baud-rate escape, which is rejected first); every other command that
  carries a header is answered by one CCID message with the request's slot and sequence number,
  unless the response buffer is too small.  A T=1 block sent by XfrBlock on an active slot is
  always answered by a DataBlock without error that carries one well-formed T=1 block, whatever
  the block, the card and the clock do.\<close>

theorem serial_handler_answers:
  assumes "heapless_ok hv" and "nfc_frontend nops n_inv" and "ch_reach hv nops now_us n_inv ch"
    and "header_parse msg = Some hdr"
  shows "(ch_process_command hv nops now_us ch msg out = None \<longleftrightarrow> wrapper_panics ch msg) \<and>
    (\<forall>ch' out' n. ch_process_command hv nops now_us ch msg out = Some (ch', out', n) \<longrightarrow>
       length out' = length out \<and> (n = 0 \<longrightarrow> length out < 281) \<and> (n \<noteq> 0 \<longrightarrow> answers_request hdr out' n)) \<and>
    (message_type hdr = PC_TO_RDR_XFR_BLOCK \<and> ch_t1_armed ch \<and> h_current_protocol (ch_core ch) = 1 \<and>
     h_slot_state (ch_core ch) = PresentActive \<and> length msg = CCID_HEADER_SIZE + unat (dw_length hdr) \<and>
     length msg < 2 ^ 32 \<and> 281 \<le> length out \<longrightarrow>
       block_answer hdr (ch_process_command hv nops now_us ch msg out))"
proof -
  have ok: "wrapper_ok hv n_inv ch" using nfc_frontend.ch_reach_ok [OF assms(2,1,3)] .
  note g = nfc_frontend.ch_process_command_good [OF assms(2,1) ok, where msg = msg and now_us = now_us and out = out]
  have "block_answer hdr (ch_process_command hv nops now_us ch msg out)"
    if "message_type hdr = PC_TO_RDR_XFR_BLOCK" "ch_t1_armed ch" "h_current_protocol (ch_core ch) = 1"
      "h_slot_state (ch_core ch) = PresentActive" "length msg = CCID_HEADER_SIZE + unat (dw_length hdr)"
      "length msg < 2 ^ 32" "281 \<le> length out"
    using that assms(4) nfc_frontend.xfr_active [OF assms(2,1) ok that(4,7), of hdr msg now_us]
    by (simp add: ch_process_command_def Let_def)
  with g assms(4) show ?thesis
    by (auto simp: good_answer_to_def split: option.splits if_splits)
qed

text \<open>The T=1 session agrees with the negotiation.  In every reachable state no event of the core
  is left unconsumed, the core satisfies its invariant, the endpoint is one that its own
  operations reach, and while the T=1 route is armed the endpoint runs on exactly the waiting time
  and block size the host was told (the negotiated set, or the defaults).\<close>

theorem serial_session_consistent:
  assumes "heapless_ok hv" and "nfc_frontend nops n_inv" and "ch_reach hv nops now_us n_inv ch"
  shows "\<not> h_card_reset_event (ch_core ch) \<and> \<not> h_parameters_accepted_event (ch_core ch) \<and>
    handler_ok SerialNfcProfile (\<lambda>a. n_inv (ca_driver a)) (ch_core ch) \<and> t1_reach hv (ch_t1 ch) \<and>
    (ch_t1_armed ch \<longrightarrow> (te_host_bwi (ch_t1 ch), te_host_ifsd (ch_t1 ch)) = host_timing (ch_core ch))"
  using nfc_frontend.ch_reach_ok [OF assms(2,1,3)] by (simp add: wrapper_ok_def timing_agrees_def)

section \<open>An APDU over T=1\<close>

definition xfr_request :: "u8 \<Rightarrow> u8 \<Rightarrow> bytes \<Rightarrow> bytes" where
  "xfr_request sl sq data =
     header_build PC_TO_RDR_XFR_BLOCK (word_of_nat (length data)) sl sq 0 0 0 @ data"

abbreviation (input) xfr_header :: "u8 \<Rightarrow> u8 \<Rightarrow> bytes \<Rightarrow> ccid_header" where
  "xfr_header sl sq data \<equiv>
     \<lparr>message_type = PC_TO_RDR_XFR_BLOCK, dw_length = word_of_nat (length data), slot = sl, seq = sq,
      specific = (0, 0, 0)\<rparr>"

lemma xfr_request_parts:
  assumes "length data \<le> 512"
  shows "header_parse (xfr_request sl sq data) = Some (xfr_header sl sq data)"
    and "unat (dw_length (xfr_header sl sq data)) = length data"
    and "length (xfr_request sl sq data) = CCID_HEADER_SIZE + length data"
    and "frame_payload (xfr_header sl sq data) (xfr_request sl sq data) = data"
proof -
  have "message_at (xfr_request sl sq data) (CCID_HEADER_SIZE + length data) PC_TO_RDR_XFR_BLOCK sl sq
      0 0 0 data"
    by (simp add: message_at_def xfr_request_def)
  moreover have "length data < 2 ^ 32" using assms by simp
  ultimately show "header_parse (xfr_request sl sq data) = Some (xfr_header sl sq data)"
    and "frame_payload (xfr_header sl sq data) (xfr_request sl sq data) = data"
    using message_at_header [of "xfr_request sl sq data"] by auto
  show "unat (dw_length (xfr_header sl sq data)) = length data"
    using assms by (simp add: unsigned_of_nat take_bit_nat_eq_self_iff)
  show "length (xfr_request sl sq data) = CCID_HEADER_SIZE + length data"
    by (simp add: xfr_request_def)
qed

text \<open>What the card's answer becomes on its way to the host.\<close>

definition relay_answer :: "('e + nat) \<Rightarrow> bytes \<Rightarrow> bytes" where
  "relay_answer r buf =
     (case r of
        Inr k \<Rightarrow> if k \<le> 261 then take k buf else []
      | Inl _ \<Rightarrow> [0x64, 0x00])"

lemma relay_payload_written:
  assumes "write_message mt sl sq st err sp data (replicate 271 0) = (scratch, n)"
  shows "relay_payload scratch n =
    (if length data \<le> 261 then (if failed_status st then [0x64, 0x00] else data) else [])"
proof (cases "length data \<le> 261")
  case True
  then have "scratch = header_build mt (word_of_nat (length data)) sl sq st err sp @ data
        @ replicate (261 - length data) 0" "n = 10 + length data"
    using assms by (auto simp: write_message_fits)
  moreover have "(header_build mt (word_of_nat (length data)) sl sq st err sp @ x) ! 7 = st" for x
    by (simp add: header_build_def to_le_bytes32_def)
  ultimately show ?thesis using True by (simp add: relay_payload_def CARD_TIMEOUT_SW_def)
next
  case False
  then have "scratch = replicate 271 0" "n = 0" using assms by (auto simp: write_message_short)
  with False show ?thesis by (simp add: relay_payload_def failed_status_def)
qed

lemma pipeline_relays:
  assumes "slot_driver ops d_inv" and "handler_ok SerialNfcProfile d_inv h" and "h_slot_state h = PresentActive"
    and "reaches_card SerialNfcProfile apdu"
    and "d_transmit_apdu ops (h_nfc h) apdu (h_tx_buf h) = (r, buf, nfc)"
  shows "\<exists>core scratch n.
    apdu_pipeline SerialNfcProfile ops h hdr apdu (replicate 271 0) = Some (core, scratch, n) \<and>
    relay_payload scratch n = relay_answer r buf \<and> h_nfc core = nfc \<and>
    h_slot_state core = (case r of Inr _ \<Rightarrow> PresentActive | Inl _ \<Rightarrow> PresentInactive)"
proof -
  obtain diag where c: "count_transmit ops (h_diagnostics h) (h_nfc h) apdu (h_tx_buf h)
      = (r, buf, diag, nfc)"
    using assms(5) by (simp add: count_transmit_def Let_def)
  have eq: "apdu_pipeline SerialNfcProfile ops h hdr apdu out = handle_xfr_block SerialNfcProfile ops h hdr apdu out"
    for out
    using assms(3) by (simp add: handle_xfr_block_def SerialNfcProfile_def)
  note form = xfr_block_relay_form [OF assms(3,4) c, of hdr "replicate 271 0"]
  show ?thesis
  proof (cases r)
    case (Inr k)
    have k: "k \<le> 271 \<and> slice buf 0 k = Some (take k buf) \<and> length (take k buf) = k"
      using slot_driver.relayed_ok(3) [OF assms(1,2) c Inr] by (auto simp: slice_def split: if_splits)
    obtain scratch n where w: "write_message 0x80 (slot hdr) (seq hdr) 0 0 0 (take k buf) (replicate 271 0)
        = (scratch, n)" by fastforce
    have "relay_payload scratch n = relay_answer r buf"
      using relay_payload_written [OF w] k Inr by (simp add: relay_answer_def failed_status_def)
    with w k Inr form eq assms(3) show ?thesis
      by (simp add: message_def reply_def)
  next
    case (Inl e)
    let ?h = "h\<lparr>h_nfc := nfc, h_tx_buf := buf, h_diagnostics := diag, h_slot_state := PresentInactive\<rparr>"
    let ?st = "build_bstatus COMMAND_STATUS_FAILED (current_icc_status ?h)"
    let ?err = "xfr_failure_b_error (d_xfr_error_class ops nfc e)"
    obtain scratch n where w: "write_message 0x80 (slot hdr) (seq hdr) ?st ?err 0 [] (replicate 271 0)
        = (scratch, n)" by fastforce
    have "failed_status ?st" by (simp add: current_icc_status_def build_bstatus_def failed_status_def)
    then have "relay_payload scratch n = relay_answer r buf"
      using relay_payload_written [OF w] Inl by (simp add: relay_answer_def)
    with w Inl form eq show ?thesis
      by (simp add: message_def reply_def SerialNfcProfile_def)
  qed
qed

lemma i_block_not_s: "ns \<le> 1 \<Longrightarrow> nr \<le> 1 \<Longrightarrow> \<not> is_s_block_request (plain_block (i_pcb ns m nr) info)"
  by (cases m) (auto simp: is_s_block_request_def plain_block_def i_pcb_def get_opt_def dest!: u8_le_1)

lemma relay_delivered:
  assumes "heapless_ok hv" and "nfc_frontend nops n_inv" and "wrapper_ok hv n_inv ch"
    and "h_slot_state (ch_core ch) = PresentActive" and "length apdu \<le> 512"
    and "reaches_card SerialNfcProfile apdu"
    and "n_transmit_apdu nops (ch_driver ch) apdu (h_tx_buf (ch_core ch)) = (r, buf, d')"
    and "0 < te_send_ifsc (ch_t1 ch)" and "\<not> te_wtx_pending (ch_t1 ch)" and "281 \<le> length out"
    and "\<not> wtx_needed (elapsed_ms_since (now_us d') (now_us (ch_driver ch))) (ch_t1 ch)"
  shows "\<exists>ch' out' n b t'.
    relay_apdu hv nops now_us ch hdr apdu out = Some (ch', out', n) \<and> ch_driver ch' = d' \<and>
    message_at out' n RDR_TO_PC_DATABLOCK (slot hdr) (seq hdr) 0 0 0 b \<and> wf_block b \<and>
    host_collect hv (length (relay_answer r buf) + 1) b (ch_t1 ch') = Some (relay_answer r buf, t')"
proof -
  let ?ops = "adapter_ops nops now_us"
  have e: "endpoint_ok (ch_t1 ch)" by (rule t1_reach_ok [OF assms(1) wrapper_okD(2) [OF assms(3)]])
  obtain a where x: "d_transmit_apdu ?ops (h_nfc (ch_core ch)) apdu (h_tx_buf (ch_core ch)) = (r, buf, a)"
    and a: "ca_driver a = d'"
    using assms(7) by (auto simp: adapter_defs Let_def)
  from pipeline_relays [OF nfc_frontend.core_driver [OF assms(2)] wrapper_okD(1) [OF assms(3)] assms(4,6) x]
  obtain core scratch n where
    p: "apdu_pipeline SerialNfcProfile ?ops (ch_core ch) hdr apdu (replicate 271 0) = Some (core, scratch, n)"
      "relay_payload scratch n = relay_answer r buf" "h_nfc core = a" by blast
  let ?took = "elapsed_ms_since (now_us d') (now_us (ch_driver ch))" and ?rsp = "relay_answer r buf"
  have "length ?rsp \<le> 512" by (auto simp: relay_answer_def split: sum.split)
  from response_collected [OF assms(1) e assms(8,9) this assms(11)] obtain b t1 t2 where
    cr: "card_response hv ?rsp ?took (ch_t1 ch) = Some (b, t1)"
      "host_collect hv (length ?rsp + 1) b t1 = Some (?rsp, t2)"
    by blast
  let ?ch = "ch\<lparr>ch_core := core, ch_t1 := t1\<rparr>"
  have wf: "wf_block b" using card_response_ok [OF assms(1) e, of ?rsp ?took] cr(1) by auto
  then have "length b \<le> 271" using wf_block_length by fastforce
  from ch_message_written [OF this assms(10), of ?ch hdr "0x80" 0 0 0] obtain out' m where
    w: "ch_message ?ch hdr 0x80 0 0 0 b out = Some (?ch, out', m)"
      "message_at out' m 0x80 (slot hdr) (seq hdr) 0 0 0 b"
    by blast
  have "relay_apdu hv nops now_us ch hdr apdu out = Some (?ch, out', m)"
    using nfc_frontend.relay_form [OF assms(2,3,5) p(1), of out] p(2,3) a cr(1) w(1) by simp
  moreover have "ch_driver ?ch = d'" "ch_t1 ?ch = t1" using p(3) a by simp_all
  ultimately show ?thesis using w(2) wf cr(2) by metis
qed

lemma routed:
  assumes "ch_t1_armed ch" and "h_current_protocol (ch_core ch) = 1" and "length data \<le> 512"
    and "\<not> is_s_block_request data"
  shows "ch_process_command hv nops now_us ch (xfr_request sl sq data) out =
    route_block hv nops now_us ch (xfr_header sl sq data) data out"
proof -
  note req = xfr_request_parts [OF assms(3), of sl sq]
  have small: "CCID_HEADER_SIZE + unat (dw_length (xfr_header sl sq data)) < 2 ^ 32"
    using assms(3) req(2) by simp
  have "CCID_HEADER_SIZE + unat (dw_length (xfr_header sl sq data)) \<le> length (xfr_request sl sq data)"
    using req(2,3) by simp
  note slice_message(1) [OF small] slice_message(2) [OF small this, unfolded req(4)]
  then show ?thesis
    using req(1,2,3) assms by (simp add: ch_process_command_def xfr_via_t1_def Let_def)
qed

lemma apdu_over_t1:
  fixes ch :: "'d ccid_handler"
  assumes t_def: "t = ch_t1 ch" and "heapless_ok hv" and "nfc_frontend nops n_inv" and "ch_reach hv nops now_us n_inv ch"
    and "ch_t1_armed ch" and "h_current_protocol (ch_core ch) = 1" and "h_slot_state (ch_core ch) = PresentActive"
    and "nr \<le> 1" and "length info \<le> te_host_ifsd t" and "apdu = te_recv_chain t @ info"
    and "length apdu \<le> 512" and "reaches_card SerialNfcProfile apdu"
    and "n_transmit_apdu nops (ch_driver ch) apdu (h_tx_buf (ch_core ch)) = (r, buf, d')"
    and "0 < te_send_ifsc t" and "\<not> te_wtx_pending t" and "281 \<le> length out"
    and "\<not> wtx_needed (elapsed_ms_since (now_us d') (now_us (ch_driver ch))) t"
  shows "\<exists>ch' out' n b t'.
    ch_process_command hv nops now_us ch
      (xfr_request sl sq (plain_block (i_pcb (te_host_ns t) False nr) info)) out = Some (ch', out', n) \<and>
    ch_driver ch' = d' \<and>
    message_at out' n RDR_TO_PC_DATABLOCK sl sq 0 0 0 b \<and> wf_block b \<and>
    host_collect hv (length (relay_answer r buf) + 1) b (ch_t1 ch') = Some (relay_answer r buf, t')"
proof -
  let ?b = "plain_block (i_pcb (te_host_ns t) False nr) info"
  have ok: "wrapper_ok hv n_inv ch" using nfc_frontend.ch_reach_ok [OF assms(3,2,4)] .
  have "endpoint_ok t" unfolding t_def by (rule t1_reach_ok [OF assms(2) wrapper_okD(2) [OF ok]])
  then have bits: "te_host_ns t \<le> 1" "te_host_ifsd t \<le> 254" by (simp_all add: endpoint_ok_def)
  have lb: "length ?b \<le> 512" using assms(9) bits by (simp add: plain_block_def)
  let ?t = "t\<lparr>te_host_ns := te_host_ns t XOR 1, te_recv_chain := []\<rparr>" and ?hdr = "xfr_header sl sq ?b"
  have feed: "t1_feed hv ?b t = (Apdu apdu, ?t)"
    using feed_i_block [OF assms(2) refl bits(1) assms(8,9) bits(2), of False] assms(10,11) by simp
  let ?ch = "ch\<lparr>ch_t1 := ?t\<rparr>"
  have ok1: "wrapper_ok hv n_inv ?ch" using feed_kept(1) [OF assms(2) ok feed [unfolded t_def]] by (simp add: t_def)
  have "ch_process_command hv nops now_us ch (xfr_request sl sq ?b) out = relay_apdu hv nops now_us ?ch ?hdr apdu out"
    using routed [OF assms(5,6) lb i_block_not_s [OF bits(1) assms(8)], of hv nops now_us sl sq out]
      feed assms(7) by (simp add: route_block_def t_def)
  moreover have "h_slot_state (ch_core ?ch) = PresentActive" "0 < te_send_ifsc (ch_t1 ?ch)"
    "\<not> te_wtx_pending (ch_t1 ?ch)"
    "n_transmit_apdu nops (ch_driver ?ch) apdu (h_tx_buf (ch_core ?ch)) = (r, buf, d')"
    "\<not> wtx_needed (elapsed_ms_since (now_us d') (now_us (ch_driver ?ch))) (ch_t1 ?ch)"
    using assms(7,13-15,17) by (simp_all add: wtx_needed_def)
  ultimately show ?thesis
    using relay_delivered [OF assms(2,3) ok1 _ assms(11,12) _ _ _ assms(16), of r buf d' now_us ?hdr]
    by (simp del: host_collect.simps)
qed

text \<open>C4: An APDU over T=1, end to end, with a card that answers in time.  Take a reachable reader with T=1 armed,
  the card active, a positive block size, no time extension outstanding and a response buffer of at least
  281 bytes, and an XfrBlock that carries the last I-block of a chain, no longer than the agreed block
  size, such that the assembled APDU has at most 512 bytes and is neither a PPS request nor a pseudo-APDU
  of the reader.  When the driver's exchange takes too little time to call for a time extension, the reader
  transmits exactly the assembled APDU, once, and answers a DataBlock without error with a T=1 block; the
  host that acknowledges the blocks collects the card's answer byte for byte, and the status word 64 00
  when the card failed.  A card answer of more than 261 bytes is the exception: the host collects an empty
  answer that is reported as a success.\<close>

theorem t1_apdu_end_to_end:
  fixes ch :: "'d ccid_handler"
  defines "t \<equiv> ch_t1 ch"
  assumes "heapless_ok hv" and "nfc_frontend nops n_inv" and "ch_reach hv nops now_us n_inv ch"
    and "ch_t1_armed ch" and "h_current_protocol (ch_core ch) = 1" and "h_slot_state (ch_core ch) = PresentActive"
    and "nr \<le> 1" and "length info \<le> te_host_ifsd t" and "apdu = te_recv_chain t @ info"
    and "length apdu \<le> 512" and "reaches_card SerialNfcProfile apdu"
    and "n_transmit_apdu nops (ch_driver ch) apdu (h_tx_buf (ch_core ch)) = (r, buf, d')"
    and "0 < te_send_ifsc t" and "\<not> te_wtx_pending t" and "281 \<le> length out"
    and "\<not> wtx_needed (elapsed_ms_since (now_us d') (now_us (ch_driver ch))) t"
  shows "\<exists>ch' out' n b t'.
    ch_process_command hv nops now_us ch
      (xfr_request sl sq (plain_block (i_pcb (te_host_ns t) False nr) info)) out = Some (ch', out', n) \<and>
    ch_driver ch' = d' \<and>
    message_at out' n RDR_TO_PC_DATABLOCK sl sq 0 0 0 b \<and> wf_block b \<and>
    host_collect hv (length (relay_answer r buf) + 1) b (ch_t1 ch') = Some (relay_answer r buf, t')"
  by (rule apdu_over_t1 [OF meta_eq_to_obj_eq [OF t_def] assms(2-)])

section \<open>Card reset\<close>

lemma message_ok:
  assumes "length data \<le> 271" and "281 \<le> length out"
  shows "\<exists>out' n. message h hdr mt st err sp data out = Some (h, out', n) \<and>
    message_at out' n mt (slot hdr) (seq hdr) st err sp data \<and> out' ! 7 = st"
proof -
  obtain out' n where w: "write_message mt (slot hdr) (seq hdr) st err sp data out = (out', n)" by fastforce
  have "out' ! 7 = st"
    using w assms by (auto simp: write_message_fits nth_append header_build_nth)
  moreover have "message_at out' n mt (slot hdr) (seq hdr) st err sp data"
    using write_message_at [OF _ w] assms by simp
  ultimately show ?thesis using w by (simp add: message_def reply_def)
qed

lemma power_on_active:
  assumes "slot_driver ops d_inv" and "handler_ok SerialNfcProfile d_inv h" and "present (h_presence_state h)"
    and "d_power_on ops (h_nfc h) (h_tx_buf h) = (Inr k, buf, nfc)" and "281 \<le> length out"
  shows "\<exists>h' out' n.
    process_command SerialNfcProfile ops h (header_build PC_TO_RDR_ICC_POWER_ON 0 sl sq 0 0 0) out
      = Some (h', out', n) \<and>
    message_at out' n RDR_TO_PC_DATABLOCK sl sq 0 0 0 (take k buf) \<and> h_card_reset_event h' \<and>
    h_slot_state h' = PresentActive \<and> h_nfc h' = nfc"
proof -
  let ?msg = "header_build PC_TO_RDR_ICC_POWER_ON 0 sl sq 0 0 0"
  let ?hdr = "\<lparr>message_type = PC_TO_RDR_ICC_POWER_ON, dw_length = 0, slot = sl, seq = sq, specific = (0, 0, 0)\<rparr>"
  let ?h = "h\<lparr>h_nfc := nfc, h_tx_buf := buf, h_presence_state := \<lparr>present = True\<rparr>,
              h_slot_state := PresentActive, h_card_reset_event := True\<rparr>"
  have hp: "header_parse ?msg = Some ?hdr" using header_parse_build [of _ _ _ _ _ _ _ "[]"] by simp
  have "k \<le> 271 \<and> slice buf 0 k = Some (take k buf)"
    using slot_driver.power_on_result(3) [OF assms(1) _ _ assms(4)] assms(2) by (simp add: handler_ok_def)
  moreover from this have "length (take k buf) \<le> 271" by (simp add: min.coboundedI2)
  from message_ok [OF this assms(5), of ?h ?hdr "0x80" 0 0 0] obtain out' n where
    "message ?h ?hdr 0x80 0 0 0 (take k buf) out = Some (?h, out', n)" "out' ! 7 = 0"
    "message_at out' n 0x80 sl sq 0 0 0 (take k buf)"
    by auto
  ultimately show ?thesis
    using process_command_in_range [OF hp, of SerialNfcProfile ops h out] assms(3,4)
    by (simp add: dispatch_def handle_power_on_def SerialNfcProfile_def build_bstatus_def failed_status_def)
qed

lemma pps_echoed:
  assumes "h_slot_state h = PresentActive" and "is_pps_request pps" and "281 \<le> length out"
  shows "\<exists>out' n.
    process_command SerialNfcProfile ops h (xfr_request sl sq pps) out = Some (h, out', n) \<and>
    message_at out' n RDR_TO_PC_DATABLOCK sl sq 0 0 0 pps"
proof -
  have l: "length pps \<le> 271" using pps_short [OF assms(2)] .
  then have l5: "length pps \<le> 512" by simp
  note req = xfr_request_parts [OF l5, of sl sq]
  from message_ok [OF l assms(3), of h "xfr_header sl sq pps" "0x80" 0 0 0] obtain out' n where
    "message h (xfr_header sl sq pps) 0x80 0 0 0 pps out = Some (h, out', n)" "out' ! 7 = 0"
    "message_at out' n 0x80 sl sq 0 0 0 pps"
    by auto
  then show ?thesis
    using process_command_in_range [OF req(1), of SerialNfcProfile ops h out] req(2-) l assms(1,2)
    by (simp add: dispatch_def handle_xfr_block_def apdu_pipeline_def SerialNfcProfile_def build_bstatus_def
        failed_status_def)
qed

lemma delegated:
  assumes "header_parse msg = Some hdr" and "message_type hdr \<noteq> PC_TO_RDR_ESCAPE"
    and "message_type hdr = PC_TO_RDR_XFR_BLOCK \<Longrightarrow> \<not> ch_t1_armed ch"
  shows "ch_process_command hv nops now_us ch msg out = delegate nops now_us ch msg out"
  using assms by (auto simp: ch_process_command_def Let_def)

text \<open>A card reset ends the T=1 session, so the host's first probe is understood.  Whatever the
  session was doing before, a successful IccPowerOn answers the card's ATR, disarms the T=1 route
  and replaces the endpoint by a fresh one; the PPS request the host sends next is echoed back
  unchanged and reaches neither the endpoint nor the card.\<close>

theorem power_on_then_pps_echoed:
  assumes "heapless_ok hv" and "nfc_frontend nops n_inv" and "ch_reach hv nops now_us n_inv ch"
    and "present (h_presence_state (ch_core ch))"
    and "n_power_on nops (ch_driver ch) (h_tx_buf (ch_core ch)) = (Inr k, buf, d')"
    and "is_pps_request pps" and "281 \<le> length out"
  shows "\<exists>ch1 out1 n1 out2 n2.
    ch_process_command hv nops now_us ch (header_build PC_TO_RDR_ICC_POWER_ON 0 sl sq 0 0 0) out
      = Some (ch1, out1, n1) \<and>
    message_at out1 n1 RDR_TO_PC_DATABLOCK sl sq 0 0 0 (take k buf) \<and>
    \<not> ch_t1_armed ch1 \<and> ch_t1 ch1 = endpoint_new \<and> ch_driver ch1 = d' \<and>
    ch_process_command hv nops now_us ch1 (xfr_request sl' sq' pps) out = Some (ch1, out2, n2) \<and>
    message_at out2 n2 RDR_TO_PC_DATABLOCK sl' sq' 0 0 0 pps"
proof -
  have ok: "wrapper_ok hv n_inv ch" using nfc_frontend.ch_reach_ok [OF assms(2,1,3)] .
  let ?msg = "header_build PC_TO_RDR_ICC_POWER_ON 0 sl sq 0 0 0"
  obtain a where p: "d_power_on (adapter_ops nops now_us) (h_nfc (ch_core ch)) (h_tx_buf (ch_core ch))
      = (Inr k, buf, a)" and a: "ca_driver a = d'"
    using assms(5) by (auto simp: adapter_defs)
  from power_on_active [OF nfc_frontend.core_driver [OF assms(2)] wrapper_okD(1) [OF ok] assms(4) p assms(7)]
  obtain core out1 n1 where
    c: "process_command SerialNfcProfile (adapter_ops nops now_us) (ch_core ch) ?msg out = Some (core, out1, n1)"
      "message_at out1 n1 0x80 sl sq 0 0 0 (take k buf)" "h_card_reset_event core"
      "h_slot_state core = PresentActive" "h_nfc core = a"
    by blast
  define ch1 where "ch1 = disarm_on_reset (arm_on_parameters (ch\<lparr>ch_core := core\<rparr>))"
  have hp: "header_parse ?msg = Some \<lparr>message_type = PC_TO_RDR_ICC_POWER_ON, dw_length = 0, slot = sl, seq = sq,
      specific = (0, 0, 0)\<rparr>"
    using header_parse_build [of _ _ _ _ _ _ _ "[]"] by simp
  have "ch_process_command hv nops now_us ch ?msg out = delegate nops now_us ch ?msg out"
    by (rule delegated [OF hp]) simp_all
  then have "ch_process_command hv nops now_us ch ?msg out = Some (ch1, out1, n1)"
    using c(1) by (simp add: delegate_def ch1_def)
  moreover have d: "\<not> ch_t1_armed ch1" "ch_t1 ch1 = endpoint_new" "ch_driver ch1 = d'"
      "h_slot_state (ch_core ch1) = PresentActive" and
    ev: "\<not> h_parameters_accepted_event (ch_core ch1)" "\<not> h_card_reset_event (ch_core ch1)"
    using c(3-5) a
    by (auto simp: ch1_def disarm_on_reset_def arm_on_parameters_def take_card_reset_def
        take_parameters_accepted_def Let_def endpoint_reset_def)
  moreover obtain out2 n2 where
    "ch_process_command hv nops now_us ch1 (xfr_request sl' sq' pps) out = Some (ch1, out2, n2)"
    "message_at out2 n2 0x80 sl' sq' 0 0 0 pps"
  proof -
    have l5: "length pps \<le> 512" using pps_short [OF assms(6)] by simp
    have idle: "disarm_on_reset (arm_on_parameters ch1) = ch1"
      using ev by (simp add: disarm_on_reset_def arm_on_parameters_def take_card_reset_def
          take_parameters_accepted_def)
    from pps_echoed [OF d(4) assms(6,7)] obtain out2 n2 where
      "process_command SerialNfcProfile (adapter_ops nops now_us) (ch_core ch1) (xfr_request sl' sq' pps) out
         = Some (ch_core ch1, out2, n2)" "message_at out2 n2 0x80 sl' sq' 0 0 0 pps"
      by blast
    moreover have "ch_process_command hv nops now_us ch1 (xfr_request sl' sq' pps) out
        = delegate nops now_us ch1 (xfr_request sl' sq' pps) out"
      by (rule delegated [OF xfr_request_parts(1) [OF l5]]) (simp_all add: d(1))
    ultimately show thesis using that idle by (simp add: delegate_def)
  qed
  ultimately show ?thesis using c(2) by blast
qed

section \<open>A concrete reader\<close>

text \<open>A reader on the scripted driver that has polled its card, powered it on and negotiated T=1.\<close>

abbreviation no_clock :: "mock_nfc \<Rightarrow> int" where "no_clock \<equiv> \<lambda>_. 0"

abbreviation (input) mock_step :: "mock_nfc ccid_handler \<Rightarrow> bytes \<Rightarrow> mock_nfc ch_reply" where
  "mock_step ch msg \<equiv> ch_process_command heapless_list mock_ops no_clock ch msg (replicate 300 0)"

definition serial_reader :: "mock_nfc ccid_handler" where
  "serial_reader =
     snd (snd (ch_check_card_change mock_ops no_clock
       (ch_new mock_ops no_clock (mock_new True [0x3B, 0x00] [0x6F, 0x00, 0x90, 0x00]))))"

definition powered_reader :: "mock_nfc ccid_handler" where
  "powered_reader = fst (the (mock_step serial_reader [0x62, 0, 0, 0, 0, 0, 1, 0, 0, 0]))"

definition armed_reader :: "mock_nfc ccid_handler" where
  "armed_reader = fst (the (mock_step powered_reader
     [0x61, 7, 0, 0, 0, 0, 2, 1, 0, 0, 0x11, 0, 0, 0x45, 0, 0xFE, 0]))"

abbreviation (input) reachable_reader :: "mock_nfc ccid_handler \<Rightarrow> bool" where
  "reachable_reader \<equiv> ch_reach heapless_list mock_ops no_clock mock_ok"

lemma serial_reader_reach: "reachable_reader serial_reader"
proof -
  let ?d = "mock_new True [0x3B, 0x00] [0x6F, 0x00, 0x90, 0x00]"
  have "mock_ok ?d" by (simp add: mock_ok_def mock_new_def)
  then have r: "reachable_reader (ch_new mock_ops no_clock ?d)" by (rule ch_reach.new)
  obtain ev pushed ch where e: "ch_check_card_change mock_ops no_clock (ch_new mock_ops no_clock ?d)
      = (ev, pushed, ch)"
    using prod_cases3 by blast
  from ch_reach.poll [OF r e] e show ?thesis by (simp add: serial_reader_def)
qed

lemma mock_command_reach:
  assumes "reachable_reader ch" and "Option.is_none (mock_step ch msg) = False"
  shows "reachable_reader (fst (the (mock_step ch msg)))"
  using assms by (auto simp: Option.is_none_def intro: ch_reach.command)

lemma armed_reader_reach: "reachable_reader armed_reader"
  unfolding armed_reader_def powered_reader_def
  by (intro mock_command_reach serial_reader_reach; code_simp)

lemma armed_reader_state:
  "ch_t1_armed armed_reader = True" "h_current_protocol (ch_core armed_reader) = 1"
  "te_recv_chain (ch_t1 armed_reader) = []" "te_host_ns (ch_t1 armed_reader) = 0"
  "te_host_ifsd (ch_t1 armed_reader) = 254" "te_send_ifsc (ch_t1 armed_reader) = 32"
  "te_wtx_pending (ch_t1 armed_reader) = False" "te_host_bwi (ch_t1 armed_reader) = 4"
  by code_simp+

lemma armed_reader_active: "h_slot_state (ch_core armed_reader) = PresentActive"
proof -
  have "(case h_slot_state (ch_core armed_reader) of PresentActive \<Rightarrow> True | _ \<Rightarrow> False) = True"
    by code_simp
  then show ?thesis by (simp split: slot_state.splits)
qed

theorem serial_handler_answers_witness:
  "block_answer (xfr_header 0 3 [0x00, 0xC1, 0x01, 0xFE, 0x3E])
     (mock_step armed_reader (xfr_request 0 3 [0x00, 0xC1, 0x01, 0xFE, 0x3E]))"
proof -
  have l: "length [0x00, 0xC1, 0x01, 0xFE, 0x3E :: u8] \<le> 512" by simp
  note req = xfr_request_parts [OF l, of 0 3]
  show ?thesis
    using serial_handler_answers [OF heapless_list_ok mock_probe.nfc_frontend_axioms armed_reader_reach req(1),
        of "replicate 300 0"] req(2,3) armed_reader_state armed_reader_active
    by simp
qed

theorem serial_session_consistent_witness:
  "host_timing (ch_core armed_reader) = (4, 254)"
  using serial_session_consistent [OF heapless_list_ok mock_probe.nfc_frontend_axioms armed_reader_reach]
    armed_reader_state by auto

theorem t1_apdu_end_to_end_witness:
  "\<exists>ch' out' n b t'.
     mock_step armed_reader (xfr_request 0 3 (plain_block (i_pcb 0 False 0) [0x00, 0xCA, 0x00, 0x4F]))
       = Some (ch', out', n) \<and>
     message_at out' n 0x80 0 3 0 0 0 b \<and>
     host_collect heapless_list 5 b (ch_t1 ch') = Some ([0x6F, 0x00, 0x90, 0x00], t')"
proof -
  let ?apdu = "[0x00, 0xCA, 0x00, 0x4F] :: bytes"
  obtain r buf d' where t: "n_transmit_apdu mock_ops (ch_driver armed_reader) ?apdu
      (h_tx_buf (ch_core armed_reader)) = (r, buf, d')"
    using prod_cases3 by blast
  have "(case n_transmit_apdu mock_ops (ch_driver armed_reader) ?apdu (h_tx_buf (ch_core armed_reader)) of
      (r, buf, d') \<Rightarrow> relay_answer r buf) = [0x6F, 0x00, 0x90, 0x00]"
    by code_simp
  then have a: "relay_answer r buf = [0x6F, 0x00, 0x90, 0x00]" using t by simp
  have f: "length [0x6F, 0x00, 0x90, 0x00 :: u8] + 1 = 5" by simp
  have w: "\<not> wtx_needed (elapsed_ms_since (no_clock d') (no_clock (ch_driver armed_reader))) (ch_t1 armed_reader)"
    using armed_reader_state
    by (simp add: wtx_needed_def elapsed_ms_since_def word_less_nat_alt t1_bwt_ms_exact div_ceil_nat_def)
  have c: "reaches_card SerialNfcProfile ?apdu"
    by (simp add: reaches_card_def is_pps_request_def SerialNfcProfile_def)
  have "0 < te_send_ifsc (ch_t1 armed_reader)" "\<not> te_wtx_pending (ch_t1 armed_reader)"
    "length ?apdu \<le> te_host_ifsd (ch_t1 armed_reader)" "?apdu = te_recv_chain (ch_t1 armed_reader) @ ?apdu"
    "ch_t1_armed armed_reader" "length ?apdu \<le> 512" "(0 :: u8) \<le> 1" "281 \<le> length (replicate 300 (0 :: u8))"
    using armed_reader_state by simp_all
  note s = this
  show ?thesis
    using t1_apdu_end_to_end [OF heapless_list_ok mock_probe.nfc_frontend_axioms armed_reader_reach
        s(5) armed_reader_state(2) armed_reader_active s(7,3,4,6) c t s(1,2,8) w, of 0 3,
        unfolded a f armed_reader_state(4)]
    by blast
qed

theorem power_on_then_pps_echoed_witness:
  "\<exists>ch1 out1 n1 out2 n2.
     mock_step serial_reader (header_build 0x62 0 0 1 0 0 0) = Some (ch1, out1, n1) \<and>
     \<not> ch_t1_armed ch1 \<and>
     mock_step ch1 (xfr_request 0 2 [0xFF, 0x01, 0xFE]) = Some (ch1, out2, n2) \<and>
     message_at out2 n2 0x80 0 2 0 0 0 [0xFF, 0x01, 0xFE]"
proof -
  have "present (h_presence_state (ch_core serial_reader)) = True" by code_simp
  then have p: "present (h_presence_state (ch_core serial_reader))" by simp
  let ?on = "n_power_on mock_ops (ch_driver serial_reader) (h_tx_buf (ch_core serial_reader))"
  have "(case fst ?on of Inr k \<Rightarrow> True | Inl e \<Rightarrow> False) = True" by code_simp
  then obtain k where "fst ?on = Inr k" by (auto split: sum.splits)
  then obtain buf d' where o: "?on = (Inr k, buf, d')" by (metis prod.collapse)
  have "is_pps_request [0xFF, 0x01, 0xFE]" by (simp add: is_pps_request_def)
  moreover have "281 \<le> length (replicate 300 (0 :: u8))" by simp
  ultimately show ?thesis
    using power_on_then_pps_echoed [OF heapless_list_ok mock_probe.nfc_frontend_axioms serial_reader_reach p o,
        of "[0xFF, 0x01, 0xFE]" "replicate 300 0" 0 1 0 2]
    by blast
qed

end
