(* ===== verification/Serial_Server_Props.thy ===== *)
theory Serial_Server_Props
  imports Serial_Server Ccid_Handler_Props
begin

text \<open>
  Properties of the serial serving core: its buffers never overflow, every byte is served without a
  panic, what goes back to the host is the echo of the received frame followed by one answer, and
  when an answer is dropped as late.
\<close>

section \<open>The time-extension bridge\<close>

definition bridge_ok :: "time_extension \<Rightarrow> bool" where
  "bridge_ok x \<longleftrightarrow> \<not> tx_armed x \<and> length (tx_echo x) = MAX_FRAME_SIZE \<and> tx_echo_len x \<le> MAX_FRAME_SIZE"

lemma bridge_new_ok: "bridge_ok time_extension_new" "bridge_ok x \<Longrightarrow> bridge_ok (register_writer x)"
  by (simp_all add: bridge_ok_def time_extension_new_def register_writer_def)

lemma hooks_idle: "\<not> tx_armed x \<or> \<not> tx_writer x \<Longrightarrow> stall_hooks k x = ([], x)"
  by (induction k) (auto simp: stall_hook_def)

lemma hooks_flushed:
  "tx_armed x \<Longrightarrow> tx_writer x \<Longrightarrow> tx_echo_flushed x \<Longrightarrow>
     stall_hooks k x = (replicate k (build_frame (tx_seq x) (tx_icc x)),
       x\<lparr>tx_extensions_written := tx_extensions_written x + word_of_nat k\<rparr>)"
  by (induction k arbitrary: x) (simp_all add: stall_hook_def ac_simps)

text \<open>What the hook writes while a command is in flight: the echo once, then one interim frame per
  call.\<close>

definition interim_writes :: "nat \<Rightarrow> u8 \<Rightarrow> u8 \<Rightarrow> bytes \<Rightarrow> bytes list" where
  "interim_writes k sq icc ech = (if k = 0 then [] else ech # replicate k (build_frame sq icc))"

lemma armed_hooks:
  assumes "bridge_ok x" and "tx_writer x" and "length ech \<le> MAX_FRAME_SIZE"
    and "stall_hooks k (arm sq icc ech x) = (ws, x')" and "disarm_and_take_emitted x' = (emitted, y)"
  shows "ws = interim_writes k sq icc ech \<and> emitted = word_of_nat k \<and> bridge_ok y \<and> tx_writer y"
proof -
  let ?x = "arm sq icc ech x"
  have x: "tx_armed ?x" "tx_writer ?x" "\<not> tx_echo_flushed ?x" "tx_extensions_written ?x = 0"
    "tx_seq ?x = sq" "tx_icc ?x = icc" "take (tx_echo_len ?x) (tx_echo ?x) = ech"
    "length (tx_echo ?x) = MAX_FRAME_SIZE" "tx_echo_len ?x \<le> MAX_FRAME_SIZE"
    using assms(1-3) by (simp_all add: arm_def Let_def bridge_ok_def)
  show ?thesis
  proof (cases k)
    case 0
    with assms(4,5) x show ?thesis
      by (auto simp: interim_writes_def disarm_and_take_emitted_def bridge_ok_def)
  next
    case (Suc j)
    let ?y = "?x\<lparr>tx_echo_flushed := True, tx_extensions_written := 1\<rparr>"
    have "stall_hooks j ?y = (replicate j (build_frame sq icc), ?y\<lparr>tx_extensions_written := 1 + word_of_nat j\<rparr>)"
      using hooks_flushed [of ?y j] x by simp
    with Suc assms(4,5) x show ?thesis
      by (auto simp: stall_hook_def interim_writes_def disarm_and_take_emitted_def bridge_ok_def)
  qed
qed

section \<open>The invariant\<close>

definition server_ok :: "heapless \<Rightarrow> ('d \<Rightarrow> bool) \<Rightarrow> 'd serial_server \<Rightarrow> bool" where
  "server_ok hv n_inv s \<longleftrightarrow>
     wrapper_ok hv n_inv (ss_handler s) \<and> parser_ok (ss_parser s) \<and> bridge_ok (ss_ext s) \<and>
     length (ss_echo_buf s) = MAX_FRAME_SIZE \<and> ss_echo_len s \<le> MAX_FRAME_SIZE \<and>
     length (ss_notify_buf s) = 2 \<and> ss_notify_len s \<le> 2 \<and> length (ss_nak_buf s) = 3 \<and>
     length (ss_ccid_resp_buf s) = MAX_CCID_RESPONSE_SIZE \<and>
     length (ss_resp_buf s) = MAX_FRAME_SIZE \<and> ss_resp_len s \<le> MAX_FRAME_SIZE \<and>
     0 < ss_poll_interval_ticks s \<and> 0 < rw_tight (ss_windows s) \<and> 0 < rw_xfr_block (ss_windows s) \<and>
     0 < rw_power_on (ss_windows s) \<and> 0 < ss_active_deadline_ticks s"

lemma server_okD:
  assumes "server_ok hv n_inv s"
  shows "wrapper_ok hv n_inv (ss_handler s)" "parser_ok (ss_parser s)" "bridge_ok (ss_ext s)"
  using assms by (simp_all add: server_ok_def)

lemma parser_reset_ok [simp]: "parser_ok (parser_reset p)"
  by (simp add: parser_reset_def reset_state_def parser_ok_def)

lemma u32_max_pos: "0 < max x (1 :: u32)"
  by (simp add: max_def word_less_nat_alt word_le_nat_alt)

lemma server_new_ok:
  assumes "wrapper_ok hv n_inv ch" and "bridge_ok ext"
  shows "server_ok hv n_inv (server_with_config ch iv windows now_ticks config ext)"
  using assms u32_max_pos
  by (simp add: server_with_config_def server_ok_def Let_def parser_new_def parser_ok_def)

lemma server_handler_ok:
  "server_ok hv n_inv s \<Longrightarrow> wrapper_ok hv n_inv ch \<Longrightarrow> server_ok hv n_inv (s\<lparr>ss_handler := ch\<rparr>)"
  by (simp add: server_ok_def)

lemma poll_due_ok: "server_ok hv n_inv s \<Longrightarrow> poll_due now_ticks s = (b, s') \<Longrightarrow> server_ok hv n_inv s'"
  by (auto simp: poll_due_def server_ok_def split: if_splits)

lemma late_ok:
  assumes "server_ok hv n_inv s"
  shows "server_ok hv n_inv (record_late_response s)"
proof -
  obtain b ch1 where 1: "ch_take_snapshot_request (ss_handler s) = (b, ch1)" by fastforce
  obtain x ch2 where 2: "take_baud_change ch1 = (x, ch2)" by fastforce
  have "wrapper_ok hv n_inv ch2"
    using housekeeping_ok(6) [OF housekeeping_ok(4) [OF server_okD(1) [OF assms] 1] 2] .
  with assms 1 2 show ?thesis by (simp add: record_late_response_def server_ok_def Let_def)
qed

lemma deadline_ok:
  "server_ok hv n_inv s \<Longrightarrow> server_ok hv n_inv (extend_response_deadline k s)"
  "server_ok hv n_inv s \<Longrightarrow> server_ok hv n_inv (refresh_host_deadline t s)"
  by (simp_all add: extend_response_deadline_def refresh_host_deadline_def server_ok_def)

context nfc_frontend
begin

lemma presence_poll_ok:
  assumes "server_ok hv n_inv s" and "presence_poll nops now_us now_ticks s = (ev, s')"
  shows "server_ok hv n_inv s'"
  using assms
  by (auto simp: presence_poll_def Let_def split: prod.splits intro!: server_handler_ok
      dest!: poll_ok [OF housekeeping_ok(1) [OF server_okD(1) [OF assms(1)]]])

lemma poll_and_stash_ok:
  assumes "server_ok hv n_inv s" and "poll_and_stash nops now_us now_ticks s = (b, s')"
  shows "server_ok hv n_inv s'"
proof -
  obtain due s1 where 1: "poll_due now_ticks s = (due, s1)" by fastforce
  obtain ev s2 where 2: "presence_poll nops now_us now_ticks s1 = (ev, s2)" by fastforce
  note k = poll_due_ok [OF assms(1) 1]
  from presence_poll_ok [OF k 2] have "server_ok hv n_inv (s2\<lparr>ss_pending_notify := x\<rparr>)" for x
    by (simp add: server_ok_def)
  with assms(2) 1 2 k presence_poll_ok [OF k 2] show ?thesis
    by (auto simp: poll_and_stash_def split: if_splits option.splits)
qed

lemma on_read_idle_ok:
  assumes "server_ok hv n_inv s" and "on_read_idle nops now_us now_ticks s = (b, s')"
  shows "server_ok hv n_inv s'"
proof (rule poll_and_stash_ok)
  show "server_ok hv n_inv (s\<lparr>ss_parser := parser_reset (ss_parser s)\<rparr>)"
    using assms(1) by (simp add: server_ok_def)
qed (use assms(2) in \<open>simp add: on_read_idle_def\<close>)

lemma poll_if_due_ok:
  assumes "server_ok hv n_inv s" and "poll_if_due nops now_us now_ticks s = (b, s')"
  shows "server_ok hv n_inv s'"
proof -
  define s0 where "s0 = (if mid_frame (ss_parser s) \<and> INTER_BYTE_STALL_TICKS < now_ticks - ss_last_byte_tick s
               then s\<lparr>ss_parser := parser_reset (ss_parser s)\<rparr> else s)"
  have s0: "server_ok hv n_inv s0" using assms(1) by (simp add: s0_def server_ok_def)
  obtain due s1 where 1: "poll_due now_ticks s0 = (due, s1)" by fastforce
  note k = poll_due_ok [OF s0 1]
  obtain ev pushed ch where 2: "ch_check_card_change nops now_us (ss_handler s1) = (ev, pushed, ch)"
    using prod_cases3 by blast
  from assms(2) 1 2 k server_handler_ok [OF k poll_ok [OF server_okD(1) [OF k] 2]] show ?thesis
    by (auto simp: poll_if_due_def s0_def [symmetric] Let_def split: if_splits)
qed

end

section \<open>Serving one command\<close>

text \<open>The read window of a command, by its class.\<close>

definition command_window :: "response_windows \<Rightarrow> bytes \<Rightarrow> u32" where
  "command_window w c =
     (if c ! 0 = PC_TO_RDR_XFR_BLOCK then rw_xfr_block w
      else if c ! 0 = PC_TO_RDR_ICC_POWER_ON then rw_power_on w else rw_tight w)"

text \<open>How many interim frames the hook writes for a command when the driver calls it \<open>stalls\<close> times.\<close>

definition interim_count :: "time_extension \<Rightarrow> nat \<Rightarrow> bytes \<Rightarrow> nat" where
  "interim_count x stalls c = (if tx_writer x \<and> c ! 0 = PC_TO_RDR_XFR_BLOCK then stalls else 0)"

text \<open>The card transition a GetSlotStatus announces: the one a poll that is due finds, or the one seen earlier.\<close>

definition slot_change :: "('d, 'e) nfc_ops \<Rightarrow> ('d \<Rightarrow> int) \<Rightarrow> bytes \<Rightarrow> u32 \<Rightarrow> 'd serial_server \<Rightarrow> bool option" where
  "slot_change nops now_us c now_ticks s =
     (if c ! 0 = PC_TO_RDR_GET_SLOT_STATUS \<and> notify_slot_change (ss_config s) then
        (case (if inline_poll (ss_config s) \<and> ss_poll_interval_ticks s \<le> now_ticks - ss_last_poll_tick s
               then fst (presence_poll nops now_us now_ticks s) else None) of
           Some pres \<Rightarrow> Some pres
         | None \<Rightarrow> ss_pending_notify s)
      else None)"

lemma slot_change_cong:
  assumes "ss_handler s' = ss_handler s" "ss_config s' = ss_config s" "ss_pending_notify s' = ss_pending_notify s"
    "ss_poll_interval_ticks s' = ss_poll_interval_ticks s" "ss_last_poll_tick s' = ss_last_poll_tick s"
  shows "slot_change nops now_us c t s' = slot_change nops now_us c t s"
  using assms by (simp add: slot_change_def presence_poll_def Let_def case_prod_beta cong: option.case_cong)

definition change_bytes :: "bool option \<Rightarrow> bytes" where
  "change_bytes ch =
     (case ch of None \<Rightarrow> [] | Some pres \<Rightarrow> [RDR_TO_PC_NOTIFY_SLOT_CHANGE, if pres then CARD_PRESENT else CARD_ABSENT])"

text \<open>The message a command is answered with; it is empty when the driver's data leaves no room for it.\<close>

definition answer_or_too_long :: "('d, 'e) nfc_ops \<Rightarrow> ('d \<Rightarrow> int) \<Rightarrow> 'd ccid_handler \<Rightarrow> bytes \<Rightarrow> bytes \<Rightarrow> bool" where
  "answer_or_too_long nops now_us ch c m =
     (case header_parse c of
        None \<Rightarrow> False
      | Some hdr \<Rightarrow>
          if m = [] then overlong_data SerialNfcProfile (adapter_ops nops now_us) (ch_core ch) hdr (frame_payload hdr c)
          else answers_request hdr m (length m))"

definition served ::
    "heapless \<Rightarrow> ('d, 'e) nfc_ops \<Rightarrow> ('d \<Rightarrow> int) \<Rightarrow> ('d \<Rightarrow> bool) \<Rightarrow> nat \<Rightarrow> bytes \<Rightarrow> u32 \<Rightarrow> 'd serial_server \<Rightarrow> bytes list \<Rightarrow> 'd serial_server \<Rightarrow> bool" where
  "served hv nops now_us n_inv stalls c now_ticks s writes s' \<longleftrightarrow>
     (let k = interim_count (ss_ext s) stalls c; w = command_window (ss_windows s) c in
      server_ok hv n_inv s' \<and>
      writes = interim_writes k (c ! 6) (ch_icc_status (ss_handler s)) (frame_bytes c) \<and>
      server_echo s' = (if (word_of_nat k :: u8) = 0 then frame_bytes c else []) \<and>
      server_notify s' = change_bytes (slot_change nops now_us c now_ticks s) \<and>
      (\<exists>m. server_response s' = frame_bytes m \<and> answer_or_too_long nops now_us (ss_handler s) c m) \<and>
      ss_active_deadline_ticks s' = w \<and>
      ss_frame_done_tick s' = now_ticks + w * ucast (word_of_nat k :: u8) \<and>
      ss_parser s' = ss_parser s \<and> ss_last_byte_tick s' = ss_last_byte_tick s \<and>
      ss_windows s' = ss_windows s \<and> tx_writer (ss_ext s') = tx_writer (ss_ext s) \<and>
      ss_late_drop_count s' = ss_late_drop_count s)"

lemma wf_command_header:
  assumes "wf_command c"
  obtains hdr where "header_parse c = Some hdr" "unat (dw_length hdr) \<le> 261"
    "unat (dw_length hdr) + 10 = length c" "message_type hdr = c ! 0" "seq hdr = c ! 6"
  using assms
  by (auto simp: wf_command_def declared_len_def header_parse_def)

lemma wf_command_get:
  assumes "wf_command c"
  shows "get_opt c 0 = Some (c ! 0)" "get_opt c 6 = Some (c ! 6)"
  using assms by (auto simp: wf_command_def get_opt_def)

lemma wf_command_no_panic: "wf_command c \<Longrightarrow> \<not> wrapper_panics ch c"
  by (erule wf_command_header) (auto simp: wrapper_panics_def)

lemma frame_bytes_length: "length (frame_bytes c) = length c + 3"
  by (simp add: frame_bytes_def)

lemma answers_take:
  assumes "answers_request hdr out n"
  shows "answers_request hdr (take n out) (length (take n out)) \<and> n \<le> length out"
proof -
  obtain rh where rh: "header_parse out = Some rh" "n = CCID_HEADER_SIZE + unat (dw_length rh)" "n \<le> length out"
    using assms by (auto simp: answers_request_def split: option.splits)
  then have "header_parse (take n out) = Some rh"
    by (auto simp: header_parse_def split: if_splits)
  with assms rh show ?thesis by (simp add: answers_request_def)
qed

text \<open>What presence handling leaves alone in the server.\<close>

definition wire_kept :: "'d serial_server \<Rightarrow> 'd serial_server \<Rightarrow> bool" where
  "wire_kept s s' \<longleftrightarrow>
     ss_parser s' = ss_parser s \<and> ss_windows s' = ss_windows s \<and> ss_ext s' = ss_ext s \<and>
     ss_echo_buf s' = ss_echo_buf s \<and> ss_echo_len s' = ss_echo_len s \<and>
     ss_last_byte_tick s' = ss_last_byte_tick s \<and> ss_frame_done_tick s' = ss_frame_done_tick s \<and>
     ss_active_deadline_ticks s' = ss_active_deadline_ticks s \<and>
     ss_late_drop_count s' = ss_late_drop_count s"

lemma wire_kept_refl [simp]: "wire_kept s s"
  by (simp add: wire_kept_def)

lemma polls_wire_kept:
  "poll_due now_ticks s = (b, s') \<Longrightarrow> wire_kept s s'"
  "presence_poll nops now_us now_ticks s = (ev, s') \<Longrightarrow> wire_kept s s'"
  by (auto simp: poll_due_def presence_poll_def Let_def wire_kept_def split: if_splits prod.splits)

lemma wire_kept_trans: "wire_kept a b \<Longrightarrow> wire_kept b c \<Longrightarrow> wire_kept a c"
  by (simp add: wire_kept_def)

lemma overlong_refresh:
  "overlong_data P ops (ch_core (ch_refresh_diagnostics nops now_us t ch)) hdr payload = overlong_data P ops (ch_core ch) hdr payload"
  by (simp add: overlong_data_def ch_refresh_diagnostics_def refresh_diagnostics_def Let_def)

lemma icc_refresh [simp]: "ch_icc_status (ch_refresh_diagnostics nops now_us t ch) = ch_icc_status ch"
  by (simp add: ch_icc_status_def ch_refresh_diagnostics_def refresh_diagnostics_def Let_def)

context nfc_frontend
begin

lemma slot_poll_ok:
  assumes "server_ok hv n_inv s"
    and "(due, s1) = (if inline_poll (ss_config s) then poll_due now_ticks s else (False, s))"
    and "(fresh, s2) = (if due then presence_poll nops now_us now_ticks s1 else (None, s1))"
  shows "server_ok hv n_inv s2 \<and> wire_kept s s2"
proof -
  have 1: "server_ok hv n_inv s1 \<and> wire_kept s s1"
    using assms(1,2) poll_due_ok [OF assms(1)] polls_wire_kept(1)
    by (metis prod.inject wire_kept_refl)
  then show ?thesis
    using assms(3) presence_poll_ok [of hv s1] polls_wire_kept(2) wire_kept_trans
    by (metis prod.inject)
qed

lemma slot_notification_ok:
  assumes "server_ok hv n_inv s" and "wf_command c"
  shows "\<exists>s'. slot_notification nops now_us c now_ticks s = Some s' \<and> server_ok hv n_inv s' \<and>
    wire_kept s s' \<and> server_notify s' = change_bytes (slot_change nops now_us c now_ticks s) \<and>
    (c ! 0 \<noteq> PC_TO_RDR_GET_SLOT_STATUS \<longrightarrow> ss_handler s' = ss_handler s)"
proof (cases "c ! 0 = PC_TO_RDR_GET_SLOT_STATUS")
  case False
  with assms wf_command_get [OF assms(2)] show ?thesis
    by (auto simp: slot_notification_def server_ok_def wire_kept_def slot_change_def change_bytes_def server_notify_def)
next
  case True
  let ?s = "s\<lparr>ss_notify_len := 0, ss_pending_notify := None\<rparr>"
  have ok: "server_ok hv n_inv ?s" using assms(1) by (simp add: server_ok_def)
  obtain due s1 where 1: "(due, s1) = (if inline_poll (ss_config ?s) then poll_due now_ticks ?s else (False, ?s))"
    by (metis surj_pair)
  obtain fresh s2 where 2: "(fresh, s2) = (if due then presence_poll nops now_us now_ticks s1 else (None, s1))"
    by (metis surj_pair)
  note k = slot_poll_ok [OF ok 1 2]
  have w: "wire_kept s s2" using k by (simp add: wire_kept_def)
  define ch where "ch = (case fresh of Some p \<Rightarrow> Some p | None \<Rightarrow> ss_pending_notify s)"
  have "slot_notification nops now_us c now_ticks s =
    (case ch of
       Some pres \<Rightarrow> if notify_slot_change (ss_config s2) then do {
                 (buf, n) \<leftarrow> build_slot_change_notification pres (ss_notify_buf s2);
                 Some (s2\<lparr>ss_notify_buf := buf, ss_notify_len := n\<rparr>)
               } else Some s2
     | None \<Rightarrow> Some s2)"
    using True wf_command_get(1) [OF assms(2)] 1 2
    by (auto simp: slot_notification_def ch_def Let_def split: prod.splits if_splits cong: option.case_cong)
  moreover have "fresh = (if inline_poll (ss_config s) \<and> ss_poll_interval_ticks s \<le> now_ticks - ss_last_poll_tick s
      then fst (presence_poll nops now_us now_ticks s) else None)" "ss_config s2 = ss_config s" "ss_notify_len s2 = 0"
    using 1 2 by (auto simp: poll_due_def presence_poll_def Let_def split: if_splits prod.splits)
  then have "slot_change nops now_us c now_ticks s = (if notify_slot_change (ss_config s2) then ch else None)" "ss_notify_len s2 = 0"
    using True by (simp_all add: slot_change_def ch_def cong: option.case_cong)
  moreover obtain b0 b1 where "ss_notify_buf s2 = [b0, b1]"
    using k by (auto simp: server_ok_def length_Suc_conv numeral_2_eq_2)
  ultimately show ?thesis using k w True
    by (auto simp: build_slot_change_notification_def server_ok_def wire_kept_def server_notify_def change_bytes_def
        split: option.splits)
qed


lemma command_answered:
  assumes "heapless_ok hv" and "server_ok hv n_inv s" and "wf_command c"
  shows "\<exists>ch buf n. ch_process_command hv nops now_us (ss_handler s) c (ss_ccid_resp_buf s) = Some (ch, buf, n) \<and>
    wrapper_ok hv n_inv ch \<and> length buf = MAX_CCID_RESPONSE_SIZE \<and> n \<le> MAX_CCID_RESPONSE_SIZE \<and>
    answer_or_too_long nops now_us (ss_handler s) c (take n buf)"
proof -
  obtain hdr where h: "header_parse c = Some hdr" using wf_command_header [OF assms(3)] .
  have "good_answer_to hv n_inv hdr (ss_ccid_resp_buf s)
      (ch_process_command hv nops now_us (ss_handler s) c (ss_ccid_resp_buf s))"
    using ch_process_command_good [OF assms(1) server_okD(1) [OF assms(2)], of c now_us "ss_ccid_resp_buf s"]
      wf_command_no_panic [OF assms(3), of "ss_handler s"] h by simp
  moreover have "length (ss_ccid_resp_buf s) = MAX_CCID_RESPONSE_SIZE"
    using assms(2) by (simp add: server_ok_def)
  ultimately obtain ch buf n where c:
    "ch_process_command hv nops now_us (ss_handler s) c (ss_ccid_resp_buf s) = Some (ch, buf, n)"
    "wrapper_ok hv n_inv ch" "length buf = MAX_CCID_RESPONSE_SIZE" "n = 0 \<or> answers_request hdr buf n"
    and l: "length (ss_ccid_resp_buf s) = MAX_CCID_RESPONSE_SIZE"
    by (auto simp: good_answer_to_def split: option.splits if_splits)
  have "length c \<le> 271" using assms(3) by (simp add: wf_command_def)
  then have "n = 0 \<Longrightarrow> overlong_data SerialNfcProfile (adapter_ops nops now_us) (ch_core (ss_handler s)) hdr (frame_payload hdr c)"
    using ch_command_room [OF assms(1) server_okD(1) [OF assms(2)], of "ss_ccid_resp_buf s" c hdr] h c(1) l by simp
  moreover have "n \<noteq> 0 \<Longrightarrow> answers_request hdr (take n buf) (length (take n buf)) \<and> n \<le> MAX_CCID_RESPONSE_SIZE \<and> take n buf \<noteq> []"
    using answers_take [of hdr buf n] c(3,4) by auto
  ultimately show ?thesis using c h by (cases "n = 0") (auto simp: answer_or_too_long_def)
qed

lemma dispatch_extended_ok:
  assumes "heapless_ok hv" and "server_ok hv n_inv s" and "wf_command c" and "server_echo s = frame_bytes c"
    and "k = interim_count (ss_ext s) stalls c" and "e = (word_of_nat k :: u8)"
  shows "\<exists>n s'. dispatch_extended hv nops now_us stalls c s =
      Some (interim_writes k (c ! 6) (ch_icc_status (ss_handler s)) (frame_bytes c), n, s') \<and>
    server_ok hv n_inv s' \<and> server_echo s' = (if e = 0 then frame_bytes c else []) \<and>
    n \<le> MAX_CCID_RESPONSE_SIZE \<and>
    answer_or_too_long nops now_us (ss_handler s) c (take n (ss_ccid_resp_buf s')) \<and> server_notify s' = server_notify s \<and>
    ss_active_deadline_ticks s' = ss_active_deadline_ticks s \<and>
    ss_frame_done_tick s' = ss_frame_done_tick s + ss_active_deadline_ticks s * ucast e \<and>
    ss_parser s' = ss_parser s \<and> ss_last_byte_tick s' = ss_last_byte_tick s \<and>
    ss_windows s' = ss_windows s \<and> tx_writer (ss_ext s') = tx_writer (ss_ext s) \<and>
    ss_late_drop_count s' = ss_late_drop_count s"
proof -
  obtain ch buf n where c:
    "ch_process_command hv nops now_us (ss_handler s) c (ss_ccid_resp_buf s) = Some (ch, buf, n)"
    "wrapper_ok hv n_inv ch" "length buf = MAX_CCID_RESPONSE_SIZE" "n \<le> MAX_CCID_RESPONSE_SIZE"
    "answer_or_too_long nops now_us (ss_handler s) c (take n buf)"
    using command_answered [OF assms(1-3)] by blast
  have b: "bridge_ok (ss_ext s)" by (rule server_okD(3) [OF assms(2)])
  have sl: "slice (ss_echo_buf s) 0 (ss_echo_len s) = Some (frame_bytes c)"
    using assms(2,4) by (simp add: slice_def server_ok_def server_echo_def)
  have l: "length (frame_bytes c) \<le> MAX_FRAME_SIZE"
    using assms(3) by (simp add: frame_bytes_length wf_command_def)
  note g = wf_command_get [OF assms(3)]
  show ?thesis
  proof (cases "tx_writer (ss_ext s) \<and> c ! 0 = PC_TO_RDR_XFR_BLOCK")
    case True
    let ?x = "arm (c ! 6) (ch_icc_status (ss_handler s)) (frame_bytes c) (ss_ext s)"
    obtain ws x1 where h: "stall_hooks stalls ?x = (ws, x1)" by fastforce
    obtain em x2 where d: "disarm_and_take_emitted x1 = (em, x2)" by fastforce
    from True assms(5) have k: "k = stalls" by (simp add: interim_count_def)
    from armed_hooks [OF b _ l h d] True have w:
      "ws = interim_writes k (c ! 6) (ch_icc_status (ss_handler s)) (frame_bytes c)" "em = e"
      "bridge_ok x2" "tx_writer x2"
      using assms(6) k by auto
    show ?thesis
      using c w sl g h d True assms(2,4)
      by (simp add: dispatch_extended_def Let_def extend_response_deadline_def server_ok_def server_echo_def
          server_notify_def word_gt_0)
  next
    case False
    then have k: "k = 0" "e = 0" using assms(5,6) by (auto simp: interim_count_def)
    have "stall_hooks stalls (ss_ext s) = ([], ss_ext s)" using b by (intro hooks_idle) (simp add: bridge_ok_def)
    with c sl g False assms(2,4) k show ?thesis
      by (auto simp: dispatch_extended_def Let_def server_ok_def server_echo_def server_notify_def interim_writes_def)
  qed
qed

lemma serve_command_served:
  assumes "heapless_ok hv" and "server_ok hv n_inv s" and "wf_command c"
    and "received_frame_bytes (ss_parser s) = frame_bytes c"
  shows "\<exists>writes s'. serve_command hv nops now_us stalls c now_ticks s = Some (Respond, writes, s') \<and>
    served hv nops now_us n_inv stalls c now_ticks s writes s'"
proof -
  let ?w = "command_window (ss_windows s) c"
  have l: "length (frame_bytes c) \<le> MAX_FRAME_SIZE"
    using assms(3) by (simp add: frame_bytes_length wf_command_def)
  let ?buf = "frame_bytes c @ drop (length (frame_bytes c)) (ss_echo_buf s)"
  have cp: "copy_at (ss_echo_buf s) 0 (frame_bytes c) = Some ?buf"
    using l assms(2) by (simp add: copy_at_def server_ok_def)
  define s1 where "s1 = s\<lparr>ss_frame_done_tick := now_ticks, ss_active_deadline_ticks := ?w,
      ss_echo_len := length (frame_bytes c), ss_echo_buf := ?buf\<rparr>"
  have ok1: "server_ok hv n_inv s1"
    using assms(2) l by (auto simp: s1_def server_ok_def command_window_def)
  obtain s2 where 2: "slot_notification nops now_us c now_ticks s1 = Some s2" "server_ok hv n_inv s2"
    "wire_kept s1 s2" "server_notify s2 = change_bytes (slot_change nops now_us c now_ticks s1)"
    "c ! 0 \<noteq> PC_TO_RDR_GET_SLOT_STATUS \<Longrightarrow> ss_handler s2 = ss_handler s1"
    using slot_notification_ok [OF ok1 assms(3)] by blast
  define s3 where "s3 = s2\<lparr>ss_handler := ch_refresh_diagnostics nops now_us now_ticks (ss_handler s2)\<rparr>"
  have ok3: "server_ok hv n_inv s3"
    unfolding s3_def by (rule server_handler_ok [OF 2(2) housekeeping_ok(1) [OF server_okD(1) [OF 2(2)]]])
  have e3: "server_echo s3 = frame_bytes c" using 2(3) by (simp add: s3_def s1_def wire_kept_def server_echo_def)
  let ?k = "interim_count (ss_ext s) stalls c" and ?e = "word_of_nat (interim_count (ss_ext s) stalls c) :: u8"
  have ext: "ss_ext s3 = ss_ext s" using 2(3) by (simp add: s3_def s1_def wire_kept_def)
  from dispatch_extended_ok [OF assms(1) ok3 assms(3) e3 refl refl, of now_us stalls]
  obtain n s4 where 4: "dispatch_extended hv nops now_us stalls c s3 =
      Some (interim_writes ?k (c ! 6) (ch_icc_status (ss_handler s3)) (frame_bytes c), n, s4)"
    "server_ok hv n_inv s4" "server_echo s4 = (if ?e = 0 then frame_bytes c else [])"
    "n \<le> MAX_CCID_RESPONSE_SIZE"
    "answer_or_too_long nops now_us (ss_handler s3) c (take n (ss_ccid_resp_buf s4))" "server_notify s4 = server_notify s3"
    and kept: "ss_active_deadline_ticks s4 = ss_active_deadline_ticks s3"
    "ss_frame_done_tick s4 = ss_frame_done_tick s3 + ss_active_deadline_ticks s3 * ucast ?e"
    "ss_parser s4 = ss_parser s3" "ss_last_byte_tick s4 = ss_last_byte_tick s3"
    "ss_windows s4 = ss_windows s3" "tx_writer (ss_ext s4) = tx_writer (ss_ext s3)"
    "ss_late_drop_count s4 = ss_late_drop_count s3"
    unfolding ext by blast
  let ?m = "take n (ss_ccid_resp_buf s4)"
  have m: "length ?m = n" "slice (ss_ccid_resp_buf s4) 0 n = Some ?m" "length (ss_resp_buf s4) = 274"
    using 4(2,4) by (simp_all add: server_ok_def slice_def)
  have b: "build_response_frame ?m (ss_resp_buf s4) = Some (frame_bytes ?m @ drop (n + 3) (ss_resp_buf s4), n + 3)"
    using build_response_frame_bytes [of ?m "ss_resp_buf s4"] m 4(4) by simp
  let ?s = "s4\<lparr>ss_resp_buf := frame_bytes ?m @ drop (n + 3) (ss_resp_buf s4), ss_resp_len := n + 3\<rparr>"
  have w: "command_window (ss_windows s) c =
      (if get_opt c 0 = Some PC_TO_RDR_XFR_BLOCK then rw_xfr_block (ss_windows s)
       else if get_opt c 0 = Some PC_TO_RDR_ICC_POWER_ON then rw_power_on (ss_windows s)
       else rw_tight (ss_windows s))"
    using wf_command_get(1) [OF assms(3)] by (simp add: command_window_def)
  have run: "serve_command hv nops now_us stalls c now_ticks s = Some (Respond,
      interim_writes ?k (c ! 6) (ch_icc_status (ss_handler s3)) (frame_bytes c), ?s)"
    using cp 2(1) 4(1) m(2) b assms(4)
    by (simp add: serve_command_def Let_def s1_def w [symmetric] s3_def [symmetric])
  have icc: "interim_writes ?k (c ! 6) (ch_icc_status (ss_handler s3)) (frame_bytes c)
      = interim_writes ?k (c ! 6) (ch_icc_status (ss_handler s)) (frame_bytes c)"
    using 2(5) by (auto simp: s3_def s1_def interim_writes_def interim_count_def)
  have "server_ok hv n_inv ?s"
    using 4(2,4) m by (simp add: server_ok_def frame_bytes_length)
  moreover have "server_echo ?s = server_echo s4" "server_response ?s = frame_bytes ?m"
    using m(1) by (simp_all add: server_echo_def server_response_def frame_bytes_length)
  moreover have "answer_or_too_long nops now_us (ss_handler s) c ?m"
  proof (cases "c ! 0 = PC_TO_RDR_GET_SLOT_STATUS")
    case True
    with 4(5) show ?thesis
      by (auto simp: answer_or_too_long_def overlong_data_def header_parse_def split: option.splits if_splits)
  next
    case False
    have "ss_handler s3 = ch_refresh_diagnostics nops now_us now_ticks (ss_handler s)"
      using 2(5) [OF False] by (simp add: s3_def s1_def)
    with 4(5) show ?thesis by (simp add: answer_or_too_long_def overlong_refresh cong: option.case_cong if_cong split del: if_split)
  qed
  moreover have "server_notify ?s = change_bytes (slot_change nops now_us c now_ticks s)"
    using 2(4) 4(6) slot_change_cong [of s1 s nops now_us c now_ticks] by (simp add: server_notify_def s3_def) (simp add: s1_def)
  ultimately have "served hv nops now_us n_inv stalls c now_ticks s
      (interim_writes ?k (c ! 6) (ch_icc_status (ss_handler s)) (frame_bytes c)) ?s"
    using 2(3) 4(3) kept m(1)
    unfolding served_def Let_def by (auto simp: s3_def s1_def wire_kept_def)
  with run icc show ?thesis by auto
qed


lemma command_parser_ok:
  assumes "server_ok hv n_inv s" and "parser_ok p"
  shows "server_ok hv n_inv (s\<lparr>ss_last_byte_tick := t, ss_parser := p\<rparr>)"
  using assms by (simp add: server_ok_def)

end

text \<open>The parser as it stands when a byte arrives: after a gap of more than ten ticks it starts afresh.\<close>

definition parser_at :: "u32 \<Rightarrow> 'd serial_server \<Rightarrow> frame_parser" where
  "parser_at now_ticks s =
     (if INTER_BYTE_STALL_TICKS < now_ticks - ss_last_byte_tick s then parser_reset (ss_parser s)
      else ss_parser s)"

lemma parser_at_ok: "server_ok hv n_inv s \<Longrightarrow> parser_ok (parser_at now_ticks s)"
  by (simp add: parser_at_def server_okD)

lemma feed_byte_unfold:
  "feed_byte hv nops now_us stalls b now_ticks s = do {
     (event, parser) \<leftarrow> feed hv (parser_at now_ticks s) b;
     let s = s\<lparr>ss_last_byte_tick := now_ticks, ss_parser := parser\<rparr>;
     (case event of
        Some (Command c) \<Rightarrow> serve_command hv nops now_us stalls c now_ticks s
      | Some (FrameErr _) \<Rightarrow>
          if nak_on_error (ss_config s) then do {
            (buf, n) \<leftarrow> build_nak_frame (ss_nak_buf s);
            Some (Nak, [], s\<lparr>ss_handler := ch_record_nak (ss_handler s), ss_nak_buf := buf\<rparr>)
          }
          else Some (NoAction, [], s)
      | None \<Rightarrow> Some (NoAction, [], s))
   }"
  by (cases "feed hv (parser_at now_ticks s) b")
    (auto simp: feed_byte_def parser_at_def Let_def split: option.split frame_event.split)

lemma nak_frame_bytes:
  "length buf = 3 \<Longrightarrow> build_nak_frame buf = Some ([SYNC, CTRL_NAK, 0x16], 3)"
  by (auto simp: build_nak_frame_def calculate_lrc_def numeral_3_eq_3 length_Suc_conv Let_def)

text \<open>What one byte leads to.\<close>

definition byte_outcome ::
    "heapless \<Rightarrow> ('d, 'e) nfc_ops \<Rightarrow> ('d \<Rightarrow> int) \<Rightarrow> ('d \<Rightarrow> bool) \<Rightarrow> nat \<Rightarrow> u8 \<Rightarrow> u32 \<Rightarrow> 'd serial_server \<Rightarrow> serve_action \<Rightarrow> bytes list \<Rightarrow> 'd serial_server
       \<Rightarrow> bool" where
  "byte_outcome hv nops now_us n_inv stalls b now_ticks s action writes s' \<longleftrightarrow>
     server_ok hv n_inv s' \<and>
     (case action of
        Respond \<Rightarrow> \<exists>c p. wf_command c \<and> fp_frame (parser_at now_ticks s) @ [b] = frame_bytes c \<and>
          served hv nops now_us n_inv stalls c now_ticks (s\<lparr>ss_last_byte_tick := now_ticks, ss_parser := p\<rparr>) writes s'
      | Nak \<Rightarrow> nak_on_error (ss_config s) \<and> writes = [] \<and> ss_nak_buf s' = [SYNC, CTRL_NAK, 0x16]
      | NoAction \<Rightarrow> writes = [])"

context nfc_frontend
begin

lemma feed_byte_ok:
  assumes "heapless_ok hv" and "server_ok hv n_inv s"
  shows "\<exists>action writes s'. feed_byte hv nops now_us stalls b now_ticks s = Some (action, writes, s') \<and>
    byte_outcome hv nops now_us n_inv stalls b now_ticks s action writes s'"
proof -
  obtain ev p where f: "feed hv (parser_at now_ticks s) b = Some (ev, p)"
    and sp: "step_spec (parser_at now_ticks s) b ev p"
    using feed_step [OF assms(1) parser_at_ok [OF assms(2)]] by blast
  define s1 where "s1 = s\<lparr>ss_last_byte_tick := now_ticks, ss_parser := p\<rparr>"
  have ok1: "server_ok hv n_inv s1"
    unfolding s1_def using command_parser_ok [OF assms(2)] sp by (simp add: step_spec_def)
  show ?thesis
  proof (cases "\<exists>c. ev = Some (Command c)")
    case True
    then obtain c where ev: "ev = Some (Command c)" by blast
    with sp have c: "wf_command c" "fp_frame (parser_at now_ticks s) @ [b] = frame_bytes c"
      "received_frame_bytes p = fp_frame (parser_at now_ticks s) @ [b]"
      by (simp_all add: step_spec_def)
    have "received_frame_bytes (ss_parser s1) = frame_bytes c" using c by (simp add: s1_def)
    from serve_command_served [OF assms(1) ok1 c(1) this] obtain writes s' where
      r: "serve_command hv nops now_us stalls c now_ticks s1 = Some (Respond, writes, s')"
      "served hv nops now_us n_inv stalls c now_ticks s1 writes s'" by blast
    then have "server_ok hv n_inv s'" by (simp add: served_def Let_def)
    with r(2) c(1,2) have "byte_outcome hv nops now_us n_inv stalls b now_ticks s Respond writes s'"
      unfolding byte_outcome_def serve_action.case s1_def by blast
    moreover have "feed_byte hv nops now_us stalls b now_ticks s = Some (Respond, writes, s')"
      using f ev r(1) by (simp add: feed_byte_unfold s1_def)
    ultimately show ?thesis by blast
  next
    case False
    have "wrapper_ok hv n_inv (ch_record_nak (ss_handler s1))"
      by (rule housekeeping_ok(3) [OF server_okD(1) [OF ok1]])
    then have "server_ok hv n_inv (s1\<lparr>ss_handler := ch_record_nak (ss_handler s1),
        ss_nak_buf := [SYNC, CTRL_NAK, 0x16]\<rparr>)"
      using ok1 by (simp add: server_ok_def)
    moreover have "length (ss_nak_buf s1) = 3" "nak_on_error (ss_config s1) = nak_on_error (ss_config s)"
      using ok1 by (simp_all add: server_ok_def) (simp add: s1_def)
    ultimately show ?thesis
      using False f ok1
      by (auto simp: feed_byte_unfold byte_outcome_def s1_def [symmetric] nak_frame_bytes
          split: option.split frame_event.split)
  qed
qed

end

section \<open>Reachable servers\<close>

inductive srv_reach ::
    "heapless \<Rightarrow> ('d, 'e) nfc_ops \<Rightarrow> ('d \<Rightarrow> int) \<Rightarrow> ('d \<Rightarrow> bool) \<Rightarrow> 'd serial_server \<Rightarrow> bool"
  for hv nops now_us n_inv where
  new: "ch_reach hv nops now_us n_inv ch \<Longrightarrow>
     ext = time_extension_new \<or> ext = register_writer time_extension_new \<Longrightarrow>
     srv_reach hv nops now_us n_inv (server_with_config ch iv windows now_ticks config ext)"
| byte: "srv_reach hv nops now_us n_inv s \<Longrightarrow>
     feed_byte hv nops now_us stalls b now_ticks s = Some (action, writes, s') \<Longrightarrow>
     srv_reach hv nops now_us n_inv s'"
| poll: "srv_reach hv nops now_us n_inv s \<Longrightarrow> poll_if_due nops now_us now_ticks s = (due, s') \<Longrightarrow>
     srv_reach hv nops now_us n_inv s'"
| idle: "srv_reach hv nops now_us n_inv s \<Longrightarrow> on_read_idle nops now_us now_ticks s = (due, s') \<Longrightarrow>
     srv_reach hv nops now_us n_inv s'"
| after: "srv_reach hv nops now_us n_inv s \<Longrightarrow> poll_if_due_after_response nops now_us now_ticks s = (due, s') \<Longrightarrow>
     srv_reach hv nops now_us n_inv s'"
| late: "srv_reach hv nops now_us n_inv s \<Longrightarrow> srv_reach hv nops now_us n_inv (record_late_response s)"
| refresh: "srv_reach hv nops now_us n_inv s \<Longrightarrow>
     srv_reach hv nops now_us n_inv (refresh_host_deadline now_ticks s)"
| snapshot: "srv_reach hv nops now_us n_inv s \<Longrightarrow> server_take_snapshot_request s = (x, s') \<Longrightarrow>
     srv_reach hv nops now_us n_inv s'"
| turnaround: "srv_reach hv nops now_us n_inv s \<Longrightarrow>
     srv_reach hv nops now_us n_inv (s\<lparr>ss_handler := ch_record_turnaround_us us (ss_handler s)\<rparr>)"
| take_baud: "srv_reach hv nops now_us n_inv s \<Longrightarrow> take_baud_change (ss_handler s) = (x, ch) \<Longrightarrow>
     srv_reach hv nops now_us n_inv (s\<lparr>ss_handler := ch\<rparr>)"

lemma srv_reach_ok:
  assumes "heapless_ok hv" and "nfc_frontend nops n_inv" and "srv_reach hv nops now_us n_inv s"
  shows "server_ok hv n_inv s"
  using assms(3)
proof induction
  case (new ch ext iv windows now_ticks config)
  then show ?case
    using server_new_ok nfc_frontend.ch_reach_ok [OF assms(2,1)] bridge_new_ok by blast
next
  case (byte s stalls b now_ticks action writes s')
  then show ?case
    using nfc_frontend.feed_byte_ok [OF assms(2,1) byte.IH, of now_us stalls b now_ticks]
    by (auto simp: byte_outcome_def)
next
  case (poll s now_ticks due s')
  then show ?case using nfc_frontend.poll_if_due_ok [OF assms(2)] by blast
next
  case (idle s now_ticks due s')
  then show ?case using nfc_frontend.on_read_idle_ok [OF assms(2)] by blast
next
  case (after s now_ticks due s')
  then show ?case using nfc_frontend.poll_and_stash_ok [OF assms(2)]
    by (simp add: poll_if_due_after_response_def)
next
  case (snapshot s x s')
  then show ?case
    using housekeeping_ok(4) [OF server_okD(1) [OF snapshot.IH]] server_handler_ok [OF snapshot.IH]
    by (auto simp: server_take_snapshot_request_def split: prod.splits)
next
  case (turnaround s us)
  then show ?case
    by (rule_tac server_handler_ok [OF _ housekeeping_ok(2) [OF server_okD(1)]])
next
  case (take_baud s x ch)
  then show ?case
    using housekeeping_ok(6) [OF server_okD(1) [OF take_baud.IH]] server_handler_ok by blast
qed (simp_all add: late_ok deadline_ok)

section \<open>A frame, byte by byte\<close>

text \<open>A run over bytes with their arrival ticks; each element of the result is what one byte led to.\<close>

fun feed_bytes ::
    "heapless \<Rightarrow> ('d, 'e) nfc_ops \<Rightarrow> ('d \<Rightarrow> int) \<Rightarrow> nat \<Rightarrow> (u8 \<times> u32) list \<Rightarrow> 'd serial_server
       \<Rightarrow> ((serve_action \<times> bytes list) list \<times> 'd serial_server) outcome" where
  "feed_bytes hv nops now_us stalls [] s = Some ([], s)"
| "feed_bytes hv nops now_us stalls ((b, t) # bs) s = do {
     (a, ws, s) \<leftarrow> feed_byte hv nops now_us stalls b t s;
     (as, s) \<leftarrow> feed_bytes hv nops now_us stalls bs s;
     Some ((a, ws) # as, s)
   }"

fun steady :: "u32 list \<Rightarrow> bool" where
  "steady (t # t' # ts) \<longleftrightarrow> t' - t \<le> INTER_BYTE_STALL_TICKS \<and> steady (t' # ts)"
| "steady _ \<longleftrightarrow> True"

lemma feed_bytes_append:
  "feed_bytes hv nops now_us stalls (xs @ ys) s = do {
     (as, s) \<leftarrow> feed_bytes hv nops now_us stalls xs s;
     (bs, s) \<leftarrow> feed_bytes hv nops now_us stalls ys s;
     Some (as @ bs, s)
   }"
proof (induction xs arbitrary: s)
  case Nil
  then show ?case by (auto split: bind_split)
next
  case (Cons x xs)
  obtain b t where x: "x = (b, t)" by fastforce
  show ?case
  proof (cases "feed_byte hv nops now_us stalls b t s")
    case None
    with x show ?thesis by simp
  next
    case (Some r)
    obtain a ws s1 where r: "r = (a, ws, s1)" using prod_cases3 by blast
    show ?thesis
      by (cases "feed_bytes hv nops now_us stalls xs s1")
        (auto simp: x Some r Cons.IH split: option.split bind_split)
  qed
qed

lemma parser_at_near: "t - ss_last_byte_tick s \<le> INTER_BYTE_STALL_TICKS \<Longrightarrow> parser_at t s = ss_parser s"
  by (simp add: parser_at_def linorder_not_less)

lemma parser_at_idle:
  assumes "\<not> mid_frame (ss_parser s)"
  shows "fp_state (parser_at t s) = WaitSync"
  using assms
  by (auto simp: parser_at_def parser_reset_def reset_state_def mid_frame_def split: parser_state.splits)

lemma steady_split:
  assumes "steady (ts @ [t])"
  shows "steady ts \<and> (ts \<noteq> [] \<longrightarrow> t - last ts \<le> INTER_BYTE_STALL_TICKS)"
  using assms by (induction ts rule: steady.induct) auto

lemma feed_byte_silent:
  assumes "feed hv (parser_at t s) b = Some (None, p)"
  shows "feed_byte hv nops now_us stalls b t s =
    Some (NoAction, [], s\<lparr>ss_last_byte_tick := t, ss_parser := p\<rparr>)"
  using assms by (simp add: feed_byte_unfold)

lemma feed_byte_completes:
  assumes "heapless_ok hv" and "nfc_frontend nops n_inv" and "server_ok hv n_inv s"
    and "fp_state (ss_parser s) = CheckLrc" and "fp_ccid_bytes (ss_parser s) = c"
    and "fp_frame (ss_parser s) = [SYNC, CTRL_ACK] @ c" and "wf_command c"
    and "t - ss_last_byte_tick s \<le> INTER_BYTE_STALL_TICKS"
  shows "\<exists>writes s' p. feed_byte hv nops now_us stalls (calculate_lrc ([SYNC, CTRL_ACK] @ c)) t s =
      Some (Respond, writes, s') \<and>
    served hv nops now_us n_inv stalls c t (s\<lparr>ss_last_byte_tick := t, ss_parser := p\<rparr>) writes s'"
proof -
  let ?lrc = "calculate_lrc ([SYNC, CTRL_ACK] @ c)"
  have pa: "parser_at t s = ss_parser s" by (rule parser_at_near [OF assms(8)])
  from feed_frame_last [OF assms(1) server_okD(2) [OF assms(3)] assms(4), of ?lrc] assms(5,6) obtain q where
    q: "feed hv (ss_parser s) ?lrc = Some (Some (Command c), q)" "parser_ok q" "received_frame_bytes q = frame_bytes c"
    by (auto simp: frame_bytes_def)
  define s2 where "s2 = s\<lparr>ss_last_byte_tick := t, ss_parser := q\<rparr>"
  have ok2: "server_ok hv n_inv s2" using assms(3) q(2) by (simp add: s2_def server_ok_def)
  have "received_frame_bytes (ss_parser s2) = frame_bytes c" using q(3) by (simp add: s2_def)
  from nfc_frontend.serve_command_served [OF assms(2,1) ok2 assms(7) this] obtain writes s' where
    r: "serve_command hv nops now_us stalls c t s2 = Some (Respond, writes, s')"
    "served hv nops now_us n_inv stalls c t s2 writes s'" by blast
  have "feed_byte hv nops now_us stalls ?lrc t s = Some (Respond, writes, s')"
    using q(1) r(1) pa by (simp add: feed_byte_unfold s2_def)
  with r(2) show ?thesis by (auto simp: s2_def)
qed

text \<open>Every carrier feeds bytes to the serving core in a loop that goes on when the byte completes
  nothing.  \<open>serve_loop\<close> is that interface: \<open>byte x\<close> is the byte of an item, \<open>tick x t\<close> the tick it is
  fed with and \<open>adv x t\<close> what remains of the loop's other state.\<close>

locale serve_loop =
  fixes hv :: heapless and loop :: "'x list \<Rightarrow> 'd serial_server \<Rightarrow> 't \<Rightarrow> 'r" and byte :: "'x \<Rightarrow> u8"
    and tick :: "'x \<Rightarrow> 't \<Rightarrow> u32" and adv :: "'x \<Rightarrow> 't \<Rightarrow> 't"
  assumes silent: "feed hv (parser_at (tick x t) s) (byte x) = Some (None, p) \<Longrightarrow>
    loop (x # xs) s t = loop xs (s\<lparr>ss_last_byte_tick := tick x t, ss_parser := p\<rparr>) (adv x t)"
begin

fun ticks :: "'x list \<Rightarrow> 't \<Rightarrow> u32 list" where
  "ticks [] t = []"
| "ticks (x # xs) t = tick x t # ticks xs (adv x t)"

lemma silent_run:
  assumes "feed_all hv (ss_parser s) (map byte xs) = Some ([], p)"
    and "steady (ss_last_byte_tick s # ticks xs t)"
  shows "loop (xs @ ys) s t =
    loop ys (s\<lparr>ss_last_byte_tick := last (ss_last_byte_tick s # ticks xs t), ss_parser := p\<rparr>) (fold adv xs t)"
  using assms
proof (induction xs arbitrary: s t)
  case Nil
  then have "p = ss_parser s" by simp
  then show ?case by simp
next
  case (Cons x xs)
  let ?k = "tick x t"
  have g: "?k - ss_last_byte_tick s \<le> 10" "steady (?k # ticks xs (adv x t))" using Cons.prems(2) by auto
  obtain p1 where f: "feed hv (ss_parser s) (byte x) = Some (None, p1)"
    "feed_all hv p1 (map byte xs) = Some ([], p)"
    using Cons.prems(1) by (auto split: bind_splits option.splits)
  from silent [of x t s p1 "xs @ ys"] f(1) parser_at_near [OF g(1)]
    Cons.IH [of "s\<lparr>ss_last_byte_tick := ?k, ss_parser := p1\<rparr>" "adv x t"] f(2) g(2)
  show ?case by simp
qed

lemma frame_run:
  assumes "heapless_ok hv" and "server_ok hv n_inv s" and "\<not> mid_frame (ss_parser s)" and "wf_command c"
    and "map byte xs = [SYNC, CTRL_ACK] @ c" and "steady (ticks xs t)"
  shows "\<exists>p. parser_ok p \<and> fp_state p = CheckLrc \<and> fp_ccid_bytes p = c \<and> fp_frame p = [SYNC, CTRL_ACK] @ c \<and>
    loop (xs @ ys) s t = loop ys (s\<lparr>ss_last_byte_tick := last (ticks xs t), ss_parser := p\<rparr>) (fold adv xs t)"
proof -
  obtain x xs' where xs: "xs = x # xs'" using assms(5) by (cases xs) auto
  let ?k = "tick x t"
  have p0: "parser_ok (parser_at ?k s)" "fp_state (parser_at ?k s) = WaitSync"
    using parser_at_ok [OF assms(2)] parser_at_idle [OF assms(3)] by simp_all
  obtain p where p: "feed_all hv (parser_at ?k s) (map byte xs) = Some ([], p)"
    "parser_ok p" "fp_state p = CheckLrc" "fp_ccid_bytes p = c" "fp_frame p = [SYNC, CTRL_ACK] @ c"
    using feed_frame_body [OF assms(1) p0 assms(4)] assms(5) by auto
  obtain p1 where f: "feed hv (parser_at ?k s) (byte x) = Some (None, p1)"
    "feed_all hv p1 (map byte xs') = Some ([], p)"
    using p(1) xs by (auto split: bind_splits option.splits)
  define s1 where "s1 = s\<lparr>ss_last_byte_tick := ?k, ss_parser := p1\<rparr>"
  have "loop (xs @ ys) s t = loop (xs' @ ys) s1 (adv x t)" using silent [OF f(1)] xs by (simp add: s1_def)
  also have "\<dots> = loop ys (s\<lparr>ss_last_byte_tick := last (ticks xs t), ss_parser := p\<rparr>) (fold adv xs t)"
    using silent_run [of s1 xs' p "adv x t" ys] f(2) assms(6) xs by (simp add: s1_def)
  finally show ?thesis using p by blast
qed

lemma ticks_append: "ticks (xs @ ys) t = ticks xs t @ ticks ys (fold adv xs t)"
  by (induction xs arbitrary: t) simp_all

text \<open>The items of a whole frame: all but the last are consumed silently, and feeding the last one
  serves the command.\<close>

lemma frame_completes:
  fixes nops :: "('d, 'e) nfc_ops"
  assumes "heapless_ok hv" and "nfc_frontend nops n_inv" and "server_ok hv n_inv s"
    and "\<not> mid_frame (ss_parser s)" and "wf_command c"
    and "map byte xs = frame_bytes c" and "steady (ticks xs t)"
  obtains xs0 x s1 s0 where "xs = xs0 @ [x]" "length xs0 = length c + 2"
    "loop xs s t = loop [x] s1 (fold adv xs0 t)"
    "ss_handler s0 = ss_handler s" "ss_ext s0 = ss_ext s" "ss_windows s0 = ss_windows s"
    "\<And>now_us c t p. slot_change nops now_us c t (s0\<lparr>ss_parser := p\<rparr>) = slot_change nops now_us c t s"
    "\<And>now_us stalls. \<exists>writes s2 p. feed_byte hv nops now_us stalls (byte x) (tick x (fold adv xs0 t)) s1 =
        Some (Respond, writes, s2) \<and>
      served hv nops now_us n_inv stalls c (tick x (fold adv xs0 t)) (s0\<lparr>ss_parser := p\<rparr>) writes s2"
proof -
  let ?body = "[SYNC, CTRL_ACK] @ c" and ?lrc = "calculate_lrc ([SYNC, CTRL_ACK] @ c)"
  have "map byte xs = ?body @ [?lrc]" using assms(6) by (simp add: frame_bytes_def)
  then obtain xs0 x where xs: "xs = xs0 @ [x]" "map byte xs0 = ?body" "byte x = ?lrc"
    by (auto simp: map_eq_append_conv)
  have l: "length xs0 = length c + 2" using arg_cong [OF xs(2), of length] by simp
  let ?t = "fold adv xs0 t"
  have st: "steady (ticks xs0 t)" "tick x ?t - last (ticks xs0 t) \<le> 10"
  proof -
    have "ticks xs0 t \<noteq> []" using l by (cases xs0) auto
    then show "steady (ticks xs0 t)" "tick x ?t - last (ticks xs0 t) \<le> 10"
      using steady_split [of "ticks xs0 t" "tick x ?t"] assms(7) by (simp_all add: xs(1) ticks_append)
  qed
  from frame_run [OF assms(1,3-5) xs(2) st(1), of "[x]"] obtain p where
    p: "parser_ok p" "fp_state p = CheckLrc" "fp_ccid_bytes p = c" "fp_frame p = ?body" and
    r: "loop (xs0 @ [x]) s t = loop [x] (s\<lparr>ss_last_byte_tick := last (ticks xs0 t), ss_parser := p\<rparr>) ?t"
    by blast
  let ?s = "s\<lparr>ss_last_byte_tick := last (ticks xs0 t), ss_parser := p\<rparr>"
  have ok: "server_ok hv n_inv ?s" using assms(3) p(1) by (simp add: server_ok_def)
  have "\<exists>writes s2 q. feed_byte hv nops now_us stalls (byte x) (tick x ?t) ?s = Some (Respond, writes, s2) \<and>
      served hv nops now_us n_inv stalls c (tick x ?t) (?s\<lparr>ss_last_byte_tick := tick x ?t, ss_parser := q\<rparr>) writes s2"
    for now_us stalls
    using feed_byte_completes [OF assms(1,2) ok _ _ _ assms(5), of "tick x ?t" now_us stalls] p(2-) st(2) xs(3)
    by simp
  moreover have "slot_change nops nu c' t' (?s\<lparr>ss_last_byte_tick := tick x ?t, ss_parser := q\<rparr>) = slot_change nops nu c' t' s"
    for nu c' t' q
    by (rule slot_change_cong) simp_all
  ultimately show thesis
    using that [of xs0 x ?s "?s\<lparr>ss_last_byte_tick := tick x ?t\<rparr>"] xs(1) l r by simp
qed

end

text \<open>The plain run over bytes is such a loop; its other state is the list of what the bytes led to.\<close>

fun feed_bytes_acc ::
    "heapless \<Rightarrow> ('d, 'e) nfc_ops \<Rightarrow> ('d \<Rightarrow> int) \<Rightarrow> nat \<Rightarrow> (u8 \<times> u32) list \<Rightarrow> 'd serial_server
       \<Rightarrow> (serve_action \<times> bytes list) list \<Rightarrow> ((serve_action \<times> bytes list) list \<times> 'd serial_server) outcome" where
  "feed_bytes_acc hv nops now_us stalls bs s acc = do {
     (as, s) \<leftarrow> feed_bytes hv nops now_us stalls bs s;
     Some (acc @ as, s)
   }"

lemma feed_bytes_acc_silent:
  assumes "feed hv (parser_at (snd x) s) (fst x) = Some (None, p)"
  shows "feed_bytes_acc hv nops now_us stalls (x # xs) s acc =
    feed_bytes_acc hv nops now_us stalls xs (s\<lparr>ss_last_byte_tick := snd x, ss_parser := p\<rparr>)
      (acc @ [(NoAction, [])])"
  using feed_byte_silent [OF assms, of nops now_us stalls]
  by (cases x; cases "feed_bytes hv nops now_us stalls xs (s\<lparr>ss_last_byte_tick := snd x, ss_parser := p\<rparr>)") auto

interpretation run: serve_loop hv "feed_bytes_acc hv nops now_us stalls" fst "\<lambda>x _. snd x"
  "\<lambda>_ acc. acc @ [(NoAction, [])]"
  by unfold_locales (rule feed_bytes_acc_silent)

lemma run_ticks: "run.ticks bs acc = map snd bs"
  by (induction bs arbitrary: acc) simp_all

lemma fold_silent: "fold (\<lambda>_ acc. acc @ [x]) bs acc = acc @ replicate (length bs) x"
  by (induction bs arbitrary: acc) simp_all

lemma feed_bytes_frame:
  assumes "heapless_ok hv" and "nfc_frontend nops n_inv" and "server_ok hv n_inv s"
    and "\<not> mid_frame (ss_parser s)" and "wf_command c"
    and "length ticks = length c + 2" and "steady (ticks @ [t])"
  shows "\<exists>writes s' s0. feed_bytes hv nops now_us stalls (zip (frame_bytes c) (ticks @ [t])) s =
      Some (replicate (length c + 2) (NoAction, []) @ [(Respond, writes)], s') \<and>
    ss_handler s0 = ss_handler s \<and> ss_ext s0 = ss_ext s \<and> ss_windows s0 = ss_windows s \<and>
    served hv nops now_us n_inv stalls c t s0 writes s'"
proof -
  let ?xs = "zip (frame_bytes c) (ticks @ [t])"
  have m: "map fst ?xs = frame_bytes c" "map snd ?xs = ticks @ [t]"
    using assms(6) by (simp_all add: frame_bytes_length)
  obtain xs0 x s1 s0 where xs: "?xs = xs0 @ [x]" "length xs0 = length c + 2"
    and r: "feed_bytes_acc hv nops now_us stalls ?xs s [] =
      feed_bytes_acc hv nops now_us stalls [x] s1 (fold (\<lambda>_ acc. acc @ [(NoAction, [])]) xs0 [])"
    and s0: "ss_handler s0 = ss_handler s" "ss_ext s0 = ss_ext s" "ss_windows s0 = ss_windows s"
    and f: "\<And>now_us stalls. \<exists>writes s2 p. feed_byte hv nops now_us stalls (fst x) (snd x) s1 = Some (Respond, writes, s2) \<and>
      served hv nops now_us n_inv stalls c (snd x) (s0\<lparr>ss_parser := p\<rparr>) writes s2"
    by (rule run.frame_completes [OF assms(1-5) m(1), where t = "[]" and nopsa = nops and now_us = now_us
        and stalls = stalls]) (simp_all only: run_ticks m(2) assms(7))
  have "snd x = t" using xs(1) m(2) by (metis last_map last_snoc map_is_Nil_conv snoc_eq_iff_butlast)
  with f [of now_us stalls] obtain writes s' p where
    w: "feed_byte hv nops now_us stalls (fst x) (snd x) s1 = Some (Respond, writes, s')"
    "served hv nops now_us n_inv stalls c t (s0\<lparr>ss_parser := p\<rparr>) writes s'" by blast
  have "feed_bytes hv nops now_us stalls ?xs s =
      Some (replicate (length c + 2) (NoAction, []) @ [(Respond, writes)], s')"
    using r w(1) by (cases x) (auto simp: fold_silent xs(2) split: bind_splits)
  with w(2) s0 show ?thesis
    by (intro exI [of _ writes] exI [of _ s'] exI [of _ "s0\<lparr>ss_parser := p\<rparr>"]) simp
qed

section \<open>Properties\<close>

lemma build_frame_message:
  "build_frame sq icc = frame_bytes (header_build RDR_TO_PC_DATABLOCK 0 0 sq (0x80 OR (icc AND 0x07)) 2 0)"
  by (simp add: build_frame_def frame_bytes_def header_build_def to_le_bytes32_def Let_def)

lemma u8_of_small: "k < 256 \<Longrightarrow> unat (word_of_nat k :: u8) = k"
  by (simp add: unsigned_of_nat take_bit_nat_eq_self_iff)

lemma word_of_nat_zero:
  assumes "k < 256"
  shows "(word_of_nat k :: u8) = 0 \<longleftrightarrow> k = 0"
proof
  assume "(word_of_nat k :: u8) = 0"
  then have "unat (word_of_nat k :: u8) = unat (0 :: u8)" by (rule arg_cong)
  with u8_of_small [OF assms] show "k = 0" by (simp only: unat_0)
qed simp

lemma interim_stream:
  assumes "k < 256"
  shows "concat (interim_writes k sq icc ech) @ (if (word_of_nat k :: u8) = 0 then ech else []) =
    ech @ concat (replicate k (build_frame sq icc))"
  using word_of_nat_zero [OF assms] by (simp add: interim_writes_def)

text \<open>C6: The serving core survives any input.  In every reachable state, whatever byte arrives, at
  whatever tick, and however often the driver calls the time-extension hook meanwhile, the core
  returns without a panic and its buffers stay within bounds; it answers only when the byte
  completes a frame that a conforming parser accepts, it sends a NAK only when configured to, and
  otherwise nothing is written.\<close>

theorem serial_server_total:
  assumes "heapless_ok hv" and "nfc_frontend nops n_inv" and "srv_reach hv nops now_us n_inv s"
  shows "\<exists>action writes s'. feed_byte hv nops now_us stalls b now_ticks s = Some (action, writes, s') \<and>
    server_ok hv n_inv s' \<and>
    (action = Respond \<longrightarrow>
       (\<exists>c. wf_command c \<and> fp_frame (parser_at now_ticks s) @ [b] = frame_bytes c)) \<and>
    (action = Nak \<longrightarrow> nak_on_error (ss_config s)) \<and> (action \<noteq> Respond \<longrightarrow> writes = [])"
  using nfc_frontend.feed_byte_ok [OF assms(2,1) srv_reach_ok [OF assms], of now_us stalls b now_ticks]
  by (fastforce simp: byte_outcome_def split: serve_action.splits)

text \<open>C7: A command frame is echoed and answered.  From any reachable idle state, the bytes of the
  frame of any well-formed command, none more than ten ticks after the one before, are consumed
  silently up to the checksum, and the checksum triggers exactly one answer: on the wire the host
  sees its own frame back, then one time-extension frame with its sequence number for each hook
  call during an XfrBlock (up to 255), then a frame with one message that answers the request.  The
  frame is empty only when the data the driver returns for this very command (the ATR, the card's answer
  or the UID) does not fit behind the header.\<close>

theorem serial_frame_answered:
  assumes "heapless_ok hv" and "nfc_frontend nops n_inv" and "srv_reach hv nops now_us n_inv s"
    and "\<not> mid_frame (ss_parser s)" and "wf_command c" and "header_parse c = Some hdr"
    and "length ticks = length c + 2" and "steady (ticks @ [t])" and "stalls < 256"
    and "k = interim_count (ss_ext s) stalls c"
  shows "\<exists>writes s' m. feed_bytes hv nops now_us stalls (zip (frame_bytes c) (ticks @ [t])) s =
      Some (replicate (length c + 2) (NoAction, []) @ [(Respond, writes)], s') \<and>
    concat writes @ server_echo s' =
      frame_bytes c @ concat (replicate k (frame_bytes (header_build RDR_TO_PC_DATABLOCK 0 0 (seq hdr)
        (0x80 OR (ch_icc_status (ss_handler s) AND 0x07)) 2 0))) \<and>
    server_response s' = frame_bytes m \<and>
    (if m = [] then overlong_data SerialNfcProfile (adapter_ops nops now_us) (ch_core (ss_handler s)) hdr (frame_payload hdr c)
     else answers_request hdr m (length m))"
proof -
  obtain writes s' s0 where
    f: "feed_bytes hv nops now_us stalls (zip (frame_bytes c) (ticks @ [t])) s =
      Some (replicate (length c + 2) (NoAction, []) @ [(Respond, writes)], s')"
    and s0: "ss_handler s0 = ss_handler s" "ss_ext s0 = ss_ext s" and sv: "served hv nops now_us n_inv stalls c t s0 writes s'"
    using feed_bytes_frame [OF assms(1,2) srv_reach_ok [OF assms(1-3)] assms(4,5,7,8)] by blast
  have "k < 256" using assms(9,10) by (simp add: interim_count_def)
  moreover have "seq hdr = c ! 6" using assms(6) by (auto simp: header_parse_def split: if_splits)
  ultimately have "concat writes @ server_echo s' =
      frame_bytes c @ concat (replicate k (frame_bytes (header_build RDR_TO_PC_DATABLOCK 0 0 (seq hdr)
        (0x80 OR (ch_icc_status (ss_handler s) AND 0x07)) 2 0)))"
    using sv s0 assms(10) interim_stream [of k "c ! 6" "ch_icc_status (ss_handler s)" "frame_bytes c"]
    by (simp add: served_def Let_def build_frame_message)
  moreover obtain m where "server_response s' = frame_bytes m" "answer_or_too_long nops now_us (ss_handler s) c m"
    using sv s0(1) unfolding served_def Let_def by metis
  then have "server_response s' = frame_bytes m \<and>
      (if m = [] then overlong_data SerialNfcProfile (adapter_ops nops now_us) (ch_core (ss_handler s)) hdr (frame_payload hdr c)
       else answers_request hdr m (length m))"
    using assms(6) by (simp add: answer_or_too_long_def split del: if_split)
  ultimately show ?thesis using f by blast
qed

text \<open>The read window of an answer, exactly.  After a command served at tick \<open>t\<close> with \<open>k\<close> interim
  frames, an answer ready \<open>e\<close> ticks later counts as expired if and only if more than
  \<open>k + 1\<close> windows of the command's class have passed or fewer than \<open>k\<close> have.  Without interim frames that is the
  intended deadline; with them, an answer that is ready early is dropped, because the deadline is
  extended by moving its start into the future.\<close>

theorem response_window_exact:
  assumes "heapless_ok hv" and "nfc_frontend nops n_inv" and "srv_reach hv nops now_us n_inv s"
    and "\<not> mid_frame (ss_parser s)" and "wf_command c"
    and "length ticks = length c + 2" and "steady (ticks @ [t])" and "stalls < 256"
    and "k = interim_count (ss_ext s) stalls c" and "w = unat (command_window (ss_windows s) c)"
    and "w * (k + 1) < 2 ^ 32"
  shows "\<exists>acts s'. feed_bytes hv nops now_us stalls (zip (frame_bytes c) (ticks @ [t])) s = Some (acts, s') \<and>
    (\<forall>e. response_expired (t + e) s' \<longleftrightarrow> unat e < w * k \<or> w * (k + 1) < unat e)"
proof -
  obtain writes s' s0 where
    r: "feed_bytes hv nops now_us stalls (zip (frame_bytes c) (ticks @ [t])) s =
      Some (replicate (length c + 2) (NoAction, []) @ [(Respond, writes)], s')"
    and s0: "ss_ext s0 = ss_ext s" "ss_windows s0 = ss_windows s"
    and sv: "served hv nops now_us n_inv stalls c t s0 writes s'"
    using feed_bytes_frame [OF assms(1,2) srv_reach_ok [OF assms(1-3)] assms(4-7)] by blast
  let ?w = "command_window (ss_windows s) c"
  have "k < 256" using assms(8,9) by (simp add: interim_count_def)
  then have k: "unat (word_of_nat k :: u8) = k" "k < 2 ^ 32"
    by (simp_all add: u8_of_small)
  define x where "x = ?w * (ucast (word_of_nat k :: u8) :: u32)"
  have x: "unat x = w * k"
    using k assms(10,11) unfolding x_def
    by (subst unat_mult_lem [THEN iffD1]) (auto simp: unsigned_ucast_eq take_bit_nat_eq_self)
  have "response_expired (t + e) s' \<longleftrightarrow> ?w < e - x" for e
    using sv s0 assms(9) by (simp add: response_expired_def served_def Let_def x_def algebra_simps)
  moreover have "?w < e - x \<longleftrightarrow> unat e < w * k \<or> w * (k + 1) < unat e" for e
  proof (cases "x \<le> e")
    case True
    then have "unat (e - x) = unat e - w * k" using x by (simp add: unat_sub)
    moreover have "w * k \<le> unat e" using True x by (simp add: word_le_nat_alt)
    ultimately show ?thesis using assms(10) by (auto simp: word_less_nat_alt algebra_simps)
  next
    case False
    then have lt: "unat e < w * k" using x by (simp add: word_le_nat_alt)
    have "unat (e - x) = unat e + 2 ^ 32 - w * k"
      using False x unat_sub_if' [of e x] by (simp add: word_le_nat_alt)
    then show ?thesis using assms(10,11) lt by (auto simp: word_less_nat_alt algebra_simps)
  qed
  ultimately show ?thesis using r by blast
qed

section \<open>A concrete server\<close>

definition demo_server :: "mock_nfc serial_server" where
  "demo_server = server_new armed_reader 100 (from_tick_hz 100) 0 (register_writer time_extension_new)"

lemma demo_reach: "srv_reach heapless_list mock_ops no_clock mock_ok demo_server"
  unfolding demo_server_def server_new_def by (rule srv_reach.new [OF armed_reader_reach]) simp

lemma demo_idle: "\<not> mid_frame (ss_parser demo_server)" "tx_writer (ss_ext demo_server)"
  "ss_windows demo_server = \<lparr>rw_tight = 250, rw_xfr_block = 750, rw_power_on = 5950\<rparr>"
  by (simp_all add: demo_server_def server_new_def server_with_config_def Let_def parser_new_def mid_frame_def
      register_writer_def from_tick_hz_def response_window_ticks_def xfr_block_response_window_ticks_def
      icc_power_on_response_window_ticks_def max_def word_le_nat_alt)

abbreviation (input) demo_apdu :: bytes where
  "demo_apdu \<equiv> [0x6F, 9, 0, 0, 0, 0, 7, 0, 0, 0, 0x00, 0x00, 0x05, 0x00, 0xA4, 0x04, 0x00, 0x00, 0xA5]"

lemma demo_apdu_wf: "wf_command demo_apdu" "steady (replicate 21 3 @ [4])"
  "header_parse demo_apdu = Some \<lparr>message_type = 0x6F, dw_length = 9, slot = 0, seq = 7, specific = (0, 0, 0)\<rparr>"
proof -
  show "steady (replicate 21 3 @ [4])" by code_simp
qed (simp_all add: wf_command_def declared_len_def from_le_bytes32_def header_parse_def)

theorem serial_server_total_witness:
  "\<exists>action writes s'. feed_byte heapless_list mock_ops no_clock 2 0x03 7 demo_server = Some (action, writes, s') \<and>
     server_ok heapless_list mock_ok s'"
  using serial_server_total [OF heapless_list_ok mock_probe.nfc_frontend_axioms demo_reach, of 2 3 7] by blast

theorem serial_frame_answered_witness:
  "\<exists>writes s' m. feed_bytes heapless_list mock_ops no_clock 1 (zip (frame_bytes demo_apdu) (replicate 21 3 @ [4])) demo_server =
      Some (replicate 21 (NoAction, []) @ [(Respond, writes)], s') \<and> server_response s' = frame_bytes m"
proof -
  have "length (replicate 21 (3 :: u32)) = length demo_apdu + 2" by simp
  from serial_frame_answered [OF heapless_list_ok mock_probe.nfc_frontend_axioms demo_reach demo_idle(1)
      demo_apdu_wf(1,3) this demo_apdu_wf(2) _ refl, of 1]
  obtain writes s' m where
    "feed_bytes heapless_list mock_ops no_clock 1 (zip (frame_bytes demo_apdu) (replicate 21 3 @ [4])) demo_server =
      Some (replicate (length demo_apdu + 2) (NoAction, []) @ [(Respond, writes)], s')"
    "server_response s' = frame_bytes m"
    by auto
  moreover have "length demo_apdu + 2 = 21" by simp
  ultimately show ?thesis by metis
qed

theorem response_window_exact_witness:
  "\<exists>acts s'. feed_bytes heapless_list mock_ops no_clock 1 (zip (frame_bytes demo_apdu) (replicate 21 3 @ [4])) demo_server
      = Some (acts, s') \<and> response_expired (4 + 20) s' \<and> \<not> response_expired (4 + 800) s' \<and>
    response_expired (4 + 1600) s'"
proof -
  have "interim_count (ss_ext demo_server) 1 demo_apdu = 1" "unat (command_window (ss_windows demo_server) demo_apdu) = 750"
    using demo_idle by (simp_all add: interim_count_def command_window_def)
  then obtain acts s' where
    r: "feed_bytes heapless_list mock_ops no_clock 1 (zip (frame_bytes demo_apdu) (replicate 21 3 @ [4])) demo_server
      = Some (acts, s')"
    and e: "\<And>e. response_expired (4 + e) s' \<longleftrightarrow> unat e < 750 * 1 \<or> 750 * (1 + 1) < unat e"
    using response_window_exact [OF heapless_list_ok mock_probe.nfc_frontend_axioms demo_reach demo_idle(1)
      demo_apdu_wf(1) _ demo_apdu_wf(2), where stalls = 1 and k = 1 and w = 750]
    by auto
  have "response_expired (4 + 20) s'" "\<not> response_expired (4 + 800) s'" "response_expired (4 + 1600) s'"
    unfolding e by simp_all
  with r show ?thesis by blast
qed

end
