(* ===== verification/Ota_Validity.thy ===== *)
theory Ota_Validity
  imports Prelude
begin

text \<open>
  The over-the-air update gate (\<open>crates/ccid-service/src/ota_validity.rs\<close>): a freshly updated image
  is confirmed by the first exchange that is completely delivered to a host.  The confirming call is
  installed by the platform; it is a value of the parameter type \<open>'m\<close>, and the model records which
  installed call runs when.  The theory also holds the environment the serving loops run in: clock
  readings, results of writes, and the calls of the time-extension hook.
\<close>

section \<open>The gate\<close>

record 'm validity_gate =
  vg_marker :: "'m option"
  vg_marked :: bool

definition gate_new :: "'m validity_gate" where
  "gate_new = \<lparr>vg_marker = None, vg_marked = False\<rparr>"

definition gate_armed :: "'m validity_gate \<Rightarrow> bool" where
  "gate_armed g \<longleftrightarrow> vg_marker g \<noteq> None"

definition gate_arm :: "'m \<Rightarrow> 'm validity_gate \<Rightarrow> bool \<times> 'm validity_gate" where
  "gate_arm marker g = (if vg_marked g then (False, g) else (True, g\<lparr>vg_marker := Some marker\<rparr>))"

text \<open>The first component is the call this evidence runs, if any.\<close>

definition gate_note_serve_evidence :: "'m validity_gate \<Rightarrow> 'm option \<times> 'm validity_gate" where
  "gate_note_serve_evidence g =
     (case vg_marker g of
        None \<Rightarrow> (None, g)
      | Some marker \<Rightarrow> if vg_marked g then (None, g) else (Some marker, g\<lparr>vg_marked := True\<rparr>))"

section \<open>The environment of a serving loop\<close>

text \<open>\<open>e_now i\<close> is the \<open>i\<close>-th reading of the clock, \<open>e_write_ok j\<close> tells whether the \<open>j\<close>-th write
  succeeds, \<open>e_stalls i\<close> is the number of hook calls during the byte fed after the \<open>i\<close>-th reading.
  The trace keeps every attempted write, the number of readings, the gate and the calls it ran.\<close>

record serve_env =
  e_now :: "nat \<Rightarrow> u32"
  e_write_ok :: "nat \<Rightarrow> bool"
  e_stalls :: "nat \<Rightarrow> nat"

record 'm serve_trace =
  tr_reads :: nat
  tr_writes :: "bytes list"
  tr_gate :: "'m validity_gate"
  tr_marks :: "'m list"

definition trace_new :: "'m serve_trace" where
  "trace_new = \<lparr>tr_reads = 0, tr_writes = [], tr_gate = gate_new, tr_marks = []\<rparr>"

definition read_clock :: "serve_env \<Rightarrow> 'm serve_trace \<Rightarrow> u32 \<times> 'm serve_trace" where
  "read_clock e tr = (e_now e (tr_reads tr), tr\<lparr>tr_reads := tr_reads tr + 1\<rparr>)"

definition write_wire :: "serve_env \<Rightarrow> bytes \<Rightarrow> 'm serve_trace \<Rightarrow> bool \<times> 'm serve_trace" where
  "write_wire e bs tr = (e_write_ok e (length (tr_writes tr)), tr\<lparr>tr_writes := tr_writes tr @ [bs]\<rparr>)"

definition note_serve_evidence :: "'m serve_trace \<Rightarrow> 'm serve_trace" where
  "note_serve_evidence tr =
     (let (m, g) = gate_note_serve_evidence (tr_gate tr)
      in tr\<lparr>tr_gate := g, tr_marks := tr_marks tr @ (case m of Some x \<Rightarrow> [x] | None \<Rightarrow> [])\<rparr>)"

section \<open>At most one confirmation per boot\<close>

datatype 'm gate_event = ArmWith 'm | Evidence

fun gate_run :: "'m gate_event list \<Rightarrow> 'm validity_gate \<Rightarrow> 'm list \<times> 'm validity_gate" where
  "gate_run [] g = ([], g)"
| "gate_run (ArmWith m # evs) g = gate_run evs (snd (gate_arm m g))"
| "gate_run (Evidence # evs) g =
     (let (ran, g) = gate_note_serve_evidence g; (rans, g) = gate_run evs g
      in ((case ran of Some x \<Rightarrow> [x] | None \<Rightarrow> []) @ rans, g))"

text \<open>The call that should run: the one installed last before the first evidence that follows an
  installation.\<close>

fun confirming :: "'m option \<Rightarrow> 'm gate_event list \<Rightarrow> 'm option" where
  "confirming m [] = None"
| "confirming m (ArmWith m' # evs) = confirming (Some m') evs"
| "confirming None (Evidence # evs) = confirming None evs"
| "confirming (Some m) (Evidence # evs) = Some m"

lemma gate_run_marked: "vg_marked g \<Longrightarrow> gate_run evs g = ([], g)"
  by (induction evs g rule: gate_run.induct)
    (auto simp: gate_arm_def gate_note_serve_evidence_def split: option.splits)

lemma gate_run_confirms:
  assumes "\<not> vg_marked g"
  shows "fst (gate_run evs g) = (case confirming (vg_marker g) evs of Some m \<Rightarrow> [m] | None \<Rightarrow> [])"
  using assms
proof (induction evs g rule: gate_run.induct)
  case (3 evs g)
  then show ?case
    by (cases "vg_marker g")
      (auto simp: gate_note_serve_evidence_def gate_run_marked split: prod.splits)
qed (auto simp: gate_arm_def)

text \<open>An update is confirmed at most once per boot, and only by an exchange delivered while a
  confirming call is installed: over any sequence of installations and delivered exchanges from
  start-up the gate runs exactly the call installed last before the first exchange that follows an
  installation, and no other.\<close>

theorem ota_confirmed_once:
  "fst (gate_run evs gate_new) = (case confirming None evs of Some m \<Rightarrow> [m] | None \<Rightarrow> [])"
  using gate_run_confirms [of gate_new evs] by (simp add: gate_new_def)

end
