(* ===== verification/Cdc_Burst.thy ===== *)
theory Cdc_Burst
  imports Serial_Server_Props Ota_Validity
begin

text \<open>
  The burst serving loop of the USB-CDC carrier (\<open>crates/ccid-service/src/cdc_burst.rs\<close>).  One
  iteration takes what the wire's read returned, feeds every byte to the serving core, writes the
  completed exchanges and keeps the arrival floor.  The wire and the clock are the environment of
  theory \<open>Ota_Validity\<close>; the quiet-point callback and the source tag only serve logging.
\<close>

section \<open>The loop\<close>

datatype burst_read_error = BurstReadError

record burst_outcome =
  bo_bytes_read :: nat
  bo_responses :: u32
  bo_naks :: u32
  bo_late_dropped :: u32
  bo_write_failures :: u32
  bo_idle :: bool
  bo_snapshot_requested :: bool

definition burst_outcome_default :: burst_outcome where
  "burst_outcome_default =
     \<lparr>bo_bytes_read = 0, bo_responses = 0, bo_naks = 0, bo_late_dropped = 0, bo_write_failures = 0,
      bo_idle = False, bo_snapshot_requested = False\<rparr>"

record 'd cdc_burst_serve =
  cb_server :: "'d serial_server"
  cb_arrival_floor :: u32

definition cdc_new :: "'d serial_server \<Rightarrow> u32 \<Rightarrow> 'd cdc_burst_serve" where
  "cdc_new server now_ticks = \<lparr>cb_server = server, cb_arrival_floor = now_ticks\<rparr>"

text \<open>Echo, then the notification when there is one, then the response; a failed write stops the
  sequence.\<close>

definition write_exchange :: "serve_env \<Rightarrow> 'd serial_server \<Rightarrow> 'm serve_trace \<Rightarrow> bool \<times> 'm serve_trace" where
  "write_exchange e s tr =
     (let (sent, tr) = write_wire e (server_echo s) tr;
          (sent, tr) = (if sent \<and> server_notify s \<noteq> [] then write_wire e (server_notify s) tr else (sent, tr))
      in if sent then write_wire e (server_response s) tr else (sent, tr))"

text \<open>The arm of the loop that handles a completed exchange.\<close>

definition burst_respond ::
    "serve_env \<Rightarrow> u32 \<Rightarrow> burst_outcome \<Rightarrow> 'd serial_server \<Rightarrow> 'm serve_trace
       \<Rightarrow> bool \<times> burst_outcome \<times> 'd serial_server \<times> 'm serve_trace" where
  "burst_respond e floor out s tr =
     (let s = refresh_host_deadline floor s;
          (post, tr) = read_clock e tr
      in if response_expired post s then
           (False, out\<lparr>bo_late_dropped := bo_late_dropped out + 1\<rparr>, record_late_response s, tr)
         else
           let (sent, tr) = write_exchange e s tr;
               (out, tr) = (if sent then (out\<lparr>bo_responses := bo_responses out + 1\<rparr>, note_serve_evidence tr)
                            else (out\<lparr>bo_write_failures := bo_write_failures out + 1\<rparr>, tr));
               (snap, s) = server_take_snapshot_request s
           in (snap, if snap then out\<lparr>bo_snapshot_requested := True\<rparr> else out, s, tr))"

text \<open>The loop over the bytes of the burst; the flag says that it was left early.\<close>

fun burst_bytes ::
    "heapless \<Rightarrow> ('d, 'e) nfc_ops \<Rightarrow> ('d \<Rightarrow> int) \<Rightarrow> serve_env \<Rightarrow> u32 \<Rightarrow> bytes \<Rightarrow> burst_outcome
       \<Rightarrow> 'd serial_server \<Rightarrow> 'm serve_trace
       \<Rightarrow> (bool \<times> burst_outcome \<times> 'd serial_server \<times> 'm serve_trace) outcome" where
  "burst_bytes hv nops now_us e floor [] out s tr = Some (False, out, s, tr)"
| "burst_bytes hv nops now_us e floor (b # bs) out s tr = do {
     let stalls = e_stalls e (tr_reads tr);
     let (feed_tick, tr) = read_clock e tr;
     (action, hooked, s) \<leftarrow> feed_byte hv nops now_us stalls b feed_tick s;
     let tr = tr\<lparr>tr_writes := tr_writes tr @ hooked\<rparr>;
     (case action of
        Respond \<Rightarrow>
          let (stop, out, s, tr) = burst_respond e floor out s tr
          in if stop then Some (True, out, s, tr) else burst_bytes hv nops now_us e floor bs out s tr
      | Nak \<Rightarrow>
          let (sent, tr) = write_wire e (ss_nak_buf s) tr;
              out = (if sent then out\<lparr>bo_naks := bo_naks out + 1\<rparr>
                     else out\<lparr>bo_write_failures := bo_write_failures out + 1\<rparr>)
          in burst_bytes hv nops now_us e floor bs out s tr
      | NoAction \<Rightarrow> burst_bytes hv nops now_us e floor bs out s tr)
   }"

text \<open>One iteration; the arguments \<open>read\<close> and \<open>burst_buf\<close> are the result of the wire's read and the
  buffer after it.\<close>

definition serve_once ::
    "heapless \<Rightarrow> ('d, 'e) nfc_ops \<Rightarrow> ('d \<Rightarrow> int) \<Rightarrow> serve_env \<Rightarrow> burst_read_error + nat \<Rightarrow> bytes
       \<Rightarrow> 'm serve_trace \<Rightarrow> 'd cdc_burst_serve
       \<Rightarrow> (burst_outcome \<times> 'm serve_trace \<times> 'd cdc_burst_serve) outcome" where
  "serve_once hv nops now_us e read burst_buf tr cb =
     (case (case read of Inr n \<Rightarrow> if 0 < n then Some n else None | Inl _ \<Rightarrow> None) of
        None \<Rightarrow>
          let (now_idle, tr) = read_clock e tr;
              (polled, s) = poll_if_due nops now_us now_idle (cb_server cb)
          in Some (burst_outcome_default\<lparr>bo_idle := True\<rparr>, tr,
                   cb\<lparr>cb_arrival_floor := now_idle, cb_server := s\<rparr>)
      | Some n \<Rightarrow> do {
          let out = burst_outcome_default\<lparr>bo_bytes_read := n\<rparr>;
          let (read_end, tr) = read_clock e tr;
          bs \<leftarrow> slice burst_buf 0 n;
          (stopped, out, s, tr) \<leftarrow>
            burst_bytes hv nops now_us e (cb_arrival_floor cb) bs out (cb_server cb) tr;
          let cb = cb\<lparr>cb_server := s\<rparr>;
          Some (out, tr, if \<not> stopped \<and> n < length burst_buf then cb\<lparr>cb_arrival_floor := read_end\<rparr> else cb)
        })"

end
