(* ===== verification/Cdc_Burst_Props.thy ===== *)
theory Cdc_Burst_Props
  imports Cdc_Burst
begin

text \<open>
  Properties of the USB-CDC loop: it never panics, and a command frame that arrives in one burst is
  either answered completely or met with silence, by the time that has passed since the arrival
  floor.
\<close>

section \<open>No panic\<close>

lemma snapshot_server_ok:
  assumes "server_ok hv n_inv s" and "server_take_snapshot_request s = (b, s')"
  shows "server_ok hv n_inv s'"
  using housekeeping_ok(4) [OF server_okD(1) [OF assms(1)]] server_handler_ok [OF assms(1)] assms(2)
  by (auto simp: server_take_snapshot_request_def split: prod.splits)

lemma burst_respond_ok:
  assumes "server_ok hv n_inv s" and "burst_respond e floor out s tr = (stop, out', s', tr')"
  shows "server_ok hv n_inv s'"
  using assms(2) deadline_ok(2) [OF assms(1), of floor] late_ok [OF deadline_ok(2) [OF assms(1)], of floor]
  by (auto simp: burst_respond_def Let_def split: if_splits prod.splits dest: snapshot_server_ok)

context nfc_frontend
begin

lemma burst_bytes_ok:
  assumes "heapless_ok hv" and "server_ok hv n_inv s"
  shows "\<exists>stop out' s' tr'. burst_bytes hv nops now_us e floor bs out s tr = Some (stop, out', s', tr') \<and>
    server_ok hv n_inv s'"
  using assms(2)
proof (induction bs arbitrary: out s tr)
  case (Cons b bs)
  obtain a ws s1 where f: "feed_byte hv nops now_us (e_stalls e (tr_reads tr)) b (e_now e (tr_reads tr)) s = Some (a, ws, s1)"
    and ok: "server_ok hv n_inv s1"
    using feed_byte_ok [OF assms(1) Cons.prems] unfolding byte_outcome_def by blast
  let ?tr = "tr\<lparr>tr_reads := tr_reads tr + 1, tr_writes := tr_writes tr @ ws\<rparr>"
  obtain stop out1 s2 tr2 where r: "burst_respond e floor out s1 ?tr = (stop, out1, s2, tr2)"
    using prod_cases4 by blast
  note ok2 = burst_respond_ok [OF ok r]
  with f ok r Cons.IH [OF ok] Cons.IH [OF ok2] show ?case
    by (cases a) (auto simp: read_clock_def write_wire_def)
qed (auto intro: exI [of _ False])

lemma serve_once_ok:
  assumes "heapless_ok hv" and "server_ok hv n_inv (cb_server cb)" and "\<And>n. read = Inr n \<Longrightarrow> n \<le> length buf"
  shows "\<exists>out tr' cb'. serve_once hv nops now_us e read buf tr cb = Some (out, tr', cb') \<and>
    server_ok hv n_inv (cb_server cb')"
proof (cases "\<exists>n. read = Inr n \<and> 0 < n")
  case True
  then obtain n where n: "read = Inr n" "0 < n" by blast
  with assms(3) have sl: "slice buf 0 n = Some (take n buf)" by (simp add: slice_prefix)
  let ?out = "burst_outcome_default\<lparr>bo_bytes_read := n\<rparr>"
  obtain stop out s tr' where
    "burst_bytes hv nops now_us e (cb_arrival_floor cb) (take n buf) ?out (cb_server cb)
       (tr\<lparr>tr_reads := tr_reads tr + 1\<rparr>) = Some (stop, out, s, tr')" "server_ok hv n_inv s"
    using burst_bytes_ok [OF assms(1,2)] by blast
  with n sl show ?thesis by (auto simp: serve_once_def read_clock_def Let_def)
next
  case False
  then show ?thesis
    using poll_if_due_ok [OF assms(2)]
    by (auto simp: serve_once_def read_clock_def Let_def split: sum.split prod.split)
qed

end

section \<open>Answer or silence\<close>

interpretation cdc: serve_loop hv "\<lambda>bs s (out, tr). burst_bytes hv nops now_us e floor bs out s tr" "\<lambda>b. b"
  "\<lambda>_ (out, tr). e_now e (tr_reads tr)" "\<lambda>_ (out, tr). (out, tr\<lparr>tr_reads := Suc (tr_reads tr)\<rparr>)"
  by unfold_locales (auto simp: read_clock_def feed_byte_silent split: prod.splits)

lemma cdc_ticks: "cdc.ticks e bs (out, tr) = map (\<lambda>i. e_now e (tr_reads tr + i)) [0..<length bs]"
proof (induction bs arbitrary: tr)
  case (Cons b bs)
  have "[0..<Suc n] = 0 # map Suc [0..<n]" for n by (simp add: upt_conv_Cons map_Suc_upt del: upt_Suc)
  with Cons show ?case by (simp del: upt_Suc)
qed simp

lemma cdc_fold:
  "fold (\<lambda>_ (out, tr). (out, tr\<lparr>tr_reads := Suc (tr_reads tr)\<rparr>)) bs (out, tr) =
     (out, tr\<lparr>tr_reads := tr_reads tr + length bs\<rparr>)"
  by (induction bs arbitrary: tr) simp_all


text \<open>What the loop writes for one answered exchange when no write fails.\<close>

definition exchange_frames :: "'d serial_server \<Rightarrow> bytes list" where
  "exchange_frames s = server_echo s # (if server_notify s = [] then [] else [server_notify s]) @ [server_response s]"

lemma write_exchange_all:
  assumes "\<And>i. e_write_ok e i"
  shows "write_exchange e s tr = (True, tr\<lparr>tr_writes := tr_writes tr @ exchange_frames s\<rparr>)"
  using assms by (simp add: write_exchange_def write_wire_def exchange_frames_def)

text \<open>What stays when the deadline is moved or the snapshot flag is taken.\<close>

lemma exchange_frames_kept:
  "exchange_frames (refresh_host_deadline t s) = exchange_frames s"
  by (simp add: exchange_frames_def server_echo_def server_notify_def server_response_def
      refresh_host_deadline_def)

lemma burst_respond_verdict:
  assumes "\<And>i. e_write_ok e i" and "post = e_now e (tr_reads tr)"
    and "burst_respond e floor out s tr = (stop, out', s', tr')"
  shows "if ss_active_deadline_ticks s < post - floor
    then \<not> stop \<and> tr_writes tr' = tr_writes tr \<and> tr_marks tr' = tr_marks tr \<and>
      out' = out\<lparr>bo_late_dropped := bo_late_dropped out + 1\<rparr> \<and> server_response s' = []
    else tr_writes tr' = tr_writes tr @ exchange_frames s \<and> bo_responses out' = bo_responses out + 1 \<and>
      bo_late_dropped out' = bo_late_dropped out \<and> bo_write_failures out' = bo_write_failures out"
proof -
  have x: "response_expired post (refresh_host_deadline floor s) \<longleftrightarrow> ss_active_deadline_ticks s < post - floor"
    by (simp add: response_expired_def refresh_host_deadline_def)
  show ?thesis
  proof (cases "ss_active_deadline_ticks s < post - floor")
    case True
    with assms(2,3) x show ?thesis
      by (auto simp: burst_respond_def Let_def read_clock_def record_late_response_def server_response_def)
  next
    case False
    with assms x show ?thesis
      by (auto simp: burst_respond_def Let_def read_clock_def write_exchange_all exchange_frames_kept
          note_serve_evidence_def split: prod.splits if_splits)
  qed
qed

text \<open>C32: Answer or silence on the USB carrier.  A burst that holds exactly the frame of one command, fed from a
  reachable idle state without gaps longer than ten ticks, to a wire that accepts every write, is answered if and
  only if no more than the command's read window has passed between the arrival floor and the moment the answer is
  ready: then the echo (unless an interim frame has already carried it), the notification of a card transition that
  a GetSlotStatus announces, and the framed answer are written in this order and counted as one response, and
  otherwise nothing but the interim frames is written and one late drop is counted.  The answer frame is empty only
  when the data the driver returns for this command does not fit behind the header.  The interim frames do not
  extend the window on this carrier.\<close>

theorem cdc_answer_or_silence:
  assumes "heapless_ok hv" and "nfc_frontend nops n_inv" and "srv_reach hv nops now_us n_inv (cb_server cb)"
    and "\<not> mid_frame (ss_parser (cb_server cb))" and "wf_command c" and "header_parse c = Some hdr"
    and "n = length (frame_bytes c)" and "n \<le> length buf" and "take n buf = frame_bytes c"
    and "steady (map (\<lambda>i. e_now e (tr_reads tr + 1 + i)) [0..<n])" and "\<And>i. e_write_ok e i"
    and "stalls = e_stalls e (tr_reads tr + n)" and "stalls < 256"
    and "k = interim_count (ss_ext (cb_server cb)) stalls c"
    and "elapsed = e_now e (tr_reads tr + 1 + n) - cb_arrival_floor cb"
    and "change = change_bytes (slot_change nops now_us c (e_now e (tr_reads tr + n)) (cb_server cb))"
  shows "\<exists>out tr' cb' interim m.
    serve_once hv nops now_us e (Inr n) buf tr cb = Some (out, tr', cb') \<and>
    interim = interim_writes k (c ! 6) (ch_icc_status (ss_handler (cb_server cb))) (frame_bytes c) \<and>
    (if command_window (ss_windows (cb_server cb)) c < elapsed
     then tr_writes tr' = tr_writes tr @ interim \<and> bo_responses out = 0 \<and> bo_late_dropped out = 1
     else tr_writes tr' = tr_writes tr @ interim @ [if k = 0 then frame_bytes c else []] @
         (if change = [] then [] else [change]) @ [frame_bytes m] \<and>
       (if m = [] then overlong_data SerialNfcProfile (adapter_ops nops now_us) (ch_core (ss_handler (cb_server cb))) hdr
          (frame_payload hdr c)
        else answers_request hdr m (length m)) \<and> bo_responses out = 1 \<and> bo_late_dropped out = 0)"
proof -
  let ?s = "cb_server cb" and ?floor = "cb_arrival_floor cb"
  let ?tr = "tr\<lparr>tr_reads := tr_reads tr + 1\<rparr>" and ?out = "burst_outcome_default\<lparr>bo_bytes_read := n\<rparr>"
  have st: "steady (cdc.ticks e (frame_bytes c) (?out, ?tr))"
    using assms(10) by (simp add: cdc_ticks assms(7))
  obtain xs0 x s1 s0 where xs: "frame_bytes c = xs0 @ [x]" "length xs0 = length c + 2"
    and run: "burst_bytes hv nops now_us e ?floor (frame_bytes c) ?out ?s ?tr =
      burst_bytes hv nops now_us e ?floor [x] ?out s1 (?tr\<lparr>tr_reads := tr_reads ?tr + length xs0\<rparr>)"
    and s0: "ss_handler s0 = ss_handler ?s" "ss_ext s0 = ss_ext ?s" "ss_windows s0 = ss_windows ?s"
    and sc: "\<And>now_us c t p. slot_change nops now_us c t (s0\<lparr>ss_parser := p\<rparr>) = slot_change nops now_us c t ?s"
    and f: "\<And>now_us stalls. \<exists>writes s2 p. feed_byte hv nops now_us stalls x (e_now e (tr_reads ?tr + length xs0)) s1 =
        Some (Respond, writes, s2) \<and>
      served hv nops now_us n_inv stalls c (e_now e (tr_reads ?tr + length xs0)) (s0\<lparr>ss_parser := p\<rparr>) writes s2"
    by (rule cdc.frame_completes [OF assms(1,2) srv_reach_ok [OF assms(1-3)] assms(4,5) list.map_ident st,
        where nopsa = nops and now_us = now_us and floor = ?floor])
      (simp add: cdc_fold)
  have n: "n = length xs0 + 1" using assms(7) xs by simp
  from f [of now_us stalls] obtain writes s2 p where
    fb: "feed_byte hv nops now_us stalls x (e_now e (tr_reads tr + n)) s1 = Some (Respond, writes, s2)" and
    sv: "served hv nops now_us n_inv stalls c (e_now e (tr_reads tr + n)) (s0\<lparr>ss_parser := p\<rparr>) writes s2"
    by (auto simp: n)
  let ?tr2 = "tr\<lparr>tr_reads := tr_reads tr + 1 + n, tr_writes := tr_writes tr @ writes\<rparr>"
  obtain stop out s3 tr3 where r: "burst_respond e ?floor ?out s2 ?tr2 = (stop, out, s3, tr3)"
    using prod_cases4 by blast
  have "burst_bytes hv nops now_us e ?floor (frame_bytes c) ?out ?s ?tr = Some (stop, out, s3, tr3)"
    unfolding run using fb r assms(12) by (simp add: read_clock_def n)
  moreover have "slice buf 0 n = Some (frame_bytes c)" "0 < n" using assms(8,9) n by (simp_all add: slice_prefix)
  ultimately obtain cb' where so: "serve_once hv nops now_us e (Inr n) buf tr cb = Some (out, tr3, cb')"
    by (auto simp: serve_once_def read_clock_def Let_def)
  have kk: "k < 256" using assms(13,14) by (simp add: interim_count_def)
  have w: "writes = interim_writes k (c ! 6) (ch_icc_status (ss_handler ?s)) (frame_bytes c)"
    "server_echo s2 = (if (word_of_nat k :: u8) = 0 then frame_bytes c else [])"
    "ss_active_deadline_ticks s2 = command_window (ss_windows ?s) c" "server_notify s2 = change"
    using sv assms(14,16) s0 sc by (simp_all add: served_def Let_def)
  obtain m where m0: "server_response s2 = frame_bytes m" "answer_or_too_long nops now_us (ss_handler ?s) c m"
    using sv s0(1) by (auto simp: served_def Let_def)
  have m: "if m = [] then overlong_data SerialNfcProfile (adapter_ops nops now_us) (ch_core (ss_handler ?s)) hdr (frame_payload hdr c)
      else answers_request hdr m (length m)"
    using m0(2) assms(6) by (simp add: answer_or_too_long_def split del: if_split)
  have "if command_window (ss_windows ?s) c < elapsed
    then tr_writes tr3 = tr_writes tr @ writes \<and> bo_responses out = 0 \<and> bo_late_dropped out = 1
    else tr_writes tr3 = (tr_writes tr @ writes) @ exchange_frames s2 \<and> bo_responses out = 1 \<and> bo_late_dropped out = 0"
    using burst_respond_verdict [OF assms(11) refl r] w(3) assms(15)
    by (auto simp: burst_outcome_default_def split: if_splits)
  then have "if command_window (ss_windows ?s) c < elapsed
    then tr_writes tr3 = tr_writes tr @ writes \<and> bo_responses out = 0 \<and> bo_late_dropped out = 1
    else tr_writes tr3 = tr_writes tr @ writes @ [if k = 0 then frame_bytes c else []] @
        (if change = [] then [] else [change]) @ [frame_bytes m] \<and> bo_responses out = 1 \<and> bo_late_dropped out = 0"
    using w(2,4) m0(1) word_of_nat_zero [OF kk] by (auto simp: exchange_frames_def)
  with m w(1) show ?thesis
    by (intro exI [of _ out] exI [of _ tr3] exI [of _ cb'] exI [of _ writes] exI [of _ m] conjI so w(1))
      (simp split: if_splits)
qed

text \<open>The demonstration server behind the USB carrier: a read of 22 bytes, the clock standing still.\<close>

definition demo_env :: "u32 \<Rightarrow> serve_env" where
  "demo_env late = \<lparr>e_now = (\<lambda>i. if i < 23 then 0 else late), e_write_ok = (\<lambda>_. True), e_stalls = (\<lambda>_. 0)\<rparr>"

theorem cdc_answer_or_silence_witness:
  "\<exists>out tr cb. serve_once heapless_list mock_ops no_clock (demo_env 751) (Inr 22)
      (frame_bytes demo_apdu @ replicate 42 0) (trace_new :: unit serve_trace) (cdc_new demo_server 0) = Some (out, tr, cb) \<and>
    tr_writes tr = [] \<and> bo_responses out = 0 \<and> bo_late_dropped out = 1"
proof -
  let ?cb = "cdc_new demo_server 0" and ?tr = "trace_new :: unit serve_trace"
  have r: "srv_reach heapless_list mock_ops no_clock mock_ok (cb_server ?cb)" "\<not> mid_frame (ss_parser (cb_server ?cb))"
    using demo_reach demo_idle(1) by (simp_all add: cdc_new_def)
  have st: "steady (map (\<lambda>i. e_now (demo_env 751) (tr_reads ?tr + 1 + i)) [0..<22])"
    by (simp add: demo_env_def trace_new_def upt_rec)
  have win: "command_window (ss_windows (cb_server ?cb)) demo_apdu = 750"
    using demo_idle(3) by (simp add: command_window_def cdc_new_def)
  have k: "interim_count (ss_ext (cb_server ?cb)) 0 demo_apdu = 0" by (simp add: interim_count_def)
  from cdc_answer_or_silence [OF heapless_list_ok mock_probe.nfc_frontend_axioms r demo_apdu_wf(1,3), where n = 22
      and buf = "frame_bytes demo_apdu @ replicate 42 0" and e = "demo_env 751" and tr = ?tr and stalls = 0
      and k = 0 and elapsed = 751, OF _ _ _ _ _ _ _ _ _ refl] st k win
  show ?thesis by (auto simp: frame_bytes_length demo_env_def trace_new_def cdc_new_def interim_writes_def)
qed

end
