(* ===== verification/Tcp_Server.thy ===== *)
theory Tcp_Server
  imports Cdc_Burst_Props
begin

text \<open>
  The single-session TCP carrier (\<open>crates/ccid-service/src/tcp_server.rs\<close>).  A session is a loop over
  what the socket's reads return, so the model takes these results as a list; while the list lasts
  and nothing ends the session, it is still running.  The tick callback that recovers a mute
  controller is a parameter, rejecting further clients and logging have no effect on the server.
\<close>

section \<open>The session loop\<close>

abbreviation (input) READ_TICK :: nat where "READ_TICK \<equiv> 250"
abbreviation (input) IDLE_CLOSE_TICKS :: u32 where "IDLE_CLOSE_TICKS \<equiv> 2400"
abbreviation (input) BURST_BUF_LEN :: nat where "BURST_BUF_LEN \<equiv> 64"

record session_config =
  sc_read_timeout :: nat
  sc_idle_close_ticks :: u32

definition session_config_default :: session_config where
  "session_config_default = \<lparr>sc_read_timeout = READ_TICK, sc_idle_close_ticks = IDLE_CLOSE_TICKS\<rparr>"

datatype session_end = ClientClosed | IdleTimeout | ReadError

text \<open>What one read returns: a number of bytes (the buffer follows), a timeout, or another error.\<close>

datatype stream_read = ReadOk nat | ReadTimedOut | ReadFailed

datatype burst_end = BurstDone | BurstBroken

text \<open>The bytes of one read.  A failed write abandons the rest of the burst; a delivered snapshot
  request ends in a deliberate panic.\<close>

fun tcp_bytes ::
    "heapless \<Rightarrow> ('d, 'e) nfc_ops \<Rightarrow> ('d \<Rightarrow> int) \<Rightarrow> serve_env \<Rightarrow> u32 \<Rightarrow> bytes
       \<Rightarrow> 'd serial_server \<Rightarrow> 'm serve_trace \<Rightarrow> (burst_end \<times> 'd serial_server \<times> 'm serve_trace) outcome" where
  "tcp_bytes hv nops now_us e floor [] s tr = Some (BurstDone, s, tr)"
| "tcp_bytes hv nops now_us e floor (b # bs) s tr = do {
     let stalls = e_stalls e (tr_reads tr);
     let (feed_tick, tr) = read_clock e tr;
     (action, hooked, s) \<leftarrow> feed_byte hv nops now_us stalls b feed_tick s;
     let tr = tr\<lparr>tr_writes := tr_writes tr @ hooked\<rparr>;
     if action = Respond then do {
       let s = refresh_host_deadline floor s;
       let (post, tr) = read_clock e tr;
       if response_expired post s then tcp_bytes hv nops now_us e floor bs (record_late_response s) tr
       else do {
         let (sent, tr) = write_wire e (server_echo s) tr;
         let (sent, tr) = (if sent then write_wire e (server_response s) tr else (sent, tr));
         if \<not> sent then Some (BurstBroken, s, tr)
         else do {
           let tr = note_serve_evidence tr;
           let (snap, s) = server_take_snapshot_request s;
           if snap then None else tcp_bytes hv nops now_us e floor bs s tr
         }
       }
     }
     else tcp_bytes hv nops now_us e floor bs s tr
   }"

definition with_driver :: "('d \<Rightarrow> 'd) \<Rightarrow> 'd serial_server \<Rightarrow> 'd serial_server" where
  "with_driver g s = s\<lparr>ss_handler := ch_set_driver (g (ch_driver (ss_handler s))) (ss_handler s)\<rparr>"

record session_state =
  st_idle_ticks :: u32
  st_arrival_floor :: u32

text \<open>The tail of an iteration: the tick callback, then the presence poll.\<close>

definition session_tick ::
    "('d, 'e) nfc_ops \<Rightarrow> ('d \<Rightarrow> int) \<Rightarrow> serve_env \<Rightarrow> ('d \<Rightarrow> 'd) \<Rightarrow> 'd serial_server \<Rightarrow> 'm serve_trace
       \<Rightarrow> 'd serial_server \<times> 'm serve_trace" where
  "session_tick nops now_us e on_tick s tr =
     (let s = with_driver on_tick s;
          (tick, tr) = read_clock e tr;
          (polled, s) = poll_if_due nops now_us tick s
      in (s, tr))"

fun session_reads ::
    "heapless \<Rightarrow> ('d, 'e) nfc_ops \<Rightarrow> ('d \<Rightarrow> int) \<Rightarrow> serve_env \<Rightarrow> ('d \<Rightarrow> 'd) \<Rightarrow> session_config
       \<Rightarrow> (stream_read \<times> bytes) list \<Rightarrow> session_state \<Rightarrow> 'd serial_server \<Rightarrow> 'm serve_trace
       \<Rightarrow> (session_end option \<times> session_state \<times> 'd serial_server \<times> 'm serve_trace) outcome" where
  "session_reads hv nops now_us e on_tick cfg [] st s tr = Some (None, st, s, tr)"
| "session_reads hv nops now_us e on_tick cfg ((r, burst_buf) # rs) st s tr =
     (case r of
        ReadOk n \<Rightarrow>
          if n = 0 then Some (Some ClientClosed, st, s, tr)
          else do {
            let st = st\<lparr>st_idle_ticks := 0\<rparr>;
            let (read_end, tr) = read_clock e tr;
            bs \<leftarrow> slice burst_buf 0 n;
            (_, s, tr) \<leftarrow> tcp_bytes hv nops now_us e (st_arrival_floor st) bs s tr;
            let st = (if n < length burst_buf then st\<lparr>st_arrival_floor := read_end\<rparr> else st);
            let (s, tr) = session_tick nops now_us e on_tick s tr;
            session_reads hv nops now_us e on_tick cfg rs st s tr
          }
      | ReadTimedOut \<Rightarrow>
          let st = st\<lparr>st_idle_ticks := st_idle_ticks st + 1\<rparr> in
          if sc_idle_close_ticks cfg \<le> st_idle_ticks st then Some (Some IdleTimeout, st, s, tr)
          else
            let (now, tr) = read_clock e tr;
                st = st\<lparr>st_arrival_floor := now\<rparr>;
                (s, tr) = session_tick nops now_us e on_tick s tr
            in session_reads hv nops now_us e on_tick cfg rs st s tr
      | ReadFailed \<Rightarrow> Some (Some ReadError, st, s, tr))"

definition serve_session ::
    "heapless \<Rightarrow> ('d, 'e) nfc_ops \<Rightarrow> ('d \<Rightarrow> int) \<Rightarrow> serve_env \<Rightarrow> ('d \<Rightarrow> 'd) \<Rightarrow> session_config
       \<Rightarrow> (stream_read \<times> bytes) list \<Rightarrow> 'd serial_server \<Rightarrow> 'm serve_trace
       \<Rightarrow> (session_end option \<times> session_state \<times> 'd serial_server \<times> 'm serve_trace) outcome" where
  "serve_session hv nops now_us e on_tick cfg reads s tr =
     (let (floor, tr) = read_clock e tr
      in session_reads hv nops now_us e on_tick cfg reads \<lparr>st_idle_ticks = 0, st_arrival_floor = floor\<rparr> s tr)"

section \<open>A silent host is dropped\<close>

lemma session_reads_append:
  "session_reads hv nops now_us e on_tick cfg (xs @ ys) st s tr = do {
     (end, st, s, tr) \<leftarrow> session_reads hv nops now_us e on_tick cfg xs st s tr;
     case end of Some x \<Rightarrow> Some (Some x, st, s, tr)
     | None \<Rightarrow> session_reads hv nops now_us e on_tick cfg ys st s tr
   }"
proof (induction xs arbitrary: st s tr)
  case (Cons x xs)
  obtain r buf where x: "x = (r, buf)" by fastforce
  show ?case
    by (cases r) (auto simp: x Cons.IH Let_def split: prod.split intro!: Option.bind_cong)
qed simp

lemma timeouts_close:
  fixes tr :: "'m serve_trace"
  assumes "unat (st_idle_ticks st) + k = unat (sc_idle_close_ticks cfg)" and "0 < k" and "k \<le> length bufs"
  shows "\<exists>st' s' tr'. session_reads hv nops now_us e on_tick cfg (map (Pair ReadTimedOut) bufs) st s tr =
    Some (Some IdleTimeout, st', s', tr')"
  using assms
proof (induction bufs arbitrary: k st s tr)
  case (Cons buf bufs)
  have "unat (sc_idle_close_ticks cfg) < 2 ^ LENGTH(32)" by (rule unsigned_less)
  then have "unat (st_idle_ticks st) < 2 ^ 32 - 1" using Cons.prems(1,2) by simp
  then have u: "unat (st_idle_ticks st + 1) = unat (st_idle_ticks st) + 1"
    by (simp add: unat_word_ariths)
  show ?case
  proof (cases "k = 1")
    case True
    then have "sc_idle_close_ticks cfg \<le> st_idle_ticks st + 1"
      using Cons.prems(1) u by (simp add: word_le_nat_alt)
    then show ?thesis by simp
  next
    case False
    then have "\<not> sc_idle_close_ticks cfg \<le> st_idle_ticks st + 1"
      using Cons.prems u by (simp add: word_le_nat_alt)
    moreover have "\<exists>st' s' tr'. session_reads hv nops now_us e on_tick cfg (map (Pair ReadTimedOut) bufs)
        (st\<lparr>st_idle_ticks := st_idle_ticks st + 1, st_arrival_floor := fl\<rparr>) s1 tr1 = Some (Some IdleTimeout, st', s', tr')"
      for fl s1 and tr1 :: "'m serve_trace"
      using Cons.prems False u by (intro Cons.IH [where k = "k - 1"]) auto
    ultimately show ?thesis by (auto split: prod.split)
  qed
qed simp

lemma idle_below_limit:
  assumes "session_reads hv nops now_us e on_tick cfg rs st s tr = Some (None, st', s', tr')"
    and "st_idle_ticks st < sc_idle_close_ticks cfg"
  shows "st_idle_ticks st' < sc_idle_close_ticks cfg"
  using assms
proof (induction rs arbitrary: st s tr)
  case (Cons x rs)
  obtain r buf where x: "x = (r, buf)" by fastforce
  have z: "0 < sc_idle_close_ticks cfg" using Cons.prems(2) by (metis word_gt_0 word_not_simps(1))
  show ?case
    using Cons x z by (cases r) (auto simp: Let_def linorder_not_le split: if_splits prod.splits bind_splits)
qed simp

text \<open>A silent host is dropped.  Whatever a TCP session has read so far, if it is still running
  and the configured limit is positive, then a run of timed-out reads as long as the limit ends it
  with the idle timeout; and a session that is still running has never seen the limit reached, so a
  host that sends anything within the limit is not dropped for idling.\<close>

theorem tcp_silent_host_dropped:
  assumes "serve_session hv nops now_us e on_tick cfg reads s tr = Some (None, st, s', tr')"
    and "0 < sc_idle_close_ticks cfg" and "length bufs = unat (sc_idle_close_ticks cfg)"
  shows "st_idle_ticks st < sc_idle_close_ticks cfg \<and>
    (\<exists>st2 s2 tr2. serve_session hv nops now_us e on_tick cfg (reads @ map (Pair ReadTimedOut) bufs) s tr =
       Some (Some IdleTimeout, st2, s2, tr2))"
proof -
  let ?st = "\<lparr>st_idle_ticks = 0, st_arrival_floor = e_now e (tr_reads tr)\<rparr>"
    and ?tr = "tr\<lparr>tr_reads := tr_reads tr + 1\<rparr>"
  have run: "session_reads hv nops now_us e on_tick cfg reads ?st s ?tr = Some (None, st, s', tr')"
    using assms(1) by (simp add: serve_session_def read_clock_def)
  have lt: "st_idle_ticks st < sc_idle_close_ticks cfg"
    using idle_below_limit [OF run] assms(2) by simp
  have "\<exists>st2 s2 tr2. session_reads hv nops now_us e on_tick cfg (map (Pair ReadTimedOut) bufs) st s' tr' =
      Some (Some IdleTimeout, st2, s2, tr2)"
    using lt assms(3)
    by (intro timeouts_close [of _ "unat (sc_idle_close_ticks cfg) - unat (st_idle_ticks st)"])
      (auto simp: word_less_nat_alt)
  then show ?thesis
    using lt run by (auto simp: serve_session_def read_clock_def session_reads_append)
qed

theorem tcp_silent_host_dropped_witness:
  "\<exists>st s tr. serve_session heapless_list mock_ops no_clock (demo_env 0) id
      \<lparr>sc_read_timeout = 250, sc_idle_close_ticks = 3\<rparr> ([] @ map (Pair ReadTimedOut) [[], [], []])
      demo_server (trace_new :: unit serve_trace) = Some (Some IdleTimeout, st, s, tr)"
proof -
  have "serve_session heapless_list mock_ops no_clock (demo_env 0) id \<lparr>sc_read_timeout = 250, sc_idle_close_ticks = 3\<rparr>
      [] demo_server (trace_new :: unit serve_trace) =
    Some (None, \<lparr>st_idle_ticks = 0, st_arrival_floor = 0\<rparr>, demo_server, trace_new\<lparr>tr_reads := 1\<rparr>)"
    by (simp add: serve_session_def read_clock_def demo_env_def trace_new_def)
  from tcp_silent_host_dropped [OF this, of "[[], [], []]"] show ?thesis by simp
qed

section \<open>The session keeps the server consistent\<close>

context nfc_frontend
begin

lemma tcp_bytes_ok:
  assumes "heapless_ok hv" and "server_ok hv n_inv s"
    and "tcp_bytes hv nops now_us e floor bs s tr = Some (r, s', tr')"
  shows "server_ok hv n_inv s'"
  using assms(2,3)
proof (induction bs arbitrary: s tr)
  case (Cons b bs)
  obtain a ws s1 where f: "feed_byte hv nops now_us (e_stalls e (tr_reads tr)) b (e_now e (tr_reads tr)) s = Some (a, ws, s1)"
    and ok: "server_ok hv n_inv s1"
    using feed_byte_ok [OF assms(1) Cons.prems(1)] unfolding byte_outcome_def by blast
  let ?s = "refresh_host_deadline floor s1"
  have ok2: "server_ok hv n_inv ?s" "server_ok hv n_inv (record_late_response ?s)"
    using deadline_ok(2) [OF ok] late_ok by blast+
  have ok3: "server_ok hv n_inv s3" if "server_take_snapshot_request ?s = (x, s3)" for x s3
    using snapshot_server_ok [OF ok2(1) that] .
  show ?case
    using Cons.prems(2) Cons.IH f ok ok2 ok3
    by (auto simp: read_clock_def Let_def split: if_splits prod.splits)
qed simp

lemma session_tick_ok:
  assumes "server_ok hv n_inv s" and "\<And>d. n_inv d \<Longrightarrow> n_inv (on_tick d)"
    and "session_tick nops now_us e on_tick s tr = (s', tr')"
  shows "server_ok hv n_inv s'"
proof -
  have "server_ok hv n_inv (with_driver on_tick s)"
    unfolding with_driver_def
    using assms(2) wrapper_okD(3) [OF server_okD(1) [OF assms(1)]]
    by (intro server_handler_ok [OF assms(1)] set_driver_kept [OF server_okD(1) [OF assms(1)]]) blast
  with assms(3) show ?thesis
    by (auto simp: session_tick_def read_clock_def dest: poll_if_due_ok split: prod.splits)
qed

lemma session_reads_ok:
  assumes "heapless_ok hv" and "server_ok hv n_inv s" and "\<And>d. n_inv d \<Longrightarrow> n_inv (on_tick d)"
    and "session_reads hv nops now_us e on_tick cfg rs st s tr = Some (r, st', s', tr')"
  shows "server_ok hv n_inv s'"
  using assms(2,4)
proof (induction rs arbitrary: st s tr)
  case (Cons x rs)
  obtain rd buf where x: "x = (rd, buf)" by fastforce
  have tick: "server_ok hv n_inv s2"
    if "server_ok hv n_inv s1" "session_tick nops now_us e on_tick s1 tr1 = (s2, tr2)" for s1 tr1 s2 tr2
    by (rule session_tick_ok [OF that(1) assms(3) that(2)])
  have burst: "server_ok hv n_inv s1" if "tcp_bytes hv nops now_us e fl bs s tr1 = Some (b, s1, tr2)" for fl bs tr1 b s1 tr2
    by (rule tcp_bytes_ok [OF assms(1) Cons.prems(1) that])
  show ?case
  proof (cases rd)
    case (ReadOk n)
    with Cons.prems x show ?thesis
      by (auto simp: Let_def read_clock_def split: if_splits prod.splits bind_splits
          intro: Cons.IH [OF tick [OF burst]])
  next
    case ReadTimedOut
    with Cons.prems x show ?thesis
      by (auto simp: Let_def read_clock_def split: if_splits prod.splits
          intro: Cons.IH [OF tick [OF Cons.prems(1)]])
  qed (use Cons.prems x in auto)
qed simp

end

end
