(* ===== verification/Spp_Server.thy ===== *)
theory Spp_Server
  imports Serial_Server_Props Ota_Validity
begin

text \<open>
  The Bluetooth serial carrier (\<open>crates/ccid-service/src/spp_server.rs\<close>): the bounded ring that hands
  received bytes from the radio callback to the serving task, the connection state with its single
  slot for parked output, and the pump that feeds batches to the serving core and collects what
  goes back into one packet.  Clock and update gate are those of theory \<open>Ota_Validity\<close>.
\<close>

section \<open>The receive ring\<close>

abbreviation (input) SPP_RX_RING_ENTRIES :: nat where "SPP_RX_RING_ENTRIES \<equiv> 512"
abbreviation (input) SPP_TX_BUF_SIZE :: nat where "SPP_TX_BUF_SIZE \<equiv> 1024"

record rx_byte =
  rx_byte :: u8
  rx_tick :: u32

record spp_rx_ring =
  ring_entries :: "rx_byte list"
  ring_head :: nat
  ring_count :: nat
  ring_overflow :: bool
  ring_dropped :: u32

definition ring_new :: spp_rx_ring where
  "ring_new = \<lparr>ring_entries = replicate SPP_RX_RING_ENTRIES \<lparr>rx_byte = 0, rx_tick = 0\<rparr>, ring_head = 0,
               ring_count = 0, ring_overflow = False, ring_dropped = 0\<rparr>"

fun ring_store :: "bytes \<Rightarrow> u32 \<Rightarrow> spp_rx_ring \<Rightarrow> spp_rx_ring" where
  "ring_store [] tick r = r"
| "ring_store (b # bs) tick r =
     ring_store bs tick
       (r\<lparr>ring_entries := (ring_entries r)[ring_head r := \<lparr>rx_byte = b, rx_tick = tick\<rparr>],
          ring_head := (ring_head r + 1) mod SPP_RX_RING_ENTRIES,
          ring_count := ring_count r + 1\<rparr>)"

definition ring_push :: "bytes \<Rightarrow> u32 \<Rightarrow> spp_rx_ring \<Rightarrow> spp_rx_ring" where
  "ring_push bs tick r =
     (if SPP_RX_RING_ENTRIES - ring_count r < length bs
      then r\<lparr>ring_overflow := True,
             ring_dropped := saturating_add32 (ring_dropped r) (word_of_nat (length bs))\<rparr>
      else ring_store bs tick r)"

text \<open>The loop of \<open>pop_batch\<close>: the count of entries already copied, the output buffer and the ring.\<close>

function ring_pop_loop :: "nat \<Rightarrow> rx_byte list \<Rightarrow> spp_rx_ring \<Rightarrow> nat \<times> rx_byte list \<times> spp_rx_ring" where
  "ring_pop_loop n out r =
     (if n < length out \<and> 0 < ring_count r then
        let tail = (ring_head r + SPP_RX_RING_ENTRIES - ring_count r) mod SPP_RX_RING_ENTRIES
        in ring_pop_loop (n + 1) (out[n := ring_entries r ! tail]) (r\<lparr>ring_count := ring_count r - 1\<rparr>)
      else (n, out, r))"
  by pat_completeness auto
termination by (relation "measure (\<lambda>(n, out, r). length out - n)") auto

declare ring_pop_loop.simps [simp del]

definition ring_pop_batch :: "rx_byte list \<Rightarrow> spp_rx_ring \<Rightarrow> nat \<times> rx_byte list \<times> spp_rx_ring" where
  "ring_pop_batch out r = ring_pop_loop 0 out r"

definition ring_clear :: "spp_rx_ring \<Rightarrow> spp_rx_ring" where
  "ring_clear r = r\<lparr>ring_head := 0, ring_count := 0, ring_overflow := False\<rparr>"

definition ring_take_overflow :: "spp_rx_ring \<Rightarrow> bool \<times> spp_rx_ring" where
  "ring_take_overflow r = (ring_overflow r, r\<lparr>ring_overflow := False\<rparr>)"

section \<open>The connection\<close>

record spp_link =
  ln_handle :: "u32 option"
  ln_congested :: bool
  ln_last_rx_tick :: u32
  ln_pending :: bytes
  ln_pending_len :: nat
  ln_pending_deadline :: "u32 option"
  ln_pending_snapshot :: bool
  ln_dropped_tx :: u32

definition link_new :: "u32 \<Rightarrow> spp_link" where
  "link_new now_ticks =
     \<lparr>ln_handle = None, ln_congested = False, ln_last_rx_tick = now_ticks,
      ln_pending = replicate SPP_TX_BUF_SIZE 0, ln_pending_len = 0, ln_pending_deadline = None,
      ln_pending_snapshot = False, ln_dropped_tx = 0\<rparr>"

definition link_note_dropped_tx :: "nat \<Rightarrow> spp_link \<Rightarrow> spp_link" where
  "link_note_dropped_tx n l = l\<lparr>ln_dropped_tx := saturating_add32 (ln_dropped_tx l) (word_of_nat n)\<rparr>"

definition link_on_open :: "u32 \<Rightarrow> u32 \<Rightarrow> spp_link \<Rightarrow> spp_link" where
  "link_on_open handle now_ticks l =
     (let l = l\<lparr>ln_handle := Some handle, ln_congested := False\<rparr>;
          l = (if 0 < ln_pending_len l
               then l\<lparr>ln_dropped_tx := saturating_add32 (ln_dropped_tx l) (word_of_nat (ln_pending_len l))\<rparr> else l)
      in l\<lparr>ln_pending_len := 0, ln_pending_deadline := None, ln_pending_snapshot := False,
           ln_last_rx_tick := now_ticks\<rparr>)"

definition link_on_close :: "u32 \<Rightarrow> spp_link \<Rightarrow> spp_link" where
  "link_on_close now_ticks l =
     (let l = (if 0 < ln_pending_len l
               then l\<lparr>ln_dropped_tx := saturating_add32 (ln_dropped_tx l) (word_of_nat (ln_pending_len l))\<rparr> else l)
      in l\<lparr>ln_handle := None, ln_congested := False, ln_pending_len := 0, ln_pending_deadline := None,
           ln_pending_snapshot := False, ln_last_rx_tick := now_ticks\<rparr>)"

definition link_on_cong :: "bool \<Rightarrow> spp_link \<Rightarrow> spp_link" where
  "link_on_cong congested l = l\<lparr>ln_congested := congested\<rparr>"

definition link_on_rx :: "u32 \<Rightarrow> spp_link \<Rightarrow> spp_link" where
  "link_on_rx now_ticks l = l\<lparr>ln_last_rx_tick := now_ticks\<rparr>"

definition rx_idle_ms :: "u32 \<Rightarrow> spp_link \<Rightarrow> u32" where
  "rx_idle_ms now_ticks l = now_ticks - ln_last_rx_tick l"

definition link_park :: "bytes \<Rightarrow> u32 option \<Rightarrow> bool \<Rightarrow> spp_link \<Rightarrow> spp_link outcome" where
  "link_park bs deadline_tick snapshot l = do {
     let n = min (length bs) SPP_TX_BUF_SIZE;
     let l = (if 0 < ln_pending_len l
              then l\<lparr>ln_dropped_tx := saturating_add32 (ln_dropped_tx l) (word_of_nat (ln_pending_len l))\<rparr> else l);
     buf \<leftarrow> copy_at (ln_pending l) 0 (take n bs);
     let l = l\<lparr>ln_pending := buf, ln_pending_len := n, ln_pending_deadline := deadline_tick,
               ln_pending_snapshot := snapshot\<rparr>;
     Some (if SPP_TX_BUF_SIZE < length bs
           then l\<lparr>ln_dropped_tx := saturating_add32 (ln_dropped_tx l) (word_of_nat (length bs - n))\<rparr> else l)
   }"

definition link_pending :: "spp_link \<Rightarrow> bytes" where
  "link_pending l = take (ln_pending_len l) (ln_pending l)"

definition link_clear_pending :: "spp_link \<Rightarrow> spp_link" where
  "link_clear_pending l = l\<lparr>ln_pending_len := 0, ln_pending_deadline := None, ln_pending_snapshot := False\<rparr>"

definition link_take_pending_snapshot :: "spp_link \<Rightarrow> bool \<times> spp_link" where
  "link_take_pending_snapshot l = (ln_pending_snapshot l, l\<lparr>ln_pending_snapshot := False\<rparr>)"

definition pending_expired :: "u32 \<Rightarrow> spp_link \<Rightarrow> bool" where
  "pending_expired now_ticks l =
     (case (ln_pending_deadline l, 0 < ln_pending_len l) of
        (Some deadline, True) \<Rightarrow> let since = now_ticks - deadline in since \<noteq> 0 \<and> since < 0x80000000
      | _ \<Rightarrow> False)"

datatype deliver = Write | Park | Drop

definition delivery_plan :: "spp_link \<Rightarrow> deliver" where
  "delivery_plan l =
     (if ln_handle l = None then Drop
      else if ln_congested l \<or> 0 < ln_pending_len l then Park
      else Write)"

section \<open>The pump\<close>

record pump_outcome =
  po_responded :: u32
  po_naks :: u32
  po_late_dropped :: u32

definition pump_outcome_default :: pump_outcome where
  "pump_outcome_default = \<lparr>po_responded = 0, po_naks = 0, po_late_dropped = 0\<rparr>"

definition outcome_any :: "pump_outcome \<Rightarrow> bool" where
  "outcome_any p \<longleftrightarrow> po_responded p \<noteq> 0 \<or> po_naks p \<noteq> 0"

definition outcome_merge :: "pump_outcome \<Rightarrow> pump_outcome \<Rightarrow> pump_outcome" where
  "outcome_merge p q =
     \<lparr>po_responded = po_responded p + po_responded q, po_naks = po_naks p + po_naks q,
      po_late_dropped = po_late_dropped p + po_late_dropped q\<rparr>"

record 'd spp_pump =
  pm_server :: "'d serial_server"
  pm_tx :: bytes
  pm_tx_len :: nat
  pm_tx_deadline :: "u32 option"
  pm_respond_stamp_us :: "int option"
  pm_dropped_responses :: u32

definition pump_new ::
    "'d ccid_handler \<Rightarrow> u32 \<Rightarrow> response_windows \<Rightarrow> u32 \<Rightarrow> time_extension \<Rightarrow> 'd spp_pump" where
  "pump_new handler poll_interval_ticks windows now_ticks ext =
     \<lparr>pm_server = server_with_config handler poll_interval_ticks windows now_ticks
                    \<lparr>nak_on_error = True, notify_slot_change = True, inline_poll = False\<rparr> ext,
      pm_tx = replicate SPP_TX_BUF_SIZE 0, pm_tx_len = 0, pm_tx_deadline = None,
      pm_respond_stamp_us = None, pm_dropped_responses = 0\<rparr>"

definition append_slice :: "bytes \<Rightarrow> 'd spp_pump \<Rightarrow> (bool \<times> 'd spp_pump) outcome" where
  "append_slice bs pm =
     (if length (pm_tx pm) < pm_tx_len pm + length bs then Some (False, pm)
      else do {
        tx \<leftarrow> copy_at (pm_tx pm) (pm_tx_len pm) bs;
        Some (True, pm\<lparr>pm_tx := tx, pm_tx_len := pm_tx_len pm + length bs\<rparr>)
      })"

text \<open>Consecutive appends, each only after the one before succeeded.\<close>

fun append_slices :: "bytes list \<Rightarrow> 'd spp_pump \<Rightarrow> (bool \<times> 'd spp_pump) outcome" where
  "append_slices [] pm = Some (True, pm)"
| "append_slices (bs # bss) pm = do {
     (ok, pm) \<leftarrow> append_slice bs pm;
     if ok then append_slices bss pm else Some (False, pm)
   }"

definition pump_tx :: "'d spp_pump \<Rightarrow> bytes" where
  "pump_tx pm = take (pm_tx_len pm) (pm_tx pm)"

definition pump_tx_clear :: "'d spp_pump \<Rightarrow> 'd spp_pump" where
  "pump_tx_clear pm = pm\<lparr>pm_tx_len := 0, pm_tx_deadline := None\<rparr>"

text \<open>The Respond arm of \<open>pump_rx\<close>: the three parts go into the packet together or not at all.\<close>

definition pump_respond ::
    "('d \<Rightarrow> int) \<Rightarrow> serve_env \<Rightarrow> pump_outcome \<Rightarrow> 'd spp_pump \<Rightarrow> 'm serve_trace
       \<Rightarrow> (pump_outcome \<times> 'd spp_pump \<times> 'm serve_trace) outcome" where
  "pump_respond now_us e out pm tr =
     (let (now, tr) = read_clock e tr in
      if response_expired now (pm_server pm)
      then Some (out\<lparr>po_late_dropped := po_late_dropped out + 1\<rparr>,
                 pm\<lparr>pm_server := record_late_response (pm_server pm)\<rparr>, tr)
      else do {
        let start = pm_tx_len pm;
        (ok, pm) \<leftarrow> append_slices [server_echo (pm_server pm), server_notify (pm_server pm),
                                    server_response (pm_server pm)] pm;
        if ok then
          Some (out\<lparr>po_responded := po_responded out + 1\<rparr>,
                pm\<lparr>pm_tx_deadline := (case pm_tx_deadline pm of
                                         Some d \<Rightarrow> Some d
                                       | None \<Rightarrow> Some (response_deadline_tick (pm_server pm))),
                   pm_respond_stamp_us := Some (now_us (ch_driver (ss_handler (pm_server pm))))\<rparr>,
                note_serve_evidence tr)
        else
          let pm = pm\<lparr>pm_tx_len := start\<rparr>;
              pm = (if pm_tx_len pm = 0 then pm\<lparr>pm_tx_deadline := None\<rparr> else pm)
          in Some (out, pm\<lparr>pm_dropped_responses := pm_dropped_responses pm + 1\<rparr>, tr)
      })"

definition pump_nak :: "pump_outcome \<Rightarrow> 'd spp_pump \<Rightarrow> (pump_outcome \<times> 'd spp_pump) outcome" where
  "pump_nak out pm = do {
     let start = pm_tx_len pm;
     (ok, pm) \<leftarrow> append_slice (ss_nak_buf (pm_server pm)) pm;
     Some (if ok then (out\<lparr>po_naks := po_naks out + 1\<rparr>, pm)
           else (out, pm\<lparr>pm_tx_len := start, pm_dropped_responses := pm_dropped_responses pm + 1\<rparr>))
   }"

text \<open>One iteration of the loop of \<open>pump_rx\<close>, and the loop.\<close>

definition pump_entry ::
    "heapless \<Rightarrow> ('d, 'e) nfc_ops \<Rightarrow> ('d \<Rightarrow> int) \<Rightarrow> serve_env \<Rightarrow> rx_byte \<Rightarrow> pump_outcome \<Rightarrow> 'd spp_pump
       \<Rightarrow> 'm serve_trace \<Rightarrow> (pump_outcome \<times> 'd spp_pump \<times> 'm serve_trace) outcome" where
  "pump_entry hv nops now_us e x out pm tr = do {
     (action, hooked, s) \<leftarrow>
       feed_byte hv nops now_us (e_stalls e (tr_reads tr)) (rx_byte x) (rx_tick x) (pm_server pm);
     let pm = pm\<lparr>pm_server := s\<rparr>;
     let tr = tr\<lparr>tr_writes := tr_writes tr @ hooked\<rparr>;
     (case action of
        Respond \<Rightarrow> pump_respond now_us e out pm tr
      | Nak \<Rightarrow> do { (out, pm) \<leftarrow> pump_nak out pm; Some (out, pm, tr) }
      | NoAction \<Rightarrow> Some (out, pm, tr))
   }"

fun pump_entries ::
    "heapless \<Rightarrow> ('d, 'e) nfc_ops \<Rightarrow> ('d \<Rightarrow> int) \<Rightarrow> serve_env \<Rightarrow> rx_byte list \<Rightarrow> pump_outcome \<Rightarrow> 'd spp_pump
       \<Rightarrow> 'm serve_trace \<Rightarrow> (pump_outcome \<times> 'd spp_pump \<times> 'm serve_trace) outcome" where
  "pump_entries hv nops now_us e [] out pm tr = Some (out, pm, tr)"
| "pump_entries hv nops now_us e (x # xs) out pm tr = do {
     (out, pm, tr) \<leftarrow> pump_entry hv nops now_us e x out pm tr;
     pump_entries hv nops now_us e xs out pm tr
   }"

definition pump_rx ::
    "heapless \<Rightarrow> ('d, 'e) nfc_ops \<Rightarrow> ('d \<Rightarrow> int) \<Rightarrow> serve_env \<Rightarrow> rx_byte list \<Rightarrow> 'd spp_pump
       \<Rightarrow> 'm serve_trace \<Rightarrow> (pump_outcome \<times> 'd spp_pump \<times> 'm serve_trace) outcome" where
  "pump_rx hv nops now_us e entries pm tr = pump_entries hv nops now_us e entries pump_outcome_default pm tr"

definition pump_record_turnaround :: "('d \<Rightarrow> int) \<Rightarrow> 'd spp_pump \<Rightarrow> 'd spp_pump" where
  "pump_record_turnaround now_us pm =
     (case pm_respond_stamp_us pm of
        None \<Rightarrow> pm
      | Some stamp \<Rightarrow>
          let s = pm_server pm;
              us = word_of_int (max 0 (min (2 ^ 32 - 1) (now_us (ch_driver (ss_handler s)) - stamp)))
          in pm\<lparr>pm_respond_stamp_us := None,
                pm_server := s\<lparr>ss_handler := ch_record_turnaround_us us (ss_handler s)\<rparr>\<rparr>)"

definition pump_idle ::
    "('d, 'e) nfc_ops \<Rightarrow> ('d \<Rightarrow> int) \<Rightarrow> u32 \<Rightarrow> 'd spp_pump \<Rightarrow> bool \<times> 'd spp_pump" where
  "pump_idle nops now_us now_ticks pm =
     (let (b, s) = on_read_idle nops now_us now_ticks (pm_server pm) in (b, pm\<lparr>pm_server := s\<rparr>))"

definition pump_poll_if_due ::
    "('d, 'e) nfc_ops \<Rightarrow> ('d \<Rightarrow> int) \<Rightarrow> u32 \<Rightarrow> 'd spp_pump \<Rightarrow> bool \<times> 'd spp_pump" where
  "pump_poll_if_due nops now_us now_ticks pm =
     (let (b, s) = poll_if_due nops now_us now_ticks (pm_server pm) in (b, pm\<lparr>pm_server := s\<rparr>))"

definition pump_poll_if_due_after_response ::
    "('d, 'e) nfc_ops \<Rightarrow> ('d \<Rightarrow> int) \<Rightarrow> u32 \<Rightarrow> 'd spp_pump \<Rightarrow> bool \<times> 'd spp_pump" where
  "pump_poll_if_due_after_response nops now_us now_ticks pm =
     (let (b, s) = poll_if_due_after_response nops now_us now_ticks (pm_server pm) in (b, pm\<lparr>pm_server := s\<rparr>))"

definition pump_take_snapshot_request :: "'d spp_pump \<Rightarrow> bool \<times> 'd spp_pump" where
  "pump_take_snapshot_request pm =
     (let (b, s) = server_take_snapshot_request (pm_server pm) in (b, pm\<lparr>pm_server := s\<rparr>))"

end
