(* ===== verification/Spp_Server_Props.thy ===== *)
theory Spp_Server_Props
  imports Spp_Server Cdc_Burst_Props
begin

text \<open>
  Properties of the Bluetooth carrier: the ring is a bounded queue that accepts a chunk whole or not
  at all, the connection accounts for every byte of output, the pump's result does not depend on how
  the ring is drained, and a packet never holds a part of an exchange.
\<close>

section \<open>A queue of chunks\<close>

text \<open>The abstract queue: chunks arrive and batches are taken in any order.  The results are the batches and what
  is left.\<close>

datatype 'c queue_step = Push 'c | Take nat

fun fifo :: "nat \<Rightarrow> ('c \<Rightarrow> 'x list) \<Rightarrow> 'c queue_step list \<Rightarrow> 'x list \<Rightarrow> 'x list list \<times> 'x list" where
  "fifo cap items [] xs = ([], xs)"
| "fifo cap items (Push c # steps) xs =
     fifo cap items steps (if length xs + length (items c) \<le> cap then xs @ items c else xs)"
| "fifo cap items (Take n # steps) xs =
     (let (xss, ys) = fifo cap items steps (drop n xs) in (take n xs # xss, ys))"

text \<open>What a serving loop relies on: a chunk is appended whole or refused whole, and taking a batch
  returns the oldest items in order.\<close>

locale chunk_queue =
  fixes ok :: "'q \<Rightarrow> bool" and content :: "'q \<Rightarrow> 'x list" and cap :: nat
    and items :: "'c \<Rightarrow> 'x list" and push :: "'c \<Rightarrow> 'q \<Rightarrow> 'q" and pop :: "nat \<Rightarrow> 'q \<Rightarrow> 'x list \<times> 'q"
  assumes bounded: "ok q \<Longrightarrow> length (content q) \<le> cap"
    and push_ok: "ok q \<Longrightarrow> ok (push c q)"
    and push_content: "ok q \<Longrightarrow> content (push c q) =
      (if length (content q) + length (items c) \<le> cap then content q @ items c else content q)"
    and pop_ok: "ok q \<Longrightarrow> ok (snd (pop n q))"
    and pop_content: "ok q \<Longrightarrow> fst (pop n q) = take n (content q) \<and> content (snd (pop n q)) = drop n (content q)"
begin

fun run :: "'c queue_step list \<Rightarrow> 'q \<Rightarrow> 'x list list \<times> 'q" where
  "run [] q = ([], q)"
| "run (Push c # steps) q = run steps (push c q)"
| "run (Take n # steps) q = (let (xs, q) = pop n q; (xss, q) = run steps q in (xs # xss, q))"

lemma run_refines:
  assumes "ok q" and "run steps q = (xss, q')"
  shows "ok q' \<and> fifo cap items steps (content q) = (xss, content q')"
  using assms
proof (induction steps arbitrary: q xss)
  case (Cons s steps)
  show ?case
  proof (cases s)
    case (Push c)
    with Cons.IH [OF push_ok [OF Cons.prems(1)], of c] Cons.prems push_content [OF Cons.prems(1), of c]
    show ?thesis by simp
  next
    case (Take n)
    obtain xs q1 where 1: "pop n q = (xs, q1)" by fastforce
    obtain yss where 2: "run steps q1 = (yss, q')" "xss = xs # yss"
      using Cons.prems(2) Take 1 by (auto split: prod.splits)
    have q1: "ok q1" "xs = take n (content q)" "content q1 = drop n (content q)"
      using pop_ok [OF Cons.prems(1), of n] pop_content [OF Cons.prems(1), of n] 1 by simp_all
    with Cons.IH [OF q1(1) 2(1)] Take 2(2) show ?thesis by simp
  qed
qed simp

end

definition ring_ok :: "spp_rx_ring \<Rightarrow> bool" where
  "ring_ok r \<longleftrightarrow> length (ring_entries r) = SPP_RX_RING_ENTRIES \<and> ring_head r < SPP_RX_RING_ENTRIES \<and>
                ring_count r \<le> SPP_RX_RING_ENTRIES"

definition ring_content :: "spp_rx_ring \<Rightarrow> rx_byte list" where
  "ring_content r =
     map (\<lambda>i. ring_entries r ! ((ring_head r + SPP_RX_RING_ENTRIES - ring_count r + i) mod SPP_RX_RING_ENTRIES))
       [0..<ring_count r]"

lemma length_ring_content [simp]: "length (ring_content r) = ring_count r"
  by (simp add: ring_content_def)

lemma ring_new_ok: "ring_ok ring_new" "ring_content ring_new = []"
  by (simp_all add: ring_ok_def ring_new_def ring_content_def)

lemma ring_slot_distinct:
  assumes "h < (512 :: nat)" and "c < 512" and "i < c"
  shows "(h + 512 - c + i) mod 512 \<noteq> h"
proof (cases "h + 512 - c + i < 512")
  case True
  with assms show ?thesis by simp
next
  case False
  then have "(h + 512 - c + i) mod 512 = h + 512 - c + i - 512" using assms by (simp add: mod_if)
  with assms False show ?thesis by linarith
qed

lemma ring_slot_shift:
  assumes "c < (512 :: nat)"
  shows "((h + 1) mod 512 + 512 - (c + 1) + i) mod 512 = (h + 512 - c + i) mod 512"
proof -
  have "((h + 1) mod 512 + 512 - (c + 1) + i) mod 512 = ((h + 1) mod 512 + (511 - c + i)) mod 512"
    using assms by (simp add: ac_simps)
  also have "\<dots> = (h + 1 + (511 - c + i)) mod 512" by (simp add: mod_add_left_eq)
  also have "h + 1 + (511 - c + i) = h + 512 - c + i" using assms by linarith
  finally show ?thesis .
qed

lemma ring_store_one:
  assumes "ring_ok r" and "ring_count r < 512"
    and "r' = r\<lparr>ring_entries := (ring_entries r)[ring_head r := x], ring_head := (ring_head r + 1) mod 512,
               ring_count := ring_count r + 1\<rparr>"
  shows "ring_ok r' \<and> ring_content r' = ring_content r @ [x]"
proof -
  let ?h = "ring_head r" and ?c = "ring_count r"
  have r: "length (ring_entries r) = 512" "?h < 512" using assms(1) by (simp_all add: ring_ok_def)
  have "ring_content r' = map (\<lambda>i. (ring_entries r)[?h := x] ! ((?h + 512 - ?c + i) mod 512)) [0..<?c + 1]"
    using assms(2,3) ring_slot_shift [OF assms(2)] by (simp add: ring_content_def del: upt_Suc)
  also have "\<dots> = map (\<lambda>i. (ring_entries r)[?h := x] ! ((?h + 512 - ?c + i) mod 512)) [0..<?c]
      @ [(ring_entries r)[?h := x] ! ((?h + 512) mod 512)]"
    using assms(2) by simp
  also have "\<dots> = ring_content r @ [x]"
  proof -
    have "(ring_entries r)[?h := x] ! ((?h + 512 - ?c + i) mod 512) = ring_entries r ! ((?h + 512 - ?c + i) mod 512)"
      if "i < ?c" for i
      using ring_slot_distinct [OF r(2) assms(2) that] by (simp only: nth_list_update_neq not_False_eq_True)
    then have "map (\<lambda>i. (ring_entries r)[?h := x] ! ((?h + 512 - ?c + i) mod 512)) [0..<?c] = ring_content r"
      unfolding ring_content_def by (intro map_cong) simp_all
    with r show ?thesis by simp
  qed
  finally show ?thesis using assms r by (simp add: ring_ok_def)
qed

lemma ring_store_content:
  assumes "ring_ok r" and "ring_count r + length bs \<le> 512"
  shows "ring_ok (ring_store bs tick r) \<and>
    ring_content (ring_store bs tick r) = ring_content r @ map (\<lambda>b. \<lparr>rx_byte = b, rx_tick = tick\<rparr>) bs"
  using assms
proof (induction bs arbitrary: r)
  case (Cons b bs)
  let ?r = "r\<lparr>ring_entries := (ring_entries r)[ring_head r := \<lparr>rx_byte = b, rx_tick = tick\<rparr>],
              ring_head := (ring_head r + 1) mod 512, ring_count := ring_count r + 1\<rparr>"
  have "ring_ok ?r \<and> ring_content ?r = ring_content r @ [\<lparr>rx_byte = b, rx_tick = tick\<rparr>]"
    using ring_store_one [OF Cons.prems(1) _ refl] Cons.prems(2) by simp
  with Cons.IH [of ?r] Cons.prems(2) show ?case by simp
qed simp

lemma ring_pop_one:
  assumes "ring_ok r" and "0 < ring_count r" and "r' = r\<lparr>ring_count := ring_count r - 1\<rparr>"
  shows "ring_ok r' \<and> ring_content r = ring_entries r ! ((ring_head r + 512 - ring_count r) mod 512) # ring_content r'"
proof -
  let ?h = "ring_head r" and ?c = "ring_count r"
  obtain m where m: "?c = Suc m" using assms(2) by (cases ?c) auto
  have c: "?c \<le> 512" using assms(1) by (simp add: ring_ok_def)
  have "ring_content r = map (\<lambda>i. ring_entries r ! ((?h + 512 - ?c + i) mod 512)) (0 # map Suc [0..<m])"
    unfolding ring_content_def m by (simp add: upt_conv_Cons map_Suc_upt del: upt_Suc)
  also have "\<dots> = ring_entries r ! ((?h + 512 - ?c) mod 512) # ring_content r'"
  proof -
    have "?h + 512 - ?c + Suc i = ?h + 512 - m + i" for i using m c by linarith
    then have e: "(?h + 512 - ?c + Suc i) mod 512 = (?h + 512 - m + i) mod 512" for i by (simp only:)
    show ?thesis
      unfolding list.map map_map comp_def e using m assms(3) by (simp add: ring_content_def)
  qed
  finally show ?thesis using assms by (auto simp: ring_ok_def)
qed

lemma ring_pop_loop_content:
  assumes "ring_ok r" and "n \<le> length out" and "k = min (length out - n) (ring_count r)"
  shows "\<exists>r'. ring_pop_loop n out r = (n + k, take n out @ take k (ring_content r) @ drop (n + k) out, r') \<and>
    ring_ok r' \<and> ring_content r' = drop k (ring_content r)"
  using assms
proof (induction n out r arbitrary: k rule: ring_pop_loop.induct)
  case (1 n out r)
  show ?case
  proof (cases "n < length out \<and> 0 < ring_count r")
    case True
    let ?x = "ring_entries r ! ((ring_head r + 512 - ring_count r) mod 512)"
      and ?r = "r\<lparr>ring_count := ring_count r - 1\<rparr>"
    have p: "ring_ok ?r" "ring_content r = ?x # ring_content ?r"
      using ring_pop_one [OF "1.prems"(1) _ refl] True by simp_all
    obtain j where k: "k = Suc j" "j = min (length out - (n + 1)) (ring_count ?r)"
      using "1.prems"(3) True by (cases k) auto
    from "1.IH" [OF True refl p(1) _, of j] k True obtain r' where
      "ring_pop_loop (n + 1) (out[n := ?x]) ?r =
         (n + 1 + j, take (n + 1) (out[n := ?x]) @ take j (ring_content ?r) @ drop (n + 1 + j) (out[n := ?x]), r')"
      "ring_ok r'" "ring_content r' = drop j (ring_content ?r)"
      by auto
    then show ?thesis
      using True p k by (subst ring_pop_loop.simps) (simp add: take_Suc_conv_app_nth)
  next
    case False
    then have "k = 0" using "1.prems"(2,3) by auto
    moreover have "ring_pop_loop n out r = (n, out, r)" using False by (subst ring_pop_loop.simps) auto
    ultimately show ?thesis using "1.prems"(1) by simp
  qed
qed

text \<open>The ring as a queue: a batch is taken into a buffer of the given size.\<close>

definition ring_take :: "nat \<Rightarrow> spp_rx_ring \<Rightarrow> rx_byte list \<times> spp_rx_ring" where
  "ring_take n r =
     (let (k, out, r) = ring_pop_batch (replicate n \<lparr>rx_byte = 0, rx_tick = 0\<rparr>) r in (take k out, r))"

lemma ring_take_content:
  assumes "ring_ok r"
  shows "ring_ok (snd (ring_take n r)) \<and> fst (ring_take n r) = take n (ring_content r) \<and>
    ring_content (snd (ring_take n r)) = drop n (ring_content r)"
proof -
  from ring_pop_loop_content [OF assms, of 0 "replicate n \<lparr>rx_byte = 0, rx_tick = 0\<rparr>"]
  obtain r' where "ring_pop_loop 0 (replicate n \<lparr>rx_byte = 0, rx_tick = 0\<rparr>) r =
      (min n (ring_count r), take (min n (ring_count r)) (ring_content r) @
        drop (min n (ring_count r)) (replicate n \<lparr>rx_byte = 0, rx_tick = 0\<rparr>), r')"
    "ring_ok r'" "ring_content r' = drop (min n (ring_count r)) (ring_content r)"
    by auto
  then show ?thesis by (auto simp: ring_take_def ring_pop_batch_def min_def)
qed

definition chunk_items :: "bytes \<times> u32 \<Rightarrow> rx_byte list" where
  "chunk_items c = (case c of (bs, tick) \<Rightarrow> map (\<lambda>b. \<lparr>rx_byte = b, rx_tick = tick\<rparr>) bs)"

definition ring_push_chunk :: "bytes \<times> u32 \<Rightarrow> spp_rx_ring \<Rightarrow> spp_rx_ring" where
  "ring_push_chunk c r = (case c of (bs, tick) \<Rightarrow> ring_push bs tick r)"

interpretation ring: chunk_queue ring_ok ring_content 512 chunk_items ring_push_chunk ring_take
proof
  fix r c n
  assume r: "ring_ok r"
  then show "length (ring_content r) \<le> 512" by (simp add: ring_ok_def)
  show "ring_ok (ring_push_chunk c r)"
    using r ring_store_content [OF r] by (auto simp: ring_push_chunk_def ring_push_def ring_ok_def split: prod.split)
  show "ring_content (ring_push_chunk c r) =
      (if length (ring_content r) + length (chunk_items c) \<le> 512 then ring_content r @ chunk_items c else ring_content r)"
    using r ring_store_content [OF r]
    by (auto simp: ring_push_chunk_def chunk_items_def ring_push_def ring_ok_def split: prod.split) (auto simp: ring_content_def)
  show "ring_ok (snd (ring_take n r))" "fst (ring_take n r) = take n (ring_content r) \<and>
      ring_content (snd (ring_take n r)) = drop n (ring_content r)"
    using ring_take_content [OF r] by auto
qed

section \<open>The pump\<close>

definition packet_ok :: "'d spp_pump \<Rightarrow> bool" where
  "packet_ok pm \<longleftrightarrow> length (pm_tx pm) = SPP_TX_BUF_SIZE \<and> pm_tx_len pm \<le> SPP_TX_BUF_SIZE"

definition pump_ok :: "heapless \<Rightarrow> ('d \<Rightarrow> bool) \<Rightarrow> 'd spp_pump \<Rightarrow> bool" where
  "pump_ok hv n_inv pm \<longleftrightarrow> server_ok hv n_inv (pm_server pm) \<and> packet_ok pm"

lemma length_pump_tx: "packet_ok pm \<Longrightarrow> length (pump_tx pm) = pm_tx_len pm"
  by (simp add: packet_ok_def pump_tx_def)

text \<open>What an append may change: the packet grows behind its old contents.\<close>

definition grown :: "'d spp_pump \<Rightarrow> 'd spp_pump \<Rightarrow> bool" where
  "grown pm pm' \<longleftrightarrow> packet_ok pm' \<and> pm_server pm' = pm_server pm \<and> pm_tx_deadline pm' = pm_tx_deadline pm \<and>
     pm_dropped_responses pm' = pm_dropped_responses pm \<and> pm_tx_len pm \<le> pm_tx_len pm' \<and>
     take (pm_tx_len pm) (pm_tx pm') = pump_tx pm"

lemma grown_trans: "grown a b \<Longrightarrow> grown b c \<Longrightarrow> grown a c"
proof -
  assume 1: "grown a b" and 2: "grown b c"
  from 2 have "take (pm_tx_len a) (take (pm_tx_len b) (pm_tx c)) = take (pm_tx_len a) (take (pm_tx_len b) (pm_tx b))"
    by (simp add: grown_def pump_tx_def)
  with 1 have "take (pm_tx_len a) (pm_tx c) = pump_tx a" by (simp add: grown_def min_absorb1)
  with 1 2 show "grown a c" by (simp add: grown_def)
qed

lemma append_slice_grows:
  assumes "packet_ok pm"
  shows "\<exists>pm'. append_slice bs pm = Some (length (pump_tx pm) + length bs \<le> SPP_TX_BUF_SIZE, pm') \<and> grown pm pm' \<and>
    (length (pump_tx pm) + length bs \<le> SPP_TX_BUF_SIZE \<longrightarrow> pump_tx pm' = pump_tx pm @ bs)"
  using assms by (auto simp: append_slice_def pump_tx_def copy_at_def packet_ok_def grown_def)

lemma append_slices_grow:
  assumes "packet_ok pm"
  shows "\<exists>pm'. append_slices bss pm = Some (length (pump_tx pm) + length (concat bss) \<le> SPP_TX_BUF_SIZE, pm') \<and>
    grown pm pm' \<and>
    (length (pump_tx pm) + length (concat bss) \<le> SPP_TX_BUF_SIZE \<longrightarrow> pump_tx pm' = pump_tx pm @ concat bss)"
  using assms
proof (induction bss arbitrary: pm)
  case Nil
  then show ?case by (simp add: grown_def length_pump_tx) (simp add: packet_ok_def pump_tx_def)
next
  case (Cons bs bss)
  obtain p1 where 1: "append_slice bs pm = Some (length (pump_tx pm) + length bs \<le> 1024, p1)" "grown pm p1"
    "length (pump_tx pm) + length bs \<le> 1024 \<Longrightarrow> pump_tx p1 = pump_tx pm @ bs"
    using append_slice_grows [OF Cons.prems] by blast
  show ?case
  proof (cases "length (pump_tx pm) + length bs \<le> 1024")
    case True
    have "packet_ok p1" using 1(2) by (simp add: grown_def)
    from Cons.IH [OF this] obtain p2 where
      "append_slices bss p1 = Some (length (pump_tx p1) + length (concat bss) \<le> 1024, p2)" "grown p1 p2"
      "length (pump_tx p1) + length (concat bss) \<le> 1024 \<longrightarrow> pump_tx p2 = pump_tx p1 @ concat bss"
      by blast
    with 1 True grown_trans [OF 1(2)] show ?thesis by auto
  next
    case False
    with 1(1,2) show ?thesis by auto
  qed
qed

text \<open>The three parts of an exchange.\<close>

definition exchange_bytes :: "'d serial_server \<Rightarrow> bytes" where
  "exchange_bytes s = server_echo s @ server_notify s @ server_response s"

lemma pump_respond_ok:
  assumes "pump_ok hv n_inv pm"
  shows "\<exists>out' pm' tr'. pump_respond now_us e out pm tr = Some (out', pm', tr') \<and> pump_ok hv n_inv pm' \<and>
    (if response_expired (e_now e (tr_reads tr)) (pm_server pm)
     then out' = out\<lparr>po_late_dropped := po_late_dropped out + 1\<rparr> \<and> pump_tx pm' = pump_tx pm
     else if length (pump_tx pm) + length (exchange_bytes (pm_server pm)) \<le> SPP_TX_BUF_SIZE
     then out' = out\<lparr>po_responded := po_responded out + 1\<rparr> \<and>
       pump_tx pm' = pump_tx pm @ exchange_bytes (pm_server pm)
     else out' = out \<and> pump_tx pm' = pump_tx pm)"
proof (cases "response_expired (e_now e (tr_reads tr)) (pm_server pm)")
  case True
  with assms show ?thesis
    by (auto simp: pump_respond_def read_clock_def pump_ok_def packet_ok_def pump_tx_def late_ok)
next
  case False
  let ?s = "pm_server pm"
  have pk: "packet_ok pm" using assms by (simp add: pump_ok_def)
  from append_slices_grow [OF pk, of "[server_echo ?s, server_notify ?s, server_response ?s]"] obtain p where
    p: "append_slices [server_echo ?s, server_notify ?s, server_response ?s] pm =
        Some (length (pump_tx pm) + length (exchange_bytes ?s) \<le> 1024, p)" "grown pm p"
      "length (pump_tx pm) + length (exchange_bytes ?s) \<le> 1024 \<longrightarrow> pump_tx p = pump_tx pm @ exchange_bytes ?s"
    by (auto simp: exchange_bytes_def)
  have rolled: "pump_ok hv n_inv (p\<lparr>pm_tx_len := pm_tx_len pm, pm_tx_deadline := d, pm_dropped_responses := q\<rparr>)"
    "pump_tx (p\<lparr>pm_tx_len := pm_tx_len pm, pm_tx_deadline := d, pm_dropped_responses := q\<rparr>) = pump_tx pm"
    "pump_ok hv n_inv (p\<lparr>pm_tx_len := pm_tx_len pm, pm_dropped_responses := q\<rparr>)"
    "pump_tx (p\<lparr>pm_tx_len := pm_tx_len pm, pm_dropped_responses := q\<rparr>) = pump_tx pm" for d q
    using p(2) pk assms by (simp_all add: pump_ok_def packet_ok_def grown_def pump_tx_def)
  have fwd: "pump_ok hv n_inv (p\<lparr>pm_tx_deadline := d, pm_respond_stamp_us := u\<rparr>)"
    "pump_tx (p\<lparr>pm_tx_deadline := d, pm_respond_stamp_us := u\<rparr>) = pump_tx p" for d u
    using p(2) assms by (simp_all add: pump_ok_def packet_ok_def grown_def pump_tx_def)
  show ?thesis
    using False p(1,3) rolled fwd
    by (auto simp: pump_respond_def read_clock_def Let_def simp del: append_slices.simps)
qed

lemma pump_nak_ok:
  assumes "pump_ok hv n_inv pm" and "ss_nak_buf (pm_server pm) = nak"
  shows "\<exists>out' pm'. pump_nak out pm = Some (out', pm') \<and> pump_ok hv n_inv pm' \<and>
    (pump_tx pm' = pump_tx pm @ nak \<or> pump_tx pm' = pump_tx pm)"
proof -
  have pk: "packet_ok pm" using assms by (simp add: pump_ok_def)
  from append_slice_grows [OF pk, of nak] obtain p where
    p: "append_slice nak pm = Some (length (pump_tx pm) + length nak \<le> 1024, p)" "grown pm p"
      "length (pump_tx pm) + length nak \<le> 1024 \<longrightarrow> pump_tx p = pump_tx pm @ nak"
    by blast
  have "pump_ok hv n_inv (p\<lparr>pm_tx_len := pm_tx_len pm, pm_dropped_responses := q\<rparr>)"
    "pump_tx (p\<lparr>pm_tx_len := pm_tx_len pm, pm_dropped_responses := q\<rparr>) = pump_tx pm" "pump_ok hv n_inv p" for q
    using p(2) pk assms by (simp_all add: pump_ok_def packet_ok_def grown_def pump_tx_def)
  with p assms(2) show ?thesis by (auto simp: pump_nak_def)
qed

text \<open>A group of output bytes that is never split: a NAK, or an exchange with its echo (absent when the
  time-extension hook has already written it), its notification and its framed answer.\<close>

definition whole_group :: "bytes \<Rightarrow> bool" where
  "whole_group g \<longleftrightarrow> g = [SYNC, CTRL_NAK, 0x16] \<or>
     (\<exists>ech note m. g = ech @ note @ frame_bytes m \<and> length note \<le> 2 \<and>
        (ech = [] \<or> (\<exists>c. wf_command c \<and> ech = frame_bytes c)))"

lemma served_whole:
  assumes "wf_command c" and "served hv nops now_us n_inv stalls c t s0 writes s"
  shows "whole_group (exchange_bytes s)"
proof -
  obtain m where m: "server_response s = frame_bytes m" using assms(2) by (auto simp: served_def Let_def)
  have "server_echo s = [] \<or> server_echo s = frame_bytes c" using assms(2) by (simp add: served_def Let_def)
  moreover have "length (server_notify s) \<le> 2"
    using assms(2) by (simp add: served_def Let_def change_bytes_def split: option.split)
  ultimately show ?thesis
    using m assms(1) unfolding whole_group_def exchange_bytes_def by metis
qed

lemma one_group:
  assumes "t' = t \<or> t' = t @ g" and "whole_group g"
  shows "\<exists>gs. t' = t @ concat gs \<and> list_all whole_group gs"
  using assms by (auto intro: exI [of _ "[]"] exI [of _ "[g]"])

context nfc_frontend
begin

lemma pump_entry_whole:
  assumes "heapless_ok hv" and "pump_ok hv n_inv pm"
  shows "\<exists>out' pm' tr' gs. pump_entry hv nops now_us e x out pm tr = Some (out', pm', tr') \<and>
    pump_ok hv n_inv pm' \<and> pump_tx pm' = pump_tx pm @ concat gs \<and> list_all whole_group gs"
proof -
  let ?st = "e_stalls e (tr_reads tr)"
  obtain a ws s where f: "feed_byte hv nops now_us ?st (rx_byte x) (rx_tick x) (pm_server pm) = Some (a, ws, s)"
    and b: "byte_outcome hv nops now_us n_inv ?st (rx_byte x) (rx_tick x) (pm_server pm) a ws s"
    using feed_byte_ok [OF assms(1)] assms(2) unfolding pump_ok_def by metis
  let ?pm = "pm\<lparr>pm_server := s\<rparr>" and ?tr = "tr\<lparr>tr_writes := tr_writes tr @ ws\<rparr>"
  have ok: "pump_ok hv n_inv ?pm" "pump_tx ?pm = pump_tx pm"
    using b assms(2) by (simp_all add: byte_outcome_def pump_ok_def packet_ok_def pump_tx_def)
  show ?thesis
  proof (cases a)
    case Respond
    with b have "whole_group (exchange_bytes s)" by (auto simp: byte_outcome_def intro: served_whole)
    moreover obtain out' pm' tr' where r: "pump_respond now_us e out ?pm ?tr = Some (out', pm', tr')"
      "pump_ok hv n_inv pm'" "pump_tx pm' = pump_tx pm \<or> pump_tx pm' = pump_tx pm @ exchange_bytes s"
      using pump_respond_ok [OF ok(1), of now_us e out ?tr] ok(2) by (auto split: if_splits)
    ultimately show ?thesis using one_group [OF r(3)] Respond f by (auto simp: pump_entry_def)
  next
    case Nak
    then have "ss_nak_buf (pm_server ?pm) = [SYNC, CTRL_NAK, 0x16]" using b by (simp add: byte_outcome_def)
    from pump_nak_ok [OF ok(1) this, of out] ok(2) obtain out' pm' where r: "pump_nak out ?pm = Some (out', pm')"
      "pump_ok hv n_inv pm'" "pump_tx pm' = pump_tx pm \<or> pump_tx pm' = pump_tx pm @ [SYNC, CTRL_NAK, 0x16]" by auto
    then show ?thesis using one_group [OF r(3)] Nak f by (auto simp: pump_entry_def whole_group_def)
  next
    case NoAction
    with f ok show ?thesis by (auto simp: pump_entry_def intro: exI [of _ "[]"])
  qed
qed

lemma pump_entries_whole:
  assumes "heapless_ok hv" and "pump_ok hv n_inv pm"
  shows "\<exists>out' pm' tr' gs. pump_entries hv nops now_us e xs out pm tr = Some (out', pm', tr') \<and>
    pump_ok hv n_inv pm' \<and> pump_tx pm' = pump_tx pm @ concat gs \<and> list_all whole_group gs"
  using assms(2)
proof (induction xs arbitrary: out pm tr)
  case Nil
  then show ?case by (auto intro: exI [of _ "[]"])
next
  case (Cons x xs)
  from pump_entry_whole [OF assms(1) Cons.prems] obtain out1 pm1 tr1 gs where
    1: "pump_entry hv nops now_us e x out pm tr = Some (out1, pm1, tr1)" "pump_ok hv n_inv pm1"
    "pump_tx pm1 = pump_tx pm @ concat gs" "list_all whole_group gs" by blast
  from Cons.IH [OF 1(2), of out1 tr1] obtain out2 pm2 tr2 gs2 where
    2: "pump_entries hv nops now_us e xs out1 pm1 tr1 = Some (out2, pm2, tr2)" "pump_ok hv n_inv pm2"
    "pump_tx pm2 = pump_tx pm1 @ concat gs2" "list_all whole_group gs2" by blast
  with 1 have "pump_tx pm2 = pump_tx pm @ concat (gs @ gs2)" "list_all whole_group (gs @ gs2)" by simp_all
  with 1(1) 2(1,2) show ?case by (auto simp del: concat_append)
qed

end

section \<open>Batches\<close>

lemma pump_entries_append:
  "pump_entries hv nops now_us e (xs @ ys) out pm tr = do {
     (out, pm, tr) \<leftarrow> pump_entries hv nops now_us e xs out pm tr;
     pump_entries hv nops now_us e ys out pm tr
   }"
  by (induction xs arbitrary: out pm tr) (auto split: bind_split)

definition shift_outcome ::
    "pump_outcome \<Rightarrow> (pump_outcome \<times> 'a) outcome \<Rightarrow> (pump_outcome \<times> 'a) outcome" where
  "shift_outcome p r = map_option (\<lambda>(out, x). (outcome_merge p out, x)) r"

lemma pump_respond_shift:
  "pump_respond now_us e (outcome_merge p out) pm tr = shift_outcome p (pump_respond now_us e out pm tr)"
  by (auto simp: pump_respond_def shift_outcome_def Let_def outcome_merge_def read_clock_def
      simp del: append_slices.simps split: prod.splits bind_splits option.split)

lemma pump_nak_shift:
  "pump_nak (outcome_merge p out) pm = shift_outcome p (pump_nak out pm)"
  by (auto simp: pump_nak_def shift_outcome_def outcome_merge_def split: bind_splits)

lemma pump_entry_shift:
  "pump_entry hv nops now_us e x (outcome_merge p out) pm tr =
     shift_outcome p (pump_entry hv nops now_us e x out pm tr)"
proof (cases "feed_byte hv nops now_us (e_stalls e (tr_reads tr)) (rx_byte x) (rx_tick x) (pm_server pm)")
  case None
  then show ?thesis by (simp add: pump_entry_def shift_outcome_def)
next
  case (Some r)
  obtain a ws s where r: "r = (a, ws, s)" using prod_cases3 by blast
  show ?thesis
    by (cases a; cases "pump_nak out (pm\<lparr>pm_server := s\<rparr>)")
      (auto simp: Some r pump_entry_def pump_respond_shift pump_nak_shift, auto simp: shift_outcome_def)
qed

lemma pump_entries_shift:
  "pump_entries hv nops now_us e xs (outcome_merge p out) pm tr =
     shift_outcome p (pump_entries hv nops now_us e xs out pm tr)"
proof (induction xs arbitrary: out pm tr)
  case (Cons x xs)
  show ?case
    by (cases "pump_entry hv nops now_us e x out pm tr")
      (auto simp: pump_entry_shift Cons.IH, auto simp: shift_outcome_def Cons.IH)
qed (simp add: shift_outcome_def)

lemma merge_default: "outcome_merge p pump_outcome_default = p"
  by (simp add: outcome_merge_def pump_outcome_default_def)

lemma pump_entries_default:
  "pump_entries hv nops now_us e xs out pm tr =
     shift_outcome out (pump_entries hv nops now_us e xs pump_outcome_default pm tr)"
  using pump_entries_shift [of hv nops now_us e xs out pump_outcome_default] by (simp add: merge_default)

text \<open>The serving task pumps one batch after the other and merges the outcomes.\<close>

fun pump_batches ::
    "heapless \<Rightarrow> ('d, 'e) nfc_ops \<Rightarrow> ('d \<Rightarrow> int) \<Rightarrow> serve_env \<Rightarrow> rx_byte list list \<Rightarrow> 'd spp_pump
       \<Rightarrow> 'm serve_trace \<Rightarrow> (pump_outcome \<times> 'd spp_pump \<times> 'm serve_trace) outcome" where
  "pump_batches hv nops now_us e [] pm tr = Some (pump_outcome_default, pm, tr)"
| "pump_batches hv nops now_us e (b # bs) pm tr = do {
     (out, pm, tr) \<leftarrow> pump_rx hv nops now_us e b pm tr;
     shift_outcome out (pump_batches hv nops now_us e bs pm tr)
   }"

lemma pump_batches_concat:
  "pump_batches hv nops now_us e bs pm tr = pump_rx hv nops now_us e (concat bs) pm tr"
proof (induction bs arbitrary: pm tr)
  case (Cons b bs)
  show ?case
    by (auto simp: Cons.IH pump_rx_def pump_entries_append pump_entries_default [symmetric]
        intro!: Option.bind_cong)
qed (simp add: pump_rx_def)

section \<open>Properties\<close>

text \<open>C33: The receive ring is a bounded queue, and how it is drained does not matter.  From any state of the
  ring, wherever its head stands, and for any interleaving of arriving chunks and taken batches, the
  batches and the bytes left are those of a queue of 512 entries that appends a chunk whole or refuses it
  whole; a refused chunk leaves the queued bytes as they were and raises the overflow flag.  Pumping the
  batches one by one has the effect, the output and the counts of pumping their bytes at once.\<close>

theorem spp_batching_irrelevant:
  assumes "ring_ok r" and "ring.run steps r = (batches, r')"
  shows "ring_ok r' \<and> fifo SPP_RX_RING_ENTRIES chunk_items steps (ring_content r) = (batches, ring_content r') \<and>
    (\<forall>bs t. SPP_RX_RING_ENTRIES < length (ring_content r) + length bs \<longrightarrow>
       ring_content (ring_push bs t r) = ring_content r \<and> ring_overflow (ring_push bs t r)) \<and>
    pump_batches hv nops now_us e batches pm tr = pump_rx hv nops now_us e (concat batches) pm tr"
proof -
  have "ring_content (ring_push bs t r) = ring_content r \<and> ring_overflow (ring_push bs t r)"
    if "512 < length (ring_content r) + length bs" for bs t
    using ring.push_content [OF assms(1), of "(bs, t)"] assms(1) that
    by (auto simp: ring_push_chunk_def chunk_items_def ring_push_def ring_ok_def)
  with ring.run_refines [OF assms] show ?thesis by (simp add: pump_batches_concat)
qed

text \<open>The Bluetooth carrier never emits part of an exchange.  Whatever entries are pumped, at
  whatever ticks and with whatever delays, the pump returns without a panic, its packet stays
  within its buffer, and what it appends to the packet is a sequence of whole groups: a NAK, or echo,
  notification and complete answer frame of one command; an answer that does not fit or is late
  leaves the packet as it was.\<close>

theorem spp_packet_whole:
  assumes "heapless_ok hv" and "nfc_frontend nops n_inv" and "srv_reach hv nops now_us n_inv (pm_server pm)"
    and "length (pm_tx pm) = SPP_TX_BUF_SIZE" and "pm_tx_len pm \<le> SPP_TX_BUF_SIZE"
  shows "\<exists>out pm' tr' groups. pump_rx hv nops now_us e xs pm tr = Some (out, pm', tr') \<and>
    pm_tx_len pm' \<le> SPP_TX_BUF_SIZE \<and> server_ok hv n_inv (pm_server pm') \<and>
    pump_tx pm' = pump_tx pm @ concat groups \<and> list_all whole_group groups"
proof -
  have "pump_ok hv n_inv pm"
    using srv_reach_ok [OF assms(1-3)] assms(4,5) by (simp add: pump_ok_def packet_ok_def)
  from nfc_frontend.pump_entries_whole [OF assms(2,1) this, of now_us e xs pump_outcome_default tr] show ?thesis
    by (auto simp: pump_rx_def pump_ok_def packet_ok_def)
qed

section \<open>Accounting of the output\<close>

text \<open>What happens to the connection: bytes are parked, the parked bytes leave (written, or found
  expired by the retry path), a client connects or disconnects, or bytes find no connection.\<close>

datatype link_event = Parked bytes "u32 option" bool | Taken | Opened u32 u32 | Closed u32 | Homeless nat

fun link_run :: "link_event list \<Rightarrow> spp_link \<Rightarrow> (nat \<times> spp_link) outcome" where
  "link_run [] l = Some (0, l)"
| "link_run (Parked bs d snap # evs) l = do { l \<leftarrow> link_park bs d snap l; link_run evs l }"
| "link_run (Taken # evs) l =
     map_option (\<lambda>(n, l'). (length (link_pending l) + n, l')) (link_run evs (link_clear_pending l))"
| "link_run (Opened h t # evs) l = link_run evs (link_on_open h t l)"
| "link_run (Closed t # evs) l = link_run evs (link_on_close t l)"
| "link_run (Homeless n # evs) l = link_run evs (link_note_dropped_tx n l)"

fun bytes_in :: "link_event list \<Rightarrow> nat" where
  "bytes_in [] = 0"
| "bytes_in (Parked bs d snap # evs) = length bs + bytes_in evs"
| "bytes_in (Homeless n # evs) = n + bytes_in evs"
| "bytes_in (_ # evs) = bytes_in evs"

definition link_ok :: "spp_link \<Rightarrow> bool" where
  "link_ok l \<longleftrightarrow> length (ln_pending l) = SPP_TX_BUF_SIZE \<and> ln_pending_len l \<le> SPP_TX_BUF_SIZE"

text \<open>Bytes the connection still answers for.\<close>

definition link_debt :: "spp_link \<Rightarrow> nat" where
  "link_debt l = ln_pending_len l + unat (ln_dropped_tx l)"

lemma saturating_exact:
  assumes "unat a + n < 2 ^ 32"
  shows "unat (saturating_add32 a (word_of_nat n)) = unat a + n"
proof -
  have "unat (word_of_nat n :: u32) = n" using assms by (simp add: unsigned_of_nat take_bit_nat_eq_self_iff)
  with assms show ?thesis by (simp add: saturating_add32_def unat_word_ariths)
qed

lemma link_events_account:
  assumes "link_ok l"
  shows "\<exists>l'. link_debt l + length bs < 2 ^ 32 \<longrightarrow>
      link_park bs d snap l = Some l' \<and> link_ok l' \<and> link_debt l' = link_debt l + length bs \<and>
      link_pending l' = take SPP_TX_BUF_SIZE bs"
    and "link_ok (link_clear_pending l)" "link_debt (link_clear_pending l) + length (link_pending l) = link_debt l"
    and "link_debt l < 2 ^ 32 \<Longrightarrow> link_ok (link_on_open h t l) \<and> link_debt (link_on_open h t l) = link_debt l"
    and "link_debt l < 2 ^ 32 \<Longrightarrow> link_ok (link_on_close t l) \<and> link_debt (link_on_close t l) = link_debt l"
    and "link_debt l + n < 2 ^ 32 \<Longrightarrow>
      link_ok (link_note_dropped_tx n l) \<and> link_debt (link_note_dropped_tx n l) = link_debt l + n"
  using assms
  by (auto simp: link_park_def link_clear_pending_def link_on_open_def link_on_close_def link_note_dropped_tx_def
      link_ok_def link_debt_def link_pending_def copy_at_def saturating_exact Let_def min_def
      simp del: of_nat_diff)

lemma link_run_account:
  assumes "link_ok l" and "link_debt l + bytes_in evs < 2 ^ 32"
  shows "\<exists>n l'. link_run evs l = Some (n, l') \<and> link_ok l' \<and> n + link_debt l' = link_debt l + bytes_in evs"
  using assms
proof (induction evs l rule: link_run.induct)
  case (2 bs d snap evs l)
  from link_events_account(1) [OF "2.prems"(1), of bs d snap] "2.prems"(2) obtain l' where
    "link_park bs d snap l = Some l'" "link_ok l'" "link_debt l' = link_debt l + length bs" by auto
  with "2.IH" [of l'] "2.prems"(2) show ?case by auto
next
  case (3 evs l)
  from link_events_account(2,3) [OF "3.prems"(1)] "3.IH" "3.prems"(2) show ?case by fastforce
next
  case (4 h t evs l)
  with link_events_account(4) [OF "4.prems"(1), of h t] show ?case by auto
next
  case (5 t evs l)
  with link_events_account(5) [OF "5.prems"(1), of t] show ?case by auto
next
  case (6 n evs l)
  with link_events_account(6) [OF "6.prems"(1), of n] show ?case by auto
qed simp

text \<open>No output byte of the Bluetooth carrier disappears unnoticed.  Over any sequence of parked
  packets, retries, connects, disconnects and undeliverable bytes, fewer than \<open>2^32\<close> in total, the
  connection never panics and the bytes handed to it are exactly those that left the slot, those
  still parked and those counted as dropped.\<close>

theorem spp_bytes_accounted:
  assumes "bytes_in evs < 2 ^ 32"
  shows "\<exists>n l. link_run evs (link_new t) = Some (n, l) \<and>
    bytes_in evs = n + length (link_pending l) + unat (ln_dropped_tx l) \<and> length (link_pending l) \<le> SPP_TX_BUF_SIZE"
proof -
  have "link_ok (link_new t)" "link_debt (link_new t) = 0" by (simp_all add: link_ok_def link_debt_def link_new_def)
  from link_run_account [OF this(1), of evs] this(2) assms obtain n l where
    "link_run evs (link_new t) = Some (n, l)" "link_ok l" "n + link_debt l = bytes_in evs" by auto
  then show ?thesis by (auto simp: link_ok_def link_debt_def link_pending_def)
qed

theorem spp_bytes_accounted_witness:
  "\<exists>n l. link_run [Opened 1 0, Parked [1, 2, 3] None False, Parked [4, 5] (Some 9) False, Closed 4, Homeless 7] (link_new 0)
     = Some (n, l) \<and> 12 = n + length (link_pending l) + unat (ln_dropped_tx l)"
  using spp_bytes_accounted
    [of "[Opened 1 0, Parked [1, 2, 3] None False, Parked [4, 5] (Some 9) False, Closed 4, Homeless 7]" 0] by auto

section \<open>A concrete pump\<close>

definition demo_pump :: "mock_nfc spp_pump" where
  "demo_pump = pump_new armed_reader 100 (from_tick_hz 100) 0 time_extension_new"

theorem spp_packet_whole_witness:
  "\<exists>out pm tr groups. pump_rx heapless_list mock_ops no_clock (demo_env 0) [\<lparr>rx_byte = 0x03, rx_tick = 1\<rparr>] demo_pump
      (trace_new :: unit serve_trace) = Some (out, pm, tr) \<and> pump_tx pm = concat groups \<and> list_all whole_group groups"
proof -
  have "srv_reach heapless_list mock_ops no_clock mock_ok (pm_server demo_pump)"
    unfolding demo_pump_def pump_new_def spp_pump.simps by (rule srv_reach.new [OF armed_reader_reach]) simp
  from spp_packet_whole [OF heapless_list_ok mock_probe.nfc_frontend_axioms this, of "demo_env 0"
      "[\<lparr>rx_byte = 0x03, rx_tick = 1\<rparr>]" "trace_new :: unit serve_trace"] show ?thesis
    by (auto simp: demo_pump_def pump_new_def pump_tx_def)
qed

text \<open>Three bytes across the end of the array, taken in two batches, the second while a byte arrives.\<close>

theorem spp_batching_irrelevant_witness:
  "\<exists>r'. ring.run [Push ([3, 6], 1), Push ([0x65], 2), Take 1, Push ([0], 3), Take 2] (ring_new\<lparr>ring_head := 511\<rparr>) =
     ([[\<lparr>rx_byte = 3, rx_tick = 1\<rparr>], [\<lparr>rx_byte = 6, rx_tick = 1\<rparr>, \<lparr>rx_byte = 0x65, rx_tick = 2\<rparr>]], r') \<and>
     ring_content r' = [\<lparr>rx_byte = 0, rx_tick = 3\<rparr>]"
proof -
  let ?steps = "[Push ([3, 6], 1), Push ([0x65], 2), Take 1, Push ([0], 3), Take 2] :: (bytes \<times> u32) queue_step list"
  let ?r = "ring_new\<lparr>ring_head := 511\<rparr>"
  obtain batches r' where d: "ring.run ?steps ?r = (batches, r')" by fastforce
  have "ring_ok ?r" "ring_content ?r = []" by (simp_all add: ring_ok_def ring_new_def ring_content_def)
  with spp_batching_irrelevant [OF _ d, of heapless_list mock_ops no_clock "demo_env 0" demo_pump "trace_new :: unit serve_trace"] d
  show ?thesis by (simp add: chunk_items_def del: ring.run.simps)
qed

end
