(* ===== verification/Vpcd.thy ===== *)
theory Vpcd
  imports Ccid_Handler_Props Ota_Validity
begin

text \<open>
  The virtual smart-card carrier (\<open>crates/ccid-service/src/vpcd.rs\<close>): length-prefixed messages over one
  TCP connection, one-byte control messages and APDUs, with a cached ATR.  The incoming stream is the
  sequence of what successive reads of the socket return; connecting, reconnecting and logging are
  input and output around it.
\<close>

section \<open>The absence gate\<close>

abbreviation (input) ABSENCE_LOG_EVERY :: u32 where "ABSENCE_LOG_EVERY \<equiv> 900"

datatype absence_note = Transition | Heartbeat u32

record absence_gate =
  ag_was_present :: bool
  ag_absent_polls :: u32

definition absence_gate_new :: absence_gate where
  "absence_gate_new = \<lparr>ag_was_present = True, ag_absent_polls = 0\<rparr>"

definition note_absent :: "absence_gate \<Rightarrow> absence_note option \<times> absence_gate" where
  "note_absent g =
     (let g = g\<lparr>ag_absent_polls := ag_absent_polls g + 1\<rparr> in
      if ag_was_present g then (Some Transition, g\<lparr>ag_was_present := False, ag_absent_polls := 1\<rparr>)
      else if ag_absent_polls g mod ABSENCE_LOG_EVERY = 0 then (Some (Heartbeat (ag_absent_polls g)), g)
      else (None, g))"

definition note_present :: "absence_gate \<Rightarrow> absence_gate" where
  "note_present g = g\<lparr>ag_was_present := True, ag_absent_polls := 0\<rparr>"

section \<open>Log lines\<close>

text \<open>The arguments the log lines are formatted from.\<close>

datatype request_line = CtrlLine u8 | ApduLine nat
datatype response_line = SwLine nat u8 u8 | LengthLine nat

definition request_log_line :: "bytes \<Rightarrow> request_line" where
  "request_log_line payload = (if length payload = 1 then CtrlLine (payload ! 0) else ApduLine (length payload))"

definition response_log_line :: "bytes \<Rightarrow> bool \<Rightarrow> response_line" where
  "response_log_line resp was_apdu =
     (let n = length resp in
      if was_apdu \<and> 2 \<le> n then SwLine n (resp ! (n - 2)) (resp ! (n - 1)) else LengthLine n)"

section \<open>One message\<close>

abbreviation (input) VPCD_CTRL_OFF :: u8 where "VPCD_CTRL_OFF \<equiv> 0x00"
abbreviation (input) VPCD_CTRL_ON :: u8 where "VPCD_CTRL_ON \<equiv> 0x01"
abbreviation (input) VPCD_CTRL_RESET :: u8 where "VPCD_CTRL_RESET \<equiv> 0x02"
abbreviation (input) VPCD_CTRL_ATR :: u8 where "VPCD_CTRL_ATR \<equiv> 0x04"

record 'd vpcd =
  vp_handler :: "'d ccid_handler"
  vp_rx_buf :: bytes
  vp_cached_atr :: bytes
  vp_gate :: absence_gate

abbreviation (input) vp_driver :: "'d vpcd \<Rightarrow> 'd" where
  "vp_driver v \<equiv> ch_driver (vp_handler v)"

definition vp_set_driver :: "'d \<Rightarrow> 'd vpcd \<Rightarrow> 'd vpcd" where
  "vp_set_driver d v = v\<lparr>vp_handler := ch_set_driver d (vp_handler v)\<rparr>"

text \<open>\<open>power_on\<close> into a local array of 64 bytes: the ATR, or nothing on failure.\<close>

definition vpcd_activate :: "('d, 'e) nfc_ops \<Rightarrow> 'd vpcd \<Rightarrow> (bytes option \<times> 'd vpcd) outcome" where
  "vpcd_activate nops v =
     (let (r, atr, d) = n_power_on nops (vp_driver v) (replicate 64 0); v = vp_set_driver d v in
      case r of
        Inr len \<Rightarrow> do { a \<leftarrow> slice atr 0 len; Some (Some a, v) }
      | Inl _ \<Rightarrow> Some (None, v))"

definition vpcd_atr :: "('d, 'e) nfc_ops \<Rightarrow> 'd vpcd \<Rightarrow> (bytes option \<times> 'd vpcd) outcome" where
  "vpcd_atr nops v =
     (let (pres, d) = n_is_card_present nops (vp_driver v); v = vp_set_driver d v in
      if pres \<and> n_session_active nops (vp_driver v) \<and> vp_cached_atr v \<noteq> [] then Some (Some (vp_cached_atr v), v)
      else if pres then do {
        (atr, v) \<leftarrow> vpcd_activate nops v;
        (case atr of
           Some a \<Rightarrow> Some (Some a, v\<lparr>vp_cached_atr := a, vp_gate := note_present (vp_gate v)\<rparr>)
         | None \<Rightarrow> Some (Some [], v))
      }
      else
        let (note, g) = note_absent (vp_gate v)
        in Some (Some [], v\<lparr>vp_gate := g, vp_cached_atr := []\<rparr>))"

definition vpcd_on :: "('d, 'e) nfc_ops \<Rightarrow> 'd vpcd \<Rightarrow> (bytes option \<times> 'd vpcd) outcome" where
  "vpcd_on nops v = do {
     (atr, v) \<leftarrow> vpcd_activate nops v;
     Some (None, v\<lparr>vp_cached_atr := (case atr of Some a \<Rightarrow> a | None \<Rightarrow> [])\<rparr>)
   }"

definition vpcd_off :: "('d, 'e) nfc_ops \<Rightarrow> 'd vpcd \<Rightarrow> (bytes option \<times> 'd vpcd) outcome" where
  "vpcd_off nops v =
     Some (None, (vp_set_driver (n_power_off nops (vp_driver v)) v)\<lparr>vp_cached_atr := []\<rparr>)"

definition vpcd_reset :: "('d, 'e) nfc_ops \<Rightarrow> 'd vpcd \<Rightarrow> (bytes option \<times> 'd vpcd) outcome" where
  "vpcd_reset nops v = do {
     let v = vp_set_driver (n_power_off nops (vp_driver v)) v;
     (atr, v) \<leftarrow> vpcd_activate nops v;
     Some (None, v\<lparr>vp_cached_atr := (case atr of Some a \<Rightarrow> a | None \<Rightarrow> [])\<rparr>)
   }"

definition vpcd_apdu :: "('d, 'e) nfc_ops \<Rightarrow> bytes \<Rightarrow> 'd vpcd \<Rightarrow> (bytes option \<times> 'd vpcd) outcome" where
  "vpcd_apdu nops payload v =
     (let (r, buf, d) = n_transmit_apdu nops (vp_driver v) payload (vp_rx_buf v);
          v = (vp_set_driver d v)\<lparr>vp_rx_buf := buf\<rparr>
      in case r of
           Inr len \<Rightarrow> do { resp \<leftarrow> slice (vp_rx_buf v) 0 len; Some (Some resp, v) }
         | Inl _ \<Rightarrow> Some (Some (if n_session_active nops (vp_driver v) then CARD_TIMEOUT_SW else []), v))"

definition handle_message ::
    "('d, 'e) nfc_ops \<Rightarrow> bytes \<Rightarrow> 'd vpcd \<Rightarrow> (bytes option \<times> 'd vpcd) outcome" where
  "handle_message nops payload v =
     (if length payload = 1 then
        (if payload ! 0 = VPCD_CTRL_ATR then vpcd_atr nops v
         else if payload ! 0 = VPCD_CTRL_ON then vpcd_on nops v
         else if payload ! 0 = VPCD_CTRL_OFF then vpcd_off nops v
         else if payload ! 0 = VPCD_CTRL_RESET then vpcd_reset nops v
         else Some (None, v))
      else if payload \<noteq> [] then vpcd_apdu nops payload v
      else Some (None, v))"

section \<open>The stream\<close>

text \<open>What one read of the socket returns: some bytes, the end of the stream, a timeout, or another
  error.\<close>

datatype net_read = Arrived bytes | NetEof | NetTimeout | NetError

datatype read_fault = UnexpectedEof | TimedOutFault | HardFault

text \<open>\<open>read_exact n\<close>: reads until \<open>n\<close> bytes are there; a fault loses the bytes read so far.  The outer
  \<open>None\<close> says that the reads at hand do not suffice, so the call is still blocked.\<close>

fun read_exact :: "nat \<Rightarrow> net_read list \<Rightarrow> ((read_fault + bytes) \<times> net_read list) option" where
  "read_exact 0 rs = Some (Inr [], rs)"
| "read_exact (Suc n) [] = None"
| "read_exact (Suc n) (Arrived [] # rs) = Some (Inl UnexpectedEof, rs)"
| "read_exact (Suc n) (Arrived (b # bs) # rs) =
     (if length bs \<le> n
      then map_option (\<lambda>(r, rs). (map_sum id (\<lambda>xs. (b # bs) @ xs) r, rs)) (read_exact (n - length bs) rs)
      else Some (Inr (b # take n bs), Arrived (drop n bs) # rs))"
| "read_exact (Suc n) (NetEof # rs) = Some (Inl UnexpectedEof, rs)"
| "read_exact (Suc n) (NetTimeout # rs) = Some (Inl TimedOutFault, rs)"
| "read_exact (Suc n) (NetError # rs) = Some (Inl HardFault, rs)"

definition from_be_bytes16 :: "u8 \<Rightarrow> u8 \<Rightarrow> u16" where
  "from_be_bytes16 a b = push_bit 8 (ucast a) OR ucast b"

definition to_be_bytes16 :: "u16 \<Rightarrow> bytes" where
  "to_be_bytes16 w = [ucast (drop_bit 8 w), ucast w]"

text \<open>A message, or \<open>None\<close> at the end of the stream.\<close>

definition read_message ::
    "net_read list \<Rightarrow> ((read_fault + bytes option) \<times> net_read list) option" where
  "read_message rs = do {
     (r, rs) \<leftarrow> read_exact 2 rs;
     (case r of
        Inl UnexpectedEof \<Rightarrow> Some (Inr None, rs)
      | Inl e \<Rightarrow> Some (Inl e, rs)
      | Inr len_buf \<Rightarrow>
          let len = unat (from_be_bytes16 (len_buf ! 0) (len_buf ! 1)) in
          if len = 0 then Some (Inr (Some []), rs)
          else do {
            (r, rs) \<leftarrow> read_exact len rs;
            Some (map_sum id Some r, rs)
          })
   }"

definition send_message :: "serve_env \<Rightarrow> bytes \<Rightarrow> 'm serve_trace \<Rightarrow> bool \<times> 'm serve_trace" where
  "send_message e payload tr =
     (let len = word_of_nat (length payload) :: u16;
          (sent, tr) = write_wire e (to_be_bytes16 len) tr
      in if sent then write_wire e payload tr else (sent, tr))"

section \<open>The connection\<close>

datatype connection_end = HostClosed | LinkFault | SendFault

text \<open>Every call of \<open>read_message\<close> that returns has consumed something.\<close>

fun reads_left :: "net_read list \<Rightarrow> nat" where
  "reads_left [] = 0"
| "reads_left (Arrived bs # rs) = length bs + 1 + reads_left rs"
| "reads_left (_ # rs) = 1 + reads_left rs"

lemma read_exact_shrinks: "read_exact n rs = Some (r, rs') \<Longrightarrow> 0 < n \<Longrightarrow> reads_left rs' < reads_left rs"
proof (induction n rs arbitrary: r rule: read_exact.induct)
  case (4 n b bs rs)
  then show ?case by (cases "n = length bs") (auto split: if_splits)
qed auto

lemma read_message_shrinks:
  assumes "read_message rs = Some (r, rs')"
  shows "reads_left rs' < reads_left rs"
proof -
  obtain r1 rs1 where 1: "read_exact 2 rs = Some (r1, rs1)" using assms by (auto simp: read_message_def split: bind_splits)
  have s: "reads_left rs1 < reads_left rs" using read_exact_shrinks [OF 1] by simp
  have "rs' = rs1 \<or> (\<exists>n r2. 0 < n \<and> read_exact n rs1 = Some (r2, rs'))"
    using assms 1 by (auto simp: read_message_def Let_def split: sum.splits read_fault.splits if_splits bind_splits)
  then show ?thesis
  proof
    assume "\<exists>n r2. 0 < n \<and> read_exact n rs1 = Some (r2, rs')"
    then obtain n r2 where "0 < n" "read_exact n rs1 = Some (r2, rs')" by blast
    then have "reads_left rs' < reads_left rs1" by (intro read_exact_shrinks)
    with s show ?thesis by simp
  qed (use s in simp)
qed

text \<open>The loop of \<open>serve_connection\<close>; \<open>elapsed_ms i\<close> is the \<open>i\<close>-th reading of the process clock.  The result is
  \<open>None\<close> in the first component while the connection is still being served.\<close>

function serve_connection ::
    "('d, 'e) nfc_ops \<Rightarrow> serve_env \<Rightarrow> (nat \<Rightarrow> u64) \<Rightarrow> net_read list \<Rightarrow> 'd vpcd \<Rightarrow> 'm serve_trace
       \<Rightarrow> (connection_end option \<times> 'd vpcd \<times> 'm serve_trace) outcome" where
  "serve_connection nops e elapsed_ms rs v tr =
     (case read_message rs of
        None \<Rightarrow> Some (None, v, tr)
      | Some (Inr None, rs) \<Rightarrow> Some (Some HostClosed, v, tr)
      | Some (Inl TimedOutFault, rs) \<Rightarrow>
          let v = vp_set_driver (n_poll_maintenance nops (elapsed_ms (tr_reads tr)) (vp_driver v)) v;
              tr = tr\<lparr>tr_reads := tr_reads tr + 1\<rparr>
          in serve_connection nops e elapsed_ms rs v tr
      | Some (Inl _, rs) \<Rightarrow> Some (Some LinkFault, v, tr)
      | Some (Inr (Some payload), rs) \<Rightarrow> do {
          (response, v) \<leftarrow> handle_message nops payload v;
          (case response of
             None \<Rightarrow> serve_connection nops e elapsed_ms rs v tr
           | Some resp \<Rightarrow>
               let (sent, tr) = send_message e resp tr in
               if \<not> sent then Some (Some SendFault, v, tr)
               else serve_connection nops e elapsed_ms rs v (note_serve_evidence tr))
        })"
  by pat_completeness auto

termination
  by (relation "measure (\<lambda>(nops, e, ms, rs, v, tr). reads_left rs)") (auto dest: read_message_shrinks)

declare serve_connection.simps [simp del]

end
