(* ===== verification/Vpcd_Props.thy ===== *)
theory Vpcd_Props
  imports Vpcd
begin

text \<open>
  Properties of the virtual smart-card carrier: messages survive any segmentation of the stream and are
  answered in order, a timeout inside a message loses what was received of it, and a reset is silent.
\<close>

section \<open>The driver contract of this carrier\<close>

locale vpcd_driver = nfc_driver +
  assumes n_inv_maintenance: "n_inv d \<Longrightarrow> n_inv (n_poll_maintenance nops ms d)"

interpretation mock_vpcd: vpcd_driver mock_ops mock_ok
  by unfold_locales (auto simp: mock_defs mock_ok_def)

interpretation unavailable_vpcd: vpcd_driver unavailable_ops "\<lambda>_. True"
  by unfold_locales (auto simp: unavailable_ops_def trait_defaults_def)

definition vpcd_ok :: "('d \<Rightarrow> bool) \<Rightarrow> 'd vpcd \<Rightarrow> bool" where
  "vpcd_ok n_inv v \<longleftrightarrow> n_inv (vp_driver v) \<and> length (vp_rx_buf v) = 1024 \<and> length (vp_cached_atr v) \<le> 64"

lemma vp_driver_set [simp]:
  "vp_driver (vp_set_driver d v) = d" "vp_rx_buf (vp_set_driver d v) = vp_rx_buf v"
  "vp_cached_atr (vp_set_driver d v) = vp_cached_atr v" "vp_gate (vp_set_driver d v) = vp_gate v"
  by (simp_all add: vp_set_driver_def ch_set_driver_def)

context vpcd_driver
begin

lemma activate_ok:
  assumes "vpcd_ok n_inv v"
  shows "\<exists>atr v'. vpcd_activate nops v = Some (atr, v') \<and> vpcd_ok n_inv v' \<and> (\<forall>a. atr = Some a \<longrightarrow> length a \<le> 64)"
proof -
  obtain r buf d where p: "n_power_on nops (vp_driver v) (replicate 64 0) = (r, buf, d)" using prod_cases3 by blast
  have "length buf = 64 \<and> n_inv d" "\<And>n. r = Inr n \<Longrightarrow> n \<le> 64"
    using n_power_on_length [OF _ p] n_power_on_count [of "vp_driver v" "replicate 64 0"] p assms
    by (auto simp: vpcd_ok_def)
  with p assms show ?thesis
    by (cases r) (auto simp: vpcd_activate_def vpcd_ok_def slice_def Let_def)
qed

lemma handle_message_ok:
  assumes "vpcd_ok n_inv v"
  shows "\<exists>r v'. handle_message nops payload v = Some (r, v') \<and> vpcd_ok n_inv v' \<and> (\<forall>a. r = Some a \<longrightarrow> length a \<le> 1024)"
proof -
  have off: "vpcd_ok n_inv (vp_set_driver (n_power_off nops (vp_driver v)) v)"
    using assms n_inv_power_off by (simp add: vpcd_ok_def)
  obtain pres d where pr: "n_is_card_present nops (vp_driver v) = (pres, d)" by fastforce
  have ok1: "vpcd_ok n_inv (vp_set_driver d v)" using assms n_inv_is_present [OF _ pr] by (simp add: vpcd_ok_def)
  obtain r buf d2 where t: "n_transmit_apdu nops (vp_driver v) payload (vp_rx_buf v) = (r, buf, d2)"
    using prod_cases3 by blast
  have buf: "length buf = 1024 \<and> n_inv d2" "\<And>n. r = Inr n \<Longrightarrow> n \<le> 1024"
    using n_transmit_length [OF _ t] n_transmit_count [of "vp_driver v" payload "vp_rx_buf v"] t assms
    by (auto simp: vpcd_ok_def)
  have upd: "vpcd_ok n_inv (w\<lparr>vp_cached_atr := a\<rparr>)" "vpcd_ok n_inv (w\<lparr>vp_cached_atr := a, vp_gate := g\<rparr>)"
    "vpcd_ok n_inv (w\<lparr>vp_gate := g, vp_cached_atr := a\<rparr>)"
    if "vpcd_ok n_inv w" "length a \<le> 64" for w :: "'a vpcd" and a g
    using that by (simp_all add: vpcd_ok_def)
  have "\<exists>r v'. vpcd_apdu nops payload v = Some (r, v') \<and> vpcd_ok n_inv v' \<and> (\<forall>a. r = Some a \<longrightarrow> length a \<le> 1024)"
    using t buf assms by (cases r) (auto simp: vpcd_apdu_def vpcd_ok_def slice_def CARD_TIMEOUT_SW_def Let_def)
  moreover have "\<exists>r v'. vpcd_on nops v = Some (r, v') \<and> vpcd_ok n_inv v' \<and> (\<forall>a. r = Some a \<longrightarrow> length a \<le> 1024)"
    using activate_ok [OF assms] upd(1) by (fastforce simp: vpcd_on_def split: option.split)
  moreover have "\<exists>r v'. vpcd_reset nops v = Some (r, v') \<and> vpcd_ok n_inv v' \<and> (\<forall>a. r = Some a \<longrightarrow> length a \<le> 1024)"
    using activate_ok [OF off] upd(1) by (fastforce simp: vpcd_reset_def split: option.split)
  moreover have "\<exists>r v'. vpcd_atr nops v = Some (r, v') \<and> vpcd_ok n_inv v' \<and> (\<forall>a. r = Some a \<longrightarrow> length a \<le> 1024)"
  proof (cases "pres \<and> n_session_active nops d \<and> vp_cached_atr v \<noteq> []")
    case True
    with pr ok1 show ?thesis by (auto simp: vpcd_atr_def vpcd_ok_def)
  next
    case False
    obtain atr v' where a: "vpcd_activate nops (vp_set_driver d v) = Some (atr, v')" "vpcd_ok n_inv v'"
      "\<And>a. atr = Some a \<Longrightarrow> length a \<le> 64"
      using activate_ok [OF ok1] by blast
    show ?thesis
      using False pr a ok1 upd [OF a(2)] upd [OF ok1]
      by (cases atr) (auto simp: vpcd_atr_def Let_def split: prod.split)
  qed
  ultimately show ?thesis
    using off upd(1) assms by (auto simp: handle_message_def vpcd_off_def)
qed

end

section \<open>Segmentation\<close>

definition vpcd_frame :: "bytes \<Rightarrow> bytes" where
  "vpcd_frame p = to_be_bytes16 (word_of_nat (length p)) @ p"

lemma be_bytes16_roundtrip: "from_be_bytes16 (to_be_bytes16 w ! 0) (to_be_bytes16 w ! 1) = w"
  unfolding to_be_bytes16_def from_be_bytes16_def
  by (rule bit_eqI) (auto simp: bit_or_iff bit_push_bit_iff bit_ucast_iff bit_drop_bit_eq not_less)

abbreviation (input) arrivals :: "bytes list \<Rightarrow> net_read list" where
  "arrivals cs \<equiv> map Arrived cs"

lemma read_exact_arrivals:
  assumes "n \<le> length (concat cs)" and "[] \<notin> set cs"
  shows "\<exists>cs'. read_exact n (arrivals cs @ later) = Some (Inr (take n (concat cs)), arrivals cs' @ later) \<and>
    concat cs' = drop n (concat cs) \<and> [] \<notin> set cs'"
  using assms
proof (induction cs arbitrary: n)
  case Nil
  then show ?case by auto
next
  case (Cons c cs)
  obtain b bs where c: "c = b # bs" using Cons.prems(2) by (cases c) auto
  show ?case
  proof (cases n)
    case 0
    then show ?thesis using Cons.prems(2) by (auto intro: exI [of _ "c # cs"])
  next
    case (Suc m)
    show ?thesis
    proof (cases "length bs \<le> m")
      case True
      have "m - length bs \<le> length (concat cs)" "[] \<notin> set cs" using Cons.prems c Suc True by auto
      from Cons.IH [OF this] obtain cs' where
        "read_exact (m - length bs) (arrivals cs @ later) =
           Some (Inr (take (m - length bs) (concat cs)), arrivals cs' @ later)"
        "concat cs' = drop (m - length bs) (concat cs)" "[] \<notin> set cs'"
        by blast
      with c Suc True show ?thesis by auto
    next
      case False
      with c Suc Cons.prems(2) show ?thesis by (auto intro!: exI [of _ "drop m bs # cs"])
    qed
  qed
qed

lemma read_message_arrivals:
  assumes "concat cs = vpcd_frame p @ rest" and "[] \<notin> set cs" and "length p < 2 ^ 16"
  shows "\<exists>cs'. read_message (arrivals cs @ later) = Some (Inr (Some p), arrivals cs' @ later) \<and>
    concat cs' = rest \<and> [] \<notin> set cs'"
proof -
  let ?w = "word_of_nat (length p) :: u16"
  have len: "unat ?w = length p" using assms(3) by (simp add: unsigned_of_nat take_bit_nat_eq_self_iff)
  have tw: "take 2 (concat cs) = to_be_bytes16 ?w" "drop 2 (concat cs) = p @ rest" "2 \<le> length (concat cs)"
    by (simp_all add: assms(1) vpcd_frame_def to_be_bytes16_def)
  from read_exact_arrivals [OF tw(3) assms(2), of later] tw obtain cs1 where
    1: "read_exact 2 (arrivals cs @ later) = Some (Inr (to_be_bytes16 ?w), arrivals cs1 @ later)"
    "concat cs1 = p @ rest" "[] \<notin> set cs1" by auto
  from read_exact_arrivals [of "length p" cs1 later] 1 obtain cs2 where
    2: "read_exact (length p) (arrivals cs1 @ later) = Some (Inr p, arrivals cs2 @ later)"
    "concat cs2 = rest" "[] \<notin> set cs2" by auto
  show ?thesis
  proof (cases "p = []")
    case True
    with 1 len be_bytes16_roundtrip [of ?w] show ?thesis by (auto simp: read_message_def)
  next
    case False
    with 1 2 len be_bytes16_roundtrip [of ?w] show ?thesis by (auto simp: read_message_def)
  qed
qed

section \<open>Serving in order\<close>

text \<open>The answers to a sequence of messages, in order; silent messages have none.\<close>

fun vpcd_answers :: "('d, 'e) nfc_ops \<Rightarrow> bytes list \<Rightarrow> 'd vpcd \<Rightarrow> (bytes list \<times> 'd vpcd) outcome" where
  "vpcd_answers nops [] v = Some ([], v)"
| "vpcd_answers nops (p # ps) v = do {
     (r, v) \<leftarrow> handle_message nops p v;
     (rs, v) \<leftarrow> vpcd_answers nops ps v;
     Some ((case r of Some a \<Rightarrow> [a] | None \<Rightarrow> []) @ rs, v)
   }"

lemma send_message_all:
  assumes "\<And>i. e_write_ok e i"
  shows "send_message e p tr = (True, tr\<lparr>tr_writes := tr_writes tr @ [to_be_bytes16 (word_of_nat (length p)), p]\<rparr>)"
  using assms by (simp add: send_message_def write_wire_def Let_def)

lemma evidence_writes [simp]: "tr_writes (note_serve_evidence tr) = tr_writes tr"
  by (simp add: note_serve_evidence_def Let_def split: prod.split)

context vpcd_driver
begin

lemma served_in_order:
  fixes tr :: "'m serve_trace"
  assumes "vpcd_ok n_inv v" and "concat cs = concat (map vpcd_frame ps)" and "[] \<notin> set cs"
    and "list_all (\<lambda>p. length p < 2 ^ 16) ps" and "\<And>i. e_write_ok e i"
  shows "\<exists>rs v' tr'. vpcd_answers nops ps v = Some (rs, v') \<and> vpcd_ok n_inv v' \<and>
    serve_connection nops e ms (arrivals cs @ [NetEof]) v tr = Some (Some HostClosed, v', tr') \<and>
    concat (tr_writes tr') = concat (tr_writes tr) @ concat (map vpcd_frame rs)"
  using assms(1-4)
proof (induction ps arbitrary: v cs tr)
  case Nil
  then have "cs = []" by (cases cs) auto
  with Nil show ?case by (simp add: serve_connection.simps read_message_def numeral_2_eq_2)
next
  case (Cons p ps)
  have f: "concat cs = vpcd_frame p @ concat (map vpcd_frame ps)" "length p < 2 ^ 16"
    using Cons.prems(2,4) by simp_all
  obtain cs' where r: "read_message (arrivals cs @ [NetEof]) = Some (Inr (Some p), arrivals cs' @ [NetEof])"
    "concat cs' = concat (map vpcd_frame ps)" "[] \<notin> set cs'"
    using read_message_arrivals [OF f(1) Cons.prems(3) f(2)] by blast
  obtain a v1 where h: "handle_message nops p v = Some (a, v1)" "vpcd_ok n_inv v1"
    using handle_message_ok [OF Cons.prems(1)] by blast
  have ps: "list_all (\<lambda>p. length p < 2 ^ 16) ps" using Cons.prems(4) by simp
  note ih = Cons.IH [OF h(2) r(2,3) ps]
  show ?case
  proof (cases a)
    case None
    with ih [of tr] r(1) h(1) show ?thesis
      by (subst serve_connection.simps) auto
  next
    case (Some resp)
    let ?tr = "note_serve_evidence (tr\<lparr>tr_writes := tr_writes tr @ [to_be_bytes16 (word_of_nat (length resp)), resp]\<rparr>)"
    from ih [of ?tr] Some r(1) h(1) send_message_all [OF assms(5), of resp tr] show ?thesis
      by (subst serve_connection.simps) (auto simp: vpcd_frame_def [of resp])
  qed
qed

end

section \<open>Properties\<close>

text \<open>Messages are answered whole and in order, however the network splits them.  When the requests
  of a host arrive completely, in any segmentation of the stream, and the host then closes it, the
  connection answers every request that has an answer by one length-prefixed message, in order, and
  sends nothing else; the device ends in the state the requests lead to.\<close>

theorem vpcd_served_in_order:
  fixes tr :: "'m serve_trace"
  assumes "vpcd_driver nops n_inv" and "vpcd_ok n_inv v" and "concat cs = concat (map vpcd_frame ps)" and "[] \<notin> set cs"
    and "list_all (\<lambda>p. length p < 2 ^ 16) ps" and "\<And>i. e_write_ok e i"
  shows "\<exists>rs v' tr'. vpcd_answers nops ps v = Some (rs, v') \<and> vpcd_ok n_inv v' \<and>
    serve_connection nops e ms (arrivals cs @ [NetEof]) v tr = Some (Some HostClosed, v', tr') \<and>
    concat (tr_writes tr') = concat (tr_writes tr) @ concat (map vpcd_frame rs)"
  by (rule vpcd_driver.served_in_order [OF assms])

lemma read_exact_partial:
  assumes "length bs < n"
  shows "read_exact n (if bs = [] then NetTimeout # rest else Arrived bs # NetTimeout # rest) =
    Some (Inl TimedOutFault, rest)"
proof -
  obtain m where n: "n = Suc m" using assms by (cases n) auto
  show ?thesis
  proof (cases bs)
    case (Cons b cs)
    then obtain i where "m - length cs = Suc i" "length cs \<le> m" using assms n by (cases "m - length cs") auto
    with Cons n show ?thesis by simp
  qed (simp add: n)
qed

lemma read_exact_two:
  "read_exact 2 (Arrived (a # b # xs) # rs) = Some (Inr [a, b], if xs = [] then rs else Arrived xs # rs)"
  by (cases xs) (simp_all add: numeral_2_eq_2)

text \<open>A pause inside a message loses it.  When a read times out after the first bytes of a message
  have arrived, the connection treats it as idle time and goes on with what arrives next: the bytes
  received so far are gone, and the rest of the message is read as if a new one started there.\<close>

theorem vpcd_timeout_loses_message:
  assumes "length p < 2 ^ 16" and "0 < k" and "k < length (vpcd_frame p)"
  shows "serve_connection nops e ms (Arrived (take k (vpcd_frame p)) # NetTimeout # rest) v tr =
    serve_connection nops e ms rest
      (vp_set_driver (n_poll_maintenance nops (ms (tr_reads tr)) (vp_driver v)) v)
      (tr\<lparr>tr_reads := tr_reads tr + 1\<rparr>)"
proof -
  let ?w = "word_of_nat (length p) :: u16"
  have len: "unat ?w = length p" using assms(1) by (simp add: unsigned_of_nat take_bit_nat_eq_self_iff)
  have fr: "vpcd_frame p = [ucast (drop_bit 8 ?w), ucast ?w] @ p" by (simp add: vpcd_frame_def to_be_bytes16_def)
  have w: "from_be_bytes16 (ucast (drop_bit 8 ?w)) (ucast ?w) = ?w"
    using be_bytes16_roundtrip [of ?w] by (simp add: to_be_bytes16_def)
  have "read_message (Arrived (take k (vpcd_frame p)) # NetTimeout # rest) = Some (Inl TimedOutFault, rest)"
  proof (cases "k = 1")
    case True
    then show ?thesis by (simp add: fr read_message_def numeral_2_eq_2)
  next
    case False
    then obtain j where k: "k = Suc (Suc j)" using assms(2) by (cases k; cases "k - 1") auto
    let ?bs = "take j p"
    have j: "length ?bs < length p" using assms(3) k by (simp add: fr)
    have two: "read_exact 2 (Arrived (take k (vpcd_frame p)) # NetTimeout # rest) =
        Some (Inr [ucast (drop_bit 8 ?w), ucast ?w], if ?bs = [] then NetTimeout # rest else Arrived ?bs # NetTimeout # rest)"
      using read_exact_two [of "ucast (drop_bit 8 ?w)" "ucast ?w" ?bs "NetTimeout # rest"] by (simp add: fr k)
    have "length p \<noteq> 0" using j by auto
    with read_exact_partial [OF j, of rest] show ?thesis
      by (simp add: read_message_def two w len Let_def del: take_eq_Nil)
  qed
  then show ?thesis by (subst serve_connection.simps) simp
qed

text \<open>A reset is silent and the ATR request that follows tells the truth.  A reset sends nothing.
  When it re-activated the card, the next ATR request on a present card with a live session answers
  exactly the ATR just read and does not activate the card again; when the re-activation failed, the
  next ATR request on a present card activates it anew and answers what that returns, so the host
  sees the card come back; with no card present the answer is empty.\<close>

theorem vpcd_reset_then_atr:
  assumes "vpcd_driver nops n_inv" and "vpcd_ok n_inv v"
    and "n_power_on nops (n_power_off nops (vp_driver v)) (replicate 64 0) = (r, buf, d)"
    and "n_is_card_present nops d = (pres, d')"
  shows "\<exists>v1. handle_message nops [VPCD_CTRL_RESET] v = Some (None, v1) \<and> vpcd_ok n_inv v1 \<and> vp_driver v1 = d \<and>
    (\<not> pres \<longrightarrow> (\<exists>v2. handle_message nops [VPCD_CTRL_ATR] v1 = Some (Some [], v2) \<and> vp_cached_atr v2 = [])) \<and>
    (\<forall>k. r = Inr k \<longrightarrow> 0 < k \<longrightarrow> pres \<longrightarrow> n_session_active nops d' \<longrightarrow>
       (\<exists>v2. handle_message nops [VPCD_CTRL_ATR] v1 = Some (Some (take k buf), v2) \<and> vp_driver v2 = d')) \<and>
    (\<forall>x k buf2 d2. r = Inl x \<longrightarrow> pres \<longrightarrow> n_power_on nops d' (replicate 64 0) = (Inr k, buf2, d2) \<longrightarrow>
       (\<exists>v2. handle_message nops [VPCD_CTRL_ATR] v1 = Some (Some (take k buf2), v2) \<and> vp_driver v2 = d2))"
proof -
  note drv = vpcd_driver.axioms(1) [OF assms(1)]
  have inv: "n_inv (n_power_off nops (vp_driver v))"
    using nfc_driver.n_inv_power_off [OF drv] assms(2) by (simp add: vpcd_ok_def)
  have len: "n_inv d" "length buf = 64"
    using nfc_driver.n_power_on_length [OF drv inv assms(3)] by simp_all
  have k: "r = Inr k \<Longrightarrow> k \<le> 64" for k
    using nfc_driver.n_power_on_count [OF drv inv, of "replicate 64 0" k] assms(3) by simp
  have inv': "n_inv d'" using nfc_driver.n_inv_is_present [OF drv len(1) assms(4)] .
  have k2: "n_power_on nops d' (replicate 64 0) = (Inr k, buf2, d2) \<Longrightarrow> k \<le> 64 \<and> length buf2 = 64" for k buf2 d2
    using nfc_driver.n_power_on_count [OF drv inv', of "replicate 64 0" k]
      nfc_driver.n_power_on_length [OF drv inv', of "replicate 64 0"] by fastforce
  define w where "w = vp_set_driver d (vp_set_driver (n_power_off nops (vp_driver v)) v)"
  define v1 where "v1 = w\<lparr>vp_cached_atr := (case r of Inr k \<Rightarrow> take k buf | Inl _ \<Rightarrow> [])\<rparr>"
  have v1: "vp_driver v1 = d" "vp_cached_atr v1 = (case r of Inr k \<Rightarrow> take k buf | Inl _ \<Rightarrow> [])"
    by (simp_all add: v1_def w_def)
  have run: "handle_message nops [VPCD_CTRL_RESET] v = Some (None, v1)"
    using assms(3) k len(2)
    by (cases r) (auto simp: handle_message_def vpcd_reset_def vpcd_activate_def v1_def w_def slice_def Let_def)
  moreover have "vpcd_ok n_inv v1"
    using assms(2) len k by (cases r) (auto simp: vpcd_ok_def v1_def w_def)
  moreover have "\<exists>v2. handle_message nops [VPCD_CTRL_ATR] v1 = Some (Some [], v2) \<and> vp_cached_atr v2 = []" if "\<not> pres"
    using that assms(4) v1(1) by (auto simp: handle_message_def vpcd_atr_def Let_def split: prod.split)
  moreover have "\<exists>v2. handle_message nops [VPCD_CTRL_ATR] v1 = Some (Some (take k buf), v2) \<and> vp_driver v2 = d'"
    if "r = Inr k" "0 < k" "pres" "n_session_active nops d'" for k
    using that assms(4) v1 len(2) by (auto simp: handle_message_def vpcd_atr_def Let_def)
  moreover have "\<exists>v2. handle_message nops [VPCD_CTRL_ATR] v1 = Some (Some (take k buf2), v2) \<and> vp_driver v2 = d2"
    if "r = Inl x" "pres" "n_power_on nops d' (replicate 64 0) = (Inr k, buf2, d2)" for x k buf2 d2
    using that assms(4) v1 k2 [OF that(3)]
    by (auto simp: handle_message_def vpcd_atr_def vpcd_activate_def slice_def Let_def)
  ultimately show ?thesis using v1(1) by blast
qed

text \<open>The log never carries card data.  The log line of an APDU request depends on its length alone,
  so a PIN in a VERIFY command cannot appear in it, and the line of an APDU answer depends on its
  length and its status word alone.\<close>

theorem vpcd_log_redacts:
  "(length p = length q \<and> length p \<noteq> 1 \<longrightarrow> request_log_line p = request_log_line q) \<and>
   (length r = length s \<and> drop (length r - 2) r = drop (length s - 2) s \<longrightarrow>
      response_log_line r apdu = response_log_line s apdu)"
proof -
  have "r ! (length r - 2) = s ! (length s - 2) \<and> r ! (length r - 1) = s ! (length s - 1)"
    if "length r = length s" "drop (length r - 2) r = drop (length s - 2) s" "2 \<le> length r"
  proof -
    have "drop (length r - 2) r ! i = drop (length s - 2) s ! i" for i using that(2) by simp
    from this [of 0] this [of 1] that(1,3) show ?thesis by (simp add: numeral_2_eq_2 Suc_diff_Suc)
  qed
  then show ?thesis by (auto simp: request_log_line_def response_log_line_def Let_def)
qed

section \<open>Witnesses\<close>

definition demo_vpcd :: "mock_nfc vpcd" where
  "demo_vpcd = \<lparr>vp_handler = serial_reader, vp_rx_buf = replicate 1024 0, vp_cached_atr = [], vp_gate = absence_gate_new\<rparr>"

lemma demo_vpcd_ok: "vpcd_ok mock_ok demo_vpcd"
proof -
  have "mock_ok (ch_driver serial_reader)"
    using wrapper_okD(3) [OF mock_probe.ch_reach_ok [OF heapless_list_ok serial_reader_reach]] .
  then show ?thesis by (simp add: vpcd_ok_def demo_vpcd_def)
qed

theorem vpcd_served_in_order_witness:
  "\<exists>rs v tr. vpcd_answers mock_ops [[0x04], [0x00, 0xA4, 0x04, 0x00]] demo_vpcd = Some (rs, v) \<and>
     serve_connection mock_ops \<lparr>e_now = \<lambda>_. 0, e_write_ok = \<lambda>_. True, e_stalls = \<lambda>_. 0\<rparr> (\<lambda>_. 0)
       (arrivals [[0x00], [0x01, 0x04, 0x00], [0x04, 0x00, 0xA4, 0x04, 0x00]] @ [NetEof]) demo_vpcd
       (trace_new :: unit serve_trace) = Some (Some HostClosed, v, tr)"
proof -
  have "concat [[0x00], [0x01, 0x04, 0x00], [0x04, 0x00, 0xA4, 0x04, 0x00]] =
      concat (map vpcd_frame [[0x04], [0x00, 0xA4, 0x04, 0x00]])"
    by (simp add: vpcd_frame_def to_be_bytes16_def)
  from vpcd_served_in_order [OF mock_vpcd.vpcd_driver_axioms demo_vpcd_ok this, where
      e = "\<lparr>e_now = \<lambda>_. 0, e_write_ok = \<lambda>_. True, e_stalls = \<lambda>_. 0\<rparr>" and tr = "trace_new :: unit serve_trace" and ms = "\<lambda>_. 0"]
  show ?thesis by auto
qed

theorem vpcd_timeout_loses_message_witness:
  "serve_connection mock_ops \<lparr>e_now = \<lambda>_. 0, e_write_ok = \<lambda>_. True, e_stalls = \<lambda>_. 0\<rparr> (\<lambda>_. 0)
     (Arrived (take 3 (vpcd_frame [0x00, 0xA4, 0x04, 0x00])) # NetTimeout # [Arrived [0xA4, 0x04, 0x00], NetEof])
     demo_vpcd (trace_new :: unit serve_trace) =
   serve_connection mock_ops \<lparr>e_now = \<lambda>_. 0, e_write_ok = \<lambda>_. True, e_stalls = \<lambda>_. 0\<rparr> (\<lambda>_. 0)
     [Arrived [0xA4, 0x04, 0x00], NetEof]
     (vp_set_driver (n_poll_maintenance mock_ops 0 (vp_driver demo_vpcd)) demo_vpcd) (trace_new\<lparr>tr_reads := 1\<rparr>)"
  using vpcd_timeout_loses_message [of "[0x00, 0xA4, 0x04, 0x00]" 3 mock_ops
      "\<lparr>e_now = \<lambda>_. 0, e_write_ok = \<lambda>_. True, e_stalls = \<lambda>_. 0\<rparr>" "\<lambda>_. 0" "[Arrived [0xA4, 0x04, 0x00], NetEof]"
      demo_vpcd "trace_new :: unit serve_trace"]
  by (simp add: vpcd_frame_def to_be_bytes16_def trace_new_def)

theorem vpcd_reset_then_atr_witness:
  "\<exists>v1. handle_message mock_ops [0x02] demo_vpcd = Some (None, v1) \<and> vpcd_ok mock_ok v1"
proof -
  obtain r buf d where p: "n_power_on mock_ops (n_power_off mock_ops (vp_driver demo_vpcd)) (replicate 64 0) = (r, buf, d)"
    using prod_cases3 by blast
  obtain pres d' where "n_is_card_present mock_ops d = (pres, d')" by fastforce
  from vpcd_reset_then_atr [OF mock_vpcd.vpcd_driver_axioms demo_vpcd_ok p this] show ?thesis by blast
qed

theorem vpcd_log_redacts_witness:
  "request_log_line [0x00, 0x20, 0x00, 0x81, 0x01, 0x31] = request_log_line [0x00, 0x20, 0x00, 0x81, 0x01, 0x32]"
  using vpcd_log_redacts [of "[0x00, 0x20, 0x00, 0x81, 0x01, 0x31]" "[0x00, 0x20, 0x00, 0x81, 0x01, 0x32]"] by simp

end
