(* ===== verification/T1_Engine.thy ===== *)
theory T1_Engine
  imports T1
begin

text \<open>
  The T=1 engine of the contact firmware (\<open>firmware/ccid-firmware/src/t1_engine.rs\<close>): the reader's side
  of the block protocol towards a card.  The byte transport is the parameter \<open>ops\<close> with a state of its
  own.  The engine's two loops end only when the card lets them, so they are partial functions:
  \<open>None\<close> means that the call does not return.
\<close>

section \<open>Transport\<close>

datatype 'e t1_error = Transport 'e | LrcMismatch | Timeout

record ('t, 'e) t1_transport =
  tt_send_byte :: "u8 \<Rightarrow> 't \<Rightarrow> ('e + unit) \<times> 't"
  tt_recv_byte_timeout :: "u32 \<Rightarrow> 't \<Rightarrow> ('e + u8) \<times> 't"
  tt_prepare_rx :: "'t \<Rightarrow> 't"
  tt_delay_bgt :: "'t \<Rightarrow> 't"

abbreviation (input) R_BLOCK_MASK :: u8 where "R_BLOCK_MASK \<equiv> 0x03"
abbreviation (input) PCB_I_BLOCK :: u8 where "PCB_I_BLOCK \<equiv> 0x00"
abbreviation (input) PCB_R_BLOCK :: u8 where "PCB_R_BLOCK \<equiv> 0x80"
abbreviation (input) PCB_S_BLOCK :: u8 where "PCB_S_BLOCK \<equiv> 0xC0"
abbreviation (input) PCB_MASK :: u8 where "PCB_MASK \<equiv> 0xC0"
abbreviation (input) I_M_CHAIN :: u8 where "I_M_CHAIN \<equiv> 0x20"
abbreviation (input) S_RESYNC_REQ :: u8 where "S_RESYNC_REQ \<equiv> 0x00"
abbreviation (input) S_RESYNC_RESP :: u8 where "S_RESYNC_RESP \<equiv> 0x20"
abbreviation (input) S_WTX_REQ :: u8 where "S_WTX_REQ \<equiv> 0x03"
abbreviation (input) S_WTX_RESP :: u8 where "S_WTX_RESP \<equiv> 0x03"
abbreviation (input) T1_MAX_IFSC :: nat where "T1_MAX_IFSC \<equiv> 254"
abbreviation (input) T1_BLOCK_BUF :: nat where "T1_BLOCK_BUF \<equiv> 258"
abbreviation (input) INTER_BYTE_MS :: u32 where "INTER_BYTE_MS \<equiv> 20"
abbreviation (input) MAX_RETRANSMIT :: u8 where "MAX_RETRANSMIT \<equiv> 3"

definition engine_lrc :: "bytes \<Rightarrow> u8" where
  "engine_lrc buf = foldl (\<lambda>a b. a XOR b) 0 buf"

text \<open>Consecutive sends, each only after the one before succeeded.\<close>

fun send_bytes :: "('t, 'e) t1_transport \<Rightarrow> bytes \<Rightarrow> 't \<Rightarrow> ('e t1_error + unit) \<times> 't" where
  "send_bytes ops [] t = (Inr (), t)"
| "send_bytes ops (b # bs) t =
     (case tt_send_byte ops b t of
        (Inl e, t) \<Rightarrow> (Inl (Transport e), t)
      | (Inr _, t) \<Rightarrow> send_bytes ops bs t)"

text \<open>Reads with the inter-byte timeout.\<close>

fun recv_bytes :: "('t, 'e) t1_transport \<Rightarrow> nat \<Rightarrow> 't \<Rightarrow> ('e t1_error + bytes) \<times> 't" where
  "recv_bytes ops 0 t = (Inr [], t)"
| "recv_bytes ops (Suc n) t =
     (case tt_recv_byte_timeout ops INTER_BYTE_MS t of
        (Inl e, t) \<Rightarrow> (Inl (Transport e), t)
      | (Inr b, t) \<Rightarrow>
          (case recv_bytes ops n t of
             (Inl e, t) \<Rightarrow> (Inl e, t)
           | (Inr bs, t) \<Rightarrow> (Inr (b # bs), t)))"

section \<open>Blocks\<close>

definition send_i_block ::
    "('t, 'e) t1_transport \<Rightarrow> bytes \<Rightarrow> u8 \<Rightarrow> bool \<Rightarrow> 't \<Rightarrow> ('e t1_error + unit) \<times> 't" where
  "send_i_block ops info ns m t =
     (let pcb = PCB_I_BLOCK OR push_bit 6 ns OR (if m then I_M_CHAIN else 0);
          len = word_of_nat (length info);
          lrc_val = 0 XOR pcb XOR len XOR engine_lrc info
      in send_bytes ops ([0, pcb, len] @ info @ [lrc_val]) t)"

text \<open>The received block: its PCB, the length of its information field and the block buffer.\<close>

definition recv_block ::
    "('t, 'e) t1_transport \<Rightarrow> bytes \<Rightarrow> u32 \<Rightarrow> 't \<Rightarrow> ('e t1_error + (u8 \<times> nat \<times> bytes)) \<times> 't" where
  "recv_block ops buf timeout_ms t =
     (case tt_recv_byte_timeout ops timeout_ms t of
        (Inl e, t) \<Rightarrow> (Inl (Transport e), t)
      | (Inr nad, t) \<Rightarrow>
          (case recv_bytes ops 2 t of
             (Inl e, t) \<Rightarrow> (Inl e, t)
           | (Inr hdr, t) \<Rightarrow>
               let pcb = hdr ! 0; len = unat (hdr ! 1); buf = buf[0 := nad, 1 := pcb] in
               if length buf - 4 < len then (Inl LrcMismatch, t)
               else
                 (case recv_bytes ops (len + 1) t of
                    (Inl e, t) \<Rightarrow> (Inl e, t)
                  | (Inr bs, t) \<Rightarrow>
                      let buf = take 3 buf @ take len bs @ drop (3 + len) buf;
                          lrc_recv = bs ! len;
                          lrc_exp = buf ! 0 XOR buf ! 1 XOR word_of_nat len XOR engine_lrc (take len (drop 3 buf))
                      in if lrc_recv \<noteq> lrc_exp then (Inl LrcMismatch, t)
                         else (Inr (buf ! 1, len, buf), t))))"

text \<open>The answer to a supervisory block; the send sequence number restarts after a resynchronisation.\<close>

definition answer_s_block ::
    "('t, 'e) t1_transport \<Rightarrow> u8 \<Rightarrow> bytes \<Rightarrow> u8 \<Rightarrow> 't \<Rightarrow> ('e t1_error + unit) \<times> u8 \<times> 't" where
  "answer_s_block ops pcb blk ns t =
     (let s_type = pcb AND 0x1F in
      if s_type = S_WTX_REQ then
        let wtx = (case get_opt blk 3 of Some b \<Rightarrow> b | None \<Rightarrow> 0);
            resp_pcb = PCB_S_BLOCK OR 0x20 OR S_WTX_RESP;
            l = 0 XOR resp_pcb XOR 1 XOR wtx;
            (r, t) = send_bytes ops [0, resp_pcb, 1, wtx, l] (tt_delay_bgt ops t)
        in (r, ns, t)
      else if s_type = S_RESYNC_REQ then
        let resp_pcb = PCB_S_BLOCK OR 0x20 OR S_RESYNC_RESP;
            l = 0 XOR resp_pcb XOR 0;
            (r, t) = send_bytes ops [0, resp_pcb, 0, l] (tt_delay_bgt ops t)
        in (r, if isl r then ns else 0, t)
      else (Inr (), ns, t))"

section \<open>One APDU\<close>

text \<open>The sending loop of \<open>transmit_apdu_t1\<close>.\<close>

partial_function (option) t1_send_loop ::
    "('t, 'e) t1_transport \<Rightarrow> nat \<Rightarrow> bytes \<Rightarrow> nat \<Rightarrow> u8 \<Rightarrow> u8 \<Rightarrow> 't \<Rightarrow> (('e t1_error + unit) \<times> u8 \<times> 't) option" where
  "t1_send_loop ops ifsc apdu offset ns retransmit_count t =
     (if \<not> offset < length apdu then Some (Inr (), ns, t)
      else
        let chunk_len = min (length apdu - offset) ifsc;
            m = offset + chunk_len < length apdu;
            (r, t) = send_i_block ops (take chunk_len (drop offset apdu)) ns m t
        in case r of
             Inl e \<Rightarrow> Some (Inl e, ns, t)
           | Inr _ \<Rightarrow>
               if \<not> m then Some (Inr (), ns, t)
               else
                 let (r, t) = recv_block ops (replicate T1_BLOCK_BUF 0) 5000 (tt_prepare_rx ops t) in
                 case r of
                   Inl e \<Rightarrow> Some (Inl e, ns, t)
                 | Inr (pcb, _, blk) \<Rightarrow>
                     if pcb AND PCB_MASK = PCB_R_BLOCK then
                       if pcb AND R_BLOCK_MASK \<noteq> 0 then
                         if MAX_RETRANSMIT < retransmit_count + 1 then Some (Inl LrcMismatch, ns, t)
                         else t1_send_loop ops ifsc apdu offset ns (retransmit_count + 1) (tt_delay_bgt ops t)
                       else t1_send_loop ops ifsc apdu (offset + chunk_len) ((ns + 1) AND 1) 0 (tt_delay_bgt ops t)
                     else if pcb AND PCB_MASK = PCB_S_BLOCK then
                       let (r, ns, t) = answer_s_block ops pcb blk ns t in
                       (case r of
                          Inl e \<Rightarrow> Some (Inl e, ns, t)
                        | Inr _ \<Rightarrow> t1_send_loop ops ifsc apdu offset ns retransmit_count t)
                     else Some (Inr (), ns, t))"

text \<open>The receiving loop; \<open>resp_len\<close> bytes of the response buffer are filled.\<close>

partial_function (option) t1_recv_loop ::
    "('t, 'e) t1_transport \<Rightarrow> u8 \<Rightarrow> nat \<Rightarrow> bytes \<Rightarrow> 't \<Rightarrow> (('e t1_error + nat) \<times> u8 \<times> bytes \<times> 't) option" where
  "t1_recv_loop ops ns resp_len response t =
     (let (r, t) = recv_block ops (replicate T1_BLOCK_BUF 0) 5000 t in
      case r of
        Inl e \<Rightarrow> Some (Inl e, ns, response, t)
      | Inr (pcb, inf_len, blk) \<Rightarrow>
          if pcb AND 0x80 = 0 then
            let n = min inf_len (length response - resp_len);
                response = take resp_len response @ take n (drop 3 blk) @ drop (resp_len + n) response;
                resp_len = resp_len + n
            in if pcb AND I_M_CHAIN = 0 then Some (Inr resp_len, (ns + 1) AND 1, response, t)
               else
                 let card_ns = drop_bit 6 pcb AND 1;
                     nr = (card_ns + 1) AND 1;
                     rpcb = PCB_R_BLOCK OR push_bit 4 nr;
                     r_lrc = 0 XOR rpcb XOR 0;
                     (r, t) = send_bytes ops [0, rpcb, 0, r_lrc] (tt_delay_bgt ops t)
                 in (case r of
                       Inl e \<Rightarrow> Some (Inl e, ns, response, t)
                     | Inr _ \<Rightarrow> t1_recv_loop ops ns resp_len response (tt_prepare_rx ops t))
          else if pcb AND PCB_MASK = PCB_S_BLOCK then
            let (r, ns, t) = answer_s_block ops pcb blk ns t in
            (case r of
               Inl e \<Rightarrow> Some (Inl e, ns, response, t)
             | Inr _ \<Rightarrow> t1_recv_loop ops ns resp_len response t)
          else t1_recv_loop ops ns resp_len response t)"

definition transmit_apdu_t1 ::
    "('t, 'e) t1_transport \<Rightarrow> u8 \<Rightarrow> u8 \<Rightarrow> bytes \<Rightarrow> bytes \<Rightarrow> 't
       \<Rightarrow> (('e t1_error + nat) \<times> u8 \<times> bytes \<times> 't) option" where
  "transmit_apdu_t1 ops ifsc ns apdu response t =
     (case t1_send_loop ops (unat ifsc) apdu 0 ns 0 t of
        None \<Rightarrow> None
      | Some (Inl e, ns, t) \<Rightarrow> Some (Inl e, ns, response, t)
      | Some (Inr _, ns, t) \<Rightarrow> t1_recv_loop ops ns 0 response (tt_prepare_rx ops t))"

end
