(* ===== verification/T1_Engine_Props.thy ===== *)
theory T1_Engine_Props
  imports T1_Engine T1_Props
begin

text \<open>
  The contact-side T=1 engine against a card that follows ISO 7816-3: the card accepts only
  well-formed blocks with the sequence number it expects, acknowledges chained blocks, may ask for
  repetitions and for more time, and returns its answer as a chain of its own.
\<close>

section \<open>A conforming card\<close>

text \<open>\<open>cd_naks\<close> says how often the card rejects each of the coming chained blocks before it accepts it;
  \<open>cd_nak_final\<close> whether it rejects the block that ends a chain.  The application of the card maps an
  APDU to the waiting-time extensions it asks for and the pieces of its answer.\<close>

record t1_card =
  cd_expect :: u8
  cd_chain :: bytes
  cd_naks :: "nat list"
  cd_nak_final :: bool
  cd_ns :: u8
  cd_wtx :: bytes
  cd_out :: "bytes list"
  cd_seen :: "bytes list"

type_synonym card_app = "bytes \<Rightarrow> bytes \<times> bytes list"

definition card_next :: "t1_card \<Rightarrow> bytes option \<times> t1_card" where
  "card_next c =
     (case cd_wtx c of
        m # _ \<Rightarrow> (Some (plain_block (s_pcb Wtx False) [m]), c)
      | [] \<Rightarrow>
          (case cd_out c of
             [] \<Rightarrow> (None, c)
           | x # xs \<Rightarrow> (Some (plain_block (i_pcb (cd_ns c) (xs \<noteq> []) 0) x), c\<lparr>cd_out := xs, cd_ns := cd_ns c XOR 1\<rparr>)))"

definition card_block :: "card_app \<Rightarrow> bool \<Rightarrow> bytes \<Rightarrow> t1_card \<Rightarrow> bytes option \<times> t1_card" where
  "card_block app m info c =
     (let nak = (Some (plain_block (r_pcb (cd_expect c) 1) []));
          c' = c\<lparr>cd_chain := cd_chain c @ info, cd_expect := cd_expect c XOR 1\<rparr>
      in if m then
           (case cd_naks c of
              Suc n # ns \<Rightarrow> (nak, c\<lparr>cd_naks := n # ns\<rparr>)
            | _ \<Rightarrow> (Some (plain_block (r_pcb (cd_expect c XOR 1) 0) []), c'\<lparr>cd_naks := tl (cd_naks c)\<rparr>))
         else if cd_nak_final c then (nak, c)
         else card_next (c'\<lparr>cd_chain := [], cd_seen := cd_seen c @ [cd_chain c'],
                           cd_wtx := fst (app (cd_chain c')), cd_out := snd (app (cd_chain c'))\<rparr>))"

definition card_react :: "card_app \<Rightarrow> bytes \<Rightarrow> t1_card \<Rightarrow> bytes option \<times> t1_card" where
  "card_react app blk c =
     (if \<not> wf_block blk then (None, c)
      else case parse_pcb (blk ! 1) of
             Some (PcbI ns m _) \<Rightarrow>
               if ns = cd_expect c then card_block app m (block_inf blk) c else (None, c)
           | Some (PcbR nr err) \<Rightarrow>
               if nr = cd_ns c \<and> err = 0 then card_next c else (None, c)
           | Some (PcbS Wtx True) \<Rightarrow>
               if cd_wtx c \<noteq> [] \<and> block_inf blk = [cd_wtx c ! 0] then card_next (c\<lparr>cd_wtx := tl (cd_wtx c)\<rparr>)
               else (None, c)
           | _ \<Rightarrow> (None, c))"

text \<open>The half-duplex line: what the reader has sent and the card has not looked at yet, and what the
  card has sent and the reader has not read yet.  The card answers when the reader listens; without
  an answer the read times out.\<close>

record t1_line =
  li_tx :: bytes
  li_rx :: bytes
  li_card :: t1_card

definition line_recv :: "card_app \<Rightarrow> u32 \<Rightarrow> t1_line \<Rightarrow> (unit + u8) \<times> t1_line" where
  "line_recv app ms l =
     (case li_rx l of
        b # bs \<Rightarrow> (Inr b, l\<lparr>li_rx := bs\<rparr>)
      | [] \<Rightarrow>
          (case card_react app (li_tx l) (li_card l) of
             (Some (b # bs), c) \<Rightarrow> (Inr b, \<lparr>li_tx = [], li_rx = bs, li_card = c\<rparr>)
           | (_, c) \<Rightarrow> (Inl (), \<lparr>li_tx = [], li_rx = [], li_card = c\<rparr>)))"

definition line_ops :: "card_app \<Rightarrow> (t1_line, unit) t1_transport" where
  "line_ops app =
     \<lparr>tt_send_byte = (\<lambda>b l. (Inr (), l\<lparr>li_tx := li_tx l @ [b]\<rparr>)),
      tt_recv_byte_timeout = line_recv app,
      tt_prepare_rx = (\<lambda>l. l\<lparr>li_rx := []\<rparr>),
      tt_delay_bgt = (\<lambda>l. l)\<rparr>"

abbreviation (input) line :: "bytes \<Rightarrow> t1_card \<Rightarrow> t1_line" where
  "line tx c \<equiv> \<lparr>li_tx = tx, li_rx = [], li_card = c\<rparr>"

section \<open>Blocks on the line\<close>

lemma line_sends:
  "send_bytes (line_ops app) bs l = (Inr (), l\<lparr>li_tx := li_tx l @ bs\<rparr>)"
  by (induction bs arbitrary: l) (simp_all add: line_ops_def)

lemma line_reads_rest:
  "recv_bytes (line_ops app) (length bs) \<lparr>li_tx = tx, li_rx = bs @ rest, li_card = c\<rparr> =
     (Inr bs, \<lparr>li_tx = tx, li_rx = rest, li_card = c\<rparr>)"
  by (induction bs) (simp_all add: line_ops_def line_recv_def)

lemma line_idle:
  "tt_delay_bgt (line_ops app) l = l" "tt_prepare_rx (line_ops app) (line tx c) = line tx c"
  by (simp_all add: line_ops_def)

lemma engine_lrc_xor: "engine_lrc bs = xor_fold bs"
  by (simp add: engine_lrc_def xor_fold_def)

lemma xor_fold_head3: "xor_fold ([a, b, c] @ bs) = a XOR b XOR c XOR xor_fold bs"
proof (induction bs rule: rev_induct)
  case (snoc x xs)
  then show ?case using xor_fold_snoc [of "[a, b, c] @ xs" x] by (simp add: xor.assoc)
qed (simp add: xor_fold_def xor.assoc)

lemma engine_block:
  "length info \<le> 254 \<Longrightarrow> [0, pcb, word_of_nat (length info)] @ info @ [0 XOR pcb XOR word_of_nat (length info) XOR engine_lrc info]
     = plain_block pcb info"
  by (simp only: plain_block_def xor_fold_head3 engine_lrc_xor append_assoc)

lemma line_sends_i_block:
  assumes "length info \<le> 254"
  shows "send_i_block (line_ops app) info ns m (line [] c) = (Inr (), line (plain_block (i_pcb ns m 0) info) c)"
proof -
  have "PCB_I_BLOCK OR push_bit 6 ns OR (if m then I_M_CHAIN else 0) = i_pcb ns m 0"
    by (simp add: i_pcb_def)
  then show ?thesis
    unfolding send_i_block_def Let_def line_sends by (simp only: engine_block [OF assms]) simp
qed

text \<open>The buffer after a received block.\<close>

definition block_buf :: "u8 \<Rightarrow> bytes \<Rightarrow> bytes" where
  "block_buf pcb info = [0, pcb, 0] @ info @ replicate (255 - length info) 0"

lemma line_recv_block:
  assumes "card_react app tx c = (Some (plain_block pcb info), c')" and "length info \<le> 254"
  shows "recv_block (line_ops app) (replicate T1_BLOCK_BUF 0) ms (line tx c) =
    (Inr (pcb, length info, block_buf pcb info), line [] c')"
proof -
  define l :: u8 where "l = word_of_nat (length info)"
  define k where "k = 0 XOR pcb XOR l XOR xor_fold info"
  have p: "plain_block pcb info = 0 # ([pcb, l] @ info @ [k])"
    using engine_block [OF assms(2), of pcb] by (simp add: l_def k_def engine_lrc_xor)
  have ul: "unat l = length info" using assms(2) by (simp add: l_def unat_len)
  have first: "tt_recv_byte_timeout (line_ops app) ms (line tx c) =
      (Inr 0, \<lparr>li_tx = [], li_rx = [pcb, l] @ info @ [k], li_card = c'\<rparr>)"
    using assms(1) by (simp add: line_ops_def line_recv_def p)
  have hdr: "recv_bytes (line_ops app) 2 \<lparr>li_tx = [], li_rx = [pcb, l] @ info @ [k], li_card = c'\<rparr> =
      (Inr [pcb, l], \<lparr>li_tx = [], li_rx = info @ [k], li_card = c'\<rparr>)"
    using line_reads_rest [of app "[pcb, l]" "[]" "info @ [k]" c'] by (simp add: numeral_2_eq_2)
  have body: "recv_bytes (line_ops app) (length info + 1) \<lparr>li_tx = [], li_rx = info @ [k], li_card = c'\<rparr> =
      (Inr (info @ [k]), line [] c')"
    using line_reads_rest [of app "info @ [k]" "[]" "[]" c'] by simp
  have upd: "(replicate 258 0)[0 := 0, 1 := pcb] = [0, pcb, 0] @ replicate 255 (0 :: u8)"
    by (simp add: numeral_eq_Suc)
  have buf: "take 3 ((replicate 258 0)[0 := 0, 1 := pcb]) @ take (length info) (info @ [k]) @
      drop (3 + length info) ((replicate 258 0)[0 := 0, 1 := pcb]) = block_buf pcb info"
    unfolding upd block_buf_def using assms(2) by (simp add: numeral_3_eq_3)
  have parts: "block_buf pcb info ! 0 = 0" "block_buf pcb info ! 1 = pcb" "take (length info) (drop 3 (block_buf pcb info)) = info"
    by (simp_all add: block_buf_def numeral_3_eq_3)
  have nth: "[pcb, l] ! 0 = pcb" "[pcb, l] ! 1 = l" "(info @ [k]) ! length info = k"
    "length ((replicate 258 (0 :: u8))[0 := 0, 1 := pcb]) = 258" by simp_all
  show ?thesis
    unfolding recv_block_def first prod.case sum.case hdr Let_def nth ul body buf parts
    using assms(2) by (simp add: k_def l_def engine_lrc_xor)
qed

section \<open>Sending\<close>

lemma card_reacts_i_block:
  assumes "length info \<le> 254" and "cd_expect c \<le> 1"
  shows "card_react app (plain_block (i_pcb (cd_expect c) m 0) info) c = card_block app m info c"
  using plain_block_wf [OF assms(1)] plain_block_parts [OF assms(1)] parse_i_pcb [OF assms(2), of 0]
  by (simp add: card_react_def)

lemma r_pcb_bits:
  assumes "nr \<le> 1"
  shows "r_pcb nr 0 AND 0xC0 = 0x80" "r_pcb nr 0 AND 3 = 0" "r_pcb nr 1 AND 0xC0 = 0x80" "r_pcb nr 1 AND 3 \<noteq> 0"
    "r_pcb nr 0 AND 0x80 \<noteq> 0" "r_pcb nr 1 AND 0x80 \<noteq> 0"
  using u8_le_1 [OF assms] by (auto simp: r_pcb_def)

lemma toggle: "ns \<le> 1 \<Longrightarrow> (ns + 1) AND 1 = (ns XOR 1 :: u8)"
  by (auto dest!: u8_le_1)

text \<open>The number of rejections the card still has in store for the current block.\<close>

definition nak_head :: "t1_card \<Rightarrow> nat" where
  "nak_head c = (case cd_naks c of n # _ \<Rightarrow> n | [] \<Rightarrow> 0)"

definition naks_bounded :: "u8 \<Rightarrow> t1_card \<Rightarrow> bool" where
  "naks_bounded r c \<longleftrightarrow> unat r + nak_head c \<le> 3 \<and> (\<forall>n \<in> set (tl (cd_naks c)). n \<le> 3)"

lemma naks_next: "naks_bounded r c \<Longrightarrow> naks_bounded 0 (c\<lparr>cd_chain := x, cd_expect := e, cd_naks := tl (cd_naks c)\<rparr>)"
  by (cases "cd_naks c"; cases "tl (cd_naks c)") (auto simp: naks_bounded_def nak_head_def)

lemma send_loop_last:
  assumes "offset < length apdu" and "length apdu - offset \<le> ifsc" and "ifsc \<le> 254"
  shows "t1_send_loop (line_ops app) ifsc apdu offset ns r (line [] c) =
    Some (Inr (), ns, line (plain_block (i_pcb ns False 0) (drop offset apdu)) c)"
proof -
  have "min (length apdu - offset) ifsc = length apdu - offset" using assms(2) by simp
  moreover have "length (drop offset apdu) \<le> 254" using assms(2,3) by simp
  ultimately show ?thesis
    using assms(1) by (subst t1_send_loop.simps) (simp add: Let_def line_sends_i_block)
qed

lemma send_loop_chained:
  assumes "offset + ifsc < length apdu" and "ifsc \<le> 254" and "cd_expect c \<le> 1"
    and "card_block app True (take ifsc (drop offset apdu)) c = (Some (plain_block (r_pcb nr err) []), c')"
    and "nr \<le> 1" and "err = 0 \<or> err = 1"
  shows "t1_send_loop (line_ops app) ifsc apdu offset (cd_expect c) r (line [] c) =
    (if err = 1 then
       if 3 < r + 1 then Some (Inl LrcMismatch, cd_expect c, line [] c')
       else t1_send_loop (line_ops app) ifsc apdu offset (cd_expect c) (r + 1) (line [] c')
     else t1_send_loop (line_ops app) ifsc apdu (offset + ifsc) (cd_expect c XOR 1) 0 (line [] c'))"
proof -
  let ?info = "take ifsc (drop offset apdu)"
  have m: "min (length apdu - offset) ifsc = ifsc" "offset < length apdu" using assms(1) by auto
  have l: "length ?info \<le> 254" using assms(2) by simp
  have r: "card_react app (plain_block (i_pcb (cd_expect c) True 0) ?info) c = (Some (plain_block (r_pcb nr err) []), c')"
    using card_reacts_i_block [OF l assms(3)] assms(4) by simp
  note rb = line_recv_block [OF r, of 5000, simplified]
  show ?thesis
    using m assms(1,6) r_pcb_bits [OF assms(5)]
    by (subst t1_send_loop.simps)
      (auto simp: Let_def line_sends_i_block [OF l] line_idle rb toggle [OF assms(3)])
qed

text \<open>The sending loop comes to the last block of the chain, whatever the card rejected on the way, with
  the card in step.\<close>

lemma send_loop_delivers:
  assumes "0 < ifsc" and "ifsc \<le> 254" and "offset < length apdu" and "cd_expect c \<le> 1"
    and "cd_chain c = take offset apdu" and "naks_bounded r c"
  shows "\<exists>k c'. t1_send_loop (line_ops app) ifsc apdu offset (cd_expect c) r (line [] c) =
      Some (Inr (), cd_expect c', line (plain_block (i_pcb (cd_expect c') False 0) (drop k apdu)) c') \<and>
    k < length apdu \<and> length apdu - k \<le> ifsc \<and> cd_expect c' \<le> 1 \<and> cd_chain c' = take k apdu \<and>
    cd_nak_final c' = cd_nak_final c \<and> cd_ns c' = cd_ns c \<and> cd_seen c' = cd_seen c"
  using assms(3-)
proof (induction "(length apdu - offset) * 5 + nak_head c" arbitrary: offset c r rule: less_induct)
  case less
  let ?info = "take ifsc (drop offset apdu)"
  note step = send_loop_chained [OF _ assms(2) less.prems(2), of offset apdu app _ _ _ r]
  consider (final) "length apdu - offset \<le> ifsc" | (nak) n ns where "offset + ifsc < length apdu" "cd_naks c = Suc n # ns"
    | (ack) "offset + ifsc < length apdu" "nak_head c = 0"
    by (cases "nak_head c") (force simp: nak_head_def split: list.splits)+
  then show ?case
  proof cases
    case final
    then show ?thesis
      using send_loop_last [OF less.prems(1) final assms(2), of app "cd_expect c" r c] less.prems by blast
  next
    case nak
    let ?c = "c\<lparr>cd_naks := n # ns\<rparr>"
    have r: "unat r \<le> 2" "unat r + Suc n \<le> 3" using less.prems(4) nak(2) by (auto simp: naks_bounded_def nak_head_def)
    then have r1: "unat (r + 1) = unat r + 1" by (simp add: unat_word_ariths)
    then have nr: "\<not> 3 < r + 1" "naks_bounded (r + 1) ?c"
      using r less.prems(4) nak(2) by (simp_all add: word_less_nat_alt naks_bounded_def nak_head_def)
    have "card_block app True ?info c = (Some (plain_block (r_pcb (cd_expect c) 1) []), ?c)"
      using nak(2) by (simp add: card_block_def Let_def)
    from step [OF nak(1) this less.prems(2)] nr(1)
    have e: "t1_send_loop (line_ops app) ifsc apdu offset (cd_expect c) r (line [] c) =
        t1_send_loop (line_ops app) ifsc apdu offset (cd_expect ?c) (r + 1) (line [] ?c)" by simp
    have m: "(length apdu - offset) * 5 + nak_head ?c < (length apdu - offset) * 5 + nak_head c"
      using nak(2) by (simp add: nak_head_def)
    show ?thesis using less.hyps [OF m less.prems(1) _ _ nr(2)] less.prems(2,3) unfolding e by simp
  next
    case ack
    let ?c = "c\<lparr>cd_chain := cd_chain c @ ?info, cd_expect := cd_expect c XOR 1, cd_naks := tl (cd_naks c)\<rparr>"
    have "card_block app True ?info c = (Some (plain_block (r_pcb (cd_expect c XOR 1) 0) []), ?c)"
      using ack(2) by (auto simp: card_block_def Let_def nak_head_def split: list.split nat.split)
    from step [OF ack(1) this xor_1_le [OF less.prems(2)]]
    have e: "t1_send_loop (line_ops app) ifsc apdu offset (cd_expect c) r (line [] c) =
        t1_send_loop (line_ops app) ifsc apdu (offset + ifsc) (cd_expect ?c) 0 (line [] ?c)" by simp
    have b: "naks_bounded 0 ?c"
      using naks_next [OF less.prems(4), where x = "cd_chain c @ ?info" and e = "cd_expect c XOR 1"] by simp
    have m: "(length apdu - (offset + ifsc)) * 5 + nak_head ?c < (length apdu - offset) * 5 + nak_head c"
    proof -
      have "nak_head ?c \<le> 3" using b by (simp add: naks_bounded_def)
      then show ?thesis using ack assms(1) by linarith
    qed
    have "cd_chain ?c = take (offset + ifsc) apdu" using less.prems(3) by (simp add: take_add)
    from less.hyps [OF m ack(1) _ this b] xor_1_le [OF less.prems(2)] show ?thesis unfolding e by simp
  qed
qed

section \<open>Receiving\<close>

text \<open>One answer piece copied into the response buffer.\<close>

definition put_piece :: "nat \<Rightarrow> bytes \<Rightarrow> bytes \<Rightarrow> bytes" where
  "put_piece at x response =
     (let n = min (length x) (length response - at) in take at response @ take n x @ drop (at + n) response)"

lemma block_buf_info: "n \<le> length info \<Longrightarrow> take n (drop 3 (block_buf pcb info)) = take n info"
  by (simp add: block_buf_def numeral_3_eq_3)

lemma i_pcb_bits:
  assumes "ns \<le> 1"
  shows "i_pcb ns m 0 AND 0x80 = 0" "i_pcb ns m 0 AND 0x20 = 0 \<longleftrightarrow> \<not> m" "drop_bit 6 (i_pcb ns m 0) AND 1 = ns"
  using u8_le_1 [OF assms] by (cases m; auto simp: i_pcb_def)+

lemma recv_loop_piece:
  assumes "card_react app tx c = (Some (plain_block (i_pcb ns' m 0) x), c')" and "length x \<le> 254" and "ns' \<le> 1"
  shows "t1_recv_loop (line_ops app) ns n response (line tx c) =
    (let k = min (length x) (length response - n); response = put_piece n x response in
     if \<not> m then Some (Inr (n + k), (ns + 1) AND 1, response, line [] c')
     else t1_recv_loop (line_ops app) ns (n + k) response (line (plain_block (r_pcb (ns' XOR 1) 0) []) c'))"
proof -
  have ack: "[0, r_pcb nr 0, 0, 0 XOR r_pcb nr 0 XOR 0] = plain_block (r_pcb nr 0) []" for nr
    by (simp add: plain_block_def xor_fold_def)
  have pcb: "PCB_R_BLOCK OR push_bit 4 ((ns' + 1) AND 1) = r_pcb (ns' XOR 1) 0"
    by (simp add: r_pcb_def toggle [OF assms(3)])
  note bits = i_pcb_bits [OF assms(3)]
  show ?thesis
    by (subst t1_recv_loop.simps)
      (cases m; simp only: line_recv_block [OF assms(1,2)] Let_def prod.case sum.case bits put_piece_def
        block_buf_info min.cobounded1 line_idle line_sends pcb ack; simp add: line_idle)
qed

lemma recv_loop_wtx:
  assumes "card_react app tx c = (Some (plain_block (s_pcb Wtx False) [w]), c')"
  shows "t1_recv_loop (line_ops app) ns n response (line tx c) =
    t1_recv_loop (line_ops app) ns n response (line (plain_block (s_pcb Wtx True) [w]) c')"
proof -
  have ans: "answer_s_block (line_ops app) (s_pcb Wtx False) (block_buf (s_pcb Wtx False) [w]) ns (line [] c') =
      (Inr (), ns, line (plain_block (s_pcb Wtx True) [w]) c')"
    by (simp add: answer_s_block_def Let_def get_opt_def block_buf_def line_idle line_sends s_pcb_def
        plain_block_def xor_fold_def xor.assoc [symmetric] del: send_bytes.simps)
  have bits: "s_pcb Wtx False AND 0x80 \<noteq> 0" "s_pcb Wtx False AND 0xC0 = 0xC0" by (simp_all add: s_pcb_def)
  show ?thesis
    by (subst t1_recv_loop.simps) (simp add: line_recv_block [OF assms, simplified] Let_def bits ans)
qed

text \<open>From a card that is about to continue its answer the loop collects the whole of it.\<close>

lemma put_piece_length: "n \<le> length response \<Longrightarrow> length (put_piece n x response) = length response"
  by (simp add: put_piece_def Let_def)

lemma put_piece_take:
  "n \<le> length response \<Longrightarrow> take (n + min (length x) (length response - n)) (put_piece n x response) =
     take (length response) (take n response @ x)"
  by (simp add: put_piece_def Let_def min_def)

lemma take_take_append: "take k (take k xs @ ys) = take k (xs @ ys)"
  by (cases "k \<le> length xs") simp_all

lemma recv_loop_collects:
  assumes "card_react app tx c = card_next d" and "cd_out d \<noteq> []" and "\<forall>x \<in> set (cd_out d). length x \<le> 254"
    and "cd_ns d \<le> 1" and "n \<le> length response"
  shows "\<exists>response' d'. t1_recv_loop (line_ops app) ns n response (line tx c) =
      Some (Inr (min (n + length (concat (cd_out d))) (length response)), (ns + 1) AND 1, response', line [] d') \<and>
    length response' = length response \<and>
    take (n + length (concat (cd_out d))) response' = take (length response) (take n response @ concat (cd_out d)) \<and>
    cd_wtx d' = [] \<and> cd_out d' = [] \<and> cd_ns d' \<le> 1 \<and> cd_expect d' = cd_expect d \<and> cd_chain d' = cd_chain d \<and>
    cd_naks d' = cd_naks d \<and> cd_nak_final d' = cd_nak_final d \<and> cd_seen d' = cd_seen d"
  using assms
proof (induction "length (cd_wtx d) + length (cd_out d)" arbitrary: tx c d n response)
  case 0
  then show ?case by simp
next
  case (Suc k)
  show ?case
  proof (cases "cd_wtx d")
    case (Cons w ws)
    have r: "card_react app tx c = (Some (plain_block (s_pcb Wtx False) [w]), d)"
      using Suc.prems(1) Cons by (simp add: card_next_def)
    have n: "card_react app (plain_block (s_pcb Wtx True) [w]) d = card_next (d\<lparr>cd_wtx := ws\<rparr>)"
      using plain_block_wf [of "[w]"] plain_block_parts [of "[w]"] Cons
      by (simp add: card_react_def parse_s_pcb)
    have "k = length (cd_wtx (d\<lparr>cd_wtx := ws\<rparr>)) + length (cd_out (d\<lparr>cd_wtx := ws\<rparr>))" using Suc.hyps(2) Cons by simp
    from Suc.hyps(1) [OF this n] Suc.prems show ?thesis by (simp add: recv_loop_wtx [OF r])
  next
    case Nil
    obtain x xs where o: "cd_out d = x # xs" using Suc.prems(2) by (cases "cd_out d") auto
    let ?d = "d\<lparr>cd_out := xs, cd_ns := cd_ns d XOR 1\<rparr>" and ?k = "min (length x) (length response - n)"
    have r: "card_react app tx c = (Some (plain_block (i_pcb (cd_ns d) (xs \<noteq> []) 0) x), ?d)"
      using Suc.prems(1) Nil o by (simp add: card_next_def)
    have x: "length x \<le> 254" using Suc.prems(3) o by simp
    note step = recv_loop_piece [OF r x Suc.prems(4), of ns n response]
    show ?thesis
    proof (cases "xs = []")
      case True
      then show ?thesis using step o Nil Suc.prems(4,5) put_piece_take [OF Suc.prems(5), of x]
        by (auto simp: Let_def put_piece_length xor_1_le min_def put_piece_def)
    next
      case False
      have n: "card_react app (plain_block (r_pcb (cd_ns d XOR 1) 0) []) ?d = card_next ?d"
        using plain_block_wf [of "[]"] plain_block_parts [of "[]"] parse_r_pcb [OF xor_1_le [OF Suc.prems(4)], of 0]
        by (simp add: card_react_def)
      let ?r = "put_piece n x response"
      have k: "k = length (cd_wtx ?d) + length (cd_out ?d)" using Suc.hyps(2) Nil o by simp
      have le: "n + ?k \<le> length ?r" using Suc.prems(5) by (simp add: put_piece_length)
      from Suc.hyps(1) [OF k n _ _ _ le] False Suc.prems(3,4) o obtain response' d' where ih:
        "t1_recv_loop (line_ops app) ns (n + ?k) ?r (line (plain_block (r_pcb (cd_ns d XOR 1) 0) []) ?d) =
           Some (Inr (min (n + ?k + length (concat xs)) (length ?r)), (ns + 1) AND 1, response', line [] d')"
        "length response' = length ?r"
        "take (n + ?k + length (concat xs)) response' = take (length ?r) (take (n + ?k) ?r @ concat xs)"
        "cd_wtx d' = []" "cd_out d' = []" "cd_ns d' \<le> 1" "cd_expect d' = cd_expect d" "cd_chain d' = cd_chain d"
        "cd_naks d' = cd_naks d" "cd_nak_final d' = cd_nak_final d" "cd_seen d' = cd_seen d"
        by (auto simp: xor_1_le)
      have len: "length ?r = length response" using Suc.prems(5) by (rule put_piece_length)
      have cut: "take (n + length (concat (x # xs))) response' = take (n + ?k + length (concat xs)) response'"
        and total: "min (n + length (concat (x # xs))) (length response) = min (n + ?k + length (concat xs)) (length ?r)"
        using ih(2) len Suc.prems(5) by (auto simp: min_def add.assoc)
      have "take (n + length (concat (x # xs))) response' = take (length response) (take n response @ concat (x # xs))"
        unfolding cut ih(3) put_piece_take [OF Suc.prems(5)] len
        by (simp only: take_take_append append_assoc concat.simps)
      with step False ih len show ?thesis unfolding o total by (simp add: Let_def)
    qed
  qed
qed

section \<open>One APDU over the line\<close>

text \<open>A card between two APDUs, in step with a reader whose send number is \<open>ns\<close>.\<close>

definition card_idle :: "u8 \<Rightarrow> t1_card \<Rightarrow> bool" where
  "card_idle ns c \<longleftrightarrow>
     cd_expect c = ns \<and> ns \<le> 1 \<and> cd_ns c \<le> 1 \<and> cd_chain c = [] \<and> (\<forall>n \<in> set (cd_naks c). n \<le> 3)"

lemma idle_naks: "card_idle ns c \<Longrightarrow> naks_bounded 0 c"
  by (cases "cd_naks c") (auto simp: card_idle_def naks_bounded_def nak_head_def)

text \<open>The state when the last block of the chain is on the line.\<close>

lemma engine_sends:
  fixes ifsc :: u8
  assumes "card_idle ns c" and "apdu \<noteq> []" and "0 < ifsc" and "ifsc < 255"
  obtains k c' where "t1_send_loop (line_ops app) (unat ifsc) apdu 0 ns 0 (line [] c) =
      Some (Inr (), cd_expect c', line (plain_block (i_pcb (cd_expect c') False 0) (drop k apdu)) c')"
    and "length (drop k apdu) \<le> 254" and "cd_expect c' \<le> 1" and "cd_chain c' = take k apdu"
    and "cd_nak_final c' = cd_nak_final c" and "cd_ns c' = cd_ns c" and "cd_seen c' = cd_seen c"
proof -
  have i: "0 < unat ifsc" "unat ifsc \<le> 254" using assms(3,4) by (simp_all add: word_less_nat_alt)
  have "0 < length apdu" "cd_expect c \<le> 1" "cd_chain c = take 0 apdu" "cd_expect c = ns"
    using assms(1,2) by (auto simp: card_idle_def)
  with send_loop_delivers [OF i this(1-3) idle_naks [OF assms(1)], of app] i(2) that show thesis by force
qed

text \<open>C36: The engine carries an APDU to a conforming card and its answer back.  For every APDU, every
  block size from 1 to 254, every card that is in step, rejects no chained block more than three
  times and accepts the last one, and every answer it returns in pieces of at most 254 bytes after
  any number of waiting-time extensions, the call returns; the card has executed exactly this APDU
  once, the response buffer starts with the card's answer, cut to the buffer, and reader and card are
  in step for the next APDU.\<close>

theorem engine_delivers:
  assumes "card_idle ns c" and "\<not> cd_nak_final c" and "apdu \<noteq> []" and "0 < ifsc" and "ifsc < 255"
    and "snd (app apdu) \<noteq> []" and "\<forall>x \<in> set (snd (app apdu)). length x \<le> 254"
  shows "\<exists>ns' response' c'.
    transmit_apdu_t1 (line_ops app) ifsc ns apdu response (line [] c) =
      Some (Inr (min (length (concat (snd (app apdu)))) (length response)), ns', response', line [] c') \<and>
    take (length (concat (snd (app apdu)))) response' = take (length response) (concat (snd (app apdu))) \<and>
    cd_seen c' = cd_seen c @ [apdu] \<and> cd_expect c' = ns' \<and> cd_chain c' = []"
proof -
  obtain k c1 where s: "t1_send_loop (line_ops app) (unat ifsc) apdu 0 ns 0 (line [] c) =
      Some (Inr (), cd_expect c1, line (plain_block (i_pcb (cd_expect c1) False 0) (drop k apdu)) c1)"
    and l: "length (drop k apdu) \<le> 254" and e: "cd_expect c1 \<le> 1" and ch: "cd_chain c1 = take k apdu"
    and f: "cd_nak_final c1 = cd_nak_final c" "cd_ns c1 = cd_ns c" "cd_seen c1 = cd_seen c"
    by (rule engine_sends [OF assms(1,3-5)])
  let ?d = "c1\<lparr>cd_expect := cd_expect c1 XOR 1, cd_chain := [], cd_seen := cd_seen c1 @ [apdu],
               cd_wtx := fst (app apdu), cd_out := snd (app apdu)\<rparr>"
  have "card_react app (plain_block (i_pcb (cd_expect c1) False 0) (drop k apdu)) c1 = card_next ?d"
    unfolding card_reacts_i_block [OF l e] using ch f(1) assms(2) by (simp add: card_block_def Let_def)
  moreover have "cd_ns ?d \<le> 1" using assms(1) f(2) by (simp add: card_idle_def)
  ultimately obtain response' d' where
    "t1_recv_loop (line_ops app) (cd_expect c1) 0 response
        (line (plain_block (i_pcb (cd_expect c1) False 0) (drop k apdu)) c1) =
      Some (Inr (min (length (concat (snd (app apdu)))) (length response)), (cd_expect c1 + 1) AND 1, response', line [] d')"
    "take (length (concat (snd (app apdu)))) response' = take (length response) (concat (snd (app apdu)))"
    "cd_seen d' = cd_seen ?d" "cd_expect d' = cd_expect ?d" "cd_chain d' = cd_chain ?d"
    using recv_loop_collects [of app _ c1 ?d 0 response "cd_expect c1"] assms(6,7) by force
  then show ?thesis
    using s f(3) toggle [OF e] by (simp add: transmit_apdu_t1_def line_idle)
qed

definition demo_card :: t1_card where
  "demo_card = \<lparr>cd_expect = 0, cd_chain = [], cd_naks = [2, 0, 3], cd_nak_final = False, cd_ns = 1, cd_wtx = [],
                cd_out = [], cd_seen = []\<rparr>"

theorem engine_delivers_witness:
  "\<exists>ns' response' c'.
    transmit_apdu_t1 (line_ops (\<lambda>a. ([5], [a, [0x90, 0x00]]))) 2 0 [1, 2, 3, 4, 5] (replicate 16 0) (line [] demo_card) =
      Some (Inr 7, ns', response', line [] c') \<and>
    take 7 response' = [1, 2, 3, 4, 5, 0x90, 0x00] \<and> cd_seen c' = [[1, 2, 3, 4, 5]] \<and> cd_expect c' = ns' \<and> cd_chain c' = []"
  using engine_delivers [of 0 demo_card "[1, 2, 3, 4, 5]" 2 "\<lambda>a. ([5], [a, [0x90, 0x00]])" "replicate 16 0"]
  by (simp add: card_idle_def demo_card_def) (simp add: numeral_eq_Suc)

text \<open>A rejected last block is never repeated.  When the card answers the block that ends the
  command with a request to repeat it, the engine ignores the request and waits: the call ends with
  the transport's timeout, the card has not executed the APDU, and reader and card are still in step,
  so the exchange is lost without need.  Chained blocks are repeated up to three times.\<close>

theorem engine_drops_rejected_block:
  assumes "card_idle ns c" and "cd_nak_final c" and "apdu \<noteq> []" and "0 < ifsc" and "ifsc < 255"
  shows "\<exists>c'. transmit_apdu_t1 (line_ops app) ifsc ns apdu response (line [] c) =
      Some (Inl (Transport ()), cd_expect c', response, line [] c') \<and> cd_seen c' = cd_seen c"
proof -
  obtain k c1 where s: "t1_send_loop (line_ops app) (unat ifsc) apdu 0 ns 0 (line [] c) =
      Some (Inr (), cd_expect c1, line (plain_block (i_pcb (cd_expect c1) False 0) (drop k apdu)) c1)"
    and l: "length (drop k apdu) \<le> 254" and e: "cd_expect c1 \<le> 1"
    and f: "cd_nak_final c1 = cd_nak_final c" "cd_seen c1 = cd_seen c"
    by (rule engine_sends [OF assms(1,3-5)])
  have "card_react app (plain_block (i_pcb (cd_expect c1) False 0) (drop k apdu)) c1 =
      (Some (plain_block (r_pcb (cd_expect c1) 1) []), c1)"
    unfolding card_reacts_i_block [OF l e] using f(1) assms(2) by (simp add: card_block_def)
  note nak = line_recv_block [OF this, of 5000, simplified]
  have quiet: "recv_block (line_ops app) (replicate 258 0) 5000 (line [] c1) = (Inl (Transport ()), line [] c1)"
    by (simp add: recv_block_def line_ops_def line_recv_def card_react_def wf_block_def)
  have "t1_recv_loop (line_ops app) (cd_expect c1) 0 response (line [] c1) =
      Some (Inl (Transport ()), cd_expect c1, response, line [] c1)"
    by (subst t1_recv_loop.simps) (simp add: quiet)
  then have "t1_recv_loop (line_ops app) (cd_expect c1) 0 response
      (line (plain_block (i_pcb (cd_expect c1) False 0) (drop k apdu)) c1) =
      Some (Inl (Transport ()), cd_expect c1, response, line [] c1)"
    using r_pcb_bits [OF e] by (subst t1_recv_loop.simps) (simp add: nak)
  then show ?thesis using s f(2) by (simp add: transmit_apdu_t1_def line_idle)
qed

theorem engine_drops_rejected_block_witness:
  "\<exists>c'. transmit_apdu_t1 (line_ops (\<lambda>a. ([], [a]))) 4 0 [1, 2, 3, 4, 5] [] (line [] (demo_card\<lparr>cd_nak_final := True\<rparr>)) =
     Some (Inl (Transport ()), cd_expect c', [], line [] c') \<and> cd_seen c' = []"
  using engine_drops_rejected_block [of 0 "demo_card\<lparr>cd_nak_final := True\<rparr>" "[1, 2, 3, 4, 5]" 4 "\<lambda>a. ([], [a])" "[]"]
  by (simp add: card_idle_def demo_card_def)

end
