(* ===== verification/Pps_Fsm.thy ===== *)
theory Pps_Fsm
  imports Atr "HOL-Library.Sublist"
begin

text \<open>
  The PPS state machine of the contact firmware (\<open>firmware/ccid-firmware/src/pps_fsm.rs\<close>): building the
  request, consuming the card's response byte by byte, and the negotiation loop of the bit-banging
  driver that runs it (\<open>smartcard_bitbang.rs\<close>).
\<close>

section \<open>The machine\<close>

datatype pps_state =
  Init | TxRequest | WaitPpsx | WaitPps0 | WaitPps1 | WaitPps2 | WaitPps3 | WaitPck | Done | Failed

datatype pps_result = Success | Mismatch | PpsTimeout | PpsError

abbreviation (input) PPS_MAX_LEN :: nat where "PPS_MAX_LEN \<equiv> 6"

record pps_fsm =
  pf_state :: pps_state
  pf_tx_buf :: bytes
  pf_tx_len :: nat
  pf_rx_buf :: bytes
  pf_rx_len :: nat
  pf_pps0_recv :: u8
  pf_fi :: u16
  pf_di :: u8
  pf_protocol :: u8

definition pps_new :: pps_fsm where
  "pps_new =
     \<lparr>pf_state = Init, pf_tx_buf = replicate PPS_MAX_LEN 0, pf_tx_len = 0,
      pf_rx_buf = replicate PPS_MAX_LEN 0, pf_rx_len = 0, pf_pps0_recv = 0, pf_fi = 372, pf_di = 1,
      pf_protocol = 0\<rparr>"

definition pps_request :: "pps_fsm \<Rightarrow> bytes outcome" where
  "pps_request f = slice (pf_tx_buf f) 0 (pf_tx_len f)"

text \<open>Storing one byte at the end of either buffer.\<close>

definition pps_put_tx :: "u8 \<Rightarrow> pps_fsm \<Rightarrow> pps_fsm outcome" where
  "pps_put_tx b f = do {
     buf \<leftarrow> copy_at (pf_tx_buf f) (pf_tx_len f) [b];
     Some (f\<lparr>pf_tx_buf := buf, pf_tx_len := pf_tx_len f + 1\<rparr>)
   }"

definition pps_put_rx :: "u8 \<Rightarrow> pps_fsm \<Rightarrow> pps_fsm outcome" where
  "pps_put_rx b f = do {
     buf \<leftarrow> copy_at (pf_rx_buf f) (pf_rx_len f) [b];
     Some (f\<lparr>pf_rx_buf := buf, pf_rx_len := pf_rx_len f + 1\<rparr>)
   }"

definition pps_finish_request :: "pps_fsm \<Rightarrow> (bytes \<times> pps_fsm) outcome" where
  "pps_finish_request f = do {
     f \<leftarrow> pps_put_tx (xor_fold (take (pf_tx_len f) (pf_tx_buf f))) f;
     let f = f\<lparr>pf_state := TxRequest\<rparr>;
     req \<leftarrow> pps_request f;
     Some (req, f)
   }"

definition build_request :: "u8 \<Rightarrow> u8 \<Rightarrow> pps_fsm \<Rightarrow> (bytes \<times> pps_fsm) outcome" where
  "build_request protocol ta1 f = do {
     let f = f\<lparr>pf_tx_len := 0, pf_rx_len := 0, pf_pps0_recv := 0, pf_protocol := protocol\<rparr>;
     f \<leftarrow> pps_put_tx 0xFF f;
     f \<leftarrow> pps_put_tx (0x10 OR (protocol AND 0x0F)) f;
     f \<leftarrow> pps_put_tx ta1 f;
     pps_finish_request f
   }"

definition build_minimal_request :: "u8 \<Rightarrow> pps_fsm \<Rightarrow> (bytes \<times> pps_fsm) outcome" where
  "build_minimal_request protocol f = do {
     let f = f\<lparr>pf_tx_len := 0, pf_rx_len := 0, pf_pps0_recv := 0, pf_protocol := protocol\<rparr>;
     f \<leftarrow> pps_put_tx 0xFF f;
     f \<leftarrow> pps_put_tx (protocol AND 0x0F) f;
     pps_finish_request f
   }"

definition start_response :: "pps_fsm \<Rightarrow> pps_fsm" where
  "start_response f = f\<lparr>pf_state := WaitPpsx, pf_rx_len := 0\<rparr>"

definition pps_verify_response :: "pps_fsm \<Rightarrow> pps_fsm" where
  "pps_verify_response f =
     (if pf_rx_len f \<noteq> pf_tx_len f then f\<lparr>pf_state := Failed\<rparr>
      else if \<exists>i \<in> set [0..<pf_tx_len f]. pf_rx_buf f ! i \<noteq> pf_tx_buf f ! i then f\<lparr>pf_state := Failed\<rparr>
      else f\<lparr>pf_state := Done\<rparr>)"

definition process_byte :: "u8 \<Rightarrow> pps_fsm \<Rightarrow> pps_fsm outcome" where
  "process_byte b f =
     (case pf_state f of
        WaitPpsx \<Rightarrow>
          if b = 0xFF then do { f \<leftarrow> pps_put_rx b f; Some (f\<lparr>pf_state := WaitPps0\<rparr>) }
          else Some (f\<lparr>pf_state := Failed\<rparr>)
      | WaitPps0 \<Rightarrow> do {
          f \<leftarrow> pps_put_rx b f;
          let f = f\<lparr>pf_pps0_recv := b\<rparr>;
          Some (f\<lparr>pf_state :=
                    (if b AND 0x10 \<noteq> 0 then WaitPps1
                     else if b AND 0x20 \<noteq> 0 then WaitPps2
                     else if b AND 0x40 \<noteq> 0 then WaitPps3
                     else WaitPck)\<rparr>)
        }
      | WaitPps1 \<Rightarrow> do {
          f \<leftarrow> pps_put_rx b f;
          Some (f\<lparr>pf_state :=
                    (if pf_pps0_recv f AND 0x20 \<noteq> 0 then WaitPps2
                     else if pf_pps0_recv f AND 0x40 \<noteq> 0 then WaitPps3
                     else WaitPck)\<rparr>)
        }
      | WaitPps2 \<Rightarrow> do {
          f \<leftarrow> pps_put_rx b f;
          Some (f\<lparr>pf_state := (if pf_pps0_recv f AND 0x40 \<noteq> 0 then WaitPps3 else WaitPck)\<rparr>)
        }
      | WaitPps3 \<Rightarrow> do { f \<leftarrow> pps_put_rx b f; Some (f\<lparr>pf_state := WaitPck\<rparr>) }
      | WaitPck \<Rightarrow> do {
          f \<leftarrow> pps_put_rx b f;
          let computed_pck = xor_fold (take (pf_rx_len f - 1) (pf_rx_buf f));
          Some (if computed_pck \<noteq> b then f\<lparr>pf_state := Failed\<rparr> else pps_verify_response f)
        }
      | _ \<Rightarrow> Some f)"

definition pps_result_of :: "pps_fsm \<Rightarrow> pps_result" where
  "pps_result_of f = (case pf_state f of Done \<Rightarrow> Success | Failed \<Rightarrow> Mismatch | _ \<Rightarrow> PpsError)"

definition set_timeout :: "pps_fsm \<Rightarrow> pps_fsm" where
  "set_timeout f = f\<lparr>pf_state := Failed\<rparr>"

definition pps_reset :: "pps_fsm \<Rightarrow> pps_fsm" where
  "pps_reset f = f\<lparr>pf_state := Init, pf_tx_len := 0, pf_rx_len := 0, pf_pps0_recv := 0\<rparr>"

definition fi_from_ta1 :: "u8 \<Rightarrow> u16" where
  "fi_from_ta1 ta1 =
     (let FI_TABLE = [0, 372, 558, 744, 1116, 1488, 1860, 0, 0, 512, 768, 1024, 1536, 2048, 0, 0];
          i = unat (drop_bit 4 ta1)
      in if i < length FI_TABLE \<and> FI_TABLE ! i \<noteq> 0 then FI_TABLE ! i else 372)"

definition di_from_ta1 :: "u8 \<Rightarrow> u8" where
  "di_from_ta1 ta1 =
     (let DI_TABLE = [0, 1, 2, 4, 8, 16, 32, 64, 12, 20, 0, 0, 0, 0, 0, 0];
          i = unat (ta1 AND 0x0F)
      in if i < length DI_TABLE \<and> DI_TABLE ! i \<noteq> 0 then DI_TABLE ! i else 1)"

section \<open>What the response loop computes\<close>

fun process_bytes :: "bytes \<Rightarrow> pps_fsm \<Rightarrow> pps_fsm outcome" where
  "process_bytes [] f = Some f"
| "process_bytes (b # bs) f = do { f \<leftarrow> process_byte b f; process_bytes bs f }"

text \<open>The states that follow the format byte, one for each parameter byte it announces, and the state of
  the machine after a proper beginning of a response.\<close>

definition param_states :: "u8 \<Rightarrow> pps_state list" where
  "param_states pps0 = (if pps0 AND 0x10 \<noteq> 0 then [WaitPps1] else []) @ (if pps0 AND 0x20 \<noteq> 0 then [WaitPps2] else [])
     @ (if pps0 AND 0x40 \<noteq> 0 then [WaitPps3] else [])"

fun pps_stage :: "bytes \<Rightarrow> pps_state" where
  "pps_stage [] = WaitPpsx"
| "pps_stage [a] = WaitPps0"
| "pps_stage (a # pps0 # xs) = (param_states pps0 @ [WaitPck]) ! length xs"

fun pps_open :: "bytes \<Rightarrow> bool" where
  "pps_open [] = True"
| "pps_open [a] = (a = 0xFF)"
| "pps_open (a # pps0 # xs) = (a = 0xFF \<and> length xs \<le> length (param_states pps0))"

definition pps_request_ok :: "bytes \<Rightarrow> bool" where
  "pps_request_ok req \<longleftrightarrow>
     3 \<le> length req \<and> req ! 0 = 0xFF \<and> length req = 3 + length (param_states (req ! 1)) \<and> xor_fold req = 0"

definition pps_sent :: "bytes \<Rightarrow> pps_fsm \<Rightarrow> bool" where
  "pps_sent req f \<longleftrightarrow> length (pf_tx_buf f) = 6 \<and> length (pf_rx_buf f) = 6 \<and> pf_tx_len f = length req \<and>
     take (length req) (pf_tx_buf f) = req"

definition pps_waiting :: "bytes \<Rightarrow> pps_fsm \<Rightarrow> bool" where
  "pps_waiting bs f \<longleftrightarrow> pps_open bs \<and> pf_state f = pps_stage bs \<and> pf_rx_len f = length bs \<and>
     take (length bs) (pf_rx_buf f) = bs \<and> (2 \<le> length bs \<longrightarrow> pf_pps0_recv f = bs ! 1)"

definition pps_verdict :: "bytes \<Rightarrow> bytes \<Rightarrow> pps_fsm \<Rightarrow> bool" where
  "pps_verdict req bs f \<longleftrightarrow> pps_sent req f \<and>
     (pps_waiting bs f \<or> pf_state f = Done \<and> prefix req bs \<or> pf_state f = Failed \<and> bs \<parallel> req)"

lemma prefix_nth: "prefix xs ys \<Longrightarrow> i < length xs \<Longrightarrow> xs ! i = ys ! i"
  by (auto simp: prefix_def nth_append)

lemma param_states_le: "length (param_states p) \<le> 3"
  by (simp add: param_states_def)

lemma open_length: "pps_open bs \<Longrightarrow> length bs \<le> 5"
  by (cases bs rule: pps_open.cases) (auto intro: order_trans [OF _ param_states_le] dest: order_trans [OF _ param_states_le])

lemma put_rx:
  assumes "pps_waiting bs f" and "pps_sent req f"
  obtains f' where "pps_put_rx b f = Some f'" and "take (length (bs @ [b])) (pf_rx_buf f') = bs @ [b]"
    and "pf_rx_len f' = length (bs @ [b])" and "pps_sent req f'" and "pf_pps0_recv f' = pf_pps0_recv f" and "pf_state f' = pf_state f"
proof -
  have "length bs \<le> 5" using assms(1) open_length by (auto simp: pps_waiting_def)
  then have "pps_put_rx b f = Some (f\<lparr>pf_rx_buf := bs @ [b] @ drop (length bs + 1) (pf_rx_buf f), pf_rx_len := length bs + 1\<rparr>)"
    using assms by (simp add: pps_put_rx_def copy_at_def pps_waiting_def pps_sent_def)
  then show thesis using that assms \<open>length bs \<le> 5\<close> by (simp add: pps_waiting_def pps_sent_def)
qed

lemma request_not_open: "pps_request_ok req \<Longrightarrow> pps_open bs \<Longrightarrow> \<not> prefix req bs"
proof
  assume a: "pps_request_ok req" "pps_open bs" "prefix req bs"
  then have "3 \<le> length bs" by (auto simp: pps_request_ok_def dest: prefix_length_le)
  then obtain x p xs where bs: "bs = x # p # xs" by (cases bs rule: pps_open.cases) auto
  moreover have "req ! 1 = bs ! 1" using a(1,3) by (auto simp: pps_request_ok_def prefix_def nth_append)
  ultimately show False using a prefix_length_le [OF a(3)] by (auto simp: pps_request_ok_def)
qed

lemma waiting_param:
  assumes "pps_sent req f" and "pps_waiting (a # p # xs) f" and "length xs < length (param_states p)"
  shows "\<exists>f'. process_byte b f = Some f' \<and> pps_sent req f' \<and> pps_waiting (a # p # xs @ [b]) f'"
proof -
  obtain f' where f': "pps_put_rx b f = Some f'" "take (length ((a # p # xs) @ [b])) (pf_rx_buf f') = (a # p # xs) @ [b]"
    "pf_rx_len f' = length ((a # p # xs) @ [b])" "pps_sent req f'" "pf_pps0_recv f' = pf_pps0_recv f" "pf_state f' = pf_state f"
    by (rule put_rx [OF assms(2,1)])
  let ?s = "(param_states p @ [WaitPck]) ! Suc (length xs)"
  have st: "pf_state f = param_states p ! length xs" and p: "pf_pps0_recv f = p" and a: "a = 0xFF"
    using assms(2,3) by (simp_all add: pps_waiting_def nth_append)
  have "process_byte b f = Some (f'\<lparr>pf_state := ?s\<rparr>)"
  proof -
    have "length xs = 0 \<or> length xs = 1 \<or> length xs = 2" using assms(3) param_states_le [of p] by linarith
    then show ?thesis
      using st p assms(3) f'(1,5)
      by (auto simp: process_byte_def param_states_def nth_append nth_Cons split: if_splits)
  qed
  moreover have "pps_waiting (a # p # xs @ [b]) (f'\<lparr>pf_state := ?s\<rparr>)"
    using f' p a assms(3) by (simp add: pps_waiting_def)
  ultimately show ?thesis using f'(4) by (simp add: pps_sent_def)
qed

lemma verify_response_iff:
  assumes "pps_sent req f" and "pf_rx_len f = length bs" and "take (length bs) (pf_rx_buf f) = bs" and "length bs \<le> 6"
  shows "pps_verify_response f = f\<lparr>pf_state := (if bs = req then Done else Failed)\<rparr>"
proof -
  have "bs = req \<longleftrightarrow> length bs = length req \<and> (\<forall>i < length req. bs ! i = req ! i)"
    by (auto simp: list_eq_iff_nth_eq)
  moreover have "pf_rx_buf f ! i = bs ! i" if "i < length bs" for i using that assms(3) by (metis nth_take)
  moreover have "pf_tx_buf f ! i = req ! i" if "i < length req" for i
    using that assms(1) by (metis nth_take pps_sent_def)
  ultimately show ?thesis using assms(1,2) by (auto simp: pps_verify_response_def pps_sent_def)
qed

lemma waiting_pck:
  assumes "pps_request_ok req" and "pps_sent req f" and "pps_waiting (a # p # xs) f" and "length xs = length (param_states p)"
  shows "\<exists>f'. process_byte b f = Some f' \<and> pps_verdict req (a # p # xs @ [b]) f'"
proof -
  let ?bs = "(a # p # xs) @ [b]"
  obtain f' where f': "pps_put_rx b f = Some f'" "take (length ?bs) (pf_rx_buf f') = ?bs"
    "pf_rx_len f' = length ?bs" "pps_sent req f'" "pf_pps0_recv f' = pf_pps0_recv f" "pf_state f' = pf_state f"
    by (rule put_rx [OF assms(3,2)])
  have st: "pf_state f = WaitPck" using assms(3,4) by (simp add: pps_waiting_def)
  have pre: "take (length ?bs - 1) (pf_rx_buf f') = a # p # xs"
    using arg_cong [OF f'(2), of "take (length ?bs - 1)"] by (simp add: take_take)
  have l: "length ?bs \<le> 6" using param_states_le [of p] assms(4) by simp
  have x: "xor_fold (a # p # xs) \<noteq> b \<Longrightarrow> ?bs \<noteq> req"
    using xor_fold_snoc [of "a # p # xs" b] xor_eq_0_u8 [of "xor_fold (a # p # xs)" b] assms(1)
    by (auto simp: pps_request_ok_def simp del: xor_fold_snoc)
  have par: "?bs \<parallel> req" if "?bs \<noteq> req"
  proof -
    have "length ?bs = length req" if "prefix ?bs req \<or> prefix req ?bs"
    proof -
      have "req ! 1 = ?bs ! 1" using that assms(1) prefix_nth by (fastforce simp: pps_request_ok_def)
      then show ?thesis using assms(1,4) by (simp add: pps_request_ok_def)
    qed
    then show ?thesis using that not_equal_is_parallel [of ?bs req] unfolding parallel_def by blast
  qed
  have v: "process_byte b f = Some (f'\<lparr>pf_state := (if ?bs = req then Done else Failed)\<rparr>)"
    using st f'(1,3) pre x verify_response_iff [OF f'(4,3,2) l] by (auto simp: process_byte_def)
  then show ?thesis using f'(4) par by (cases "?bs = req") (simp_all add: pps_verdict_def pps_sent_def)
qed

lemma waiting_step:
  assumes "pps_request_ok req" and "pps_sent req f" and "pps_waiting bs f"
  shows "\<exists>f'. process_byte b f = Some f' \<and> pps_verdict req (bs @ [b]) f'"
proof (cases bs rule: pps_open.cases)
  case 1
  have r: "req ! 0 = 0xFF" "req \<noteq> []" using assms(1) by (auto simp: pps_request_ok_def)
  obtain f' where f': "pps_put_rx b f = Some f'" "take (length (bs @ [b])) (pf_rx_buf f') = bs @ [b]"
    "pf_rx_len f' = length (bs @ [b])" "pps_sent req f'"
    using put_rx [OF assms(3,2)] by metis
  show ?thesis
  proof (cases "b = 0xFF")
    case True
    then have "process_byte b f = Some (f'\<lparr>pf_state := WaitPps0\<rparr>)"
      using f'(1) assms(3) 1 by (simp add: process_byte_def pps_waiting_def)
    then show ?thesis using f' 1 True by (simp add: pps_verdict_def pps_waiting_def pps_sent_def)
  next
    case False
    then have "[b] \<parallel> req" using r by (cases req) (auto simp: parallel_def)
    then show ?thesis
      using False assms(2,3) 1 by (simp add: process_byte_def pps_waiting_def pps_verdict_def pps_sent_def)
  qed
next
  case (2 a)
  obtain f' where f': "pps_put_rx b f = Some f'" "take (length (bs @ [b])) (pf_rx_buf f') = bs @ [b]"
    "pf_rx_len f' = length (bs @ [b])" "pps_sent req f'"
    using put_rx [OF assms(3,2)] by metis
  have "process_byte b f = Some (f'\<lparr>pf_pps0_recv := b, pf_state := (param_states b @ [WaitPck]) ! 0\<rparr>)"
    using f'(1) assms(3) 2 by (simp add: process_byte_def pps_waiting_def param_states_def)
  then show ?thesis using f' 2 assms(3) by (simp add: pps_verdict_def pps_waiting_def pps_sent_def)
next
  case (3 a p xs)
  then have "length xs \<le> length (param_states p)" using assms(3) by (simp add: pps_waiting_def)
  then show ?thesis
    using waiting_param [OF assms(2), of a p xs b] waiting_pck [OF assms(1,2), of a p xs b] assms(3) 3
    by (cases "length xs = length (param_states p)") (auto simp: pps_verdict_def)
qed

lemma process_bytes_snoc: "process_bytes (bs @ [b]) f = process_bytes bs f \<bind> process_byte b"
proof (induction bs arbitrary: f)
  case Nil
  show ?case by (cases "process_byte b f") simp_all
next
  case (Cons a bs)
  then show ?case by (cases "process_byte a f") simp_all
qed

lemma response_verdict:
  assumes "pps_request_ok req" and "pps_sent req f" and "pps_waiting [] f"
  shows "\<exists>f'. process_bytes bs f = Some f' \<and> pps_verdict req bs f'"
proof (induction bs rule: rev_induct)
  case Nil
  then show ?case using assms by (simp add: pps_verdict_def)
next
  case (snoc b bs)
  then obtain f' where f': "process_bytes bs f = Some f'" "pps_verdict req bs f'" by blast
  then consider "pps_waiting bs f'" "pps_sent req f'" | "pf_state f' = Done" "prefix req bs" | "pf_state f' = Failed" "bs \<parallel> req"
    by (auto simp: pps_verdict_def)
  then show ?case
  proof cases
    case 1
    with waiting_step [OF assms(1) 1(2,1), of b] f'(1) show ?thesis by (auto simp: process_bytes_snoc)
  next
    case 2
    with f' show ?thesis by (auto simp: process_bytes_snoc process_byte_def pps_verdict_def)
  next
    case 3
    then have "bs @ [b] \<parallel> req" using parallel_append [of bs req "[b]" "[]"] by simp
    with 3 f' show ?thesis by (auto simp: process_bytes_snoc process_byte_def pps_verdict_def)
  qed
qed

section \<open>Requests\<close>

definition pps_ok :: "pps_fsm \<Rightarrow> bool" where
  "pps_ok f \<longleftrightarrow> length (pf_tx_buf f) = 6 \<and> length (pf_rx_buf f) = 6"

definition full_pps :: "u8 \<Rightarrow> u8 \<Rightarrow> bytes" where
  "full_pps protocol ta1 =
     (let h = [0xFF, 0x10 OR (protocol AND 0x0F), ta1] in h @ [xor_fold h])"

definition minimal_pps :: "u8 \<Rightarrow> bytes" where
  "minimal_pps protocol = (let h = [0xFF, protocol AND 0x0F] in h @ [xor_fold h])"

definition pps_building :: "bytes \<Rightarrow> pps_fsm \<Rightarrow> bool" where
  "pps_building req f \<longleftrightarrow> pps_ok f \<and> pf_tx_len f = length req \<and> take (length req) (pf_tx_buf f) = req"

lemma put_tx:
  assumes "pps_building req f" and "length req < 6"
  shows "\<exists>f'. pps_put_tx b f = Some f' \<and> pps_building (req @ [b]) f'"
  using assms by (simp add: pps_put_tx_def copy_at_def pps_building_def pps_ok_def)

lemma finish_request:
  assumes "pps_building req f" and "length req < 6"
  shows "\<exists>f'. pps_finish_request f = Some (req @ [xor_fold req], f') \<and> pps_sent (req @ [xor_fold req]) (start_response f')
    \<and> pps_waiting [] (start_response f')"
proof -
  obtain f1 where f1: "pps_put_tx (xor_fold req) f = Some f1" "pps_building (req @ [xor_fold req]) f1"
    using put_tx [OF assms] by blast
  then have "slice (pf_tx_buf f1) 0 (pf_tx_len f1) = Some (req @ [xor_fold req])"
    using assms(2) by (simp add: slice_def pps_building_def pps_ok_def)
  with f1 assms(1) show ?thesis
    by (simp add: pps_finish_request_def pps_request_def pps_sent_def pps_waiting_def start_response_def pps_building_def
        pps_ok_def)
qed

lemma protocol_bits:
  "(protocol AND 0x0F) AND 0x10 = (0 :: u8)" "(protocol AND 0x0F) AND 0x20 = (0 :: u8)" "(protocol AND 0x0F) AND 0x40 = (0 :: u8)"
  by (simp_all add: and.assoc)

lemma param_states_requests: "param_states (protocol AND 0x0F) = []" "param_states (0x10 OR (protocol AND 0x0F)) = [WaitPps1]"
  by (simp_all add: param_states_def protocol_bits bit.conj_disj_distrib2)

lemma build_request_ok:
  assumes "pps_ok f"
  shows "\<exists>f1. build_request protocol ta1 f = Some (full_pps protocol ta1, f1) \<and>
    pps_sent (full_pps protocol ta1) (start_response f1) \<and> pps_waiting [] (start_response f1)"
proof -
  let ?f = "f\<lparr>pf_tx_len := 0, pf_rx_len := 0, pf_pps0_recv := 0, pf_protocol := protocol\<rparr>" and ?p = "0x10 OR (protocol AND 0x0F)"
  have 0: "pps_building [] ?f" using assms by (simp add: pps_building_def pps_ok_def)
  obtain f1 where 1: "pps_put_tx 0xFF ?f = Some f1" "pps_building [0xFF] f1" using put_tx [OF 0] by auto
  obtain f2 where 2: "pps_put_tx ?p f1 = Some f2" "pps_building [0xFF, ?p] f2" using put_tx [OF 1(2)] by auto
  obtain f3 where 3: "pps_put_tx ta1 f2 = Some f3" "pps_building [0xFF, ?p, ta1] f3" using put_tx [OF 2(2)] by auto
  from finish_request [OF 3(2)] show ?thesis by (simp add: build_request_def 1(1) 2(1) 3(1) full_pps_def)
qed

lemma build_minimal_request_ok:
  assumes "pps_ok f"
  shows "\<exists>f1. build_minimal_request protocol f = Some (minimal_pps protocol, f1) \<and>
    pps_sent (minimal_pps protocol) (start_response f1) \<and> pps_waiting [] (start_response f1)"
proof -
  let ?f = "f\<lparr>pf_tx_len := 0, pf_rx_len := 0, pf_pps0_recv := 0, pf_protocol := protocol\<rparr>" and ?p = "protocol AND 0x0F"
  have 0: "pps_building [] ?f" using assms by (simp add: pps_building_def pps_ok_def)
  obtain f1 where 1: "pps_put_tx 0xFF ?f = Some f1" "pps_building [0xFF] f1" using put_tx [OF 0] by auto
  obtain f2 where 2: "pps_put_tx ?p f1 = Some f2" "pps_building [0xFF, ?p] f2" using put_tx [OF 1(2)] by auto
  from finish_request [OF 2(2)] show ?thesis by (simp add: build_minimal_request_def 1(1) 2(1) minimal_pps_def)
qed

lemma requests_well_formed: "pps_request_ok (full_pps protocol ta1)" "pps_request_ok (minimal_pps protocol)"
  using xor_fold_snoc_self [of "[0xFF, 0x10 OR (protocol AND 0x0F), ta1]"] xor_fold_snoc_self [of "[0xFF, protocol AND 0x0F]"]
  by (simp_all add: pps_request_ok_def full_pps_def minimal_pps_def Let_def param_states_requests)

definition pps_decides :: "bytes \<Rightarrow> bytes \<Rightarrow> pps_fsm \<Rightarrow> bool" where
  "pps_decides req bs f \<longleftrightarrow> (\<exists>f'. process_bytes bs (start_response f) = Some f' \<and>
     (pf_state f' = Done \<longleftrightarrow> prefix req bs) \<and> (6 \<le> length bs \<longrightarrow> pf_state f' = Done \<or> pf_state f' = Failed))"

lemma stage_not_final: "pps_open bs \<Longrightarrow> pps_stage bs \<noteq> Done \<and> pps_stage bs \<noteq> Failed"
  by (cases bs rule: pps_open.cases) (auto simp: nth_append param_states_def nth_Cons split: if_splits nat.split)

lemma sent_decides:
  assumes "pps_request_ok req" and "pps_sent req (start_response f)" and "pps_waiting [] (start_response f)"
  shows "pps_decides req bs f"
proof -
  obtain f' where f': "process_bytes bs (start_response f) = Some f'" "pps_verdict req bs f'"
    using response_verdict [OF assms] by blast
  have "pf_state f' \<noteq> Done \<and> \<not> prefix req bs \<and> length bs < 6" if "pps_waiting bs f'"
  proof -
    have o: "pps_open bs" "pf_state f' = pps_stage bs" using that by (simp_all add: pps_waiting_def)
    then show ?thesis using stage_not_final [of bs] request_not_open [OF assms(1)] open_length [of bs] by auto
  qed
  moreover have "bs \<parallel> req \<Longrightarrow> \<not> prefix req bs" by (auto simp: parallel_def)
  ultimately show ?thesis using f' by (auto simp: pps_decides_def pps_verdict_def)
qed

text \<open>Speed negotiation succeeds on the exact echo and on nothing else.  From any machine the request
  with a speed byte and the one without are built as ISO 7816-3 frames them; whatever bytes then
  arrive, the machine never writes past its buffer, it ends in \<open>Done\<close> if and only if the bytes begin
  with the request itself, and after six bytes it has decided one way or the other.\<close>

theorem pps_accepts_exact_echo:
  assumes "pps_ok f"
  shows "(\<exists>f1. build_request protocol ta1 f = Some (full_pps protocol ta1, f1) \<and> pps_decides (full_pps protocol ta1) bs f1) \<and>
    (\<exists>f1. build_minimal_request protocol f = Some (minimal_pps protocol, f1) \<and> pps_decides (minimal_pps protocol) bs f1)"
  using build_request_ok [OF assms] build_minimal_request_ok [OF assms]
    sent_decides [OF requests_well_formed(1)] sent_decides [OF requests_well_formed(2)] by blast

theorem pps_accepts_exact_echo_witness:
  "\<exists>f1. build_request 1 0x96 pps_new = Some ([0xFF, 0x11, 0x96, 0x78], f1) \<and> pps_decides [0xFF, 0x11, 0x96, 0x78] [0xFF, 0x01, 0xFE] f1"
  using pps_accepts_exact_echo [of pps_new 1 "0x96" "[0xFF, 0x01, 0xFE]"]
  by (simp add: pps_ok_def pps_new_def full_pps_def xor_fold_def)

end
