(* ===== verification/Smartcard_Common.thy ===== *)
theory Smartcard_Common
  imports Pps_Fsm Driver
begin

text \<open>
  The contact-card routines the firmware's two drivers share
  (\<open>firmware/ccid-firmware/src/smartcard_common.rs\<close>): T=1 block lengths and line framing, the firmware's
  own ATR parser, the IFS negotiation and the T=0 exchange; and the parts of the drivers that use them
  without touching a register (\<open>smartcard.rs\<close>, \<open>smartcard_bitbang.rs\<close>).  The byte line is the parameter
  \<open>io\<close> with a state of its own.  Loops that end only when the card lets them are partial functions, in
  which \<open>None\<close> means that the call does not return.
\<close>

section \<open>Constants and framing\<close>

record smartcard_config =
  sc_power_on_delay_ms :: u32
  sc_reset_delay_ms :: u32
  sc_atr_post_rst_delay_ms :: u32
  sc_clk_to_rst_delay_ms :: u32
  sc_atr_timeout_ms :: u32
  sc_atr_byte_timeout_ms :: u32
  sc_byte_timeout_ms :: u32
  sc_procedure_timeout_ms :: u32
  sc_default_etu :: u32
  sc_max_clk_hz :: u32

definition SMARTCARD_CONFIG_DEFAULT :: smartcard_config where
  "SMARTCARD_CONFIG_DEFAULT =
     \<lparr>sc_power_on_delay_ms = 50, sc_reset_delay_ms = 25, sc_atr_post_rst_delay_ms = 20,
      sc_clk_to_rst_delay_ms = 15, sc_atr_timeout_ms = 400, sc_atr_byte_timeout_ms = 1000,
      sc_byte_timeout_ms = 200, sc_procedure_timeout_ms = 5000, sc_default_etu = 372, sc_max_clk_hz = 5000000\<rparr>"

definition t1_block_total_len :: "bytes \<Rightarrow> nat \<Rightarrow> nat option" where
  "t1_block_total_len prologue buf_len =
     (if length prologue < 3 then None
      else
        let inf_len = unat (prologue ! 2); total_len = inf_len + 4 in
        if buf_len < total_len then None else Some total_len)"

abbreviation (input) CR2_STOP_SMARTCARD_1_5 :: u16 where "CR2_STOP_SMARTCARD_1_5 \<equiv> 0x3000"
abbreviation (input) GUARD_TIME_DEFAULT_N :: u16 where "GUARD_TIME_DEFAULT_N \<equiv> 2"
abbreviation (input) T0_GUARD_TIME_ETU :: u16 where "T0_GUARD_TIME_ETU \<equiv> 16"

definition t1_usart_framing :: "u8 \<Rightarrow> u16 \<times> u16" where
  "t1_usart_framing guard_time_n =
     (let gt = (if guard_time_n = 255 then 0 else ucast guard_time_n)
      in (CR2_STOP_SMARTCARD_1_5, gt))"

abbreviation (input) SC_ATR_MAX_LEN :: nat where "SC_ATR_MAX_LEN \<equiv> 33"
abbreviation (input) SC_T0_GET_RESPONSE_MAX :: u8 where "SC_T0_GET_RESPONSE_MAX \<equiv> 32"
abbreviation (input) SW1_NULL :: u8 where "SW1_NULL \<equiv> 0x60"
abbreviation (input) SW1_GET_RESPONSE :: u8 where "SW1_GET_RESPONSE \<equiv> 0x61"
abbreviation (input) SW1_WRONG_LENGTH :: u8 where "SW1_WRONG_LENGTH \<equiv> 0x6C"
abbreviation (input) INS_GET_RESPONSE :: u8 where "INS_GET_RESPONSE \<equiv> 0xC0"
abbreviation (input) DEFAULT_TA1 :: u8 where "DEFAULT_TA1 \<equiv> 0x11"

datatype smartcard_error =
  ScNoCard | ScTimeout | ScInvalidATR | ScParityError | ScProtocolError | ScBufferOverflow | ScHardwareError

fun smartcard_error_class :: "smartcard_error \<Rightarrow> xfr_error_kind" where
  "smartcard_error_class ScParityError = Parity"
| "smartcard_error_class ScTimeout = Timeout"
| "smartcard_error_class _ = Unclassified"

section \<open>The firmware's ATR parser\<close>

text \<open>The parameters have the fields of the protocol crate's type, and TB, TC and TD are read as there; the
  tables for TA1 are the firmware's own, and the level counter is not checked for overflow.\<close>

definition fw_atr_ta :: "bytes \<Rightarrow> u8 \<Rightarrow> u8 \<Rightarrow> u8 \<Rightarrow> nat \<Rightarrow> atr_params \<Rightarrow> atr_params + nat \<times> atr_params" where
  "fw_atr_ta atr y level td_protocol i p =
     (if y AND 1 = 0 then Inr (i, p)
      else if length atr \<le> i then Inl p
      else let ta = atr ! i in
        Inr (i + 1,
          if level = 1 then
            p\<lparr>ap_ta1 := ta, ap_has_ta1 := True, ap_fi := fi_from_ta1 ta, ap_di := di_from_ta1 ta\<rparr>
          else if 3 \<le> level \<and> td_protocol = 1 then p\<lparr>ap_ifsc := ta\<rparr>
          else p))"

lemma fw_step_index: "fw_atr_ta atr y l t i p = Inr (j, q) \<Longrightarrow> i \<le> j"
  by (auto simp: fw_atr_ta_def Let_def split: if_splits)

function fw_parse_levels :: "bytes \<Rightarrow> u8 \<Rightarrow> nat \<Rightarrow> u8 \<Rightarrow> u8 \<Rightarrow> atr_params \<Rightarrow> atr_params" where
  "fw_parse_levels atr y i level td_protocol p =
     (case fw_atr_ta atr y level td_protocol i p of
        Inl p \<Rightarrow> p
      | Inr (i, p) \<Rightarrow>
     (case atr_tb atr y level td_protocol i p of
        Inl p \<Rightarrow> p
      | Inr (i, p) \<Rightarrow>
     (case atr_tc atr y level td_protocol i p of
        Inl p \<Rightarrow> p
      | Inr (i, p) \<Rightarrow>
        if y AND 8 = 0 then p
        else if length atr \<le> i then p
        else fw_parse_levels atr (drop_bit 4 (atr ! i) AND 0x0F) (i + 1) (level + 1)
               (atr ! i AND 0x0F) (atr_td_step level (atr ! i AND 0x0F) p))))"
  by pat_completeness auto
termination
  by (relation "measure (\<lambda>(atr, y, i, level, t, p). length atr - i)")
     (auto dest!: atr_step_index fw_step_index)

declare fw_parse_levels.simps [simp del]

definition fw_parse_atr :: "bytes \<Rightarrow> atr_params" where
  "fw_parse_atr atr =
     (if length atr < 2 then atr_params_default
      else fw_parse_levels atr (drop_bit 4 (atr ! 1) AND 0x0F) 2 1 0 atr_params_default)"

definition detect_protocol_from_atr :: "bytes \<Rightarrow> u8" where
  "detect_protocol_from_atr atr =
     (if length atr < 3 then 0
      else
        let y1 = drop_bit 4 (atr ! 1) AND 0x0F;
            i = 2;
            i = (if y1 AND 0x01 \<noteq> 0 then i + 1 else i);
            i = (if y1 AND 0x02 \<noteq> 0 then i + 1 else i);
            i = (if y1 AND 0x04 \<noteq> 0 then i + 1 else i)
        in if y1 AND 0x08 \<noteq> 0 \<and> i < length atr then atr ! i AND 0x0F else 0)"

definition fw_verify_atr_tck :: "bytes \<Rightarrow> u8 \<Rightarrow> bool" where
  "fw_verify_atr_tck atr protocol =
     (if protocol \<noteq> 1 then True
      else if length atr < 3 then True
      else
        let expected = foldl (\<lambda>acc b. acc XOR b) 0 (take (length atr - 2) (drop 1 atr))
        in expected = atr ! (length atr - 1))"

section \<open>The byte line\<close>

record 't smartcard_io =
  io_send_byte :: "u8 \<Rightarrow> 't \<Rightarrow> (smartcard_error + unit) \<times> 't"
  io_recv_byte_timeout :: "u32 \<Rightarrow> 't \<Rightarrow> (smartcard_error + u8) \<times> 't"
  io_prepare_rx :: "'t \<Rightarrow> 't"

fun io_send :: "'t smartcard_io \<Rightarrow> bytes \<Rightarrow> 't \<Rightarrow> (smartcard_error + unit) \<times> 't" where
  "io_send io [] t = (Inr (), t)"
| "io_send io (b # bs) t =
     (case io_send_byte io b t of
        (Inl e, t) \<Rightarrow> (Inl e, t)
      | (Inr _, t) \<Rightarrow> io_send io bs t)"

text \<open>Reads with the given timeouts, one after the other.\<close>

fun io_recv :: "'t smartcard_io \<Rightarrow> u32 list \<Rightarrow> 't \<Rightarrow> (smartcard_error + bytes) \<times> 't" where
  "io_recv io [] t = (Inr [], t)"
| "io_recv io (ms # rest) t =
     (case io_recv_byte_timeout io ms t of
        (Inl e, t) \<Rightarrow> (Inl e, t)
      | (Inr b, t) \<Rightarrow>
          (case io_recv io rest t of
             (Inl e, t) \<Rightarrow> (Inl e, t)
           | (Inr bs, t) \<Rightarrow> (Inr (b # bs), t)))"

definition do_ifs_negotiation_t1 :: "'t smartcard_io \<Rightarrow> 't \<Rightarrow> (unit + u8) \<times> 't" where
  "do_ifs_negotiation_t1 io t =
     (let S_IFS_REQ = 0xC1; S_IFS_RESP = 0xE1; IFSD = 254;
          lrc_val = S_IFS_REQ XOR 1 XOR IFSD
      in case io_send io [0, S_IFS_REQ, 1, IFSD, lrc_val] t of
           (Inl _, t) \<Rightarrow> (Inl (), t)
         | (Inr _, t) \<Rightarrow>
             (case io_recv io [2000, 500, 500] (io_prepare_rx io t) of
                (Inl _, t) \<Rightarrow> (Inl (), t)
              | (Inr prologue, t) \<Rightarrow>
                  let nad = prologue ! 0; pcb = prologue ! 1; len = prologue ! 2 in
                  if pcb AND 0xC0 \<noteq> 0xC0 \<or> len \<noteq> 1 then (Inl (), t)
                  else
                    (case io_recv io [500, 500] t of
                       (Inl _, t) \<Rightarrow> (Inl (), t)
                     | (Inr rest, t) \<Rightarrow>
                         let ifsc = rest ! 0; lrc_recv = rest ! 1;
                             lrc_exp = nad XOR pcb XOR len XOR ifsc
                         in if lrc_recv \<noteq> lrc_exp then (Inl (), t)
                            else if pcb = S_IFS_RESP then (Inr ifsc, t)
                            else (Inl (), t))))"

end
