(* ===== verification/Contact_Atr.thy ===== *)
theory Contact_Atr
  imports Smartcard_Common
begin

text \<open>
  The contact firmware carries its own copy of the ATR routines.  It computes what the protocol crate
  computes, up to the one table entry on which they differ.
\<close>

section \<open>Tables\<close>

definition known_fi :: "atr_params \<Rightarrow> atr_params" where
  "known_fi p = (if ap_fi p = 0 then p\<lparr>ap_fi := 372\<rparr> else p)"

lemma nibble_cases: "n < 16 \<Longrightarrow> n \<in> {15, 14, 13, 12, 11, 10, 9, 8, 7, 6, 5, 4, 3, 2, 1, 0 :: nat}"
  by simp presburger

lemma fi_tables: "fi_from_ta1 ta = (if fi_from_ta1_high (drop_bit 4 ta) = 0 then 372 else fi_from_ta1_high (drop_bit 4 ta))"
proof -
  have "unat ta < 256" using unsigned_less [of ta] by simp
  then have "unat (drop_bit 4 ta) < 16" by (simp add: drop_bit_eq_div unat_div_distrib)
  from nibble_cases [OF this] show ?thesis
    by (elim insertE emptyE) (simp_all add: fi_from_ta1_def fi_from_ta1_high_def get_opt_def)
qed

lemma di_tables: "di_from_ta1 ta = di_from_ta1_low (ta AND 0x0F)"
proof -
  have "ta AND 0x0F \<le> 0x0F" by (rule word_and_le1)
  then have "unat (ta AND 0x0F) < 16" by (simp add: word_le_nat_alt)
  from nibble_cases [OF this] show ?thesis
    by (elim insertE emptyE) (simp_all add: di_from_ta1_def di_from_ta1_low_def get_opt_def)
qed

section \<open>The loop\<close>

abbreviation (input) on_params :: "(atr_params \<Rightarrow> atr_params) \<Rightarrow> atr_params + nat \<times> atr_params \<Rightarrow> atr_params + nat \<times> atr_params" where
  "on_params g \<equiv> map_sum g (map_prod id g)"

lemma steps_commute:
  "fw_atr_ta atr y l t i (known_fi p) = on_params known_fi (atr_ta atr y l t i p)"
  "atr_tb atr y l t i (known_fi p) = on_params known_fi (atr_tb atr y l t i p)"
  "atr_tc atr y l t i (known_fi p) = on_params known_fi (atr_tc atr y l t i p)"
  "atr_td_step l t (known_fi p) = known_fi (atr_td_step l t p)"
  by (auto simp: fw_atr_ta_def atr_ta_def atr_tb_def atr_tc_def atr_td_step_def known_fi_def Let_def fi_tables di_tables)

text \<open>TA, TB and TC of one level together.\<close>

definition level_read :: "(nat \<Rightarrow> atr_params \<Rightarrow> atr_params + nat \<times> atr_params) \<Rightarrow> bytes \<Rightarrow> u8 \<Rightarrow> u8 \<Rightarrow> u8 \<Rightarrow> nat \<Rightarrow> atr_params
    \<Rightarrow> atr_params + nat \<times> atr_params" where
  "level_read ta atr y level t i p =
     (case ta i p of
        Inl p \<Rightarrow> Inl p
      | Inr (i, p) \<Rightarrow> (case atr_tb atr y level t i p of Inl p \<Rightarrow> Inl p | Inr (i, p) \<Rightarrow> atr_tc atr y level t i p))"

lemma parse_levels_step:
  "parse_levels atr y i level t p =
     (case level_read (atr_ta atr y level t) atr y level t i p of
        Inl p \<Rightarrow> p
      | Inr (i, p) \<Rightarrow>
          if y AND 8 = 0 \<or> length atr \<le> i then p
          else if level = 255 then atr_td_step level (atr ! i AND 0x0F) p
          else parse_levels atr (drop_bit 4 (atr ! i) AND 0x0F) (i + 1) (level + 1) (atr ! i AND 0x0F)
                 (atr_td_step level (atr ! i AND 0x0F) p))"
  by (subst parse_levels.simps) (simp add: level_read_def split: sum.split prod.split)

lemma fw_parse_levels_step:
  "fw_parse_levels atr y i level t p =
     (case level_read (fw_atr_ta atr y level t) atr y level t i p of
        Inl p \<Rightarrow> p
      | Inr (i, p) \<Rightarrow>
          if y AND 8 = 0 \<or> length atr \<le> i then p
          else fw_parse_levels atr (drop_bit 4 (atr ! i) AND 0x0F) (i + 1) (level + 1) (atr ! i AND 0x0F)
                 (atr_td_step level (atr ! i AND 0x0F) p))"
  by (subst fw_parse_levels.simps) (simp add: level_read_def split: sum.split prod.split)

lemma level_read_index: "level_read (atr_ta atr y l t) atr y l t i p = Inr (j, q) \<Longrightarrow> i \<le> j"
  by (auto simp: level_read_def dest!: atr_step_index split: sum.splits)

lemma level_read_commute:
  "level_read (fw_atr_ta atr y l t) atr y l t i (known_fi p) = on_params known_fi (level_read (atr_ta atr y l t) atr y l t i p)"
  by (auto simp: level_read_def steps_commute split: sum.split)

lemma level_below:
  assumes "unat level + (length atr - i) \<le> 255" and "i \<le> m" and "m < length atr"
  shows "level \<noteq> (255 :: u8)" and "unat (level + 1) + (length atr - (m + 1)) \<le> 255"
proof -
  have l: "unat level < 255" using assms by linarith
  then show "level \<noteq> 255" by auto
  have "unat (level + 1) = unat level + 1" using l by (simp add: unat_word_ariths)
  then show "unat (level + 1) + (length atr - (m + 1)) \<le> 255" using assms by linarith
qed

lemma levels_agree:
  assumes "unat level + (length atr - i) \<le> 255"
  shows "fw_parse_levels atr y i level t (known_fi p) = known_fi (parse_levels atr y i level t p)"
  using assms
proof (induction "length atr - i" arbitrary: y i level t p rule: less_induct)
  case less
  show ?case
  proof (cases "level_read (atr_ta atr y level t) atr y level t i p")
    case (Inl q)
    then show ?thesis by (simp add: fw_parse_levels_step [of atr y i] parse_levels_step [of atr y i] level_read_commute)
  next
    case (Inr mq)
    then obtain m q where r: "level_read (atr_ta atr y level t) atr y level t i p = Inr (m, q)" by (cases mq) auto
    note im = level_read_index [OF r]
    show ?thesis
    proof (cases "y AND 8 = 0 \<or> length atr \<le> m")
      case False
      then have m: "m < length atr" by simp
      note b = level_below [OF less.prems im m]
      have "length atr - (m + 1) < length atr - i" using m im by linarith
      from less.hyps [OF this b(2)] False b(1) r show ?thesis
        by (simp add: fw_parse_levels_step [of atr y i] parse_levels_step [of atr y i] level_read_commute steps_commute)
    qed (use r in \<open>auto simp: fw_parse_levels_step [of atr y i] parse_levels_step [of atr y i] level_read_commute\<close>)
  qed
qed

lemma fw_parse_agrees:
  assumes "length atr \<le> 255"
  shows "fw_parse_atr atr = known_fi (parse_atr atr)"
proof -
  have "known_fi atr_params_default = atr_params_default" by (simp add: known_fi_def atr_params_default_def)
  then show ?thesis
    using levels_agree [of 1 atr 2 "drop_bit 4 (atr ! 1) AND 0x0F" 0 atr_params_default] assms
    by (simp add: fw_parse_atr_def parse_atr_def)
qed

text \<open>The protocol of the first TD is all that \<open>detect_protocol_from_atr\<close> looks for.\<close>

lemma steps_protocol:
  "atr_ta atr y l t i p = Inl q \<Longrightarrow> ap_protocol q = ap_protocol p" "atr_ta atr y l t i p = Inr (j, q) \<Longrightarrow> ap_protocol q = ap_protocol p"
  "atr_tb atr y l t i p = Inl q \<Longrightarrow> ap_protocol q = ap_protocol p" "atr_tb atr y l t i p = Inr (j, q) \<Longrightarrow> ap_protocol q = ap_protocol p"
  "atr_tc atr y l t i p = Inl q \<Longrightarrow> ap_protocol q = ap_protocol p" "atr_tc atr y l t i p = Inr (j, q) \<Longrightarrow> ap_protocol q = ap_protocol p"
  by (auto simp: atr_ta_def atr_tb_def atr_tc_def Let_def split: if_splits)

lemma level_read_protocol:
  "level_read (atr_ta atr y l t) atr y l t i p = Inl q \<Longrightarrow> ap_protocol q = ap_protocol p"
  "level_read (atr_ta atr y l t) atr y l t i p = Inr (j, q) \<Longrightarrow> ap_protocol q = ap_protocol p"
  by (auto simp: level_read_def steps_protocol split: sum.splits)

lemma levels_protocol:
  assumes "2 \<le> level"
  shows "ap_protocol (parse_levels atr y i level t p) = ap_protocol p"
  using assms
proof (induction "length atr - i" arbitrary: y i level t p rule: less_induct)
  case less
  have up: "2 \<le> level + 1" if "level \<noteq> 255"
  proof -
    have "unat level \<noteq> 255" "unat level < 256" using that unsigned_less [of level] by (simp_all add: word_unat_eq_iff)
    then show ?thesis using less.prems by (simp add: word_le_nat_alt unat_word_ariths)
  qed
  have ne: "level \<noteq> 1" using less.prems by (auto simp: word_le_nat_alt)
  show ?case
  proof (cases "level_read (atr_ta atr y level t) atr y level t i p")
    case (Inl q)
    then show ?thesis by (simp add: parse_levels_step [of atr y i] level_read_protocol)
  next
    case (Inr mq)
    then obtain m q where r: "level_read (atr_ta atr y level t) atr y level t i p = Inr (m, q)" by (cases mq) auto
    have "length atr - (m + 1) < length atr - i" if "m < length atr" using level_read_index [OF r] that by linarith
    from less.hyps [OF this up] level_read_protocol(2) [OF r] r show ?thesis
      by (simp add: parse_levels_step [of atr y i] atr_td_step_def ne)
  qed
qed

lemma detect_first_td:
  assumes "3 \<le> length atr"
  shows "ap_protocol (parse_levels atr y 2 1 0 atr_params_default) =
    (let i = 2 + (if y AND 1 \<noteq> 0 then 1 else 0) + (if y AND 2 \<noteq> 0 then 1 else 0) + (if y AND 4 \<noteq> 0 then 1 else 0)
     in if y AND 8 \<noteq> 0 \<and> i < length atr then atr ! i AND 0x0F else 0)"
proof -
  have p: "ap_protocol (parse_levels atr y' i 2 t q) = ap_protocol q" for y' i t q
    by (rule levels_protocol) simp
  show ?thesis
    using assms
    by (subst parse_levels.simps)
      (auto simp: p atr_ta_def atr_tb_def atr_tc_def atr_td_step_def Let_def atr_params_default_def eval_nat_numeral)
qed

text \<open>C38: The firmware's ATR routines agree with the protocol crate's.  For every ATR of at most 255 bytes
  the firmware's parser returns the parameters the crate's parser returns, except that a reserved Fi
  code yields 372 where the crate yields 0; the shortcut that only looks for the first TD returns the
  protocol both parsers find; and the checksum test is the same.\<close>

theorem firmware_atr_agrees:
  assumes "length atr \<le> 255"
  shows "fw_parse_atr atr = (parse_atr atr)\<lparr>ap_fi := (if ap_fi (parse_atr atr) = 0 then 372 else ap_fi (parse_atr atr))\<rparr> \<and>
    detect_protocol_from_atr atr = ap_protocol (parse_atr atr) \<and>
    fw_verify_atr_tck atr protocol = verify_atr_tck atr protocol"
proof (intro conjI)
  show "fw_parse_atr atr = (parse_atr atr)\<lparr>ap_fi := (if ap_fi (parse_atr atr) = 0 then 372 else ap_fi (parse_atr atr))\<rparr>"
    using fw_parse_agrees [OF assms] by (simp add: known_fi_def)
  consider "length atr < 2" | "length atr = 2" | "3 \<le> length atr" by linarith
  then show "detect_protocol_from_atr atr = ap_protocol (parse_atr atr)"
  proof cases
    case 1
    then show ?thesis by (simp add: detect_protocol_from_atr_def parse_atr_def atr_params_default_def)
  next
    case 2
    then show ?thesis
      by (subst parse_atr_def, subst parse_levels.simps)
        (simp add: detect_protocol_from_atr_def atr_params_default_def atr_ta_def atr_tb_def atr_tc_def)
  next
    case 3
    define y where "y = drop_bit 4 (atr ! 1) AND 0x0F"
    have "parse_atr atr = parse_levels atr y 2 1 0 atr_params_default" using 3 by (simp add: parse_atr_def y_def)
    then show ?thesis
      using detect_first_td [OF 3, of y] 3
      unfolding detect_protocol_from_atr_def y_def [symmetric] by (simp add: Let_def eval_nat_numeral)
  qed
  show "fw_verify_atr_tck atr protocol = verify_atr_tck atr protocol"
    by (simp add: fw_verify_atr_tck_def verify_atr_tck_def xor_fold_def Let_def)
qed

theorem firmware_atr_agrees_witness:
  "detect_protocol_from_atr [0x3B, 0x80, 0x81, 0x01] = ap_protocol (parse_atr [0x3B, 0x80, 0x81, 0x01])"
  using firmware_atr_agrees [of "[0x3B, 0x80, 0x81, 0x01]" 1] by simp

end
