(* ===== verification/T0_Exchange.thy ===== *)
theory T0_Exchange
  imports Smartcard_Common
begin

text \<open>
  The T=0 exchange of the contact firmware (\<open>transmit_apdu_t0\<close> in
  \<open>firmware/ccid-firmware/src/smartcard_common.rs\<close>), statement by statement: what is sent, how procedure
  bytes are taken, and what is stored as the response.
\<close>

section \<open>The exchange\<close>

text \<open>The locals of the function that its loops change.\<close>

record t0_state =
  t0_header :: bytes
  t0_body_offset :: nat
  t0_response :: bytes
  t0_response_len :: nat
  t0_get_response_count :: u8

datatype t0_next = T0Return "smartcard_error + nat" | T0Resend | T0Again

text \<open>A procedure byte that is not the NULL byte.\<close>

partial_function (option) t0_procedure ::
    "'t smartcard_io \<Rightarrow> u32 \<Rightarrow> 't \<Rightarrow> ((smartcard_error + u8) \<times> 't) option" where
  "t0_procedure io procedure_timeout_ms t =
     (case io_recv_byte_timeout io procedure_timeout_ms t of
        (Inl e, t) \<Rightarrow> Some (Inl e, t)
      | (Inr pb, t) \<Rightarrow> if pb = SW1_NULL then t0_procedure io procedure_timeout_ms t else Some (Inr pb, t))"

definition t0_send :: "'t smartcard_io \<Rightarrow> bytes \<Rightarrow> t0_state \<Rightarrow> 't \<Rightarrow> (smartcard_error + unit) \<times> t0_state \<times> 't" where
  "t0_send io command st t =
     (case io_send io (t0_header st) t of
        (Inl e, t) \<Rightarrow> (Inl e, st, t)
      | (Inr _, t) \<Rightarrow>
          if t0_body_offset st < length command then
            (case io_send io (drop (t0_body_offset st) command) t of
               (Inl e, t) \<Rightarrow> (Inl e, st, t)
             | (Inr _, t) \<Rightarrow> (Inr (), st\<lparr>t0_body_offset := length command\<rparr>, t))
          else (Inr (), st, t))"

text \<open>A status word is stored when it fits.\<close>

definition t0_store :: "u8 \<Rightarrow> u8 \<Rightarrow> t0_state \<Rightarrow> t0_state" where
  "t0_store sw1 sw2 st =
     (if t0_response_len st + 2 \<le> length (t0_response st)
      then st\<lparr>t0_response := (t0_response st)[t0_response_len st := sw1, t0_response_len st + 1 := sw2]\<rparr>
      else st)"

definition t0_advance :: "nat \<Rightarrow> t0_state \<Rightarrow> t0_state" where
  "t0_advance n st = st\<lparr>t0_response_len := t0_response_len st + n\<rparr>"

text \<open>Response data, written as it arrives from \<open>response_len + i\<close> on.\<close>

fun t0_data :: "'t smartcard_io \<Rightarrow> u32 \<Rightarrow> nat \<Rightarrow> nat \<Rightarrow> t0_state \<Rightarrow> 't \<Rightarrow> (smartcard_error + unit) \<times> t0_state \<times> 't" where
  "t0_data io byte_timeout_ms i 0 st t = (Inr (), st, t)"
| "t0_data io byte_timeout_ms i (Suc n) st t =
     (case io_recv_byte_timeout io byte_timeout_ms t of
        (Inl e, t) \<Rightarrow> (Inl e, st, t)
      | (Inr b, t) \<Rightarrow>
          t0_data io byte_timeout_ms (i + 1) n (st\<lparr>t0_response := (t0_response st)[t0_response_len st + i := b]\<rparr>) t)"

definition t0_get_response :: "u8 \<Rightarrow> bytes" where
  "t0_get_response sw2 = [0x00, INS_GET_RESPONSE, 0x00, 0x00, sw2]"

text \<open>The GET RESPONSE that follows a status 61 XX inside the acknowledged branch.\<close>

definition t0_fetch ::
    "'t smartcard_io \<Rightarrow> u32 \<Rightarrow> u32 \<Rightarrow> u8 \<Rightarrow> t0_state \<Rightarrow> 't \<Rightarrow> (t0_next \<times> t0_state \<times> 't) option" where
  "t0_fetch io procedure_timeout_ms byte_timeout_ms sw2 st t =
     (let st = st\<lparr>t0_get_response_count := t0_get_response_count st + 1\<rparr> in
      case io_send io (t0_get_response sw2) t of
        (Inl e, t) \<Rightarrow> Some (T0Return (Inl e), st, t)
      | (Inr _, t) \<Rightarrow> do {
          (r, t) \<leftarrow> t0_procedure io procedure_timeout_ms t;
          (case r of
             Inl e \<Rightarrow> Some (T0Return (Inl e), st, t)
           | Inr pb \<Rightarrow>
               if pb = INS_GET_RESPONSE \<or> pb = 0x4F then
                 let le = (if sw2 = 0 then 256 else unat sw2);
                     n = min le (length (t0_response st) - t0_response_len st);
                     (r, st, t) = t0_data io byte_timeout_ms 0 n st t
                 in (case r of
                       Inl e \<Rightarrow> Some (T0Return (Inl e), st, t)
                     | Inr _ \<Rightarrow>
                         let st = t0_advance n st in
                         (case io_recv io [byte_timeout_ms, byte_timeout_ms] t of
                            (Inl e, t) \<Rightarrow> Some (T0Return (Inl e), st, t)
                          | (Inr sw, t) \<Rightarrow>
                              let st = t0_advance 2 (t0_store (sw ! 0) (sw ! 1) st) in
                              if sw ! 0 = SW1_GET_RESPONSE
                              then Some (T0Resend, st\<lparr>t0_header := t0_get_response (sw ! 1), t0_body_offset := 5\<rparr>, t)
                              else Some (T0Return (Inr (t0_response_len st)), st, t)))
               else Some (T0Return (Inr (t0_response_len st)), st, t))
        })"

text \<open>The branch for a procedure byte that acknowledges the instruction.\<close>

definition t0_acknowledged ::
    "'t smartcard_io \<Rightarrow> u32 \<Rightarrow> u32 \<Rightarrow> t0_state \<Rightarrow> 't \<Rightarrow> (t0_next \<times> t0_state \<times> 't) option" where
  "t0_acknowledged io procedure_timeout_ms byte_timeout_ms st t =
     (case io_recv io [procedure_timeout_ms, byte_timeout_ms] t of
        (Inl e, t) \<Rightarrow> Some (T0Return (Inl e), st, t)
      | (Inr sw, t) \<Rightarrow>
          let sw1 = sw ! 0; sw2 = sw ! 1;
              st = t0_advance 2 (t0_store sw1 sw2 st)
          in if sw1 = SW1_WRONG_LENGTH then
               Some (T0Resend, st\<lparr>t0_header := (t0_header st)[4 := sw2], t0_body_offset := 5\<rparr>, t)
             else if sw1 = SW1_GET_RESPONSE \<and> t0_get_response_count st < SC_T0_GET_RESPONSE_MAX then
               t0_fetch io procedure_timeout_ms byte_timeout_ms sw2 st t
             else Some (T0Return (Inr (t0_response_len st)), st, t))"

text \<open>One procedure byte, after the NULL bytes.\<close>

definition t0_dispatch ::
    "'t smartcard_io \<Rightarrow> bytes \<Rightarrow> u32 \<Rightarrow> u32 \<Rightarrow> u8 \<Rightarrow> t0_state \<Rightarrow> 't \<Rightarrow> (t0_next \<times> t0_state \<times> 't) option" where
  "t0_dispatch io command procedure_timeout_ms byte_timeout_ms pb st t =
     (let ins = command ! 1 in
      if pb = ins then t0_acknowledged io procedure_timeout_ms byte_timeout_ms st t
      else if pb = ins XOR 0xFF then
        (if t0_body_offset st < length command then
           (case io_send io [command ! t0_body_offset st] t of
              (Inl e, t) \<Rightarrow> Some (T0Return (Inl e), st, t)
            | (Inr _, t) \<Rightarrow> Some (T0Again, st\<lparr>t0_body_offset := t0_body_offset st + 1\<rparr>, t))
         else Some (T0Again, st, t))
      else
        (case io_recv io [byte_timeout_ms] t of
           (Inl e, t) \<Rightarrow> Some (T0Return (Inl e), st, t)
         | (Inr r, t) \<Rightarrow>
             let sw2 = r ! 0 in
             if pb = SW1_GET_RESPONSE then
               (if SC_T0_GET_RESPONSE_MAX \<le> t0_get_response_count st
                then Some (T0Return (Inr (t0_response_len st + 2)), t0_store SW1_GET_RESPONSE sw2 st, t)
                else Some (T0Resend, st\<lparr>t0_get_response_count := t0_get_response_count st + 1,
                                        t0_header := t0_get_response sw2, t0_body_offset := 5\<rparr>, t))
             else if pb = SW1_WRONG_LENGTH then
               Some (T0Resend, st\<lparr>t0_header := (t0_header st)[4 := sw2], t0_body_offset := 5\<rparr>, t)
             else Some (T0Return (Inr (t0_response_len st + 2)), t0_store pb sw2 st, t)))"

text \<open>The two nested loops; \<open>resend\<close> says that the next round starts at the outer one.\<close>

partial_function (option) t0_loop ::
    "'t smartcard_io \<Rightarrow> bytes \<Rightarrow> u32 \<Rightarrow> u32 \<Rightarrow> bool \<Rightarrow> t0_state \<Rightarrow> 't
       \<Rightarrow> ((smartcard_error + nat) \<times> t0_state \<times> 't) option" where
  "t0_loop io command procedure_timeout_ms byte_timeout_ms resend st t =
     (let (r, st, t) = (if resend then t0_send io command st t else (Inr (), st, t)) in
      case r of
        Inl e \<Rightarrow> Some (Inl e, st, t)
      | Inr _ \<Rightarrow> do {
          (r, t) \<leftarrow> t0_procedure io procedure_timeout_ms t;
          (case r of
             Inl e \<Rightarrow> Some (Inl e, st, t)
           | Inr pb \<Rightarrow> do {
               (nx, st, t) \<leftarrow> t0_dispatch io command procedure_timeout_ms byte_timeout_ms pb st t;
               (case nx of
                  T0Return r \<Rightarrow> Some (r, st, t)
                | T0Resend \<Rightarrow> t0_loop io command procedure_timeout_ms byte_timeout_ms True st t
                | T0Again \<Rightarrow> t0_loop io command procedure_timeout_ms byte_timeout_ms False st t)
             })
        })"

definition transmit_apdu_t0 ::
    "'t smartcard_io \<Rightarrow> bytes \<Rightarrow> bytes \<Rightarrow> u32 \<Rightarrow> u32 \<Rightarrow> 't
       \<Rightarrow> ((smartcard_error + nat) \<times> bytes \<times> 't) option" where
  "transmit_apdu_t0 io command response procedure_timeout_ms byte_timeout_ms t =
     (if length command < 5 then Some (Inl ScProtocolError, response, t)
      else do {
        (r, st, t) \<leftarrow> t0_loop io command procedure_timeout_ms byte_timeout_ms True
          \<lparr>t0_header = take 5 command, t0_body_offset = 5, t0_response = response, t0_response_len = 0,
           t0_get_response_count = 0\<rparr> t;
        Some (r, t0_response st, t)
      })"

end
