(* ===== verification/T0_Exchange_Props.thy ===== *)
theory T0_Exchange_Props
  imports T0_Exchange
begin

text \<open>
  What the T=0 exchange returns, dialogue by dialogue: status words are relayed, response data is not.
\<close>

section \<open>A scripted card\<close>

text \<open>The bytes the card is going to send, and what the reader has sent.  A card with nothing more to say
  lets the reader time out.\<close>

record t0_line =
  tl_rx :: bytes
  tl_sent :: bytes

definition script_recv :: "u32 \<Rightarrow> t0_line \<Rightarrow> (smartcard_error + u8) \<times> t0_line" where
  "script_recv ms l = (case tl_rx l of b # bs \<Rightarrow> (Inr b, l\<lparr>tl_rx := bs\<rparr>) | [] \<Rightarrow> (Inl ScTimeout, l))"

definition script_io :: "t0_line smartcard_io" where
  "script_io =
     \<lparr>io_send_byte = (\<lambda>b l. (Inr (), l\<lparr>tl_sent := tl_sent l @ [b]\<rparr>)), io_recv_byte_timeout = script_recv,
      io_prepare_rx = (\<lambda>l. l)\<rparr>"

abbreviation (input) script :: "bytes \<Rightarrow> bytes \<Rightarrow> t0_line" where
  "script rx sent \<equiv> \<lparr>tl_rx = rx, tl_sent = sent\<rparr>"

lemma script_send: "io_send script_io bs (script rx sent) = (Inr (), script rx (sent @ bs))"
  by (induction bs arbitrary: sent) (simp_all add: script_io_def)

lemma script_recv1: "io_recv_byte_timeout script_io ms (script (b # rx) sent) = (Inr b, script rx sent)"
  by (simp add: script_io_def script_recv_def)

lemma script_recvs:
  "length bs = length mss \<Longrightarrow> io_recv script_io mss (script (bs @ rx) sent) = (Inr bs, script rx sent)"
proof (induction mss arbitrary: bs)
  case (Cons ms mss)
  then show ?case by (cases bs) (simp_all add: script_recv1)
qed simp

lemma script_procedure:
  assumes "pb \<noteq> SW1_NULL"
  shows "t0_procedure script_io ms (script (replicate k SW1_NULL @ pb # rx) sent) = Some (Inr pb, script rx sent)"
proof (induction k)
  case 0
  then show ?case using assms by (subst t0_procedure.simps) (simp add: script_recv1)
next
  case (Suc k)
  then show ?case by (subst t0_procedure.simps) (simp add: script_recv1)
qed

lemma script_data:
  assumes "t0_response_len st + i + length bs \<le> length (t0_response st)"
  shows "t0_data script_io ms i (length bs) st (script (bs @ rx) sent) =
    (Inr (), st\<lparr>t0_response := take (t0_response_len st + i) (t0_response st) @ bs
        @ drop (t0_response_len st + i + length bs) (t0_response st)\<rparr>, script rx sent)"
  using assms
proof (induction bs arbitrary: st i)
  case (Cons b bs)
  let ?st = "st\<lparr>t0_response := (t0_response st)[t0_response_len st + i := b]\<rparr>"
  have "t0_response_len ?st + (i + 1) + length bs \<le> length (t0_response ?st)" using Cons.prems by simp
  from Cons.IH [OF this] show ?case
    using Cons.prems by (simp add: script_recv1 take_Suc_conv_app_nth del: upd_conv_take_nth_drop)
qed simp

text \<open>One round of the outer loop: header and what is left of the body go out, the procedure byte is
  dispatched.\<close>

lemma t0_round:
  assumes "pb \<noteq> SW1_NULL" and "t0_body_offset st \<le> length command"
    and "t0_dispatch script_io command pt bt pb (st\<lparr>t0_body_offset := length command\<rparr>)
      (script rx (sent @ t0_header st @ drop (t0_body_offset st) command)) = Some (nx, st', t')"
  shows "t0_loop script_io command pt bt True st (script (replicate k SW1_NULL @ pb # rx) sent) =
    (case nx of
       T0Return r \<Rightarrow> Some (r, st', t')
     | T0Resend \<Rightarrow> t0_loop script_io command pt bt True st' t'
     | T0Again \<Rightarrow> t0_loop script_io command pt bt False st' t')"
proof -
  have "t0_send script_io command st (script rx' sent) =
      (Inr (), st\<lparr>t0_body_offset := length command\<rparr>, script rx' (sent @ t0_header st @ drop (t0_body_offset st) command))" for rx'
    using assms(2) by (cases "t0_body_offset st = length command") (auto simp: t0_send_def script_send)
  then show ?thesis using assms by (subst t0_loop.simps) (simp add: script_procedure)
qed

text \<open>The state in which the first procedure byte is dispatched.\<close>

definition t0_initial :: "bytes \<Rightarrow> bytes \<Rightarrow> t0_state" where
  "t0_initial command response =
     \<lparr>t0_header = take 5 command, t0_body_offset = length command, t0_response = response, t0_response_len = 0,
      t0_get_response_count = 0\<rparr>"

lemma t0_first_round:
  assumes "5 \<le> length command" and "pb \<noteq> SW1_NULL"
    and "t0_dispatch script_io command pt bt pb (t0_initial command response) (script rx command) = Some (nx, st, t)"
  shows "transmit_apdu_t0 script_io command response pt bt (script (replicate k SW1_NULL @ pb # rx) []) =
    map_option (\<lambda>(r, st, t). (r, t0_response st, t))
      (case nx of
         T0Return r \<Rightarrow> Some (r, st, t)
       | T0Resend \<Rightarrow> t0_loop script_io command pt bt True st t
       | T0Again \<Rightarrow> t0_loop script_io command pt bt False st t)"
proof -
  let ?st = "\<lparr>t0_header = take 5 command, t0_body_offset = 5, t0_response = response, t0_response_len = 0,
    t0_get_response_count = 0\<rparr>"
  have "t0_loop script_io command pt bt True ?st (script (replicate k SW1_NULL @ pb # rx) []) =
    (case nx of
       T0Return r \<Rightarrow> Some (r, st, t)
     | T0Resend \<Rightarrow> t0_loop script_io command pt bt True st t
     | T0Again \<Rightarrow> t0_loop script_io command pt bt False st t)"
    by (rule t0_round) (use assms in \<open>simp_all add: t0_initial_def\<close>)
  then show ?thesis
    using assms(1)
    by (simp add: transmit_apdu_t0_def map_option_case Option.bind_def case_prod_beta split: option.split)
qed

section \<open>Status words\<close>

lemma store_first: "2 \<le> length response \<Longrightarrow> response[0 := a, 1 := b] = [a, b] @ drop 2 response"
  by (cases response; cases "tl response") (auto simp: numeral_2_eq_2)

lemma t0_acknowledged_status:
  assumes "5 \<le> length command" and "2 \<le> length response" and "command ! 1 \<noteq> SW1_NULL"
    and "sw1 \<noteq> SW1_GET_RESPONSE" and "sw1 \<noteq> SW1_WRONG_LENGTH"
  shows "transmit_apdu_t0 script_io command response pt bt (script (replicate k SW1_NULL @ command ! 1 # sw1 # sw2 # rest) []) =
    Some (Inr 2, [sw1, sw2] @ drop 2 response, script rest command)"
proof -
  have r: "io_recv script_io [pt, bt] (script ([sw1, sw2] @ rest) command) = (Inr [sw1, sw2], script rest command)"
    by (rule script_recvs) simp
  have "t0_dispatch script_io command pt bt (command ! 1) (t0_initial command response) (script ([sw1, sw2] @ rest) command) =
      Some (T0Return (Inr 2), t0_advance 2 (t0_store sw1 sw2 (t0_initial command response)), script rest command)"
    unfolding t0_dispatch_def t0_acknowledged_def Let_def r
    using assms(4,5) by (simp add: t0_advance_def t0_store_def t0_initial_def)
  from t0_first_round [OF assms(1,3) this] assms(2) show ?thesis
    by (simp add: t0_store_def t0_advance_def t0_initial_def store_first [simplified])
qed

lemma t0_plain_status:
  assumes "5 \<le> length command" and "2 \<le> length response"
    and "sw1 \<notin> {SW1_NULL, SW1_GET_RESPONSE, SW1_WRONG_LENGTH, command ! 1, command ! 1 XOR 0xFF}"
  shows "transmit_apdu_t0 script_io command response pt bt (script (replicate k SW1_NULL @ sw1 # sw2 # rest) []) =
    Some (Inr 2, [sw1, sw2] @ drop 2 response, script rest command)"
proof -
  have r: "io_recv script_io [bt] (script ([sw2] @ rest) command) = (Inr [sw2], script rest command)"
    by (rule script_recvs) simp
  have ne: "sw1 \<noteq> SW1_NULL" using assms(3) by simp
  have "t0_dispatch script_io command pt bt sw1 (t0_initial command response) (script ([sw2] @ rest) command) =
      Some (T0Return (Inr 2), t0_store sw1 sw2 (t0_initial command response), script rest command)"
    unfolding t0_dispatch_def Let_def r using assms(3) by (simp add: t0_initial_def)
  from t0_first_round [OF assms(1) ne this] assms(2) show ?thesis
    by (simp add: t0_store_def t0_initial_def store_first [simplified])
qed

text \<open>A T=0 exchange without response data relays the card's status word.  For every command of at
  least five bytes and every card that, after any number of NULL bytes, either acknowledges the
  instruction and then gives a status word or gives the status word at once, the reader has sent
  exactly the command and returns exactly that status word; a status word that asks for another
  command (61 XX, 6C XX) is a different case.\<close>

theorem t0_status_returned:
  assumes "5 \<le> length command" and "2 \<le> length response" and "command ! 1 \<noteq> SW1_NULL"
    and "sw1 \<noteq> SW1_GET_RESPONSE" and "sw1 \<noteq> SW1_WRONG_LENGTH"
    and "ack \<or> sw1 \<noteq> SW1_NULL \<and> sw1 \<noteq> command ! 1 \<and> sw1 \<noteq> command ! 1 XOR 0xFF"
  shows "transmit_apdu_t0 script_io command response pt bt
      (script (replicate k SW1_NULL @ (if ack then [command ! 1] else []) @ [sw1, sw2] @ rest) []) =
    Some (Inr 2, [sw1, sw2] @ drop 2 response, script rest command)"
  using t0_acknowledged_status [OF assms(1-5)] t0_plain_status [OF assms(1,2), of sw1] assms(4-6) by (cases ack) simp_all

theorem t0_status_returned_witness:
  "transmit_apdu_t0 script_io [0x00, 0xD6, 0x00, 0x00, 0x02, 0xAA, 0xBB] [0, 0, 0] 5000 200
     (script [0x60, 0x60, 0xD6, 0x90, 0x00] []) =
   Some (Inr 2, [0x90, 0x00, 0], script [] [0x00, 0xD6, 0x00, 0x00, 0x02, 0xAA, 0xBB])"
  using t0_status_returned [of "[0x00, 0xD6, 0x00, 0x00, 0x02, 0xAA, 0xBB]" "[0, 0, 0]" "0x90" True 5000 200 "Suc (Suc 0)" 0 "[]"]
  by simp

section \<open>Response data\<close>

text \<open>The state after the first round of a command for which the card announces data by 61 XX.\<close>

lemma t0_dispatch_61:
  assumes "SW1_GET_RESPONSE \<noteq> command ! 1" and "SW1_GET_RESPONSE \<noteq> command ! 1 XOR 0xFF" and "t0_get_response_count st < 32"
  shows "t0_dispatch script_io command pt bt SW1_GET_RESPONSE st (script (sw2 # rx) sent) =
    Some (T0Resend, st\<lparr>t0_get_response_count := t0_get_response_count st + 1, t0_header := t0_get_response sw2,
      t0_body_offset := 5\<rparr>, script rx sent)"
proof -
  have "io_recv script_io [bt] (script ([sw2] @ rx) sent) = (Inr [sw2], script rx sent)" by (rule script_recvs) simp
  then show ?thesis using assms by (simp add: t0_dispatch_def Let_def)
qed

lemma xor_flip: "a = b XOR 0xFF \<longleftrightarrow> b = a XOR (0xFF :: u8)"
proof
  assume "a = b XOR 0xFF"
  then show "b = a XOR 0xFF" by (simp add: xor.assoc)
next
  assume "b = a XOR 0xFF"
  then show "a = b XOR 0xFF" by (simp add: xor.assoc)
qed

lemma t0_second_round:
  assumes "command ! 1 \<noteq> INS_GET_RESPONSE" and "command ! 1 \<noteq> 0x3F" and "5 \<le> length command"
    and "2 \<le> length (t0_response st)" and "t0_response_len st = 0" and "t0_body_offset st = 5"
  shows "t0_loop script_io command pt bt True st (script (replicate j SW1_NULL @ INS_GET_RESPONSE # d # rest) sent) =
    Some (Inr 2, st\<lparr>t0_body_offset := length command, t0_response := [INS_GET_RESPONSE, d] @ drop 2 (t0_response st)\<rparr>,
      script rest (sent @ t0_header st @ drop 5 command))"
proof -
  let ?st = "st\<lparr>t0_body_offset := length command\<rparr>" and ?sent = "sent @ t0_header st @ drop 5 command"
  have r: "io_recv script_io [bt] (script ([d] @ rest) ?sent) = (Inr [d], script rest ?sent)"
    by (rule script_recvs) simp
  have x: "INS_GET_RESPONSE \<noteq> command ! 1 XOR 0xFF" using assms(2) xor_flip [of INS_GET_RESPONSE "command ! 1"] by simp
  have "t0_dispatch script_io command pt bt INS_GET_RESPONSE ?st (script (d # rest) ?sent) =
      Some (T0Return (Inr 2), t0_store INS_GET_RESPONSE d ?st, script rest ?sent)"
    using assms(1,5) x r by (simp add: t0_dispatch_def Let_def)
  from t0_round [OF _ _ this [folded assms(6)], of j] assms show ?thesis
    by (simp add: t0_store_def store_first [simplified])
qed

lemma t0_fetch_data:
  assumes "length data = (if sw2 = 0 then 256 else unat sw2)" and "t0_response_len st + length data + 2 \<le> length (t0_response st)"
    and "sw1' \<noteq> SW1_GET_RESPONSE"
  shows "\<exists>st'. t0_fetch script_io pt bt sw2 st (script (replicate j SW1_NULL @ INS_GET_RESPONSE # data @ [sw1', sw2'] @ rest) sent) =
      Some (T0Return (Inr (t0_response_len st + length data + 2)), st', script rest (sent @ t0_get_response sw2)) \<and>
    t0_response st' = take (t0_response_len st) (t0_response st) @ data @ [sw1', sw2'] @
      drop (t0_response_len st + length data + 2) (t0_response st)"
proof -
  let ?st = "st\<lparr>t0_get_response_count := t0_get_response_count st + 1\<rparr>" and ?sent = "sent @ t0_get_response sw2"
  let ?st1 = "?st\<lparr>t0_response := take (t0_response_len st) (t0_response st) @ data @
    drop (t0_response_len st + length data) (t0_response st)\<rparr>"
  have p: "t0_procedure script_io pt (script (replicate j SW1_NULL @ INS_GET_RESPONSE # data @ [sw1', sw2'] @ rest) ?sent) =
      Some (Inr INS_GET_RESPONSE, script (data @ [sw1', sw2'] @ rest) ?sent)"
    by (rule script_procedure) simp
  have n: "min (if sw2 = 0 then 256 else unat sw2) (length (t0_response ?st) - t0_response_len ?st) = length data"
    using assms(1,2) by simp
  have d: "t0_data script_io bt 0 (length data) ?st (script (data @ [sw1', sw2'] @ rest) ?sent) =
      (Inr (), ?st1, script ([sw1', sw2'] @ rest) ?sent)"
    using script_data [of ?st 0 data bt "[sw1', sw2'] @ rest" ?sent] assms(2) by simp
  have r: "io_recv script_io [bt, bt] (script ([sw1', sw2'] @ rest) ?sent) = (Inr [sw1', sw2'], script rest ?sent)"
    by (rule script_recvs) simp
  let ?st2 = "t0_advance 2 (t0_store sw1' sw2' (t0_advance (length data) ?st1))"
  have "t0_fetch script_io pt bt sw2 st (script (replicate j SW1_NULL @ INS_GET_RESPONSE # data @ [sw1', sw2'] @ rest) sent) =
      Some (T0Return (Inr (t0_response_len ?st2)), ?st2, script rest ?sent)"
    by (simp only: t0_fetch_def Let_def script_send prod.case sum.case p Option.bind.bind_lunit simp_thms if_True n d r)
      (simp add: assms(3))
  moreover have "t0_response_len ?st2 = t0_response_len st + length data + 2"
    by (simp add: t0_advance_def t0_store_def)
  moreover have "t0_response ?st2 = take (t0_response_len st) (t0_response st) @ data @ [sw1', sw2'] @
      drop (t0_response_len st + length data + 2) (t0_response st)"
  proof -
    let ?tail = "drop (t0_response_len st + length data) (t0_response st)"
    have "?tail[0 := sw1', 1 := sw2'] = [sw1', sw2'] @ drop 2 ?tail"
      by (rule store_first) (use assms(2) in simp)
    then show ?thesis using assms(2) by (simp add: t0_advance_def t0_store_def list_update_append add.commute)
  qed
  ultimately show ?thesis by auto
qed

lemma t0_data_announced:
  assumes "5 \<le> length command" and "2 \<le> length response"
    and "command ! 1 \<notin> {SW1_GET_RESPONSE, SW1_GET_RESPONSE XOR 0xFF, INS_GET_RESPONSE, INS_GET_RESPONSE XOR 0xFF}"
  shows "transmit_apdu_t0 script_io command response pt bt
      (script (replicate k SW1_NULL @ SW1_GET_RESPONSE # xx # replicate j SW1_NULL @ INS_GET_RESPONSE # d # rest) []) =
    Some (Inr 2, [INS_GET_RESPONSE, d] @ drop 2 response, script rest (command @ t0_get_response xx @ drop 5 command))"
proof -
  have x: "SW1_GET_RESPONSE \<noteq> command ! 1 XOR 0xFF" using assms(3) xor_flip [of SW1_GET_RESPONSE "command ! 1"] by simp
  have ins: "SW1_GET_RESPONSE \<noteq> command ! 1" "command ! 1 \<noteq> INS_GET_RESPONSE" "command ! 1 \<noteq> 0x3F" using assms(3) by auto
  let ?st = "(t0_initial command response)\<lparr>t0_get_response_count := 1, t0_header := t0_get_response xx, t0_body_offset := 5\<rparr>"
  let ?rx = "replicate j SW1_NULL @ INS_GET_RESPONSE # d # rest"
  have "t0_dispatch script_io command pt bt SW1_GET_RESPONSE (t0_initial command response) (script (xx # ?rx) command) =
      Some (T0Resend, ?st, script ?rx command)"
    using t0_dispatch_61 [OF ins(1) x, of "t0_initial command response" pt bt xx] by (simp add: t0_initial_def)
  from t0_first_round [OF assms(1) _ this] t0_second_round [OF ins(2,3) assms(1), of ?st pt bt j d rest command] assms(2)
  show ?thesis by (simp add: t0_initial_def)
qed

lemma t0_data_fetched:
  assumes "5 \<le> length command" and "length data + 4 \<le> length response" and "command ! 1 \<noteq> SW1_NULL"
    and "length data = (if xx = 0 then 256 else unat xx)" and "sw1 \<noteq> SW1_GET_RESPONSE"
  shows "transmit_apdu_t0 script_io command response pt bt
      (script (replicate k SW1_NULL @ command ! 1 # SW1_GET_RESPONSE # xx #
         replicate j SW1_NULL @ INS_GET_RESPONSE # data @ [sw1, sw2]) []) =
    Some (Inr (length data + 4), [SW1_GET_RESPONSE, xx] @ data @ [sw1, sw2] @ drop (length data + 4) response,
      script [] (command @ t0_get_response xx))"
proof -
  let ?rx = "replicate j SW1_NULL @ INS_GET_RESPONSE # data @ [sw1, sw2]"
  let ?st = "t0_advance 2 (t0_store SW1_GET_RESPONSE xx (t0_initial command response))"
  have r: "io_recv script_io [pt, bt] (script ([SW1_GET_RESPONSE, xx] @ ?rx) command) = (Inr [SW1_GET_RESPONSE, xx], script ?rx command)"
    by (rule script_recvs) simp
  have st: "t0_response_len ?st = 2" "t0_response ?st = [SW1_GET_RESPONSE, xx] @ drop 2 response" "t0_get_response_count ?st = 0"
    using assms(2) by (simp_all add: t0_advance_def t0_store_def t0_initial_def store_first [simplified])
  have fit: "t0_response_len ?st + length data + 2 \<le> length (t0_response ?st)" using st assms(2) by simp
  from t0_fetch_data [OF assms(4) fit assms(5), of pt bt j sw2 "[]" command] st assms(2) obtain st' where f:
    "t0_fetch script_io pt bt xx ?st (script ?rx command) =
       Some (T0Return (Inr (length data + 4)), st', script [] (command @ t0_get_response xx))"
    "t0_response st' = [SW1_GET_RESPONSE, xx] @ data @ [sw1, sw2] @ drop (length data + 4) response"
    by (auto simp: numeral_2_eq_2 eval_nat_numeral)
  have "t0_dispatch script_io command pt bt (command ! 1) (t0_initial command response) (script ([SW1_GET_RESPONSE, xx] @ ?rx) command) =
      Some (T0Return (Inr (length data + 4)), st', script [] (command @ t0_get_response xx))"
    unfolding t0_dispatch_def t0_acknowledged_def Let_def r using f(1) st(3) by simp
  from t0_first_round [OF assms(1,3) this] f(2) show ?thesis by simp
qed

text \<open>C37: Response data of a T=0 card is misread.  Take a command of at least five bytes whose instruction byte is
  none of the procedure bytes 60, 61, C0 or the complement of 61 or C0, and response data of at least two bytes that
  fits the buffer with two status words, does not start with 61 or 6C, and is followed by a status word
  other than 61 XX; NULL bytes may come before every procedure byte.  In each of the three dialogues in which such a
  card returns data the reader answers something else than data and status.  When the card acknowledges
  and sends its data, the first two data bytes are returned as the status word and the rest stays on the
  line.  When it announces the data by 61 XX, the GET RESPONSE that follows carries the body of the first
  command again, and its acknowledge byte together with the first data byte is returned as the status word.
  When it acknowledges first and then announces the data with its exact length, the data is fetched, but
  the announcement stays in front of it.\<close>

theorem t0_response_data_misread:
  assumes "5 \<le> length command" and "length data + 4 \<le> length response" and "2 \<le> length data"
    and "command ! 1 \<notin> {SW1_NULL, SW1_GET_RESPONSE, SW1_GET_RESPONSE XOR 0xFF, INS_GET_RESPONSE, INS_GET_RESPONSE XOR 0xFF}"
    and "data ! 0 \<noteq> SW1_GET_RESPONSE" and "data ! 0 \<noteq> SW1_WRONG_LENGTH" and "sw1 \<noteq> SW1_GET_RESPONSE"
  shows "transmit_apdu_t0 script_io command response pt bt
      (script (replicate k SW1_NULL @ command ! 1 # data @ [sw1, sw2]) []) =
    Some (Inr 2, take 2 data @ drop 2 response, script (drop 2 data @ [sw1, sw2]) command) \<and>
    transmit_apdu_t0 script_io command response pt bt
      (script (replicate k SW1_NULL @ SW1_GET_RESPONSE # xx # replicate j SW1_NULL @ INS_GET_RESPONSE # data @ [sw1, sw2]) []) =
    Some (Inr 2, [INS_GET_RESPONSE, data ! 0] @ drop 2 response,
      script (drop 1 data @ [sw1, sw2]) (command @ t0_get_response xx @ drop 5 command)) \<and>
    (length data = (if xx = 0 then 256 else unat xx) \<longrightarrow>
     transmit_apdu_t0 script_io command response pt bt
      (script (replicate k SW1_NULL @ command ! 1 # SW1_GET_RESPONSE # xx #
         replicate j SW1_NULL @ INS_GET_RESPONSE # data @ [sw1, sw2]) []) =
     Some (Inr (length data + 4), [SW1_GET_RESPONSE, xx] @ data @ [sw1, sw2] @ drop (length data + 4) response,
      script [] (command @ t0_get_response xx)))"
proof (intro conjI impI)
  have l: "2 \<le> length response" "command ! 1 \<noteq> SW1_NULL"
    and ins: "command ! 1 \<notin> {SW1_GET_RESPONSE, SW1_GET_RESPONSE XOR 0xFF, INS_GET_RESPONSE, INS_GET_RESPONSE XOR 0xFF}"
    using assms(2,4) by auto
  obtain d0 d1 ds where d: "data = d0 # d1 # ds" using assms(3) by (cases data; cases "tl data") auto
  show "transmit_apdu_t0 script_io command response pt bt
      (script (replicate k SW1_NULL @ command ! 1 # data @ [sw1, sw2]) []) =
    Some (Inr 2, take 2 data @ drop 2 response, script (drop 2 data @ [sw1, sw2]) command)"
    using t0_acknowledged_status [OF assms(1) l, of d0 pt bt k d1 "ds @ [sw1, sw2]"] assms(5,6) d by simp
  show "transmit_apdu_t0 script_io command response pt bt
      (script (replicate k SW1_NULL @ SW1_GET_RESPONSE # xx # replicate j SW1_NULL @ INS_GET_RESPONSE # data @ [sw1, sw2]) []) =
    Some (Inr 2, [INS_GET_RESPONSE, data ! 0] @ drop 2 response,
      script (drop 1 data @ [sw1, sw2]) (command @ t0_get_response xx @ drop 5 command))"
    using t0_data_announced [OF assms(1) l(1) ins, of pt bt k xx j d0 "d1 # ds @ [sw1, sw2]"] d by simp
  assume "length data = (if xx = 0 then 256 else unat xx)"
  then show "transmit_apdu_t0 script_io command response pt bt
      (script (replicate k SW1_NULL @ command ! 1 # SW1_GET_RESPONSE # xx #
         replicate j SW1_NULL @ INS_GET_RESPONSE # data @ [sw1, sw2]) []) =
     Some (Inr (length data + 4), [SW1_GET_RESPONSE, xx] @ data @ [sw1, sw2] @ drop (length data + 4) response,
      script [] (command @ t0_get_response xx))"
    by (rule t0_data_fetched [OF assms(1,2) l(2) _ assms(7)])
qed

theorem t0_response_data_misread_witness:
  "transmit_apdu_t0 script_io [0x00, 0xB0, 0x00, 0x00, 0x03] (replicate 16 0) 5000 200
     (script [0xB0, 0x11, 0x22, 0x33, 0x90, 0x00] []) =
   Some (Inr 2, [0x11, 0x22] @ replicate 14 0, script [0x33, 0x90, 0x00] [0x00, 0xB0, 0x00, 0x00, 0x03])"
  using t0_response_data_misread [of "[0x00, 0xB0, 0x00, 0x00, 0x03]" "[0x11, 0x22, 0x33]" "replicate 16 0" "0x90" 5000 200 0 0 3 0]
  by simp

end
