(* ===== verification/Contact_Link.thy ===== *)
theory Contact_Link
  imports T0_Exchange_Props T1_Props
begin

text \<open>
  The exchange operations of the two contact drivers over the byte line
  (\<open>firmware/ccid-firmware/src/smartcard.rs\<close> and \<open>smartcard_bitbang.rs\<close>): the PPS negotiation loop, the raw
  transfer that carries the host's T=1 blocks, and the choice between the protocols.  Pins, registers and
  delays have no model; the fields kept are those these operations read.
\<close>

section \<open>The drivers\<close>

record contact =
  ct_powered :: bool
  ct_protocol :: u8
  ct_t1_bwi :: u8
  ct_t1_cwi :: u8
  ct_card_clk_hz :: u32
  ct_pps_speedup_active :: bool
  ct_negotiated_baud :: u32
  ct_config :: smartcard_config

definition wire_baud :: "contact \<Rightarrow> u32" where
  "wire_baud c =
     (if ct_pps_speedup_active c \<and> 0 < ct_negotiated_baud c then ct_negotiated_baud c
      else ct_card_clk_hz c div max (sc_default_etu (ct_config c)) 1)"

definition contact_first_byte_ms :: "contact \<Rightarrow> u32" where
  "contact_first_byte_ms c = t1_first_byte_timeout_ms (ct_t1_bwi c) (wire_baud c)"

definition contact_inter_byte_ms :: "contact \<Rightarrow> u32" where
  "contact_inter_byte_ms c = t1_inter_byte_timeout_ms (ct_t1_cwi c) (wire_baud c)"

text \<open>A read loop: bytes go into the buffer from \<open>at\<close> on, the first wait is \<open>first_ms\<close>, the others
  \<open>next_ms\<close>; it stops when \<open>limit\<close> bytes are there or a read fails.\<close>

function read_loop ::
    "'t smartcard_io \<Rightarrow> u32 \<Rightarrow> u32 \<Rightarrow> nat \<Rightarrow> nat \<Rightarrow> bytes \<Rightarrow> 't \<Rightarrow> smartcard_error option \<times> nat \<times> bytes \<times> 't" where
  "read_loop io first_ms next_ms limit at buf t =
     (if limit \<le> at then (None, at, buf, t)
      else
        (case io_recv_byte_timeout io first_ms t of
           (Inr b, t) \<Rightarrow> read_loop io next_ms next_ms limit (at + 1) (buf[at := b]) t
         | (Inl e, t) \<Rightarrow> (Some e, at, buf, t)))"
  by pat_completeness auto
termination by (relation "measure (\<lambda>(io, f, n, limit, at, buf, t). limit - at)") auto

declare read_loop.simps [simp del]

definition transmit_raw :: "'t smartcard_io \<Rightarrow> bytes \<Rightarrow> bytes \<Rightarrow> contact \<Rightarrow> 't \<Rightarrow> (smartcard_error + nat) \<times> bytes \<times> 't" where
  "transmit_raw io data response c t =
     (if \<not> ct_powered c then (Inl ScHardwareError, response, t)
      else
        (case io_send io data t of
           (Inl e, t) \<Rightarrow> (Inl e, response, t)
         | (Inr _, t) \<Rightarrow>
             let t = io_prepare_rx io t in
             if ct_protocol c = 1 \<and> 4 \<le> length response then
               (case read_loop io (contact_first_byte_ms c) (contact_inter_byte_ms c) 3 0 response t of
                  (Some e, total_len, response, t) \<Rightarrow> (Inl e, response, t)
                | (None, total_len, response, t) \<Rightarrow>
                    let expected = (case t1_block_total_len (take 3 response) (length response) of
                                      Some n \<Rightarrow> n | None \<Rightarrow> length response)
                    in (case read_loop io (contact_inter_byte_ms c) (contact_inter_byte_ms c) expected total_len response t of
                          (None, total_len, response, t) \<Rightarrow> (Inr total_len, response, t)
                        | (Some e, total_len, response, t) \<Rightarrow>
                            (Inl (if e = ScTimeout then ScProtocolError else e), response, t)))
             else
               (case read_loop io 500 50 (length response) 0 response t of
                  (Some e, total_len, response, t) \<Rightarrow>
                    if e \<noteq> ScTimeout then (Inl e, response, t)
                    else if total_len = 0 then (Inl ScTimeout, response, t)
                    else (Inr total_len, response, t)
                | (None, total_len, response, t) \<Rightarrow>
                    if total_len = 0 then (Inl ScTimeout, response, t) else (Inr total_len, response, t))))"

definition contact_transmit_apdu ::
    "'t smartcard_io \<Rightarrow> bytes \<Rightarrow> bytes \<Rightarrow> contact \<Rightarrow> 't \<Rightarrow> ((smartcard_error + nat) \<times> bytes \<times> 't) option" where
  "contact_transmit_apdu io command response c t =
     (if \<not> ct_powered c then Some (Inl ScHardwareError, response, t)
      else if ct_protocol c = 1 then Some (transmit_raw io command response c t)
      else transmit_apdu_t0 io command response (sc_procedure_timeout_ms (ct_config c)) (sc_byte_timeout_ms (ct_config c)) t)"

section \<open>PPS negotiation\<close>

text \<open>The loop of \<open>negotiate_pps_fsm\<close>; \<open>None\<close> is a panic of the machine or a negotiation without end.\<close>

partial_function (option) negotiate_loop ::
    "'t smartcard_io \<Rightarrow> u32 \<Rightarrow> pps_fsm \<Rightarrow> 't \<Rightarrow> ((unit + unit) \<times> 't) option" where
  "negotiate_loop io ms f t =
     (case io_recv_byte_timeout io ms t of
        (Inl _, t) \<Rightarrow> Some (Inl (), t)
      | (Inr b, t) \<Rightarrow> do {
          f \<leftarrow> process_byte b f;
          (if pf_state f = Done then Some (Inr (), t)
           else if pf_state f = Failed then Some (Inl (), t)
           else negotiate_loop io ms f t)
        })"

definition negotiate_pps_fsm :: "'t smartcard_io \<Rightarrow> u32 \<Rightarrow> atr_params \<Rightarrow> 't \<Rightarrow> ((unit + unit) \<times> 't) option" where
  "negotiate_pps_fsm io ms params t =
     (if \<not> ap_has_ta1 params \<or> ap_ta1 params = DEFAULT_TA1 then Some (Inr (), t)
      else do {
        (req, f) \<leftarrow> build_minimal_request (ap_protocol params) pps_new;
        (case io_send io req t of
           (Inl _, t) \<Rightarrow> Some (Inl (), t)
         | (Inr _, t) \<Rightarrow> negotiate_loop io ms (start_response f) t)
      })"

section \<open>One T=1 block per transfer\<close>

lemma take_Suc_upd: "n < length buf \<Longrightarrow> take (Suc n) (buf[n := b]) = take n buf @ [b]"
  by (simp add: take_Suc_conv_app_nth)

lemma script_prepare: "io_prepare_rx script_io t = t"
  by (simp add: script_io_def)

lemma read_loop_script:
  assumes "at + length bs \<le> length buf" and "limit = at + length bs"
  shows "read_loop script_io f n limit at buf (script (bs @ rx) sent) =
    (None, limit, take at buf @ bs @ drop limit buf, script rx sent)"
  using assms
proof (induction bs arbitrary: at buf f)
  case Nil
  then show ?case by (simp add: read_loop.simps)
next
  case (Cons b bs)
  have "at + 1 + length bs \<le> length (buf[at := b])" "limit = at + 1 + length bs" using Cons.prems by simp_all
  from Cons.IH [OF this, of n] show ?case
    using Cons.prems
    by (subst read_loop.simps) (simp add: script_recv1 take_Suc_upd)
qed

lemma read_loop_short:
  assumes "at + length bs < limit" and "limit \<le> length buf"
  shows "read_loop script_io f n limit at buf (script bs sent) =
    (Some ScTimeout, at + length bs, take at buf @ bs @ drop (at + length bs) buf, script [] sent)"
  using assms
proof (induction bs arbitrary: at buf f)
  case Nil
  then show ?case by (subst read_loop.simps) (simp add: script_io_def script_recv_def)
next
  case (Cons b bs)
  have "at + 1 + length bs < limit" "limit \<le> length (buf[at := b])" using Cons.prems by simp_all
  from Cons.IH [OF this, of n] show ?case
    using Cons.prems
    by (subst read_loop.simps) (simp add: script_recv1 take_Suc_upd)
qed

lemma block_total_len:
  assumes "wf_block b" and "length b \<le> n"
  shows "t1_block_total_len (take 3 b) n = Some (length b)"
  using assms by (auto simp: wf_block_def t1_block_total_len_def Let_def)

text \<open>After the prologue of a block the transfer goes on to its end.\<close>

lemma transmit_raw_block:
  assumes "ct_powered c" and "ct_protocol c = 1" and "wf_block b" and "length b \<le> length response"
  shows "transmit_raw script_io data response c (script (take 3 b @ rx) []) =
    (case read_loop script_io (contact_inter_byte_ms c) (contact_inter_byte_ms c) (length b) 3 (take 3 b @ drop 3 response)
        (script rx data) of
       (None, total_len, response, t) \<Rightarrow> (Inr total_len, response, t)
     | (Some e, total_len, response, t) \<Rightarrow> (Inl (if e = ScTimeout then ScProtocolError else e), response, t))"
proof -
  have l: "4 \<le> length b" using assms(3) by (simp add: wf_block_def)
  let ?buf = "take 3 b @ drop 3 response"
  have pro: "read_loop script_io f n 3 0 response (script (take 3 b @ rx) data) = (None, 3, ?buf, script rx data)" for f n
    using read_loop_script [of 0 "take 3 b" response 3 f n rx data] l assms(4) by simp
  have len: "t1_block_total_len (take 3 ?buf) (length ?buf) = Some (length b)"
    using block_total_len [OF assms(3,4)] l assms(4) by (simp add: take_append)
  show ?thesis
    unfolding transmit_raw_def script_send append_Nil script_prepare prod.case sum.case Let_def pro len option.case
    using assms(1,2,4) l by simp
qed

lemma block_rest:
  assumes "wf_block b" and "3 \<le> n" and "n \<le> length b"
  shows "take 3 (take 3 b @ drop 3 response) @ take (n - 3) (drop 3 b) @ drop n (take 3 b @ drop 3 response) = take n b @ drop n response"
proof -
  have "4 \<le> length b" using assms(1) by (simp add: wf_block_def)
  then have "take 3 (take 3 b @ drop 3 response) = take 3 b" "drop n (take 3 b @ drop 3 response) = drop n response"
    using assms(2) by simp_all
  moreover have "take n b = take 3 b @ take (n - 3) (drop 3 b)" using assms(2) by (metis le_add_diff_inverse take_add)
  ultimately show ?thesis by simp
qed

text \<open>A raw transfer carries one T=1 block out and exactly one back.  On a powered T=1 card with a buffer
  that holds the block, the bytes of the command go out unchanged; when the card answers with a
  well-formed block, exactly this block is returned and what follows it stays on the line; when the
  answer breaks off inside the block the transfer is a protocol error, or a timeout if it
  breaks off inside the prologue; and when the card stays silent it is a timeout.\<close>

theorem raw_transfer_one_block:
  assumes "ct_powered c" and "ct_protocol c = 1" and "wf_block b" and "length b \<le> length response"
  shows "transmit_raw script_io data response c (script (b @ rest) []) =
      (Inr (length b), b @ drop (length b) response, script rest data) \<and>
    (n < length b \<longrightarrow>
      transmit_raw script_io data response c (script (take n b) []) =
        (Inl (if n < 3 then ScTimeout else ScProtocolError), take n b @ drop n response, script [] data))"
proof (intro conjI impI)
  have l: "4 \<le> length b" using assms(3) by (simp add: wf_block_def)
  let ?buf = "take 3 b @ drop 3 response" and ?n = "contact_inter_byte_ms c"
  have "read_loop script_io ?n ?n (length b) 3 ?buf (script (drop 3 b @ rest) data) =
      (None, length b, take 3 ?buf @ drop 3 b @ drop (length b) ?buf, script rest data)"
    by (rule read_loop_script) (use l assms(4) in simp_all)
  with transmit_raw_block [OF assms, of data "drop 3 b @ rest"] block_rest [OF assms(3), of "length b" response] l
  show "transmit_raw script_io data response c (script (b @ rest) []) = (Inr (length b), b @ drop (length b) response, script rest data)"
    by (simp add: append_assoc [symmetric] del: append_assoc)
  assume n: "n < length b"
  show "transmit_raw script_io data response c (script (take n b) []) =
        (Inl (if n < 3 then ScTimeout else ScProtocolError), take n b @ drop n response, script [] data)"
  proof (cases "n < 3")
    case True
    have "read_loop script_io f m 3 0 response (script (take n b) data) =
        (Some ScTimeout, n, take n b @ drop n response, script [] data)" for f m
      using read_loop_short [of 0 "take n b" 3 response f m data] True n l assms(4) by simp
    then show ?thesis using assms(1,2,4) l True by (simp add: transmit_raw_def script_send script_prepare)
  next
    case False
    let ?rx = "take (n - 3) (drop 3 b)"
    have tn: "take n b = take 3 b @ ?rx" using False by (metis le_add_diff_inverse not_less take_add)
    have "read_loop script_io ?n ?n (length b) 3 ?buf (script ?rx data) =
        (Some ScTimeout, n, take 3 ?buf @ ?rx @ drop n ?buf, script [] data)"
      using read_loop_short [of 3 ?rx "length b" ?buf ?n ?n data] False n l assms(4) by simp
    with transmit_raw_block [OF assms, of data ?rx] block_rest [OF assms(3), of n response] False n show ?thesis
      unfolding tn [symmetric] by simp
  qed
qed

theorem raw_transfer_one_block_witness:
  "transmit_raw script_io [0x00, 0x00, 0x01, 0xA4, 0xA5] [0, 0, 0, 0, 0, 0, 0, 0]
     \<lparr>ct_powered = True, ct_protocol = 1, ct_t1_bwi = 4, ct_t1_cwi = 13, ct_card_clk_hz = 4000000, ct_pps_speedup_active = False,
      ct_negotiated_baud = 0, ct_config = SMARTCARD_CONFIG_DEFAULT\<rparr> (script [0x00, 0x40, 0x02, 0x90, 0x00, 0xD2, 0x77] []) =
   (Inr 6, [0x00, 0x40, 0x02, 0x90, 0x00, 0xD2, 0, 0], script [0x77] [0x00, 0x00, 0x01, 0xA4, 0xA5])"
  using raw_transfer_one_block [of "\<lparr>ct_powered = True, ct_protocol = 1, ct_t1_bwi = 4, ct_t1_cwi = 13,
      ct_card_clk_hz = 4000000, ct_pps_speedup_active = False, ct_negotiated_baud = 0, ct_config = SMARTCARD_CONFIG_DEFAULT\<rparr>"
      "[0x00, 0x40, 0x02, 0x90, 0x00, 0xD2]" "[0, 0, 0, 0, 0, 0, 0, 0]" "[0x00, 0x00, 0x01, 0xA4, 0xA5]" "[0x77]" 0]
  by (simp add: wf_block_def xor_fold_def)

section \<open>Negotiation over the line\<close>

lemma negotiate_loop_script:
  assumes "pps_request_ok req" and "pps_sent req f" and "pps_waiting bs f"
  shows "\<exists>r rx'. negotiate_loop script_io ms f (script rx sent) = Some (r, script rx' sent) \<and>
    (r = Inr () \<longleftrightarrow> prefix req (bs @ rx))"
  using assms(2,3)
proof (induction rx arbitrary: bs f)
  case Nil
  then show ?case
    using request_not_open [OF assms(1)]
    by (subst negotiate_loop.simps) (auto simp: script_io_def script_recv_def pps_waiting_def)
next
  case (Cons b rx)
  obtain f' where f': "process_byte b f = Some f'" "pps_verdict req (bs @ [b]) f'"
    using waiting_step [OF assms(1) Cons.prems] by blast
  then consider (wait) "pps_waiting (bs @ [b]) f'" "pps_sent req f'" | (echo) "pf_state f' = Done" "prefix req (bs @ [b])"
    | (failed) "pf_state f' = Failed" "bs @ [b] \<parallel> req" by (auto simp: pps_verdict_def)
  then show ?case
  proof cases
    case wait
    then have "pf_state f' \<noteq> Done" "pf_state f' \<noteq> Failed"
      using stage_not_final [of "bs @ [b]"] by (auto simp: pps_waiting_def)
    with Cons.IH [OF wait(2,1)] f'(1) show ?thesis
      by (subst negotiate_loop.simps) (simp add: script_recv1)
  next
    case echo
    then have "prefix req (bs @ b # rx)" using prefix_prefix [of req "bs @ [b]" rx] by simp
    with echo f'(1) show ?thesis by (subst negotiate_loop.simps) (simp add: script_recv1)
  next
    case failed
    then have "\<not> prefix req (bs @ b # rx)" using parallel_append [of "bs @ [b]" req rx "[]"] by (auto simp: parallel_def)
    with failed f'(1) show ?thesis by (subst negotiate_loop.simps) (simp add: script_recv1)
  qed
qed

text \<open>C39: Speed negotiation ends, and succeeds on the exact echo only.  For a card whose ATR offers a speed of
  its own the driver sends the request for the ATR's protocol as ISO 7816-3 frames it; whatever the card
  then sends, the negotiation returns without a panic, and it reports success if and only if what the card
  sent begins with the request itself.  Without an offer nothing is sent.\<close>

theorem pps_negotiation_echo:
  "\<exists>r rx'. negotiate_pps_fsm script_io ms params (script rx []) =
     Some (r, script rx' (if ap_has_ta1 params \<and> ap_ta1 params \<noteq> DEFAULT_TA1 then minimal_pps (ap_protocol params) else [])) \<and>
   (r = Inr () \<longleftrightarrow>
     (if ap_has_ta1 params \<and> ap_ta1 params \<noteq> DEFAULT_TA1 then prefix (minimal_pps (ap_protocol params)) rx else True))"
proof (cases "ap_has_ta1 params \<and> ap_ta1 params \<noteq> DEFAULT_TA1")
  case True
  have "pps_ok pps_new" by (simp add: pps_ok_def pps_new_def)
  from build_minimal_request_ok [OF this, of "ap_protocol params"] obtain f where f:
    "build_minimal_request (ap_protocol params) pps_new = Some (minimal_pps (ap_protocol params), f)"
    "pps_sent (minimal_pps (ap_protocol params)) (start_response f)" "pps_waiting [] (start_response f)" by blast
  from negotiate_loop_script [OF requests_well_formed(2) f(2,3), of ms rx] f(1) True show ?thesis
    by (auto simp: negotiate_pps_fsm_def script_send)
next
  case False
  then show ?thesis by (auto simp: negotiate_pps_fsm_def)
qed

end
