(* ===== verification/Pinpad.thy ===== *)
theory Pinpad
  imports Secure
begin

text \<open>
  The PIN-pad state machines of the contact firmware (\<open>firmware/ccid-firmware/src/pinpad/state.rs\<close>): entry
  of one PIN for VERIFY and of old, new and repeated new PIN for a change; and the parser of the card's
  answer (\<open>pinpad/apdu.rs\<close>).  The digit buffers and the parameters are those of theory \<open>Secure\<close>.
\<close>

section \<open>Entering one PIN\<close>

datatype pin_entry_state =
  EntryIdle | WaitingForPin | EntryCompleted | EntryCancelled | EntryTimeout | EntryInvalidLength

record pin_entry_context =
  pe_state :: pin_entry_state
  pe_buffer :: pin_buffer
  pe_params :: pin_verify_params
  pe_start_ticks :: u32
  pe_pressed_button :: "u8 option"

definition entry_new :: "pin_verify_params \<Rightarrow> pin_entry_context" where
  "entry_new params =
     \<lparr>pe_state = EntryIdle, pe_buffer = pin_new (unat (pv_max_len params)), pe_params = params,
      pe_start_ticks = 0, pe_pressed_button = None\<rparr>"

definition entry_start :: "u32 \<Rightarrow> pin_entry_context \<Rightarrow> pin_entry_context" where
  "entry_start current_ticks c =
     c\<lparr>pe_state := WaitingForPin, pe_buffer := pin_clear (pe_buffer c), pe_start_ticks := current_ticks,
       pe_pressed_button := None\<rparr>"

definition entry_add_digit :: "u8 \<Rightarrow> pin_entry_context \<Rightarrow> bool \<times> pin_entry_context" where
  "entry_add_digit digit c =
     (if pe_state c \<noteq> WaitingForPin then (False, c)
      else let (r, b) = pin_push digit (pe_buffer c) in (r, c\<lparr>pe_buffer := b\<rparr>))"

definition entry_backspace :: "pin_entry_context \<Rightarrow> bool \<times> pin_entry_context" where
  "entry_backspace c =
     (if pe_state c \<noteq> WaitingForPin then (False, c)
      else let (r, b) = pin_pop (pe_buffer c) in (r, c\<lparr>pe_buffer := b\<rparr>))"

definition entry_submit :: "pin_entry_context \<Rightarrow> pin_result \<times> pin_entry_context" where
  "entry_submit c =
     (if pe_state c \<noteq> WaitingForPin then (PinCancelled, c)
      else if \<not> pin_has_minimum (pe_buffer c) (unat (pv_min_len (pe_params c)))
        then (PinInvalidLength, c\<lparr>pe_state := EntryInvalidLength\<rparr>)
      else (PinSuccess, c\<lparr>pe_state := EntryCompleted\<rparr>))"

definition entry_cancel :: "pin_entry_context \<Rightarrow> pin_entry_context" where
  "entry_cancel c = c\<lparr>pe_state := EntryCancelled, pe_buffer := pin_clear (pe_buffer c)\<rparr>"

text \<open>The division panics when the tick rate is zero.\<close>

definition entry_check_timeout :: "u32 \<Rightarrow> u32 \<Rightarrow> pin_entry_context \<Rightarrow> (bool \<times> pin_entry_context) outcome" where
  "entry_check_timeout current_ticks ticks_per_second c =
     (if pe_state c \<noteq> WaitingForPin then Some (False, c)
      else if pv_timeout_secs (pe_params c) = 0 then Some (False, c)
      else if ticks_per_second = 0 then None
      else
        let elapsed_ticks = current_ticks - pe_start_ticks c;
            elapsed_secs = elapsed_ticks div ticks_per_second
        in if ucast (pv_timeout_secs (pe_params c)) \<le> elapsed_secs
           then Some (True, c\<lparr>pe_state := EntryTimeout, pe_buffer := pin_clear (pe_buffer c)\<rparr>)
           else Some (False, c))"

definition entry_is_active :: "pin_entry_context \<Rightarrow> bool" where
  "entry_is_active c \<longleftrightarrow> pe_state c = WaitingForPin"

definition entry_is_complete :: "pin_entry_context \<Rightarrow> bool" where
  "entry_is_complete c \<longleftrightarrow> pe_state c \<in> {EntryCompleted, EntryCancelled, EntryTimeout, EntryInvalidLength}"

definition entry_result :: "pin_entry_context \<Rightarrow> pin_result option" where
  "entry_result c =
     (case pe_state c of
        EntryCompleted \<Rightarrow> Some PinSuccess
      | EntryCancelled \<Rightarrow> Some PinCancelled
      | EntryTimeout \<Rightarrow> Some PinTimeout
      | EntryInvalidLength \<Rightarrow> Some PinInvalidLength
      | _ \<Rightarrow> None)"

definition entry_reset :: "pin_entry_context \<Rightarrow> pin_entry_context" where
  "entry_reset c =
     c\<lparr>pe_state := EntryIdle, pe_buffer := pin_clear (pe_buffer c), pe_start_ticks := 0, pe_pressed_button := None\<rparr>"

section \<open>Changing a PIN\<close>

datatype pin_modify_step =
  ModifyIdle | OldPin | NewPin | ConfirmPin | ModifyCompleted | ModifyCancelled | ModifyTimeout | ModifyMismatch
  | ModifyInvalidLength

record pin_modify_context =
  px_step :: pin_modify_step
  px_old_buffer :: pin_buffer
  px_new_buffer :: pin_buffer
  px_confirm_buffer :: pin_buffer
  px_params :: pin_modify_params
  px_start_ticks :: u32
  px_pressed_button :: "u8 option"

definition modify_new :: "pin_modify_params \<Rightarrow> pin_modify_context" where
  "modify_new params =
     (let max_len = unat (pm_max_len params) in
      \<lparr>px_step = ModifyIdle, px_old_buffer = pin_new max_len, px_new_buffer = pin_new max_len,
       px_confirm_buffer = pin_new max_len, px_params = params, px_start_ticks = 0, px_pressed_button = None\<rparr>)"

definition modify_clear_all :: "pin_modify_context \<Rightarrow> pin_modify_context" where
  "modify_clear_all c =
     c\<lparr>px_old_buffer := pin_clear (px_old_buffer c), px_new_buffer := pin_clear (px_new_buffer c),
       px_confirm_buffer := pin_clear (px_confirm_buffer c)\<rparr>"

definition modify_start :: "u32 \<Rightarrow> pin_modify_context \<Rightarrow> pin_modify_context" where
  "modify_start current_ticks c =
     (modify_clear_all c)\<lparr>px_step := OldPin, px_start_ticks := current_ticks, px_pressed_button := None\<rparr>"

text \<open>An operation on the buffer of the current step.\<close>

definition modify_on_buffer ::
    "(pin_buffer \<Rightarrow> bool \<times> pin_buffer) \<Rightarrow> pin_modify_context \<Rightarrow> bool \<times> pin_modify_context" where
  "modify_on_buffer g c =
     (case px_step c of
        OldPin \<Rightarrow> (let (r, b) = g (px_old_buffer c) in (r, c\<lparr>px_old_buffer := b\<rparr>))
      | NewPin \<Rightarrow> (let (r, b) = g (px_new_buffer c) in (r, c\<lparr>px_new_buffer := b\<rparr>))
      | ConfirmPin \<Rightarrow> (let (r, b) = g (px_confirm_buffer c) in (r, c\<lparr>px_confirm_buffer := b\<rparr>))
      | _ \<Rightarrow> (False, c))"

definition modify_add_digit :: "u8 \<Rightarrow> pin_modify_context \<Rightarrow> bool \<times> pin_modify_context" where
  "modify_add_digit digit c = modify_on_buffer (pin_push digit) c"

definition modify_backspace :: "pin_modify_context \<Rightarrow> bool \<times> pin_modify_context" where
  "modify_backspace c = modify_on_buffer pin_pop c"

definition modify_submit :: "pin_modify_context \<Rightarrow> pin_result \<times> pin_modify_context" where
  "modify_submit c =
     (let min_len = unat (pm_min_len (px_params c)) in
      case px_step c of
        OldPin \<Rightarrow>
          if \<not> pin_has_minimum (px_old_buffer c) min_len then (PinInvalidLength, c\<lparr>px_step := ModifyInvalidLength\<rparr>)
          else (PinSuccess, c\<lparr>px_step := NewPin\<rparr>)
      | NewPin \<Rightarrow>
          if \<not> pin_has_minimum (px_new_buffer c) min_len then (PinInvalidLength, c\<lparr>px_step := ModifyInvalidLength\<rparr>)
          else (PinSuccess, c\<lparr>px_step := ConfirmPin\<rparr>)
      | ConfirmPin \<Rightarrow>
          if \<not> pin_has_minimum (px_confirm_buffer c) min_len then (PinInvalidLength, c\<lparr>px_step := ModifyInvalidLength\<rparr>)
          else if pb_len (px_new_buffer c) \<noteq> pb_len (px_confirm_buffer c)
            then (PinInvalidLength, c\<lparr>px_step := ModifyMismatch\<rparr>)
          else
            let new_ascii = pin_to_ascii (px_new_buffer c);
                confirm_ascii = pin_to_ascii (px_confirm_buffer c)
            in if take (pb_len (px_new_buffer c)) new_ascii \<noteq> take (pb_len (px_confirm_buffer c)) confirm_ascii
               then (PinInvalidLength, c\<lparr>px_step := ModifyMismatch\<rparr>)
               else (PinSuccess, c\<lparr>px_step := ModifyCompleted, px_confirm_buffer := pin_clear (px_confirm_buffer c)\<rparr>)
      | _ \<Rightarrow> (PinCancelled, c))"

definition modify_cancel :: "pin_modify_context \<Rightarrow> pin_modify_context" where
  "modify_cancel c = (modify_clear_all c)\<lparr>px_step := ModifyCancelled\<rparr>"

definition modify_is_active :: "pin_modify_context \<Rightarrow> bool" where
  "modify_is_active c \<longleftrightarrow> px_step c \<in> {OldPin, NewPin, ConfirmPin}"

definition modify_check_timeout :: "u32 \<Rightarrow> u32 \<Rightarrow> pin_modify_context \<Rightarrow> (bool \<times> pin_modify_context) outcome" where
  "modify_check_timeout current_ticks ticks_per_second c =
     (if px_step c \<notin> {OldPin, NewPin, ConfirmPin} then Some (False, c)
      else if pm_timeout_secs (px_params c) = 0 then Some (False, c)
      else if ticks_per_second = 0 then None
      else
        let elapsed_ticks = current_ticks - px_start_ticks c;
            elapsed_secs = elapsed_ticks div ticks_per_second
        in if ucast (pm_timeout_secs (px_params c)) \<le> elapsed_secs
           then Some (True, (modify_clear_all c)\<lparr>px_step := ModifyTimeout\<rparr>)
           else Some (False, c))"

definition modify_is_complete :: "pin_modify_context \<Rightarrow> bool" where
  "modify_is_complete c \<longleftrightarrow>
     px_step c \<in> {ModifyCompleted, ModifyCancelled, ModifyTimeout, ModifyMismatch, ModifyInvalidLength}"

definition modify_result :: "pin_modify_context \<Rightarrow> pin_result option" where
  "modify_result c =
     (case px_step c of
        ModifyCompleted \<Rightarrow> Some PinSuccess
      | ModifyCancelled \<Rightarrow> Some PinCancelled
      | ModifyTimeout \<Rightarrow> Some PinTimeout
      | ModifyMismatch \<Rightarrow> Some PinInvalidLength
      | ModifyInvalidLength \<Rightarrow> Some PinInvalidLength
      | _ \<Rightarrow> None)"

definition current_buffer_len :: "pin_modify_context \<Rightarrow> nat" where
  "current_buffer_len c =
     (case px_step c of
        OldPin \<Rightarrow> pb_len (px_old_buffer c)
      | NewPin \<Rightarrow> pb_len (px_new_buffer c)
      | ConfirmPin \<Rightarrow> pb_len (px_confirm_buffer c)
      | _ \<Rightarrow> 0)"

definition modify_reset :: "pin_modify_context \<Rightarrow> pin_modify_context" where
  "modify_reset c =
     (modify_clear_all c)\<lparr>px_step := ModifyIdle, px_start_ticks := 0, px_pressed_button := None\<rparr>"

section \<open>The card's answer\<close>

record verify_response =
  vr_sw1 :: u8
  vr_sw2 :: u8

definition response_parse :: "bytes \<Rightarrow> verify_response option" where
  "response_parse data =
     (if length data < 2 then None
      else let len = length data in Some \<lparr>vr_sw1 = data ! (len - 2), vr_sw2 = data ! (len - 1)\<rparr>)"

definition response_is_success :: "verify_response \<Rightarrow> bool" where
  "response_is_success r \<longleftrightarrow> vr_sw1 r = 0x90 \<and> vr_sw2 r = 0x00"

definition wrong_pin :: "verify_response \<Rightarrow> u8 option" where
  "wrong_pin r = (if vr_sw1 r = 0x63 \<and> vr_sw2 r AND 0xF0 = 0xC0 then Some (vr_sw2 r AND 0x0F) else None)"

definition is_blocked :: "verify_response \<Rightarrow> bool" where
  "is_blocked r \<longleftrightarrow> vr_sw1 r = 0x63 \<and> vr_sw2 r = 0xC0"

definition not_allowed :: "verify_response \<Rightarrow> bool" where
  "not_allowed r \<longleftrightarrow> vr_sw1 r = 0x69 \<and> vr_sw2 r = 0x85"

end
