(* ===== verification/Pinpad_Props.thy ===== *)
theory Pinpad_Props
  imports Pinpad
begin

text \<open>
  Properties of the PIN-pad machines: what every reachable context guarantees about the digits it holds,
  and what a complete change of a PIN amounts to.
\<close>

section \<open>Reachable contexts\<close>

definition wiped :: "pin_buffer \<Rightarrow> bool" where
  "wiped b \<longleftrightarrow> pb_len b = 0 \<and> list_all (\<lambda>d. d = 0) (pb_digits b)"

lemma wiped_new: "wiped (pin_new m)"
  by (simp add: wiped_def pin_new_def list_all_length)

lemma wiped_clear: "wiped (pin_clear b)"
  by (simp add: wiped_def pin_clear_def list_all_length)

lemma clear_max [simp]: "pb_max_len (pin_clear b) = pb_max_len b"
  by (simp add: pin_clear_def)

text \<open>A buffer of the machine: well-formed and bounded by the requested length.\<close>

definition pad_buffer :: "nat \<Rightarrow> pin_buffer \<Rightarrow> bool" where
  "pad_buffer m b \<longleftrightarrow> pin_buffer_ok b \<and> pb_max_len b = min m 16"

lemma pad_buffer_rules:
  "pad_buffer m (pin_new m)"
  "pad_buffer m b \<Longrightarrow> pad_buffer m (pin_clear b)"
  "pad_buffer m b \<Longrightarrow> pad_buffer m (snd (pin_push d b))"
  "pad_buffer m b \<Longrightarrow> pad_buffer m (snd (pin_pop b))"
  using pin_press_refines [of b "KeyDigit d"] pin_press_refines [of b KeyBackspace]
  by (auto simp: pad_buffer_def pin_new_ok pin_clear_ok) (simp add: pin_new_def)

inductive entry_reach :: "pin_verify_params \<Rightarrow> pin_entry_context \<Rightarrow> bool" for p :: pin_verify_params where
  new: "entry_reach p (entry_new p)"
| start: "entry_reach p c \<Longrightarrow> entry_reach p (entry_start t c)"
| digit: "entry_reach p c \<Longrightarrow> entry_reach p (snd (entry_add_digit d c))"
| backspace: "entry_reach p c \<Longrightarrow> entry_reach p (snd (entry_backspace c))"
| submit: "entry_reach p c \<Longrightarrow> entry_reach p (snd (entry_submit c))"
| cancel: "entry_reach p c \<Longrightarrow> entry_reach p (entry_cancel c)"
| tick: "entry_reach p c \<Longrightarrow> entry_check_timeout t hz c = Some (r, c') \<Longrightarrow> entry_reach p c'"
| reset: "entry_reach p c \<Longrightarrow> entry_reach p (entry_reset c)"

definition entry_ok :: "pin_verify_params \<Rightarrow> pin_entry_context \<Rightarrow> bool" where
  "entry_ok p c \<longleftrightarrow> pe_params c = p \<and> pad_buffer (unat (pv_max_len p)) (pe_buffer c) \<and>
     (pe_state c \<in> {EntryIdle, EntryCancelled, EntryTimeout} \<longrightarrow> wiped (pe_buffer c)) \<and>
     (pe_state c = EntryCompleted \<longrightarrow> unat (pv_min_len p) \<le> pb_len (pe_buffer c)) \<and>
     (pe_state c = EntryInvalidLength \<longrightarrow> pb_len (pe_buffer c) < unat (pv_min_len p))"

lemma entry_reach_ok: "entry_reach p c \<Longrightarrow> entry_ok p c"
proof (induction rule: entry_reach.induct)
  case (digit c d)
  then show ?case
    using pad_buffer_rules(3) [of "unat (pv_max_len p)" "pe_buffer c" d]
    by (auto simp: entry_ok_def entry_add_digit_def split: prod.split)
next
  case (backspace c)
  then show ?case
    using pad_buffer_rules(4) [of "unat (pv_max_len p)" "pe_buffer c"]
    by (auto simp: entry_ok_def entry_backspace_def split: prod.split)
next
  case (tick c t hz r c')
  then show ?case
    by (auto simp: entry_ok_def entry_check_timeout_def Let_def wiped_clear pad_buffer_rules split: if_splits)
qed (auto simp: entry_ok_def entry_new_def entry_start_def entry_submit_def entry_cancel_def entry_reset_def
    pin_has_minimum_def wiped_new wiped_clear pad_buffer_rules)

inductive modify_reach :: "pin_modify_params \<Rightarrow> pin_modify_context \<Rightarrow> bool" for p :: pin_modify_params where
  new: "modify_reach p (modify_new p)"
| start: "modify_reach p c \<Longrightarrow> modify_reach p (modify_start t c)"
| digit: "modify_reach p c \<Longrightarrow> modify_reach p (snd (modify_add_digit d c))"
| backspace: "modify_reach p c \<Longrightarrow> modify_reach p (snd (modify_backspace c))"
| submit: "modify_reach p c \<Longrightarrow> modify_reach p (snd (modify_submit c))"
| cancel: "modify_reach p c \<Longrightarrow> modify_reach p (modify_cancel c)"
| tick: "modify_reach p c \<Longrightarrow> modify_check_timeout t hz c = Some (r, c') \<Longrightarrow> modify_reach p c'"
| reset: "modify_reach p c \<Longrightarrow> modify_reach p (modify_reset c)"

definition modify_ok :: "pin_modify_params \<Rightarrow> pin_modify_context \<Rightarrow> bool" where
  "modify_ok p c \<longleftrightarrow> px_params c = p \<and> pad_buffer (unat (pm_max_len p)) (px_old_buffer c) \<and>
     pad_buffer (unat (pm_max_len p)) (px_new_buffer c) \<and> pad_buffer (unat (pm_max_len p)) (px_confirm_buffer c) \<and>
     (px_step c \<in> {ModifyIdle, ModifyCancelled, ModifyTimeout} \<longrightarrow> wiped (px_old_buffer c)) \<and>
     (px_step c \<in> {ModifyIdle, ModifyCancelled, ModifyTimeout, OldPin} \<longrightarrow> wiped (px_new_buffer c)) \<and>
     (px_step c \<notin> {ConfirmPin, ModifyMismatch, ModifyInvalidLength} \<longrightarrow> wiped (px_confirm_buffer c)) \<and>
     (px_step c \<in> {NewPin, ConfirmPin, ModifyMismatch, ModifyCompleted} \<longrightarrow>
        unat (pm_min_len p) \<le> pb_len (px_old_buffer c)) \<and>
     (px_step c \<in> {ConfirmPin, ModifyMismatch, ModifyCompleted} \<longrightarrow>
        unat (pm_min_len p) \<le> pb_len (px_new_buffer c))"

lemma modify_on_buffer_ok:
  assumes "modify_ok p c" and "\<And>b. pad_buffer (unat (pm_max_len p)) b \<Longrightarrow> pad_buffer (unat (pm_max_len p)) (snd (g b))"
  shows "modify_ok p (snd (modify_on_buffer g c))"
  using assms(1) assms(2) [of "px_old_buffer c"] assms(2) [of "px_new_buffer c"] assms(2) [of "px_confirm_buffer c"]
  by (cases "px_step c") (auto simp: modify_ok_def modify_on_buffer_def split: prod.split)

lemma modify_submit_ok:
  assumes "modify_ok p c"
  shows "modify_ok p (snd (modify_submit c))"
  using assms
  by (cases "px_step c") (simp_all add: modify_ok_def modify_submit_def Let_def pin_has_minimum_def wiped_clear pad_buffer_rules)

lemma modify_clear_ok:
  assumes "modify_ok p c" and "s \<in> {ModifyIdle, ModifyCancelled, ModifyTimeout, OldPin}"
  shows "modify_ok p ((modify_clear_all c)\<lparr>px_step := s\<rparr>)"
proof -
  have "pad_buffer (unat (pm_max_len p)) (px_old_buffer c)" "pad_buffer (unat (pm_max_len p)) (px_new_buffer c)"
    "pad_buffer (unat (pm_max_len p)) (px_confirm_buffer c)" "px_params c = p" using assms(1) by (simp_all add: modify_ok_def)
  with assms(2) show ?thesis
    unfolding modify_ok_def modify_clear_all_def by (elim insertE emptyE) (simp_all add: wiped_clear pad_buffer_rules)
qed

lemma modify_reach_ok: "modify_reach p c \<Longrightarrow> modify_ok p c"
proof (induction rule: modify_reach.induct)
  case new
  show ?case by (simp add: modify_ok_def modify_new_def Let_def wiped_new pad_buffer_rules)
next
  case (start c t)
  from modify_clear_ok [OF start.IH, of OldPin] show ?case
    by (simp add: modify_start_def modify_ok_def)
next
  case (digit c d)
  from digit.IH show ?case unfolding modify_add_digit_def by (rule modify_on_buffer_ok) (rule pad_buffer_rules)
next
  case (backspace c)
  from backspace.IH show ?case unfolding modify_backspace_def by (rule modify_on_buffer_ok) (rule pad_buffer_rules)
next
  case (submit c)
  from submit.IH show ?case by (rule modify_submit_ok)
next
  case (cancel c)
  then show ?case by (simp add: modify_cancel_def modify_clear_ok)
next
  case (tick c t hz r c')
  then show ?case by (auto simp: modify_check_timeout_def Let_def modify_clear_ok split: if_splits)
next
  case (reset c)
  from modify_clear_ok [OF reset.IH, of ModifyIdle] show ?case by (simp add: modify_reset_def modify_ok_def)
qed

text \<open>C40: A cancelled, timed-out or reset PIN entry leaves no digit behind.  Whatever the user presses and
  whenever the clock is looked at, a context that is idle, cancelled or timed out holds only zeros in every
  one of its digit buffers, and so does the repetition buffer of a completed change; a completed entry holds
  between the minimum and the maximum number of digits, and a completed change does so for the old and
  the new PIN.  Of an entry that ended with a wrong length or a mismatch nothing is claimed: its digits
  stay.\<close>

theorem pinpad_wipes:
  "(entry_reach pv e \<longrightarrow>
     (pe_state e \<in> {EntryIdle, EntryCancelled, EntryTimeout} \<longrightarrow> wiped (pe_buffer e)) \<and>
     (pe_state e = EntryCompleted \<longrightarrow>
        pb_len (pe_buffer e) \<in> {unat (pv_min_len pv)..min (unat (pv_max_len pv)) 16})) \<and>
   (modify_reach pm c \<longrightarrow>
     (px_step c \<in> {ModifyIdle, ModifyCancelled, ModifyTimeout} \<longrightarrow>
        wiped (px_old_buffer c) \<and> wiped (px_new_buffer c) \<and> wiped (px_confirm_buffer c)) \<and>
     (px_step c = ModifyCompleted \<longrightarrow>
        wiped (px_confirm_buffer c) \<and>
        pb_len (px_old_buffer c) \<in> {unat (pm_min_len pm)..min (unat (pm_max_len pm)) 16} \<and>
        pb_len (px_new_buffer c) \<in> {unat (pm_min_len pm)..min (unat (pm_max_len pm)) 16}))"
  using entry_reach_ok [of pv e] modify_reach_ok [of pm c]
  by (auto simp: entry_ok_def modify_ok_def pad_buffer_def pin_buffer_ok_def)

theorem pinpad_wipes_witness:
  "wiped (pe_buffer (entry_cancel (snd (entry_add_digit 7 (entry_start 5 (entry_new pin_verify_default))))))"
proof -
  let ?e = "entry_cancel (snd (entry_add_digit 7 (entry_start 5 (entry_new pin_verify_default))))"
  have "entry_reach pin_verify_default ?e" by (intro entry_reach.intros)
  with pinpad_wipes [of pin_verify_default ?e] show ?thesis by (simp add: entry_cancel_def)
qed

section \<open>A change of a PIN\<close>

text \<open>The keys of the PIN pad between two presses of OK; the pad has no key that clears the buffer.\<close>

fun modify_press :: "pin_modify_context \<Rightarrow> pin_key \<Rightarrow> pin_modify_context" where
  "modify_press c (KeyDigit d) = snd (modify_add_digit d c)"
| "modify_press c KeyBackspace = snd (modify_backspace c)"
| "modify_press c KeyClear = c"

definition modify_type :: "pin_key list \<Rightarrow> pin_modify_context \<Rightarrow> pin_modify_context" where
  "modify_type ks c = snd (modify_submit (foldl modify_press c ks))"

definition typed :: "pin_modify_params \<Rightarrow> pin_key list \<Rightarrow> bytes" where
  "typed p ks = foldl (stack_press (min (unat (pm_max_len p)) 16)) [] ks"

lemma presses:
  assumes "KeyClear \<notin> set ks"
  shows "px_step c = OldPin \<Longrightarrow> foldl modify_press c ks = c\<lparr>px_old_buffer := foldl pin_press (px_old_buffer c) ks\<rparr>"
    and "px_step c = NewPin \<Longrightarrow> foldl modify_press c ks = c\<lparr>px_new_buffer := foldl pin_press (px_new_buffer c) ks\<rparr>"
    and "px_step c = ConfirmPin \<Longrightarrow> foldl modify_press c ks = c\<lparr>px_confirm_buffer := foldl pin_press (px_confirm_buffer c) ks\<rparr>"
    and "\<not> modify_is_active c \<Longrightarrow> foldl modify_press c ks = c"
proof -
  have one: "KeyClear \<noteq> k \<Longrightarrow> modify_press c k = snd (modify_on_buffer (\<lambda>b. (True, pin_press b k)) c)" for k c
    by (cases k; cases "px_step c") (simp_all add: modify_add_digit_def modify_backspace_def modify_on_buffer_def split: prod.split)
  show "px_step c = OldPin \<Longrightarrow> foldl modify_press c ks = c\<lparr>px_old_buffer := foldl pin_press (px_old_buffer c) ks\<rparr>"
    using assms by (induction ks arbitrary: c) (simp_all add: one modify_on_buffer_def)
  show "px_step c = NewPin \<Longrightarrow> foldl modify_press c ks = c\<lparr>px_new_buffer := foldl pin_press (px_new_buffer c) ks\<rparr>"
    using assms by (induction ks arbitrary: c) (simp_all add: one modify_on_buffer_def)
  show "px_step c = ConfirmPin \<Longrightarrow> foldl modify_press c ks = c\<lparr>px_confirm_buffer := foldl pin_press (px_confirm_buffer c) ks\<rparr>"
    using assms by (induction ks arbitrary: c) (simp_all add: one modify_on_buffer_def)
  show "\<not> modify_is_active c \<Longrightarrow> foldl modify_press c ks = c"
    using assms
    by (induction ks arbitrary: c)
      (simp_all add: one modify_on_buffer_def modify_is_active_def split: pin_modify_step.split)
qed

lemma typed_buffer:
  assumes "pad_buffer (unat (pm_max_len p)) b" and "wiped b"
  shows "pin_abs (foldl pin_press b ks) = typed p ks" and "pb_len (foldl pin_press b ks) = length (typed p ks)"
    and "pin_buffer_ok (foldl pin_press b ks)"
proof -
  have ok: "pin_buffer_ok b" and m: "pb_max_len b = min (unat (pm_max_len p)) 16" and z: "pin_abs b = []"
    using assms by (simp_all add: pad_buffer_def wiped_def pin_abs_def)
  show a: "pin_abs (foldl pin_press b ks) = typed p ks" and o: "pin_buffer_ok (foldl pin_press b ks)"
    using pin_presses_refine [OF ok, of ks] m z by (simp_all add: typed_def)
  show "pb_len (foldl pin_press b ks) = length (typed p ks)" using length_pin_abs [OF o] a by simp
qed

lemma inactive_type: "KeyClear \<notin> set ks \<Longrightarrow> \<not> modify_is_active c \<Longrightarrow> modify_type ks c = c"
  by (cases "px_step c") (simp_all add: modify_type_def presses(4) modify_submit_def modify_is_active_def)

lemma ascii_eq:
  assumes "pin_buffer_ok a" and "pin_buffer_ok b"
  shows "take (pb_len a) (pin_to_ascii a) = take (pb_len b) (pin_to_ascii b) \<longleftrightarrow> pin_abs a = pin_abs b"
  unfolding pin_to_ascii_prefix(1) [OF assms(1)] pin_to_ascii_prefix(1) [OF assms(2)]
  by (intro inj_map_eq_map injI) simp

text \<open>OK at each of the three steps.\<close>

lemma type_steps:
  assumes "KeyClear \<notin> set ks" and "modify_ok p c"
  shows "px_step c = OldPin \<Longrightarrow> wiped (px_old_buffer c) \<Longrightarrow>
      modify_type ks c = c\<lparr>px_old_buffer := foldl pin_press (px_old_buffer c) ks,
        px_step := (if unat (pm_min_len p) \<le> length (typed p ks) then NewPin else ModifyInvalidLength)\<rparr>"
    and "px_step c = NewPin \<Longrightarrow> wiped (px_new_buffer c) \<Longrightarrow>
      modify_type ks c = c\<lparr>px_new_buffer := foldl pin_press (px_new_buffer c) ks,
        px_step := (if unat (pm_min_len p) \<le> length (typed p ks) then ConfirmPin else ModifyInvalidLength)\<rparr>"
    and "px_step c = ConfirmPin \<Longrightarrow> wiped (px_confirm_buffer c) \<Longrightarrow> px_step (modify_type ks c) = ModifyCompleted \<longleftrightarrow> typed p ks = pin_abs (px_new_buffer c)"
    and "px_step c = ConfirmPin \<Longrightarrow>
      px_old_buffer (modify_type ks c) = px_old_buffer c \<and> px_new_buffer (modify_type ks c) = px_new_buffer c"
proof -
  have par: "px_params c = p" and pad: "pad_buffer (unat (pm_max_len p)) (px_old_buffer c)"
    "pad_buffer (unat (pm_max_len p)) (px_new_buffer c)" "pad_buffer (unat (pm_max_len p)) (px_confirm_buffer c)"
    using assms(2) by (simp_all add: modify_ok_def)
  show "modify_type ks c = c\<lparr>px_old_buffer := foldl pin_press (px_old_buffer c) ks,
        px_step := (if unat (pm_min_len p) \<le> length (typed p ks) then NewPin else ModifyInvalidLength)\<rparr>"
    if "px_step c = OldPin" "wiped (px_old_buffer c)"
    using that par typed_buffer(2) [OF pad(1) that(2), of ks]
    by (simp add: modify_type_def presses(1) [OF assms(1)] modify_submit_def pin_has_minimum_def)
  show "modify_type ks c = c\<lparr>px_new_buffer := foldl pin_press (px_new_buffer c) ks,
        px_step := (if unat (pm_min_len p) \<le> length (typed p ks) then ConfirmPin else ModifyInvalidLength)\<rparr>"
    if "px_step c = NewPin" "wiped (px_new_buffer c)"
    using that par typed_buffer(2) [OF pad(2) that(2), of ks]
    by (simp add: modify_type_def presses(2) [OF assms(1)] modify_submit_def pin_has_minimum_def)
  show "px_old_buffer (modify_type ks c) = px_old_buffer c \<and> px_new_buffer (modify_type ks c) = px_new_buffer c"
    if "px_step c = ConfirmPin"
    using that by (simp add: modify_type_def presses(3) [OF assms(1)] modify_submit_def Let_def)
  show "px_step (modify_type ks c) = ModifyCompleted \<longleftrightarrow> typed p ks = pin_abs (px_new_buffer c)"
    if s: "px_step c = ConfirmPin" and w: "wiped (px_confirm_buffer c)"
  proof -
    note t = typed_buffer [OF pad(3) w, of ks]
    have new: "pin_buffer_ok (px_new_buffer c)" "unat (pm_min_len p) \<le> pb_len (px_new_buffer c)"
      using pad(2) assms(2) s by (simp_all add: pad_buffer_def modify_ok_def)
    have "px_step (modify_type ks c) = ModifyCompleted \<longleftrightarrow>
        unat (pm_min_len p) \<le> length (typed p ks) \<and> pb_len (px_new_buffer c) = length (typed p ks) \<and>
        pin_abs (px_new_buffer c) = typed p ks"
      using s par t ascii_eq [OF new(1) t(3)]
      by (auto simp: modify_type_def presses(3) [OF assms(1)] modify_submit_def Let_def pin_has_minimum_def)
    then show ?thesis using new length_pin_abs [OF new(1)] by auto
  qed
qed

lemma modify_type_ok: "modify_ok p c \<Longrightarrow> modify_ok p (modify_type ks c)"
proof -
  have "modify_ok p c \<Longrightarrow> modify_ok p (foldl modify_press c ks)"
  proof (induction ks arbitrary: c)
    case (Cons k ks)
    have "modify_ok p (modify_press c k)"
      using Cons.prems
      by (cases k) (simp_all add: modify_add_digit_def modify_backspace_def modify_on_buffer_ok pad_buffer_rules)
    from Cons.IH [OF this] show ?case by simp
  qed simp
  then show "modify_ok p c \<Longrightarrow> modify_ok p (modify_type ks c)" by (simp add: modify_type_def modify_submit_ok)
qed

definition change_pin :: "u32 \<Rightarrow> pin_key list \<Rightarrow> pin_key list \<Rightarrow> pin_key list \<Rightarrow> pin_modify_context \<Rightarrow> pin_modify_context" where
  "change_pin t ks1 ks2 ks3 c = modify_type ks3 (modify_type ks2 (modify_type ks1 (modify_start t c)))"

text \<open>The context after a first and a second PIN of sufficient length.\<close>

lemma change_third:
  assumes "modify_ok p c" and "px_step c = OldPin" and "wiped (px_old_buffer c)" and "KeyClear \<notin> set (ks1 @ ks2 @ ks3)"
    and "unat (pm_min_len p) \<le> length (typed p ks1)" and "unat (pm_min_len p) \<le> length (typed p ks2)"
  shows "(px_step (modify_type ks3 (modify_type ks2 (modify_type ks1 c))) = ModifyCompleted \<longleftrightarrow> typed p ks3 = typed p ks2) \<and>
    pin_abs (px_old_buffer (modify_type ks3 (modify_type ks2 (modify_type ks1 c)))) = typed p ks1 \<and>
    pin_abs (px_new_buffer (modify_type ks3 (modify_type ks2 (modify_type ks1 c)))) = typed p ks2"
proof -
  have k: "KeyClear \<notin> set ks1" "KeyClear \<notin> set ks2" "KeyClear \<notin> set ks3" using assms(4) by auto
  have b: "pad_buffer (unat (pm_max_len p)) (px_old_buffer c)" "pad_buffer (unat (pm_max_len p)) (px_new_buffer c)"
    "wiped (px_new_buffer c)" "wiped (px_confirm_buffer c)" using assms(1,2) by (simp_all add: modify_ok_def)
  define c1 where "c1 = modify_type ks1 c"
  have c1: "c1 = c\<lparr>px_old_buffer := foldl pin_press (px_old_buffer c) ks1, px_step := NewPin\<rparr>"
    using type_steps(1) [OF k(1) assms(1-3)] assms(5) by (simp add: c1_def)
  have ok1: "modify_ok p c1" using modify_type_ok [OF assms(1)] by (simp add: c1_def)
  define c2 where "c2 = modify_type ks2 c1"
  have c2: "c2 = c1\<lparr>px_new_buffer := foldl pin_press (px_new_buffer c) ks2, px_step := ConfirmPin\<rparr>"
    using type_steps(2) [OF k(2) ok1] assms(6) b(3) by (simp add: c2_def c1)
  have ok2: "modify_ok p c2" using modify_type_ok [OF ok1] by (simp add: c2_def)
  have s2: "px_step c2 = ConfirmPin" "wiped (px_confirm_buffer c2)" using b(4) by (simp_all add: c2 c1)
  have abs: "pin_abs (px_old_buffer c2) = typed p ks1" "pin_abs (px_new_buffer c2) = typed p ks2"
    using typed_buffer(1) [OF b(1) assms(3)] typed_buffer(1) [OF b(2,3)] by (simp_all add: c2 c1)
  show ?thesis
    using type_steps(3) [OF k(3) ok2 s2] type_steps(4) [OF k(3) ok2 s2(1)] abs by (simp add: c2_def c1_def)
qed

text \<open>A PIN is changed only when it was typed twice.  From any reachable context, typing a first, a second
  and a third PIN, each with any digits and corrections and closed by OK, completes the change if and
  only if the first and the second have the required length and the third equals the second; the context
  then holds the first as old and the second as new PIN.  Digits beyond the maximum are ignored.\<close>

theorem pin_change_typed_twice:
  assumes "modify_reach p c" and "KeyClear \<notin> set (ks1 @ ks2 @ ks3)"
  shows "(px_step (change_pin t ks1 ks2 ks3 c) = ModifyCompleted \<longleftrightarrow>
      unat (pm_min_len p) \<le> length (typed p ks1) \<and> unat (pm_min_len p) \<le> length (typed p ks2) \<and>
      typed p ks3 = typed p ks2) \<and>
    (px_step (change_pin t ks1 ks2 ks3 c) = ModifyCompleted \<longrightarrow>
      pin_abs (px_old_buffer (change_pin t ks1 ks2 ks3 c)) = typed p ks1 \<and>
      pin_abs (px_new_buffer (change_pin t ks1 ks2 ks3 c)) = typed p ks2)"
proof -
  let ?c = "modify_start t c" and ?min = "unat (pm_min_len p)"
  have ok: "modify_ok p ?c" using modify_reach_ok [OF modify_reach.start [OF assms(1)]] .
  have s: "px_step ?c = OldPin" "wiped (px_old_buffer ?c)" "wiped (px_new_buffer ?c)"
    by (simp_all add: modify_start_def modify_clear_all_def wiped_clear)
  have k: "KeyClear \<notin> set ks1" "KeyClear \<notin> set ks2" "KeyClear \<notin> set ks3" using assms(2) by auto
  note c1 = type_steps(1) [OF k(1) ok s(1,2)]
  consider (short) "\<not> ?min \<le> length (typed p ks1)" | (new_short) "?min \<le> length (typed p ks1)" "\<not> ?min \<le> length (typed p ks2)"
    | (long) "?min \<le> length (typed p ks1)" "?min \<le> length (typed p ks2)" by blast
  then show ?thesis
  proof cases
    case short
    then have "\<not> modify_is_active (modify_type ks1 ?c)" "px_step (modify_type ks1 ?c) = ModifyInvalidLength"
      using c1 by (simp_all add: modify_is_active_def)
    then show ?thesis using short k by (simp add: change_pin_def inactive_type)
  next
    case new_short
    have "modify_ok p (modify_type ks1 ?c)" using modify_type_ok [OF ok] .
    from type_steps(2) [OF k(2) this] c1 new_short s(3)
    have "px_step (modify_type ks2 (modify_type ks1 ?c)) = ModifyInvalidLength" by simp
    then show ?thesis using new_short k by (simp add: change_pin_def inactive_type modify_is_active_def)
  next
    case long
    from change_third [OF ok s(1,2) assms(2) long] long show ?thesis by (simp add: change_pin_def)
  qed
qed

theorem pin_change_typed_twice_witness:
  "px_step (change_pin 0 (map KeyDigit [1, 2, 3, 4, 5, 6]) (map KeyDigit [6, 5, 4, 3, 2, 1])
     (map KeyDigit [6, 5, 4, 3, 2, 2] @ [KeyBackspace, KeyDigit 1]) (modify_new pin_modify_default)) = ModifyCompleted"
  using pin_change_typed_twice [OF modify_reach.new, of "map KeyDigit [1, 2, 3, 4, 5, 6]" "map KeyDigit [6, 5, 4, 3, 2, 1]"
      "map KeyDigit [6, 5, 4, 3, 2, 2] @ [KeyBackspace, KeyDigit 1]" 0 pin_modify_default]
  by (simp add: typed_def pin_modify_default_def)

end
