(* ===== verification/Firmware_Support.thy ===== *)
theory Firmware_Support
  imports Prelude
begin

text \<open>
  Small state machines of the two firmwares: the failure tracker that decides on a re-initialisation
  (\<open>ccid-firmware/src/selfhealing.rs\<close>), the cycle-counter clocks (\<open>ccid-firmware/src/dwt_watchdog.rs\<close>),
  the log queue of the Bluetooth console (\<open>esp32-ccid/src/ble_log_queue.rs\<close>) and the authorisation of an
  over-the-air update (\<open>esp32-ccid/src/ota_header.rs\<close>).
\<close>

section \<open>Failure tracker\<close>

abbreviation (input) REINIT_THRESHOLD :: u8 where "REINIT_THRESHOLD \<equiv> 3"

datatype exchange_outcome = OutcomeSuccess | OutcomeMute | OutcomeFailure

definition of_len :: "nat \<Rightarrow> bool \<Rightarrow> exchange_outcome" where
  "of_len len is_err = (if is_err then OutcomeFailure else if len = 0 then OutcomeMute else OutcomeSuccess)"

record failure_tracker =
  ft_consecutive_failures :: u8
  ft_reinit_count :: u32
  ft_reinit_pending :: bool

definition tracker_new :: failure_tracker where
  "tracker_new = \<lparr>ft_consecutive_failures = 0, ft_reinit_count = 0, ft_reinit_pending = False\<rparr>"

definition session_start :: "failure_tracker \<Rightarrow> failure_tracker" where
  "session_start t = t\<lparr>ft_consecutive_failures := 0\<rparr>"

definition tracker_record :: "exchange_outcome \<Rightarrow> failure_tracker \<Rightarrow> bool \<times> failure_tracker" where
  "tracker_record outcome t =
     (case outcome of
        OutcomeSuccess \<Rightarrow> (False, t\<lparr>ft_consecutive_failures := 0\<rparr>)
      | _ \<Rightarrow>
          let t = t\<lparr>ft_consecutive_failures := saturating_add8 (ft_consecutive_failures t) 1\<rparr> in
          if REINIT_THRESHOLD \<le> ft_consecutive_failures t then
            (True, t\<lparr>ft_consecutive_failures := 0, ft_reinit_count := saturating_add32 (ft_reinit_count t) 1,
                     ft_reinit_pending := True\<rparr>)
          else (False, t))"

definition take_reinit_pending :: "failure_tracker \<Rightarrow> bool \<times> failure_tracker" where
  "take_reinit_pending t = (ft_reinit_pending t, t\<lparr>ft_reinit_pending := False\<rparr>)"

section \<open>Cycle-counter clocks\<close>

definition ms_to_cycles :: "u32 \<Rightarrow> u32 \<Rightarrow> u32" where
  "ms_to_cycles ms hz =
     (let cycles = (ucast ms * ucast hz :: u64) div 1000 in
      if 0xFFFFFFFF < cycles then 0xFFFFFFFF else ucast cycles)"

record dwt_watchdog =
  dw_start :: u32
  dw_timeout :: u32

definition watchdog_new :: "u32 \<Rightarrow> dwt_watchdog" where
  "watchdog_new timeout_cycles = \<lparr>dw_start = 0, dw_timeout = timeout_cycles\<rparr>"

definition watchdog_from_ms :: "u32 \<Rightarrow> u32 \<Rightarrow> dwt_watchdog" where
  "watchdog_from_ms ms hz = watchdog_new (ms_to_cycles ms hz)"

definition watchdog_start :: "u32 \<Rightarrow> dwt_watchdog \<Rightarrow> dwt_watchdog" where
  "watchdog_start cyccnt w = w\<lparr>dw_start := cyccnt\<rparr>"

definition watchdog_expired :: "u32 \<Rightarrow> dwt_watchdog \<Rightarrow> bool" where
  "watchdog_expired cyccnt w \<longleftrightarrow> dw_timeout w \<le> cyccnt - dw_start w"

definition elapsed_cycles :: "u32 \<Rightarrow> dwt_watchdog \<Rightarrow> u32" where
  "elapsed_cycles cyccnt w = cyccnt - dw_start w"

definition remaining_cycles :: "u32 \<Rightarrow> dwt_watchdog \<Rightarrow> u32" where
  "remaining_cycles cyccnt w =
     (let e = cyccnt - dw_start w in if dw_timeout w \<le> e then 0 else dw_timeout w - e)"

record dwt_uptime =
  du_last_cycles :: u32
  du_accum_cycles :: u32
  du_ticks_ms :: u32
  du_cycles_per_ms :: u32

definition uptime_new :: "u32 \<Rightarrow> dwt_uptime" where
  "uptime_new clock_hz =
     (let cycles_per_ms = (let raw = clock_hz div 1000 in if raw = 0 then 1 else raw)
      in \<lparr>du_last_cycles = 0, du_accum_cycles = 0, du_ticks_ms = 0, du_cycles_per_ms = cycles_per_ms\<rparr>)"

text \<open>The loop that turns cycles into milliseconds; the rate is never zero.\<close>

function uptime_drain :: "u32 \<Rightarrow> u32 \<Rightarrow> u32 \<Rightarrow> u32 \<times> u32" where
  "uptime_drain cycles_per_ms accum ticks =
     (if cycles_per_ms \<noteq> 0 \<and> cycles_per_ms \<le> accum
      then uptime_drain cycles_per_ms (accum - cycles_per_ms) (ticks + 1) else (accum, ticks))"
  by pat_completeness auto
termination
proof (relation "measure (\<lambda>(c, a, t). unat a)")
  fix c a t :: u32
  assume "c \<noteq> 0 \<and> c \<le> a"
  then have "unat (a - c) < unat a"
    by (metis unat_sub unat_gt_0 word_le_nat_alt diff_less order_less_le_trans)
  then show "((c, a - c, t + 1), c, a, t) \<in> measure (\<lambda>(c, a, t). unat a)" by simp
qed simp

declare uptime_drain.simps [simp del]

definition uptime_poll :: "u32 \<Rightarrow> dwt_uptime \<Rightarrow> u32 \<times> dwt_uptime" where
  "uptime_poll now_cycles u =
     (let delta = now_cycles - du_last_cycles u;
          (accum, ticks) = uptime_drain (du_cycles_per_ms u) (du_accum_cycles u + delta) (du_ticks_ms u)
      in (ticks, u\<lparr>du_last_cycles := now_cycles, du_accum_cycles := accum, du_ticks_ms := ticks\<rparr>))"

section \<open>Bluetooth log queue\<close>

abbreviation (input) MAX_LOG_LINE_LEN :: nat where "MAX_LOG_LINE_LEN \<equiv> 200"
abbreviation (input) QUEUE_CAPACITY :: nat where "QUEUE_CAPACITY \<equiv> 32"

record log_queue =
  lq_lines :: "bytes list"
  lq_dropped :: u32

definition log_queue_new :: log_queue where
  "log_queue_new = \<lparr>lq_lines = [], lq_dropped = 0\<rparr>"

definition push_line :: "bytes \<Rightarrow> log_queue \<Rightarrow> log_queue" where
  "push_line line q =
     (let q = (if QUEUE_CAPACITY \<le> length (lq_lines q)
               then q\<lparr>lq_lines := tl (lq_lines q), lq_dropped := lq_dropped q + 1\<rparr> else q)
      in q\<lparr>lq_lines := lq_lines q @ [line]\<rparr>)"

definition log_pop_front :: "log_queue \<Rightarrow> bytes option \<times> log_queue" where
  "log_pop_front q =
     (case lq_lines q of [] \<Rightarrow> (None, q) | l # ls \<Rightarrow> (Some l, q\<lparr>lq_lines := ls\<rparr>))"

text \<open>The text of a banner, and a count printed in decimal.\<close>

definition ascii :: "string \<Rightarrow> bytes" where
  "ascii s = map of_char s"

fun decimal :: "nat \<Rightarrow> bytes" where
  "decimal n = (if n < 10 then [word_of_nat (48 + n)] else decimal (n div 10) @ [word_of_nat (48 + n mod 10)])"

declare decimal.simps [simp del]

definition take_banner :: "log_queue \<Rightarrow> bytes \<times> log_queue" where
  "take_banner q =
     (let dropped = lq_dropped q; q = q\<lparr>lq_dropped := 0\<rparr>
      in (if dropped = 0 then ascii ''=== BLE log attached ==='' @ [0x0A]
          else ascii ''=== BLE log attached; '' @ decimal (unat dropped) @ ascii '' older lines dropped ==='' @ [0x0A], q))"

definition format_record :: "bytes \<Rightarrow> bytes \<Rightarrow> bytes \<Rightarrow> bytes" where
  "format_record level module message =
     (let rendered = [0x5B] @ level @ [0x5D, 0x20] @ module @ [0x3A, 0x20] @ message @ [0x0A] in
      if MAX_LOG_LINE_LEN < length rendered then
        let rendered = take (MAX_LOG_LINE_LEN - 1) rendered
        in if rendered = [] \<or> last rendered \<noteq> 0x0A then rendered @ [0x0A] else rendered
      else rendered)"

section \<open>Update authorisation\<close>

definition MAGIC_V1 :: bytes where "MAGIC_V1 = [0x4F, 0x54, 0x41, 0x31]"
definition MAGIC_V2 :: bytes where "MAGIC_V2 = [0x4F, 0x54, 0x41, 0x32]"

datatype ota_refusal =
  BadSize | TooLarge | MissingToken | TokenMismatch | TokenRequired | BadMagic

definition validate_size :: "nat \<Rightarrow> nat \<Rightarrow> ota_refusal + unit" where
  "validate_size announced partition_size =
     (if announced = 0 then Inl BadSize
      else if partition_size < announced then Inl TooLarge
      else Inr ())"

definition authorize :: "bytes \<Rightarrow> bytes option \<Rightarrow> bytes option \<Rightarrow> ota_refusal + unit" where
  "authorize magic token expected =
     (case (magic = MAGIC_V2, expected) of
        (True, Some want) \<Rightarrow>
          (case token of
             None \<Rightarrow> Inl MissingToken
           | Some got \<Rightarrow> if got = want then Inr () else Inl TokenMismatch)
      | (True, None) \<Rightarrow> Inr ()
      | (False, Some _) \<Rightarrow> Inl TokenRequired
      | (False, None) \<Rightarrow> if magic = MAGIC_V1 then Inr () else Inl BadMagic)"

section \<open>What they compute\<close>

definition failing :: "exchange_outcome \<Rightarrow> bool" where
  "failing x \<longleftrightarrow> x \<noteq> OutcomeSuccess"

text \<open>The number of failures since the last success.\<close>

definition streak :: "exchange_outcome list \<Rightarrow> nat" where
  "streak xs = length (takeWhile failing (rev xs))"

definition tracked :: "exchange_outcome list \<Rightarrow> failure_tracker" where
  "tracked xs = foldl (\<lambda>t x. snd (tracker_record x t)) tracker_new xs"

lemma streak_snoc [simp]: "streak (xs @ [x]) = (if failing x then streak xs + 1 else 0)"
  by (simp add: streak_def)

lemma record_step:
  assumes "ft_consecutive_failures t = word_of_nat (n mod 3)"
  shows "ft_consecutive_failures (snd (tracker_record x t)) = (if failing x then word_of_nat ((n + 1) mod 3) else 0)"
    and "fst (tracker_record x t) \<longleftrightarrow> failing x \<and> (n + 1) mod 3 = 0"
proof -
  have "n mod 3 = 0 \<or> n mod 3 = 1 \<or> n mod 3 = 2" by linarith
  then have "(n mod 3 = 0 \<and> (n + 1) mod 3 = 1) \<or> (n mod 3 = 1 \<and> (n + 1) mod 3 = 2) \<or> (n mod 3 = 2 \<and> (n + 1) mod 3 = 0)"
    by presburger
  with assms show "ft_consecutive_failures (snd (tracker_record x t)) = (if failing x then word_of_nat ((n + 1) mod 3) else 0)"
    and "fst (tracker_record x t) \<longleftrightarrow> failing x \<and> (n + 1) mod 3 = 0"
    by (cases x; auto simp: tracker_record_def failing_def saturating_add8_def word_le_nat_alt)+
qed

lemma tracked_streak: "ft_consecutive_failures (tracked xs) = word_of_nat (streak xs mod 3)"
proof (induction xs rule: rev_induct)
  case Nil
  show ?case by (simp add: tracked_def tracker_new_def streak_def)
next
  case (snoc x xs)
  from record_step(1) [OF snoc.IH, of x] show ?case by (simp add: tracked_def)
qed

text \<open>A re-initialisation is asked for at every third failure in a row and at no other exchange, a mute
  exchange counting as a failure.\<close>

theorem reinit_every_third_failure:
  "fst (tracker_record x (tracked xs)) \<longleftrightarrow> failing x \<and> (streak xs + 1) mod 3 = 0"
  using record_step(2) [OF tracked_streak] .

lemma drain_exact:
  assumes "c \<noteq> 0"
  shows "uptime_drain c a t = (a mod c, t + a div c)"
  using assms
proof (induction c a t rule: uptime_drain.induct)
  case (1 c a t)
  have c: "0 < unat c" using "1.prems" by (simp add: unat_gt_0)
  show ?case
  proof (cases "c \<le> a")
    case True
    then have le: "unat c \<le> unat a" by (simp add: word_le_nat_alt)
    have m: "(a - c) mod c = a mod c"
      using le True by (simp add: word_unat_eq_iff unat_mod_distrib unat_sub le_mod_geq)
    have "unat ((a - c) div c) + 1 = unat (a div c)"
      using le c True by (simp add: unat_div_distrib unat_sub le_div_geq)
    then have "word_of_nat (unat ((a - c) div c) + 1) = (word_of_nat (unat (a div c)) :: u32)" by (rule arg_cong)
    then have "(a - c) div c + 1 = a div c" by (simp add: add.commute)
    then have d: "t + 1 + (a - c) div c = t + a div c" by (simp add: ac_simps)
    show ?thesis using "1.IH" True "1.prems" m d by (subst uptime_drain.simps) simp
  next
    case False
    then have "unat a < unat c" by (simp add: word_less_nat_alt not_le)
    then have "a mod c = a" "a div c = 0" by (simp_all add: word_unat_eq_iff unat_mod_distrib unat_div_distrib)
    then show ?thesis using False by (subst uptime_drain.simps) simp
  qed
qed

text \<open>The cycles that passed between the readings.\<close>

fun cycles_seen :: "u32 \<Rightarrow> u32 list \<Rightarrow> nat" where
  "cycles_seen prev [] = 0"
| "cycles_seen prev (n # ns) = unat (n - prev) + cycles_seen n ns"

fun gaps_below :: "nat \<Rightarrow> u32 \<Rightarrow> u32 list \<Rightarrow> bool" where
  "gaps_below k prev [] = True"
| "gaps_below k prev (n # ns) = (unat (n - prev) \<le> k \<and> gaps_below k n ns)"

definition uptime_polls :: "u32 list \<Rightarrow> dwt_uptime \<Rightarrow> dwt_uptime" where
  "uptime_polls ns u = foldl (\<lambda>u n. snd (uptime_poll n u)) u ns"

lemma poll_exact:
  assumes "du_cycles_per_ms u = c" and "c \<noteq> 0" and "du_accum_cycles u = word_of_nat (x mod unat c)"
    and "du_ticks_ms u = word_of_nat (x div unat c)" and "unat (n - du_last_cycles u) + unat c \<le> 2 ^ 32"
  defines "x' \<equiv> x + unat (n - du_last_cycles u)"
  shows "du_accum_cycles (snd (uptime_poll n u)) = word_of_nat (x' mod unat c)"
    and "du_ticks_ms (snd (uptime_poll n u)) = word_of_nat (x' div unat c)"
proof -
  let ?c = "unat c" and ?d = "unat (n - du_last_cycles u)" and ?a = "du_accum_cycles u + (n - du_last_cycles u)"
  have c: "0 < ?c" using assms(2) by (simp add: unat_gt_0)
  have cb: "?c < 2 ^ 32" using unsigned_less [of c] by simp
  have "x mod ?c < ?c" using c by simp
  then have sum: "x mod ?c + ?d < 2 ^ 32" using assms(5) by linarith
  have "unat (word_of_nat (x mod ?c) :: u32) = x mod ?c"
    using \<open>x mod ?c < ?c\<close> cb by (simp add: unsigned_of_nat take_bit_nat_eq_self_iff)
  then have a: "unat ?a = x mod ?c + ?d" using sum by (simp add: unat_word_ariths assms(3))
  have "unat (?a mod c) = x' mod ?c" by (simp add: unat_mod_distrib a x'_def mod_add_left_eq)
  then have "word_of_nat (unat (?a mod c)) = (word_of_nat (x' mod ?c) :: u32)" by (rule arg_cong)
  then have m: "?a mod c = word_of_nat (x' mod ?c)" by simp
  have "x' div ?c = x div ?c + unat ?a div ?c"
  proof -
    have "x' = x div ?c * ?c + unat ?a" using div_mult_mod_eq [of x ?c] by (simp add: x'_def a)
    then show ?thesis using c by simp
  qed
  then have d: "word_of_nat (x div ?c) + ?a div c = (word_of_nat (x' div ?c) :: u32)"
    by (simp add: unat_div_distrib [symmetric])
  have drain: "uptime_drain c ?a (du_ticks_ms u) = (?a mod c, du_ticks_ms u + ?a div c)" by (rule drain_exact [OF assms(2)])
  show "du_accum_cycles (snd (uptime_poll n u)) = word_of_nat (x' mod unat c)"
    and "du_ticks_ms (snd (uptime_poll n u)) = word_of_nat (x' div unat c)"
    using m d by (simp_all add: uptime_poll_def Let_def assms(1,4) drain [unfolded assms(4)])
qed

lemma polls_exact:
  assumes "du_cycles_per_ms u = c" and "c \<noteq> 0" and "du_accum_cycles u = word_of_nat (x mod unat c)"
    and "du_ticks_ms u = word_of_nat (x div unat c)" and "gaps_below (2 ^ 32 - unat c) (du_last_cycles u) ns"
  shows "du_ticks_ms (uptime_polls ns u) = word_of_nat ((x + cycles_seen (du_last_cycles u) ns) div unat c)"
  using assms
proof (induction ns arbitrary: u x)
  case (Cons n ns)
  let ?u = "snd (uptime_poll n u)" and ?x = "x + unat (n - du_last_cycles u)"
  have f: "du_cycles_per_ms ?u = c" "du_last_cycles ?u = n"
    using Cons.prems(1) by (simp_all add: uptime_poll_def Let_def split: prod.split)
  have "unat c < 2 ^ 32" using unsigned_less [of c] by simp
  then have g: "unat (n - du_last_cycles u) + unat c \<le> 2 ^ 32" using Cons.prems(5) by (simp add: le_diff_conv2)
  note p = poll_exact [OF Cons.prems(1-4) g]
  have "gaps_below (2 ^ 32 - unat c) (du_last_cycles ?u) ns" using Cons.prems(5) f by simp
  from Cons.IH [OF f(1) Cons.prems(2) p this] show ?case by (simp add: uptime_polls_def f add.assoc)
qed (simp add: uptime_polls_def)

text \<open>The uptime counter never drifts.  However the clock is read, with any number of wraps of the cycle
  counter, as long as no two readings are further apart than a full turn of the counter less one
  millisecond, the counter shows the whole milliseconds of all cycles since the start, modulo its width:
  no fraction is lost between readings.\<close>

theorem uptime_exact:
  assumes "gaps_below (2 ^ 32 - unat (du_cycles_per_ms (uptime_new hz))) 0 ns"
  shows "du_ticks_ms (uptime_polls ns (uptime_new hz)) =
    word_of_nat (cycles_seen 0 ns div unat (du_cycles_per_ms (uptime_new hz)))"
proof -
  have "du_cycles_per_ms (uptime_new hz) \<noteq> 0" "du_accum_cycles (uptime_new hz) = 0" "du_ticks_ms (uptime_new hz) = 0"
    "du_last_cycles (uptime_new hz) = 0" by (simp_all add: uptime_new_def Let_def)
  with polls_exact [OF refl this(1), of 0 ns] assms show ?thesis by simp
qed

theorem uptime_exact_witness:
  "du_ticks_ms (uptime_polls [0xFF000000, 0x00010000] (uptime_new 168000000)) = 25565"
proof -
  have "du_cycles_per_ms (uptime_new 168000000) = 168000" by (simp add: uptime_new_def)
  then show ?thesis using uptime_exact [of 168000000 "[0xFF000000, 0x00010000]"] by simp
qed

section \<open>Queue and authorisation\<close>

text \<open>The log queue keeps the newest lines and counts the others.\<close>

theorem log_queue_keeps_newest:
  "foldl (\<lambda>q l. push_line l q) log_queue_new ls =
     \<lparr>lq_lines = drop (length ls - QUEUE_CAPACITY) ls, lq_dropped = word_of_nat (length ls - QUEUE_CAPACITY)\<rparr>"
proof (induction ls rule: rev_induct)
  case (snoc l ls)
  show ?case
  proof (cases "QUEUE_CAPACITY \<le> length ls")
    case True
    then obtain k where k: "length ls = 32 + k" using le_Suc_ex by blast
    have "tl (drop k ls) = drop (Suc k) ls" by (simp add: drop_Suc tl_drop)
    with k snoc show ?thesis by (simp add: push_line_def)
  qed (use snoc in \<open>simp add: push_line_def\<close>)
qed (simp add: log_queue_new_def)

text \<open>Read back, a printed count is the count.\<close>

definition read_decimal :: "bytes \<Rightarrow> nat" where
  "read_decimal ds = foldl (\<lambda>n d. 10 * n + (unat d - 48)) 0 ds"

theorem decimal_read_back: "read_decimal (decimal n) = n"
proof (induction n rule: decimal.induct)
  case (1 n)
  have d: "unat (word_of_nat (48 + k) :: u8) = 48 + k" if "k < 10" for k
    using that by (simp add: unat_of_nat del: of_nat_add of_nat_numeral)
  show ?case
  proof (cases "n < 10")
    case True
    then show ?thesis using d [of n] by (subst decimal.simps) (simp add: read_decimal_def del: of_nat_add of_nat_numeral)
  next
    case False
    then have "read_decimal (decimal (n div 10)) = n div 10" by (rule "1.IH")
    with False d [of "n mod 10"] show ?thesis
      by (subst decimal.simps) (simp add: read_decimal_def del: of_nat_add of_nat_numeral)
  qed
qed

text \<open>A rendered line is never longer than the characteristic and always ends its line.\<close>

theorem format_record_bounded:
  "length (format_record level module message) \<le> MAX_LOG_LINE_LEN \<and> last (format_record level module message) = 0x0A"
  by (auto simp: format_record_def Let_def)

text \<open>An armed build accepts an update only with its token.\<close>

theorem authorize_iff:
  "authorize magic token expected = Inr () \<longleftrightarrow>
     (case expected of
        Some want \<Rightarrow> magic = MAGIC_V2 \<and> token = Some want
      | None \<Rightarrow> magic = MAGIC_V1 \<or> magic = MAGIC_V2)"
  by (auto simp: authorize_def split: option.split bool.split)

end
