(* ===== verification/Nci.thy ===== *)
theory Nci
  imports Heapless
begin

text \<open>
  The NCI protocol core of the PN7160 controller (\<open>crates/pn7160-nci/src/lib.rs\<close>): frames, commands, the
  DATA packet format and the notifications a reader acts on.  A payload array has 255 entries and a frame
  comes from \<open>frame_decode\<close>, so the reads of \<open>payload[i]\<close> below are in range; the accesses that are not
  protected in that way are outcomes.  Bounded vectors belong to the \<open>heapless\<close> crate and are the parameter
  \<open>hx\<close>: an operation returns whether it succeeded and the contents after it.
\<close>

section \<open>Constants\<close>

abbreviation (input) HEADER_LEN :: nat where "HEADER_LEN \<equiv> 3"
abbreviation (input) MAX_FRAME :: nat where "MAX_FRAME \<equiv> 258"
abbreviation (input) MT_DATA :: u8 where "MT_DATA \<equiv> 0x00"
abbreviation (input) MT_CMD :: u8 where "MT_CMD \<equiv> 0x20"
abbreviation (input) MT_RSP :: u8 where "MT_RSP \<equiv> 0x40"
abbreviation (input) MT_NTF :: u8 where "MT_NTF \<equiv> 0x60"
abbreviation (input) GID_CORE :: u8 where "GID_CORE \<equiv> 0x00"
abbreviation (input) GID_RF :: u8 where "GID_RF \<equiv> 0x01"
abbreviation (input) GID_PROP :: u8 where "GID_PROP \<equiv> 0x0F"
abbreviation (input) OID_CORE_RESET :: u8 where "OID_CORE_RESET \<equiv> 0x00"
abbreviation (input) OID_CORE_INIT :: u8 where "OID_CORE_INIT \<equiv> 0x01"
abbreviation (input) OID_CORE_SET_CONFIG :: u8 where "OID_CORE_SET_CONFIG \<equiv> 0x02"
abbreviation (input) OID_RF_DISCOVER_MAP :: u8 where "OID_RF_DISCOVER_MAP \<equiv> 0x00"
abbreviation (input) OID_RF_DISCOVER :: u8 where "OID_RF_DISCOVER \<equiv> 0x03"
abbreviation (input) OID_RF_DISCOVER_SELECT :: u8 where "OID_RF_DISCOVER_SELECT \<equiv> 0x04"
abbreviation (input) OID_RF_DEACTIVATE :: u8 where "OID_RF_DEACTIVATE \<equiv> 0x06"
abbreviation (input) OID_CORE_CONN_CREDITS :: u8 where "OID_CORE_CONN_CREDITS \<equiv> 0x06"
abbreviation (input) RF_TECH_PASSIVE_NFCA :: u8 where "RF_TECH_PASSIVE_NFCA \<equiv> 0x00"
abbreviation (input) NCI_PROTOCOL_ISO_DEP :: u8 where "NCI_PROTOCOL_ISO_DEP \<equiv> 0x04"
abbreviation (input) NCI_INTERFACE_ISO_DEP :: u8 where "NCI_INTERFACE_ISO_DEP \<equiv> 0x02"
abbreviation (input) STATUS_OK :: u8 where "STATUS_OK \<equiv> 0x00"
abbreviation (input) NTF_RF_DISCOVER :: u8 where "NTF_RF_DISCOVER \<equiv> 0x03"
abbreviation (input) NTF_RF_INTF_ACTIVATED :: u8 where "NTF_RF_INTF_ACTIVATED \<equiv> 0x05"
abbreviation (input) NTF_RF_DEACTIVATE :: u8 where "NTF_RF_DEACTIVATE \<equiv> 0x06"
abbreviation (input) NTF_PROP_RF_WTX :: u8 where "NTF_PROP_RF_WTX \<equiv> 0x17"
abbreviation (input) NTF_STASH_SLOTS :: nat where "NTF_STASH_SLOTS \<equiv> 4"
abbreviation (input) CID_MASK :: u8 where "CID_MASK \<equiv> 0x0F"
abbreviation (input) PBF_MASK :: u8 where "PBF_MASK \<equiv> 0x10"
abbreviation (input) DEACTIVATE_TYPE_IDLE :: u8 where "DEACTIVATE_TYPE_IDLE \<equiv> 0x00"
abbreviation (input) DEACTIVATE_TYPE_DISCOVERY :: u8 where "DEACTIVATE_TYPE_DISCOVERY \<equiv> 0x03"
abbreviation (input) DEACTIVATE_REASON_RF_LINK_LOSS_NXP :: u8 where "DEACTIVATE_REASON_RF_LINK_LOSS_NXP \<equiv> 0x02"
abbreviation (input) MAX_DATA_FRAGMENT :: nat where "MAX_DATA_FRAGMENT \<equiv> 253"

section \<open>Bounded vectors\<close>

record heapless_vec =
  hx_push :: "nat \<Rightarrow> bytes \<Rightarrow> u8 \<Rightarrow> bool \<times> bytes"
  hx_extend_from_slice :: "nat \<Rightarrow> bytes \<Rightarrow> bytes \<Rightarrow> bool \<times> bytes"

text \<open>What the crate documents: an operation that fits appends and succeeds, one that does not fit fails
  and leaves the contents alone.\<close>

definition heapless_vec_ok :: "heapless_vec \<Rightarrow> bool" where
  "heapless_vec_ok hx \<longleftrightarrow>
     (\<forall>cap xs x. hx_push hx cap xs x = (if length xs < cap then (True, xs @ [x]) else (False, xs))) \<and>
     (\<forall>cap xs ys. hx_extend_from_slice hx cap xs ys =
        (if length xs + length ys \<le> cap then (True, xs @ ys) else (False, xs)))"

definition heapless_vec_list :: heapless_vec where
  "heapless_vec_list = \<lparr>hx_push = (\<lambda>cap xs x. if length xs < cap then (True, xs @ [x]) else (False, xs)),
     hx_extend_from_slice = (\<lambda>cap xs ys. if length xs + length ys \<le> cap then (True, xs @ ys) else (False, xs))\<rparr>"

lemma heapless_vec_list_ok: "heapless_vec_ok heapless_vec_list"
  by (simp add: heapless_vec_ok_def heapless_vec_list_def)

lemma hx_extend: "heapless_vec_ok hx \<Longrightarrow> hx_extend_from_slice hx cap xs ys =
    (if length xs + length ys \<le> cap then (True, xs @ ys) else (False, xs))"
  by (simp add: heapless_vec_ok_def)

lemma hx_push: "heapless_vec_ok hx \<Longrightarrow> hx_push hx cap xs x = (if length xs < cap then (True, xs @ [x]) else (False, xs))"
  by (simp add: heapless_vec_ok_def)

section \<open>Frames\<close>

record nci_frame =
  nf_mt :: u8
  nf_gid :: u8
  nf_oid :: u8
  nf_pbf :: bool
  nf_payload :: bytes
  nf_len :: nat

definition frame_decode :: "bytes \<Rightarrow> nci_frame option" where
  "frame_decode buf =
     (if length buf < HEADER_LEN then None
      else
        let mt = buf ! 0 AND 0xE0 in
        if mt \<noteq> MT_DATA \<and> mt \<noteq> MT_CMD \<and> mt \<noteq> MT_RSP \<and> mt \<noteq> MT_NTF then None
        else
          let pbf = (buf ! 0 AND PBF_MASK \<noteq> 0);
              gid = buf ! 0 AND 0x0F;
              oid = buf ! 1;
              plen = unat (buf ! 2)
          in if length buf < HEADER_LEN + plen then None
             else Some \<lparr>nf_mt = mt, nf_gid = gid, nf_oid = oid, nf_pbf = pbf,
                        nf_payload = take plen (drop HEADER_LEN buf) @ replicate (255 - plen) 0, nf_len = plen\<rparr>)"

definition is_rsp_to :: "bytes \<Rightarrow> nci_frame \<Rightarrow> bool" where
  "is_rsp_to cmd f \<longleftrightarrow>
     2 \<le> length cmd \<and> nf_mt f = MT_RSP \<and> nf_gid f = cmd ! 0 AND 0x0F \<and> nf_oid f = cmd ! 1"

definition frame_status :: "nci_frame \<Rightarrow> u8 option" where
  "frame_status f = (if 1 \<le> nf_len f then Some (nf_payload f ! 0) else None)"

definition is_wtx_ntf :: "nci_frame \<Rightarrow> bool" where
  "is_wtx_ntf f \<longleftrightarrow> nf_mt f = MT_NTF \<and> nf_gid f = GID_PROP \<and> nf_oid f = NTF_PROP_RF_WTX"

definition is_conn_credits_ntf :: "nci_frame \<Rightarrow> bool" where
  "is_conn_credits_ntf f \<longleftrightarrow> nf_mt f = MT_NTF \<and> nf_gid f = GID_CORE \<and> nf_oid f = OID_CORE_CONN_CREDITS"

definition is_transact_reply :: "nci_frame \<Rightarrow> bool" where
  "is_transact_reply f \<longleftrightarrow> nf_mt f \<noteq> MT_NTF"

text \<open>A division by zero panics.\<close>

definition tick_period_us :: "u32 \<Rightarrow> u32 outcome" where
  "tick_period_us config_tick_rate_hz =
     (if config_tick_rate_hz = 0 then None else Some (1000000 div config_tick_rate_hz))"

definition reason_is_link_loss :: "u8 \<Rightarrow> bool" where
  "reason_is_link_loss reason \<longleftrightarrow> reason = DEACTIVATE_REASON_RF_LINK_LOSS_NXP"

section \<open>Commands\<close>

definition CORE_RESET :: bytes where "CORE_RESET = [MT_CMD, OID_CORE_RESET, 0x01, 0x01]"
definition CORE_INIT :: bytes where "CORE_INIT = [MT_CMD, OID_CORE_INIT, 0x02, 0x00, 0x00]"
definition SET_CONFIG_TOTAL_DURATION :: bytes where
  "SET_CONFIG_TOTAL_DURATION = [MT_CMD, OID_CORE_SET_CONFIG, 0x05, 0x01, 0x00, 0x02, 0xFE, 0x01]"
definition set_config_fwitox :: "u8 \<Rightarrow> u8 \<Rightarrow> bytes" where
  "set_config_fwitox lo hi = [MT_CMD, OID_CORE_SET_CONFIG, 0x06, 0x01, 0xA0, 0x65, 0x02, lo, hi]"
definition FWITOX_DEFAULT :: bytes where "FWITOX_DEFAULT = [0x10, 0x00]"
definition RF_DISCOVER_MAP_ISO_DEP :: bytes where
  "RF_DISCOVER_MAP_ISO_DEP =
     [MT_CMD OR GID_RF, OID_RF_DISCOVER_MAP, 0x04, 0x01, NCI_PROTOCOL_ISO_DEP, NCI_INTERFACE_ISO_DEP, 0x01]"
definition RF_DISCOVER_PASSIVE_A :: bytes where
  "RF_DISCOVER_PASSIVE_A = [MT_CMD OR GID_RF, OID_RF_DISCOVER, 0x03, 0x01, RF_TECH_PASSIVE_NFCA, 0x01]"
definition RF_DEACTIVATE_IDLE :: bytes where
  "RF_DEACTIVATE_IDLE = [MT_CMD OR GID_RF, OID_RF_DEACTIVATE, 0x01, DEACTIVATE_TYPE_IDLE]"
definition RF_DEACTIVATE_DISCOVERY :: bytes where
  "RF_DEACTIVATE_DISCOVERY = [MT_CMD OR GID_RF, OID_RF_DEACTIVATE, 0x01, DEACTIVATE_TYPE_DISCOVERY]"
definition rf_discover_select :: "u8 \<Rightarrow> u8 \<Rightarrow> u8 \<Rightarrow> bytes" where
  "rf_discover_select discovery_id protocol interface =
     [MT_CMD OR GID_RF, OID_RF_DISCOVER_SELECT, 0x04, discovery_id, protocol, interface, 0x00]"

section \<open>DATA packets\<close>

text \<open>The packet built in \<open>out\<close>; the result is false when it does not fit.\<close>

definition encode_fragment :: "heapless_vec \<Rightarrow> u8 \<Rightarrow> bool \<Rightarrow> bytes \<Rightarrow> bool \<times> bytes" where
  "encode_fragment hx conn_id pbf payload =
     (if 255 < length payload then (False, [])
      else
        let octet0 = (conn_id AND CID_MASK) OR (if pbf then PBF_MASK else 0);
            (ok, out) = hx_extend_from_slice hx MAX_FRAME [] [octet0, 0, word_of_nat (length payload)]
        in if ok then hx_extend_from_slice hx MAX_FRAME out payload else (False, out))"

definition data_encode :: "heapless_vec \<Rightarrow> u8 \<Rightarrow> bytes \<Rightarrow> bool \<times> bytes" where
  "data_encode hx conn_id payload = encode_fragment hx conn_id False payload"

record data_packet =
  dp_conn_id :: u8
  dp_fragmented :: bool
  dp_payload :: bytes
  dp_len :: nat

definition data_decode :: "bytes \<Rightarrow> data_packet option" where
  "data_decode buf =
     (if length buf < HEADER_LEN then None
      else
        let plen = unat (buf ! 2) in
        if length buf < HEADER_LEN + plen then None
        else Some \<lparr>dp_conn_id = buf ! 0 AND CID_MASK, dp_fragmented = (buf ! 0 AND PBF_MASK \<noteq> 0),
                   dp_payload = take plen (drop HEADER_LEN buf) @ replicate (255 - plen) 0, dp_len = plen\<rparr>)"

section \<open>Notifications\<close>

record discover_ntf =
  dn_discovery_id :: u8
  dn_protocol :: u8
  dn_tech_and_mode :: u8
  dn_interface :: u8
  dn_tech_params :: bytes
  dn_tech_params_len :: nat

definition discover_decode :: "nci_frame \<Rightarrow> discover_ntf option" where
  "discover_decode f =
     (if nf_mt f \<noteq> MT_NTF \<or> nf_gid f \<noteq> GID_RF \<or> nf_oid f \<noteq> NTF_RF_DISCOVER \<or> nf_len f < 5 then None
      else
        let params_len = unat (nf_payload f ! 3);
            interface_idx = 4 + params_len
        in if nf_len f \<le> interface_idx then None
           else
             let copy_len = min params_len 16 in
             Some \<lparr>dn_discovery_id = nf_payload f ! 0, dn_protocol = nf_payload f ! 1,
                   dn_tech_and_mode = nf_payload f ! 2, dn_interface = nf_payload f ! interface_idx,
                   dn_tech_params = take copy_len (drop 4 (nf_payload f)) @ replicate (16 - copy_len) 0,
                   dn_tech_params_len = params_len\<rparr>)"

definition nfca_uid :: "discover_ntf \<Rightarrow> bytes option outcome" where
  "nfca_uid ntf =
     (if dn_tech_params_len ntf < 4 then Some None
      else
        let uid_len = unat (dn_tech_params ntf ! 2) in
        if dn_tech_params_len ntf < 3 + uid_len \<or> uid_len = 0 then Some None
        else map_option Some (slice (dn_tech_params ntf) 3 (3 + uid_len)))"

definition activated_summary :: "nci_frame \<Rightarrow> (u8 \<times> u8 \<times> u8) option" where
  "activated_summary f =
     (if nf_mt f \<noteq> MT_NTF \<or> nf_gid f \<noteq> GID_RF \<or> nf_oid f \<noteq> NTF_RF_INTF_ACTIVATED \<or> nf_len f < 3 then None
      else Some (nf_payload f ! 0, nf_payload f ! 1, nf_payload f ! 2))"

definition tech_params_slice :: "nci_frame \<Rightarrow> bytes option" where
  "tech_params_slice f =
     (let tlen = unat (nf_payload f ! 6) in
      if nf_len f < 7 + tlen then None else Some (take tlen (drop 7 (nf_payload f))))"

definition activation_to_discover :: "nci_frame \<Rightarrow> discover_ntf option outcome" where
  "activation_to_discover f =
     (if nf_mt f \<noteq> MT_NTF \<or> nf_gid f \<noteq> GID_RF \<or> nf_oid f \<noteq> NTF_RF_INTF_ACTIVATED \<or> nf_len f < 5 then Some None
      else
        let ntf = (\<lambda>tech_params tech_params_len.
              \<lparr>dn_discovery_id = nf_payload f ! 0, dn_protocol = nf_payload f ! 2, dn_tech_and_mode = nf_payload f ! 3,
               dn_interface = nf_payload f ! 1, dn_tech_params = tech_params, dn_tech_params_len = tech_params_len\<rparr>)
        in if 8 \<le> nf_len f then
             (case tech_params_slice f of
                None \<Rightarrow> Some None
              | Some v \<Rightarrow> do {
                  b \<leftarrow> idx v 2;
                  let uid_len = unat b in
                  (if 0 < uid_len \<and> 3 + uid_len \<le> length v then
                     let copy = min (3 + uid_len) 16 in
                     Some (Some (ntf (take copy v @ replicate (16 - copy) 0) copy))
                   else Some (Some (ntf (replicate 16 0) 0)))
                })
           else Some (Some (ntf (replicate 16 0) 0)))"

definition activation_ats :: "heapless_vec \<Rightarrow> nci_frame \<Rightarrow> bytes option" where
  "activation_ats hx f =
     (if nf_mt f \<noteq> MT_NTF \<or> nf_gid f \<noteq> GID_RF \<or> nf_oid f \<noteq> NTF_RF_INTF_ACTIVATED then None
      else do {
        v \<leftarrow> tech_params_slice f;
        let ats_len_pos = 7 + length v + 3 in
        (if nf_len f \<le> ats_len_pos then None
         else
           let ats_len = unat (nf_payload f ! ats_len_pos) in
           if ats_len = 0 \<or> nf_len f < ats_len_pos + 1 + ats_len then None
           else
             (case hx_extend_from_slice hx 32 [] (take ats_len (drop (ats_len_pos + 1) (nf_payload f))) of
                (False, _) \<Rightarrow> None
              | (True, ats) \<Rightarrow>
                  if 2 \<le> length ats \<and> unat (ats ! 0) + 1 = length ats then
                    (case hx_extend_from_slice hx 32 [] (drop 1 ats) of (False, _) \<Rightarrow> None | (True, s) \<Rightarrow> Some s)
                  else Some ats))
      })"

datatype tag_event = EvTag discover_ntf "bytes option" | EvLinkLost

definition event_of :: "heapless_vec \<Rightarrow> nci_frame \<Rightarrow> tag_event option outcome" where
  "event_of hx f =
     (case discover_decode f of
        Some n \<Rightarrow> Some (Some (EvTag n None))
      | None \<Rightarrow> do {
          a \<leftarrow> activation_to_discover f;
          (case a of
             Some n \<Rightarrow> Some (Some (EvTag n (activation_ats hx f)))
           | None \<Rightarrow>
               if nf_mt f = MT_NTF \<and> nf_gid f = GID_RF \<and> nf_oid f = NTF_RF_DEACTIVATE \<and> 2 \<le> nf_len f \<and>
                  reason_is_link_loss (nf_payload f ! 1)
               then Some (Some EvLinkLost) else Some None)
        })"

definition extract_ats :: "nci_frame \<Rightarrow> bytes option" where
  "extract_ats activation =
     (if nf_len activation < 6 then None
      else
        let params_len = unat (nf_payload activation ! 5) in
        if nf_len activation < 6 + params_len \<or> params_len = 0 then None
        else Some (take params_len (drop 6 (nf_payload activation))))"

end
