(* ===== verification/Nci_Reader.thy ===== *)
theory Nci_Reader
  imports Nci
begin

text \<open>
  The reader session over an NCI link (\<open>crates/pn7160-nci/src/lib.rs\<close>, modules \<open>reader\<close> and the bring-up
  ladder), the mock link, and the ATR built from an ATS (\<open>transport.rs\<close>).  The link is the record \<open>ops\<close> of
  the \<open>Transport\<close> trait over a state of its own.  An exchange also returns what it tells its stall hook.
\<close>

section \<open>The link\<close>

record 't nci_transport =
  nt_send :: "bytes \<Rightarrow> 't \<Rightarrow> bool \<times> 't"
  nt_poll_frame :: "'t \<Rightarrow> nci_frame option \<times> 't"
  nt_transact :: "bytes \<Rightarrow> 't \<Rightarrow> nci_frame option \<times> 't"
  nt_drain :: "'t \<Rightarrow> nci_frame option \<times> 't"
  nt_wait_ms :: "nat \<Rightarrow> 't \<Rightarrow> 't"
  nt_link_probe :: "'t \<Rightarrow> bool \<times> 't"

section \<open>Waiting for a tag\<close>

fun wait_for_tag_loop :: "heapless_vec \<Rightarrow> 't nci_transport \<Rightarrow> nat \<Rightarrow> 't
    \<Rightarrow> ((discover_ntf \<times> bytes option) option \<times> 't) outcome" where
  "wait_for_tag_loop hx ops 0 t = Some (None, t)"
| "wait_for_tag_loop hx ops (Suc n) t =
     (case nt_drain ops t of
        (None, t) \<Rightarrow> Some (None, t)
      | (Some f, t) \<Rightarrow>
          (case discover_decode f of
             Some d \<Rightarrow> Some (Some (d, None), t)
           | None \<Rightarrow> do {
               a \<leftarrow> activation_to_discover f;
               (case a of
                  Some d \<Rightarrow> Some (Some (d, activation_ats hx f), t)
                | None \<Rightarrow> wait_for_tag_loop hx ops n t)
             }))"

definition wait_for_tag :: "heapless_vec \<Rightarrow> 't nci_transport \<Rightarrow> 't
    \<Rightarrow> ((discover_ntf \<times> bytes option) option \<times> 't) outcome" where
  "wait_for_tag hx ops t = wait_for_tag_loop hx ops 8 t"

definition wait_for_discovery :: "heapless_vec \<Rightarrow> 't nci_transport \<Rightarrow> 't \<Rightarrow> (discover_ntf option \<times> 't) outcome" where
  "wait_for_discovery hx ops t = map_option (\<lambda>(r, t). (map_option fst r, t)) (wait_for_tag hx ops t)"

fun wait_for_event_loop :: "heapless_vec \<Rightarrow> 't nci_transport \<Rightarrow> nat \<Rightarrow> 't \<Rightarrow> (tag_event option \<times> 't) outcome" where
  "wait_for_event_loop hx ops 0 t = Some (None, t)"
| "wait_for_event_loop hx ops (Suc n) t =
     (case nt_drain ops t of
        (None, t) \<Rightarrow> Some (None, t)
      | (Some f, t) \<Rightarrow> do {
          ev \<leftarrow> event_of hx f;
          (case ev of Some e \<Rightarrow> Some (Some e, t) | None \<Rightarrow> wait_for_event_loop hx ops n t)
        })"

definition wait_for_event :: "heapless_vec \<Rightarrow> 't nci_transport \<Rightarrow> 't \<Rightarrow> (tag_event option \<times> 't) outcome" where
  "wait_for_event hx ops t = wait_for_event_loop hx ops 8 t"

definition select_tag :: "'t nci_transport \<Rightarrow> discover_ntf \<Rightarrow> 't \<Rightarrow> (string + nci_frame) \<times> 't" where
  "select_tag ops n t =
     (let cmd = rf_discover_select (dn_discovery_id n) (dn_protocol n) (dn_interface n) in
      case nt_transact ops cmd t of
        (None, t) \<Rightarrow> (Inl ''no select response'', t)
      | (Some rsp, t) \<Rightarrow>
          if \<not> is_rsp_to cmd rsp then (Inl ''select response mismatch'', t)
          else if frame_status rsp \<noteq> Some STATUS_OK then (Inl ''select status != OK'', t)
          else
            (case nt_drain ops t of
               (None, t) \<Rightarrow> (Inl ''no activation notification'', t)
             | (Some f, t) \<Rightarrow> (Inr f, t)))"

section \<open>One APDU exchange\<close>

abbreviation (input) DATA_COLLECT_ROUNDS :: nat where "DATA_COLLECT_ROUNDS \<equiv> 12"
abbreviation (input) DATA_COLLECT_WAIT_MS :: nat where "DATA_COLLECT_WAIT_MS \<equiv> 200"
abbreviation (input) STALL_REPORT_MS :: u32 where "STALL_REPORT_MS \<equiv> 1500"
abbreviation (input) STRICT_RSP_POLLS :: nat where "STRICT_RSP_POLLS \<equiv> 20"
abbreviation (input) STRICT_RSP_WAIT_MS :: nat where "STRICT_RSP_WAIT_MS \<equiv> 10"
abbreviation (input) DRAIN_LINK_CAP :: nat where "DRAIN_LINK_CAP \<equiv> 16"
abbreviation (input) SETTLE_MAX_BEATS :: nat where "SETTLE_MAX_BEATS \<equiv> 3"
definition DATA_FIRST_PHASE_MS :: "nat list" where "DATA_FIRST_PHASE_MS = [10, 20, 40, 80]"

datatype exchange_result = ExData bytes | ExTimeout | ExLinkLost

text \<open>The locals of an exchange, with the calls of the stall hook, oldest first, and the arrival time it
  publishes.\<close>

record exchange_state =
  xs_budget :: nat
  xs_waited_rounds :: nat
  xs_wtx :: u32
  xs_next_stall_ms :: u32
  xs_stalls :: "u32 list"
  xs_arrival :: "u32 option"

definition exchange_start :: exchange_state where
  "exchange_start = \<lparr>xs_budget = DATA_COLLECT_ROUNDS, xs_waited_rounds = 0, xs_wtx = 0,
     xs_next_stall_ms = STALL_REPORT_MS, xs_stalls = [], xs_arrival = None\<rparr>"

definition phase_wait :: "nat \<Rightarrow> nat" where
  "phase_wait round_in_phase =
     (if round_in_phase < length DATA_FIRST_PHASE_MS then sum_list (take (round_in_phase + 1) DATA_FIRST_PHASE_MS)
      else DATA_COLLECT_WAIT_MS)"

text \<open>A round that passed without an answer; \<open>stall\<close> says whether a hook is installed.\<close>

definition round_waited :: "'t nci_transport \<Rightarrow> bool \<Rightarrow> nat \<Rightarrow> exchange_state \<Rightarrow> 't \<Rightarrow> exchange_state \<times> 't" where
  "round_waited ops stall wait_ms x t =
     (let x = x\<lparr>xs_waited_rounds := xs_waited_rounds x + 1\<rparr>;
          elapsed = word_of_nat (xs_waited_rounds x) * word_of_nat DATA_COLLECT_WAIT_MS :: u32;
          x = (if xs_next_stall_ms x \<le> elapsed
               then x\<lparr>xs_stalls := xs_stalls x @ (if stall then [elapsed] else []),
                      xs_next_stall_ms := saturating_add32 (xs_next_stall_ms x) STALL_REPORT_MS\<rparr>
               else x)
      in (x, nt_wait_ms ops wait_ms t))"

definition count_wtx :: "nci_frame \<Rightarrow> exchange_state \<Rightarrow> exchange_state" where
  "count_wtx f x = (if is_wtx_ntf f then x\<lparr>xs_wtx := xs_wtx x + 1\<rparr> else x)"

text \<open>The wait for a credit between two fragments: \<open>Inl\<close> is a return of the whole exchange, \<open>Inr\<close> says
  whether the credit came.\<close>

fun credit_loop :: "heapless_vec \<Rightarrow> 't nci_transport \<Rightarrow> bool \<Rightarrow> nat \<Rightarrow> nat \<Rightarrow> exchange_state \<Rightarrow> 't
    \<Rightarrow> ((exchange_result + bool) \<times> exchange_state \<times> 't) outcome" where
  "credit_loop hx ops stall 0 credit_round x t = Some (Inr False, x, t)"
| "credit_loop hx ops stall (Suc budget) credit_round x t =
     (let again = (\<lambda>x t.
            let (x, t) = round_waited ops stall (phase_wait credit_round) (x\<lparr>xs_budget := budget\<rparr>) t
            in credit_loop hx ops stall budget (credit_round + 1) x t)
      in case nt_poll_frame ops t of
           (None, t) \<Rightarrow> again x t
         | (Some f, t) \<Rightarrow>
             let x = count_wtx f x in do {
               ev \<leftarrow> event_of hx f;
               (if ev = Some EvLinkLost then Some (Inl ExLinkLost, x, t)
                else if is_conn_credits_ntf f then Some (Inr True, x, t)
                else again x t)
             })"

text \<open>The fragments of the APDU, the packet boundary flag on every one but the last.\<close>

function chunks :: "nat \<Rightarrow> 'a list \<Rightarrow> 'a list list" where
  "chunks n xs = (if n = 0 \<or> xs = [] then [] else take n xs # chunks n (drop n xs))"
  by pat_completeness auto
termination by (relation "measure (\<lambda>(n, xs). length xs)") auto

declare chunks.simps [simp del]

definition send_fragment :: "heapless_vec \<Rightarrow> 't nci_transport \<Rightarrow> u8 \<Rightarrow> bool \<Rightarrow> bytes \<Rightarrow> 't \<Rightarrow> bool \<times> 't" where
  "send_fragment hx ops conn_id pbf fragment t =
     (case encode_fragment hx conn_id pbf fragment of
        (False, _) \<Rightarrow> (False, t)
      | (True, frame) \<Rightarrow> nt_send ops frame t)"

fun send_fragments :: "heapless_vec \<Rightarrow> 't nci_transport \<Rightarrow> bool \<Rightarrow> u8 \<Rightarrow> bytes list \<Rightarrow> exchange_state \<Rightarrow> 't
    \<Rightarrow> ((exchange_result + unit) \<times> exchange_state \<times> 't) outcome" where
  "send_fragments hx ops stall conn_id [] x t = Some (Inr (), x, t)"
| "send_fragments hx ops stall conn_id (fragment # rest) x t =
     (case send_fragment hx ops conn_id (rest \<noteq> []) fragment t of
        (False, t) \<Rightarrow> Some (Inl ExTimeout, x, t)
      | (True, t) \<Rightarrow>
          if rest = [] then Some (Inr (), x, t)
          else do {
            (r, x, t) \<leftarrow> credit_loop hx ops stall (xs_budget x) 0 x t;
            (case r of
               Inl e \<Rightarrow> Some (Inl e, x, t)
             | Inr credited \<Rightarrow>
                 if credited then send_fragments hx ops stall conn_id rest x t
                 else Some (Inl ExTimeout, x, t))
          })"

fun collect_loop :: "heapless_vec \<Rightarrow> 't nci_transport \<Rightarrow> bool \<Rightarrow> u8 \<Rightarrow> nat \<Rightarrow> nat \<Rightarrow> bytes \<Rightarrow> exchange_state \<Rightarrow> 't
    \<Rightarrow> (exchange_result \<times> exchange_state \<times> 't) outcome" where
  "collect_loop hx ops stall conn_id 0 rx_round response x t = Some (ExTimeout, x, t)"
| "collect_loop hx ops stall conn_id (Suc budget) rx_round response x t =
     (let again = (\<lambda>response x t.
            let (x, t) = round_waited ops stall (phase_wait rx_round) (x\<lparr>xs_budget := budget\<rparr>) t
            in collect_loop hx ops stall conn_id budget (rx_round + 1) response x t)
      in case nt_poll_frame ops t of
           (None, t) \<Rightarrow> again response x t
         | (Some f, t) \<Rightarrow>
             let x = count_wtx f x in do {
               ev \<leftarrow> event_of hx f;
               (if ev = Some EvLinkLost then Some (ExLinkLost, x, t)
                else if nf_mt f = MT_DATA \<and> nf_gid f = conn_id \<and> 0 < nf_len f then
                  (case hx_extend_from_slice hx 1024 response (take (nf_len f) (nf_payload f)) of
                     (False, _) \<Rightarrow> Some (ExTimeout, x, t)
                   | (True, response) \<Rightarrow>
                       if \<not> nf_pbf f
                       then Some (ExData response, x\<lparr>xs_arrival := Some (word_of_nat (phase_wait (rx_round - 1)))\<rparr>, t)
                       else again response x t)
                else again response x t)
             })"

definition exchange_detailed :: "heapless_vec \<Rightarrow> 't nci_transport \<Rightarrow> u8 \<Rightarrow> bytes \<Rightarrow> bool \<Rightarrow> 't
    \<Rightarrow> (exchange_result \<times> exchange_state \<times> 't) outcome" where
  "exchange_detailed hx ops conn_id apdu stall t =
     (let x = exchange_start;
          (sent, t) = (if apdu = [] then send_fragment hx ops conn_id False [] t else (True, t))
      in if \<not> sent then Some (ExTimeout, x, t)
         else do {
           (r, x, t) \<leftarrow> send_fragments hx ops stall conn_id (chunks MAX_DATA_FRAGMENT apdu) x t;
           (case r of
              Inl e \<Rightarrow> Some (e, x, t)
            | Inr _ \<Rightarrow> collect_loop hx ops stall conn_id (xs_budget x) 0 [] x t)
         })"

definition nci_exchange :: "heapless_vec \<Rightarrow> 't nci_transport \<Rightarrow> u8 \<Rightarrow> bytes \<Rightarrow> 't \<Rightarrow> (bytes option \<times> 't) outcome" where
  "nci_exchange hx ops conn_id apdu t =
     map_option (\<lambda>(r, x, t). (case r of ExData v \<Rightarrow> Some v | _ \<Rightarrow> None, t)) (exchange_detailed hx ops conn_id apdu False t)"

section \<open>Commands with a strict answer, draining\<close>

fun strict_loop :: "'t nci_transport \<Rightarrow> bytes \<Rightarrow> bool \<Rightarrow> nat \<Rightarrow> 't \<Rightarrow> (string + nci_frame) \<times> 't" where
  "strict_loop ops cmd first 0 t = (Inl ''no matching response'', t)"
| "strict_loop ops cmd first (Suc n) t =
     (let t = (if first then t else nt_wait_ms ops STRICT_RSP_WAIT_MS t) in
      case nt_poll_frame ops t of
        (Some f, t) \<Rightarrow> if is_rsp_to cmd f then (Inr f, t) else strict_loop ops cmd False n t
      | (None, t) \<Rightarrow> strict_loop ops cmd False n t)"

definition transact_strict :: "'t nci_transport \<Rightarrow> bytes \<Rightarrow> 't \<Rightarrow> (string + nci_frame) \<times> 't" where
  "transact_strict ops cmd t =
     (case nt_send ops cmd t of
        (False, t) \<Rightarrow> (Inl ''write failed'', t)
      | (True, t) \<Rightarrow> strict_loop ops cmd True STRICT_RSP_POLLS t)"

fun drain_loop :: "'t nci_transport \<Rightarrow> nat \<Rightarrow> nat \<Rightarrow> 't \<Rightarrow> nat \<times> 't" where
  "drain_loop ops 0 drained t = (drained, t)"
| "drain_loop ops (Suc n) drained t =
     (case nt_drain ops t of
        (None, t) \<Rightarrow> (drained, t)
      | (Some _, t) \<Rightarrow> drain_loop ops n (drained + 1) t)"

definition drain_link :: "'t nci_transport \<Rightarrow> 't \<Rightarrow> nat \<times> 't" where
  "drain_link ops t = drain_loop ops DRAIN_LINK_CAP 0 t"

fun settle_loop :: "'t nci_transport \<Rightarrow> nat \<Rightarrow> 't \<Rightarrow> 't" where
  "settle_loop ops 0 t = t"
| "settle_loop ops (Suc n) t =
     (let (_, t) = drain_link ops t;
          t = nt_wait_ms ops DATA_COLLECT_WAIT_MS t;
          (drained, t) = drain_link ops t
      in if drained = 0 then t else settle_loop ops n t)"

definition settle_drain :: "'t nci_transport \<Rightarrow> 't \<Rightarrow> 't" where
  "settle_drain ops t = settle_loop ops SETTLE_MAX_BEATS t"

definition deactivate_idle :: "'t nci_transport \<Rightarrow> 't \<Rightarrow> (string + unit) \<times> 't" where
  "deactivate_idle ops t =
     (case nt_transact ops RF_DEACTIVATE_IDLE t of
        (None, t) \<Rightarrow> (Inl ''no deactivate response'', t)
      | (Some rsp, t) \<Rightarrow>
          if \<not> is_rsp_to RF_DEACTIVATE_IDLE rsp then (Inl ''deactivate response mismatch'', t)
          else
            (case nt_drain ops t of
               (None, t) \<Rightarrow> (Inl ''no deactivate notification'', t)
             | (Some _, t) \<Rightarrow> (Inr (), t)))"

definition deactivate_to_discovery :: "'t nci_transport \<Rightarrow> 't \<Rightarrow> (string + unit) \<times> 't" where
  "deactivate_to_discovery ops t =
     (case transact_strict ops RF_DEACTIVATE_DISCOVERY t of
        (Inl _, t) \<Rightarrow> (Inl ''no deactivate response'', t)
      | (Inr rsp, t) \<Rightarrow>
          if frame_status rsp \<noteq> Some STATUS_OK then (Inl ''deactivate status != OK'', t)
          else (Inr (), snd (drain_link ops t)))"

definition restart_discovery :: "'t nci_transport \<Rightarrow> 't \<Rightarrow> (string + unit) \<times> 't" where
  "restart_discovery ops t =
     (case transact_strict ops RF_DISCOVER_PASSIVE_A t of
        (Inl _, t) \<Rightarrow> (Inl ''no discover response'', t)
      | (Inr rsp, t) \<Rightarrow>
          if frame_status rsp \<noteq> Some STATUS_OK then (Inl ''discover status != OK'', t) else (Inr (), t))"

section \<open>Bring-up\<close>

datatype nci_step = StepCoreReset | StepCoreInit | StepSetConfigTotalDuration | StepRfDiscoverMap | StepRfDiscover

fun tx_bytes :: "nci_step \<Rightarrow> bytes" where
  "tx_bytes StepCoreReset = CORE_RESET"
| "tx_bytes StepCoreInit = CORE_INIT"
| "tx_bytes StepSetConfigTotalDuration = SET_CONFIG_TOTAL_DURATION"
| "tx_bytes StepRfDiscoverMap = RF_DISCOVER_MAP_ISO_DEP"
| "tx_bytes StepRfDiscover = RF_DISCOVER_PASSIVE_A"

definition advisory :: "nci_step \<Rightarrow> bool" where
  "advisory s \<longleftrightarrow> s = StepSetConfigTotalDuration"

fun status_err :: "nci_step \<Rightarrow> string" where
  "status_err StepCoreInit = ''CoreInit status != OK''"
| "status_err StepRfDiscoverMap = ''RfDiscoverMap status != OK''"
| "status_err StepRfDiscover = ''RfDiscover status != OK''"
| "status_err _ = ''step status != OK''"

fun ladder_steps :: "'t nci_transport \<Rightarrow> nci_step list \<Rightarrow> 't \<Rightarrow> (string + unit) \<times> 't" where
  "ladder_steps ops [] t = (Inr (), t)"
| "ladder_steps ops (s # ss) t =
     (case nt_transact ops (tx_bytes s) t of
        (None, t) \<Rightarrow> (Inl ''transport ran dry'', t)
      | (Some rsp, t) \<Rightarrow>
          if \<not> is_rsp_to (tx_bytes s) rsp then (Inl ''response does not match command'', t)
          else if frame_status rsp \<noteq> Some STATUS_OK \<and> \<not> advisory s then (Inl (status_err s), t)
          else ladder_steps ops ss t)"

definition run_ladder :: "'t nci_transport \<Rightarrow> 't \<Rightarrow> (string + unit) \<times> 't" where
  "run_ladder ops t =
     (case nt_transact ops CORE_RESET t of
        (None, t) \<Rightarrow> (Inl ''no CORE_RESET response'', t)
      | (Some rsp, t) \<Rightarrow>
          if \<not> is_rsp_to CORE_RESET rsp then (Inl ''malformed CORE_RESET response'', t)
          else
            let (_, t) = nt_drain ops t
            in ladder_steps ops [StepCoreInit, StepRfDiscoverMap, StepRfDiscover] t)"

section \<open>The ATR of a contactless card\<close>

text \<open>One group of interface bytes of the ATS, for the mask bits TA, TB, TC and TD: the next position and
  the next mask, \<open>None\<close> when the ATS ends inside it.\<close>

fun ats_group :: "bytes \<Rightarrow> u8 \<Rightarrow> u8 list \<Rightarrow> nat \<Rightarrow> u8 \<Rightarrow> (nat \<times> u8) option" where
  "ats_group ats y [] i nxt = Some (i, nxt)"
| "ats_group ats y (b # bs) i nxt =
     (if y AND b \<noteq> 0 then
        if length ats \<le> i then None
        else ats_group ats y bs (i + 1) (if b = 0x10 then ats ! i AND 0xF0 else nxt)
      else ats_group ats y bs i nxt)"

abbreviation ats_bits :: "u8 list" where "ats_bits \<equiv> [0x80, 0x40, 0x20, 0x10]"

lemma ats_group_le: "ats_group ats y bs i nxt = Some (j, m) \<Longrightarrow> i \<le> j"
  by (induction ats y bs i nxt rule: ats_group.induct) (auto split: if_splits)

lemma ats_group_bound: "ats_group ats y bs i nxt = Some (j, m) \<Longrightarrow> i \<le> length ats \<Longrightarrow> j \<le> length ats"
  by (induction ats y bs i nxt rule: ats_group.induct) (auto split: if_splits)

lemma ats_group_stays:
  "ats_group ats y bs i nxt = Some (i, m) \<Longrightarrow> \<forall>b \<in> set bs. y AND b = 0"
proof (induction bs arbitrary: nxt)
  case (Cons b bs)
  have "y AND b = 0"
  proof (rule ccontr)
    assume "y AND b \<noteq> 0"
    with Cons.prems have "\<exists>n. ats_group ats y bs (i + 1) n = Some (i, m)" by (auto split: if_splits)
    then show False using ats_group_le by fastforce
  qed
  with Cons show ?case by simp
qed simp

lemma ats_group_read: "ats_group ats y bs i nxt = Some (j, m) \<Longrightarrow> i < j \<Longrightarrow> i < length ats"
  by (induction ats y bs i nxt rule: ats_group.induct) (auto split: if_splits)

lemma ats_mask:
  assumes "\<forall>b \<in> set ats_bits. (y AND 0xF0) AND b = (0 :: u8)"
  shows "y AND 0xF0 = 0"
proof -
  let ?y = "y AND 0xF0"
  have "?y = ?y AND (0x80 OR 0x40 OR 0x20 OR 0x10)" by (simp only: and.assoc) simp
  also have "\<dots> = (?y AND 0x80) OR (?y AND 0x40) OR (?y AND 0x20) OR (?y AND 0x10)"
    by (simp only: bit.conj_disj_distrib)
  also have "\<dots> = 0" using assms by (simp only: list.set ball_simps insert_iff) simp
  finally show ?thesis .
qed

function ats_interface :: "bytes \<Rightarrow> nat \<Rightarrow> u8 \<Rightarrow> nat option" where
  "ats_interface ats i y =
     (if y AND 0xF0 = 0 then Some i
      else
        (case ats_group ats (y AND 0xF0) ats_bits i 0 of
           None \<Rightarrow> None
         | Some (j, m) \<Rightarrow> ats_interface ats j m))"
  by pat_completeness auto
termination
proof (relation "measure (\<lambda>(ats, i, y). length ats + 1 - i)")
  fix ats :: bytes and i y r j m
  assume y: "y AND 0xF0 \<noteq> 0" and g: "ats_group ats (y AND 0xF0) ats_bits i 0 = Some r" "(j, m) = r"
  have "i \<noteq> j" using ats_group_stays [of ats "y AND 0xF0" ats_bits i 0] ats_mask [of y] y g by blast
  moreover have "i \<le> j" using ats_group_le g by blast
  ultimately have "i < j" by simp
  moreover have "i < length ats" using ats_group_read g \<open>i < j\<close> by blast
  ultimately show "((ats, j, m), ats, i, y) \<in> measure (\<lambda>(ats, i, y). length ats + 1 - i)" by simp
qed simp

declare ats_interface.simps [simp del]

definition ats_to_atr :: "heapless_vec \<Rightarrow> bytes \<Rightarrow> bytes option" where
  "ats_to_atr hx ats =
     (case ats of
        [] \<Rightarrow> None
      | t0 # _ \<Rightarrow> do {
          i \<leftarrow> ats_interface ats 1 t0;
          let hist = drop i ats;
              push = (\<lambda>atr b. snd (hx_push hx 32 atr b));
              atr = foldl push [] [0x3B, 0x80 OR (word_of_nat (length hist) AND 0x0F), 0x81, 0x31, 0xFE, 0x45]
          in (case hx_extend_from_slice hx 32 atr hist of
                (False, _) \<Rightarrow> None
              | (True, atr) \<Rightarrow>
                  let tck = xor_fold (drop 1 atr) in Some (push atr tck))
        })"

end
