(* ===== verification/Pn7160_Driver.thy ===== *)
theory Pn7160_Driver
  imports Nci_Reader
begin

text \<open>
  The PN7160 driver (\<open>crates/pn7160-nci/src/driver.rs\<close>): session state, presence with the re-arm machine that
  never blocks the serving loop, activation, power-off and the APDU exchange, over any link.
\<close>

section \<open>State\<close>

datatype pn_error = PnBringUp string | PnSelect string | PnNoCard | PnExchangeFailed | PnBufferTooSmall

datatype rearm_phase = AwaitRsp u8 | AwaitNtf u8 | DiscoverProbeRsp u8

abbreviation (input) PRESENCE_REARM_POLLS :: u32 where "PRESENCE_REARM_POLLS \<equiv> 8"
abbreviation (input) PARKED_REARM_POLLS :: u32 where "PARKED_REARM_POLLS \<equiv> 32"
abbreviation (input) PARKED_REARM_MS :: nat where "PARKED_REARM_MS \<equiv> 12800"
abbreviation (input) ABSENT_REARMS_TO_CLEAR :: u8 where "ABSENT_REARMS_TO_CLEAR \<equiv> 2"
abbreviation (input) REARM_RSP_POLLS :: u8 where "REARM_RSP_POLLS \<equiv> 2"
abbreviation (input) REARM_NTF_POLLS :: u8 where "REARM_NTF_POLLS \<equiv> 2"

text \<open>The last field is the static \<open>LAST_DATA_ARRIVAL_MS\<close>, which every exchange of the firmware's one driver stores to.\<close>

record 't pn7160 =
  pn_transport :: 't
  pn_active :: bool
  pn_uid :: bytes
  pn_uid_len :: nat
  pn_last_ntf :: "discover_ntf option"
  pn_last_auto_ats :: "bytes option"
  pn_collect_rounds :: u8
  pn_polls_since_ntf :: u32
  pn_absent_rearms :: u8
  pn_rearm :: "rearm_phase option"
  pn_probe_armed :: bool
  pn_discovery_parked :: bool
  pn_last_rearm_ms :: "nat option"
  pn_silent_rearms :: u8
  pn_stall_hook :: bool
  pn_wtx_last :: u32
  pn_wtx_total :: u32
  pn_last_arrival_ms :: u32

definition pn_new :: "'t \<Rightarrow> 't pn7160" where
  "pn_new t = \<lparr>pn_transport = t, pn_active = False, pn_uid = replicate 10 0, pn_uid_len = 0, pn_last_ntf = None,
     pn_last_auto_ats = None, pn_collect_rounds = 0, pn_polls_since_ntf = 0, pn_absent_rearms = 0, pn_rearm = None,
     pn_probe_armed = False, pn_discovery_parked = False, pn_last_rearm_ms = None, pn_silent_rearms = 0,
     pn_stall_hook = False, pn_wtx_last = 0, pn_wtx_total = 0, pn_last_arrival_ms = 0\<rparr>"

definition set_stall_hook :: "bool \<Rightarrow> 't pn7160 \<Rightarrow> 't pn7160" where
  "set_stall_hook hook d = d\<lparr>pn_stall_hook := hook\<rparr>"

section \<open>Tag bookkeeping\<close>

definition latch_tag :: "discover_ntf \<Rightarrow> bytes option \<Rightarrow> 't pn7160 \<Rightarrow> 't pn7160" where
  "latch_tag n ats d = d\<lparr>pn_last_ntf := Some n, pn_last_auto_ats := ats, pn_polls_since_ntf := 0, pn_absent_rearms := 0,
     pn_rearm := None, pn_probe_armed := True, pn_discovery_parked := False, pn_silent_rearms := 0\<rparr>"

definition clear_tag :: "'t pn7160 \<Rightarrow> 't pn7160" where
  "clear_tag d = d\<lparr>pn_last_ntf := None, pn_last_auto_ats := None, pn_polls_since_ntf := 0, pn_absent_rearms := 0,
     pn_rearm := None, pn_probe_armed := True, pn_discovery_parked := False\<rparr>"

definition teardown_on_link_loss :: "'t pn7160 \<Rightarrow> 't pn7160" where
  "teardown_on_link_loss d = clear_tag (d\<lparr>pn_active := False, pn_uid_len := 0\<rparr>)"

definition absorb_event :: "tag_event \<Rightarrow> 't pn7160 \<Rightarrow> 't pn7160" where
  "absorb_event ev d = (case ev of EvTag n ats \<Rightarrow> latch_tag n ats d | EvLinkLost \<Rightarrow> clear_tag d)"

section \<open>The re-arm machine\<close>

definition advance_or_give_up :: "u8 \<Rightarrow> 't pn7160 \<Rightarrow> 't pn7160" where
  "advance_or_give_up polls d =
     (if REARM_RSP_POLLS \<le> polls + 1
      then d\<lparr>pn_silent_rearms := saturating_add8 (pn_silent_rearms d) 1, pn_rearm := None\<rparr>
      else d\<lparr>pn_rearm := Some (AwaitRsp (polls + 1))\<rparr>)"

definition advance_probe_or_give_up :: "u8 \<Rightarrow> 't pn7160 \<Rightarrow> 't pn7160" where
  "advance_probe_or_give_up polls d =
     (if REARM_RSP_POLLS \<le> polls + 1
      then d\<lparr>pn_silent_rearms := saturating_add8 (pn_silent_rearms d) 1, pn_rearm := None\<rparr>
      else d\<lparr>pn_rearm := Some (DiscoverProbeRsp (polls + 1))\<rparr>)"

definition step_await_rsp :: "heapless_vec \<Rightarrow> 't nci_transport \<Rightarrow> u8 \<Rightarrow> 't pn7160 \<Rightarrow> 't pn7160 outcome" where
  "step_await_rsp hx ops polls d =
     (case nt_poll_frame ops (pn_transport d) of
        (None, t) \<Rightarrow> Some (advance_or_give_up polls (d\<lparr>pn_transport := t\<rparr>))
      | (Some f, t) \<Rightarrow>
          let d = d\<lparr>pn_transport := t\<rparr> in
          if is_rsp_to RF_DEACTIVATE_DISCOVERY f then
            if frame_status f = Some STATUS_OK
            then Some (d\<lparr>pn_silent_rearms := 0, pn_rearm := Some (AwaitNtf 0)\<rparr>)
            else
              (case nt_send ops RF_DISCOVER_PASSIVE_A t of
                 (True, t) \<Rightarrow> Some (d\<lparr>pn_transport := t, pn_rearm := Some (DiscoverProbeRsp 0)\<rparr>)
               | (False, t) \<Rightarrow> Some (d\<lparr>pn_transport := t, pn_rearm := None\<rparr>))
          else do {
            ev \<leftarrow> event_of hx f;
            Some (case ev of Some e \<Rightarrow> absorb_event e d | None \<Rightarrow> advance_or_give_up polls d)
          })"

definition step_await_ntf :: "'t nci_transport \<Rightarrow> u8 \<Rightarrow> 't pn7160 \<Rightarrow> 't pn7160" where
  "step_await_ntf ops polls d =
     (if REARM_NTF_POLLS \<le> polls + 1 then
        let d = d\<lparr>pn_rearm := None, pn_polls_since_ntf := 0,
                  pn_absent_rearms := saturating_add8 (pn_absent_rearms d) 1\<rparr>;
            d = (if ABSENT_REARMS_TO_CLEAR \<le> pn_absent_rearms d
                 then d\<lparr>pn_last_ntf := None, pn_last_auto_ats := None, pn_absent_rearms := 0,
                        pn_discovery_parked := True\<rparr>
                 else d)
        in if pn_probe_armed d then
             (case nt_send ops RF_DISCOVER_PASSIVE_A (pn_transport d) of
                (True, t) \<Rightarrow> d\<lparr>pn_transport := t, pn_probe_armed := False, pn_rearm := Some (DiscoverProbeRsp 0)\<rparr>
              | (False, t) \<Rightarrow> d\<lparr>pn_transport := t\<rparr>)
           else d
      else d\<lparr>pn_rearm := Some (AwaitNtf (polls + 1))\<rparr>)"

definition step_probe_rsp :: "heapless_vec \<Rightarrow> 't nci_transport \<Rightarrow> u8 \<Rightarrow> 't pn7160 \<Rightarrow> 't pn7160 outcome" where
  "step_probe_rsp hx ops polls d =
     (case nt_poll_frame ops (pn_transport d) of
        (None, t) \<Rightarrow> Some (advance_probe_or_give_up polls (d\<lparr>pn_transport := t\<rparr>))
      | (Some f, t) \<Rightarrow>
          let d = d\<lparr>pn_transport := t\<rparr> in
          if is_rsp_to RF_DISCOVER_PASSIVE_A f then
            Some (d\<lparr>pn_rearm := (if frame_status f = Some STATUS_OK then Some (AwaitNtf 0) else None)\<rparr>)
          else do {
            ev \<leftarrow> event_of hx f;
            Some (case ev of Some e \<Rightarrow> absorb_event e d | None \<Rightarrow> advance_probe_or_give_up polls d)
          })"

definition step_rearm :: "heapless_vec \<Rightarrow> 't nci_transport \<Rightarrow> 't pn7160 \<Rightarrow> 't pn7160 outcome" where
  "step_rearm hx ops d =
     (case pn_rearm d of
        None \<Rightarrow> Some d
      | Some (AwaitRsp polls) \<Rightarrow> step_await_rsp hx ops polls d
      | Some (AwaitNtf polls) \<Rightarrow> Some (step_await_ntf ops polls d)
      | Some (DiscoverProbeRsp polls) \<Rightarrow> step_probe_rsp hx ops polls d)"

section \<open>Bring-up\<close>

definition pn_init :: "'t nci_transport \<Rightarrow> 't pn7160 \<Rightarrow> (pn_error + unit) \<times> 't pn7160" where
  "pn_init ops d =
     (case run_ladder ops (pn_transport d) of
        (Inl e, t) \<Rightarrow> (Inl (PnBringUp e), d\<lparr>pn_transport := t\<rparr>)
      | (Inr _, t) \<Rightarrow> (Inr (), d\<lparr>pn_transport := t, pn_polls_since_ntf := PRESENCE_REARM_POLLS\<rparr>))"

fun bring_up_loop :: "'t nci_transport \<Rightarrow> ('t \<Rightarrow> 't) \<Rightarrow> nat \<Rightarrow> 't \<Rightarrow> 't pn7160 \<times> bool" where
  "bring_up_loop ops recover 0 t = (pn_new t, False)"
| "bring_up_loop ops recover (Suc n) t =
     (case pn_init ops (pn_new t) of
        (Inr _, d) \<Rightarrow> (d, True)
      | (Inl _, d) \<Rightarrow> bring_up_loop ops recover n (recover (pn_transport d)))"

definition pn_bring_up :: "'t nci_transport \<Rightarrow> ('t \<Rightarrow> 't) \<Rightarrow> u32 \<Rightarrow> 't \<Rightarrow> 't pn7160 \<times> bool" where
  "pn_bring_up ops recover attempts t = bring_up_loop ops recover (unat (max attempts 1)) t"

section \<open>Presence\<close>

definition start_rearm :: "'t nci_transport \<Rightarrow> 't pn7160 \<Rightarrow> 't pn7160" where
  "start_rearm ops d =
     (case nt_send ops RF_DEACTIVATE_DISCOVERY (pn_transport d) of
        (True, t) \<Rightarrow> d\<lparr>pn_transport := t, pn_rearm := Some (AwaitRsp 0)\<rparr>
      | (False, t) \<Rightarrow> d\<lparr>pn_transport := t\<rparr>)"

definition present_active :: "heapless_vec \<Rightarrow> 't nci_transport \<Rightarrow> 't pn7160 \<Rightarrow> (bool \<times> 't pn7160) outcome" where
  "present_active hx ops d = do {
     (ev, t) \<leftarrow> wait_for_event hx ops (pn_transport d);
     let d = d\<lparr>pn_transport := t\<rparr> in
     Some (case ev of
             Some EvLinkLost \<Rightarrow> (False, teardown_on_link_loss d)
           | Some (EvTag n ats) \<Rightarrow> (True, latch_tag n ats d)
           | None \<Rightarrow> (True, d))
   }"

text \<open>The end of a poll without an event: the cadence of the re-arm.\<close>

definition present_quiet :: "'t nci_transport \<Rightarrow> 't pn7160 \<Rightarrow> bool \<times> 't pn7160" where
  "present_quiet ops d =
     (if pn_last_auto_ats d \<noteq> None then (True, d)
      else
        let cadence = (if pn_discovery_parked d then PARKED_REARM_POLLS else PRESENCE_REARM_POLLS);
            d = (if pn_rearm d = None then
                   let d = d\<lparr>pn_polls_since_ntf := saturating_add32 (pn_polls_since_ntf d) 1\<rparr> in
                   if cadence \<le> pn_polls_since_ntf d then start_rearm ops (d\<lparr>pn_polls_since_ntf := 0\<rparr>) else d
                 else d)
        in (pn_last_ntf d \<noteq> None, d))"

definition is_card_present :: "heapless_vec \<Rightarrow> 't nci_transport \<Rightarrow> 't pn7160 \<Rightarrow> (bool \<times> 't pn7160) outcome" where
  "is_card_present hx ops d =
     (if pn_active d then present_active hx ops d
      else do {
        d \<leftarrow> step_rearm hx ops d;
        (ev, t) \<leftarrow> wait_for_event hx ops (pn_transport d);
        let d = d\<lparr>pn_transport := t\<rparr> in
        Some (case ev of
                Some (EvTag n ats) \<Rightarrow> (True, latch_tag n ats d)
              | Some EvLinkLost \<Rightarrow> (False, clear_tag d)
              | None \<Rightarrow> present_quiet ops d)
      })"

definition poll_maintenance :: "heapless_vec \<Rightarrow> 't nci_transport \<Rightarrow> nat \<Rightarrow> 't pn7160 \<Rightarrow> 't pn7160 outcome" where
  "poll_maintenance hx ops now_ms d = do {
     d \<leftarrow> step_rearm hx ops d;
     (ev, t) \<leftarrow> wait_for_event hx ops (pn_transport d);
     let d = d\<lparr>pn_transport := t\<rparr>;
         d = (case ev of Some (EvTag n ats) \<Rightarrow> latch_tag n ats d | Some EvLinkLost \<Rightarrow> clear_tag d | None \<Rightarrow> d)
     in
     (if \<not> pn_discovery_parked d \<or> pn_rearm d \<noteq> None then Some d
      else
        let due = (case pn_last_rearm_ms d of Some since \<Rightarrow> PARKED_REARM_MS \<le> now_ms - since | None \<Rightarrow> True) in
        if \<not> due then Some d
        else
          Some (case nt_send ops RF_DEACTIVATE_DISCOVERY (pn_transport d) of
                  (True, t) \<Rightarrow> d\<lparr>pn_transport := t, pn_last_rearm_ms := Some now_ms, pn_rearm := Some (AwaitRsp 0)\<rparr>
                | (False, t) \<Rightarrow> d\<lparr>pn_transport := t\<rparr>))
   }"

section \<open>Activation\<close>

text \<open>The bounded wait for an activation: \<open>Inl\<close> is a return with no card, \<open>Inr\<close> what arrived.\<close>

fun collect_activation :: "heapless_vec \<Rightarrow> 't nci_transport \<Rightarrow> nat \<Rightarrow> 't pn7160
    \<Rightarrow> ((pn_error + (discover_ntf \<times> bytes option) option) \<times> 't pn7160) outcome" where
  "collect_activation hx ops left d = do {
     (ev, t) \<leftarrow> wait_for_event hx ops (pn_transport d);
     let d = d\<lparr>pn_transport := t\<rparr> in
     (case ev of
        Some (EvTag n ats) \<Rightarrow> Some (Inr (Some (n, ats)), d\<lparr>pn_last_ntf := Some n, pn_last_auto_ats := ats\<rparr>)
      | Some EvLinkLost \<Rightarrow> Some (Inl PnNoCard, clear_tag d)
      | None \<Rightarrow>
          (case left of
             0 \<Rightarrow> Some (Inr None, d)
           | Suc left \<Rightarrow>
               collect_activation hx ops left
                 (d\<lparr>pn_collect_rounds := pn_collect_rounds d + 1, pn_transport := nt_wait_ms ops 150 (pn_transport d)\<rparr>)))
   }"

declare collect_activation.simps [simp del]

definition store_uid :: "discover_ntf \<Rightarrow> 't pn7160 \<Rightarrow> 't pn7160 outcome" where
  "store_uid ntf d = do {
     u \<leftarrow> nfca_uid ntf;
     Some (case u of
             None \<Rightarrow> d
           | Some uid \<Rightarrow>
               let n = min (length uid) 10 in d\<lparr>pn_uid_len := n, pn_uid := take n uid @ drop n (pn_uid d)\<rparr>)
   }"

text \<open>The end of an activation: the ATR into the caller's buffer, then the session is open.\<close>

definition finish_activation :: "heapless_vec \<Rightarrow> bytes \<Rightarrow> bytes \<Rightarrow> 't pn7160 \<Rightarrow> (pn_error + nat) \<times> bytes \<times> 't pn7160" where
  "finish_activation hx ats atr d =
     (case ats_to_atr hx ats of
        None \<Rightarrow> (Inl (PnSelect ''ATS too short for ATR construction''), atr, d)
      | Some atr_bytes \<Rightarrow>
          if length atr < length atr_bytes then (Inl PnBufferTooSmall, atr, d)
          else (Inr (length atr_bytes), atr_bytes @ drop (length atr_bytes) atr, d\<lparr>pn_active := True\<rparr>))"

definition reactivate :: "heapless_vec \<Rightarrow> 't nci_transport \<Rightarrow> bytes \<Rightarrow> 't pn7160
    \<Rightarrow> ((pn_error + nat) \<times> bytes \<times> 't pn7160) outcome" where
  "reactivate hx ops atr d =
     (let (_, t) = deactivate_to_discovery ops (pn_transport d) in do {
        (r, d) \<leftarrow> collect_activation hx ops 8 (d\<lparr>pn_transport := t, pn_collect_rounds := 0\<rparr>);
        (case r of
           Inl e \<Rightarrow> Some (Inl e, atr, d)
         | Inr None \<Rightarrow> Some (Inl PnNoCard, atr, d)
         | Inr (Some (ntf, None)) \<Rightarrow> Some (Inl (PnSelect ''re-activation carried no ATS''), atr, d)
         | Inr (Some (ntf, Some ats)) \<Rightarrow> do {
             d \<leftarrow> store_uid ntf d;
             Some (finish_activation hx ats atr d)
           })
      })"

definition activate_with :: "heapless_vec \<Rightarrow> 't nci_transport \<Rightarrow> discover_ntf \<Rightarrow> bytes option \<Rightarrow> bytes \<Rightarrow> 't pn7160
    \<Rightarrow> ((pn_error + nat) \<times> bytes \<times> 't pn7160) outcome" where
  "activate_with hx ops ntf auto_ats atr d = do {
     d \<leftarrow> store_uid ntf d;
     (case auto_ats of
        Some ats \<Rightarrow> Some (finish_activation hx ats atr d)
      | None \<Rightarrow>
          let (r, t) = select_tag ops ntf (pn_transport d); d = d\<lparr>pn_transport := t\<rparr> in
          (case r of
             Inl e \<Rightarrow> Some (Inl (PnSelect e), atr, d)
           | Inr activation \<Rightarrow>
               (case extract_ats activation of
                  None \<Rightarrow> Some (Inl (PnSelect ''activation carries no ATS''), atr, d)
                | Some extracted \<Rightarrow>
                    (case hx_extend_from_slice hx 32 [] extracted of
                       (False, _) \<Rightarrow> Some (Inl (PnSelect ''ATS too long''), atr, d)
                     | (True, ats) \<Rightarrow> Some (finish_activation hx ats atr d)))))
   }"

definition pn_power_on :: "heapless_vec \<Rightarrow> 't nci_transport \<Rightarrow> bytes \<Rightarrow> 't pn7160
    \<Rightarrow> ((pn_error + nat) \<times> bytes \<times> 't pn7160) outcome" where
  "pn_power_on hx ops atr d = do {
     (r, d) \<leftarrow> collect_activation hx ops 8 (d\<lparr>pn_collect_rounds := 0\<rparr>);
     (case r of
        Inl e \<Rightarrow> Some (Inl e, atr, d)
      | Inr (Some (ntf, ats)) \<Rightarrow>
          activate_with hx ops ntf (case ats of Some a \<Rightarrow> Some a | None \<Rightarrow> pn_last_auto_ats d) atr d
      | Inr None \<Rightarrow>
          (case pn_last_ntf d of
             None \<Rightarrow> reactivate hx ops atr d
           | Some ntf \<Rightarrow>
               if pn_last_auto_ats d = None then Some (Inl PnNoCard, atr, clear_tag d)
               else activate_with hx ops ntf (pn_last_auto_ats d) atr d))
   }"

definition pn_power_off :: "'t nci_transport \<Rightarrow> 't pn7160 \<Rightarrow> 't pn7160" where
  "pn_power_off ops d =
     (if pn_last_auto_ats d \<noteq> None
      then d\<lparr>pn_active := False, pn_probe_armed := True, pn_discovery_parked := False\<rparr>
      else
        let d = (if pn_active d then
                   (case deactivate_to_discovery ops (pn_transport d) of
                      (Inr _, t) \<Rightarrow> d\<lparr>pn_transport := t\<rparr>
                    | (Inl _, t) \<Rightarrow>
                        let (_, t) = restart_discovery ops t; (_, t) = drain_link ops t in d\<lparr>pn_transport := t\<rparr>)
                 else d)
        in d\<lparr>pn_active := False, pn_uid_len := 0, pn_last_ntf := None, pn_last_auto_ats := None, pn_rearm := None,
             pn_probe_armed := True, pn_discovery_parked := False, pn_silent_rearms := 0\<rparr>)"

section \<open>APDU exchange\<close>

definition close_session :: "'t pn7160 \<Rightarrow> 't pn7160" where
  "close_session d = (clear_tag d)\<lparr>pn_active := False, pn_uid_len := 0\<rparr>"

text \<open>Besides the result and the response buffer, the calls of the stall hook.\<close>

definition pn_transmit_apdu :: "heapless_vec \<Rightarrow> 't nci_transport \<Rightarrow> bytes \<Rightarrow> bytes \<Rightarrow> 't pn7160
    \<Rightarrow> ((pn_error + nat) \<times> bytes \<times> u32 list \<times> 't pn7160) outcome" where
  "pn_transmit_apdu hx ops command response d =
     (if \<not> pn_active d then Some (Inl PnNoCard, response, [], d)
      else do {
        (r, x, t) \<leftarrow> exchange_detailed hx ops 0 command (pn_stall_hook d) (pn_transport d);
        let d = d\<lparr>pn_transport := t, pn_wtx_last := xs_wtx x, pn_wtx_total := saturating_add32 (pn_wtx_total d) (xs_wtx x),
                  pn_last_arrival_ms := (case xs_arrival x of Some ms \<Rightarrow> ms | None \<Rightarrow> pn_last_arrival_ms d)\<rparr>;
            stalls = xs_stalls x
        in
        (case r of
           ExData rsp \<Rightarrow>
             if rsp = [] then Some (Inl PnExchangeFailed, response, stalls, close_session d)
             else if length response < length rsp then Some (Inl PnBufferTooSmall, response, stalls, d)
             else Some (Inr (length rsp), rsp @ drop (length rsp) response, stalls, d)
         | ExTimeout \<Rightarrow>
             let (r, t) = deactivate_to_discovery ops (pn_transport d);
                 t = (if isl r then snd (restart_discovery ops t) else t);
                 t = settle_drain ops t
             in Some (Inl PnExchangeFailed, response, stalls, close_session (d\<lparr>pn_transport := t\<rparr>))
         | ExLinkLost \<Rightarrow> Some (Inl PnExchangeFailed, response, stalls, teardown_on_link_loss d))
      })"

definition pn_uid_bytes :: "'t pn7160 \<Rightarrow> bytes" where
  "pn_uid_bytes d = take (pn_uid_len d) (pn_uid d)"

end
