(* ===== verification/Nci_Link.thy ===== *)
theory Nci_Link
  imports Nci_Reader
begin

text \<open>
  What the reader session relies on: a link that delivers frames the notification parsers accept.  The
  contract is the locale \<open>nci_link\<close>; inside it the waits, exchanges and command helpers return without a
  panic and keep the link's invariant.  The mock link of the source is an instance.
\<close>

section \<open>Frames the parsers accept\<close>

definition is_activation :: "nci_frame \<Rightarrow> bool" where
  "is_activation f \<longleftrightarrow> nf_mt f = MT_NTF \<and> nf_gid f = GID_RF \<and> nf_oid f = NTF_RF_INTF_ACTIVATED"

definition is_discover :: "nci_frame \<Rightarrow> bool" where
  "is_discover f \<longleftrightarrow> nf_mt f = MT_NTF \<and> nf_gid f = GID_RF \<and> nf_oid f = NTF_RF_DISCOVER"

text \<open>The two notifications on which the parsers index out of range: an activation whose technology
  parameters are shorter than three bytes, and a discovery that announces a UID of more than thirteen
  bytes with parameters long enough to hold it.\<close>

definition bad_activation :: "nci_frame \<Rightarrow> bool" where
  "bad_activation f \<longleftrightarrow>
     is_activation f \<and> 8 \<le> nf_len f \<and> 7 + unat (nf_payload f ! 6) \<le> nf_len f \<and> unat (nf_payload f ! 6) < 3"

definition bad_discovery :: "nci_frame \<Rightarrow> bool" where
  "bad_discovery f \<longleftrightarrow>
     is_discover f \<and> 5 \<le> nf_len f \<and> 4 + unat (nf_payload f ! 3) < nf_len f \<and>
     13 < unat (nf_payload f ! 6) \<and> 3 + unat (nf_payload f ! 6) \<le> unat (nf_payload f ! 3)"

definition frame_ok :: "nci_frame \<Rightarrow> bool" where
  "frame_ok f \<longleftrightarrow> length (nf_payload f) = 255 \<and> nf_len f \<le> 255"

definition frame_sane :: "nci_frame \<Rightarrow> bool" where
  "frame_sane f \<longleftrightarrow> frame_ok f \<and> \<not> bad_activation f \<and> \<not> bad_discovery f"

lemma frame_decode_ok: "frame_decode buf = Some f \<Longrightarrow> frame_ok f"
proof -
  have "unat (b :: u8) \<le> 255" for b
  proof -
    have "unat b < 2 ^ LENGTH(8)" by (rule unsigned_less)
    then show ?thesis by simp
  qed
  then show "frame_decode buf = Some f \<Longrightarrow> frame_ok f"
    by (auto simp: frame_decode_def frame_ok_def Let_def split: if_splits)
qed

definition ntf_sane :: "discover_ntf \<Rightarrow> bool" where
  "ntf_sane n \<longleftrightarrow> length (dn_tech_params n) = 16 \<and> nfca_uid n \<noteq> None"

lemma activation_panics_iff: "frame_ok f \<Longrightarrow> activation_to_discover f = None \<longleftrightarrow> bad_activation f"
  by (auto simp: activation_to_discover_def bad_activation_def is_activation_def tech_params_slice_def frame_ok_def
      Let_def idx_def split: option.splits if_splits)

lemma activation_ntf_sane:
  assumes "frame_ok f" and "activation_to_discover f = Some (Some n)"
  shows "ntf_sane n"
proof -
  have z: "ntf_sane \<lparr>dn_discovery_id = a, dn_protocol = b, dn_tech_and_mode = c, dn_interface = d,
      dn_tech_params = replicate 16 0, dn_tech_params_len = 0\<rparr>" for a b c d
    by (simp add: ntf_sane_def nfca_uid_def)
  show ?thesis
  proof (cases "8 \<le> nf_len f")
    case False
    with assms(2) z show ?thesis by (auto simp: activation_to_discover_def Let_def split: if_splits)
  next
    case True
    then obtain v where v: "tech_params_slice f = Some v" "3 \<le> length v"
      using assms(2) by (auto simp: activation_to_discover_def Let_def idx_def split: if_splits option.splits)
    let ?u = "unat (v ! 2)"
    show ?thesis
    proof (cases "0 < ?u \<and> 3 + ?u \<le> length v")
      case False
      with True v assms(2) z show ?thesis
        by (auto simp: activation_to_discover_def Let_def idx_def split: if_splits)
    next
      case u: True
      let ?c = "min (3 + ?u) 16"
      from True v u assms(2) have n: "dn_tech_params n = take ?c v @ replicate (16 - ?c) 0" "dn_tech_params_len n = ?c"
        by (auto simp: activation_to_discover_def Let_def idx_def split: if_splits)
      have "(take ?c v @ replicate (16 - ?c) 0) ! 2 = v ! 2" using u by (simp add: nth_append)
      then show ?thesis
        using n u by (auto simp: ntf_sane_def nfca_uid_def slice_def Let_def)
    qed
  qed
qed

lemma discover_uid_panics_iff:
  assumes "frame_ok f" and "discover_decode f = Some n"
  shows "nfca_uid n = None \<longleftrightarrow> bad_discovery f" and "length (dn_tech_params n) = 16"
proof -
  let ?p = "unat (nf_payload f ! 3)"
  have f: "is_discover f" "5 \<le> nf_len f" "4 + ?p < nf_len f"
    and n: "dn_tech_params n = take (min ?p 16) (drop 4 (nf_payload f)) @ replicate (16 - min ?p 16) 0" "dn_tech_params_len n = ?p"
    using assms(2) by (auto simp: discover_decode_def is_discover_def Let_def split: if_splits)
  have l: "length (nf_payload f) = 255" "nf_len f \<le> 255" using assms(1) by (auto simp: frame_ok_def)
  show 16: "length (dn_tech_params n) = 16" using n l f by simp
  show "nfca_uid n = None \<longleftrightarrow> bad_discovery f"
  proof (cases "?p < 4")
    case True
    then show ?thesis using f n by (simp add: nfca_uid_def bad_discovery_def)
  next
    case False
    then have "dn_tech_params n ! 2 = nf_payload f ! 6" using n l f by (simp add: nth_append)
    then show ?thesis using f n False 16 by (auto simp: nfca_uid_def bad_discovery_def slice_def Let_def)
  qed
qed

lemma event_sane:
  assumes "frame_sane f"
  shows "\<exists>ev. event_of hx f = Some ev \<and> (\<forall>n ats. ev = Some (EvTag n ats) \<longrightarrow> ntf_sane n)"
proof (cases "discover_decode f")
  case (Some n)
  then have "ntf_sane n"
    using discover_uid_panics_iff [of f n] assms by (auto simp: frame_sane_def ntf_sane_def)
  then show ?thesis using Some by (simp add: event_of_def)
next
  case None
  obtain a where a: "activation_to_discover f = Some a"
    using activation_panics_iff [of f] assms by (auto simp: frame_sane_def)
  then have "a = Some n \<Longrightarrow> ntf_sane n" for n using activation_ntf_sane [of f n] assms by (simp add: frame_sane_def)
  then show ?thesis using None a by (auto simp: event_of_def split: option.split)
qed

section \<open>The contract\<close>

locale nci_link =
  fixes hx :: heapless_vec and ops :: "'t nci_transport" and t_inv :: "'t \<Rightarrow> bool"
  assumes vec: "heapless_vec_ok hx"
    and send_inv: "t_inv t \<Longrightarrow> nt_send ops cmd t = (b, t') \<Longrightarrow> t_inv t'"
    and poll_inv: "t_inv t \<Longrightarrow> nt_poll_frame ops t = (r, t') \<Longrightarrow> t_inv t' \<and> (\<forall>f. r = Some f \<longrightarrow> frame_sane f)"
    and drain_inv: "t_inv t \<Longrightarrow> nt_drain ops t = (r, t') \<Longrightarrow> t_inv t' \<and> (\<forall>f. r = Some f \<longrightarrow> frame_sane f)"
    and transact_inv: "t_inv t \<Longrightarrow> nt_transact ops cmd t = (r, t') \<Longrightarrow> t_inv t' \<and> (\<forall>f. r = Some f \<longrightarrow> frame_sane f)"
    and wait_inv: "t_inv t \<Longrightarrow> t_inv (nt_wait_ms ops ms t)"
    and probe_inv: "t_inv t \<Longrightarrow> nt_link_probe ops t = (b, t') \<Longrightarrow> t_inv t'"
begin

lemma event_loop:
  assumes "t_inv t"
  shows "\<exists>ev t'. wait_for_event_loop hx ops n t = Some (ev, t') \<and> t_inv t' \<and>
    (\<forall>m ats. ev = Some (EvTag m ats) \<longrightarrow> ntf_sane m)"
  using assms
proof (induction n arbitrary: t)
  case (Suc n)
  obtain r t1 where d: "nt_drain ops t = (r, t1)" by (cases "nt_drain ops t") auto
  note i = drain_inv [OF Suc.prems d]
  show ?case
  proof (cases r)
    case None
    then show ?thesis using d i by simp
  next
    case (Some f)
    then obtain ev where e: "event_of hx f = Some ev" "\<forall>m ats. ev = Some (EvTag m ats) \<longrightarrow> ntf_sane m"
      using i event_sane [of f hx] by blast
    show ?thesis
    proof (cases ev)
      case None
      then show ?thesis using d Some e Suc.IH [of t1] i by simp
    next
      case (Some x)
      then show ?thesis using d \<open>r = Some f\<close> e i by simp
    qed
  qed
qed simp

lemma event_waited:
  assumes "t_inv t"
  obtains ev t' where "wait_for_event hx ops t = Some (ev, t')" "t_inv t'" "\<And>m ats. ev = Some (EvTag m ats) \<Longrightarrow> ntf_sane m"
  using event_loop [OF assms, of 8] by (auto simp: wait_for_event_def)

lemma strict_loop_inv: "t_inv t \<Longrightarrow> strict_loop ops cmd first n t = (r, t') \<Longrightarrow> t_inv t'"
proof (induction n arbitrary: t first)
  case (Suc n)
  let ?t = "if first then t else nt_wait_ms ops STRICT_RSP_WAIT_MS t"
  obtain q t1 where p: "nt_poll_frame ops ?t = (q, t1)" by (cases "nt_poll_frame ops ?t") auto
  have "t_inv ?t" using Suc.prems(1) by (simp add: wait_inv)
  then have "t_inv t1" using poll_inv p by blast
  with Suc p show ?case by (auto simp: Let_def split: option.splits if_splits)
qed simp

lemma transact_strict_inv: "t_inv t \<Longrightarrow> transact_strict ops cmd t = (r, t') \<Longrightarrow> t_inv t'"
  by (auto simp: transact_strict_def split: prod.splits bool.splits dest: send_inv strict_loop_inv)

lemma drain_loop_inv: "t_inv t \<Longrightarrow> drain_loop ops n k t = (m, t') \<Longrightarrow> t_inv t'"
proof (induction n arbitrary: k t)
  case (Suc n)
  obtain r t1 where d: "nt_drain ops t = (r, t1)" by (cases "nt_drain ops t") auto
  with Suc drain_inv [OF Suc.prems(1) d] show ?case by (auto split: option.splits)
qed simp

lemma drain_link_inv: "t_inv t \<Longrightarrow> drain_link ops t = (m, t') \<Longrightarrow> t_inv t'"
  by (simp add: drain_link_def drain_loop_inv)

lemma settle_loop_inv: "t_inv t \<Longrightarrow> t_inv (settle_loop ops n t)"
proof (induction n arbitrary: t)
  case (Suc n)
  obtain k t1 where d1: "drain_link ops t = (k, t1)" by (cases "drain_link ops t") auto
  obtain m t2 where d2: "drain_link ops (nt_wait_ms ops DATA_COLLECT_WAIT_MS t1) = (m, t2)"
    by (cases "drain_link ops (nt_wait_ms ops DATA_COLLECT_WAIT_MS t1)") auto
  have "t_inv t2" using Suc.prems d1 d2 by (blast intro: drain_link_inv wait_inv)
  then show ?case using Suc.IH d1 d2 by simp
qed simp

lemma settle_drain_inv: "t_inv t \<Longrightarrow> t_inv (settle_drain ops t)"
  by (simp add: settle_drain_def settle_loop_inv)

lemma deactivate_inv: "t_inv t \<Longrightarrow> deactivate_to_discovery ops t = (r, t') \<Longrightarrow> t_inv t'"
  by (auto simp: deactivate_to_discovery_def split: prod.splits sum.splits if_splits
      dest: transact_strict_inv intro: drain_link_inv [OF _ surjective_pairing])

lemma restart_inv: "t_inv t \<Longrightarrow> restart_discovery ops t = (r, t') \<Longrightarrow> t_inv t'"
  by (auto simp: restart_discovery_def split: prod.splits sum.splits if_splits dest: transact_strict_inv)

lemma select_inv: "t_inv t \<Longrightarrow> select_tag ops n t = (r, t') \<Longrightarrow> t_inv t'"
  by (auto simp: select_tag_def Let_def split: prod.splits option.splits if_splits dest: transact_inv drain_inv)

lemma ladder_steps_inv: "t_inv t \<Longrightarrow> ladder_steps ops ss t = (r, t') \<Longrightarrow> t_inv t'"
proof (induction ss arbitrary: t)
  case (Cons s ss)
  obtain q t1 where d: "nt_transact ops (tx_bytes s) t = (q, t1)" by (cases "nt_transact ops (tx_bytes s) t") auto
  with Cons transact_inv [OF Cons.prems(1) d] show ?case by (auto split: option.splits if_splits)
qed simp

lemma ladder_inv:
  assumes "t_inv t" and "run_ladder ops t = (r, t')"
  shows "t_inv t'"
proof -
  obtain q t1 where q: "nt_transact ops CORE_RESET t = (q, t1)" by (cases "nt_transact ops CORE_RESET t") auto
  obtain n t2 where n: "nt_drain ops t1 = (n, t2)" by (cases "nt_drain ops t1") auto
  have "t_inv t1" "t_inv t2" using transact_inv [OF assms(1) q] drain_inv [OF _ n] by auto
  then show ?thesis
    using assms(2) q n
    by (auto simp: run_ladder_def simp del: ladder_steps.simps split: option.splits if_splits intro: ladder_steps_inv)
qed

end

section \<open>The mock link\<close>

record mock_transport =
  mt_sent :: "bytes list"
  mt_replies :: "bytes list"
  mt_notifications :: "bytes list"
  mt_drained :: nat
  mt_pending_rsp :: "bytes option"
  mt_stash :: "bytes list"
  mt_transacts :: nat
  mt_waited_ms :: nat
  mt_late_on_wait :: "bytes list"
  mt_link_alive :: bool

definition mock_transport_new :: mock_transport where
  "mock_transport_new = \<lparr>mt_sent = [], mt_replies = [], mt_notifications = [], mt_drained = 0, mt_pending_rsp = None,
     mt_stash = [], mt_transacts = 0, mt_waited_ms = 0, mt_late_on_wait = [], mt_link_alive = True\<rparr>"

definition push_reply :: "bytes \<Rightarrow> mock_transport \<Rightarrow> mock_transport" where
  "push_reply raw m = m\<lparr>mt_replies := mt_replies m @ [raw]\<rparr>"

definition push_notification :: "bytes \<Rightarrow> mock_transport \<Rightarrow> mock_transport" where
  "push_notification raw m = m\<lparr>mt_notifications := mt_notifications m @ [raw]\<rparr>"

definition stash_ntf :: "bytes \<Rightarrow> mock_transport \<Rightarrow> mock_transport" where
  "stash_ntf raw m =
     (let st = (if length (mt_stash m) = NTF_STASH_SLOTS then tl (mt_stash m) else mt_stash m)
      in m\<lparr>mt_stash := st @ [raw]\<rparr>)"

definition mock_send :: "bytes \<Rightarrow> mock_transport \<Rightarrow> bool \<times> mock_transport" where
  "mock_send cmd m =
     (let m = m\<lparr>mt_sent := mt_sent m @ [cmd]\<rparr> in
      (True, case mt_replies m of [] \<Rightarrow> m | raw # rs \<Rightarrow> m\<lparr>mt_replies := rs, mt_pending_rsp := Some raw\<rparr>))"

definition mock_poll_frame :: "mock_transport \<Rightarrow> nci_frame option \<times> mock_transport" where
  "mock_poll_frame m =
     (case mt_pending_rsp m of
        Some raw \<Rightarrow> (frame_decode raw, m\<lparr>mt_pending_rsp := None\<rparr>)
      | None \<Rightarrow>
          (case mt_notifications m of
             [] \<Rightarrow> (None, m)
           | raw # ns \<Rightarrow>
               let f = frame_decode raw; m = m\<lparr>mt_notifications := ns\<rparr>
               in (f, if f \<noteq> None then m\<lparr>mt_drained := mt_drained m + 1\<rparr> else m)))"

fun mock_transact_loop :: "bytes list \<Rightarrow> mock_transport \<Rightarrow> nci_frame option \<times> mock_transport" where
  "mock_transact_loop [] m = (None, m\<lparr>mt_replies := []\<rparr>)"
| "mock_transact_loop (raw # rs) m =
     (case frame_decode raw of
        None \<Rightarrow> (None, m\<lparr>mt_replies := rs\<rparr>)
      | Some f \<Rightarrow>
          if is_transact_reply f then (Some f, m\<lparr>mt_replies := rs\<rparr>)
          else mock_transact_loop rs (stash_ntf raw m))"

definition mock_transact :: "bytes \<Rightarrow> mock_transport \<Rightarrow> nci_frame option \<times> mock_transport" where
  "mock_transact cmd m =
     mock_transact_loop (mt_replies m) (m\<lparr>mt_transacts := mt_transacts m + 1, mt_sent := mt_sent m @ [cmd]\<rparr>)"

definition mock_drain :: "mock_transport \<Rightarrow> nci_frame option \<times> mock_transport" where
  "mock_drain m =
     (let (raw, m) = (case mt_stash m of
                        r # rs \<Rightarrow> (Some r, m\<lparr>mt_stash := rs\<rparr>)
                      | [] \<Rightarrow> (case mt_notifications m of
                                 n # ns \<Rightarrow> (Some n, m\<lparr>mt_notifications := ns\<rparr>)
                               | [] \<Rightarrow> (None, m)));
          f = Option.bind raw frame_decode
      in (f, if f \<noteq> None then m\<lparr>mt_drained := mt_drained m + 1\<rparr> else m))"

definition mock_wait_ms :: "nat \<Rightarrow> mock_transport \<Rightarrow> mock_transport" where
  "mock_wait_ms ms m =
     (let m = m\<lparr>mt_waited_ms := mt_waited_ms m + ms\<rparr> in
      case mt_late_on_wait m of
        [] \<Rightarrow> m
      | raw # rs \<Rightarrow> m\<lparr>mt_late_on_wait := rs, mt_notifications := mt_notifications m @ [raw]\<rparr>)"

definition mock_link :: "mock_transport nci_transport" where
  "mock_link = \<lparr>nt_send = mock_send, nt_poll_frame = mock_poll_frame, nt_transact = mock_transact,
     nt_drain = mock_drain, nt_wait_ms = mock_wait_ms, nt_link_probe = (\<lambda>m. (mt_link_alive m, m))\<rparr>"

definition raw_sane :: "bytes \<Rightarrow> bool" where
  "raw_sane raw \<longleftrightarrow> (case frame_decode raw of None \<Rightarrow> True | Some f \<Rightarrow> frame_sane f)"

definition mock_sane :: "mock_transport \<Rightarrow> bool" where
  "mock_sane m \<longleftrightarrow> list_all raw_sane (mt_replies m @ mt_notifications m @ mt_stash m @ mt_late_on_wait m) \<and>
     pred_option raw_sane (mt_pending_rsp m)"

lemma list_all_tl: "list_all P xs \<Longrightarrow> list_all P (tl xs)"
  by (cases xs) simp_all

lemma mock_transact_loop_sane:
  "list_all raw_sane rs \<Longrightarrow> mock_sane m \<Longrightarrow> mock_transact_loop rs m = (r, m') \<Longrightarrow>
     mock_sane m' \<and> (\<forall>f. r = Some f \<longrightarrow> frame_sane f)"
proof (induction rs m arbitrary: r m' rule: mock_transact_loop.induct)
  case (1 m)
  then show ?case by (auto simp: mock_sane_def)
next
  case (2 raw rs m)
  have "raw_sane raw" using "2.prems" by simp
  moreover have "mock_sane (stash_ntf raw m)"
    using "2.prems" by (auto simp: mock_sane_def stash_ntf_def Let_def list_all_tl)
  moreover have "mock_sane (m\<lparr>mt_replies := rs\<rparr>)" using "2.prems" by (simp add: mock_sane_def)
  ultimately show ?case
    using "2.prems" "2.IH" by (auto simp: raw_sane_def split: option.splits if_splits)
qed

interpretation mock_nci: nci_link heapless_vec_list mock_link mock_sane
proof
  show "heapless_vec_ok heapless_vec_list" by (rule heapless_vec_list_ok)
next
  fix t cmd b t'
  assume "mock_sane t" "nt_send mock_link cmd t = (b, t')"
  then show "mock_sane t'" by (auto simp: mock_link_def mock_send_def mock_sane_def Let_def split: list.splits)
next
  fix t r t'
  assume "mock_sane t" "nt_poll_frame mock_link t = (r, t')"
  then show "mock_sane t' \<and> (\<forall>f. r = Some f \<longrightarrow> frame_sane f)"
    by (auto simp: mock_link_def mock_poll_frame_def mock_sane_def raw_sane_def Let_def split: list.splits option.splits if_splits)
next
  fix t r t'
  assume "mock_sane t" "nt_drain mock_link t = (r, t')"
  then show "mock_sane t' \<and> (\<forall>f. r = Some f \<longrightarrow> frame_sane f)"
    by (auto simp: mock_link_def mock_drain_def mock_sane_def raw_sane_def Let_def split: list.splits option.splits if_splits)
next
  fix t cmd r t'
  assume m: "mock_sane t" and "nt_transact mock_link cmd t = (r, t')"
  then have "mock_transact_loop (mt_replies t) (t\<lparr>mt_transacts := mt_transacts t + 1, mt_sent := mt_sent t @ [cmd]\<rparr>) = (r, t')"
    by (simp add: mock_link_def mock_transact_def)
  moreover have "mock_sane (t\<lparr>mt_transacts := mt_transacts t + 1, mt_sent := mt_sent t @ [cmd]\<rparr>)"
    "list_all raw_sane (mt_replies t)" using m by (simp_all add: mock_sane_def)
  ultimately show "mock_sane t' \<and> (\<forall>f. r = Some f \<longrightarrow> frame_sane f)" using mock_transact_loop_sane by blast
next
  fix t ms
  assume "mock_sane t"
  then show "mock_sane (nt_wait_ms mock_link ms t)"
    by (auto simp: mock_link_def mock_wait_ms_def mock_sane_def Let_def split: list.splits)
qed (simp_all add: mock_link_def)

end
