(* ===== verification/Nci_Exchange.thy ===== *)
theory Nci_Exchange
  imports Nci_Link
begin

text \<open>
  Properties of one APDU exchange over NCI: it returns within its budget of waiting time and reports at most
  one stall, whatever the link does; and against a controller that follows NCI it delivers the APDU in
  fragments and returns the card's answer.
\<close>

section \<open>Time\<close>

text \<open>A clock that only the waits advance, by at most what is asked for.\<close>

locale nci_clock = nci_link hx ops t_inv for hx and ops :: "'t nci_transport" and t_inv +
  fixes elapsed :: "'t \<Rightarrow> nat"
  assumes send_elapsed: "nt_send ops cmd t = (b, t') \<Longrightarrow> elapsed t' \<le> elapsed t"
    and poll_elapsed: "nt_poll_frame ops t = (r, t') \<Longrightarrow> elapsed t' \<le> elapsed t"
    and wait_elapsed: "elapsed (nt_wait_ms ops ms t) \<le> elapsed t + ms"

definition exchange_clock :: "bool \<Rightarrow> exchange_state \<Rightarrow> bool" where
  "exchange_clock stall x \<longleftrightarrow> xs_waited_rounds x + xs_budget x = DATA_COLLECT_ROUNDS \<and>
     (if xs_waited_rounds x < 8 then xs_next_stall_ms x = 1500 \<and> xs_stalls x = []
      else xs_next_stall_ms x = 3000 \<and> xs_stalls x = (if stall then [1600] else []))"

lemma exchange_clock_start: "exchange_clock stall exchange_start"
  by (simp add: exchange_clock_def exchange_start_def)

lemma exchange_clock_wtx [simp]: "exchange_clock stall (count_wtx f x) = exchange_clock stall x"
  and count_wtx_budget [simp]: "xs_budget (count_wtx f x) = xs_budget x"
  by (simp_all add: exchange_clock_def count_wtx_def)

lemma phase_wait_le: "phase_wait k \<le> 200"
proof (cases "k < 4")
  case True
  then have "k \<in> {0, 1, 2, 3}" by auto
  then show ?thesis by (auto simp: phase_wait_def DATA_FIRST_PHASE_MS_def)
qed (simp add: phase_wait_def DATA_FIRST_PHASE_MS_def)

lemma round_clock:
  assumes "exchange_clock stall x" and "xs_budget x = Suc b" and "round_waited ops stall w (x\<lparr>xs_budget := b\<rparr>) t = (x', t')"
  shows "exchange_clock stall x' \<and> xs_budget x' = b \<and> t' = nt_wait_ms ops w t"
proof -
  let ?n = "xs_waited_rounds x"
  have n: "?n + b = 11" using assms by (simp add: exchange_clock_def)
  then have "?n \<le> 11" by simp
  then have "?n \<in> {0, 1, 2, 3, 4, 5, 6, 7, 8, 9, 10, 11}" by simp presburger
  then show ?thesis
    using assms n
    by (elim insertE emptyE) (auto simp: round_waited_def exchange_clock_def Let_def saturating_add32_def split: if_splits)
qed

context nci_clock
begin

lemma credit_time:
  assumes "t_inv t" and "exchange_clock stall x" and "xs_budget x = b"
  shows "\<exists>r x' t'. credit_loop hx ops stall b k x t = Some (r, x', t') \<and> t_inv t' \<and> exchange_clock stall x' \<and>
    xs_budget x' \<le> b \<and> elapsed t' \<le> elapsed t + 200 * (b - xs_budget x') \<and> (\<forall>v. r \<noteq> Inl (ExData v))"
  using assms
proof (induction b arbitrary: k x t)
  case (Suc b)
  obtain q t1 where p: "nt_poll_frame ops t = (q, t1)" by (cases "nt_poll_frame ops t") auto
  have i: "t_inv t1" "elapsed t1 \<le> elapsed t" "\<And>f. q = Some f \<Longrightarrow> frame_sane f"
    using poll_inv [OF Suc.prems(1) p] poll_elapsed [OF p] by auto
  have again: "\<exists>r x' t'. (let (x, t) = round_waited ops stall (phase_wait k) (y\<lparr>xs_budget := b\<rparr>) t1
       in credit_loop hx ops stall b (k + 1) x t) = Some (r, x', t') \<and> t_inv t' \<and> exchange_clock stall x' \<and>
     xs_budget x' \<le> Suc b \<and> elapsed t' \<le> elapsed t + 200 * (Suc b - xs_budget x') \<and> (\<forall>v. r \<noteq> Inl (ExData v))"
    if "exchange_clock stall y" "xs_budget y = Suc b" for y
  proof -
    obtain y1 t2 where w: "round_waited ops stall (phase_wait k) (y\<lparr>xs_budget := b\<rparr>) t1 = (y1, t2)"
      by (cases "round_waited ops stall (phase_wait k) (y\<lparr>xs_budget := b\<rparr>) t1") auto
    from round_clock [OF that w] have y1: "exchange_clock stall y1" "xs_budget y1 = b" "t2 = nt_wait_ms ops (phase_wait k) t1"
      by auto
    then have t2: "t_inv t2" "elapsed t2 \<le> elapsed t + 200" using i wait_inv phase_wait_le [of k] wait_elapsed [of "phase_wait k" t1] by auto
    from Suc.IH [OF t2(1) y1(1,2), of "k + 1"] obtain r x' t' where
      r: "credit_loop hx ops stall b (k + 1) y1 t2 = Some (r, x', t')" "t_inv t'" "exchange_clock stall x'" "xs_budget x' \<le> b"
        "elapsed t' \<le> elapsed t2 + 200 * (b - xs_budget x')" "\<forall>v. r \<noteq> Inl (ExData v)" by blast
    have "elapsed t' \<le> elapsed t + 200 * (Suc b - xs_budget x')" using r(4,5) t2(2) by (simp add: Suc_diff_le)
    then show ?thesis using w r by auto
  qed
  show ?case
  proof (cases q)
    case None
    then show ?thesis using again [OF Suc.prems(2,3)] p by (simp only: credit_loop.simps Let_def prod.case option.case)
  next
    case (Some f)
    then obtain ev where e: "event_of hx f = Some ev" using i event_sane [of f hx] by blast
    have y: "exchange_clock stall (count_wtx f x)" "xs_budget (count_wtx f x) = Suc b" using Suc.prems by simp_all
    show ?thesis
    proof (cases "ev = Some EvLinkLost \<or> is_conn_credits_ntf f")
      case True
      then show ?thesis using p Some e i y by (auto simp: Let_def)
    next
      case False
      then show ?thesis
        using again [OF y] p Some e by (simp only: credit_loop.simps Let_def prod.case option.case bind.simps) simp
    qed
  qed
qed simp

lemma fragments_time:
  assumes "t_inv t" and "exchange_clock stall x"
  shows "\<exists>r x' t'. send_fragments hx ops stall conn fs x t = Some (r, x', t') \<and> t_inv t' \<and> exchange_clock stall x' \<and>
    xs_budget x' \<le> xs_budget x \<and> elapsed t' \<le> elapsed t + 200 * (xs_budget x - xs_budget x') \<and> (\<forall>v. r \<noteq> Inl (ExData v))"
  using assms
proof (induction fs arbitrary: x t)
  case (Cons f fs)
  obtain b t1 where s: "send_fragment hx ops conn (fs \<noteq> []) f t = (b, t1)"
    by (cases "send_fragment hx ops conn (fs \<noteq> []) f t") auto
  then have i: "t_inv t1" "elapsed t1 \<le> elapsed t"
    using Cons.prems(1) by (auto simp: send_fragment_def split: prod.splits bool.splits dest: send_inv send_elapsed)
  show ?case
  proof (cases "b \<and> fs \<noteq> []")
    case False
    then show ?thesis using s i Cons.prems by (cases b) auto
  next
    case True
    from credit_time [OF i(1) Cons.prems(2) refl, of 0] obtain r x1 t2 where
      c: "credit_loop hx ops stall (xs_budget x) 0 x t1 = Some (r, x1, t2)" "t_inv t2" "exchange_clock stall x1"
        "xs_budget x1 \<le> xs_budget x" "elapsed t2 \<le> elapsed t1 + 200 * (xs_budget x - xs_budget x1)"
        and nd: "\<forall>v. r \<noteq> Inl (ExData v)" by blast
    show ?thesis
    proof (cases "r = Inr True")
      case False
      then show ?thesis using True s c i nd by (cases r) auto
    next
      case r: True
      from Cons.IH [OF c(2,3)] obtain q x2 t3 where
        q: "send_fragments hx ops stall conn fs x1 t2 = Some (q, x2, t3)" "t_inv t3" "exchange_clock stall x2"
          "xs_budget x2 \<le> xs_budget x1" "elapsed t3 \<le> elapsed t2 + 200 * (xs_budget x1 - xs_budget x2)" "\<forall>v. q \<noteq> Inl (ExData v)"
        by blast
      have "elapsed t3 \<le> elapsed t + 200 * (xs_budget x - xs_budget x2)" using q(4,5) c(4,5) i(2) by (simp add: algebra_simps)
      then show ?thesis using True s c r q by auto
    qed
  qed
qed simp

lemma collect_time:
  assumes "t_inv t" and "exchange_clock stall x" and "xs_budget x = b" and "length acc \<le> 1024"
  shows "\<exists>r x' t'. collect_loop hx ops stall conn b k acc x t = Some (r, x', t') \<and> t_inv t' \<and> exchange_clock stall x' \<and>
    elapsed t' \<le> elapsed t + 200 * b \<and> (\<forall>v. r = ExData v \<longrightarrow> v \<noteq> [] \<and> length v \<le> 1024)"
  using assms
proof (induction b arbitrary: k acc x t)
  case (Suc b)
  obtain q t1 where p: "nt_poll_frame ops t = (q, t1)" by (cases "nt_poll_frame ops t") auto
  have i: "t_inv t1" "elapsed t1 \<le> elapsed t" "\<And>f. q = Some f \<Longrightarrow> frame_sane f"
    using poll_inv [OF Suc.prems(1) p] poll_elapsed [OF p] by auto
  have again: "\<exists>r x' t'. (let (x, t) = round_waited ops stall (phase_wait k) (y\<lparr>xs_budget := b\<rparr>) t1
       in collect_loop hx ops stall conn b (k + 1) bs x t) = Some (r, x', t') \<and> t_inv t' \<and> exchange_clock stall x' \<and>
     elapsed t' \<le> elapsed t + 200 * Suc b \<and> (\<forall>v. r = ExData v \<longrightarrow> v \<noteq> [] \<and> length v \<le> 1024)"
    if "exchange_clock stall y" "xs_budget y = Suc b" and bs: "length bs \<le> 1024" for y bs
  proof -
    obtain y1 t2 where w: "round_waited ops stall (phase_wait k) (y\<lparr>xs_budget := b\<rparr>) t1 = (y1, t2)"
      by (cases "round_waited ops stall (phase_wait k) (y\<lparr>xs_budget := b\<rparr>) t1") auto
    from round_clock [OF that(1,2) w] have y1: "exchange_clock stall y1" "xs_budget y1 = b" "t2 = nt_wait_ms ops (phase_wait k) t1"
      by auto
    then have t2: "t_inv t2" "elapsed t2 \<le> elapsed t + 200" using i wait_inv phase_wait_le [of k] wait_elapsed [of "phase_wait k" t1] by auto
    from Suc.IH [OF t2(1) y1(1,2) bs, of "k + 1"] t2(2) w show ?thesis by fastforce
  qed
  show ?case
  proof (cases q)
    case None
    then show ?thesis
      using again [OF Suc.prems(2,3,4)] p by (simp only: collect_loop.simps Let_def prod.case option.case)
  next
    case (Some f)
    then obtain ev where e: "event_of hx f = Some ev" using i event_sane [of f hx] by blast
    have y: "exchange_clock stall (count_wtx f x)" "xs_budget (count_wtx f x) = Suc b" using Suc.prems by simp_all
    let ?d = "nf_mt f = MT_DATA \<and> nf_gid f = conn \<and> 0 < nf_len f" and ?p = "take (nf_len f) (nf_payload f)"
    consider "ev = Some EvLinkLost" | "ev \<noteq> Some EvLinkLost" "?d" "1024 < length acc + length ?p"
      | "ev \<noteq> Some EvLinkLost" "?d" "length acc + length ?p \<le> 1024" "\<not> nf_pbf f"
      | "ev \<noteq> Some EvLinkLost" "?d" "length acc + length ?p \<le> 1024" "nf_pbf f"
      | "ev \<noteq> Some EvLinkLost" "\<not> ?d" by linarith
    then show ?thesis
    proof cases
      case 1
      then show ?thesis using p Some e i y by (simp add: Let_def)
    next
      case 2
      then show ?thesis using p Some e i y by (simp add: Let_def hx_extend [OF vec])
    next
      case 3
      have "frame_ok f" using i(3) Some by (simp add: frame_sane_def)
      then have "?p \<noteq> []" using 3 by (auto simp: frame_ok_def)
      then show ?thesis using 3 p Some e i y by (simp add: Let_def hx_extend [OF vec] exchange_clock_def)
    next
      case 4
      have "length (acc @ ?p) \<le> 1024" using 4 by simp
      from again [OF y this] show ?thesis using 4 p Some e by (simp add: Let_def hx_extend [OF vec])
    next
      case 5
      then show ?thesis using again [OF y Suc.prems(4)] p Some e by (auto simp: Let_def)
    qed
  qed
qed simp

lemma exchange_time:
  assumes "t_inv t"
  shows "\<exists>r x t'. exchange_detailed hx ops conn apdu stall t = Some (r, x, t') \<and> t_inv t' \<and> exchange_clock stall x \<and>
    elapsed t' \<le> elapsed t + 2400 \<and> (\<forall>v. r = ExData v \<longrightarrow> v \<noteq> [] \<and> length v \<le> 1024)"
proof -
  obtain b t1 where s: "(if apdu = [] then send_fragment hx ops conn False [] t else (True, t)) = (b, t1)"
    by (cases "if apdu = [] then send_fragment hx ops conn False [] t else (True, t)") auto
  then have i: "t_inv t1" "elapsed t1 \<le> elapsed t"
    using assms by (auto simp: send_fragment_def split: prod.splits bool.splits if_splits dest: send_inv send_elapsed)
  from fragments_time [OF i(1) exchange_clock_start, of stall conn "chunks MAX_DATA_FRAGMENT apdu"] obtain r x t2 where
    f: "send_fragments hx ops stall conn (chunks MAX_DATA_FRAGMENT apdu) exchange_start t1 = Some (r, x, t2)" "t_inv t2"
      "exchange_clock stall x" "xs_budget x \<le> 12" "elapsed t2 \<le> elapsed t1 + 200 * (12 - xs_budget x)" "\<forall>v. r \<noteq> Inl (ExData v)"
    by (auto simp: exchange_start_def)
  from collect_time [OF f(2,3) refl, of "[]" conn 0] obtain q x' t' where
    c: "collect_loop hx ops stall conn (xs_budget x) 0 [] x t2 = Some (q, x', t')" "t_inv t'" "exchange_clock stall x'"
      "elapsed t' \<le> elapsed t2 + 200 * xs_budget x" "\<forall>v. q = ExData v \<longrightarrow> v \<noteq> [] \<and> length v \<le> 1024" by auto
  have t: "elapsed t2 \<le> elapsed t + 2400" "elapsed t' \<le> elapsed t + 2400" using f(4,5) c(4) i(2) by linarith+
  show ?thesis
  proof (cases b)
    case True
    then show ?thesis using s f c t by (cases r) (auto simp: exchange_detailed_def)
  next
    case False
    then show ?thesis using s i exchange_clock_start by (auto simp: exchange_detailed_def)
  qed
qed

end

sublocale nci_link \<subseteq> untimed: nci_clock hx ops t_inv "\<lambda>_. 0"
  by unfold_locales simp_all

interpretation mock_clock: nci_clock heapless_vec_list mock_link mock_sane mt_waited_ms
proof
  fix cmd t b t' assume "nt_send mock_link cmd t = (b, t')"
  then show "mt_waited_ms t' \<le> mt_waited_ms t" by (auto simp: mock_link_def mock_send_def Let_def split: list.splits)
next
  fix t r t' assume "nt_poll_frame mock_link t = (r, t')"
  then show "mt_waited_ms t' \<le> mt_waited_ms t"
    by (auto simp: mock_link_def mock_poll_frame_def Let_def split: list.splits option.splits if_splits)
next
  fix ms t show "mt_waited_ms (nt_wait_ms mock_link ms t) \<le> mt_waited_ms t + ms"
    by (simp add: mock_link_def mock_wait_ms_def Let_def split: list.split)
qed

text \<open>C11: An exchange never outlasts its budget.  On any link whose frames the parsers accept it returns without a
  panic, after at most 2400 ms of waiting in at most twelve rounds, however long the controller stalls,
  however many fragments the APDU has and whatever else arrives.  The stall hook, when installed, is told
  exactly once, of 1600 ms, and only when the exchange has waited eight rounds.  A response is never empty
  and never longer than 1024 bytes.\<close>

theorem exchange_time_bounded:
  assumes "nci_clock hx ops t_inv elapsed" and "t_inv t"
  shows "\<exists>r x t'. exchange_detailed hx ops conn_id apdu stall t = Some (r, x, t') \<and> t_inv t' \<and>
    elapsed t' \<le> elapsed t + 2400 \<and> xs_waited_rounds x \<le> DATA_COLLECT_ROUNDS \<and>
    xs_stalls x = (if stall \<and> 8 \<le> xs_waited_rounds x then [1600] else []) \<and>
    (\<forall>v. r = ExData v \<longrightarrow> v \<noteq> [] \<and> length v \<le> 1024)"
proof -
  from nci_clock.exchange_time [OF assms] obtain r x t' where
    r: "exchange_detailed hx ops conn_id apdu stall t = Some (r, x, t')" "t_inv t'" "exchange_clock stall x"
      "elapsed t' \<le> elapsed t + 2400" "\<forall>v. r = ExData v \<longrightarrow> v \<noteq> [] \<and> length v \<le> 1024" by blast
  have "xs_waited_rounds x \<le> DATA_COLLECT_ROUNDS" "xs_stalls x = (if stall \<and> 8 \<le> xs_waited_rounds x then [1600] else [])"
    using r(3) by (auto simp: exchange_clock_def split: if_splits)
  then show ?thesis using r by blast
qed

theorem exchange_time_bounded_witness:
  "\<exists>r x t'. exchange_detailed heapless_vec_list mock_link 0 [0x00, 0xA4] True mock_transport_new = Some (r, x, t') \<and>
     mt_waited_ms t' \<le> 2400"
proof -
  have "mock_sane mock_transport_new" by (simp add: mock_sane_def mock_transport_new_def)
  from exchange_time_bounded [OF mock_clock.nci_clock_axioms this, of 0 "[0x00, 0xA4]" True]
  show ?thesis by (force simp: mock_transport_new_def)
qed

section \<open>A controller that follows NCI\<close>

text \<open>The controller assembles the fragments of an APDU, grants the one credit of the connection again after
  each but the last, refuses a packet sent without a credit, and sends the card's answer as a chain of DATA
  packets.  Before each of its reactions it may be silent for some polls or send other notifications.\<close>

record nfcc =
  cc_apdu :: bytes
  cc_received :: "bytes list"
  cc_credit :: bool
  cc_queue :: "nci_frame option list"
  cc_noise :: "nci_frame option list list"

definition credit_frame :: nci_frame where
  "credit_frame = \<lparr>nf_mt = MT_NTF, nf_gid = GID_CORE, nf_oid = OID_CORE_CONN_CREDITS, nf_pbf = False,
     nf_payload = [1, 0, 1] @ replicate 252 0, nf_len = 3\<rparr>"

definition data_frame :: "bool \<Rightarrow> bytes \<Rightarrow> nci_frame" where
  "data_frame pbf p = \<lparr>nf_mt = MT_DATA, nf_gid = 0, nf_oid = 0, nf_pbf = pbf,
     nf_payload = p @ replicate (255 - length p) 0, nf_len = length p\<rparr>"

fun answer_frames :: "bytes list \<Rightarrow> nci_frame option list" where
  "answer_frames [] = []"
| "answer_frames (p # ps) = Some (data_frame (ps \<noteq> []) p) # answer_frames ps"

definition nfcc_send :: "(bytes \<Rightarrow> bytes list) \<Rightarrow> bytes \<Rightarrow> nfcc \<Rightarrow> bool \<times> nfcc" where
  "nfcc_send icc cmd c =
     (case data_decode cmd of
        None \<Rightarrow> (False, c)
      | Some d \<Rightarrow>
          if \<not> cc_credit c \<or> dp_conn_id d \<noteq> 0 then (False, c)
          else
            let apdu = cc_apdu c @ take (dp_len d) (dp_payload d);
                ns = (case cc_noise c of [] \<Rightarrow> [] | n # _ \<Rightarrow> n); c = c\<lparr>cc_noise := tl (cc_noise c)\<rparr>
            in if dp_fragmented d
               then (True, c\<lparr>cc_apdu := apdu, cc_credit := False, cc_queue := cc_queue c @ ns @ [Some credit_frame]\<rparr>)
               else (True, c\<lparr>cc_apdu := [], cc_received := cc_received c @ [apdu],
                             cc_queue := cc_queue c @ ns @ answer_frames (icc apdu)\<rparr>))"

definition nfcc_poll :: "nfcc \<Rightarrow> nci_frame option \<times> nfcc" where
  "nfcc_poll c =
     (case cc_queue c of
        [] \<Rightarrow> (None, c)
      | f # q \<Rightarrow>
          (f, c\<lparr>cc_queue := q, cc_credit := cc_credit c \<or> (case f of Some f \<Rightarrow> is_conn_credits_ntf f | None \<Rightarrow> False)\<rparr>))"

definition nfcc_link :: "(bytes \<Rightarrow> bytes list) \<Rightarrow> nfcc nci_transport" where
  "nfcc_link icc = \<lparr>nt_send = nfcc_send icc, nt_poll_frame = nfcc_poll, nt_transact = (\<lambda>cmd c. (None, c)),
     nt_drain = nfcc_poll, nt_wait_ms = (\<lambda>ms c. c), nt_link_probe = (\<lambda>c. (True, c))\<rparr>"

text \<open>What may arrive besides: no DATA, no loss of the link, nothing the parsers reject.\<close>

definition harmless :: "nci_frame option \<Rightarrow> bool" where
  "harmless q \<longleftrightarrow> (case q of None \<Rightarrow> True | Some f \<Rightarrow>
     frame_sane f \<and> nf_mt f \<noteq> MT_DATA \<and>
     \<not> (nf_mt f = MT_NTF \<and> nf_gid f = GID_RF \<and> nf_oid f = NTF_RF_DEACTIVATE \<and> 2 \<le> nf_len f \<and> reason_is_link_loss (nf_payload f ! 1)))"

definition no_credit :: "nci_frame option \<Rightarrow> bool" where
  "no_credit q \<longleftrightarrow> (case q of None \<Rightarrow> True | Some f \<Rightarrow> \<not> is_conn_credits_ntf f)"

lemma harmless_event:
  assumes "harmless (Some f)"
  shows "\<exists>ev. event_of hx f = Some ev \<and> ev \<noteq> Some EvLinkLost"
proof -
  from assms obtain ev where e: "event_of hx f = Some ev" using event_sane [of f hx] by (auto simp: harmless_def)
  moreover have "ev \<noteq> Some EvLinkLost"
    using e assms by (auto simp: event_of_def harmless_def bind_eq_Some_conv split: option.splits if_splits)
  ultimately show ?thesis by blast
qed

lemma data_frame_event: "event_of hx (data_frame pbf p) = Some None" "event_of hx credit_frame = Some None"
  by (simp_all add: event_of_def discover_decode_def activation_to_discover_def data_frame_def credit_frame_def)

lemma round_budget:
  "round_waited ops stall w x t = (x', t') \<Longrightarrow> xs_budget x' = xs_budget x \<and> t' = nt_wait_ms ops w t"
  by (auto simp: round_waited_def Let_def split: if_splits)

lemma credit_after_noise:
  assumes "list_all harmless ns" and "list_all no_credit ns" and "length ns < b" and "xs_budget x = b"
    and "cc_queue c = ns @ Some credit_frame # q"
  shows "\<exists>x'. credit_loop hx (nfcc_link icc) stall b k x c = Some (Inr True, x', c\<lparr>cc_queue := q, cc_credit := True\<rparr>) \<and>
    xs_budget x' = b - length ns"
  using assms
proof (induction ns arbitrary: b k x c)
  case Nil
  obtain b' where b: "b = Suc b'" using Nil.prems(3) by (cases b) auto
  have "is_conn_credits_ntf credit_frame" by (simp add: credit_frame_def is_conn_credits_ntf_def)
  then show ?case
    using Nil.prems b by (simp add: nfcc_link_def nfcc_poll_def Let_def data_frame_event)
next
  case (Cons n ns)
  obtain b' where b: "b = Suc b'" using Cons.prems(3) by (cases b) auto
  let ?L = "nfcc_link icc" and ?c = "c\<lparr>cc_queue := ns @ Some credit_frame # q\<rparr>"
  have p: "nt_poll_frame ?L c = (n, ?c)"
    using Cons.prems by (auto simp: nfcc_link_def nfcc_poll_def no_credit_def split: option.splits)
  have w: "nt_wait_ms ?L m ?c = ?c" for m by (simp add: nfcc_link_def)
  have again: "\<exists>x'. (let (x, t) = round_waited ?L stall (phase_wait k) (y\<lparr>xs_budget := b'\<rparr>) ?c
      in credit_loop hx ?L stall b' (k + 1) x t) = Some (Inr True, x', c\<lparr>cc_queue := q, cc_credit := True\<rparr>) \<and>
      xs_budget x' = b - length (n # ns)" for y
  proof -
    obtain y1 t2 where r: "round_waited ?L stall (phase_wait k) (y\<lparr>xs_budget := b'\<rparr>) ?c = (y1, t2)"
      by (cases "round_waited ?L stall (phase_wait k) (y\<lparr>xs_budget := b'\<rparr>) ?c") auto
    have y1: "xs_budget y1 = b'" "t2 = ?c" using round_budget [OF r] w by simp_all
    from Cons.IH [of b' y1 ?c "k + 1"] Cons.prems b y1 obtain x' where
      "credit_loop hx ?L stall b' (k + 1) y1 ?c = Some (Inr True, x', c\<lparr>cc_queue := q, cc_credit := True\<rparr>)" "xs_budget x' = b' - length ns"
      by auto
    then show ?thesis using r y1 b by simp
  qed
  show ?case
  proof (cases n)
    case None
    then show ?thesis using again [of x] p b by (simp only: credit_loop.simps Let_def prod.case option.case)
  next
    case (Some f)
    with Cons.prems(1,2) have "harmless (Some f)" "\<not> is_conn_credits_ntf f" by (simp_all add: no_credit_def)
    moreover then obtain ev where "event_of hx f = Some ev" "ev \<noteq> Some EvLinkLost" using harmless_event by blast
    ultimately show ?thesis
      using again [of "count_wtx f x"] p b Some
      by (simp only: credit_loop.simps Let_def prod.case option.case bind.simps if_False)
  qed
qed

lemma answer_after_noise:
  assumes "list_all harmless ns" and "length ns + length ps \<le> b" and "ps \<noteq> []" and "xs_budget x = b"
    and "cc_queue c = ns @ answer_frames ps" and "list_all (\<lambda>p. p \<noteq> [] \<and> length p \<le> 255) ps"
    and "length acc + length (concat ps) \<le> 1024" and "heapless_vec_ok hx" and "cc_credit c"
  shows "\<exists>x'. collect_loop hx (nfcc_link icc) stall 0 b k acc x c = Some (ExData (acc @ concat ps), x', c\<lparr>cc_queue := []\<rparr>)"
  using assms
proof (induction "ns @ answer_frames ps" arbitrary: ns ps b k acc x c)
  case Nil
  then show ?case by (cases ps) auto
next
  case (Cons n rest)
  obtain b' where b: "b = Suc b'" using Cons.prems(2,3) by (cases b; cases ps) auto
  let ?L = "nfcc_link icc" and ?c = "c\<lparr>cc_queue := rest\<rparr>"
  have p: "nt_poll_frame ?L c = (n, ?c)"
    using Cons.prems(5,9) Cons.hyps(2) [symmetric] by (auto simp: nfcc_link_def nfcc_poll_def split: option.splits)
  have again: "\<exists>x'. (let (x, t) = round_waited ?L stall (phase_wait k) (y\<lparr>xs_budget := b'\<rparr>) ?c
      in collect_loop hx ?L stall 0 b' (k + 1) acc' x t) = Some (ExData (acc' @ concat ps'), x', c\<lparr>cc_queue := []\<rparr>)"
    if "rest = ns' @ answer_frames ps'" "list_all harmless ns'" "length ns' + length ps' \<le> b'" "ps' \<noteq> []"
      "list_all (\<lambda>p. p \<noteq> [] \<and> length p \<le> 255) ps'" "length acc' + length (concat ps') \<le> 1024" for y acc' ns' ps'
  proof -
    obtain y1 t2 where r: "round_waited ?L stall (phase_wait k) (y\<lparr>xs_budget := b'\<rparr>) ?c = (y1, t2)"
      by (cases "round_waited ?L stall (phase_wait k) (y\<lparr>xs_budget := b'\<rparr>) ?c") auto
    have y1: "xs_budget y1 = b'" "t2 = ?c" using round_budget [OF r] by (simp_all add: nfcc_link_def)
    from Cons.hyps(1) [OF that(1) that(2,3,4) y1(1) _ that(5,6) Cons.prems(8), of ?c "k + 1"] that(1) Cons.prems(9) r y1
    show ?thesis by simp
  qed
  show ?case
  proof (cases ns)
    case ns: (Cons q ns')
    then have n: "n = q" "rest = ns' @ answer_frames ps" using Cons.hyps(2) by simp_all
    have h: "harmless n" "list_all harmless ns'" "length ns' + length ps \<le> b'" using Cons.prems ns n b by simp_all
    note again = again [OF n(2) h(2,3) Cons.prems(3,6,7)]
    show ?thesis
    proof (cases n)
      case None
      then show ?thesis using again [of x] p b by (simp only: collect_loop.simps Let_def prod.case option.case)
    next
      case (Some f)
      then obtain ev where ev: "event_of hx f = Some ev" "ev \<noteq> Some EvLinkLost" using h harmless_event by blast
      have "nf_mt f \<noteq> MT_DATA" using h Some by (simp add: harmless_def)
      then show ?thesis
        using again [of "count_wtx f x"] p b Some ev
        by (simp only: collect_loop.simps Let_def prod.case option.case bind.simps if_False simp_thms)
    qed
  next
    case Nil
    then obtain q ps' where ps: "ps = q # ps'" "n = Some (data_frame (ps' \<noteq> []) q)" "rest = answer_frames ps'"
      using Cons.hyps(2) by (cases ps) auto
    have q: "q \<noteq> []" "length q \<le> 255" using Cons.prems(6) ps by simp_all
    let ?f = "data_frame (ps' \<noteq> []) q"
    have f: "nf_mt ?f = MT_DATA" "nf_gid ?f = 0" "0 < nf_len ?f" "take (nf_len ?f) (nf_payload ?f) = q" "nf_pbf ?f = (ps' \<noteq> [])"
      using q by (simp_all add: data_frame_def)
    have e: "hx_extend_from_slice hx 1024 acc q = (True, acc @ q)"
      using Cons.prems(7) ps by (simp add: hx_extend [OF Cons.prems(8)])
    show ?thesis
    proof (cases "ps' = []")
      case True
      then show ?thesis using p ps b f e by (simp add: Let_def data_frame_event)
    next
      case False
      have "rest = [] @ answer_frames ps'" "length ([] :: nci_frame option list) + length ps' \<le> b'"
        using ps Cons.prems(2) b by simp_all
      from again [OF this(1) _ this(2) False, of "acc @ q" "count_wtx ?f x"] Cons.prems(6,7) ps have
        "\<exists>x'. (let (x, t) = round_waited ?L stall (phase_wait k) ((count_wtx ?f x)\<lparr>xs_budget := b'\<rparr>) ?c
           in collect_loop hx ?L stall 0 b' (k + 1) (acc @ q) x t) = Some (ExData (acc @ concat ps), x', c\<lparr>cc_queue := []\<rparr>)"
        by simp
      then show ?thesis
        using p ps b f e False
        by (simp only: collect_loop.simps Let_def prod.case option.case bind.simps if_False if_True bool.case
            data_frame_event option.distinct simp_thms)
    qed
  qed
qed

lemma fragment_encoded:
  assumes "heapless_vec_ok hx" and "length p \<le> 255"
  shows "encode_fragment hx conn pbf p =
    (True, [(conn AND CID_MASK) OR (if pbf then PBF_MASK else 0), 0, word_of_nat (length p)] @ p)"
  using assms by (simp add: encode_fragment_def hx_extend)

lemma octet0_fields:
  "((conn AND CID_MASK) OR (if pbf then PBF_MASK else 0)) AND CID_MASK = (conn :: u8) AND CID_MASK"
  "((conn AND CID_MASK) OR (if pbf then PBF_MASK else 0)) AND PBF_MASK \<noteq> 0 \<longleftrightarrow> pbf"
  by (simp_all add: bit.conj_disj_distrib2 and.assoc)

lemma fragment_roundtrip:
  assumes "heapless_vec_ok hx" and "length p \<le> 255"
  shows "data_decode (snd (encode_fragment hx conn pbf p)) =
    Some \<lparr>dp_conn_id = conn AND CID_MASK, dp_fragmented = pbf, dp_payload = p @ replicate (255 - length p) 0, dp_len = length p\<rparr>"
proof -
  have "unat (word_of_nat (length p) :: u8) = length p" using assms(2) by (simp add: unat_of_nat)
  then show ?thesis using octet0_fields [of conn pbf] by (simp add: fragment_encoded [OF assms] data_decode_def Let_def)
qed

lemma nfcc_fragment:
  assumes "heapless_vec_ok hx" and "length p \<le> 255" and "cc_credit c" and "cc_queue c = []" and "cc_noise c = n # ns"
  shows "send_fragment hx (nfcc_link icc) 0 pbf p c =
    (True, if pbf
       then c\<lparr>cc_apdu := cc_apdu c @ p, cc_credit := False, cc_noise := ns, cc_queue := n @ [Some credit_frame]\<rparr>
       else c\<lparr>cc_apdu := [], cc_received := cc_received c @ [cc_apdu c @ p], cc_noise := ns,
              cc_queue := n @ answer_frames (icc (cc_apdu c @ p))\<rparr>)"
proof -
  let ?raw = "snd (encode_fragment hx 0 pbf p)"
  have "encode_fragment hx 0 pbf p = (True, ?raw)" by (simp add: fragment_encoded [OF assms(1,2)])
  moreover have "nfcc_send icc ?raw c = (True, if pbf
       then c\<lparr>cc_apdu := cc_apdu c @ p, cc_credit := False, cc_noise := ns, cc_queue := n @ [Some credit_frame]\<rparr>
       else c\<lparr>cc_apdu := [], cc_received := cc_received c @ [cc_apdu c @ p], cc_noise := ns,
              cc_queue := n @ answer_frames (icc (cc_apdu c @ p))\<rparr>)"
    unfolding nfcc_send_def fragment_roundtrip [OF assms(1,2)] option.case using assms(3-5) by (simp add: Let_def)
  ultimately show ?thesis
    unfolding send_fragment_def nfcc_link_def nci_transport.simps by (metis (no_types, lifting) case_prod_conv bool.case(1))
qed

lemma fragments_delivered:
  assumes "heapless_vec_ok hx" and "fs \<noteq> []" and "list_all (\<lambda>p. length p \<le> 255) fs" and "cc_credit c" and "cc_queue c = []"
    and "cc_noise c = ns @ n # rest" and "length ns = length fs - 1"
    and "list_all (\<lambda>q. list_all harmless q \<and> list_all no_credit q) ns" and "length (concat ns) < xs_budget x"
  shows "\<exists>x'. send_fragments hx (nfcc_link icc) stall 0 fs x c =
      Some (Inr (), x', c\<lparr>cc_apdu := [], cc_received := cc_received c @ [cc_apdu c @ concat fs], cc_noise := rest,
        cc_queue := n @ answer_frames (icc (cc_apdu c @ concat fs))\<rparr>) \<and>
    xs_budget x' = xs_budget x - length (concat ns)"
  using assms
proof (induction fs arbitrary: c ns x)
  case (Cons f fs)
  have f: "length f \<le> 255" using Cons.prems(3) by simp
  show ?case
  proof (cases fs)
    case Nil
    then have "ns = []" using Cons.prems(7) by simp
    then show ?thesis
      using Nil nfcc_fragment [OF assms(1) f Cons.prems(4,5), of n rest icc False] Cons.prems(6) by simp
  next
    case (Cons g gs)
    then obtain m ns' where ns: "ns = m # ns'" using Cons.prems(7) by (cases ns) auto
    let ?L = "nfcc_link icc"
    let ?c = "c\<lparr>cc_apdu := cc_apdu c @ f, cc_credit := False, cc_noise := ns' @ n # rest, cc_queue := m @ [Some credit_frame]\<rparr>"
    let ?d = "c\<lparr>cc_apdu := cc_apdu c @ f, cc_noise := ns' @ n # rest\<rparr>"
    have s: "send_fragment hx ?L 0 True f c = (True, ?c)"
      using nfcc_fragment [OF assms(1) f Cons.prems(4,5), of m "ns' @ n # rest" icc True] Cons.prems(6) ns by simp
    have m: "list_all harmless m" "list_all no_credit m" "length m < xs_budget x" using Cons.prems(8,9) ns by simp_all
    have cr: "?c\<lparr>cc_queue := [], cc_credit := True\<rparr> = ?d" using Cons.prems(4,5) by simp
    from credit_after_noise [OF m refl, of ?c "[]" hx icc stall 0] obtain x1 where
      x1: "credit_loop hx ?L stall (xs_budget x) 0 x ?c = Some (Inr True, x1, ?d)" "xs_budget x1 = xs_budget x - length m"
      unfolding cr by auto
    have "length (concat ns') < xs_budget x1" using Cons.prems(9) ns x1 by simp
    from Cons.IH [OF assms(1) _ _ _ _ _ _ _ this, of ?d] Cons.prems \<open>fs = g # gs\<close> ns obtain x' where
      x': "send_fragments hx ?L stall 0 fs x1 ?d =
        Some (Inr (), x', ?d\<lparr>cc_apdu := [], cc_received := cc_received c @ [(cc_apdu c @ f) @ concat fs], cc_noise := rest,
        cc_queue := n @ answer_frames (icc ((cc_apdu c @ f) @ concat fs))\<rparr>)" "xs_budget x' = xs_budget x1 - length (concat ns')"
      by auto
    then show ?thesis using s x1 \<open>fs = g # gs\<close> ns by auto
  qed
qed simp

lemma concat_chunks: "0 < n \<Longrightarrow> concat (chunks n xs) = xs"
  by (induction n xs rule: chunks.induct) (subst chunks.simps, auto)

lemma chunks_bounded: "list_all (\<lambda>p. p \<noteq> [] \<and> length p \<le> n) (chunks n xs)"
  by (induction n xs rule: chunks.induct) (subst chunks.simps, auto)

lemma chunks_Nil_iff: "0 < n \<Longrightarrow> chunks n xs = [] \<longleftrightarrow> xs = []"
  by (subst chunks.simps) simp

lemma length_chunks: "0 < n \<Longrightarrow> length (chunks n xs) = (length xs + n - 1) div n"
proof (induction n xs rule: chunks.induct)
  case (1 n xs)
  show ?case
  proof (cases "xs = []")
    case False
    then have "length (chunks n xs) = Suc ((length (drop n xs) + n - 1) div n)"
      using 1 by (subst chunks.simps) simp
    also have "\<dots> = (length xs + n - 1) div n"
    proof (cases "n \<le> length xs")
      case True
      then have "length xs + n - 1 = (length xs - n + n - 1) + n" using "1.prems" by simp
      then show ?thesis using "1.prems" by (simp only: length_drop div_add_self2)
    next
      case l: False
      have "0 < length xs" using False by simp
      then obtain k where k: "length xs = Suc k" by (cases "length xs") auto
      have "(k + n) div n = 1" using l k by (simp add: div_add_self2)
      then have "(length xs + n - 1) div n = 1" using k by simp
      then show ?thesis using l "1.prems" by simp
    qed
    finally show ?thesis .
  qed (use "1.prems" in \<open>simp add: chunks.simps\<close>)
qed

lemma exchange_delivered:
  assumes "heapless_vec_ok hx" and "cc_credit c" and "cc_queue c = []" and "cc_apdu c = []"
    and "cc_noise c = ns @ n # rest" and "length ns = (length apdu - 1) div MAX_DATA_FRAGMENT"
    and "list_all (\<lambda>q. list_all harmless q \<and> list_all no_credit q) ns" and "list_all harmless n"
    and "icc apdu = ps" and "ps \<noteq> []" and "list_all (\<lambda>p. p \<noteq> [] \<and> length p \<le> 255) ps"
    and "length (concat ps) \<le> 1024" and "length (concat ns) + length n + length ps \<le> DATA_COLLECT_ROUNDS"
  shows "\<exists>x. exchange_detailed hx (nfcc_link icc) 0 apdu stall c =
    Some (ExData (concat ps), x, c\<lparr>cc_received := cc_received c @ [apdu], cc_noise := rest\<rparr>)"
proof -
  let ?L = "nfcc_link icc" and ?fs = "chunks MAX_DATA_FRAGMENT apdu"
  let ?d = "c\<lparr>cc_received := cc_received c @ [apdu], cc_noise := rest, cc_queue := n @ answer_frames ps\<rparr>"
  have final: "\<exists>x'. collect_loop hx ?L stall 0 (xs_budget x) 0 [] x ?d = Some (ExData (concat ps), x', c\<lparr>cc_received := cc_received c @ [apdu], cc_noise := rest\<rparr>)"
    if "xs_budget x = DATA_COLLECT_ROUNDS - length (concat ns)" for x
  proof -
    have "length n + length ps \<le> xs_budget x" using assms(13) that by simp
    from answer_after_noise [OF assms(8) this assms(10) refl _ assms(11) _ assms(1), of ?d "[]" icc stall 0] assms(2,12) obtain x' where
      "collect_loop hx ?L stall 0 (xs_budget x) 0 [] x ?d = Some (ExData (concat ps), x', ?d\<lparr>cc_queue := []\<rparr>)" by auto
    moreover have "?d\<lparr>cc_queue := []\<rparr> = c\<lparr>cc_received := cc_received c @ [apdu], cc_noise := rest\<rparr>"
      using assms(3) by (cases c) simp
    ultimately show ?thesis by auto
  qed
  show ?thesis
  proof (cases "apdu = []")
    case True
    then have ns: "ns = []" using assms(6) by simp
    have "send_fragment hx ?L 0 False [] c = (True, ?d)"
      using nfcc_fragment [OF assms(1) _ assms(2,3), of "[]" n rest icc False] assms(4,5,9) ns True by simp
    moreover have "?fs = []" using True by (simp add: chunks.simps)
    ultimately show ?thesis
      using final [of exchange_start] True ns by (simp add: exchange_detailed_def exchange_start_def)
  next
    case False
    have l: "length ns = length ?fs - 1"
    proof -
      have "length apdu + 253 - 1 = (length apdu - 1) + 253" using False by (cases apdu) simp_all
      then have "length ?fs = Suc ((length apdu - 1) div 253)" by (simp add: length_chunks)
      then show ?thesis using assms(6) by simp
    qed
    have fs: "?fs \<noteq> []" "list_all (\<lambda>p. length p \<le> 255) ?fs"
      using False chunks_bounded [of 253 apdu] by (auto simp: chunks_Nil_iff list_all_iff)
    have bud: "length (concat ns) < xs_budget exchange_start" using assms(10,13) by (cases ps) (auto simp: exchange_start_def)
    from fragments_delivered [OF assms(1) fs assms(2,3,5) l assms(7) bud, of icc stall] obtain x1 where
      "send_fragments hx ?L stall 0 ?fs exchange_start c = Some (Inr (), x1, ?d)" "xs_budget x1 = DATA_COLLECT_ROUNDS - length (concat ns)"
      using assms(4,9) by (auto simp: concat_chunks exchange_start_def)
    then show ?thesis using final [of x1] False by (simp add: exchange_detailed_def)
  qed
qed

text \<open>C10: An APDU reaches the card and its answer the reader.  Against a controller that follows NCI, with one
  credit per connection that it refuses to overdraw, an APDU of any length, the empty one included, arrives
  at the card byte for byte and once, and the exchange returns the card's answer, in however many DATA
  packets it comes, as long as the answer fits 1024 bytes and the silent polls, foreign notifications and
  answer packets together stay within the twelve rounds of the budget.\<close>

theorem nci_exchange_delivers:
  assumes "heapless_vec_ok hx" and "cc_credit c" and "cc_queue c = []" and "cc_apdu c = []"
    and "cc_noise c = ns @ n # rest" and "length ns = (length apdu - 1) div MAX_DATA_FRAGMENT"
    and "list_all (\<lambda>q. list_all harmless q \<and> list_all no_credit q) ns" and "list_all harmless n"
    and "icc apdu = ps" and "ps \<noteq> []" and "list_all (\<lambda>p. p \<noteq> [] \<and> length p \<le> 255) ps"
    and "length (concat ps) \<le> 1024" and "length (concat ns) + length n + length ps \<le> DATA_COLLECT_ROUNDS"
  shows "\<exists>x. exchange_detailed hx (nfcc_link icc) 0 apdu stall c =
    Some (ExData (concat ps), x, c\<lparr>cc_received := cc_received c @ [apdu], cc_noise := rest\<rparr>)"
  by (rule exchange_delivered [where icc = icc, OF assms])

theorem nci_exchange_delivers_witness:
  "\<exists>x. exchange_detailed heapless_vec_list (nfcc_link (\<lambda>a. [[0x61], [0x90, 0x00]])) 0 (replicate 300 0x5A) True
     \<lparr>cc_apdu = [], cc_received = [], cc_credit = True, cc_queue = [], cc_noise = [[None], [None, None]]\<rparr> =
   Some (ExData [0x61, 0x90, 0x00], x,
     \<lparr>cc_apdu = [], cc_received = [replicate 300 0x5A], cc_credit = True, cc_queue = [], cc_noise = []\<rparr>)"
proof -
  have h: "harmless None" "no_credit None" by (simp_all add: harmless_def no_credit_def)
  show ?thesis
    using nci_exchange_delivers [of heapless_vec_list
      "\<lparr>cc_apdu = [], cc_received = [], cc_credit = True, cc_queue = [], cc_noise = [[None], [None, None]]\<rparr>"
      "[[None]]" "[None, None]" "[]" "replicate 300 0x5A" "\<lambda>a. [[0x61], [0x90, 0x00]]" "[[0x61], [0x90, 0x00]]" True]
    by (simp add: heapless_vec_list_ok h)
qed

end
