(* ===== verification/Pn7160_Facts.thy ===== *)
theory Pn7160_Facts
  imports Pn7160_Driver Nci_Exchange
begin

text \<open>
  The invariant of the PN7160 driver and its preservation by every operation, on any link that meets the
  contract \<open>nci_link\<close>: no operation panics, the re-arm machine stays within its bounds, and a cached ATS
  always belongs to a cached notification.
\<close>

section \<open>Invariant\<close>

definition rearm_ok :: "rearm_phase \<Rightarrow> bool" where
  "rearm_ok r \<longleftrightarrow> (case r of AwaitRsp p \<Rightarrow> p < REARM_RSP_POLLS | AwaitNtf p \<Rightarrow> p < REARM_NTF_POLLS | DiscoverProbeRsp p \<Rightarrow> p < REARM_RSP_POLLS)"

definition pn_ok :: "('t \<Rightarrow> bool) \<Rightarrow> 't pn7160 \<Rightarrow> bool" where
  "pn_ok t_inv d \<longleftrightarrow> t_inv (pn_transport d) \<and> length (pn_uid d) = 10 \<and> pn_uid_len d \<le> 10 \<and>
     pn_absent_rearms d < ABSENT_REARMS_TO_CLEAR \<and> pred_option rearm_ok (pn_rearm d) \<and>
     pred_option ntf_sane (pn_last_ntf d) \<and> (pn_last_auto_ats d \<noteq> None \<longrightarrow> pn_last_ntf d \<noteq> None)"

lemma pn_new_ok: "t_inv t \<Longrightarrow> pn_ok t_inv (pn_new t)"
  by (simp add: pn_ok_def pn_new_def)

lemma latch_ok: "pn_ok t_inv d \<Longrightarrow> ntf_sane n \<Longrightarrow> pn_ok t_inv (latch_tag n ats d)"
  and clear_ok: "pn_ok t_inv d \<Longrightarrow> pn_ok t_inv (clear_tag d)"
  and teardown_ok: "pn_ok t_inv d \<Longrightarrow> pn_ok t_inv (teardown_on_link_loss d)"
  and close_ok: "pn_ok t_inv d \<Longrightarrow> pn_ok t_inv (close_session d)"
  by (simp_all add: pn_ok_def latch_tag_def clear_tag_def teardown_on_link_loss_def close_session_def)

lemma transport_ok: "pn_ok t_inv d \<Longrightarrow> t_inv t \<Longrightarrow> pn_ok t_inv (d\<lparr>pn_transport := t\<rparr>)"
  by (simp add: pn_ok_def)

lemma absorb_ok: "pn_ok t_inv d \<Longrightarrow> (\<And>n ats. ev = EvTag n ats \<Longrightarrow> ntf_sane n) \<Longrightarrow> pn_ok t_inv (absorb_event ev d)"
  by (cases ev) (simp_all add: absorb_event_def latch_ok clear_ok)

lemma active_fields [field_rules]:
  "pn_active (latch_tag n ats d) = pn_active d" "pn_active (clear_tag d) = pn_active d"
  "pn_active (absorb_event ev d) = pn_active d"
  "pn_active (advance_or_give_up p d) = pn_active d" "pn_active (advance_probe_or_give_up p d) = pn_active d"
  by (auto simp: latch_tag_def clear_tag_def absorb_event_def advance_or_give_up_def advance_probe_or_give_up_def
      split: tag_event.split)

lemma absorb_or_ok:
  assumes "pn_ok t_inv d" and "\<And>n ats. ev = Some (EvTag n ats) \<Longrightarrow> ntf_sane n" and "pn_ok t_inv e" and "pn_active e = pn_active d"
  shows "pn_ok t_inv (case ev of Some x \<Rightarrow> absorb_event x d | None \<Rightarrow> e) \<and>
    pn_active (case ev of Some x \<Rightarrow> absorb_event x d | None \<Rightarrow> e) = pn_active d"
proof (cases ev)
  case (Some x)
  then have "pn_ok t_inv (absorb_event x d)" using assms(2) by (intro absorb_ok [OF assms(1)]) simp
  then show ?thesis using Some by (simp add: field_rules)
qed (use assms in simp)

lemma two_polls: "p < (2 :: u8) \<Longrightarrow> \<not> 2 \<le> p + 1 \<Longrightarrow> p + 1 < 2"
  by (simp add: not_le)

lemma advance_ok: "pn_ok t_inv d \<Longrightarrow> pn_ok t_inv (advance_or_give_up p d)"
  and advance_probe_ok: "pn_ok t_inv d \<Longrightarrow> pn_ok t_inv (advance_probe_or_give_up p d)"
  by (auto simp: advance_or_give_up_def advance_probe_or_give_up_def pn_ok_def rearm_ok_def not_le)

lemma absent_once: "a < (2 :: u8) \<Longrightarrow> \<not> 2 \<le> saturating_add8 a 1 \<Longrightarrow> saturating_add8 a 1 < 2"
  by (simp add: not_le)

context nci_link
begin

lemma frame_polled:
  assumes "t_inv t" and "nt_poll_frame ops t = (Some f, t')"
  obtains ev where "event_of hx f = Some ev" "\<And>n ats. ev = Some (EvTag n ats) \<Longrightarrow> ntf_sane n" "t_inv t'"
  using event_sane [of f hx] poll_inv [OF assms] by blast

lemma step_await_rsp_ok:
  assumes "pn_ok t_inv d"
  shows "\<exists>d'. step_await_rsp hx ops p d = Some d' \<and> pn_ok t_inv d' \<and> pn_active d' = pn_active d"
proof -
  have i: "t_inv (pn_transport d)" using assms by (simp add: pn_ok_def)
  obtain q t where p: "nt_poll_frame ops (pn_transport d) = (q, t)" by (cases "nt_poll_frame ops (pn_transport d)") auto
  then have t: "t_inv t" using poll_inv [OF i] by blast
  have d: "pn_ok t_inv (d\<lparr>pn_transport := t\<rparr>)" using assms t by (rule transport_ok)
  show ?thesis
  proof (cases q)
    case None
    then show ?thesis using p advance_ok [OF d] by (simp add: step_await_rsp_def advance_or_give_up_def)
  next
    case (Some f)
    obtain b t' where s: "nt_send ops RF_DISCOVER_PASSIVE_A t = (b, t')" by (cases "nt_send ops RF_DISCOVER_PASSIVE_A t") auto
    have t': "t_inv t'" using send_inv [OF t s] .
    obtain ev where e: "event_of hx f = Some ev" "\<And>n ats. ev = Some (EvTag n ats) \<Longrightarrow> ntf_sane n"
      using frame_polled [OF i] p Some by metis
    show ?thesis
    proof (cases "is_rsp_to RF_DEACTIVATE_DISCOVERY f")
      case True
      then show ?thesis
        using p Some s d t' assms
        by (cases b; cases "frame_status f = Some STATUS_OK") (simp_all add: step_await_rsp_def pn_ok_def rearm_ok_def)
    next
      case False
      have "pn_active (advance_or_give_up p (d\<lparr>pn_transport := t\<rparr>)) = pn_active (d\<lparr>pn_transport := t\<rparr>)"
        by (rule active_fields)
      from absorb_or_ok [OF d _ advance_ok [OF d] this, of ev] e(2) False p Some e(1) show ?thesis
        by (simp add: step_await_rsp_def Let_def)
    qed
  qed
qed

lemma step_probe_rsp_ok:
  assumes "pn_ok t_inv d"
  shows "\<exists>d'. step_probe_rsp hx ops p d = Some d' \<and> pn_ok t_inv d' \<and> pn_active d' = pn_active d"
proof -
  have i: "t_inv (pn_transport d)" using assms by (simp add: pn_ok_def)
  obtain q t where p: "nt_poll_frame ops (pn_transport d) = (q, t)" by (cases "nt_poll_frame ops (pn_transport d)") auto
  then have t: "t_inv t" using poll_inv [OF i] by blast
  have d: "pn_ok t_inv (d\<lparr>pn_transport := t\<rparr>)" using assms t by (rule transport_ok)
  show ?thesis
  proof (cases q)
    case None
    then show ?thesis using p advance_probe_ok [OF d] by (simp add: step_probe_rsp_def field_rules)
  next
    case (Some f)
    obtain ev where e: "event_of hx f = Some ev" "\<And>n ats. ev = Some (EvTag n ats) \<Longrightarrow> ntf_sane n"
      using frame_polled [OF i] p Some by metis
    show ?thesis
    proof (cases "is_rsp_to RF_DISCOVER_PASSIVE_A f")
      case True
      then show ?thesis using p Some d by (auto simp: step_probe_rsp_def pn_ok_def rearm_ok_def)
    next
      case False
      have "pn_active (advance_probe_or_give_up p (d\<lparr>pn_transport := t\<rparr>)) = pn_active (d\<lparr>pn_transport := t\<rparr>)"
        by (rule active_fields)
      from absorb_or_ok [OF d _ advance_probe_ok [OF d] this, of ev] e(2) False p Some e(1) show ?thesis
        by (simp add: step_probe_rsp_def Let_def)
    qed
  qed
qed

lemma step_await_ntf_ok:
  assumes "pn_ok t_inv d" and "p < REARM_NTF_POLLS"
  shows "pn_ok t_inv (step_await_ntf ops p d) \<and> pn_active (step_await_ntf ops p d) = pn_active d"
proof (cases "REARM_NTF_POLLS \<le> p + 1")
  case False
  then have "step_await_ntf ops p d = d\<lparr>pn_rearm := Some (AwaitNtf (p + 1))\<rparr>" by (simp only: step_await_ntf_def if_False)
  moreover have "p + 1 < REARM_NTF_POLLS" using False by (simp only: not_le)
  ultimately show ?thesis using assms by (simp add: pn_ok_def rearm_ok_def)
next
  case True
  define d1 where "d1 = d\<lparr>pn_rearm := None, pn_polls_since_ntf := 0, pn_absent_rearms := saturating_add8 (pn_absent_rearms d) 1\<rparr>"
  define d2 where "d2 = (if ABSENT_REARMS_TO_CLEAR \<le> pn_absent_rearms d1
    then d1\<lparr>pn_last_ntf := None, pn_last_auto_ats := None, pn_absent_rearms := 0, pn_discovery_parked := True\<rparr> else d1)"
  have d2: "pn_ok t_inv d2" "pn_active d2 = pn_active d" using assms(1) by (auto simp: d1_def d2_def pn_ok_def not_le)
  have e: "step_await_ntf ops p d = (if pn_probe_armed d2 then
      (case nt_send ops RF_DISCOVER_PASSIVE_A (pn_transport d2) of
         (True, t) \<Rightarrow> d2\<lparr>pn_transport := t, pn_probe_armed := False, pn_rearm := Some (DiscoverProbeRsp 0)\<rparr>
       | (False, t) \<Rightarrow> d2\<lparr>pn_transport := t\<rparr>) else d2)"
    using True by (simp only: step_await_ntf_def Let_def d1_def d2_def if_True)
  have "t_inv t" if "nt_send ops RF_DISCOVER_PASSIVE_A (pn_transport d2) = (b, t)" for b t
    using send_inv [OF _ that] d2 by (simp add: pn_ok_def)
  then show ?thesis unfolding e using d2 by (auto simp: pn_ok_def rearm_ok_def split: prod.split bool.split)
qed

lemma step_rearm_ok:
  assumes "pn_ok t_inv d"
  shows "\<exists>d'. step_rearm hx ops d = Some d' \<and> pn_ok t_inv d' \<and> pn_active d' = pn_active d"
proof (cases "pn_rearm d")
  case None
  then show ?thesis using assms by (simp add: step_rearm_def)
next
  case (Some r)
  show ?thesis
  proof (cases r)
    case (AwaitRsp p)
    then show ?thesis using Some step_await_rsp_ok [OF assms] by (simp add: step_rearm_def)
  next
    case (AwaitNtf p)
    then have "p < REARM_NTF_POLLS" using Some assms by (simp add: pn_ok_def rearm_ok_def)
    then show ?thesis using Some AwaitNtf step_await_ntf_ok [OF assms] by (simp add: step_rearm_def)
  next
    case (DiscoverProbeRsp p)
    then show ?thesis using Some step_probe_rsp_ok [OF assms] by (simp add: step_rearm_def)
  qed
qed

lemma start_rearm_ok: "pn_ok t_inv d \<Longrightarrow> pn_ok t_inv (start_rearm ops d) \<and> pn_active (start_rearm ops d) = pn_active d"
  by (auto simp: start_rearm_def pn_ok_def rearm_ok_def split: prod.split bool.split dest: send_inv)

lemma present_quiet_ok:
  assumes "pn_ok t_inv d" and "present_quiet ops d = (b, d')"
  shows "pn_ok t_inv d' \<and> pn_active d' = pn_active d"
proof -
  have d: "pn_ok t_inv (d\<lparr>pn_polls_since_ntf := n\<rparr>)" for n using assms(1) by (simp add: pn_ok_def)
  show ?thesis
    using assms d start_rearm_ok [of "d\<lparr>pn_polls_since_ntf := 0\<rparr>"]
    by (auto simp: present_quiet_def Let_def split: if_splits)
qed

lemma is_card_present_ok:
  assumes "pn_ok t_inv d"
  shows "\<exists>b d'. is_card_present hx ops d = Some (b, d') \<and> pn_ok t_inv d' \<and> (pn_active d' \<longrightarrow> pn_active d)"
proof (cases "pn_active d")
  case True
  have "t_inv (pn_transport d)" using assms by (simp add: pn_ok_def)
  from event_waited [OF this] obtain ev t where
    e: "wait_for_event hx ops (pn_transport d) = Some (ev, t)" "t_inv t" "\<And>m ats. ev = Some (EvTag m ats) \<Longrightarrow> ntf_sane m" by blast
  have d: "pn_ok t_inv (d\<lparr>pn_transport := t\<rparr>)" using assms e(2) by (rule transport_ok)
  show ?thesis
    using True e d latch_ok [OF d] teardown_ok [OF d]
    by (auto simp: is_card_present_def present_active_def Let_def split: option.split tag_event.split)
next
  case False
  from step_rearm_ok [OF assms] obtain d1 where d1: "step_rearm hx ops d = Some d1" "pn_ok t_inv d1" "\<not> pn_active d1"
    using False by auto
  have "t_inv (pn_transport d1)" using d1 by (simp add: pn_ok_def)
  from event_waited [OF this] obtain ev t where
    e: "wait_for_event hx ops (pn_transport d1) = Some (ev, t)" "t_inv t" "\<And>m ats. ev = Some (EvTag m ats) \<Longrightarrow> ntf_sane m" by blast
  have d: "pn_ok t_inv (d1\<lparr>pn_transport := t\<rparr>)" using d1(2) e(2) by (rule transport_ok)
  obtain b d2 where q: "present_quiet ops (d1\<lparr>pn_transport := t\<rparr>) = (b, d2)"
    by (cases "present_quiet ops (d1\<lparr>pn_transport := t\<rparr>)") auto
  show ?thesis
    using False d1 e d q latch_ok [OF d] clear_ok [OF d] present_quiet_ok [OF d q]
    by (auto simp: is_card_present_def Let_def field_rules split: option.split tag_event.split)
qed

lemma poll_maintenance_ok:
  assumes "pn_ok t_inv d"
  shows "\<exists>d'. poll_maintenance hx ops now d = Some d' \<and> pn_ok t_inv d' \<and> pn_active d' = pn_active d"
proof -
  from step_rearm_ok [OF assms] obtain d1 where d1: "step_rearm hx ops d = Some d1" "pn_ok t_inv d1" "pn_active d1 = pn_active d"
    by blast
  have "t_inv (pn_transport d1)" using d1 by (simp add: pn_ok_def)
  from event_waited [OF this] obtain ev t where
    e: "wait_for_event hx ops (pn_transport d1) = Some (ev, t)" "t_inv t" "\<And>m ats. ev = Some (EvTag m ats) \<Longrightarrow> ntf_sane m" by blast
  have d: "pn_ok t_inv (d1\<lparr>pn_transport := t\<rparr>)" using d1(2) e(2) by (rule transport_ok)
  define d2 where "d2 = (case ev of Some (EvTag n ats) \<Rightarrow> latch_tag n ats (d1\<lparr>pn_transport := t\<rparr>)
    | Some EvLinkLost \<Rightarrow> clear_tag (d1\<lparr>pn_transport := t\<rparr>) | None \<Rightarrow> d1\<lparr>pn_transport := t\<rparr>)"
  have d2: "pn_ok t_inv d2" "pn_active d2 = pn_active d"
    using d latch_ok [OF d] clear_ok [OF d] e(3) d1(3) by (auto simp: d2_def field_rules split: option.split tag_event.split)
  have s: "t_inv t'" if "nt_send ops RF_DEACTIVATE_DISCOVERY (pn_transport d2) = (b, t')" for b t'
    using send_inv [OF _ that] d2 by (simp add: pn_ok_def)
  have "poll_maintenance hx ops now d =
    (if \<not> pn_discovery_parked d2 \<or> pn_rearm d2 \<noteq> None then Some d2
     else if \<not> (case pn_last_rearm_ms d2 of Some since \<Rightarrow> PARKED_REARM_MS \<le> now - since | None \<Rightarrow> True) then Some d2
     else Some (case nt_send ops RF_DEACTIVATE_DISCOVERY (pn_transport d2) of
                  (True, t) \<Rightarrow> d2\<lparr>pn_transport := t, pn_last_rearm_ms := Some now, pn_rearm := Some (AwaitRsp 0)\<rparr>
                | (False, t) \<Rightarrow> d2\<lparr>pn_transport := t\<rparr>))"
    unfolding poll_maintenance_def d1(1) bind.bind_lunit e(1) prod.case Let_def d2_def [symmetric] by (rule refl)
  then show ?thesis using d2 s by (auto simp: pn_ok_def rearm_ok_def split: prod.split bool.split)
qed

lemma collect_activation_ok:
  assumes "pn_ok t_inv d"
  shows "\<exists>r d'. collect_activation hx ops n d = Some (r, d') \<and> pn_ok t_inv d' \<and> pn_active d' = pn_active d \<and>
    (\<forall>m ats. r = Inr (Some (m, ats)) \<longrightarrow> ntf_sane m)"
  using assms
proof (induction n arbitrary: d)
  case 0
  have "t_inv (pn_transport d)" using 0 by (simp add: pn_ok_def)
  from event_waited [OF this] obtain ev t where
    e: "wait_for_event hx ops (pn_transport d) = Some (ev, t)" "t_inv t" "\<And>m ats. ev = Some (EvTag m ats) \<Longrightarrow> ntf_sane m" by blast
  have d: "pn_ok t_inv (d\<lparr>pn_transport := t\<rparr>)" using 0 e(2) by (rule transport_ok)
  show ?case using e d clear_ok [OF d]
    by (subst collect_activation.simps) (auto simp: pn_ok_def field_rules Let_def split: option.split tag_event.split)
next
  case (Suc n)
  have "t_inv (pn_transport d)" using Suc.prems by (simp add: pn_ok_def)
  from event_waited [OF this] obtain ev t where
    e: "wait_for_event hx ops (pn_transport d) = Some (ev, t)" "t_inv t" "\<And>m ats. ev = Some (EvTag m ats) \<Longrightarrow> ntf_sane m" by blast
  have d: "pn_ok t_inv (d\<lparr>pn_transport := t\<rparr>)" using Suc.prems e(2) by (rule transport_ok)
  let ?d = "d\<lparr>pn_transport := t, pn_collect_rounds := pn_collect_rounds d + 1, pn_transport := nt_wait_ms ops 150 t\<rparr>"
  have w: "pn_ok t_inv ?d" using Suc.prems wait_inv [OF e(2)] by (simp add: pn_ok_def)
  show ?case
  proof (cases ev)
    case None
    then show ?thesis using e Suc.IH [OF w] by (subst collect_activation.simps) (simp add: Let_def)
  next
    case (Some x)
    then show ?thesis using e d clear_ok [OF d]
      by (subst collect_activation.simps) (auto simp: pn_ok_def field_rules Let_def split: tag_event.split)
  qed
qed

lemma store_uid_ok:
  assumes "pn_ok t_inv d" and "ntf_sane n"
  shows "\<exists>d'. store_uid n d = Some d' \<and> pn_ok t_inv d' \<and> pn_active d' = pn_active d"
proof -
  obtain u where "nfca_uid n = Some u" using assms(2) by (auto simp: ntf_sane_def)
  then show ?thesis using assms(1) by (auto simp: store_uid_def pn_ok_def Let_def split: option.split)
qed

lemma finish_activation_ok:
  assumes "pn_ok t_inv d" and "finish_activation hx ats atr d = (r, atr', d')"
  shows "pn_ok t_inv d' \<and> length atr' = length atr \<and> (\<forall>n. r = Inr n \<longrightarrow> n \<le> length atr \<and> pn_active d')"
  using assms by (auto simp: finish_activation_def pn_ok_def split: option.splits if_splits)

lemma activate_with_ok:
  assumes "pn_ok t_inv d" and "ntf_sane ntf"
  shows "\<exists>r atr' d'. activate_with hx ops ntf ao atr d = Some (r, atr', d') \<and> pn_ok t_inv d' \<and> length atr' = length atr \<and>
    (\<forall>n. r = Inr n \<longrightarrow> n \<le> length atr \<and> pn_active d')"
proof -
  from store_uid_ok [OF assms] obtain d1 where d1: "store_uid ntf d = Some d1" "pn_ok t_inv d1" by blast
  obtain q t where s: "select_tag ops ntf (pn_transport d1) = (q, t)" by (cases "select_tag ops ntf (pn_transport d1)") auto
  have "t_inv t" using select_inv [OF _ s] d1(2) by (simp add: pn_ok_def)
  then have d2: "pn_ok t_inv (d1\<lparr>pn_transport := t\<rparr>)" by (rule transport_ok [OF d1(2)])
  have fin: "\<exists>r atr' d'. Some (finish_activation hx ats atr e) = Some (r, atr', d') \<and> pn_ok t_inv d' \<and> length atr' = length atr \<and>
      (\<forall>n. r = Inr n \<longrightarrow> n \<le> length atr \<and> pn_active d')" if "pn_ok t_inv e" for ats e
    using finish_activation_ok [OF that] by (cases "finish_activation hx ats atr e") auto
  show ?thesis
  proof (cases ao)
    case (Some a)
    then show ?thesis using d1(1) fin [OF d1(2)] by (simp add: activate_with_def)
  next
    case None
    show ?thesis
    proof (cases q)
      case (Inl e)
      then show ?thesis using None d1(1) s d2 by (simp add: activate_with_def Let_def)
    next
      case (Inr a)
      then show ?thesis
        using None d1(1) s d2 fin [OF d2]
        by (cases "extract_ats a"; cases "hx_extend_from_slice hx 32 [] (the (extract_ats a))"; cases "fst (hx_extend_from_slice hx 32 [] (the (extract_ats a)))")
           (simp_all add: activate_with_def Let_def)
    qed
  qed
qed

lemma reactivate_ok:
  assumes "pn_ok t_inv d"
  shows "\<exists>r atr' d'. reactivate hx ops atr d = Some (r, atr', d') \<and> pn_ok t_inv d' \<and> length atr' = length atr \<and>
    (\<forall>n. r = Inr n \<longrightarrow> n \<le> length atr \<and> pn_active d')"
proof -
  obtain q t where s: "deactivate_to_discovery ops (pn_transport d) = (q, t)"
    by (cases "deactivate_to_discovery ops (pn_transport d)") auto
  have "t_inv t" using deactivate_inv [OF _ s] assms by (simp add: pn_ok_def)
  then have "pn_ok t_inv (d\<lparr>pn_transport := t, pn_collect_rounds := 0\<rparr>)" using assms by (simp add: pn_ok_def)
  from collect_activation_ok [OF this, of 8] obtain r d1 where
    c: "collect_activation hx ops 8 (d\<lparr>pn_transport := t, pn_collect_rounds := 0\<rparr>) = Some (r, d1)" "pn_ok t_inv d1"
      "\<And>m ats. r = Inr (Some (m, ats)) \<Longrightarrow> ntf_sane m" by blast
  show ?thesis
  proof (cases "\<exists>m a. r = Inr (Some (m, Some a))")
    case True
    then obtain m a where r: "r = Inr (Some (m, Some a))" by blast
    from store_uid_ok [OF c(2) c(3) [OF r]] obtain d2 where d2: "store_uid m d1 = Some d2" "pn_ok t_inv d2" by blast
    then show ?thesis
      using finish_activation_ok [OF d2(2), of a atr] s c(1) r by (cases "finish_activation hx a atr d2") (auto simp: reactivate_def)
  next
    case False
    then show ?thesis using s c by (auto simp: reactivate_def split: sum.split option.split)
  qed
qed

lemma pn_power_on_ok:
  assumes "pn_ok t_inv d"
  shows "\<exists>r atr' d'. pn_power_on hx ops atr d = Some (r, atr', d') \<and> pn_ok t_inv d' \<and> length atr' = length atr \<and>
    (\<forall>n. r = Inr n \<longrightarrow> n \<le> length atr \<and> pn_active d')"
proof -
  have "pn_ok t_inv (d\<lparr>pn_collect_rounds := 0\<rparr>)" using assms by (simp add: pn_ok_def)
  from collect_activation_ok [OF this, of 8] obtain r d1 where
    c: "collect_activation hx ops 8 (d\<lparr>pn_collect_rounds := 0\<rparr>) = Some (r, d1)" "pn_ok t_inv d1"
      "\<And>m ats. r = Inr (Some (m, ats)) \<Longrightarrow> ntf_sane m" by blast
  consider e where "r = Inl e" | m a where "r = Inr (Some (m, a))" | "r = Inr None" "pn_last_ntf d1 = None"
    | m where "r = Inr None" "pn_last_ntf d1 = Some m" by (cases r) (auto split: option.splits, metis option.exhaust surj_pair)
  then show ?thesis
  proof cases
    case 1
    then show ?thesis using c by (simp add: pn_power_on_def)
  next
    case 2
    then show ?thesis using c(1) activate_with_ok [OF c(2) c(3)] by (simp add: pn_power_on_def)
  next
    case 3
    then show ?thesis using c(1) reactivate_ok [OF c(2)] by (simp add: pn_power_on_def)
  next
    case 4
    then have "ntf_sane m" using c(2) by (simp add: pn_ok_def)
    then show ?thesis using 4 c(1) clear_ok [OF c(2)] activate_with_ok [OF c(2)] by (auto simp: pn_power_on_def)
  qed
qed

lemma pn_power_off_ok: "pn_ok t_inv d \<Longrightarrow> pn_ok t_inv (pn_power_off ops d) \<and> \<not> pn_active (pn_power_off ops d)"
proof -
  assume d: "pn_ok t_inv d"
  obtain q t where s: "deactivate_to_discovery ops (pn_transport d) = (q, t)"
    by (cases "deactivate_to_discovery ops (pn_transport d)") auto
  obtain q2 t2 where s2: "restart_discovery ops t = (q2, t2)" by (cases "restart_discovery ops t") auto
  obtain k t3 where s3: "drain_link ops t2 = (k, t3)" by (cases "drain_link ops t2") auto
  have "t_inv t" using deactivate_inv [OF _ s] d by (simp add: pn_ok_def)
  moreover from this have "t_inv t3" using restart_inv [OF _ s2] drain_link_inv [OF _ s3] by blast
  ultimately show ?thesis using d s s2 s3 by (cases q) (auto simp: pn_power_off_def pn_ok_def Let_def)
qed

lemma pn_transmit_ok:
  assumes "pn_ok t_inv d"
  shows "\<exists>r rsp st d'. pn_transmit_apdu hx ops cmd buf d = Some (r, rsp, st, d') \<and> pn_ok t_inv d' \<and> length rsp = length buf \<and>
    (\<forall>n. r = Inr n \<longrightarrow> n \<le> length buf)"
proof (cases "pn_active d")
  case True
  have "t_inv (pn_transport d)" using assms by (simp add: pn_ok_def)
  from untimed.exchange_time [OF this, of 0 cmd "pn_stall_hook d"] obtain r x t where
    x: "exchange_detailed hx ops 0 cmd (pn_stall_hook d) (pn_transport d) = Some (r, x, t)" "t_inv t" by blast
  let ?d = "d\<lparr>pn_transport := t, pn_wtx_last := xs_wtx x, pn_wtx_total := saturating_add32 (pn_wtx_total d) (xs_wtx x),
    pn_last_arrival_ms := (case xs_arrival x of Some ms \<Rightarrow> ms | None \<Rightarrow> pn_last_arrival_ms d)\<rparr>"
  have d: "pn_ok t_inv ?d" using assms x(2) by (simp add: pn_ok_def)
  obtain q t1 where s: "deactivate_to_discovery ops t = (q, t1)" by (cases "deactivate_to_discovery ops t") auto
  obtain q2 t2 where s2: "restart_discovery ops t1 = (q2, t2)" by (cases "restart_discovery ops t1") auto
  have "t_inv t1" using deactivate_inv [OF x(2) s] .
  moreover from this have "t_inv t2" using restart_inv [OF _ s2] by blast
  ultimately have "t_inv (settle_drain ops (if isl q then t2 else t1))" by (simp add: settle_drain_inv)
  then have d2: "pn_ok t_inv (?d\<lparr>pn_transport := settle_drain ops (if isl q then t2 else t1)\<rparr>)" by (rule transport_ok [OF d])
  show ?thesis
    using True x(1) s s2 d close_ok [OF d] teardown_ok [OF d] close_ok [OF d2]
    by (cases r) (auto simp: pn_transmit_apdu_def Let_def split: if_splits)
qed (use assms in \<open>simp add: pn_transmit_apdu_def\<close>)

lemma pn_init_ok: "pn_ok t_inv d \<Longrightarrow> pn_init ops d = (r, d') \<Longrightarrow> pn_ok t_inv d'"
  by (auto simp: pn_init_def pn_ok_def split: prod.splits sum.splits dest: ladder_inv)

end

end
