(* ===== verification/Contactless_Atr.thy ===== *)
theory Contactless_Atr
  imports Atr
begin

text \<open>
  The ATR both NFC drivers make up for a contactless card: six fixed bytes that declare T=1, then the
  historical bytes and a checksum.  The lemmas say what the ATR parser reads in it.
\<close>

definition atr_prefix :: "nat \<Rightarrow> bytes" where
  "atr_prefix k = [0x3B, 0x80 OR (word_of_nat k AND 0x0F), 0x81, 0x31, 0xFE, 0x45]"

lemma atr_prefix_parsed:
  "parse_atr (atr_prefix k @ rest) = atr_params_default\<lparr>ap_protocol := 1, ap_ifsc := 0xFE, ap_bwi := 4, ap_cwi := 5\<rparr>"
proof -
  have y: "drop_bit 4 (0x80 OR (word_of_nat k AND 0x0F) :: u8) AND 0x0F = 8"
    by (simp add: drop_bit_or drop_bit_and)
  show ?thesis
    unfolding parse_atr_def atr_prefix_def
    by (simp add: y parse_levels.simps [of _ 8] parse_levels.simps [of _ 3] atr_ta_def atr_tb_def atr_tc_def atr_td_step_def
        Let_def atr_params_default_def)
qed

lemma atr_prefix_length [simp]: "length (atr_prefix k) = 6"
  by (simp add: atr_prefix_def)

lemma count_nibble: "unat ((0x80 OR (word_of_nat k AND 0x0F) :: u8) AND 0x0F) = k mod 16"
proof -
  have "(0x80 OR (word_of_nat k AND 0x0F) :: u8) AND 0x0F = take_bit 4 (word_of_nat k)"
    by (simp add: bit.conj_disj_distrib2 and.assoc take_bit_eq_mask mask_eq_exp_minus_1)
  moreover have "unat (take_bit 4 (word_of_nat k :: u8)) = k mod 16"
    unfolding unsigned_take_bit_eq unsigned_of_nat by (simp add: take_bit_eq_mod mod_mod_cancel)
  ultimately show ?thesis by (simp only:)
qed

end
