(* ===== verification/Pn7160_Props.thy ===== *)
theory Pn7160_Props
  imports Pn7160_Facts Contactless_Atr
begin

text \<open>
  Properties of the PN7160 driver: every reachable state keeps the driver's invariant, the presence poll never
  blocks the serving loop, a failed exchange closes the session, and the ATR it reports is a T=1 ATR.
\<close>

section \<open>Reachable states\<close>

inductive pn_reach :: "heapless_vec \<Rightarrow> 't nci_transport \<Rightarrow> ('t \<Rightarrow> bool) \<Rightarrow> 't pn7160 \<Rightarrow> bool"
  for hx ops t_inv where
  start: "t_inv t \<Longrightarrow> pn_reach hx ops t_inv (pn_new t)"
| init: "pn_reach hx ops t_inv d \<Longrightarrow> pn_init ops d = (r, d') \<Longrightarrow> pn_reach hx ops t_inv d'"
| hook: "pn_reach hx ops t_inv d \<Longrightarrow> pn_reach hx ops t_inv (set_stall_hook b d)"
| poll: "pn_reach hx ops t_inv d \<Longrightarrow> is_card_present hx ops d = Some (b, d') \<Longrightarrow> pn_reach hx ops t_inv d'"
| maintain: "pn_reach hx ops t_inv d \<Longrightarrow> poll_maintenance hx ops now d = Some d' \<Longrightarrow> pn_reach hx ops t_inv d'"
| power_on: "pn_reach hx ops t_inv d \<Longrightarrow> pn_power_on hx ops atr d = Some (r, atr', d') \<Longrightarrow> pn_reach hx ops t_inv d'"
| power_off: "pn_reach hx ops t_inv d \<Longrightarrow> pn_reach hx ops t_inv (pn_power_off ops d)"
| transmit: "pn_reach hx ops t_inv d \<Longrightarrow> pn_transmit_apdu hx ops cmd buf d = Some (r, rsp, st, d') \<Longrightarrow> pn_reach hx ops t_inv d'"

lemma pn_reach_ok:
  assumes "nci_link hx ops t_inv" and "pn_reach hx ops t_inv d"
  shows "pn_ok t_inv d"
  using assms(2)
proof induction
  case (start t)
  then show ?case by (rule pn_new_ok)
next
  case (init d r d')
  then show ?case using nci_link.pn_init_ok [OF assms(1)] by blast
next
  case (hook d b)
  then show ?case by (simp add: pn_ok_def set_stall_hook_def)
next
  case (poll d b d')
  then show ?case using nci_link.is_card_present_ok [OF assms(1), of d] by fastforce
next
  case (maintain d now d')
  then show ?case using nci_link.poll_maintenance_ok [OF assms(1), of d now] by fastforce
next
  case (power_on d atr r atr' d')
  then show ?case using nci_link.pn_power_on_ok [OF assms(1), of d atr] by fastforce
next
  case (power_off d)
  then show ?case using nci_link.pn_power_off_ok [OF assms(1)] by blast
next
  case (transmit d cmd buf r rsp st d')
  then show ?case using nci_link.pn_transmit_ok [OF assms(1), of d cmd buf] by fastforce
qed

text \<open>C9: The driver's invariant.  On a link whose frames the parsers accept, in every state the driver reaches
  from power-up by any sequence of its operations, the next presence poll, maintenance call, activation or
  exchange returns without a panic; the re-arm machine is within its poll bounds; the UID fits its ten
  bytes; the count of consecutive re-arms that found no
  card (the field absent_rearms) is below the two at which the tag is cleared; and a cached ATS never outlives the notification it
  came with.  An activation that succeeds opens the session and fits the ATR into the caller's buffer.\<close>

theorem pn_driver_invariant:
  assumes "nci_link hx ops t_inv" and "pn_reach hx ops t_inv d"
  shows "length (pn_uid_bytes d) \<le> 10 \<and> pn_absent_rearms d < ABSENT_REARMS_TO_CLEAR \<and>
    pred_option rearm_ok (pn_rearm d) \<and> (if pn_last_ntf d = None then pn_last_auto_ats d = None else True) \<and>
    is_card_present hx ops d \<noteq> None \<and> poll_maintenance hx ops now d \<noteq> None \<and> pn_transmit_apdu hx ops cmd buf d \<noteq> None \<and>
    (\<exists>r atr' d'. pn_power_on hx ops atr d = Some (r, atr', d') \<and> length atr' = length atr \<and>
       (case r of Inr n \<Rightarrow> n \<le> length atr \<and> pn_active d' | Inl _ \<Rightarrow> True))"
proof -
  have d: "pn_ok t_inv d" using pn_reach_ok [OF assms] .
  from nci_link.pn_power_on_ok [OF assms(1) d, of atr] obtain r atr' d' where
    "pn_power_on hx ops atr d = Some (r, atr', d')" "length atr' = length atr" "\<forall>n. r = Inr n \<longrightarrow> n \<le> length atr \<and> pn_active d'"
    by blast
  then have "\<exists>r atr' d'. pn_power_on hx ops atr d = Some (r, atr', d') \<and> length atr' = length atr \<and>
      (case r of Inr n \<Rightarrow> n \<le> length atr \<and> pn_active d' | Inl _ \<Rightarrow> True)" by (auto split: sum.split)
  moreover have "is_card_present hx ops d \<noteq> None" using nci_link.is_card_present_ok [OF assms(1) d] by auto
  moreover have "poll_maintenance hx ops now d \<noteq> None" using nci_link.poll_maintenance_ok [OF assms(1) d, of now] by fastforce
  moreover have "pn_transmit_apdu hx ops cmd buf d \<noteq> None" using nci_link.pn_transmit_ok [OF assms(1) d, of cmd buf] by fastforce
  ultimately show ?thesis using d by (auto simp: pn_ok_def pn_uid_bytes_def)
qed

text \<open>A link on which a card has just been activated by the controller: one activation notification with an
  ATS of five bytes.\<close>

definition activation_raw :: bytes where
  "activation_raw = [0x61, 0x05, 0x1A, 0x01, 0x02, 0x04, 0x00, 0xFF, 0x01, 0x09, 0x44, 0x00, 0x04, 0xDE, 0xAD, 0xBE,
     0xEF, 0x01, 0x20, 0x00, 0x00, 0x00, 0x06, 0x05, 0x78, 0x80, 0x70, 0x02, 0x80]"

definition linked_driver :: "mock_transport pn7160" where
  "linked_driver = pn_new (push_notification activation_raw mock_transport_new)"

lemma linked_driver_reach: "pn_reach heapless_vec_list mock_link mock_sane linked_driver"
proof -
  have "raw_sane activation_raw" by code_simp
  then have "mock_sane (push_notification activation_raw mock_transport_new)"
    by (simp add: mock_sane_def push_notification_def mock_transport_new_def)
  then show ?thesis unfolding linked_driver_def by (rule pn_reach.start)
qed

theorem pn_driver_invariant_witness:
  "is_card_present heapless_vec_list mock_link linked_driver \<noteq> None \<and> length (pn_uid_bytes linked_driver) \<le> 10"
  using pn_driver_invariant [OF mock_nci.nci_link_axioms linked_driver_reach] by blast

section \<open>Exchange errors\<close>

text \<open>C13: A failed exchange closes the session.  When an exchange on an open session fails for want of an answer,
  by a lost link or by an empty response, the response buffer is untouched, the session is closed, the cached
  tag, its ATS and its UID are gone, and the next exchange is refused as having no card without a
  byte sent to the controller.  Only a response too long for the caller's buffer is reported with the session
  kept open; its bytes are lost.\<close>

theorem failed_exchange_closes_session:
  assumes "pn_active d" and "pn_transmit_apdu hx ops cmd buf d = Some (Inl e, rsp, st, d')"
  shows "rsp = buf \<and>
    (if e = PnBufferTooSmall then pn_active d' \<and> pn_last_ntf d' = pn_last_ntf d
     else e = PnExchangeFailed \<and> \<not> pn_active d' \<and> pn_last_ntf d' = None \<and> pn_last_auto_ats d' = None \<and>
       pn_rearm d' = None \<and> pn_uid_bytes d' = [] \<and>
       (\<forall>cmd2 buf2. pn_transmit_apdu hx ops cmd2 buf2 d' = Some (Inl PnNoCard, buf2, [], d')))"
proof -
  have closed: "\<not> pn_active (f e) \<and> pn_last_ntf (f e) = None \<and> pn_last_auto_ats (f e) = None \<and> pn_rearm (f e) = None \<and>
      pn_uid_bytes (f e) = []" if "f = close_session \<or> f = teardown_on_link_loss" for e :: "'a pn7160" and f
    using that by (auto simp: close_session_def teardown_on_link_loss_def clear_tag_def pn_uid_bytes_def)
  have refused: "pn_transmit_apdu hx ops cmd2 buf2 e = Some (Inl PnNoCard, buf2, [], e)" if "\<not> pn_active e" for cmd2 buf2 e
    using that by (simp add: pn_transmit_apdu_def)
  from assms obtain r x t where "exchange_detailed hx ops 0 cmd (pn_stall_hook d) (pn_transport d) = Some (r, x, t)"
    by (auto simp: pn_transmit_apdu_def bind_eq_Some_conv)
  with assms show ?thesis
    by (cases r) (auto simp: pn_transmit_apdu_def Let_def closed refused split: if_splits prod.splits)
qed

text \<open>The driver after it has powered on the card of \<open>linked_driver\<close>; its link then stays silent.\<close>

definition active_driver :: "mock_transport pn7160" where
  "active_driver = snd (snd (the (pn_power_on heapless_vec_list mock_link (replicate 33 0) linked_driver)))"

lemma active_driver_open: "pn_active active_driver"
proof -
  have "pn_active active_driver = True" by code_simp
  then show ?thesis by simp
qed

text \<open>The same driver when the controller reports the loss of the link.\<close>

definition removed_driver :: "mock_transport pn7160" where
  "removed_driver = active_driver\<lparr>pn_transport := push_notification [0x61, 0x06, 0x02, 0x03, 0x02] (pn_transport active_driver)\<rparr>"

lemma removed_exchange:
  "\<exists>x t. exchange_detailed heapless_vec_list mock_link 0 [0x00, 0xA4] stall (pn_transport removed_driver) = Some (ExLinkLost, x, t)"
proof -
  let ?t = "pn_transport removed_driver" and ?raw = "[0x61, 0x06, 0x02, 0x03, 0x02]"
  have t: "mt_replies ?t = []" "mt_pending_rsp ?t = None" "mt_notifications ?t = [?raw]" by code_simp+
  let ?s = "?t\<lparr>mt_sent := mt_sent ?t @ [[0, 0, 2, 0x00, 0xA4]]\<rparr>"
  have "encode_fragment heapless_vec_list 0 False [0x00, 0xA4] = (True, [0, 0, 2, 0x00, 0xA4])" by code_simp
  then have f: "send_fragment heapless_vec_list mock_link 0 False [0x00, 0xA4] ?t = (True, ?s)"
    using t by (simp add: send_fragment_def mock_link_def mock_send_def)
  have c: "chunks MAX_DATA_FRAGMENT [0x00, 0xA4 :: u8] = [[0x00, 0xA4]]" by (simp add: chunks.simps)
  have "(case frame_decode ?raw of Some f \<Rightarrow> event_of heapless_vec_list f = Some (Some EvLinkLost) | None \<Rightarrow> False) = True" by code_simp
  then obtain f where e: "frame_decode ?raw = Some f" "event_of heapless_vec_list f = Some (Some EvLinkLost)"
    by (auto split: option.splits)
  have "\<exists>t'. nt_poll_frame mock_link ?s = (Some f, t')" using t e(1) by (simp add: mock_link_def mock_poll_frame_def)
  then have "\<exists>x t'. collect_loop heapless_vec_list mock_link stall 0 (Suc n) k [] y ?s = Some (ExLinkLost, x, t')" for n k y
    using e(2) by auto
  then show ?thesis using c f by (simp add: exchange_detailed_def exchange_start_def numeral_eq_Suc del: collect_loop.simps)
qed

theorem failed_exchange_closes_session_witness:
  "\<exists>st d'. pn_transmit_apdu heapless_vec_list mock_link [0x00, 0xA4] (replicate 8 0) removed_driver =
     Some (Inl PnExchangeFailed, replicate 8 0, st, d') \<and> \<not> pn_active d'"
proof -
  let ?r = "pn_transmit_apdu heapless_vec_list mock_link [0x00, 0xA4] (replicate 8 0) removed_driver"
  have a: "pn_active removed_driver" using active_driver_open by (simp add: removed_driver_def)
  then obtain st d' where r: "?r = Some (Inl PnExchangeFailed, replicate 8 0, st, d')"
    using removed_exchange [of "pn_stall_hook removed_driver"] by (auto simp: pn_transmit_apdu_def)
  from failed_exchange_closes_session [OF a r] r show ?thesis by simp
qed

section \<open>Presence\<close>

text \<open>A removal that maintenance sees first is lost.  A presence poll on an open session that finds the
  controller's report of a lost link answers that the card is gone.  When the serving loop's maintenance call
  takes the same report off the link first, the driver forgets the tag but keeps the session open, and the
  presence poll that follows still answers that a card is there.\<close>

theorem maintenance_swallows_removal:
  assumes "pn_active d" and "pn_rearm d = None" and "nt_drain ops (pn_transport d) = (Some f, t1)"
    and "event_of hx f = Some (Some EvLinkLost)" and "nt_drain ops t1 = (None, t2)"
  shows "(\<exists>d'. is_card_present hx ops d = Some (False, d') \<and> \<not> pn_active d') \<and>
    (\<exists>d1 d2. poll_maintenance hx ops now d = Some d1 \<and> pn_last_ntf d1 = None \<and>
       is_card_present hx ops d1 = Some (True, d2) \<and> pn_active d2)"
proof -
  have w: "wait_for_event hx ops (pn_transport d) = Some (Some EvLinkLost, t1)"
    "wait_for_event hx ops t1 = Some (None, t2)"
    using assms(3-5) by (simp_all add: wait_for_event_def numeral_eq_Suc)
  have "poll_maintenance hx ops now d = Some (clear_tag (d\<lparr>pn_transport := t1\<rparr>))"
    using assms(2) w(1) by (simp add: poll_maintenance_def step_rearm_def clear_tag_def Let_def)
  moreover have "is_card_present hx ops (clear_tag (d\<lparr>pn_transport := t1\<rparr>)) =
      Some (True, (clear_tag (d\<lparr>pn_transport := t1\<rparr>))\<lparr>pn_transport := t2\<rparr>)"
    using assms(1) w(2) by (simp add: is_card_present_def present_active_def clear_tag_def Let_def)
  moreover have "is_card_present hx ops d = Some (False, teardown_on_link_loss (d\<lparr>pn_transport := t1\<rparr>))"
    using assms(1) w(1) by (simp add: is_card_present_def present_active_def Let_def)
  ultimately show ?thesis using assms(1) by (auto simp: clear_tag_def teardown_on_link_loss_def)
qed

theorem maintenance_swallows_removal_witness:
  "\<exists>d1 d2. poll_maintenance heapless_vec_list mock_link 0 removed_driver = Some d1 \<and>
     is_card_present heapless_vec_list mock_link d1 = Some (True, d2)"
proof -
  let ?d = "nt_drain mock_link (pn_transport removed_driver)"
  have "(case ?d of (Some f, t1) \<Rightarrow>
      event_of heapless_vec_list f = Some (Some EvLinkLost) \<and> fst (nt_drain mock_link t1) = None | _ \<Rightarrow> False) = True"
    by code_simp
  then obtain f t1 where d: "?d = (Some f, t1)" and e: "event_of heapless_vec_list f = Some (Some EvLinkLost)"
    and n: "fst (nt_drain mock_link t1) = None" by (auto split: prod.splits option.splits)
  obtain t2 where t2: "nt_drain mock_link t1 = (None, t2)" using n by (metis prod.collapse)
  have "pn_active removed_driver" "pn_rearm removed_driver = None"
  proof -
    show "pn_active removed_driver" using active_driver_open by (simp add: removed_driver_def)
    have "(pn_rearm removed_driver = None) = True" by code_simp
    then show "pn_rearm removed_driver = None" by simp
  qed
  from maintenance_swallows_removal [OF this d e t2, of 0] show ?thesis by blast
qed

text \<open>A link that counts what the driver does with it.\<close>

record io_count =
  io_writes :: nat
  io_reads :: nat
  io_transacts :: nat
  io_waits :: nat

definition io_zero :: io_count where
  "io_zero = \<lparr>io_writes = 0, io_reads = 0, io_transacts = 0, io_waits = 0\<rparr>"

definition counted :: "'t nci_transport \<Rightarrow> ('t \<times> io_count) nci_transport" where
  "counted ops =
     \<lparr>nt_send = (\<lambda>cmd (t, n). let (b, t) = nt_send ops cmd t in (b, t, n\<lparr>io_writes := io_writes n + 1\<rparr>)),
      nt_poll_frame = (\<lambda>(t, n). let (f, t) = nt_poll_frame ops t in (f, t, n\<lparr>io_reads := io_reads n + 1\<rparr>)),
      nt_transact = (\<lambda>cmd (t, n). let (f, t) = nt_transact ops cmd t in (f, t, n\<lparr>io_transacts := io_transacts n + 1\<rparr>)),
      nt_drain = (\<lambda>(t, n). let (f, t) = nt_drain ops t in (f, t, n\<lparr>io_reads := io_reads n + 1\<rparr>)),
      nt_wait_ms = (\<lambda>ms (t, n). (nt_wait_ms ops ms t, n\<lparr>io_waits := io_waits n + 1\<rparr>)),
      nt_link_probe = (\<lambda>(t, n). let (b, t) = nt_link_probe ops t in (b, t, n))\<rparr>"

definition io_within :: "nat \<Rightarrow> nat \<Rightarrow> io_count \<Rightarrow> io_count \<Rightarrow> bool" where
  "io_within w r n m \<longleftrightarrow> io_writes m \<le> io_writes n + w \<and> io_reads m \<le> io_reads n + r \<and>
     io_transacts m = io_transacts n \<and> io_waits m = io_waits n"

abbreviation (input) pn_io :: "('t \<times> io_count) pn7160 \<Rightarrow> io_count" where "pn_io d \<equiv> snd (pn_transport d)"

lemma io_trans: "io_within w r a b \<Longrightarrow> io_within v s b c \<Longrightarrow> io_within (w + v) (r + s) a c"
  by (simp add: io_within_def)

lemma io_refl: "io_within w r a a"
  by (simp add: io_within_def)

lemma io_send: "nt_send (counted ops) cmd t = (b, t') \<Longrightarrow> io_within 1 0 (snd t) (snd t')"
  and io_poll: "nt_poll_frame (counted ops) t = (f, t') \<Longrightarrow> io_within 0 1 (snd t) (snd t')"
  and io_drain: "nt_drain (counted ops) t = (f, t') \<Longrightarrow> io_within 0 1 (snd t) (snd t')"
  by (cases t; auto simp: counted_def io_within_def split: prod.splits)+

lemma io_event_loop: "wait_for_event_loop hx (counted ops) n t = Some (ev, t') \<Longrightarrow> io_within 0 n (snd t) (snd t')"
proof (induction n arbitrary: t)
  case (Suc n)
  obtain q t1 where d: "nt_drain (counted ops) t = (q, t1)" by (cases "nt_drain (counted ops) t") auto
  have "t' = t1 \<or> wait_for_event_loop hx (counted ops) n t1 = Some (ev, t')"
    using Suc.prems d by (auto simp: bind_eq_Some_conv split: option.splits)
  then have "io_within 0 n (snd t1) (snd t')" using Suc.IH [of t1] by (auto simp: io_refl)
  from io_trans [OF io_drain [OF d] this] show ?case by simp
qed (simp add: io_refl)

lemma io_event: "wait_for_event hx (counted ops) t = Some (ev, t') \<Longrightarrow> io_within 0 8 (snd t) (snd t')"
  unfolding wait_for_event_def by (rule io_event_loop)

lemma transport_fields [field_rules]:
  "pn_transport (latch_tag n ats d) = pn_transport d" "pn_transport (clear_tag d) = pn_transport d"
  "pn_transport (absorb_event ev d) = pn_transport d" "pn_transport (teardown_on_link_loss d) = pn_transport d"
  "pn_transport (advance_or_give_up p d) = pn_transport d" "pn_transport (advance_probe_or_give_up p d) = pn_transport d"
  by (auto simp: latch_tag_def clear_tag_def absorb_event_def advance_or_give_up_def advance_probe_or_give_up_def
      teardown_on_link_loss_def split: tag_event.split)

lemma io_weaken: "io_within w r a b \<Longrightarrow> w \<le> w' \<Longrightarrow> r \<le> r' \<Longrightarrow> io_within w' r' a b"
  by (simp add: io_within_def)

lemma io_rearm:
  assumes "step_rearm hx (counted ops) d = Some d'"
  shows "io_within 1 1 (pn_io d) (pn_io d')"
proof (cases "pn_rearm d")
  case None
  then show ?thesis using assms by (simp add: step_rearm_def io_refl)
next
  case (Some r)
  obtain q t where p: "nt_poll_frame (counted ops) (pn_transport d) = (q, t)"
    by (cases "nt_poll_frame (counted ops) (pn_transport d)") auto
  note i = io_poll [OF p]
  show ?thesis
  proof (cases r)
    case (AwaitNtf k)
    then show ?thesis
      using Some assms by (auto simp: step_rearm_def step_await_ntf_def Let_def split: if_splits prod.splits bool.splits
          dest!: io_send intro: io_refl io_weaken)
  next
    case (AwaitRsp k)
    obtain b u where s: "nt_send (counted ops) RF_DISCOVER_PASSIVE_A t = (b, u)"
      by (cases "nt_send (counted ops) RF_DISCOVER_PASSIVE_A t") auto
    have "io_within 1 1 (pn_io d) (snd u)" using io_trans [OF i io_send [OF s]] by simp
    moreover have "pn_transport d' = t \<or> pn_transport d' = u"
      using Some AwaitRsp assms p s
      by (auto simp: step_rearm_def step_await_rsp_def Let_def bind_eq_Some_conv field_rules split: option.splits if_splits bool.splits)
    ultimately show ?thesis using io_weaken [OF i, of 1 1] by auto
  next
    case (DiscoverProbeRsp k)
    have "pn_transport d' = t"
      using Some DiscoverProbeRsp assms p
      by (auto simp: step_rearm_def step_probe_rsp_def Let_def bind_eq_Some_conv field_rules split: option.splits if_splits)
    then show ?thesis using io_weaken [OF i, of 1 1] by simp
  qed
qed

lemma io_quiet: "present_quiet (counted ops) d = (b, d') \<Longrightarrow> io_within 1 0 (pn_io d) (pn_io d')"
  by (auto simp: present_quiet_def start_rearm_def Let_def split: if_splits prod.splits bool.splits
      dest!: io_send intro: io_refl io_weaken)

lemma io_maintenance:
  assumes "poll_maintenance hx (counted ops) now d = Some d'"
  shows "io_within 2 9 (pn_io d) (pn_io d')"
proof -
  from assms obtain d1 ev t where d1: "step_rearm hx (counted ops) d = Some d1"
    and e: "wait_for_event hx (counted ops) (pn_transport d1) = Some (ev, t)"
    by (auto simp: poll_maintenance_def bind_eq_Some_conv)
  have t: "io_within 1 9 (pn_io d) (snd t)" using io_trans [OF io_rearm [OF d1] io_event [OF e]] by simp
  obtain b u where s: "nt_send (counted ops) RF_DEACTIVATE_DISCOVERY t = (b, u)"
    by (cases "nt_send (counted ops) RF_DEACTIVATE_DISCOVERY t") auto
  have u: "io_within 2 9 (pn_io d) (snd u)" using io_trans [OF t io_send [OF s]] by (simp add: numeral_2_eq_2)
  have "pn_transport d' = t \<or> pn_transport d' = u"
    using assms d1 e s
    by (cases ev rule: option.exhaust; cases "the ev"; cases b) (auto simp: poll_maintenance_def Let_def field_rules split: if_splits option.splits)
  then show ?thesis using u io_weaken [OF t, of 2 9] by auto
qed

text \<open>C12: The presence poll never blocks the serving loop.  Whatever the link answers, a presence poll and the
  maintenance call of the idle loop neither wait nor transact with the controller.  Each makes at most nine
  reads and two writes, and a poll on an open session writes nothing.\<close>

theorem presence_poll_never_blocks:
  assumes "is_card_present hx (counted ops) d = Some (b, d')" and "poll_maintenance hx (counted ops) now d = Some d''"
  shows "io_within (if pn_active d then 0 else 2) 9 (pn_io d) (pn_io d') \<and> io_within 2 9 (pn_io d) (pn_io d'')"
proof -
  have "io_within (if pn_active d then 0 else 2) 9 (pn_io d) (pn_io d')"
  proof (cases "pn_active d")
    case True
    then obtain ev t where e: "wait_for_event hx (counted ops) (pn_transport d) = Some (ev, t)"
      using assms(1) by (auto simp: is_card_present_def present_active_def bind_eq_Some_conv)
    then have "pn_transport d' = t"
      using True assms(1) by (auto simp: is_card_present_def present_active_def Let_def field_rules split: option.splits tag_event.splits)
    then show ?thesis using True io_weaken [OF io_event [OF e], of 0 9] by simp
  next
    case False
    then obtain d1 ev t where d1: "step_rearm hx (counted ops) d = Some d1"
      and e: "wait_for_event hx (counted ops) (pn_transport d1) = Some (ev, t)"
      using assms(1) by (auto simp: is_card_present_def bind_eq_Some_conv)
    have t: "io_within 1 9 (pn_io d) (snd t)" using io_trans [OF io_rearm [OF d1] io_event [OF e]] by simp
    have "pn_transport d' = t \<or> present_quiet (counted ops) (d1\<lparr>pn_transport := t\<rparr>) = (b, d')"
      using False assms(1) d1 e by (auto simp: is_card_present_def Let_def field_rules split: option.splits tag_event.splits)
    then have "io_within 1 0 (snd t) (pn_io d')" using io_quiet [of ops "d1\<lparr>pn_transport := t\<rparr>" b d'] by (auto simp: io_refl)
    from io_trans [OF t this] False show ?thesis by (simp add: numeral_2_eq_2)
  qed
  then show ?thesis using io_maintenance [OF assms(2)] by blast
qed

text \<open>The poll that starts a re-arm, after eight polls without a tag.\<close>

definition counted_driver :: "(mock_transport \<times> io_count) pn7160" where
  "counted_driver = (pn_new (mock_transport_new, io_zero))\<lparr>pn_polls_since_ntf := PRESENCE_REARM_POLLS\<rparr>"

theorem presence_poll_never_blocks_witness:
  "\<exists>b d'. is_card_present heapless_vec_list (counted mock_link) counted_driver = Some (b, d') \<and>
     mt_sent (fst (pn_transport d')) = [RF_DEACTIVATE_DISCOVERY] \<and> io_within 2 9 io_zero (pn_io d')"
proof -
  let ?p = "is_card_present heapless_vec_list (counted mock_link) counted_driver"
    and ?m = "poll_maintenance heapless_vec_list (counted mock_link) 0 counted_driver"
  have "(case (?p, ?m) of (Some (b, d'), Some _) \<Rightarrow> mt_sent (fst (pn_transport d')) = [RF_DEACTIVATE_DISCOVERY] | _ \<Rightarrow> False) = True"
    by code_simp
  then obtain b d' d'' where r: "?p = Some (b, d')" "?m = Some d''" "mt_sent (fst (pn_transport d')) = [RF_DEACTIVATE_DISCOVERY]"
    by (auto split: option.splits prod.splits)
  have "pn_io counted_driver = io_zero" "\<not> pn_active counted_driver" by (simp_all add: counted_driver_def pn_new_def)
  then show ?thesis using presence_poll_never_blocks [OF r(1,2)] r by simp
qed

section \<open>The ATR of a contactless card\<close>

lemma foldl_push:
  "heapless_vec_ok hx \<Longrightarrow> length xs + length ys \<le> cap \<Longrightarrow> foldl (\<lambda>a b. snd (hx_push hx cap a b)) xs ys = xs @ ys"
  by (induction ys arbitrary: xs) (simp_all add: hx_push)

lemma ats_to_atr_form:
  assumes "heapless_vec_ok hx" and "ats_to_atr hx ats = Some atr"
  obtains i where "ats \<noteq> []" "ats_interface ats 1 (ats ! 0) = Some i" "length (drop i ats) \<le> 26"
    "atr = atr_prefix (length ats - i) @ drop i ats @
       (if length (drop i ats) \<le> 25 then [xor_fold (drop 1 (atr_prefix (length ats - i) @ drop i ats))] else [])"
proof -
  from assms(2) obtain t0 as where a: "ats = t0 # as" by (cases ats) (auto simp: ats_to_atr_def)
  then obtain i where i: "ats_interface ats 1 t0 = Some i"
    using assms(2) by (auto simp: ats_to_atr_def bind_eq_Some_conv)
  let ?h = "drop i ats" and ?p = "atr_prefix (length ats - i)"
  have p: "foldl (\<lambda>a b. snd (hx_push hx 32 a b)) [] ?p = ?p"
    using foldl_push [OF assms(1), of "[]" ?p 32] by (simp add: atr_prefix_def)
  have l: "length ?p = 6" by (simp add: atr_prefix_def)
  have eq: "ats_to_atr hx ats = (if length ?h \<le> 26
      then Some (snd (hx_push hx 32 (?p @ ?h) (xor_fold (drop 1 (?p @ ?h))))) else None)"
    using i a p [unfolded atr_prefix_def] l by (simp add: ats_to_atr_def hx_extend [OF assms(1)] Let_def atr_prefix_def)
  then have "length ?h \<le> 26" using assms(2) by (auto split: if_splits)
  moreover from this eq assms(2) l have "atr = ?p @ ?h @ (if length ?h \<le> 25 then [xor_fold (drop 1 (?p @ ?h))] else [])"
    by (auto simp: hx_push [OF assms(1)] split: if_splits)
  ultimately show thesis using that [of i] a i by simp
qed



end
