(* ===== verification/Pn7160_Nfc.thy ===== *)
theory Pn7160_Nfc
  imports Pn7160_Facts Frontend Handler_Commands
begin

text \<open>
  The firmware's reader driver on a PN7160 (\<open>firmware/esp32-ccid/src/pn7160_driver.rs\<close>): the operations of
  \<open>NfcDriver\<close> by delegation to the driver of the crate.  A panic of the driver has no value here; on a link
  that meets \<open>nci_link\<close> the driver does not panic, and the operations meet the contract \<open>nfc_frontend\<close>.
\<close>

datatype pn_nfc_error = NfcBringUp string | NfcSelect string | NfcNoCard | NfcExchangeFailed | NfcBufferTooSmall

fun pn_nfc_error_of :: "pn_error \<Rightarrow> pn_nfc_error" where
  "pn_nfc_error_of (PnBringUp s) = NfcBringUp s"
| "pn_nfc_error_of (PnSelect s) = NfcSelect s"
| "pn_nfc_error_of PnNoCard = NfcNoCard"
| "pn_nfc_error_of PnExchangeFailed = NfcExchangeFailed"
| "pn_nfc_error_of PnBufferTooSmall = NfcBufferTooSmall"

definition pn_nfc_init :: "'t nci_transport \<Rightarrow> 't pn7160 \<Rightarrow> (pn_nfc_error + unit) \<times> 't pn7160" where
  "pn_nfc_init ops d = (let (r, d) = pn_init ops d in (map_sum pn_nfc_error_of id r, d))"

definition pn_nfc_is_card_present :: "heapless_vec \<Rightarrow> 't nci_transport \<Rightarrow> 't pn7160 \<Rightarrow> bool \<times> 't pn7160" where
  "pn_nfc_is_card_present hx ops d = the (is_card_present hx ops d)"

definition pn_nfc_poll_card_presence :: "heapless_vec \<Rightarrow> 't nci_transport \<Rightarrow> 't pn7160 \<Rightarrow> presence_state \<times> 't pn7160" where
  "pn_nfc_poll_card_presence hx ops d = (let (b, d) = the (is_card_present hx ops d) in (\<lparr>present = b\<rparr>, d))"

definition pn_nfc_power_on :: "heapless_vec \<Rightarrow> 't nci_transport \<Rightarrow> 't pn7160 \<Rightarrow> bytes
    \<Rightarrow> (pn_nfc_error + nat) \<times> bytes \<times> 't pn7160" where
  "pn_nfc_power_on hx ops d atr_buf =
     (let (r, buf, d) = the (pn_power_on hx ops atr_buf d) in (map_sum pn_nfc_error_of id r, buf, d))"

definition pn_nfc_transmit_apdu :: "heapless_vec \<Rightarrow> 't nci_transport \<Rightarrow> 't pn7160 \<Rightarrow> bytes \<Rightarrow> bytes
    \<Rightarrow> (pn_nfc_error + nat) \<times> bytes \<times> 't pn7160" where
  "pn_nfc_transmit_apdu hx ops d command response =
     (let (r, buf, _, d) = the (pn_transmit_apdu hx ops command response d) in (map_sum pn_nfc_error_of id r, buf, d))"

definition pn_nfc_exchange_decomposition :: "'t pn7160 \<Rightarrow> (u32 \<times> u32 \<times> u32 \<times> u32) option" where
  "pn_nfc_exchange_decomposition d = Some (0, pn_wtx_last d, 0, pn_last_arrival_ms d * 1000)"

definition pn_nfc_frontend_status :: "'t pn7160 \<Rightarrow> frontend_status" where
  "pn_nfc_frontend_status d = frontend_status_ok\<lparr>fs_health := Healthy\<rparr>"

definition pn_nfc_frontend_self_test :: "'t nci_transport \<Rightarrow> 't pn7160 \<Rightarrow> (frontend_error_kind + unit) \<times> 't pn7160" where
  "pn_nfc_frontend_self_test ops d =
     (let (alive, t) = nt_link_probe ops (pn_transport d)
      in (if alive then Inr () else Inl FeBus, d\<lparr>pn_transport := t\<rparr>))"

definition pn_nops :: "heapless_vec \<Rightarrow> 't nci_transport \<Rightarrow> ('t pn7160, pn_nfc_error) nfc_ops" where
  "pn_nops hx ops =
     (trait_defaults (pn_nfc_init ops) (pn_nfc_is_card_present hx ops) (pn_nfc_power_on hx ops) (pn_power_off ops)
        (pn_nfc_transmit_apdu hx ops) pn_nfc_frontend_status (pn_nfc_frontend_self_test ops))
     \<lparr>n_poll_maintenance := (\<lambda>now d. the (poll_maintenance hx ops (unat now) d)),
      n_poll_card_presence := pn_nfc_poll_card_presence hx ops,
      n_session_active := pn_active,
      n_presence_poll_detects_removal := (\<lambda>_. True),
      n_wtx_counters := (\<lambda>d. Some (pn_wtx_last d, pn_wtx_total d)),
      n_exchange_decomposition := pn_nfc_exchange_decomposition\<rparr>"

lemmas pn_nops_defs = pn_nops_def trait_defaults_def pn_nfc_init_def pn_nfc_is_card_present_def
  pn_nfc_poll_card_presence_def pn_nfc_power_on_def pn_nfc_transmit_apdu_def pn_nfc_frontend_self_test_def

context nci_link
begin

lemma pn_frontend: "nfc_frontend (pn_nops hx ops) (pn_ok t_inv)"
proof
  fix d :: "'t pn7160" and buf r buf' d'
  assume d: "pn_ok t_inv d" and "n_power_on (pn_nops hx ops) d buf = (r, buf', d')"
  then show "length buf' = length buf \<and> pn_ok t_inv d'"
    using pn_power_on_ok [OF d, of buf] by (auto simp: pn_nops_defs)
next
  fix d :: "'t pn7160" and buf n buf' d'
  assume d: "pn_ok t_inv d" and "n_power_on (pn_nops hx ops) d buf = (Inr n, buf', d')"
  then show "n \<le> length buf"
    using pn_power_on_ok [OF d, of buf] by (auto simp: pn_nops_defs map_sum_def split: sum.splits)
next
  fix d :: "'t pn7160" and cmd buf r buf' d'
  assume d: "pn_ok t_inv d" and "n_transmit_apdu (pn_nops hx ops) d cmd buf = (r, buf', d')"
  then show "length buf' = length buf \<and> pn_ok t_inv d'"
    using pn_transmit_ok [OF d, of cmd buf] by (auto simp: pn_nops_defs)
next
  fix d :: "'t pn7160" and cmd buf n buf' d'
  assume d: "pn_ok t_inv d" and "n_transmit_apdu (pn_nops hx ops) d cmd buf = (Inr n, buf', d')"
  then show "n \<le> length buf"
    using pn_transmit_ok [OF d, of cmd buf] by (auto simp: pn_nops_defs map_sum_def split: sum.splits)
next
  fix d :: "'t pn7160" and b d'
  assume d: "pn_ok t_inv d" and "n_is_card_present (pn_nops hx ops) d = (b, d')"
  then show "pn_ok t_inv d'" using is_card_present_ok [OF d] by (auto simp: pn_nops_defs)
next
  fix d :: "'t pn7160" and b d'
  assume d: "pn_ok t_inv d" and "n_poll_card_presence (pn_nops hx ops) d = (b, d')"
  then show "pn_ok t_inv d'" using is_card_present_ok [OF d] by (auto simp: pn_nops_defs)
next
  fix d :: "'t pn7160" and r d'
  assume d: "pn_ok t_inv d" and "n_frontend_self_test (pn_nops hx ops) d = (r, d')"
  then show "pn_ok t_inv d'"
    using transport_ok [OF d] probe_inv [of "pn_transport d"] d
    by (auto simp: pn_nops_defs pn_ok_def split: prod.splits)
qed (auto simp: pn_nops_defs pn_power_off_ok split: prod.splits dest: pn_init_ok)

end

sublocale nci_link \<subseteq> reader: nfc_frontend "pn_nops hx ops" "pn_ok t_inv"
  by (rule pn_frontend)

end
