(* ===== verification/Pn7160_Reader.thy ===== *)
theory Pn7160_Reader
  imports Pn7160_Nfc Ccid_Handler_Props
begin

text \<open>
  The whole reader on a PN7160: the serial CCID handler with its T=1 endpoint, the card adapter, the PN7160
  driver and an NCI exchange with a controller that follows NCI.
\<close>

section \<open>The controller as a link\<close>

definition queued_sane :: "nci_frame option \<Rightarrow> bool" where
  "queued_sane q \<longleftrightarrow> (case q of None \<Rightarrow> True | Some f \<Rightarrow> frame_sane f)"

definition nfcc_sane :: "nfcc \<Rightarrow> bool" where
  "nfcc_sane c \<longleftrightarrow> list_all queued_sane (cc_queue c) \<and> list_all (list_all queued_sane) (cc_noise c)"

lemma data_frame_sane: "length p \<le> 255 \<Longrightarrow> queued_sane (Some (data_frame pbf p))"
  by (simp add: queued_sane_def frame_sane_def frame_ok_def data_frame_def bad_activation_def bad_discovery_def
      is_activation_def is_discover_def)

lemma credit_frame_sane: "queued_sane (Some credit_frame)"
  by (simp add: queued_sane_def frame_sane_def frame_ok_def credit_frame_def bad_activation_def bad_discovery_def
      is_activation_def is_discover_def)

lemma answer_frames_sane: "list_all (\<lambda>p. length p \<le> 255) ps \<Longrightarrow> list_all queued_sane (answer_frames ps)"
  by (induction ps) (simp_all add: data_frame_sane)

lemma nfcc_poll_sane:
  "nfcc_sane c \<Longrightarrow> nfcc_poll c = (r, c') \<Longrightarrow> nfcc_sane c' \<and> (\<forall>f. r = Some f \<longrightarrow> frame_sane f)"
  by (auto simp: nfcc_poll_def nfcc_sane_def queued_sane_def split: list.splits)

lemma nfcc_nci_link:
  assumes "heapless_vec_ok hx" and "\<And>a. list_all (\<lambda>p. length p \<le> 255) (icc a)"
  shows "nci_link hx (nfcc_link icc) nfcc_sane"
proof
  fix t cmd b t'
  assume "nfcc_sane t" and "nt_send (nfcc_link icc) cmd t = (b, t')"
  then show "nfcc_sane t'"
    by (auto simp: nfcc_link_def nfcc_send_def nfcc_sane_def Let_def credit_frame_sane answer_frames_sane [OF assms(2)]
        split: option.splits if_splits list.splits)
qed (auto simp: assms(1) nfcc_link_def dest: nfcc_poll_sane)

interpretation nfcc_nci: nci_link heapless_vec_list "nfcc_link (\<lambda>a. [[0x6F, 0x00], [0x90, 0x00]])" nfcc_sane
  by (rule nfcc_nci_link) (simp_all add: heapless_vec_list_ok)

section \<open>From the host to the card and back\<close>

lemma transmit_delivers:
  assumes "pn_active d" and "exchange_detailed hx ops 0 apdu (pn_stall_hook d) (pn_transport d) = Some (ExData rsp, x, t)"
    and "rsp \<noteq> []" and "length rsp \<le> length buf"
  shows "\<exists>d'. n_transmit_apdu (pn_nops hx ops) d apdu buf = (Inr (length rsp), rsp @ drop (length rsp) buf, d') \<and>
    pn_transport d' = t \<and> pn_active d'"
  using assms by (simp add: pn_nops_defs pn_transmit_apdu_def Let_def)

lemma apdu_reaches_card:
  assumes "heapless_vec_ok hx" and "\<And>a. list_all (\<lambda>p. length p \<le> 255) (icc a)" and "pn_active d" and "c = pn_transport d"
    and "cc_credit c" and "cc_queue c = []" and "cc_apdu c = []"
    and "cc_noise c = ns @ n # rest" and "length ns = (length apdu - 1) div MAX_DATA_FRAGMENT"
    and "list_all (\<lambda>q. list_all harmless q \<and> list_all no_credit q) ns" and "list_all harmless n"
    and "icc apdu \<noteq> []" and "list_all (\<lambda>p. p \<noteq> []) (icc apdu)" and "length (concat (icc apdu)) \<le> 261"
    and "length (concat ns) + length n + length (icc apdu) \<le> DATA_COLLECT_ROUNDS" and "length buf = 271"
  shows "\<exists>d'. n_transmit_apdu (pn_nops hx (nfcc_link icc)) d apdu buf =
      (Inr (length (concat (icc apdu))), concat (icc apdu) @ drop (length (concat (icc apdu))) buf, d') \<and>
    cc_received (pn_transport d') = cc_received c @ [apdu] \<and> pn_active d'"
proof -
  let ?rsp = "concat (icc apdu)"
  have "list_all (\<lambda>p. p \<noteq> [] \<and> length p \<le> 255) (icc apdu)" using assms(2) [of apdu] assms(13) by (simp add: list_all_iff)
  moreover have "length ?rsp \<le> 1024" using assms(14) by simp
  ultimately obtain x where x: "exchange_detailed hx (nfcc_link icc) 0 apdu (pn_stall_hook d) c =
      Some (ExData ?rsp, x, c\<lparr>cc_received := cc_received c @ [apdu], cc_noise := rest\<rparr>)"
    using exchange_delivered [where icc = icc, OF assms(1,5-11) refl assms(12) _ _ assms(15), of "pn_stall_hook d"] by blast
  have rsp: "?rsp \<noteq> []" using assms(12,13) by (cases "icc apdu") auto
  have "length ?rsp \<le> length buf" using assms(14,16) by simp
  from transmit_delivers [OF assms(3) x [unfolded assms(4)] rsp this] show ?thesis by (auto simp: assms(4))
qed

text \<open>C5: An APDU through the whole reader.  Take a reachable PN7160 reader with T=1 armed, the card active, a
  positive block size, no time extension outstanding and a response buffer of at least 281 bytes, over an
  idle controller that holds a credit.  The host's XfrBlock with the last block of a chain, no longer than the
  agreed block size, brings the assembled APDU of at most 512 bytes (unless it is one the handler answers
  itself) to the card once and byte for byte: through the T=1 endpoint, the handler core, the PN7160 driver,
  the NCI fragments and their credits.  The card's answer of 1 to 261 bytes, in however many non-empty packets,
  comes back to the host in T=1 blocks unchanged, when the silent polls, the harmless frames and the answer
  packets of this exchange stay within twelve rounds, and the time it took by the reader's clock calls for no
  time extension.\<close>

theorem t1_over_pn7160_end_to_end:
  fixes icc now_us ch
  defines "d \<equiv> ch_driver ch" and "t \<equiv> ch_t1 ch"
  defines "c \<equiv> pn_transport d"
  assumes "heapless_ok hv" and "heapless_vec_ok hx" and "\<And>a. list_all (\<lambda>p. length p \<le> 255) (icc a)"
    and "ch_reach hv (pn_nops hx (nfcc_link icc)) now_us (pn_ok nfcc_sane) ch"
    and "ch_t1_armed ch" and "h_current_protocol (ch_core ch) = 1" and "h_slot_state (ch_core ch) = PresentActive"
    and "nr \<le> 1" and "length info \<le> te_host_ifsd t" and "apdu = te_recv_chain t @ info"
    and "length apdu \<le> 512" and "reaches_card SerialNfcProfile apdu"
    and "0 < te_send_ifsc t" and "\<not> te_wtx_pending t" and "281 \<le> length out"
    and "pn_active d" and "cc_credit c" and "cc_queue c = []" and "cc_apdu c = []"
    and "cc_noise c = ns @ n # rest" and "length ns = (length apdu - 1) div MAX_DATA_FRAGMENT"
    and "list_all (\<lambda>q. list_all harmless q \<and> list_all no_credit q) ns" and "list_all harmless n"
    and "icc apdu \<noteq> []" and "list_all (\<lambda>p. p \<noteq> []) (icc apdu)" and "length (concat (icc apdu)) \<le> 261"
    and "length (concat ns) + length n + length (icc apdu) \<le> DATA_COLLECT_ROUNDS"
    and "n_transmit_apdu (pn_nops hx (nfcc_link icc)) d apdu (h_tx_buf (ch_core ch)) = (r, buf, d')"
    and "\<not> wtx_needed (elapsed_ms_since (now_us d') (now_us d)) t"
  shows "\<exists>ch' out' m b t'.
    ch_process_command hv (pn_nops hx (nfcc_link icc)) now_us ch
      (xfr_request sl sq (plain_block (i_pcb (te_host_ns t) False nr) info)) out = Some (ch', out', m) \<and>
    cc_received (pn_transport (ch_driver ch')) = cc_received c @ [apdu] \<and> pn_active (ch_driver ch') \<and>
    message_at out' m RDR_TO_PC_DATABLOCK sl sq 0 0 0 b \<and> wf_block b \<and>
    host_collect hv (length (concat (icc apdu)) + 1) b (ch_t1 ch') = Some (concat (icc apdu), t')"
proof -
  let ?L = "nfcc_link icc" and ?rsp = "concat (icc apdu)" and ?buf = "h_tx_buf (ch_core ch)"
  have front: "nfc_frontend (pn_nops hx ?L) (pn_ok nfcc_sane)"
    by (rule nci_link.pn_frontend [OF nfcc_nci_link [OF assms(5,6)]])
  have "wrapper_ok hv (pn_ok nfcc_sane) ch" using nfc_frontend.ch_reach_ok [OF front assms(4,7)] .
  then have "length ?buf = 271" using wrapper_okD(1) by (auto simp: handler_ok_def)
  from apdu_reaches_card [where icc = icc, OF assms(5,6,19) meta_eq_to_obj_eq [OF c_def] assms(20-30) this] assms(31)
  have d': "n_transmit_apdu (pn_nops hx ?L) (ch_driver ch) apdu ?buf = (Inr (length ?rsp), ?rsp @ drop (length ?rsp) ?buf, d')"
      "cc_received (pn_transport d') = cc_received c @ [apdu]" "pn_active d'"
    by (auto simp: d_def)
  have ans: "relay_answer (Inr (length ?rsp) :: pn_nfc_error + nat) (?rsp @ drop (length ?rsp) ?buf) = ?rsp"
    using assms(29) by (simp add: relay_answer_def)
  from apdu_over_t1 [OF meta_eq_to_obj_eq [OF t_def] assms(4) front assms(7-15) d'(1) assms(16-18) assms(32) [unfolded d_def],
      of sl sq, unfolded ans] d'(2,3)
  show ?thesis by blast
qed

section \<open>A concrete reader\<close>

text \<open>A card activates, the host powers it on and selects T=1.\<close>

abbreviation (input) pn_card :: "bytes \<Rightarrow> bytes list" where "pn_card \<equiv> \<lambda>a. [[0x6F, 0x00], [0x90, 0x00]]"

abbreviation (input) pn_ops :: "(nfcc pn7160, pn_nfc_error) nfc_ops" where
  "pn_ops \<equiv> pn_nops heapless_vec_list (nfcc_link pn_card)"

text \<open>A clock by which every APDU takes 50 ms.\<close>

abbreviation (input) pn_clock :: "nfcc pn7160 \<Rightarrow> int" where
  "pn_clock \<equiv> \<lambda>d. 50000 * int (length (cc_received (pn_transport d)))"

abbreviation (input) pn_step :: "nfcc pn7160 ccid_handler \<Rightarrow> bytes \<Rightarrow> nfcc pn7160 ch_reply" where
  "pn_step ch msg \<equiv> ch_process_command heapless_list pn_ops pn_clock ch msg (replicate 300 0)"

definition activation_frame :: nci_frame where
  "activation_frame = \<lparr>nf_mt = MT_NTF, nf_gid = GID_RF, nf_oid = NTF_RF_INTF_ACTIVATED, nf_pbf = False,
     nf_payload = [0x01, 0x02, 0x04, 0x00, 0xFF, 0x01, 0x09, 0x44, 0x00, 0x04, 0xDE, 0xAD, 0xBE, 0xEF, 0x01, 0x20,
       0x00, 0x00, 0x00, 0x06, 0x05, 0x78, 0x80, 0x70, 0x02, 0x80] @ replicate 229 0, nf_len = 26\<rparr>"

definition pn_controller :: nfcc where
  "pn_controller = \<lparr>cc_apdu = [], cc_received = [], cc_credit = True,
     cc_queue = [Some activation_frame, Some activation_frame], cc_noise = [[None, None]]\<rparr>"

definition pn_new_reader :: "nfcc pn7160 ccid_handler" where
  "pn_new_reader = snd (snd (ch_check_card_change pn_ops pn_clock (ch_new pn_ops pn_clock (pn_new pn_controller))))"

definition pn_armed_reader :: "nfcc pn7160 ccid_handler" where
  "pn_armed_reader =
     fst (the (pn_step (fst (the (pn_step pn_new_reader [0x62, 0, 0, 0, 0, 0, 1, 0, 0, 0])))
       [0x61, 7, 0, 0, 0, 0, 2, 1, 0, 0, 0x11, 0, 0, 0x45, 0, 0xFE, 0]))"

abbreviation (input) pn_reachable :: "nfcc pn7160 ccid_handler \<Rightarrow> bool" where
  "pn_reachable \<equiv> ch_reach heapless_list pn_ops pn_clock (pn_ok nfcc_sane)"

lemma pn_new_reader_reach: "pn_reachable pn_new_reader"
proof -
  have "nfcc_sane pn_controller"
    by (simp add: nfcc_sane_def pn_controller_def queued_sane_def activation_frame_def frame_sane_def frame_ok_def
        bad_activation_def bad_discovery_def is_activation_def is_discover_def)
  then have r: "pn_reachable (ch_new pn_ops pn_clock (pn_new pn_controller))" by (intro ch_reach.new pn_new_ok)
  obtain ev pushed ch where e: "ch_check_card_change pn_ops pn_clock (ch_new pn_ops pn_clock (pn_new pn_controller)) = (ev, pushed, ch)"
    using prod_cases3 by blast
  from ch_reach.poll [OF r e] e show ?thesis by (simp add: pn_new_reader_def)
qed

lemma pn_command_reach:
  assumes "pn_reachable ch" and "Option.is_none (pn_step ch msg) = False"
  shows "pn_reachable (fst (the (pn_step ch msg)))"
  using assms by (auto simp: Option.is_none_def intro: ch_reach.command)

lemma pn_armed_reader_reach: "pn_reachable pn_armed_reader"
  unfolding pn_armed_reader_def by (intro pn_command_reach pn_new_reader_reach; code_simp)

lemma pn_armed_reader_state:
  "ch_t1_armed pn_armed_reader = True" "h_current_protocol (ch_core pn_armed_reader) = 1"
  "te_recv_chain (ch_t1 pn_armed_reader) = []" "te_host_ns (ch_t1 pn_armed_reader) = 0"
  "te_host_ifsd (ch_t1 pn_armed_reader) = 254" "te_send_ifsc (ch_t1 pn_armed_reader) = 32"
  "te_wtx_pending (ch_t1 pn_armed_reader) = False" "te_host_bwi (ch_t1 pn_armed_reader) = 4"
  "pn_active (ch_driver pn_armed_reader) = True"
  by code_simp+

lemma pn_armed_reader_controller:
  "pn_transport (ch_driver pn_armed_reader) =
     \<lparr>cc_apdu = [], cc_received = [], cc_credit = True, cc_queue = [], cc_noise = [[None, None]]\<rparr>"
  by code_simp

lemma pn_armed_reader_active: "h_slot_state (ch_core pn_armed_reader) = PresentActive"
proof -
  have "(case h_slot_state (ch_core pn_armed_reader) of PresentActive \<Rightarrow> True | _ \<Rightarrow> False) = True" by code_simp
  then show ?thesis by (simp split: slot_state.splits)
qed

theorem t1_over_pn7160_end_to_end_witness:
  "\<exists>ch' out' m b t'.
     pn_step pn_armed_reader (xfr_request 0 3 (plain_block (i_pcb 0 False 0) [0x00, 0xCA, 0x00, 0x4F])) = Some (ch', out', m) \<and>
     cc_received (pn_transport (ch_driver ch')) = [[0x00, 0xCA, 0x00, 0x4F]] \<and>
     message_at out' m 0x80 0 3 0 0 0 b \<and> host_collect heapless_list 5 b (ch_t1 ch') = Some ([0x6F, 0x00, 0x90, 0x00], t')"
proof -
  let ?apdu = "[0x00, 0xCA, 0x00, 0x4F] :: bytes" and ?t = "ch_t1 pn_armed_reader" and ?c = "pn_transport (ch_driver pn_armed_reader)"
  note st = pn_armed_reader_state and c = pn_armed_reader_controller
  obtain q buf d' where t: "n_transmit_apdu pn_ops (ch_driver pn_armed_reader) ?apdu (h_tx_buf (ch_core pn_armed_reader)) = (q, buf, d')"
    using prod_cases3 by blast
  have r: "reaches_card SerialNfcProfile ?apdu" by (simp add: reaches_card_def is_pps_request_def SerialNfcProfile_def)
  have s: "ch_t1_armed pn_armed_reader" "(0 :: u8) \<le> 1" "length ?apdu \<le> te_host_ifsd ?t" "?apdu = te_recv_chain ?t @ ?apdu"
    "length ?apdu \<le> 512" "0 < te_send_ifsc ?t" "\<not> te_wtx_pending ?t" "281 \<le> length (replicate 300 (0 :: u8))"
    "pn_active (ch_driver pn_armed_reader)" "list_all (\<lambda>p. length p \<le> 255) (pn_card a)" for a using st by simp_all
  have k: "cc_credit ?c" "cc_queue ?c = []" "cc_apdu ?c = []" "cc_noise ?c = [] @ [None, None] # []"
    "length [] = (length ?apdu - 1) div 253" unfolding c by simp_all
  have n: "list_all (\<lambda>q. list_all harmless q \<and> list_all no_credit q) []" "list_all harmless [None, None]" "pn_card ?apdu \<noteq> []"
    "list_all (\<lambda>p. p \<noteq> []) (pn_card ?apdu)" "length (concat (pn_card ?apdu)) \<le> 261"
    "length (concat ([] :: nci_frame option list list)) + length [None :: nci_frame option, None] + length (pn_card ?apdu) \<le> 12"
    by (simp_all add: harmless_def)
  have "length (h_tx_buf (ch_core pn_armed_reader)) = 271" by code_simp
  from apdu_reaches_card [where icc = pn_card, OF heapless_vec_list_ok s(10,9) refl k n this] t
  have "cc_received (pn_transport d') = cc_received ?c @ [?apdu]" by auto
  then have w: "\<not> wtx_needed (elapsed_ms_since (pn_clock d') (pn_clock (ch_driver pn_armed_reader))) ?t"
    using st c by (simp add: wtx_needed_def elapsed_ms_since_def word_less_nat_alt t1_bwt_ms_exact div_ceil_nat_def)
  note e2e = t1_over_pn7160_end_to_end [where icc = pn_card, OF heapless_list_ok heapless_vec_list_ok s(10) pn_armed_reader_reach s(1)
      st(2) pn_armed_reader_active s(2-5) r s(6-9) k n t w, of 0 3]
  have "length [0x6F, 0x00, 0x90, 0x00 :: u8] + 1 = 5" "concat (pn_card ?apdu) = [0x6F, 0x00, 0x90, 0x00]" "cc_received ?c @ [?apdu] = [?apdu]"
    unfolding c by simp_all
  from e2e [unfolded st(4) this] show ?thesis by blast
qed

end
