(* ===== verification/Nci_Listen.thy ===== *)
theory Nci_Listen
  imports Nci_Exchange
begin

text \<open>
  Card emulation on the PN7160: the listen ladder and the session of
  \<open>crates/pn7160-nci/src/listen.rs\<close>, the fixed answers of \<open>responder.rs\<close>, and the serving loop of
  \<open>firmware/esp32-ccid/src/pn7160_listen.rs\<close>.  Two loops of the source read the link until it is
  silent; they are partial functions, and no result stands for a link that never is.
\<close>

section \<open>Commands and the ladder\<close>

abbreviation (input) OID_RF_SET_LISTEN_MODE_ROUTING :: u8 where "OID_RF_SET_LISTEN_MODE_ROUTING \<equiv> 0x01"
abbreviation (input) RF_TECH_PASSIVE_NFCA_LISTEN :: u8 where "RF_TECH_PASSIVE_NFCA_LISTEN \<equiv> 0x80"

definition RF_DISCOVER_MAP_ISO_DEP_LISTEN :: bytes where
  "RF_DISCOVER_MAP_ISO_DEP_LISTEN =
     [MT_CMD OR GID_RF, OID_RF_DISCOVER_MAP, 0x04, 0x01, NCI_PROTOCOL_ISO_DEP, NCI_INTERFACE_ISO_DEP, 0x02]"

definition SET_CONFIG_LISTEN_NFCA :: bytes where
  "SET_CONFIG_LISTEN_NFCA =
     [MT_CMD, OID_CORE_SET_CONFIG, 0x0A, 0x03, 0x30, 0x01, 0x04, 0x31, 0x01, 0x00, 0x32, 0x01, 0x20]"

definition RF_SET_LISTEN_MODE_ROUTING_DH_ISO_DEP :: bytes where
  "RF_SET_LISTEN_MODE_ROUTING_DH_ISO_DEP =
     [MT_CMD OR GID_RF, OID_RF_SET_LISTEN_MODE_ROUTING, 0x07, 0x00, 0x01, 0x01, 0x03, 0x00, 0x01, NCI_PROTOCOL_ISO_DEP]"

definition RF_DISCOVER_PASSIVE_A_LISTEN :: bytes where
  "RF_DISCOVER_PASSIVE_A_LISTEN = [MT_CMD OR GID_RF, OID_RF_DISCOVER, 0x03, 0x01, RF_TECH_PASSIVE_NFCA_LISTEN, 0x01]"

partial_function (option) drain_all :: "'t nci_transport \<Rightarrow> 't \<Rightarrow> 't option" where
  "drain_all ops t = (case nt_drain ops t of (None, t) \<Rightarrow> Some t | (Some f, t) \<Rightarrow> drain_all ops t)"

fun listen_steps :: "'t nci_transport \<Rightarrow> bytes list \<Rightarrow> 't \<Rightarrow> ((string + unit) \<times> 't) option" where
  "listen_steps ops [] t = Some (Inr (), t)"
| "listen_steps ops (step # steps) t =
     (case nt_transact ops step t of
        (None, t) \<Rightarrow> Some (Inl ''transport ran dry'', t)
      | (Some rsp, t) \<Rightarrow>
          if \<not> is_rsp_to step rsp then Some (Inl ''response does not match command'', t)
          else if frame_status rsp \<noteq> Some STATUS_OK then Some (Inl ''listen ladder step rejected'', t)
          else do { t \<leftarrow> drain_all ops t; listen_steps ops steps t })"

definition run_ladder_listen :: "'t nci_transport \<Rightarrow> 't \<Rightarrow> ((string + unit) \<times> 't) option" where
  "run_ladder_listen ops t =
     (case nt_transact ops CORE_RESET t of
        (None, t) \<Rightarrow> Some (Inl ''no CORE_RESET response'', t)
      | (Some rsp, t) \<Rightarrow>
          if \<not> is_rsp_to CORE_RESET rsp then Some (Inl ''malformed CORE_RESET response'', t)
          else
            let (_, t) = nt_drain ops t in
            listen_steps ops
              [CORE_INIT, SET_CONFIG_TOTAL_DURATION, SET_CONFIG_LISTEN_NFCA, RF_DISCOVER_MAP_ISO_DEP_LISTEN,
               RF_SET_LISTEN_MODE_ROUTING_DH_ISO_DEP, RF_DISCOVER_PASSIVE_A_LISTEN] t)"

section \<open>The session\<close>

definition fragment_cap :: "u8 \<Rightarrow> nat" where
  "fragment_cap max_data_payload =
     (let advertised = unat max_data_payload in
      if advertised = 0 \<or> MAX_DATA_FRAGMENT < advertised then MAX_DATA_FRAGMENT else advertised)"

datatype respond_error = Inactive | ConnUnbound | Divergence u8 u8 | CreditTimeout | SendFailed

abbreviation (input) CREDIT_POLLS :: nat where "CREDIT_POLLS \<equiv> 24"
abbreviation (input) CREDIT_WAIT_MS :: nat where "CREDIT_WAIT_MS \<equiv> 10"

datatype listen_event = Activated u8 u8 | LApdu bytes | ReaderLeft u8 | ConnDivergence u8 u8 | RxOverflow

record listen_session =
  ls_active :: bool
  ls_conn_id :: "u8 option"
  ls_credits :: u8
  ls_max_data_payload :: u8
  ls_rx :: bytes

definition listen_new :: listen_session where
  "listen_new = \<lparr>ls_active = False, ls_conn_id = None, ls_credits = 0, ls_max_data_payload = 0, ls_rx = []\<rparr>"

definition listen_reset :: "listen_session \<Rightarrow> listen_session" where
  "listen_reset s = s\<lparr>ls_active := False, ls_conn_id := None, ls_credits := 0, ls_max_data_payload := 0, ls_rx := []\<rparr>"

definition bind_conn :: "u8 \<Rightarrow> listen_session \<Rightarrow> ((u8 \<times> u8) + unit) \<times> listen_session" where
  "bind_conn seen s =
     (case ls_conn_id s of
        None \<Rightarrow> (Inr (), s\<lparr>ls_conn_id := Some seen\<rparr>)
      | Some bound \<Rightarrow> if bound = seen then (Inr (), s) else (Inl (bound, seen), listen_reset s))"

text \<open>The entries of a credit notification; the number of entries keeps every index within the payload.\<close>

fun note_entries :: "bytes \<Rightarrow> nat list \<Rightarrow> listen_session \<Rightarrow> ((u8 \<times> u8) + unit) \<times> listen_session" where
  "note_entries payload [] s = (Inr (), s)"
| "note_entries payload (i # is) s =
     (let conn = payload ! (1 + i * 2); granted = payload ! (2 + i * 2) in
      case bind_conn conn s of
        (Inl e, s) \<Rightarrow> (Inl e, s)
      | (Inr _, s) \<Rightarrow> note_entries payload is (s\<lparr>ls_credits := saturating_add8 (ls_credits s) granted\<rparr>))"

definition note_credits :: "nci_frame \<Rightarrow> listen_session \<Rightarrow> ((u8 \<times> u8) + unit) \<times> listen_session" where
  "note_credits f s =
     (if nf_len f < 1 then (Inr (), s)
      else
        let entries = min (unat (nf_payload f ! 0)) ((nf_len f - 1) div 2)
        in note_entries (nf_payload f) [0..<entries] s)"

definition listen_poll :: "heapless_vec \<Rightarrow> 't nci_transport \<Rightarrow> listen_session \<Rightarrow> 't
    \<Rightarrow> listen_event option \<times> listen_session \<times> 't" where
  "listen_poll hx ops s t =
     (case nt_poll_frame ops t of
        (None, t) \<Rightarrow> (None, s, t)
      | (Some f, t) \<Rightarrow>
          if is_wtx_ntf f then (None, s, t)
          else if is_conn_credits_ntf f then
            (case note_credits f s of
               (Inl (bound, seen), s) \<Rightarrow> (Some (ConnDivergence bound seen), s, t)
             | (Inr _, s) \<Rightarrow> (None, s, t))
          else if nf_mt f = MT_NTF \<and> nf_gid f = GID_RF \<and> nf_oid f = NTF_RF_INTF_ACTIVATED \<and> 6 \<le> nf_len f then
            let s = s\<lparr>ls_active := True, ls_max_data_payload := nf_payload f ! 4, ls_credits := nf_payload f ! 5, ls_rx := []\<rparr>
            in (Some (Activated (ls_max_data_payload s) (ls_credits s)), s, t)
          else if nf_mt f = MT_NTF \<and> nf_gid f = GID_RF \<and> nf_oid f = NTF_RF_DEACTIVATE then
            (Some (ReaderLeft (if 2 \<le> nf_len f then nf_payload f ! 1 else 0)), listen_reset s, t)
          else if nf_mt f = MT_DATA then
            (case bind_conn (nf_gid f) s of
               (Inl (bound, seen), s) \<Rightarrow> (Some (ConnDivergence bound seen), s, t)
             | (Inr _, s) \<Rightarrow>
                 (case hx_extend_from_slice hx 1024 (ls_rx s) (take (nf_len f) (nf_payload f)) of
                    (False, _) \<Rightarrow> (Some RxOverflow, listen_reset s, t)
                  | (True, rx) \<Rightarrow>
                      if \<not> nf_pbf f then (Some (LApdu rx), s\<lparr>ls_rx := []\<rparr>, t)
                      else (None, s\<lparr>ls_rx := rx\<rparr>, t)))
          else (None, s, t))"

text \<open>The frames of one wait for a credit, until the link is silent; \<open>Inr True\<close> is a credit.\<close>

partial_function (option) credit_frames :: "'t nci_transport \<Rightarrow> listen_session \<Rightarrow> 't
    \<Rightarrow> ((respond_error + bool) \<times> listen_session \<times> 't) option" where
  "credit_frames ops s t =
     (case nt_poll_frame ops t of
        (None, t) \<Rightarrow> Some (Inr False, s, t)
      | (Some f, t) \<Rightarrow>
          if is_conn_credits_ntf f then
            (case note_credits f s of
               (Inl (bound, seen), s) \<Rightarrow> Some (Inl (Divergence bound seen), s, t)
             | (Inr _, s) \<Rightarrow> if 0 < ls_credits s then Some (Inr True, s, t) else credit_frames ops s t)
          else credit_frames ops s t)"

fun await_loop :: "'t nci_transport \<Rightarrow> nat \<Rightarrow> listen_session \<Rightarrow> 't
    \<Rightarrow> ((respond_error + unit) \<times> listen_session \<times> 't) option" where
  "await_loop ops 0 s t = Some (Inl CreditTimeout, listen_reset s, t)"
| "await_loop ops (Suc n) s t = do {
     (r, s, t) \<leftarrow> credit_frames ops s (nt_wait_ms ops CREDIT_WAIT_MS t);
     (case r of
        Inl e \<Rightarrow> Some (Inl e, s, t)
      | Inr credited \<Rightarrow> if credited \<or> 0 < ls_credits s then Some (Inr (), s, t) else await_loop ops n s t)
   }"

definition await_credit :: "'t nci_transport \<Rightarrow> listen_session \<Rightarrow> 't
    \<Rightarrow> ((respond_error + unit) \<times> listen_session \<times> 't) option" where
  "await_credit ops s t = await_loop ops CREDIT_POLLS s t"

fun respond_loop :: "heapless_vec \<Rightarrow> 't nci_transport \<Rightarrow> u8 \<Rightarrow> nat \<Rightarrow> nat \<Rightarrow> nat \<Rightarrow> bytes list \<Rightarrow> listen_session \<Rightarrow> 't
    \<Rightarrow> ((respond_error + unit) \<times> listen_session \<times> 't) option" where
  "respond_loop hx ops conn cap n i [] s t = Some (Inr (), s, t)"
| "respond_loop hx ops conn cap n i (chunk # rest) s t = do {
     (r, s, t) \<leftarrow> (if ls_credits s = 0 then await_credit ops s t else Some (Inr (), s, t));
     (case r of
        Inl e \<Rightarrow> Some (Inl e, s, t)
      | Inr _ \<Rightarrow>
          let pbf = (i + 1) * cap < n in
          (case encode_fragment hx conn pbf chunk of
             (False, _) \<Rightarrow> Some (Inl SendFailed, listen_reset s, t)
           | (True, out) \<Rightarrow>
               (case nt_send ops out t of
                  (False, t) \<Rightarrow> Some (Inl SendFailed, listen_reset s, t)
                | (True, t) \<Rightarrow> respond_loop hx ops conn cap n (i + 1) rest (s\<lparr>ls_credits := ls_credits s - 1\<rparr>) t)))
   }"

definition respond :: "heapless_vec \<Rightarrow> 't nci_transport \<Rightarrow> bytes \<Rightarrow> listen_session \<Rightarrow> 't
    \<Rightarrow> ((respond_error + unit) \<times> listen_session \<times> 't) option" where
  "respond hx ops rapdu s t =
     (if \<not> ls_active s then Some (Inl Inactive, s, t)
      else
        (case ls_conn_id s of
           None \<Rightarrow> Some (Inl ConnUnbound, s, t)
         | Some conn \<Rightarrow>
             let cap = fragment_cap (ls_max_data_payload s); n = length rapdu in
             if n = 0 then Some (Inl SendFailed, s, t)
             else respond_loop hx ops conn cap n 0 (chunks cap rapdu) s t))"

section \<open>The synthetic card\<close>

definition MARKER :: bytes where
  "MARKER = [0x50, 0x4E, 0x37, 0x31, 0x36, 0x30, 0x2D, 0x4C, 0x49, 0x53, 0x54, 0x45, 0x4E]"

definition ISD_AID :: bytes where "ISD_AID = [0xA0, 0x00, 0x00, 0x00, 0x51, 0x00, 0x00]"
definition ISD_AID_FCI :: bytes where "ISD_AID_FCI = [0xA0, 0x00, 0x00, 0x00, 0x51, 0x00, 0x00, 0x00]"

text \<open>Appends of the source ignore their result: a value that does not fit is left out.\<close>

definition tlv :: "heapless_vec \<Rightarrow> nat \<Rightarrow> u8 \<Rightarrow> bytes \<Rightarrow> bytes \<Rightarrow> bytes" where
  "tlv hx cap tag v out =
     snd (hx_extend_from_slice hx cap (snd (hx_extend_from_slice hx cap out [tag, word_of_nat (length v)])) v)"

definition fci :: "heapless_vec \<Rightarrow> bytes \<Rightarrow> bytes" where
  "fci hx out =
     (let inner = tlv hx 64 0x84 ISD_AID_FCI [];
          inner = tlv hx 64 0x79 [0x60] inner;
          inner = tlv hx 64 0x90 MARKER inner
      in tlv hx 1024 0x6F inner out)"

text \<open>\<open>None\<close> is the panic of a slice whose start lies behind its end.\<close>

definition answer :: "heapless_vec \<Rightarrow> bytes \<Rightarrow> bytes outcome" where
  "answer hx capdu =
     (let ext = (\<lambda>out v. snd (hx_extend_from_slice hx 1024 out v)) in
      if length capdu < 4 then Some (ext [] [0x67, 0x00])
      else if capdu ! 0 = 0x00 \<and> capdu ! 1 = 0xA4 then
        let lc = (if 4 < length capdu then unat (capdu ! 4) else 0); stop = min (5 + lc) (length capdu) in do {
          aid \<leftarrow> slice capdu 5 stop;
          Some (if aid = ISD_AID then ext (fci hx []) [0x90, 0x00] else ext [] [0x6A, 0x82])
        }
      else if capdu ! 0 = 0x80 \<and> capdu ! 1 = 0x50 then
        Some (ext (ext (ext (ext [] [0x00, 0x00, 0x00]) (replicate 8 0xA5)) (replicate 8 0x5A)) [0x90, 0x00])
      else if capdu ! 0 = 0x84 \<and> capdu ! 1 = 0x82 then Some (ext [] [0x90, 0x00])
      else if capdu ! 0 = 0x80 \<and> capdu ! 1 = 0xCA then
        Some (ext (ext (ext [] [0x9F, 0x7F, 0x2D]) (replicate 0x2D 0xA5)) [0x90, 0x00])
      else if capdu ! 0 = 0x80 \<and> (capdu ! 1 = 0xF2 \<or> capdu ! 1 = 0xE8 \<or> capdu ! 1 = 0xE6 \<or> capdu ! 1 = 0xE4) then
        Some (ext [] [0x90, 0x00])
      else Some (ext [] [0x6A, 0x82]))"

section \<open>The serving loop\<close>

abbreviation (input) LADDER_ATTEMPTS :: nat where "LADDER_ATTEMPTS \<equiv> 5"

text \<open>\<open>recover\<close> is the power cycle and probe of the board between two attempts.\<close>

fun ladder_retry_loop :: "'t nci_transport \<Rightarrow> ('t \<Rightarrow> 't) \<Rightarrow> nat \<Rightarrow> 't \<Rightarrow> ((string + unit) \<times> 't) option" where
  "ladder_retry_loop ops recover 0 t = Some (Inl ''listen ladder exhausted'', t)"
| "ladder_retry_loop ops recover (Suc n) t = do {
     (r, t) \<leftarrow> run_ladder_listen ops t;
     (case r of Inr _ \<Rightarrow> Some (Inr (), t) | Inl _ \<Rightarrow> ladder_retry_loop ops recover n (recover t))
   }"

definition ladder_with_ven_retry :: "'t nci_transport \<Rightarrow> ('t \<Rightarrow> 't) \<Rightarrow> 't \<Rightarrow> ((string + unit) \<times> 't) option" where
  "ladder_with_ven_retry ops recover t = ladder_retry_loop ops recover LADDER_ATTEMPTS t"

text \<open>One round of the loop; \<open>idle\<close> is the pause of the board when there was no event.  The results of \<open>respond\<close> and of a repeated ladder are only logged; \<open>None\<close>
  is a panic of the responder or a read loop that does not end.\<close>

definition listen_round :: "heapless_vec \<Rightarrow> 't nci_transport \<Rightarrow> ('t \<Rightarrow> 't) \<Rightarrow> ('t \<Rightarrow> 't) \<Rightarrow> listen_session \<times> 't
    \<Rightarrow> (listen_session \<times> 't) outcome" where
  "listen_round hx ops recover idle st =
     (case listen_poll hx ops (fst st) (snd st) of
        (Some (Activated m c), s, t) \<Rightarrow> Some (s, t)
      | (Some (LApdu apdu), s, t) \<Rightarrow> do {
          rapdu \<leftarrow> answer hx apdu;
          (_, s, t) \<leftarrow> respond hx ops rapdu s t;
          Some (s, t)
        }
      | (Some (ReaderLeft reason), s, t) \<Rightarrow> Some (s, t)
      | (Some (ConnDivergence bound seen), s, t) \<Rightarrow> do {
          (_, t) \<leftarrow> ladder_with_ven_retry ops recover t;
          Some (s, t)
        }
      | (Some RxOverflow, s, t) \<Rightarrow> do {
          (_, t) \<leftarrow> ladder_with_ven_retry ops recover t;
          Some (s, t)
        }
      | (None, s, t) \<Rightarrow> Some (s, idle t))"

end
