(* ===== verification/Nci_Listen_Props.thy ===== *)
theory Nci_Listen_Props
  imports Nci_Listen
begin

text \<open>
  Card emulation answers the reader: against a controller with one credit per connection, the session
  assembles a command, the synthetic card answers it, and the fragments of the answer wait for their credits.
\<close>

section \<open>A controller with a reader in its field\<close>

text \<open>The controller refuses a packet without a credit, on a foreign connection or longer than the payload it
  announced.  Each packet it takes is paid back by a credit notification, after silent polls or
  notifications.\<close>

record rf_reader =
  rr_rapdu :: bytes
  rr_answers :: "bytes list"
  rr_credit :: bool
  rr_queue :: "nci_frame option list"
  rr_noise :: "nci_frame option list list"

definition credit_of :: "u8 \<Rightarrow> nci_frame" where
  "credit_of conn = \<lparr>nf_mt = MT_NTF, nf_gid = GID_CORE, nf_oid = OID_CORE_CONN_CREDITS, nf_pbf = False,
     nf_payload = [1, conn, 1] @ replicate 252 0, nf_len = 3\<rparr>"

definition rf_send :: "u8 \<Rightarrow> u8 \<Rightarrow> bytes \<Rightarrow> rf_reader \<Rightarrow> bool \<times> rf_reader" where
  "rf_send conn mdp cmd r =
     (case data_decode cmd of
        None \<Rightarrow> (False, r)
      | Some d \<Rightarrow>
          if \<not> rr_credit r \<or> dp_conn_id d \<noteq> conn \<or> (mdp \<noteq> 0 \<and> unat mdp < dp_len d) then (False, r)
          else
            let rapdu = rr_rapdu r @ take (dp_len d) (dp_payload d);
                ns = (case rr_noise r of [] \<Rightarrow> [] | n # _ \<Rightarrow> n);
                r = r\<lparr>rr_credit := False, rr_noise := tl (rr_noise r), rr_queue := rr_queue r @ ns @ [Some (credit_of conn)]\<rparr>
            in (True, if dp_fragmented d then r\<lparr>rr_rapdu := rapdu\<rparr>
                      else r\<lparr>rr_rapdu := [], rr_answers := rr_answers r @ [rapdu]\<rparr>))"

definition rf_poll :: "rf_reader \<Rightarrow> nci_frame option \<times> rf_reader" where
  "rf_poll r =
     (case rr_queue r of
        [] \<Rightarrow> (None, r)
      | f # q \<Rightarrow>
          (f, r\<lparr>rr_queue := q, rr_credit := rr_credit r \<or> (case f of Some f \<Rightarrow> is_conn_credits_ntf f | None \<Rightarrow> False)\<rparr>))"

definition rf_link :: "u8 \<Rightarrow> u8 \<Rightarrow> rf_reader nci_transport" where
  "rf_link conn mdp = \<lparr>nt_send = rf_send conn mdp, nt_poll_frame = rf_poll, nt_transact = (\<lambda>cmd r. (None, r)),
     nt_drain = rf_poll, nt_wait_ms = (\<lambda>ms r. r), nt_link_probe = (\<lambda>r. (True, r))\<rparr>"

section \<open>Credits\<close>

lemma credit_noted:
  assumes "ls_conn_id s = Some conn" and "ls_credits s = 0"
  shows "is_conn_credits_ntf (credit_of conn)" "note_credits (credit_of conn) s = (Inr (), s\<lparr>ls_credits := 1\<rparr>)"
  using assms by (simp_all add: credit_of_def is_conn_credits_ntf_def note_credits_def bind_conn_def saturating_add8_def upt_rec)

text \<open>What is left after the first silent poll.\<close>

fun after_silence :: "'a option list \<Rightarrow> 'a option list option" where
  "after_silence [] = None"
| "after_silence (None # ns) = Some ns"
| "after_silence (Some f # ns) = after_silence ns"

lemma after_silence_Some:
  assumes "after_silence ns = Some ns'"
  shows "list_all P ns \<Longrightarrow> list_all P ns'" "length (filter (\<lambda>q. q = None) ns) = Suc (length (filter (\<lambda>q. q = None) ns'))"
  using assms by (induction ns rule: after_silence.induct) auto

lemma credit_frames_read:
  assumes "list_all no_credit ns" and "rr_queue r = ns @ Some (credit_of conn) # q"
    and "ls_conn_id s = Some conn" and "ls_credits s = 0"
  shows "credit_frames (rf_link conn mdp) s r =
    (case after_silence ns of
       None \<Rightarrow> Some (Inr True, s\<lparr>ls_credits := 1\<rparr>, r\<lparr>rr_queue := q, rr_credit := True\<rparr>)
     | Some ns' \<Rightarrow> Some (Inr False, s, r\<lparr>rr_queue := ns' @ Some (credit_of conn) # q\<rparr>))"
  using assms
proof (induction ns arbitrary: r)
  case Nil
  then show ?case
    using credit_noted [OF assms(3,4)] by (subst credit_frames.simps) (simp add: rf_link_def rf_poll_def)
next
  case (Cons n ns)
  show ?case
  proof (cases n)
    case None
    then show ?thesis using Cons.prems by (subst credit_frames.simps) (simp add: rf_link_def rf_poll_def)
  next
    case (Some f)
    let ?r = "r\<lparr>rr_queue := ns @ Some (credit_of conn) # q\<rparr>"
    have f: "\<not> is_conn_credits_ntf f" using Cons.prems(1) Some by (simp add: no_credit_def)
    then have "nt_poll_frame (rf_link conn mdp) r = (Some f, ?r)" using Cons.prems(2) Some by (simp add: rf_link_def rf_poll_def)
    then have "credit_frames (rf_link conn mdp) s r = credit_frames (rf_link conn mdp) s ?r"
      using f by (subst credit_frames.simps) simp
    then show ?thesis using Cons.IH [of ?r] Cons.prems Some by (simp split: option.split)
  qed
qed

text \<open>Rounds in which a wait for the credit hears nothing.\<close>

abbreviation (input) silent_polls :: "nci_frame option list \<Rightarrow> nat" where
  "silent_polls ns \<equiv> length (filter (\<lambda>q. q = None) ns)"

lemma credit_awaited:
  assumes "list_all no_credit ns" and "silent_polls ns < n" and "rr_queue r = ns @ Some (credit_of conn) # q"
    and "ls_conn_id s = Some conn" and "ls_credits s = 0"
  shows "await_loop (rf_link conn mdp) n s r = Some (Inr (), s\<lparr>ls_credits := 1\<rparr>, r\<lparr>rr_queue := q, rr_credit := True\<rparr>)"
  using assms
proof (induction n arbitrary: ns r)
  case (Suc n)
  note frames = credit_frames_read [OF Suc.prems(1,3-5), of mdp]
  have w: "nt_wait_ms (rf_link conn mdp) k r = r" for k by (simp add: rf_link_def)
  show ?case
  proof (cases "after_silence ns")
    case None
    then show ?thesis using frames w by simp
  next
    case (Some ns')
    note ns = after_silence_Some(1) [OF Some, of no_credit] after_silence_Some(2) [OF Some]
    let ?r = "r\<lparr>rr_queue := ns' @ Some (credit_of conn) # q\<rparr>"
    have "await_loop (rf_link conn mdp) (Suc n) s r = await_loop (rf_link conn mdp) n s ?r"
      using frames w Some Suc.prems(5) by simp
    then show ?thesis using Suc.IH [of ns' ?r] ns Suc.prems by simp
  qed
qed simp

section \<open>The answer\<close>

definition credit_wait :: "nci_frame option list \<Rightarrow> bool" where
  "credit_wait ns \<longleftrightarrow> list_all no_credit ns \<and> silent_polls ns < CREDIT_POLLS"

text \<open>Session and controller agree: either the credit is at hand or it is on its way.\<close>

definition in_step :: "u8 \<Rightarrow> listen_session \<Rightarrow> rf_reader \<Rightarrow> bool" where
  "in_step conn s r \<longleftrightarrow> ls_conn_id s = Some conn \<and>
     (ls_credits s = 1 \<and> rr_credit r \<and> rr_queue r = [] \<or>
      ls_credits s = 0 \<and> \<not> rr_credit r \<and> (\<exists>ns. credit_wait ns \<and> rr_queue r = ns @ [Some (credit_of conn)]))"

lemma credit_ready:
  assumes "in_step conn s r"
  shows "(if ls_credits s = 0 then await_credit (rf_link conn mdp) s r else Some (Inr (), s, r)) =
    Some (Inr (), s\<lparr>ls_credits := 1\<rparr>, r\<lparr>rr_queue := [], rr_credit := True\<rparr>)"
proof (cases "ls_credits s = 0")
  case True
  then obtain ns where "credit_wait ns" "rr_queue r = ns @ [Some (credit_of conn)]" "ls_conn_id s = Some conn"
    using assms by (auto simp: in_step_def)
  then show ?thesis using True credit_awaited [of ns 24 r conn "[]" s mdp] by (simp add: credit_wait_def await_credit_def)
next
  case False
  then have "ls_credits s = 1" "rr_credit r" "rr_queue r = []" using assms by (auto simp: in_step_def)
  then show ?thesis using False by (cases s; cases r) simp
qed

lemma cap_bounds: "0 < fragment_cap mdp" "fragment_cap mdp \<le> 253" "mdp \<noteq> 0 \<Longrightarrow> fragment_cap mdp \<le> unat mdp"
  by (auto simp: fragment_cap_def Let_def unat_eq_0 intro: gr0I)

lemma fragment_taken:
  assumes "heapless_vec_ok hx" and "length p \<le> fragment_cap mdp" and "conn \<le> 15" and "rr_credit r" and "rr_queue r = []"
    and "rr_noise r = ns # rest"
  obtains out where "encode_fragment hx conn pbf p = (True, out)"
    "rf_send conn mdp out r = (True, (if pbf then r\<lparr>rr_rapdu := rr_rapdu r @ p\<rparr>
        else r\<lparr>rr_rapdu := [], rr_answers := rr_answers r @ [rr_rapdu r @ p]\<rparr>)
          \<lparr>rr_credit := False, rr_noise := rest, rr_queue := ns @ [Some (credit_of conn)]\<rparr>)"
proof -
  have p: "length p \<le> 255" using assms(2) cap_bounds(2) [of mdp] by simp
  have c: "conn AND CID_MASK = conn"
  proof -
    have "unat conn < 16" using assms(3) by (simp add: word_le_nat_alt)
    then have "take_bit 4 conn = conn" by (simp add: take_bit_eq_mod unat_mod word_unat_eq_iff)
    then show ?thesis by (simp add: take_bit_eq_mask mask_eq_exp_minus_1)
  qed
  let ?out = "snd (encode_fragment hx conn pbf p)"
  have "encode_fragment hx conn pbf p = (True, ?out)" by (simp add: fragment_encoded [OF assms(1) p])
  moreover have "\<not> (mdp \<noteq> 0 \<and> unat mdp < length p)" using assms(2) cap_bounds(3) [of mdp] by auto
  then have "rf_send conn mdp ?out r = (True, (if pbf then r\<lparr>rr_rapdu := rr_rapdu r @ p\<rparr>
        else r\<lparr>rr_rapdu := [], rr_answers := rr_answers r @ [rr_rapdu r @ p]\<rparr>)
          \<lparr>rr_credit := False, rr_noise := rest, rr_queue := ns @ [Some (credit_of conn)]\<rparr>)"
    unfolding rf_send_def fragment_roundtrip [OF assms(1) p] option.case using assms(4-6) c by (simp add: Let_def)
  ultimately show thesis by (rule that)
qed

lemma respond_loop_delivers:
  fixes hx :: heapless_vec and conn mdp :: u8
  defines "cap \<equiv> fragment_cap mdp"
  assumes "heapless_vec_ok hx" and "conn \<le> 15" and "in_step conn s r" and "xs \<noteq> []" and "n = i * cap + length xs"
    and "rr_noise r = nss @ rest" and "length nss = length (chunks cap xs)" and "list_all credit_wait nss"
  shows "respond_loop hx (rf_link conn mdp) conn cap n i (chunks cap xs) s r =
    Some (Inr (), s\<lparr>ls_credits := 0\<rparr>, r\<lparr>rr_rapdu := [], rr_answers := rr_answers r @ [rr_rapdu r @ xs], rr_credit := False,
      rr_noise := rest, rr_queue := last nss @ [Some (credit_of conn)]\<rparr>)"
  using assms(4-)
proof (induction "length xs" arbitrary: xs i s r nss rule: less_induct)
  case less
  have cap: "0 < cap" by (simp add: cap_def cap_bounds)
  let ?x = "take cap xs" and ?rest = "drop cap xs" and ?L = "rf_link conn mdp"
  have c: "chunks cap xs = ?x # chunks cap ?rest" using less.prems(2) cap by (subst chunks.simps) simp
  then obtain ns nss' where ns: "nss = ns # nss'" "length nss' = length (chunks cap ?rest)" using less.prems(5) by (cases nss) auto
  have w: "credit_wait ns" "list_all credit_wait nss'" using less.prems(6) ns by simp_all
  let ?s = "s\<lparr>ls_credits := 1\<rparr>" and ?r = "r\<lparr>rr_queue := [], rr_credit := True\<rparr>"
  have l: "length ?x \<le> fragment_cap mdp" by (simp add: cap_def)
  have pbf: "(i + 1) * cap < n \<longleftrightarrow> ?rest \<noteq> []" using less.prems(3) by auto
  let ?u = "(if ?rest \<noteq> [] then ?r\<lparr>rr_rapdu := rr_rapdu ?r @ ?x\<rparr>
      else ?r\<lparr>rr_rapdu := [], rr_answers := rr_answers ?r @ [rr_rapdu ?r @ ?x]\<rparr>)
        \<lparr>rr_credit := False, rr_noise := nss' @ rest, rr_queue := ns @ [Some (credit_of conn)]\<rparr>"
  obtain out where out: "encode_fragment hx conn (?rest \<noteq> []) ?x = (True, out)" "rf_send conn mdp out ?r = (True, ?u)"
  proof -
    have "rr_credit ?r" "rr_queue ?r = []" "rr_noise ?r = ns # nss' @ rest" using less.prems(4) ns by simp_all
    from fragment_taken [OF assms(2) l assms(3) this] that show thesis by blast
  qed
  have step: "respond_loop hx ?L conn cap n i (chunks cap xs) s r =
      respond_loop hx ?L conn cap n (i + 1) (chunks cap ?rest) (s\<lparr>ls_credits := 0\<rparr>) ?u"
    unfolding c respond_loop.simps credit_ready [OF less.prems(1)] bind.simps prod.case sum.case Let_def pbf out(1) bool.case
    by (simp only: rf_link_def nci_transport.simps out(2) prod.case bool.case) simp
  show ?case
  proof (cases "?rest = []")
    case True
    then have "chunks cap ?rest = []" "nss' = []" "?x = xs" using ns(2) by (simp_all add: chunks.simps)
    then show ?thesis using step True ns(1) by simp
  next
    case False
    have conn: "ls_conn_id s = Some conn" using less.prems(1) by (simp add: in_step_def)
    have "length ?rest < length xs" using less.prems(2) cap by (cases xs) auto
    moreover have "in_step conn (s\<lparr>ls_credits := 0\<rparr>) ?u" using False conn w(1) by (auto simp: in_step_def)
    moreover have "n = (i + 1) * cap + length ?rest" using less.prems(3) False by auto
    moreover have "rr_noise ?u = nss' @ rest" using False by simp
    ultimately have "respond_loop hx ?L conn cap n (i + 1) (chunks cap ?rest) (s\<lparr>ls_credits := 0\<rparr>) ?u =
      Some (Inr (), s\<lparr>ls_credits := 0\<rparr>\<lparr>ls_credits := 0\<rparr>, ?u\<lparr>rr_rapdu := [], rr_answers := rr_answers ?u @ [rr_rapdu ?u @ ?rest],
        rr_credit := False, rr_noise := rest, rr_queue := last nss' @ [Some (credit_of conn)]\<rparr>)"
      using less.hyps False ns(2) w(2) by blast
    moreover have "nss' \<noteq> []" using ns(2) False cap by (auto simp: chunks_Nil_iff)
    ultimately show ?thesis using step False ns(1) by simp
  qed
qed

section \<open>The synthetic card\<close>

definition isd_fci :: bytes where
  "isd_fci = [0x6F, 0x1C, 0x84, 0x08] @ ISD_AID_FCI @ [0x79, 0x01, 0x60, 0x90, 0x0D] @ MARKER"

lemma fci_form: "heapless_vec_ok hx \<Longrightarrow> fci hx [] = isd_fci"
  by (simp add: fci_def tlv_def hx_extend isd_fci_def ISD_AID_FCI_def MARKER_def)

lemma answer_cases:
  assumes "heapless_vec_ok hx" and "answer hx capdu = Some r"
  shows "r \<in> {[0x67, 0x00], [0x90, 0x00], [0x6A, 0x82], isd_fci @ [0x90, 0x00],
    [0x00, 0x00, 0x00] @ replicate 8 0xA5 @ replicate 8 0x5A @ [0x90, 0x00], [0x9F, 0x7F, 0x2D] @ replicate 0x2D 0xA5 @ [0x90, 0x00]}"
proof -
  have "length isd_fci = 30" by (simp add: isd_fci_def ISD_AID_FCI_def MARKER_def)
  then show ?thesis
    using assms(2) by (auto simp: answer_def hx_extend [OF assms(1)] fci_form [OF assms(1)] bind_eq_Some_conv Let_def split: if_splits)
qed

lemma answer_status:
  assumes "heapless_vec_ok hx" and "answer hx capdu = Some r"
  shows "2 \<le> length r \<and> length r \<le> 50 \<and> drop (length r - 2) r \<in> {[0x90, 0x00], [0x6A, 0x82], [0x67, 0x00]}"
proof -
  have f: "length isd_fci = 30" by (simp add: isd_fci_def ISD_AID_FCI_def MARKER_def)
  show ?thesis using answer_cases [OF assms] by (elim insertE emptyE) (simp_all add: f)
qed

text \<open>C18: The synthetic card answers every command except a SELECT of four bytes.  That one, a header without Lc,
  slices past its end and panics.  Every other command, of any length and content, is answered by at most
  50 bytes that end in one of the status words 9000, 6A82 and 6700; the SELECT of the card's own
  identifier is answered by a template that carries the marker text.\<close>

theorem synthetic_card_answers:
  assumes "heapless_vec_ok hx"
  shows "(case answer hx capdu of
      None \<Rightarrow> length capdu = 4 \<and> capdu ! 0 = 0x00 \<and> capdu ! 1 = 0xA4
    | Some rapdu \<Rightarrow> \<not> (length capdu = 4 \<and> capdu ! 0 = 0x00 \<and> capdu ! 1 = 0xA4) \<and>
        2 \<le> length rapdu \<and> length rapdu \<le> 50 \<and> drop (length rapdu - 2) rapdu \<in> {[0x90, 0x00], [0x6A, 0x82], [0x67, 0x00]}) \<and>
    answer hx ([0x00, 0xA4, p1, p2, 7] @ ISD_AID @ rest) =
      Some ([0x6F, 0x1C, 0x84, 0x08] @ ISD_AID_FCI @ [0x79, 0x01, 0x60, 0x90, 0x0D] @ MARKER @ [0x90, 0x00])"
proof -
  have "(answer hx capdu = None) = (length capdu = 4 \<and> capdu ! 0 = 0x00 \<and> capdu ! 1 = 0xA4)"
    by (auto simp: answer_def Let_def slice_def)
  moreover have "answer hx ([0x00, 0xA4, p1, p2, 7] @ ISD_AID @ rest) = Some (isd_fci @ [0x90, 0x00])"
    by (simp add: answer_def hx_extend [OF assms] fci_form [OF assms] slice_def ISD_AID_def isd_fci_def ISD_AID_FCI_def MARKER_def)
  ultimately show ?thesis
    using answer_status [OF assms, of capdu] by (cases "answer hx capdu") (simp_all add: isd_fci_def)
qed

theorem synthetic_card_answers_witness:
  "answer heapless_vec_list [0x00, 0xA4, 0x04, 0x00] = None"
proof -
  have "answer heapless_vec_list [0x00, 0xA4, 0x04, 0x00] \<noteq> Some r" for r
    using synthetic_card_answers [OF heapless_vec_list_ok, of "[0x00, 0xA4, 0x04, 0x00]" 0 0 "[]"] by auto
  then show ?thesis by (cases "answer heapless_vec_list [0x00, 0xA4, 0x04, 0x00]") auto
qed

section \<open>A command and its answer\<close>

text \<open>The DATA packets of a command.\<close>

fun command_frames :: "u8 \<Rightarrow> bytes list \<Rightarrow> nci_frame option list" where
  "command_frames conn [] = []"
| "command_frames conn (p # ps) = Some ((data_frame (ps \<noteq> []) p)\<lparr>nf_gid := conn\<rparr>) # command_frames conn ps"

fun listen_rounds :: "heapless_vec \<Rightarrow> 't nci_transport \<Rightarrow> ('t \<Rightarrow> 't) \<Rightarrow> ('t \<Rightarrow> 't) \<Rightarrow> nat \<Rightarrow> listen_session \<times> 't
    \<Rightarrow> (listen_session \<times> 't) outcome" where
  "listen_rounds hx ops recover idle 0 st = Some st"
| "listen_rounds hx ops recover idle (Suc n) st = do {
     st \<leftarrow> listen_round hx ops recover idle st;
     listen_rounds hx ops recover idle n st
   }"

lemma piece_polled:
  assumes "heapless_vec_ok hx" and "rr_queue r = Some ((data_frame pbf p)\<lparr>nf_gid := conn\<rparr>) # q" and "length p \<le> 255"
    and "ls_conn_id s = None \<or> ls_conn_id s = Some conn" and "length (ls_rx s) + length p \<le> 1024"
  shows "listen_poll hx (rf_link conn' mdp) s r =
    (if pbf then (None, s\<lparr>ls_conn_id := Some conn, ls_rx := ls_rx s @ p\<rparr>, r\<lparr>rr_queue := q\<rparr>)
     else (Some (LApdu (ls_rx s @ p)), s\<lparr>ls_conn_id := Some conn, ls_rx := []\<rparr>, r\<lparr>rr_queue := q\<rparr>))"
proof -
  let ?f = "(data_frame pbf p)\<lparr>nf_gid := conn\<rparr>"
  have f: "\<not> is_wtx_ntf ?f" "\<not> is_conn_credits_ntf ?f" "nf_mt ?f = MT_DATA" "nf_gid ?f = conn" "nf_pbf ?f = pbf"
    "take (nf_len ?f) (nf_payload ?f) = p"
    using assms(3) by (simp_all add: data_frame_def is_wtx_ntf_def is_conn_credits_ntf_def)
  have p: "nt_poll_frame (rf_link conn' mdp) r = (Some ?f, r\<lparr>rr_queue := q\<rparr>)"
    using assms(2) f(2) by (simp add: rf_link_def rf_poll_def)
  have b: "bind_conn conn s = (Inr (), s\<lparr>ls_conn_id := Some conn\<rparr>)" using assms(4) by (auto simp: bind_conn_def)
  show ?thesis
    unfolding listen_poll_def p prod.case option.case
    using f b assms(5) by (simp add: hx_extend [OF assms(1)])
qed

lemma command_assembled:
  assumes "heapless_vec_ok hx" and idle: "\<And>r. idle r = r"
    and "ps \<noteq> []" and "list_all (\<lambda>p. length p \<le> 255) ps" and "rr_queue r = command_frames conn ps"
    and "ls_conn_id s = None \<or> ls_conn_id s = Some conn" and "length (ls_rx s) + length (concat ps) \<le> 1024"
  shows "listen_rounds hx (rf_link conn' mdp) recover idle (length ps) (s, r) = do {
    rapdu \<leftarrow> answer hx (ls_rx s @ concat ps);
    (_, s, r) \<leftarrow> respond hx (rf_link conn' mdp) rapdu (s\<lparr>ls_conn_id := Some conn, ls_rx := []\<rparr>) (r\<lparr>rr_queue := []\<rparr>);
    Some (s, r)
  }"
  using assms(3-)
proof (induction ps arbitrary: s r)
  case (Cons p ps)
  have q: "rr_queue r = Some ((data_frame (ps \<noteq> []) p)\<lparr>nf_gid := conn\<rparr>) # command_frames conn ps" using Cons.prems(3) by simp
  have l: "length p \<le> 255" "length (ls_rx s) + length p \<le> 1024" using Cons.prems(2,5) by simp_all
  note poll = piece_polled [OF assms(1) q l(1) Cons.prems(4) l(2), of conn' mdp]
  show ?case
  proof (cases "ps = []")
    case True
    then show ?thesis using poll by (simp add: listen_round_def split_def)
  next
    case False
    let ?s = "s\<lparr>ls_conn_id := Some conn, ls_rx := ls_rx s @ p\<rparr>" and ?r = "r\<lparr>rr_queue := command_frames conn ps\<rparr>"
    have "listen_round hx (rf_link conn' mdp) recover idle (s, r) = Some (?s, ?r)"
      using poll False by (simp add: listen_round_def idle)
    then have eq: "listen_rounds hx (rf_link conn' mdp) recover idle (length (p # ps)) (s, r) =
        listen_rounds hx (rf_link conn' mdp) recover idle (length ps) (?s, ?r)"
      by (simp only: list.size listen_rounds.simps bind.simps add_Suc_right add_0_right)
    show ?thesis unfolding eq using Cons.IH [OF False, of ?r ?s] Cons.prems by simp
  qed
qed simp

text \<open>C17: Card emulation answers the reader.  On an active session that holds its credit, with nothing else on
  the link and an idle step of the serving loop that leaves the link alone, a command of at most 1024 bytes on which the synthetic card does not panic (it does so only on a
  SELECT 00 A4 of four bytes), however its bytes are spread over DATA packets of at most 255 bytes, is assembled
  and answered, and the reader receives the whole answer, in packets no longer than the controller
  announced and none without a credit: each packet after the first waits for the credit of the one before,
  as long as that wait is silent for fewer than 24 polls.  Session and controller are then in step for the
  next command.\<close>

theorem card_emulation_answers:
  fixes s r
  defines "mdp \<equiv> ls_max_data_payload s"
  assumes "heapless_vec_ok hx" and "conn \<le> 15" and "\<And>r. idle r = r" and "ls_active s" and "ls_conn_id s = None \<or> ls_conn_id s = Some conn"
    and "ls_rx s = []" and "ls_credits s = 1" and "rr_credit r" and "rr_queue r = command_frames conn ps" and "ps \<noteq> []"
    and "list_all (\<lambda>p. length p \<le> 255) ps" and "length (concat ps) \<le> 1024" and "answer hx (concat ps) = Some rapdu"
    and "rr_rapdu r = []" and "rr_noise r = nss @ rest" and "length nss = length (chunks (fragment_cap mdp) rapdu)"
    and "list_all credit_wait nss"
  shows "\<exists>s' r'. listen_rounds hx (rf_link conn mdp) recover idle (length ps) (s, r) = Some (s', r') \<and>
    rr_answers r' = rr_answers r @ [rapdu] \<and> rr_rapdu r' = [] \<and> ls_active s' \<and> ls_rx s' = [] \<and> in_step conn s' r'"
proof -
  let ?s = "s\<lparr>ls_conn_id := Some conn, ls_rx := []\<rparr>" and ?r = "r\<lparr>rr_queue := []\<rparr>" and ?L = "rf_link conn mdp"
  have step: "in_step conn ?s ?r" using assms(8,9) by (simp add: in_step_def)
  have ne: "rapdu \<noteq> []" using answer_status [OF assms(2,14)] by auto
  have cap: "0 < fragment_cap mdp" by (rule cap_bounds)
  have nss: "nss \<noteq> []" using assms(17) ne cap by (auto simp: chunks_Nil_iff)
  have "respond hx ?L rapdu ?s ?r =
      respond_loop hx ?L conn (fragment_cap mdp) (length rapdu) 0 (chunks (fragment_cap mdp) rapdu) ?s ?r"
    using assms(5) ne by (simp add: respond_def mdp_def Let_def)
  also have "\<dots> = Some (Inr (), ?s\<lparr>ls_credits := 0\<rparr>, ?r\<lparr>rr_rapdu := [], rr_answers := rr_answers ?r @ [rr_rapdu ?r @ rapdu],
      rr_credit := False, rr_noise := rest, rr_queue := last nss @ [Some (credit_of conn)]\<rparr>)"
    using assms(16-18) ne by (intro respond_loop_delivers [OF assms(2,3) step]) simp_all
  finally have sent: "respond hx ?L rapdu ?s ?r = Some (Inr (), ?s\<lparr>ls_credits := 0\<rparr>, ?r\<lparr>rr_rapdu := [],
      rr_answers := rr_answers r @ [rapdu], rr_credit := False, rr_noise := rest, rr_queue := last nss @ [Some (credit_of conn)]\<rparr>)"
    using assms(15) by simp
  have "credit_wait (last nss)" using assms(18) nss by (simp add: list_all_iff)
  moreover have "listen_rounds hx ?L recover idle (length ps) (s, r) = do {
      rapdu \<leftarrow> answer hx (concat ps); (_, s, r) \<leftarrow> respond hx ?L rapdu ?s ?r; Some (s, r) }"
    using command_assembled [OF assms(2,4,11,12,10,6), of conn mdp recover] assms(7,13) by simp
  ultimately show ?thesis using assms(5,14) sent by (auto simp: in_step_def)
qed

text \<open>GET DATA in two packets, answered in three of at most 20 bytes.\<close>

definition demo_session :: listen_session where
  "demo_session = \<lparr>ls_active = True, ls_conn_id = None, ls_credits = 1, ls_max_data_payload = 20, ls_rx = []\<rparr>"

definition demo_field :: rf_reader where
  "demo_field = \<lparr>rr_rapdu = [], rr_answers = [], rr_credit = True,
     rr_queue = command_frames 0 [[0x80], [0xCA, 0x9F, 0x7F, 0x00]], rr_noise = [[None], [], [None, None]]\<rparr>"

theorem card_emulation_answers_witness:
  "\<exists>s' r'. listen_rounds heapless_vec_list (rf_link 0 20) (\<lambda>r. r) (\<lambda>r. r) 2 (demo_session, demo_field) = Some (s', r') \<and>
     rr_answers r' = [[0x9F, 0x7F, 0x2D] @ replicate 45 0xA5 @ [0x90, 0x00]]"
proof -
  let ?ps = "[[0x80], [0xCA, 0x9F, 0x7F, 0x00]] :: bytes list" and ?nss = "[[None], [], [None, None]] :: nci_frame option list list"
  let ?a = "[0x9F, 0x7F, 0x2D] @ replicate 45 0xA5 @ [0x90, 0x00] :: bytes"
  have ans: "answer heapless_vec_list (concat ?ps) = Some ?a"
    by (simp add: answer_def hx_extend [OF heapless_vec_list_ok])
  have "length ?nss = length (chunks (fragment_cap (ls_max_data_payload demo_session)) ?a)"
    by (simp add: length_chunks cap_bounds) (simp add: fragment_cap_def demo_session_def)
  moreover have "list_all credit_wait ?nss" by (simp add: credit_wait_def no_credit_def)
  ultimately have "\<exists>s' r'. listen_rounds heapless_vec_list (rf_link 0 (ls_max_data_payload demo_session)) (\<lambda>r. r) (\<lambda>r. r)
      (length ?ps) (demo_session, demo_field) = Some (s', r') \<and> rr_answers r' = rr_answers demo_field @ [?a] \<and>
      rr_rapdu r' = [] \<and> ls_active s' \<and> ls_rx s' = [] \<and> in_step 0 s' r'"
    by (intro card_emulation_answers [where nss = ?nss and rest = "[]", OF heapless_vec_list_ok _ _ _ _ _ _ _ _ _ _ _ ans])
       (simp_all add: demo_session_def demo_field_def)
  then show ?thesis by (simp only: demo_session_def demo_field_def listen_session.simps rf_reader.simps list.size append.simps) (auto simp: numeral_2_eq_2)
qed

end
