(* ===== verification/Nci_Hal.thy ===== *)
theory Nci_Hal
  imports Nci_Exchange
begin

text \<open>
  The PN7160 transport over embedded-hal (\<open>crates/pn7160-nci/src/hal_transport.rs\<close>).  The bus, the two pins
  and the delay are third-party handles onto one chip: a record of operations on one state.  The notification
  stash is a \<open>heapless\<close> queue, a parameter with its documented laws.
\<close>

section \<open>The handles\<close>

record 'i hal =
  i2c_write :: "u8 \<Rightarrow> bytes \<Rightarrow> 'i \<Rightarrow> bool \<times> 'i"
  i2c_read :: "u8 \<Rightarrow> nat \<Rightarrow> 'i \<Rightarrow> bytes option \<times> 'i"
  irq_is_high :: "'i \<Rightarrow> bool option \<times> 'i"
  ven_set :: "bool \<Rightarrow> 'i \<Rightarrow> 'i"
  delay_ms :: "nat \<Rightarrow> 'i \<Rightarrow> 'i"

record 'a heapless_deque =
  dq_is_full :: "nat \<Rightarrow> 'a list \<Rightarrow> bool"
  dq_pop_front :: "'a list \<Rightarrow> 'a option \<times> 'a list"
  dq_push_back :: "nat \<Rightarrow> 'a \<Rightarrow> 'a list \<Rightarrow> bool \<times> 'a list"

definition heapless_deque_ok :: "'a heapless_deque \<Rightarrow> bool" where
  "heapless_deque_ok dq \<longleftrightarrow>
     (\<forall>cap xs. dq_is_full dq cap xs = (length xs = cap)) \<and>
     (\<forall>xs. dq_pop_front dq xs = (case xs of [] \<Rightarrow> (None, []) | x # ys \<Rightarrow> (Some x, ys))) \<and>
     (\<forall>cap x xs. dq_push_back dq cap x xs = (if length xs < cap then (True, xs @ [x]) else (False, xs)))"

definition heapless_deque_list :: "'a heapless_deque" where
  "heapless_deque_list = \<lparr>dq_is_full = (\<lambda>cap xs. length xs = cap),
     dq_pop_front = (\<lambda>xs. case xs of [] \<Rightarrow> (None, []) | x # ys \<Rightarrow> (Some x, ys)),
     dq_push_back = (\<lambda>cap x xs. if length xs < cap then (True, xs @ [x]) else (False, xs))\<rparr>"

lemma heapless_deque_list_ok: "heapless_deque_ok heapless_deque_list"
  by (simp add: heapless_deque_ok_def heapless_deque_list_def)

section \<open>The transport\<close>

abbreviation (input) VEN_HOLD_MS :: nat where "VEN_HOLD_MS \<equiv> 10"
abbreviation (input) VEN_OFF_MS :: nat where "VEN_OFF_MS \<equiv> 50"
abbreviation (input) VEN_SETTLE_MS :: nat where "VEN_SETTLE_MS \<equiv> 50"
abbreviation (input) IRQ_WAIT_BUDGET_MS :: nat where "IRQ_WAIT_BUDGET_MS \<equiv> 200"

datatype hal_link_error = NoAckAfterVenCycle

record 'i hal_transport =
  ht_bus :: 'i
  ht_addr :: u8
  ht_ntf :: "nci_frame list"

definition hal_new :: "'i \<Rightarrow> u8 \<Rightarrow> 'i hal_transport" where
  "hal_new bus addr = \<lparr>ht_bus = bus, ht_addr = addr, ht_ntf = []\<rparr>"

definition ven_cycle :: "'i hal \<Rightarrow> 'i hal_transport \<Rightarrow> 'i hal_transport" where
  "ven_cycle h t =
     (let i = ven_set h True (ht_bus t); i = delay_ms h VEN_HOLD_MS i;
          i = ven_set h False i; i = delay_ms h VEN_OFF_MS i;
          i = ven_set h True i; i = delay_ms h VEN_SETTLE_MS i
      in t\<lparr>ht_bus := i\<rparr>)"

definition hal_link_probe :: "'i hal \<Rightarrow> 'i hal_transport \<Rightarrow> bool \<times> 'i hal_transport" where
  "hal_link_probe h t = (let (ok, i) = i2c_write h (ht_addr t) [] (ht_bus t) in (ok, t\<lparr>ht_bus := i\<rparr>))"

definition hal_bring_up :: "'i hal \<Rightarrow> 'i \<Rightarrow> u8 \<Rightarrow> hal_link_error + 'i hal_transport" where
  "hal_bring_up h bus addr =
     (let (ok, t) = hal_link_probe h (ven_cycle h (hal_new bus addr)) in if ok then Inr t else Inl NoAckAfterVenCycle)"

definition irq_raised :: "'i hal \<Rightarrow> 'i hal_transport \<Rightarrow> bool \<times> 'i hal_transport" where
  "irq_raised h t =
     (let (r, i) = irq_is_high h (ht_bus t) in (case r of Some b \<Rightarrow> b | None \<Rightarrow> False, t\<lparr>ht_bus := i\<rparr>))"

definition read_frame :: "'i hal \<Rightarrow> 'i hal_transport \<Rightarrow> nci_frame option \<times> 'i hal_transport" where
  "read_frame h t =
     (case i2c_read h (ht_addr t) 3 (ht_bus t) of
        (None, i) \<Rightarrow> (None, t\<lparr>ht_bus := i\<rparr>)
      | (Some hdr, i) \<Rightarrow>
          let plen = unat (hdr ! 2) in
          if plen = 0 then (frame_decode hdr, t\<lparr>ht_bus := i\<rparr>)
          else
            (case i2c_read h (ht_addr t) plen i of
               (None, i) \<Rightarrow> (None, t\<lparr>ht_bus := i\<rparr>)
             | (Some p, i) \<Rightarrow> (frame_decode (hdr @ p), t\<lparr>ht_bus := i\<rparr>)))"

definition push_ntf :: "nci_frame heapless_deque \<Rightarrow> nci_frame \<Rightarrow> 'i hal_transport \<Rightarrow> 'i hal_transport" where
  "push_ntf dq f t =
     (let ntf = (if dq_is_full dq NTF_STASH_SLOTS (ht_ntf t) then snd (dq_pop_front dq (ht_ntf t)) else ht_ntf t)
      in t\<lparr>ht_ntf := snd (dq_push_back dq NTF_STASH_SLOTS f ntf)\<rparr>)"

definition pop_ntf :: "nci_frame heapless_deque \<Rightarrow> 'i hal_transport \<Rightarrow> nci_frame option \<times> 'i hal_transport" where
  "pop_ntf dq t = (let (f, ntf) = dq_pop_front dq (ht_ntf t) in (f, t\<lparr>ht_ntf := ntf\<rparr>))"

definition hal_send :: "'i hal \<Rightarrow> bytes \<Rightarrow> 'i hal_transport \<Rightarrow> bool \<times> 'i hal_transport" where
  "hal_send h cmd t = (let (ok, i) = i2c_write h (ht_addr t) cmd (ht_bus t) in (ok, t\<lparr>ht_bus := i\<rparr>))"

definition hal_poll_frame :: "'i hal \<Rightarrow> 'i hal_transport \<Rightarrow> nci_frame option \<times> 'i hal_transport" where
  "hal_poll_frame h t = (let (up, t) = irq_raised h t in if up then read_frame h t else (None, t))"

text \<open>The wait for the reply; no result is a chip that never stops sending notifications.\<close>

partial_function (option) hal_transact_loop ::
  "nci_frame heapless_deque \<Rightarrow> 'i hal \<Rightarrow> nat \<Rightarrow> 'i hal_transport \<Rightarrow> (nci_frame option \<times> 'i hal_transport) option" where
  "hal_transact_loop dq h waited t =
     (let (up, t) = irq_raised h t in
      if up then
        (case read_frame h t of
           (None, t) \<Rightarrow> Some (None, t)
         | (Some f, t) \<Rightarrow>
             if is_transact_reply f then Some (Some f, t) else hal_transact_loop dq h waited (push_ntf dq f t))
      else if IRQ_WAIT_BUDGET_MS \<le> waited then Some (None, t)
      else hal_transact_loop dq h (waited + 1) (t\<lparr>ht_bus := delay_ms h 1 (ht_bus t)\<rparr>))"

definition hal_transact :: "nci_frame heapless_deque \<Rightarrow> 'i hal \<Rightarrow> bytes \<Rightarrow> 'i hal_transport
    \<Rightarrow> (nci_frame option \<times> 'i hal_transport) option" where
  "hal_transact dq h cmd t =
     (let (ok, i) = i2c_write h (ht_addr t) cmd (ht_bus t); t = t\<lparr>ht_bus := i\<rparr> in
      if \<not> ok then Some (None, t) else hal_transact_loop dq h 0 t)"

definition hal_drain :: "nci_frame heapless_deque \<Rightarrow> 'i hal \<Rightarrow> 'i hal_transport \<Rightarrow> nci_frame option \<times> 'i hal_transport" where
  "hal_drain dq h t =
     (case pop_ntf dq t of
        (Some f, t) \<Rightarrow> (Some f, t)
      | (None, t) \<Rightarrow> (let (up, t) = irq_raised h t in if up then read_frame h t else (None, t)))"

definition hal_wait_ms :: "'i hal \<Rightarrow> nat \<Rightarrow> 'i hal_transport \<Rightarrow> 'i hal_transport" where
  "hal_wait_ms h ms t = t\<lparr>ht_bus := delay_ms h (ms mod 2 ^ 32) (ht_bus t)\<rparr>"

text \<open>The transport as the driver sees it.  A transaction that does not return has no value; under the
  contract below every transaction returns.\<close>

definition hal_link :: "nci_frame heapless_deque \<Rightarrow> 'i hal \<Rightarrow> 'i hal_transport nci_transport" where
  "hal_link dq h = \<lparr>nt_send = hal_send h, nt_poll_frame = hal_poll_frame h, nt_transact = (\<lambda>cmd t. the (hal_transact dq h cmd t)),
     nt_drain = hal_drain dq h, nt_wait_ms = hal_wait_ms h, nt_link_probe = hal_link_probe h\<rparr>"

section \<open>The contract of the chip\<close>

text \<open>The chip is idle (\<open>chip_inv\<close>) or, after the header of a frame with a payload, has that payload due.  What
  the two reads return is a frame the parsers accept.  \<open>waiting\<close> measures what the chip has to say: the
  interrupt line is high only when there is something, and the read of a header takes from it; only the
  passing of time and a command add to it.  Only the delay lets time pass.\<close>

locale hal_chip =
  fixes h :: "'i hal" and chip_inv :: "'i \<Rightarrow> bool" and payload_due :: "bytes \<Rightarrow> 'i \<Rightarrow> bool"
    and waiting :: "'i \<Rightarrow> nat" and clock :: "'i \<Rightarrow> nat"
  assumes write_ok: "chip_inv i \<Longrightarrow> i2c_write h a cmd i = (b, i') \<Longrightarrow> chip_inv i' \<and> clock i' = clock i"
    and irq_ok: "chip_inv i \<Longrightarrow> irq_is_high h i = (r, i') \<Longrightarrow> chip_inv i' \<and> clock i' = clock i \<and> waiting i' = waiting i"
    and irq_waiting: "chip_inv i \<Longrightarrow> irq_is_high h i = (Some True, i') \<Longrightarrow> 0 < waiting i"
    and header_none: "chip_inv i \<Longrightarrow> i2c_read h a 3 i = (None, i') \<Longrightarrow> chip_inv i' \<and> clock i' = clock i"
    and header_some: "chip_inv i \<Longrightarrow> i2c_read h a 3 i = (Some hdr, i') \<Longrightarrow>
      clock i' = clock i \<and> (0 < waiting i \<longrightarrow> waiting i' < waiting i) \<and>
      (if hdr ! 2 = 0 then chip_inv i' \<and> raw_sane hdr else payload_due hdr i')"
    and payload_none: "payload_due hdr i \<Longrightarrow> i2c_read h a (unat (hdr ! 2)) i = (None, i') \<Longrightarrow> chip_inv i' \<and> clock i' = clock i"
    and payload_some: "payload_due hdr i \<Longrightarrow> i2c_read h a (unat (hdr ! 2)) i = (Some p, i') \<Longrightarrow>
      chip_inv i' \<and> clock i' = clock i \<and> waiting i' \<le> waiting i \<and> raw_sane (hdr @ p)"
    and delay_ok: "chip_inv i \<Longrightarrow> chip_inv (delay_ms h n i) \<and> clock (delay_ms h n i) \<le> clock i + n"

definition ht_ok :: "('i \<Rightarrow> bool) \<Rightarrow> 'i hal_transport \<Rightarrow> bool" where
  "ht_ok chip_inv t \<longleftrightarrow> chip_inv (ht_bus t) \<and> list_all frame_sane (ht_ntf t) \<and> length (ht_ntf t) \<le> NTF_STASH_SLOTS"

context hal_chip
begin

lemma irq_raised_ok:
  assumes "chip_inv (ht_bus t)" and "irq_raised h t = (up, t')"
  shows "chip_inv (ht_bus t') \<and> clock (ht_bus t') = clock (ht_bus t) \<and> waiting (ht_bus t') = waiting (ht_bus t) \<and>
    ht_ntf t' = ht_ntf t \<and> (up \<longrightarrow> 0 < waiting (ht_bus t'))"
proof -
  obtain r i where i: "irq_is_high h (ht_bus t) = (r, i)" by (cases "irq_is_high h (ht_bus t)") auto
  note ok = irq_ok [OF assms(1) i]
  have "up \<longrightarrow> 0 < waiting (ht_bus t)" using irq_waiting [OF assms(1)] i assms(2) by (auto simp: irq_raised_def split: option.splits)
  then show ?thesis using ok i assms(2) by (auto simp: irq_raised_def)
qed

lemma read_frame_ok:
  assumes "chip_inv (ht_bus t)" and "read_frame h t = (r, t')"
  shows "chip_inv (ht_bus t') \<and> clock (ht_bus t') = clock (ht_bus t) \<and> ht_ntf t' = ht_ntf t \<and>
    (r \<noteq> None \<and> 0 < waiting (ht_bus t) \<longrightarrow> waiting (ht_bus t') < waiting (ht_bus t)) \<and> (\<forall>f. r = Some f \<longrightarrow> frame_sane f)"
proof -
  obtain q i where q: "i2c_read h (ht_addr t) 3 (ht_bus t) = (q, i)" by (cases "i2c_read h (ht_addr t) 3 (ht_bus t)") auto
  show ?thesis
  proof (cases q)
    case None
    then show ?thesis using header_none [OF assms(1)] q assms(2) by (auto simp: read_frame_def)
  next
    case (Some hdr)
    note i = header_some [OF assms(1) q [unfolded Some]]
    show ?thesis
    proof (cases "hdr ! 2 = 0")
      case True
      then show ?thesis using Some q i assms(2) by (auto simp: read_frame_def raw_sane_def split: option.splits)
    next
      case False
      then have due: "payload_due hdr i" "unat (hdr ! 2) \<noteq> 0" using i by (simp_all add: unat_eq_0)
      obtain p j where p: "i2c_read h (ht_addr t) (unat (hdr ! 2)) i = (p, j)"
        by (cases "i2c_read h (ht_addr t) (unat (hdr ! 2)) i") auto
      show ?thesis
      proof (cases p)
        case None
        then show ?thesis using payload_none [OF due(1)] p Some q i due assms(2) by (auto simp: read_frame_def)
      next
        case (Some d)
        then show ?thesis
          using payload_some [OF due(1) p [unfolded Some]] p \<open>q = Some hdr\<close> q i due assms(2)
          by (auto simp: read_frame_def raw_sane_def split: option.splits)
      qed
    qed
  qed
qed

lemma push_ntf_form:
  assumes "heapless_deque_ok dq" and "length (ht_ntf t) \<le> 4"
  shows "push_ntf dq f t = t\<lparr>ht_ntf := drop (length (ht_ntf t) - 3) (ht_ntf t) @ [f]\<rparr>"
proof (cases "length (ht_ntf t) = 4")
  case True
  then obtain x xs where "ht_ntf t = x # xs" by (cases "ht_ntf t") auto
  then show ?thesis using True assms(1) by (simp add: push_ntf_def heapless_deque_ok_def)
qed (use assms in \<open>simp add: push_ntf_def heapless_deque_ok_def\<close>)

lemma push_ntf_ok:
  assumes "heapless_deque_ok dq" and "ht_ok chip_inv t" and "frame_sane f"
  shows "ht_ok chip_inv (push_ntf dq f t) \<and> ht_bus (push_ntf dq f t) = ht_bus t"
proof -
  have "list_all frame_sane (drop k (ht_ntf t))" for k using assms(2) by (auto simp: ht_ok_def list_all_iff dest: in_set_dropD)
  then show ?thesis using assms push_ntf_form [OF assms(1), of t f] by (auto simp: ht_ok_def)
qed

lemma transact_loop_returns:
  assumes "heapless_deque_ok dq" and "ht_ok chip_inv t" and "waited \<le> 200"
  shows "\<exists>r t'. hal_transact_loop dq h waited t = Some (r, t') \<and> ht_ok chip_inv t' \<and>
    clock (ht_bus t') \<le> clock (ht_bus t) + (200 - waited) \<and> (\<forall>f. r = Some f \<longrightarrow> frame_sane f \<and> is_transact_reply f)"
proof -
  have "wf (measures [\<lambda>(w, t). 200 - w, \<lambda>(w, t). waiting (ht_bus t)] :: ((nat \<times> 'i hal_transport) \<times> _) set)" by simp
  then show ?thesis using assms(2,3)
  proof (induction "(waited, t)" arbitrary: waited t rule: wf_induct_rule)
    case (less waited t)
    obtain up t1 where u: "irq_raised h t = (up, t1)" by (cases "irq_raised h t") auto
    have t: "chip_inv (ht_bus t)" using less.prems by (simp add: ht_ok_def)
    note u1 = irq_raised_ok [OF t u]
    have t1: "ht_ok chip_inv t1" using u1 less.prems by (simp add: ht_ok_def)
    show ?case
    proof (cases up)
      case False
      show ?thesis
      proof (cases "200 \<le> waited")
        case True
        then show ?thesis using False u u1 t1 by (subst hal_transact_loop.simps) simp
      next
        case w: False
        let ?t = "t1\<lparr>ht_bus := delay_ms h 1 (ht_bus t1)\<rparr>"
        have "chip_inv (ht_bus t1)" using u1 by blast
        note d = delay_ok [OF this, of 1]
        have "ht_ok chip_inv ?t" using d t1 by (simp add: ht_ok_def)
        moreover have "200 - (waited + 1) < 200 - waited" "waited + 1 \<le> 200" using w by linarith+
        ultimately obtain r t' where
          "hal_transact_loop dq h (waited + 1) ?t = Some (r, t')" "ht_ok chip_inv t'" "clock (ht_bus t') \<le> clock (ht_bus ?t) + (200 - (waited + 1))"
          "\<forall>f. r = Some f \<longrightarrow> frame_sane f \<and> is_transact_reply f" using less.hyps [of "waited + 1" ?t] by auto
        then show ?thesis using False w u u1 d by (subst hal_transact_loop.simps) auto
      qed
    next
      case True
      obtain q t2 where q: "read_frame h t1 = (q, t2)" by (cases "read_frame h t1") auto
      have "chip_inv (ht_bus t1)" using u1 by blast
      note q1 = read_frame_ok [OF this q]
      have t2: "ht_ok chip_inv t2" using q1 t1 by (simp add: ht_ok_def)
      show ?thesis
      proof (cases "\<exists>f. q = Some f \<and> \<not> is_transact_reply f")
        case False
        then show ?thesis using True u u1 q q1 t2 by (cases q) (subst hal_transact_loop.simps, auto)+
      next
        case n: True
        then obtain f where f: "q = Some f" "\<not> is_transact_reply f" by blast
        let ?t = "push_ntf dq f t2"
        have p: "ht_ok chip_inv ?t" "ht_bus ?t = ht_bus t2" using push_ntf_ok [OF assms(1) t2] q1 f by auto
        have "waiting (ht_bus ?t) < waiting (ht_bus t)" using p u1 q1 True f by auto
        with less.hyps [of waited ?t] less.prems p obtain r t' where
          "hal_transact_loop dq h waited ?t = Some (r, t')" "ht_ok chip_inv t'" "clock (ht_bus t') \<le> clock (ht_bus ?t) + (200 - waited)"
          "\<forall>f. r = Some f \<longrightarrow> frame_sane f \<and> is_transact_reply f" by auto
        then show ?thesis using True f u u1 q q1 p by (subst hal_transact_loop.simps) auto
      qed
    qed
  qed
qed

lemma transact_returns:
  assumes "heapless_deque_ok dq" and "ht_ok chip_inv t"
  shows "\<exists>r t'. hal_transact dq h cmd t = Some (r, t') \<and> ht_ok chip_inv t' \<and>
    clock (ht_bus t') \<le> clock (ht_bus t) + 200 \<and> (\<forall>f. r = Some f \<longrightarrow> frame_sane f \<and> is_transact_reply f)"
proof -
  obtain b i where w: "i2c_write h (ht_addr t) cmd (ht_bus t) = (b, i)" by (cases "i2c_write h (ht_addr t) cmd (ht_bus t)") auto
  have "chip_inv (ht_bus t)" using assms(2) by (simp add: ht_ok_def)
  note i = write_ok [OF this w]
  have t: "ht_ok chip_inv (t\<lparr>ht_bus := i\<rparr>)" using i assms(2) by (simp add: ht_ok_def)
  show ?thesis using transact_loop_returns [OF assms(1) t, of 0] w t i by (cases b) (auto simp: hal_transact_def)
qed

lemma polled_ok:
  assumes "ht_ok chip_inv t" and "irq_raised h t = (up, t1)" and "(if up then read_frame h t1 else (None, t1)) = (r, t')"
  shows "ht_ok chip_inv t' \<and> (\<forall>f. r = Some f \<longrightarrow> frame_sane f)"
proof -
  have t1: "ht_ok chip_inv t1" using irq_raised_ok [OF _ assms(2)] assms(1) by (simp add: ht_ok_def)
  show ?thesis
  proof (cases up)
    case True
    have "chip_inv (ht_bus t1)" using t1 by (simp add: ht_ok_def)
    from read_frame_ok [OF this, of r t'] True assms(3) t1 show ?thesis by (simp add: ht_ok_def)
  qed (use assms(3) t1 in simp)
qed

lemma hal_nci_link:
  assumes "heapless_deque_ok dq" and "heapless_vec_ok hx"
  shows "nci_link hx (hal_link dq h) (ht_ok chip_inv)"
proof
  fix t cmd b t'
  assume "ht_ok chip_inv t" and "nt_send (hal_link dq h) cmd t = (b, t')"
  then show "ht_ok chip_inv t'" using write_ok by (auto simp: hal_link_def hal_send_def ht_ok_def split: prod.splits)
next
  fix t r t'
  assume t: "ht_ok chip_inv t" and "nt_poll_frame (hal_link dq h) t = (r, t')"
  then obtain up t1 where u: "irq_raised h t = (up, t1)" "(if up then read_frame h t1 else (None, t1)) = (r, t')"
    by (cases "irq_raised h t") (auto simp: hal_link_def hal_poll_frame_def)
  from polled_ok [OF t this] show "ht_ok chip_inv t' \<and> (\<forall>f. r = Some f \<longrightarrow> frame_sane f)" .
next
  fix t r t'
  assume t: "ht_ok chip_inv t" and d: "nt_drain (hal_link dq h) t = (r, t')"
  show "ht_ok chip_inv t' \<and> (\<forall>f. r = Some f \<longrightarrow> frame_sane f)"
  proof (cases "ht_ntf t")
    case (Cons f fs)
    then show ?thesis using t d assms(1) by (auto simp: hal_link_def hal_drain_def pop_ntf_def heapless_deque_ok_def ht_ok_def)
  next
    case Nil
    then have same: "t\<lparr>ht_ntf := []\<rparr> = t" by (cases t) simp
    obtain up t1 where u: "irq_raised h t = (up, t1)" "(if up then read_frame h t1 else (None, t1)) = (r, t')"
      using Nil d assms(1)
      by (cases "irq_raised h t") (auto simp: hal_link_def hal_drain_def pop_ntf_def heapless_deque_ok_def same)
    from polled_ok [OF t this] show ?thesis .
  qed
next
  fix t cmd r t'
  assume t: "ht_ok chip_inv t" and "nt_transact (hal_link dq h) cmd t = (r, t')"
  then show "ht_ok chip_inv t' \<and> (\<forall>f. r = Some f \<longrightarrow> frame_sane f)"
    using transact_returns [OF assms(1) t, of cmd] by (auto simp: hal_link_def)
next
  fix t ms
  assume "ht_ok chip_inv t"
  then show "ht_ok chip_inv (nt_wait_ms (hal_link dq h) ms t)" using delay_ok by (simp add: hal_link_def hal_wait_ms_def ht_ok_def)
next
  fix t b t'
  assume "ht_ok chip_inv t" and "nt_link_probe (hal_link dq h) t = (b, t')"
  then show "ht_ok chip_inv t'" using write_ok by (auto simp: hal_link_def hal_link_probe_def ht_ok_def split: prod.splits)
qed (rule assms(2))

end

section \<open>A chip\<close>

text \<open>A chip that holds frames to be read and brings new ones as time passes.  Its interrupt line is high while
  it holds a frame; a read without one is not acknowledged.\<close>

record chip =
  cp_frames :: "bytes list"
  cp_payload :: bytes
  cp_later :: "bytes list list"
  cp_written :: "bytes list"
  cp_ms :: nat

definition chip_hal :: "chip hal" where
  "chip_hal = \<lparr>i2c_write = (\<lambda>a cmd c. (True, c\<lparr>cp_written := cp_written c @ [cmd]\<rparr>)),
     i2c_read = (\<lambda>a n c.
       if cp_payload c \<noteq> [] then (Some (cp_payload c), c\<lparr>cp_payload := []\<rparr>)
       else (case cp_frames c of
               [] \<Rightarrow> (None, c)
             | f # fs \<Rightarrow> (Some (take 3 f), c\<lparr>cp_frames := fs, cp_payload := drop 3 f\<rparr>))),
     irq_is_high = (\<lambda>c. (Some (cp_frames c \<noteq> []), c)),
     ven_set = (\<lambda>b c. c),
     delay_ms = (\<lambda>n c. c\<lparr>cp_ms := cp_ms c + n, cp_frames := cp_frames c @ concat (take n (cp_later c)), cp_later := drop n (cp_later c)\<rparr>)\<rparr>"

definition raw_frame :: "bytes \<Rightarrow> bool" where
  "raw_frame f \<longleftrightarrow> 3 \<le> length f \<and> length f = 3 + unat (f ! 2) \<and> raw_sane f"

definition chip_ok :: "chip \<Rightarrow> bool" where
  "chip_ok c \<longleftrightarrow> cp_payload c = [] \<and> list_all raw_frame (cp_frames c) \<and> list_all (list_all raw_frame) (cp_later c)"

definition chip_due :: "bytes \<Rightarrow> chip \<Rightarrow> bool" where
  "chip_due hdr c \<longleftrightarrow> cp_payload c \<noteq> [] \<and> chip_ok (c\<lparr>cp_payload := []\<rparr>) \<and> raw_sane (hdr @ cp_payload c)"

interpretation chip: hal_chip chip_hal chip_ok chip_due "\<lambda>c. length (cp_frames c)" cp_ms
proof
  fix i a hdr i'
  assume i: "chip_ok i" and r: "i2c_read chip_hal a 3 i = (Some hdr, i')"
  then obtain f fs where f: "cp_frames i = f # fs" "hdr = take 3 f" "i' = i\<lparr>cp_frames := fs, cp_payload := drop 3 f\<rparr>"
    by (auto simp: chip_hal_def chip_ok_def split: list.splits)
  then have "raw_frame f" using i by (simp add: chip_ok_def)
  then have g: "3 \<le> length f" "length f = 3 + unat (hdr ! 2)" "raw_sane f" using f(2) by (auto simp: raw_frame_def)
  have "hdr ! 2 = 0 \<Longrightarrow> f = hdr" using g f(2) by simp
  moreover have "hdr ! 2 \<noteq> 0 \<Longrightarrow> drop 3 f \<noteq> []" using g by (simp add: unat_eq_0)
  ultimately show "cp_ms i' = cp_ms i \<and> (0 < length (cp_frames i) \<longrightarrow> length (cp_frames i') < length (cp_frames i)) \<and>
      (if hdr ! 2 = 0 then chip_ok i' \<and> raw_sane hdr else chip_due hdr i')"
    using i f g by (auto simp: chip_ok_def chip_due_def)
next
  fix i n
  assume "chip_ok i"
  then show "chip_ok (delay_ms chip_hal n i) \<and> cp_ms (delay_ms chip_hal n i) \<le> cp_ms i + n"
    by (auto simp: chip_hal_def chip_ok_def list_all_iff dest: in_set_takeD in_set_dropD)
qed (auto simp: chip_hal_def chip_ok_def chip_due_def split: list.splits if_splits)

interpretation chip_nci: nci_link heapless_vec_list "hal_link heapless_deque_list chip_hal" "ht_ok chip_ok"
  by (rule chip.hal_nci_link [OF heapless_deque_list_ok heapless_vec_list_ok])

text \<open>A transaction returns in time.  On any chip that meets the contract, a transaction over the embedded-hal
  transport ends, after at most 200 ms of delays, even when the chip sends notifications throughout.  What
  it returns is never a notification, and the stash never holds more than four frames.\<close>

theorem hal_transact_returns:
  assumes "hal_chip h chip_inv payload_due waiting clock" and "heapless_deque_ok dq" and "ht_ok chip_inv t"
  shows "\<exists>r t'. hal_transact dq h cmd t = Some (r, t') \<and> clock (ht_bus t') \<le> clock (ht_bus t) + IRQ_WAIT_BUDGET_MS \<and>
    (case r of None \<Rightarrow> True | Some f \<Rightarrow> nf_mt f \<noteq> MT_NTF) \<and> length (ht_ntf t') \<le> NTF_STASH_SLOTS \<and> ht_ok chip_inv t'"
proof -
  from hal_chip.transact_returns [OF assms] obtain r t' where
    "hal_transact dq h cmd t = Some (r, t')" "ht_ok chip_inv t'" "clock (ht_bus t') \<le> clock (ht_bus t) + 200"
      "\<forall>f. r = Some f \<longrightarrow> frame_sane f \<and> is_transact_reply f" by blast
  then show ?thesis by (auto simp: ht_ok_def is_transact_reply_def split: option.split)
qed

theorem hal_transact_returns_witness:
  "\<exists>r t'. hal_transact heapless_deque_list chip_hal CORE_RESET
      (hal_new \<lparr>cp_frames = [], cp_payload = [], cp_later = [[], [[0x60, 0x00, 0x01, 0x00]]], cp_written = [], cp_ms = 0\<rparr> 0x28) =
    Some (r, t') \<and> cp_ms (ht_bus t') \<le> 200"
proof -
  let ?t = "hal_new \<lparr>cp_frames = [], cp_payload = [], cp_later = [[], [[0x60, 0x00, 0x01, 0x00]]], cp_written = [], cp_ms = 0\<rparr> 0x28"
  have "raw_sane [0x60, 0x00, 0x01, 0x00]" by code_simp
  then have "ht_ok chip_ok ?t" by (simp add: ht_ok_def hal_new_def chip_ok_def raw_frame_def)
  from hal_transact_returns [OF chip.hal_chip_axioms heapless_deque_list_ok this, of CORE_RESET] show ?thesis
    by (auto simp: hal_new_def)
qed

section \<open>Routing of replies and notifications\<close>

definition ntf_raw :: "bytes \<Rightarrow> bool" where
  "ntf_raw f \<longleftrightarrow> raw_frame f \<and> (case frame_decode f of Some g \<Rightarrow> \<not> is_transact_reply g | None \<Rightarrow> False)"

definition newest :: "nat \<Rightarrow> 'a list \<Rightarrow> 'a list" where
  "newest n xs = drop (length xs - n) xs"

lemma chip_reads:
  assumes "raw_frame f" and "cp_frames (ht_bus t) = f # fs" and "cp_payload (ht_bus t) = []"
  shows "irq_raised chip_hal t = (True, t)" "read_frame chip_hal t = (frame_decode f, t\<lparr>ht_bus := (ht_bus t)\<lparr>cp_frames := fs\<rparr>\<rparr>)"
proof -
  have n: "length f = 3 + unat (f ! 2)" "3 \<le> length f" "take 3 f ! 2 = f ! 2" using assms(1) by (auto simp: raw_frame_def)
  show "irq_raised chip_hal t = (True, t)" using assms(2) by (simp add: irq_raised_def chip_hal_def)
  have z: "(ht_bus t)\<lparr>cp_frames := fs, cp_payload := []\<rparr> = (ht_bus t)\<lparr>cp_frames := fs\<rparr>" using assms(3) by (cases "ht_bus t") simp
  show "read_frame chip_hal t = (frame_decode f, t\<lparr>ht_bus := (ht_bus t)\<lparr>cp_frames := fs\<rparr>\<rparr>)"
  proof (cases "drop 3 f = []")
    case True
    then show ?thesis using assms n z by (simp add: read_frame_def chip_hal_def)
  next
    case False
    then show ?thesis using assms n z by (simp add: read_frame_def chip_hal_def)
  qed
qed

lemma length_newest: "length (newest n xs) \<le> n"
  by (simp add: newest_def)

lemma newest_again: "newest n (newest n xs @ ys) = newest n (xs @ ys)"
proof (cases "length xs \<le> n")
  case False
  let ?k = "length xs - n"
  have "newest n (newest n xs @ ys) = drop (length ys) (drop ?k xs @ ys)" using False by (simp add: newest_def)
  also have "\<dots> = drop (length ys) (drop ?k (xs @ ys))" by simp
  also have "\<dots> = drop (length ys + ?k) (xs @ ys)" by (simp only: drop_drop)
  also have "length ys + ?k = length (xs @ ys) - n" using False by simp
  finally show ?thesis by (simp only: newest_def)
qed (simp add: newest_def)

lemma chip_transact_loop:
  assumes "heapless_deque_ok dq" and "list_all ntf_raw ns" and "raw_frame rep" and "frame_decode rep = Some f" and "is_transact_reply f"
    and "cp_frames (ht_bus t) = ns @ rep # rest" and "cp_payload (ht_bus t) = []" and "length (ht_ntf t) \<le> 4"
  shows "hal_transact_loop dq chip_hal waited t =
    Some (Some f, t\<lparr>ht_bus := (ht_bus t)\<lparr>cp_frames := rest\<rparr>, ht_ntf := newest 4 (ht_ntf t @ map (the \<circ> frame_decode) ns)\<rparr>)"
  using assms(2,6-8)
proof (induction ns arbitrary: t)
  case Nil
  have "newest 4 (ht_ntf t) = ht_ntf t" using Nil.prems(4) by (simp add: newest_def)
  then show ?case
    using chip_reads [OF assms(3), of t rest] Nil.prems assms(4,5) by (subst hal_transact_loop.simps) (cases t, simp)
next
  case (Cons n ns)
  from Cons.prems(1) obtain g where n: "raw_frame n" "frame_decode n = Some g" "\<not> is_transact_reply g"
    by (auto simp: ntf_raw_def split: option.splits)
  let ?t = "t\<lparr>ht_bus := (ht_bus t)\<lparr>cp_frames := ns @ rep # rest\<rparr>\<rparr>"
  let ?u = "?t\<lparr>ht_ntf := drop (length (ht_ntf t) - 3) (ht_ntf t) @ [g]\<rparr>"
  have "push_ntf dq g ?t = ?u" using chip.push_ntf_form [OF assms(1), of ?t g] Cons.prems(4) by simp
  then have "hal_transact_loop dq chip_hal waited t = hal_transact_loop dq chip_hal waited ?u"
    using chip_reads [OF n(1), of t "ns @ rep # rest"] Cons.prems n(2,3) by (subst hal_transact_loop.simps) simp
  moreover have "drop (length (ht_ntf t) - 3) (ht_ntf t) @ [g] = newest 4 (ht_ntf t @ [g])" by (simp add: newest_def)
  ultimately show ?case using Cons.IH [of ?u] Cons.prems n(2) newest_again [of 4 "ht_ntf t @ [g]"] length_newest [of 4 "ht_ntf t @ [g]"] by simp
qed

text \<open>Replies and notifications are told apart.  When the chip holds notifications and behind them the reply, a
  transaction sends its command, returns the reply without a delay, and leaves what follows with the chip;
  of the notifications it met, together with those stashed before, it keeps the newest four in order.
  The next drain hands out the oldest of them first.\<close>

theorem hal_transact_routes:
  assumes "heapless_deque_ok dq" and "list_all ntf_raw ns" and "raw_frame rep" and "frame_decode rep = Some f" and "is_transact_reply f"
    and "cp_frames (ht_bus t) = ns @ rep # rest" and "cp_payload (ht_bus t) = []" and "length (ht_ntf t) \<le> NTF_STASH_SLOTS"
  defines "stash \<equiv> newest NTF_STASH_SLOTS (ht_ntf t @ map (the \<circ> frame_decode) ns)"
  shows "\<exists>t'. hal_transact dq chip_hal cmd t = Some (Some f, t') \<and> ht_ntf t' = stash \<and>
    cp_frames (ht_bus t') = rest \<and> cp_written (ht_bus t') = cp_written (ht_bus t) @ [cmd] \<and> cp_ms (ht_bus t') = cp_ms (ht_bus t) \<and>
    (case stash of [] \<Rightarrow> True | g # gs \<Rightarrow> hal_drain dq chip_hal t' = (Some g, t'\<lparr>ht_ntf := gs\<rparr>))"
proof -
  let ?t = "t\<lparr>ht_bus := (ht_bus t)\<lparr>cp_written := cp_written (ht_bus t) @ [cmd]\<rparr>\<rparr>"
  let ?u = "?t\<lparr>ht_bus := (ht_bus ?t)\<lparr>cp_frames := rest\<rparr>, ht_ntf := stash\<rparr>"
  have "hal_transact_loop dq chip_hal 0 ?t = Some (Some f, ?u)"
    using chip_transact_loop [OF assms(1-5), of ?t rest 0] assms(6-8) by (simp add: stash_def)
  then have "hal_transact dq chip_hal cmd t = Some (Some f, ?u)" by (simp add: hal_transact_def) (simp add: chip_hal_def)
  moreover have "case stash of [] \<Rightarrow> True | g # gs \<Rightarrow> hal_drain dq chip_hal ?u = (Some g, ?u\<lparr>ht_ntf := gs\<rparr>)"
    using assms(1) by (simp add: hal_drain_def pop_ntf_def heapless_deque_ok_def split: list.split)
  ultimately show ?thesis by (intro exI [of _ ?u]) simp
qed

theorem hal_transact_routes_witness:
  "\<exists>t'. hal_transact heapless_deque_list chip_hal CORE_INIT
      (hal_new \<lparr>cp_frames = [[0x60, 0x06, 0x00], [0x40, 0x01, 0x01, 0x00]], cp_payload = [], cp_later = [], cp_written = [], cp_ms = 0\<rparr> 0x28) =
    Some (frame_decode [0x40, 0x01, 0x01, 0x00], t') \<and> ht_ntf t' = [the (frame_decode [0x60, 0x06, 0x00])]"
proof -
  let ?t = "hal_new \<lparr>cp_frames = [[0x60, 0x06, 0x00], [0x40, 0x01, 0x01, 0x00]], cp_payload = [], cp_later = [], cp_written = [], cp_ms = 0\<rparr> 0x28"
  have n: "list_all ntf_raw [[0x60, 0x06, 0x00]]" by code_simp
  have r: "raw_frame [0x40, 0x01, 0x01, 0x00]" by code_simp
  have "(case frame_decode [0x40, 0x01, 0x01, 0x00] of Some f \<Rightarrow> is_transact_reply f | None \<Rightarrow> False)" by code_simp
  then obtain f where f: "frame_decode [0x40, 0x01, 0x01, 0x00] = Some f" "is_transact_reply f" by (auto split: option.splits)
  have "newest NTF_STASH_SLOTS (ht_ntf ?t @ map (the \<circ> frame_decode) [[0x60, 0x06, 0x00]]) = [the (frame_decode [0x60, 0x06, 0x00])]"
    by (simp add: newest_def hal_new_def)
  then show ?thesis
    using hal_transact_routes [OF heapless_deque_list_ok n r f, of ?t "[]" CORE_INIT] f(1) by (auto simp: hal_new_def)
qed

end
