(* ===== verification/Mfrc522_Pcd.thy ===== *)
theory Mfrc522_Pcd
  imports Prelude
begin

text \<open>
  The MFRC522 front end (\<open>crates/mfrc522-pcd/src/lib.rs\<close>): bring-up, resets, the timeout timer and the
  frame exchange.  The register-level driver is the third-party crate \<open>mfrc522\<close>: a record of operations on
  its state, which the definitions take as an argument; the delay and the frame type come from
  \<open>embedded-hal\<close> and \<open>iso14443\<close>.
\<close>

section \<open>The register-level driver\<close>

datatype 'e mf_error =
  MfComm 'e | MfBcc | MfBufferOverflow | MfCollision | MfCrc | MfIncompleteFrame | MfNoRoom | MfOverheating | MfParity
| MfProtocol | MfTimeout | MfWr | MfNak | MfProprietary

datatype mf_register =
  CommandReg | ComIrqReg | ErrorReg | FIFOLevelReg | CollReg | ModeReg | TxModeReg | RxModeReg | TxControlReg | TxASKReg
| ModWidthReg | TModeReg | TPrescalerReg | TReloadRegHigh | TReloadRegLow

record fifo_data =
  fd_buffer :: bytes
  fd_valid_bytes :: nat
  fd_valid_bits :: nat

record ('i, 'm, 'e) mfrc522 =
  mf_init :: "'i \<Rightarrow> u8 \<Rightarrow> 'e mf_error + 'm"
  mf_write :: "mf_register \<Rightarrow> u8 \<Rightarrow> 'm \<Rightarrow> ('e mf_error + unit) \<times> 'm"
  mf_read :: "mf_register \<Rightarrow> 'm \<Rightarrow> ('e mf_error + u8) \<times> 'm"
  mf_rmw :: "mf_register \<Rightarrow> (u8 \<Rightarrow> u8) \<Rightarrow> 'm \<Rightarrow> ('e mf_error + unit) \<times> 'm"
  mf_set_antenna_gain_33 :: "'m \<Rightarrow> ('e mf_error + unit) \<times> 'm"
  mf_version :: "'m \<Rightarrow> ('e mf_error + u8) \<times> 'm"
  mf_wupa :: "'m \<Rightarrow> ('e mf_error + bytes) \<times> 'm"
  mf_transceive :: "nat \<Rightarrow> bytes \<Rightarrow> u8 \<Rightarrow> u8 \<Rightarrow> 'm \<Rightarrow> ('e mf_error + fifo_data) \<times> 'm"

text \<open>The early return of \<open>?\<close>.\<close>

definition try_then :: "('e + 'a) \<times> 'm \<Rightarrow> ('a \<Rightarrow> 'm \<Rightarrow> ('e + 'b) \<times> 'm) \<Rightarrow> ('e + 'b) \<times> 'm" where
  "try_then r f = (case r of (Inl e, m) \<Rightarrow> (Inl e, m) | (Inr a, m) \<Rightarrow> f a m)"

lemma try_then_simps [simp]:
  "try_then (Inl e, m) f = (Inl e, m)" "try_then (Inr a, m) f = f a m"
  by (simp_all add: try_then_def)

lemma try_then_Inr: "try_then r f = (Inr b, m') \<longleftrightarrow> (\<exists>a m. r = (Inr a, m) \<and> f a m = (Inr b, m'))"
  by (cases r; cases "fst r") auto

section \<open>Data\<close>

abbreviation (input) DEFAULT_I2C_ADDRESS :: u8 where "DEFAULT_I2C_ADDRESS \<equiv> 0x28"

record frontend_i2c_binding =
  fb_i2c_addr :: u8
  fb_bus_hz :: u32

definition VERSION_REG_EXPECTED :: bytes where "VERSION_REG_EXPECTED = [0x91, 0x92]"

abbreviation (input) FIELD_OFF_DWELL_MS :: nat where "FIELD_OFF_DWELL_MS \<equiv> 50"
abbreviation (input) FIELD_ON_SETTLE_MS :: nat where "FIELD_ON_SETTLE_MS \<equiv> 5"

definition fn_delay_ns :: "u32 \<Rightarrow> u32" where
  "fn_delay_ns ns = word_of_nat (div_ceil_nat (unat ns) 1000000)"

datatype 'e pcd_error = PcdCommunication 'e | PcdTimeout | PcdProtocol | PcdBufferOverflow

fun pcd_error_of :: "'e mf_error \<Rightarrow> 'e pcd_error" where
  "pcd_error_of (MfComm e) = PcdCommunication e"
| "pcd_error_of MfTimeout = PcdTimeout"
| "pcd_error_of MfProtocol = PcdProtocol"
| "pcd_error_of MfBufferOverflow = PcdBufferOverflow"
| "pcd_error_of MfNoRoom = PcdBufferOverflow"
| "pcd_error_of _ = PcdProtocol"

datatype pcd_frame = FShort bytes | FBitOriented bytes | FStandard bytes

section \<open>Bring-up and resets\<close>

definition from_i2c :: "('i, 'm, 'e) mfrc522 \<Rightarrow> 'i \<Rightarrow> u8 \<Rightarrow> 'e mf_error + 'm" where
  "from_i2c mf i2c address =
     (case mf_init mf i2c address of
        Inl e \<Rightarrow> Inl e
      | Inr m \<Rightarrow> (case mf_set_antenna_gain_33 mf m of (Inl e, m) \<Rightarrow> Inl e | (Inr _, m) \<Rightarrow> Inr m))"

definition pcd_bring_up :: "('i, 'm, 'e) mfrc522 \<Rightarrow> 'i \<Rightarrow> frontend_i2c_binding \<Rightarrow> 'e mf_error + 'm \<times> u8" where
  "pcd_bring_up mf i2c binding =
     (case mf_init mf i2c (fb_i2c_addr binding) of
        Inl e \<Rightarrow> Inl e
      | Inr m \<Rightarrow>
          (case try_then (mf_set_antenna_gain_33 mf m) (\<lambda>_. mf_version mf) of
             (Inl e, m) \<Rightarrow> Inl e
           | (Inr version, m) \<Rightarrow> if version \<in> set VERSION_REG_EXPECTED then Inr (m, version) else Inl MfNak))"

definition self_test :: "('i, 'm, 'e) mfrc522 \<Rightarrow> 'm \<Rightarrow> ('e mf_error + u8) \<times> 'm" where
  "self_test mf m =
     try_then (mf_version mf m) (\<lambda>version m.
       (if version \<in> set VERSION_REG_EXPECTED then Inr version else Inl MfNak, m))"

abbreviation (input) SOFT_RESET_MAX_POLLS :: nat where "SOFT_RESET_MAX_POLLS \<equiv> 1024"

fun soft_reset_loop :: "('i, 'm, 'e) mfrc522 \<Rightarrow> nat \<Rightarrow> 'm \<Rightarrow> ('e mf_error + unit) \<times> 'm" where
  "soft_reset_loop mf 0 m = (Inl MfTimeout, m)"
| "soft_reset_loop mf (Suc n) m =
     try_then (mf_read mf CommandReg m) (\<lambda>v m. if v AND 0x10 = 0 then (Inr (), m) else soft_reset_loop mf n m)"

definition soft_reset :: "('i, 'm, 'e) mfrc522 \<Rightarrow> 'm \<Rightarrow> ('e mf_error + unit) \<times> 'm" where
  "soft_reset mf m = try_then (mf_write mf CommandReg 0x0F m) (\<lambda>_. soft_reset_loop mf SOFT_RESET_MAX_POLLS)"

definition reset_frontend :: "('i, 'm, 'e) mfrc522 \<Rightarrow> 'm \<Rightarrow> ('e mf_error + unit) \<times> 'm" where
  "reset_frontend mf m =
     try_then (mf_write mf TxModeReg 0x00 m) (\<lambda>_ m.
     try_then (mf_write mf RxModeReg 0x00 m) (\<lambda>_ m.
     try_then (mf_write mf ModWidthReg 0x26 m) (\<lambda>_ m.
     try_then (mf_write mf TxASKReg 0x40 m) (\<lambda>_ m.
     mf_write mf ModeReg ((0x3F AND NOT 3) OR 1) m))))"

fun flush_fifo :: "('i, 'm, 'e) mfrc522 \<Rightarrow> nat \<Rightarrow> 'm \<Rightarrow> ('e mf_error + unit) \<times> 'm" where
  "flush_fifo mf 0 m = (Inr (), m)"
| "flush_fifo mf (Suc n) m = try_then (mf_write mf FIFOLevelReg 0x80 m) (\<lambda>_. flush_fifo mf n)"

text \<open>\<open>delay\<close> lets the given milliseconds pass.\<close>

definition prepare_for_activation_with_delays :: "('i, 'm, 'e) mfrc522 \<Rightarrow> (nat \<Rightarrow> 'm \<Rightarrow> 'm) \<Rightarrow> 'm \<Rightarrow> ('e mf_error + unit) \<times> 'm" where
  "prepare_for_activation_with_delays mf delay m =
     try_then (soft_reset mf m) (\<lambda>_ m.
     try_then (reset_frontend mf m) (\<lambda>_ m.
     try_then (mf_rmw mf TxControlReg (\<lambda>b. b AND NOT 3) m) (\<lambda>_ m.
     try_then (flush_fifo mf 4 (delay FIELD_OFF_DWELL_MS m)) (\<lambda>_ m.
     try_then (mf_rmw mf TxControlReg (\<lambda>b. b OR 3) m) (\<lambda>_ m.
     mf_set_antenna_gain_33 mf (delay FIELD_ON_SETTLE_MS m))))))"

definition prepare_for_activation :: "('i, 'm, 'e) mfrc522 \<Rightarrow> 'm \<Rightarrow> ('e mf_error + unit) \<times> 'm" where
  "prepare_for_activation mf m = prepare_for_activation_with_delays mf (\<lambda>_ m. m) m"

section \<open>The timer\<close>

abbreviation (input) TIMER_INPUT_HZ :: u32 where "TIMER_INPUT_HZ \<equiv> 13560000"
abbreviation (input) TIMER_MIN_DIVISOR :: u32 where "TIMER_MIN_DIVISOR \<equiv> 339"
abbreviation (input) TIMER_MAX_DIVISOR :: u32 where "TIMER_MAX_DIVISOR \<equiv> 8191"

definition saturating_mul32 :: "u32 \<Rightarrow> u32 \<Rightarrow> u32" where
  "saturating_mul32 a b = (if unat a * unat b < 2 ^ 32 then a * b else 0xFFFFFFFF)"

lemma saturating_mul32_code [code]:
  "saturating_mul32 a b = (let p = ucast a * ucast b :: u64 in if p \<le> 0xFFFFFFFF then ucast p else 0xFFFFFFFF)"
proof -
  have u: "unat (ucast w :: u64) = unat w" for w :: u32
    using unat_u32_le [of w] by (simp add: unsigned_ucast_eq take_bit_nat_eq_self_iff)
  have "unat a * unat b \<le> 4294967295 * 4294967295" using unat_u32_le [of a] unat_u32_le [of b] by (intro mult_mono) auto
  then have p: "unat (ucast a * ucast b :: u64) = unat a * unat b" by (simp add: unat_word_ariths u)
  have "ucast (ucast a * ucast b :: u64) = a * b"
    unfolding word_unat_eq_iff unsigned_ucast_eq take_bit_eq_mod p by (simp add: unat_word_ariths)
  with p show ?thesis by (auto simp: saturating_mul32_def Let_def word_le_nat_alt)
qed

definition timer_divisor :: "u32 \<Rightarrow> u32" where
  "timer_divisor ms =
     (let min_div = saturating_add32 (saturating_mul32 ms 904) 4368 div 4369;
          d = max min_div TIMER_MIN_DIVISOR
      in if d mod 2 = 0 then d + 1 else d)"

definition timer_reload :: "u32 \<Rightarrow> u32 \<Rightarrow> u32" where
  "timer_reload ms d =
     ucast ((ucast ms * ucast TIMER_INPUT_HZ + ucast d * 1000 - 1) div (ucast d * 1000) :: u64)"

definition set_timeout_ms :: "('i, 'm, 'e) mfrc522 \<Rightarrow> u32 \<Rightarrow> 'm \<Rightarrow> ('e mf_error + unit) \<times> 'm" where
  "set_timeout_ms mf ms m =
     (let d = timer_divisor ms in
      if TIMER_MAX_DIVISOR < d then (Inl MfTimeout, m)
      else
        let prescaler = (d - 1) div 2; reload = timer_reload ms d in
        try_then (mf_write mf TModeReg (0x80 OR (ucast (drop_bit 8 prescaler) AND 0x0F)) m) (\<lambda>_ m.
        try_then (mf_write mf TPrescalerReg (ucast prescaler) m) (\<lambda>_ m.
        try_then (mf_write mf TReloadRegHigh (ucast (drop_bit 8 reload)) m) (\<lambda>_ m.
        mf_write mf TReloadRegLow (ucast reload) m))))"

definition timer_registers :: "('i, 'm, 'e) mfrc522 \<Rightarrow> 'm \<Rightarrow> ('e mf_error + bytes) \<times> 'm" where
  "timer_registers mf m =
     try_then (mf_read mf TModeReg m) (\<lambda>a m.
     try_then (mf_read mf TPrescalerReg m) (\<lambda>b m.
     try_then (mf_read mf TReloadRegHigh m) (\<lambda>c m.
     try_then (mf_read mf TReloadRegLow m) (\<lambda>d m. (Inr [a, b, c, d], m)))))"

definition enable_hw_crc :: "('i, 'm, 'e) mfrc522 \<Rightarrow> 'm \<Rightarrow> ('e mf_error + unit) \<times> 'm" where
  "enable_hw_crc mf m =
     try_then (mf_rmw mf TxModeReg (\<lambda>v. v OR 0x80) m) (\<lambda>_. mf_rmw mf RxModeReg (\<lambda>v. v OR 0x80))"

section \<open>Frames\<close>

text \<open>The bytes of a reply that ends on a byte boundary.\<close>

definition whole_bytes :: "fifo_data \<Rightarrow> 'm \<Rightarrow> ('e mf_error + bytes) \<times> 'm" where
  "whole_bytes fifo m =
     (if fd_valid_bits fifo \<noteq> 0 then (Inl MfProtocol, m)
      else
        let len = min (fd_valid_bytes fifo) (length (fd_buffer fifo)) in
        (if len \<le> length (fd_buffer fifo) then Inr (take len (fd_buffer fifo)) else Inl MfBufferOverflow, m))"

text \<open>The registers read for the log of a checksum error; their values are not used further.\<close>

definition log_crc_error :: "('i, 'm, 'e) mfrc522 \<Rightarrow> 'm \<Rightarrow> 'm" where
  "log_crc_error mf m = snd (mf_read mf FIFOLevelReg (snd (mf_read mf ErrorReg (snd (mf_read mf ComIrqReg m)))))"

definition pcd_transceive :: "('i, 'm, 'e) mfrc522 \<Rightarrow> pcd_frame \<Rightarrow> 'm \<Rightarrow> ('e mf_error + bytes) \<times> 'm" where
  "pcd_transceive mf frame m =
     try_then (mf_rmw mf CollReg (\<lambda>v. v AND NOT 0x80) m) (\<lambda>_ m.
       case frame of
         FShort data \<Rightarrow> try_then (mf_transceive mf 2 data 7 0 m) whole_bytes
       | FBitOriented data \<Rightarrow>
           let tx_last_bits = (case get_opt data 1 of Some b \<Rightarrow> b | None \<Rightarrow> 0) AND 0x07
           in try_then (mf_transceive mf 5 data tx_last_bits tx_last_bits m) whole_bytes
       | FStandard data \<Rightarrow>
           (case mf_transceive mf 64 data 0 0 m of
              (Inr fifo, m) \<Rightarrow> whole_bytes fifo m
            | (Inl MfCrc, m) \<Rightarrow> (Inl MfCrc, log_crc_error mf m)
            | (Inl e, m) \<Rightarrow> (Inl e, m)))"

definition try_enable_hw_crc :: "'m \<Rightarrow> ('e mf_error + unit) \<times> 'm" where
  "try_enable_hw_crc m = (Inl MfProtocol, m)"

definition try_set_timeout_ms :: "('i, 'm, 'e) mfrc522 \<Rightarrow> u32 \<Rightarrow> 'm \<Rightarrow> (unit + unit) \<times> 'm" where
  "try_set_timeout_ms mf ms m = (let (r, m) = set_timeout_ms mf ms m in (map_sum (\<lambda>_. ()) id r, m))"

end
