(* ===== verification/Mfrc522_Props.thy ===== *)
theory Mfrc522_Props
  imports Mfrc522_Pcd
begin

text \<open>
  The timeout timer of the MFRC522 front end: the registers \<open>set_timeout_ms\<close> writes encode a period that is
  never shorter than the request, at the finest tick the sixteen-bit reload register allows.
\<close>

section \<open>The divisor and the reload value\<close>

lemma max_u32: "unat (max a b) = max (unat a) (unat (b::u32))"
  by (simp add: max_def word_le_nat_alt)

lemma saturating_ceil:
  "unat (saturating_add32 (saturating_mul32 ms 904) 4368 div 4369) =
     (if unat ms * 904 + 4368 < 2 ^ 32 then (unat ms * 904 + 4368) div 4369 else 983055)"
proof (cases "unat ms * 904 < 2 ^ 32")
  case True
  then have "unat (ms * 904) = unat ms * 904" by (simp add: unat_mult_lem [THEN iffD1])
  with True show ?thesis
    by (auto simp: saturating_add32_def saturating_mul32_def unat_div unat_word_ariths Let_def word_less_nat_alt)
next
  case False
  then show ?thesis by (simp add: saturating_add32_def saturating_mul32_def unat_div Let_def)
qed

text \<open>The divisor as a number: the least odd one from \<open>TIMER_MIN_DIVISOR\<close> on that keeps the reload in sixteen bits.\<close>

definition odd_from :: "nat \<Rightarrow> nat" where "odd_from n = (if even n then n + 1 else n)"

lemma timer_divisor_nat:
  "unat (timer_divisor ms) =
     odd_from (max (if unat ms * 904 + 4368 < 2 ^ 32 then (unat ms * 904 + 4368) div 4369 else 983055) 339)"
proof -
  define D where "D = max (saturating_add32 (saturating_mul32 ms 904) 4368 div 4369) TIMER_MIN_DIVISOR"
  have D: "unat D = max (if unat ms * 904 + 4368 < 2 ^ 32 then (unat ms * 904 + 4368) div 4369 else 983055) 339"
    unfolding D_def max_u32 saturating_ceil by simp
  then have "unat D < 2 ^ 31" by auto
  then have "unat (if D mod 2 = 0 then D + 1 else D) = odd_from (unat D)"
    by (auto simp: odd_from_def unat_word_ariths word_unat_eq_iff unat_mod even_iff_mod_2_eq_zero)
  moreover have "timer_divisor ms = (if D mod 2 = 0 then D + 1 else D)"
    by (simp only: timer_divisor_def D_def [symmetric] Let_def)
  ultimately show ?thesis by (simp only: D)
qed

lemma timer_divisor_fits: "unat (timer_divisor ms) \<le> 8191 \<longleftrightarrow> unat ms \<le> 39586"
  by (auto simp: timer_divisor_nat odd_from_def max_def)

lemma timer_divisor_bounds:
  assumes "unat ms \<le> 39586"
  shows "odd (unat (timer_divisor ms))" "339 \<le> unat (timer_divisor ms)" "unat (timer_divisor ms) \<le> 8191"
    "unat ms * 13560 \<le> 65535 * unat (timer_divisor ms)"
proof -
  show "odd (unat (timer_divisor ms))" "339 \<le> unat (timer_divisor ms)"
    by (auto simp: timer_divisor_nat odd_from_def)
  show "unat (timer_divisor ms) \<le> 8191" using assms by (simp add: timer_divisor_fits)
  have "(unat ms * 904 + 4368) div 4369 \<le> unat (timer_divisor ms)"
    using assms by (auto simp: timer_divisor_nat odd_from_def)
  then show "unat ms * 13560 \<le> 65535 * unat (timer_divisor ms)" by linarith
qed

lemma timer_divisor_least:
  assumes "unat ms \<le> 39586" "odd n" "339 \<le> n" "n < unat (timer_divisor ms)"
  shows "65535 * n < unat ms * 13560"
proof -
  have "n < odd_from (max ((unat ms * 904 + 4368) div 4369) 339)" using assms(1,4) by (simp add: timer_divisor_nat)
  with assms(2,3) have "n < (unat ms * 904 + 4368) div 4369"
    by (auto simp: odd_from_def max_def less_Suc_eq split: if_splits)
  then show ?thesis by linarith
qed

lemma ucast_u32_nat:
  "unat (ucast (w::u32) :: u64) = unat w" "unat (ucast (v::u64) :: u32) = unat v mod 2 ^ 32"
proof -
  have "unat w < 2 ^ 64" using unat_u32_le [of w] by simp
  then show "unat (ucast w :: u64) = unat w"
    by (simp add: unsigned_ucast_eq take_bit_nat_eq_self_iff)
  show "unat (ucast v :: u32) = unat v mod 2 ^ 32"
    by (simp add: unsigned_ucast_eq take_bit_eq_mod)
qed

lemma timer_reload_nat:
  assumes "339 \<le> unat d" "unat d \<le> 8191" "unat ms * 13560 \<le> 65535 * unat d" "unat ms \<le> 39586"
  shows "unat (timer_reload ms d) = (unat ms * 13560000 + unat d * 1000 - 1) div (unat d * 1000)"
    and "unat (timer_reload ms d) \<le> 65535"
proof -
  have num: "unat (ucast ms * ucast TIMER_INPUT_HZ + ucast d * 1000 - 1 :: u64) = unat ms * 13560000 + unat d * 1000 - 1"
  proof -
    have a: "unat (ucast ms * ucast TIMER_INPUT_HZ :: u64) = unat ms * 13560000" using assms
      by (simp add: unat_word_ariths ucast_u32_nat)
    have b: "unat (ucast d * 1000 :: u64) = unat d * 1000" using assms
      by (simp add: unat_word_ariths ucast_u32_nat)
    have c: "unat (ucast ms * ucast TIMER_INPUT_HZ + ucast d * 1000 :: u64) = unat ms * 13560000 + unat d * 1000"
      using assms by (subst unat_add_lem [THEN iffD1]) (simp_all only: a b, simp_all)
    show ?thesis using assms c by (subst unat_sub) (simp_all add: word_le_nat_alt)
  qed
  have den: "unat (ucast d * 1000 :: u64) = unat d * 1000" using assms
    by (simp add: unat_word_ariths ucast_u32_nat)
  let ?q = "(unat ms * 13560000 + unat d * 1000 - 1) div (unat d * 1000)"
  have q: "?q \<le> 65535"
  proof -
    have "unat ms * 13560000 + unat d * 1000 - 1 < 65536 * (unat d * 1000)" using assms by linarith
    then show ?thesis using assms by (simp add: div_less_iff_less_mult less_Suc_eq_le [symmetric])
  qed
  have "unat (timer_reload ms d) = ?q mod 2 ^ 32"
    by (simp only: timer_reload_def ucast_u32_nat unat_div num den)
  with q show "unat (timer_reload ms d) = ?q" "unat (timer_reload ms d) \<le> 65535" by simp_all
qed

lemma ceil_div_bounds:
  assumes "0 < (b::nat)"
  shows "a \<le> (a + b - 1) div b * b" "0 < a \<Longrightarrow> ((a + b - 1) div b - 1) * b < a"
proof -
  let ?q = "(a + b - 1) div b"
  have eq: "a + b - 1 = ?q * b + (a + b - 1) mod b" by simp
  have lt: "(a + b - 1) mod b < b" using assms by simp
  show "a \<le> ?q * b" using eq lt by linarith
  show "(?q - 1) * b < a" if "0 < a" 
  proof -
    have "?q * b \<le> a + b - 1" by (rule div_times_less_eq_dividend)
    with that assms have "?q * b - b < a" by linarith
    then show ?thesis by (simp only: diff_mult_distrib mult_1)
  qed
qed

section \<open>The registers\<close>

text \<open>
  What the timer relies on of the register-level driver: the four timer registers keep what was last written
  to them.
\<close>

abbreviation timer_regs :: "mf_register set" where
  "timer_regs \<equiv> {TModeReg, TPrescalerReg, TReloadRegHigh, TReloadRegLow}"

locale register_file =
  fixes mf :: "('i, 'm, 'e) mfrc522"
    and reg :: "'m \<Rightarrow> mf_register \<Rightarrow> u8"
  assumes write_keeps: "mf_write mf r v m = (Inr (), m') \<Longrightarrow> r \<in> timer_regs \<Longrightarrow> q \<in> timer_regs \<Longrightarrow>
      reg m' q = (if q = r then v else reg m q)"
    and read_shows: "mf_read mf r m = (Inr v, m') \<Longrightarrow> r \<in> timer_regs \<Longrightarrow>
      v = reg m r \<and> (\<forall>q \<in> timer_regs. reg m' q = reg m q)"
begin

lemma four_writes:
  assumes "try_then (mf_write mf TModeReg a m) (\<lambda>_ m.
        try_then (mf_write mf TPrescalerReg b m) (\<lambda>_ m.
        try_then (mf_write mf TReloadRegHigh c m) (\<lambda>_ m.
        mf_write mf TReloadRegLow d m))) = (Inr (), m')"
  shows "reg m' TModeReg = a \<and> reg m' TPrescalerReg = b \<and> reg m' TReloadRegHigh = c \<and> reg m' TReloadRegLow = d"
proof -
  from assms obtain m1 m2 m3 where w: "mf_write mf TModeReg a m = (Inr (), m1)"
    "mf_write mf TPrescalerReg b m1 = (Inr (), m2)" "mf_write mf TReloadRegHigh c m2 = (Inr (), m3)"
    "mf_write mf TReloadRegLow d m3 = (Inr (), m')"
    by (auto simp: try_then_Inr)
  from w(1)[THEN write_keeps] w(2)[THEN write_keeps] w(3)[THEN write_keeps] w(4)[THEN write_keeps]
  show ?thesis by simp
qed

lemma timer_registers_shows:
  assumes "timer_registers mf m = (Inr vs, m')"
  shows "vs = [reg m TModeReg, reg m TPrescalerReg, reg m TReloadRegHigh, reg m TReloadRegLow]"
proof -
  from assms obtain a b c d m1 m2 m3 where r: "mf_read mf TModeReg m = (Inr a, m1)"
    "mf_read mf TPrescalerReg m1 = (Inr b, m2)" "mf_read mf TReloadRegHigh m2 = (Inr c, m3)"
    "mf_read mf TReloadRegLow m3 = (Inr d, m')" "vs = [a, b, c, d]"
    by (auto simp: timer_registers_def try_then_Inr)
  from r(1)[THEN read_shows] r(2)[THEN read_shows] r(3)[THEN read_shows] r(4)[THEN read_shows] r(5)
  show ?thesis by simp
qed

end

text \<open>The errors of the four writes.\<close>

lemma four_writes_Inl:
  assumes "try_then (mf_write mf TModeReg a m) (\<lambda>_ m.
        try_then (mf_write mf TPrescalerReg b m) (\<lambda>_ m.
        try_then (mf_write mf TReloadRegHigh c m) (\<lambda>_ m.
        mf_write mf TReloadRegLow d m))) = (Inl e, m')"
  shows "\<exists>r v m1. mf_write mf r v m1 = (Inl e, m')"
  using assms by (auto simp: try_then_def split: prod.splits sum.splits)

lemma prescaler_bytes:
  fixes p :: u32
  assumes "unat p < 4096"
  shows "unat (0x80 OR (ucast (drop_bit 8 p) AND 0x0F) :: u8) = 128 + unat p div 256"
    "unat (ucast p :: u8) = unat p mod 256"
proof -
  show "unat (ucast p :: u8) = unat p mod 256" by (simp add: unsigned_ucast_eq take_bit_eq_mod)
  define h :: u8 where "h = ucast (drop_bit 8 p)"
  have h: "unat h = unat p div 256" using assms
    by (simp add: h_def unsigned_ucast_eq take_bit_eq_mod drop_bit_eq_div unat_div)
  with assms have "unat h < 16" by auto
  then have "h < 16" by (simp add: word_less_nat_alt)
  then have "h \<in> {0, 1, 2, 3, 4, 5, 6, 7, 8, 9, 10, 11, 12, 13, 14, 15}"
    by (simp add: word_less_iff_unsigned) unat_arith
  then have "unat (0x80 OR (h AND 0x0F)) = 128 + unat h" by (elim insertE emptyE) simp_all
  with h show "unat (0x80 OR (ucast (drop_bit 8 p) AND 0x0F) :: u8) = 128 + unat p div 256" by (simp add: h_def)
qed

lemma reload_bytes:
  fixes r :: u32
  assumes "unat r \<le> 65535"
  shows "unat (ucast (drop_bit 8 r) :: u8) * 256 + unat (ucast r :: u8) = unat r"
  using assms by (simp add: unsigned_ucast_eq take_bit_eq_mod drop_bit_eq_div unat_div)

section \<open>The armed period\<close>

text \<open>The prescaler and the reload value the chip takes from its timer registers.\<close>

definition chip_prescaler :: "(mf_register \<Rightarrow> u8) \<Rightarrow> nat" where
  "chip_prescaler regs = (unat (regs TModeReg) mod 16) * 256 + unat (regs TPrescalerReg)"

definition chip_reload :: "(mf_register \<Rightarrow> u8) \<Rightarrow> nat" where
  "chip_reload regs = unat (regs TReloadRegHigh) * 256 + unat (regs TReloadRegLow)"

text \<open>The registers hold \<open>ms\<close> milliseconds of a 13.56 MHz clock, rounded up to one tick of the finest usable prescaler.\<close>

definition timer_armed :: "u32 \<Rightarrow> (mf_register \<Rightarrow> u8) \<Rightarrow> bool" where
  "timer_armed ms regs \<longleftrightarrow>
     (let p = chip_prescaler regs; r = chip_reload regs in
        unat (regs TModeReg) div 16 = 8 \<and> 0xA9 \<le> p \<and> p \<le> 4095 \<and>
        unat ms * 13560000 \<le> r * ((2 * p + 1) * 1000) \<and>
        (0 < ms \<longrightarrow> (r - 1) * ((2 * p + 1) * 1000) < unat ms * 13560000) \<and>
        (\<forall>q \<in> {0xA9..<p}. 65535 * ((2 * q + 1) * 1000) < unat ms * 13560000))"

context register_file
begin

lemma set_timeout_arms:
  assumes "set_timeout_ms mf ms m = (Inr (), m')"
  shows "unat ms \<le> 39586 \<and> timer_armed ms (reg m')"
proof -
  let ?d = "timer_divisor ms"
  define p where "p = (?d - 1) div 2"
  define r where "r = timer_reload ms ?d"
  from assms have "\<not> TIMER_MAX_DIVISOR < ?d" by (auto simp: set_timeout_ms_def Let_def)
  then have ms: "unat ms \<le> 39586" by (simp add: timer_divisor_fits [symmetric] word_less_nat_alt)
  note d = timer_divisor_bounds [OF ms]
  have p: "unat p = (unat ?d - 1) div 2" using d(2) by (simp add: p_def unat_div unat_sub word_le_nat_alt)
  with d have pd: "2 * unat p + 1 = unat ?d" and pb: "169 \<le> unat p" "unat p \<le> 4095" by auto
  note rd = timer_reload_nat [OF d(2,3,4) ms, folded r_def]
  from assms have "try_then (mf_write mf TModeReg (0x80 OR (ucast (drop_bit 8 p) AND 0x0F)) m) (\<lambda>_ m.
        try_then (mf_write mf TPrescalerReg (ucast p) m) (\<lambda>_ m.
        try_then (mf_write mf TReloadRegHigh (ucast (drop_bit 8 r)) m) (\<lambda>_ m.
        mf_write mf TReloadRegLow (ucast r) m))) = (Inr (), m')"
    by (simp add: set_timeout_ms_def Let_def p_def r_def split: if_splits)
  note w = four_writes [OF this]
  have "unat p < 4096" using pb by simp
  note pbytes = prescaler_bytes [OF this]
  have mode: "unat (reg m' TModeReg) = 128 + unat p div 256" using w pbytes by simp
  have "unat p div 256 < 16" using pb by simp
  then have "(128 + unat p div 256) mod 16 = unat p div 256" and hi: "(128 + unat p div 256) div 16 = 8"
    using mod_mult_self3 [of 8 16 "unat p div 256"] by simp_all
  moreover have "unat (reg m' TPrescalerReg) = unat p mod 256" using w pbytes(2) by simp
  ultimately have cp: "chip_prescaler (reg m') = unat p" by (simp only: chip_prescaler_def mode) simp
  have cr: "chip_reload (reg m') = unat r" using w reload_bytes [OF rd(2)] by (simp add: chip_reload_def)
  have pos: "0 < unat ?d * 1000" using d(2) by simp
  have "unat ms * 13560000 \<le> unat r * (unat ?d * 1000)" unfolding rd(1) by (rule ceil_div_bounds(1) [OF pos])
  moreover have "(unat r - 1) * (unat ?d * 1000) < unat ms * 13560000" if "0 < ms"
    unfolding rd(1) using that by (intro ceil_div_bounds(2) [OF pos]) (simp add: word_less_nat_alt)
  moreover have "65535 * ((2 * q + 1) * 1000) < unat ms * 13560000" if "q \<in> {0xA9..<unat p}" for q
    using timer_divisor_least [OF ms, of "2 * q + 1"] that pd by auto
  moreover have "unat (reg m' TModeReg) div 16 = 8" unfolding mode by (rule hi)
  ultimately show ?thesis using ms pb unfolding timer_armed_def Let_def cp cr pd by blast
qed

end

text \<open>A register file that never fails, as the driver of the chip on a working bus.\<close>

type_synonym register_log = "(mf_register \<times> u8) list"

definition plain_reg :: "register_log \<Rightarrow> mf_register \<Rightarrow> u8" where
  "plain_reg m r = (case map_of m r of Some v \<Rightarrow> v | None \<Rightarrow> 0)"

definition plain_mf :: "(unit, register_log, unit) mfrc522" where
  "plain_mf = \<lparr>mf_init = (\<lambda>_ _. Inr []), mf_write = (\<lambda>r v m. (Inr (), (r, v) # m)), mf_read = (\<lambda>r m. (Inr (plain_reg m r), m)),
     mf_rmw = (\<lambda>r f m. (Inr (), (r, f (plain_reg m r)) # m)), mf_set_antenna_gain_33 = (\<lambda>m. (Inr (), m)),
     mf_version = (\<lambda>m. (Inr 0x92, m)), mf_wupa = (\<lambda>m. (Inr [0x04, 0x00], m)), mf_transceive = (\<lambda>_ _ _ _ m. (Inl MfTimeout, m))\<rparr>"

interpretation plain: register_file plain_mf plain_reg
  by unfold_locales (auto simp: plain_mf_def plain_reg_def)

text \<open>The armed timeout is never shorter than the request, and as close to it as the chip allows.  For a
  driver whose timer registers keep what is written to them, setting the timeout either succeeds, and then the
  prescaler and the reload value in the registers make a period of at least the requested milliseconds that one
  tick less would make too short, at the fastest tick from 40 kHz down whose reload still fits the sixteen
  bits; or fails, because the request is above 39586 ms, which leaves the chip untouched, or because a register
  write failed.  A read-back of the timer registers then returns exactly what was armed.\<close>

theorem timeout_armed_exactly:
  assumes "register_file mf reg"
  shows "case set_timeout_ms mf ms m of
      (Inr _, m') \<Rightarrow> unat ms \<le> 39586 \<and> timer_armed ms (reg m') \<and>
        (\<forall>vs m''. timer_registers mf m' = (Inr vs, m'') \<longrightarrow>
           vs = [reg m' TModeReg, reg m' TPrescalerReg, reg m' TReloadRegHigh, reg m' TReloadRegLow])
    | (Inl e, m') \<Rightarrow> unat ms > 39586 \<and> e = MfTimeout \<and> m' = m \<or>
        unat ms \<le> 39586 \<and> (\<exists>r v m1. mf_write mf r v m1 = (Inl e, m'))"
proof (cases "set_timeout_ms mf ms m")
  case (Pair r m')
  show ?thesis
  proof (cases r)
    case (Inl e)
    show ?thesis
    proof (cases "TIMER_MAX_DIVISOR < timer_divisor ms")
      case True
      then have "39586 < unat ms" using timer_divisor_fits [of ms] by (simp add: word_less_nat_alt)
      with True Pair Inl show ?thesis by (simp add: set_timeout_ms_def)
    next
      case False
      then have "unat ms \<le> 39586" using timer_divisor_fits [of ms] by (simp add: word_less_nat_alt)
      with False Pair Inl show ?thesis by (simp add: set_timeout_ms_def Let_def) (erule four_writes_Inl)
    qed
  next
    case (Inr u)
    with Pair show ?thesis
      using register_file.set_timeout_arms [OF assms, of ms m m'] register_file.timer_registers_shows [OF assms, of m']
      by auto
  qed
qed

theorem timeout_armed_exactly_witness:
  "timer_armed 4957 (plain_reg (snd (set_timeout_ms plain_mf 4957 []))) \<and>
   fst (set_timeout_ms plain_mf 60000 []) = Inl MfTimeout"
  using timeout_armed_exactly [OF plain.register_file_axioms, of 4957 "[]"]
    timeout_armed_exactly [OF plain.register_file_axioms, of 60000 "[]"]
  by (auto simp: plain_mf_def split: prod.splits sum.splits)

end
