(* ===== verification/Mfrc522_Nfc.thy ===== *)
theory Mfrc522_Nfc
  imports Mfrc522_Props Frontend Atr
begin

text \<open>
  The firmware's reader driver on an MFRC522 (\<open>firmware/esp32-ccid/src/mfrc522_driver.rs\<close>): init with
  recovery, the debounced presence poll, activation, exchange and the diagnostics, as an \<open>NfcDriver\<close>.

  The register-level driver \<open>mf\<close> and the ISO 14443 stack \<open>stack\<close> are third-party crates and therefore arguments,
  as are \<open>delay\<close> (\<open>FreeRtos::delay_ms\<close>) and the platform clock \<open>now_us\<close>.
\<close>

section \<open>The ISO 14443 stack\<close>

text \<open>What the driver reads of an answer to select; the block-exchange session is a type of the stack.\<close>

record ats =
  ats_historical_bytes :: bytes
  ats_sfgt_us :: nat
  ats_fsc :: nat
  ats_fwi :: u8

record activation =
  act_uid :: bytes
  act_iso14443_4 :: bool

record session_limits =
  max_consecutive_wtx :: nat
  max_total_wtx :: nat
  max_frames :: nat
  max_retransmissions :: nat

text \<open>The transceiver trait of the stack (\<open>PcdTransceiver\<close>).\<close>

record ('t, 'e) pcd_transceiver =
  tr_transceive :: "pcd_frame \<Rightarrow> 't \<Rightarrow> ('e mf_error + bytes) \<times> 't"
  tr_try_enable_hw_crc :: "'t \<Rightarrow> ('e mf_error + unit) \<times> 't"
  tr_try_set_timeout_ms :: "u32 \<Rightarrow> 't \<Rightarrow> (unit + unit) \<times> 't"

text \<open>The exchange runs over a transceiver that counts blocks.\<close>

record 'm counting_transceiver =
  ct_inner :: 'm
  ct_blocks :: u32
  ct_wtx_replies :: u32
  ct_recoveries :: u32
  ct_max_transceive_us :: u32

record ('m, 's, 'e) iso14443 =
  iso_wakeup :: "('m, 'e) pcd_transceiver \<Rightarrow> 'm \<Rightarrow> (unit + activation) \<times> 'm"
  iso_from_connect :: "('m, 'e) pcd_transceiver \<Rightarrow> 'm \<Rightarrow> (unit + ats) \<times> 'm"
  iso_from_ats :: "ats \<Rightarrow> 's"
  iso_set_limits :: "session_limits \<Rightarrow> 's \<Rightarrow> 's"
  iso_set_fsc :: "nat \<Rightarrow> 's \<Rightarrow> 's"
  iso_set_base_fwt_ms :: "u32 \<Rightarrow> 's \<Rightarrow> 's"
  iso_deselect :: "('m, 'e) pcd_transceiver \<Rightarrow> 's \<Rightarrow> 'm \<Rightarrow> 's \<times> 'm"
  iso_exchange :: "('m counting_transceiver, 'e) pcd_transceiver \<Rightarrow> bytes \<Rightarrow> 's \<Rightarrow> 'm counting_transceiver
     \<Rightarrow> (unit + bytes) \<times> 's \<times> 'm counting_transceiver"
  iso_trace_ok :: "ats \<Rightarrow> bool"

text \<open>\<open>iso_trace_ok\<close> tells that the trace line of \<open>power_on\<close> is not written or its \<open>to_bytes\<close> succeeds.\<close>

definition mf_transceiver :: "('i, 'm, 'e) mfrc522 \<Rightarrow> ('m, 'e) pcd_transceiver" where
  "mf_transceiver mf =
     \<lparr>tr_transceive = pcd_transceive mf, tr_try_enable_hw_crc = try_enable_hw_crc,
      tr_try_set_timeout_ms = try_set_timeout_ms mf\<rparr>"

definition counting_transceive :: "('i, 'm, 'e) mfrc522 \<Rightarrow> ('m \<Rightarrow> int) \<Rightarrow> pcd_frame \<Rightarrow> 'm counting_transceiver
    \<Rightarrow> ('e mf_error + bytes) \<times> 'm counting_transceiver" where
  "counting_transceive mf now_us frame c =
     (let started_us = now_us (ct_inner c);
          (result, m) = pcd_transceive mf frame (ct_inner c);
          took_us = clamp_elapsed (now_us m - started_us);
          data = (case frame of FShort d \<Rightarrow> d | FBitOriented d \<Rightarrow> d | FStandard d \<Rightarrow> d);
          c = c\<lparr>ct_inner := m, ct_blocks := saturating_add32 (ct_blocks c) 1\<rparr>;
          c = (case data of
                 [] \<Rightarrow> c
               | pcb # _ \<Rightarrow>
                   (case outgoing_block_from_pcb pcb of
                      Some SBlock \<Rightarrow> c\<lparr>ct_wtx_replies := saturating_add32 (ct_wtx_replies c) 1\<rparr>
                    | Some RBlock \<Rightarrow> c\<lparr>ct_recoveries := saturating_add32 (ct_recoveries c) 1\<rparr>
                    | _ \<Rightarrow> c))
      in (result, c\<lparr>ct_max_transceive_us := max (ct_max_transceive_us c) took_us\<rparr>))"

definition counting_ops :: "('i, 'm, 'e) mfrc522 \<Rightarrow> ('m \<Rightarrow> int) \<Rightarrow> ('m counting_transceiver, 'e) pcd_transceiver" where
  "counting_ops mf now_us =
     \<lparr>tr_transceive = counting_transceive mf now_us,
      tr_try_enable_hw_crc = (\<lambda>c. let (r, m) = try_enable_hw_crc (ct_inner c) in (r, c\<lparr>ct_inner := m\<rparr>)),
      tr_try_set_timeout_ms = (\<lambda>ms c. let (r, m) = try_set_timeout_ms mf ms (ct_inner c) in (r, c\<lparr>ct_inner := m\<rparr>))\<rparr>"

section \<open>State\<close>

abbreviation (input) MFRC522_REINIT_THRESHOLD :: u8 where "MFRC522_REINIT_THRESHOLD \<equiv> 3"
abbreviation (input) CARD_ABSENT_THRESHOLD :: u8 where "CARD_ABSENT_THRESHOLD \<equiv> 3"

record init_recovery_tracker =
  it_consecutive_failures :: u8
  it_reinit_count :: u32

definition init_tracker_new :: init_recovery_tracker where
  "init_tracker_new = \<lparr>it_consecutive_failures = 0, it_reinit_count = 0\<rparr>"

definition init_tracker_success :: "init_recovery_tracker \<Rightarrow> init_recovery_tracker" where
  "init_tracker_success t = t\<lparr>it_consecutive_failures := 0\<rparr>"

definition init_tracker_failure :: "init_recovery_tracker \<Rightarrow> bool \<times> init_recovery_tracker" where
  "init_tracker_failure t =
     (let t = t\<lparr>it_consecutive_failures := saturating_add8 (it_consecutive_failures t) 1\<rparr>
      in if MFRC522_REINIT_THRESHOLD \<le> it_consecutive_failures t
         then (True, t\<lparr>it_consecutive_failures := 0, it_reinit_count := saturating_add32 (it_reinit_count t) 1\<rparr>)
         else (False, t))"

datatype card_lifecycle = LcNoCard | LcPresentInactive | LcActiveSession

record ('m, 's) mfrc522_nfc =
  mn_transceiver :: 'm
  mn_is_initialized :: bool
  mn_lifecycle :: card_lifecycle
  mn_session :: "'s option"
  mn_cached_ats :: "ats option"
  mn_consecutive_failures :: u8
  mn_init_tracker :: init_recovery_tracker
  mn_cached_uid :: bytes
  mn_cached_uid_len :: nat
  mn_last_exchange :: "(u32 \<times> u32 \<times> u32 \<times> u32) option"
  mn_configured_fwt_ms :: u32
  mn_diag_init_attempts :: u32
  mn_diag_presence_polls :: u32
  mn_diag_bus_errors :: u32
  mn_diag_last_error :: "nfc_error option"

definition mn_new :: "'m \<Rightarrow> ('m, 's) mfrc522_nfc" where
  "mn_new transceiver =
     \<lparr>mn_transceiver = transceiver, mn_is_initialized = False, mn_lifecycle = LcNoCard, mn_session = None,
      mn_cached_ats = None, mn_consecutive_failures = 0, mn_init_tracker = init_tracker_new,
      mn_cached_uid = replicate 10 0, mn_cached_uid_len = 0, mn_last_exchange = None, mn_configured_fwt_ms = 0,
      mn_diag_init_attempts = 0, mn_diag_presence_polls = 0, mn_diag_bus_errors = 0, mn_diag_last_error = None\<rparr>"

definition has_card :: "('m, 's) mfrc522_nfc \<Rightarrow> bool" where
  "has_card d \<longleftrightarrow> mn_lifecycle d \<noteq> LcNoCard"

definition mark_card_absent :: "('m, 's) mfrc522_nfc \<Rightarrow> ('m, 's) mfrc522_nfc" where
  "mark_card_absent d =
     d\<lparr>mn_lifecycle := LcNoCard, mn_session := None, mn_cached_ats := None, mn_cached_uid_len := 0,
       mn_consecutive_failures := 0\<rparr>"

definition mark_card_present :: "('m, 's) mfrc522_nfc \<Rightarrow> ('m, 's) mfrc522_nfc" where
  "mark_card_present d =
     (let d = (if mn_lifecycle d = LcNoCard then d\<lparr>mn_lifecycle := LcPresentInactive\<rparr> else d)
      in d\<lparr>mn_consecutive_failures := 0\<rparr>)"

definition clear_session :: "('m, 's) mfrc522_nfc \<Rightarrow> ('m, 's) mfrc522_nfc" where
  "clear_session d =
     (let d = d\<lparr>mn_session := None\<rparr>;
          d = (if mn_lifecycle d \<noteq> LcNoCard then d\<lparr>mn_lifecycle := LcPresentInactive\<rparr> else d)
      in d\<lparr>mn_cached_ats := None\<rparr>)"

section \<open>Init and presence\<close>

definition reset_activation_frontend :: "('i, 'm, 'e) mfrc522 \<Rightarrow> (nat \<Rightarrow> 'm \<Rightarrow> 'm) \<Rightarrow> ('m, 's) mfrc522_nfc
    \<Rightarrow> (nfc_error + unit) \<times> ('m, 's) mfrc522_nfc" where
  "reset_activation_frontend mf delay d =
     (let (r, m) =
        try_then (mf_rmw mf TxControlReg (\<lambda>b. b AND NOT 3) (mn_transceiver d)) (\<lambda>_ m.
        try_then (mf_rmw mf TxControlReg (\<lambda>b. b OR 3) (delay FIELD_OFF_DWELL_MS m)) (\<lambda>_ m.
        try_then (reset_frontend mf (delay FIELD_ON_SETTLE_MS m)) (\<lambda>_ m.
        mf_set_antenna_gain_33 mf m)))
      in (map_sum (\<lambda>_. CommunicationError) id r, d\<lparr>mn_transceiver := m\<rparr>))"

definition mn_init :: "('i, 'm, 'e) mfrc522 \<Rightarrow> ('m, 's) mfrc522_nfc \<Rightarrow> (nfc_error + unit) \<times> ('m, 's) mfrc522_nfc" where
  "mn_init mf d =
     (case mf_version mf (mn_transceiver d) of
        (Inl _, m) \<Rightarrow> (Inl CommunicationError, d\<lparr>mn_transceiver := m\<rparr>)
      | (Inr version, m) \<Rightarrow>
          if version \<noteq> 0x91 \<and> version \<noteq> 0x92 then (Inl CommunicationError, d\<lparr>mn_transceiver := m\<rparr>)
          else (case mf_set_antenna_gain_33 mf m of
                  (Inl _, m) \<Rightarrow> (Inl CommunicationError, d\<lparr>mn_transceiver := m\<rparr>)
                | (Inr _, m) \<Rightarrow> (Inr (), d\<lparr>mn_transceiver := m, mn_is_initialized := True\<rparr>)))"

definition full_reinit :: "('i, 'm, 'e) mfrc522 \<Rightarrow> (nat \<Rightarrow> 'm \<Rightarrow> 'm) \<Rightarrow> ('m, 's) mfrc522_nfc
    \<Rightarrow> (nfc_error + unit) \<times> ('m, 's) mfrc522_nfc" where
  "full_reinit mf delay d =
     (let d = d\<lparr>mn_is_initialized := False, mn_lifecycle := LcNoCard, mn_session := None, mn_cached_ats := None,
               mn_consecutive_failures := 0, mn_cached_uid_len := 0\<rparr>
      in try_then (reset_activation_frontend mf delay d) (\<lambda>_. mn_init mf))"

definition init_with_recovery :: "('i, 'm, 'e) mfrc522 \<Rightarrow> (nat \<Rightarrow> 'm \<Rightarrow> 'm) \<Rightarrow> ('m, 's) mfrc522_nfc
    \<Rightarrow> (nfc_error + unit) \<times> ('m, 's) mfrc522_nfc" where
  "init_with_recovery mf delay d =
     (let d = d\<lparr>mn_diag_init_attempts := saturating_add32 (mn_diag_init_attempts d) 1\<rparr> in
      case mn_init mf d of
        (Inr _, d) \<Rightarrow> (Inr (), d\<lparr>mn_init_tracker := init_tracker_success (mn_init_tracker d), mn_diag_last_error := None\<rparr>)
      | (Inl e, d) \<Rightarrow>
          let d = d\<lparr>mn_diag_last_error := Some e, mn_diag_bus_errors := saturating_add32 (mn_diag_bus_errors d) 1\<rparr>;
              (reinit, t) = init_tracker_failure (mn_init_tracker d);
              d = d\<lparr>mn_init_tracker := t\<rparr>
          in if reinit then full_reinit mf delay d else (Inl e, d))"

text \<open>What a failed presence check leaves.\<close>

definition presence_failed :: "('m, 's) mfrc522_nfc \<Rightarrow> presence_state \<times> ('m, 's) mfrc522_nfc" where
  "presence_failed d =
     (let d = d\<lparr>mn_consecutive_failures := saturating_add8 (mn_consecutive_failures d) 1\<rparr>
      in if CARD_ABSENT_THRESHOLD \<le> mn_consecutive_failures d then (\<lparr>present = False\<rparr>, mark_card_absent d)
         else (\<lparr>present = has_card d\<rparr>, d))"

definition poll_physical_card :: "('i, 'm, 'e) mfrc522 \<Rightarrow> (nat \<Rightarrow> 'm \<Rightarrow> 'm) \<Rightarrow> ('m, 's) mfrc522_nfc
    \<Rightarrow> presence_state \<times> ('m, 's) mfrc522_nfc" where
  "poll_physical_card mf delay d =
     (if \<not> mn_is_initialized d then (\<lparr>present = False\<rparr>, d)
      else if mn_lifecycle d = LcActiveSession then (\<lparr>present = True\<rparr>, d)
      else
        case reset_activation_frontend mf delay d of
          (Inl _, d) \<Rightarrow> presence_failed d
        | (Inr _, d) \<Rightarrow>
            (case mf_wupa mf (mn_transceiver d) of
               (Inr _, m) \<Rightarrow> (\<lparr>present = True\<rparr>, mark_card_present (d\<lparr>mn_transceiver := m\<rparr>))
             | (Inl _, m) \<Rightarrow> presence_failed (d\<lparr>mn_transceiver := m\<rparr>)))"

definition mn_poll_card_presence :: "('i, 'm, 'e) mfrc522 \<Rightarrow> (nat \<Rightarrow> 'm \<Rightarrow> 'm) \<Rightarrow> ('m, 's) mfrc522_nfc
    \<Rightarrow> presence_state \<times> ('m, 's) mfrc522_nfc" where
  "mn_poll_card_presence mf delay d =
     poll_physical_card mf delay (d\<lparr>mn_diag_presence_polls := saturating_add32 (mn_diag_presence_polls d) 1\<rparr>)"

definition mn_is_card_present :: "('i, 'm, 'e) mfrc522 \<Rightarrow> (nat \<Rightarrow> 'm \<Rightarrow> 'm) \<Rightarrow> ('m, 's) mfrc522_nfc
    \<Rightarrow> bool \<times> ('m, 's) mfrc522_nfc" where
  "mn_is_card_present mf delay d = (let (p, d) = mn_poll_card_presence mf delay d in (present p, d))"

section \<open>Activation\<close>

definition build_pcsc_atr_from_historical :: "bytes \<Rightarrow> bytes \<Rightarrow> (nfc_error + nat) \<times> bytes" where
  "build_pcsc_atr_from_historical historical atr_buf =
     (let n = length historical; atr_len = 7 + n in
      if length atr_buf < atr_len then (Inl BufferOverflow, atr_buf)
      else
        let buf = [0x3B, 0x80 OR (word_of_nat n AND 0x0F), 0x81, 0x31, 0xFE, t1_tb3 4 5] @ historical @ drop (6 + n) atr_buf;
            tck = xor_fold (take (atr_len - 2) (drop 1 buf))
        in (Inr atr_len, buf[atr_len - 1 := tck]))"

definition mn_power_off :: "('i, 'm, 'e) mfrc522 \<Rightarrow> ('m, 's, 'e) iso14443 \<Rightarrow> ('m, 's) mfrc522_nfc \<Rightarrow> ('m, 's) mfrc522_nfc" where
  "mn_power_off mf stack d =
     (let d = (case mn_session d of
                 Some session \<Rightarrow>
                   d\<lparr>mn_transceiver := snd (iso_deselect stack (mf_transceiver mf) session (mn_transceiver d)), mn_session := None\<rparr>
               | None \<Rightarrow> d)
      in d\<lparr>mn_lifecycle := (if mn_is_initialized d then LcPresentInactive else LcNoCard), mn_cached_ats := None\<rparr>)"

abbreviation (input) ACTIVATION_ATTEMPTS :: nat where "ACTIVATION_ATTEMPTS \<equiv> 4"
abbreviation (input) MFRC522_MAX_FSC :: nat where "MFRC522_MAX_FSC \<equiv> 64"

fun wake_loop :: "('i, 'm, 'e) mfrc522 \<Rightarrow> ('m, 's, 'e) iso14443 \<Rightarrow> (nat \<Rightarrow> 'm \<Rightarrow> 'm) \<Rightarrow> bool \<Rightarrow> nat \<Rightarrow> ('m, 's) mfrc522_nfc
    \<Rightarrow> activation option \<times> ('m, 's) mfrc522_nfc" where
  "wake_loop mf stack delay first 0 d = (None, d)"
| "wake_loop mf stack delay first (Suc n) d =
     (case (if first then (Inr (), d) else reset_activation_frontend mf delay d) of
        (Inl _, d) \<Rightarrow> (None, d)
      | (Inr _, d) \<Rightarrow>
          let m = (if first then mn_transceiver d else delay 15 (mn_transceiver d)) in
          case iso_wakeup stack (mf_transceiver mf) m of
            (Inr a, m) \<Rightarrow>
              let d = d\<lparr>mn_transceiver := m\<rparr>
              in if act_iso14443_4 a then (Some a, d) else wake_loop mf stack delay False n d
          | (Inl _, m) \<Rightarrow> wake_loop mf stack delay False n (d\<lparr>mn_transceiver := m\<rparr>))"

fun rats_loop :: "('i, 'm, 'e) mfrc522 \<Rightarrow> ('m, 's, 'e) iso14443 \<Rightarrow> nat \<Rightarrow> ('m, 's) mfrc522_nfc
    \<Rightarrow> ats option \<times> ('m, 's) mfrc522_nfc" where
  "rats_loop mf stack 0 d = (None, d)"
| "rats_loop mf stack (Suc n) d =
     (case iso_from_connect stack (mf_transceiver mf) (mn_transceiver d) of
        (Inr a, m) \<Rightarrow> (Some a, d\<lparr>mn_transceiver := m\<rparr>)
      | (Inl _, m) \<Rightarrow> rats_loop mf stack n (d\<lparr>mn_transceiver := m\<rparr>))"

definition cache_uid :: "bytes \<Rightarrow> ('m, 's) mfrc522_nfc \<Rightarrow> ('m, 's) mfrc522_nfc" where
  "cache_uid uid d =
     (if length uid \<le> length (mn_cached_uid d)
      then d\<lparr>mn_cached_uid := uid @ drop (length uid) (mn_cached_uid d), mn_cached_uid_len := length uid\<rparr> else d)"

text \<open>FWI is a four-bit field; the shift is taken modulo the width as the optimised build does.\<close>

definition fwt_ms_of :: "u8 \<Rightarrow> u32" where
  "fwt_ms_of fwi =
     (if 0 < fwi then ucast ((302 * push_bit (unat fwi mod 64) 1 :: u64) div 1000 + 10) else 5)"

text \<open>From the answer to select to the open session.\<close>

definition open_session :: "('i, 'm, 'e) mfrc522 \<Rightarrow> ('m, 's, 'e) iso14443 \<Rightarrow> (nat \<Rightarrow> 'm \<Rightarrow> 'm) \<Rightarrow> ats \<Rightarrow> ('m, 's) mfrc522_nfc
    \<Rightarrow> (nfc_error + unit) \<times> ('m, 's) mfrc522_nfc" where
  "open_session mf stack delay ats d =
     (case enable_hw_crc mf (mn_transceiver d) of
        (Inl _, m) \<Rightarrow> (Inl CommunicationError, d\<lparr>mn_transceiver := m\<rparr>)
      | (Inr _, m) \<Rightarrow>
          let session = iso_set_limits stack \<lparr>max_consecutive_wtx = 64, max_total_wtx = 4096, max_frames = 4096,
                          max_retransmissions = 5\<rparr> (iso_from_ats stack ats);
              session = iso_set_fsc stack (min (ats_fsc ats) MFRC522_MAX_FSC) session;
              m = (if 0 < ats_sfgt_us ats then delay ((ats_sfgt_us ats + 999) div 1000 mod 2 ^ 32) m else m);
              fwt_ms = fwt_ms_of (ats_fwi ats)
          in (case set_timeout_ms mf fwt_ms m of
                (Inl _, m) \<Rightarrow> (Inl CommunicationError, d\<lparr>mn_transceiver := m\<rparr>)
              | (Inr _, m) \<Rightarrow>
                  (Inr (), d\<lparr>mn_transceiver := m, mn_lifecycle := LcActiveSession,
                     mn_session := Some (iso_set_base_fwt_ms stack fwt_ms session), mn_cached_ats := Some ats,
                     mn_consecutive_failures := 0, mn_configured_fwt_ms := fwt_ms\<rparr>)))"

text \<open>From the field reset on; the second half of \<open>power_on\<close>.\<close>

definition activate :: "('i, 'm, 'e) mfrc522 \<Rightarrow> ('m, 's, 'e) iso14443 \<Rightarrow> (nat \<Rightarrow> 'm \<Rightarrow> 'm) \<Rightarrow> ('m, 's) mfrc522_nfc \<Rightarrow> bytes
    \<Rightarrow> (nfc_error + nat) \<times> bytes \<times> ('m, 's) mfrc522_nfc" where
  "activate mf stack delay d atr_buf =
     (case reset_activation_frontend mf delay d of
        (Inl e, d) \<Rightarrow> (Inl e, atr_buf, d)
      | (Inr _, d) \<Rightarrow>
          (case wake_loop mf stack delay True ACTIVATION_ATTEMPTS (d\<lparr>mn_transceiver := delay 15 (mn_transceiver d)\<rparr>) of
             (None, d) \<Rightarrow> (Inl CommunicationError, atr_buf, clear_session d)
           | (Some activation, d) \<Rightarrow>
               (case rats_loop mf stack ACTIVATION_ATTEMPTS (cache_uid (act_uid activation) d) of
                  (None, d) \<Rightarrow> (Inl CommunicationError, atr_buf, clear_session d)
                | (Some ats, d) \<Rightarrow>
                    (case open_session mf stack delay ats d of
                       (Inl e, d) \<Rightarrow> (Inl e, atr_buf, d)
                     | (Inr _, d) \<Rightarrow>
                         (case build_pcsc_atr_from_historical (ats_historical_bytes ats) atr_buf of
                            (Inl e, buf) \<Rightarrow> (Inl e, buf, d)
                          | (Inr n, buf) \<Rightarrow>
                              if iso_trace_ok stack ats then (Inr n, buf, d) else (Inl CommunicationError, buf, d))))))"

definition mn_power_on :: "('i, 'm, 'e) mfrc522 \<Rightarrow> ('m, 's, 'e) iso14443 \<Rightarrow> (nat \<Rightarrow> 'm \<Rightarrow> 'm) \<Rightarrow> ('m, 's) mfrc522_nfc \<Rightarrow> bytes
    \<Rightarrow> (nfc_error + nat) \<times> bytes \<times> ('m, 's) mfrc522_nfc" where
  "mn_power_on mf stack delay d atr_buf =
     (if \<not> mn_is_initialized d then (Inl NotInitialized, atr_buf, d)
      else
        let d = (if mn_lifecycle d = LcActiveSession \<or> mn_session d \<noteq> None then mn_power_off mf stack d else d)
        in activate mf stack delay d atr_buf)"

section \<open>Exchange and diagnostics\<close>

definition mn_transmit_apdu :: "('i, 'm, 'e) mfrc522 \<Rightarrow> ('m, 's, 'e) iso14443 \<Rightarrow> ('m \<Rightarrow> int) \<Rightarrow> ('m, 's) mfrc522_nfc \<Rightarrow> bytes \<Rightarrow> bytes
    \<Rightarrow> (nfc_error + nat) \<times> bytes \<times> ('m, 's) mfrc522_nfc" where
  "mn_transmit_apdu mf stack now_us d command response =
     (if \<not> mn_is_initialized d then (Inl NotInitialized, response, d)
      else
        case mn_session d of
          None \<Rightarrow> (Inl NotInitialized, response, d)
        | Some session \<Rightarrow>
            if mn_lifecycle d \<noteq> LcActiveSession then (Inl NotInitialized, response, d)
            else
              let counting = \<lparr>ct_inner = mn_transceiver d, ct_blocks = 0, ct_wtx_replies = 0, ct_recoveries = 0,
                              ct_max_transceive_us = 0\<rparr>;
                  (resp, session, counting) = iso_exchange stack (counting_ops mf now_us) command session counting;
                  d = d\<lparr>mn_transceiver := ct_inner counting,
                        mn_last_exchange := Some (ct_blocks counting, ct_wtx_replies counting, ct_recoveries counting,
                          ct_max_transceive_us counting)\<rparr>
              in (case resp of
                    Inl _ \<Rightarrow>
                      (Inl CommunicationError, response, (clear_session (d\<lparr>mn_session := None\<rparr>))\<lparr>mn_lifecycle := LcPresentInactive\<rparr>)
                  | Inr resp \<Rightarrow>
                      if length response < length resp then (Inl BufferOverflow, response, d\<lparr>mn_session := Some session\<rparr>)
                      else (Inr (length resp), resp @ drop (length resp) response,
                            d\<lparr>mn_lifecycle := LcActiveSession, mn_session := Some session\<rparr>)))"

fun probe_loop :: "('i, 'm, 'e) mfrc522 \<Rightarrow> nat \<Rightarrow> 'm \<Rightarrow> bool \<times> 'm" where
  "probe_loop mf 0 m = (True, m)"
| "probe_loop mf (Suc n) m =
     (case mf_read mf ComIrqReg m of (Inr _, m) \<Rightarrow> probe_loop mf n m | (Inl _, m) \<Rightarrow> (False, m))"

definition mn_i2c_timing_probe :: "('i, 'm, 'e) mfrc522 \<Rightarrow> ('m \<Rightarrow> int) \<Rightarrow> u32 \<Rightarrow> ('m, 's) mfrc522_nfc
    \<Rightarrow> u32 option \<times> ('m, 's) mfrc522_nfc" where
  "mn_i2c_timing_probe mf now_us reads d =
     (let n = min (max (unat reads) 1) 256;
          started_us = now_us (mn_transceiver d);
          (read_all, m) = probe_loop mf n (mn_transceiver d)
      in (if read_all then Some (clamp_elapsed (now_us m - started_us)) else None, d\<lparr>mn_transceiver := m\<rparr>))"

definition mn_timer_registers :: "('i, 'm, 'e) mfrc522 \<Rightarrow> ('m, 's) mfrc522_nfc \<Rightarrow> bytes option \<times> ('m, 's) mfrc522_nfc" where
  "mn_timer_registers mf d =
     (let (r, m) = timer_registers mf (mn_transceiver d)
      in (case r of Inr vs \<Rightarrow> Some vs | Inl _ \<Rightarrow> None, d\<lparr>mn_transceiver := m\<rparr>))"

definition mn_card_uid :: "('m, 's) mfrc522_nfc \<Rightarrow> bytes option" where
  "mn_card_uid d = (if 0 < mn_cached_uid_len d then Some (take (mn_cached_uid_len d) (mn_cached_uid d)) else None)"

definition mn_frontend_status :: "('m, 's) mfrc522_nfc \<Rightarrow> frontend_status" where
  "mn_frontend_status d =
     \<lparr>fs_health = (if mn_is_initialized d then Healthy else Degraded),
      fs_last_error = (case mn_diag_last_error d of Some e \<Rightarrow> frontend_error_of e | None \<Rightarrow> FeNone),
      fs_init_attempts = mn_diag_init_attempts d, fs_reinit_count = it_reinit_count (mn_init_tracker d),
      fs_bus_errors = mn_diag_bus_errors d, fs_presence_polls = mn_diag_presence_polls d\<rparr>"

definition mn_frontend_self_test :: "('i, 'm, 'e) mfrc522 \<Rightarrow> ('m, 's) mfrc522_nfc
    \<Rightarrow> (frontend_error_kind + unit) \<times> ('m, 's) mfrc522_nfc" where
  "mn_frontend_self_test mf d =
     (case mf_version mf (mn_transceiver d) of
        (Inl _, m) \<Rightarrow> (Inl FeBus, d\<lparr>mn_transceiver := m\<rparr>)
      | (Inr version, m) \<Rightarrow>
          (if version = 0x91 \<or> version = 0x92 then Inr () else Inl FeProtocol, d\<lparr>mn_transceiver := m\<rparr>))"

definition mn_nops :: "('i, 'm, 'e) mfrc522 \<Rightarrow> ('m, 's, 'e) iso14443 \<Rightarrow> (nat \<Rightarrow> 'm \<Rightarrow> 'm) \<Rightarrow> ('m \<Rightarrow> int)
    \<Rightarrow> (('m, 's) mfrc522_nfc, nfc_error) nfc_ops" where
  "mn_nops mf stack delay now_us =
     (trait_defaults (mn_init mf) (mn_is_card_present mf delay) (mn_power_on mf stack delay) (mn_power_off mf stack)
        (mn_transmit_apdu mf stack now_us) mn_frontend_status (mn_frontend_self_test mf))
     \<lparr>n_init_recovering := init_with_recovery mf delay,
      n_poll_card_presence := mn_poll_card_presence mf delay,
      n_session_active := (\<lambda>d. mn_lifecycle d = LcActiveSession),
      n_exchange_decomposition := mn_last_exchange,
      n_i2c_timing_probe := mn_i2c_timing_probe mf now_us,
      n_configured_fwt_ms := mn_configured_fwt_ms,
      n_timer_registers := mn_timer_registers mf,
      n_card_uid := mn_card_uid,
      n_reinit_count := (\<lambda>d. it_reinit_count (mn_init_tracker d))\<rparr>"

text \<open>The stub of host builds, which have no front end.\<close>

definition stub_nops :: "(unit, nfc_error) nfc_ops" where
  "stub_nops =
     trait_defaults (\<lambda>d. (Inr (), d)) (\<lambda>d. (False, d)) (\<lambda>d buf. (Inl NoCard, buf, d)) (\<lambda>d. d)
       (\<lambda>d _ response. (Inl NotInitialized, response, d))
       (\<lambda>_. frontend_status_ok\<lparr>fs_health := Unavailable, fs_last_error := FeNotInitialized\<rparr>)
       (\<lambda>d. (Inl FeNotInitialized, d))"

end
