(* ===== verification/Mfrc522_Reader.thy ===== *)
theory Mfrc522_Reader
  imports Mfrc522_Nfc Contactless_Atr
begin

text \<open>
  The MFRC522 driver meets the contract of a front end whatever the chip and the ISO 14443 stack do; its
  presence answer is debounced, its ATR parses to the parameters of a T=1 reader, and the timeout it arms
  covers the card's frame waiting time.
\<close>

section \<open>The state invariant\<close>

definition mn_ok :: "('m, 's) mfrc522_nfc \<Rightarrow> bool" where
  "mn_ok d \<longleftrightarrow>
     length (mn_cached_uid d) = 10 \<and> mn_cached_uid_len d \<le> 10 \<and>
     (mn_session d \<noteq> None \<longleftrightarrow> mn_lifecycle d = LcActiveSession) \<and>
     (mn_cached_ats d \<noteq> None \<longleftrightarrow> mn_lifecycle d = LcActiveSession) \<and>
     (mn_lifecycle d = LcActiveSession \<longrightarrow> mn_is_initialized d) \<and>
     mn_consecutive_failures d < 3 \<and> it_consecutive_failures (mn_init_tracker d) < 3"

lemma mn_ok_new: "mn_ok (mn_new m)"
  by (simp add: mn_ok_def mn_new_def init_tracker_new_def)

lemma mn_ok_chip [simp]: "mn_ok (d\<lparr>mn_transceiver := m\<rparr>) = mn_ok d"
  by (simp add: mn_ok_def)

lemma reset_activation_chip:
  "reset_activation_frontend mf delay d = (r, d') \<Longrightarrow> \<exists>m. d' = d\<lparr>mn_transceiver := m\<rparr>"
  by (auto simp: reset_activation_frontend_def split: prod.splits)

lemma wake_loop_chip: "wake_loop mf stack delay first n d = (a, d') \<Longrightarrow> \<exists>m. d' = d\<lparr>mn_transceiver := m\<rparr>"
proof (induction n arbitrary: first d)
  case 0
  then have "d' = d\<lparr>mn_transceiver := mn_transceiver d\<rparr>" by simp
  then show ?case by blast
next
  case (Suc n)
  obtain r d1 where r: "(if first then (Inr (), d) else reset_activation_frontend mf delay d) = (r, d1)"
    by (cases "if first then (Inr (), d) else reset_activation_frontend mf delay d") simp
  have "\<exists>m. d1 = d\<lparr>mn_transceiver := m\<rparr>"
  proof (cases first)
    case True
    with r have "d1 = d\<lparr>mn_transceiver := mn_transceiver d\<rparr>" by simp
    then show ?thesis by blast
  next
    case False
    with r show ?thesis using reset_activation_chip by auto
  qed
  with Suc.prems r show ?case
    by (auto simp: Let_def split: sum.splits prod.splits if_splits dest!: Suc.IH)
qed

lemma rats_loop_chip: "rats_loop mf stack n d = (a, d') \<Longrightarrow> \<exists>m. d' = d\<lparr>mn_transceiver := m\<rparr>"
proof (induction n arbitrary: d)
  case 0
  then have "d' = d\<lparr>mn_transceiver := mn_transceiver d\<rparr>" by simp
  then show ?case by blast
next
  case (Suc n)
  then show ?case by (auto split: sum.splits prod.splits dest!: Suc.IH)
qed

lemma small_u8_cases: "(w::u8) < 3 \<Longrightarrow> w = 0 \<or> w = 1 \<or> w = 2"
  by unat_arith

lemma mn_init_ok: "mn_ok d \<Longrightarrow> mn_init mf d = (r, d') \<Longrightarrow> mn_ok d'"
  by (auto simp: mn_init_def mn_ok_def split: sum.splits prod.splits if_splits)

lemma full_reinit_ok: "mn_ok d \<Longrightarrow> full_reinit mf delay d = (r, d') \<Longrightarrow> mn_ok d'"
  by (auto simp: full_reinit_def Let_def try_then_def split: sum.splits prod.splits
      dest!: reset_activation_chip) (auto simp: mn_ok_def dest!: mn_init_ok [rotated])

lemma tracker_failure_small:
  "it_consecutive_failures t < 3 \<Longrightarrow> init_tracker_failure t = (b, t') \<Longrightarrow> it_consecutive_failures t' < 3"
  by (drule small_u8_cases) (auto simp: init_tracker_failure_def saturating_add8_def Let_def split: if_splits)

lemma init_with_recovery_ok:
  assumes "mn_ok d" "init_with_recovery mf delay d = (r, d')"
  shows "mn_ok d'"
proof -
  let ?d0 = "d\<lparr>mn_diag_init_attempts := saturating_add32 (mn_diag_init_attempts d) 1\<rparr>"
  obtain r1 d1 where i: "mn_init mf ?d0 = (r1, d1)" by (cases "mn_init mf ?d0")
  have d1: "mn_ok d1" by (rule mn_init_ok [OF _ i]) (use assms(1) in \<open>simp add: mn_ok_def\<close>)
  obtain b t where t: "init_tracker_failure (mn_init_tracker d1) = (b, t)"
    by (cases "init_tracker_failure (mn_init_tracker d1)")
  have ts: "it_consecutive_failures t < 3" using tracker_failure_small [OF _ t] d1 by (simp add: mn_ok_def)
  show ?thesis
  proof (cases r1)
    case (Inl e)
    let ?d2 = "d1\<lparr>mn_diag_last_error := Some e, mn_diag_bus_errors := saturating_add32 (mn_diag_bus_errors d1) 1, mn_init_tracker := t\<rparr>"
    have "mn_ok ?d2" using d1 ts by (simp add: mn_ok_def)
    moreover have "init_with_recovery mf delay d = (if b then full_reinit mf delay ?d2 else (Inl e, ?d2))"
      by (simp add: init_with_recovery_def i Inl t Let_def)
    ultimately show ?thesis using assms(2) full_reinit_ok [of ?d2 mf delay r d'] by (cases b) auto
  next
    case (Inr u)
    then show ?thesis using assms(2) d1
      by (auto simp: init_with_recovery_def i Let_def mn_ok_def init_tracker_success_def)
  qed
qed

lemma presence_failed_ok: "mn_ok d \<Longrightarrow> mn_lifecycle d \<noteq> LcActiveSession \<Longrightarrow> presence_failed d = (p, d') \<Longrightarrow> mn_ok d'"
  using small_u8_cases [of "mn_consecutive_failures d"]
  by (auto simp: presence_failed_def mn_ok_def mark_card_absent_def saturating_add8_def Let_def split: if_splits)

lemma poll_physical_card_ok: "mn_ok d \<Longrightarrow> poll_physical_card mf delay d = (p, d') \<Longrightarrow> mn_ok d'"
  by (auto simp: poll_physical_card_def split: if_splits sum.splits prod.splits dest!: reset_activation_chip
      elim!: presence_failed_ok [rotated 2])
    (auto simp: mn_ok_def mark_card_present_def Let_def)

lemma mn_poll_ok: "mn_ok d \<Longrightarrow> mn_poll_card_presence mf delay d = (p, d') \<Longrightarrow> mn_ok d'"
  unfolding mn_poll_card_presence_def by (erule poll_physical_card_ok [rotated]) (simp add: mn_ok_def)

lemma power_off_ok: "mn_ok d \<Longrightarrow> mn_ok (mn_power_off mf stack d) \<and> mn_lifecycle (mn_power_off mf stack d) \<noteq> LcActiveSession"
  by (auto simp: mn_power_off_def mn_ok_def Let_def split: option.splits)

lemma cache_uid_keeps [simp]:
  "mn_is_initialized (cache_uid uid d) = mn_is_initialized d" "mn_lifecycle (cache_uid uid d) = mn_lifecycle d"
  by (simp_all add: cache_uid_def)

lemma cache_uid_ok: "mn_ok d \<Longrightarrow> mn_ok (cache_uid uid d)"
  by (auto simp: cache_uid_def mn_ok_def)

lemma clear_session_ok: "mn_ok d \<Longrightarrow> mn_ok (clear_session d)"
  by (auto simp: clear_session_def mn_ok_def Let_def)

lemma open_session_ok: "mn_ok d \<Longrightarrow> mn_is_initialized d \<Longrightarrow> open_session mf stack delay ats d = (r, d') \<Longrightarrow> mn_ok d'"
  by (auto simp: open_session_def Let_def split: sum.splits prod.splits) (auto simp: mn_ok_def)

lemma build_atr_length:
  assumes "build_pcsc_atr_from_historical h buf = (r, buf')"
  shows "length buf' = length buf" and "r = Inr n \<Longrightarrow> n \<le> length buf"
  using assms by (auto simp: build_pcsc_atr_from_historical_def Let_def split: if_splits)

text \<open>The steps of a power-on, as one case distinction.\<close>

lemma power_on_cases:
  assumes "mn_ok d" "mn_power_on mf stack delay d buf = (r, buf', d')"
  obtains (refused) e where "r = Inl e" "buf' = buf" "mn_ok d'"
    "mn_is_initialized d \<Longrightarrow> mn_lifecycle d' \<noteq> LcActiveSession"
  | (opened) ats d1 ra where "open_session mf stack delay ats d1 = (Inr (), d')" "mn_ok d1" "mn_is_initialized d1"
      "build_pcsc_atr_from_historical (ats_historical_bytes ats) buf = (ra, buf')"
      "r = (if iso_trace_ok stack ats then ra else case ra of Inl e \<Rightarrow> Inl e | Inr _ \<Rightarrow> Inl CommunicationError)"
proof (cases "mn_is_initialized d")
  case False
  with assms have "r = Inl NotInitialized" "buf' = buf" "d' = d" by (simp_all add: mn_power_on_def)
  with assms(1) False show ?thesis by (intro refused) auto
next
  case init: True
  define d0 where "d0 = (if mn_lifecycle d = LcActiveSession \<or> mn_session d \<noteq> None then mn_power_off mf stack d else d)"
  have d0: "mn_ok d0" "mn_is_initialized d0" "mn_lifecycle d0 \<noteq> LcActiveSession"
    using assms(1) init power_off_ok [OF assms(1)] by (auto simp: d0_def mn_power_off_def Let_def split: option.splits)
  have on: "mn_power_on mf stack delay d buf = activate mf stack delay d0 buf"
    using init by (simp add: mn_power_on_def d0_def)
  note act = assms(2) [unfolded on activate_def]
  obtain r1 d1 where r1: "reset_activation_frontend mf delay d0 = (r1, d1)" by fastforce
  then obtain m1 where m1: "d1 = d0\<lparr>mn_transceiver := m1\<rparr>" using reset_activation_chip by blast
  let ?d1 = "d1\<lparr>mn_transceiver := delay 15 (mn_transceiver d1)\<rparr>"
  obtain w d2 where w: "wake_loop mf stack delay True ACTIVATION_ATTEMPTS ?d1 = (w, d2)" by fastforce
  then obtain m2 where m2: "d2 = ?d1\<lparr>mn_transceiver := m2\<rparr>" using wake_loop_chip by blast
  show ?thesis
  proof (cases r1)
    case (Inl e)
    then show ?thesis using act r1 m1 d0 by (intro refused) auto
  next
    case r1': (Inr u)
    show ?thesis
    proof (cases w)
      case None
      then have "r = Inl CommunicationError" "buf' = buf" "d' = clear_session d2"
        using act r1 r1' w by simp_all
      moreover have "mn_lifecycle (clear_session d2) \<noteq> LcActiveSession" by (simp add: clear_session_def Let_def)
      ultimately show ?thesis using m1 m2 d0 clear_session_ok [of d2] by (intro refused) auto
    next
      case (Some a)
      let ?d2 = "cache_uid (act_uid a) d2"
      obtain t d3 where t: "rats_loop mf stack ACTIVATION_ATTEMPTS ?d2 = (t, d3)" by fastforce
      then obtain m3 where m3: "d3 = ?d2\<lparr>mn_transceiver := m3\<rparr>" using rats_loop_chip by blast
      have d3: "mn_ok d3" "mn_is_initialized d3" "mn_lifecycle d3 \<noteq> LcActiveSession"
        using d0 m1 m2 m3 by (auto simp: cache_uid_ok)
      show ?thesis
      proof (cases t)
        case None
        then have "r = Inl CommunicationError" "buf' = buf" "d' = clear_session d3"
          using act r1 r1' w Some t by simp_all
        moreover have "mn_lifecycle (clear_session d3) \<noteq> LcActiveSession" by (simp add: clear_session_def Let_def)
        ultimately show ?thesis using d3 clear_session_ok [of d3] by (intro refused) auto
      next
        case ats: (Some ats)
        obtain r4 d4 where o: "open_session mf stack delay ats d3 = (r4, d4)" by fastforce
        obtain ra b where b: "build_pcsc_atr_from_historical (ats_historical_bytes ats) buf = (ra, b)" by fastforce
        show ?thesis
        proof (cases r4)
          case (Inl e)
          then have "r = Inl e" "buf' = buf" "d' = d4"
            using act r1 r1' w Some t ats o by simp_all
          moreover have "mn_lifecycle d4 \<noteq> LcActiveSession" using o Inl d3
            by (auto simp: open_session_def Let_def split: sum.splits prod.splits)
          ultimately show ?thesis using open_session_ok [OF d3(1,2) o] by (intro refused) auto
        next
          case (Inr u)
          then show ?thesis
            using act r1 r1' w Some t ats o b d3
            by (intro opened [of ats d3 ra]) (auto split: sum.splits if_splits)
        qed
      qed
    qed
  qed
qed

lemma power_on_ok:
  assumes "mn_ok d" "mn_power_on mf stack delay d buf = (r, buf', d')"
  shows "mn_ok d' \<and> length buf' = length buf \<and> (\<forall>n. r = Inr n \<longrightarrow> n \<le> length buf)"
  using assms
proof (cases rule: power_on_cases)
  case (opened ats d1 ra)
  then show ?thesis using open_session_ok [OF opened(2,3,1)] build_atr_length [OF opened(4)]
    by (auto split: if_splits sum.splits)
qed auto

lemma transmit_ok:
  assumes "mn_ok d" "mn_transmit_apdu mf stack now_us d cmd buf = (r, buf', d')"
  shows "mn_ok d' \<and> length buf' = length buf \<and> (\<forall>n. r = Inr n \<longrightarrow> n \<le> length buf)"
  using assms
  by (auto simp: mn_transmit_apdu_def Let_def mn_ok_def clear_session_def split: if_splits option.splits sum.splits prod.splits)

lemma timer_registers_length: "timer_registers mf m = (Inr vs, m') \<Longrightarrow> length vs = 4"
  by (auto simp: timer_registers_def try_then_Inr)

lemma mn_ok_uid: "mn_ok d \<Longrightarrow> mn_cached_uid_len d \<le> 10"
  by (simp add: mn_ok_def)

lemmas mn_nops_defs = mn_nops_def trait_defaults_def

lemma mn_contract: "nfc_frontend (mn_nops mf stack delay now_us) mn_ok"
  by unfold_locales
    (auto simp: mn_nops_defs mn_is_card_present_def mn_timer_registers_def mn_i2c_timing_probe_def mn_card_uid_def
        mn_frontend_self_test_def power_off_ok Let_def timer_registers_length
      split: prod.splits sum.splits if_splits
      dest: power_on_ok transmit_ok mn_init_ok init_with_recovery_ok mn_poll_ok mn_ok_uid)

interpretation mn: nfc_frontend "mn_nops mf stack delay now_us" mn_ok
  for mf :: "('i, 'm, 'e) mfrc522" and stack :: "('m, 's, 'e) iso14443" and delay now_us
  by (rule mn_contract)

interpretation stub: nfc_frontend stub_nops "\<lambda>_. True"
  by unfold_locales (auto simp: stub_nops_def trait_defaults_def)

section \<open>The ATR\<close>

lemma build_atr_form:
  assumes "build_pcsc_atr_from_historical h buf = (Inr n, buf')"
  shows "n = 7 + length h" "take n buf' = atr_prefix (length h) @ h @ [xor_fold (drop 1 (atr_prefix (length h) @ h))]"
proof -
  have tb3: "t1_tb3 4 5 = 0x45" by (simp add: t1_tb3_def)
  from assms have l: "7 + length h \<le> length buf" and n: "n = 7 + length h"
    by (auto simp: build_pcsc_atr_from_historical_def Let_def split: if_splits)
  from l obtain x xs where x: "drop (6 + length h) buf = x # xs" by (cases "drop (6 + length h) buf") auto
  have t: "take (5 + length h) (a # b # c # d # e # h @ ys) = a # b # c # d # e # h" for a b c d e :: u8 and ys
    by (simp add: eval_nat_numeral)
  have "buf' = atr_prefix (length h) @ h @ xor_fold (drop 1 (atr_prefix (length h) @ h)) # xs"
    using assms l x by (auto simp: build_pcsc_atr_from_historical_def Let_def tb3 atr_prefix_def t)
  with n show "n = 7 + length h" "take n buf' = atr_prefix (length h) @ h @ [xor_fold (drop 1 (atr_prefix (length h) @ h))]"
    by simp_all
qed

lemma build_atr_parsed:
  assumes "build_pcsc_atr_from_historical h buf = (Inr n, buf')"
  shows "parse_atr (take n buf') = atr_params_default\<lparr>ap_protocol := 1, ap_ifsc := 0xFE, ap_bwi := 4, ap_cwi := 5\<rparr>"
    "verify_atr_tck (take n buf') 1" "take (length h) (drop 6 (take n buf')) = h"
  unfolding build_atr_form(2) [OF assms]
  by (simp_all add: atr_prefix_parsed verify_atr_tck_def nth_append)

section \<open>The frame waiting time\<close>

lemma fwt_covers:
  assumes "fwi < 16"
  shows "4096 * 2 ^ unat fwi * 1000 \<le> unat (fwt_ms_of fwi) * 13560000"
proof -
  from assms have "fwi \<in> {0, 1, 2, 3, 4, 5, 6, 7, 8, 9, 10, 11, 12, 13, 14, 15}"
    by (simp add: word_less_iff_unsigned) unat_arith
  then show ?thesis by (elim insertE emptyE) (simp_all add: fwt_ms_of_def)
qed

context register_file
begin

lemma open_session_arms:
  assumes "open_session mf stack delay ats d = (Inr (), d')"
  shows "timer_armed (fwt_ms_of (ats_fwi ats)) (reg (mn_transceiver d')) \<and> mn_lifecycle d' = LcActiveSession \<and>
    mn_session d' \<noteq> None \<and> mn_cached_ats d' = Some ats \<and> mn_configured_fwt_ms d' = fwt_ms_of (ats_fwi ats)"
  using assms by (auto simp: open_session_def Let_def split: sum.splits prod.splits dest: set_timeout_arms)

end

text \<open>C15: A successful power-on of the MFRC522 driver waits long enough and describes the card.  The
  session is open, the timer registers of the chip hold a timeout of at least the frame waiting time
  \<open>4096 * 2^FWI / 13.56 MHz\<close> the card announced in its answer to select, and the ATR handed to the host parses
  as a T=1 card with IFSC 254, BWI 4 and CWI 5, carries the card's historical bytes and has a valid checksum.
  The ISO 14443 stack and the card are arbitrary; FWI is the four-bit value of the standard.\<close>

theorem mfrc522_power_on_covers_fwt:
  assumes "register_file mf reg" and "mn_ok d" and "mn_power_on mf stack delay d buf = (Inr n, buf', d')"
  shows "\<exists>ats. mn_cached_ats d' = Some ats \<and> mn_lifecycle d' = LcActiveSession \<and> mn_session d' \<noteq> None \<and>
    timer_armed (mn_configured_fwt_ms d') (reg (mn_transceiver d')) \<and>
    (ats_fwi ats < 16 \<longrightarrow> 4096 * 2 ^ unat (ats_fwi ats) * 1000 \<le> unat (mn_configured_fwt_ms d') * 13560000) \<and>
    parse_atr (take n buf') = atr_params_default\<lparr>ap_protocol := 1, ap_ifsc := 0xFE, ap_bwi := 4, ap_cwi := 5\<rparr> \<and>
    verify_atr_tck (take n buf') 1 \<and>
    take (length (ats_historical_bytes ats)) (drop 6 (take n buf')) = ats_historical_bytes ats"
  using assms(2,3)
proof (cases rule: power_on_cases)
  case (opened ats d1 ra)
  from opened(5) have "ra = Inr n" by (auto split: if_splits sum.splits)
  with opened(4) have b: "build_pcsc_atr_from_historical (ats_historical_bytes ats) buf = (Inr n, buf')" by simp
  note a = register_file.open_session_arms [OF assms(1) opened(1)]
  show ?thesis
    by (rule exI [of _ ats]) (use a build_atr_parsed [OF b] fwt_covers [of "ats_fwi ats"] in auto)
qed simp

section \<open>Presence\<close>

fun poll_times :: "('i, 'm, 'e) mfrc522 \<Rightarrow> (nat \<Rightarrow> 'm \<Rightarrow> 'm) \<Rightarrow> nat \<Rightarrow> ('m, 's) mfrc522_nfc \<Rightarrow> bool list \<times> ('m, 's) mfrc522_nfc" where
  "poll_times mf delay 0 d = ([], d)"
| "poll_times mf delay (Suc n) d =
     (let (p, d) = mn_is_card_present mf delay d; (ps, d) = poll_times mf delay n d in (p # ps, d))"

text \<open>The state in which a poll asks the chip, and what one poll then does.\<close>

definition idle :: "('m, 's) mfrc522_nfc \<Rightarrow> bool" where
  "idle d \<longleftrightarrow> mn_ok d \<and> mn_is_initialized d \<and> mn_lifecycle d \<noteq> LcActiveSession"

lemma presence_failed_cases:
  assumes "idle d" "presence_failed d = (p, d')"
  shows "idle d' \<and> present p = (has_card d \<and> unat (mn_consecutive_failures d) < 2) \<and>
    (if unat (mn_consecutive_failures d) < 2
     then unat (mn_consecutive_failures d') = unat (mn_consecutive_failures d) + 1 \<and> has_card d' = has_card d
     else mn_consecutive_failures d' = 0 \<and> \<not> has_card d' \<and> mn_card_uid d' = None)"
proof -
  let ?k = "mn_consecutive_failures d"
  have ok: "mn_ok d" and na: "mn_lifecycle d \<noteq> LcActiveSession" and i: "mn_is_initialized d"
    using assms(1) by (simp_all add: idle_def)
  have d': "mn_ok d'" by (rule presence_failed_ok [OF ok na assms(2)])
  show ?thesis
  proof (cases "?k = 2")
    case True
    then have "p = \<lparr>present = False\<rparr>" "d' = mark_card_absent (d\<lparr>mn_consecutive_failures := 3\<rparr>)"
      using assms(2) by (simp_all add: presence_failed_def saturating_add8_def)
    with True d' i show ?thesis by (simp add: idle_def mark_card_absent_def has_card_def mn_card_uid_def)
  next
    case False
    then have k: "?k = 0 \<or> ?k = 1" using ok small_u8_cases [of ?k] by (auto simp: mn_ok_def)
    then have u: "unat (?k + 1) = unat ?k + 1" "saturating_add8 ?k 1 = ?k + 1" "\<not> CARD_ABSENT_THRESHOLD \<le> ?k + 1" "unat ?k < 2"
      by (auto simp: saturating_add8_def word_le_nat_alt)
    then have "p = \<lparr>present = has_card d\<rparr>" "d' = d\<lparr>mn_consecutive_failures := ?k + 1\<rparr>"
      using assms(2) by (simp_all add: presence_failed_def has_card_def)
    with u d' i na show ?thesis by (simp add: idle_def has_card_def)
  qed
qed

lemma silent_poll:
  assumes "idle d" "\<And>m. isl (fst (mf_wupa mf m))" "mn_is_card_present mf delay d = (p, d')"
  shows "idle d' \<and> p = (has_card d \<and> unat (mn_consecutive_failures d) < 2) \<and>
    (if unat (mn_consecutive_failures d) < 2
     then unat (mn_consecutive_failures d') = unat (mn_consecutive_failures d) + 1 \<and> has_card d' = has_card d
     else mn_consecutive_failures d' = 0 \<and> \<not> has_card d' \<and> mn_card_uid d' = None)"
proof -
  let ?d = "d\<lparr>mn_diag_presence_polls := saturating_add32 (mn_diag_presence_polls d) 1\<rparr>"
  obtain r d1 where r: "reset_activation_frontend mf delay ?d = (r, d1)" by fastforce
  then obtain m where m: "d1 = ?d\<lparr>mn_transceiver := m\<rparr>" using reset_activation_chip by blast
  obtain x m1 where w: "mf_wupa mf m = (x, m1)" by fastforce
  with assms(2) [of m] have x: "\<exists>e. x = Inl e" by (auto simp: isl_def)
  define q where "q = (if isl r then m else m1)"
  have "poll_physical_card mf delay ?d = presence_failed (?d\<lparr>mn_transceiver := q\<rparr>)"
    using assms(1) r m w x by (cases r) (auto simp: poll_physical_card_def idle_def q_def)
  moreover have "idle (?d\<lparr>mn_transceiver := q\<rparr>)" using assms(1) by (simp add: idle_def mn_ok_def)
  moreover have "has_card (?d\<lparr>mn_transceiver := q\<rparr>) = has_card d" by (simp add: has_card_def)
  moreover obtain ps d2 where f: "presence_failed (?d\<lparr>mn_transceiver := q\<rparr>) = (ps, d2)" by fastforce
  ultimately have "p = present ps" "d' = d2"
    using assms(3) by (simp_all add: mn_is_card_present_def mn_poll_card_presence_def)
  then show ?thesis
    using presence_failed_cases [OF \<open>idle (?d\<lparr>mn_transceiver := q\<rparr>)\<close> f] \<open>has_card _ = _\<close> by simp
qed

lemma silent_polls:
  assumes "idle d" "\<And>m. isl (fst (mf_wupa mf m))"
  shows "fst (poll_times mf delay n d) = map (\<lambda>i. has_card d \<and> unat (mn_consecutive_failures d) + i < 2) [0..<n]"
  using assms(1)
proof (induction n arbitrary: d)
  case (Suc n)
  obtain p d1 where p: "mn_is_card_present mf delay d = (p, d1)" by fastforce
  note s = silent_poll [OF Suc.prems assms(2) p]
  have "fst (poll_times mf delay (Suc n) d) = p # fst (poll_times mf delay n d1)"
    by (simp add: p split: prod.splits)
  also have "\<dots> = p # map (\<lambda>i. has_card d1 \<and> unat (mn_consecutive_failures d1) + i < 2) [0..<n]"
    using Suc.IH [of d1] s by simp
  also have "\<dots> = map (\<lambda>i. has_card d \<and> unat (mn_consecutive_failures d) + i < 2) (0 # map Suc [0..<n])"
    using s by (auto split: if_splits)
  finally show ?case by (simp only: upt_conv_Cons zero_less_Suc map_Suc_upt)
qed simp

text \<open>Presence is debounced.  While no session is open every poll wakes the field and asks; a card that
  answers is reported at once and the count of misses starts again.  When no card answers, the polls go on
  reporting the card that was there until three in a row have been missed, then report it gone and drop its
  UID; a reader without a card never reports one.  A power-off makes the reader count as holding a card: on an
  empty reader the next two polls report a card that is not there.\<close>

theorem mfrc522_presence_debounced:
  assumes "mn_ok d" and "mn_is_initialized d" and "mn_lifecycle d \<noteq> LcActiveSession"
  shows "(\<forall>d1 x m' p d'. reset_activation_frontend mf delay (d\<lparr>mn_diag_presence_polls := saturating_add32 (mn_diag_presence_polls d) 1\<rparr>)
            = (Inr (), d1) \<and> mf_wupa mf (mn_transceiver d1) = (Inr x, m') \<and> mn_is_card_present mf delay d = (p, d') \<longrightarrow>
          p \<and> has_card d' \<and> mn_consecutive_failures d' = 0) \<and>
    ((\<forall>m. isl (fst (mf_wupa mf m))) \<longrightarrow>
       fst (poll_times mf delay n d) = map (\<lambda>i. has_card d \<and> unat (mn_consecutive_failures d) + i < 2) [0..<n] \<and>
       (unat (mn_consecutive_failures d) = 2 \<longrightarrow> mn_card_uid (snd (mn_is_card_present mf delay d)) = None) \<and>
       (mn_consecutive_failures d = 0 \<longrightarrow> fst (poll_times mf delay 3 (mn_power_off mf stack d)) = [True, True, False]))"
proof -
  have i: "idle d" using assms by (simp add: idle_def)
  have answered: "p \<and> has_card d' \<and> mn_consecutive_failures d' = 0"
    if "reset_activation_frontend mf delay (d\<lparr>mn_diag_presence_polls := saturating_add32 (mn_diag_presence_polls d) 1\<rparr>) = (Inr (), d1)"
      "mf_wupa mf (mn_transceiver d1) = (Inr x, m')" "mn_is_card_present mf delay d = (p, d')" for d1 x m' p d'
    using that assms
    by (auto simp: mn_is_card_present_def mn_poll_card_presence_def poll_physical_card_def mark_card_present_def has_card_def Let_def
        split: if_splits)
  have silent: "fst (poll_times mf delay n d) = map (\<lambda>i. has_card d \<and> unat (mn_consecutive_failures d) + i < 2) [0..<n]"
    "unat (mn_consecutive_failures d) = 2 \<longrightarrow> mn_card_uid (snd (mn_is_card_present mf delay d)) = None"
    "mn_consecutive_failures d = 0 \<longrightarrow> fst (poll_times mf delay 3 (mn_power_off mf stack d)) = [True, True, False]"
    if "\<And>m. isl (fst (mf_wupa mf m))"
  proof -
    show "fst (poll_times mf delay n d) = map (\<lambda>i. has_card d \<and> unat (mn_consecutive_failures d) + i < 2) [0..<n]"
      by (rule silent_polls [OF i that])
    show "unat (mn_consecutive_failures d) = 2 \<longrightarrow> mn_card_uid (snd (mn_is_card_present mf delay d)) = None"
      using silent_poll [OF i that, of delay] by (cases "mn_is_card_present mf delay d") auto
    have "idle (mn_power_off mf stack d)" "has_card (mn_power_off mf stack d)"
      "mn_consecutive_failures (mn_power_off mf stack d) = mn_consecutive_failures d"
      using power_off_ok [OF assms(1), of mf stack] assms(2)
      by (auto simp: idle_def has_card_def mn_power_off_def Let_def split: option.splits)
    then show "mn_consecutive_failures d = 0 \<longrightarrow> fst (poll_times mf delay 3 (mn_power_off mf stack d)) = [True, True, False]"
      using silent_polls [OF _ that, of "mn_power_off mf stack d" delay 3] by (auto simp: upt_rec)
  qed
  show ?thesis using answered silent by blast
qed

section \<open>Concrete instances\<close>

text \<open>A card in the field of a working chip, and the same chip with an empty field.\<close>

definition demo_ats :: ats where
  "demo_ats = \<lparr>ats_historical_bytes = [0x80, 0x5A], ats_sfgt_us = 0, ats_fsc = 256, ats_fwi = 14\<rparr>"

definition demo_stack :: "(register_log, unit, unit) iso14443" where
  "demo_stack =
     \<lparr>iso_wakeup = (\<lambda>_ m. (Inr \<lparr>act_uid = [1, 2, 3, 4], act_iso14443_4 = True\<rparr>, m)), iso_from_connect = (\<lambda>_ m. (Inr demo_ats, m)),
      iso_from_ats = (\<lambda>_. ()), iso_set_limits = (\<lambda>_ s. s), iso_set_fsc = (\<lambda>_ s. s), iso_set_base_fwt_ms = (\<lambda>_ s. s),
      iso_deselect = (\<lambda>_ s m. (s, m)), iso_exchange = (\<lambda>_ _ s c. (Inr [0x90, 0x00], s, c)), iso_trace_ok = (\<lambda>_. True)\<rparr>"

definition empty_field :: "(unit, register_log, unit) mfrc522" where
  "empty_field = plain_mf\<lparr>mf_wupa := (\<lambda>m. (Inl MfTimeout, m))\<rparr>"

definition ready_driver :: "(register_log, unit) mfrc522_nfc" where
  "ready_driver = (mn_new [])\<lparr>mn_is_initialized := True\<rparr>"

lemma ready_driver_ok: "mn_ok ready_driver"
  by (simp add: ready_driver_def mn_ok_def mn_new_def init_tracker_new_def)

theorem mfrc522_power_on_covers_fwt_witness:
  "\<exists>n buf' d'. mn_power_on plain_mf demo_stack (\<lambda>_ m. m) ready_driver (replicate 33 0) = (Inr n, buf', d') \<and>
     timer_armed (mn_configured_fwt_ms d') (plain_reg (mn_transceiver d')) \<and> ap_ifsc (parse_atr (take n buf')) = 0xFE"
proof -
  let ?r = "mn_power_on plain_mf demo_stack (\<lambda>_ m. m) ready_driver (replicate 33 0)"
  have wake: "wake_loop plain_mf demo_stack (\<lambda>_ m. m) True 4 d = (Some \<lparr>act_uid = [1, 2, 3, 4], act_iso14443_4 = True\<rparr>, d)"
    "rats_loop plain_mf demo_stack 4 d = (Some demo_ats, d)" for d
    by (simp_all add: eval_nat_numeral demo_stack_def)
  have "\<exists>d'. open_session plain_mf demo_stack (\<lambda>_ m. m) demo_ats d = (Inr (), d')" for d
  proof -
    have "\<not> TIMER_MAX_DIVISOR < timer_divisor (fwt_ms_of 14)"
      using timer_divisor_fits [of "fwt_ms_of 14"] by (simp add: fwt_ms_of_def word_less_nat_alt)
    then show ?thesis
      by (simp add: open_session_def enable_hw_crc_def set_timeout_ms_def demo_ats_def plain_mf_def Let_def)
  qed
  then obtain op where o: "open_session plain_mf demo_stack (\<lambda>_ m. m) demo_ats d = (Inr (), op d)" for d by metis
  have "\<exists>d'. reset_activation_frontend plain_mf (\<lambda>_ m. m) d = (Inr (), d')" for d :: "(register_log, unit) mfrc522_nfc"
    by (simp add: reset_activation_frontend_def reset_frontend_def plain_mf_def)
  then obtain rs where rs: "reset_activation_frontend plain_mf (\<lambda>_ m. m) d = (Inr (), rs d)" for d :: "(register_log, unit) mfrc522_nfc"
    by metis
  have tr: "iso_trace_ok demo_stack demo_ats" by (simp add: demo_stack_def)
  obtain n buf' where b: "build_pcsc_atr_from_historical (ats_historical_bytes demo_ats) (replicate 33 0) = (Inr n, buf')"
    by (simp add: build_pcsc_atr_from_historical_def demo_ats_def Let_def)
  have "mn_is_initialized ready_driver" by (simp add: ready_driver_def)
  then obtain d' where r: "?r = (Inr n, buf', d')"
    by (simp add: mn_power_on_def activate_def Let_def rs wake o b tr)
  from mfrc522_power_on_covers_fwt [OF plain.register_file_axioms ready_driver_ok r] r show ?thesis by auto
qed

theorem mfrc522_presence_debounced_witness:
  "fst (poll_times empty_field (\<lambda>_ m. m) 3 (mn_power_off empty_field demo_stack ready_driver)) = [True, True, False]"
proof -
  have "mn_is_initialized ready_driver" "mn_lifecycle ready_driver \<noteq> LcActiveSession" "mn_consecutive_failures ready_driver = 0"
    by (simp_all add: ready_driver_def mn_new_def)
  moreover have "\<forall>m. isl (fst (mf_wupa empty_field m))" by (simp add: empty_field_def)
  ultimately show ?thesis
    using mfrc522_presence_debounced [OF ready_driver_ok, of empty_field "\<lambda>_ m. m" 3 demo_stack] by blast
qed

text \<open>C16: The MFRC522 driver keeps the contract of a front end, whatever the chip, the bus and the ISO 14443
  stack do: a fresh driver is well formed, and every operation of the trait keeps it so (a session is held
  exactly while the lifecycle says active, which it does only on an initialized chip, the UID cache stays in
  its ten bytes, neither failure count passes its threshold), leaves the caller's buffers at their
  length, and reports no more bytes than they hold.\<close>

theorem mfrc522_driver_contract:
  "mn_ok (mn_new m) \<and> nfc_frontend (mn_nops mf stack delay now_us) mn_ok"
  by (simp add: mn_ok_new mn_contract)

end
