(* ===== verification/Usb_Handler.thy ===== *)
theory Usb_Handler
  imports Handler Firmware_Support
begin

text \<open>
  The message handler of the USB readers (\<open>firmware/ccid-firmware/src/ccid_core.rs\<close>): the contract of a contact
  card driver (\<open>driver.rs\<close>) and its adapter to the handler core, the assembly of messages from bulk packets,
  the commands answered by the wrapper, the delegation to the core, the deferred PIN results, and the scripted
  driver of the host tests (\<open>mock_driver.rs\<close>).
\<close>

section \<open>The contact driver and its adapter\<close>

record ('d, 'e) smartcard_ops =
  sc_power_on :: "'d \<Rightarrow> ('e + bytes) \<times> 'd"
  sc_power_off :: "'d \<Rightarrow> 'd"
  sc_is_card_present :: "'d \<Rightarrow> bool"
  sc_transmit_apdu :: "'d \<Rightarrow> bytes \<Rightarrow> bytes \<Rightarrow> ('e + nat) \<times> bytes \<times> 'd"
  sc_transmit_raw :: "'d \<Rightarrow> bytes \<Rightarrow> bytes \<Rightarrow> ('e + nat) \<times> bytes \<times> 'd"
  sc_set_protocol :: "u8 \<Rightarrow> 'd \<Rightarrow> 'd"
  sc_get_protocol :: "'d \<Rightarrow> u8"
  sc_set_clock :: "bool \<Rightarrow> 'd \<Rightarrow> 'd"
  sc_set_clock_and_rate :: "u32 \<Rightarrow> u32 \<Rightarrow> 'd \<Rightarrow> ('e + u32 \<times> u32) \<times> 'd"
  sc_set_wire_timing :: "u16 \<Rightarrow> u8 \<Rightarrow> u8 \<Rightarrow> 'd \<Rightarrow> 'd"
  sc_xfr_error_class :: "'d \<Rightarrow> 'e \<Rightarrow> xfr_error_kind"
  sc_reinit_count :: "'d \<Rightarrow> u32"
  sc_take_reinit_pending :: "'d \<Rightarrow> bool \<times> 'd"
  sc_diagnostics :: "'d \<Rightarrow> diagnostics \<Rightarrow> diagnostics"

record 'd core_adapter =
  sa_driver :: 'd
  sa_forced_presence :: "bool option"

definition sa_power_on :: "('d, 'e) smartcard_ops \<Rightarrow> 'd core_adapter \<Rightarrow> bytes \<Rightarrow> ('e + nat) \<times> bytes \<times> 'd core_adapter" where
  "sa_power_on sc a atr_buf =
     (case sc_power_on sc (sa_driver a) of
        (Inl e, d) \<Rightarrow> (Inl e, atr_buf, a\<lparr>sa_driver := d\<rparr>)
      | (Inr atr, d) \<Rightarrow>
          let len = min (length atr) (length atr_buf)
          in (Inr len, take len atr @ drop len atr_buf, a\<lparr>sa_driver := d\<rparr>))"

definition sa_is_card_present :: "('d, 'e) smartcard_ops \<Rightarrow> 'd core_adapter \<Rightarrow> bool" where
  "sa_is_card_present sc a =
     (case sa_forced_presence a of Some p \<Rightarrow> p | None \<Rightarrow> sc_is_card_present sc (sa_driver a))"

definition contact_ops :: "('d, 'e) smartcard_ops \<Rightarrow> ('d core_adapter, 'e) driver_ops" where
  "contact_ops sc =
     \<lparr>d_power_on = sa_power_on sc,
      d_power_off = (\<lambda>a. a\<lparr>sa_driver := sc_power_off sc (sa_driver a)\<rparr>),
      d_is_card_present = (\<lambda>a. (sa_is_card_present sc a, a)),
      d_transmit_apdu = (\<lambda>a command response.
        let (r, response, d) = sc_transmit_apdu sc (sa_driver a) command response in (r, response, a\<lparr>sa_driver := d\<rparr>)),
      d_xfr_error_class = (\<lambda>a. sc_xfr_error_class sc (sa_driver a)),
      d_reinit_count = (\<lambda>a. sc_reinit_count sc (sa_driver a)),
      d_poll_card_presence = (\<lambda>a. (\<lparr>present = sa_is_card_present sc a\<rparr>, a)),
      d_session_active = (\<lambda>_. False),
      d_card_uid = (\<lambda>_. None)\<rparr>"

section \<open>State\<close>

abbreviation (input) PIN_PAD_VENDOR_ID :: u16 where "PIN_PAD_VENDOR_ID \<equiv> 0x046A"

record 'd usb_handler =
  uh_core :: "'d core_adapter handler"
  uh_rx_buffer :: bytes
  uh_rx_len :: nat
  uh_tx_buffer :: bytes
  uh_tx_len :: nat
  uh_cmd_busy :: bool
  uh_vendor_id :: u16
  uh_uptime :: dwt_uptime
  uh_pin_result_pending :: "(u8 \<times> pin_result \<times> pin_buffer \<times> pin_verify_params) option"
  uh_pin_modify_result_pending :: "(u8 \<times> pin_result \<times> pin_buffer \<times> pin_buffer \<times> pin_modify_params) option"

text \<open>\<open>clock_hz\<close> is the \<open>UPTIME_CLOCK_HZ\<close> of the build.\<close>

definition usb_handler_new :: "('d, 'e) smartcard_ops \<Rightarrow> u32 \<Rightarrow> 'd \<Rightarrow> u16 \<Rightarrow> 'd usb_handler" where
  "usb_handler_new sc clock_hz driver vendor_id =
     (let core = with_diagnostics_fold (\<lambda>a. sc_diagnostics sc (sa_driver a))
                   (with_profile ContactProfile (contact_ops sc) \<lparr>sa_driver = driver, sa_forced_presence = None\<rparr> []
                      (vendor_id = PIN_PAD_VENDOR_ID))
      in \<lparr>uh_core = snd (check_card_change ContactProfile (contact_ops sc) core),
          uh_rx_buffer = replicate MAX_CCID_MESSAGE_LENGTH 0, uh_rx_len = 0,
          uh_tx_buffer = replicate MAX_CCID_MESSAGE_LENGTH 0, uh_tx_len = 0, uh_cmd_busy = False,
          uh_vendor_id = vendor_id, uh_uptime = uptime_new clock_hz, uh_pin_result_pending = None,
          uh_pin_modify_result_pending = None\<rparr>)"

definition usb_transmit_counted :: "('d, 'e) smartcard_ops \<Rightarrow> bytes \<Rightarrow> bytes \<Rightarrow> 'd usb_handler
    \<Rightarrow> ('e + nat) \<times> bytes \<times> 'd usb_handler" where
  "usb_transmit_counted sc command response u =
     (let (r, response, core) = transmit_counted (contact_ops sc) command response (uh_core u)
      in (r, response, u\<lparr>uh_core := core\<rparr>))"

definition poll_diagnostics :: "('d, 'e) smartcard_ops \<Rightarrow> u32 \<Rightarrow> 'd usb_handler \<Rightarrow> 'd usb_handler" where
  "poll_diagnostics sc now_cycles u =
     (let (ticks, up) = uptime_poll now_cycles (uh_uptime u)
      in u\<lparr>uh_core := refresh_diagnostics (contact_ops sc) ticks (uh_core u), uh_uptime := up\<rparr>)"

section \<open>Message assembly\<close>

definition declared_fits :: "nat \<Rightarrow> nat \<Rightarrow> bool" where
  "declared_fits declared buffer_len \<longleftrightarrow> CCID_HEADER_SIZE \<le> buffer_len \<and> declared \<le> buffer_len - CCID_HEADER_SIZE"

definition declared_length :: "'d usb_handler \<Rightarrow> nat" where
  "declared_length u =
     unat (from_le_bytes32 (uh_rx_buffer u ! 1) (uh_rx_buffer u ! 2) (uh_rx_buffer u ! 3) (uh_rx_buffer u ! 4))"

definition drop_unassemblable :: "'d usb_handler \<Rightarrow> 'd usb_handler" where
  "drop_unassemblable u =
     (if CCID_HEADER_SIZE \<le> uh_rx_len u \<and> \<not> declared_fits (declared_length u) (length (uh_rx_buffer u))
      then u\<lparr>uh_rx_len := 0\<rparr> else u)"

definition usb_feed :: "bytes \<Rightarrow> 'd usb_handler \<Rightarrow> 'd usb_handler outcome" where
  "usb_feed data u =
     (let remaining = length (uh_rx_buffer u) - uh_rx_len u;
          copy_len = min (length data) remaining
      in do {
        buf \<leftarrow> copy_at (uh_rx_buffer u) (uh_rx_len u) (take copy_len data);
        Some (drop_unassemblable (u\<lparr>uh_rx_buffer := buf, uh_rx_len := uh_rx_len u + copy_len\<rparr>))
      })"

definition message_ready :: "'d usb_handler \<Rightarrow> bool" where
  "message_ready u \<longleftrightarrow>
     (if uh_rx_len u < CCID_HEADER_SIZE then False
      else if \<not> declared_fits (declared_length u) (length (uh_rx_buffer u)) then False
      else CCID_HEADER_SIZE + declared_length u \<le> uh_rx_len u)"

section \<open>Answers of the wrapper\<close>

definition get_icc_status :: "'d usb_handler \<Rightarrow> u8" where
  "get_icc_status u = icc_status (h_slot_state (uh_core u))"

definition put_tx :: "bytes \<times> nat \<Rightarrow> 'd usb_handler \<Rightarrow> 'd usb_handler" where
  "put_tx w u = u\<lparr>uh_tx_buffer := fst w, uh_tx_len := snd w\<rparr>"

definition send_slot_status_with_clock :: "u8 \<Rightarrow> u8 \<Rightarrow> u8 \<Rightarrow> u8 \<Rightarrow> u8 \<Rightarrow> 'd usb_handler \<Rightarrow> 'd usb_handler" where
  "send_slot_status_with_clock sq cmd_status icc err b_clock_status u =
     put_tx (write_slot_status 0 sq icc cmd_status err b_clock_status (uh_tx_buffer u)) u"

definition send_slot_status :: "u8 \<Rightarrow> u8 \<Rightarrow> u8 \<Rightarrow> u8 \<Rightarrow> 'd usb_handler \<Rightarrow> 'd usb_handler" where
  "send_slot_status sq cmd_status icc err u = send_slot_status_with_clock sq cmd_status icc err 0 u"

definition tx_message :: "u8 \<Rightarrow> u8 \<Rightarrow> u8 \<Rightarrow> u8 \<Rightarrow> bytes \<Rightarrow> 'd usb_handler \<Rightarrow> 'd usb_handler" where
  "tx_message mt sq status err payload u = put_tx (write_message mt 0 sq status err 0 payload (uh_tx_buffer u)) u"

definition send_err_resp :: "u8 \<Rightarrow> u8 \<Rightarrow> u8 \<Rightarrow> 'd usb_handler \<Rightarrow> 'd usb_handler" where
  "send_err_resp msg_type sq err u =
     (let icc = get_icc_status u; status = build_bstatus COMMAND_STATUS_FAILED icc
      in if msg_type = PC_TO_RDR_ESCAPE then tx_message RDR_TO_PC_ESCAPE sq status err [] u
         else send_slot_status sq COMMAND_STATUS_FAILED icc err u)"

definition on_driver :: "('d \<Rightarrow> 'd) \<Rightarrow> 'd usb_handler \<Rightarrow> 'd usb_handler" where
  "on_driver f u =
     u\<lparr>uh_core := (uh_core u)\<lparr>h_nfc := (h_nfc (uh_core u))\<lparr>sa_driver := f (sa_driver (h_nfc (uh_core u)))\<rparr>\<rparr>\<rparr>"

definition handle_set_data_rate_and_clock :: "('d, 'e) smartcard_ops \<Rightarrow> u8 \<Rightarrow> 'd usb_handler \<Rightarrow> 'd usb_handler" where
  "handle_set_data_rate_and_clock sc sq u =
     (if uh_rx_len u < 10 + 8 then
        send_slot_status sq COMMAND_STATUS_FAILED (get_icc_status u) CCID_ERR_CMD_NOT_SUPPORTED u
      else
        let rx = uh_rx_buffer u;
            clock_hz = from_le_bytes32 (rx ! 10) (rx ! 11) (rx ! 12) (rx ! 13);
            rate_bps = from_le_bytes32 (rx ! 14) (rx ! 15) (rx ! 16) (rx ! 17);
            (r, d) = sc_set_clock_and_rate sc clock_hz rate_bps (sa_driver (h_nfc (uh_core u)));
            u = on_driver (\<lambda>_. d) u
        in case r of
             Inr (actual_clock, actual_rate) \<Rightarrow>
               tx_message RDR_TO_PC_DATA_RATE_AND_CLOCK_FREQ sq
                 (build_bstatus COMMAND_STATUS_NO_ERROR (get_icc_status u)) 0
                 (to_le_bytes32 actual_clock @ to_le_bytes32 actual_rate) u
           | Inl _ \<Rightarrow> send_slot_status sq COMMAND_STATUS_FAILED (get_icc_status u) CCID_ERR_HW_ERROR u)"

definition handle_icc_clock :: "('d, 'e) smartcard_ops \<Rightarrow> u8 \<Rightarrow> 'd usb_handler \<Rightarrow> 'd usb_handler" where
  "handle_icc_clock sc sq u =
     (let icc = get_icc_status u in
      if icc \<noteq> ICC_STATUS_PRESENT_ACTIVE then
        send_slot_status_with_clock sq COMMAND_STATUS_FAILED icc CCID_ERR_ICC_MUTE 0 u
      else
        let clock_command = (if 7 < uh_rx_len u then uh_rx_buffer u ! 7 else 0);
            enable = clock_command = 0
        in send_slot_status_with_clock sq COMMAND_STATUS_NO_ERROR icc 0 (if enable then 0x00 else 0x01)
             (on_driver (sc_set_clock sc enable) u))"

definition delegate_to_core :: "('d, 'e) smartcard_ops \<Rightarrow> 'd usb_handler \<Rightarrow> 'd usb_handler outcome" where
  "delegate_to_core sc u = do {
     msg \<leftarrow> slice (uh_rx_buffer u) 0 (uh_rx_len u);
     (core, out, n) \<leftarrow> process_command ContactProfile (contact_ops sc) (uh_core u) msg (uh_tx_buffer u);
     Some (u\<lparr>uh_core := core, uh_tx_buffer := out, uh_tx_len := n\<rparr>)
   }"

definition gemalto_firmware_features :: bytes where
  "gemalto_firmware_features = replicate 12 0 @ [1] @ replicate 8 0"

definition usb_handle_escape :: "('d, 'e) smartcard_ops \<Rightarrow> u8 \<Rightarrow> 'd usb_handler \<Rightarrow> 'd usb_handler outcome" where
  "usb_handle_escape sc sq u =
     (let first = (if 1 \<le> declared_length u then Some (uh_rx_buffer u ! CCID_HEADER_SIZE) else None);
          is_gemalto = uh_vendor_id u = 0x08E6
      in if is_gemalto \<and> first = Some 0x6A then
           Some (tx_message RDR_TO_PC_ESCAPE sq (build_bstatus COMMAND_STATUS_NO_ERROR (get_icc_status u)) 0
                   gemalto_firmware_features u)
         else if \<not> is_gemalto \<and> first \<noteq> Some 0xD0 then
           Some (send_err_resp PC_TO_RDR_ESCAPE sq CCID_ERR_CMD_NOT_SUPPORTED u)
         else delegate_to_core sc u)"

section \<open>One message\<close>

definition usb_dispatch :: "('d, 'e) smartcard_ops \<Rightarrow> u8 \<Rightarrow> u8 \<Rightarrow> 'd usb_handler \<Rightarrow> 'd usb_handler outcome" where
  "usb_dispatch sc msg_type sq u =
     (if msg_type = PC_TO_RDR_ICC_CLOCK then Some (handle_icc_clock sc sq u)
      else if msg_type = PC_TO_RDR_SET_DATA_RATE_AND_CLOCK_FREQ then Some (handle_set_data_rate_and_clock sc sq u)
      else if msg_type = PC_TO_RDR_ESCAPE then usb_handle_escape sc sq u
      else if msg_type = PC_TO_RDR_XFR_BLOCK \<and> 261 < declared_length u then
        Some (send_slot_status sq COMMAND_STATUS_FAILED ICC_STATUS_PRESENT_ACTIVE 0x07 u)
      else if msg_type = PC_TO_RDR_T0_APDU \<or> msg_type = PC_TO_RDR_MECHANICAL then
        Some (send_err_resp msg_type sq CCID_ERR_CMD_NOT_SUPPORTED u)
      else delegate_to_core sc u)"

text \<open>What follows every dispatched command: accepted parameters reach the line, a self-healing re-init the counters.\<close>

definition apply_accepted :: "('d, 'e) smartcard_ops \<Rightarrow> 'd usb_handler \<Rightarrow> 'd usb_handler" where
  "apply_accepted sc u =
     (let (accepted, core) = take_parameters_accepted (uh_core u); u = u\<lparr>uh_core := core\<rparr> in
      if accepted then
        let u = on_driver (sc_set_protocol sc (h_current_protocol core)) u
        in case accepted_contact_timing (uh_core u) of
             Some timing \<Rightarrow> on_driver (sc_set_wire_timing sc (cw_fi timing) (cw_di timing) (cw_guard_time_n timing)) u
           | None \<Rightarrow> on_driver (sc_set_wire_timing sc 0 0 0) u
      else u)"

definition surface_reinit :: "('d, 'e) smartcard_ops \<Rightarrow> 'd usb_handler \<Rightarrow> 'd usb_handler" where
  "surface_reinit sc u =
     (let (pending, d) = sc_take_reinit_pending sc (sa_driver (h_nfc (uh_core u)));
          u = on_driver (\<lambda>_. d) u
      in if pending
         then u\<lparr>uh_core := (uh_core u)\<lparr>h_diagnostics := (h_diagnostics (uh_core u))\<lparr>reinit_count := sc_reinit_count sc d\<rparr>\<rparr>\<rparr>
         else u)"

definition usb_handle_message :: "('d, 'e) smartcard_ops \<Rightarrow> 'd usb_handler \<Rightarrow> 'd usb_handler outcome" where
  "usb_handle_message sc u =
     (if uh_rx_len u < CCID_HEADER_SIZE then Some u
      else
        let msg_type = uh_rx_buffer u ! 0; sl = uh_rx_buffer u ! 5; sq = uh_rx_buffer u ! 6 in
        if sl \<noteq> 0 then Some (send_slot_status sq COMMAND_STATUS_FAILED ICC_STATUS_NO_ICC 0x05 u)
        else if uh_cmd_busy u then
          Some (send_slot_status sq COMMAND_STATUS_FAILED (get_icc_status u) CCID_ERR_CMD_SLOT_BUSY u)
        else do {
          u \<leftarrow> usb_dispatch sc msg_type sq (u\<lparr>uh_cmd_busy := True\<rparr>);
          Some (surface_reinit sc (apply_accepted sc u))
        })"

definition take_response :: "'d usb_handler \<Rightarrow> bytes outcome \<times> 'd usb_handler" where
  "take_response u =
     (slice (uh_tx_buffer u) 0 (uh_tx_len u), u\<lparr>uh_rx_len := 0, uh_tx_len := 0, uh_cmd_busy := False\<rparr>)"

definition check_card_presence :: "('d, 'e) smartcard_ops \<Rightarrow> 'd usb_handler \<Rightarrow> bool option \<times> 'd usb_handler" where
  "check_card_presence sc u =
     (let (ev, core) = check_card_change ContactProfile (contact_ops sc) (uh_core u);
          changed = map_option (\<lambda>_. True) ev;
          u = u\<lparr>uh_core := core\<rparr>
      in (changed,
          if changed \<noteq> None \<and> \<not> present (h_presence_state core)
          then u\<lparr>uh_rx_len := 0, uh_cmd_busy := False, uh_pin_result_pending := None, uh_pin_modify_result_pending := None\<rparr>
          else u))"

definition notify_slot_change_bytes :: "bool \<Rightarrow> bool \<Rightarrow> bytes" where
  "notify_slot_change_bytes pres changed =
     (let bits = 0; bits = (if pres then bits OR 0x01 else bits); bits = (if changed then bits OR 0x02 else bits)
      in [RDR_TO_PC_NOTIFY_SLOT_CHANGE, bits])"

section \<open>PIN results\<close>

definition usb_complete_pin_entry :: "u8 \<Rightarrow> pin_result \<Rightarrow> bytes option \<Rightarrow> 'd usb_handler \<Rightarrow> 'd usb_handler outcome" where
  "usb_complete_pin_entry sq result apdu_response u = do {
     (core, out, n) \<leftarrow> complete_pin_entry (uh_core u) sq result apdu_response (uh_tx_buffer u);
     Some (u\<lparr>uh_core := core, uh_tx_buffer := out, uh_tx_len := n\<rparr>)
   }"

definition set_pin_result :: "u8 \<Rightarrow> pin_result \<Rightarrow> pin_buffer \<Rightarrow> pin_verify_params \<Rightarrow> 'd usb_handler \<Rightarrow> 'd usb_handler" where
  "set_pin_result sq result buffer params u = u\<lparr>uh_pin_result_pending := Some (sq, result, buffer, params)\<rparr>"

definition process_pin_result :: "('d, 'e) smartcard_ops \<Rightarrow> 'd usb_handler \<Rightarrow> 'd usb_handler outcome" where
  "process_pin_result sc u =
     (case uh_pin_result_pending u of
        None \<Rightarrow> Some u
      | Some (sq, result, buffer, params) \<Rightarrow> do {
          (core, out, n) \<leftarrow> complete_pin_verify_exchange (contact_ops sc) (uh_core u) sq result buffer params (uh_tx_buffer u);
          Some (u\<lparr>uh_core := core, uh_tx_buffer := out, uh_tx_len := n, uh_pin_result_pending := None\<rparr>)
        })"

definition set_pin_modify_result :: "u8 \<Rightarrow> pin_result \<Rightarrow> pin_buffer \<Rightarrow> pin_buffer \<Rightarrow> pin_modify_params \<Rightarrow> 'd usb_handler \<Rightarrow> 'd usb_handler" where
  "set_pin_modify_result sq result old_buffer new_buffer params u =
     u\<lparr>uh_pin_modify_result_pending := Some (sq, result, old_buffer, new_buffer, params)\<rparr>"

definition process_pin_modify_result :: "('d, 'e) smartcard_ops \<Rightarrow> 'd usb_handler \<Rightarrow> 'd usb_handler outcome" where
  "process_pin_modify_result sc u =
     (case uh_pin_modify_result_pending u of
        None \<Rightarrow> Some u
      | Some (sq, result, old_buffer, new_buffer, params) \<Rightarrow> do {
          (core, out, n) \<leftarrow>
            complete_pin_modify_exchange (contact_ops sc) (uh_core u) sq result old_buffer new_buffer params (uh_tx_buffer u);
          Some (u\<lparr>uh_core := core, uh_tx_buffer := out, uh_tx_len := n, uh_pin_modify_result_pending := None\<rparr>)
        })"

definition usb_is_card_present :: "('d, 'e) smartcard_ops \<Rightarrow> 'd usb_handler \<Rightarrow> bool" where
  "usb_is_card_present sc u = sa_is_card_present sc (h_nfc (uh_core u))"

definition set_card_present :: "('d, 'e) smartcard_ops \<Rightarrow> bool \<Rightarrow> 'd usb_handler \<Rightarrow> 'd usb_handler" where
  "set_card_present sc pres u =
     (let core = (uh_core u)\<lparr>h_nfc := (h_nfc (uh_core u))\<lparr>sa_forced_presence := Some pres\<rparr>\<rparr>
      in u\<lparr>uh_core := snd (check_card_change ContactProfile (contact_ops sc) core)\<rparr>)"

definition set_rx_data :: "bytes \<Rightarrow> 'd usb_handler \<Rightarrow> 'd usb_handler outcome" where
  "set_rx_data data u = do {
     buf \<leftarrow> copy_at (uh_rx_buffer u) 0 data;
     Some (u\<lparr>uh_rx_buffer := buf, uh_rx_len := length data\<rparr>)
   }"

end
