(* ===== verification/Usb_Class.thy ===== *)
theory Usb_Class
  imports Usb_Handler
begin

text \<open>
  The USB class of the readers (\<open>firmware/ccid-firmware/src/ccid.rs\<close>): bulk transfers with their zero-length
  packets, the poll that serves the endpoints, slot-change notifications and the class requests, and the
  scripted driver of the host tests (\<open>mock_driver.rs\<close>).  The endpoints belong to the crate \<open>usb-device\<close>: a
  record of operations on the state of the bus.
\<close>

section \<open>Endpoints\<close>

datatype usb_error = WouldBlock | UsbFault

record 'b usb_bus =
  ub_write_in :: "bytes \<Rightarrow> 'b \<Rightarrow> (usb_error + nat) \<times> 'b"
  ub_write_int :: "bytes \<Rightarrow> 'b \<Rightarrow> (usb_error + nat) \<times> 'b"
  ub_read_out :: "'b \<Rightarrow> (usb_error + bytes) \<times> 'b"

abbreviation (input) PACKET_SIZE :: nat where "PACKET_SIZE \<equiv> 64"

record ('b, 'd) ccid_class =
  cc_bus :: 'b
  cc_core :: "'d usb_handler"
  cc_tx_offset :: nat
  cc_tx_pending :: bool
  cc_needs_zlp :: bool

definition ccid_class_new :: "('d, 'e) smartcard_ops \<Rightarrow> u32 \<Rightarrow> u16 \<Rightarrow> 'b \<Rightarrow> 'd \<Rightarrow> ('b, 'd) ccid_class" where
  "ccid_class_new sc clock_hz vendor_id bus driver =
     \<lparr>cc_bus = bus, cc_core = usb_handler_new sc clock_hz driver vendor_id, cc_tx_offset = 0, cc_tx_pending = False,
      cc_needs_zlp = False\<rparr>"

definition send_notify_slot_change :: "'b usb_bus \<Rightarrow> bool \<Rightarrow> bool \<Rightarrow> ('b, 'd) ccid_class \<Rightarrow> ('b, 'd) ccid_class" where
  "send_notify_slot_change ub pres changed c =
     c\<lparr>cc_bus := snd (ub_write_int ub (notify_slot_change_bytes pres changed) (cc_bus c))\<rparr>"

text \<open>The end of an answer: the handler takes the next command.\<close>

definition finish_tx :: "('b, 'd) ccid_class \<Rightarrow> ('b, 'd) ccid_class" where
  "finish_tx c = c\<lparr>cc_core := snd (take_response (cc_core c)), cc_tx_offset := 0, cc_tx_pending := False\<rparr>"

definition try_send :: "'b usb_bus \<Rightarrow> ('b, 'd) ccid_class \<Rightarrow> ('b, 'd) ccid_class outcome" where
  "try_send ub c =
     (if cc_needs_zlp c then
        case ub_write_in ub [] (cc_bus c) of
          (Inr _, b) \<Rightarrow> Some (c\<lparr>cc_bus := b, cc_needs_zlp := False\<rparr>)
        | (Inl WouldBlock, b) \<Rightarrow> Some (c\<lparr>cc_bus := b\<rparr>)
        | (Inl UsbFault, b) \<Rightarrow> Some (c\<lparr>cc_bus := b, cc_needs_zlp := False\<rparr>)
      else if \<not> cc_tx_pending c then Some c
      else do {
        tx_data \<leftarrow> slice (uh_tx_buffer (cc_core c)) 0 (uh_tx_len (cc_core c));
        chunk \<leftarrow> slice tx_data (cc_tx_offset c) (cc_tx_offset c + min (length tx_data - cc_tx_offset c) PACKET_SIZE);
        (case ub_write_in ub chunk (cc_bus c) of
           (Inr n, b) \<Rightarrow>
             let c = c\<lparr>cc_bus := b, cc_tx_offset := cc_tx_offset c + n\<rparr>
             in if length tx_data \<le> cc_tx_offset c
                then Some (finish_tx (if length tx_data mod PACKET_SIZE = 0 then c\<lparr>cc_needs_zlp := True\<rparr> else c))
                else Some c
         | (Inl WouldBlock, b) \<Rightarrow> Some (c\<lparr>cc_bus := b\<rparr>)
         | (Inl UsbFault, b) \<Rightarrow> Some (finish_tx (c\<lparr>cc_bus := b\<rparr>)))
      })"

definition receive :: "('d, 'e) smartcard_ops \<Rightarrow> bytes \<Rightarrow> ('b, 'd) ccid_class \<Rightarrow> ('b, 'd) ccid_class outcome" where
  "receive sc data c = do {
     core \<leftarrow> usb_feed data (cc_core c);
     (if message_ready core then do {
        core \<leftarrow> usb_handle_message sc core;
        Some (c\<lparr>cc_core := core, cc_tx_offset := 0, cc_tx_pending := True\<rparr>)
      }
      else Some (c\<lparr>cc_core := core\<rparr>))
   }"

text \<open>\<open>now\<close> is the cycle counter; the first ten bytes of a packet are only logged, from a buffer of 64.\<close>

definition class_poll :: "('d, 'e) smartcard_ops \<Rightarrow> 'b usb_bus \<Rightarrow> u32 \<Rightarrow> ('b, 'd) ccid_class \<Rightarrow> ('b, 'd) ccid_class outcome" where
  "class_poll sc ub now c =
     (let (changed, core) = check_card_presence sc (poll_diagnostics sc now (cc_core c));
          c = c\<lparr>cc_core := core\<rparr>;
          c = (if changed = Some True then send_notify_slot_change ub (usb_is_card_present sc (cc_core c)) True c else c)
      in do {
        c \<leftarrow> try_send ub c;
        c \<leftarrow> (case ub_read_out ub (cc_bus c) of
               (Inr data, b) \<Rightarrow> receive sc data (c\<lparr>cc_bus := b\<rparr>)
             | (Inl _, b) \<Rightarrow> Some (c\<lparr>cc_bus := b\<rparr>));
        try_send ub c
      })"

definition endpoint_in_complete :: "'b usb_bus \<Rightarrow> bool \<Rightarrow> ('b, 'd) ccid_class \<Rightarrow> ('b, 'd) ccid_class outcome" where
  "endpoint_in_complete ub is_bulk_in c = (if is_bulk_in then try_send ub c else Some c)"

definition class_process_pin_results :: "('d, 'e) smartcard_ops \<Rightarrow> ('b, 'd) ccid_class \<Rightarrow> ('b, 'd) ccid_class outcome" where
  "class_process_pin_results sc c = do {
     core \<leftarrow> process_pin_result sc (cc_core c);
     core \<leftarrow> process_pin_modify_result sc core;
     Some (c\<lparr>cc_core := core\<rparr>)
   }"

section \<open>Class requests\<close>

abbreviation (input) REQUEST_ABORT :: u8 where "REQUEST_ABORT \<equiv> 0x01"
abbreviation (input) REQUEST_GET_CLOCK_FREQUENCIES :: u8 where "REQUEST_GET_CLOCK_FREQUENCIES \<equiv> 0x02"
abbreviation (input) REQUEST_GET_DATA_RATES :: u8 where "REQUEST_GET_DATA_RATES \<equiv> 0x03"

record control_request =
  cr_index :: u16
  cr_class_request :: bool
  cr_request :: u8
  cr_value :: u16

datatype control_answer = Ignored | AcceptWith bytes | Accepted | Rejected

definition control_in :: "u8 \<Rightarrow> u32 \<Rightarrow> u32 \<Rightarrow> control_request \<Rightarrow> control_answer" where
  "control_in interface default_clock_khz default_data_rate r =
     (if ucast (cr_index r) \<noteq> interface \<or> \<not> cr_class_request r then Ignored
      else if cr_request r = REQUEST_GET_CLOCK_FREQUENCIES then AcceptWith (to_le_bytes32 default_clock_khz)
      else if cr_request r = REQUEST_GET_DATA_RATES then AcceptWith (to_le_bytes32 default_data_rate)
      else Rejected)"

definition control_out :: "u8 \<Rightarrow> control_request \<Rightarrow> control_answer" where
  "control_out interface r =
     (if ucast (cr_index r) \<noteq> interface \<or> \<not> cr_class_request r then Ignored
      else if cr_request r = REQUEST_ABORT then Accepted else Rejected)"

section \<open>The scripted driver\<close>

abbreviation (input) MAX_CALL_LOG :: nat where "MAX_CALL_LOG \<equiv> 64"

datatype mock_call =
  McPowerOn | McPowerOff | McIsCardPresent | McTransmitApdu nat | McTransmitRaw nat | McSetProtocol u8 | McSetClock bool
| McSetClockAndRate u32 u32 | McSetWireTiming u16 u8 u8

text \<open>The arrays of the source with their counts are lists here; \<open>ms_apdu_responses\<close> are the answers still to give.\<close>

record mock_smartcard =
  ms_card_present :: bool
  ms_atr :: bytes
  ms_protocol :: u8
  ms_apdu_responses :: "bytes list"
  ms_raw_responses :: "bytes list"
  ms_power_on_should_fail :: bool
  ms_transmit_apdu_should_fail :: bool
  ms_transmit_error_class :: xfr_error_kind
  ms_diag_card_present :: "bool option"
  ms_reinit_count :: u32
  ms_reinit_pending :: bool
  ms_call_log :: "mock_call list"

definition mock_smartcard_new :: mock_smartcard where
  "mock_smartcard_new =
     \<lparr>ms_card_present = False, ms_atr = [], ms_protocol = 0, ms_apdu_responses = [], ms_raw_responses = [],
      ms_power_on_should_fail = False, ms_transmit_apdu_should_fail = False, ms_transmit_error_class = Unclassified,
      ms_diag_card_present = None, ms_reinit_count = 0, ms_reinit_pending = False, ms_call_log = []\<rparr>"

definition ms_log :: "mock_call \<Rightarrow> mock_smartcard \<Rightarrow> mock_smartcard" where
  "ms_log call d =
     (if length (ms_call_log d) < MAX_CALL_LOG then d\<lparr>ms_call_log := ms_call_log d @ [call]\<rparr> else d)"

definition ms_power_on :: "mock_smartcard \<Rightarrow> (string + bytes) \<times> mock_smartcard" where
  "ms_power_on d =
     (let d = ms_log McPowerOn d in (if ms_power_on_should_fail d then Inl ''power on failed'' else Inr (ms_atr d), d))"

definition ms_transmit_apdu :: "mock_smartcard \<Rightarrow> bytes \<Rightarrow> bytes \<Rightarrow> (string + nat) \<times> bytes \<times> mock_smartcard" where
  "ms_transmit_apdu d command response =
     (let d = ms_log (McTransmitApdu (length command)) d in
      if ms_transmit_apdu_should_fail d then (Inl ''transmit failed'', response, d)
      else case ms_apdu_responses d of
          r # rs \<Rightarrow>
            let copy_len = min (length r) (length response)
            in (Inr copy_len, take copy_len r @ drop copy_len response, d\<lparr>ms_apdu_responses := rs\<rparr>)
        | [] \<Rightarrow> (Inr 0, response, d))"

definition ms_transmit_raw :: "mock_smartcard \<Rightarrow> bytes \<Rightarrow> bytes \<Rightarrow> (string + nat) \<times> bytes \<times> mock_smartcard" where
  "ms_transmit_raw d data response =
     (let d = ms_log (McTransmitRaw (length data)) d in
      case ms_raw_responses d of
        r # rs \<Rightarrow>
          let copy_len = min (length r) (length response)
          in (Inr copy_len, take copy_len r @ drop copy_len response, d\<lparr>ms_raw_responses := rs\<rparr>)
      | [] \<Rightarrow> (Inr 0, response, d))"

definition mock_sc :: "(mock_smartcard, string) smartcard_ops" where
  "mock_sc =
     \<lparr>sc_power_on = ms_power_on,
      sc_power_off = (\<lambda>d. (ms_log McPowerOff d)\<lparr>ms_protocol := 0\<rparr>),
      sc_is_card_present = ms_card_present,
      sc_transmit_apdu = ms_transmit_apdu,
      sc_transmit_raw = ms_transmit_raw,
      sc_set_protocol = (\<lambda>p d. (ms_log (McSetProtocol p) d)\<lparr>ms_protocol := p\<rparr>),
      sc_get_protocol = (\<lambda>_. 0),
      sc_set_clock = (\<lambda>enable. ms_log (McSetClock enable)),
      sc_set_clock_and_rate = (\<lambda>clock rate d. (Inr (clock, rate), ms_log (McSetClockAndRate clock rate) d)),
      sc_set_wire_timing = (\<lambda>fi di n. ms_log (McSetWireTiming fi di n)),
      sc_xfr_error_class = (\<lambda>d _. ms_transmit_error_class d),
      sc_reinit_count = ms_reinit_count,
      sc_take_reinit_pending = (\<lambda>d. (ms_reinit_pending d, d\<lparr>ms_reinit_pending := False\<rparr>)),
      sc_diagnostics = (\<lambda>d base. case ms_diag_card_present d of Some p \<Rightarrow> base\<lparr>card_present := p\<rparr> | None \<Rightarrow> base)\<rparr>"

end
