(* ===== verification/Usb_Facts.thy ===== *)
theory Usb_Facts
  imports Usb_Class Handler_Props Handler_Room
begin

text \<open>
  The contract of a contact card driver, the invariant of the USB message handler, and that every operation
  keeps it.  The contract (\<open>contact_driver\<close>) says nothing of the byte count a driver reports, because the T=0
  exchange of the firmware reports more than it stores; \<open>smartcard_driver\<close> adds a bound on the count, and a driver
  whose overlong counts are turned into failures (\<open>clip_count\<close>) meets it.
\<close>

section \<open>The driver contract\<close>

locale contact_driver =
  fixes sc :: "('d, 'e) smartcard_ops"
    and sc_inv :: "'d \<Rightarrow> bool"
  assumes sc_transmit: "sc_inv d \<Longrightarrow> sc_transmit_apdu sc d cmd buf = (r, buf', d') \<Longrightarrow> length buf' = length buf \<and> sc_inv d'"
    and sc_power_on_inv: "sc_inv d \<Longrightarrow> sc_power_on sc d = (ra, d') \<Longrightarrow> sc_inv d'"
    and sc_atr_short: "sc_inv d \<Longrightarrow> sc_power_on sc d = (Inr atr, d') \<Longrightarrow> length atr \<le> 33"
    and sc_power_off_inv: "sc_inv d \<Longrightarrow> sc_inv (sc_power_off sc d)"
    and sc_set_protocol_inv: "sc_inv d \<Longrightarrow> sc_inv (sc_set_protocol sc p d)"
    and sc_set_clock_inv: "sc_inv d \<Longrightarrow> sc_inv (sc_set_clock sc b d)"
    and sc_set_rate_inv: "sc_inv d \<Longrightarrow> sc_set_clock_and_rate sc c1 c2 d = (rc, d') \<Longrightarrow> sc_inv d'"
    and sc_set_timing_inv: "sc_inv d \<Longrightarrow> sc_inv (sc_set_wire_timing sc fi di gt d)"
    and sc_reinit_inv: "sc_inv d \<Longrightarrow> sc_take_reinit_pending sc d = (b', d') \<Longrightarrow> sc_inv d'"

locale smartcard_driver = contact_driver +
  assumes sc_transmit_count: "sc_inv d \<Longrightarrow> sc_transmit_apdu sc d cmd buf = (Inr n, buf', d') \<Longrightarrow> n \<le> length buf \<and> n \<le> 261"

abbreviation adapted :: "('d \<Rightarrow> bool) \<Rightarrow> 'd core_adapter \<Rightarrow> bool" where
  "adapted sc_inv a \<equiv> sc_inv (sa_driver a)"

context smartcard_driver
begin

lemma contact_slot_driver: "slot_driver (contact_ops sc) (adapted sc_inv)"
  by unfold_locales
    (auto simp: contact_ops_def sa_power_on_def Let_def split: prod.splits sum.splits
       dest: sc_transmit sc_transmit_count sc_power_on_inv sc_power_off_inv)

end

sublocale smartcard_driver \<subseteq> slot: slot_driver "contact_ops sc" "adapted sc_inv"
  by (rule contact_slot_driver)

definition mock_sc_ok :: "mock_smartcard \<Rightarrow> bool" where
  "mock_sc_ok d \<longleftrightarrow> length (ms_atr d) \<le> 33 \<and> (\<forall>r \<in> set (ms_apdu_responses d). length r \<le> 261)"

lemma ms_log_ok [simp]: "mock_sc_ok (ms_log c d) = mock_sc_ok d"
  by (simp add: ms_log_def mock_sc_ok_def)

interpretation mock_card: smartcard_driver mock_sc mock_sc_ok
  by unfold_locales
    (auto simp: mock_sc_def ms_power_on_def ms_transmit_apdu_def Let_def split: if_splits list.splits,
      auto simp: mock_sc_ok_def ms_log_def split: if_splits)

section \<open>The invariant\<close>

definition usb_ok :: "('d \<Rightarrow> bool) \<Rightarrow> 'd usb_handler \<Rightarrow> bool" where
  "usb_ok sc_inv u \<longleftrightarrow>
     handler_ok ContactProfile (adapted sc_inv) (uh_core u) \<and>
     length (uh_rx_buffer u) = MAX_CCID_MESSAGE_LENGTH \<and> length (uh_tx_buffer u) = MAX_CCID_MESSAGE_LENGTH \<and>
     uh_rx_len u \<le> MAX_CCID_MESSAGE_LENGTH \<and> uh_tx_len u \<le> MAX_CCID_MESSAGE_LENGTH"

lemma usb_okD:
  assumes "usb_ok sc_inv u"
  shows "handler_ok ContactProfile (adapted sc_inv) (uh_core u)" "length (uh_rx_buffer u) = 271"
    "length (uh_tx_buffer u) = 271" "uh_rx_len u \<le> 271" "uh_tx_len u \<le> 271"
  using assms by (simp_all add: usb_ok_def)

text \<open>The header of the message at the front of the receive buffer.\<close>

definition rx_header :: "'d usb_handler \<Rightarrow> ccid_header" where
  "rx_header u = the (header_parse (take (uh_rx_len u) (uh_rx_buffer u)))"

definition rx_payload :: "'d usb_handler \<Rightarrow> bytes" where
  "rx_payload u = frame_payload (rx_header u) (take (uh_rx_len u) (uh_rx_buffer u))"

lemma rx_header_parse:
  assumes "usb_ok sc_inv u" "10 \<le> uh_rx_len u"
  shows "header_parse (take (uh_rx_len u) (uh_rx_buffer u)) = Some (rx_header u)"
    "message_type (rx_header u) = uh_rx_buffer u ! 0" "slot (rx_header u) = uh_rx_buffer u ! 5"
    "seq (rx_header u) = uh_rx_buffer u ! 6" "unat (dw_length (rx_header u)) = declared_length u"
  using assms usb_okD(2) [OF assms(1)]
  by (auto simp: rx_header_def header_parse_def declared_length_def Let_def)

section \<open>Every operation keeps the invariant\<close>

lemma usb_feed_ok:
  assumes "usb_ok sc_inv u"
  shows "\<exists>u'. usb_feed data u = Some u' \<and> usb_ok sc_inv u'"
  using usb_okD [OF assms] assms
  by (auto simp: usb_feed_def copy_at_def drop_unassemblable_def usb_ok_def Let_def)

lemma put_tx_ok: "usb_ok sc_inv u \<Longrightarrow> usb_ok sc_inv (put_tx (write_message mt sl sq st err sp data (uh_tx_buffer u)) u)"
  by (auto simp: usb_ok_def put_tx_def write_message_def Let_def)

lemma tx_message_ok [wf_rules]: "usb_ok sc_inv u \<Longrightarrow> usb_ok sc_inv (tx_message mt sq st err data u)"
  by (simp add: tx_message_def put_tx_ok)

lemma send_status_ok [wf_rules]:
  "usb_ok sc_inv u \<Longrightarrow> usb_ok sc_inv (send_slot_status_with_clock sq cs icc err b u)"
  "usb_ok sc_inv u \<Longrightarrow> usb_ok sc_inv (send_slot_status sq cs icc err u)"
  "usb_ok sc_inv u \<Longrightarrow> usb_ok sc_inv (send_err_resp mt sq err u)"
  by (simp_all add: send_slot_status_def send_slot_status_with_clock_def send_err_resp_def write_slot_status_def put_tx_ok
      tx_message_ok Let_def)

lemma on_driver_ok: "usb_ok sc_inv u \<Longrightarrow> (sc_inv (sa_driver (h_nfc (uh_core u))) \<Longrightarrow> sc_inv (f (sa_driver (h_nfc (uh_core u)))))
    \<Longrightarrow> usb_ok sc_inv (on_driver f u)"
  by (simp add: usb_ok_def on_driver_def handler_ok_def)

text \<open>
  An answer in the transmit buffer of \<open>u'\<close> to the message at the front of the receive buffer of \<open>u\<close>.  It is missing
  only when that message is a well-formed Secure request that armed the PIN session \<open>u'\<close> is in.
\<close>

definition session_opened :: "'d usb_handler \<Rightarrow> 'd usb_handler \<Rightarrow> bool" where
  "session_opened u u' \<longleftrightarrow>
     (\<exists>h. opens_pin_session (uh_core u) (rx_header u) (rx_payload u) h \<and> h_secure_state (uh_core u') = h_secure_state h)"

definition tx_answers :: "'d usb_handler \<Rightarrow> 'd usb_handler \<Rightarrow> bool" where
  "tx_answers u u' \<longleftrightarrow>
     (if uh_tx_len u' = 0 then session_opened u u' else answers_request (rx_header u) (uh_tx_buffer u') (uh_tx_len u'))"

lemma put_tx_answers:
  assumes "length (uh_tx_buffer u) = 271" "length data \<le> 261" "slot (rx_header u0) = 0" "seq (rx_header u0) = sq"
  shows "tx_answers u0 (put_tx (write_message mt 0 sq st err sp data (uh_tx_buffer u)) u)"
proof -
  obtain b n where w: "write_message mt 0 sq st err sp data (uh_tx_buffer u) = (b, n)" by fastforce
  have "message_at b n mt 0 sq st err sp data" by (rule write_message_at [OF _ w]) (use assms in simp)
  then have "answers_request (rx_header u0) b n" using assms message_at_answers [of b n mt "rx_header u0" st err sp data] by simp
  moreover have "n \<noteq> 0" using w assms by (auto simp: write_message_fits)
  ultimately show ?thesis by (simp add: tx_answers_def put_tx_def w)
qed

lemma wrapper_answers:
  assumes "usb_ok sc_inv u" "slot (rx_header u0) = 0" "seq (rx_header u0) = sq"
  shows "tx_answers u0 (send_slot_status_with_clock sq cs icc err b u)" "tx_answers u0 (send_slot_status sq cs icc err u)"
    "length data \<le> 261 \<Longrightarrow> tx_answers u0 (tx_message mt sq st err data u)" "tx_answers u0 (send_err_resp mt sq err u)"
  using usb_okD(3) [OF assms(1)] assms(2,3)
  by (simp_all add: send_slot_status_def send_slot_status_with_clock_def write_slot_status_def tx_message_def send_err_resp_def
      put_tx_answers Let_def)

lemma tx_answers_core:
  "h_secure_state core = h_secure_state (uh_core u) \<Longrightarrow> tx_answers u0 (u\<lparr>uh_core := core\<rparr>) = tx_answers u0 u"
  by (simp add: tx_answers_def session_opened_def)

lemma tx_answers_on_driver [simp]: "tx_answers u0 (on_driver f u) = tx_answers u0 u"
  by (simp add: tx_answers_def session_opened_def on_driver_def)

context smartcard_driver
begin

lemma within_room:
  assumes "handler_ok ContactProfile (adapted sc_inv) h"
  shows "\<not> overlong_data ContactProfile (contact_ops sc) h hdr payload"
proof -
  have inv: "sc_inv (sa_driver (h_nfc h))" using assms by (simp add: handler_ok_def)
  have "\<not> exceeds 261 (fst (sa_power_on sc (h_nfc h) b))" for b
    using sc_atr_short [OF inv] by (fastforce simp: sa_power_on_def Let_def split: sum.splits prod.splits)
  moreover have "\<not> exceeds 261 (fst (sc_transmit_apdu sc (sa_driver (h_nfc h)) c b))" for c b
    using sc_transmit_count [OF inv] by (auto simp: exceeds_def split: sum.splits) (metis not_less prod.collapse)
  ultimately show ?thesis by (simp add: overlong_data_def contact_ops_def split: prod.splits) (metis fst_conv)
qed

lemma delegate_cases:
  assumes u: "usb_ok sc_inv u" and len: "10 \<le> uh_rx_len u"
  shows "case delegate_to_core sc u of
      None \<Rightarrow> command_panics (uh_core u) (take (uh_rx_len u) (uh_rx_buffer u))
    | Some u' \<Rightarrow> usb_ok sc_inv u' \<and> tx_answers u u'"
proof -
  let ?msg = "take (uh_rx_len u) (uh_rx_buffer u)"
  note ok = usb_okD [OF u]
  have sl: "slice (uh_rx_buffer u) 0 (uh_rx_len u) = Some ?msg" using ok by (simp add: slice_prefix)
  note hdr = rx_header_parse(1) [OF u len]
  note g = slot.process_command_good [OF ok(1), of ?msg "uh_tx_buffer u"]
  show ?thesis
  proof (cases "process_command ContactProfile (contact_ops sc) (uh_core u) ?msg (uh_tx_buffer u)")
    case None
    with g sl show ?thesis
      by (auto simp: delegate_to_core_def good_answer_def good_dispatch_def good_reply_def hdr split: if_splits)
  next
    case (Some r)
    obtain core out n where r: "r = (core, out, n)" using prod_cases3 by blast
    have core: "handler_ok ContactProfile (adapted sc_inv) core" "length out = 271"
      "n \<noteq> 0 \<longrightarrow> answers_request (rx_header u) out n"
      using g Some r hdr ok(3) by (auto simp: good_answer_def good_dispatch_def good_reply_def split: if_splits)
    moreover have "n = 0 \<longrightarrow> opens_pin_session (uh_core u) (rx_header u) (rx_payload u) core"
      using command_nonzero [OF ok(3,1) _ hdr, of "contact_ops sc" core out n] within_room [OF ok(1)] Some r ok(2,4)
      by (auto simp: rx_payload_def)
    moreover have "n \<le> 271" using calculation by (cases "n = 0") (auto simp: answers_request_def)
    ultimately show ?thesis using sl Some r u by (auto simp: delegate_to_core_def usb_ok_def tx_answers_def session_opened_def)
  qed
qed

lemma features_length [simp]: "length gemalto_firmware_features = 21"
  by (simp add: gemalto_firmware_features_def)

lemma icc_clock_ok: "usb_ok sc_inv u \<Longrightarrow> usb_ok sc_inv (handle_icc_clock sc sq u)"
  by (auto simp: handle_icc_clock_def Let_def intro!: wf_rules on_driver_ok sc_set_clock_inv)

lemma data_rate_ok: "usb_ok sc_inv u \<Longrightarrow> usb_ok sc_inv (handle_set_data_rate_and_clock sc sq u)"
  by (auto simp: handle_set_data_rate_and_clock_def Let_def split: prod.splits sum.splits
      intro!: wf_rules on_driver_ok dest: sc_set_rate_inv)

lemma icc_clock_answers:
  assumes "usb_ok sc_inv u" "slot (rx_header u0) = 0" "seq (rx_header u0) = sq"
  shows "tx_answers u0 (handle_icc_clock sc sq u)"
  using assms on_driver_ok [OF assms(1) sc_set_clock_inv]
  by (auto simp: handle_icc_clock_def Let_def intro!: wrapper_answers)

lemma data_rate_answers:
  assumes "usb_ok sc_inv u" "slot (rx_header u0) = 0" "seq (rx_header u0) = sq"
  shows "tx_answers u0 (handle_set_data_rate_and_clock sc sq u)"
proof -
  have ok: "usb_ok sc_inv (on_driver (\<lambda>_. d) u)" if "sc_set_clock_and_rate sc a b (sa_driver (h_nfc (uh_core u))) = (r, d)" for a b r d
    using assms(1) that by (auto intro!: on_driver_ok dest: sc_set_rate_inv)
  show ?thesis
    unfolding handle_set_data_rate_and_clock_def Let_def
    using assms(1) by (auto simp: assms(2,3) split: prod.splits sum.splits intro!: wrapper_answers [where sc_inv = sc_inv] dest: ok)
qed

lemma escape_cases:
  assumes u: "usb_ok sc_inv u" and len: "10 \<le> uh_rx_len u" and sl: "uh_rx_buffer u ! 5 = 0" and sq: "sq = uh_rx_buffer u ! 6"
  shows "case usb_handle_escape sc sq u of
      None \<Rightarrow> command_panics (uh_core u) (take (uh_rx_len u) (uh_rx_buffer u))
    | Some u' \<Rightarrow> usb_ok sc_inv u' \<and> tx_answers u u'"
proof -
  have h: "slot (rx_header u) = 0" "seq (rx_header u) = sq" using rx_header_parse [OF u len] sl sq by simp_all
  show ?thesis
    using delegate_cases [OF u len] wrapper_answers [OF u h] u
    by (auto simp: usb_handle_escape_def Let_def intro: wf_rules)
qed

lemma usb_dispatch_cases:
  assumes u: "usb_ok sc_inv u" and len: "10 \<le> uh_rx_len u" and sl: "uh_rx_buffer u ! 5 = 0" and sq: "sq = uh_rx_buffer u ! 6"
  shows "case usb_dispatch sc mt sq u of
      None \<Rightarrow> command_panics (uh_core u) (take (uh_rx_len u) (uh_rx_buffer u))
    | Some u' \<Rightarrow> usb_ok sc_inv u' \<and> tx_answers u u'"
proof -
  have h: "slot (rx_header u) = 0" "seq (rx_header u) = sq" using rx_header_parse [OF u len] sl sq by simp_all
  show ?thesis
    using escape_cases [OF assms] delegate_cases [OF u len] wrapper_answers [OF u h] icc_clock_answers [OF u h]
      data_rate_answers [OF u h] icc_clock_ok [OF u] data_rate_ok [OF u] u
    by (simp add: usb_dispatch_def wf_rules split del: option.split)
qed

end

context contact_driver
begin

lemma apply_accepted_ok:
  assumes "usb_ok sc_inv u"
  shows "usb_ok sc_inv (apply_accepted sc u)" "tx_answers u0 (apply_accepted sc u) = tx_answers u0 u"
proof -
  let ?u = "u\<lparr>uh_core := snd (take_parameters_accepted (uh_core u))\<rparr>"
  have "usb_ok sc_inv ?u" using assms by (simp add: usb_ok_def bookkeeping_ok)
  then show "usb_ok sc_inv (apply_accepted sc u)"
    by (auto simp: apply_accepted_def take_parameters_accepted_def Let_def split: option.splits
        intro!: on_driver_ok sc_set_protocol_inv sc_set_timing_inv)
  show "tx_answers u0 (apply_accepted sc u) = tx_answers u0 u"
    by (auto simp: apply_accepted_def take_parameters_accepted_def Let_def tx_answers_core
        split: option.splits)
qed

lemma surface_reinit_ok:
  assumes "usb_ok sc_inv u"
  shows "usb_ok sc_inv (surface_reinit sc u)" "tx_answers u0 (surface_reinit sc u) = tx_answers u0 u"
proof -
  obtain p d where t: "sc_take_reinit_pending sc (sa_driver (h_nfc (uh_core u))) = (p, d)" by fastforce
  have "usb_ok sc_inv (on_driver (\<lambda>_. d) u)" using assms sc_reinit_inv [OF _ t] by (intro on_driver_ok) auto
  then show "usb_ok sc_inv (surface_reinit sc u)"
    by (auto simp: surface_reinit_def t Let_def usb_ok_def handler_ok_def counters_ok_def)
  show "tx_answers u0 (surface_reinit sc u) = tx_answers u0 u"
    by (auto simp: surface_reinit_def t Let_def tx_answers_core on_driver_def tx_answers_def session_opened_def)
qed

end

section \<open>Drivers that report more than they store\<close>

text \<open>
  A driver whose overlong counts are failures.  It meets the full contract, and the handler cannot tell it from the
  driver itself unless this message makes the driver report such a count.
\<close>

definition clip_count :: "('d, 'e) smartcard_ops \<Rightarrow> ('d, 'e) smartcard_ops" where
  "clip_count sc = sc\<lparr>sc_transmit_apdu := (\<lambda>d command response.
     case sc_transmit_apdu sc d command response of
       (Inr n, buf, d) \<Rightarrow> (if n \<le> length response \<and> n \<le> 261 then Inr n else Inl undefined, buf, d)
     | (Inl e, buf, d) \<Rightarrow> (Inl e, buf, d))\<rparr>"

text \<open>The message is an APDU for the active card, to which the driver reports more than \<open>k\<close> bytes of answer.\<close>

definition overlong_answer :: "nat \<Rightarrow> ('d, 'e) smartcard_ops \<Rightarrow> 'd usb_handler \<Rightarrow> bool" where
  "overlong_answer k sc u \<longleftrightarrow>
     uh_rx_buffer u ! 0 = PC_TO_RDR_XFR_BLOCK \<and> h_slot_state (uh_core u) = PresentActive \<and>
     \<not> is_pps_request (rx_payload u) \<and>
     exceeds k (fst (sc_transmit_apdu sc (sa_driver (h_nfc (uh_core u))) (rx_payload u) (h_tx_buf (uh_core u))))"

context contact_driver
begin

lemma clip_contract: "smartcard_driver (clip_count sc) sc_inv"
  by unfold_locales
    (auto simp: clip_count_def split: prod.splits sum.splits if_splits
       dest: sc_transmit sc_power_on_inv sc_atr_short sc_power_off_inv sc_set_protocol_inv sc_set_clock_inv sc_set_rate_inv
         sc_set_timing_inv sc_reinit_inv)

end

lemma clip_transmit:
  "\<not> exceeds 261 (fst (sc_transmit_apdu sc d c b)) \<Longrightarrow> length b = 271 \<Longrightarrow>
     sc_transmit_apdu (clip_count sc) d c b = sc_transmit_apdu sc d c b"
  by (auto simp: clip_count_def split: prod.splits sum.splits)

lemma clip_fields [simp]:
  "sc_power_on (clip_count sc) = sc_power_on sc" "sc_power_off (clip_count sc) = sc_power_off sc"
  "sc_is_card_present (clip_count sc) = sc_is_card_present sc" "sc_set_protocol (clip_count sc) = sc_set_protocol sc"
  "sc_set_clock (clip_count sc) = sc_set_clock sc" "sc_set_clock_and_rate (clip_count sc) = sc_set_clock_and_rate sc"
  "sc_set_wire_timing (clip_count sc) = sc_set_wire_timing sc" "sc_xfr_error_class (clip_count sc) = sc_xfr_error_class sc"
  "sc_reinit_count (clip_count sc) = sc_reinit_count sc"
  "sc_take_reinit_pending (clip_count sc) = sc_take_reinit_pending sc"
  by (simp_all add: clip_count_def)

lemma clip_wrapper [simp]:
  "handle_icc_clock (clip_count sc) = handle_icc_clock sc"
  "handle_set_data_rate_and_clock (clip_count sc) = handle_set_data_rate_and_clock sc"
  "apply_accepted (clip_count sc) = apply_accepted sc" "surface_reinit (clip_count sc) = surface_reinit sc"
  "sa_power_on (clip_count sc) = sa_power_on sc" "sa_is_card_present (clip_count sc) = sa_is_card_present sc"
  unfolding fun_eq_iff handle_icc_clock_def handle_set_data_rate_and_clock_def apply_accepted_def surface_reinit_def
    sa_power_on_def sa_is_card_present_def clip_fields
  by simp_all

lemma clip_ops:
  "d_power_on (contact_ops (clip_count sc)) = d_power_on (contact_ops sc)"
  "d_power_off (contact_ops (clip_count sc)) = d_power_off (contact_ops sc)"
  "d_is_card_present (contact_ops (clip_count sc)) = d_is_card_present (contact_ops sc)"
  "d_xfr_error_class (contact_ops (clip_count sc)) = d_xfr_error_class (contact_ops sc)"
  by (simp_all add: contact_ops_def)

lemma clip_xfr:
  assumes "length (h_tx_buf h) = 271"
    "h_slot_state h = PresentActive \<and> \<not> is_pps_request apdu \<longrightarrow>
       \<not> exceeds 261 (fst (sc_transmit_apdu sc (sa_driver (h_nfc h)) apdu (h_tx_buf h)))"
  shows "handle_xfr_block ContactProfile (contact_ops (clip_count sc)) h hdr apdu out =
    handle_xfr_block ContactProfile (contact_ops sc) h hdr apdu out"
proof (cases "h_slot_state h = PresentActive \<and> \<not> is_pps_request apdu")
  case True
  with assms have "d_transmit_apdu (contact_ops (clip_count sc)) (h_nfc h) apdu (h_tx_buf h) =
      d_transmit_apdu (contact_ops sc) (h_nfc h) apdu (h_tx_buf h)"
    by (simp add: contact_ops_def clip_transmit)
  then show ?thesis
    unfolding handle_xfr_block_def handle_xfr_block_contact_def count_transmit_def clip_ops ContactProfile_def by simp
next
  case False
  then show ?thesis by (auto simp: handle_xfr_block_def handle_xfr_block_contact_def ContactProfile_def)
qed

lemma clip_dispatch:
  assumes "length (h_tx_buf h) = 271"
    "message_type hdr = PC_TO_RDR_XFR_BLOCK \<and> h_slot_state h = PresentActive \<and> \<not> is_pps_request payload \<longrightarrow>
       \<not> exceeds 261 (fst (sc_transmit_apdu sc (sa_driver (h_nfc h)) payload (h_tx_buf h)))"
  shows "dispatch ContactProfile (contact_ops (clip_count sc)) h hdr payload out =
    dispatch ContactProfile (contact_ops sc) h hdr payload out"
proof (cases "message_type hdr = PC_TO_RDR_XFR_BLOCK")
  case True
  with clip_xfr [OF assms(1)] assms(2) show ?thesis by (simp add: dispatch_def)
next
  case False
  have "handle_power_on ContactProfile (contact_ops (clip_count sc)) = handle_power_on ContactProfile (contact_ops sc)"
    "handle_power_off ContactProfile (contact_ops (clip_count sc)) = handle_power_off ContactProfile (contact_ops sc)"
    unfolding fun_eq_iff handle_power_on_def handle_power_on_contact_def handle_power_off_def ContactProfile_def clip_ops
    by simp_all
  with False show ?thesis by (simp add: dispatch_def Let_def)
qed

lemma clip_delegate:
  assumes "usb_ok sc_inv u" "10 \<le> uh_rx_len u" "\<not> overlong_answer 261 sc u"
  shows "delegate_to_core (clip_count sc) u = delegate_to_core sc u"
proof -
  let ?msg = "take (uh_rx_len u) (uh_rx_buffer u)"
  note ok = usb_okD [OF assms(1)] and hdr = rx_header_parse [OF assms(1,2)]
  have "dispatch ContactProfile (contact_ops (clip_count sc)) (uh_core u) (rx_header u) (rx_payload u) out =
      dispatch ContactProfile (contact_ops sc) (uh_core u) (rx_header u) (rx_payload u) out" for out
    using assms(3) ok(1) hdr by (intro clip_dispatch) (auto simp: overlong_answer_def handler_ok_def)
  then have "process_command ContactProfile (contact_ops (clip_count sc)) (uh_core u) ?msg out =
      process_command ContactProfile (contact_ops sc) (uh_core u) ?msg out" for out
    by (cases "CCID_HEADER_SIZE + unat (dw_length (rx_header u)) < 2 ^ 32")
      (simp_all add: rx_payload_def process_command_overflow [OF hdr(1)] process_command_in_range [OF hdr(1)])
  then show ?thesis using ok(2,4) by (simp add: delegate_to_core_def slice_prefix)
qed

lemma clip_message:
  assumes "usb_ok sc_inv u" "10 \<le> uh_rx_len u" "\<not> overlong_answer 261 sc u"
  shows "usb_handle_message (clip_count sc) u = usb_handle_message sc u"
proof -
  let ?u = "u\<lparr>uh_cmd_busy := True\<rparr>"
  have "usb_ok sc_inv ?u" "\<not> overlong_answer 261 sc ?u"
    using assms(1,3) by (simp_all add: usb_ok_def overlong_answer_def rx_payload_def rx_header_def)
  with assms(2) have "delegate_to_core (clip_count sc) ?u = delegate_to_core sc ?u" by (intro clip_delegate) simp_all
  then show ?thesis by (simp add: usb_handle_message_def usb_dispatch_def usb_handle_escape_def Let_def)
qed

context contact_driver
begin

text \<open>More than the buffer of the core holds is a panic, more than the message holds is no answer.\<close>

lemma overlong_dispatch:
  assumes "handler_ok ContactProfile (adapted sc_inv) h" "length out = 271" "message_type hdr = PC_TO_RDR_XFR_BLOCK"
    "h_slot_state h = PresentActive" "\<not> is_pps_request apdu" "length apdu \<le> 261"
    "sc_transmit_apdu sc (sa_driver (h_nfc h)) apdu (h_tx_buf h) = (Inr n, buf, d)" "261 < n"
  shows "case dispatch ContactProfile (contact_ops sc) h hdr apdu out of
      None \<Rightarrow> 271 < n
    | Some (h', out', k) \<Rightarrow> n \<le> 271 \<and> handler_ok ContactProfile (adapted sc_inv) h' \<and> length out' = 271 \<and> k = 0"
proof -
  have inv: "sc_inv (sa_driver (h_nfc h))" "length (h_tx_buf h) = 271" using assms(1) by (simp_all add: handler_ok_def)
  from sc_transmit [OF inv(1) assms(7)] inv(2) have buf: "length buf = 271" "sc_inv d" by simp_all
  show ?thesis
    using assms buf
    by (auto simp: dispatch_def handle_xfr_block_def handle_xfr_block_contact_def ContactProfile_def contact_ops_def
        count_transmit_def slice_def message_def reply_def write_message_short handler_ok_def counters_ok_def Let_def
        split: prod.splits intro: saturating_add32_mono)
qed

end

end
