(* ===== verification/Contact_Uart.thy ===== *)
theory Contact_Uart
  imports Contact_Link Usb_Handler
begin

text \<open>
  The USART contact driver (\<open>firmware/ccid-firmware/src/smartcard.rs\<close>): activation, ATR reception, speed and
  guard time, the byte line on the peripheral, and the self-healing wrapper of \<open>main.rs\<close> that gives it to the
  USB handler.  The peripheral is the argument \<open>hw\<close>: status and data register, configuration registers, pins,
  delays and the cycle counter, over a state that stands for the hardware and the card.  The exchange
  operations are those of \<open>Contact_Link\<close> over the byte line \<open>io\<close>.  No result means a panic or a call that does
  not return.
\<close>

section \<open>The peripheral\<close>

datatype usart_reg = BRR | CR1 | CR2 | CR3 | GTPR

record 't usart_hw =
  hw_read_sr :: "'t \<Rightarrow> u32 \<times> 't"
  hw_read_dr :: "'t \<Rightarrow> u16 \<times> 't"
  hw_write_dr :: "u16 \<Rightarrow> 't \<Rightarrow> 't"
  hw_read_reg :: "usart_reg \<Rightarrow> 't \<Rightarrow> u32"
  hw_write_reg :: "usart_reg \<Rightarrow> u32 \<Rightarrow> 't \<Rightarrow> 't"
  hw_enable_clock :: "'t \<Rightarrow> 't"
  hw_card_present :: "'t \<Rightarrow> bool"
  hw_set_pwr :: "bool \<Rightarrow> 't \<Rightarrow> 't"
  hw_set_rst :: "bool \<Rightarrow> 't \<Rightarrow> 't"
  hw_delay :: "nat \<Rightarrow> 't \<Rightarrow> 't"
  hw_cyccnt :: "'t \<Rightarrow> u32 \<times> 't"

abbreviation (input) SYSCLK_HZ :: u32 where "SYSCLK_HZ \<equiv> 168000000"
abbreviation (input) SR_PE :: u32 where "SR_PE \<equiv> 0x01"
abbreviation (input) SR_ORE :: u32 where "SR_ORE \<equiv> 0x08"
abbreviation (input) SR_RXNE :: u32 where "SR_RXNE \<equiv> 0x20"
abbreviation (input) SR_TC :: u32 where "SR_TC \<equiv> 0x40"

definition modify_reg :: "'t usart_hw \<Rightarrow> usart_reg \<Rightarrow> (u32 \<Rightarrow> u32) \<Rightarrow> 't \<Rightarrow> 't" where
  "modify_reg hw r f t = hw_write_reg hw r (f (hw_read_reg hw r t)) t"

text \<open>The mantissa has twelve bits, the fraction four.\<close>

definition brr_bits :: "u32 \<Rightarrow> u32" where
  "brr_bits brr_val = push_bit 4 (ucast (ucast (drop_bit 4 brr_val) :: u16) AND 0x0FFF) OR (brr_val AND 0x0F)"

definition uart_delay_ms :: "'t usart_hw \<Rightarrow> u32 \<Rightarrow> 't \<Rightarrow> 't" where
  "uart_delay_ms hw ms t = (hw_delay hw 168000 ^^ unat ms) t"

text \<open>A division panics on zero.\<close>

definition div32 :: "u32 \<Rightarrow> u32 \<Rightarrow> u32 outcome" where
  "div32 a b = (if b = 0 then None else Some (a div b))"

section \<open>The driver\<close>

record 't smartcard_uart =
  su_line :: 't
  su_ct :: contact
  su_atr :: bytes
  su_ifsc :: u8
  su_t1_ns :: u8
  su_pclk1_hz :: u32
  su_pps_suppress_once :: bool

definition PPS_APPLY_NEGOTIATED_BAUD :: bool where "PPS_APPLY_NEGOTIATED_BAUD = False"

definition on_hw :: "('t \<Rightarrow> 't) \<Rightarrow> 't smartcard_uart \<Rightarrow> 't smartcard_uart" where
  "on_hw f u = u\<lparr>su_line := f (su_line u)\<rparr>"

definition on_ct :: "(contact \<Rightarrow> contact) \<Rightarrow> 't smartcard_uart \<Rightarrow> 't smartcard_uart" where
  "on_ct f u = u\<lparr>su_ct := f (su_ct u)\<rparr>"

definition default_baud :: "'t smartcard_uart \<Rightarrow> u32 outcome" where
  "default_baud u =
     (let etu = sc_default_etu (ct_config (su_ct u)) in div32 (ct_card_clk_hz (su_ct u) + etu div 2) etu)"

definition init_usart :: "'t usart_hw \<Rightarrow> u32 \<Rightarrow> 't smartcard_uart \<Rightarrow> 't smartcard_uart outcome" where
  "init_usart hw pclk1 u =
     (let max_clk = sc_max_clk_hz (ct_config (su_ct u)) in do {
        presc \<leftarrow> div32 (pclk1 + 2 * max_clk - 1) (2 * max_clk);
        prescaler \<leftarrow> Some (max (min presc 31) 1);
        card_clk \<leftarrow> div32 pclk1 (2 * prescaler);
        u \<leftarrow> Some (on_ct (\<lambda>c. c\<lparr>ct_card_clk_hz := card_clk\<rparr>) u);
        baudrate \<leftarrow> default_baud u;
        brr_val \<leftarrow> div32 pclk1 baudrate;
        Some (on_hw (hw_delay hw 100 \<circ> hw_write_reg hw GTPR (push_bit 8 16 OR prescaler) \<circ> hw_write_reg hw CR3 0x0020 \<circ>
                     hw_write_reg hw CR2 0x3900 \<circ> hw_write_reg hw CR1 0x340C \<circ> hw_write_reg hw BRR (brr_bits brr_val)) u)
      })"

definition uart_new :: "'t usart_hw \<Rightarrow> u32 \<Rightarrow> smartcard_config \<Rightarrow> 't \<Rightarrow> 't smartcard_uart outcome" where
  "uart_new hw pclk1 config t =
     init_usart hw pclk1
       (on_hw (hw_delay hw 100 \<circ> hw_enable_clock hw)
         \<lparr>su_line = t,
          su_ct = \<lparr>ct_powered = False, ct_protocol = 0, ct_t1_bwi = 4, ct_t1_cwi = 13, ct_card_clk_hz = 0,
                   ct_pps_speedup_active = False, ct_negotiated_baud = 0, ct_config = config\<rparr>,
          su_atr = [], su_ifsc = 32, su_t1_ns = 0, su_pclk1_hz = pclk1, su_pps_suppress_once = False\<rparr>)"

definition uart_is_card_present :: "'t usart_hw \<Rightarrow> 't smartcard_uart \<Rightarrow> bool" where
  "uart_is_card_present hw u = hw_card_present hw (su_line u)"

definition uart_set_protocol :: "u8 \<Rightarrow> 't smartcard_uart \<Rightarrow> 't smartcard_uart" where
  "uart_set_protocol p u = on_ct (\<lambda>c. c\<lparr>ct_protocol := p\<rparr>) u"

section \<open>Speed and guard time\<close>

definition set_guard_time :: "'t usart_hw \<Rightarrow> u16 \<Rightarrow> 't \<Rightarrow> 't" where
  "set_guard_time hw gt t = modify_reg hw GTPR (\<lambda>r. ucast (push_bit 8 gt) OR (r AND 0xFF)) t"

definition set_baud_from_fi_di :: "'t usart_hw \<Rightarrow> u16 \<Rightarrow> u8 \<Rightarrow> 't smartcard_uart \<Rightarrow> (bool \<times> 't smartcard_uart) outcome" where
  "set_baud_from_fi_di hw fi di u =
     (if di = 0 then Some (False, u)
      else do {
        baudrate \<leftarrow> div32 (ct_card_clk_hz (su_ct u) * ucast di) (ucast fi);
        brr_val \<leftarrow> div32 (su_pclk1_hz u) baudrate;
        (if brr_val < 16 then Some (False, u)
         else Some (True, on_ct (\<lambda>c. c\<lparr>ct_negotiated_baud := baudrate\<rparr>) (on_hw (hw_write_reg hw BRR (brr_bits brr_val)) u)))
      })"

definition reset_baud_default :: "'t usart_hw \<Rightarrow> 't smartcard_uart \<Rightarrow> 't smartcard_uart outcome" where
  "reset_baud_default hw u = do {
     baudrate \<leftarrow> default_baud u;
     brr_val \<leftarrow> div32 (su_pclk1_hz u) baudrate;
     Some (on_hw (hw_write_reg hw BRR (brr_bits brr_val)) u)
   }"

definition uart_set_wire_timing :: "'t usart_hw \<Rightarrow> u16 \<Rightarrow> u8 \<Rightarrow> u8 \<Rightarrow> 't smartcard_uart \<Rightarrow> 't smartcard_uart outcome" where
  "uart_set_wire_timing hw fi di guard_time_n u =
     (let u = on_hw (set_guard_time hw (snd (t1_usart_framing guard_time_n))) u in
      if di = 0 \<or> fi = 0 then Some u
      else
        let requested = ct_card_clk_hz (su_ct u) * ucast di div ucast fi;
            current = wire_baud (su_ct u);
            speedup = ct_pps_speedup_active (su_ct u);
            proven = (speedup \<and> ct_negotiated_baud (su_ct u) = requested) \<or> (\<not> speedup \<and> requested = current)
        in if requested = current then Some u
           else if \<not> proven then Some u
           else map_option snd (set_baud_from_fi_di hw fi di u))"

definition uart_set_clock :: "'t usart_hw \<Rightarrow> bool \<Rightarrow> 't smartcard_uart \<Rightarrow> 't smartcard_uart" where
  "uart_set_clock hw enable u =
     on_hw (modify_reg hw CR2 (\<lambda>r. if enable then r OR 0x0800 else r AND NOT 0x0800)) u"

definition clamp_rate :: "u32 \<Rightarrow> u32 \<Rightarrow> u32 \<Rightarrow> u32 outcome" where
  "clamp_rate lo hi x = (if hi < lo then None else Some (if x < lo then lo else if hi < x then hi else x))"

definition uart_set_clock_and_rate :: "'t usart_hw \<Rightarrow> u32 \<Rightarrow> u32 \<Rightarrow> 't smartcard_uart
    \<Rightarrow> ((smartcard_error + u32 \<times> u32) \<times> 't smartcard_uart) outcome" where
  "uart_set_clock_and_rate hw clock_hz rate_bps u =
     (let MIN_BAUD = 9600; MAX_BAUD = 5000000 in do {
        rate_bps \<leftarrow> (if ct_pps_speedup_active (su_ct u)
                     then clamp_rate (max (ct_negotiated_baud (su_ct u)) MIN_BAUD) MAX_BAUD rate_bps
                     else clamp_rate MIN_BAUD MAX_BAUD rate_bps);
        (if rate_bps = 0 then Some (Inl ScProtocolError, u)
         else do {
           brr_val \<leftarrow> div32 (su_pclk1_hz u) rate_bps;
           (if brr_val < 16 then Some (Inl ScProtocolError, u)
            else do {
              actual_rate \<leftarrow> div32 (su_pclk1_hz u) brr_val;
              Some (Inr (ct_card_clk_hz (su_ct u), actual_rate), on_hw (hw_write_reg hw BRR (brr_bits brr_val)) u)
            })
         })
      })"

section \<open>Reception\<close>

text \<open>Reads the data register as long as one of the given status bits is set.\<close>

partial_function (option) drain_rx :: "'t usart_hw \<Rightarrow> u32 \<Rightarrow> 't \<Rightarrow> 't option" where
  "drain_rx hw bits t =
     (case hw_read_sr hw t of
        (sr, t) \<Rightarrow> if sr AND bits \<noteq> 0 then drain_rx hw bits (snd (hw_read_dr hw t)) else Some t)"

definition clear_usart_errors :: "'t usart_hw \<Rightarrow> 't \<Rightarrow> 't" where
  "clear_usart_errors hw t =
     (case hw_read_sr hw t of (sr, t) \<Rightarrow> if sr AND SR_ORE \<noteq> 0 then snd (hw_read_dr hw t) else t)"

text \<open>The wait for the first ATR byte, one status read per millisecond.\<close>

fun wait_ts :: "'t usart_hw \<Rightarrow> nat \<Rightarrow> 't \<Rightarrow> bool \<times> 't" where
  "wait_ts hw n t =
     (case hw_read_sr hw t of
        (sr, t) \<Rightarrow>
          if sr AND SR_RXNE \<noteq> 0 then (True, t)
          else
            let t = uart_delay_ms hw 1 t in
            case n of
              0 \<Rightarrow> (False, snd (hw_read_sr hw t))
            | Suc 0 \<Rightarrow> (False, snd (hw_read_sr hw t))
            | Suc m \<Rightarrow> wait_ts hw m t)"

declare wait_ts.simps [simp del]

partial_function (option) atr_loop :: "'t usart_hw \<Rightarrow> dwt_watchdog \<Rightarrow> bytes \<Rightarrow> 't \<Rightarrow> ((smartcard_error + bytes) \<times> 't) option" where
  "atr_loop hw wd atr t =
     (case hw_read_sr hw t of
        (sr, t) \<Rightarrow>
          if sr AND SR_RXNE \<noteq> 0 \<or> sr AND SR_ORE \<noteq> 0 then
            (case hw_read_dr hw t of
               (w, t) \<Rightarrow>
                 let b = ucast w in
                 if atr = [] \<and> b = 0 then atr_loop hw wd atr t
                 else
                   (case hw_cyccnt hw t of
                      (now, t) \<Rightarrow>
                        atr_loop hw (watchdog_start now wd) (if length atr < SC_ATR_MAX_LEN then atr @ [b] else atr) t))
          else
            (case hw_cyccnt hw t of
               (now, t) \<Rightarrow>
                 if watchdog_expired now wd
                 then Some (if atr \<noteq> [] then Inr atr else Inl ScInvalidATR, t)
                 else atr_loop hw wd atr t))"

text \<open>The countdown starts at the configured timeout; a timeout of zero counts through the word.\<close>

definition read_atr :: "'t usart_hw \<Rightarrow> 't smartcard_uart \<Rightarrow> ((smartcard_error + unit) \<times> 't smartcard_uart) outcome" where
  "read_atr hw u =
     (let (sr, t) = hw_read_sr hw (su_line u);
          t = (if sr AND SR_ORE \<noteq> 0 \<and> sr AND SR_RXNE = 0 then snd (hw_read_dr hw t) else t);
          ms = sc_atr_timeout_ms (ct_config (su_ct u));
          (ready, t) = wait_ts hw (if ms = 0 then 2 ^ 32 else unat ms) t
      in if \<not> ready then Some (Inl ScTimeout, u\<lparr>su_line := t\<rparr>)
         else
           let (now, t) = hw_cyccnt hw t in do {
             (r, t) \<leftarrow> atr_loop hw (watchdog_start now (watchdog_from_ms 50 SYSCLK_HZ)) [] t;
             Some (case r of
                 Inl e \<Rightarrow> (Inl e, u\<lparr>su_line := t\<rparr>)
               | Inr atr \<Rightarrow> (Inr (), u\<lparr>su_line := t, su_atr := atr\<rparr>))
           })"

text \<open>One byte, or the reason there is none; the argument is the safety net.\<close>

fun recv_loop :: "'t usart_hw \<Rightarrow> dwt_watchdog \<Rightarrow> nat \<Rightarrow> 't \<Rightarrow> (smartcard_error + u8) \<times> 't" where
  "recv_loop hw wd 0 t = (Inl ScTimeout, t)"
| "recv_loop hw wd (Suc safety_net) t =
     (case hw_read_sr hw t of
        (sr, t) \<Rightarrow>
          if sr AND SR_ORE \<noteq> 0 then (Inl ScProtocolError, snd (hw_read_dr hw t))
          else if sr AND SR_RXNE \<noteq> 0 then
            (if sr AND SR_PE \<noteq> 0 then (Inl ScParityError, snd (hw_read_dr hw t))
             else case hw_read_dr hw t of (w, t) \<Rightarrow> (Inr (ucast w), t))
          else
            (case hw_cyccnt hw t of
               (now, t) \<Rightarrow>
                 if watchdog_expired now wd then (Inl ScTimeout, snd (hw_read_sr hw t))
                 else recv_loop hw wd safety_net t))"

definition receive_byte_timeout :: "'t usart_hw \<Rightarrow> u32 \<Rightarrow> 't \<Rightarrow> (smartcard_error + u8) \<times> 't" where
  "receive_byte_timeout hw timeout_ms t =
     (case hw_cyccnt hw t of
        (now, t) \<Rightarrow>
          recv_loop hw (watchdog_start now (watchdog_from_ms timeout_ms SYSCLK_HZ))
            (max (min (unat timeout_ms * 28000) 0xFFFFFFFF) 1000000) t)"

section \<open>Transmission\<close>

partial_function (option) tc_loop :: "'t usart_hw \<Rightarrow> dwt_watchdog \<Rightarrow> 't \<Rightarrow> (bool \<times> 't) option" where
  "tc_loop hw wd t =
     (case hw_read_sr hw t of
        (sr, t) \<Rightarrow>
          if sr AND SR_TC \<noteq> 0 then Some (True, t)
          else (case hw_cyccnt hw t of (now, t) \<Rightarrow> if watchdog_expired now wd then Some (False, t) else tc_loop hw wd t))"

definition uart_send_byte :: "'t usart_hw \<Rightarrow> smartcard_config \<Rightarrow> u8 \<Rightarrow> 't \<Rightarrow> ((smartcard_error + unit) \<times> 't) outcome" where
  "uart_send_byte hw config data t =
     (let t = modify_reg hw CR1 (\<lambda>r. r AND NOT 0x04) t;
          t = hw_write_dr hw (ucast data) t;
          (now, t) = hw_cyccnt hw t
      in do {
        (sent, t) \<leftarrow> tc_loop hw (watchdog_start now (watchdog_from_ms (sc_byte_timeout_ms config) SYSCLK_HZ)) t;
        Some (if sent then Inr () else Inl ScTimeout, modify_reg hw CR1 (\<lambda>r. r OR 0x04) t)
      })"

text \<open>
  The byte line of \<open>SmartcardIo\<close> and \<open>T1Transport\<close>, whose operations return.  Its state is optional: nothing is left
  of a line on which an operation did not return, and operations on it have no effect.
\<close>

definition uart_io :: "'t usart_hw \<Rightarrow> smartcard_config \<Rightarrow> 't option smartcard_io" where
  "uart_io hw config =
     \<lparr>io_send_byte = (\<lambda>b t. case Option.bind t (uart_send_byte hw config b) of
        None \<Rightarrow> (Inl ScTimeout, None) | Some (r, t) \<Rightarrow> (r, Some t)),
      io_recv_byte_timeout = (\<lambda>ms t. case t of
        None \<Rightarrow> (Inl ScTimeout, None) | Some t \<Rightarrow> map_prod id Some (receive_byte_timeout hw ms t)),
      io_prepare_rx = (\<lambda>t. Option.bind t (drain_rx hw (SR_RXNE OR SR_ORE)))\<rparr>"

text \<open>An operation of the line inside the driver.\<close>

definition on_line :: "('t option \<Rightarrow> 'r \<times> 't option) \<Rightarrow> 't smartcard_uart \<Rightarrow> ('r \<times> 't smartcard_uart) outcome" where
  "on_line f u =
     (case f (Some (su_line u)) of (r, None) \<Rightarrow> None | (r, Some t) \<Rightarrow> Some (r, u\<lparr>su_line := t\<rparr>))"

section \<open>Activation\<close>

text \<open>The receiving loop of the negotiation is \<open>negotiate_loop\<close>.\<close>

definition uart_negotiate_pps :: "'t option smartcard_io \<Rightarrow> 't usart_hw \<Rightarrow> atr_params \<Rightarrow> bool \<Rightarrow> 't smartcard_uart
    \<Rightarrow> ((unit + unit) \<times> 't smartcard_uart) outcome" where
  "uart_negotiate_pps io hw params suppress_speedup u =
     (if \<not> ap_has_ta1 params \<or> ap_ta1 params = DEFAULT_TA1 then Some (Inr (), u)
      else do {
        (req, f) \<leftarrow> (if PPS_APPLY_NEGOTIATED_BAUD \<and> \<not> suppress_speedup
                     then build_request (ap_protocol params) (ap_ta1 params) pps_new
                     else build_minimal_request (ap_protocol params) pps_new);
        (r, u) \<leftarrow> on_line (io_send io req) u;
        (case r of
           Inl _ \<Rightarrow> Some (Inl (), u)
         | Inr _ \<Rightarrow> do {
             t \<leftarrow> drain_rx hw (SR_RXNE OR SR_ORE) (uart_delay_ms hw 2 (su_line u));
             (r, t) \<leftarrow> negotiate_loop io 200 (start_response f) (Some (clear_usart_errors hw t));
             t \<leftarrow> t;
             u \<leftarrow> Some (u\<lparr>su_line := t\<rparr>);
             (if r = Inr () \<and> PPS_APPLY_NEGOTIATED_BAUD \<and> \<not> suppress_speedup then do {
                (applied, u) \<leftarrow> set_baud_from_fi_di hw (ap_fi params) (ap_di params) u;
                Some (r, on_ct (\<lambda>c. c\<lparr>ct_pps_speedup_active := applied\<rparr>) u)
              }
              else Some (r, u))
           })
      })"

text \<open>From the reset to the release of RST; the result is the suppression the call was asked for.\<close>

definition cold_reset :: "'t usart_hw \<Rightarrow> 't smartcard_uart \<Rightarrow> (bool \<times> 't smartcard_uart) outcome" where
  "cold_reset hw u = do {
     u \<leftarrow> Some (on_hw (uart_delay_ms hw 200 \<circ> hw_set_rst hw False \<circ> hw_set_pwr hw True) u);
     u \<leftarrow> Some (on_ct (\<lambda>c. c\<lparr>ct_powered := False, ct_pps_speedup_active := False\<rparr>) (u\<lparr>su_atr := []\<rparr>));
     u \<leftarrow> reset_baud_default hw u;
     suppress \<leftarrow> Some (su_pps_suppress_once u);
     t \<leftarrow> drain_rx hw SR_RXNE (su_line u);
     config \<leftarrow> Some (ct_config (su_ct u));
     Some (suppress,
       on_hw (uart_delay_ms hw 2 \<circ> hw_set_rst hw True \<circ> uart_delay_ms hw (sc_clk_to_rst_delay_ms config) \<circ>
              uart_delay_ms hw (sc_power_on_delay_ms config) \<circ> hw_set_pwr hw False \<circ> clear_usart_errors hw)
         (u\<lparr>su_line := t, su_pps_suppress_once := False\<rparr>))
   }"

text \<open>
  The IFS negotiation with its fallbacks; the result says whether only a cold re-activation is left.
\<close>

definition ifs_ladder :: "'t option smartcard_io \<Rightarrow> 't usart_hw \<Rightarrow> 't smartcard_uart \<Rightarrow> (bool \<times> 't smartcard_uart) outcome" where
  "ifs_ladder io hw u = do {
     (r, u) \<leftarrow> on_line (do_ifs_negotiation_t1 io) u;
     (case r of
        Inr ifsc \<Rightarrow> Some (False, u\<lparr>su_ifsc := ifsc\<rparr>)
      | Inl _ \<Rightarrow>
          if \<not> ct_pps_speedup_active (su_ct u) then Some (False, u)
          else do {
            (r, u) \<leftarrow> on_line (do_ifs_negotiation_t1 io) u;
            (case r of
               Inr ifsc \<Rightarrow> Some (False, u\<lparr>su_ifsc := ifsc\<rparr>)
             | Inl _ \<Rightarrow> do {
                 u \<leftarrow> reset_baud_default hw (on_ct (\<lambda>c. c\<lparr>ct_pps_speedup_active := False\<rparr>) u);
                 (r, u) \<leftarrow> on_line (do_ifs_negotiation_t1 io) u;
                 (case r of
                    Inr ifsc \<Rightarrow> Some (False, u\<lparr>su_ifsc := ifsc\<rparr>)
                  | Inl _ \<Rightarrow> Some (True, u))
               })
          })
   }"

text \<open>What follows a received ATR.\<close>

definition accept_atr :: "'t option smartcard_io \<Rightarrow> 't usart_hw \<Rightarrow> bool \<Rightarrow> 't smartcard_uart
    \<Rightarrow> ((smartcard_error + bool) \<times> 't smartcard_uart) outcome" where
  "accept_atr io hw suppress u =
     (let params = fw_parse_atr (su_atr u); protocol = detect_protocol_from_atr (su_atr u);
          u = on_ct (\<lambda>c. c\<lparr>ct_powered := True, ct_t1_bwi := ap_bwi params, ct_t1_cwi := ap_cwi params,
                           ct_protocol := protocol\<rparr>) u
      in if \<not> fw_verify_atr_tck (su_atr u) protocol
         then Some (Inl ScInvalidATR, on_ct (\<lambda>c. c\<lparr>ct_powered := False\<rparr>) u)
         else do {
           (_, u) \<leftarrow> uart_negotiate_pps io hw params suppress u;
           u \<leftarrow> Some (if protocol = 0 then on_hw (modify_reg hw CR3 (\<lambda>r. r OR 0x10)) u else u);
           (if protocol = 1 then do {
              n_atr \<leftarrow> Some (if ap_guard_time_n params = 0 then ucast GUARD_TIME_DEFAULT_N else ap_guard_time_n params);
              (ladder, u) \<leftarrow> ifs_ladder io hw
                (on_hw (set_guard_time hw (snd (t1_usart_framing n_atr))) (u\<lparr>su_ifsc := ap_ifsc params\<rparr>));
              Some (Inr ladder, u)
            }
            else Some (Inr False, u))
         })"

definition uart_power_off :: "'t usart_hw \<Rightarrow> 't smartcard_uart \<Rightarrow> 't smartcard_uart outcome" where
  "uart_power_off hw u = do {
     u \<leftarrow> Some (on_hw (hw_set_pwr hw True \<circ> hw_set_rst hw False) u);
     u \<leftarrow> reset_baud_default hw
       (on_ct (\<lambda>c. c\<lparr>ct_powered := False, ct_protocol := 0, ct_pps_speedup_active := False\<rparr>)
         (u\<lparr>su_atr := [], su_ifsc := 32, su_t1_ns := 0\<rparr>));
     Some (on_hw (set_guard_time hw T0_GUARD_TIME_ETU \<circ> modify_reg hw CR2 (\<lambda>r. r OR 0x3000)) u)
   }"

partial_function (option) uart_power_on :: "'t option smartcard_io \<Rightarrow> 't usart_hw \<Rightarrow> 't smartcard_uart
    \<Rightarrow> ((smartcard_error + bytes) \<times> 't smartcard_uart) option" where
  "uart_power_on io hw u =
     (if \<not> uart_is_card_present hw u then Some (Inl ScNoCard, u)
      else do {
        (suppress, u) \<leftarrow> cold_reset hw u;
        (r, u) \<leftarrow> read_atr hw u;
        (case r of
           Inl e \<Rightarrow> Some (Inl e, u)
         | Inr _ \<Rightarrow> do {
             (r, u) \<leftarrow> accept_atr io hw suppress u;
             (case r of
                Inl e \<Rightarrow> Some (Inl e, u)
              | Inr ladder \<Rightarrow>
                  if \<not> ladder then Some (Inr (su_atr u), u)
                  else do {
                    u \<leftarrow> uart_power_off hw (u\<lparr>su_pps_suppress_once := True\<rparr>);
                    (r, u) \<leftarrow> uart_power_on io hw u;
                    (let u = (if isl r then u\<lparr>su_pps_suppress_once := False\<rparr> else u) in Some (Inr (su_atr u), u))
                  })
           })
      })"

section \<open>Exchanges\<close>

definition uart_transmit_apdu :: "'t option smartcard_io \<Rightarrow> bytes \<Rightarrow> bytes \<Rightarrow> 't smartcard_uart
    \<Rightarrow> ((smartcard_error + nat) \<times> bytes \<times> 't smartcard_uart) outcome" where
  "uart_transmit_apdu io command response u = do {
     (r, response, t) \<leftarrow> contact_transmit_apdu io command response (su_ct u) (Some (su_line u));
     t \<leftarrow> t;
     Some (r, response, u\<lparr>su_line := t\<rparr>)
   }"

definition uart_transmit_raw :: "'t option smartcard_io \<Rightarrow> bytes \<Rightarrow> bytes \<Rightarrow> 't smartcard_uart
    \<Rightarrow> ((smartcard_error + nat) \<times> bytes \<times> 't smartcard_uart) outcome" where
  "uart_transmit_raw io data response u =
     (case transmit_raw io data response (su_ct u) (Some (su_line u)) of
        (r, response, None) \<Rightarrow> None
      | (r, response, Some t) \<Rightarrow> Some (r, response, u\<lparr>su_line := t\<rparr>))"

section \<open>The self-healing wrapper\<close>

record 't uart_wrapper =
  sw_uart :: "'t smartcard_uart"
  sw_heal :: failure_tracker

definition wrapper_new :: "'t smartcard_uart \<Rightarrow> 't uart_wrapper" where
  "wrapper_new u = \<lparr>sw_uart = u, sw_heal = tracker_new\<rparr>"

definition track_transmit :: "'t option smartcard_io \<Rightarrow> 't usart_hw \<Rightarrow> smartcard_error + nat \<Rightarrow> 't uart_wrapper
    \<Rightarrow> ((smartcard_error + nat) \<times> 't uart_wrapper) outcome" where
  "track_transmit io hw result w =
     (let outcome = (case result of Inl _ \<Rightarrow> OutcomeFailure | Inr n \<Rightarrow> if n = 0 then OutcomeMute else OutcomeSuccess);
          (reinit, heal) = tracker_record outcome (sw_heal w);
          w = w\<lparr>sw_heal := heal\<rparr>
      in do {
        w \<leftarrow> (if reinit then do {
                u \<leftarrow> uart_power_off hw (sw_uart w);
                (_, u) \<leftarrow> uart_power_on io hw u;
                Some (w\<lparr>sw_uart := u\<rparr>)
              }
              else Some w);
        Some (if result = Inr 0 then Inl ScTimeout else result, w)
      })"

definition wrapper_power_on :: "'t option smartcard_io \<Rightarrow> 't usart_hw \<Rightarrow> 't uart_wrapper
    \<Rightarrow> ((smartcard_error + bytes) \<times> 't uart_wrapper) outcome" where
  "wrapper_power_on io hw w = do {
     (r, u) \<leftarrow> uart_power_on io hw (sw_uart w);
     Some (r, w\<lparr>sw_uart := u, sw_heal := session_start (sw_heal w)\<rparr>)
   }"

definition wrapper_power_off :: "'t usart_hw \<Rightarrow> 't uart_wrapper \<Rightarrow> 't uart_wrapper outcome" where
  "wrapper_power_off hw w = do {
     u \<leftarrow> uart_power_off hw (sw_uart w);
     Some (w\<lparr>sw_uart := u, sw_heal := session_start (sw_heal w)\<rparr>)
   }"

definition wrapper_transmit :: "'t option smartcard_io \<Rightarrow> 't usart_hw
    \<Rightarrow> ('t smartcard_uart \<Rightarrow> ((smartcard_error + nat) \<times> bytes \<times> 't smartcard_uart) outcome) \<Rightarrow> 't uart_wrapper
    \<Rightarrow> ((smartcard_error + nat) \<times> bytes \<times> 't uart_wrapper) outcome" where
  "wrapper_transmit io hw f w = do {
     (r, response, u) \<leftarrow> f (sw_uart w);
     (r, w) \<leftarrow> track_transmit io hw r (w\<lparr>sw_uart := u\<rparr>);
     Some (r, response, w)
   }"

text \<open>
  The wrapper as the driver of the USB handler.  The driver's operations return, so the state is optional:
  \<open>None\<close> is a firmware that has panicked or hangs.
\<close>

definition or_stuck :: "'r \<Rightarrow> ('d \<Rightarrow> ('r \<times> 'd) option) \<Rightarrow> 'd option \<Rightarrow> 'r \<times> 'd option" where
  "or_stuck r f d = (case Option.bind d f of None \<Rightarrow> (r, None) | Some (r, d) \<Rightarrow> (r, Some d))"

definition or_stuck_transmit :: "('d \<Rightarrow> ((smartcard_error + nat) \<times> bytes \<times> 'd) option) \<Rightarrow> bytes \<Rightarrow> 'd option
    \<Rightarrow> (smartcard_error + nat) \<times> bytes \<times> 'd option" where
  "or_stuck_transmit f response d =
     (case Option.bind d f of None \<Rightarrow> (Inl ScHardwareError, response, None) | Some (r, buf, d) \<Rightarrow> (r, buf, Some d))"

definition wrapper_sc :: "'t option smartcard_io \<Rightarrow> 't usart_hw \<Rightarrow> ('t uart_wrapper option, smartcard_error) smartcard_ops" where
  "wrapper_sc io hw =
     \<lparr>sc_power_on = or_stuck (Inl ScHardwareError) (wrapper_power_on io hw),
      sc_power_off = (\<lambda>d. Option.bind d (wrapper_power_off hw)),
      sc_is_card_present = (\<lambda>d. case d of None \<Rightarrow> False | Some w \<Rightarrow> uart_is_card_present hw (sw_uart w)),
      sc_transmit_apdu = (\<lambda>d command response.
        or_stuck_transmit (wrapper_transmit io hw (uart_transmit_apdu io command response)) response d),
      sc_transmit_raw = (\<lambda>d data response.
        or_stuck_transmit (wrapper_transmit io hw (uart_transmit_raw io data response)) response d),
      sc_set_protocol = (\<lambda>p. map_option (\<lambda>w. w\<lparr>sw_uart := uart_set_protocol p (sw_uart w)\<rparr>)),
      sc_get_protocol = (\<lambda>_. 0),
      sc_set_clock = (\<lambda>enable. map_option (\<lambda>w. w\<lparr>sw_uart := uart_set_clock hw enable (sw_uart w)\<rparr>)),
      sc_set_clock_and_rate = (\<lambda>clock rate.
        or_stuck (Inl ScHardwareError) (\<lambda>w. do {
          (r, u) \<leftarrow> uart_set_clock_and_rate hw clock rate (sw_uart w);
          Some (r, w\<lparr>sw_uart := u\<rparr>) })),
      sc_set_wire_timing = (\<lambda>fi di n d. do {
        w \<leftarrow> d; u \<leftarrow> uart_set_wire_timing hw fi di n (sw_uart w); Some (w\<lparr>sw_uart := u\<rparr>) }),
      sc_xfr_error_class = (\<lambda>_. smartcard_error_class),
      sc_reinit_count = (\<lambda>d. case d of None \<Rightarrow> 0 | Some w \<Rightarrow> ft_reinit_count (sw_heal w)),
      sc_take_reinit_pending = (\<lambda>d. case d of
          None \<Rightarrow> (False, None)
        | Some w \<Rightarrow> (case take_reinit_pending (sw_heal w) of (p, heal) \<Rightarrow> (p, Some (w\<lparr>sw_heal := heal\<rparr>)))),
      sc_diagnostics = (\<lambda>_ base. base)\<rparr>"

end
