(* ===== verification/Contact_Uart_Props.thy ===== *)
theory Contact_Uart_Props
  imports Contact_Uart
begin

text \<open>
  Properties of the USART contact driver: what an exchange may do to the line carries over from its byte
  operations, the wire speed is never moved by the host's parameters, and the T=0 exchange can report more
  bytes than its buffer holds.
\<close>

section \<open>Invariants of a byte line\<close>

locale line_invariant =
  fixes io :: "'t smartcard_io"
    and q :: "'t \<Rightarrow> bool"
  assumes q_send: "q t \<Longrightarrow> io_send_byte io b t = (rs, t') \<Longrightarrow> q t'"
    and q_recv: "q t \<Longrightarrow> io_recv_byte_timeout io ms t = (rr, t') \<Longrightarrow> q t'"
    and q_prepare: "q t \<Longrightarrow> q (io_prepare_rx io t)"
begin

lemma q_io_send: "q t \<Longrightarrow> io_send io bs t = (r, t') \<Longrightarrow> q t'"
  by (induction bs arbitrary: t) (auto split: prod.splits sum.splits dest: q_send)

lemma q_io_recv: "q t \<Longrightarrow> io_recv io mss t = (r, t') \<Longrightarrow> q t'"
  by (induction mss arbitrary: t r) (auto split: prod.splits sum.splits dest: q_recv)

lemma q_do_ifs:
  assumes "q t" "do_ifs_negotiation_t1 io t = (r, t')"
  shows "q t'"
proof -
  obtain r1 t1 where s: "io_send io [0, 0xC1, 1, 254, 0xC1 XOR 1 XOR 254] t = (r1, t1)" by (rule prod.exhaust)
  obtain r2 t2 where p: "io_recv io [2000, 500, 500] (io_prepare_rx io t1) = (r2, t2)" by (rule prod.exhaust)
  obtain r3 t3 where b: "io_recv io [500, 500] t2 = (r3, t3)" by (rule prod.exhaust)
  have "q t1" by (rule q_io_send [OF assms(1) s])
  moreover from this have "q t2" by (rule q_io_recv [OF q_prepare p])
  moreover from this have "q t3" by (rule q_io_recv [OF _ b])
  moreover have "t' = t1 \<or> t' = t2 \<or> t' = t3"
    using assms(2) unfolding do_ifs_negotiation_t1_def Let_def s prod.case p b by (auto split: sum.splits if_splits)
  ultimately show ?thesis by blast
qed

lemma q_read_loop: "q t \<Longrightarrow> read_loop io f n limit at buf t = (e, k, buf', t') \<Longrightarrow> q t'"
proof (induction "limit - at" arbitrary: f at buf t)
  case 0
  then show ?case by (simp add: read_loop.simps [of io f])
next
  case (Suc m)
  obtain r t1 where rt: "io_recv_byte_timeout io f t = (r, t1)" by (rule prod.exhaust)
  have q1: "q t1" by (rule q_recv [OF Suc.prems(1) rt])
  show ?case
  proof (cases r)
    case (Inl e)
    moreover have "\<not> limit \<le> at" using Suc.hyps(2) by simp
    ultimately show ?thesis using Suc.prems(2) q1 rt by (simp add: read_loop.simps [of io f])
  next
    case (Inr b)
    moreover have "\<not> limit \<le> at" using Suc.hyps(2) by simp
    ultimately have "read_loop io n n limit (at + 1) (buf[at := b]) t1 = (e, k, buf', t')"
      using Suc.prems(2) rt by (simp add: read_loop.simps [of io f])
    moreover have "m = limit - (at + 1)" using Suc.hyps(2) by simp
    ultimately show ?thesis using Suc.hyps(1) q1 by blast
  qed
qed

lemma q_transmit_raw:
  assumes "q t" "transmit_raw io data response c t = (r, buf, t')"
  shows "q t'"
proof (cases "ct_powered c")
  case True
  obtain r1 t1 where s: "io_send io data t = (r1, t1)" by (rule prod.exhaust)
  define t2 where "t2 = io_prepare_rx io t1"
  have q2: "q t1" "q t2" using q_io_send [OF assms(1) s] q_prepare by (simp_all add: t2_def)
  show ?thesis
  proof (cases "r1 = Inr () \<and> ct_protocol c = 1 \<and> 4 \<le> length response")
    case prologue: True
    obtain e3 n3 b3 t3 where p: "read_loop io (contact_first_byte_ms c) (contact_inter_byte_ms c) 3 0 response t2 = (e3, n3, b3, t3)"
      by (rule prod_cases4)
    define ex where "ex = (case t1_block_total_len (take 3 b3) (length b3) of Some n \<Rightarrow> n | None \<Rightarrow> length b3)"
    obtain e4 n4 b4 t4 where b: "read_loop io (contact_inter_byte_ms c) (contact_inter_byte_ms c) ex n3 b3 t3 = (e4, n4, b4, t4)"
      by (rule prod_cases4)
    have "q t3" by (rule q_read_loop [OF q2(2) p])
    moreover from this have "q t4" by (rule q_read_loop [OF _ b])
    moreover have "t' = t3 \<or> t' = t4"
      using assms(2) True prologue p b s
      by (auto simp: transmit_raw_def Let_def t2_def [symmetric] ex_def [symmetric] split: option.splits)
    ultimately show ?thesis by blast
  next
    case plain: False
    obtain e3 n3 b3 t3 where p: "read_loop io 500 50 (length response) 0 response t2 = (e3, n3, b3, t3)"
      by (rule prod_cases4)
    have "q t3" by (rule q_read_loop [OF q2(2) p])
    moreover have "t' = t1 \<or> t' = t3"
      using assms(2) True plain p s
      by (cases r1) (auto simp: transmit_raw_def Let_def t2_def [symmetric] split: option.splits if_splits)
    ultimately show ?thesis using q2 by blast
  qed
qed (use assms in \<open>simp add: transmit_raw_def\<close>)

lemma q_negotiate_loop:
  assumes "negotiate_loop io ms f t = Some (r, t')" and "q t"
  shows "q t'"
proof -
  have "io = io \<longrightarrow> q t \<longrightarrow> q (snd (r, t'))"
  proof (rule negotiate_loop.raw_induct [where P = "\<lambda>io' ms f t y. io' = io \<longrightarrow> q t \<longrightarrow> q (snd y)", OF _ assms(1)], intro impI)
    fix nl io' ms f t y
    assume ih: "\<And>io' ms f t y. nl io' ms f t = Some y \<Longrightarrow> io' = io \<longrightarrow> q t \<longrightarrow> q (snd y)"
      and b: "(case io_recv_byte_timeout io' ms t of
          (Inl _, t) \<Rightarrow> Some (Inl (), t)
        | (Inr b, t) \<Rightarrow> do {
            f \<leftarrow> process_byte b f;
            (if pf_state f = Done then Some (Inr (), t)
             else if pf_state f = Failed then Some (Inl (), t)
             else nl io' ms f t)
          }) = Some y" and eq: "io' = io" and qt: "q t"
    obtain r t1 where rt: "io_recv_byte_timeout io ms t = (r, t1)" by (rule prod.exhaust)
    have "q t1" by (rule q_recv [OF qt rt])
    with b ih show "q (snd y)" unfolding eq rt by (auto split: sum.splits bind_splits if_splits)
  qed
  with assms(2) show ?thesis by simp
qed

text \<open>The T=0 exchange.\<close>

lemma q_t0_procedure:
  assumes "t0_procedure io ms t = Some (r, t')" and "q t"
  shows "q t'"
proof -
  have "io = io \<longrightarrow> q t \<longrightarrow> q (snd (r, t'))"
  proof (rule t0_procedure.raw_induct [where P = "\<lambda>io' ms t y. io' = io \<longrightarrow> q t \<longrightarrow> q (snd y)", OF _ assms(1)], intro impI)
    fix tp io' ms t y
    assume ih: "\<And>io' ms t y. tp io' ms t = Some y \<Longrightarrow> io' = io \<longrightarrow> q t \<longrightarrow> q (snd y)"
      and b: "(case io_recv_byte_timeout io' ms t of
          (Inl e, t) \<Rightarrow> Some (Inl e, t)
        | (Inr pb, t) \<Rightarrow> if pb = SW1_NULL then tp io' ms t else Some (Inr pb, t)) = Some y" and eq: "io' = io" and qt: "q t"
    obtain r t1 where rt: "io_recv_byte_timeout io ms t = (r, t1)" by (rule prod.exhaust)
    have "q t1" by (rule q_recv [OF qt rt])
    with b ih show "q (snd y)" unfolding eq rt by (auto split: sum.splits if_splits)
  qed
  with assms(2) show ?thesis by simp
qed

lemma q_t0_send:
  assumes "t0_send io command st t = (r, st', t')" and "q t"
  shows "q t'"
proof -
  obtain r1 t1 where s: "io_send io (t0_header st) t = (r1, t1)" by (rule prod.exhaust)
  obtain r2 t2 where b: "io_send io (drop (t0_body_offset st) command) t1 = (r2, t2)" by (rule prod.exhaust)
  have "q t1" by (rule q_io_send [OF assms(2) s])
  moreover from this have "q t2" by (rule q_io_send [OF _ b])
  moreover have "t' = t1 \<or> t' = t2" using assms(1) s b by (auto simp: t0_send_def split: sum.splits if_splits)
  ultimately show ?thesis by blast
qed

lemma q_t0_data: "t0_data io ms i n st t = (r, st', t') \<Longrightarrow> q t \<Longrightarrow> q t'"
proof (induction n arbitrary: i st t)
  case (Suc n)
  obtain r1 t1 where rt: "io_recv_byte_timeout io ms t = (r1, t1)" by (rule prod.exhaust)
  have "q t1" by (rule q_recv [OF Suc.prems(2) rt])
  with Suc.prems(1) Suc.IH rt show ?case by (auto split: sum.splits)
qed simp

lemma q_t0_fetch:
  assumes "t0_fetch io pms bms sw2 st t = Some (nx, st', t')" and "q t"
  shows "q t'"
proof -
  obtain r1 t1 where s: "io_send io (t0_get_response sw2) t = (r1, t1)" by (rule prod.exhaust)
  have q1: "q t1" by (rule q_io_send [OF assms(2) s])
  show ?thesis
  proof (cases "t0_procedure io pms t1")
    case None
    then show ?thesis using assms(1) s q1 by (cases r1) (auto simp: t0_fetch_def Let_def)
  next
    case (Some x)
    obtain r2 t2 where p: "t0_procedure io pms t1 = Some (r2, t2)" using Some by (cases x) auto
    have q2: "q t2" by (rule q_t0_procedure [OF p q1])
    let ?st = "st\<lparr>t0_get_response_count := t0_get_response_count st + 1\<rparr>"
    let ?n = "min (if sw2 = 0 then 256 else unat sw2) (length (t0_response st) - t0_response_len st)"
    obtain r3 s3 t3 where d: "t0_data io bms 0 ?n ?st t2 = (r3, s3, t3)" by (rule prod_cases3)
    have q3: "q t3" by (rule q_t0_data [OF d q2])
    obtain r4 t4 where w: "io_recv io [bms, bms] t3 = (r4, t4)" by (rule prod.exhaust)
    have q4: "q t4" by (rule q_io_recv [OF q3 w])
    have "t' = t1 \<or> t' = t2 \<or> t' = t3 \<or> t' = t4"
      using assms(1) s p d w
      by (cases r1; cases r2; cases r3; cases r4) (auto simp: t0_fetch_def Let_def split: if_splits)
    with q1 q2 q3 q4 show ?thesis by blast
  qed
qed

lemma q_t0_acknowledged:
  assumes "t0_acknowledged io pms bms st t = Some (nx, st', t')" and "q t"
  shows "q t'"
proof -
  obtain r1 t1 where s: "io_recv io [pms, bms] t = (r1, t1)" by (rule prod.exhaust)
  have "q t1" by (rule q_io_recv [OF assms(2) s])
  with assms(1) s q_t0_fetch show ?thesis
    by (cases r1) (auto simp: t0_acknowledged_def Let_def split: if_splits)
qed

lemma q_t0_dispatch:
  assumes "t0_dispatch io command pms bms pb st t = Some (nx, st', t')" and "q t"
  shows "q t'"
proof -
  obtain r1 t1 where s: "io_send io [command ! t0_body_offset st] t = (r1, t1)" by (rule prod.exhaust)
  obtain r2 t2 where p: "io_recv io [bms] t = (r2, t2)" by (rule prod.exhaust)
  have "q t1" "q t2" using q_io_send [OF assms(2) s] q_io_recv [OF assms(2) p] by simp_all
  with assms s p q_t0_acknowledged show ?thesis
    by (cases r1; cases r2) (auto simp: t0_dispatch_def Let_def split: if_splits)
qed

lemma q_t0_loop:
  assumes "t0_loop io command pms bms resend st t = Some (r, st', t')" and "q t"
  shows "q t'"
proof -
  let ?P = "\<lambda>io' command pms bms resend st t y. io' = io \<longrightarrow> q t \<longrightarrow> q (snd (snd y))"
  have "?P io command pms bms resend st t (r, st', t')"
  proof (rule t0_loop.raw_induct [where P = ?P, OF _ assms(1)], intro impI)
    fix tl io' command pms bms resend st t y
    assume ih: "\<And>io' command pms bms resend st t y. tl io' command pms bms resend st t = Some y \<Longrightarrow> ?P io' command pms bms resend st t y"
      and b: "(let (r, st, t) = (if resend then t0_send io' command st t else (Inr (), st, t)) in
          case r of
            Inl e \<Rightarrow> Some (Inl e, st, t)
          | Inr _ \<Rightarrow> do {
              (r, t) \<leftarrow> t0_procedure io' pms t;
              (case r of
                 Inl e \<Rightarrow> Some (Inl e, st, t)
               | Inr pb \<Rightarrow> do {
                   (nx, st, t) \<leftarrow> t0_dispatch io' command pms bms pb st t;
                   (case nx of
                      T0Return r \<Rightarrow> Some (r, st, t)
                    | T0Resend \<Rightarrow> tl io' command pms bms True st t
                    | T0Again \<Rightarrow> tl io' command pms bms False st t)
                 })
            }) = Some y" and eq: "io' = io" and qt: "q t"
    obtain r1 s1 t1 where s: "(if resend then t0_send io command st t else (Inr (), st, t)) = (r1, s1, t1)" by (rule prod_cases3)
    have q1: "q t1" using s qt q_t0_send by (auto split: if_splits)
    show "q (snd (snd y))"
    proof (cases r1)
      case (Inl e)
      then show ?thesis using b q1 unfolding eq s by (auto split: sum.splits)
    next
      case (Inr x)
      then obtain r2 t2 where p: "t0_procedure io pms t1 = Some (r2, t2)" using b unfolding eq s by (auto split: bind_splits)
      have q2: "q t2" by (rule q_t0_procedure [OF p q1])
      show ?thesis
      proof (cases r2)
        case (Inl e)
        then show ?thesis using b q2 \<open>r1 = Inr x\<close> unfolding eq s by (simp add: p) auto
      next
        case (Inr pb)
        then obtain nx s3 t3 where d: "t0_dispatch io command pms bms pb s1 t2 = Some (nx, s3, t3)"
          using b \<open>r1 = Inr x\<close> unfolding eq s by (auto simp: p split: bind_splits)
        have q3: "q t3" by (rule q_t0_dispatch [OF d q2])
        have "case nx of T0Return r \<Rightarrow> Some (r, s3, t3) = Some y
            | T0Resend \<Rightarrow> tl io command pms bms True s3 t3 = Some y | T0Again \<Rightarrow> tl io command pms bms False s3 t3 = Some y"
          using b \<open>r1 = Inr x\<close> Inr unfolding eq s by (simp add: p d split: t0_next.splits)
        with q3 ih show ?thesis by (auto split: t0_next.splits)
      qed
    qed
  qed
  with assms(2) show ?thesis by simp
qed

lemma q_contact_transmit_apdu:
  "contact_transmit_apdu io command response c t = Some (r, buf, t') \<Longrightarrow> q t \<Longrightarrow> q t'"
  by (auto simp: contact_transmit_apdu_def transmit_apdu_t0_def split: if_splits bind_splits
      dest: q_t0_loop q_transmit_raw [rotated])

end

section \<open>The wire speed\<close>

text \<open>What the driver relies on of the baud-rate register: it holds what was written, and nothing else changes it.\<close>

locale brr_register =
  fixes hw :: "'t usart_hw"
  assumes brr_written: "hw_read_reg hw BRR (hw_write_reg hw BRR (brr_bits v) t) = brr_bits v"
    and brr_other: "r \<noteq> BRR \<Longrightarrow> hw_read_reg hw BRR (hw_write_reg hw r x t) = hw_read_reg hw BRR t"
    and brr_read_sr: "hw_read_reg hw BRR (snd (hw_read_sr hw t)) = hw_read_reg hw BRR t"
    and brr_read_dr: "hw_read_reg hw BRR (snd (hw_read_dr hw t)) = hw_read_reg hw BRR t"
    and brr_write_dr: "hw_read_reg hw BRR (hw_write_dr hw w t) = hw_read_reg hw BRR t"
    and brr_pwr: "hw_read_reg hw BRR (hw_set_pwr hw b t) = hw_read_reg hw BRR t"
    and brr_rst: "hw_read_reg hw BRR (hw_set_rst hw b t) = hw_read_reg hw BRR t"
    and brr_delay: "hw_read_reg hw BRR (hw_delay hw n t) = hw_read_reg hw BRR t"
    and brr_cyccnt: "hw_read_reg hw BRR (snd (hw_cyccnt hw t)) = hw_read_reg hw BRR t"
begin

lemma brr_sr: "hw_read_sr hw t = (x, t') \<Longrightarrow> hw_read_reg hw BRR t' = hw_read_reg hw BRR t"
  using brr_read_sr [of t] by simp

lemma brr_dr: "hw_read_dr hw t = (x, t') \<Longrightarrow> hw_read_reg hw BRR t' = hw_read_reg hw BRR t"
  using brr_read_dr [of t] by simp

lemma brr_cyc: "hw_cyccnt hw t = (x, t') \<Longrightarrow> hw_read_reg hw BRR t' = hw_read_reg hw BRR t"
  using brr_cyccnt [of t] by simp

lemma brr_modify: "r \<noteq> BRR \<Longrightarrow> hw_read_reg hw BRR (modify_reg hw r f t) = hw_read_reg hw BRR t"
  by (simp add: modify_reg_def brr_other)

lemma brr_delay_ms: "hw_read_reg hw BRR (uart_delay_ms hw ms t) = hw_read_reg hw BRR t"
proof -
  have "hw_read_reg hw BRR ((hw_delay hw 168000 ^^ n) t) = hw_read_reg hw BRR t" for n
    by (induction n) (simp_all add: brr_delay)
  then show ?thesis by (simp add: uart_delay_ms_def)
qed

lemma brr_guard_time: "hw_read_reg hw BRR (set_guard_time hw gt t) = hw_read_reg hw BRR t"
  by (simp add: set_guard_time_def brr_modify)

lemma brr_clear_errors: "hw_read_reg hw BRR (clear_usart_errors hw t) = hw_read_reg hw BRR t"
  by (simp add: clear_usart_errors_def brr_read_dr brr_read_sr split: prod.split) (use brr_sr in blast)

lemmas brr_rules = brr_written brr_other brr_write_dr brr_pwr brr_rst brr_delay brr_modify brr_delay_ms brr_guard_time
  brr_clear_errors brr_read_sr brr_read_dr

lemma brr_drain:
  assumes "drain_rx hw bits t = Some t'"
  shows "hw_read_reg hw BRR t' = hw_read_reg hw BRR t"
proof -
  let ?P = "\<lambda>hw' bits t t'. hw' = hw \<longrightarrow> hw_read_reg hw BRR t' = hw_read_reg hw BRR t"
  have "?P hw bits t t'"
  proof (rule drain_rx.raw_induct [where P = ?P, OF _ assms], intro impI)
    fix d hw' bits t y
    assume ih: "\<And>hw' bits t y. d hw' bits t = Some y \<Longrightarrow> ?P hw' bits t y"
      and b: "(case hw_read_sr hw' t of
        (sr, t) \<Rightarrow> if sr AND bits \<noteq> 0 then d hw' bits (snd (hw_read_dr hw' t)) else Some t) = Some y" and eq: "hw' = hw"
    obtain sr t1 where sr: "hw_read_sr hw t = (sr, t1)" by (rule prod.exhaust)
    show "hw_read_reg hw BRR y = hw_read_reg hw BRR t"
      using b ih [of hw bits "snd (hw_read_dr hw t1)" y] brr_sr [OF sr] brr_read_dr [of t1]
      unfolding eq sr by (auto split: if_splits)
  qed
  then show ?thesis by simp
qed

lemma brr_tc_loop:
  assumes "tc_loop hw wd t = Some (b, t')"
  shows "hw_read_reg hw BRR t' = hw_read_reg hw BRR t"
proof -
  let ?P = "\<lambda>hw' wd t y. hw' = hw \<longrightarrow> hw_read_reg hw BRR (snd y) = hw_read_reg hw BRR t"
  have "?P hw wd t (b, t')"
  proof (rule tc_loop.raw_induct [where P = ?P, OF _ assms], intro impI)
    fix d hw' wd t y
    assume ih: "\<And>hw' wd t y. d hw' wd t = Some y \<Longrightarrow> ?P hw' wd t y"
      and b: "(case hw_read_sr hw' t of
        (sr, t) \<Rightarrow>
          if sr AND SR_TC \<noteq> 0 then Some (True, t)
          else (case hw_cyccnt hw' t of (now, t) \<Rightarrow> if watchdog_expired now wd then Some (False, t) else d hw' wd t)) = Some y"
      and eq: "hw' = hw"
    obtain sr t1 where sr: "hw_read_sr hw t = (sr, t1)" by (rule prod.exhaust)
    obtain now t2 where c: "hw_cyccnt hw t1 = (now, t2)" by (rule prod.exhaust)
    show "hw_read_reg hw BRR (snd y) = hw_read_reg hw BRR t"
      using b ih [of hw wd t2 y] brr_sr [OF sr] brr_cyc [OF c]
      unfolding eq sr prod.case c by (auto split: if_splits)
  qed
  then show ?thesis by simp
qed

lemma brr_send:
  assumes "uart_send_byte hw config b t = Some (r, t')"
  shows "hw_read_reg hw BRR t' = hw_read_reg hw BRR t"
proof -
  let ?t1 = "hw_write_dr hw (ucast b) (modify_reg hw CR1 (\<lambda>r. r AND NOT 0x04) t)"
  obtain now t2 where c: "hw_cyccnt hw ?t1 = (now, t2)" by (rule prod.exhaust)
  obtain ok t3 where l: "tc_loop hw (watchdog_start now (watchdog_from_ms (sc_byte_timeout_ms config) SYSCLK_HZ)) t2 = Some (ok, t3)"
    "t' = modify_reg hw CR1 (\<lambda>r. r OR 0x04) t3"
    using assms unfolding uart_send_byte_def Let_def c by (auto split: bind_splits)
  show ?thesis using l(2) brr_tc_loop [OF l(1)] brr_cyc [OF c] by (simp add: brr_rules)
qed

lemma brr_recv_loop: "recv_loop hw wd n t = (r, t') \<Longrightarrow> hw_read_reg hw BRR t' = hw_read_reg hw BRR t"
proof (induction n arbitrary: t)
  case (Suc n)
  obtain sr t1 where sr: "hw_read_sr hw t = (sr, t1)" by (rule prod.exhaust)
  obtain w t2 where d: "hw_read_dr hw t1 = (w, t2)" by (rule prod.exhaust)
  obtain now t3 where c: "hw_cyccnt hw t1 = (now, t3)" by (rule prod.exhaust)
  have "t' = t2 \<or> t' = snd (hw_read_sr hw t3) \<or> recv_loop hw wd n t3 = (r, t')"
    using Suc.prems by (auto simp: sr d c split: if_splits)
  then show ?case using Suc.IH [of t3] brr_sr [OF sr] brr_dr [OF d] brr_cyc [OF c] brr_read_sr [of t3] by auto
qed simp

lemma brr_receive: "receive_byte_timeout hw ms t = (r, t') \<Longrightarrow> hw_read_reg hw BRR t' = hw_read_reg hw BRR t"
  by (auto simp: receive_byte_timeout_def dest!: brr_recv_loop brr_cyc split: prod.splits)

end

text \<open>The byte line on the peripheral keeps the speed, and so does every exchange over it.\<close>

definition line_at :: "'t usart_hw \<Rightarrow> u32 set \<Rightarrow> 't option \<Rightarrow> bool" where
  "line_at hw V t = (case t of None \<Rightarrow> True | Some t \<Rightarrow> hw_read_reg hw BRR t \<in> V)"

sublocale brr_register \<subseteq> speed: line_invariant "uart_io hw config" "line_at hw V"
  by unfold_locales
    (auto simp: uart_io_def line_at_def map_prod_def brr_send brr_receive brr_drain split: option.splits prod.splits bind_splits
      dest: brr_send brr_receive brr_drain)

definition default_brr :: "'t smartcard_uart \<Rightarrow> u32 outcome" where
  "default_brr u = do { b \<leftarrow> default_baud u; div32 (su_pclk1_hz u) b }"

text \<open>The driver with its constants, at a speed in \<open>V\<close>, and without a negotiated speed.\<close>

definition uart_at :: "'t usart_hw \<Rightarrow> smartcard_config \<Rightarrow> u32 \<Rightarrow> u32 set \<Rightarrow> 't smartcard_uart \<Rightarrow> bool" where
  "uart_at hw config D V u \<longleftrightarrow>
     ct_config (su_ct u) = config \<and> default_brr u = Some D \<and> \<not> ct_pps_speedup_active (su_ct u) \<and>
     hw_read_reg hw BRR (su_line u) \<in> V"

lemma default_brr_upd [simp]:
  "default_brr (u\<lparr>su_line := t\<rparr>) = default_brr u" "default_brr (u\<lparr>su_atr := a\<rparr>) = default_brr u"
  "default_brr (u\<lparr>su_ifsc := i\<rparr>) = default_brr u" "default_brr (u\<lparr>su_t1_ns := i\<rparr>) = default_brr u"
  "default_brr (u\<lparr>su_pps_suppress_once := b\<rparr>) = default_brr u" "default_brr (on_hw f u) = default_brr u"
  by (simp_all add: default_brr_def default_baud_def on_hw_def)

lemma default_brr_on_ct [simp]:
  "(\<And>c. ct_card_clk_hz (f c) = ct_card_clk_hz c) \<Longrightarrow> (\<And>c. ct_config (f c) = ct_config c) \<Longrightarrow>
     default_brr (on_ct f u) = default_brr u"
  by (simp add: default_brr_def default_baud_def on_ct_def)

lemma on_simps [simp]:
  "su_line (on_hw g u) = g (su_line u)" "su_ct (on_hw g u) = su_ct u" "su_line (on_ct f u) = su_line u"
  "su_ct (on_ct f u) = f (su_ct u)" "su_atr (on_hw g u) = su_atr u" "su_atr (on_ct f u) = su_atr u"
  "su_pps_suppress_once (on_hw g u) = su_pps_suppress_once u"
  by (simp_all add: on_hw_def on_ct_def)

lemma reset_baud_eq: "default_brr u = Some D \<Longrightarrow> reset_baud_default hw u = Some (on_hw (hw_write_reg hw BRR (brr_bits D)) u)"
  by (auto simp: reset_baud_default_def default_brr_def split: bind_splits)

context brr_register
begin

lemma at_reset:
  assumes "uart_at hw config D V u" and "V' = {brr_bits D}"
  shows "\<exists>u'. reset_baud_default hw u = Some u' \<and> uart_at hw config D V' u' \<and> su_atr u' = su_atr u \<and>
    su_pps_suppress_once u' = su_pps_suppress_once u"
  using assms by (auto simp: uart_at_def reset_baud_eq brr_rules)

lemma at_on_line:
  assumes "on_line f u = Some (r, u')" and "uart_at hw config D V u"
    and "\<And>t r t'. line_at hw V t \<Longrightarrow> f t = (r, t') \<Longrightarrow> line_at hw V t'"
  shows "uart_at hw config D V u'"
proof -
  obtain t where "f (Some (su_line u)) = (r, Some t)" "u' = u\<lparr>su_line := t\<rparr>"
    using assms(1) by (auto simp: on_line_def split: prod.splits option.splits)
  moreover from this assms(3) [of "Some (su_line u)"] assms(2) have "line_at hw V (Some t)"
    by (simp add: line_at_def uart_at_def)
  ultimately show ?thesis using assms(2) by (simp add: uart_at_def line_at_def)
qed

lemma at_power_off:
  assumes "uart_at hw config D V u" and "uart_power_off hw u = Some u'"
  shows "uart_at hw config D {brr_bits D} u'"
  using assms by (auto simp: uart_at_def uart_power_off_def reset_baud_eq brr_rules)

lemma at_negotiate:
  assumes "uart_at hw config D V u" and "uart_negotiate_pps (uart_io hw config) hw params s u = Some (r, u')"
  shows "uart_at hw config D V u'"
proof (cases "\<not> ap_has_ta1 params \<or> ap_ta1 params = DEFAULT_TA1")
  case False
  obtain req f where f: "build_minimal_request (ap_protocol params) pps_new = Some (req, f)"
    using assms(2) False by (auto simp: uart_negotiate_pps_def PPS_APPLY_NEGOTIATED_BAUD_def split: bind_splits)
  obtain r1 u1 where s: "on_line (io_send (uart_io hw config) req) u = Some (r1, u1)"
    using assms(2) False f by (auto simp: uart_negotiate_pps_def PPS_APPLY_NEGOTIATED_BAUD_def split: bind_splits)
  have u1: "uart_at hw config D V u1" by (rule at_on_line [OF s assms(1) speed.q_io_send])
  show ?thesis
  proof (cases r1)
    case (Inl e)
    then show ?thesis using assms(2) False f s u1 by (auto simp: uart_negotiate_pps_def PPS_APPLY_NEGOTIATED_BAUD_def)
  next
    case (Inr x)
    obtain t1 r2 t2 where d: "drain_rx hw (SR_RXNE OR SR_ORE) (uart_delay_ms hw 2 (su_line u1)) = Some t1"
      "negotiate_loop (uart_io hw config) 200 (start_response f) (Some (clear_usart_errors hw t1)) = Some (r2, Some t2)"
      "u' = u1\<lparr>su_line := t2\<rparr>"
      using assms(2) False f s Inr
      by (auto simp: uart_negotiate_pps_def PPS_APPLY_NEGOTIATED_BAUD_def split: bind_splits)
    have "line_at hw V (Some (clear_usart_errors hw t1))"
      using u1 brr_drain [OF d(1)] by (simp add: line_at_def uart_at_def brr_rules)
    from speed.q_negotiate_loop [OF d(2) this] show ?thesis using u1 d(3) by (simp add: line_at_def uart_at_def)
  qed
qed (use assms in \<open>simp add: uart_negotiate_pps_def\<close>)

lemma at_ladder:
  assumes "uart_at hw config D V u" and "ifs_ladder (uart_io hw config) hw u = Some (b, u')"
  shows "\<not> b \<and> uart_at hw config D V u'"
proof -
  obtain r1 u1 where s: "on_line (do_ifs_negotiation_t1 (uart_io hw config)) u = Some (r1, u1)"
    using assms(2) by (auto simp: ifs_ladder_def split: bind_splits)
  have u1: "uart_at hw config D V u1" by (rule at_on_line [OF s assms(1) speed.q_do_ifs])
  then show ?thesis using assms(2) s by (auto simp: ifs_ladder_def uart_at_def split: sum.splits if_splits)
qed

lemma at_accept:
  assumes "uart_at hw config D V u" and "accept_atr (uart_io hw config) hw s u = Some (r, u')"
  shows "r \<noteq> Inr True \<and> uart_at hw config D V u'"
proof -
  define params where "params = fw_parse_atr (su_atr u)"
  define protocol where "protocol = detect_protocol_from_atr (su_atr u)"
  define u1 where "u1 = on_ct (\<lambda>c. c\<lparr>ct_powered := True, ct_t1_bwi := ap_bwi params, ct_t1_cwi := ap_cwi params,
    ct_protocol := protocol\<rparr>) u"
  have u1: "uart_at hw config D V u1" "su_atr u1 = su_atr u" using assms(1) by (simp_all add: uart_at_def u1_def)
  note body = assms(2) [unfolded accept_atr_def Let_def params_def [symmetric] protocol_def [symmetric] u1_def [symmetric]]
  show ?thesis
  proof (cases "fw_verify_atr_tck (su_atr u1) protocol")
    case False
    then show ?thesis using body u1 by (auto simp: uart_at_def)
  next
    case True
    obtain r2 u2 where p: "uart_negotiate_pps (uart_io hw config) hw params s u1 = Some (r2, u2)"
      using body True u1(2) by (auto split: bind_splits)
    have u2: "uart_at hw config D V u2" by (rule at_negotiate [OF u1(1) p])
    define u3 where "u3 = (if protocol = 0 then on_hw (modify_reg hw CR3 (\<lambda>r. r OR 0x10)) u2 else u2)"
    have u3: "uart_at hw config D V u3" using u2 by (simp add: u3_def uart_at_def brr_rules)
    define n where "n = (if ap_guard_time_n params = 0 then ucast GUARD_TIME_DEFAULT_N else ap_guard_time_n params)"
    define u4 where "u4 = on_hw (set_guard_time hw (snd (t1_usart_framing n))) (u3\<lparr>su_ifsc := ap_ifsc params\<rparr>)"
    have u4: "uart_at hw config D V u4" using u3 by (simp add: u4_def uart_at_def brr_rules)
    show ?thesis
    proof (cases "protocol = 1")
      case t1: True
      have "u4 = on_hw (set_guard_time hw (snd (t1_usart_framing n))) (u2\<lparr>su_ifsc := ap_ifsc params\<rparr>)"
        using t1 by (simp add: u4_def u3_def)
      then obtain b u5 where "ifs_ladder (uart_io hw config) hw u4 = Some (b, u5)" "r = Inr b" "u' = u5"
        using body True u1(2) p t1 by (auto simp: n_def [symmetric] split: bind_splits)
      then show ?thesis using at_ladder [OF u4] by auto
    next
      case t0: False
      then show ?thesis using body True u1(2) p u3 by (auto simp: u3_def [symmetric])
    qed
  qed
qed

lemma brr_wait_ts: "wait_ts hw n t = (b, t') \<Longrightarrow> hw_read_reg hw BRR t' = hw_read_reg hw BRR t"
proof (induction n arbitrary: t)
  case 0
  then show ?case using brr_sr [of t] by (subst (asm) wait_ts.simps) (auto simp: Let_def brr_rules split: prod.splits if_splits)
next
  case (Suc n)
  obtain sr t1 where sr: "hw_read_sr hw t = (sr, t1)" by (rule prod.exhaust)
  have "t' = t1 \<or> t' = snd (hw_read_sr hw (uart_delay_ms hw 1 t1)) \<or> wait_ts hw n (uart_delay_ms hw 1 t1) = (b, t')"
    using Suc.prems by (subst (asm) wait_ts.simps) (auto simp: sr Let_def split: if_splits nat.splits)
  then show ?case using Suc.IH [of "uart_delay_ms hw 1 t1"] brr_sr [OF sr] by (auto simp: brr_rules)
qed

lemma brr_atr_loop:
  assumes "atr_loop hw wd atr t = Some (r, t')"
  shows "hw_read_reg hw BRR t' = hw_read_reg hw BRR t"
proof -
  let ?P = "\<lambda>hw' wd atr t y. hw' = hw \<longrightarrow> hw_read_reg hw BRR (snd y) = hw_read_reg hw BRR t"
  have "?P hw wd atr t (r, t')"
  proof (rule atr_loop.raw_induct [where P = ?P, OF _ assms], intro impI)
    fix d hw' wd atr t y
    assume ih: "\<And>hw' wd atr t y. d hw' wd atr t = Some y \<Longrightarrow> ?P hw' wd atr t y"
      and b: "(case hw_read_sr hw' t of
        (sr, t) \<Rightarrow>
          if sr AND SR_RXNE \<noteq> 0 \<or> sr AND SR_ORE \<noteq> 0 then
            (case hw_read_dr hw' t of
               (w, t) \<Rightarrow>
                 let b = ucast w in
                 if atr = [] \<and> b = 0 then d hw' wd atr t
                 else
                   (case hw_cyccnt hw' t of
                      (now, t) \<Rightarrow>
                        d hw' (watchdog_start now wd) (if length atr < SC_ATR_MAX_LEN then atr @ [b] else atr) t))
          else
            (case hw_cyccnt hw' t of
               (now, t) \<Rightarrow>
                 if watchdog_expired now wd
                 then Some (if atr \<noteq> [] then Inr atr else Inl ScInvalidATR, t)
                 else d hw' wd atr t)) = Some y"
      and eq: "hw' = hw"
    obtain sr t1 where sr: "hw_read_sr hw t = (sr, t1)" by (rule prod.exhaust)
    obtain w t2 where w: "hw_read_dr hw t1 = (w, t2)" by (rule prod.exhaust)
    obtain now t3 where c: "hw_cyccnt hw t2 = (now, t3)" by (rule prod.exhaust)
    obtain now' t4 where c': "hw_cyccnt hw t1 = (now', t4)" by (rule prod.exhaust)
    have "snd y = t4 \<or> d hw wd atr t2 = Some y \<or> d hw wd atr t4 = Some y \<or>
        d hw (watchdog_start now wd) (if length atr < SC_ATR_MAX_LEN then atr @ [ucast w] else atr) t3 = Some y"
      using b unfolding eq sr prod.case w c c' Let_def by (auto split: if_splits)
    then show "hw_read_reg hw BRR (snd y) = hw_read_reg hw BRR t"
      using ih [of hw] brr_sr [OF sr] brr_dr [OF w] brr_cyc [OF c] brr_cyc [OF c'] by (elim disjE) auto
  qed
  then show ?thesis by simp
qed

lemma at_read_atr:
  assumes "uart_at hw config D V u" and "read_atr hw u = Some (r, u')"
  shows "uart_at hw config D V u'"
proof -
  define n where "n = (if sc_atr_timeout_ms (ct_config (su_ct u)) = 0 then 2 ^ 32 else unat (sc_atr_timeout_ms (ct_config (su_ct u))))"
  obtain sr t1 where sr: "hw_read_sr hw (su_line u) = (sr, t1)" by (rule prod.exhaust)
  define t2 where "t2 = (if sr AND SR_ORE \<noteq> 0 \<and> sr AND SR_RXNE = 0 then snd (hw_read_dr hw t1) else t1)"
  obtain ready t3 where ts: "wait_ts hw n t2 = (ready, t3)" by (rule prod.exhaust)
  obtain now t4 where c: "hw_cyccnt hw t3 = (now, t4)" by (rule prod.exhaust)
  have t4: "hw_read_reg hw BRR t3 = hw_read_reg hw BRR (su_line u)" "hw_read_reg hw BRR t4 = hw_read_reg hw BRR (su_line u)"
    using brr_sr [OF sr] brr_wait_ts [OF ts] brr_cyc [OF c] by (simp_all add: t2_def brr_rules)
  note body = assms(2) [unfolded read_atr_def Let_def sr prod.case t2_def [symmetric] n_def [symmetric] ts c]
  show ?thesis
  proof (cases ready)
    case True
    obtain ra t5 where l: "atr_loop hw (watchdog_start now (watchdog_from_ms 50 SYSCLK_HZ)) [] t4 = Some (ra, t5)"
      using body True by (auto split: bind_splits)
    show ?thesis using body True l t4 brr_atr_loop [OF l] assms(1) by (auto simp: uart_at_def split: sum.splits)
  qed (use body t4 assms(1) in \<open>auto simp: uart_at_def\<close>)
qed

lemma at_cold_reset:
  assumes "uart_at hw config D V u" and "cold_reset hw u = Some (s, u')"
  shows "uart_at hw config D {brr_bits D} u'"
  using assms
  by (auto simp: uart_at_def cold_reset_def reset_baud_eq brr_rules split: bind_splits dest!: brr_drain)

lemma at_power_on:
  assumes "uart_at hw config D V u" and "uart_power_on (uart_io hw config) hw u = Some (r, u')" and "brr_bits D \<in> V"
  shows "uart_at hw config D V u'"
proof (cases "uart_is_card_present hw u")
  case True
  obtain s u1 where c: "cold_reset hw u = Some (s, u1)"
    using assms(2) True by (subst (asm) uart_power_on.simps) (auto split: bind_splits)
  have u1: "uart_at hw config D V u1" using at_cold_reset [OF assms(1) c] assms(3) by (auto simp: uart_at_def)
  obtain r2 u2 where a: "read_atr hw u1 = Some (r2, u2)"
    using assms(2) True c by (subst (asm) uart_power_on.simps) (auto split: bind_splits)
  have u2: "uart_at hw config D V u2" by (rule at_read_atr [OF u1 a])
  show ?thesis
  proof (cases r2)
    case (Inl e)
    then show ?thesis using assms(2) True c a u2 by (subst (asm) uart_power_on.simps) auto
  next
    case (Inr x)
    obtain r3 u3 where p: "accept_atr (uart_io hw config) hw s u2 = Some (r3, u3)"
      using assms(2) True c a Inr by (subst (asm) uart_power_on.simps) (auto split: bind_splits)
    have u3: "r3 \<noteq> Inr True" "uart_at hw config D V u3" using at_accept [OF u2 p] by simp_all
    have "u' = u3"
      using assms(2) True c a Inr p u3(1) by (subst (asm) uart_power_on.simps) (auto split: sum.splits if_splits)
    with u3 show ?thesis by simp
  qed
qed (use assms in \<open>simp add: uart_power_on.simps\<close>)

lemma at_transmit_apdu:
  assumes "uart_at hw config D V u" and "uart_transmit_apdu (uart_io hw config) cmd buf u = Some (r, buf', u')"
  shows "uart_at hw config D V u'"
proof -
  obtain t where t: "contact_transmit_apdu (uart_io hw config) cmd buf (su_ct u) (Some (su_line u)) = Some (r, buf', Some t)"
    "u' = u\<lparr>su_line := t\<rparr>"
    using assms(2) by (auto simp: uart_transmit_apdu_def split: bind_splits)
  have "line_at hw V (Some t)"
    by (rule speed.q_contact_transmit_apdu [OF t(1)]) (use assms(1) in \<open>simp add: line_at_def uart_at_def\<close>)
  then show ?thesis using assms(1) t(2) by (simp add: line_at_def uart_at_def)
qed

lemma at_transmit_raw:
  assumes "uart_at hw config D V u" and "uart_transmit_raw (uart_io hw config) data buf u = Some (r, buf', u')"
  shows "uart_at hw config D V u'"
proof -
  obtain t where t: "transmit_raw (uart_io hw config) data buf (su_ct u) (Some (su_line u)) = (r, buf', Some t)"
    "u' = u\<lparr>su_line := t\<rparr>"
    using assms(2) by (auto simp: uart_transmit_raw_def split: prod.splits option.splits)
  have "line_at hw V (Some t)"
    by (rule speed.q_transmit_raw [OF _ t(1)]) (use assms(1) in \<open>simp add: line_at_def uart_at_def\<close>)
  then show ?thesis using assms(1) t(2) by (simp add: line_at_def uart_at_def)
qed

text \<open>The parameters the host sets move the guard time only.\<close>

lemma at_wire_timing:
  assumes "uart_at hw config D V u"
  shows "\<exists>u'. uart_set_wire_timing hw fi di n u = Some u' \<and> uart_at hw config D V u' \<and> su_ct u' = su_ct u"
proof -
  let ?u = "on_hw (set_guard_time hw (snd (t1_usart_framing n))) u"
  have "uart_set_wire_timing hw fi di n u = Some ?u"
    using assms by (auto simp: uart_set_wire_timing_def uart_at_def Let_def)
  then show ?thesis using assms by (simp add: uart_at_def brr_rules)
qed

lemma at_track:
  assumes "uart_at hw config D V (sw_uart w)" and "brr_bits D \<in> V"
    and "track_transmit (uart_io hw config) hw res w = Some (r, w')"
  shows "uart_at hw config D V (sw_uart w')"
proof -
  define oc where "oc = (case res of Inl _ \<Rightarrow> OutcomeFailure | Inr n \<Rightarrow> if n = 0 then OutcomeMute else OutcomeSuccess)"
  obtain reinit heal where h: "tracker_record oc (sw_heal w) = (reinit, heal)" by (rule prod.exhaust)
  note body = assms(3) [unfolded track_transmit_def Let_def oc_def [symmetric] h prod.case]
  show ?thesis
  proof (cases reinit)
    case True
    obtain u1 r2 u2 where o: "uart_power_off hw (sw_uart w) = Some u1"
      "uart_power_on (uart_io hw config) hw u1 = Some (r2, u2)" "sw_uart w' = u2"
      using body True by (auto split: bind_splits)
    have "uart_at hw config D V u1" using at_power_off [OF assms(1) o(1)] assms(2) by (auto simp: uart_at_def)
    then show ?thesis using at_power_on [OF _ o(2) assms(2)] o(3) by simp
  qed (use body assms(1) in auto)
qed

end

section \<open>Sequences of driver calls\<close>

datatype driver_call =
  CallPowerOn | CallPowerOff | CallTransmitApdu bytes bytes | CallTransmitRaw bytes bytes | CallSetProtocol u8
| CallSetClock bool | CallSetRate u32 u32 | CallSetTiming u16 u8 u8 | CallTakeReinit

fun apply_call :: "('d, 'e) smartcard_ops \<Rightarrow> driver_call \<Rightarrow> 'd \<Rightarrow> 'd" where
  "apply_call sc CallPowerOn d = snd (sc_power_on sc d)"
| "apply_call sc CallPowerOff d = sc_power_off sc d"
| "apply_call sc (CallTransmitApdu cmd buf) d = snd (snd (sc_transmit_apdu sc d cmd buf))"
| "apply_call sc (CallTransmitRaw cmd buf) d = snd (snd (sc_transmit_raw sc d cmd buf))"
| "apply_call sc (CallSetProtocol p) d = sc_set_protocol sc p d"
| "apply_call sc (CallSetClock b) d = sc_set_clock sc b d"
| "apply_call sc (CallSetRate c r) d = snd (sc_set_clock_and_rate sc c r d)"
| "apply_call sc (CallSetTiming fi di n) d = sc_set_wire_timing sc fi di n d"
| "apply_call sc CallTakeReinit d = snd (sc_take_reinit_pending sc d)"

text \<open>Whether the host has set a data rate since the last power-off.\<close>

fun rate_set :: "bool \<Rightarrow> driver_call list \<Rightarrow> bool" where
  "rate_set b [] = b"
| "rate_set b (c # cs) = rate_set (case c of CallSetRate _ _ \<Rightarrow> True | CallPowerOff \<Rightarrow> False | _ \<Rightarrow> b) cs"

definition speeds :: "bool \<Rightarrow> u32 \<Rightarrow> u32 set" where
  "speeds b D = (if b then UNIV else {brr_bits D})"

lemma default_in_speeds: "brr_bits D \<in> speeds b D"
  by (simp add: speeds_def)

lemma apply_call_stuck: "apply_call (wrapper_sc io hw) c None = None"
  by (cases c) (simp_all add: wrapper_sc_def or_stuck_def or_stuck_transmit_def)

lemma run_stuck: "fold (apply_call (wrapper_sc io hw)) cs None = None"
  by (induction cs) (simp_all add: apply_call_stuck)

context brr_register
begin

lemma at_call:
  assumes "uart_at hw config D (speeds b D) (sw_uart w)"
    and "apply_call (wrapper_sc (uart_io hw config) hw) c (Some w) = Some w'"
  shows "uart_at hw config D (speeds (case c of CallSetRate _ _ \<Rightarrow> True | CallPowerOff \<Rightarrow> False | _ \<Rightarrow> b) D) (sw_uart w')"
proof (cases c)
  case CallPowerOn
  then show ?thesis using assms at_power_on default_in_speeds
    by (auto simp: wrapper_sc_def or_stuck_def wrapper_power_on_def split: option.splits bind_splits)
next
  case CallPowerOff
  then show ?thesis using assms at_power_off
    by (auto simp: wrapper_sc_def wrapper_power_off_def speeds_def split: bind_splits)
next
  case (CallTransmitApdu cmd buf)
  then obtain r buf' u r' where u: "uart_transmit_apdu (uart_io hw config) cmd buf (sw_uart w) = Some (r, buf', u)"
    "track_transmit (uart_io hw config) hw r (w\<lparr>sw_uart := u\<rparr>) = Some (r', w')"
    using assms(2) by (auto simp: wrapper_sc_def or_stuck_transmit_def wrapper_transmit_def split: option.splits bind_splits)
  have "uart_at hw config D (speeds b D) u" by (rule at_transmit_apdu [OF assms(1) u(1)])
  then show ?thesis using at_track [OF _ default_in_speeds u(2)] CallTransmitApdu by simp
next
  case (CallTransmitRaw cmd buf)
  then obtain r buf' u r' where u: "uart_transmit_raw (uart_io hw config) cmd buf (sw_uart w) = Some (r, buf', u)"
    "track_transmit (uart_io hw config) hw r (w\<lparr>sw_uart := u\<rparr>) = Some (r', w')"
    using assms(2) by (auto simp: wrapper_sc_def or_stuck_transmit_def wrapper_transmit_def split: option.splits bind_splits)
  have "uart_at hw config D (speeds b D) u" by (rule at_transmit_raw [OF assms(1) u(1)])
  then show ?thesis using at_track [OF _ default_in_speeds u(2)] CallTransmitRaw by simp
next
  case (CallSetProtocol p)
  then show ?thesis using assms by (auto simp: wrapper_sc_def uart_set_protocol_def uart_at_def)
next
  case (CallSetClock e)
  then show ?thesis using assms by (auto simp: wrapper_sc_def uart_set_clock_def uart_at_def brr_rules)
next
  case (CallSetRate clk rate)
  then obtain r u where u: "uart_set_clock_and_rate hw clk rate (sw_uart w) = Some (r, u)" "sw_uart w' = u"
    using assms(2) by (auto simp: wrapper_sc_def or_stuck_def split: option.splits bind_splits)
  have "su_ct u = su_ct (sw_uart w) \<and> default_brr u = default_brr (sw_uart w)"
    using u(1) by (auto simp: uart_set_clock_and_rate_def Let_def split: if_splits bind_splits)
  then show ?thesis using assms(1) CallSetRate u(2) by (simp add: uart_at_def speeds_def)
next
  case (CallSetTiming fi di n)
  then show ?thesis using assms at_wire_timing [OF assms(1), of fi di n]
    by (auto simp: wrapper_sc_def split: bind_splits)
next
  case CallTakeReinit
  then show ?thesis using assms by (auto simp: wrapper_sc_def split: prod.splits)
qed

lemma at_run:
  "uart_at hw config D (speeds b D) (sw_uart w) \<Longrightarrow>
     fold (apply_call (wrapper_sc (uart_io hw config) hw)) cs (Some w) = Some w' \<Longrightarrow>
     uart_at hw config D (speeds (rate_set b cs) D) (sw_uart w')"
proof (induction cs arbitrary: b w)
  case (Cons c cs)
  then obtain w1 where w1: "apply_call (wrapper_sc (uart_io hw config) hw) c (Some w) = Some w1"
    by (cases "apply_call (wrapper_sc (uart_io hw config) hw) c (Some w)") (auto simp: run_stuck)
  from Cons.IH [OF at_call [OF Cons.prems(1) w1]] Cons.prems(2) w1 show ?case by simp
qed simp

lemma at_new:
  assumes "uart_new hw pclk1 config t = Some u"
  shows "\<exists>D. uart_at hw config D (speeds False D) u"
  using assms
  by (auto simp: uart_new_def init_usart_def Let_def uart_at_def speeds_def default_brr_def brr_rules default_baud_def
      on_hw_def on_ct_def split: bind_splits)

end

text \<open>C24: The host's parameters never move the wire off the speed of the ATR.  From power-up, after any
  sequence of activations, deactivations, exchanges, self-healing restarts and accepted parameters, no
  negotiated speed is in force, and the baud-rate register holds the value it was initialised with, unless
  the host has set a data rate explicitly since the last power-off.\<close>

theorem wire_speed_kept:
  assumes "brr_register hw" and "uart_new hw pclk1 config t = Some u"
    and "fold (apply_call (wrapper_sc (uart_io hw config) hw)) calls (Some (wrapper_new u)) = Some w"
  shows "\<not> ct_pps_speedup_active (su_ct (sw_uart w)) \<and>
    (\<not> rate_set False calls \<longrightarrow> hw_read_reg hw BRR (su_line (sw_uart w)) = hw_read_reg hw BRR (su_line u))"
proof -
  obtain D where D: "uart_at hw config D (speeds False D) u" using brr_register.at_new [OF assms(1,2)] by blast
  from brr_register.at_run [OF assms(1) _ assms(3), of D False] D
  have "uart_at hw config D (speeds (rate_set False calls) D) (sw_uart w)" by (simp add: wrapper_new_def)
  with D show ?thesis by (auto simp: uart_at_def speeds_def)
qed

section \<open>A simulated peripheral\<close>

text \<open>Registers that hold what is written, a queue of received bytes, and a cycle counter that every look advances.\<close>

record usart_sim =
  um_regs :: "usart_reg \<Rightarrow> u32"
  um_rx :: bytes
  um_cyc :: u32

definition sim_hw :: "usart_sim usart_hw" where
  "sim_hw =
     \<lparr>hw_read_sr = (\<lambda>t. (if um_rx t = [] then SR_TC else SR_TC OR SR_RXNE, t)),
      hw_read_dr = (\<lambda>t. case um_rx t of [] \<Rightarrow> (0, t) | b # bs \<Rightarrow> (ucast b, t\<lparr>um_rx := bs\<rparr>)),
      hw_write_dr = (\<lambda>_ t. t), hw_read_reg = (\<lambda>r t. um_regs t r),
      hw_write_reg = (\<lambda>r v t. t\<lparr>um_regs := (um_regs t)(r := v)\<rparr>), hw_enable_clock = (\<lambda>t. t),
      hw_card_present = (\<lambda>_. True), hw_set_pwr = (\<lambda>_ t. t), hw_set_rst = (\<lambda>_ t. t), hw_delay = (\<lambda>_ t. t),
      hw_cyccnt = (\<lambda>t. (um_cyc t, t\<lparr>um_cyc := um_cyc t + 1000\<rparr>))\<rparr>"

interpretation sim: brr_register sim_hw
  by unfold_locales (simp_all add: sim_hw_def split: list.split)

theorem wire_speed_kept_witness:
  "\<exists>u w. uart_new sim_hw 42000000 SMARTCARD_CONFIG_DEFAULT \<lparr>um_regs = (\<lambda>_. 0), um_rx = [], um_cyc = 0\<rparr> = Some u \<and>
     fold (apply_call (wrapper_sc (uart_io sim_hw SMARTCARD_CONFIG_DEFAULT) sim_hw))
       [CallSetProtocol 1, CallSetTiming 512 8 2] (Some (wrapper_new u)) = Some w \<and>
     hw_read_reg sim_hw BRR (su_line (sw_uart w)) = hw_read_reg sim_hw BRR (su_line u)"
proof -
  let ?t = "\<lparr>um_regs = (\<lambda>_. 0), um_rx = [], um_cyc = 0\<rparr>"
  obtain u where u: "uart_new sim_hw 42000000 SMARTCARD_CONFIG_DEFAULT ?t = Some u"
    by (simp add: uart_new_def init_usart_def Let_def div32_def default_baud_def SMARTCARD_CONFIG_DEFAULT_def on_ct_def on_hw_def
        min_def max_def word_le_nat_alt)
  obtain D where D: "uart_at sim_hw SMARTCARD_CONFIG_DEFAULT D (speeds False D) u" using sim.at_new [OF u] by blast
  have "uart_at sim_hw SMARTCARD_CONFIG_DEFAULT D (speeds False D) (uart_set_protocol 1 u)"
    using D by (simp add: uart_at_def uart_set_protocol_def)
  from sim.at_wire_timing [OF this] obtain u' where "uart_set_wire_timing sim_hw 512 8 2 (uart_set_protocol 1 u) = Some u'" by blast
  then obtain w where w: "fold (apply_call (wrapper_sc (uart_io sim_hw SMARTCARD_CONFIG_DEFAULT) sim_hw))
       [CallSetProtocol 1, CallSetTiming 512 8 2] (Some (wrapper_new u)) = Some w"
    by (simp add: wrapper_sc_def wrapper_new_def)
  with u wire_speed_kept [OF sim.brr_register_axioms u w] show ?thesis by auto
qed

end
