(* ===== verification/Bitbang.thy ===== *)
theory Bitbang
  imports Contact_Link T1_Engine Usb_Handler
begin

text \<open>
  The bit-banged contact driver (\<open>firmware/ccid-firmware/src/smartcard_bitbang.rs\<close>): characters sampled and
  driven on one pin by the cycle counter, activation, ATR reception, the exchanges, the diagnostic buffer and
  the wrapper of \<open>main.rs\<close> that gives it to the USB handler.  The hardware is the argument \<open>hw\<close>: pins, cycle
  counter, delays, the interrupt mask, and the timer that clocks the card, which is programmed as a whole.  No
  result means a panic or a call that does not return.
\<close>

section \<open>Constants and hardware\<close>

abbreviation (input) BB_SYSCLK_HZ :: u32 where "BB_SYSCLK_HZ \<equiv> 216000000"
abbreviation (input) CARD_CLK_HZ :: u32 where "CARD_CLK_HZ \<equiv> 5000000"
abbreviation (input) FI_DEFAULT :: u32 where "FI_DEFAULT \<equiv> 372"
abbreviation (input) DI_DEFAULT :: u32 where "DI_DEFAULT \<equiv> 1"
abbreviation (input) ETU_CPU_CYCLES :: u32 where "ETU_CPU_CYCLES \<equiv> (BB_SYSCLK_HZ div CARD_CLK_HZ) * FI_DEFAULT div DI_DEFAULT"
abbreviation (input) GPIO_CLK_HALF_CYCLES :: u32 where "GPIO_CLK_HALF_CYCLES \<equiv> BB_SYSCLK_HZ div (CARD_CLK_HZ * 2)"
abbreviation (input) SC_ATR_TIMEOUT_CYCLES :: u32 where "SC_ATR_TIMEOUT_CYCLES \<equiv> BB_SYSCLK_HZ * 4"
abbreviation (input) SC_ATR_BYTE_TIMEOUT_CYCLES :: u32 where "SC_ATR_BYTE_TIMEOUT_CYCLES \<equiv> BB_SYSCLK_HZ div 25"
abbreviation (input) SC_BYTE_TIMEOUT_CYCLES :: u32 where "SC_BYTE_TIMEOUT_CYCLES \<equiv> BB_SYSCLK_HZ div 20"
abbreviation (input) SC_PROCEDURE_TIMEOUT_CYCLES :: u32 where "SC_PROCEDURE_TIMEOUT_CYCLES \<equiv> BB_SYSCLK_HZ * 9"
abbreviation (input) SC_POWER_ON_DELAY_MS :: nat where "SC_POWER_ON_DELAY_MS \<equiv> 50"
abbreviation (input) SC_CLK_TO_RST_DELAY_CARD_CLKS :: nat where "SC_CLK_TO_RST_DELAY_CARD_CLKS \<equiv> 50000"
abbreviation (input) DIAG_BUF_SIZE :: nat where "DIAG_BUF_SIZE \<equiv> 261"
abbreviation (input) DTAG_IO_READBACK :: u8 where "DTAG_IO_READBACK \<equiv> 0x01"
abbreviation (input) DTAG_ATR :: u8 where "DTAG_ATR \<equiv> 0x02"
abbreviation (input) DTAG_TX_SINGLE :: u8 where "DTAG_TX_SINGLE \<equiv> 0x03"
abbreviation (input) DTAG_TX_BYTE_ERR :: u8 where "DTAG_TX_BYTE_ERR \<equiv> 0x04"
abbreviation (input) DTAG_DWT_STAMP :: u8 where "DTAG_DWT_STAMP \<equiv> 0x05"
abbreviation (input) DTAG_END :: u8 where "DTAG_END \<equiv> 0xFF"

record 'l bitbang_hw =
  hb_cyccnt :: "'l \<Rightarrow> u32 \<times> 'l"
  hb_io_is_high :: "'l \<Rightarrow> bool \<times> 'l"
  hb_io_set :: "bool \<Rightarrow> 'l \<Rightarrow> 'l"
  hb_clk_set :: "bool \<Rightarrow> 'l \<Rightarrow> 'l"
  hb_rst_set :: "bool \<Rightarrow> 'l \<Rightarrow> 'l"
  hb_pwr_set :: "bool \<Rightarrow> 'l \<Rightarrow> 'l"
  hb_card_present :: "'l \<Rightarrow> bool"
  hb_delay :: "nat \<Rightarrow> 'l \<Rightarrow> 'l"
  hb_interrupts :: "bool \<Rightarrow> 'l \<Rightarrow> 'l"
  hb_card_clock :: "bool \<Rightarrow> 'l \<Rightarrow> 'l"

record 'l smartcard_bitbang =
  sb_line :: 'l
  sb_atr :: bytes
  sb_powered :: bool
  sb_protocol :: u8
  sb_ifsc :: u8
  sb_t1_ns :: u8
  sb_etu_cycles :: u32
  sb_clock_running :: bool
  sb_diag :: bytes

definition on_pins :: "('l \<Rightarrow> 'l) \<Rightarrow> 'l smartcard_bitbang \<Rightarrow> 'l smartcard_bitbang" where
  "on_pins f d = d\<lparr>sb_line := f (sb_line d)\<rparr>"

section \<open>The diagnostic buffer\<close>

definition diag_push :: "u8 \<Rightarrow> bytes \<Rightarrow> bytes" where
  "diag_push b buf = (if length buf < DIAG_BUF_SIZE then buf @ [b] else buf)"

definition diag_tlv :: "u8 \<Rightarrow> bytes \<Rightarrow> bytes \<Rightarrow> bytes" where
  "diag_tlv tag data buf =
     (if 255 < length data then buf
      else fold diag_push data (diag_push (word_of_nat (length data)) (diag_push tag buf)))"

definition diag_end :: "bytes \<Rightarrow> bytes" where
  "diag_end buf = diag_push 0 (diag_push DTAG_END buf)"

definition add_diag :: "(bytes \<Rightarrow> bytes) \<Rightarrow> 'l smartcard_bitbang \<Rightarrow> 'l smartcard_bitbang" where
  "add_diag f d = d\<lparr>sb_diag := f (sb_diag d)\<rparr>"

definition seal_diag :: "'l bitbang_hw \<Rightarrow> 'l smartcard_bitbang \<Rightarrow> 'l smartcard_bitbang" where
  "seal_diag hw d =
     (let (cyccnt, t) = hb_cyccnt hw (sb_line d)
      in add_diag (diag_end \<circ> diag_tlv DTAG_DWT_STAMP (to_le_bytes32 cyccnt)) (d\<lparr>sb_line := t\<rparr>))"

section \<open>Time\<close>

partial_function (option) delay_until :: "'l bitbang_hw \<Rightarrow> u32 \<Rightarrow> 'l \<Rightarrow> 'l option" where
  "delay_until hw deadline t =
     (case hb_cyccnt hw t of (now, t) \<Rightarrow> if deadline - now < 0x80000000 then delay_until hw deadline t else Some t)"

definition delay_cycles :: "'l bitbang_hw \<Rightarrow> u32 \<Rightarrow> 'l \<Rightarrow> 'l outcome" where
  "delay_cycles hw n t = (case hb_cyccnt hw t of (now, t) \<Rightarrow> delay_until hw (now + n) t)"

definition bb_delay_ms :: "'l bitbang_hw \<Rightarrow> nat \<Rightarrow> 'l \<Rightarrow> 'l" where
  "bb_delay_ms hw ms t = (hb_delay hw 216000 ^^ ms) t"

section \<open>One character\<close>

text \<open>The wait for the falling edge of the start bit, with a clock pulse per look.\<close>

partial_function (option) wait_start :: "'l bitbang_hw \<Rightarrow> u32 \<Rightarrow> 'l \<Rightarrow> (bool \<times> 'l) option" where
  "wait_start hw deadline t =
     (case hb_io_is_high hw (hb_clk_set hw True t) of
        (io_high, t) \<Rightarrow>
          let t = hb_clk_set hw False t in
          if \<not> io_high then Some (True, t)
          else (case hb_cyccnt hw t of
                  (now, t) \<Rightarrow> if 0x80000000 \<le> deadline - now then Some (False, t) else wait_start hw deadline t))"

fun sample_bits :: "'l bitbang_hw \<Rightarrow> u32 \<Rightarrow> u32 \<Rightarrow> nat list \<Rightarrow> u8 \<Rightarrow> 'l \<Rightarrow> (u8 \<times> 'l) outcome" where
  "sample_bits hw etu t0 [] byte t = Some (byte, t)"
| "sample_bits hw etu t0 (i # is) byte t = do {
     t \<leftarrow> delay_until hw (t0 + (etu + etu div 2 + etu * word_of_nat i)) t;
     (high, t) \<leftarrow> Some (hb_io_is_high hw t);
     sample_bits hw etu t0 is (if high then byte OR push_bit i 1 else byte) t
   }"

definition count_ones :: "u8 \<Rightarrow> nat" where
  "count_ones b = length (filter (bit b) [0..<8])"

definition bb_recv :: "'l bitbang_hw \<Rightarrow> u32 \<Rightarrow> u8 \<Rightarrow> u32 \<Rightarrow> 'l \<Rightarrow> ((smartcard_error + u8) \<times> 'l) outcome" where
  "bb_recv hw etu protocol timeout_cycles t = do {
     t \<leftarrow> Some (hb_io_set hw True t);
     (now, t) \<leftarrow> Some (hb_cyccnt hw t);
     (start, t) \<leftarrow> wait_start hw (now + timeout_cycles) t;
     (if \<not> start then Some (Inl ScTimeout, t)
      else do {
        (t0, t) \<leftarrow> Some (hb_cyccnt hw t);
        t \<leftarrow> delay_until hw (t0 + etu div 2) t;
        (byte, t) \<leftarrow> sample_bits hw etu t0 [0..<8] 0 t;
        t \<leftarrow> delay_until hw (t0 + (etu * 9 + etu div 2)) t;
        (parity_high, t) \<leftarrow> Some (hb_io_is_high hw t);
        (if odd (count_ones byte + (if parity_high then 1 else 0)) then Some (Inl ScParityError, t)
         else do {
           t \<leftarrow> delay_until hw (t0 + etu * (11 + (if protocol = 1 then 0 else 1))) t;
           Some (Inr byte, t)
         })
      })
   }"

definition recv_byte_cycles :: "'l bitbang_hw \<Rightarrow> u32 \<Rightarrow> 'l smartcard_bitbang
    \<Rightarrow> ((smartcard_error + u8) \<times> 'l smartcard_bitbang) outcome" where
  "recv_byte_cycles hw timeout_cycles d = do {
     (r, t) \<leftarrow> bb_recv hw (sb_etu_cycles d) (sb_protocol d) timeout_cycles (sb_line d);
     Some (r, d\<lparr>sb_line := t\<rparr>)
   }"

fun drive_bits :: "'l bitbang_hw \<Rightarrow> u32 \<Rightarrow> u32 \<Rightarrow> u8 \<Rightarrow> nat list \<Rightarrow> 'l \<Rightarrow> 'l outcome" where
  "drive_bits hw etu t0 byte [] t = Some t"
| "drive_bits hw etu t0 byte (i # is) t = do {
     t \<leftarrow> delay_until hw (t0 + etu * (1 + word_of_nat i + 1)) (hb_io_set hw (drop_bit i byte AND 1 \<noteq> 0) t);
     drive_bits hw etu t0 byte is t
   }"

text \<open>The character; the results are the two readbacks of the line.\<close>

definition bb_send :: "'l bitbang_hw \<Rightarrow> u32 \<Rightarrow> u8 \<Rightarrow> 'l \<Rightarrow> (bool \<times> bool \<times> 'l) outcome" where
  "bb_send hw etu byte t =
     (let parity_is_one = count_ones byte mod 2 = 1; guard_etu = 2; total_etu = 10 + guard_etu;
          t = hb_io_set hw False t;
          (t0, t) = hb_cyccnt hw t;
          (high, t) = hb_io_is_high hw t;
          low_ok = (\<not> high)
      in do {
        t \<leftarrow> delay_until hw (t0 + etu) t;
        t \<leftarrow> drive_bits hw etu t0 byte [0..<8] t;
        t \<leftarrow> delay_until hw (t0 + etu * 10) (hb_io_set hw parity_is_one t);
        (high_ok, t) \<leftarrow> Some (hb_io_is_high hw (hb_io_set hw True t));
        t \<leftarrow> delay_until hw (t0 + etu * total_etu) t;
        Some (low_ok, high_ok, t)
      })"

definition bb_send_byte :: "'l bitbang_hw \<Rightarrow> u8 \<Rightarrow> 'l smartcard_bitbang
    \<Rightarrow> ((smartcard_error + unit) \<times> 'l smartcard_bitbang) outcome" where
  "bb_send_byte hw byte d = do {
     (low_ok, high_ok, t) \<leftarrow> bb_send hw (sb_etu_cycles d) byte (sb_line d);
     d \<leftarrow> Some (d\<lparr>sb_line := t\<rparr>);
     Some (Inr (), if \<not> low_ok \<or> \<not> high_ok
       then add_diag (diag_tlv DTAG_TX_BYTE_ERR [byte, of_bool low_ok, of_bool high_ok]) d else d)
   }"

section \<open>The byte line\<close>

text \<open>A line on which an operation did not return is gone, as in \<open>uart_io\<close>.\<close>

definition bitbang_io :: "'l bitbang_hw \<Rightarrow> 'l smartcard_bitbang option smartcard_io" where
  "bitbang_io hw =
     \<lparr>io_send_byte = (\<lambda>b d. case Option.bind d (bb_send_byte hw b) of
        None \<Rightarrow> (Inl ScTimeout, None) | Some (r, d) \<Rightarrow> (r, Some d)),
      io_recv_byte_timeout = (\<lambda>ms d.
        case Option.bind d (recv_byte_cycles hw (word_of_nat (min (unat ms * 216000) 0xFFFFFFFF))) of
          None \<Rightarrow> (Inl ScTimeout, None) | Some (r, d) \<Rightarrow> (r, Some d)),
      io_prepare_rx = (\<lambda>d. d)\<rparr>"

text \<open>The line for the T=1 engine: no wait is shorter than 200 ms.\<close>

definition bitbang_t1 :: "'l bitbang_hw \<Rightarrow> ('l smartcard_bitbang option, smartcard_error) t1_transport" where
  "bitbang_t1 hw =
     \<lparr>tt_send_byte = io_send_byte (bitbang_io hw),
      tt_recv_byte_timeout = (\<lambda>ms. io_recv_byte_timeout (bitbang_io hw) (if ms < 200 then 200 else ms)),
      tt_prepare_rx = map_option (on_pins (hb_io_set hw True)),
      tt_delay_bgt = (\<lambda>d. do {
        d \<leftarrow> d;
        t \<leftarrow> delay_cycles hw (sb_etu_cycles d * 22) (sb_line d);
        Some (d\<lparr>sb_line := t\<rparr>)
      })\<rparr>"

section \<open>Activation\<close>

definition bitbang_new :: "'l bitbang_hw \<Rightarrow> 'l \<Rightarrow> 'l smartcard_bitbang" where
  "bitbang_new hw t =
     \<lparr>sb_line = hb_pwr_set hw True (hb_rst_set hw False (hb_io_set hw True t)), sb_atr = [], sb_powered = False, sb_protocol = 0,
      sb_ifsc = 32, sb_t1_ns = 0, sb_etu_cycles = ETU_CPU_CYCLES, sb_clock_running = False, sb_diag = []\<rparr>"

definition stop_continuous_clock :: "'l bitbang_hw \<Rightarrow> 'l smartcard_bitbang \<Rightarrow> 'l smartcard_bitbang" where
  "stop_continuous_clock hw d =
     (if \<not> sb_clock_running d then d else on_pins (hb_card_clock hw False) (d\<lparr>sb_clock_running := False\<rparr>))"

definition start_continuous_clock :: "'l bitbang_hw \<Rightarrow> 'l smartcard_bitbang \<Rightarrow> 'l smartcard_bitbang" where
  "start_continuous_clock hw d = on_pins (hb_card_clock hw True) (d\<lparr>sb_clock_running := True\<rparr>)"

definition io_readback_test :: "'l bitbang_hw \<Rightarrow> 'l smartcard_bitbang \<Rightarrow> 'l smartcard_bitbang outcome" where
  "io_readback_test hw d = do {
     t \<leftarrow> delay_cycles hw (sb_etu_cycles d) (hb_io_set hw True (sb_line d));
     (high_ok, t) \<leftarrow> Some (hb_io_is_high hw t);
     (high, t) \<leftarrow> Some (hb_io_is_high hw (hb_io_set hw False t));
     t \<leftarrow> delay_cycles hw (sb_etu_cycles d) (hb_io_set hw True t);
     Some (add_diag (diag_tlv DTAG_IO_READBACK [of_bool high_ok, of_bool (\<not> high)]) (d\<lparr>sb_line := t\<rparr>))
   }"

definition tx_single_byte_diagnostic :: "'l bitbang_hw \<Rightarrow> 'l smartcard_bitbang \<Rightarrow> 'l smartcard_bitbang outcome" where
  "tx_single_byte_diagnostic hw d = do {
     t \<leftarrow> delay_cycles hw (sb_etu_cycles d * 4) (hb_interrupts hw False (sb_line d));
     (before_high, t) \<leftarrow> Some (hb_io_is_high hw t);
     (_, d) \<leftarrow> bb_send_byte hw 0xFF (d\<lparr>sb_line := t\<rparr>);
     (after_high, t) \<leftarrow> Some (hb_io_is_high hw (sb_line d));
     (r, d) \<leftarrow> recv_byte_cycles hw SC_BYTE_TIMEOUT_CYCLES (d\<lparr>sb_line := t\<rparr>);
     Some (add_diag (diag_tlv DTAG_TX_SINGLE [of_bool before_high, of_bool after_high,
             (case r of Inr _ \<Rightarrow> 0 | Inl e \<Rightarrow> if e = ScTimeout then 1 else 2)]) (on_pins (hb_interrupts hw True) d))
   }"

partial_function (option) bb_atr_loop :: "'l bitbang_hw \<Rightarrow> bytes \<Rightarrow> 'l smartcard_bitbang
    \<Rightarrow> ((smartcard_error + bytes) \<times> 'l smartcard_bitbang) option" where
  "bb_atr_loop hw atr d = do {
     (r, d) \<leftarrow> recv_byte_cycles hw (if atr = [] then SC_ATR_TIMEOUT_CYCLES else SC_ATR_BYTE_TIMEOUT_CYCLES) d;
     (case r of
        Inr b \<Rightarrow>
          if atr = [] \<and> b = 0 then bb_atr_loop hw atr d
          else if SC_ATR_MAX_LEN \<le> length atr then Some (Inl ScBufferOverflow, d)
          else bb_atr_loop hw (atr @ [b]) d
      | Inl e \<Rightarrow> if e = ScTimeout \<and> atr \<noteq> [] then Some (Inr atr, d) else Some (Inl e, d))
   }"

text \<open>A loop that ends without an error has read a byte, so the final check for an empty ATR has no case here.\<close>

definition bb_read_atr :: "'l bitbang_hw \<Rightarrow> 'l smartcard_bitbang \<Rightarrow> ((smartcard_error + unit) \<times> 'l smartcard_bitbang) outcome" where
  "bb_read_atr hw d = do {
     (r, d) \<leftarrow> bb_atr_loop hw [] d;
     Some (case r of Inl e \<Rightarrow> (Inl e, d) | Inr atr \<Rightarrow> (Inr (), d\<lparr>sb_atr := atr\<rparr>))
   }"

definition clock_pulse :: "'l bitbang_hw \<Rightarrow> 'l \<Rightarrow> 'l" where
  "clock_pulse hw t =
     hb_delay hw (unat GPIO_CLK_HALF_CYCLES)
       (hb_clk_set hw False (hb_delay hw (unat GPIO_CLK_HALF_CYCLES) (hb_clk_set hw True t)))"

definition bb_power_on :: "'l bitbang_hw \<Rightarrow> 'l smartcard_bitbang \<Rightarrow> ((smartcard_error + bytes) \<times> 'l smartcard_bitbang) outcome" where
  "bb_power_on hw d =
     (if \<not> hb_card_present hw (sb_line d) then Some (Inl ScNoCard, d)
      else do {
        d \<leftarrow> Some (stop_continuous_clock hw (d\<lparr>sb_diag := []\<rparr>));
        d \<leftarrow> Some (on_pins (bb_delay_ms hw 200 \<circ> hb_io_set hw True \<circ> hb_rst_set hw False \<circ> hb_pwr_set hw True) d);
        d \<leftarrow> io_readback_test hw (d\<lparr>sb_atr := [], sb_powered := False, sb_protocol := 0, sb_ifsc := 32, sb_t1_ns := 0,
                                   sb_etu_cycles := ETU_CPU_CYCLES\<rparr>);
        d \<leftarrow> Some (on_pins ((clock_pulse hw ^^ SC_CLK_TO_RST_DELAY_CARD_CLKS) \<circ> bb_delay_ms hw SC_POWER_ON_DELAY_MS \<circ>
                    hb_pwr_set hw False) d);
        d \<leftarrow> Some (on_pins (hb_interrupts hw False \<circ> hb_rst_set hw True) (start_continuous_clock hw d));
        (r, d) \<leftarrow> bb_read_atr hw d;
        (case r of
           Inl e \<Rightarrow> Some (Inl e, on_pins (hb_interrupts hw True) d)
         | Inr _ \<Rightarrow> do {
             params \<leftarrow> Some (fw_parse_atr (sb_atr d));
             d \<leftarrow> Some (on_pins (hb_interrupts hw True) (add_diag (diag_tlv DTAG_ATR (sb_atr d))
                    (d\<lparr>sb_powered := True, sb_protocol := detect_protocol_from_atr (sb_atr d), sb_ifsc := ap_ifsc params\<rparr>)));
             d \<leftarrow> (if ap_protocol params = 1
                   then do { (_, l) \<leftarrow> negotiate_pps_fsm (bitbang_io hw) 50 params (Some d); l }
                   else Some d);
             Some (Inr (sb_atr d), seal_diag hw d)
           })
      })"

definition bb_power_off :: "'l bitbang_hw \<Rightarrow> 'l smartcard_bitbang \<Rightarrow> 'l smartcard_bitbang" where
  "bb_power_off hw d =
     on_pins (hb_io_set hw True \<circ> hb_pwr_set hw True) (stop_continuous_clock hw (on_pins (hb_rst_set hw False) d))
       \<lparr>sb_powered := False, sb_atr := [], sb_protocol := 0, sb_ifsc := 32, sb_t1_ns := 0, sb_etu_cycles := ETU_CPU_CYCLES\<rparr>"

section \<open>Exchanges\<close>

fun bb_send_all :: "'l bitbang_hw \<Rightarrow> bytes \<Rightarrow> 'l smartcard_bitbang \<Rightarrow> ((smartcard_error + unit) \<times> 'l smartcard_bitbang) outcome" where
  "bb_send_all hw [] d = Some (Inr (), d)"
| "bb_send_all hw (b # bs) d = do {
     (r, d) \<leftarrow> bb_send_byte hw b d;
     (case r of Inl e \<Rightarrow> Some (Inl e, d) | Inr _ \<Rightarrow> bb_send_all hw bs d)
   }"

function bb_read_loop :: "'l bitbang_hw \<Rightarrow> u32 \<Rightarrow> nat \<Rightarrow> bytes \<Rightarrow> 'l smartcard_bitbang
    \<Rightarrow> ((smartcard_error + nat) \<times> bytes \<times> 'l smartcard_bitbang) outcome" where
  "bb_read_loop hw timeout_cycles total_len response d =
     (if length response \<le> total_len then Some (Inr total_len, response, d)
      else
        (case recv_byte_cycles hw timeout_cycles d of
           None \<Rightarrow> None
         | Some (Inr b, d) \<Rightarrow> bb_read_loop hw SC_BYTE_TIMEOUT_CYCLES (total_len + 1) (response[total_len := b]) d
         | Some (Inl e, d) \<Rightarrow> Some (if e = ScTimeout then Inr total_len else Inl e, response, d)))"
  by pat_completeness auto
termination by (relation "measure (\<lambda>(hw, c, n, response, d). length response - n)") auto

declare bb_read_loop.simps [simp del]

definition transmit_raw_inner :: "'l bitbang_hw \<Rightarrow> bytes \<Rightarrow> bytes \<Rightarrow> 'l smartcard_bitbang
    \<Rightarrow> ((smartcard_error + nat) \<times> bytes \<times> 'l smartcard_bitbang) outcome" where
  "transmit_raw_inner hw data response d = do {
     (r, d) \<leftarrow> bb_send_all hw data d;
     (case r of
        Inl e \<Rightarrow> Some (Inl e, response, d)
      | Inr _ \<Rightarrow> do {
          (r, response, d) \<leftarrow> bb_read_loop hw SC_PROCEDURE_TIMEOUT_CYCLES 0 response (on_pins (hb_io_set hw True) d);
          Some (if r = Inr 0 then Inl ScTimeout else r, response, d)
        })
   }"

definition bb_transmit_raw :: "'l bitbang_hw \<Rightarrow> bytes \<Rightarrow> bytes \<Rightarrow> 'l smartcard_bitbang
    \<Rightarrow> ((smartcard_error + nat) \<times> bytes \<times> 'l smartcard_bitbang) outcome" where
  "bb_transmit_raw hw data response d =
     (if \<not> sb_powered d then Some (Inl ScHardwareError, response, d)
      else do {
        (r, response, d) \<leftarrow> transmit_raw_inner hw data response (on_pins (hb_interrupts hw False) d);
        Some (r, response, on_pins (hb_interrupts hw True) d)
      })"

definition bb_transmit_apdu :: "'l bitbang_hw \<Rightarrow> bytes \<Rightarrow> bytes \<Rightarrow> 'l smartcard_bitbang
    \<Rightarrow> ((smartcard_error + nat) \<times> bytes \<times> 'l smartcard_bitbang) outcome" where
  "bb_transmit_apdu hw command response d =
     (if \<not> sb_powered d then Some (Inl ScHardwareError, response, d)
      else if sb_protocol d = 1 then transmit_raw_inner hw command response d
      else do {
        (r, response, l) \<leftarrow> transmit_apdu_t0 (bitbang_io hw) command response (SC_PROCEDURE_TIMEOUT_CYCLES div (BB_SYSCLK_HZ div 1000))
          (SC_BYTE_TIMEOUT_CYCLES div (BB_SYSCLK_HZ div 1000)) (Some (on_pins (hb_interrupts hw False) d));
        d \<leftarrow> l;
        Some (r, response, on_pins (hb_interrupts hw True) d)
      })"

section \<open>The driver of the USB handler\<close>

text \<open>As for the USART wrapper, \<open>None\<close> is a firmware that hangs or has panicked.\<close>

definition bitbang_sc :: "'l bitbang_hw \<Rightarrow> ('l smartcard_bitbang option, smartcard_error) smartcard_ops" where
  "bitbang_sc hw =
     \<lparr>sc_power_on = (\<lambda>d. case Option.bind d (bb_power_on hw) of None \<Rightarrow> (Inl ScHardwareError, None) | Some (r, d) \<Rightarrow> (r, Some d)),
      sc_power_off = map_option (bb_power_off hw),
      sc_is_card_present = (\<lambda>d. case d of None \<Rightarrow> False | Some d \<Rightarrow> hb_card_present hw (sb_line d)),
      sc_transmit_apdu = (\<lambda>d command response.
        case Option.bind d (bb_transmit_apdu hw command response) of
          None \<Rightarrow> (Inl ScHardwareError, response, None) | Some (r, buf, d) \<Rightarrow> (r, buf, Some d)),
      sc_transmit_raw = (\<lambda>d data response.
        case Option.bind d (bb_transmit_raw hw data response) of
          None \<Rightarrow> (Inl ScHardwareError, response, None) | Some (r, buf, d) \<Rightarrow> (r, buf, Some d)),
      sc_set_protocol = (\<lambda>p. map_option (\<lambda>d. d\<lparr>sb_protocol := p\<rparr>)),
      sc_get_protocol = (\<lambda>d. case d of None \<Rightarrow> 0 | Some d \<Rightarrow> sb_protocol d),
      sc_set_clock = (\<lambda>_ d. d),
      sc_set_clock_and_rate = (\<lambda>_ _ d. (Inr (1000000, 9600), d)),
      sc_set_wire_timing = (\<lambda>_ _ _ d. d),
      sc_xfr_error_class = (\<lambda>_. smartcard_error_class),
      sc_reinit_count = (\<lambda>_. 0),
      sc_take_reinit_pending = (\<lambda>d. (False, d)),
      sc_diagnostics = (\<lambda>d base. case d of
          None \<Rightarrow> base | Some d \<Rightarrow> base\<lparr>card_present := hb_card_present hw (sb_line d)\<rparr>)\<rparr>"

end
