(* ===== verification/Usb_Drivers.thy ===== *)
theory Usb_Drivers
  imports Usb_Facts Contact_Uart_Props Bitbang
begin

text \<open>
  The contact drivers meet the contract of the USB handler: the USART driver with its self-healing wrapper and
  the bit-banged driver, on any hardware.  An exchange writes into the response buffer and never resizes it, and no
  ATR is longer than the 33 bytes of its buffer.  A driver that hangs or panics is a stuck one, which fails
  every later call.
\<close>

section \<open>An exchange keeps the length of the response buffer\<close>

abbreviation t0_room :: "t0_state \<Rightarrow> nat" where
  "t0_room st \<equiv> length (t0_response st)"

lemma store_room [simp]: "t0_room (t0_store sw1 sw2 st) = t0_room st"
  by (simp add: t0_store_def)

lemma advance_room [simp]: "t0_room (t0_advance n st) = t0_room st"
  by (simp add: t0_advance_def)

lemma t0_send_room: "t0_send io command st t = (r, st', t') \<Longrightarrow> t0_room st' = t0_room st"
  by (auto simp: t0_send_def split: prod.splits sum.splits if_splits)

lemma t0_data_room: "t0_data io ms i n st t = (r, st', t') \<Longrightarrow> t0_room st' = t0_room st"
  by (induction n arbitrary: i st t) (auto split: prod.splits sum.splits)

lemma t0_fetch_room: "t0_fetch io pms bms sw2 st t = Some (nx, st', t') \<Longrightarrow> t0_room st' = t0_room st"
  by (auto simp: t0_fetch_def Let_def split: prod.splits sum.splits if_splits bind_splits dest!: t0_data_room)

lemma t0_acknowledged_room: "t0_acknowledged io pms bms st t = Some (nx, st', t') \<Longrightarrow> t0_room st' = t0_room st"
  by (auto simp: t0_acknowledged_def Let_def split: prod.splits sum.splits if_splits dest: t0_fetch_room)

lemma t0_dispatch_room:
  assumes "t0_dispatch io command pms bms pb st t = Some (nx, st', t')"
  shows "t0_room st' = t0_room st"
proof -
  obtain r1 t1 where s: "io_send io [command ! t0_body_offset st] t = (r1, t1)" by (rule prod.exhaust)
  obtain r2 t2 where p: "io_recv io [bms] t = (r2, t2)" by (rule prod.exhaust)
  from assms s p t0_acknowledged_room show ?thesis
    by (cases r1; cases r2) (auto simp: t0_dispatch_def Let_def split: if_splits)
qed

lemma t0_loop_room:
  assumes "t0_loop io command pms bms resend st t = Some (r, st', t')"
  shows "t0_room st' = t0_room st"
proof -
  let ?P = "\<lambda>io command pms bms resend st t y. t0_room (fst (snd y)) = t0_room st"
  have "?P io command pms bms resend st t (r, st', t')"
  proof (rule t0_loop.raw_induct [where P = ?P, OF _ assms])
    fix tl io command pms bms resend st t y
    assume ih: "\<And>io command pms bms resend st t y. tl io command pms bms resend st t = Some y \<Longrightarrow> ?P io command pms bms resend st t y"
      and b: "(let (r, st, t) = (if resend then t0_send io command st t else (Inr (), st, t)) in
          case r of
            Inl e \<Rightarrow> Some (Inl e, st, t)
          | Inr _ \<Rightarrow> do {
              (r, t) \<leftarrow> t0_procedure io pms t;
              (case r of
                 Inl e \<Rightarrow> Some (Inl e, st, t)
               | Inr pb \<Rightarrow> do {
                   (nx, st, t) \<leftarrow> t0_dispatch io command pms bms pb st t;
                   (case nx of
                      T0Return r \<Rightarrow> Some (r, st, t)
                    | T0Resend \<Rightarrow> tl io command pms bms True st t
                    | T0Again \<Rightarrow> tl io command pms bms False st t)
                 })
            }) = Some y"
    obtain r1 s1 t1 where s: "(if resend then t0_send io command st t else (Inr (), st, t)) = (r1, s1, t1)" by (rule prod_cases3)
    have s1: "t0_room s1 = t0_room st" using s t0_send_room by (auto split: if_splits)
    show "t0_room (fst (snd y)) = t0_room st"
      using b s1 unfolding s
      by (auto split: sum.splits bind_splits t0_next.splits dest!: t0_dispatch_room ih)
  qed
  then show ?thesis by simp
qed

lemma transmit_apdu_t0_room:
  "transmit_apdu_t0 io command response pms bms t = Some (r, buf, t') \<Longrightarrow> length buf = length response"
  by (auto simp: transmit_apdu_t0_def split: if_splits bind_splits dest!: t0_loop_room)

lemma read_loop_room: "read_loop io f n limit at buf t = (e, k, buf', t') \<Longrightarrow> length buf' = length buf"
proof (induction "limit - at" arbitrary: f at buf t)
  case 0
  then show ?case by (simp add: read_loop.simps [of io f])
next
  case (Suc m)
  obtain r t1 where rt: "io_recv_byte_timeout io f t = (r, t1)" by (rule prod.exhaust)
  have l: "\<not> limit \<le> at" "m = limit - (at + 1)" using Suc.hyps(2) by simp_all
  from Suc.prems l(1) rt Suc.hyps(1) [OF l(2)] show ?case
    by (cases r) (fastforce simp: read_loop.simps [of io f])+
qed

lemma transmit_raw_room: "transmit_raw io data response c t = (r, buf, t') \<Longrightarrow> length buf = length response"
  by (auto simp: transmit_raw_def Let_def split: if_splits prod.splits sum.splits option.splits dest!: read_loop_room)

lemma contact_transmit_room:
  "contact_transmit_apdu io command response c t = Some (r, buf, t') \<Longrightarrow> length buf = length response"
  by (auto simp: contact_transmit_apdu_def split: if_splits dest: transmit_apdu_t0_room transmit_raw_room)

lemma bb_read_loop_room: "bb_read_loop hw ms n response d = Some (r, buf, d') \<Longrightarrow> length buf = length response"
proof (induction hw ms n response d rule: bb_read_loop.induct)
  case (1 hw ms n response d)
  from 1(2) show ?case
    by (subst (asm) bb_read_loop.simps) (auto split: if_splits option.splits sum.splits dest: 1(1) [simplified])
qed

lemma bb_transmit_room: "bb_transmit_apdu hw command response d = Some (r, buf, d') \<Longrightarrow> length buf = length response"
  by (auto simp: bb_transmit_apdu_def transmit_raw_inner_def split: if_splits bind_splits sum.splits
      dest: transmit_apdu_t0_room bb_read_loop_room)

section \<open>The ATR of the USART driver\<close>

abbreviation short_atr :: "'t smartcard_uart \<Rightarrow> bool" where
  "short_atr u \<equiv> length (su_atr u) \<le> 33"

lemma atr_loop_short:
  assumes "atr_loop hw wd atr t = Some (r, t')" "length atr \<le> 33"
  shows "case r of Inl _ \<Rightarrow> True | Inr a \<Rightarrow> length a \<le> 33"
proof -
  let ?P = "\<lambda>hw wd atr t y. length atr \<le> 33 \<longrightarrow> (case fst y of Inl _ \<Rightarrow> True | Inr a \<Rightarrow> length a \<le> 33)"
  have "?P hw wd atr t (r, t')"
  proof (rule atr_loop.raw_induct [where P = ?P, OF _ assms(1)], intro impI)
    fix d hw wd t y and atr :: bytes
    assume ih: "\<And>hw wd atr t y. d hw wd atr t = Some y \<Longrightarrow> ?P hw wd atr t y"
      and b: "(case hw_read_sr hw t of
        (sr, t) \<Rightarrow>
          if sr AND SR_RXNE \<noteq> 0 \<or> sr AND SR_ORE \<noteq> 0 then
            (case hw_read_dr hw t of
               (w, t) \<Rightarrow>
                 let b = ucast w in
                 if atr = [] \<and> b = 0 then d hw wd atr t
                 else
                   (case hw_cyccnt hw t of
                      (now, t) \<Rightarrow>
                        d hw (watchdog_start now wd) (if length atr < SC_ATR_MAX_LEN then atr @ [b] else atr) t))
          else
            (case hw_cyccnt hw t of
               (now, t) \<Rightarrow>
                 if watchdog_expired now wd
                 then Some (if atr \<noteq> [] then Inr atr else Inl ScInvalidATR, t)
                 else d hw wd atr t)) = Some y"
      and l: "length atr \<le> 33"
    from b l show "case fst y of Inl _ \<Rightarrow> True | Inr a \<Rightarrow> length a \<le> 33"
      unfolding Let_def by (auto split: prod.splits if_splits dest!: ih)
  qed
  with assms(2) show ?thesis by simp
qed

lemma read_atr_short: "short_atr u \<Longrightarrow> read_atr hw u = Some (r, u') \<Longrightarrow> short_atr u'"
  by (auto simp: read_atr_def Let_def split: prod.splits if_splits bind_splits sum.splits dest!: atr_loop_short)

lemma keeps_atr:
  "reset_baud_default hw u = Some u' \<Longrightarrow> su_atr u' = su_atr u"
  "set_baud_from_fi_di hw fi di u = Some (b, u') \<Longrightarrow> su_atr u' = su_atr u"
  "on_line f u = Some (x, u') \<Longrightarrow> su_atr u' = su_atr u"
  "su_atr (on_hw g u) = su_atr u" "su_atr (on_ct c u) = su_atr u"
  by (auto simp: reset_baud_default_def set_baud_from_fi_di_def on_line_def on_hw_def on_ct_def Let_def
      split: bind_splits if_splits option.splits prod.splits)

lemma negotiate_pps_atr: "uart_negotiate_pps io hw params s u = Some (r, u') \<Longrightarrow> su_atr u' = su_atr u"
  by (auto simp: uart_negotiate_pps_def keeps_atr split: if_splits bind_splits sum.splits dest!: keeps_atr(2,3))

lemma ifs_ladder_atr: "ifs_ladder io hw u = Some (b, u') \<Longrightarrow> su_atr u' = su_atr u"
  by (auto simp: ifs_ladder_def keeps_atr split: if_splits bind_splits sum.splits dest!: keeps_atr(1,3))

lemma accept_atr_keeps: "accept_atr io hw s u = Some (r, u') \<Longrightarrow> su_atr u' = su_atr u"
  by (auto simp: accept_atr_def Let_def keeps_atr split: if_splits bind_splits dest!: negotiate_pps_atr ifs_ladder_atr)

lemma reset_atr: "cold_reset hw u = Some (s, u') \<Longrightarrow> su_atr u' = []" "uart_power_off hw u = Some u' \<Longrightarrow> su_atr u' = []"
  by (auto simp: cold_reset_def uart_power_off_def keeps_atr split: bind_splits dest!: keeps_atr(1))

lemma uart_power_on_short:
  assumes "uart_power_on io hw u = Some (r, u')"
  shows "case r of Inl _ \<Rightarrow> True | Inr atr \<Rightarrow> length atr \<le> 33"
proof -
  let ?P = "\<lambda>io hw u y. (case fst y of Inl _ \<Rightarrow> True | Inr atr \<Rightarrow> length atr \<le> 33) \<and> (short_atr u \<longrightarrow> short_atr (snd y))"
  have "?P io hw u (r, u')"
  proof (rule uart_power_on.raw_induct [where P = ?P, OF _ assms])
    fix po io hw u y
    assume ih: "\<And>io hw u y. po io hw u = Some y \<Longrightarrow> ?P io hw u y"
      and b: "(if \<not> uart_is_card_present hw u then Some (Inl ScNoCard, u)
        else do {
          (suppress, u) \<leftarrow> cold_reset hw u;
          (r, u) \<leftarrow> read_atr hw u;
          (case r of
             Inl e \<Rightarrow> Some (Inl e, u)
           | Inr _ \<Rightarrow> do {
               (r, u) \<leftarrow> accept_atr io hw suppress u;
               (case r of
                  Inl e \<Rightarrow> Some (Inl e, u)
                | Inr ladder \<Rightarrow>
                    if \<not> ladder then Some (Inr (su_atr u), u)
                    else do {
                      u \<leftarrow> uart_power_off hw (u\<lparr>su_pps_suppress_once := True\<rparr>);
                      (r, u) \<leftarrow> po io hw u;
                      (let u = (if isl r then u\<lparr>su_pps_suppress_once := False\<rparr> else u) in Some (Inr (su_atr u), u))
                    })
             })
        }) = Some y"
    show "?P io hw u y"
    proof (cases "uart_is_card_present hw u")
      case True
      obtain s u1 where c: "cold_reset hw u = Some (s, u1)" using b True by (auto split: bind_splits)
      obtain q u2 where a: "read_atr hw u1 = Some (q, u2)" using b True c by (auto split: bind_splits)
      have u2: "short_atr u2" using read_atr_short [OF _ a] reset_atr(1) [OF c] by simp
      show ?thesis
      proof (cases "isl q")
        case False
        then obtain k u3 where p: "accept_atr io hw s u2 = Some (k, u3)" using b True c a by (auto split: bind_splits sum.splits)
        have u3: "short_atr u3" using accept_atr_keeps [OF p] u2 by simp
        show ?thesis
        proof (cases "k = Inr True")
          case ladder: True
          from b True c a False p ladder obtain u4 y4 where "uart_power_off hw (u3\<lparr>su_pps_suppress_once := True\<rparr>) = Some u4"
            "po io hw u4 = Some y4" "y = (Inr (su_atr (snd y4)), if isl (fst y4) then (snd y4)\<lparr>su_pps_suppress_once := False\<rparr> else snd y4)"
            by (auto simp: Let_def split: bind_splits sum.splits if_splits)
          with ih [of io hw u4 y4] reset_atr(2) [of hw "u3\<lparr>su_pps_suppress_once := True\<rparr>" u4] show ?thesis by simp
        qed (use b True c a False p u3 in \<open>auto split: sum.splits if_splits\<close>)
      qed (use b True c a u2 in \<open>auto split: sum.splits\<close>)
    qed (use b in auto)
  qed
  then show ?thesis by simp
qed

lemma wrapper_transmit_room:
  "wrapper_transmit io hw (uart_transmit_apdu io command response) w = Some (r, buf, w') \<Longrightarrow> length buf = length response"
  by (auto simp: wrapper_transmit_def uart_transmit_apdu_def split: bind_splits dest: contact_transmit_room)

lemma wrapper_power_on_short:
  "wrapper_power_on io hw w = Some (Inr atr, w') \<Longrightarrow> length atr \<le> 33"
  by (auto simp: wrapper_power_on_def split: bind_splits dest: uart_power_on_short)

interpretation uart_card: contact_driver "wrapper_sc io hw" "\<lambda>_. True"
  by unfold_locales
    (auto simp: wrapper_sc_def or_stuck_def or_stuck_transmit_def split: option.splits bind_splits
       dest: wrapper_transmit_room wrapper_power_on_short)

section \<open>The ATR of the bit-banged driver\<close>

definition bb_short_atr :: "'l smartcard_bitbang option \<Rightarrow> bool" where
  "bb_short_atr l \<longleftrightarrow> (case l of None \<Rightarrow> True | Some d \<Rightarrow> length (sb_atr d) \<le> 33)"

lemma bb_keeps_atr:
  "recv_byte_cycles hw n d = Some (r, d') \<Longrightarrow> sb_atr d' = sb_atr d"
  "bb_send_byte hw b d = Some (s, d') \<Longrightarrow> sb_atr d' = sb_atr d"
  "sb_atr (on_pins f d) = sb_atr d" "sb_atr (add_diag g d) = sb_atr d" "sb_atr (seal_diag hw d) = sb_atr d"
  by (auto simp: recv_byte_cycles_def bb_send_byte_def on_pins_def add_diag_def seal_diag_def split: bind_splits prod.splits)

interpretation bb_atr: line_invariant "bitbang_io hw" bb_short_atr
  by unfold_locales
    (auto simp: bitbang_io_def bb_short_atr_def split: option.splits bind_splits dest!: bb_keeps_atr(1,2))

lemma bb_atr_loop_short:
  assumes "bb_atr_loop hw atr d = Some (r, d')" "length atr \<le> 33"
  shows "case r of Inl _ \<Rightarrow> True | Inr a \<Rightarrow> length a \<le> 33"
proof -
  let ?P = "\<lambda>hw atr d y. length atr \<le> 33 \<longrightarrow> (case fst y of Inl _ \<Rightarrow> True | Inr a \<Rightarrow> length a \<le> 33)"
  have "?P hw atr d (r, d')"
  proof (rule bb_atr_loop.raw_induct [where P = ?P, OF _ assms(1)], intro impI)
    fix lp hw d y and atr :: bytes
    assume ih: "\<And>hw atr d y. lp hw atr d = Some y \<Longrightarrow> ?P hw atr d y"
      and b: "do {
         (r, d) \<leftarrow> recv_byte_cycles hw (if atr = [] then SC_ATR_TIMEOUT_CYCLES else SC_ATR_BYTE_TIMEOUT_CYCLES) d;
         (case r of
            Inr b \<Rightarrow>
              if atr = [] \<and> b = 0 then lp hw atr d
              else if SC_ATR_MAX_LEN \<le> length atr then Some (Inl ScBufferOverflow, d)
              else lp hw (atr @ [b]) d
          | Inl e \<Rightarrow> if e = ScTimeout \<and> atr \<noteq> [] then Some (Inr atr, d) else Some (Inl e, d))
       } = Some y"
      and l: "length atr \<le> 33"
    from b l show "case fst y of Inl _ \<Rightarrow> True | Inr a \<Rightarrow> length a \<le> 33"
      by (auto split: bind_splits sum.splits if_splits dest!: ih)
  qed
  with assms(2) show ?thesis by simp
qed

lemma negotiate_pps_short:
  assumes "negotiate_pps_fsm (bitbang_io hw) ms params (Some d) = Some (r, Some d')" "length (sb_atr d) \<le> 33"
  shows "length (sb_atr d') \<le> 33"
proof -
  have d: "bb_short_atr (Some d)" using assms(2) by (simp add: bb_short_atr_def)
  have "bb_short_atr (Some d')"
    using assms(1) d
    by (auto simp: negotiate_pps_fsm_def split: if_splits bind_splits prod.splits sum.splits
        dest: bb_atr.q_io_send bb_atr.q_negotiate_loop)
  then show ?thesis by (simp add: bb_short_atr_def)
qed

lemma bb_power_on_short:
  "bb_power_on hw d = Some (Inr atr, d') \<Longrightarrow> length atr \<le> 33"
  by (auto simp: bb_power_on_def bb_read_atr_def Let_def bb_keeps_atr split: if_splits bind_splits sum.splits
      dest!: bb_atr_loop_short) (erule negotiate_pps_short, simp add: bb_keeps_atr)

interpretation bitbang_card: contact_driver "bitbang_sc hw" "\<lambda>_. True"
  by unfold_locales
    (auto simp: bitbang_sc_def split: option.splits bind_splits dest: bb_transmit_room bb_power_on_short)

end
