(* ===== verification/Usb_Props.thy ===== *)
theory Usb_Props
  imports Usb_Drivers Handler_Pin
begin

text \<open>
  The properties of the USB readers: every assembled message is answered, packets of any size make the same
  message, an answer reaches the host in full, and the answer of a PIN entry does not.
\<close>

section \<open>One message\<close>

lemma command_panics_assembled:
  assumes "usb_ok sc_inv u" "message_ready u"
  shows "command_panics (uh_core u) (take (uh_rx_len u) (uh_rx_buffer u)) \<longleftrightarrow>
    uh_rx_buffer u ! 0 = PC_TO_RDR_SECURE \<and>
    secure_panics (uh_core u) (take (declared_length u) (drop 10 (take (uh_rx_len u) (uh_rx_buffer u))))"
proof -
  from assms have r: "10 \<le> uh_rx_len u" "declared_length u \<le> 261" "10 + declared_length u \<le> uh_rx_len u"
    using usb_okD(2) [OF assms(1)] by (auto simp: message_ready_def declared_fits_def split: if_splits)
  note h = rx_header_parse [OF assms(1) r(1)]
  show ?thesis using r h usb_okD(2,4) [OF assms(1)] by (auto simp: command_panics_def)
qed

context smartcard_driver
begin

lemma handle_message_cases:
  assumes u: "usb_ok sc_inv u" and ready: "message_ready u" and sl: "uh_rx_buffer u ! 5 = 0" and idle: "\<not> uh_cmd_busy u"
  shows "case usb_handle_message sc u of
      None \<Rightarrow> command_panics (uh_core u) (take (uh_rx_len u) (uh_rx_buffer u))
    | Some u' \<Rightarrow> usb_ok sc_inv u' \<and> tx_answers u u'"
proof -
  let ?u = "u\<lparr>uh_cmd_busy := True\<rparr>"
  have len: "10 \<le> uh_rx_len u" using ready by (simp add: message_ready_def split: if_splits)
  have ok: "usb_ok sc_inv ?u" using u by (simp add: usb_ok_def)
  have hdr: "tx_answers ?u = tx_answers u"
    by (simp add: fun_eq_iff tx_answers_def session_opened_def rx_payload_def rx_header_def)
  note d = usb_dispatch_cases [OF ok, of "uh_rx_buffer u ! 6" "uh_rx_buffer u ! 0"]
  show ?thesis
  proof (cases "usb_dispatch sc (uh_rx_buffer u ! 0) (uh_rx_buffer u ! 6) ?u")
    case None
    with d len sl idle show ?thesis by (simp add: usb_handle_message_def)
  next
    case (Some v)
    with d len sl hdr have v: "usb_ok sc_inv v" "tx_answers u v" by simp_all
    note a = apply_accepted_ok [OF v(1)]
    show ?thesis using Some len sl idle v a surface_reinit_ok [OF a(1)] by (simp add: usb_handle_message_def)
  qed
qed

lemma secure_message_panics:
  assumes u: "usb_ok sc_inv u" and ready: "message_ready u" and sl: "uh_rx_buffer u ! 5 = 0" and idle: "\<not> uh_cmd_busy u"
    and "uh_rx_buffer u ! 0 = PC_TO_RDR_SECURE" "command_panics (uh_core u) (take (uh_rx_len u) (uh_rx_buffer u))"
  shows "usb_handle_message sc u = None"
proof -
  have len: "10 \<le> uh_rx_len u" using ready by (simp add: message_ready_def split: if_splits)
  have "process_command ContactProfile (contact_ops sc) (uh_core u) (take (uh_rx_len u) (uh_rx_buffer u)) (uh_tx_buffer u) = None"
    using slot.process_command_good [OF usb_okD(1) [OF u]] assms(6) by simp
  then have "delegate_to_core sc (u\<lparr>uh_cmd_busy := True\<rparr>) = None"
    using usb_okD(2,4) [OF u] by (simp add: delegate_to_core_def slice_prefix)
  with assms(5) len sl idle show ?thesis by (simp add: usb_handle_message_def usb_dispatch_def)
qed

end

context contact_driver
begin

lemma overlong_message:
  assumes u: "usb_ok sc_inv u" and ready: "message_ready u" and sl: "uh_rx_buffer u ! 5 = 0" and idle: "\<not> uh_cmd_busy u"
    and over: "overlong_answer 261 sc u"
  shows "case usb_handle_message sc u of
      None \<Rightarrow> overlong_answer 271 sc u
    | Some u' \<Rightarrow> \<not> overlong_answer 271 sc u \<and> usb_ok sc_inv u' \<and> uh_tx_len u' = 0"
proof -
  let ?u = "u\<lparr>uh_cmd_busy := True\<rparr>" and ?msg = "take (uh_rx_len u) (uh_rx_buffer u)"
  note ok = usb_okD [OF u]
  from u ready ok have r: "10 \<le> uh_rx_len u" "declared_length u \<le> 261" "10 + declared_length u \<le> uh_rx_len u"
    by (auto simp: message_ready_def declared_fits_def split: if_splits)
  note hdr = rx_header_parse [OF u r(1)]
  have pl: "length (rx_payload u) \<le> 261" using r hdr(5) by (simp add: rx_payload_def)
  obtain n buf d where t: "sc_transmit_apdu sc (sa_driver (h_nfc (uh_core u))) (rx_payload u) (h_tx_buf (uh_core u)) = (Inr n, buf, d)"
    and n: "261 < n"
    using over by (auto simp: overlong_answer_def exceeds_def split: sum.splits prod.splits) (metis prod.collapse)
  have n271: "overlong_answer 271 sc u \<longleftrightarrow> 271 < n" using over t by (simp add: overlong_answer_def)
  have x: "uh_rx_buffer u ! 0 = PC_TO_RDR_XFR_BLOCK" "h_slot_state (uh_core u) = PresentActive" "\<not> is_pps_request (rx_payload u)"
    using over by (simp_all add: overlong_answer_def)
  note d = overlong_dispatch [OF ok(1,3) _ x(2,3) pl t n, of "rx_header u"]
  have p: "process_command ContactProfile (contact_ops sc) (uh_core u) ?msg (uh_tx_buffer u) =
      map_option (\<lambda>(h, out, len). (if 7 < len \<and> failed_status (out ! 7) then record_protocol_error h else h, out, len))
        (dispatch ContactProfile (contact_ops sc) (uh_core u) (rx_header u) (rx_payload u) (uh_tx_buffer u))"
    using process_command_in_range [OF hdr(1), of ContactProfile "contact_ops sc"] r hdr(5) ok(2,4)
    by (auto simp: rx_payload_def map_option_case split: option.splits)
  have m: "usb_handle_message sc u = do { u \<leftarrow> delegate_to_core sc ?u; Some (surface_reinit sc (apply_accepted sc u)) }"
    using r x(1) sl idle by (simp add: usb_handle_message_def usb_dispatch_def declared_length_def)
  show ?thesis
  proof (cases "dispatch ContactProfile (contact_ops sc) (uh_core u) (rx_header u) (rx_payload u) (uh_tx_buffer u)")
    case None
    with d hdr(2) x(1) n271 p m ok(2,4) show ?thesis by (simp add: delegate_to_core_def slice_prefix)
  next
    case (Some q)
    obtain h out k where q: "q = (h, out, k)" using prod_cases3 by blast
    with Some d hdr(2) x(1) have h: "n \<le> 271" "handler_ok ContactProfile (adapted sc_inv) h" "length out = 271" "k = 0" by simp_all
    define v where "v = ?u\<lparr>uh_core := h, uh_tx_buffer := out, uh_tx_len := 0\<rparr>"
    have v: "usb_ok sc_inv v" using u h by (simp add: usb_ok_def v_def)
    have "delegate_to_core sc ?u = Some v" using Some q h(4) p ok(2,4) by (simp add: delegate_to_core_def slice_prefix v_def)
    moreover have "uh_tx_len (surface_reinit sc (apply_accepted sc v)) = 0"
      by (auto simp: v_def surface_reinit_def apply_accepted_def take_parameters_accepted_def on_driver_def Let_def
          split: prod.splits option.splits)
    ultimately show ?thesis
      using m n271 h(1) surface_reinit_ok(1) [OF apply_accepted_ok(1) [OF v]] by simp
  qed
qed

end

text \<open>C19: Every message a USB reader has assembled is answered, and the messages that panic or stay without an
  answer are known.  The driver may be any that meets the contract \<open>contact_driver\<close> (it keeps its invariant, leaves
  the length of the response buffer alone and delivers no ATR longer than 33 bytes); the USART driver of the
  firmware, its bit-banged driver and the scripted driver of the host tests all do (theory \<open>Usb_Drivers\<close>, where a
  driver that hangs stays stuck and fails every later call).  In every state that satisfies the invariant and holds a
  complete message, the handler panics exactly when the message is for slot 0, no answer is outstanding, and it
  is either a PIN-modify request of the length the parser cannot take, on a pin-pad reader with an active card, or an
  APDU for which the driver reports more than the 271 bytes of the buffer it was given; the length overflow of the
  core cannot be reached from USB.  Otherwise the transmit buffer afterwards holds one answer with the slot and
  sequence number of the message, unless this very message is a well-formed PIN request that armed the PIN session
  the reader is now in, or an APDU for which the driver reports more than 261 bytes.  A message for another slot,
  or one that arrives before the last answer was taken, is refused and leaves the core as it was.\<close>

theorem usb_message_answered:
  assumes "contact_driver sc sc_inv" and "usb_ok sc_inv u" and "message_ready u"
  shows "(usb_handle_message sc u = None \<longleftrightarrow>
      uh_rx_buffer u ! 5 = 0 \<and> \<not> uh_cmd_busy u \<and>
      (uh_rx_buffer u ! 0 = PC_TO_RDR_SECURE \<and>
       secure_panics (uh_core u) (take (declared_length u) (drop 10 (take (uh_rx_len u) (uh_rx_buffer u)))) \<or>
       overlong_answer 271 sc u)) \<and>
    (\<forall>u'. usb_handle_message sc u = Some u' \<longrightarrow> usb_ok sc_inv u' \<and>
      (if uh_rx_buffer u ! 5 = 0 \<and> \<not> uh_cmd_busy u then
         (if overlong_answer 261 sc u then uh_tx_len u' = 0
          else if uh_tx_len u' = 0 then session_opened u u'
          else answers_request (rx_header u) (uh_tx_buffer u') (uh_tx_len u'))
       else uh_core u' = uh_core u \<and> uh_tx_len u' = 10 \<and> failed_status (uh_tx_buffer u' ! 7)))"
proof (cases "uh_rx_buffer u ! 5 = 0 \<and> \<not> uh_cmd_busy u")
  case True
  have len: "10 \<le> uh_rx_len u" using assms(3) by (simp add: message_ready_def split: if_splits)
  show ?thesis
  proof (cases "overlong_answer 261 sc u")
    case over: True
    then have "uh_rx_buffer u ! 0 \<noteq> PC_TO_RDR_SECURE" by (simp add: overlong_answer_def)
    with contact_driver.overlong_message [OF assms _ _ over] True over show ?thesis by (auto split: option.splits)
  next
    case False
    note clip = contact_driver.clip_contract [OF assms(1)]
    note c = smartcard_driver.handle_message_cases [OF clip assms(2,3)]
      and p = smartcard_driver.secure_message_panics [OF clip assms(2,3)] and q = command_panics_assembled [OF assms(2,3)]
    have "\<not> overlong_answer 271 sc u" using False by (auto simp: overlong_answer_def exceeds_def split: sum.splits)
    with True False c p q clip_message [OF assms(2) len False] show ?thesis by (auto simp: tx_answers_def split: option.splits)
  qed
next
  case False
  have len: "10 \<le> uh_rx_len u" using assms(3) by (simp add: message_ready_def split: if_splits)
  have refused: "uh_core (send_slot_status sq COMMAND_STATUS_FAILED icc err u) = uh_core u \<and>
      uh_tx_len (send_slot_status sq COMMAND_STATUS_FAILED icc err u) = 10 \<and>
      failed_status (uh_tx_buffer (send_slot_status sq COMMAND_STATUS_FAILED icc err u) ! 7)" for sq icc err
    using usb_okD(3) [OF assms(2)] build_bstatus_failed(1)
    by (simp add: send_slot_status_def send_slot_status_with_clock_def write_slot_status_def put_tx_def write_message_fits
        header_build_def to_le_bytes32_def)
  with False len send_status_ok(2) [OF assms(2)] show ?thesis
    by (auto simp: usb_handle_message_def Let_def)
qed

section \<open>Packets in\<close>

fun receive_all :: "('d, 'e) smartcard_ops \<Rightarrow> bytes list \<Rightarrow> ('b, 'd) ccid_class \<Rightarrow> ('b, 'd) ccid_class outcome" where
  "receive_all sc [] c = Some c"
| "receive_all sc (p # ps) c = do { c \<leftarrow> receive sc p c; receive_all sc ps c }"

text \<open>The handler with the given bytes received.\<close>

definition with_rx :: "bytes \<Rightarrow> 'd usb_handler \<Rightarrow> 'd usb_handler" where
  "with_rx pre u = u\<lparr>uh_rx_buffer := pre @ drop (length pre) (uh_rx_buffer u), uh_rx_len := length pre\<rparr>"

definition whole_message :: "bytes \<Rightarrow> bool" where
  "whole_message msg \<longleftrightarrow> 10 \<le> length msg \<and> length msg \<le> MAX_CCID_MESSAGE_LENGTH \<and>
     10 + unat (from_le_bytes32 (msg ! 1) (msg ! 2) (msg ! 3) (msg ! 4)) = length msg"

lemma declared_with_rx:
  assumes "whole_message (pre @ rest)" "10 \<le> length pre"
  shows "declared_length (with_rx pre u) = length (pre @ rest) - 10"
proof -
  have "1 < length pre" "2 < length pre" "3 < length pre" "4 < length pre" using assms(2) by simp_all
  then have "declared_length (with_rx pre u) =
      unat (from_le_bytes32 ((pre @ rest) ! 1) ((pre @ rest) ! 2) ((pre @ rest) ! 3) ((pre @ rest) ! 4))"
    by (simp add: declared_length_def with_rx_def nth_append)
  then show ?thesis using assms(1) unfolding whole_message_def by linarith
qed

lemma feed_with_rx:
  assumes "length (uh_rx_buffer u) = 271" "whole_message (pre @ p @ rest)"
  shows "usb_feed p (with_rx pre u) = Some (with_rx (pre @ p) u)"
proof -
  have l: "length pre + length p \<le> 271" using assms(2) by (simp add: whole_message_def)
  let ?u = "with_rx (pre @ p) u"
  have "usb_feed p (with_rx pre u) = Some (drop_unassemblable ?u)"
    using l assms(1) by (simp add: usb_feed_def with_rx_def copy_at_def Let_def add.commute)
  moreover have "drop_unassemblable ?u = ?u"
    using declared_with_rx [of "pre @ p" rest u] assms l
    by (auto simp: drop_unassemblable_def declared_fits_def whole_message_def) (auto simp: with_rx_def)
  ultimately show ?thesis by simp
qed

lemma ready_with_rx:
  assumes "length (uh_rx_buffer u) = 271" "whole_message (pre @ rest)"
  shows "message_ready (with_rx pre u) \<longleftrightarrow> rest = []"
proof (cases "10 \<le> length pre")
  case True
  have l: "uh_rx_len (with_rx pre u) = length pre" "length (uh_rx_buffer (with_rx pre u)) = 271"
    using assms by (simp_all add: with_rx_def whole_message_def)
  show ?thesis using declared_with_rx [OF assms(2) True, of u] True assms(2)
    by (auto simp: message_ready_def l declared_fits_def whole_message_def)
next
  case False
  with assms(2) show ?thesis by (auto simp: message_ready_def with_rx_def whole_message_def)
qed

lemma receive_all_assembles:
  assumes "length (uh_rx_buffer (cc_core c)) = 271" "whole_message (pre @ concat ps)" "ps \<noteq> []" "[] \<notin> set ps"
  shows "receive_all sc ps (c\<lparr>cc_core := with_rx pre (cc_core c)\<rparr>) =
    map_option (\<lambda>core. c\<lparr>cc_core := core, cc_tx_offset := 0, cc_tx_pending := True\<rparr>)
      (usb_handle_message sc (with_rx (pre @ concat ps) (cc_core c)))"
  using assms(2-4)
proof (induction ps arbitrary: pre)
  case (Cons p ps)
  have w: "whole_message (pre @ p @ concat ps)" using Cons.prems by simp
  note f = feed_with_rx [OF assms(1) w]
  have r: "message_ready (with_rx (pre @ p) (cc_core c)) \<longleftrightarrow> concat ps = []"
    using ready_with_rx [OF assms(1), of "pre @ p" "concat ps"] w by simp
  show ?case
  proof (cases "ps = []")
    case True
    with f r show ?thesis
      by (cases "usb_handle_message sc (with_rx (pre @ p) (cc_core c))") (simp_all add: receive_def)
  next
    case False
    with Cons.prems have "concat ps \<noteq> []" by (cases ps) auto
    with r have "\<not> message_ready (with_rx (pre @ p) (cc_core c))" by simp
    with f have "receive sc p (c\<lparr>cc_core := with_rx pre (cc_core c)\<rparr>) = Some (c\<lparr>cc_core := with_rx (pre @ p) (cc_core c)\<rparr>)"
      by (simp add: receive_def)
    with Cons.IH [of "pre @ p"] w False Cons.prems show ?thesis by simp
  qed
qed simp

text \<open>C20: A message is the same however the host cuts it into packets.  To a class with an empty receive buffer
  the packets of one whole message of at most 271 bytes, in any number and of any sizes but zero, have exactly
  the effect of handling the message once, when its last byte has come; the class then has an answer to send.\<close>

theorem usb_packets_assembled:
  assumes "length (uh_rx_buffer (cc_core c)) = 271" and "uh_rx_len (cc_core c) = 0"
    and "whole_message (concat ps)" and "[] \<notin> set ps"
  shows "receive_all sc ps c =
    map_option (\<lambda>core. c\<lparr>cc_core := core, cc_tx_offset := 0, cc_tx_pending := True\<rparr>)
      (usb_handle_message sc (with_rx (concat ps) (cc_core c)))"
proof -
  have "c\<lparr>cc_core := with_rx [] (cc_core c)\<rparr> = c" using assms(2) by (cases c) (simp add: with_rx_def)
  moreover have "ps \<noteq> []" using assms(3) by (auto simp: whole_message_def)
  ultimately show ?thesis using receive_all_assembles [of c "[]" ps sc] assms by simp
qed

section \<open>Packets out\<close>

text \<open>
  What the class relies on of the endpoints: a write is taken whole or would block, and only writes to the bulk
  endpoint show on it.
\<close>

locale usb_wire =
  fixes ub :: "'b usb_bus"
    and sent :: "'b \<Rightarrow> bytes list"
  assumes write_in: "ub_write_in ub p b = (r, b') \<Longrightarrow>
      r = Inr (length p) \<and> sent b' = sent b @ [p] \<or> r = Inl WouldBlock \<and> sent b' = sent b"
    and write_int: "ub_write_int ub p b = (ri, b') \<Longrightarrow> sent b' = sent b"
    and read_out: "ub_read_out ub b = (ro, b') \<Longrightarrow> sent b' = sent b"

definition usb_packets :: "bytes \<Rightarrow> bytes list" where
  "usb_packets resp = map (\<lambda>i. take PACKET_SIZE (drop (PACKET_SIZE * i) resp)) [0..<length resp div PACKET_SIZE + 1]"

fun send_times :: "'b usb_bus \<Rightarrow> nat \<Rightarrow> ('b, 'd) ccid_class \<Rightarrow> ('b, 'd) ccid_class outcome" where
  "send_times ub 0 c = Some c"
| "send_times ub (Suc k) c = do { c \<leftarrow> try_send ub c; send_times ub k c }"

text \<open>The class after \<open>j\<close> packets of an answer of \<open>len\<close> bytes have been taken.\<close>

definition sending :: "nat \<Rightarrow> nat \<Rightarrow> 'b \<Rightarrow> ('b, 'd) ccid_class \<Rightarrow> ('b, 'd) ccid_class" where
  "sending len j b c =
     (if PACKET_SIZE * j < len then c\<lparr>cc_bus := b, cc_tx_offset := PACKET_SIZE * j\<rparr>
      else (finish_tx c)\<lparr>cc_bus := b, cc_needs_zlp := (j < len div PACKET_SIZE + 1)\<rparr>)"

lemma packets_nth: "j < length resp div 64 + 1 \<Longrightarrow> usb_packets resp ! j = take 64 (drop (64 * j) resp)"
  unfolding usb_packets_def by (subst nth_map) (simp_all del: upt_Suc)

lemma packets_length [simp]: "length (usb_packets resp) = length resp div 64 + 1"
  by (simp add: usb_packets_def)

lemma packets_snoc:
  assumes "j < length resp div 64 + 1"
  shows "take (Suc j) (usb_packets resp) = take j (usb_packets resp) @ [take 64 (drop (64 * j) resp)]"
  using assms by (simp add: take_Suc_conv_app_nth packets_nth)

context usb_wire
begin

lemma try_send_step:
  assumes "cc_tx_pending c" "\<not> cc_needs_zlp c" "slice (uh_tx_buffer (cc_core c)) 0 (uh_tx_len (cc_core c)) = Some resp"
    "j \<le> length resp div 64 + 1" "resp \<noteq> []"
  shows "\<exists>b'. try_send ub (sending (length resp) j b c) = Some (sending (length resp) j b' c) \<and> sent b' = sent b \<and>
      (j < length resp div 64 + 1 \<longrightarrow> (\<exists>p. fst (ub_write_in ub p b) = Inl WouldBlock)) \<or>
    j < length resp div 64 + 1 \<and>
      try_send ub (sending (length resp) j b c) = Some (sending (length resp) (Suc j) b' c) \<and>
      sent b' = sent b @ [take 64 (drop (64 * j) resp)]"
proof -
  let ?n = "length resp" and ?p = "take 64 (drop (64 * j) resp)"
  obtain r b' where w: "ub_write_in ub ?p b = (r, b')" by fastforce
  consider (more) "64 * j < ?n" | (zlp) "\<not> 64 * j < ?n" "j < ?n div 64 + 1" | (over) "\<not> 64 * j < ?n" "j = ?n div 64 + 1"
    using assms(4) by linarith
  then show ?thesis
  proof cases
    case more
    have jl: "j < ?n div 64 + 1" using more by linarith
    have sl: "slice resp (64 * j) (64 * j + min (?n - 64 * j) 64) = Some ?p"
      using more by (auto simp: slice_def min_def)
    have lp: "length ?p = min (?n - 64 * j) 64" by simp
    show ?thesis
    proof (cases "r = Inr (length ?p)")
      case True
      have s: "sent b' = sent b @ [?p]" using write_in [OF w] True by auto
      have "try_send ub (sending ?n j b c) = Some (sending ?n (Suc j) b' c)"
      proof (cases "64 * Suc j < ?n")
        case True
        then show ?thesis using more assms w \<open>r = _\<close> sl lp by (simp add: try_send_def sending_def)
      next
        case False
        have e: "64 * j + length ?p = ?n" using False more by simp
        have z: "?n mod 64 = 0 \<longleftrightarrow> Suc j < ?n div 64 + 1" 
        proof (cases "?n = 64 * Suc j")
          case short: False
          then have "?n div 64 = j" using False more by simp
          with div_mult_mod_eq [of ?n 64] more show ?thesis by simp
        qed simp
        show ?thesis using more False assms w \<open>r = _\<close> sl e z
          by (cases c) (simp add: try_send_def sending_def finish_tx_def Let_def)
      qed
      with s jl show ?thesis by blast
    next
      case False
      with write_in [OF w] have b: "r = Inl WouldBlock" "sent b' = sent b" by auto
      then have "try_send ub (sending ?n j b c) = Some (sending ?n j b' c)"
        using more assms w sl by (simp add: try_send_def sending_def)
      moreover have "fst (ub_write_in ub ?p b) = Inl WouldBlock" using w b by simp
      ultimately show ?thesis using b by blast
    qed
  next
    case zlp
    then have e: "?p = []" by simp
    have nj: "Suc j = ?n div 64 + 1" using zlp by linarith
    show ?thesis
    proof (cases "r = Inr (length ?p)")
      case True
      have "sent b' = sent b @ [?p]" using write_in [OF w] True by auto
      moreover have "try_send ub (sending ?n j b c) = Some (sending ?n (Suc j) b' c)"
        using zlp nj w True e by (simp add: try_send_def sending_def)
      ultimately show ?thesis using zlp by blast
    next
      case False
      with write_in [OF w] have b: "r = Inl WouldBlock" "sent b' = sent b" by auto
      then have "try_send ub (sending ?n j b c) = Some (sending ?n j b' c)"
        using zlp w e by (simp add: try_send_def sending_def)
      moreover have "fst (ub_write_in ub ?p b) = Inl WouldBlock" using w b by simp
      ultimately show ?thesis using b by blast
    qed
  next
    case over
    then have "try_send ub (sending ?n j b c) = Some (sending ?n j b c)"
      by (simp add: try_send_def sending_def finish_tx_def)
    then show ?thesis using over by blast
  qed
qed

end

context usb_wire
begin

lemma send_times_sending:
  assumes "cc_tx_pending c" "\<not> cc_needs_zlp c" "slice (uh_tx_buffer (cc_core c)) 0 (uh_tx_len (cc_core c)) = Some resp"
    "j \<le> length resp div 64 + 1" "resp \<noteq> []" "sent b = base @ take j (usb_packets resp)"
  shows "\<exists>j' b'. send_times ub k (sending (length resp) j b c) = Some (sending (length resp) j' b' c) \<and>
    j' \<le> length resp div 64 + 1 \<and> sent b' = base @ take j' (usb_packets resp) \<and>
    ((\<forall>p b. fst (ub_write_in ub p b) \<noteq> Inl WouldBlock) \<longrightarrow> j' = min (j + k) (length resp div 64 + 1))"
  using assms(4,6)
proof (induction k arbitrary: j b)
  case 0
  then show ?case by (auto simp: min_def)
next
  case (Suc k)
  from try_send_step [OF assms(1-3) Suc.prems(1) assms(5), of b] show ?case
  proof (elim exE disjE conjE)
    fix b'
    assume t: "try_send ub (sending (length resp) j b c) = Some (sending (length resp) j b' c)" "sent b' = sent b"
      and blocked: "j < length resp div 64 + 1 \<longrightarrow> (\<exists>p. fst (ub_write_in ub p b) = Inl WouldBlock)"
    from Suc.IH [OF Suc.prems(1), of b'] Suc.prems(2) t(2) obtain j' b'' where i:
      "send_times ub k (sending (length resp) j b' c) = Some (sending (length resp) j' b'' c)"
      "j' \<le> length resp div 64 + 1" "sent b'' = base @ take j' (usb_packets resp)"
      "(\<forall>p b. fst (ub_write_in ub p b) \<noteq> Inl WouldBlock) \<longrightarrow> j' = min (j + k) (length resp div 64 + 1)" by auto
    have "(\<forall>p b. fst (ub_write_in ub p b) \<noteq> Inl WouldBlock) \<longrightarrow> j' = min (j + Suc k) (length resp div 64 + 1)"
      using i(2,4) blocked Suc.prems(1) by (auto simp: min_def split: if_splits)
    with i t(1) show ?thesis by auto
  next
    fix b'
    assume lt: "j < length resp div 64 + 1"
      and t: "try_send ub (sending (length resp) j b c) = Some (sending (length resp) (Suc j) b' c)"
        "sent b' = sent b @ [take 64 (drop (64 * j) resp)]"
    have "sent b' = base @ take (Suc j) (usb_packets resp)" using t(2) Suc.prems(2) packets_snoc [OF lt] by simp
    from Suc.IH [OF _ this] lt t(1) show ?thesis by auto
  qed
qed

end

lemma sending_start: "resp \<noteq> [] \<Longrightarrow> cc_tx_offset c = 0 \<Longrightarrow> sending (length resp) 0 (cc_bus c) c = c"
  by (cases c) (simp add: sending_def)

definition class_idle :: "('b, 'd) ccid_class \<Rightarrow> bool" where
  "class_idle c \<longleftrightarrow> \<not> cc_tx_pending c \<and> \<not> cc_needs_zlp c \<and> \<not> uh_cmd_busy (cc_core c) \<and> uh_rx_len (cc_core c) = 0"

text \<open>C21: An answer reaches the host whole, once and in order.  From the moment an answer of the handler is
  pending, on endpoints that take a packet whole or block, whatever the pattern of blocking: after any number
  of sends the host has a prefix of the answer's packets, which are its bytes cut every 64 with a last packet
  shorter than 64, empty if need be; the class is idle again, ready for the next command, exactly when the host
  has them all; and on an endpoint that never blocks every send puts one more packet through.\<close>

theorem usb_answer_delivered:
  assumes "usb_wire ub sent" and "cc_tx_pending c" and "\<not> cc_needs_zlp c" and "cc_tx_offset c = 0"
    and "uh_tx_len (cc_core c) \<le> length (uh_tx_buffer (cc_core c))"
    and "resp = take (uh_tx_len (cc_core c)) (uh_tx_buffer (cc_core c))" and "resp \<noteq> []"
  shows "\<exists>c' j. send_times ub k c = Some c' \<and> j \<le> length (usb_packets resp) \<and>
    sent (cc_bus c') = sent (cc_bus c) @ take j (usb_packets resp) \<and> concat (usb_packets resp) = resp \<and>
    (class_idle c' \<longleftrightarrow> j = length (usb_packets resp)) \<and>
    ((\<forall>p b. fst (ub_write_in ub p b) \<noteq> Inl WouldBlock) \<longrightarrow> j = min k (length (usb_packets resp)))"
proof -
  have sl: "slice (uh_tx_buffer (cc_core c)) 0 (uh_tx_len (cc_core c)) = Some resp"
    using assms(5,6) by (simp add: slice_prefix)
  from usb_wire.send_times_sending [OF assms(1-3) sl, of 0 "cc_bus c" "sent (cc_bus c)" k] assms(7)
    sending_start [OF assms(7,4)]
  obtain j b where r: "send_times ub k c = Some (sending (length resp) j b c)" "j \<le> length resp div 64 + 1"
    "sent b = sent (cc_bus c) @ take j (usb_packets resp)"
    "(\<forall>p b. fst (ub_write_in ub p b) \<noteq> Inl WouldBlock) \<longrightarrow> j = min k (length resp div 64 + 1)" by auto
  have "concat (usb_packets resp) = resp"
  proof -
    have "concat (map (\<lambda>i. take 64 (drop (64 * i) resp)) [0..<n]) = take (64 * n) resp" for n
    proof (induction n)
      case (Suc n)
      then show ?case using take_add [of "64 * n" 64 resp] by (simp add: add.commute)
    qed simp
    then show ?thesis by (simp add: usb_packets_def)
  qed
  moreover have "class_idle (sending (length resp) j b c) \<longleftrightarrow> j = length resp div 64 + 1"
    using r(2) assms(2) by (auto simp: class_idle_def sending_def finish_tx_def take_response_def)
  moreover have "cc_bus (sending (length resp) j b c) = b" by (simp add: sending_def)
  ultimately show ?thesis using r by auto
qed

section \<open>PIN answers\<close>

fun class_polls :: "('d, 'e) smartcard_ops \<Rightarrow> 'b usb_bus \<Rightarrow> u32 list \<Rightarrow> ('b, 'd) ccid_class \<Rightarrow> ('b, 'd) ccid_class outcome" where
  "class_polls sc ub [] c = Some c"
| "class_polls sc ub (now # nows) c = do { c \<leftarrow> class_poll sc ub now c; class_polls sc ub nows c }"

text \<open>Nothing of the transmit buffer has gone out and nothing will: the class has no answer pending.\<close>

definition quiet :: "('b \<Rightarrow> bytes list) \<Rightarrow> bytes \<Rightarrow> nat \<Rightarrow> bytes \<Rightarrow> ('b, 'd) ccid_class \<Rightarrow> bool" where
  "quiet sent tx n got c \<longleftrightarrow> \<not> cc_tx_pending c \<and> uh_tx_buffer (cc_core c) = tx \<and> uh_tx_len (cc_core c) = n \<and>
     concat (sent (cc_bus c)) = got"

context usb_wire
begin

lemma try_send_quiet:
  assumes "quiet sent tx n got c"
  shows "\<exists>c'. try_send ub c = Some c' \<and> quiet sent tx n got c'"
proof (cases "cc_needs_zlp c")
  case True
  obtain r b where w: "ub_write_in ub [] (cc_bus c) = (r, b)" by fastforce
  from write_in [OF w] show ?thesis using True assms w by (auto simp: try_send_def quiet_def)
next
  case False
  then show ?thesis using assms by (simp add: try_send_def quiet_def)
qed

lemma class_poll_quiet:
  assumes "quiet sent tx n got c" "\<And>b. isl (fst (ub_read_out ub b))"
  shows "\<exists>c'. class_poll sc ub now c = Some c' \<and> quiet sent tx n got c'"
proof -
  obtain ch core where p: "check_card_presence sc (poll_diagnostics sc now (cc_core c)) = (ch, core)" by fastforce
  then have core: "uh_tx_buffer core = uh_tx_buffer (cc_core c)" "uh_tx_len core = uh_tx_len (cc_core c)"
    by (auto simp: check_card_presence_def poll_diagnostics_def Let_def split: prod.splits)
  define c1 where "c1 = (let c = c\<lparr>cc_core := core\<rparr> in
    if ch = Some True then send_notify_slot_change ub (usb_is_card_present sc (cc_core c)) True c else c)"
  have poll: "class_poll sc ub now c = do {
      c \<leftarrow> try_send ub c1;
      c \<leftarrow> (case ub_read_out ub (cc_bus c) of
             (Inr data, b) \<Rightarrow> receive sc data (c\<lparr>cc_bus := b\<rparr>) | (Inl _, b) \<Rightarrow> Some (c\<lparr>cc_bus := b\<rparr>));
      try_send ub c
    }"
    by (simp add: class_poll_def p c1_def Let_def)
  have "quiet sent tx n got c1"
    using assms(1) core write_int [OF surjective_pairing]
    by (auto simp: c1_def quiet_def send_notify_slot_change_def Let_def)
  from try_send_quiet [OF this] obtain c2 where c2: "try_send ub c1 = Some c2" "quiet sent tx n got c2" by blast
  obtain r b where r: "ub_read_out ub (cc_bus c2) = (r, b)" by fastforce
  with assms(2) [of "cc_bus c2"] obtain e where e: "r = Inl e" by (cases r) auto
  have "quiet sent tx n got (c2\<lparr>cc_bus := b\<rparr>)" using c2(2) read_out [OF r] by (simp add: quiet_def)
  from try_send_quiet [OF this] show ?thesis
    using poll c2(1) r e by simp
qed

lemma class_polls_quiet:
  assumes "quiet sent tx n got c" "\<And>b. isl (fst (ub_read_out ub b))"
  shows "\<exists>c'. class_polls sc ub nows c = Some c' \<and> quiet sent tx n got c'"
  using assms(1)
proof (induction nows arbitrary: c)
  case (Cons now nows)
  from class_poll_quiet [OF Cons.prems assms(2), of sc now] obtain c1 where
    "class_poll sc ub now c = Some c1" "quiet sent tx n got c1" by blast
  with Cons.IH [of c1] show ?case by simp
qed simp

end

text \<open>The commands for the card that a verified and a changed PIN make; none when the digits are refused.\<close>

definition verify_apdu :: "pin_buffer \<Rightarrow> pin_verify_params \<Rightarrow> bytes option" where
  "verify_apdu buffer params =
     (let vb = verify_from_template (pv_apdu_template params ! 0) (pv_apdu_template params ! 2) (pv_apdu_template params ! 3);
          pin = map (\<lambda>d. d + 0x30) (pin_abs buffer)
      in if verify_accepts vb pin then Some ([vb_cla vb, 0x20, vb_p1 vb, vb_p2 vb, word_of_nat (length pin)] @ pin) else None)"

definition modify_apdu :: "pin_buffer \<Rightarrow> pin_buffer \<Rightarrow> pin_modify_params \<Rightarrow> bytes option" where
  "modify_apdu old_buffer new_buffer params =
     (let mb = modify_from_template (pm_apdu_template params ! 0) (pm_apdu_template params ! 2) (pm_apdu_template params ! 3)
                 (unat (pm_old_pin_offset params)) (unat (pm_new_pin_offset params));
          old = map (\<lambda>d. d + 0x30) (pin_abs old_buffer); new = map (\<lambda>d. d + 0x30) (pin_abs new_buffer)
      in if modify_accepts mb old new
         then Some ([mb_cla mb, 0x24, mb_p1 mb, mb_p2 mb, word_of_nat (length old + length new)] @ old @ new) else None)"

text \<open>
  The answer to an entry, in the transmit buffer of \<open>u'\<close>: the card's answer to the command, or a refusal of the digits,
  or the failure the entry ended with.
\<close>

definition entry_answered ::
    "('d, 'e) smartcard_ops \<Rightarrow> 'd usb_handler \<Rightarrow> u8 \<Rightarrow> pin_result \<Rightarrow> bytes option \<Rightarrow> 'd usb_handler \<Rightarrow> bool" where
  "entry_answered sc u sq result apdu u' \<longleftrightarrow>
     (if result \<noteq> PinSuccess then
        message_at (uh_tx_buffer u') (uh_tx_len u') RDR_TO_PC_DATABLOCK 0 sq (slot_status_failed (get_icc_status u))
          (fst (snd (pin_outcome result None))) 0 []
      else
        (case apdu of
           Some a \<Rightarrow> pin_answer (contact_ops sc) (uh_core u) sq a (uh_core u') (uh_tx_buffer u') (uh_tx_len u')
         | None \<Rightarrow> pin_rejected (uh_core u) sq (uh_core u') (uh_tx_buffer u') (uh_tx_len u')))"

text \<open>The one result that waits to be answered: its sequence number, its kind and the command it makes.\<close>

inductive entry_pending :: "'d usb_handler \<Rightarrow> u8 \<Rightarrow> pin_result \<Rightarrow> bytes option \<Rightarrow> bool" where
  verify: "uh_pin_result_pending u = Some (sq, result, buffer, params) \<Longrightarrow> uh_pin_modify_result_pending u = None \<Longrightarrow>
     pin_buffer_ok buffer \<Longrightarrow> entry_pending u sq result (verify_apdu buffer params)"
| modify: "uh_pin_modify_result_pending u = Some (sq, result, old_buffer, new_buffer, params) \<Longrightarrow> uh_pin_result_pending u = None \<Longrightarrow>
     pin_buffer_ok old_buffer \<Longrightarrow> pin_buffer_ok new_buffer \<Longrightarrow>
     entry_pending u sq result (modify_apdu old_buffer new_buffer params)"

lemma entry_failed:
  assumes "complete_pin_entry h sq result None out = Some (h', out', n)" "result \<noteq> PinSuccess" "10 \<le> length out"
  shows "message_at out' n RDR_TO_PC_DATABLOCK 0 sq (slot_status_failed (current_icc_status h)) (fst (snd (pin_outcome result None))) 0 []"
  using complete_pin_entry_written [OF assms(1)] assms(2,3) by (cases result) (simp_all add: slot_status_failed_def)

context contact_driver
begin

lemma sc_pin_apdu:
  assumes "usb_ok sc_inv u" "transmit_pin_apdu (contact_ops sc) (uh_core u) sq apdu (uh_tx_buffer u) = Some (h', out', n)"
  shows "pin_answer (contact_ops sc) (uh_core u) sq apdu h' out' n"
proof -
  obtain r buf d where t: "sc_transmit_apdu sc (sa_driver (h_nfc (uh_core u))) apdu (replicate 261 0) = (r, buf, d)" by (rule prod_cases3)
  have "length buf = 261" using sc_transmit [OF _ t] usb_okD(1) [OF assms(1)] by (simp add: handler_ok_def)
  moreover have "d_transmit_apdu (contact_ops sc) (h_nfc (uh_core u)) apdu (replicate 261 0) =
      (r, buf, (h_nfc (uh_core u))\<lparr>sa_driver := d\<rparr>)"
    using t by (simp add: contact_ops_def)
  ultimately show ?thesis using pin_apdu_answered [OF _ _ _ assms(2)] usb_okD(3) [OF assms(1)] by simp
qed

lemma verify_entry_answered:
  assumes u: "usb_ok sc_inv u" and ok: "pin_buffer_ok buffer"
    and r: "complete_pin_verify_exchange (contact_ops sc) (uh_core u) sq result buffer params (uh_tx_buffer u) =
      Some (uh_core w, uh_tx_buffer w, uh_tx_len w)"
  shows "entry_answered sc u sq result (verify_apdu buffer params) w"
proof (cases "result = PinSuccess")
  case True
  with r usb_okD(3) [OF u] show ?thesis
    by (auto simp: entry_answered_def verify_apdu_def verify_exchange_cases [OF ok] Let_def split: if_splits
        dest: complete_rejected sc_pin_apdu [OF u])
next
  case False
  with r entry_failed [of "uh_core u"] usb_okD(3) [OF u] show ?thesis
    by (auto simp: entry_answered_def complete_pin_verify_exchange_def get_icc_status_def current_icc_status_def)
qed

lemma modify_entry_answered:
  assumes u: "usb_ok sc_inv u" and ok: "pin_buffer_ok old_buffer" "pin_buffer_ok new_buffer"
    and r: "complete_pin_modify_exchange (contact_ops sc) (uh_core u) sq result old_buffer new_buffer params (uh_tx_buffer u) =
      Some (uh_core w, uh_tx_buffer w, uh_tx_len w)"
  shows "entry_answered sc u sq result (modify_apdu old_buffer new_buffer params) w"
proof (cases "result = PinSuccess")
  case True
  with r usb_okD(3) [OF u] show ?thesis
    by (auto simp: entry_answered_def modify_apdu_def modify_exchange_cases [OF ok] Let_def split: if_splits
        dest: complete_rejected sc_pin_apdu [OF u])
next
  case False
  with r entry_failed [of "uh_core u"] usb_okD(3) [OF u] show ?thesis
    by (auto simp: entry_answered_def complete_pin_modify_exchange_def get_icc_status_def current_icc_status_def)
qed

lemma pending_entry_answered:
  assumes "usb_ok sc_inv (cc_core c)" "entry_pending (cc_core c) sq result apdu" "class_process_pin_results sc c = Some c1"
  shows "entry_answered sc (cc_core c) sq result apdu (cc_core c1)"
  using assms(2)
proof cases
  case (verify buffer params)
  with assms(3) show ?thesis
    by (auto simp: class_process_pin_results_def process_pin_result_def process_pin_modify_result_def split: bind_splits
        intro!: verify_entry_answered [OF assms(1) verify(4)])
next
  case (modify old_buffer new_buffer params)
  with assms(3) show ?thesis
    by (auto simp: class_process_pin_results_def process_pin_result_def process_pin_modify_result_def split: bind_splits
        intro!: modify_entry_answered [OF assms(1) modify(4,5)])
qed

end

text \<open>C22: The answer to a PIN entry is built and never sent.  The main loop hands the result of an entry (a PIN to
  verify, or an old and a new one) to the class.  With a driver that meets its contract, in a state that satisfies the
  invariant and when building the answer does not panic, the transmit buffer then holds the answer the host
  waits for: a data block for slot 0 with the sequence number of the PIN request, carrying what the card answered
  to the command made of the entered digits, or a failure when the digits are refused, the card fails or the entry
  was cancelled or timed out.  But the class does not mark it for sending: however long the class is polled after that
  while the host sends nothing more, not one byte leaves the reader, and the answer stays in the buffer.\<close>

theorem usb_pin_answer_lost:
  assumes "usb_wire ub sent" and "\<And>b. isl (fst (ub_read_out ub b))" and "\<not> cc_tx_pending c"
    and "contact_driver sc sc_inv" and "usb_ok sc_inv (cc_core c)" and "entry_pending (cc_core c) sq result apdu"
    and "class_process_pin_results sc c = Some c1"
  shows "entry_answered sc (cc_core c) sq result apdu (cc_core c1) \<and>
    (\<exists>c'. class_polls sc ub nows c1 = Some c' \<and> concat (sent (cc_bus c')) = concat (sent (cc_bus c)) \<and>
      uh_tx_buffer (cc_core c') = uh_tx_buffer (cc_core c1) \<and> uh_tx_len (cc_core c') = uh_tx_len (cc_core c1) \<and>
      \<not> cc_tx_pending c')"
proof
  show "entry_answered sc (cc_core c) sq result apdu (cc_core c1)"
    by (rule contact_driver.pending_entry_answered [OF assms(4-7)])
  have "cc_bus c1 = cc_bus c" "\<not> cc_tx_pending c1"
    using assms(3,7) by (auto simp: class_process_pin_results_def split: bind_splits)
  then have "quiet sent (uh_tx_buffer (cc_core c1)) (uh_tx_len (cc_core c1)) (concat (sent (cc_bus c))) c1"
    by (simp add: quiet_def)
  from usb_wire.class_polls_quiet [OF assms(1) this assms(2), of sc nows]
  show "\<exists>c'. class_polls sc ub nows c1 = Some c' \<and> concat (sent (cc_bus c')) = concat (sent (cc_bus c)) \<and>
      uh_tx_buffer (cc_core c') = uh_tx_buffer (cc_core c1) \<and> uh_tx_len (cc_core c') = uh_tx_len (cc_core c1) \<and>
      \<not> cc_tx_pending c'"
    by (auto simp: quiet_def)
qed

section \<open>Concrete instances\<close>

record wire =
  wr_out :: "bytes list"
  wr_in :: "bytes list"
  wr_int :: "bytes list"

definition wire_bus :: "wire usb_bus" where
  "wire_bus =
     \<lparr>ub_write_in = (\<lambda>p w. (Inr (length p), w\<lparr>wr_in := wr_in w @ [p]\<rparr>)),
      ub_write_int = (\<lambda>p w. (Inr (length p), w\<lparr>wr_int := wr_int w @ [p]\<rparr>)),
      ub_read_out = (\<lambda>w. case wr_out w of [] \<Rightarrow> (Inl WouldBlock, w) | p # ps \<Rightarrow> (Inr p, w\<lparr>wr_out := ps\<rparr>))\<rparr>"

interpretation wire: usb_wire wire_bus wr_in
  by unfold_locales (auto simp: wire_bus_def split: list.splits)

definition silent_bus :: "wire usb_bus" where
  "silent_bus = wire_bus\<lparr>ub_read_out := (\<lambda>w. (Inl WouldBlock, w))\<rparr>"

interpretation silent: usb_wire silent_bus wr_in
  by unfold_locales (auto simp: silent_bus_def wire_bus_def)

abbreviation no_packets :: wire where "no_packets \<equiv> \<lparr>wr_out = [], wr_in = [], wr_int = []\<rparr>"

lemma usb_handler_new_clip: "usb_handler_new (clip_count sc) = usb_handler_new sc"
proof -
  have ops: "d_session_active (contact_ops (clip_count sc)) = d_session_active (contact_ops sc)"
    "d_poll_card_presence (contact_ops (clip_count sc)) = d_poll_card_presence (contact_ops sc)"
    "d_reinit_count (contact_ops (clip_count sc)) = d_reinit_count (contact_ops sc)"
    by (simp_all add: contact_ops_def)
  have "check_card_change ContactProfile (contact_ops (clip_count sc)) = check_card_change ContactProfile (contact_ops sc)"
    unfolding fun_eq_iff check_card_change_def ops clip_ops by simp
  moreover have "with_profile ContactProfile (contact_ops (clip_count sc)) = with_profile ContactProfile (contact_ops sc)"
    unfolding fun_eq_iff with_profile_def ops by simp
  moreover have "sc_diagnostics (clip_count sc) = sc_diagnostics sc" by (simp add: clip_count_def)
  ultimately show ?thesis by (intro ext) (simp add: usb_handler_new_def)
qed

context contact_driver
begin

lemma usb_handler_new_ok:
  assumes "sc_inv d"
  shows "usb_ok sc_inv (usb_handler_new sc clock_hz d vendor_id)"
proof -
  have "slot_driver (contact_ops (clip_count sc)) (adapted sc_inv)"
    by (rule smartcard_driver.contact_slot_driver [OF clip_contract])
  then have "usb_ok sc_inv (usb_handler_new (clip_count sc) clock_hz d vendor_id)"
    unfolding usb_ok_def usb_handler_new_def Let_def using assms
    by (auto simp: surjective_pairing
        intro!: slot_driver.check_card_change_ok [OF _ _ surjective_pairing] bookkeeping_ok with_profile_ok)
  then show ?thesis by (simp add: usb_handler_new_clip)
qed

end

definition demo_usb :: "mock_smartcard usb_handler" where
  "demo_usb = usb_handler_new mock_sc 1000 mock_smartcard_new 0x046A"

lemma demo_usb_ok: "usb_ok mock_sc_ok demo_usb"
  unfolding demo_usb_def by (rule mock_card.usb_handler_new_ok) (simp add: mock_sc_ok_def mock_smartcard_new_def)

definition demo_class :: "(wire, mock_smartcard) ccid_class" where
  "demo_class = ccid_class_new mock_sc 1000 0x046A no_packets mock_smartcard_new"

abbreviation slot_status_request :: bytes where "slot_status_request \<equiv> [0x65, 0, 0, 0, 0, 0, 7, 0, 0, 0]"

lemma slot_status_request_whole: "whole_message slot_status_request"
  by (simp add: whole_message_def from_le_bytes32_def)

lemma with_rx_ok: "usb_ok sc_inv u \<Longrightarrow> length m \<le> 271 \<Longrightarrow> usb_ok sc_inv (with_rx m u)"
  by (simp add: usb_ok_def with_rx_def)

text \<open>A slot-status request to the reader with the USART driver, in whatever state that driver is.\<close>

abbreviation sim_card :: "(usart_sim uart_wrapper option, smartcard_error) smartcard_ops" where
  "sim_card \<equiv> wrapper_sc (uart_io sim_hw SMARTCARD_CONFIG_DEFAULT) sim_hw"

theorem usb_message_answered_witness:
  "\<forall>d. \<exists>u'. usb_handle_message sim_card (with_rx slot_status_request (usb_handler_new sim_card 1000 d 0x046A)) = Some u' \<and>
     uh_tx_len u' \<noteq> 0 \<and> uh_tx_buffer u' ! 6 = 7"
proof
  fix d
  let ?new = "usb_handler_new sim_card 1000 d 0x046A"
  let ?u = "with_rx slot_status_request ?new"
  have new: "usb_ok (\<lambda>_. True) ?new" by (rule uart_card.usb_handler_new_ok) simp
  have u: "usb_ok (\<lambda>_. True) ?u" by (rule with_rx_ok [OF new]) simp
  have r: "message_ready ?u"
    using ready_with_rx [of ?new slot_status_request "[]"] usb_okD(2) [OF new] slot_status_request_whole by simp
  have b: "uh_rx_buffer ?u ! 0 = 0x65" "uh_rx_buffer ?u ! 5 = 0" "\<not> uh_cmd_busy ?u" "uh_rx_buffer ?u ! 6 = 7" "10 \<le> uh_rx_len ?u"
    by (simp_all add: with_rx_def usb_handler_new_def)
  have x: "\<not> overlong_answer k sim_card ?u" for k using b(1) by (simp add: overlong_answer_def)
  have p: "\<not> session_opened ?u u'" for u'
    using b(1) rx_header_parse(2) [OF u b(5)] by (auto simp: session_opened_def opens_pin_session_def)
  note w = usb_message_answered [OF uart_card.contact_driver_axioms [of "uart_io sim_hw SMARTCARD_CONFIG_DEFAULT" sim_hw] u r]
  from w b x obtain u' where u': "usb_handle_message sim_card ?u = Some u'" by auto
  with w b x p have "uh_tx_len u' \<noteq> 0" "answers_request (rx_header ?u) (uh_tx_buffer u') (uh_tx_len u')" by (simp_all split: if_splits)
  moreover from this have "uh_tx_buffer u' ! 6 = 7"
    using rx_header_parse(4) [OF u b(5)] b(4) by (auto simp: answers_request_def header_parse_def Let_def split: if_splits option.splits)
  ultimately show "\<exists>u'. usb_handle_message sim_card ?u = Some u' \<and> uh_tx_len u' \<noteq> 0 \<and> uh_tx_buffer u' ! 6 = 7"
    using u' by blast
qed

theorem usb_packets_assembled_witness:
  "receive_all mock_sc [take 4 slot_status_request, drop 4 slot_status_request] demo_class =
   receive_all mock_sc [slot_status_request] demo_class"
proof -
  have c: "length (uh_rx_buffer (cc_core demo_class)) = 271" "uh_rx_len (cc_core demo_class) = 0"
    by (simp_all add: demo_class_def ccid_class_new_def usb_handler_new_def)
  show ?thesis
    using usb_packets_assembled [OF c, of "[take 4 slot_status_request, drop 4 slot_status_request]" mock_sc]
      usb_packets_assembled [OF c, of "[slot_status_request]" mock_sc] slot_status_request_whole by simp
qed

theorem usb_answer_delivered_witness:
  "\<exists>c'. send_times wire_bus 1
      (demo_class\<lparr>cc_core := (cc_core demo_class)\<lparr>uh_tx_len := 10\<rparr>, cc_tx_pending := True\<rparr>) = Some c' \<and>
    wr_in (cc_bus c') = [replicate 10 0]"
proof -
  let ?c = "demo_class\<lparr>cc_core := (cc_core demo_class)\<lparr>uh_tx_len := 10\<rparr>, cc_tx_pending := True\<rparr>"
  have f: "cc_tx_pending ?c" "\<not> cc_needs_zlp ?c" "cc_tx_offset ?c = 0"
    "uh_tx_len (cc_core ?c) \<le> length (uh_tx_buffer (cc_core ?c))"
    "replicate 10 0 = take (uh_tx_len (cc_core ?c)) (uh_tx_buffer (cc_core ?c))" "replicate 10 0 \<noteq> ([] :: bytes)"
    "wr_in (cc_bus ?c) = []"
    by (simp_all add: demo_class_def ccid_class_new_def usb_handler_new_def)
  have "\<forall>p b. fst (ub_write_in wire_bus p b) \<noteq> Inl WouldBlock" by (simp add: wire_bus_def)
  moreover have "usb_packets (replicate 10 0) = [replicate 10 0]" by (simp add: usb_packets_def)
  ultimately show ?thesis
    using usb_answer_delivered [OF wire.usb_wire_axioms f(1-6), of 1] f(7) by auto
qed

definition demo_pin_class :: "(wire, mock_smartcard) ccid_class" where
  "demo_pin_class = demo_class\<lparr>cc_core := set_pin_result 7 PinSuccess six_digits pin_verify_default (cc_core demo_class)\<rparr>"

abbreviation six_digit_verify :: bytes where
  "six_digit_verify \<equiv> [0x00, 0x20, 0x00, 0x81, 6, 0x31, 0x32, 0x33, 0x34, 0x35, 0x36]"

lemma six_digit_apdu: "verify_apdu six_digits pin_verify_default = Some six_digit_verify"
  unfolding verify_apdu_def six_digits_ok(2)
  by (simp add: pin_verify_default_def verify_accepts_def verify_from_template_def is_ascii_digit_def)

lemma demo_pin_answers:
  assumes "usb_ok mock_sc_ok u"
  shows "\<exists>q. complete_pin_verify_exchange (contact_ops mock_sc) (uh_core u) 7 PinSuccess six_digits pin_verify_default out = Some q"
proof -
  have "verify_accepts (verify_from_template 0 0 0x81) (map (\<lambda>d. d + 0x30) (pin_abs six_digits))"
    unfolding six_digits_ok(2) by (simp add: verify_accepts_def verify_from_template_def is_ascii_digit_def)
  moreover have "length (pin_abs six_digits) = 6" unfolding six_digits_ok(2) by simp
  ultimately show ?thesis
    using mock_card.slot.transmit_pin_apdu_ok [OF usb_okD(1) [OF assms]]
    unfolding verify_exchange_cases [OF six_digits_ok(1)] by (simp add: pin_verify_default_def) blast
qed

theorem usb_pin_answer_lost_witness:
  "\<exists>c1 c'. class_process_pin_results mock_sc demo_pin_class = Some c1 \<and>
    entry_answered mock_sc (cc_core demo_pin_class) 7 PinSuccess (Some six_digit_verify) (cc_core c1) \<and>
    class_polls mock_sc silent_bus [1, 2, 3] c1 = Some c' \<and> wr_in (cc_bus demo_pin_class) = [] \<and> concat (wr_in (cc_bus c')) = []"
proof -
  have core: "cc_core demo_class = demo_usb" by (simp add: demo_class_def ccid_class_new_def demo_usb_def)
  have u: "usb_ok mock_sc_ok (cc_core demo_pin_class)"
    using demo_usb_ok by (simp add: demo_pin_class_def core set_pin_result_def usb_ok_def)
  have m: "uh_pin_modify_result_pending demo_usb = None" by (simp add: demo_usb_def usb_handler_new_def)
  have e: "entry_pending (cc_core demo_pin_class) 7 PinSuccess (Some six_digit_verify)"
    unfolding six_digit_apdu [symmetric]
    by (rule entry_pending.verify [OF _ _ six_digits_ok(1)]) (simp_all add: demo_pin_class_def core set_pin_result_def m)
  obtain q where "complete_pin_verify_exchange (contact_ops mock_sc) (uh_core (cc_core demo_pin_class)) 7 PinSuccess six_digits
      pin_verify_default (uh_tx_buffer (cc_core demo_pin_class)) = Some q"
    using demo_pin_answers [OF u] by blast
  then obtain c1 where c1: "class_process_pin_results mock_sc demo_pin_class = Some c1"
    by (cases q) (simp add: class_process_pin_results_def process_pin_result_def process_pin_modify_result_def
        demo_pin_class_def set_pin_result_def core m)
  have s: "isl (fst (ub_read_out silent_bus b))" for b by (simp add: silent_bus_def)
  have p: "\<not> cc_tx_pending demo_pin_class" "wr_in (cc_bus demo_pin_class) = []"
    by (simp_all add: demo_pin_class_def demo_class_def ccid_class_new_def)
  from usb_pin_answer_lost [OF silent.usb_wire_axioms s p(1) mock_card.contact_driver_axioms u e c1, of "[1, 2, 3]"] c1 p(2)
  show ?thesis by auto
qed

end
