(* ===== verification/Device_Profile.thy ===== *)
theory Device_Profile
  imports Usb_Class
begin

text \<open>
  The reader profiles of the USB firmware (\<open>firmware/ccid-firmware/src/device_profile.rs\<close>): the feature bits, the
  profile record, its class descriptor and the three profiles that ship.  The theorem relates what a profile
  promises to the host with what the handler built for it does.
\<close>

section \<open>Constants\<close>

abbreviation (input) FEAT_AUTO_PARAM_ATR :: u32 where "FEAT_AUTO_PARAM_ATR \<equiv> 0x00000002"
abbreviation (input) FEAT_AUTO_ACTIVATE :: u32 where "FEAT_AUTO_ACTIVATE \<equiv> 0x00000004"
abbreviation (input) FEAT_AUTO_VOLTAGE :: u32 where "FEAT_AUTO_VOLTAGE \<equiv> 0x00000008"
abbreviation (input) FEAT_AUTO_CLOCK :: u32 where "FEAT_AUTO_CLOCK \<equiv> 0x00000010"
abbreviation (input) FEAT_AUTO_BAUD :: u32 where "FEAT_AUTO_BAUD \<equiv> 0x00000020"
abbreviation (input) FEAT_AUTO_PPS_NEG :: u32 where "FEAT_AUTO_PPS_NEG \<equiv> 0x00000040"
abbreviation (input) FEAT_AUTO_PPS :: u32 where "FEAT_AUTO_PPS \<equiv> 0x00000080"
abbreviation (input) FEAT_CLOCK_STOP :: u32 where "FEAT_CLOCK_STOP \<equiv> 0x00000100"
abbreviation (input) FEAT_NAD_OTHER :: u32 where "FEAT_NAD_OTHER \<equiv> 0x00000200"
abbreviation (input) FEAT_AUTO_IFSD :: u32 where "FEAT_AUTO_IFSD \<equiv> 0x00000400"
abbreviation (input) FEAT_LEVEL_CHARACTER :: u32 where "FEAT_LEVEL_CHARACTER \<equiv> 0x00000000"
abbreviation (input) FEAT_LEVEL_TPDU :: u32 where "FEAT_LEVEL_TPDU \<equiv> 0x00010000"
abbreviation (input) FEAT_LEVEL_SHORT_APDU :: u32 where "FEAT_LEVEL_SHORT_APDU \<equiv> 0x00020000"
abbreviation (input) FEAT_LEVEL_EXTENDED_APDU :: u32 where "FEAT_LEVEL_EXTENDED_APDU \<equiv> 0x00040000"
abbreviation (input) FEAT_LEVEL_MASK :: u32 where "FEAT_LEVEL_MASK \<equiv> 0x00070000"
abbreviation (input) PIN_VERIFY :: u8 where "PIN_VERIFY \<equiv> 0x01"
abbreviation (input) PIN_MODIFY :: u8 where "PIN_MODIFY \<equiv> 0x02"
abbreviation (input) PIN_VERIFY_MODIFY :: u8 where "PIN_VERIFY_MODIFY \<equiv> 0x03"

datatype exchange_level = Tpdu | ShortApdu | ExtendedApdu

section \<open>Profiles\<close>

record device_profile =
  dp_vendor_id :: u16
  dp_product_id :: u16
  dp_device_release :: u16
  dp_manufacturer :: string
  dp_product :: string
  dp_serial_number :: string
  dp_bcd_ccid :: u16
  dp_max_slot_index :: u8
  dp_voltage_support :: u8
  dp_protocols :: u32
  dp_default_clock_khz :: u32
  dp_max_clock_khz :: u32
  dp_num_clocks :: u8
  dp_default_data_rate :: u32
  dp_max_data_rate :: u32
  dp_num_data_rates :: u8
  dp_max_ifsd :: u32
  dp_synch_protocols :: u32
  dp_mechanical :: u32
  dp_features :: u32
  dp_max_ccid_message_length :: u32
  dp_class_get_response :: u8
  dp_class_envelope :: u8
  dp_lcd_layout :: "u8 \<times> u8"
  dp_pin_support :: u8
  dp_max_busy_slots :: u8
  dp_interface_class :: u8
  dp_exchange_level :: exchange_level

text \<open>Four bytes of a 32-bit field, as the descriptor writes them.\<close>

definition le32 :: "u32 \<Rightarrow> bytes" where
  "le32 w = [ucast (w AND 0xFF), ucast (drop_bit 8 w AND 0xFF), ucast (drop_bit 16 w AND 0xFF), ucast (drop_bit 24 w AND 0xFF)]"

definition ccid_descriptor :: "device_profile \<Rightarrow> bytes" where
  "ccid_descriptor p =
     [ucast (dp_bcd_ccid p AND 0xFF), ucast (drop_bit 8 (dp_bcd_ccid p) AND 0xFF), dp_max_slot_index p, dp_voltage_support p] @
     le32 (dp_protocols p) @ le32 (dp_default_clock_khz p) @ le32 (dp_max_clock_khz p) @ [dp_num_clocks p] @
     le32 (dp_default_data_rate p) @ le32 (dp_max_data_rate p) @ [dp_num_data_rates p] @
     le32 (dp_max_ifsd p) @ le32 (dp_synch_protocols p) @ le32 (dp_mechanical p) @ le32 (dp_features p) @
     le32 (dp_max_ccid_message_length p) @
     [dp_class_get_response p, dp_class_envelope p, fst (dp_lcd_layout p), snd (dp_lcd_layout p), dp_pin_support p,
      dp_max_busy_slots p]"

definition is_short_apdu :: "device_profile \<Rightarrow> bool" where
  "is_short_apdu p \<longleftrightarrow> dp_exchange_level p = ShortApdu"

definition has_pin_pad :: "device_profile \<Rightarrow> bool" where
  "has_pin_pad p \<longleftrightarrow> dp_pin_support p \<noteq> 0"

definition has_lcd :: "device_profile \<Rightarrow> bool" where
  "has_lcd p \<longleftrightarrow> 0 < fst (dp_lcd_layout p) \<and> 0 < snd (dp_lcd_layout p)"

definition BASE_PROFILE :: device_profile where
  "BASE_PROFILE =
     \<lparr>dp_vendor_id = 0x0000, dp_product_id = 0x0000, dp_device_release = 0x0100, dp_manufacturer = '''', dp_product = '''',
      dp_serial_number = '''', dp_bcd_ccid = 0x0110, dp_max_slot_index = 0, dp_voltage_support = 0x01, dp_protocols = 0x03,
      dp_default_clock_khz = 4000, dp_max_clock_khz = 20000, dp_num_clocks = 0, dp_default_data_rate = 10752,
      dp_max_data_rate = 344086, dp_num_data_rates = 0, dp_max_ifsd = 254, dp_synch_protocols = 0, dp_mechanical = 0,
      dp_features = FEAT_AUTO_PARAM_ATR OR FEAT_AUTO_VOLTAGE OR FEAT_AUTO_CLOCK OR FEAT_AUTO_BAUD OR FEAT_AUTO_PPS
        OR FEAT_LEVEL_TPDU,
      dp_max_ccid_message_length = 271, dp_class_get_response = 0xFF, dp_class_envelope = 0xFF, dp_lcd_layout = (0, 0),
      dp_pin_support = 0x00, dp_max_busy_slots = 1, dp_interface_class = 0x0B, dp_exchange_level = Tpdu\<rparr>"

definition PROFILE_CHERRY_SMARTTERMINAL_ST2XXX :: device_profile where
  "PROFILE_CHERRY_SMARTTERMINAL_ST2XXX =
     BASE_PROFILE\<lparr>dp_vendor_id := 0x046A, dp_product_id := 0x003E, dp_manufacturer := ''Cherry GmbH'',
       dp_product := ''SmartTerminal ST-2xxx'', dp_serial_number := ''ST2XXX-001'', dp_bcd_ccid := 0x0100,
       dp_voltage_support := 0x01, dp_max_clock_khz := 8000, dp_default_data_rate := 10753, dp_max_data_rate := 344105,
       dp_max_ccid_message_length := 270, dp_lcd_layout := (0, 0), dp_pin_support := PIN_VERIFY_MODIFY,
       dp_interface_class := 0xFF, dp_exchange_level := Tpdu\<rparr>"

text \<open>The two Gemalto profiles differ in their USB identity only.\<close>

definition PROFILE_GEMALTO_IDBRIDGE_CT30 :: device_profile where
  "PROFILE_GEMALTO_IDBRIDGE_CT30 =
     BASE_PROFILE\<lparr>dp_vendor_id := 0x08E6, dp_product_id := 0x3437, dp_manufacturer := ''Gemalto'',
       dp_product := ''IDBridge CT30'', dp_serial_number := ''CT30-001'', dp_bcd_ccid := 0x0101,
       dp_default_clock_khz := 4800, dp_max_clock_khz := 4800, dp_default_data_rate := 12903, dp_max_data_rate := 825806,
       dp_features := FEAT_AUTO_CLOCK OR FEAT_AUTO_BAUD OR FEAT_NAD_OTHER OR FEAT_LEVEL_TPDU,
       dp_class_get_response := 0x00, dp_class_envelope := 0x00, dp_lcd_layout := (0, 0), dp_pin_support := 0x00,
       dp_exchange_level := Tpdu\<rparr>"

definition PROFILE_GEMALTO_IDBRIDGE_K30 :: device_profile where
  "PROFILE_GEMALTO_IDBRIDGE_K30 =
     BASE_PROFILE\<lparr>dp_vendor_id := 0x08E6, dp_product_id := 0x3438, dp_manufacturer := ''Gemalto'',
       dp_product := ''IDBridge K30'', dp_serial_number := ''K30-001'', dp_bcd_ccid := 0x0101,
       dp_default_clock_khz := 4800, dp_max_clock_khz := 4800, dp_default_data_rate := 12903, dp_max_data_rate := 825806,
       dp_features := FEAT_AUTO_CLOCK OR FEAT_AUTO_BAUD OR FEAT_NAD_OTHER OR FEAT_LEVEL_TPDU,
       dp_class_get_response := 0x00, dp_class_envelope := 0x00, dp_lcd_layout := (0, 0), dp_pin_support := 0x00,
       dp_exchange_level := Tpdu\<rparr>"

section \<open>The descriptor\<close>

lemma ucast_ucast_byte_index: "(ucast (ucast (i :: u8) :: u16) :: u8) = i"
  by (rule bit_word_eqI) (simp add: bit_ucast_iff)

lemma low_byte_mask: "(0xFF :: u32) = mask 8"
  by (simp add: mask_eq_exp_minus_1)

lemma ucast_byte: "(ucast (w AND 0xFF :: u32) :: u8) = ucast w"
  unfolding low_byte_mask by (rule bit_word_eqI) (simp add: bit_and_iff bit_ucast_iff bit_mask_iff)

lemma le32_bytes: "le32 w = to_le_bytes32 w"
  by (simp add: le32_def to_le_bytes32_def ucast_byte)

lemma le32_length [simp]: "length (le32 w) = 4"
  by (simp add: le32_def)

lemma ccid_descriptor_length [simp]: "length (ccid_descriptor p) = 52"
  by (simp add: ccid_descriptor_def)

text \<open>The fields the host reads, at the offsets CCID gives them.\<close>

lemma ccid_descriptor_fields:
  "take 4 (drop 8 (ccid_descriptor p)) = le32 (dp_default_clock_khz p)"
  "take 4 (drop 17 (ccid_descriptor p)) = le32 (dp_default_data_rate p)"
  "ccid_descriptor p ! 2 = dp_max_slot_index p"
  "ccid_descriptor p ! 50 = dp_pin_support p"
  by (simp_all add: ccid_descriptor_def nth_append)

lemma read_u32_le32: "read_u32 (xs @ le32 w @ ys) (length xs) = w"
  using le_bytes32_roundtrip [of w] by (simp add: read_u32_def nth_append le32_def ucast_byte)

lemma ccid_descriptor_words:
  "read_u32 (ccid_descriptor p) 38 = dp_features p"
  "read_u32 (ccid_descriptor p) 42 = dp_max_ccid_message_length p"
proof -
  obtain xs ys where "ccid_descriptor p = xs @ le32 (dp_features p) @ ys" "length xs = 38"
    using that [of "take 38 (ccid_descriptor p)" "drop 42 (ccid_descriptor p)"] by (simp add: ccid_descriptor_def)
  then show "read_u32 (ccid_descriptor p) 38 = dp_features p" using read_u32_le32 by metis
  obtain xs ys where "ccid_descriptor p = xs @ le32 (dp_max_ccid_message_length p) @ ys" "length xs = 42"
    using that [of "take 42 (ccid_descriptor p)" "drop 46 (ccid_descriptor p)"] by (simp add: ccid_descriptor_def)
  then show "read_u32 (ccid_descriptor p) 42 = dp_max_ccid_message_length p" using read_u32_le32 by metis
qed

section \<open>The handler keeps what the descriptor promises\<close>

lemma check_card_change_pin_pad [simp]: "h_pin_pad (snd (check_card_change P ops h)) = h_pin_pad h"
  by (simp add: check_card_change_def Let_def split: prod.split)

lemma usb_handler_new_pin_pad: "h_pin_pad (uh_core (usb_handler_new sc clk d v)) \<longleftrightarrow> v = PIN_PAD_VENDOR_ID"
  by (simp add: usb_handler_new_def with_diagnostics_fold_def with_profile_def Let_def)

definition shipped_profiles :: "device_profile list" where
  "shipped_profiles =
     [PROFILE_CHERRY_SMARTTERMINAL_ST2XXX, PROFILE_GEMALTO_IDBRIDGE_CT30, PROFILE_GEMALTO_IDBRIDGE_K30]"

lemmas profile_defs = shipped_profiles_def PROFILE_CHERRY_SMARTTERMINAL_ST2XXX_def PROFILE_GEMALTO_IDBRIDGE_CT30_def
  PROFILE_GEMALTO_IDBRIDGE_K30_def BASE_PROFILE_def

lemma shipped_promises:
  assumes "p \<in> set shipped_profiles"
  shows "dp_max_slot_index p = 0" "unat (dp_max_ccid_message_length p) \<le> MAX_CCID_MESSAGE_LENGTH"
    "dp_pin_support p \<noteq> 0 \<longleftrightarrow> dp_vendor_id p = PIN_PAD_VENDOR_ID"
    "dp_features p AND FEAT_LEVEL_MASK = FEAT_LEVEL_TPDU" "dp_exchange_level p = Tpdu"
  using assms by (auto simp: profile_defs)

text \<open>C23: For each of the three profiles that ship, the 52-byte class descriptor agrees with the handler built for it.
  One slot is announced; the level bits of dwFeatures say TPDU exchange, as the profile's exchange level does; a
  message of at most dwMaxCCIDMessageLength bytes is never dropped for its length; PIN entry is announced exactly
  when the handler accepts PIN commands; and GET_CLOCK_FREQUENCIES and GET_DATA_RATES answer the default clock and
  rate fields of the descriptor.\<close>

theorem descriptor_agrees_with_handler:
  assumes "p \<in> set shipped_profiles" and "CCID_HEADER_SIZE + n \<le> unat (read_u32 (ccid_descriptor p) 42)"
  shows "length (ccid_descriptor p) = 52 \<and> ccid_descriptor p ! 2 = 0 \<and>
    read_u32 (ccid_descriptor p) 38 AND FEAT_LEVEL_MASK = FEAT_LEVEL_TPDU \<and> dp_exchange_level p = Tpdu \<and>
    declared_fits n (length (uh_rx_buffer (usb_handler_new sc clk d (dp_vendor_id p)))) \<and>
    (ccid_descriptor p ! 50 \<noteq> 0 \<longleftrightarrow> h_pin_pad (uh_core (usb_handler_new sc clk d (dp_vendor_id p)))) \<and>
    control_in i (dp_default_clock_khz p) (dp_default_data_rate p)
      \<lparr>cr_index = ucast i, cr_class_request = True, cr_request = REQUEST_GET_CLOCK_FREQUENCIES, cr_value = v\<rparr>
      = AcceptWith (take 4 (drop 8 (ccid_descriptor p))) \<and>
    control_in i (dp_default_clock_khz p) (dp_default_data_rate p)
      \<lparr>cr_index = ucast i, cr_class_request = True, cr_request = REQUEST_GET_DATA_RATES, cr_value = v\<rparr>
      = AcceptWith (take 4 (drop 17 (ccid_descriptor p)))"
proof -
  have "declared_fits n MAX_CCID_MESSAGE_LENGTH"
    using assms(2) shipped_promises(2) [OF assms(1)] by (simp add: declared_fits_def ccid_descriptor_words)
  then have "declared_fits n (length (uh_rx_buffer (usb_handler_new sc clk d (dp_vendor_id p))))"
    by (simp add: usb_handler_new_def Let_def)
  then show ?thesis
    using shipped_promises [OF assms(1)]
    by (simp add: ccid_descriptor_fields ccid_descriptor_words usb_handler_new_pin_pad control_in_def le32_bytes
        ucast_ucast_byte_index)
qed

theorem descriptor_agrees_with_handler_witness:
  "declared_fits 260 (length (uh_rx_buffer (usb_handler_new mock_sc 1 mock_smartcard_new
      (dp_vendor_id PROFILE_CHERRY_SMARTTERMINAL_ST2XXX)))) \<and>
   h_pin_pad (uh_core (usb_handler_new mock_sc 1 mock_smartcard_new
      (dp_vendor_id PROFILE_CHERRY_SMARTTERMINAL_ST2XXX)))"
  using descriptor_agrees_with_handler [of PROFILE_CHERRY_SMARTTERMINAL_ST2XXX 260 mock_sc 1 mock_smartcard_new]
  by (simp add: profile_defs ccid_descriptor_words ccid_descriptor_fields)

end
