(* ===== verification/Hal_I2c.thy ===== *)
theory Hal_I2c
  imports Prelude
begin

text \<open>
  The embedded-hal bus adapter over the vendor's I2C driver (\<open>crates/pn7160-nci/src/hal_i2c.rs\<close>), which every
  register access of the MFRC522 goes through.  A transaction is a list of reads and writes; the adapter joins
  neighbouring writes and fuses them with a following read, so that each group is one transaction on the bus.
  The vendor's driver, the operation type of embedded-hal and the bounded vector of \<open>heapless\<close> are outside
  the repository: the first is the record \<open>idf_i2c\<close>, the last the argument \<open>push\<close>.
\<close>

section \<open>Operations and errors\<close>

datatype operation = OpWrite bytes | OpRead bytes

datatype i2c_op_kind = KindWrite | KindRead

datatype no_acknowledge_source = NackAddress | NackUnknown

datatype i2c_error_kind = NoAcknowledge no_acknowledge_source | OtherKind

record adapter_error =
  ae_kind :: i2c_error_kind
  ae_raw :: "32 word"

definition op_kind :: "operation \<Rightarrow> i2c_op_kind" where
  "op_kind op = (case op of OpWrite _ \<Rightarrow> KindWrite | OpRead _ \<Rightarrow> KindRead)"

function write_run_from :: "i2c_op_kind list \<Rightarrow> nat \<Rightarrow> nat \<Rightarrow> nat" where
  "write_run_from kinds i n = (if get_opt kinds (i + n) = Some KindWrite then write_run_from kinds i (n + 1) else n)"
  by pat_completeness auto
termination
  by (relation "measure (\<lambda>(kinds, i, n). length kinds - (i + n))") (auto simp: get_opt_def split: if_splits)

declare write_run_from.simps [simp del]

definition write_run_len :: "i2c_op_kind list \<Rightarrow> nat \<Rightarrow> nat" where
  "write_run_len kinds i = write_run_from kinds i 0"

definition op_is_read :: "i2c_op_kind list \<Rightarrow> nat \<Rightarrow> bool" where
  "op_is_read kinds i \<longleftrightarrow> get_opt kinds i = Some KindRead"

text \<open>The loop of \<open>concat_writes\<close>; \<open>n\<close> bytes are in the buffer.\<close>

fun concat_from :: "operation list \<Rightarrow> nat \<Rightarrow> bytes \<Rightarrow> (adapter_error + nat) \<times> bytes" where
  "concat_from [] n buf = (Inr n, buf)"
| "concat_from (OpRead _ # ops) n buf = (Inl \<lparr>ae_kind = OtherKind, ae_raw = - 2\<rparr>, buf)"
| "concat_from (OpWrite w # ops) n buf =
     (if length buf < n + length w then (Inl \<lparr>ae_kind = OtherKind, ae_raw = word_of_nat (n + length w)\<rparr>, buf)
      else concat_from ops (n + length w) (take n buf @ w @ drop (n + length w) buf))"

definition concat_writes :: "operation list \<Rightarrow> bytes \<Rightarrow> (adapter_error + nat) \<times> bytes" where
  "concat_writes ops buf = concat_from ops 0 buf"

abbreviation (input) MAX_TRANSACTION_OPS :: nat where "MAX_TRANSACTION_OPS \<equiv> 32"

type_synonym kind_push = "nat \<Rightarrow> i2c_op_kind list \<Rightarrow> i2c_op_kind \<Rightarrow> bool \<times> i2c_op_kind list"

fun classify_from :: "kind_push \<Rightarrow> operation list \<Rightarrow> i2c_op_kind list \<Rightarrow> adapter_error + i2c_op_kind list" where
  "classify_from push [] kinds = Inr kinds"
| "classify_from push (op # ops) kinds =
     (case push MAX_TRANSACTION_OPS kinds (op_kind op) of
        (True, kinds) \<Rightarrow> classify_from push ops kinds
      | (False, _) \<Rightarrow> Inl \<lparr>ae_kind = OtherKind, ae_raw = - 2\<rparr>)"

definition classify_ops :: "kind_push \<Rightarrow> operation list \<Rightarrow> adapter_error + i2c_op_kind list" where
  "classify_ops push ops = classify_from push ops []"

section \<open>The walk\<close>

datatype dispatch_step = StepRead nat | StepWriteRead nat nat | StepWrite nat nat

fun next_idx :: "dispatch_step \<Rightarrow> nat" where
  "next_idx (StepRead i) = i + 1"
| "next_idx (StepWrite i run) = i + run"
| "next_idx (StepWriteRead i run) = i + run + 1"

definition next_step :: "i2c_op_kind list \<Rightarrow> nat \<Rightarrow> dispatch_step option" where
  "next_step kinds i =
     (if length kinds \<le> i then None
      else let run = write_run_len kinds i in
        Some (if run = 0 then StepRead i
              else if op_is_read kinds (i + run) then StepWriteRead i run
              else StepWrite i run))"

text \<open>The three primitives; a read returns its buffer.\<close>

record 'b raw_i2c =
  raw_transmit :: "bytes \<Rightarrow> int \<Rightarrow> 'b \<Rightarrow> (adapter_error + unit) \<times> 'b"
  raw_receive :: "bytes \<Rightarrow> int \<Rightarrow> 'b \<Rightarrow> (adapter_error + unit) \<times> bytes \<times> 'b"
  raw_transmit_receive :: "bytes \<Rightarrow> bytes \<Rightarrow> int \<Rightarrow> 'b \<Rightarrow> (adapter_error + unit) \<times> bytes \<times> 'b"

text \<open>One step; the operations are returned with the read buffers filled.\<close>

fun dispatch_one :: "'b raw_i2c \<Rightarrow> dispatch_step \<Rightarrow> operation list \<Rightarrow> bytes \<Rightarrow> int \<Rightarrow> 'b
    \<Rightarrow> ((adapter_error + unit) \<times> operation list \<times> bytes \<times> 'b) outcome" where
  "dispatch_one raw (StepRead i) ops wbuf timeout b =
     do { op \<leftarrow> idx ops i;
          (case op of
             OpWrite _ \<Rightarrow> None
           | OpRead buf \<Rightarrow> (case raw_receive raw buf timeout b of (r, buf, b) \<Rightarrow> Some (r, ops[i := OpRead buf], wbuf, b))) }"
| "dispatch_one raw (StepWriteRead i run) ops wbuf timeout b =
     do { group \<leftarrow> slice ops i (i + run + 1);
          (case concat_writes (take run group) wbuf of
             (Inl e, wbuf) \<Rightarrow> Some (Inl e, ops, wbuf, b)
           | (Inr n, wbuf) \<Rightarrow>
               do { op \<leftarrow> idx group run;
                    (case op of
                       OpWrite _ \<Rightarrow> None
                     | OpRead buf \<Rightarrow>
                         do { tx \<leftarrow> slice wbuf 0 n;
                              (case raw_transmit_receive raw tx buf timeout b of
                                 (r, buf, b) \<Rightarrow> Some (r, ops[i + run := OpRead buf], wbuf, b)) }) }) }"
| "dispatch_one raw (StepWrite i run) ops wbuf timeout b =
     (if run = 1 then
        do { op \<leftarrow> idx ops i;
             (case op of
                OpRead _ \<Rightarrow> None
              | OpWrite w \<Rightarrow> (case raw_transmit raw w timeout b of (r, b) \<Rightarrow> Some (r, ops, wbuf, b))) }
      else
        do { group \<leftarrow> slice ops i (i + run);
             (case concat_writes group wbuf of
                (Inl e, wbuf) \<Rightarrow> Some (Inl e, ops, wbuf, b)
              | (Inr n, wbuf) \<Rightarrow>
                  do { tx \<leftarrow> slice wbuf 0 n;
                       (case raw_transmit raw tx timeout b of (r, b) \<Rightarrow> Some (r, ops, wbuf, b)) }) })"

lemma next_idx_advances: "next_step kinds i = Some s \<Longrightarrow> i < length kinds \<and> i < next_idx s"
  by (auto simp: next_step_def Let_def split: if_splits)

function dispatch_walk :: "'b raw_i2c \<Rightarrow> i2c_op_kind list \<Rightarrow> nat \<Rightarrow> operation list \<Rightarrow> bytes \<Rightarrow> int \<Rightarrow> 'b
    \<Rightarrow> ((adapter_error + unit) \<times> operation list \<times> bytes \<times> 'b) outcome" where
  "dispatch_walk raw kinds i ops wbuf timeout b =
     (case next_step kinds i of
        None \<Rightarrow> Some (Inr (), ops, wbuf, b)
      | Some s \<Rightarrow>
          (case dispatch_one raw s ops wbuf timeout b of
             None \<Rightarrow> None
           | Some (Inl e, ops, wbuf, b) \<Rightarrow> Some (Inl e, ops, wbuf, b)
           | Some (Inr _, ops, wbuf, b) \<Rightarrow> dispatch_walk raw kinds (next_idx s) ops wbuf timeout b))"
  by pat_completeness auto
termination
  by (relation "measure (\<lambda>(raw, kinds, i, ops, wbuf, timeout, b). length kinds - i)")
    (auto dest: next_idx_advances)

declare dispatch_walk.simps [simp del]

definition dispatch_transaction :: "kind_push \<Rightarrow> 'b raw_i2c \<Rightarrow> operation list \<Rightarrow> bytes \<Rightarrow> int \<Rightarrow> 'b
    \<Rightarrow> ((adapter_error + unit) \<times> operation list \<times> bytes \<times> 'b) outcome" where
  "dispatch_transaction push raw ops wbuf timeout b =
     (case classify_ops push ops of
        Inl e \<Rightarrow> Some (Inl e, ops, wbuf, b)
      | Inr kinds \<Rightarrow> dispatch_walk raw kinds 0 ops wbuf timeout b)"

section \<open>The device on the vendor's driver\<close>

definition esp_err_to_kind :: "32 word \<Rightarrow> i2c_error_kind" where
  "esp_err_to_kind rc = (if rc = 0x107 then NoAcknowledge NackUnknown else OtherKind)"

definition validate_address :: "u8 \<Rightarrow> u8 \<Rightarrow> adapter_error + unit" where
  "validate_address call_addr handle_addr =
     (if call_addr = handle_addr then Inr ()
      else Inl \<lparr>ae_kind = NoAcknowledge NackAddress, ae_raw = ucast call_addr\<rparr>)"

record 'b idf_i2c =
  idf_transmit :: "bytes \<Rightarrow> int \<Rightarrow> 'b \<Rightarrow> 32 word \<times> 'b"
  idf_receive :: "bytes \<Rightarrow> int \<Rightarrow> 'b \<Rightarrow> 32 word \<times> bytes \<times> 'b"
  idf_transmit_receive :: "bytes \<Rightarrow> bytes \<Rightarrow> int \<Rightarrow> 'b \<Rightarrow> 32 word \<times> bytes \<times> 'b"

definition idf_result :: "32 word \<Rightarrow> adapter_error + unit" where
  "idf_result rc = (if rc = 0 then Inr () else Inl \<lparr>ae_kind = esp_err_to_kind rc, ae_raw = rc\<rparr>)"

definition device_raw :: "'b idf_i2c \<Rightarrow> 'b raw_i2c" where
  "device_raw idf =
     \<lparr>raw_transmit = (\<lambda>bs timeout b. case idf_transmit idf bs timeout b of (rc, b) \<Rightarrow> (idf_result rc, b)),
      raw_receive = (\<lambda>buf timeout b. case idf_receive idf buf timeout b of (rc, buf, b) \<Rightarrow> (idf_result rc, buf, b)),
      raw_transmit_receive =
        (\<lambda>tx buf timeout b. case idf_transmit_receive idf tx buf timeout b of (rc, buf, b) \<Rightarrow> (idf_result rc, buf, b))\<rparr>"

abbreviation (input) OP_TIMEOUT_MS :: int where "OP_TIMEOUT_MS \<equiv> 100"
abbreviation (input) WBUF_SZ :: nat where "WBUF_SZ \<equiv> 128"

definition transaction :: "kind_push \<Rightarrow> 'b idf_i2c \<Rightarrow> u8 \<Rightarrow> u8 \<Rightarrow> operation list \<Rightarrow> 'b
    \<Rightarrow> ((adapter_error + unit) \<times> operation list \<times> 'b) outcome" where
  "transaction push idf addr address ops b =
     (case validate_address address addr of
        Inl e \<Rightarrow> Some (Inl e, ops, b)
      | Inr _ \<Rightarrow>
          map_option (\<lambda>(r, ops, wbuf, b). (r, ops, b))
            (dispatch_transaction push (device_raw idf) ops (replicate WBUF_SZ 0) OP_TIMEOUT_MS b))"

section \<open>What a transaction puts on the bus\<close>

text \<open>
  The reference: the writes not yet sent are kept in \<open>pend\<close>.  At a read, or at the end, they go out in one
  transaction; at a read this is the same transaction as the read.  \<open>joined\<close> is the payload of a group, or
  the refusal of one that does not fit the buffer; a single write alone is not copied.
\<close>

fun joined :: "nat \<Rightarrow> nat \<Rightarrow> bytes list \<Rightarrow> adapter_error + bytes" where
  "joined cap n [] = Inr []"
| "joined cap n (w # ws) =
     (if cap < n + length w then Inl \<lparr>ae_kind = OtherKind, ae_raw = word_of_nat (n + length w)\<rparr>
      else map_sum id (\<lambda>r. w @ r) (joined cap (n + length w) ws))"

fun bus_walk :: "'b raw_i2c \<Rightarrow> nat \<Rightarrow> int \<Rightarrow> bytes list \<Rightarrow> operation list \<Rightarrow> 'b \<Rightarrow> (adapter_error + unit) \<times> operation list \<times> 'b" where
  "bus_walk raw cap ms pend [] b =
     (if pend = [] then (Inr (), [], b)
      else case (if length pend = 1 then Inr (hd pend) else joined cap 0 pend) of
          Inl e \<Rightarrow> (Inl e, [], b)
        | Inr tx \<Rightarrow> (case raw_transmit raw tx ms b of (r, b) \<Rightarrow> (r, [], b)))"
| "bus_walk raw cap ms pend (OpWrite w # ops) b =
     (case bus_walk raw cap ms (pend @ [w]) ops b of (r, ops, b) \<Rightarrow> (r, OpWrite w # ops, b))"
| "bus_walk raw cap ms pend (OpRead buf # ops) b =
     (case (if pend = [] then Inr [] else joined cap 0 pend) of
        Inl e \<Rightarrow> (Inl e, OpRead buf # ops, b)
      | Inr tx \<Rightarrow>
          (case (if pend = [] then raw_receive raw buf ms b else raw_transmit_receive raw tx buf ms b) of
             (Inl e, buf, b) \<Rightarrow> (Inl e, OpRead buf # ops, b)
           | (Inr _, buf, b) \<Rightarrow>
               (case bus_walk raw cap ms [] ops b of (r, ops, b) \<Rightarrow> (r, OpRead buf # ops, b))))"

lemma write_run_from_eq: "write_run_from kinds i n = n + length (takeWhile (\<lambda>k. k = KindWrite) (drop (i + n) kinds))"
proof (induction kinds i n rule: write_run_from.induct)
  case (1 kinds i n)
  show ?case
  proof (cases "get_opt kinds (i + n) = Some KindWrite")
    case True
    then have "drop (i + n) kinds = KindWrite # drop (Suc (i + n)) kinds"
      by (auto simp: get_opt_def Cons_nth_drop_Suc [symmetric] split: if_splits)
    with 1 [OF True] True show ?thesis by (simp add: write_run_from.simps [of kinds i n])
  next
    case False
    then have "takeWhile (\<lambda>k. k = KindWrite) (drop (i + n) kinds) = []"
      by (cases "drop (i + n) kinds") (auto simp: get_opt_def nth_via_drop split: if_splits dest: nth_via_drop)
    with False show ?thesis by (simp add: write_run_from.simps [of kinds i n])
  qed
qed

lemma leading_writes:
  obtains ws rest where "ops = map OpWrite ws @ rest" "rest = [] \<or> (\<exists>buf rest'. rest = OpRead buf # rest')"
proof (induction ops arbitrary: thesis)
  case Nil
  then show ?case by (metis append_Nil list.simps(8))
next
  case (Cons op ops)
  show ?case
  proof (cases op)
    case (OpWrite w)
    obtain ws rest where "ops = map OpWrite ws @ rest" "rest = [] \<or> (\<exists>buf rest'. rest = OpRead buf # rest')"
      by (rule Cons.IH)
    then show ?thesis using Cons.prems [of "w # ws" rest] OpWrite by simp
  next
    case (OpRead buf)
    then show ?thesis using Cons.prems [of "[]" "op # ops"] by simp
  qed
qed

lemma op_kind_simps [simp]: "op_kind (OpWrite w) = KindWrite" "op_kind (OpRead buf) = KindRead"
  by (simp_all add: op_kind_def)

lemma map_op_kind_writes [simp]: "map (op_kind \<circ> OpWrite) ws = replicate (length ws) KindWrite"
  by (induction ws) simp_all

lemma takeWhile_replicate_app: "takeWhile (\<lambda>k. k = x) (replicate n x @ ys) = replicate n x @ takeWhile (\<lambda>k. k = x) ys"
  by (induction n) simp_all

text \<open>The step taken at a group of writes.\<close>

lemma next_step_group:
  assumes "kinds = map op_kind (pre @ map OpWrite ws @ rest)" and "i = length pre"
  shows "rest = OpRead buf # rest' \<Longrightarrow>
      next_step kinds i = Some (if ws = [] then StepRead i else StepWriteRead i (length ws))"
    and "rest = [] \<Longrightarrow> next_step kinds i = (if ws = [] then None else Some (StepWrite i (length ws)))"
proof -
  have d: "drop i kinds = replicate (length ws) KindWrite @ map op_kind rest" using assms by simp
  have "write_run_len kinds i = length ws + length (takeWhile (\<lambda>k. k = KindWrite) (map op_kind rest))"
    unfolding write_run_len_def write_run_from_eq by (simp add: d takeWhile_replicate_app)
  moreover have "get_opt kinds (i + length ws) = get_opt (map op_kind rest) 0"
    using assms by (simp add: get_opt_def nth_append)
  ultimately show "rest = OpRead buf # rest' \<Longrightarrow>
      next_step kinds i = Some (if ws = [] then StepRead i else StepWriteRead i (length ws))"
    and "rest = [] \<Longrightarrow> next_step kinds i = (if ws = [] then None else Some (StepWrite i (length ws)))"
    using assms by (auto simp: next_step_def op_is_read_def get_opt_def)
qed

lemma concat_from_joined:
  assumes "n \<le> length buf"
  shows "case joined (length buf) n ws of
      Inl e \<Rightarrow> \<exists>buf'. concat_from (map OpWrite ws) n buf = (Inl e, buf') \<and> length buf' = length buf
    | Inr tx \<Rightarrow> \<exists>buf'. concat_from (map OpWrite ws) n buf = (Inr (n + length tx), buf') \<and> length buf' = length buf \<and>
        n + length tx \<le> length buf \<and> take (n + length tx) buf' = take n buf @ tx"
  using assms
proof (induction ws arbitrary: n buf)
  case (Cons w ws)
  show ?case
  proof (cases "length buf < n + length w")
    case False
    let ?buf = "take n buf @ w @ drop (n + length w) buf"
    have l: "length ?buf = length buf" and t: "take (n + length w) ?buf = take n buf @ w"
      using False Cons.prems by simp_all
    from Cons.IH [of "n + length w" ?buf] False show ?thesis
      unfolding l t by (auto simp: add.assoc split: sum.splits)
  qed simp
qed simp

lemma concat_writes_joined:
  obtains (refused) e buf' where "joined (length buf) 0 ws = Inl e" "concat_writes (map OpWrite ws) buf = (Inl e, buf')"
      "length buf' = length buf"
  | (ok) tx buf' where "joined (length buf) 0 ws = Inr tx" "concat_writes (map OpWrite ws) buf = (Inr (length tx), buf')"
      "length buf' = length buf" "slice buf' 0 (length tx) = Some tx"
  using concat_from_joined [of 0 buf ws]
  by (cases "joined (length buf) 0 ws") (auto simp: concat_writes_def slice_def)

lemma bus_walk_writes:
  "bus_walk raw cap ms pend (map OpWrite ws @ rest) b =
     (case bus_walk raw cap ms (pend @ ws) rest b of (r, ops, b) \<Rightarrow> (r, map OpWrite ws @ ops, b))"
  by (induction ws arbitrary: pend) (simp_all split: prod.split)

lemma dispatch_walk_step:
  assumes "next_step kinds i = Some s"
  shows "dispatch_walk raw kinds i ops wbuf ms b =
    (case dispatch_one raw s ops wbuf ms b of
       None \<Rightarrow> None
     | Some (Inl e, ops, wbuf, b) \<Rightarrow> Some (Inl e, ops, wbuf, b)
     | Some (Inr _, ops, wbuf, b) \<Rightarrow> dispatch_walk raw kinds (next_idx s) ops wbuf ms b)"
  using assms by (simp add: dispatch_walk.simps)

lemma group_slices:
  "slice (pre @ map OpWrite ws @ op # rest) (length pre) (Suc (length pre + length ws)) = Some (map OpWrite ws @ [op])"
  "slice (pre @ map OpWrite ws) (length pre) (length pre + length ws) = Some (map OpWrite ws)"
  by (simp_all add: slice_def)

text \<open>A group closed by a read, and the writes at the end.\<close>

lemma dispatch_read_group:
  assumes "ops = pre @ map OpWrite ws @ OpRead buf # rest"
  shows "\<exists>wbuf'. length wbuf' = length wbuf \<and>
    dispatch_one raw (if ws = [] then StepRead (length pre) else StepWriteRead (length pre) (length ws)) ops wbuf ms b =
    Some (case (if ws = [] then Inr [] else joined (length wbuf) 0 ws) of
        Inl e \<Rightarrow> (Inl e, ops, wbuf', b)
      | Inr tx \<Rightarrow>
          (case (if ws = [] then raw_receive raw buf ms b else raw_transmit_receive raw tx buf ms b) of
             (r, buf, b) \<Rightarrow> (r, pre @ map OpWrite ws @ OpRead buf # rest, wbuf', b)))"
proof (cases "ws = []")
  case True
  then show ?thesis using assms by (auto simp: idx_def nth_append split: prod.split)
next
  case False
  have upd: "ops[length pre + length ws := OpRead x] = pre @ map OpWrite ws @ OpRead x # rest" for x
    using assms by (simp add: list_update_append)
  show ?thesis
  proof (cases rule: concat_writes_joined [of wbuf ws])
    case (refused e buf')
    then show ?thesis using False assms by (auto simp: group_slices)
  next
    case (ok tx buf')
    then show ?thesis using False upd unfolding assms
      by (auto simp: group_slices idx_def nth_append split: prod.split intro!: exI [of _ buf'])
  qed
qed

lemma dispatch_write_group:
  assumes "ws \<noteq> []"
  shows "\<exists>wbuf'. length wbuf' = length wbuf \<and>
    dispatch_one raw (StepWrite (length pre) (length ws)) (pre @ map OpWrite ws) wbuf ms b =
    Some (case (if length ws = 1 then Inr (hd ws) else joined (length wbuf) 0 ws) of
        Inl e \<Rightarrow> (Inl e, pre @ map OpWrite ws, wbuf', b)
      | Inr tx \<Rightarrow> (case raw_transmit raw tx ms b of (r, b) \<Rightarrow> (r, pre @ map OpWrite ws, wbuf', b)))"
proof (cases "length ws = 1")
  case True
  then obtain w where "ws = [w]" by (cases ws) auto
  then show ?thesis by (auto simp: idx_def nth_append split: prod.split)
next
  case False
  show ?thesis
  proof (cases rule: concat_writes_joined [of wbuf ws])
    case (refused e buf')
    then show ?thesis using False by (auto simp: group_slices)
  next
    case (ok tx buf')
    then show ?thesis using False by (auto simp: group_slices split: prod.split intro!: exI [of _ buf'])
  qed
qed

lemma dispatch_walk_bus:
  assumes "kinds = map op_kind (pre @ ops)" and "i = length pre"
  shows "\<exists>wbuf'. length wbuf' = length wbuf \<and> dispatch_walk raw kinds i (pre @ ops) wbuf ms b =
    Some (case bus_walk raw (length wbuf) ms [] ops b of (r, ops, b) \<Rightarrow> (r, pre @ ops, wbuf', b))"
  using assms
proof (induction "length ops" arbitrary: ops pre wbuf b i rule: less_induct)
  case less
  obtain ws rest where o: "ops = map OpWrite ws @ rest" "rest = [] \<or> (\<exists>buf rest'. rest = OpRead buf # rest')"
    by (rule leading_writes)
  from o(2) show ?case
  proof (elim disjE exE)
    assume rest: "rest = []"
    note st = next_step_group(2) [OF less.prems(1) [unfolded o(1)] less.prems(2) rest]
    show ?thesis
    proof (cases "ws = []")
      case True
      then show ?thesis using st o rest by (subst dispatch_walk.simps) auto
    next
      case False
      have n: "next_step kinds (length pre + length ws) = None"
        using less.prems o(1) rest by (simp add: next_step_def)
      from dispatch_write_group [OF False, of wbuf raw pre ms b] obtain wbuf' where d: "length wbuf' = length wbuf"
        "dispatch_one raw (StepWrite (length pre) (length ws)) (pre @ map OpWrite ws) wbuf ms b =
          Some (case (if length ws = 1 then Inr (hd ws) else joined (length wbuf) 0 ws) of
              Inl e \<Rightarrow> (Inl e, pre @ map OpWrite ws, wbuf', b)
            | Inr tx \<Rightarrow> (case raw_transmit raw tx ms b of (r, b) \<Rightarrow> (r, pre @ map OpWrite ws, wbuf', b)))" by blast
      have e: "dispatch_walk raw kinds (length pre + length ws) x y z w = Some (Inr (), x, y, w)" for x y z w
        by (simp add: dispatch_walk.simps n)
      have "bus_walk raw (length wbuf) ms [] ops b = (case bus_walk raw (length wbuf) ms ws [] b of (r, os, b) \<Rightarrow> (r, map OpWrite ws @ os, b))"
        using bus_walk_writes [of raw "length wbuf" ms "[]" ws "[]" b] o(1) rest by simp
      moreover obtain r b' where x: "(case (if length ws = 1 then Inr (hd ws) else joined (length wbuf) 0 ws) of
          Inl e \<Rightarrow> (Inl e, b) | Inr tx \<Rightarrow> raw_transmit raw tx ms b) = (r, b')" by (rule prod.exhaust)
      ultimately have "bus_walk raw (length wbuf) ms [] ops b = (r, ops, b')"
        using False o(1) rest by (auto split: sum.splits prod.splits)
      moreover have "dispatch_one raw (StepWrite (length pre) (length ws)) (pre @ map OpWrite ws) wbuf ms b =
          Some (r, pre @ map OpWrite ws, wbuf', b')"
        using d(2) x by (auto split: sum.splits prod.splits)
      ultimately show ?thesis
        using d(1) st less.prems(2) o(1) rest False e
        by (cases r) (auto simp: dispatch_walk_step [of kinds "length pre"] intro!: exI [of _ wbuf'])
    qed
  next
    fix buf rest' assume rest: "rest = OpRead buf # rest'"
    let ?s = "if ws = [] then StepRead (length pre) else StepWriteRead (length pre) (length ws)"
    have st: "next_step kinds i = Some ?s"
      using next_step_group(1) [OF less.prems(1) [unfolded o(1)] less.prems(2) rest] less.prems(2) by simp
    have nx: "next_idx ?s = length (pre @ map OpWrite ws @ [OpRead x])" for x by simp
    from dispatch_read_group [of "pre @ ops" pre ws buf rest' wbuf raw ms b] obtain wbuf' where d: "length wbuf' = length wbuf"
      "dispatch_one raw ?s (pre @ ops) wbuf ms b =
        Some (case (if ws = [] then Inr [] else joined (length wbuf) 0 ws) of
            Inl e \<Rightarrow> (Inl e, pre @ ops, wbuf', b)
          | Inr tx \<Rightarrow>
              (case (if ws = [] then raw_receive raw buf ms b else raw_transmit_receive raw tx buf ms b) of
                 (r, buf, b) \<Rightarrow> (r, pre @ map OpWrite ws @ OpRead buf # rest', wbuf', b)))"
      using o(1) rest by auto
    have bw: "bus_walk raw (length wbuf) ms [] ops b =
        (case bus_walk raw (length wbuf) ms ws (OpRead buf # rest') b of (r, os, b) \<Rightarrow> (r, map OpWrite ws @ os, b))"
      using bus_walk_writes [of raw "length wbuf" ms "[]" ws rest b] o(1) rest by simp
    show ?thesis
    proof (cases "if ws = [] then Inr [] else joined (length wbuf) 0 ws")
      case (Inl e)
      with bw d o(1) rest show ?thesis by (auto simp: dispatch_walk_step [OF st] intro!: exI [of _ wbuf'])
    next
      case (Inr tx)
      obtain r buf' b' where x: "(if ws = [] then raw_receive raw buf ms b else raw_transmit_receive raw tx buf ms b) = (r, buf', b')"
        by (cases "if ws = [] then raw_receive raw buf ms b else raw_transmit_receive raw tx buf ms b") auto
      let ?pre = "pre @ map OpWrite ws @ [OpRead buf']"
      have d': "dispatch_one raw ?s (pre @ ops) wbuf ms b = Some (r, ?pre @ rest', wbuf', b')" using d(2) Inr x by simp
      show ?thesis
      proof (cases r)
        case (Inl e)
        then show ?thesis using bw d(1) d' Inr x by (auto simp: dispatch_walk_step [OF st] intro!: exI [of _ wbuf'])
      next
        case (Inr u)
        have k: "kinds = map op_kind (?pre @ rest')" and l: "length rest' < length ops"
          using less.prems(1) o(1) rest by simp_all
        from less.hyps [OF l k refl, of wbuf' b'] obtain wbuf'' where w: "length wbuf'' = length wbuf'"
          "dispatch_walk raw kinds (length ?pre) (?pre @ rest') wbuf' ms b' =
            Some (case bus_walk raw (length wbuf') ms [] rest' b' of (r, ops, b) \<Rightarrow> (r, ?pre @ ops, wbuf'', b))" by blast
        have "dispatch_walk raw kinds i (pre @ ops) wbuf ms b = dispatch_walk raw kinds (length ?pre) (?pre @ rest') wbuf' ms b'"
          unfolding dispatch_walk_step [OF st] d' nx [of buf', symmetric] using Inr by simp
        moreover have "bus_walk raw (length wbuf) ms ws (OpRead buf # rest') b =
            (case bus_walk raw (length wbuf) ms [] rest' b' of (r, os, b) \<Rightarrow> (r, OpRead buf' # os, b))"
          using \<open>(if ws = [] then Inr [] else joined (length wbuf) 0 ws) = Inr tx\<close> x Inr by simp
        ultimately show ?thesis using w d(1) bw by (intro exI [of _ wbuf'']) (simp split: prod.split)
      qed
    qed
  qed
qed

text \<open>What \<open>heapless\<close> documents of \<open>Vec::push\<close>, and a vector that does it.\<close>

definition kind_push_ok :: "kind_push \<Rightarrow> bool" where
  "kind_push_ok push \<longleftrightarrow> (\<forall>cap xs x. push cap xs x = (if length xs < cap then (True, xs @ [x]) else (False, xs)))"

definition kind_push_list :: kind_push where
  "kind_push_list cap xs x = (if length xs < cap then (True, xs @ [x]) else (False, xs))"

lemma classify_from_eq:
  assumes "kind_push_ok push" and "length kinds \<le> 32"
  shows "classify_from push ops kinds =
    (if length kinds + length ops \<le> 32 then Inr (kinds @ map op_kind ops) else Inl \<lparr>ae_kind = OtherKind, ae_raw = - 2\<rparr>)"
  using assms(2)
proof (induction ops arbitrary: kinds)
  case (Cons op ops)
  then show ?case using assms(1) Cons.IH [of "kinds @ [op_kind op]"] by (auto simp: kind_push_ok_def)
qed simp

text \<open>C27: A bus transaction of the adapter.  A transaction for another address than the device's fails before
  any traffic, and so does one of more than 32 operations.  Every other one does to the bus exactly what the
  reference does, and returns its result and its read buffers without a panic: neighbouring writes are one
  transmission of their bytes in order, fused with the read that follows them if there is one; a group that
  does not fit the 128-byte buffer is refused, not cut; and the first error ends the transaction.\<close>

theorem i2c_transaction_grouped:
  assumes "kind_push_ok push"
  shows "transaction push idf addr address ops b =
    Some (if address \<noteq> addr then (Inl \<lparr>ae_kind = NoAcknowledge NackAddress, ae_raw = ucast address\<rparr>, ops, b)
          else if MAX_TRANSACTION_OPS < length ops then (Inl \<lparr>ae_kind = OtherKind, ae_raw = - 2\<rparr>, ops, b)
          else bus_walk (device_raw idf) WBUF_SZ OP_TIMEOUT_MS [] ops b)"
proof (cases "address = addr \<and> length ops \<le> 32")
  case True
  have "\<exists>wbuf'. length wbuf' = length (replicate WBUF_SZ (0 :: u8)) \<and>
      dispatch_walk (device_raw idf) (map op_kind ops) 0 ([] @ ops) (replicate WBUF_SZ 0) OP_TIMEOUT_MS b =
      Some (case bus_walk (device_raw idf) (length (replicate WBUF_SZ (0 :: u8))) OP_TIMEOUT_MS [] ops b of
        (r, ops, b) \<Rightarrow> (r, [] @ ops, wbuf', b))"
    by (rule dispatch_walk_bus) simp_all
  then obtain wbuf' where "dispatch_walk (device_raw idf) (map op_kind ops) 0 ops (replicate WBUF_SZ 0) OP_TIMEOUT_MS b =
      Some (case bus_walk (device_raw idf) WBUF_SZ OP_TIMEOUT_MS [] ops b of (r, ops, b) \<Rightarrow> (r, ops, wbuf', b))"
    by (simp only: append_Nil length_replicate) blast
  then show ?thesis
    using True classify_from_eq [OF assms, of "[]" ops]
    by (simp add: transaction_def validate_address_def dispatch_transaction_def classify_ops_def split: prod.split)
next
  case False
  then show ?thesis
    using classify_from_eq [OF assms, of "[]" ops]
    by (auto simp: transaction_def validate_address_def dispatch_transaction_def classify_ops_def)
qed

text \<open>A bus that records its transactions: what was written, and how much was read.\<close>

definition logging_idf :: "(bytes \<times> nat) list idf_i2c" where
  "logging_idf =
     \<lparr>idf_transmit = (\<lambda>bs ms l. (0, l @ [(bs, 0)])),
      idf_receive = (\<lambda>buf ms l. (0, map (\<lambda>_. 0x92) buf, l @ [([], length buf)])),
      idf_transmit_receive = (\<lambda>tx buf ms l. (0, map (\<lambda>_. 0x92) buf, l @ [(tx, length buf)]))\<rparr>"

theorem i2c_transaction_grouped_witness:
  "transaction kind_push_list logging_idf 0x28 0x28
     [OpWrite [0x09], OpWrite [0x26, 0x07], OpRead [0, 0], OpWrite [0x37], OpRead [0], OpWrite [0x01], OpWrite [0x0C]] [] =
   Some (Inr (),
     [OpWrite [0x09], OpWrite [0x26, 0x07], OpRead [0x92, 0x92], OpWrite [0x37], OpRead [0x92], OpWrite [0x01], OpWrite [0x0C]],
     [([0x09, 0x26, 0x07], 2), ([0x37], 1), ([0x01, 0x0C], 0)])"
proof -
  have "kind_push_ok kind_push_list" by (simp add: kind_push_ok_def kind_push_list_def)
  then show ?thesis
    by (simp add: i2c_transaction_grouped device_raw_def logging_idf_def idf_result_def)
qed

end
