(* ===== verification/App_Enum.thy ===== *)
theory App_Enum
  imports Usb_Props Contact_Uart_Props
begin

text \<open>
  The application list of the display firmware (\<open>firmware/ccid-firmware/src/app_enum.rs\<close>): once per card the
  firmware selects five known applications through the USB handler's driver and notes which of them exist.
\<close>

section \<open>The known applications\<close>

abbreviation (input) APP_COUNT :: nat where "APP_COUNT \<equiv> 5"

definition AID_OPENPGP :: bytes where "AID_OPENPGP = [0xD2, 0x76, 0x00, 0x01, 0x24, 0x01]"
definition AID_PIV :: bytes where "AID_PIV = [0xA0, 0x00, 0x00, 0x03, 0x08]"
definition AID_SEEDKEEPER :: bytes where
  "AID_SEEDKEEPER = [0x53, 0x65, 0x65, 0x64, 0x4B, 0x65, 0x65, 0x70, 0x65, 0x72, 0x00]"
definition AID_FIDO2 :: bytes where "AID_FIDO2 = [0xA0, 0x00, 0x00, 0x06, 0x47]"
definition AID_GIDS :: bytes where
  "AID_GIDS = [0xA0, 0x00, 0x00, 0x03, 0x97, 0x42, 0x54, 0x46, 0x59, 0x00, 0x00]"

definition KNOWN_APPS :: "(string \<times> bytes \<times> nat) list" where
  "KNOWN_APPS =
     [(''OpenPGP'', AID_OPENPGP, 6), (''PIV'', AID_PIV, 5), (''SeedKeeper'', AID_SEEDKEEPER, 11),
      (''FIDO2'', AID_FIDO2, 5), (''GIDS'', AID_GIDS, 11)]"

record detected_app =
  da_name :: string
  da_found :: bool

record app_enumeration =
  en_apps :: "detected_app list"
  en_enumerated :: bool

definition app_enumeration_new :: app_enumeration where
  "app_enumeration_new = \<lparr>en_apps = map (\<lambda>(name, _). \<lparr>da_name = name, da_found = False\<rparr>) KNOWN_APPS, en_enumerated = False\<rparr>"

definition app_enumeration_reset :: "app_enumeration \<Rightarrow> app_enumeration" where
  "app_enumeration_reset s = \<lparr>en_apps = map (\<lambda>a. a\<lparr>da_found := False\<rparr>) (en_apps s), en_enumerated = False\<rparr>"

definition detected_names :: "app_enumeration \<Rightarrow> string list" where
  "detected_names s = map da_name (filter da_found (en_apps s))"

section \<open>The probes\<close>

definition select_apdu :: "bytes \<Rightarrow> nat \<Rightarrow> bytes" where
  "select_apdu aid aid_len =
     (let len = min aid_len 26 in [0x00, 0xA4, 0x04, 0x00, word_of_nat aid_len] @ take len aid @ [0x00])"

text \<open>The status word of an answer of \<open>n\<close> bytes; an answer longer than the buffer panics.\<close>

definition answer_status :: "bytes \<Rightarrow> nat \<Rightarrow> u16 outcome" where
  "answer_status response n = do {
     sw1 \<leftarrow> (if 1 < n then idx response (n - 2) else Some 0);
     sw2 \<leftarrow> (if 0 < n then idx response (n - 1) else Some 0);
     Some (push_bit 8 (ucast sw1) OR ucast sw2)
   }"

definition probe_app :: "('d, 'e) smartcard_ops \<Rightarrow> bytes \<Rightarrow> nat \<Rightarrow> 'd usb_handler \<Rightarrow> (bool \<times> 'd usb_handler) outcome" where
  "probe_app sc aid aid_len u =
     (case usb_transmit_counted sc (select_apdu aid aid_len) (replicate 32 0) u of
        (Inl _, _, u) \<Rightarrow> Some (False, u)
      | (Inr n, response, u) \<Rightarrow> do { sw \<leftarrow> answer_status response n; Some (sw = 0x9000, u) })"

fun probe_apps :: "('d, 'e) smartcard_ops \<Rightarrow> (string \<times> bytes \<times> nat) list \<Rightarrow> 'd usb_handler
    \<Rightarrow> (detected_app list \<times> 'd usb_handler) outcome" where
  "probe_apps sc [] u = Some ([], u)"
| "probe_apps sc ((name, aid, aid_len) # known) u = do {
     (found, u) \<leftarrow> probe_app sc aid aid_len u;
     (apps, u) \<leftarrow> probe_apps sc known u;
     Some (\<lparr>da_name = name, da_found = found\<rparr> # apps, u)
   }"

definition enumerate_if_needed :: "('d, 'e) smartcard_ops \<Rightarrow> bool \<Rightarrow> app_enumeration \<Rightarrow> 'd usb_handler
    \<Rightarrow> (bool \<times> app_enumeration \<times> 'd usb_handler) outcome" where
  "enumerate_if_needed sc pres s u =
     (if \<not> pres then Some (False, app_enumeration_reset s, u)
      else if en_enumerated s then Some (False, s, u)
      else do {
        (apps, u) \<leftarrow> probe_apps sc KNOWN_APPS u;
        Some (True, \<lparr>en_apps = apps, en_enumerated = True\<rparr>, u)
      })"

section \<open>Enumeration on a driver that keeps to its buffers\<close>

definition tx_count :: "'d usb_handler \<Rightarrow> nat" where
  "tx_count u = unat (apdu_tx_count (h_diagnostics (uh_core u)))"

lemma answer_status_fits: "n \<le> length response \<Longrightarrow> \<exists>sw. answer_status response n = Some sw"
  by (auto simp: answer_status_def idx_def)

lemma unat_saturating_add1: "unat (saturating_add32 a 1) = min (2 ^ 32 - 1) (unat a + 1)"
proof (cases "unat a + 1 < 2 ^ 32")
  case True
  then have "unat (a + 1) = unat a + 1" by (simp add: unat_word_ariths)
  with True show ?thesis by (simp add: saturating_add32_def)
next
  case False
  then show ?thesis using unsigned_less [of a, where 'a = nat] by (simp add: saturating_add32_def)
qed

context smartcard_driver
begin

lemma probe_app_ok:
  assumes "usb_ok sc_inv u"
  shows "\<exists>b u'. probe_app sc aid n u = Some (b, u') \<and> usb_ok sc_inv u' \<and> tx_count u' = min (2 ^ 32 - 1) (tx_count u + 1)"
proof -
  let ?h = "uh_core u"
  obtain r buf diag nfc where c: "count_transmit (contact_ops sc) (h_diagnostics ?h) (h_nfc ?h) (select_apdu aid n) (replicate 32 0) =
    (r, buf, diag, nfc)" by (rule prod_cases4)
  have ok: "handler_ok ContactProfile (adapted sc_inv) ?h" using usb_okD(1) [OF assms] .
  then have "adapted sc_inv (h_nfc ?h)" "counters_ok (h_diagnostics ?h)" by (simp_all add: handler_ok_def)
  note t = slot.count_transmit_ok [OF this c]
  have "usb_transmit_counted sc (select_apdu aid n) (replicate 32 0) u =
      (r, buf, u\<lparr>uh_core := ?h\<lparr>h_diagnostics := diag, h_nfc := nfc\<rparr>\<rparr>)" (is "_ = (r, buf, ?u)")
    using c by (simp add: usb_transmit_counted_def transmit_counted_def)
  moreover have "usb_ok sc_inv ?u" using assms t(1) ok by (simp add: usb_ok_def handler_ok_def)
  moreover have "tx_count ?u = min (2 ^ 32 - 1) (tx_count u + 1)"
    using c unat_saturating_add1 [of "apdu_tx_count (h_diagnostics ?h)"]
    by (auto simp: tx_count_def count_transmit_def Let_def split: prod.splits sum.splits)
  moreover have "\<exists>sw. answer_status buf k = Some sw" if "r = Inr k" for k
    using t(1) t(2) [OF that] by (intro answer_status_fits) simp
  ultimately show ?thesis by (cases r) (auto simp: probe_app_def)
qed

lemma probe_apps_ok:
  "usb_ok sc_inv u \<Longrightarrow> \<exists>apps u'. probe_apps sc known u = Some (apps, u') \<and> usb_ok sc_inv u' \<and> map da_name apps = map fst known \<and>
     tx_count u' = min (2 ^ 32 - 1) (tx_count u + length known)"
proof (induction known arbitrary: u)
  case Nil
  have "tx_count u \<le> 2 ^ 32 - 1" using unsigned_less [of "apdu_tx_count (h_diagnostics (uh_core u))", where 'a = nat] by (simp add: tx_count_def)
  with Nil show ?case by simp
next
  case (Cons k known)
  obtain name aid n where k: "k = (name, aid, n)" by (rule prod_cases3)
  obtain b u1 where p: "probe_app sc aid n u = Some (b, u1)" "usb_ok sc_inv u1" "tx_count u1 = min (2 ^ 32 - 1) (tx_count u + 1)"
    using probe_app_ok [OF Cons.prems] by blast
  from Cons.IH [OF p(2)] obtain apps u2 where "probe_apps sc known u1 = Some (apps, u2)" "usb_ok sc_inv u2"
    "map da_name apps = map fst known" "tx_count u2 = min (2 ^ 32 - 1) (tx_count u1 + length known)" by blast
  with p k show ?case by auto
qed

end

text \<open>Applications are looked up once per card.  On a driver that meets its contract the first call with a
  card present sends exactly one SELECT per known application, all of them counted as card traffic, and
  lists every application by name without a panic; the handler stays in its invariant; further calls for the
  same card leave list, handler and card alone; and the removal of the card resets the list.\<close>

theorem enumeration_once_per_card:
  assumes "smartcard_driver sc sc_inv" and "usb_ok sc_inv u" and "\<not> en_enumerated s"
  shows "\<exists>s' u'. enumerate_if_needed sc True s u = Some (True, s', u') \<and> usb_ok sc_inv u' \<and>
    map da_name (en_apps s') = map fst KNOWN_APPS \<and> tx_count u' = min (2 ^ 32 - 1) (tx_count u + APP_COUNT) \<and>
    enumerate_if_needed sc True s' u' = Some (False, s', u') \<and>
    enumerate_if_needed sc False s' u' = Some (False, app_enumeration_new, u')"
proof -
  obtain apps u' where p: "probe_apps sc KNOWN_APPS u = Some (apps, u')" "usb_ok sc_inv u'"
    "map da_name apps = map fst KNOWN_APPS" "tx_count u' = min (2 ^ 32 - 1) (tx_count u + length KNOWN_APPS)"
    using smartcard_driver.probe_apps_ok [OF assms(1,2)] by blast
  have "map (\<lambda>a. a\<lparr>da_found := False\<rparr>) apps = map (\<lambda>n. \<lparr>da_name = n, da_found = False\<rparr>) (map da_name apps)"
    by (simp add: detected_app.defs)
  also have "\<dots> = en_apps app_enumeration_new" unfolding p(3) by (simp add: app_enumeration_new_def case_prod_beta)
  finally have "app_enumeration_reset \<lparr>en_apps = apps, en_enumerated = True\<rparr> = app_enumeration_new"
    by (simp add: app_enumeration_reset_def app_enumeration_new_def)
  moreover have "length KNOWN_APPS = APP_COUNT" by (simp add: KNOWN_APPS_def)
  ultimately show ?thesis using p assms(3) by (simp add: enumerate_if_needed_def)
qed

theorem enumeration_once_per_card_witness:
  "\<exists>s' u'. enumerate_if_needed mock_sc True app_enumeration_new
     (usb_handler_new mock_sc 1 (mock_smartcard_new\<lparr>ms_card_present := True, ms_apdu_responses := [[0x90, 0x00]]\<rparr>) 0x046A) = Some (True, s', u') \<and>
   map da_name (en_apps s') = map fst KNOWN_APPS \<and> tx_count u' = 5"
proof -
  let ?d = "mock_smartcard_new\<lparr>ms_card_present := True, ms_apdu_responses := [[0x90, 0x00]]\<rparr>"
  let ?u = "usb_handler_new mock_sc 1 ?d 0x046A"
  have "mock_sc_ok ?d" by (simp add: mock_sc_ok_def mock_smartcard_new_def)
  then have ok: "usb_ok mock_sc_ok ?u" by (rule mock_card.usb_handler_new_ok)
  have "tx_count ?u = 0"
    by (simp add: tx_count_def usb_handler_new_def check_card_change_def with_profile_def with_diagnostics_fold_def
        diagnostics_new_def contact_ops_def Let_def)
  with enumeration_once_per_card [OF mock_card.smartcard_driver_axioms ok, of app_enumeration_new] show ?thesis
    by (auto simp: app_enumeration_new_def)
qed

section \<open>Enumeration on a T=0 card\<close>

text \<open>
  A card that acknowledges a command, announces \<open>xx\<close> bytes and sends them on GET RESPONSE, into a buffer that
  holds no more than these and the first status word: the next two bytes on the line are taken for the
  status word and counted without being stored.
\<close>

lemma t0_long_answer:
  assumes "5 \<le> length command" and "command ! 1 \<noteq> SW1_NULL" and "2 \<le> length response"
    and "length data = length response - 2" and "length response - 2 \<le> (if xx = 0 then 256 else unat xx)"
    and "s1 \<noteq> SW1_GET_RESPONSE"
  shows "\<exists>response'. transmit_apdu_t0 script_io command response pt bt
      (script (command ! 1 # 0x61 # xx # 0xC0 # data @ s1 # s2 # rest) []) =
    Some (Inr (length response + 2), response', script rest (command @ t0_get_response xx)) \<and> length response' = length response"
proof -
  let ?sent = "command @ t0_get_response xx"
  define s0 where "s0 = t0_advance 2 (t0_store 0x61 xx (t0_initial command response))"
  define st where "st = s0\<lparr>t0_get_response_count := t0_get_response_count s0 + 1\<rparr>"
  have st: "t0_response_len st = 2" "length (t0_response st) = length response"
    by (simp_all add: st_def s0_def t0_advance_def t0_store_def t0_initial_def)
  have r1: "io_recv script_io [pt, bt] (script ([0x61, xx] @ 0xC0 # data @ s1 # s2 # rest) command) =
      (Inr [0x61, xx], script (0xC0 # data @ s1 # s2 # rest) command)" by (rule script_recvs) simp
  have pb: "t0_procedure script_io pt (script (0xC0 # data @ s1 # s2 # rest) ?sent) =
      Some (Inr 0xC0, script (data @ s1 # s2 # rest) ?sent)"
    using script_procedure [of "0xC0" pt 0 "data @ s1 # s2 # rest" ?sent] by simp
  have dt: "t0_data script_io bt 0 (length data) st (script (data @ s1 # s2 # rest) ?sent) =
      (Inr (), st\<lparr>t0_response := take 2 (t0_response st) @ data @ drop (Suc (Suc (length data))) (t0_response st)\<rparr>,
       script (s1 # s2 # rest) ?sent)"
    using script_data [of st 0 data bt "s1 # s2 # rest" ?sent] st assms(3,4) by simp
  have r2: "io_recv script_io [bt, bt] (script ([s1, s2] @ rest) ?sent) = (Inr [s1, s2], script rest ?sent)"
    by (rule script_recvs) simp
  have n: "min (if xx = 0 then 256 else unat xx) (length (t0_response st) - t0_response_len st) = length data"
    using st assms(3-5) by (simp add: min_def)
  define st' where "st' = t0_advance 2 (t0_store s1 s2 (t0_advance (length data)
    (st\<lparr>t0_response := take 2 (t0_response st) @ data @ drop (Suc (Suc (length data))) (t0_response st)\<rparr>)))"
  have st': "t0_response_len st' = length response + 2" "length (t0_response st') = length response"
    using st assms(3,4) by (simp_all add: st'_def t0_advance_def t0_store_def)
  have "t0_fetch script_io pt bt xx s0 (script (0xC0 # data @ s1 # s2 # rest) command) =
      Some (T0Return (Inr (length response + 2)), st', script rest ?sent)"
    unfolding t0_fetch_def Let_def st_def [symmetric] script_send prod.case sum.case pb bind.bind_lunit n dt
    using r2 st' assms(6) by (simp add: st'_def [symmetric])
  then have "t0_dispatch script_io command pt bt (command ! 1) (t0_initial command response)
      (script ([0x61, xx] @ 0xC0 # data @ s1 # s2 # rest) command) =
      Some (T0Return (Inr (length response + 2)), st', script rest ?sent)"
    unfolding t0_dispatch_def t0_acknowledged_def Let_def r1
    by (simp add: s0_def [symmetric]) (simp add: s0_def t0_advance_def t0_store_def t0_initial_def)
  from t0_first_round [OF assms(1,2) this, of 0] st' show ?thesis by simp
qed

text \<open>A T=0 card behind a line that plays the script, with the exchange of the contact driver.\<close>

definition t0_card_sc :: "(t0_line, smartcard_error) smartcard_ops" where
  "t0_card_sc =
     \<lparr>sc_power_on = (\<lambda>d. (Inl ScHardwareError, d)), sc_power_off = (\<lambda>d. d), sc_is_card_present = (\<lambda>_. True),
      sc_transmit_apdu = (\<lambda>d command response.
        case transmit_apdu_t0 script_io command response 5000 200 d of
          Some (r, response, d) \<Rightarrow> (r, response, d) | None \<Rightarrow> (Inl ScTimeout, response, d)),
      sc_transmit_raw = (\<lambda>d _ response. (Inl ScHardwareError, response, d)), sc_set_protocol = (\<lambda>_ d. d),
      sc_get_protocol = (\<lambda>_. 0), sc_set_clock = (\<lambda>_ d. d), sc_set_clock_and_rate = (\<lambda>_ _ d. (Inl ScHardwareError, d)),
      sc_set_wire_timing = (\<lambda>_ _ _ d. d), sc_xfr_error_class = (\<lambda>_. smartcard_error_class), sc_reinit_count = (\<lambda>_. 0),
      sc_take_reinit_pending = (\<lambda>d. (False, d)), sc_diagnostics = (\<lambda>_ base. base)\<rparr>"

text \<open>C26: The lookup of applications crashes the reader on an ordinary T=0 card.  When the card answers the first
  SELECT with 30 to 256 bytes of file control information, offered by 61 XX and fetched by GET RESPONSE as
  ISO 7816-3 has it, and the byte that follows the first thirty on the line is not 0x61, the exchange
  reports two bytes more than the 32-byte buffer of the lookup holds, and reading the status word panics.
  This is so for every driver that performs the firmware's T=0 exchange.\<close>

theorem enumeration_panics_on_t0:
  assumes "30 \<le> length fci" and "length fci \<le> 256" and "(fci @ [0x90, 0x00]) ! 30 \<noteq> 0x61" and "\<not> en_enumerated s"
    and "\<And>cmd buf r buf' l. transmit_apdu_t0 script_io cmd buf pt bt
        (script (0xA4 # 0x61 # word_of_nat (length fci) # 0xC0 # fci @ [0x90, 0x00]) []) = Some (r, buf', l) \<Longrightarrow>
      \<exists>d'. sc_transmit_apdu sc (sa_driver (h_nfc (uh_core u))) cmd buf = (r, buf', d')"
  shows "enumerate_if_needed sc True s u = None"
proof -
  let ?cmd = "select_apdu AID_OPENPGP 6" and ?buf = "replicate 32 0 :: bytes" and ?xx = "word_of_nat (length fci) :: u8"
  let ?all = "fci @ [0x90, 0x00]"
  define rest where "rest = drop 32 ?all"
  have all: "?all = take 30 ?all @ ?all ! 30 # ?all ! 31 # rest"
  proof -
    have l: "30 < length ?all" "31 < length ?all" using assms(1) by simp_all
    have "drop 30 ?all = ?all ! 30 # ?all ! 31 # rest"
      using Cons_nth_drop_Suc [OF l(1)] Cons_nth_drop_Suc [OF l(2)] by (simp only: rest_def) simp
    then show ?thesis using append_take_drop_id [of 30 ?all] by (metis (no_types))
  qed
  have cmd: "5 \<le> length ?cmd" "?cmd ! 1 = 0xA4" by (simp_all add: select_apdu_def AID_OPENPGP_def)
  have le: "30 \<le> (if ?xx = 0 then 256 else unat ?xx)"
  proof (cases "length fci = 256")
    case False
    then have "unat ?xx = length fci" using assms(2) by (simp add: unat_of_nat)
    with assms(1) show ?thesis by auto
  qed simp
  have "\<exists>response'. transmit_apdu_t0 script_io ?cmd ?buf pt bt
      (script (?cmd ! 1 # 0x61 # ?xx # 0xC0 # take 30 ?all @ ?all ! 30 # ?all ! 31 # rest) []) =
    Some (Inr (length ?buf + 2), response', script rest (?cmd @ t0_get_response ?xx)) \<and> length response' = length ?buf"
    by (rule t0_long_answer) (use cmd le assms(1,3) in simp_all)
  then obtain buf' l where t: "transmit_apdu_t0 script_io ?cmd ?buf pt bt (script (0xA4 # 0x61 # ?xx # 0xC0 # ?all) []) = Some (Inr 34, buf', l)"
    "length buf' = 32"
    unfolding all [symmetric] cmd(2) by auto
  obtain d' where d': "sc_transmit_apdu sc (sa_driver (h_nfc (uh_core u))) ?cmd ?buf = (Inr 34, buf', d')"
    using assms(5) [OF t(1)] by blast
  have "\<exists>u'. usb_transmit_counted sc ?cmd ?buf u = (Inr 34, buf', u')"
    using d' by (simp add: usb_transmit_counted_def transmit_counted_def count_transmit_def contact_ops_def Let_def)
  then have "probe_app sc AID_OPENPGP 6 u = None"
    using t(2) by (auto simp: probe_app_def answer_status_def idx_def)
  then show ?thesis using assms(4) by (simp add: enumerate_if_needed_def KNOWN_APPS_def)
qed

theorem enumeration_panics_on_t0_witness:
  "enumerate_if_needed t0_card_sc True app_enumeration_new
     (usb_handler_new t0_card_sc 1 (script (0xA4 # 0x61 # 40 # 0xC0 # replicate 40 0x6F @ [0x90, 0x00]) []) 0x046A) = None"
proof -
  let ?l = "script (0xA4 # 0x61 # 40 # 0xC0 # replicate 40 0x6F @ [0x90, 0x00]) []"
  have "sa_driver (h_nfc (uh_core (usb_handler_new t0_card_sc 1 ?l 0x046A))) = ?l"
    by (simp add: usb_handler_new_def check_card_change_def with_profile_def with_diagnostics_fold_def contact_ops_def Let_def)
  then have "\<exists>d'. sc_transmit_apdu t0_card_sc (sa_driver (h_nfc (uh_core (usb_handler_new t0_card_sc 1 ?l 0x046A)))) cmd buf = (r, buf', d')"
    if "transmit_apdu_t0 script_io cmd buf 5000 200 ?l = Some (r, buf', l)" for cmd buf r buf' l
    using that by (simp add: t0_card_sc_def)
  then show ?thesis
    by (intro enumeration_panics_on_t0 [of "replicate 40 0x6F" _ 5000 200])
      (simp_all add: app_enumeration_new_def nth_append)
qed

end
