(* ===== verification/Bitbang_Props.thy ===== *)
theory Bitbang_Props
  imports Bitbang
begin

text \<open>
  Characters on the bit-banged line: what the sender drives the receiver reads back, and a disturbed bit is a
  parity error.  Time is the cycle counter of a simulated line.
\<close>

section \<open>A line in time\<close>

text \<open>
  The line is high unless one of its two ends holds it low.  \<open>bl_wave\<close> is what the card does over time;
  \<open>bl_driven\<close> are the changes of the reader's end with their times, the last one first.  Every look at the
  cycle counter takes one cycle.
\<close>

record bit_line =
  bl_now :: nat
  bl_wave :: "nat \<Rightarrow> bool"
  bl_driven :: "(nat \<times> bool) list"

fun level_at :: "(nat \<times> bool) list \<Rightarrow> nat \<Rightarrow> bool" where
  "level_at [] n = True"
| "level_at ((t, l) # ds) n = (if t \<le> n then l else level_at ds n)"

definition bit_line_hw :: "bit_line bitbang_hw" where
  "bit_line_hw =
     \<lparr>hb_cyccnt = (\<lambda>s. (word_of_nat (bl_now s), s\<lparr>bl_now := bl_now s + 1\<rparr>)),
      hb_io_is_high = (\<lambda>s. (bl_wave s (bl_now s) \<and> level_at (bl_driven s) (bl_now s), s)),
      hb_io_set = (\<lambda>l s. s\<lparr>bl_driven := (bl_now s, l) # bl_driven s\<rparr>), hb_clk_set = (\<lambda>_ s. s), hb_rst_set = (\<lambda>_ s. s),
      hb_pwr_set = (\<lambda>_ s. s), hb_card_present = (\<lambda>_. True), hb_delay = (\<lambda>n s. s\<lparr>bl_now := bl_now s + n\<rparr>),
      hb_interrupts = (\<lambda>_ s. s), hb_card_clock = (\<lambda>_ s. s)\<rparr>"

lemma bit_line_simps [simp]:
  "hb_cyccnt bit_line_hw s = (word_of_nat (bl_now s), s\<lparr>bl_now := bl_now s + 1\<rparr>)"
  "hb_io_is_high bit_line_hw s = (bl_wave s (bl_now s) \<and> level_at (bl_driven s) (bl_now s), s)"
  "hb_io_set bit_line_hw l s = s\<lparr>bl_driven := (bl_now s, l) # bl_driven s\<rparr>" "hb_clk_set bit_line_hw l s = s"
  by (simp_all add: bit_line_hw_def)

lemma ahead: "k < 2 ^ 31 \<Longrightarrow> (word_of_nat (n + k) :: u32) - word_of_nat n < 0x80000000"
  by (simp add: word_less_nat_alt unat_of_nat)

lemma behind: "\<not> (word_of_nat n :: u32) - word_of_nat (n + 1) < 0x80000000"
  by (simp add: word_less_nat_alt unsigned_minus_1_eq_mask mask_eq_exp_minus_1)

lemma delay_until_line:
  assumes "bl_now s \<le> d" and "d < bl_now s + 2 ^ 31"
  shows "delay_until bit_line_hw (word_of_nat d) s = Some (s\<lparr>bl_now := d + 2\<rparr>)"
  using assms
proof (induction "d - bl_now s" arbitrary: s)
  case 0
  then have "d = bl_now s" by simp
  then show ?case
    using ahead [of 0 d] behind [of d]
    by (subst delay_until.simps) (simp, subst delay_until.simps, simp add: add.commute)
next
  case (Suc k)
  have "word_of_nat d - word_of_nat (bl_now s) < (0x80000000 :: u32)"
    using ahead [of "d - bl_now s" "bl_now s"] Suc.prems by simp
  moreover have "delay_until bit_line_hw (word_of_nat d) (s\<lparr>bl_now := bl_now s + 1\<rparr>) = Some (s\<lparr>bl_now := bl_now s + 1, bl_now := d + 2\<rparr>)"
    by (rule Suc.hyps(1)) (use Suc.hyps(2) Suc.prems in simp_all)
  ultimately show ?case by (subst delay_until.simps) simp
qed

section \<open>Receiving\<close>

text \<open>The receiver's own end is released, so it reads what the wave says.\<close>

definition released :: "bit_line \<Rightarrow> bool" where
  "released s \<longleftrightarrow> (\<forall>k \<ge> bl_now s. level_at (bl_driven s) k)"

lemma released_later: "released s \<Longrightarrow> bl_now s \<le> n \<Longrightarrow> released (s\<lparr>bl_now := n\<rparr>)"
  by (simp add: released_def)

lemma released_level: "released s \<Longrightarrow> level_at (bl_driven s) (bl_now s)"
  by (simp add: released_def)

lemma wait_start_line:
  assumes "released s" and "bl_now s \<le> start" and "\<not> bl_wave s start" and "\<forall>k. bl_now s \<le> k \<and> k < start \<longrightarrow> bl_wave s k"
    and "start \<le> limit + 1" and "limit < bl_now s + 2 ^ 31"
  shows "wait_start bit_line_hw (word_of_nat limit) s = Some (True, s\<lparr>bl_now := start\<rparr>)"
  using assms
proof (induction "start - bl_now s" arbitrary: s)
  case 0
  then have "start = bl_now s" by simp
  then show ?case using 0 by (subst wait_start.simps) simp
next
  case (Suc k)
  have "word_of_nat limit - word_of_nat (bl_now s) < (0x80000000 :: u32)"
    using ahead [of "limit - bl_now s" "bl_now s"] Suc.hyps(2) Suc.prems by simp
  moreover have "wait_start bit_line_hw (word_of_nat limit) (s\<lparr>bl_now := bl_now s + 1\<rparr>)
      = Some (True, s\<lparr>bl_now := bl_now s + 1, bl_now := start\<rparr>)"
    by (rule Suc.hyps(1)) (use Suc.hyps(2) Suc.prems in \<open>auto simp: released_later\<close>)
  moreover have "bl_wave s (bl_now s)" "level_at (bl_driven s) (bl_now s)"
    using Suc.hyps(2) Suc.prems by (auto simp: released_level)
  ultimately show ?case by (subst wait_start.simps) (simp add: not_le)
qed

lemma sample_bits_append:
  "sample_bits hw etu t0 (is @ js) acc t = Option.bind (sample_bits hw etu t0 is acc t) (\<lambda>(acc, t). sample_bits hw etu t0 js acc t)"
  by (induction "is" arbitrary: acc t) (auto split: prod.splits Option.bind_splits)

definition sampled :: "(nat \<Rightarrow> bool) \<Rightarrow> nat \<Rightarrow> u8" where
  "sampled w k = fold (\<lambda>i acc. if w i then acc OR push_bit i 1 else acc) [0..<k] 0"

lemma bit_sampled: "bit (sampled w k) j \<longleftrightarrow> j < k \<and> j < 8 \<and> w j"
  by (induction k) (auto simp: sampled_def bit_or_iff bit_exp_iff less_Suc_eq)

lemma sampled_byte: "(\<And>i. i < 8 \<Longrightarrow> w i = bit b i) \<Longrightarrow> sampled w 8 = b"
  by (rule bit_word_eqI) (auto simp: bit_sampled)

lemma word_of_nat_half: "e < 2 ^ 32 \<Longrightarrow> (word_of_nat e :: u32) div 2 = word_of_nat (e div 2)"
  by (simp add: word_unat_eq_iff unat_div unat_of_nat)

definition cell_middle :: "nat \<Rightarrow> nat \<Rightarrow> nat \<Rightarrow> nat" where
  "cell_middle start e i = start + (e * i + e + e div 2) + 2"

lemma sample_bits_line:
  assumes "released s" and "bl_now s = start + e div 2 + 2" and "2 \<le> e" and "e < 2 ^ 31"
  shows "sample_bits bit_line_hw (word_of_nat e) (word_of_nat start) [0..<k] 0 s =
         Some (sampled (\<lambda>i. bl_wave s (cell_middle start e i)) k, s\<lparr>bl_now := start + e * k + e div 2 + 2\<rparr>)"
proof (induction k)
  case 0
  show ?case using assms by (simp add: sampled_def)
next
  case (Suc k)
  have target: "(word_of_nat start :: u32) + (word_of_nat e + word_of_nat e div 2 + word_of_nat e * word_of_nat k)
      = word_of_nat (start + (e * k + e + e div 2))"
    using assms by (simp add: word_of_nat_half)
  have "delay_until bit_line_hw (word_of_nat (start + (e * k + e + e div 2))) (s\<lparr>bl_now := start + e * k + e div 2 + 2\<rparr>)
      = Some (s\<lparr>bl_now := start + e * k + e div 2 + 2, bl_now := cell_middle start e k\<rparr>)"
    unfolding cell_middle_def by (rule delay_until_line) (use assms in simp_all)
  moreover have "released (s\<lparr>bl_now := cell_middle start e k\<rparr>)"
    using assms by (intro released_later) (simp_all add: cell_middle_def)
  ultimately show ?case
    using Suc released_level [of "s\<lparr>bl_now := cell_middle start e k\<rparr>"]
    by (simp add: sample_bits_append target sampled_def) (simp add: cell_middle_def algebra_simps)
qed

lemma bb_recv_line:
  assumes "2 \<le> e" and "13 * e < 2 ^ 31" and "limit < 2 ^ 31" and "bl_now s < start" and "start \<le> bl_now s + limit"
    and "\<not> bl_wave s start" and "\<forall>k. bl_now s < k \<and> k < start \<longrightarrow> bl_wave s k"
    and "byte = sampled (\<lambda>i. bl_wave s (cell_middle start e i)) 8"
  shows "\<exists>s'. bb_recv bit_line_hw (word_of_nat e) protocol (word_of_nat limit) s =
           Some (if odd (count_ones byte) = bl_wave s (cell_middle start e 8) then Inr byte else Inl ScParityError, s')"
proof -
  define s1 where "s1 = s\<lparr>bl_driven := (bl_now s, True) # bl_driven s\<rparr>"
  have rel: "released (s1\<lparr>bl_now := n\<rparr>)" if "bl_now s \<le> n" for n
    using that by (simp add: released_def s1_def)
  have wave: "bl_wave s1 = bl_wave s" by (simp add: s1_def)
  have half_e: "(word_of_nat e :: u32) div 2 = word_of_nat (e div 2)"
    using assms by (intro word_of_nat_half) simp
  have wait: "wait_start bit_line_hw (word_of_nat (bl_now s + limit)) (s1\<lparr>bl_now := bl_now s + 1\<rparr>) = Some (True, s1\<lparr>bl_now := start\<rparr>)"
    using wait_start_line [of "s1\<lparr>bl_now := bl_now s + 1\<rparr>" start "bl_now s + limit"] assms rel [of "bl_now s + 1"]
    by (simp add: wave)
  have half: "delay_until bit_line_hw (word_of_nat (start + e div 2)) (s1\<lparr>bl_now := start + 1\<rparr>) = Some (s1\<lparr>bl_now := start + e div 2 + 2\<rparr>)"
    using delay_until_line [of "s1\<lparr>bl_now := start + 1\<rparr>" "start + e div 2"] assms by simp
  have bits: "sample_bits bit_line_hw (word_of_nat e) (word_of_nat start) [0..<8] 0 (s1\<lparr>bl_now := start + e div 2 + 2\<rparr>)
      = Some (byte, s1\<lparr>bl_now := start + e * 8 + e div 2 + 2\<rparr>)"
    using sample_bits_line [of "s1\<lparr>bl_now := start + e div 2 + 2\<rparr>" start e 8] assms rel [of "start + e div 2 + 2"]
    by (simp add: wave)
  have par: "delay_until bit_line_hw (word_of_nat (start + (e * 9 + e div 2))) (s1\<lparr>bl_now := start + e * 8 + e div 2 + 2\<rparr>)
      = Some (s1\<lparr>bl_now := cell_middle start e 8\<rparr>)"
    using delay_until_line [of "s1\<lparr>bl_now := start + e * 8 + e div 2 + 2\<rparr>" "start + (e * 9 + e div 2)"] assms
    by (simp add: cell_middle_def)
  have tail: "delay_until bit_line_hw (word_of_nat (start + e * n)) (s1\<lparr>bl_now := cell_middle start e 8\<rparr>)
      = Some (s1\<lparr>bl_now := start + e * n + 2\<rparr>)" if "n = 11 \<or> n = 12" for n
    using that delay_until_line [of "s1\<lparr>bl_now := cell_middle start e 8\<rparr>" "start + e * n"] assms by (auto simp: cell_middle_def)
  have level: "level_at (bl_driven s1) (cell_middle start e 8)"
    using assms by (simp add: s1_def cell_middle_def)
  show ?thesis
    using tail [of 11] tail [of 12] wait half bits par level wave
    by (simp add: bb_recv_def half_e s1_def algebra_simps)
qed

section \<open>Sending\<close>

lemma drive_bits_append:
  "drive_bits hw etu t0 byte (is @ js) t = Option.bind (drive_bits hw etu t0 byte is t) (drive_bits hw etu t0 byte js)"
  by (induction "is" arbitrary: t) (auto split: Option.bind_splits)

definition bit_edges :: "nat \<Rightarrow> nat \<Rightarrow> u8 \<Rightarrow> nat \<Rightarrow> (nat \<times> bool) list" where
  "bit_edges start e byte k = rev (map (\<lambda>i. (start + e * (i + 1) + 2, bit byte i)) [0..<k])"

lemma drive_bits_line:
  assumes "bl_now s = start + e + 2" and "2 \<le> e" and "e < 2 ^ 31"
  shows "drive_bits bit_line_hw (word_of_nat e) (word_of_nat start) byte [0..<k] s =
         Some (s\<lparr>bl_now := start + e * (k + 1) + 2, bl_driven := bit_edges start e byte k @ bl_driven s\<rparr>)"
proof (induction k)
  case 0
  show ?case using assms by (simp add: bit_edges_def)
next
  case (Suc k)
  define u where "u = s\<lparr>bl_now := start + e * (k + 1) + 2, bl_driven := bit_edges start e byte (Suc k) @ bl_driven s\<rparr>"
  have "(word_of_nat start :: u32) + word_of_nat e * (1 + word_of_nat k + 1) = word_of_nat (start + e * (k + 2))"
    by (simp add: algebra_simps)
  moreover have "delay_until bit_line_hw (word_of_nat (start + e * (k + 2))) u = Some (u\<lparr>bl_now := start + e * (k + 2) + 2\<rparr>)"
    by (rule delay_until_line) (use assms in \<open>simp_all add: u_def algebra_simps\<close>)
  moreover have "(drop_bit k byte AND 1 \<noteq> 0) = bit byte k"
    by (simp add: and_one_eq bit_iff_odd_drop_bit mod_2_eq_odd)
  ultimately show ?case using Suc
    by (simp add: drive_bits_append bit_edges_def u_def) 
qed

text \<open>The changes of the sender's end during one character, the last one first.\<close>

definition character_edges :: "nat \<Rightarrow> nat \<Rightarrow> u8 \<Rightarrow> (nat \<times> bool) list" where
  "character_edges start e byte =
     (start + e * 10 + 2, True) # (start + e * 9 + 2, odd (count_ones byte)) # bit_edges start e byte 8 @ [(start, False)]"

lemma bb_send_line:
  assumes "bl_now s = start" and "2 \<le> e" and "13 * e < 2 ^ 31" and "bl_wave s = (\<lambda>_. True)"
  shows "bb_send bit_line_hw (word_of_nat e) byte s =
         Some (True, True, s\<lparr>bl_now := start + e * 12 + 2, bl_driven := character_edges start e byte @ bl_driven s\<rparr>)"
proof -
  define s1 where "s1 = s\<lparr>bl_driven := (start, False) # bl_driven s\<rparr>"
  have first: "delay_until bit_line_hw (word_of_nat (start + e)) (s1\<lparr>bl_now := start + 1\<rparr>) = Some (s1\<lparr>bl_now := start + e + 2\<rparr>)"
    using delay_until_line [of "s1\<lparr>bl_now := start + 1\<rparr>" "start + e"] assms by simp
  define s2 where "s2 = s1\<lparr>bl_now := start + e * 9 + 2, bl_driven := bit_edges start e byte 8 @ bl_driven s1\<rparr>"
  have bits: "drive_bits bit_line_hw (word_of_nat e) (word_of_nat start) byte [0..<8] (s1\<lparr>bl_now := start + e + 2\<rparr>) = Some s2"
    using drive_bits_line [of "s1\<lparr>bl_now := start + e + 2\<rparr>" start e byte 8] assms by (simp add: s2_def)
  define s3 where "s3 = s2\<lparr>bl_driven := (start + e * 9 + 2, odd (count_ones byte)) # bl_driven s2\<rparr>"
  have par: "delay_until bit_line_hw (word_of_nat (start + e * 10)) s3 = Some (s3\<lparr>bl_now := start + e * 10 + 2\<rparr>)"
    using delay_until_line [of s3 "start + e * 10"] assms by (simp add: s3_def s2_def)
  define s4 where "s4 = s3\<lparr>bl_now := start + e * 10 + 2, bl_driven := (start + e * 10 + 2, True) # bl_driven s3\<rparr>"
  have tail: "delay_until bit_line_hw (word_of_nat (start + e * 12)) s4 = Some (s4\<lparr>bl_now := start + e * 12 + 2\<rparr>)"
    using delay_until_line [of s4 "start + e * 12"] assms by (simp add: s4_def)
  have parity: "(count_ones byte mod 2 = Suc 0) = odd (count_ones byte)" by presburger
  have "bb_send bit_line_hw (word_of_nat e) byte s = Some (True, True, s4\<lparr>bl_now := start + e * 12 + 2\<rparr>)"
    using first bits par tail assms(1,4)
    by (simp add: bb_send_def parity s1_def s2_def s3_def s4_def)
  then show ?thesis by (simp add: s4_def s3_def s2_def s1_def character_edges_def)
qed

section \<open>The character as a wave\<close>

lemma bit_edges_level:
  assumes "i < k" and "x < e"
  shows "level_at (bit_edges start e byte k @ ds) (start + e * (i + 1) + 2 + x) = bit byte i"
  using assms
proof (induction k)
  case (Suc k)
  have "i < k \<Longrightarrow> e * i + e + x < e * k + e" 
  proof -
    assume "i < k"
    then have "e * (i + 1) \<le> e * k" by (intro mult_le_mono2) simp
    then show ?thesis using \<open>x < e\<close> by simp
  qed
  then show ?case using Suc by (cases "i = k") (auto simp: bit_edges_def)
qed simp

lemma bit_edges_before: "n < start + e + 2 \<Longrightarrow> level_at (bit_edges start e byte k @ ds) n = level_at ds n"
  by (induction k) (auto simp: bit_edges_def)

lemma character_level:
  assumes "x < e" and "i < 9"
  shows "level_at (character_edges start e byte @ ds) (start + e * (i + 1) + 2 + x) = (if i = 8 then odd (count_ones byte) else bit byte i)"
proof (cases "i = 8")
  case True
  then show ?thesis using assms by (simp add: character_edges_def)
next
  case False
  have "e * (i + 1) \<le> e * 8" using False assms by (intro mult_le_mono2) simp
  then have "\<not> 8 * e \<le> e * i + x" "\<not> 9 * e \<le> e * i + x"
    unfolding distrib_left using \<open>x < e\<close> by linarith+
  then show ?thesis using False assms bit_edges_level [of i 8 x e start byte] by (simp add: character_edges_def)
qed

lemma character_start:
  assumes "2 \<le> e"
  shows "\<not> level_at (character_edges start e byte @ ds) start"
    and "n < start \<Longrightarrow> level_at (character_edges start e byte @ ds) n = level_at ds n"
  using assms by (simp_all add: character_edges_def bit_edges_before)

lemma cell_middle_offset: "cell_middle start e i = start + e * (i + 1) + 2 + e div 2"
  by (simp add: cell_middle_def)

lemma odd_filter_flip: "odd (length (filter (\<lambda>i. p i \<noteq> (i = j)) [0..<n])) \<longleftrightarrow> odd (length (filter p [0..<n])) \<noteq> (j < n)"
  by (induction n) (auto simp: less_Suc_eq)

lemma count_ones_sampled: "count_ones (sampled w 8) = length (filter w [0..<8])"
  unfolding count_ones_def by (rule arg_cong [where f = length], rule filter_cong) (auto simp: bit_sampled)

section \<open>A character between two boards\<close>

definition hearing :: "(nat \<Rightarrow> bool) \<Rightarrow> bit_line smartcard_bitbang \<Rightarrow> bit_line smartcard_bitbang" where
  "hearing w d = on_pins (bl_wave_update (\<lambda>_. w)) d"

definition disturbed :: "nat \<Rightarrow> nat \<Rightarrow> nat \<Rightarrow> (nat \<Rightarrow> bool) \<Rightarrow> nat \<Rightarrow> bool" where
  "disturbed start e j w n \<longleftrightarrow> w n \<noteq> (start + e * (j + 1) + 2 \<le> n \<and> n < start + e * (j + 2) + 2)"

lemma disturbed_cell:
  assumes "x < e"
  shows "disturbed start e j w (start + e * (i + 1) + 2 + x) \<longleftrightarrow> w (start + e * (i + 1) + 2 + x) \<noteq> (i = j)"
proof -
  have "i < j \<Longrightarrow> e * i + e \<le> e * j" "j < i \<Longrightarrow> e * j + e \<le> e * i"
    using mult_le_mono2 [of "i + 1" j e] mult_le_mono2 [of "j + 1" i e] by simp_all
  then show ?thesis using assms by (cases i j rule: linorder_cases) (auto simp: disturbed_def)
qed

text \<open>C25: A character sent by one board is read back by another on the same line as the same byte, in either
  protocol and at any common character rate whose time unit has at least two cycles and fits thirteen times
  into half the cycle counter; the sender sees no readback error.  The line is idle before the character,
  and the receiver is listening when it starts, with a timeout of less than half the counter that has not
  run out.  With any one of the nine data and parity cells inverted the receiver reports a parity error.\<close>

theorem character_roundtrip:
  assumes "2 \<le> e" and "13 * e < 2 ^ 31" and "limit < 2 ^ 31"
    and "sb_etu_cycles a = word_of_nat e" and "sb_etu_cycles b = word_of_nat e"
    and "bl_now (sb_line b) < bl_now (sb_line a)" and "bl_now (sb_line a) \<le> bl_now (sb_line b) + limit"
    and "bl_wave (sb_line a) = (\<lambda>_. True)" and "\<forall>n < bl_now (sb_line a). level_at (bl_driven (sb_line a)) n"
  shows "\<exists>a'. bb_send_byte bit_line_hw byte a = Some (Inr (), a') \<and> sb_diag a' = sb_diag a \<and>
           (\<exists>b'. recv_byte_cycles bit_line_hw (word_of_nat limit) (hearing (level_at (bl_driven (sb_line a'))) b) = Some (Inr byte, b')) \<and>
           (\<forall>j < 9. \<exists>b'. recv_byte_cycles bit_line_hw (word_of_nat limit)
              (hearing (disturbed (bl_now (sb_line a)) e j (level_at (bl_driven (sb_line a')))) b) = Some (Inl ScParityError, b'))"
proof -
  define start where "start = bl_now (sb_line a)"
  define w where "w = level_at (character_edges start e byte @ bl_driven (sb_line a))"
  have cells: "w (cell_middle start e i) = (if i = 8 then odd (count_ones byte) else bit byte i)" if "i < 9" for i
    unfolding w_def cell_middle_offset by (rule character_level) (use that assms in simp_all)
  have flipped: "disturbed start e j w (cell_middle start e i) = (w (cell_middle start e i) \<noteq> (i = j))" for i j
    unfolding cell_middle_offset by (rule disturbed_cell) (use assms in simp)
  have heard: "\<exists>b'. recv_byte_cycles bit_line_hw (word_of_nat limit) (hearing v b) = Some
      (if odd (count_ones (sampled (\<lambda>i. v (cell_middle start e i)) 8)) = v (cell_middle start e 8)
       then Inr (sampled (\<lambda>i. v (cell_middle start e i)) 8) else Inl ScParityError, b')"
    if "\<not> v start" "\<forall>n < start. v n" for v
    using bb_recv_line [of e limit "sb_line (hearing v b)" start _ "sb_protocol b", OF _ _ _ _ _ _ _ refl] assms that
    by (auto simp: recv_byte_cycles_def hearing_def on_pins_def start_def)
  have idle: "\<not> w start" "\<forall>n < start. w n"
    using assms by (auto simp: w_def character_start start_def)
  have odd_flip: "odd (count_ones (sampled (\<lambda>i. disturbed start e j w (cell_middle start e i)) 8)) = (odd (count_ones byte) \<noteq> (j < 8))" for j
  proof -
    have "filter (\<lambda>i. disturbed start e j w (cell_middle start e i)) [0..<8] = filter (\<lambda>i. bit byte i \<noteq> (i = j)) [0..<8]"
      by (rule filter_cong) (auto simp: flipped cells)
    then show ?thesis by (simp only: count_ones_sampled odd_filter_flip) (simp add: count_ones_def)
  qed
  have "sampled (\<lambda>i. w (cell_middle start e i)) 8 = byte" by (rule sampled_byte) (simp add: cells)
  then have "\<exists>b'. recv_byte_cycles bit_line_hw (word_of_nat limit) (hearing w b) = Some (Inr byte, b')"
    using heard [OF idle] cells [of 8] by simp
  moreover have "\<exists>b'. recv_byte_cycles bit_line_hw (word_of_nat limit) (hearing (disturbed start e j w) b) = Some (Inl ScParityError, b')"
    if "j < 9" for j
    using heard [of "disturbed start e j w"] idle that odd_flip [of j] cells [of 8] flipped [of j 8]
    by (auto simp: disturbed_def)
  moreover have "bb_send_byte bit_line_hw byte a = Some (Inr (), a\<lparr>sb_line := (sb_line a)
      \<lparr>bl_now := start + e * 12 + 2, bl_driven := character_edges start e byte @ bl_driven (sb_line a)\<rparr>\<rparr>)"
    using bb_send_line [of "sb_line a" start e byte] assms by (simp add: bb_send_byte_def start_def)
  ultimately show ?thesis by (simp add: w_def start_def)
qed

text \<open>Two boards as \<open>new\<close> leaves them, the sender starting a thousand cycles after the receiver.\<close>
theorem character_roundtrip_witness:
  "\<exists>a'. bb_send_byte bit_line_hw 0x3B (bitbang_new bit_line_hw \<lparr>bl_now = 1000, bl_wave = (\<lambda>_. True), bl_driven = []\<rparr>) = Some (Inr (), a') \<and>
     (\<exists>b'. recv_byte_cycles bit_line_hw 864000000 (hearing (level_at (bl_driven (sb_line a')))
        (bitbang_new bit_line_hw \<lparr>bl_now = 0, bl_wave = (\<lambda>_. True), bl_driven = []\<rparr>)) = Some (Inr 0x3B, b'))"
  using character_roundtrip [of 15996 864000000 "bitbang_new bit_line_hw \<lparr>bl_now = 1000, bl_wave = (\<lambda>_. True), bl_driven = []\<rparr>"
      "bitbang_new bit_line_hw \<lparr>bl_now = 0, bl_wave = (\<lambda>_. True), bl_driven = []\<rparr>" "0x3B"]
  by (auto simp: bitbang_new_def bit_line_hw_def)

end
