(* ===== verification/Spec2Isabelle.thy ===== *)
theory Spec2Isabelle
  imports Handler_Pin Tcp_Server Spp_Server_Props Vpcd_Props T1_Engine_Props Contact_Atr Contact_Link Pinpad_Props
    Firmware_Support Pn7160_Props Pn7160_Reader Nci_Listen_Props Nci_Hal Mfrc522_Reader Usb_Props Device_Profile
    Hal_I2c App_Enum Bitbang_Props
begin

text \<open>
  A model of the CCID smart-card reader firmware (\<open>src/\<close>) with its correctness theorems.

  \<^bold>\<open>The program.\<close>  A reader receives CCID messages from a host and serves them with a card behind a slot
  driver.  \<open>ccid-protocol\<close> defines the messages and reads ATRs; \<open>ccid-core\<close> is the command handler;
  \<open>card-interface\<close> is the contract of a slot driver.  The contactless readers wrap an NFC driver
  (\<open>ccid-service/nfc.rs\<close>, \<open>frontend.rs\<close>) as a slot driver, terminate the host's T=1 protocol
  (\<open>t1.rs\<close>), route APDUs through it (\<open>ccid_handler.rs\<close>) and serve a serial line
  (\<open>ccid-transport-serial\<close>, \<open>ccid_serial_server.rs\<close>) that is carried by USB-CDC, TCP, Bluetooth or, with
  its own message format, the virtual-reader protocol (\<open>cdc_burst.rs\<close>, \<open>tcp_server.rs\<close>,
  \<open>spp_server.rs\<close>, \<open>vpcd.rs\<close>).  The contact firmware (\<open>firmware/ccid-firmware\<close>) drives a card line with
  its own ATR, PPS, T=0 and T=1 routines and a PIN pad, and serves the host as a USB class
  (\<open>ccid_core.rs\<close>, \<open>ccid.rs\<close>, \<open>device_profile.rs\<close>) around the same handler core.  The contactless firmware
  (\<open>firmware/esp32-ccid\<close>) has two NFC drivers: a PN7160 controller that speaks NCI (\<open>pn7160-nci\<close>), which can
  also play a card, and an MFRC522 transceiver (\<open>mfrc522-pcd\<close>) under an external ISO 14443 stack.

  \<^bold>\<open>Conventions.\<close>  Machine integers are words of the source's width, \<open>usize\<close> is a natural number (its
  32-bit wrap-around is written out where a sum can reach it), a struct is a record, an enum a datatype.
  A mutable buffer is passed in and returned.  \<open>outcome\<close> is \<open>option\<close>, its \<open>None\<close> a panic; a \<open>Result\<close> is a
  sum with the error on the left.  Traits are records of operations over a state type; code outside
  \<open>src/\<close> (the bounded vectors of \<open>heapless\<close>, the card, the wire, the clock, the USB stack, the register
  driver and the ISO 14443 stack of the MFRC522, the pins and buses of \<open>embedded-hal\<close>) enters through such records
  or as arguments, with its documented behaviour as locale assumptions.  Log lines have no model.

  \<^bold>\<open>Theories.\<close>
  \<^item> \<open>Prelude\<close>, \<open>Codec\<close>, \<open>Heapless\<close>: words, lists, outcomes, fixed-size records, bounded vectors.
  \<^item> \<open>Ccid_Types\<close>, \<open>Atr\<close>, \<open>Response\<close>, \<open>Diagnostics\<close>, \<open>Secure\<close>: \<open>types.rs\<close>, \<open>status.rs\<close>, \<open>atr.rs\<close>, the
    writers of \<open>ccid-core/lib.rs\<close>, the counter blocks, the PIN structures of \<open>secure.rs\<close>.
  \<^item> \<open>Driver\<close>, \<open>Nfc\<close>, \<open>Frontend\<close>: the driver contract as locale \<open>slot_driver\<close>, the NFC driver trait as
    locale \<open>nfc_driver\<close>, and its implementations by the adapter, the mock and the front-end combinators.
  \<^item> \<open>Handler\<close> with \<open>Handler_Facts\<close>, \<open>Handler_Props\<close>, \<open>Handler_Commands\<close>, \<open>Handler_Pin\<close>, \<open>Handler_Room\<close>:
    \<open>handler.rs\<close> for both reader profiles; every message is answered, the state invariant, exactly which message
    panics, the effect of each command, and when an answer is missing for want of room.
  \<^item> \<open>T1\<close>, \<open>T1_Props\<close>: \<open>t1.rs\<close>; well-formed blocks, chains assembled and delivered, idempotent retries.
  \<^item> \<open>Ccid_Handler\<close> with \<open>_Facts\<close> and \<open>_Props\<close>: \<open>ccid_handler.rs\<close>; an APDU over T=1 reaches the card once
    and its answer the host.
  \<^item> \<open>Framing\<close>, \<open>Serial_Server\<close>, \<open>Serial_Server_Props\<close>: frame parser and serving core; round trip, total
    parsing, one answer per frame, the response window.
  \<^item> \<open>Cdc_Burst\<close>, \<open>Tcp_Server\<close>, \<open>Spp_Server\<close>, \<open>Vpcd\<close> (and \<open>_Props\<close>), \<open>Ota_Validity\<close>: the carriers and the
    update gate; the receive ring of the Bluetooth carrier refines a bounded queue.
  \<^item> \<open>T1_Engine\<close>, \<open>Pps_Fsm\<close>, \<open>Smartcard_Common\<close>, \<open>T0_Exchange\<close>, \<open>Contact_Atr\<close>, \<open>Contact_Link\<close> (and \<open>_Props\<close>):
    the contact side; delivery against a conforming card, the T=0 dialogues, agreement of the two ATR
    parsers, one block per transfer, speed negotiation.
  \<^item> \<open>Contact_Uart\<close>, \<open>Contact_Uart_Props\<close>: the USART driver on the registers of its peripheral and the self-healing
    wrapper of \<open>main.rs\<close> as the driver of the USB handler; what the byte operations keep the exchanges keep
    (locale \<open>line_invariant\<close>), and the wire speed is that of the ATR (locale \<open>brr_register\<close>).
  \<^item> \<open>Bitbang\<close>, \<open>Bitbang_Props\<close>: the bit-banged driver on pins and a cycle counter and its wrapper; on a line
    simulated cycle by cycle a sent character is read back, and a disturbed cell is a parity error.
  \<^item> \<open>App_Enum\<close>: the application lookup of the display firmware; one SELECT per application and card, and the
    panic on a long T=0 answer.
  \<^item> \<open>Hal_I2c\<close>: the bus adapter under the MFRC522; each group of operations is one bus transaction.
  \<^item> \<open>Pinpad\<close>, \<open>Pinpad_Props\<close>: the PIN-pad contexts; digits are wiped, a PIN change needs the same PIN twice.
  \<^item> \<open>Nci\<close>, \<open>Nci_Reader\<close>, \<open>Nci_Link\<close>, \<open>Nci_Exchange\<close>: frames, notifications and the reader session of
    \<open>pn7160-nci/lib.rs\<close> over a link (locale \<open>nci_link\<close>, with \<open>nci_clock\<close> for its time); an exchange keeps its
    time budget and delivers the APDU and the answer against a controller that follows NCI.
  \<^item> \<open>Pn7160_Driver\<close>, \<open>Pn7160_Nfc\<close>, \<open>Pn7160_Facts\<close>, \<open>Pn7160_Props\<close>, \<open>Pn7160_Reader\<close>: \<open>driver.rs\<close> and the
    firmware adapter as an \<open>nfc_driver\<close>; the driver's invariant, a presence poll that never blocks, sessions
    closed by failures, and an APDU from the host's T=1 block through the whole reader to the card and back.
  \<^item> \<open>Nci_Listen\<close>, \<open>Nci_Listen_Props\<close>, \<open>Nci_Hal\<close>: card emulation (\<open>listen.rs\<close>, \<open>responder.rs\<close>, one round of
    \<open>pn7160_listen.rs\<close>) and the \<open>embedded-hal\<close> transport as an \<open>nci_link\<close>; a reader in the field gets its
    answer, and a transaction returns.
  \<^item> \<open>Mfrc522_Pcd\<close>, \<open>Mfrc522_Props\<close>, \<open>Mfrc522_Nfc\<close>, \<open>Mfrc522_Reader\<close>, \<open>Contactless_Atr\<close>: the transceiver, its
    timeout timer at the register level and the driver as an \<open>nfc_driver\<close>; the timeout covers the card's
    frame waiting time, presence is debounced, and the ATR made up for a card parses to what was meant.
  \<^item> \<open>Usb_Handler\<close>, \<open>Usb_Class\<close>, \<open>Usb_Facts\<close>, \<open>Usb_Drivers\<close>, \<open>Usb_Props\<close>, \<open>Device_Profile\<close>: the contract of a contact
    driver as locale \<open>contact_driver\<close>, met by the USART driver, the bit-banged driver and the scripted one;
    \<open>smartcard_driver\<close> (with a sublocale to \<open>slot_driver\<close>) bounds the byte counts of a driver as well.  The USB
    handler and class over endpoints (locale \<open>usb_wire\<close>) and the reader profiles: messages assembled from any
    packets and answered, answers sent whole, the answers of PIN entries that are built and not sent, and
    descriptors that agree with the handler.
  \<^item> \<open>Firmware_Support\<close>: failure tracker, cycle clocks, log queue, update authorisation.

  \<^bold>\<open>Loops.\<close>  Loops over data are structural or have a termination proof.  The loops that only a card
  or a controller ends (\<open>t1_send_loop\<close>, \<open>t1_recv_loop\<close>, \<open>t0_procedure\<close>, \<open>t0_loop\<close>, \<open>negotiate_loop\<close>,
  \<open>hal_transact_loop\<close>, \<open>drain_all\<close>, \<open>credit_frames\<close>, \<open>drain_rx\<close>, \<open>atr_loop\<close>, \<open>tc_loop\<close>) are partial functions with \<open>None\<close> for no return,
  and the liveness theorems about them state that they return.  The host side of the T=1 theorems collects a chain
  with fuel, one more than the length of the answer, which is enough because every block carries a byte.

  \<^bold>\<open>Not modelled.\<close>  Register access, interrupt and start-up code, radio and network stacks, the touch screen,
  the board tables and the host-side tools: they have no logic that can be stated without the hardware or
  the external libraries they call.
\<close>

end
